(* ===== verification/Prelude.thy ===== *)
theory Prelude
  imports Complex_Main
begin

text \<open>
  Shared vocabulary of the development: rows of a database table and the ORM calls the code
  makes on them, sums over tables, decimal rounding, and reachability of a step relation.

  A table is the list of its rows in primary key order.  The ORM calls are read as follows:
  \<^verbatim>\<open>objects.get(pk=k)\<close> and \<^verbatim>\<open>filter(...).first()\<close> are \<open>row_get\<close> and \<^const>\<open>find\<close>,
  \<^verbatim>\<open>filter(...)\<close> is \<^const>\<open>filter\<close>, \<^verbatim>\<open>instance.save()\<close> of an existing row is \<open>row_save\<close>,
  \<^verbatim>\<open>objects.create(...)\<close> is \<open>row_create\<close> and \<^verbatim>\<open>instance.delete()\<close> is \<open>row_delete\<close>.
  Numbers of type \<^verbatim>\<open>Decimal\<close> are exact rationals; the places where the code rounds call
  \<open>round_half_up\<close> or \<open>round_half_even\<close>.
\<close>

named_theorems row_simps
named_theorems step_intros

type_synonym decimal = rat
type_synonym pk = nat

subsection \<open>Rows\<close>

definition row_get :: "('r \<Rightarrow> 'k) \<Rightarrow> 'k \<Rightarrow> 'r list \<Rightarrow> 'r option" where
  "row_get key k t = find (\<lambda>r. key r = k) t"

definition row_save :: "('r \<Rightarrow> 'k) \<Rightarrow> 'r \<Rightarrow> 'r list \<Rightarrow> 'r list" where
  "row_save key r t = map (\<lambda>x. if key x = key r then r else x) t"

definition row_create :: "'r \<Rightarrow> 'r list \<Rightarrow> 'r list" where
  "row_create r t = t @ [r]"

definition row_delete :: "('r \<Rightarrow> 'k) \<Rightarrow> 'k \<Rightarrow> 'r list \<Rightarrow> 'r list" where
  "row_delete key k t = filter (\<lambda>x. key x \<noteq> k) t"

text \<open>The primary key a table hands out next: larger than every key in use.\<close>

definition next_pk :: "('r \<Rightarrow> pk) \<Rightarrow> 'r list \<Rightarrow> pk" where
  "next_pk key t = Suc (foldr max (map key t) 0)"

lemma foldr_max_ge: "x \<in> set xs \<Longrightarrow> x \<le> foldr max xs (0::nat)"
  by (induction xs) (auto simp: le_max_iff_disj)

lemma next_pk_fresh: "r \<in> set t \<Longrightarrow> key r < next_pk key t"
  unfolding next_pk_def by (rule le_imp_less_Suc, rule foldr_max_ge) simp

lemma next_pk_notin [simp]: "next_pk key t \<notin> key ` set t"
  by (auto dest: next_pk_fresh [of _ t key])

lemma row_get_Some: "row_get key k t = Some r \<Longrightarrow> r \<in> set t \<and> key r = k"
  by (auto simp: row_get_def find_Some_iff)

lemma row_get_None: "row_get key k t = None \<longleftrightarrow> k \<notin> key ` set t"
  by (auto simp: row_get_def find_None_iff)

lemma row_get_unique:
  assumes "distinct (map key t)" and "r \<in> set t"
  shows "row_get key (key r) t = Some r"
proof -
  obtain r' where r': "row_get key (key r) t = Some r'"
    using assms(2) by (cases "row_get key (key r) t") (auto simp: row_get_None)
  then have "r' \<in> set t" "key r' = key r" by (auto dest: row_get_Some)
  then have "r' = r" using assms by (auto simp: distinct_map inj_on_def)
  with r' show ?thesis by simp
qed

lemma map_key_row_save [row_simps, simp]: "map key (row_save key r t) = map key t"
  by (simp add: row_save_def)

lemma length_row_save [simp]: "length (row_save key r t) = length t"
  by (simp add: row_save_def)

lemma set_row_save:
  "set (row_save key r t) = (if key r \<in> key ` set t then {r} else {}) \<union> {x \<in> set t. key x \<noteq> key r}"
  unfolding row_save_def by (auto simp: image_iff; metis)

lemma row_get_save: "row_get key k (row_save key r t) =
  (if k = key r then (if k \<in> key ` set t then Some r else None) else row_get key k t)"
  unfolding row_get_def row_save_def by (induction t) auto

lemma row_get_create:
  "row_get key k (row_create r t) =
     (case row_get key k t of Some x \<Rightarrow> Some x | None \<Rightarrow> if key r = k then Some r else None)"
  unfolding row_get_def row_create_def by (induction t) auto

lemma row_get_delete:
  "row_get key k (row_delete key j t) = (if k = j then None else row_get key k t)"
  unfolding row_get_def row_delete_def by (induction t) auto

lemma row_get_map:
  "(\<And>x. key (f x) = key x) \<Longrightarrow> row_get key k (map f t) = map_option f (row_get key k t)"
  by (induction t) (auto simp: row_get_def)

lemma map_row_create [row_simps, simp]: "map f (row_create r t) = map f t @ [f r]"
  by (simp add: row_create_def)

lemma set_row_create [simp]: "set (row_create r t) = insert r (set t)"
  by (auto simp: row_create_def)

lemma distinct_row_create [row_simps]:
  "distinct (map key (row_create r t)) \<longleftrightarrow> distinct (map key t) \<and> key r \<notin> key ` set t"
  by auto

lemma set_row_delete [simp]: "set (row_delete key k t) = {x \<in> set t. key x \<noteq> k}"
  by (auto simp: row_delete_def)

lemma distinct_row_delete [row_simps]:
  "distinct (map key t) \<Longrightarrow> distinct (map key (row_delete key k t))"
  by (simp add: row_delete_def distinct_map_filter)

text \<open>A write that keeps the second key of the row it replaces.\<close>

lemma map_row_save_same:
  assumes "distinct (map key t)" and "r0 \<in> set t" and "key r = key r0" and "f r = f r0"
  shows "map f (row_save key r t) = map f t"
proof -
  have "f (if key x = key r then r else x) = f x" if "x \<in> set t" for x
    using assms that by (auto simp: distinct_map inj_on_def dest: bspec)
  then show ?thesis by (simp add: row_save_def)
qed

lemma set_row_save_member:
  assumes "distinct (map key t)" and "r0 \<in> set t" and "key r = key r0"
  shows "set (row_save key r t) = insert r (set t - {r0})"
proof -
  have "x = r0" if "x \<in> set t" "key x = key r" for x
    using assms that by (auto simp: distinct_map inj_on_def)
  moreover have "key r \<in> key ` set t" using assms(2,3) by force
  ultimately show ?thesis using assms unfolding set_row_save by auto
qed

lemma find_member: "find P xs = Some x \<Longrightarrow> x \<in> set xs \<and> P x"
  by (auto simp: find_Some_iff)

lemma find_empty: "find P xs = None \<Longrightarrow> x \<in> set xs \<Longrightarrow> \<not> P x"
  by (auto simp: find_None_iff)

lemma unique_key:
  "distinct (map f t) \<Longrightarrow> x \<in> set t \<Longrightarrow> y \<in> set t \<Longrightarrow> f x = f y \<Longrightarrow> x = y"
  by (auto simp: distinct_map inj_on_def)

subsection \<open>Sums over tables\<close>

text \<open>
  How a sum of weights over a table changes under the three writes.  The weight is any
  function into a group, so one lemma serves every bucket.
\<close>

lemma sum_row_create: "(\<Sum>x\<leftarrow>row_create r t. w x) = (\<Sum>x\<leftarrow>t. w x) + (w r :: 'a::ab_group_add)"
  by simp

lemma sum_row_save_absent:
  "key r \<notin> key ` set t \<Longrightarrow> row_save key r t = t"
  unfolding row_save_def by (rule map_idI) (metis image_eqI)

lemma sum_row_save:
  fixes w :: "'r \<Rightarrow> 'a::ab_group_add"
  assumes "distinct (map key t)" and "r0 \<in> set t" and "key r0 = key r"
  shows "(\<Sum>x\<leftarrow>row_save key r t. w x) = (\<Sum>x\<leftarrow>t. w x) - w r0 + w r"
  using assms
proof (induction t)
  case Nil
  then show ?case by simp
next
  case (Cons a t)
  show ?case
  proof (cases "key a = key r")
    case True
    then have "a = r0" using Cons.prems by (auto simp: image_iff)
    moreover have "row_save key r t = t"
      using Cons.prems True by (intro sum_row_save_absent) auto
    ultimately show ?thesis using True by (simp add: row_save_def)
  next
    case False
    with Cons show ?thesis by (auto simp: row_save_def algebra_simps)
  qed
qed

lemma sum_row_delete:
  fixes w :: "'r \<Rightarrow> 'a::ab_group_add"
  assumes "distinct (map key t)" and "r0 \<in> set t"
  shows "(\<Sum>x\<leftarrow>row_delete key (key r0) t. w x) = (\<Sum>x\<leftarrow>t. w x) - w r0"
  using assms
proof (induction t)
  case Nil
  then show ?case by simp
next
  case (Cons a t)
  show ?case
  proof (cases "key a = key r0")
    case True
    then have a: "a = r0" using Cons.prems by (auto simp: image_iff)
    moreover have "row_delete key (key r0) t = t"
      using Cons.prems a by (auto simp: row_delete_def filter_id_conv image_iff)
    ultimately show ?thesis by (simp add: row_delete_def)
  next
    case False
    with Cons show ?thesis by (auto simp: row_delete_def algebra_simps)
  qed
qed

lemma sum_list_nonneg_rat: "(\<And>x. x \<in> set xs \<Longrightarrow> 0 \<le> w x) \<Longrightarrow> 0 \<le> (\<Sum>x\<leftarrow>xs. w x :: rat)"
  by (induction xs) auto

lemma sum_list_member_le:
  "(\<And>x. x \<in> set xs \<Longrightarrow> 0 \<le> w x) \<Longrightarrow> r \<in> set xs \<Longrightarrow> w r \<le> (\<Sum>x\<leftarrow>xs. w x :: rat)"
proof (induction xs)
  case Nil
  then show ?case by simp
next
  case (Cons a xs)
  then have "0 \<le> (\<Sum>x\<leftarrow>xs. w x)" and "0 \<le> w a" by (auto intro: sum_list_nonneg_rat)
  with Cons show ?case by (cases "r = a") (auto intro: add_increasing)
qed

subsection \<open>Decimal rounding\<close>

text \<open>
  \<^verbatim>\<open>Decimal.quantize\<close> to \<open>n\<close> decimal places: \<open>ROUND_HALF_UP\<close> rounds a tie away from zero,
  the default \<open>ROUND_HALF_EVEN\<close> to the even last digit.
\<close>

definition round_half_up :: "nat \<Rightarrow> rat \<Rightarrow> rat" where
  "round_half_up n x =
     (let s = 10 ^ n; m = \<lfloor>\<bar>x\<bar> * s + 1/2\<rfloor> in sgn x * of_int m / s)"

definition round_half_even :: "nat \<Rightarrow> rat \<Rightarrow> rat" where
  "round_half_even n x =
     (let s = 10 ^ n; f = \<lfloor>x * s\<rfloor>; d = x * s - of_int f
      in (if d < 1/2 \<or> (d = 1/2 \<and> even f) then of_int f else of_int (f + 1)) / s)"

definition on_grid :: "nat \<Rightarrow> rat \<Rightarrow> bool" where
  "on_grid n x \<longleftrightarrow> (\<exists>k::int. x * 10 ^ n = of_int k)"

lemma round_half_up_grid: "on_grid n (round_half_up n x)"
proof -
  have "round_half_up n x * 10 ^ n = sgn x * of_int \<lfloor>\<bar>x\<bar> * 10 ^ n + 1/2\<rfloor>"
    by (simp add: round_half_up_def Let_def)
  also have "\<dots> = of_int ((if x < 0 then -1 else if x = 0 then 0 else 1) * \<lfloor>\<bar>x\<bar> * 10 ^ n + 1/2\<rfloor>)"
    by (simp add: sgn_rat_def)
  finally show ?thesis unfolding on_grid_def by blast
qed

lemma round_half_up_id:
  assumes "on_grid n x"
  shows "round_half_up n x = x"
proof -
  obtain k :: int where k: "x * 10 ^ n = of_int k" using assms by (auto simp: on_grid_def)
  have "\<bar>x\<bar> * 10 ^ n = \<bar>x * 10 ^ n\<bar>" by (simp add: abs_mult)
  also have "\<dots> = of_int \<bar>k\<bar>" by (simp add: k)
  finally have a: "\<bar>x\<bar> * 10 ^ n = of_int \<bar>k\<bar>" .
  have "\<lfloor>of_int \<bar>k\<bar> + 1/2 :: rat\<rfloor> = \<bar>k\<bar>" by (rule floor_unique) simp_all
  then have "round_half_up n x = sgn x * (\<bar>x\<bar> * 10 ^ n) / 10 ^ n"
    unfolding round_half_up_def Let_def a by simp
  then show ?thesis by (simp add: sgn_mult_abs flip: mult.assoc)
qed

lemma round_half_up_nonneg: "0 \<le> x \<Longrightarrow> 0 \<le> round_half_up n x"
  by (auto simp: round_half_up_def Let_def sgn_rat_def)

lemma round_half_up_error: "\<bar>round_half_up n x - x\<bar> \<le> 1 / (2 * 10 ^ n)"
proof -
  define m where "m = \<lfloor>\<bar>x\<bar> * 10 ^ n + 1/2\<rfloor>"
  have m: "\<bar>of_int m - \<bar>x\<bar> * 10 ^ n\<bar> \<le> 1/2"
    unfolding m_def using floor_correct [of "\<bar>x\<bar> * 10 ^ n + 1/2"] by linarith
  have "\<bar>round_half_up n x - x\<bar> = \<bar>sgn x\<bar> * \<bar>of_int m - \<bar>x\<bar> * 10 ^ n\<bar> / 10 ^ n"
  proof -
    have "round_half_up n x - x = sgn x * (of_int m - \<bar>x\<bar> * 10 ^ n) / 10 ^ n"
      by (simp add: round_half_up_def Let_def m_def right_diff_distrib diff_divide_distrib
          sgn_mult_abs flip: mult.assoc)
    then show ?thesis by (simp add: abs_mult)
  qed
  also have "\<dots> \<le> 1 * (1/2) / 10 ^ n"
    by (intro divide_right_mono mult_mono m) (auto simp: sgn_rat_def)
  finally show ?thesis by simp
qed

lemma round_half_even_error: "\<bar>round_half_even n x - x\<bar> \<le> 1 / (2 * 10 ^ n)"
proof -
  define f where "f = \<lfloor>x * 10 ^ n\<rfloor>"
  define r where "r = (if x * 10 ^ n - of_int f < 1/2 \<or> (x * 10 ^ n - of_int f = 1/2 \<and> even f)
    then of_int f else of_int (f + 1) :: rat)"
  have "\<bar>r - x * 10 ^ n\<bar> \<le> 1/2"
    unfolding r_def f_def using floor_correct [of "x * 10 ^ n"] by (auto split: if_splits)
  moreover have "round_half_even n x - x = (r - x * 10 ^ n) / 10 ^ n"
    by (simp add: round_half_even_def Let_def r_def f_def diff_divide_distrib)
  ultimately have "\<bar>round_half_even n x - x\<bar> = \<bar>r - x * 10 ^ n\<bar> / 10 ^ n" by (simp add: abs_divide)
  also have "\<dots> \<le> (1/2) / 10 ^ n" by (rule divide_right_mono) (fact | simp)+
  finally show ?thesis by simp
qed

lemma round_half_even_nonneg: "0 \<le> x \<Longrightarrow> 0 \<le> round_half_even n x"
  by (auto simp: round_half_even_def Let_def)

lemma round_half_even_small: "0 \<le> x \<Longrightarrow> x * 10 ^ n < 1/2 \<Longrightarrow> round_half_even n x = 0"
proof -
  assume x: "0 \<le> x" "x * 10 ^ n < 1/2"
  then have "\<lfloor>x * 10 ^ n\<rfloor> = 0" by (intro floor_unique) auto
  with x show ?thesis by (simp add: round_half_even_def Let_def)
qed

lemma round_half_up_mono: "x \<le> y \<Longrightarrow> 0 \<le> x \<Longrightarrow> round_half_up n x \<le> round_half_up n y"
  by (cases "x = 0"; cases "y = 0")
    (auto simp: round_half_up_def Let_def sgn_rat_def intro!: divide_right_mono floor_mono)

subsection \<open>Reachability and invariants\<close>

inductive reachable :: "('s \<Rightarrow> bool) \<Rightarrow> ('s \<Rightarrow> 's \<Rightarrow> bool) \<Rightarrow> 's \<Rightarrow> bool"
  for init :: "'s \<Rightarrow> bool" and step :: "'s \<Rightarrow> 's \<Rightarrow> bool" where
  start: "init s \<Longrightarrow> reachable init step s"
| next_step: "reachable init step s \<Longrightarrow> step s t \<Longrightarrow> reachable init step t"

text \<open>
  The interface of an invariant: it holds where the system starts and every step keeps it.
  Each component with a step relation interprets it on its own definitions.
\<close>

locale invariant_system =
  fixes init :: "'s \<Rightarrow> bool" and step :: "'s \<Rightarrow> 's \<Rightarrow> bool" and inv :: "'s \<Rightarrow> bool"
  assumes inv_init: "init s \<Longrightarrow> inv s"
    and inv_step: "inv s \<Longrightarrow> step s t \<Longrightarrow> inv t"
begin

lemma reachable_inv: "reachable init step s \<Longrightarrow> inv s"
  by (induction rule: reachable.induct) (auto intro: inv_init inv_step)

lemma step_reachable_inv: "reachable init step s \<Longrightarrow> step s t \<Longrightarrow> inv t"
  by (blast intro: inv_step reachable_inv)

end

text \<open>
  The interface of a refinement: under the invariant every concrete step is matched by abstract
  steps between the abstractions, and keeps the invariant.
\<close>

locale simulation =
  fixes cstep :: "'c \<Rightarrow> 'c \<Rightarrow> bool" and astep :: "'a \<Rightarrow> 'a \<Rightarrow> bool"
    and inv :: "'c \<Rightarrow> bool" and abs_of :: "'c \<Rightarrow> 'a"
  assumes sim_inv: "inv c \<Longrightarrow> cstep c c' \<Longrightarrow> inv c'"
    and sim_step: "inv c \<Longrightarrow> cstep c c' \<Longrightarrow> astep\<^sup>*\<^sup>* (abs_of c) (abs_of c')"
begin

lemma simulates: "cstep\<^sup>*\<^sup>* c c' \<Longrightarrow> inv c \<Longrightarrow> inv c' \<and> astep\<^sup>*\<^sup>* (abs_of c) (abs_of c')"
proof (induction rule: rtranclp_induct)
  case base
  then show ?case by simp
next
  case (step y z)
  then show ?case using sim_inv [of y z] sim_step [of y z] by (meson rtranclp_trans)
qed

end

end
