(* ===== verification/Calendar.thy ===== *)
theory Calendar
  imports Prelude
begin

text \<open>
  Python's \<^verbatim>\<open>datetime\<close> as far as the code uses it.  A date is its proleptic Gregorian ordinal
  (\<^verbatim>\<open>date.toordinal()\<close>, day 1 being 0001-01-01), so comparison, \<^verbatim>\<open>+ timedelta(days=n)\<close> and
  differences are those of the integers; \<open>mk_date\<close> is the constructor with its ValueError and
  \<open>year_of\<close>, \<open>month_of\<close>, \<open>day_of\<close> are the attributes.  A naive datetime is a number of
  microseconds on the same axis, a \<open>timedelta\<close> a number of microseconds.  The theory proves
  that the attributes read back what the constructor was given.
\<close>

type_synonym date = int
type_synonym datetime = int

subsection \<open>Years, months, days\<close>

definition is_leap :: "int \<Rightarrow> bool" where
  "is_leap y \<longleftrightarrow> y mod 4 = 0 \<and> (y mod 100 \<noteq> 0 \<or> y mod 400 = 0)"

definition days_before_year :: "int \<Rightarrow> int" where
  "days_before_year y = (let k = y - 1 in k * 365 + k div 4 - k div 100 + k div 400)"

definition days_in_month :: "int \<Rightarrow> int \<Rightarrow> int" where
  "days_in_month y m =
     (if m = 2 then (if is_leap y then 29 else 28)
      else if m \<in> {4, 6, 9, 11} then 30 else 31)"

definition days_before_month :: "int \<Rightarrow> int \<Rightarrow> int" where
  "days_before_month y m =
     (if m \<le> 1 then 0 else if m = 2 then 31
      else (if is_leap y then 1 else 0) +
        (if m = 3 then 59 else if m = 4 then 90 else if m = 5 then 120 else if m = 6 then 151
         else if m = 7 then 181 else if m = 8 then 212 else if m = 9 then 243
         else if m = 10 then 273 else if m = 11 then 304 else 334))"

definition valid_ymd :: "int \<Rightarrow> int \<Rightarrow> int \<Rightarrow> bool" where
  "valid_ymd y m d \<longleftrightarrow> 1 \<le> y \<and> y \<le> 9999 \<and> 1 \<le> m \<and> m \<le> 12 \<and> 1 \<le> d \<and> d \<le> days_in_month y m"

definition ymd :: "int \<Rightarrow> int \<Rightarrow> int \<Rightarrow> date" where
  "ymd y m d = days_before_year y + days_before_month y m + d"

text \<open>\<^verbatim>\<open>date(y, m, d)\<close>: None is the ValueError.\<close>

definition mk_date :: "int \<Rightarrow> int \<Rightarrow> int \<Rightarrow> date option" where
  "mk_date y m d = (if valid_ymd y m d then Some (ymd y m d) else None)"

text \<open>The 400, 100, 4 and 1 year cycles of \<^verbatim>\<open>_ord2ymd\<close>.\<close>

definition year_of :: "date \<Rightarrow> int" where
  "year_of n =
     (let k = n - 1; n400 = k div 146097; r400 = k mod 146097;
          n100 = r400 div 36524; r100 = r400 mod 36524;
          n4 = r100 div 1461; r4 = r100 mod 1461; n1 = r4 div 365;
          y = n400 * 400 + n100 * 100 + n4 * 4 + n1
      in if n1 = 4 \<or> n100 = 4 then y else y + 1)"

definition yday_of :: "date \<Rightarrow> int" where
  "yday_of n = n - days_before_year (year_of n)"

text \<open>\<^verbatim>\<open>_ord2ymd\<close> estimates the month from the zero-based day of the year and corrects it by one.\<close>

definition month_of :: "date \<Rightarrow> int" where
  "month_of n = (let y = year_of n; k = yday_of n - 1; m = (k + 50) div 32
     in if k < days_before_month y m then m - 1 else m)"

definition day_of :: "date \<Rightarrow> int" where
  "day_of n = yday_of n - days_before_month (year_of n) (month_of n)"

text \<open>\<^verbatim>\<open>d.replace(year=y)\<close>: ValueError for 29 February in a common year.\<close>

definition replace_year :: "int \<Rightarrow> date \<Rightarrow> date option" where
  "replace_year y n = mk_date y (month_of n) (day_of n)"

text \<open>\<^verbatim>\<open>date.weekday()\<close>: Monday is 0.\<close>

definition weekday :: "date \<Rightarrow> int" where
  "weekday n = (n + 6) mod 7"

lemma div_pred:
  assumes "0 < (k::int)"
  shows "y div k = (y - 1) div k + (if y mod k = 0 then 1 else 0)"
proof -
  define q where "q = (y - 1) div k"
  define r where "r = (y - 1) mod k"
  have y: "y = q * k + (r + 1)" using div_mult_mod_eq [of "y - 1" k] by (simp add: q_def r_def)
  have r: "0 \<le> r" "r < k" using assms by (simp_all add: r_def)
  show ?thesis
  proof (cases "r + 1 = k")
    case True
    then have yq: "y = (q + 1) * k" using y by (simp add: algebra_simps)
    then have "y mod k = 0" "y div k = q + 1" using assms by simp_all
    then show ?thesis by (simp add: q_def)
  next
    case False
    with r have "(r + 1) div k = 0" "(r + 1) mod k = r + 1" by simp_all
    then have "y div k = q" "y mod k = r + 1" unfolding y using assms by simp_all
    then show ?thesis using r by (simp add: q_def)
  qed
qed

lemma leap_cycle:
  fixes A B C a b c y :: int
  assumes "P100 \<Longrightarrow> P4" "P400 \<Longrightarrow> P100" "A = a + (if P4 then 1 else 0)"
    "B = b + (if P100 then 1 else 0)" "C = c + (if P400 then 1 else 0)"
  shows "y * 365 + A - B + C = (y - 1) * 365 + a - b + c + (if P4 \<and> (\<not> P100 \<or> P400) then 366 else 365)"
  using assms by (cases P4; cases P100; cases P400; simp)

lemma days_before_year_Suc:
  "days_before_year (y + 1) = days_before_year y + (if is_leap y then 366 else 365)"
proof -
  have m: "y mod 100 = 0 \<Longrightarrow> y mod 4 = 0" "y mod 400 = 0 \<Longrightarrow> y mod 100 = 0"
    using dvd_trans [of 4 100 y] dvd_trans [of 100 400 y] by (simp_all add: mod_eq_0_iff_dvd)
  have "days_before_year (y + 1) = y * 365 + y div 4 - y div 100 + y div 400"
    by (simp add: days_before_year_def)
  also have "\<dots> = days_before_year y + (if is_leap y then 366 else 365)"
    unfolding days_before_year_def Let_def is_leap_def
    by (rule leap_cycle [OF m]) (assumption | rule div_pred | simp)+
  finally show ?thesis .
qed

lemma days_before_year_mono: "a \<le> b \<Longrightarrow> days_before_year a \<le> days_before_year b"
proof (induction b rule: int_ge_induct)
  case base
  show ?case by simp
next
  case (step b)
  then show ?case by (simp add: days_before_year_Suc split: if_splits)
qed

lemma days_before_year_strict: "a < b \<Longrightarrow> days_before_year a + 365 \<le> days_before_year b"
  using days_before_year_mono [of "a + 1" b] days_before_year_Suc [of a] by (simp split: if_splits)

lemma yday_unique:
  assumes "days_before_year y < n" and "n \<le> days_before_year (y + 1)"
    and "days_before_year z < n" and "n \<le> days_before_year (z + 1)"
  shows "y = z"
proof (rule ccontr)
  assume "y \<noteq> z"
  then consider "y + 1 \<le> z" | "z + 1 \<le> y" by linarith
  then show False
    using assms days_before_year_mono [of "y + 1" z] days_before_year_mono [of "z + 1" y]
    by cases auto
qed

text \<open>The year algorithm meets its specification: the ordinal lies inside the year it returns.\<close>

lemma year_of_spec:
  "days_before_year (year_of n) < n \<and> n \<le> days_before_year (year_of n + 1)"
proof -
  define k where "k = n - 1"
  define n400 where "n400 = k div 146097"
  define r400 where "r400 = k mod 146097"
  define n100 where "n100 = r400 div 36524"
  define r100 where "r100 = r400 mod 36524"
  define n4 where "n4 = r100 div 1461"
  define r4 where "r4 = r100 mod 1461"
  define n1 where "n1 = r4 div 365"
  define r1 where "r1 = r4 mod 365"
  define y where "y = n400 * 400 + n100 * 100 + n4 * 4 + n1"
  have m: "r400 = 36524 * n100 + r100" "r100 = 1461 * n4 + r4" "r4 = 365 * n1 + r1"
    unfolding n100_def r100_def n4_def r4_def n1_def r1_def by (simp_all only: mult_div_mod_eq)
  have "k = 146097 * n400 + r400" unfolding n400_def r400_def by (simp only: mult_div_mod_eq)
  then have k: "k = 146097 * n400 + 36524 * n100 + 1461 * n4 + 365 * n1 + r1" by (simp add: m)
  have c: "0 \<le> r400" "r400 < 146097" "0 \<le> r100" "r100 < 36524" "0 \<le> r4" "r4 < 1461" "0 \<le> r1" "r1 < 365"
    by (simp_all add: r1_def r4_def r100_def r400_def)
  have "0 \<le> n1" "n1 \<le> 4" using m(3) c(5-8) by linarith+
  moreover have "0 \<le> n4" "n4 \<le> 24" using m(2) c(3-6) by linarith+
  moreover have "0 \<le> n100" "n100 \<le> 4" using m(1) c(1-4) by linarith+
  ultimately have b: "0 \<le> r1" "r1 < 365" "0 \<le> n1" "n1 \<le> 4" "0 \<le> n4" "n4 \<le> 24" "0 \<le> n100" "n100 \<le> 4"
    using c(7-8) by auto
  have e1: "n1 = 4 \<Longrightarrow> r1 = 0" and e4: "n4 = 24 \<Longrightarrow> n100 < 4 \<Longrightarrow> 365 * n1 + r1 < 1460"
    and e100: "n100 = 4 \<Longrightarrow> n4 = 0 \<and> n1 = 0 \<and> r1 = 0"
    using m c(2,4,6) b(1,3,5) by linarith+
  have year: "year_of n = (if n1 = 4 \<or> n100 = 4 then y else y + 1)"
    by (simp add: year_of_def Let_def k_def n400_def r400_def n100_def r100_def n4_def r4_def
        n1_def y_def)
  show ?thesis
  proof (cases "n1 = 4 \<or> n100 = 4")
    case True
    have n: "n = k + 1" by (simp add: k_def)
    have last: "n = days_before_year y + 366 \<and> is_leap y"
    proof (cases "n100 = 4")
      case n100: True
      have y': "y - 1 = 400 * n400 + 399" using n100 e100 by (simp add: y_def)
      have "(y - 1) div 4 = 100 * n400 + 99" "(y - 1) div 100 = 4 * n400 + 3" "(y - 1) div 400 = n400"
        unfolding y'
        by (rule int_div_pos_eq [where r = 3] int_div_pos_eq [where r = 99]
            int_div_pos_eq [where r = 399], simp_all)+
      moreover have "y mod 400 = 0" using n100 e100 by (simp add: y_def)
      moreover have "y mod 4 = 0" using n100 e100 by (simp add: y_def)
      ultimately show ?thesis
        using k n100 e100 unfolding n days_before_year_def Let_def is_leap_def y' by simp
    next
      case n100: False
      with True have n1: "n1 = 4" "r1 = 0" using e1 by auto
      have n4: "n4 \<le> 23" using e4 n1 n100 b by (cases "n4 = 24") auto
      have n3: "n100 \<le> 3" using n100 b by simp
      have y': "y - 1 = 400 * n400 + 100 * n100 + 4 * n4 + 3" using n1 by (simp add: y_def)
      have "(y - 1) div 4 = 100 * n400 + 25 * n100 + n4"
        unfolding y' by (rule int_div_pos_eq [where r = 3]) simp_all
      moreover have "(y - 1) div 100 = 4 * n400 + n100"
        unfolding y' by (rule int_div_pos_eq [where r = "4 * n4 + 3"]) (use n4 b in simp_all)
      moreover have "(y - 1) div 400 = n400"
        unfolding y' by (rule int_div_pos_eq [where r = "100 * n100 + 4 * n4 + 3"]) (use n4 n3 b in simp_all)
      ultimately have "days_before_year y = (y - 1) * 365 + (100 * n400 + 25 * n100 + n4) - (4 * n400 + n100) + n400"
        unfolding days_before_year_def Let_def by simp
      then have "n = days_before_year y + 366" by (simp add: n k n1 y')
      moreover have "y mod 4 = 0" using n1 by (simp add: y_def)
      moreover have "y mod 100 = 4 * n4 + 4"
        by (rule int_mod_pos_eq [where q = "4 * n400 + n100"]) (use n1 n4 b in \<open>simp_all add: y_def\<close>)
      ultimately show ?thesis using b(5) by (simp add: is_leap_def)
    qed
    then have "days_before_year y < n \<and> n \<le> days_before_year (y + 1)"
      by (simp add: days_before_year_Suc)
    with True year show ?thesis by simp
  next
    case False
    have n: "n = k + 1" by (simp add: k_def)
    have y: "y div 4 = 100 * n400 + 25 * n100 + n4" "y div 100 = 4 * n400 + n100" "y div 400 = n400"
      by (rule int_div_pos_eq [where r = n1] int_div_pos_eq [where r = "4 * n4 + n1"]
          int_div_pos_eq [where r = "100 * n100 + 4 * n4 + n1"],
          use False b in \<open>simp_all add: y_def\<close>)+
    have low: "days_before_year (y + 1) = n - 1 - r1"
    proof -
      have "days_before_year (y + 1) = y * 365 + y div 4 - y div 100 + y div 400"
        by (simp add: days_before_year_def)
      then have "days_before_year (y + 1) = y * 365 + (100 * n400 + 25 * n100 + n4) - (4 * n400 + n100) + n400"
        unfolding y .
      then show ?thesis using k y_def n by linarith
    qed
    have "r1 < 365" using b by simp
    then have "days_before_year (y + 1) < n \<and> n \<le> days_before_year (y + 1 + 1)"
      using low days_before_year_Suc [of "y + 1"] b by (simp split: if_splits)
    with False year show ?thesis by simp
  qed
qed

lemma year_of_eqI:
  "days_before_year y < n \<Longrightarrow> n \<le> days_before_year (y + 1) \<Longrightarrow> year_of n = y"
  using year_of_spec [of n] yday_unique by blast

lemma year_of_mono: "a \<le> b \<Longrightarrow> year_of a \<le> year_of b"
proof (rule ccontr)
  assume ab: "a \<le> b" and "\<not> year_of a \<le> year_of b"
  then have "days_before_year (year_of b + 1) \<le> days_before_year (year_of a)"
    by (intro days_before_year_mono) simp
  with ab year_of_spec [of a] year_of_spec [of b] show False by linarith
qed

lemma month_cases:
  assumes "1 \<le> (m::int)" "m \<le> 12"
  shows "m = 1 \<or> m = 2 \<or> m = 3 \<or> m = 4 \<or> m = 5 \<or> m = 6 \<or> m = 7 \<or> m = 8 \<or> m = 9 \<or> m = 10 \<or> m = 11 \<or> m = 12"
  using assms by presburger

lemma ymd_in_year:
  assumes "valid_ymd y m d"
  shows "days_before_year y < ymd y m d \<and> ymd y m d \<le> days_before_year (y + 1)"
proof -
  have r: "1 \<le> m" "m \<le> 12" "1 \<le> d" "d \<le> days_in_month y m" using assms by (auto simp: valid_ymd_def)
  have "0 \<le> days_before_month y m \<and>
      days_before_month y m + days_in_month y m \<le> (if is_leap y then 366 else 365)"
    using month_cases [OF r(1,2)]
    by (cases "is_leap y"; elim disjE; simp add: days_before_month_def days_in_month_def)
  with r(3,4) show ?thesis unfolding ymd_def days_before_year_Suc by linarith
qed

lemma year_of_ymd [simp]: "valid_ymd y m d \<Longrightarrow> year_of (ymd y m d) = y"
  using ymd_in_year year_of_eqI by blast

lemma yday_of_ymd: "valid_ymd y m d \<Longrightarrow> yday_of (ymd y m d) = days_before_month y m + d"
  unfolding yday_of_def by (simp only: year_of_ymd) (simp add: ymd_def)

lemma days_before_month_Suc:
  "1 \<le> m \<Longrightarrow> m < 12 \<Longrightarrow> days_before_month y (m + 1) = days_before_month y m + days_in_month y m"
  using month_cases [of m, OF _ less_imp_le]
  by (cases "is_leap y") (auto simp: days_before_month_def days_in_month_def)

lemma month_estimate:
  assumes "1 \<le> m" "m \<le> 12"
  shows "32 * m \<le> days_before_month y m + 50"
    and "days_before_month y m + days_in_month y m + 49 < 32 * (m + 2)"
    and "m = 12 \<Longrightarrow> days_before_month y m + days_in_month y m + 49 < 32 * 13"
  using month_cases [OF assms]
  by (cases "is_leap y"; elim disjE; simp add: days_before_month_def days_in_month_def)+

lemma month_of_spec:
  assumes "1 \<le> m" "m \<le> 12" "days_before_month (year_of n) m < yday_of n"
    and "yday_of n \<le> days_before_month (year_of n) m + days_in_month (year_of n) m"
  shows "month_of n = m"
proof -
  define k where "k = yday_of n - 1"
  define e where "e = (k + 50) div 32"
  have e: "32 * e \<le> k + 50" "k + 50 < 32 * e + 32" unfolding e_def by linarith+
  have k: "days_before_month (year_of n) m \<le> k"
    "k < days_before_month (year_of n) m + days_in_month (year_of n) m"
    using assms(3,4) by (auto simp: k_def)
  have range: "m \<le> e" "e \<le> m + 1" "m = 12 \<longrightarrow> e = 12"
    using k e month_estimate [OF assms(1,2), of "year_of n"] by auto
  have "month_of n = (if k < days_before_month (year_of n) e then e - 1 else e)"
    by (simp add: month_of_def Let_def flip: k_def e_def)
  moreover from range have "e = m \<or> e = m + 1 \<and> m < 12" using assms(2) by auto
  ultimately show ?thesis
    using k days_before_month_Suc [of m "year_of n"] assms(1) by auto
qed

lemma month_of_ymd [simp]:
  assumes "valid_ymd y m d"
  shows "month_of (ymd y m d) = m"
  using assms by (intro month_of_spec) (auto simp: yday_of_ymd valid_ymd_def)

lemma day_of_ymd [simp]: "valid_ymd y m d \<Longrightarrow> day_of (ymd y m d) = d"
  by (simp add: day_of_def yday_of_ymd)

text \<open>The constructor and the attributes are inverse to each other.\<close>

lemma mk_date_attributes:
  "mk_date y m d = Some n \<Longrightarrow> year_of n = y \<and> month_of n = m \<and> day_of n = d"
  by (auto simp: mk_date_def split: if_splits)

lemma yday_bounds: "1 \<le> yday_of n \<and> yday_of n \<le> (if is_leap (year_of n) then 366 else 365)"
  using year_of_spec [of n] days_before_year_Suc [of "year_of n"] by (auto simp: yday_of_def)

lemma month_exists_upto:
  assumes "1 \<le> k" and "1 \<le> j" and "j \<le> 12" and "k \<le> days_before_month y j + days_in_month y j"
  shows "\<exists>m. 1 \<le> m \<and> m \<le> 12 \<and> days_before_month y m < k \<and> k \<le> days_before_month y m + days_in_month y m"
  using assms(2-4)
proof (induction j rule: int_ge_induct)
  case base
  have "days_before_month y 1 < k" using assms(1) by (simp add: days_before_month_def)
  with base show ?case by (intro exI [of _ 1]) simp
next
  case (step j)
  show ?case
  proof (cases "k \<le> days_before_month y (j + 1)")
    case True
    then show ?thesis using step days_before_month_Suc [of j y] by simp
  next
    case False
    with step show ?thesis by (intro exI [of _ "j + 1"]) simp
  qed
qed

lemma month_exists:
  "\<exists>m. 1 \<le> m \<and> m \<le> 12 \<and> days_before_month (year_of n) m < yday_of n \<and>
    yday_of n \<le> days_before_month (year_of n) m + days_in_month (year_of n) m"
  using yday_bounds [of n]
  by (intro month_exists_upto [of _ 12]) (auto simp: days_before_month_def days_in_month_def)

lemma month_of_range: "1 \<le> month_of n \<and> month_of n \<le> 12"
  using month_exists [of n] month_of_spec by blast

lemma day_of_range: "1 \<le> day_of n \<and> day_of n \<le> days_in_month (year_of n) (month_of n)"
proof -
  obtain m where m: "1 \<le> m" "m \<le> 12" "days_before_month (year_of n) m < yday_of n"
    "yday_of n \<le> days_before_month (year_of n) m + days_in_month (year_of n) m"
    using month_exists by blast
  then have "month_of n = m" by (rule month_of_spec)
  with m show ?thesis by (simp add: day_of_def)
qed

lemma ymd_of_attributes: "ymd (year_of n) (month_of n) (day_of n) = n"
  by (simp add: ymd_def day_of_def yday_of_def)

lemma mk_date_of_attributes:
  "1 \<le> year_of n \<Longrightarrow> year_of n \<le> 9999 \<Longrightarrow> mk_date (year_of n) (month_of n) (day_of n) = Some n"
  using month_of_range [of n] day_of_range [of n]
  by (simp add: mk_date_def valid_ymd_def ymd_of_attributes)

lemma replace_year_month_day:
  "replace_year y n = Some n' \<Longrightarrow> year_of n' = y \<and> month_of n' = month_of n \<and> day_of n' = day_of n"
  unfolding replace_year_def by (rule mk_date_attributes)

text \<open>First and last day of a month (\<^verbatim>\<open>calendar.monthrange\<close>).\<close>

definition month_first :: "int \<Rightarrow> int \<Rightarrow> date" where
  "month_first y m = ymd y m 1"

definition month_last :: "int \<Rightarrow> int \<Rightarrow> date" where
  "month_last y m = ymd y m (days_in_month y m)"

lemma days_in_month_pos: "28 \<le> days_in_month y m \<and> days_in_month y m \<le> 31"
  by (auto simp: days_in_month_def)

lemma days_before_month_le:
  assumes "1 \<le> a" and "a \<le> b" and "b \<le> 12"
  shows "days_before_month y a \<le> days_before_month y b"
  using assms(2,3)
proof (induction b rule: int_ge_induct)
  case base
  show ?case by simp
next
  case (step b)
  have "days_before_month y (b + 1) = days_before_month y b + days_in_month y b"
    using step assms(1) by (intro days_before_month_Suc) auto
  then show ?case using step days_in_month_pos [of y b] by linarith
qed

text \<open>Months on one axis, so that month differences telescope.\<close>

definition month_index :: "date \<Rightarrow> int" where
  "month_index n = year_of n * 12 + month_of n"

lemma month_index_mono:
  assumes "a \<le> b"
  shows "month_index a \<le> month_index b"
proof (cases "year_of a = year_of b")
  case False
  then have "year_of a + 1 \<le> year_of b" using year_of_mono [OF assms] by simp
  then show ?thesis using month_of_range [of a] month_of_range [of b] by (simp add: month_index_def)
next
  case True
  have "month_of a \<le> month_of b"
  proof (rule ccontr)
    let ?y = "year_of a"
    assume "\<not> month_of a \<le> month_of b"
    then have "days_before_month ?y (month_of b + 1) \<le> days_before_month ?y (month_of a)"
      using month_of_range [of a] month_of_range [of b] by (intro days_before_month_le) auto
    moreover have "days_before_month ?y (month_of b + 1)
        = days_before_month ?y (month_of b) + days_in_month ?y (month_of b)"
      using \<open>\<not> month_of a \<le> month_of b\<close> month_of_range [of a] month_of_range [of b]
      by (intro days_before_month_Suc) auto
    moreover have "yday_of a \<le> yday_of b" using assms True by (simp add: yday_of_def)
    ultimately show False
      using day_of_range [of a] day_of_range [of b] True by (simp add: day_of_def)
  qed
  then show ?thesis using True by (simp add: month_index_def)
qed

lemma month_index_inj:
  "month_index a = month_index b \<longleftrightarrow> year_of a = year_of b \<and> month_of a = month_of b"
proof -
  have "y * 12 + m = z * 12 + n \<longleftrightarrow> y = z \<and> m = n"
    if "1 \<le> m" "m \<le> 12" "1 \<le> n" "n \<le> 12" for y z m n :: int
    using that by (cases y z rule: linorder_cases) auto
  then show ?thesis using month_of_range [of a] month_of_range [of b] by (simp add: month_index_def)
qed

lemma month_interval:
  assumes "1 \<le> year_of d" "year_of d \<le> 9999"
  shows "month_first (year_of d) (month_of d) \<le> e \<and> e \<le> month_last (year_of d) (month_of d)
    \<longleftrightarrow> month_index e = month_index d"
proof
  let ?y = "year_of d" and ?m = "month_of d"
  have valid: "valid_ymd ?y ?m 1" "valid_ymd ?y ?m (days_in_month ?y ?m)"
    using assms month_of_range [of d] days_in_month_pos [of ?y ?m] by (auto simp: valid_ymd_def)
  have ends: "month_index (month_first ?y ?m) = month_index d" "month_index (month_last ?y ?m) = month_index d"
    using valid by (simp_all add: month_index_def month_first_def month_last_def)
  show "month_index e = month_index d" if "month_first ?y ?m \<le> e \<and> e \<le> month_last ?y ?m"
    using month_index_mono [of "month_first ?y ?m" e] month_index_mono [of e "month_last ?y ?m"] that ends
    by linarith
  show "month_first ?y ?m \<le> e \<and> e \<le> month_last ?y ?m" if "month_index e = month_index d"
  proof -
    have "e = ymd ?y ?m (day_of e)" using that ymd_of_attributes [of e] by (simp add: month_index_inj)
    then show ?thesis
      using day_of_range [of e] that by (simp add: month_first_def month_last_def ymd_def month_index_inj)
  qed
qed

subsection \<open>Datetimes\<close>

definition us_per_minute :: int where "us_per_minute = 60000000"
definition us_per_hour :: int where "us_per_hour = 3600000000"
definition us_per_day :: int where "us_per_day = 86400000000"

definition date_of :: "datetime \<Rightarrow> date" where
  "date_of t = t div us_per_day"

end
