(* ===== verification/Users.thy ===== *)
theory Users
  imports Calendar
begin

text \<open>
  Accounts and what they may do (\<^verbatim>\<open>users/models.py\<close>): the \<^verbatim>\<open>User\<close> row with its role, status and
  \<^verbatim>\<open>can_*\<close> flags, the tenant permission check \<^verbatim>\<open>has_permission\<close>, Django's \<^verbatim>\<open>has_perm\<close> on top of
  it, and the feature keys a user gets from the tenant's subscription and their groups.  The
  theorems say which accounts a permission codename outside the built-in tables can reach, and
  that no user ever sees a feature outside the subscription.
\<close>

datatype user_role = Role_admin | Role_manager | Role_agent | Role_viewer

datatype user_status = Status_active | Status_inactive | Status_suspended | Status_pending

record tenant_group =
  tg_is_active :: bool
  tg_features :: "(string \<times> bool) list" \<comment> \<open>feature key, feature is active\<close>

text \<open>\<open>u_can\<close> lists the names \<open>p\<close> whose boolean column \<^verbatim>\<open>can_p\<close> is set.\<close>

record user =
  u_pk :: pk
  u_role :: user_role
  u_status :: user_status
  u_is_active :: bool
  u_is_staff :: bool
  u_is_superuser :: bool
  u_department :: "pk option"
  u_manager :: "pk option"
  u_employment_start :: "date option"
  u_employment_end :: "date option"
  u_date_joined :: "date option"
  u_can :: "string list"
  u_groups :: "tenant_group list"

definition is_admin :: "user \<Rightarrow> bool" where
  "is_admin u \<longleftrightarrow> u_role u = Role_admin \<or> u_is_superuser u"

definition is_manager :: "user \<Rightarrow> bool" where
  "is_manager u \<longleftrightarrow> u_role u \<in> {Role_admin, Role_manager} \<or> u_is_superuser u"

text \<open>The names of the \<^verbatim>\<open>can_*\<close> columns, in the order of the dictionary.\<close>

definition individual_permissions :: "string list" where
  "individual_permissions =
     [''view_all_tickets'', ''manage_users'', ''make_calls'', ''manage_groups'',
      ''manage_settings'', ''create_tickets'', ''edit_own_tickets'', ''edit_all_tickets'',
      ''delete_tickets'', ''assign_tickets'', ''view_reports'', ''export_data'', ''manage_tags'',
      ''manage_columns'', ''view_boards'', ''create_boards'', ''edit_boards'', ''delete_boards'',
      ''access_orders'', ''manage_social_connections'', ''view_social_messages'',
      ''send_social_messages'', ''manage_social_settings'']"

text \<open>The legacy role table: the permission and whether an administrator role is needed.\<close>

definition role_permissions :: "user \<Rightarrow> string \<Rightarrow> bool option" where
  "role_permissions u = map_of
     [(''view_all_tickets'', is_manager u), (''manage_users'', is_admin u),
      (''make_calls'', is_manager u), (''manage_groups'', is_admin u),
      (''manage_settings'', is_admin u), (''edit_all_tickets'', is_manager u),
      (''delete_tickets'', is_manager u), (''assign_tickets'', is_manager u),
      (''view_reports'', is_manager u), (''export_data'', is_manager u),
      (''manage_tags'', is_manager u), (''manage_columns'', is_manager u),
      (''view_boards'', is_manager u), (''create_boards'', is_manager u),
      (''edit_boards'', is_manager u), (''delete_boards'', is_admin u),
      (''manage_social_connections'', is_admin u), (''view_social_messages'', is_manager u),
      (''send_social_messages'', is_manager u), (''manage_social_settings'', is_admin u)]"

definition has_permission :: "user \<Rightarrow> string \<Rightarrow> bool" where
  "has_permission u p =
     (if u_is_superuser u then True
      else if p \<in> set individual_permissions \<and> p \<in> set (u_can u) then True
      else if role_permissions u p = Some True then True
      else False)"

definition get_all_permissions :: "user \<Rightarrow> string list" where
  "get_all_permissions u = filter (has_permission u) individual_permissions"

definition get_user_permissions_list :: "user \<Rightarrow> string list" where
  "get_user_permissions_list u = filter (\<lambda>p. p \<in> set (u_can u)) individual_permissions"

text \<open>\<^verbatim>\<open>perm.split('.')[1]\<close> when there is a dot: the part between the first and the second dot.\<close>

definition codename :: "string \<Rightarrow> string" where
  "codename perm =
     (if CHR ''.'' \<in> set perm
      then takeWhile (\<lambda>c. c \<noteq> CHR ''.'') (tl (dropWhile (\<lambda>c. c \<noteq> CHR ''.'') perm))
      else perm)"

definition has_perm :: "bool \<Rightarrow> user \<Rightarrow> string \<Rightarrow> bool" where
  "has_perm in_public_schema u perm =
     (if u_is_active u \<and> u_is_superuser u then True
      else if in_public_schema then u_is_staff u
      else has_permission u (codename perm))"

definition has_perms :: "bool \<Rightarrow> user \<Rightarrow> string list \<Rightarrow> bool" where
  "has_perms in_public_schema u ps \<longleftrightarrow> list_all (has_perm in_public_schema u) ps"

definition has_module_perms :: "bool \<Rightarrow> user \<Rightarrow> bool" where
  "has_module_perms in_public_schema u =
     (if u_is_active u \<and> u_is_superuser u then True
      else if in_public_schema then u_is_staff u else True)"

definition can_sign_in :: "user \<Rightarrow> bool" where
  "can_sign_in u \<longleftrightarrow> u_is_active u \<and> u_status u \<notin> {Status_inactive, Status_suspended}"

definition group_feature_keys :: "tenant_group \<Rightarrow> string list" where
  "group_feature_keys g = map fst (filter snd (tg_features g))"

definition active_tenant_groups :: "user \<Rightarrow> tenant_group list" where
  "active_tenant_groups u = filter tg_is_active (u_groups u)"

definition get_group_permissions :: "user \<Rightarrow> string set" where
  "get_group_permissions u = \<Union> (set ` group_feature_keys ` set (active_tenant_groups u))"

text \<open>
  \<^verbatim>\<open>current_subscription_feature_keys\<close>: None is a tenant without a current subscription; the
  pair is its \<^verbatim>\<open>is_active\<close> flag and the keys of its active selected features.
\<close>

definition current_subscription_feature_keys :: "(bool \<times> (string \<times> bool) list) option \<Rightarrow> string list" where
  "current_subscription_feature_keys subscription =
     (case subscription of
        None \<Rightarrow> []
      | Some (active, features) \<Rightarrow> if active then map fst (filter snd features) else [])"

definition get_feature_keys :: "user \<Rightarrow> string list \<Rightarrow> string set" where
  "get_feature_keys u subscription_keys =
     (if subscription_keys = [] then {}
      else if u_is_superuser u then set subscription_keys
      else if get_group_permissions u = {} then {}
      else get_group_permissions u \<inter> set subscription_keys)"

definition has_feature :: "user \<Rightarrow> string list \<Rightarrow> string \<Rightarrow> bool" where
  "has_feature u subscription_keys key \<longleftrightarrow> key \<in> get_feature_keys u subscription_keys"

subsection \<open>Facts\<close>

lemma has_permission_outside_tables:
  assumes "p \<notin> set individual_permissions"
  shows "has_permission u p \<longleftrightarrow> u_is_superuser u"
proof -
  have "role_permissions u p = None"
    using assms by (auto simp: role_permissions_def individual_permissions_def map_of_eq_None_iff)
  with assms show ?thesis by (simp add: has_permission_def)
qed

lemma leave_codenames_outside:
  "codename ''leave_management.approve_leave'' \<notin> set individual_permissions"
  "codename ''leave_management.approve_leave_hr'' \<notin> set individual_permissions"
  "codename ''leave_management.view_team_leaves'' \<notin> set individual_permissions"
  "codename ''leave_management.manage_leave_balances'' \<notin> set individual_permissions"
  by (simp_all add: codename_def individual_permissions_def)

lemma leave_perm_superuser [simp]:
  "has_perm False u ''leave_management.approve_leave'' \<longleftrightarrow> u_is_superuser u"
  "has_perm False u ''leave_management.approve_leave_hr'' \<longleftrightarrow> u_is_superuser u"
  "has_perm False u ''leave_management.view_team_leaves'' \<longleftrightarrow> u_is_superuser u"
  "has_perm False u ''leave_management.manage_leave_balances'' \<longleftrightarrow> u_is_superuser u"
  by (auto simp: has_perm_def has_permission_outside_tables leave_codenames_outside)

lemma has_feature_in_subscription: "has_feature u keys k \<Longrightarrow> k \<in> set keys"
  by (auto simp: has_feature_def get_feature_keys_def split: if_splits)

lemma has_feature_iff:
  "has_feature u keys k \<longleftrightarrow> k \<in> set keys \<and> (u_is_superuser u \<or> k \<in> get_group_permissions u)"
  by (auto simp: has_feature_def get_feature_keys_def)

lemma no_subscription_no_feature: "\<not> has_feature u (current_subscription_feature_keys None) k"
  by (simp add: has_feature_iff current_subscription_feature_keys_def)

subsection \<open>Properties\<close>

text \<open>No user ever has a feature the tenant did not subscribe to, and a user who is not a superuser
  only has those of their active groups; without a current subscription nobody has any.\<close>

theorem features_within_subscription:
  "get_feature_keys u (current_subscription_feature_keys subscription)
     \<subseteq> set (current_subscription_feature_keys subscription)
   \<and> (u_is_superuser u \<or>
      get_feature_keys u (current_subscription_feature_keys subscription) \<subseteq> get_group_permissions u)
   \<and> get_feature_keys u (current_subscription_feature_keys None) = {}"
  by (auto simp: get_feature_keys_def current_subscription_feature_keys_def)

text \<open>The four leave permissions the code checks by codename are outside the built-in permission
  tables of a tenant, so inside a tenant schema only superusers hold them; no role and no
  individual permission flag grants them.\<close>

theorem leave_permissions_superuser_only:
  "has_perms False u [''leave_management.approve_leave'', ''leave_management.approve_leave_hr'',
      ''leave_management.view_team_leaves'', ''leave_management.manage_leave_balances'']
     = u_is_superuser u
   \<and> has_perm False u ''leave_management.approve_leave'' = u_is_superuser u
   \<and> has_perm False u ''leave_management.approve_leave_hr'' = u_is_superuser u
   \<and> has_perm False u ''leave_management.view_team_leaves'' = u_is_superuser u
   \<and> has_perm False u ''leave_management.manage_leave_balances'' = u_is_superuser u"
  by (simp add: has_perms_def del: One_nat_def)

end
