(* ===== verification/Text.thy ===== *)
theory Text
  imports Prelude "HOL-Library.Char_ord" "HOL-Library.List_Lexorder"
begin

text \<open>
  The Python string operations the code uses: \<^verbatim>\<open>str.strip\<close>, \<^verbatim>\<open>str.split\<close>, \<^verbatim>\<open>int(s)\<close>,
  \<^verbatim>\<open>str(n)\<close> and zero-padded numbers.  Strings are lists of characters of the first 256 code
  points and are compared lexicographically by code point.
\<close>

subsection \<open>Stripping and splitting\<close>

text \<open>\<^verbatim>\<open>str.strip()\<close>: the white space of \<^verbatim>\<open>str.isspace\<close> among the first 256 code points.\<close>

definition is_space :: "char \<Rightarrow> bool" where
  "is_space c \<longleftrightarrow> (of_char c :: nat) \<in> {9, 10, 11, 12, 13, 28, 29, 30, 31, 32, 133, 160}"

definition strip :: "string \<Rightarrow> string" where
  "strip s = rev (dropWhile is_space (rev (dropWhile is_space s)))"

text \<open>\<^verbatim>\<open>s.split(c)\<close> for a one-character separator: always at least one part.\<close>

fun split_on :: "char \<Rightarrow> string \<Rightarrow> string list" where
  "split_on c [] = [[]]"
| "split_on c (x # xs) =
     (if x = c then [] # split_on c xs
      else case split_on c xs of p # ps \<Rightarrow> (x # p) # ps | [] \<Rightarrow> [[x]])"

lemma split_on_nonempty: "split_on c s \<noteq> []"
  by (induction s) (auto split: list.splits)

lemma split_on_none: "c \<notin> set s \<Longrightarrow> split_on c s = [s]"
  by (induction s) auto

lemma split_on_append: "c \<notin> set a \<Longrightarrow> split_on c (a @ c # b) = a # split_on c b"
  by (induction a) auto

lemma dropWhile_none: "\<forall>c \<in> set xs. \<not> P c \<Longrightarrow> dropWhile P xs = xs"
  by (cases xs) auto

lemma strip_no_space: "\<forall>c \<in> set s. \<not> is_space c \<Longrightarrow> strip s = s"
  by (simp add: strip_def dropWhile_none)

text \<open>\<^verbatim>\<open>s.upper()\<close>, \<^verbatim>\<open>s.lower()\<close> and \<^verbatim>\<open>s.isalpha()\<close> on ASCII letters.\<close>

definition is_upper :: "char \<Rightarrow> bool" where
  "is_upper c \<longleftrightarrow> 65 \<le> (of_char c :: nat) \<and> (of_char c :: nat) \<le> 90"

definition upper_char :: "char \<Rightarrow> char" where
  "upper_char c = (if 97 \<le> (of_char c :: nat) \<and> (of_char c :: nat) \<le> 122 then char_of (of_char c - 32 :: nat) else c)"

definition upper :: "string \<Rightarrow> string" where
  "upper s = map upper_char s"

definition lower_char :: "char \<Rightarrow> char" where
  "lower_char c = (if 65 \<le> (of_char c :: nat) \<and> (of_char c :: nat) \<le> 90 then char_of (of_char c + 32 :: nat) else c)"

definition lower :: "string \<Rightarrow> string" where
  "lower s = map lower_char s"

subsection \<open>Digits\<close>

definition digit_char :: "nat \<Rightarrow> char" where
  "digit_char n = char_of (48 + n)"

definition is_digit :: "char \<Rightarrow> bool" where
  "is_digit c \<longleftrightarrow> 48 \<le> (of_char c :: nat) \<and> (of_char c :: nat) \<le> 57"

definition digit_value :: "char \<Rightarrow> nat" where
  "digit_value c = of_char c - 48"

lemma of_digit_char: "n < 10 \<Longrightarrow> (of_char (digit_char n) :: nat) = 48 + n"
  by (simp add: digit_char_def of_char_of)

lemma digit_char_simps [simp]:
  assumes "n < 10"
  shows "is_digit (digit_char n)" "digit_value (digit_char n) = n" "\<not> is_space (digit_char n)"
    "digit_char n \<noteq> CHR ''-''" "digit_char n \<noteq> CHR ''+''" "digit_char n \<noteq> CHR ''_''"
  using assms of_digit_char [OF assms]
  by (auto simp: is_digit_def digit_value_def is_space_def dest: arg_cong [where f = "of_char :: char \<Rightarrow> nat"])

lemma digit_char_inject: "m < 10 \<Longrightarrow> n < 10 \<Longrightarrow> digit_char m = digit_char n \<longleftrightarrow> m = n"
  using digit_char_simps(2) by metis

lemma digit_char_less: "m < 10 \<Longrightarrow> n < 10 \<Longrightarrow> digit_char m < digit_char n \<longleftrightarrow> m < n"
  by (simp add: less_char_def of_digit_char)

text \<open>\<^verbatim>\<open>str(n)\<close> for a natural number, and \<^verbatim>\<open>f'{n:0wd}'\<close>.\<close>

fun nat_text :: "nat \<Rightarrow> string" where
  "nat_text n = (if n < 10 then [digit_char n] else nat_text (n div 10) @ [digit_char (n mod 10)])"

declare nat_text.simps [simp del]

definition pad_zeros :: "nat \<Rightarrow> string \<Rightarrow> string" where
  "pad_zeros w s = replicate (w - length s) (CHR ''0'') @ s"

lemma nat_text_digits: "c \<in> set (nat_text n) \<Longrightarrow> is_digit c \<and> \<not> is_space c \<and> c \<noteq> CHR ''-''"
proof (induction n rule: nat_text.induct)
  case (1 n)
  then show ?case by (cases "n < 10") (auto simp: nat_text.simps [of n])
qed

lemma nat_text_nonempty: "nat_text n \<noteq> []"
  by (simp add: nat_text.simps [of n])

lemma nat_text_1: "n < 10 \<Longrightarrow> nat_text n = [digit_char n]"
  by (simp add: nat_text.simps [of n])

lemma nat_text_step: "10 \<le> n \<Longrightarrow> nat_text n = nat_text (n div 10) @ [digit_char (n mod 10)]"
  by (simp add: nat_text.simps [of n])

subsection \<open>Reading an integer\<close>

text \<open>
  \<^verbatim>\<open>int(s)\<close>: surrounding white space is dropped, one sign is allowed, and digits may be
  separated by single underscores.  None is \<^verbatim>\<open>ValueError\<close>.
\<close>

fun digits_from :: "nat \<Rightarrow> string \<Rightarrow> nat option" where
  "digits_from acc [] = Some acc"
| "digits_from acc [c] = (if is_digit c then Some (10 * acc + digit_value c) else None)"
| "digits_from acc (c # d # cs) =
     (if is_digit c then digits_from (10 * acc + digit_value c) (d # cs)
      else if c = CHR ''_'' \<and> is_digit d then digits_from (10 * acc + digit_value d) cs
      else None)"

definition read_digits :: "string \<Rightarrow> nat option" where
  "read_digits s =
     (case s of [] \<Rightarrow> None
      | d # ds \<Rightarrow> if is_digit d then digits_from (digit_value d) ds else None)"

definition read_int :: "string \<Rightarrow> int option" where
  "read_int s =
     (case strip s of
        [] \<Rightarrow> None
      | c # cs \<Rightarrow>
          if c = CHR ''+'' then map_option int (read_digits cs)
          else if c = CHR ''-'' then map_option (\<lambda>n. - int n) (read_digits cs)
          else map_option int (read_digits (c # cs)))"

lemma digits_from_snoc:
  "\<forall>c \<in> set s. is_digit c \<Longrightarrow> digits_from acc (s @ [c]) =
     (if is_digit c then map_option (\<lambda>n. 10 * n + digit_value c) (digits_from acc s) else None)"
proof (induction acc s rule: digits_from.induct)
  case (3 acc x y s)
  then show ?case by simp
qed auto

lemma digits_from_all: "\<forall>c \<in> set s. is_digit c \<Longrightarrow> digits_from acc s \<noteq> None"
  by (induction acc s rule: digits_from.induct) auto

lemma read_digits_nat_text: "read_digits (nat_text n) = Some n"
proof (induction n rule: nat_text.induct)
  case (1 n)
  show ?case
  proof (cases "n < 10")
    case True
    then show ?thesis by (simp add: nat_text_1 read_digits_def)
  next
    case False
    then have ih: "read_digits (nat_text (n div 10)) = Some (n div 10)" using 1 by simp
    obtain d ds where t: "nat_text (n div 10) = d # ds" using nat_text_nonempty by (cases "nat_text (n div 10)") auto
    have "\<forall>c \<in> set (d # ds). is_digit c" using nat_text_digits t by metis
    then have "read_digits (nat_text n) = Some (10 * (n div 10) + n mod 10)"
      using False ih t by (simp add: nat_text_step read_digits_def digits_from_snoc)
    then show ?thesis by simp
  qed
qed

lemma read_int_digits:
  assumes "s \<noteq> []" and "\<forall>c \<in> set s. is_digit c \<and> \<not> is_space c"
  shows "read_int s = map_option int (read_digits s)"
proof -
  obtain d ds where s: "s = d # ds" using assms(1) by (cases s) auto
  have "is_digit d" using assms(2) s by simp
  then have "d \<noteq> CHR ''+''" "d \<noteq> CHR ''-''" by (auto simp: is_digit_def)
  then show ?thesis using assms(2) by (simp add: read_int_def strip_no_space s)
qed

lemma read_int_nat_text: "read_int (nat_text n) = Some (int n)"
  using read_int_digits [of "nat_text n"] nat_text_nonempty nat_text_digits
  by (simp add: read_digits_nat_text)

lemma nat_text_inject: "nat_text m = nat_text n \<longleftrightarrow> m = n"
  using read_digits_nat_text by (metis option.inject)

lemma zero_digit: "CHR ''0'' = digit_char 0"
  by (simp add: digit_char_def char_of_def bit_iff_odd)

subsection \<open>Order\<close>

text \<open>Digit strings of the same length are ordered as the numbers they write.\<close>

fun number :: "nat list \<Rightarrow> nat" where
  "number [] = 0"
| "number (x # xs) = x * 10 ^ length xs + number xs"

lemma number_bound: "\<forall>x \<in> set xs. x < 10 \<Longrightarrow> number xs < 10 ^ length xs"
proof (induction xs)
  case (Cons x xs)
  then have "x \<le> 9" "number xs < 10 ^ length xs" by auto
  have "x * 10 ^ length xs \<le> 9 * 10 ^ length xs" using \<open>x \<le> 9\<close> by (rule mult_le_mono1)
  then have "x * 10 ^ length xs + number xs < 10 * 10 ^ length xs"
    using \<open>number xs < 10 ^ length xs\<close> by linarith
  then show ?case by simp
qed simp

lemma number_Cons_less:
  assumes "a < N" "b < (N::nat)"
  shows "x * N + a < y * N + b \<longleftrightarrow> x < y \<or> x = y \<and> a < b"
proof -
  have "x * N + a < y * N + b" if "x < y"
    using mult_le_mono1 [of "Suc x" y N] that assms by simp
  moreover have "\<not> x * N + a < y * N + b" if "y < x"
    using mult_le_mono1 [of "Suc y" x N] that assms by simp
  ultimately show ?thesis by (cases x y rule: linorder_cases) auto
qed

lemma digits_less:
  "length xs = length ys \<Longrightarrow> \<forall>x \<in> set xs. x < 10 \<Longrightarrow> \<forall>y \<in> set ys. y < 10 \<Longrightarrow>
     map digit_char xs < map digit_char ys \<longleftrightarrow> number xs < number ys"
proof (induction xs ys rule: list_induct2)
  case (Cons x xs y ys)
  have "number xs < 10 ^ length xs" "number ys < 10 ^ length xs"
    using Cons number_bound [of xs] number_bound [of ys] by simp_all
  then have "number (x # xs) < number (y # ys) \<longleftrightarrow> x < y \<or> x = y \<and> number xs < number ys"
    using number_Cons_less Cons.hyps by simp
  then show ?case using Cons by (simp add: digit_char_less digit_char_inject)
qed simp

lemma list_less_append:
  "length xs = length ys \<Longrightarrow> xs @ us < ys @ (vs :: string) \<longleftrightarrow> xs < ys \<or> xs = ys \<and> us < vs"
  by (induction xs ys rule: list_induct2) auto

definition digits4 :: "nat \<Rightarrow> nat list" where
  "digits4 n = [n div 1000, n div 100 mod 10, n div 10 mod 10, n mod 10]"

lemma digits4:
  assumes "1000 \<le> n" "n < 10000"
  shows "nat_text n = map digit_char (digits4 n)" "number (digits4 n) = n"
    "\<forall>x \<in> set (digits4 n). x < 10" "length (digits4 n) = 4"
proof -
  have "nat_text n = nat_text (n div 10 div 10 div 10) @ map digit_char [n div 10 div 10 mod 10, n div 10 mod 10, n mod 10]"
    using assms by (simp add: nat_text_step)
  moreover have "n div 10 div 10 div 10 = n div 1000" "n div 10 div 10 = n div 100" "n div 1000 < 10"
    using assms by (auto simp flip: div_mult2_eq)
  ultimately show "nat_text n = map digit_char (digits4 n)" by (simp add: nat_text_1 digits4_def)
  have "n div 100 = 10 * (n div 1000) + n div 100 mod 10" using div_mult2_eq [of n 100 10] by simp
  moreover have "n div 10 = 10 * (n div 100) + n div 10 mod 10" using div_mult2_eq [of n 10 10] by simp
  moreover have "n = 10 * (n div 10) + n mod 10" by simp
  ultimately have "n = 1000 * (n div 1000) + 100 * (n div 100 mod 10) + 10 * (n div 10 mod 10) + n mod 10"
    by linarith
  then show "number (digits4 n) = n" by (simp add: digits4_def)
  show "\<forall>x \<in> set (digits4 n). x < 10" using \<open>n div 1000 < 10\<close> by (simp add: digits4_def)
qed (simp add: digits4_def)

lemma pad2:
  assumes "n < 100"
  shows "pad_zeros 2 (nat_text n) = map digit_char [n div 10, n mod 10]"
proof (cases "n < 10")
  case True
  then show ?thesis by (simp add: nat_text_1 pad_zeros_def zero_digit)
next
  case False
  then have "n div 10 < 10" using assms by simp
  then show ?thesis using False by (simp add: nat_text_step nat_text_1 pad_zeros_def)
qed

lemma read_int_pad2: "n < 100 \<Longrightarrow> read_int (pad_zeros 2 (nat_text n)) = Some (int n)"
  using read_int_digits [of "map digit_char [n div 10, n mod 10]"] by (simp add: pad2 read_digits_def)

lemma pad2_order:
  assumes "m < 100" "n < 100"
  shows "pad_zeros 2 (nat_text m) < pad_zeros 2 (nat_text n) \<longleftrightarrow> m < n"
proof -
  have number: "number [k div 10, k mod 10] = k" for k by simp
  have small: "\<forall>x \<in> set [k div 10, k mod 10]. x < 10" if "k < 100" for k :: nat
    using that by (simp add: less_mult_imp_div_less)
  show ?thesis
    unfolding pad2 [OF assms(1)] pad2 [OF assms(2)]
    using digits_less [OF _ small [OF assms(1)] small [OF assms(2)]] unfolding number by simp
qed

subsection \<open>Prefixes\<close>

text \<open>\<^verbatim>\<open>str.startswith\<close>\<close>

definition starts_with :: "string \<Rightarrow> string \<Rightarrow> bool" where
  "starts_with p s \<longleftrightarrow> take (length p) s = p"

lemma starts_with_iff: "starts_with p s \<longleftrightarrow> (\<exists>t. s = p @ t)"
proof
  assume "starts_with p s"
  then have "s = p @ drop (length p) s" using append_take_drop_id [of "length p" s] by (simp add: starts_with_def)
  then show "\<exists>t. s = p @ t" ..
qed (auto simp: starts_with_def)

end
