(* ===== verification/Leave_Model.thy ===== *)
theory Leave_Model
  imports Users Text
begin

text \<open>
  The rows of \<^verbatim>\<open>leave_management/models.py\<close> and the database of one tenant.  Every query of
  the module filters by the request's tenant, so the tables here hold that tenant's rows.
  Columns no operation reads (names, colours, attachments, creation stamps) are left out.
  Choice columns are datatypes; \<open>status_text\<close> gives the stored string of a request status.
\<close>

datatype leave_status =
    Awaiting_substitutes | Pending | Manager_approved | Hr_approved | Approved | Rejected | Cancelled

datatype calculation_method = Annual | Accrual | Manual

datatype approver_role = Manager | Hr | Admin

datatype substitute_status = Sub_pending | Sub_accepted | Sub_rejected | Sub_skipped

datatype rate_mode = Per_day | Per_month

datatype payroll_mode = Gross | Net

datatype kpi_status = Kpi_draft | Kpi_pending | Kpi_approved | Kpi_returned

datatype kpi_direction = Higher | Lower

record leave_settings =
  ls_require_manager_approval :: bool
  ls_require_hr_approval :: bool
  ls_allow_negative_balance :: bool
  ls_max_negative_days :: int
  ls_working_days_per_week :: int
  ls_weekend_days :: "int list"
  ls_substitutes_enabled :: bool
  ls_substitution_pay_enabled :: bool
  ls_payroll_enabled :: bool
  ls_payroll_self_view_enabled :: bool
  ls_kpi_enabled :: bool
  ls_attendance_grid_enabled :: bool
  ls_auto_georgian_holidays :: bool
  ls_block_deactivation :: bool
  ls_payroll_mode :: payroll_mode
  ls_income_tax_rate :: decimal
  ls_pension_rate :: decimal
  ls_payroll_currency :: string
  ls_payroll_managers :: "pk list"

record leave_type =
  lt_pk :: pk
  lt_is_paid :: bool
  lt_requires_approval :: bool
  lt_method :: calculation_method
  lt_default_days :: decimal
  lt_accrual_rate :: decimal
  lt_max_carry_forward :: int
  lt_is_active :: bool
  lt_requires_substitutes :: bool
  lt_max_requests_per_month :: "nat option"
  lt_max_days_per_request :: "decimal option"

record leave_balance =
  lb_user :: pk
  lb_type :: pk
  lb_year :: int
  lb_allocated :: decimal
  lb_used :: decimal
  lb_carried :: decimal
  lb_pending :: decimal
  lb_last_accrual :: "date option"

type_synonym balance_key = "pk \<times> pk \<times> int"

text \<open>\<^verbatim>\<open>unique_together = [tenant, user, leave_type, year]\<close>: a balance is identified by this key.\<close>

definition lb_key :: "leave_balance \<Rightarrow> balance_key" where
  "lb_key b = (lb_user b, lb_type b, lb_year b)"

definition available_days :: "leave_balance \<Rightarrow> decimal" where
  "available_days b = lb_allocated b + lb_carried b - lb_used b - lb_pending b"

definition total_allocated :: "leave_balance \<Rightarrow> decimal" where
  "total_allocated b = lb_allocated b + lb_carried b"

record leave_request =
  lr_pk :: pk
  lr_employee :: pk
  lr_type :: pk
  lr_start :: date
  lr_end :: date
  lr_days :: decimal
  lr_reason :: string
  lr_status :: leave_status
  lr_manager_approver :: "pk option"
  lr_manager_at :: "datetime option"
  lr_manager_comments :: string
  lr_hr_approver :: "pk option"
  lr_hr_at :: "datetime option"
  lr_hr_comments :: string
  lr_final_approver :: "pk option"
  lr_final_at :: "datetime option"
  lr_final_comments :: string
  lr_rejected_by :: "pk option"
  lr_rejected_at :: "datetime option"
  lr_rejection_reason :: string
  lr_cancelled_at :: "datetime option"
  lr_cancellation_reason :: string
  lr_skipped_by :: "pk option"
  lr_skipped_at :: "datetime option"
  lr_skip_reason :: string

definition is_pending :: "leave_request \<Rightarrow> bool" where
  "is_pending r \<longleftrightarrow> lr_status r \<in> {Awaiting_substitutes, Pending, Manager_approved, Hr_approved}"

record public_holiday =
  ph_date :: date
  ph_recurring :: bool

record chain_step =
  ac_type :: "pk option"
  ac_level :: int
  ac_role :: approver_role
  ac_required :: bool

record carry_forward_run =
  cr_from_year :: int
  cr_to_year :: int
  cr_run_by :: "pk option"
  cr_balances_count :: int
  cr_total_days :: decimal
  cr_forced_runs :: int

record request_substitute =
  rs_pk :: pk
  rs_request :: pk
  rs_substitute :: pk
  rs_task :: string
  rs_sort_order :: nat
  rs_status :: substitute_status
  rs_responded_at :: "datetime option"
  rs_comment :: string
  rs_rate :: "(rate_mode \<times> decimal \<times> string) option" \<comment> \<open>mode, amount, currency\<close>
  rs_worked_days :: "date list"
  rs_totals :: "(string \<times> decimal) list" \<comment> \<open>\<^verbatim>\<open>YYYY-MM\<close>, amount\<close>
  rs_confirmed_by :: "pk option"
  rs_confirmed_at :: "datetime option"

record substitute_assignment =
  sa_pk :: pk
  sa_owner :: pk
  sa_substitute :: pk
  sa_task :: string
  sa_sort_order :: nat
  sa_rate :: "(rate_mode \<times> decimal \<times> string) option" \<comment> \<open>the one-to-one SubstitutionRate\<close>

text \<open>
  Salaries and payroll.  A month is its text \<^verbatim>\<open>YYYY-MM\<close>.  A report is the frozen JSON
  \<^verbatim>\<open>snapshot\<close> of a locked run: its row texts (name, email, job title) and \<^verbatim>\<open>generated_at\<close> are
  left out, an amount stands for its decimal string, and \<open>pr_net\<close> holds pension, income tax and
  net pay, the three keys a row has in net mode only.
\<close>

record compensation =
  co_pk :: pk
  co_user :: pk
  co_salary :: decimal
  co_currency :: string
  co_from :: date
  co_note :: string
  co_created_by :: "pk option"

record payroll_row =
  pr_user :: pk
  pr_currency :: string
  pr_salary :: "decimal option"
  pr_working_days :: nat
  pr_scheduled_days :: nat
  pr_worked :: nat
  pr_paid_leave :: nat
  pr_unpaid :: nat
  pr_base :: decimal
  pr_substitution :: decimal
  pr_other :: "(string \<times> decimal) list"
  pr_gross :: decimal
  pr_net :: "(decimal \<times> decimal \<times> decimal) option"

record payroll_totals =
  pt_base :: decimal
  pt_substitution :: decimal
  pt_gross :: decimal
  pt_net :: "(decimal \<times> decimal \<times> decimal) option"

record payroll_report =
  po_period :: string
  po_mode :: payroll_mode
  po_currency :: string
  po_tax_rate :: decimal
  po_pension_rate :: decimal
  po_working_days :: nat
  po_locked :: bool
  po_rows :: "payroll_row list"
  po_totals :: "(string \<times> payroll_totals) list"
  po_locked_at :: "datetime option"
  po_locked_by :: "pk option"

record payroll_run =
  py_pk :: pk
  py_period :: string
  py_mode :: payroll_mode
  py_snapshot :: payroll_report
  py_locked :: bool
  py_locked_by :: "pk option"
  py_locked_at :: "datetime option"
  py_unlocked_by :: "pk option"
  py_unlocked_at :: "datetime option"
  py_unlock_reason :: string

record kpi_goal =
  kg_pk :: pk
  kg_employee :: pk
  kg_period :: string
  kg_title :: string
  kg_target :: decimal
  kg_unit :: string
  kg_direction :: kpi_direction
  kg_actual :: "decimal option"
  kg_note :: string
  kg_feedback :: string
  kg_status :: kpi_status
  kg_submitted_at :: "datetime option"
  kg_reviewed_at :: "datetime option"
  kg_reviewed_by :: "pk option"
  kg_created_by :: "pk option"
  kg_updated_by :: "pk option"

text \<open>
  Rows of the audit log.  \<open>ev_from\<close> and \<open>ev_to\<close> are the status texts, \<open>ev_data\<close> the JSON
  object of the event, one constructor per shape the code writes.
\<close>

datatype audit_data =
    No_data
  | Created_data date date decimal pk
  | Comment_data string
  | Substitutes_data "(pk \<times> string) list"
  | Skip_data string "pk list"
  | Worked_data "date list" "(string \<times> decimal) list" "date list" "(string \<times> decimal) list"
  | Rate_data pk string rate_mode decimal string nat
  | Salary_data "(decimal \<times> date) option" decimal string date
  | Period_data string
  | Export_data string nat
  | Lock_data string nat "(string \<times> payroll_totals) list"
  | Unlock_data string string
  | Goal_data string decimal string kpi_direction
  | Goal_deleted_data string string
  | Copied_data pk
  | Actual_data decimal
  | Feedback_data string

record audit_event =
  ev_kind :: string
  ev_action :: string
  ev_request :: "pk option"
  ev_subject :: "pk option"
  ev_actor :: "pk option"
  ev_object :: string
  ev_from :: string
  ev_to :: string
  ev_kpi :: "pk option"
  ev_data :: audit_data

record leave_db =
  db_settings :: "leave_settings option"
  db_users :: "user list"
  db_types :: "leave_type list"
  db_balances :: "leave_balance list"
  db_requests :: "leave_request list"
  db_holidays :: "public_holiday list"
  db_chains :: "chain_step list"
  db_runs :: "carry_forward_run list"
  db_subs :: "request_substitute list"
  db_assignments :: "substitute_assignment list"
  db_comps :: "compensation list"
  db_payroll :: "payroll_run list"
  db_goals :: "kpi_goal list"
  db_events :: "audit_event list"

fun status_text :: "leave_status \<Rightarrow> string" where
  "status_text Awaiting_substitutes = ''awaiting_substitutes''"
| "status_text Pending = ''pending''"
| "status_text Manager_approved = ''manager_approved''"
| "status_text Hr_approved = ''hr_approved''"
| "status_text Approved = ''approved''"
| "status_text Rejected = ''rejected''"
| "status_text Cancelled = ''cancelled''"

lemma status_text_inj [simp]: "status_text a = status_text b \<longleftrightarrow> a = b"
  by (cases a; cases b; simp)

lemma status_text_not_new [simp]: "status_text a \<noteq> ''new''" "status_text a \<noteq> ''''"
  by (cases a; simp)+

definition get_user :: "leave_db \<Rightarrow> pk \<Rightarrow> user option" where
  "get_user db k = row_get u_pk k (db_users db)"

definition get_type :: "leave_db \<Rightarrow> pk \<Rightarrow> leave_type option" where
  "get_type db k = row_get lt_pk k (db_types db)"

definition get_request :: "leave_db \<Rightarrow> pk \<Rightarrow> leave_request option" where
  "get_request db k = row_get lr_pk k (db_requests db)"

definition get_balance :: "leave_db \<Rightarrow> balance_key \<Rightarrow> leave_balance option" where
  "get_balance db k = row_get lb_key k (db_balances db)"

definition request_subs :: "leave_db \<Rightarrow> pk \<Rightarrow> request_substitute list" where
  "request_subs db k = sort_key rs_sort_order (filter (\<lambda>s. rs_request s = k) (db_subs db))"

definition request_key :: "leave_request \<Rightarrow> balance_key" where
  "request_key r = (lr_employee r, lr_type r, year_of (lr_start r))"

text \<open>The statuses in which a request holds pending days (\<^verbatim>\<open>OPEN_REQUEST_STATUSES\<close>).\<close>

definition open_statuses :: "leave_status list" where
  "open_statuses = [Awaiting_substitutes, Pending, Manager_approved, Hr_approved]"

text \<open>\<^verbatim>\<open>OPEN_APPROVAL_STATUSES\<close>, the keys of \<^verbatim>\<open>APPROVAL_STATUS_RANK\<close>.\<close>

definition approval_statuses :: "leave_status list" where
  "approval_statuses = [Pending, Manager_approved, Hr_approved]"

lemma open_statuses_iff [simp]:
  "s \<in> set open_statuses \<longleftrightarrow> s \<notin> {Approved, Rejected, Cancelled}"
  by (cases s) (simp_all add: open_statuses_def)

lemma approval_statuses_iff [simp]:
  "s \<in> set approval_statuses \<longleftrightarrow> s \<in> {Pending, Manager_approved, Hr_approved}"
  by (simp add: approval_statuses_def)

lemma approval_open: "s \<in> set approval_statuses \<Longrightarrow> s \<in> set open_statuses"
  by auto

end
