(* ===== verification/Leave_Team.thy ===== *)
theory Leave_Team
  imports Leave_Model
begin

text \<open>
  A small tenant on which the properties of the leave components are evaluated: an employee, a
  manager and an administrator, one annual leave type of 24 days with five carried days at
  most, weekends on Saturday and Sunday, and no rows in the other tables.

  Who counts as "my team" and who may act on a request: the team scoping helpers of
  \<^verbatim>\<open>leave_management/utils.py\<close> and the permission classes of
  \<^verbatim>\<open>leave_management/permissions.py\<close>.  A request user of None is the anonymous user.  The
  queryset filter \<open>team_q\<close> is a predicate on the employee a row points at; the central theorem
  is that it agrees with its object-level counterpart \<open>manages_employee\<close>.
\<close>

definition sample_user :: "pk \<Rightarrow> user_role \<Rightarrow> bool \<Rightarrow> pk option \<Rightarrow> user" where
  "sample_user k role staff mgr =
     \<lparr>u_pk = k, u_role = role, u_status = Status_active, u_is_active = True, u_is_staff = staff,
      u_is_superuser = False, u_department = None, u_manager = mgr, u_employment_start = None,
      u_employment_end = None, u_date_joined = None, u_can = [], u_groups = []\<rparr>"

definition employee_1 :: user where "employee_1 = sample_user 1 Role_viewer False (Some 2)"
definition manager_2 :: user where "manager_2 = sample_user 2 Role_manager False None"
definition staff_3 :: user where "staff_3 = sample_user 3 Role_viewer True None"

definition sample_settings :: leave_settings where
  "sample_settings =
     \<lparr>ls_require_manager_approval = True, ls_require_hr_approval = False,
      ls_allow_negative_balance = False, ls_max_negative_days = 0, ls_working_days_per_week = 5, ls_weekend_days = [5, 6],
      ls_substitutes_enabled = False, ls_substitution_pay_enabled = False,
      ls_payroll_enabled = True, ls_payroll_self_view_enabled = False, ls_kpi_enabled = True,
      ls_attendance_grid_enabled = False, ls_auto_georgian_holidays = False, ls_block_deactivation = True, ls_payroll_mode = Gross,
      ls_income_tax_rate = 20, ls_pension_rate = 2, ls_payroll_currency = ''GEL'',
      ls_payroll_managers = []\<rparr>"

definition annual_leave :: leave_type where
  "annual_leave =
     \<lparr>lt_pk = 1, lt_is_paid = True, lt_requires_approval = True, lt_method = Annual,
      lt_default_days = 24, lt_accrual_rate = 0, lt_max_carry_forward = 5, lt_is_active = True,
      lt_requires_substitutes = False, lt_max_requests_per_month = None,
      lt_max_days_per_request = None\<rparr>"

definition accrual_leave :: leave_type where
  "accrual_leave = annual_leave\<lparr>lt_pk := 2, lt_method := Accrual, lt_default_days := 0,
     lt_accrual_rate := 5/4\<rparr>"

definition sample_balance :: leave_balance where
  "sample_balance =
     \<lparr>lb_user = 1, lb_type = 1, lb_year = 2026, lb_allocated = 24, lb_used = 0, lb_carried = 0,
      lb_pending = 0, lb_last_accrual = None\<rparr>"

text \<open>Monday 2 March 2026 to Wednesday 4 March 2026: three working days.\<close>

definition sample_request :: leave_request where
  "sample_request =
     \<lparr>lr_pk = 1, lr_employee = 1, lr_type = 1, lr_start = 739677, lr_end = 739679,
      lr_days = 3, lr_reason = ''trip'', lr_status = Pending,
      lr_manager_approver = None, lr_manager_at = None, lr_manager_comments = [],
      lr_hr_approver = None, lr_hr_at = None, lr_hr_comments = [],
      lr_final_approver = None, lr_final_at = None, lr_final_comments = [],
      lr_rejected_by = None, lr_rejected_at = None, lr_rejection_reason = [],
      lr_cancelled_at = None, lr_cancellation_reason = [],
      lr_skipped_by = None, lr_skipped_at = None, lr_skip_reason = []\<rparr>"

definition sample_db :: leave_db where
  "sample_db =
     \<lparr>db_settings = Some sample_settings, db_users = [employee_1, manager_2, staff_3],
      db_types = [annual_leave, accrual_leave], db_balances = [], db_requests = [],
      db_holidays = [], db_chains = [], db_runs = [], db_subs = [], db_assignments = [], db_comps = [], db_payroll = [], db_goals = [],
      db_events = []\<rparr>"

lemmas sample_people = employee_1_def manager_2_def staff_3_def sample_user_def

lemmas sample_defs = sample_db_def sample_request_def sample_balance_def annual_leave_def
  accrual_leave_def sample_settings_def sample_people

lemma sample_year [simp]: "year_of 739677 = 2026" "year_of 739679 = 2026"
  by (simp_all add: year_of_def Let_def)

section \<open>Teams\<close>

definition is_elevated :: "user \<Rightarrow> bool" where
  "is_elevated u \<longleftrightarrow> u_is_staff u \<or> u_is_superuser u"

definition manages_department :: "user \<Rightarrow> bool" where
  "manages_department u \<longleftrightarrow> u_role u = Role_manager \<and> u_department u \<noteq> None"

definition is_leave_manager :: "leave_db \<Rightarrow> user option \<Rightarrow> bool" where
  "is_leave_manager db uo =
     (case uo of
        None \<Rightarrow> False
      | Some u \<Rightarrow>
          if is_elevated u \<or> u_role u = Role_manager then True
          else if \<exists>e \<in> set (db_users db). u_manager e = Some (u_pk u) \<and> u_is_active e then True
          else has_perm False u ''leave_management.view_team_leaves'')"

text \<open>\<open>team_q u e\<close>: does the filter of \<open>u\<close> keep a row whose employee is \<open>e\<close>?\<close>

definition team_q :: "user \<Rightarrow> user \<Rightarrow> bool" where
  "team_q u e =
     (if is_elevated u then True
      else (u_manager e = Some (u_pk u)
            \<or> (if manages_department u then u_department e = u_department u else False))
           \<and> u_pk e \<noteq> u_pk u)"

definition manages_employee :: "user \<Rightarrow> user option \<Rightarrow> bool" where
  "manages_employee u eo =
     (if is_elevated u then True
      else case eo of
        None \<Rightarrow> False
      | Some e \<Rightarrow>
          if u_pk e = u_pk u then False
          else if u_manager e = Some (u_pk u) then True
          else if manages_department u \<and> u_department e = u_department u then True
          else False)"

definition is_payroll_manager :: "leave_settings option \<Rightarrow> user option \<Rightarrow> bool" where
  "is_payroll_manager settings uo =
     (case uo of
        None \<Rightarrow> False
      | Some u \<Rightarrow>
          if is_elevated u then True
          else case settings of None \<Rightarrow> False | Some s \<Rightarrow> u_pk u \<in> set (ls_payroll_managers s))"

definition employment_start :: "user \<Rightarrow> date option" where
  "employment_start u =
     (case u_employment_start u of Some d \<Rightarrow> Some d | None \<Rightarrow> u_date_joined u)"

definition employment_end :: "user \<Rightarrow> date option" where
  "employment_end u = u_employment_end u"

text \<open>\<^verbatim>\<open>filter_by_status_in\<close> with the parameter already split at the commas and stripped.\<close>

definition filter_by_status_in :: "leave_request list \<Rightarrow> string list option \<Rightarrow> leave_request list" where
  "filter_by_status_in rs raw =
     (case raw of
        None \<Rightarrow> rs
      | Some parts \<Rightarrow>
          let statuses = filter (\<lambda>s. s \<noteq> []) parts
          in if statuses = [] then rs
             else filter (\<lambda>r. status_text (lr_status r) \<in> set statuses) rs)"

subsection \<open>Permission classes\<close>

definition CanManageLeaveBalances :: "user option \<Rightarrow> bool" where
  "CanManageLeaveBalances uo =
     (case uo of
        None \<Rightarrow> False
      | Some u \<Rightarrow>
          if u_is_staff u \<or> u_is_superuser u then True
          else has_perm False u ''leave_management.manage_leave_balances'')"

definition CanManageLeaveSettings :: "user option \<Rightarrow> bool" where
  "CanManageLeaveSettings uo =
     (case uo of None \<Rightarrow> False | Some u \<Rightarrow> u_is_staff u \<or> u_is_superuser u)"

definition CanCancelLeave :: "leave_db \<Rightarrow> user \<Rightarrow> leave_request \<Rightarrow> bool" where
  "CanCancelLeave db u r =
     (if u_is_staff u \<or> u_is_superuser u then True
      else if lr_employee r = u_pk u
              \<and> lr_status r \<in> {Awaiting_substitutes, Pending, Manager_approved, Hr_approved} then True
      else if lr_status r \<in> {Pending, Manager_approved}
        then manages_employee u (get_user db (lr_employee r))
      else False)"

definition IsLeaveOwnerOrManager :: "leave_db \<Rightarrow> user \<Rightarrow> leave_request \<Rightarrow> bool" where
  "IsLeaveOwnerOrManager db u r =
     (if lr_employee r = u_pk u then True else manages_employee u (get_user db (lr_employee r)))"

definition CanViewTeamBalance :: "leave_db \<Rightarrow> user \<Rightarrow> leave_balance \<Rightarrow> bool" where
  "CanViewTeamBalance db u b =
     (if lb_user b = u_pk u then True else manages_employee u (get_user db (lb_user b)))"

text \<open>\<^verbatim>\<open>LeaveFeatureEnabled(*flags)\<close>: every listed switch of the settings row must be on.\<close>

definition LeaveFeatureEnabled :: "(leave_settings \<Rightarrow> bool) list \<Rightarrow> leave_settings option \<Rightarrow> bool" where
  "LeaveFeatureEnabled flags settings =
     (case settings of None \<Rightarrow> False | Some s \<Rightarrow> list_all (\<lambda>f. f s) flags)"

subsection \<open>Facts\<close>

lemma team_q_manages: "team_q u e \<longleftrightarrow> manages_employee u (Some e)"
  by (auto simp: team_q_def manages_employee_def)

lemma not_own_manager: "\<not> is_elevated u \<Longrightarrow> u_pk e = u_pk u \<Longrightarrow> \<not> manages_employee u (Some e)"
  by (simp add: manages_employee_def)

lemma can_manage_balances_iff:
  "CanManageLeaveBalances (Some u) \<longleftrightarrow> is_elevated u"
  by (simp add: CanManageLeaveBalances_def is_elevated_def)

lemma can_cancel_open:
  "CanCancelLeave db u r \<Longrightarrow> \<not> is_elevated u \<Longrightarrow> lr_status r \<in> set open_statuses"
  by (auto simp: CanCancelLeave_def is_elevated_def split: if_splits)

subsection \<open>Properties\<close>

text \<open>The two counterparts of team scoping cannot drift apart: the queryset filter of the manager
  lists keeps exactly the rows of employees the object-level permission check calls managed, and
  unless the user is staff it never keeps the user's own rows.\<close>

theorem team_scope_agrees:
  "(team_q u e \<longleftrightarrow> manages_employee u (Some e)) \<and> (team_q u e \<longrightarrow> is_elevated u \<or> u_pk e \<noteq> u_pk u)"
  by (auto simp: team_q_def manages_employee_def)

theorem team_scope_agrees_witness: "team_q manager_2 employee_1 \<and> u_pk employee_1 \<noteq> u_pk manager_2"
  using team_scope_agrees [of manager_2 employee_1]
  by (simp add: team_q_def is_elevated_def sample_people)

end
