(* ===== verification/Leave_Days.thy ===== *)
theory Leave_Days
  imports Leave_Team
begin

text \<open>
  Counting leave: public holidays, working days, the per-type limits and the overlap check of
  \<^verbatim>\<open>leave_management/utils.py\<close>, and Georgia's holiday calendar of \<^verbatim>\<open>holidays_ge.py\<close>.  The
  working-day loop is related to a pointwise description of its result, from which additivity
  over adjacent ranges follows; the three-way overlap query is shown to be plain interval
  overlap; Orthodox Easter is always a Sunday; loading a year twice adds nothing.
\<close>

subsection \<open>Holidays and working days\<close>

definition weekend_days :: "leave_db \<Rightarrow> int list" where
  "weekend_days db =
     (case db_settings db of
        Some s \<Rightarrow> if ls_weekend_days s \<noteq> [] then ls_weekend_days s else [5, 6]
      | None \<Rightarrow> [5, 6])"

definition recurrences :: "date \<Rightarrow> date \<Rightarrow> date \<Rightarrow> date list" where
  "recurrences start_date end_date stored =
     concat (map (\<lambda>year. case replace_year year stored of
                           None \<Rightarrow> []
                         | Some c \<Rightarrow> if start_date \<le> c \<and> c \<le> end_date then [c] else [])
       [year_of start_date .. year_of end_date])"

definition holiday_dates :: "date \<Rightarrow> date \<Rightarrow> leave_db \<Rightarrow> date list" where
  "holiday_dates start_date end_date db =
     filter (\<lambda>d. start_date \<le> d \<and> d \<le> end_date) (map ph_date (db_holidays db)) @
     concat (map (\<lambda>h. recurrences start_date end_date (ph_date h))
       (filter ph_recurring (db_holidays db)))"

function working_loop :: "int list \<Rightarrow> date list \<Rightarrow> date \<Rightarrow> date \<Rightarrow> date list" where
  "working_loop weekend holidays current end_date =
     (if current \<le> end_date
      then (if weekday current \<notin> set weekend \<and> current \<notin> set holidays then [current] else [])
           @ working_loop weekend holidays (current + 1) end_date
      else [])"
  by pat_completeness auto
termination
  by (relation "measure (\<lambda>(w, h, c, e). nat (e - c + 1))") auto

declare working_loop.simps [simp del]

definition working_dates :: "date \<Rightarrow> date \<Rightarrow> leave_db \<Rightarrow> bool \<Rightarrow> date list" where
  "working_dates start_date end_date db exclude_public_holidays =
     (if start_date > end_date then []
      else working_loop (weekend_days db)
        (if exclude_public_holidays then holiday_dates start_date end_date db else [])
        start_date end_date)"

definition calculate_working_days :: "date \<Rightarrow> date \<Rightarrow> leave_db \<Rightarrow> bool \<Rightarrow> decimal" where
  "calculate_working_days start_date end_date db exclude =
     of_nat (length (working_dates start_date end_date db exclude))"

text \<open>The pointwise description: one day is a holiday when a row says so for that very day.\<close>

definition holiday_on :: "leave_db \<Rightarrow> date \<Rightarrow> bool" where
  "holiday_on db d \<longleftrightarrow>
     (\<exists>h \<in> set (db_holidays db). ph_date h = d \<or>
        (ph_recurring h \<and> replace_year (year_of d) (ph_date h) = Some d))"

definition workday :: "leave_db \<Rightarrow> bool \<Rightarrow> date \<Rightarrow> bool" where
  "workday db exclude d \<longleftrightarrow> weekday d \<notin> set (weekend_days db) \<and> (exclude \<longrightarrow> \<not> holiday_on db d)"

lemma working_loop_filter:
  "working_loop w h c e = filter (\<lambda>d. weekday d \<notin> set w \<and> d \<notin> set h) [c .. e]"
proof (induction w h c e rule: working_loop.induct)
  case (1 w h c e)
  then show ?case
    by (cases "c \<le> e") (simp_all add: working_loop.simps [of w h c e] upto_rec1)
qed

lemma recurrences_iff:
  "d \<in> set (recurrences s e stored) \<longleftrightarrow>
     s \<le> d \<and> d \<le> e \<and> replace_year (year_of d) stored = Some d"
  (is "?l \<longleftrightarrow> ?r")
proof
  assume ?l
  then obtain y where "replace_year y stored = Some d" "s \<le> d" "d \<le> e"
    by (auto simp: recurrences_def split: option.splits if_splits)
  moreover from this have "year_of d = y" using replace_year_month_day by blast
  ultimately show ?r by simp
next
  assume r: ?r
  then have "year_of s \<le> year_of d" "year_of d \<le> year_of e" by (auto intro: year_of_mono)
  with r show ?l by (auto simp: recurrences_def intro!: bexI [of _ "year_of d"])
qed

lemma holiday_dates_iff:
  "d \<in> set (holiday_dates s e db) \<longleftrightarrow> s \<le> d \<and> d \<le> e \<and> holiday_on db d"
  by (auto simp: holiday_dates_def holiday_on_def recurrences_iff)

lemma working_dates_filter:
  "working_dates s e db exclude = filter (workday db exclude) [s .. e]"
  unfolding working_dates_def working_loop_filter
  by (auto simp: workday_def holiday_dates_iff intro!: filter_cong)

lemma working_dates_iff:
  "d \<in> set (working_dates s e db exclude) \<longleftrightarrow> s \<le> d \<and> d \<le> e \<and> workday db exclude d"
  by (auto simp: working_dates_filter)

lemma upto_append:
  assumes "(s::int) \<le> m + 1" and "m \<le> e"
  shows "[s .. e] = [s .. m] @ [m + 1 .. e]"
proof (cases "s \<le> m")
  case True
  with assms show ?thesis by (simp add: upto_split2 [of s m e])
next
  case False
  with assms have "s = m + 1" by simp
  then show ?thesis by simp
qed

lemma calculate_working_days_nonneg [simp]: "0 \<le> calculate_working_days s e db x"
  by (simp add: calculate_working_days_def)

lemma calculate_working_days_grid: "on_grid 1 (calculate_working_days s e db x)"
  by (auto simp: on_grid_def calculate_working_days_def
      intro!: exI [of _ "10 * int (length (working_dates s e db x))"])

subsection \<open>Limits and overlaps\<close>

definition closed_statuses :: "leave_status list" where
  "closed_statuses = [Rejected, Cancelled]"

datatype limit_reason = Max_days_per_request decimal | Max_requests_per_month nat

definition not_excluded :: "pk option \<Rightarrow> leave_request \<Rightarrow> bool" where
  "not_excluded exclude r \<longleftrightarrow> (case exclude of None \<Rightarrow> True | Some k \<Rightarrow> lr_pk r \<noteq> k)"

text \<open>\<^verbatim>\<open>validate_type_limits\<close>: None is the empty string (allowed).\<close>

definition validate_type_limits ::
  "pk \<Rightarrow> leave_type \<Rightarrow> date \<Rightarrow> decimal \<Rightarrow> leave_db \<Rightarrow> pk option \<Rightarrow> limit_reason option" where
  "validate_type_limits employee t start_date total_days db exclude =
     (let monthly =
        (case lt_max_requests_per_month t of
           None \<Rightarrow> None
         | Some m \<Rightarrow>
             if m = 0 then None
             else if m \<le> length (filter (\<lambda>r.
                   lr_employee r = employee \<and> lr_type r = lt_pk t
                   \<and> year_of (lr_start r) = year_of start_date
                   \<and> month_of (lr_start r) = month_of start_date
                   \<and> lr_status r \<notin> set closed_statuses \<and> not_excluded exclude r)
                 (db_requests db))
             then Some (Max_requests_per_month m) else None)
      in case lt_max_days_per_request t of
           Some m \<Rightarrow> if total_days > m then Some (Max_days_per_request m) else monthly
         | None \<Rightarrow> monthly)"

definition overlap_statuses :: "leave_status list" where
  "overlap_statuses = [Awaiting_substitutes, Pending, Manager_approved, Hr_approved, Approved]"

definition overlap_query :: "pk \<Rightarrow> date \<Rightarrow> date \<Rightarrow> pk option \<Rightarrow> leave_request \<Rightarrow> bool" where
  "overlap_query employee start_date end_date exclude r \<longleftrightarrow>
     lr_employee r = employee \<and> lr_status r \<in> set overlap_statuses
     \<and> ((lr_start r \<le> end_date \<and> lr_end r \<ge> start_date)
        \<or> (start_date \<le> lr_start r \<and> lr_start r \<le> end_date)
        \<or> (start_date \<le> lr_end r \<and> lr_end r \<le> end_date))
     \<and> not_excluded exclude r"

text \<open>\<^verbatim>\<open>check_overlapping_leaves\<close>: the dates of the newest overlapping request, if any.\<close>

definition check_overlapping_leaves ::
  "pk \<Rightarrow> date \<Rightarrow> date \<Rightarrow> leave_db \<Rightarrow> pk option \<Rightarrow> (date \<times> date) option" where
  "check_overlapping_leaves employee start_date end_date db exclude =
     (case find (overlap_query employee start_date end_date exclude) (rev (db_requests db)) of
        Some r \<Rightarrow> Some (lr_start r, lr_end r)
      | None \<Rightarrow> None)"

definition active_request :: "leave_request \<Rightarrow> bool" where
  "active_request r \<longleftrightarrow> lr_status r \<in> set overlap_statuses"

lemma active_request_iff: "active_request r \<longleftrightarrow> lr_status r \<notin> {Rejected, Cancelled}"
  by (cases "lr_status r") (simp_all add: active_request_def overlap_statuses_def)

definition disjoint_dates :: "leave_request \<Rightarrow> leave_request \<Rightarrow> bool" where
  "disjoint_dates a b \<longleftrightarrow> lr_end a < lr_start b \<or> lr_end b < lr_start a"

lemma no_overlap_iff:
  assumes "start_date \<le> end_date" and "\<forall>r \<in> set (db_requests db). lr_start r \<le> lr_end r"
  shows "check_overlapping_leaves employee start_date end_date db exclude = None \<longleftrightarrow>
    (\<forall>r \<in> set (db_requests db). lr_employee r = employee \<and> active_request r \<and> not_excluded exclude r
       \<longrightarrow> lr_end r < start_date \<or> end_date < lr_start r)"
proof -
  have "overlap_query employee start_date end_date exclude r \<longleftrightarrow>
      lr_employee r = employee \<and> active_request r \<and> not_excluded exclude r
      \<and> \<not> (lr_end r < start_date \<or> end_date < lr_start r)"
    if "r \<in> set (db_requests db)" for r
    using assms that by (auto simp: overlap_query_def active_request_def)
  moreover have "check_overlapping_leaves employee start_date end_date db exclude = None \<longleftrightarrow>
      (\<forall>r \<in> set (db_requests db). \<not> overlap_query employee start_date end_date exclude r)"
    using find_None_iff [of "overlap_query employee start_date end_date exclude" "rev (db_requests db)"]
    unfolding check_overlapping_leaves_def
    by (cases "find (overlap_query employee start_date end_date exclude) (rev (db_requests db))") auto
  ultimately show ?thesis by auto
qed

subsection \<open>Georgia's holidays\<close>

definition fixed_holidays :: "(int \<times> int) list" where
  "fixed_holidays =
     [(1, 1), (1, 2), (1, 7), (1, 19), (3, 3), (3, 8), (4, 9), (5, 9), (5, 12), (5, 26),
      (8, 28), (10, 14), (11, 23)]"

definition family_day :: "int \<times> int" where "family_day = (5, 17)"

definition family_day_from_year :: int where "family_day_from_year = 2025"

definition easter_days :: "int list" where "easter_days = [-2, -1, 0, 1]"

text \<open>Orthodox Easter: the Julian computus, shifted to the Gregorian calendar.\<close>

definition orthodox_easter :: "int \<Rightarrow> date" where
  "orthodox_easter year =
     (let moon = (19 * (year mod 19) + 15) mod 30;
          wd = (2 * (year mod 4) + 4 * (year mod 7) - moon + 34) mod 7;
          julian = moon + wd + 114;
          offset = year div 100 - year div 400 - 2;
          month = julian div 31;
          day = julian mod 31 + 1
      in ymd year month 1 + (day - 1 + offset))"

definition georgian_holidays :: "int \<Rightarrow> date list" where
  "georgian_holidays year =
     sort (map (\<lambda>(m, d). ymd year m d) fixed_holidays
       @ (if year \<ge> family_day_from_year then [ymd year (fst family_day) (snd family_day)] else [])
       @ map (\<lambda>delta. orthodox_easter year + delta) easter_days)"

text \<open>The loop of \<^verbatim>\<open>load_georgian_holidays\<close>: the new rows, the created and the skipped dates.\<close>

fun load_loop :: "date set \<Rightarrow> date list \<Rightarrow> public_holiday list \<times> date list \<times> date list" where
  "load_loop existing [] = ([], [], [])"
| "load_loop existing (day # days) =
     (let (rows, created, skipped) = load_loop existing days
      in if day \<in> existing then (rows, created, day # skipped)
         else (\<lparr>ph_date = day, ph_recurring = False\<rparr> # rows, day # created, skipped))"

definition load_georgian_holidays :: "leave_db \<Rightarrow> int \<Rightarrow> leave_db \<times> date list \<times> date list" where
  "load_georgian_holidays db year =
     (let existing = {d \<in> set (map ph_date (db_holidays db)). year_of d = year};
          (rows, created, skipped) = load_loop existing (georgian_holidays year)
      in (db\<lparr>db_holidays := db_holidays db @ rows\<rparr>, created, skipped))"

lemma load_loop_spec:
  "load_loop ex days = (rows, created, skipped) \<Longrightarrow>
     created = filter (\<lambda>d. d \<notin> ex) days \<and> skipped = filter (\<lambda>d. d \<in> ex) days \<and> map ph_date rows = created"
proof (induction days arbitrary: rows created skipped)
  case Nil
  then show ?case by simp
next
  case (Cons d days)
  obtain r c k where "load_loop ex days = (r, c, k)" by (cases "load_loop ex days")
  with Cons.IH [OF this] Cons.prems show ?case by (auto split: if_splits)
qed

lemma orthodox_easter_ordinal:
  fixes y :: int
  defines "moon \<equiv> (19 * (y mod 19) + 15) mod 30"
  defines "wd \<equiv> (2 * (y mod 4) + 4 * (y mod 7) - moon + 34) mod 7"
  shows "orthodox_easter y = 365 * y + y div 4 + moon + wd - 286"
proof -
  have m: "0 \<le> moon" "moon < 30" by (simp_all add: moon_def)
  have w: "0 \<le> wd" "wd < 7" by (simp_all add: wd_def)
  define j where "j = moon + wd + 114"
  define M where "M = j div 31"
  define R where "R = j mod 31"
  have j: "j = 31 * M + R" unfolding M_def R_def by (simp only: mult_div_mod_eq)
  have R: "0 \<le> R" "R < 31" unfolding R_def by simp_all
  have "114 \<le> j" "j < 150" using m w unfolding j_def by linarith+
  then have month: "M = 3 \<or> M = 4" using j R by linarith
  define leap :: int where "leap = (if is_leap y then 1 else 0)"
  have before: "days_before_month y M + R = leap + j - 34"
    using month j by (auto simp: days_before_month_def leap_def)
  have "orthodox_easter y = ymd y M 1 + (R + 1 - 1 + (y div 100 - y div 400 - 2))"
    unfolding orthodox_easter_def Let_def M_def R_def j_def moon_def wd_def by (rule refl)
  then have easter: "orthodox_easter y =
      days_before_year y + leap + j - 35 + (y div 100 - y div 400)"
    using before unfolding ymd_def by linarith
  have "days_before_year (y + 1) = 365 * y + y div 4 - y div 100 + y div 400"
    by (simp add: days_before_year_def)
  moreover have "days_before_year (y + 1) = days_before_year y + leap + 365"
    unfolding days_before_year_Suc leap_def by simp
  ultimately show ?thesis using easter unfolding j_def by simp
qed

lemma weekday_easter: "weekday (orthodox_easter y) = 6"
proof -
  define moon where "moon = (19 * (y mod 19) + 15) mod 30"
  define x where "x = 2 * (y mod 4) + 4 * (y mod 7) - moon + 34"
  define y4 and y7 and x7 where "y4 = y div 4" and "y7 = y div 7" and "x7 = x div 7"
  have "x mod 7 = x - 7 * x7" "y mod 4 = y - 4 * y4" "y mod 7 = y - 7 * y7"
    unfolding x7_def y4_def y7_def by (rule minus_mult_div_eq_mod [symmetric])+
  then have "365 * y + y4 + moon + x mod 7 - 286 = 7 * (53 * y - y4 - 4 * y7 - x7 - 36)"
    unfolding x_def by simp
  moreover have "orthodox_easter y = 365 * y + y4 + moon + x mod 7 - 286"
    unfolding y4_def x_def moon_def by (rule orthodox_easter_ordinal)
  ultimately obtain q where "orthodox_easter y = 7 * q" by (metis (no_types))
  then show ?thesis unfolding weekday_def by simp
qed

lemma easter_in_year:
  assumes "1 \<le> y" "y \<le> 9999" "-2 \<le> delta" "delta \<le> 1"
  shows "year_of (orthodox_easter y + delta) = y"
proof (rule year_of_eqI)
  define moon where "moon = (19 * (y mod 19) + 15) mod 30"
  define wd where "wd = (2 * (y mod 4) + 4 * (y mod 7) - moon + 34) mod 7"
  have m: "0 \<le> moon" "moon < 30" "0 \<le> wd" "wd < 7" by (simp_all add: moon_def wd_def)
  define y4 and y100 and y400 where "y4 = y div 4" and "y100 = y div 100" and "y400 = y div 400"
  have o: "orthodox_easter y = 365 * y + y4 + moon + wd - 286"
    unfolding y4_def moon_def wd_def by (rule orthodox_easter_ordinal)
  have nxt: "days_before_year (y + 1) = 365 * y + y4 - y100 + y400"
    by (simp add: days_before_year_def y4_def y100_def y400_def)
  have prev: "days_before_year y + 365 \<le> days_before_year (y + 1)"
    "days_before_year (y + 1) \<le> days_before_year y + 366"
    by (simp_all add: days_before_year_Suc)
  have c: "0 \<le> y100" "y100 \<le> 99" "0 \<le> y400" "y400 \<le> y100"
    using assms(1,2) zdiv_mono1 [of y 9999 100] zdiv_mono2 [of y 100 400]
    by (simp_all add: y100_def y400_def pos_imp_zdiv_nonneg_iff)
  show "days_before_year y < orthodox_easter y + delta"
    using o nxt m c assms(3,4) prev by linarith
  show "orthodox_easter y + delta \<le> days_before_year (y + 1)"
    using o nxt m c assms(3,4) by linarith
qed

lemma georgian_holidays_in_year:
  assumes "1 \<le> y" "y \<le> 9999" "d \<in> set (georgian_holidays y)"
  shows "year_of d = y"
proof -
  have valid: "valid_ymd y m k" if "(m, k) \<in> set fixed_holidays \<or> (m, k) = family_day" for m k
    using that assms(1,2)
    by (auto simp: fixed_holidays_def family_day_def valid_ymd_def days_in_month_def)
  consider (fixed) m k where "(m, k) \<in> set fixed_holidays \<or> (m, k) = family_day" "d = ymd y m k"
    | (easter) delta where "delta \<in> set easter_days" "d = orthodox_easter y + delta"
    using assms(3) by (auto simp: georgian_holidays_def family_day_def split: if_splits)
  then show ?thesis
  proof cases
    case fixed
    with valid show ?thesis by simp
  next
    case easter
    with assms(1,2) show ?thesis by (auto simp: easter_days_def intro!: easter_in_year)
  qed
qed

subsection \<open>Properties\<close>

text \<open>The day count is right on every range.  The loop visits exactly the days of the range that are
  neither weekend days nor holidays (a holiday row counts for its own date and, when recurring,
  for the same day of any year in which it exists), in ascending order, and counting is additive:
  splitting a range at any day changes nothing.\<close>

theorem working_days_correct:
  assumes "s \<le> m + 1" and "m \<le> e"
  shows "working_dates s e db x = filter (workday db x) [s .. e]
    \<and> calculate_working_days s e db x =
        calculate_working_days s m db x + calculate_working_days (m + 1) e db x"
  unfolding calculate_working_days_def working_dates_filter upto_append [OF assms] by simp

theorem working_days_correct_witness:
  "calculate_working_days 739677 739683 sample_db True = 5"
proof -
  have "calculate_working_days 739677 739683 sample_db True =
      calculate_working_days 739677 739679 sample_db True + calculate_working_days 739680 739683 sample_db True"
    using working_days_correct [of 739677 739679 739683 sample_db True] by simp
  also have "\<dots> = 5"
    by (simp add: calculate_working_days_def working_dates_def holiday_dates_def weekend_days_def
        sample_db_def sample_settings_def working_loop.simps weekday_def)
  finally show ?thesis .
qed

text \<open>The overlap query finds every clash and nothing else.  It reports no overlap exactly when all
  requests of the employee that are neither rejected nor cancelled (the edited one aside) end
  before the new dates or start after them.\<close>

theorem overlap_exact:
  assumes "start_date \<le> end_date" and "\<forall>r \<in> set (db_requests db). lr_start r \<le> lr_end r"
  shows "check_overlapping_leaves employee start_date end_date db exclude = None \<longleftrightarrow>
    (\<forall>r \<in> set (db_requests db).
       lr_employee r = employee \<and> lr_status r \<notin> {Rejected, Cancelled} \<and> not_excluded exclude r \<longrightarrow>
       lr_end r < start_date \<or> end_date < lr_start r)"
  using no_overlap_iff [OF assms] by (simp add: active_request_iff)

theorem overlap_exact_witness:
  "check_overlapping_leaves 1 739680 739681 (sample_db\<lparr>db_requests := [sample_request]\<rparr>) None = None"
  using overlap_exact [of 739680 739681 "sample_db\<lparr>db_requests := [sample_request]\<rparr>" 1 None]
  by (simp add: sample_request_def)

text \<open>Orthodox Easter Sunday, computed with the Julian computus, is a Sunday in every year.\<close>

theorem easter_is_sunday: "weekday (orthodox_easter year) = 6"
  by (rule weekday_easter)

text \<open>Loading Georgia's holidays twice creates nothing the second time: after the first load every
  date of the year's calendar has a row, so a repeated call skips them all and leaves the
  database as it is.\<close>

theorem georgian_load_idempotent:
  assumes "1 \<le> year" and "year \<le> 9999"
  shows "(let db1 = fst (load_georgian_holidays db year)
    in load_georgian_holidays db1 year = (db1, [], georgian_holidays year)
       \<and> (\<forall>d \<in> set (georgian_holidays year). holiday_on db1 d))"
proof -
  define ex where "ex = {d \<in> set (map ph_date (db_holidays db)). year_of d = year}"
  obtain rows created skipped where l: "load_loop ex (georgian_holidays year) = (rows, created, skipped)"
    by (metis prod_cases3)
  note l' = load_loop_spec [OF l]
  define db1 where "db1 = db\<lparr>db_holidays := db_holidays db @ rows\<rparr>"
  have db1: "fst (load_georgian_holidays db year) = db1"
    unfolding load_georgian_holidays_def ex_def [symmetric] Let_def l db1_def by simp
  define ex1 where "ex1 = {d \<in> set (map ph_date (db_holidays db1)). year_of d = year}"
  have all: "set (georgian_holidays year) \<subseteq> ex1"
    using georgian_holidays_in_year [OF assms] l'
    by (auto simp: ex1_def db1_def ex_def simp flip: set_map)
  obtain rows1 created1 skipped1 where k: "load_loop ex1 (georgian_holidays year) = (rows1, created1, skipped1)"
    by (metis prod_cases3)
  note k' = load_loop_spec [OF k]
  have c: "created1 = []" using k' all by (auto simp: filter_empty_conv)
  have "map ph_date rows1 = []" using k' c by metis
  then have "rows1 = []" by simp
  moreover have "skipped1 = georgian_holidays year" using k' all by (auto simp: filter_id_conv)
  ultimately have "load_georgian_holidays db1 year = (db1, [], georgian_holidays year)"
    using c unfolding load_georgian_holidays_def ex1_def [symmetric] Let_def k by simp
  moreover have "holiday_on db1 d" if "d \<in> set (georgian_holidays year)" for d
    using all that by (auto simp: ex1_def holiday_on_def)
  ultimately show ?thesis unfolding db1 Let_def by blast
qed

theorem georgian_load_idempotent_witness:
  "snd (load_georgian_holidays (fst (load_georgian_holidays sample_db 2026)) 2026)
   = ([], georgian_holidays 2026)"
  using georgian_load_idempotent [of 2026 sample_db] by (simp add: Let_def)

end
