(* ===== verification/Leave_Balance.thy ===== *)
theory Leave_Balance
  imports Leave_Days
begin

text \<open>
  The leave balance ledger of \<^verbatim>\<open>leave_management/utils.py\<close>: lazy allocation, the five actions
  of \<^verbatim>\<open>update_leave_balance\<close>, the balance check, monthly accrual and the administrator's edit
  of a balance row.  The locale \<open>ledger\<close> is the contract the
  request workflow relies on: what each action does to the pending and used days of every
  balance key.  Its client lemmas relate the ledger to a list of requests; it is interpreted on
  \<open>update_leave_balance\<close>.
\<close>

subsection \<open>Allocation\<close>

text \<open>
  \<^verbatim>\<open>LeaveBalance.objects.get_or_create(..., defaults={'allocated_days': d})\<close>: the table after
  the call, and whether a row was created.
\<close>

definition new_balance :: "balance_key \<Rightarrow> decimal \<Rightarrow> leave_balance" where
  "new_balance k allocated =
     \<lparr>lb_user = fst k, lb_type = fst (snd k), lb_year = snd (snd k), lb_allocated = allocated,
      lb_used = 0, lb_carried = 0, lb_pending = 0, lb_last_accrual = None\<rparr>"

definition get_or_create_balance ::
  "balance_key \<Rightarrow> decimal \<Rightarrow> leave_balance list \<Rightarrow> leave_balance \<times> bool \<times> leave_balance list" where
  "get_or_create_balance k allocated t =
     (case row_get lb_key k t of
        Some b \<Rightarrow> (b, False, t)
      | None \<Rightarrow> let b = new_balance k allocated in (b, True, row_create b t))"

fun initialize_loop :: "leave_type list \<Rightarrow> pk \<Rightarrow> int \<Rightarrow> leave_balance list \<times> nat \<Rightarrow> leave_balance list \<times> nat" where
  "initialize_loop [] user year (t, n) = (t, n)"
| "initialize_loop (ty # tys) user year (t, n) =
     (if lt_method ty \<in> {Annual, Accrual} then
        let (_, created, t') = get_or_create_balance (user, lt_pk ty, year)
              (if lt_method ty = Annual then lt_default_days ty else 0) t
        in initialize_loop tys user year (t', if created then n + 1 else n)
      else initialize_loop tys user year (t, n))"

definition initialize_leave_balances_for_user :: "leave_db \<Rightarrow> pk \<Rightarrow> int \<Rightarrow> leave_db \<times> nat" where
  "initialize_leave_balances_for_user db user year =
     (let (t, n) = initialize_loop (filter lt_is_active (db_types db)) user year (db_balances db, 0)
      in (db\<lparr>db_balances := t\<rparr>, n))"

subsection \<open>The balance check\<close>

datatype balance_error =
    Exceeds_negative int
  | No_balance
  | Insufficient_negative decimal int
  | Insufficient decimal decimal

definition balance_verdict ::
  "leave_settings option \<Rightarrow> leave_balance option \<Rightarrow> decimal \<Rightarrow> balance_error option" where
  "balance_verdict settings balance days =
     (case balance of
        None \<Rightarrow>
          (case settings of
             Some s \<Rightarrow>
               if ls_allow_negative_balance s then
                 (if days \<le> of_int (ls_max_negative_days s) then None
                  else Some (Exceeds_negative (ls_max_negative_days s)))
               else Some No_balance
           | None \<Rightarrow> Some No_balance)
      | Some b \<Rightarrow>
          let available = available_days b
          in if available \<ge> days then None
             else case settings of
               Some s \<Rightarrow>
                 if ls_allow_negative_balance s then
                   (let deficit = days - available
                    in if deficit \<le> of_int (ls_max_negative_days s) then None
                       else Some (Insufficient_negative deficit (ls_max_negative_days s)))
                 else Some (Insufficient available days)
             | None \<Rightarrow> Some (Insufficient available days))"

text \<open>
  \<^verbatim>\<open>check_leave_balance\<close> allocates the year's balances when the row is missing, so it returns
  the database too; a verdict of None is \<^verbatim>\<open>(True, "")\<close>.
\<close>

definition check_leave_balance ::
  "leave_db \<Rightarrow> pk \<Rightarrow> pk \<Rightarrow> decimal \<Rightarrow> int \<Rightarrow> leave_db \<times> balance_error option" where
  "check_leave_balance db user leave_type days year =
     (let k = (user, leave_type, year);
          db' = (case get_balance db k of
                   Some _ \<Rightarrow> db
                 | None \<Rightarrow> fst (initialize_leave_balances_for_user db user year))
      in (db', balance_verdict (db_settings db') (get_balance db' k) days))"

subsection \<open>The five actions\<close>

datatype balance_action = Act_pending | Act_approve | Act_reject | Act_cancel | Act_cancel_approved

text \<open>The foreign key to the leave type never dangles, so the None branch is never taken.\<close>

definition type_default_days :: "leave_db \<Rightarrow> pk \<Rightarrow> decimal" where
  "type_default_days db k = (case get_type db k of Some ty \<Rightarrow> lt_default_days ty | None \<Rightarrow> 0)"

fun balance_action_step :: "balance_action \<Rightarrow> decimal \<Rightarrow> leave_balance \<Rightarrow> leave_balance" where
  "balance_action_step Act_pending d b = b\<lparr>lb_pending := lb_pending b + d\<rparr>"
| "balance_action_step Act_approve d b =
     b\<lparr>lb_pending := max 0 (lb_pending b - d), lb_used := lb_used b + d\<rparr>"
| "balance_action_step Act_reject d b = b\<lparr>lb_pending := max 0 (lb_pending b - d)\<rparr>"
| "balance_action_step Act_cancel d b = b\<lparr>lb_pending := max 0 (lb_pending b - d)\<rparr>"
| "balance_action_step Act_cancel_approved d b = b\<lparr>lb_used := max 0 (lb_used b - d)\<rparr>"

definition update_leave_balance :: "leave_db \<Rightarrow> leave_request \<Rightarrow> balance_action \<Rightarrow> leave_db" where
  "update_leave_balance db r action =
     (let (balance, _, t) = get_or_create_balance (request_key r)
            (type_default_days db (lr_type r)) (db_balances db)
      in db\<lparr>db_balances := row_save lb_key (balance_action_step action (lr_days r) balance) t\<rparr>)"

subsection \<open>Accrual\<close>

text \<open>
  \<^verbatim>\<open>process_accrual\<close>.  \<open>store\<close> is what the column \<^verbatim>\<open>allocated_days\<close> (one decimal place) keeps
  of the Decimal assigned to it; the returned amount is the unrounded one.
\<close>

definition months_between :: "date \<Rightarrow> date \<Rightarrow> int" where
  "months_between start_date current_date =
     (year_of current_date - year_of start_date) * 12 + (month_of current_date - month_of start_date)"

definition accrual_start :: "user \<Rightarrow> leave_balance \<Rightarrow> int \<Rightarrow> date" where
  "accrual_start u b year =
     (case lb_last_accrual b of
        Some d \<Rightarrow> d
      | None \<Rightarrow>
          (case u_date_joined u of
             Some j \<Rightarrow> if year_of j = year then j else ymd year 1 1
           | None \<Rightarrow> ymd year 1 1))"

definition process_accrual ::
  "(decimal \<Rightarrow> decimal) \<Rightarrow> leave_db \<Rightarrow> user \<Rightarrow> leave_type \<Rightarrow> date \<Rightarrow> leave_db \<times> decimal" where
  "process_accrual store db u ty current_date =
     (if lt_method ty \<noteq> Accrual then (db, 0)
      else
        let year = year_of current_date;
            (balance, _, t) = get_or_create_balance (u_pk u, lt_pk ty, year) 0 (db_balances db);
            db' = db\<lparr>db_balances := t\<rparr>;
            start_date = accrual_start u balance year
        in if current_date \<le> start_date then (db', 0)
           else
             let days = of_int (months_between start_date current_date) * lt_accrual_rate ty
             in if days > 0
                then (db'\<lparr>db_balances := row_save lb_key
                        (balance\<lparr>lb_allocated := store (lb_allocated balance + days),
                                 lb_last_accrual := Some current_date\<rparr>) t\<rparr>, days)
                else (db', days))"

subsection \<open>The ledger contract\<close>

fun pending_after :: "balance_action \<Rightarrow> decimal \<Rightarrow> decimal \<Rightarrow> decimal" where
  "pending_after Act_pending d p = p + d"
| "pending_after Act_cancel_approved d p = p"
| "pending_after _ d p = max 0 (p - d)"

fun used_after :: "balance_action \<Rightarrow> decimal \<Rightarrow> decimal \<Rightarrow> decimal" where
  "used_after Act_approve d u = u + d"
| "used_after Act_cancel_approved d u = max 0 (u - d)"
| "used_after _ d u = u"

text \<open>Which bucket of its balance a request occupies.\<close>

datatype bucket = Held | Spent | Free

locale ledger =
  fixes pending_of used_of :: "'d \<Rightarrow> 'k \<Rightarrow> decimal"
    and post :: "'d \<Rightarrow> 'r \<Rightarrow> balance_action \<Rightarrow> 'd"
    and key_of :: "'r \<Rightarrow> 'k" and days_of :: "'r \<Rightarrow> decimal"
    and bucket_of :: "'r \<Rightarrow> bucket" and id_of :: "'r \<Rightarrow> 'i"
  assumes pending_post: "pending_of (post d r a) k =
      (if k = key_of r then pending_after a (days_of r) (pending_of d k) else pending_of d k)"
    and used_post: "used_of (post d r a) k =
      (if k = key_of r then used_after a (days_of r) (used_of d k) else used_of d k)"
begin

definition held :: "'k \<Rightarrow> 'r \<Rightarrow> decimal" where
  "held k r = (if key_of r = k \<and> bucket_of r = Held then days_of r else 0)"

definition spent :: "'k \<Rightarrow> 'r \<Rightarrow> decimal" where
  "spent k r = (if key_of r = k \<and> bucket_of r = Spent then days_of r else 0)"

definition balanced :: "'r list \<Rightarrow> 'd \<Rightarrow> bool" where
  "balanced rs d \<longleftrightarrow>
     (\<forall>k. pending_of d k = (\<Sum>r\<leftarrow>rs. held k r) \<and> used_of d k = (\<Sum>r\<leftarrow>rs. spent k r))"

definition days_ok :: "'r list \<Rightarrow> bool" where
  "days_ok rs \<longleftrightarrow> (\<forall>r \<in> set rs. 0 \<le> days_of r)"

lemma held_le: "days_ok rs \<Longrightarrow> r \<in> set rs \<Longrightarrow> held k r \<le> (\<Sum>x\<leftarrow>rs. held k x)"
  by (rule sum_list_member_le) (auto simp: held_def days_ok_def)

lemma spent_le: "days_ok rs \<Longrightarrow> r \<in> set rs \<Longrightarrow> spent k r \<le> (\<Sum>x\<leftarrow>rs. spent k x)"
  by (rule sum_list_member_le) (auto simp: spent_def days_ok_def)

lemma pending_enough:
  "balanced rs d \<Longrightarrow> days_ok rs \<Longrightarrow> r \<in> set rs \<Longrightarrow> bucket_of r = Held \<Longrightarrow>
     days_of r \<le> pending_of d (key_of r)"
  using held_le [of rs r "key_of r"] by (simp add: balanced_def held_def)

lemma used_enough:
  "balanced rs d \<Longrightarrow> days_ok rs \<Longrightarrow> r \<in> set rs \<Longrightarrow> bucket_of r = Spent \<Longrightarrow>
     days_of r \<le> used_of d (key_of r)"
  using spent_le [of rs r "key_of r"] by (simp add: balanced_def spent_def)

lemma balanced_create:
  "balanced rs d \<Longrightarrow> bucket_of r = Held \<Longrightarrow> balanced (row_create r rs) (post d r Act_pending)"
  by (auto simp: balanced_def pending_post used_post held_def spent_def)

lemma balanced_approve:
  assumes "balanced rs d" "days_ok rs" "distinct (map id_of rs)" "r0 \<in> set rs"
    and "id_of r0 = id_of r" "key_of r0 = key_of r" "days_of r0 = days_of r"
    and "bucket_of r0 = Held" "bucket_of r = Spent"
  shows "balanced (row_save id_of r rs) (post d r Act_approve)"
  using assms pending_enough [of rs d r0]
  by (auto simp: balanced_def pending_post used_post held_def spent_def
      sum_row_save [OF assms(3,4,5)])

lemma balanced_release:
  assumes "balanced rs d" "days_ok rs" "distinct (map id_of rs)" "r0 \<in> set rs"
    and "id_of r0 = id_of r" "key_of r0 = key_of r" "days_of r0 = days_of r"
    and "bucket_of r0 = Held" "bucket_of r = Free" "a \<in> {Act_reject, Act_cancel}"
  shows "balanced (row_save id_of r rs) (post d r a)"
  using assms pending_enough [of rs d r0]
  by (auto simp: balanced_def pending_post used_post held_def spent_def
      sum_row_save [OF assms(3,4,5)])

lemma balanced_return:
  assumes "balanced rs d" "days_ok rs" "distinct (map id_of rs)" "r0 \<in> set rs"
    and "id_of r0 = id_of r" "key_of r0 = key_of r" "days_of r0 = days_of r"
    and "bucket_of r0 = Spent" "bucket_of r = Free"
  shows "balanced (row_save id_of r rs) (post d r Act_cancel_approved)"
  using assms used_enough [of rs d r0]
  by (auto simp: balanced_def pending_post used_post held_def spent_def
      sum_row_save [OF assms(3,4,5)])

lemma balanced_keep:
  assumes "balanced rs d" "distinct (map id_of rs)" "r0 \<in> set rs"
    and "id_of r0 = id_of r" "key_of r0 = key_of r" "days_of r0 = days_of r" "bucket_of r0 = bucket_of r"
  shows "balanced (row_save id_of r rs) d"
  using assms by (auto simp: balanced_def held_def spent_def sum_row_save [OF assms(2,3,4)])

lemma balanced_edit:
  assumes "balanced rs d" "days_ok rs" "distinct (map id_of rs)" "r0 \<in> set rs"
    and "id_of r0 = id_of r" "bucket_of r0 = Held" "bucket_of r = Held"
  shows "balanced (row_save id_of r rs) (post (post d r0 Act_cancel) r Act_pending)"
  using assms pending_enough [of rs d r0]
  by (auto simp: balanced_def pending_post used_post held_def spent_def
      sum_row_save [OF assms(3,4,5)])

lemma balanced_delete_held:
  assumes "balanced rs d" "days_ok rs" "distinct (map id_of rs)" "r \<in> set rs" "bucket_of r = Held"
  shows "balanced (row_delete id_of (id_of r) rs) (post d r Act_cancel)"
  using assms pending_enough [of rs d r]
  by (auto simp: balanced_def pending_post used_post held_def spent_def
      sum_row_delete [OF assms(3,4)])

lemma balanced_delete_spent:
  assumes "balanced rs d" "days_ok rs" "distinct (map id_of rs)" "r \<in> set rs" "bucket_of r = Spent"
  shows "balanced (row_delete id_of (id_of r) rs) (post d r Act_cancel_approved)"
  using assms used_enough [of rs d r]
  by (auto simp: balanced_def pending_post used_post held_def spent_def
      sum_row_delete [OF assms(3,4)])

lemma balanced_delete_free:
  assumes "balanced rs d" "distinct (map id_of rs)" "r \<in> set rs" "bucket_of r = Free"
  shows "balanced (row_delete id_of (id_of r) rs) d"
  using assms by (auto simp: balanced_def held_def spent_def sum_row_delete [OF assms(2,3)])

lemma balanced_cong:
  "balanced rs d \<Longrightarrow> pending_of d' = pending_of d \<Longrightarrow> used_of d' = used_of d \<Longrightarrow> balanced rs d'"
  by (simp add: balanced_def)

lemma balanced_nonneg:
  "balanced rs d \<Longrightarrow> days_ok rs \<Longrightarrow> 0 \<le> pending_of d k \<and> 0 \<le> used_of d k"
  by (auto simp: balanced_def held_def spent_def days_ok_def intro!: sum_list_nonneg_rat)

end

subsection \<open>The implementation of the contract\<close>

definition pending_at :: "leave_db \<Rightarrow> balance_key \<Rightarrow> decimal" where
  "pending_at db k = (case get_balance db k of None \<Rightarrow> 0 | Some b \<Rightarrow> lb_pending b)"

definition used_at :: "leave_db \<Rightarrow> balance_key \<Rightarrow> decimal" where
  "used_at db k = (case get_balance db k of None \<Rightarrow> 0 | Some b \<Rightarrow> lb_used b)"

fun bucket_of_status :: "leave_status \<Rightarrow> bucket" where
  "bucket_of_status Approved = Spent"
| "bucket_of_status Rejected = Free"
| "bucket_of_status Cancelled = Free"
| "bucket_of_status _ = Held"

definition request_bucket :: "leave_request \<Rightarrow> bucket" where
  "request_bucket r = bucket_of_status (lr_status r)"

lemma bucket_open: "s \<in> set open_statuses \<longleftrightarrow> bucket_of_status s = Held"
  by (cases s) simp_all

lemma lb_key_action_step [simp]: "lb_key (balance_action_step a d b) = lb_key b"
  by (cases a) (simp_all add: lb_key_def)

lemma lb_pending_action_step [simp]:
  "lb_pending (balance_action_step a d b) = pending_after a d (lb_pending b)"
  by (cases a) simp_all

lemma lb_used_action_step [simp]:
  "lb_used (balance_action_step a d b) = used_after a d (lb_used b)"
  by (cases a) simp_all

lemma new_balance_simps [simp]:
  "lb_key (new_balance k d) = k" "lb_pending (new_balance k d) = 0" "lb_used (new_balance k d) = 0"
  "lb_allocated (new_balance k d) = d" "lb_carried (new_balance k d) = 0"
  "lb_user (new_balance k d) = fst k" "lb_type (new_balance k d) = fst (snd k)"
  "lb_year (new_balance k d) = snd (snd k)" "lb_last_accrual (new_balance k d) = None"
  by (simp_all add: new_balance_def lb_key_def)

lemma get_or_create_spec:
  assumes "get_or_create_balance k d t = (b, c, t')"
  shows "row_get lb_key k t' = Some b" "lb_key b = k"
    and "row_get lb_key k' t' = (if k' = k then Some b else row_get lb_key k' t)"
    and "b = (case row_get lb_key k t of None \<Rightarrow> new_balance k d | Some b0 \<Rightarrow> b0)"
  using assms
  by (auto simp: get_or_create_balance_def row_get_create Let_def
      dest: row_get_Some split: option.splits)

lemma get_or_create_distinct:
  "distinct (map lb_key t) \<Longrightarrow> get_or_create_balance k d t = (b, c, t') \<Longrightarrow> distinct (map lb_key t')"
  by (auto simp: get_or_create_balance_def Let_def row_get_None image_iff split: option.splits)

lemma get_balance_update:
  "get_balance (update_leave_balance db r a) k =
     (if k = request_key r
      then Some (balance_action_step a (lr_days r)
        (fst (get_or_create_balance (request_key r) (type_default_days db (lr_type r)) (db_balances db))))
      else get_balance db k)"
proof -
  obtain b c t where g: "get_or_create_balance (request_key r) (type_default_days db (lr_type r))
      (db_balances db) = (b, c, t)" by (metis prod_cases3)
  from get_or_create_spec(1,2) [OF g] have "request_key r \<in> lb_key ` set t" "lb_key b = request_key r"
    using row_get_None [of lb_key "request_key r" t] by auto
  then show ?thesis
    using get_or_create_spec(3) [OF g, of k] g
    by (simp add: update_leave_balance_def get_balance_def row_get_save)
qed

lemma fst_get_or_create:
  "fst (get_or_create_balance k d (db_balances db)) =
     (case get_balance db k of None \<Rightarrow> new_balance k d | Some b \<Rightarrow> b)"
  by (simp add: get_or_create_balance_def get_balance_def Let_def split: option.splits)

lemma pending_at_update:
  "pending_at (update_leave_balance db r a) k =
     (if k = request_key r then pending_after a (lr_days r) (pending_at db k) else pending_at db k)"
  unfolding pending_at_def get_balance_update fst_get_or_create by (simp split: option.splits)

lemma used_at_update:
  "used_at (update_leave_balance db r a) k =
     (if k = request_key r then used_after a (lr_days r) (used_at db k) else used_at db k)"
  unfolding used_at_def get_balance_update fst_get_or_create by (simp split: option.splits)

lemma distinct_update:
  "distinct (map lb_key (db_balances db)) \<Longrightarrow>
     distinct (map lb_key (db_balances (update_leave_balance db r a)))"
  by (auto simp: update_leave_balance_def dest: get_or_create_distinct split: prod.splits)

lemma update_leave_balance_frame [simp]:
  "db_requests (update_leave_balance db r a) = db_requests db"
  "db_settings (update_leave_balance db r a) = db_settings db"
  "db_types (update_leave_balance db r a) = db_types db"
  "db_users (update_leave_balance db r a) = db_users db"
  "db_chains (update_leave_balance db r a) = db_chains db"
  "db_subs (update_leave_balance db r a) = db_subs db"
  "db_events (update_leave_balance db r a) = db_events db"
  "db_holidays (update_leave_balance db r a) = db_holidays db"
  "db_runs (update_leave_balance db r a) = db_runs db"
  "db_assignments (update_leave_balance db r a) = db_assignments db"
  by (simp_all add: update_leave_balance_def split: prod.splits)

interpretation lg: ledger pending_at used_at update_leave_balance request_key lr_days
  request_bucket lr_pk
  by unfold_locales (simp_all add: pending_at_update used_at_update)

subsection \<open>Facts about allocation, the check and accrual\<close>

definition has_balance :: "leave_db \<Rightarrow> balance_key \<Rightarrow> bool" where
  "has_balance db k \<longleftrightarrow> get_balance db k \<noteq> None"

lemma initialize_loop_get:
  assumes "initialize_loop tys u y (t, n) = (t', n')"
  shows "row_get lb_key k t = Some b \<Longrightarrow> row_get lb_key k t' = Some b"
    and "row_get lb_key k t = None \<Longrightarrow> row_get lb_key k t' = Some b \<Longrightarrow> lb_pending b = 0 \<and> lb_used b = 0"
    and "distinct (map lb_key t) \<Longrightarrow> distinct (map lb_key t')"
    and "ty \<in> set tys \<Longrightarrow> lt_method ty \<in> {Annual, Accrual} \<Longrightarrow> row_get lb_key (u, lt_pk ty, y) t' \<noteq> None"
proof -
  have "(row_get lb_key k t = Some b \<longrightarrow> row_get lb_key k t' = Some b)
      \<and> (row_get lb_key k t = None \<longrightarrow> row_get lb_key k t' = Some b \<longrightarrow> lb_pending b = 0 \<and> lb_used b = 0)
      \<and> (distinct (map lb_key t) \<longrightarrow> distinct (map lb_key t'))
      \<and> (ty \<in> set tys \<longrightarrow> lt_method ty \<in> {Annual, Accrual} \<longrightarrow> row_get lb_key (u, lt_pk ty, y) t' \<noteq> None)"
    if "initialize_loop tys u y (t, n) = (t', n')" for k b ty tys t n
    using that
  proof (induction tys arbitrary: t n k b ty)
    case Nil
    then show ?case by simp
  next
    case (Cons a tys)
    define d where "d = (if lt_method a = Annual then lt_default_days a else 0)"
    obtain b1 c1 t1 where g: "get_or_create_balance (u, lt_pk a, y) d t = (b1, c1, t1)"
      by (metis prod_cases3)
    show ?case
    proof (cases "lt_method a \<in> {Annual, Accrual}")
      case False
      then have "initialize_loop tys u y (t, n) = (t', n')" using Cons.prems by simp
      from Cons.IH [OF this] False show ?thesis by auto
    next
      case True
      then have step: "initialize_loop tys u y (t1, if c1 then n + 1 else n) = (t', n')"
        using Cons.prems g unfolding d_def by (simp split: if_splits)
      note ih = Cons.IH [OF step]
      note s = get_or_create_spec [OF g]
      have keep: "row_get lb_key k t' = Some x" if "row_get lb_key k t1 = Some x" for k x
        using ih [of k x] that by blast
      have "row_get lb_key (u, lt_pk a, y) t' = Some b1" using keep s(1) by blast
      moreover have "row_get lb_key k t = Some b \<longrightarrow> row_get lb_key k t1 = Some b"
        using s(3) [of k] s(4) by (auto split: option.splits)
      moreover have "row_get lb_key k t = None \<longrightarrow> row_get lb_key k t1 = Some x \<longrightarrow>
          lb_pending x = 0 \<and> lb_used x = 0" for x
        using s(3) [of k] s(4) by (auto split: if_splits)
      moreover have "row_get lb_key k t1 = None \<or> (\<exists>x. row_get lb_key k t1 = Some x \<and> row_get lb_key k t' = Some x)"
        using keep [of k] by (cases "row_get lb_key k t1") auto
      ultimately show ?thesis
        using ih [of k b ty] get_or_create_distinct [OF _ g] by auto
    qed
  qed
  from this [OF assms] show
    "row_get lb_key k t = Some b \<Longrightarrow> row_get lb_key k t' = Some b"
    "row_get lb_key k t = None \<Longrightarrow> row_get lb_key k t' = Some b \<Longrightarrow> lb_pending b = 0 \<and> lb_used b = 0"
    "distinct (map lb_key t) \<Longrightarrow> distinct (map lb_key t')"
    "ty \<in> set tys \<Longrightarrow> lt_method ty \<in> {Annual, Accrual} \<Longrightarrow> row_get lb_key (u, lt_pk ty, y) t' \<noteq> None"
    by blast+
qed

lemma initialize_loop_noop:
  "(\<forall>ty \<in> set tys. lt_method ty \<in> {Annual, Accrual} \<longrightarrow> row_get lb_key (u, lt_pk ty, y) t \<noteq> None) \<Longrightarrow>
     initialize_loop tys u y (t, n) = (t, n)"
  by (induction tys) (auto simp: get_or_create_balance_def)

lemma initialize_frame:
  assumes "initialize_leave_balances_for_user db u y = (db', n)"
  shows "pending_at db' = pending_at db" "used_at db' = used_at db"
    and "db' = db\<lparr>db_balances := db_balances db'\<rparr>"
    and "distinct (map lb_key (db_balances db)) \<Longrightarrow> distinct (map lb_key (db_balances db'))"
    and "get_balance db k = Some b \<Longrightarrow> get_balance db' k = Some b"
proof -
  obtain t m where l: "initialize_loop (filter lt_is_active (db_types db)) u y (db_balances db, 0) = (t, m)"
    by (metis surj_pair)
  then have db': "db' = db\<lparr>db_balances := t\<rparr>"
    using assms by (simp add: initialize_leave_balances_for_user_def)
  note i = initialize_loop_get [OF l]
  have "pending_at db' k = pending_at db k \<and> used_at db' k = used_at db k" for k
    unfolding pending_at_def used_at_def get_balance_def db' using i(1,2) [of k]
    by (auto split: option.splits)
  then show "pending_at db' = pending_at db" "used_at db' = used_at db" by auto
  show "db' = db\<lparr>db_balances := db_balances db'\<rparr>" by (simp add: db')
  show "distinct (map lb_key (db_balances db)) \<Longrightarrow> distinct (map lb_key (db_balances db'))"
    using i(3) by (simp add: db')
  show "get_balance db k = Some b \<Longrightarrow> get_balance db' k = Some b"
    using i(1) by (simp add: db' get_balance_def)
qed

lemma check_frame:
  assumes "check_leave_balance db u ty days y = (db', verdict)"
  shows "pending_at db' = pending_at db" "used_at db' = used_at db"
    and "db' = db\<lparr>db_balances := db_balances db'\<rparr>"
    and "distinct (map lb_key (db_balances db)) \<Longrightarrow> distinct (map lb_key (db_balances db'))"
proof -
  obtain d n where "initialize_leave_balances_for_user db u y = (d, n)" by (metis surj_pair)
  note f = initialize_frame [OF this] this
  have "db' = (case get_balance db (u, ty, y) of None \<Rightarrow> d | Some _ \<Rightarrow> db)"
    using assms f(6) by (auto simp: check_leave_balance_def Let_def split: option.splits)
  with f show "pending_at db' = pending_at db" "used_at db' = used_at db"
    "db' = db\<lparr>db_balances := db_balances db'\<rparr>"
    "distinct (map lb_key (db_balances db)) \<Longrightarrow> distinct (map lb_key (db_balances db'))"
    by (auto split: option.splits)
qed

lemma months_between_index: "months_between a b = month_index b - month_index a"
  by (simp add: months_between_def month_index_def algebra_simps)

lemma months_between_nonneg: "a \<le> b \<Longrightarrow> 0 \<le> months_between a b"
  using month_index_mono by (simp add: months_between_index)

subsection \<open>Properties\<close>

text \<open>How far below zero the settings let a balance go.\<close>

definition negative_limit :: "leave_db \<Rightarrow> decimal" where
  "negative_limit db =
     (case db_settings db of
        Some s \<Rightarrow> if ls_allow_negative_balance s then of_int (ls_max_negative_days s) else 0
      | None \<Rightarrow> 0)"

lemma available_after_pending:
  "available_days (balance_action_step Act_pending d b) = available_days b - d"
  by (simp add: available_days_def)

lemma verdict_None:
  assumes "balance_verdict (db_settings db) bo days = None" and "0 \<le> negative_limit db"
    and "0 \<le> available_days b0"
  shows "- negative_limit db \<le> available_days (case bo of None \<Rightarrow> b0 | Some b \<Rightarrow> b) - days"
  using assms
  by (cases bo; cases "db_settings db"; simp add: balance_verdict_def negative_limit_def Let_def split: if_splits)

text \<open>The balance check is sound.  When it lets a request through and the request then reserves
  its days, the balance exists and has not fallen below zero by more than the negative limit
  of the settings (zero when negative balances are off).\<close>

theorem checked_reservation:
  assumes "check_leave_balance db (lr_employee r) (lr_type r) (lr_days r) (year_of (lr_start r)) = (db', None)"
    and "0 \<le> negative_limit db" and "0 \<le> type_default_days db (lr_type r)"
  shows "\<exists>b. get_balance (update_leave_balance db' r Act_pending) (request_key r) = Some b
           \<and> - negative_limit db \<le> available_days b"
proof -
  note f = check_frame [OF assms(1)]
  obtain t where "db' = db\<lparr>db_balances := t\<rparr>" using f(3) by blast
  then have same: "db_settings db' = db_settings db" "type_default_days db' = type_default_days db"
    by (simp_all add: type_default_days_def get_type_def fun_eq_iff)
  have "balance_verdict (db_settings db) (get_balance db' (request_key r)) (lr_days r) = None"
    using assms(1) unfolding same(1) [symmetric] request_key_def
    by (auto simp only: check_leave_balance_def Let_def prod.inject)
  moreover have "0 \<le> available_days (new_balance (request_key r) (type_default_days db (lr_type r)))"
    using assms(3) by (simp add: available_days_def)
  ultimately have "- negative_limit db \<le> available_days (case get_balance db' (request_key r) of
      None \<Rightarrow> new_balance (request_key r) (type_default_days db (lr_type r)) | Some b \<Rightarrow> b) - lr_days r"
    using assms(2) by (intro verdict_None)
  then show ?thesis
    by (simp add: get_balance_update fst_get_or_create same available_after_pending
        del: balance_action_step.simps)
qed

theorem checked_reservation_witness:
  "\<exists>b. get_balance (update_leave_balance
       (fst (check_leave_balance sample_db 1 1 3 2026)) sample_request Act_pending) (1, 1, 2026) = Some b
     \<and> 0 \<le> available_days b"
proof -
  have "get_balance sample_db (1, 1, 2026) = None"
    by (simp add: sample_db_def get_balance_def row_get_def)
  moreover have "get_balance (fst (initialize_leave_balances_for_user sample_db 1 2026)) (1, 1, 2026)
      = Some (new_balance (1, 1, 2026) 24)"
    by (simp add: initialize_leave_balances_for_user_def get_or_create_balance_def
        get_balance_def row_get_def row_create_def sample_db_def annual_leave_def
        accrual_leave_def Let_def)
  ultimately have "check_leave_balance sample_db 1 1 3 2026 =
      (fst (check_leave_balance sample_db 1 1 3 2026), None)"
    by (simp add: check_leave_balance_def balance_verdict_def available_days_def Let_def)
  then show ?thesis
    using checked_reservation [of sample_db sample_request "fst (check_leave_balance sample_db 1 1 3 2026)"]
    by (simp add: negative_limit_def type_default_days_def get_type_def row_get_def request_key_def
        sample_request_def sample_db_def sample_settings_def annual_leave_def)
qed

text \<open>Lazy allocation is idempotent and harmless: initialising the same employee and year a second
  time creates nothing and changes nothing, and an existing balance row is never overwritten.\<close>

theorem initialize_idempotent:
  "(let db1 = fst (initialize_leave_balances_for_user db u y)
    in initialize_leave_balances_for_user db1 u y = (db1, 0)
       \<and> (case get_balance db k of None \<Rightarrow> True | Some b \<Rightarrow> get_balance db1 k = Some b))"
proof -
  obtain t m where l: "initialize_loop (filter lt_is_active (db_types db)) u y (db_balances db, 0) = (t, m)"
    by (metis surj_pair)
  note i = initialize_loop_get [OF l]
  have noop: "initialize_loop (filter lt_is_active (db_types db)) u y (t, 0) = (t, 0)"
    by (rule initialize_loop_noop) (use i(4) in blast)
  show ?thesis
    using l noop i(1) [of k]
    by (auto simp: initialize_leave_balances_for_user_def get_balance_def Let_def split: option.splits)
qed

text \<open>The days allocated under a key, and what processing on day \<open>d\<close> adds to them.\<close>

definition allocated_at :: "leave_db \<Rightarrow> balance_key \<Rightarrow> decimal" where
  "allocated_at db k = (case get_balance db k of None \<Rightarrow> 0 | Some b \<Rightarrow> lb_allocated b)"

definition accrual_from :: "leave_db \<Rightarrow> user \<Rightarrow> leave_type \<Rightarrow> int \<Rightarrow> date" where
  "accrual_from db u ty y =
     accrual_start u (case get_balance db (u_pk u, lt_pk ty, y) of
       None \<Rightarrow> new_balance (u_pk u, lt_pk ty, y) 0 | Some b \<Rightarrow> b) y"

definition accrual_due :: "date \<Rightarrow> leave_type \<Rightarrow> date \<Rightarrow> decimal" where
  "accrual_due s ty d = (if d \<le> s then 0 else of_int (months_between s d) * lt_accrual_rate ty)"

lemma process_accrual_effect:
  fixes u :: user and ty :: leave_type
  defines "k d \<equiv> (u_pk u, lt_pk ty, year_of d)"
  assumes "lt_method ty = Accrual" and "\<And>x. store x = x" and "0 \<le> lt_accrual_rate ty"
  shows "allocated_at (fst (process_accrual store db u ty d)) (k d)
      = allocated_at db (k d) + accrual_due (accrual_from db u ty (year_of d)) ty d"
    and "accrual_from (fst (process_accrual store db u ty d)) u ty (year_of d)
      = (if 0 < accrual_due (accrual_from db u ty (year_of d)) ty d then d
         else accrual_from db u ty (year_of d))"
proof -
  obtain b c t where g: "get_or_create_balance (k d) 0 (db_balances db) = (b, c, t)"
    by (metis prod_cases3)
  note s = get_or_create_spec [OF g]
  have b: "b = (case get_balance db (k d) of None \<Rightarrow> new_balance (k d) 0 | Some b0 \<Rightarrow> b0)"
    using s(4) by (simp add: get_balance_def)
  have start: "accrual_from db u ty (year_of d) = accrual_start u b (year_of d)"
    unfolding accrual_from_def b k_def by (rule refl)
  have key: "k d \<in> lb_key ` set t" using s(1) row_get_None [of lb_key "k d" t] by auto
  have alloc: "allocated_at db (k d) = lb_allocated b"
    unfolding allocated_at_def b by (simp split: option.splits)
  have sk: "lb_user b = u_pk u" "lb_type b = lt_pk ty" "lb_year b = year_of d"
    using s(2) by (simp_all add: lb_key_def k_def)
  have nonneg: "0 \<le> accrual_due (accrual_start u b (year_of d)) ty d"
    using assms(4) months_between_nonneg by (simp add: accrual_due_def)
  have "allocated_at (fst (process_accrual store db u ty d)) (k d)
      = lb_allocated b + accrual_due (accrual_start u b (year_of d)) ty d
    \<and> accrual_from (fst (process_accrual store db u ty d)) u ty (year_of d)
      = (if 0 < accrual_due (accrual_start u b (year_of d)) ty d then d
         else accrual_start u b (year_of d))"
    using s(1) key nonneg assms(2,3) g sk
    by (auto simp: process_accrual_def accrual_due_def allocated_at_def accrual_from_def Let_def
        get_balance_def row_get_save k_def lb_key_def accrual_start_def)
  then show "allocated_at (fst (process_accrual store db u ty d)) (k d)
      = allocated_at db (k d) + accrual_due (accrual_from db u ty (year_of d)) ty d"
    "accrual_from (fst (process_accrual store db u ty d)) u ty (year_of d)
      = (if 0 < accrual_due (accrual_from db u ty (year_of d)) ty d then d
         else accrual_from db u ty (year_of d))"
    unfolding start alloc by auto
qed

text \<open>Accrual does not depend on how often it runs.  When the column keeps the assigned value
  exactly, processing on an earlier day of the year and again on a later one allocates the same
  days as processing once, on the later day.\<close>

theorem accrual_telescopes:
  assumes "lt_method ty = Accrual" and "\<And>x. store x = x" and "0 \<le> lt_accrual_rate ty"
    and "d1 \<le> d2" and "year_of d1 = year_of d2"
  shows "allocated_at (fst (process_accrual store (fst (process_accrual store db u ty d1)) u ty d2))
           (u_pk u, lt_pk ty, year_of d2)
       = allocated_at (fst (process_accrual store db u ty d2)) (u_pk u, lt_pk ty, year_of d2)"
proof -
  note e = process_accrual_effect [OF assms(1-3)]
  define s where "s = accrual_from db u ty (year_of d2)"
  have due: "accrual_due s ty d1 + accrual_due (if 0 < accrual_due s ty d1 then d1 else s) ty d2
      = accrual_due s ty d2"
  proof (cases "0 < accrual_due s ty d1")
    case True
    then have "s < d1" by (simp add: accrual_due_def split: if_splits)
    moreover have "d1 = d2 \<or> d1 < d2" using assms(4) by linarith
    ultimately show ?thesis
      using True by (auto simp: accrual_due_def months_between_index algebra_simps)
  next
    case False
    moreover have "0 \<le> accrual_due s ty d1"
      using assms(3) months_between_nonneg by (simp add: accrual_due_def)
    ultimately show ?thesis by simp
  qed
  have "allocated_at (fst (process_accrual store (fst (process_accrual store db u ty d1)) u ty d2))
      (u_pk u, lt_pk ty, year_of d2)
      = allocated_at db (u_pk u, lt_pk ty, year_of d2) + accrual_due s ty d1
        + accrual_due (if 0 < accrual_due s ty d1 then d1 else s) ty d2"
    using e(1) [of "fst (process_accrual store db u ty d1)" u d2] e(1) [of db u d1] e(2) [of db u d1]
    unfolding s_def assms(5) by simp
  also have "\<dots> = allocated_at (fst (process_accrual store db u ty d2)) (u_pk u, lt_pk ty, year_of d2)"
    using e(1) [of db u d2] due unfolding s_def by simp
  finally show ?thesis .
qed

theorem accrual_telescopes_witness:
  "allocated_at (fst (process_accrual id (fst (process_accrual id sample_db employee_1 accrual_leave
       739677)) employee_1 accrual_leave 739679)) (1, 2, 2026)
   = allocated_at (fst (process_accrual id sample_db employee_1 accrual_leave 739679)) (1, 2, 2026)"
  using accrual_telescopes [of accrual_leave id 739677 739679 sample_db employee_1]
  by (simp add: accrual_leave_def annual_leave_def sample_people)

end
