(* ===== verification/Leave_Carry.thy ===== *)
theory Leave_Carry
  imports Leave_Balance
begin

text \<open>
  The yearly carry forward of \<^verbatim>\<open>leave_management/utils.py\<close>: \<^verbatim>\<open>carryable_days\<close> and
  \<^verbatim>\<open>carry_forward_balances\<close> with its run marker.  The nested loops over leave types and old
  balances are flattened to one pass over (type, old balance) pairs; each pair settles its own
  target row and touches no other, from which the caps, the frame and the idempotence of a
  forced run follow.
\<close>

subsection \<open>Carry forward\<close>

definition carryable_days :: "leave_balance \<Rightarrow> leave_type \<Rightarrow> decimal" where
  "carryable_days b ty =
     (let remaining = lb_allocated b + lb_carried b - lb_used b
      in if remaining \<le> 0 then 0 else min remaining (of_int (lt_max_carry_forward ty)))"

text \<open>One old balance: the table, the number of balances carried and the days carried so far.\<close>

type_synonym carry_acc = "leave_balance list \<times> int \<times> decimal"

definition carry_count :: "decimal \<Rightarrow> int \<times> decimal \<Rightarrow> int \<times> decimal" where
  "carry_count carry acc = (if carry > 0 then (fst acc + 1, snd acc + carry) else acc)"

definition carry_balance :: "leave_type \<Rightarrow> int \<Rightarrow> leave_balance \<Rightarrow> carry_acc \<Rightarrow> carry_acc" where
  "carry_balance ty to_year old acc =
     (let (t, count) = acc;
          carry = carryable_days old ty
      in case row_get lb_key (lb_user old, lt_pk ty, to_year) t of
           None \<Rightarrow>
             if carry \<le> 0 then acc
             else (row_create ((new_balance (lb_user old, lt_pk ty, to_year)
                       (if lt_method ty = Annual then lt_default_days ty else 0))
                     \<lparr>lb_carried := carry\<rparr>) t,
                   carry_count carry count)
         | Some new \<Rightarrow>
             if lb_carried new \<noteq> carry
             then (row_save lb_key (new\<lparr>lb_carried := carry\<rparr>) t, carry_count carry count)
             else if carry \<le> 0 then acc
             else (t, carry_count carry count))"

definition carry_type :: "int \<Rightarrow> int \<Rightarrow> leave_type \<Rightarrow> carry_acc \<Rightarrow> carry_acc" where
  "carry_type from_year to_year ty acc =
     fold (carry_balance ty to_year)
       (filter (\<lambda>b. lb_type b = lt_pk ty \<and> lb_year b = from_year) (fst acc)) acc"

definition carry_types :: "leave_db \<Rightarrow> leave_type list" where
  "carry_types db = filter (\<lambda>ty. lt_is_active ty \<and> lt_max_carry_forward ty > 0) (db_types db)"

definition carry_forward_balances ::
  "leave_db \<Rightarrow> int \<Rightarrow> int \<Rightarrow> pk option \<Rightarrow> bool \<Rightarrow> carry_forward_run + (leave_db \<times> carry_forward_run \<times> int)" where
  "carry_forward_balances db from_year to_year user force =
     (let run = row_get cr_from_year from_year (db_runs db)
      in case run of
           Some r \<Rightarrow>
             if \<not> force then Inl r
             else
               let (t, count, total) = fold (carry_type from_year to_year) (carry_types db)
                     (db_balances db, 0, 0);
                   r' = r\<lparr>cr_to_year := to_year, cr_run_by := user, cr_balances_count := count,
                          cr_total_days := total, cr_forced_runs := cr_forced_runs r + 1\<rparr>
               in Inr (db\<lparr>db_balances := t, db_runs := row_save cr_from_year r' (db_runs db)\<rparr>, r', count)
         | None \<Rightarrow>
             let (t, count, total) = fold (carry_type from_year to_year) (carry_types db)
                   (db_balances db, 0, 0);
                 r' = \<lparr>cr_from_year = from_year, cr_to_year = to_year, cr_run_by = user,
                       cr_balances_count = count, cr_total_days = total, cr_forced_runs = 0\<rparr>
             in Inr (db\<lparr>db_balances := t, db_runs := row_create r' (db_runs db)\<rparr>, r', count))"


subsection \<open>One pair settles its target\<close>

definition carry_target :: "int \<Rightarrow> leave_type \<times> leave_balance \<Rightarrow> balance_key" where
  "carry_target to_year p = (lb_user (snd p), lt_pk (fst p), to_year)"

definition carried_row :: "int \<Rightarrow> leave_type \<times> leave_balance \<Rightarrow> leave_balance option \<Rightarrow> leave_balance option" where
  "carried_row to_year p cur =
     (let carry = carryable_days (snd p) (fst p)
      in case cur of
           None \<Rightarrow> if carry \<le> 0 then None
             else Some ((new_balance (carry_target to_year p)
               (if lt_method (fst p) = Annual then lt_default_days (fst p) else 0))\<lparr>lb_carried := carry\<rparr>)
         | Some b \<Rightarrow> Some (b\<lparr>lb_carried := carry\<rparr>))"

abbreviation carry_pair :: "int \<Rightarrow> leave_type \<times> leave_balance \<Rightarrow> carry_acc \<Rightarrow> carry_acc" where
  "carry_pair to_year p \<equiv> carry_balance (fst p) to_year (snd p)"

definition settled :: "int \<Rightarrow> leave_type \<times> leave_balance \<Rightarrow> leave_balance list \<Rightarrow> bool" where
  "settled to_year p t \<longleftrightarrow>
     carried_row to_year p (row_get lb_key (carry_target to_year p) t) = row_get lb_key (carry_target to_year p) t"

lemma carryable_bounds:
  "0 \<le> lt_max_carry_forward ty \<Longrightarrow>
     0 \<le> carryable_days b ty \<and> carryable_days b ty \<le> of_int (lt_max_carry_forward ty)"
  "carryable_days b ty \<le> max 0 (lb_allocated b + lb_carried b - lb_used b)"
  by (auto simp: carryable_days_def Let_def)

lemma carried_row_idem: "carried_row y p (carried_row y p cur) = carried_row y p cur"
  by (auto simp: carried_row_def Let_def split: option.splits)

lemma lb_key_carried [simp]: "lb_key (b\<lparr>lb_carried := c\<rparr>) = lb_key b"
  by (simp add: lb_key_def)

lemma carry_balance_fst:
  "fst (carry_pair y p (t, c)) =
     (case row_get lb_key (carry_target y p) t of
        None \<Rightarrow> (case carried_row y p None of None \<Rightarrow> t | Some b \<Rightarrow> row_create b t)
      | Some b \<Rightarrow> if lb_carried b = carryable_days (snd p) (fst p) then t
          else row_save lb_key (b\<lparr>lb_carried := carryable_days (snd p) (fst p)\<rparr>) t)"
  by (auto simp: carry_balance_def carried_row_def carry_target_def Let_def split: option.splits)

lemma carry_balance_snd:
  "snd (carry_pair y p (t, c)) = carry_count (carryable_days (snd p) (fst p)) c"
  by (auto simp: carry_balance_def carry_count_def Let_def split: option.splits)

lemma carry_balance_get:
  "row_get lb_key k (fst (carry_pair y p (t, c))) =
     (if k = carry_target y p then carried_row y p (row_get lb_key k t) else row_get lb_key k t)"
proof (cases "row_get lb_key (carry_target y p) t")
  case None
  then show ?thesis
    by (auto simp: carry_balance_fst row_get_create carried_row_def Let_def split: option.splits)
next
  case (Some b)
  then have key: "lb_key b = carry_target y p" and mem: "carry_target y p \<in> lb_key ` set t"
    using row_get_None [of lb_key "carry_target y p" t] by (auto dest: row_get_Some)
  show ?thesis
    using Some key mem by (auto simp: carry_balance_fst row_get_save carried_row_def Let_def)
qed

lemma carry_balance_settled:
  assumes "settled y p t"
  shows "fst (carry_pair y p (t, c)) = t"
proof (cases "row_get lb_key (carry_target y p) t")
  case None
  then have "carried_row y p None = None" using assms by (simp add: settled_def)
  with None show ?thesis by (simp add: carry_balance_fst)
next
  case (Some b)
  then have "b\<lparr>lb_carried := carryable_days (snd p) (fst p)\<rparr> = b"
    using assms by (simp add: settled_def carried_row_def Let_def)
  then have "lb_carried (b\<lparr>lb_carried := carryable_days (snd p) (fst p)\<rparr>) = lb_carried b" by (rule arg_cong)
  with Some show ?thesis by (simp add: carry_balance_fst)
qed

lemma carry_settles: "settled y p (fst (carry_pair y p (t, c)))"
  by (simp add: settled_def carry_balance_get carried_row_idem)

lemma carry_keeps_settled:
  "settled y q t \<Longrightarrow> carry_target y q \<noteq> carry_target y p \<Longrightarrow> settled y q (fst (carry_pair y p (t, c)))"
  by (simp add: settled_def carry_balance_get)

subsection \<open>The whole run\<close>

text \<open>The pairs a run visits, and the count and total it reports: both depend only on the rows of
  the source year.\<close>

definition carry_olds :: "int \<Rightarrow> leave_type \<Rightarrow> leave_balance list \<Rightarrow> leave_balance list" where
  "carry_olds from_year ty t = filter (\<lambda>b. lb_type b = lt_pk ty \<and> lb_year b = from_year) t"

definition carry_pairs :: "int \<Rightarrow> leave_type list \<Rightarrow> leave_balance list \<Rightarrow> (leave_type \<times> leave_balance) list" where
  "carry_pairs from_year tys t = concat (map (\<lambda>ty. map (Pair ty) (carry_olds from_year ty t)) tys)"

definition carry_tally :: "(leave_type \<times> leave_balance) list \<Rightarrow> int \<times> decimal \<Rightarrow> int \<times> decimal" where
  "carry_tally ps c = fold (\<lambda>p. carry_count (carryable_days (snd p) (fst p))) ps c"

definition carry_table :: "int \<Rightarrow> (leave_type \<times> leave_balance) list \<Rightarrow> leave_balance list \<Rightarrow> leave_balance list" where
  "carry_table to_year ps t = fst (fold (carry_pair to_year) ps (t, 0, 0))"

lemma fold_carry_pair:
  "fold (carry_pair y) ps (t, c) = (fst (fold (carry_pair y) ps (t, c)), carry_tally ps c)"
proof (induction ps arbitrary: t c)
  case Nil
  then show ?case by (simp add: carry_tally_def)
next
  case (Cons p ps)
  obtain t' c' where s: "carry_pair y p (t, c) = (t', c')" by (cases "carry_pair y p (t, c)")
  then have "c' = carry_count (carryable_days (snd p) (fst p)) c"
    using carry_balance_snd [where y = y and p = p and t = t and c = c] by simp
  then show ?case using s Cons.IH [of t' c'] by (simp add: carry_tally_def)
qed

lemma carry_fst_cong: "fst acc = fst acc' \<Longrightarrow> fst (carry_pair y p acc) = fst (carry_pair y p acc')"
  by (cases acc; cases acc') (simp add: carry_balance_fst)

lemma fold_carry_pair_table:
  "fst acc = fst acc' \<Longrightarrow> fst (fold (carry_pair y) ps acc) = fst (fold (carry_pair y) ps acc')"
proof (induction ps arbitrary: acc acc')
  case Nil
  then show ?case by simp
next
  case (Cons p ps)
  have "fst (carry_pair y p acc) = fst (carry_pair y p acc')" using Cons.prems by (rule carry_fst_cong)
  from Cons.IH [OF this] show ?case by simp
qed

lemma carry_pair_olds:
  assumes "from_year \<noteq> to_year"
  shows "carry_olds from_year ty (fst (carry_pair to_year p (t, c))) = carry_olds from_year ty t"
proof -
  have save: "filter P (row_save lb_key (b\<lparr>lb_carried := x\<rparr>) t) = filter P t"
    if "\<And>r. lb_key r = lb_key b \<Longrightarrow> \<not> P r" for P b x
    using that by (induction t) (auto simp: row_save_def)
  have "lb_year b = to_year" if "row_get lb_key (carry_target to_year p) t = Some b" for b
    using row_get_Some [OF that] by (simp add: lb_key_def carry_target_def)
  then show ?thesis
    using assms
    by (auto simp: carry_balance_fst carry_olds_def carried_row_def carry_target_def Let_def
        row_create_def lb_key_def intro!: save split: option.splits)
qed

lemma fold_carry_olds:
  assumes "from_year \<noteq> to_year"
  shows "carry_olds from_year ty (fst (fold (carry_pair to_year) ps acc)) = carry_olds from_year ty (fst acc)"
proof (induction ps arbitrary: acc)
  case Nil
  then show ?case by simp
next
  case (Cons p ps)
  then show ?case using carry_pair_olds [OF assms, where ty = ty and p = p and t = "fst acc" and c = "snd acc"] by simp
qed

lemma carry_types_flat:
  assumes "from_year \<noteq> to_year"
  shows "fold (carry_type from_year to_year) tys acc
       = fold (carry_pair to_year) (carry_pairs from_year tys (fst acc)) acc"
proof (induction tys arbitrary: acc)
  case Nil
  then show ?case by (simp add: carry_pairs_def)
next
  case (Cons ty tys)
  let ?ps = "map (Pair ty) (carry_olds from_year ty (fst acc))"
  have one: "carry_type from_year to_year ty acc = fold (carry_pair to_year) ?ps acc"
    by (simp add: carry_type_def carry_olds_def fold_map comp_def)
  have "carry_pairs from_year tys (fst (fold (carry_pair to_year) ?ps acc)) = carry_pairs from_year tys (fst acc)"
    unfolding carry_pairs_def fold_carry_olds [OF assms] by (rule refl)
  with Cons.IH [of "carry_type from_year to_year ty acc"] show ?case
    by (simp add: one carry_pairs_def)
qed

lemma fold_carry_get:
  assumes "distinct (map (carry_target y) ps)"
  shows "row_get lb_key k (fst (fold (carry_pair y) ps (t, c))) =
    (case find (\<lambda>p. carry_target y p = k) ps of
       None \<Rightarrow> row_get lb_key k t
     | Some p \<Rightarrow> carried_row y p (row_get lb_key k t))"
  using assms
proof (induction ps arbitrary: t c)
  case Nil
  then show ?case by simp
next
  case (Cons p ps)
  obtain t1 c1 where s: "carry_pair y p (t, c) = (t1, c1)" by (cases "carry_pair y p (t, c)")
  then have g: "row_get lb_key k t1 = (if k = carry_target y p then carried_row y p (row_get lb_key k t) else row_get lb_key k t)"
    using carry_balance_get [where y = y and p = p and t = t and c = c and k = k] by simp
  have "find (\<lambda>q. carry_target y q = k) ps = None" if "k = carry_target y p"
    using that Cons.prems by (auto simp: find_None_iff image_iff)
  then show ?case using Cons.IH [of t1 c1] Cons.prems g s by (auto split: option.splits)
qed

lemma carry_targets_distinct:
  assumes "distinct (map lb_key t)" and "distinct (map lt_pk tys)"
  shows "distinct (map (carry_target y) (carry_pairs from_year tys t))"
  using assms(2)
proof (induction tys)
  case Nil
  then show ?case by (simp add: carry_pairs_def)
next
  case (Cons ty tys)
  have "inj_on (carry_target y \<circ> Pair ty) (set (carry_olds from_year ty t))"
    using assms(1) by (auto simp: inj_on_def carry_target_def carry_olds_def distinct_map lb_key_def)
  moreover have "distinct (carry_olds from_year ty t)"
    using assms(1) by (simp add: carry_olds_def distinct_map)
  ultimately have "distinct (map (carry_target y) (map (Pair ty) (carry_olds from_year ty t)))"
    by (simp add: distinct_map)
  moreover have "distinct (map (carry_target y) (carry_pairs from_year tys t))"
    using Cons by simp
  moreover have "set (map (carry_target y) (map (Pair ty) (carry_olds from_year ty t))) \<inter>
      set (map (carry_target y) (carry_pairs from_year tys t)) = {}"
    using Cons.prems by (auto simp: carry_pairs_def carry_target_def)
  ultimately show ?case by (simp add: carry_pairs_def)
qed


subsection \<open>Properties\<close>

lemma carry_forward_Inr:
  assumes "carry_forward_balances db from_year to_year user force = Inr (db', run, n)" "from_year \<noteq> to_year"
  defines "ps \<equiv> carry_pairs from_year (carry_types db) (db_balances db)"
  shows "db_balances db' = carry_table to_year ps (db_balances db)"
    and "(n, cr_total_days run) = carry_tally ps (0, 0)"
    and "db_types db' = db_types db" "row_get cr_from_year from_year (db_runs db') = Some run"
    and "cr_from_year run = from_year"
proof -
  have f: "fold (carry_type from_year to_year) (carry_types db) (db_balances db, 0, 0)
      = (carry_table to_year ps (db_balances db), carry_tally ps (0, 0))"
    unfolding carry_types_flat [OF assms(2)] carry_table_def ps_def fst_conv by (rule fold_carry_pair)
  obtain cn tot where c: "carry_tally ps (0, 0) = (cn, tot)" by (cases "carry_tally ps (0, 0)")
  have "db_balances db' = carry_table to_year ps (db_balances db) \<and>
    (n, cr_total_days run) = carry_tally ps (0, 0) \<and> db_types db' = db_types db \<and>
    row_get cr_from_year from_year (db_runs db') = Some run \<and> cr_from_year run = from_year"
  proof (cases "row_get cr_from_year from_year (db_runs db)")
    case None
    then show ?thesis
      using assms(1) f c by (auto simp: carry_forward_balances_def row_get_create Let_def)
  next
    case (Some r)
    then have "cr_from_year r = from_year" "from_year \<in> cr_from_year ` set (db_runs db)"
      by (auto dest: row_get_Some)
    then show ?thesis
      using Some assms(1) f c
      by (auto simp: carry_forward_balances_def row_get_save Let_def split: if_splits)
  qed
  then show "db_balances db' = carry_table to_year ps (db_balances db)"
    "(n, cr_total_days run) = carry_tally ps (0, 0)" "db_types db' = db_types db"
    "row_get cr_from_year from_year (db_runs db') = Some run" "cr_from_year run = from_year"
    by blast+
qed

lemma carry_table_get:
  assumes "distinct (map (carry_target y) ps)"
  shows "row_get lb_key k (carry_table y ps t) =
    (case find (\<lambda>p. carry_target y p = k) ps of
       None \<Rightarrow> row_get lb_key k t | Some p \<Rightarrow> carried_row y p (row_get lb_key k t))"
  unfolding carry_table_def by (rule fold_carry_get [OF assms])

lemma find_distinct:
  assumes "distinct (map f ps)" and "p \<in> set ps"
  shows "find (\<lambda>q. f q = f p) ps = Some p"
  using assms by (induction ps) (auto simp: image_iff)

lemma carry_all_settled:
  assumes "distinct (map (carry_target y) ps)" and "p \<in> set ps"
  shows "settled y p (carry_table y ps t)"
  using carry_table_get [OF assms(1)] find_distinct [OF assms]
  by (simp add: settled_def carried_row_idem)

lemma carry_table_settled:
  assumes "\<forall>p \<in> set ps. settled y p t"
  shows "fst (fold (carry_pair y) ps (t, c)) = t"
  using assms
proof (induction ps arbitrary: c)
  case Nil
  then show ?case by simp
next
  case (Cons p ps)
  obtain d where "carry_pair y p (t, c) = (t, d)"
    using carry_balance_settled [of y p t c] Cons.prems by (cases "carry_pair y p (t, c)") auto
  then show ?case using Cons by simp
qed

text \<open>Carrying a year forward is idempotent.  After a run, running the same year again without
  force is refused with the run's marker, and a forced run leaves every balance row as it is and
  reports the same number of balances and the same total.\<close>

theorem carry_forward_idempotent:
  assumes "carry_forward_balances db from_year to_year user force = Inr (db1, run, n)"
    and "from_year \<noteq> to_year"
    and "distinct (map lb_key (db_balances db))" and "distinct (map lt_pk (db_types db))"
  shows "carry_forward_balances db1 from_year to_year user2 False = Inl run
    \<and> (\<exists>db2 run2. carry_forward_balances db1 from_year to_year user2 True = Inr (db2, run2, n)
          \<and> db_balances db2 = db_balances db1 \<and> cr_total_days run2 = cr_total_days run)"
proof -
  define ps where "ps = carry_pairs from_year (carry_types db) (db_balances db)"
  note r = carry_forward_Inr [OF assms(1,2)]
  have dist: "distinct (map (carry_target to_year) ps)"
    unfolding ps_def using assms(3,4)
    by (intro carry_targets_distinct) (simp_all add: carry_types_def distinct_map_filter)
  have same: "carry_pairs from_year (carry_types db1) (db_balances db1) = ps"
    unfolding r(1) ps_def carry_pairs_def carry_types_def r(3) carry_table_def
    by (simp add: fold_carry_olds [OF assms(2)])
  obtain db2 run2 m where again: "carry_forward_balances db1 from_year to_year user2 True = Inr (db2, run2, m)"
    using r(4)
    by (cases "fold (carry_type from_year to_year) (carry_types db1) (db_balances db1, 0, 0)")
      (auto simp: carry_forward_balances_def Let_def)
  note q = carry_forward_Inr [OF again assms(2)]
  have "carry_table to_year ps (db_balances db1) = db_balances db1"
    unfolding carry_table_def
    by (rule carry_table_settled) (use carry_all_settled [OF dist] r(1) in \<open>simp add: ps_def\<close>)
  then have "db_balances db2 = db_balances db1" using q(1) same by simp
  moreover have "m = n \<and> cr_total_days run2 = cr_total_days run"
    using q(2) r(2) same by (simp add: ps_def prod_eq_iff)
  moreover have "carry_forward_balances db1 from_year to_year user2 False = Inl run"
    using r(4) by (simp add: carry_forward_balances_def)
  ultimately show ?thesis using again by blast
qed

text \<open>A tenant with five unused days of 2025 to carry, used by the witnesses.\<close>

definition carry_db :: leave_db where
  "carry_db = sample_db\<lparr>db_balances :=
     [sample_balance\<lparr>lb_year := 2025, lb_used := 17\<rparr>, sample_balance]\<rparr>"

lemma carry_db_run:
  "\<exists>db1 run. carry_forward_balances carry_db 2025 2026 None False = Inr (db1, run, 1)
     \<and> get_balance db1 (1, 1, 2026) = Some (sample_balance\<lparr>lb_carried := 5\<rparr>)"
  by (simp add: carry_forward_balances_def carry_db_def sample_db_def row_get_def carry_types_def
      annual_leave_def accrual_leave_def carry_type_def carry_balance_def sample_balance_def lb_key_def
      carryable_days_def carry_count_def row_save_def get_balance_def Let_def)

theorem carry_forward_idempotent_witness:
  "\<exists>db1 run. carry_forward_balances carry_db 2025 2026 None False = Inr (db1, run, 1)
     \<and> carry_forward_balances db1 2025 2026 (Some 3) False = Inl run"
proof -
  obtain db1 run where r: "carry_forward_balances carry_db 2025 2026 None False = Inr (db1, run, 1)"
    using carry_db_run by blast
  have "distinct (map lb_key (db_balances carry_db))" "distinct (map lt_pk (db_types carry_db))"
    by (simp_all add: carry_db_def sample_balance_def sample_db_def annual_leave_def accrual_leave_def lb_key_def)
  then show ?thesis using r carry_forward_idempotent [OF r, of "Some 3"] by auto
qed

text \<open>What a carry forward does to every balance row.  The target row of an old balance holds
  exactly the carryable days (never more than the type's cap, never negative), a missing target
  row means there was nothing to carry, all other rows are untouched, and no pending or used day
  changes anywhere.\<close>

theorem carry_forward_effect:
  assumes "carry_forward_balances db from_year to_year user force = Inr (db1, run, n)"
    and "from_year \<noteq> to_year"
    and "distinct (map lb_key (db_balances db))" and "distinct (map lt_pk (db_types db))"
  shows "(\<forall>ty old. ty \<in> set (db_types db) \<and> lt_is_active ty \<and> 0 < lt_max_carry_forward ty
            \<and> old \<in> set (db_balances db) \<and> lb_type old = lt_pk ty \<and> lb_year old = from_year \<longrightarrow>
            (case get_balance db1 (lb_user old, lt_pk ty, to_year) of
               None \<Rightarrow> carryable_days old ty = 0
             | Some b \<Rightarrow> lb_carried b = carryable_days old ty
                 \<and> 0 \<le> lb_carried b \<and> lb_carried b \<le> of_int (lt_max_carry_forward ty)))
    \<and> (\<forall>k. snd (snd k) \<noteq> to_year \<longrightarrow> get_balance db1 k = get_balance db k)
    \<and> pending_at db1 = pending_at db \<and> used_at db1 = used_at db"
proof -
  define ps where "ps = carry_pairs from_year (carry_types db) (db_balances db)"
  note r = carry_forward_Inr [OF assms(1,2)]
  have dist: "distinct (map (carry_target to_year) ps)"
    unfolding ps_def using assms(3,4)
    by (intro carry_targets_distinct) (simp_all add: carry_types_def distinct_map_filter)
  have get: "get_balance db1 k = (case find (\<lambda>p. carry_target to_year p = k) ps of
      None \<Rightarrow> get_balance db k | Some p \<Rightarrow> carried_row to_year p (get_balance db k))" for k
    unfolding get_balance_def r(1) ps_def [symmetric] by (rule carry_table_get [OF dist])
  have "case get_balance db1 (lb_user old, lt_pk ty, to_year) of
      None \<Rightarrow> carryable_days old ty = 0
    | Some b \<Rightarrow> lb_carried b = carryable_days old ty \<and> 0 \<le> lb_carried b
        \<and> lb_carried b \<le> of_int (lt_max_carry_forward ty)"
    if h: "ty \<in> set (db_types db)" "lt_is_active ty" "0 < lt_max_carry_forward ty"
      "old \<in> set (db_balances db)" "lb_type old = lt_pk ty" "lb_year old = from_year" for ty old
  proof -
    have "(ty, old) \<in> set ps" using h by (auto simp: ps_def carry_pairs_def carry_olds_def carry_types_def)
    from find_distinct [OF dist this] have "get_balance db1 (lb_user old, lt_pk ty, to_year)
        = carried_row to_year (ty, old) (get_balance db (lb_user old, lt_pk ty, to_year))"
      unfolding get by (simp add: carry_target_def)
    then show ?thesis
      using carryable_bounds(1) [of ty old] h(3)
      by (auto simp: carried_row_def Let_def split: option.splits)
  qed
  moreover have "get_balance db1 k = get_balance db k" if "snd (snd k) \<noteq> to_year" for k
  proof -
    have "find (\<lambda>p. carry_target to_year p = k) ps = None"
      using that by (auto simp: find_None_iff carry_target_def)
    then show ?thesis by (simp add: get)
  qed
  moreover have "pending_at db1 k = pending_at db k \<and> used_at db1 k = used_at db k" for k
    unfolding pending_at_def used_at_def get by (auto simp: carried_row_def Let_def split: option.splits)
  ultimately show ?thesis by auto
qed

theorem carry_forward_effect_witness:
  "\<exists>db1 run. carry_forward_balances carry_db 2025 2026 None False = Inr (db1, run, 1)
     \<and> pending_at db1 = pending_at carry_db"
proof -
  obtain db1 run where r: "carry_forward_balances carry_db 2025 2026 None False = Inr (db1, run, 1)"
    using carry_db_run by blast
  have "distinct (map lb_key (db_balances carry_db))" "distinct (map lt_pk (db_types carry_db))"
    by (simp_all add: carry_db_def sample_balance_def sample_db_def annual_leave_def accrual_leave_def lb_key_def)
  then show ?thesis using r carry_forward_effect [OF r] by auto
qed

end
