(* ===== verification/Leave_Approval.thy ===== *)
theory Leave_Approval
  imports Leave_Carry
begin

text \<open>
  The approval chain of a leave request (\<^verbatim>\<open>leave_management/utils.py\<close> and the class
  \<^verbatim>\<open>CanApproveLeave\<close>): which steps a request needs, which of them is open, what signing a step
  does, and who may sign.  For coherent requests (the status never claims a signature the
  approver fields do not carry) the open step is the first unsigned role of the chain; an
  approved request carries every required signature and three steps always suffice.
\<close>

subsection \<open>The chain and the open step\<close>

definition get_approval_chain :: "leave_db \<Rightarrow> leave_request \<Rightarrow> (int \<times> approver_role) list" where
  "get_approval_chain db r =
     (case get_type db (lr_type r) of
        None \<Rightarrow> []
      | Some ty \<Rightarrow>
          if \<not> lt_requires_approval ty then []
          else
            let own = sort_key ac_level (filter (\<lambda>c. ac_type c = Some (lt_pk ty) \<and> ac_required c) (db_chains db));
                chain = (if own = [] then sort_key ac_level (filter (\<lambda>c. ac_type c = None \<and> ac_required c) (db_chains db))
                         else own)
            in if chain = []
               then (case db_settings db of
                       Some s \<Rightarrow>
                         (if ls_require_manager_approval s then [(1, Manager)] else []) @
                         (if ls_require_hr_approval s then [(2, Hr)] else [])
                     | None \<Rightarrow> [(1, Manager)])
               else map (\<lambda>c. (ac_level c, ac_role c)) chain)"

fun step_signed :: "leave_request \<Rightarrow> approver_role \<Rightarrow> bool" where
  "step_signed r Manager \<longleftrightarrow>
     lr_manager_approver r \<noteq> None \<or> lr_manager_at r \<noteq> None \<or> lr_status r = Manager_approved"
| "step_signed r Hr \<longleftrightarrow>
     lr_hr_approver r \<noteq> None \<or> lr_hr_at r \<noteq> None \<or> lr_status r = Hr_approved"
| "step_signed r Admin \<longleftrightarrow> False"

definition has_signoff_fields :: "leave_request \<Rightarrow> bool" where
  "has_signoff_fields r \<longleftrightarrow>
     lr_manager_approver r \<noteq> None \<or> lr_manager_at r \<noteq> None \<or> lr_hr_approver r \<noteq> None \<or> lr_hr_at r \<noteq> None"

text \<open>\<^verbatim>\<open>status[:-len('_approved')]\<close> of an approval status other than \<^verbatim>\<open>pending\<close>.\<close>

fun status_role :: "leave_status \<Rightarrow> approver_role option" where
  "status_role Manager_approved = Some Manager"
| "status_role Hr_approved = Some Hr"
| "status_role _ = None"

fun index_of :: "'a \<Rightarrow> 'a list \<Rightarrow> nat option" where
  "index_of x [] = None"
| "index_of x (y # ys) = (if x = y then Some 0 else map_option Suc (index_of x ys))"

definition first_open :: "leave_request \<Rightarrow> approver_role list \<Rightarrow> nat" where
  "first_open r roles =
     (if lr_status r \<noteq> Pending \<and> \<not> has_signoff_fields r then
        (case status_role (lr_status r) of
           None \<Rightarrow> 0
         | Some signed \<Rightarrow> (case index_of signed roles of None \<Rightarrow> 0 | Some i \<Rightarrow> i))
      else 0)"

definition get_next_approver_role :: "leave_db \<Rightarrow> leave_request \<Rightarrow> approver_role option" where
  "get_next_approver_role db r =
     (if lr_status r \<notin> set approval_statuses then None
      else
        let chain = get_approval_chain db r
        in if chain = [] then None
           else
             let roles = map snd chain
             in find (\<lambda>role. \<not> step_signed r role) (drop (first_open r roles) roles))"

subsection \<open>Signing a step\<close>

definition sign_step :: "approver_role option \<Rightarrow> pk \<Rightarrow> datetime \<Rightarrow> string \<Rightarrow> leave_request \<Rightarrow> leave_request" where
  "sign_step role user now comments r =
     (case role of
        Some Manager \<Rightarrow> r\<lparr>lr_manager_approver := Some user, lr_manager_at := Some now,
                          lr_manager_comments := comments, lr_status := Manager_approved\<rparr>
      | Some Hr \<Rightarrow> r\<lparr>lr_hr_approver := Some user, lr_hr_at := Some now,
                     lr_hr_comments := comments, lr_status := Hr_approved\<rparr>
      | Some Admin \<Rightarrow> r\<lparr>lr_final_approver := Some user, lr_final_at := Some now,
                        lr_final_comments := comments, lr_status := Approved\<rparr>
      | None \<Rightarrow> r)"

definition apply_approval_step ::
  "leave_db \<Rightarrow> leave_request \<Rightarrow> pk \<Rightarrow> datetime \<Rightarrow> string \<Rightarrow> leave_db \<times> leave_request \<times> approver_role option" where
  "apply_approval_step db r user now comments =
     (let role = get_next_approver_role db r;
          r1 = sign_step role user now comments r
      in if lr_status r1 = Approved \<or> get_next_approver_role db r1 = None
         then
           let r2 = r1\<lparr>lr_status := Approved\<rparr>;
               r3 = (if lr_final_approver r2 = None
                     then (let r' = r2\<lparr>lr_final_approver := Some user, lr_final_at := Some now\<rparr>
                           in if role = None then r'\<lparr>lr_final_comments := comments\<rparr> else r')
                     else r2)
           in (update_leave_balance db r3 Act_approve, r3, role)
         else (db, r1, role))"

subsection \<open>Who may sign\<close>

definition is_self_approval :: "user option \<Rightarrow> leave_request \<Rightarrow> bool" where
  "is_self_approval uo r =
     (case uo of None \<Rightarrow> False | Some u \<Rightarrow> if u_is_superuser u then False else lr_employee r = u_pk u)"

datatype approve_refusal =
  Self_approval | Nothing_to_approve | Not_the_manager | No_hr_permission | No_admin_permission

text \<open>None is \<^verbatim>\<open>(True, "")\<close>.\<close>

definition can_user_approve :: "leave_db \<Rightarrow> user \<Rightarrow> leave_request \<Rightarrow> approve_refusal option" where
  "can_user_approve db u r =
     (if is_self_approval (Some u) r then Some Self_approval
      else
        (case get_next_approver_role db r of
           None \<Rightarrow> Some Nothing_to_approve
         | Some Manager \<Rightarrow>
             if manages_employee u (get_user db (lr_employee r)) then None
             else if has_perm False u ''leave_management.approve_leave'' then None
             else Some Not_the_manager
         | Some Hr \<Rightarrow>
             if has_perm False u ''leave_management.approve_leave_hr'' \<or> u_is_staff u then None
             else Some No_hr_permission
         | Some Admin \<Rightarrow>
             if u_is_staff u \<or> u_is_superuser u then None else Some No_admin_permission))"

definition CanApproveLeave :: "leave_db \<Rightarrow> user \<Rightarrow> leave_request \<Rightarrow> bool" where
  "CanApproveLeave db u r =
     (if is_self_approval (Some u) r then False
      else if u_is_staff u \<or> u_is_superuser u then True
      else can_user_approve db u r = None)"

subsection \<open>Coherent requests\<close>

text \<open>What the approver fields alone say.\<close>

fun signed_by :: "leave_request \<Rightarrow> approver_role \<Rightarrow> bool" where
  "signed_by r Manager \<longleftrightarrow> lr_manager_approver r \<noteq> None"
| "signed_by r Hr \<longleftrightarrow> lr_hr_approver r \<noteq> None"
| "signed_by r Admin \<longleftrightarrow> False"

text \<open>
  A request the workflow produced: a timestamp comes with its approver, and a status that names
  a role was set by that role's signature.
\<close>

definition coherent :: "leave_request \<Rightarrow> bool" where
  "coherent r \<longleftrightarrow>
     (lr_manager_at r \<noteq> None \<longleftrightarrow> lr_manager_approver r \<noteq> None)
   \<and> (lr_hr_at r \<noteq> None \<longleftrightarrow> lr_hr_approver r \<noteq> None)
   \<and> (lr_status r = Manager_approved \<longrightarrow> lr_manager_approver r \<noteq> None)
   \<and> (lr_status r = Hr_approved \<longrightarrow> lr_hr_approver r \<noteq> None)
   \<and> (lr_status r \<in> set open_statuses \<longrightarrow> lr_final_approver r = None)"

definition chain_roles :: "leave_db \<Rightarrow> leave_request \<Rightarrow> approver_role list" where
  "chain_roles db r = map snd (get_approval_chain db r)"

text \<open>The roles whose signature the chain demands: everything before the finalising admin step.\<close>

definition required_roles :: "leave_db \<Rightarrow> leave_request \<Rightarrow> approver_role set" where
  "required_roles db r = set (takeWhile (\<lambda>x. x \<noteq> Admin) (chain_roles db r))"

lemma step_signed_coherent: "coherent r \<Longrightarrow> step_signed r role \<longleftrightarrow> signed_by r role"
  by (cases role) (auto simp: coherent_def)

lemma first_open_coherent: "coherent r \<Longrightarrow> first_open r roles = 0"
  by (cases "lr_status r") (auto simp: coherent_def first_open_def has_signoff_fields_def)

lemma next_role_coherent:
  assumes "coherent r" and "lr_status r \<in> set approval_statuses"
  shows "get_next_approver_role db r = find (\<lambda>role. \<not> signed_by r role) (chain_roles db r)"
  using assms
  by (simp add: get_next_approver_role_def chain_roles_def first_open_coherent step_signed_coherent
      Let_def del: approval_statuses_iff)

lemma next_role_closed: "lr_status r \<notin> set approval_statuses \<Longrightarrow> get_next_approver_role db r = None"
  by (simp add: get_next_approver_role_def del: approval_statuses_iff)

lemma chain_sign_step [simp]: "get_approval_chain db (sign_step role u n c r) = get_approval_chain db r"
  by (simp add: get_approval_chain_def sign_step_def split: option.splits approver_role.splits)

lemma sign_step_status [simp]:
  "lr_status (sign_step (Some Manager) u n c r) = Manager_approved"
  "lr_status (sign_step (Some Hr) u n c r) = Hr_approved"
  "lr_status (sign_step (Some Admin) u n c r) = Approved"
  "sign_step None u n c r = r"
  by (simp_all add: sign_step_def)

lemma sign_step_frame [simp]:
  "lr_pk (sign_step role u n c r) = lr_pk r" "lr_employee (sign_step role u n c r) = lr_employee r"
  "lr_type (sign_step role u n c r) = lr_type r" "lr_start (sign_step role u n c r) = lr_start r"
  "lr_end (sign_step role u n c r) = lr_end r" "lr_days (sign_step role u n c r) = lr_days r"
  by (simp_all add: sign_step_def split: option.splits approver_role.splits)

lemma sign_step_coherent:
  "coherent r \<Longrightarrow> lr_status r \<in> set open_statuses \<Longrightarrow> coherent (sign_step role u n c r)"
  by (cases role rule: option.exhaust)
    (auto simp: coherent_def sign_step_def split: approver_role.splits)

lemma signed_sign_step:
  "signed_by (sign_step (Some role) u n c r) x \<longleftrightarrow> signed_by r x \<or> (x = role \<and> role \<noteq> Admin)"
  by (cases role; cases x; simp add: sign_step_def)

lemma sign_step_open_status:
  "role \<noteq> None \<Longrightarrow> role \<noteq> Some Admin \<Longrightarrow>
     lr_status (sign_step role u n c r) \<in> {Manager_approved, Hr_approved}"
  by (cases role; simp) (metis approver_role.exhaust sign_step_status(1,2) insertI1 insertI2)

lemma chain_cong: "lr_type r' = lr_type r \<Longrightarrow> chain_roles db r' = chain_roles db r"
  by (simp add: chain_roles_def get_approval_chain_def)

definition finalise :: "approver_role option \<Rightarrow> pk \<Rightarrow> datetime \<Rightarrow> string \<Rightarrow> leave_request \<Rightarrow> leave_request" where
  "finalise role user now comments r1 =
     (let r2 = r1\<lparr>lr_status := Approved\<rparr>
      in if lr_final_approver r2 = None
         then (let r' = r2\<lparr>lr_final_approver := Some user, lr_final_at := Some now\<rparr>
               in if role = None then r'\<lparr>lr_final_comments := comments\<rparr> else r')
         else r2)"

lemma finalise_simps [simp]:
  "lr_status (finalise role u n c r) = Approved" "lr_pk (finalise role u n c r) = lr_pk r"
  "lr_employee (finalise role u n c r) = lr_employee r" "lr_type (finalise role u n c r) = lr_type r"
  "lr_start (finalise role u n c r) = lr_start r" "lr_end (finalise role u n c r) = lr_end r"
  "lr_days (finalise role u n c r) = lr_days r"
  "signed_by (finalise role u n c r) x = signed_by r x"
  by (cases x; simp add: finalise_def Let_def)+

lemma finalise_final: "lr_final_approver (finalise role u n c r) \<noteq> None"
  by (simp add: finalise_def Let_def)

lemma finalise_coherent: "coherent r \<Longrightarrow> coherent (finalise role u n c r)"
  by (auto simp: coherent_def finalise_def Let_def)

lemma apply_cases:
  assumes "apply_approval_step db r u n c = (db', r', role)"
  defines "r1 \<equiv> sign_step (get_next_approver_role db r) u n c r"
  shows "role = get_next_approver_role db r"
    and "(lr_status r1 = Approved \<or> get_next_approver_role db r1 = None)
           \<and> r' = finalise role u n c r1 \<and> db' = update_leave_balance db r' Act_approve
       \<or> lr_status r1 \<noteq> Approved \<and> get_next_approver_role db r1 \<noteq> None \<and> r' = r1 \<and> db' = db"
proof -
  have "apply_approval_step db r u n c =
      (let role = get_next_approver_role db r; r1 = sign_step role u n c r
       in if lr_status r1 = Approved \<or> get_next_approver_role db r1 = None
          then (update_leave_balance db (finalise role u n c r1) Act_approve, finalise role u n c r1, role)
          else (db, r1, role))"
    unfolding apply_approval_step_def finalise_def Let_def by (rule refl)
  then have e: "(db', r', role) =
      (if lr_status r1 = Approved \<or> get_next_approver_role db r1 = None
       then (update_leave_balance db (finalise (get_next_approver_role db r) u n c r1) Act_approve,
             finalise (get_next_approver_role db r) u n c r1, get_next_approver_role db r)
       else (db, r1, get_next_approver_role db r))"
    using assms(1) unfolding Let_def r1_def by simp
  show "role = get_next_approver_role db r" using e by (metis prod.inject)
  with e show "(lr_status r1 = Approved \<or> get_next_approver_role db r1 = None)
           \<and> r' = finalise role u n c r1 \<and> db' = update_leave_balance db r' Act_approve
       \<or> lr_status r1 \<noteq> Approved \<and> get_next_approver_role db r1 \<noteq> None \<and> r' = r1 \<and> db' = db"
    by (simp split: if_splits)
qed

lemma apply_frame:
  assumes "apply_approval_step db r u n c = (db', r', role)"
  shows "lr_pk r' = lr_pk r" "lr_employee r' = lr_employee r" "lr_type r' = lr_type r"
    "lr_start r' = lr_start r" "lr_end r' = lr_end r" "lr_days r' = lr_days r"
  using apply_cases(2) [OF assms] by auto

lemma apply_balance:
  assumes "apply_approval_step db r u n c = (db', r', role)" and "lr_status r \<in> set approval_statuses"
  shows "db' = (if lr_status r' = Approved then update_leave_balance db r' Act_approve else db)"
    and "lr_status r' \<in> {Manager_approved, Hr_approved, Approved}"
proof -
  have "db' = (if lr_status r' = Approved then update_leave_balance db r' Act_approve else db)
      \<and> lr_status r' \<in> {Manager_approved, Hr_approved, Approved}"
    using apply_cases(2) [OF assms(1)]
  proof (elim disjE conjE)
    let ?r1 = "sign_step (get_next_approver_role db r) u n c r"
    assume h: "lr_status ?r1 \<noteq> Approved" "get_next_approver_role db ?r1 \<noteq> None" "r' = ?r1" "db' = db"
    have "get_next_approver_role db r \<noteq> None" using h(2) by (cases "get_next_approver_role db r") auto
    moreover have "get_next_approver_role db r \<noteq> Some Admin" using h(1) by auto
    ultimately have "lr_status r' \<in> {Manager_approved, Hr_approved}"
      unfolding h(3) by (rule sign_step_open_status)
    then show ?thesis using h by auto
  qed simp_all
  then show "db' = (if lr_status r' = Approved then update_leave_balance db r' Act_approve else db)"
    "lr_status r' \<in> {Manager_approved, Hr_approved, Approved}" by auto
qed

lemma apply_coherent:
  assumes "apply_approval_step db r u n c = (db', r', role)" and "lr_status r \<in> set approval_statuses"
    and "coherent r"
  shows "coherent r'"
  using apply_cases(2) [OF assms(1)] sign_step_coherent [OF assms(3) approval_open [OF assms(2)]]
  by (auto intro: finalise_coherent)

lemma find_None_before:
  "find (\<lambda>x. \<not> P x) xs = None \<Longrightarrow> x \<in> set (takeWhile Q xs) \<Longrightarrow> P x"
  by (auto simp: find_None_iff dest: set_takeWhileD)

lemma find_Admin_before:
  "find (\<lambda>x. \<not> P x) xs = Some a \<Longrightarrow> x \<in> set (takeWhile (\<lambda>y. y \<noteq> a) xs) \<Longrightarrow> P x"
  by (induction xs) (auto split: if_splits)

subsection \<open>Properties\<close>

text \<open>C3: An approved request carries every signature its chain demands.  When signing a step takes
  a coherent request to the status approved, the approver field of every manager or HR step that
  the chain lists before its administrator step is set, the final approver is set, and the days
  were moved from pending to used exactly then.\<close>

theorem approval_sound:
  assumes "apply_approval_step db r u n c = (db', r', role)"
    and "coherent r" and "lr_status r \<in> set approval_statuses"
  shows "(lr_status r' = Approved \<longleftrightarrow> db' = update_leave_balance db r' Act_approve \<and> lr_status r' = Approved)
    \<and> (lr_status r' \<noteq> Approved \<longrightarrow> db' = db)
    \<and> (lr_status r' = Approved \<longrightarrow>
         (\<forall>x \<in> required_roles db r. signed_by r' x) \<and> lr_final_approver r' \<noteq> None)"
proof -
  let ?r1 = "sign_step (get_next_approver_role db r) u n c r"
  note a = apply_cases [OF assms(1)]
  have signed: "\<forall>x \<in> required_roles db r. signed_by r' x" if h: "lr_status r' = Approved"
  proof
    fix x assume x: "x \<in> required_roles db r"
    have fin: "lr_status ?r1 = Approved \<or> get_next_approver_role db ?r1 = None" "r' = finalise role u n c ?r1"
      using a(2) h by auto
    have "signed_by ?r1 x"
    proof (cases "get_next_approver_role db r")
      case None
      then have "find (\<lambda>x. \<not> signed_by r x) (chain_roles db r) = None"
        using next_role_coherent [OF assms(2,3)] by simp
      then show ?thesis using x None unfolding required_roles_def by (auto dest: find_None_before)
    next
      case (Some y)
      then have f: "find (\<lambda>x. \<not> signed_by r x) (chain_roles db r) = Some y"
        using next_role_coherent [OF assms(2,3)] by simp
      show ?thesis
      proof (cases "y = Admin")
        case True
        then show ?thesis
          using find_Admin_before [OF f] x Some unfolding required_roles_def by (auto simp: signed_sign_step)
      next
        case False
        then have st: "lr_status ?r1 \<in> set approval_statuses"
          using sign_step_open_status [of "Some y"] Some by auto
        then have "get_next_approver_role db ?r1 = None" using fin(1) by auto
        moreover have "coherent ?r1" using sign_step_coherent [OF assms(2) approval_open [OF assms(3)]] .
        ultimately have "find (\<lambda>x. \<not> signed_by ?r1 x) (chain_roles db ?r1) = None"
          using next_role_coherent [of ?r1 db] st by simp
        then show ?thesis
          using x chain_cong [of ?r1 r db] unfolding required_roles_def by (auto dest: find_None_before)
      qed
    qed
    then show "signed_by r' x" using fin(2) by simp
  qed
  have "lr_final_approver r' \<noteq> None" if "lr_status r' = Approved"
  proof -
    have "r' = finalise role u n c ?r1" using a(2) that by auto
    then show ?thesis using finalise_final by simp
  qed
  then show ?thesis using signed apply_balance [OF assms(1,3)] by auto
qed

definition mgr_hr_db :: leave_db where
  "mgr_hr_db = sample_db\<lparr>db_chains :=
     [\<lparr>ac_type = Some 1, ac_level = 2, ac_role = Hr, ac_required = True\<rparr>,
      \<lparr>ac_type = Some 1, ac_level = 1, ac_role = Manager, ac_required = True\<rparr>]\<rparr>"

lemma sample_request_coherent: "coherent sample_request" "lr_status sample_request \<in> set approval_statuses"
  by (simp_all add: coherent_def sample_request_def)

lemma mgr_hr_chain: "get_approval_chain mgr_hr_db sample_request = [(1, Manager), (2, Hr)]"
  by (simp add: get_approval_chain_def mgr_hr_db_def get_type_def row_get_def sample_request_def
      sample_db_def annual_leave_def)

lemma sample_unsigned: "\<not> signed_by sample_request Manager" "\<not> signed_by sample_request Hr"
  by (simp_all add: sample_request_def)

theorem approval_sound_witness:
  "fst (apply_approval_step mgr_hr_db sample_request 2 10 []) = mgr_hr_db
   \<and> lr_status (fst (snd (apply_approval_step mgr_hr_db sample_request 2 10 []))) = Manager_approved"
proof -
  have "get_next_approver_role mgr_hr_db sample_request = Some Manager"
    using next_role_coherent [OF sample_request_coherent, of mgr_hr_db]
    by (simp add: chain_roles_def mgr_hr_chain sample_unsigned del: signed_by.simps)
  moreover have "get_next_approver_role mgr_hr_db (sign_step (Some Manager) 2 10 [] sample_request) = Some Hr"
    using next_role_coherent [of "sign_step (Some Manager) 2 10 [] sample_request" mgr_hr_db]
      sign_step_coherent [OF sample_request_coherent(1) approval_open [OF sample_request_coherent(2)]]
    by (simp add: chain_roles_def mgr_hr_chain signed_sign_step sample_unsigned del: signed_by.simps)
  ultimately have st: "lr_status (fst (snd (apply_approval_step mgr_hr_db sample_request 2 10 []))) = Manager_approved"
    by (simp add: apply_approval_step_def Let_def)
  obtain d r role where e: "apply_approval_step mgr_hr_db sample_request 2 10 [] = (d, r, role)"
    by (metis prod_cases3)
  then show ?thesis
    using st approval_sound [OF e sample_request_coherent] by simp
qed

text \<open>Signing step after step, with whoever signs at each turn.\<close>

fun approve_times :: "nat \<Rightarrow> leave_db \<Rightarrow> leave_request \<Rightarrow> (nat \<Rightarrow> pk) \<Rightarrow> datetime \<Rightarrow> leave_request" where
  "approve_times 0 db r user now = r"
| "approve_times (Suc n) db r user now =
     (if lr_status r \<in> set approval_statuses then
        let (db', r', _) = apply_approval_step db r (user n) now []
        in approve_times n db' r' user now
      else r)"

definition unsigned :: "leave_request \<Rightarrow> nat" where
  "unsigned r = (if signed_by r Manager then 0 else 1) + (if signed_by r Hr then 0 else 1)"

lemma unsigned_decreases:
  assumes "apply_approval_step db r u n c = (db', r', role)"
    and "coherent r" and "lr_status r \<in> set approval_statuses" and "lr_status r' \<noteq> Approved"
  shows "unsigned r' < unsigned r"
proof -
  let ?r1 = "sign_step (get_next_approver_role db r) u n c r"
  have r': "r' = ?r1" "get_next_approver_role db ?r1 \<noteq> None"
    using apply_cases(2) [OF assms(1)] assms(4) by auto
  obtain y where y: "get_next_approver_role db r = Some y"
    using r' by (cases "get_next_approver_role db r") auto
  then have "find (\<lambda>x. \<not> signed_by r x) (chain_roles db r) = Some y"
    using next_role_coherent [OF assms(2,3)] by simp
  then have "\<not> signed_by r y" by (auto simp: find_Some_iff)
  moreover have "y \<noteq> Admin" using r' y assms(4) by auto
  ultimately show ?thesis
    using y r' by (cases y) (auto simp: unsigned_def signed_sign_step simp del: signed_by.simps)
qed

lemma approve_times_enough:
  "coherent r \<Longrightarrow> lr_status r \<in> set approval_statuses \<Longrightarrow> unsigned r < n \<Longrightarrow>
     lr_status (approve_times n db r user now) = Approved"
proof (induction n arbitrary: db r)
  case 0
  then show ?case by simp
next
  case (Suc n)
  obtain db' r' role where a: "apply_approval_step db r (user n) now [] = (db', r', role)"
    by (metis prod_cases3)
  show ?case
  proof (cases "lr_status r' = Approved")
    case True
    then have "approve_times n db' r' user now = r'" by (cases n) simp_all
    then show ?thesis using True Suc.prems a by simp
  next
    case False
    have "lr_status r' \<in> set approval_statuses"
      using apply_balance(2) [OF a Suc.prems(2)] False by auto
    moreover have "coherent r'" using apply_coherent [OF a Suc.prems(2,1)] .
    moreover have "unsigned r' < n"
      using unsigned_decreases [OF a Suc.prems(1,2) False] Suc.prems(3) by simp
    ultimately show ?thesis using Suc.IH Suc.prems(2) a by simp
  qed
qed

text \<open>C7: Approval always terminates: whatever the configured chain (repeated roles, any order, an
  administrator step in the middle, no step at all), signing at most three steps takes a coherent
  open request to approved.\<close>

theorem approval_terminates:
  assumes "coherent r" and "lr_status r \<in> set approval_statuses"
  shows "lr_status (approve_times 3 db r user now) = Approved"
proof -
  have "unsigned r < 3" by (simp add: unsigned_def)
  then show ?thesis using approve_times_enough [OF assms] by simp
qed

theorem approval_terminates_witness:
  "lr_status (approve_times 3 mgr_hr_db sample_request (\<lambda>_. 2) 10) = Approved"
  by (rule approval_terminates [OF sample_request_coherent])

lemma can_approve_iff:
  "CanApproveLeave db u r \<longleftrightarrow>
     u_is_superuser u
     \<or> (u_is_staff u \<and> lr_employee r \<noteq> u_pk u)
     \<or> (lr_employee r \<noteq> u_pk u \<and> get_next_approver_role db r = Some Manager
        \<and> manages_employee u (get_user db (lr_employee r)))"
  by (auto simp: CanApproveLeave_def can_user_approve_def is_self_approval_def
      split: option.splits approver_role.splits)

text \<open>Exactly who may sign a request.  A superuser always, a staff member on any request but their
  own, and anybody else only the manager step of an employee they manage; in particular nobody but
  a superuser decides on their own request, and a non-staff user can never sign an HR or
  administrator step nor a request whose leave type needs no approval.\<close>

theorem who_may_sign:
  "CanApproveLeave db u r \<longleftrightarrow>
     u_is_superuser u
     \<or> (u_is_staff u \<and> lr_employee r \<noteq> u_pk u)
     \<or> (lr_employee r \<noteq> u_pk u \<and> get_next_approver_role db r = Some Manager
        \<and> manages_employee u (get_user db (lr_employee r)))"
  by (rule can_approve_iff)

end
