(* ===== verification/Leave_Audit.thy ===== *)
theory Leave_Audit
  imports Leave_Approval
begin

text \<open>
  Writing a leave request and what the signal handlers of \<^verbatim>\<open>leave_management/signals.py\<close> add to
  the audit log (\<^verbatim>\<open>audit.log_event\<close>): every creation and every status change appends one
  event that names the old and the new status.  The theory proves that the events of a request
  form an unbroken chain from \<^verbatim>\<open>new\<close> to its current status under each write.
\<close>

subsection \<open>The writes\<close>

definition log_event :: "audit_event \<Rightarrow> leave_db \<Rightarrow> leave_db" where
  "log_event e db = db\<lparr>db_events := db_events db @ [e]\<rparr>"

text \<open>\<^verbatim>\<open>pre_save\<close> reads the stored status, \<^verbatim>\<open>post_save\<close> logs a change of it.\<close>

definition save_request :: "pk option \<Rightarrow> string \<Rightarrow> leave_request \<Rightarrow> leave_db \<Rightarrow> leave_db" where
  "save_request actor comment r db =
     (let db1 = db\<lparr>db_requests := row_save lr_pk r (db_requests db)\<rparr>
      in case get_request db (lr_pk r) of
           None \<Rightarrow> db1
         | Some old \<Rightarrow>
             if lr_status old \<noteq> lr_status r
             then log_event
               \<lparr>ev_kind = ''request'', ev_action = ''status_changed'', ev_request = Some (lr_pk r),
                ev_subject = Some (lr_employee r), ev_actor = actor, ev_object = nat_text (lr_pk r),
                ev_from = status_text (lr_status old), ev_to = status_text (lr_status r),
                ev_kpi = None, ev_data = (if comment = [] then No_data else Comment_data comment)\<rparr> db1
             else db1)"

definition create_request :: "pk option \<Rightarrow> leave_request \<Rightarrow> leave_db \<Rightarrow> leave_db" where
  "create_request actor r db =
     log_event
       \<lparr>ev_kind = ''request'', ev_action = ''created'', ev_request = Some (lr_pk r),
        ev_subject = Some (lr_employee r),
        ev_actor = Some (case actor of None \<Rightarrow> lr_employee r | Some a \<Rightarrow> a),
        ev_object = nat_text (lr_pk r), ev_from = ''new'', ev_to = status_text (lr_status r),
        ev_kpi = None, ev_data = Created_data (lr_start r) (lr_end r) (lr_days r) (lr_type r)\<rparr>
       (db\<lparr>db_requests := row_create r (db_requests db)\<rparr>)"

text \<open>
  \<^verbatim>\<open>instance.delete()\<close>: the substitute rows go with the request (\<^verbatim>\<open>CASCADE\<close>), its events stay
  and lose the reference (\<^verbatim>\<open>SET_NULL\<close>).
\<close>

definition delete_request :: "leave_request \<Rightarrow> leave_db \<Rightarrow> leave_db" where
  "delete_request r db =
     db\<lparr>db_requests := row_delete lr_pk (lr_pk r) (db_requests db),
        db_subs := filter (\<lambda>s. rs_request s \<noteq> lr_pk r) (db_subs db),
        db_events := map (\<lambda>e. if ev_request e = Some (lr_pk r) then e\<lparr>ev_request := None\<rparr> else e)
          (db_events db)\<rparr>"

subsection \<open>The audit chain\<close>

text \<open>The request events of one request, oldest first, as (from, to) pairs.\<close>

definition history_of :: "leave_db \<Rightarrow> pk \<Rightarrow> (string \<times> string) list" where
  "history_of db k =
     map (\<lambda>e. (ev_from e, ev_to e))
       (filter (\<lambda>e. ev_kind e = ''request'' \<and> ev_request e = Some k) (db_events db))"

fun links :: "string \<Rightarrow> (string \<times> string) list \<Rightarrow> string option" where
  "links st [] = Some st"
| "links st ((a, b) # rest) = (if a = st then links b rest else None)"

text \<open>The log tells the whole story of every stored request and speaks of no other.\<close>

definition audited :: "leave_db \<Rightarrow> bool" where
  "audited db \<longleftrightarrow>
     (\<forall>r \<in> set (db_requests db). links ''new'' (history_of db (lr_pk r)) = Some (status_text (lr_status r)))
   \<and> (\<forall>k. k \<notin> lr_pk ` set (db_requests db) \<longrightarrow> history_of db k = [])"

lemma links_append: "links st (xs @ [(a, b)]) = (case links st xs of Some c \<Rightarrow> if a = c then Some b else None | None \<Rightarrow> None)"
  by (induction st xs rule: links.induct) (auto split: option.splits)

lemma history_cong: "db_events db' = db_events db \<Longrightarrow> history_of db' = history_of db"
  by (simp add: history_of_def fun_eq_iff)

lemma audited_cong:
  "audited db \<Longrightarrow> db_events db' = db_events db \<Longrightarrow>
     map (\<lambda>r. (lr_pk r, lr_status r)) (db_requests db') = map (\<lambda>r. (lr_pk r, lr_status r)) (db_requests db) \<Longrightarrow>
     audited db'"
proof -
  assume a: "audited db" and e: "db_events db' = db_events db"
    and m: "map (\<lambda>r. (lr_pk r, lr_status r)) (db_requests db') = map (\<lambda>r. (lr_pk r, lr_status r)) (db_requests db)"
  have set_eq: "(\<lambda>r. (lr_pk r, lr_status r)) ` set (db_requests db') = (\<lambda>r. (lr_pk r, lr_status r)) ` set (db_requests db)"
    using arg_cong [OF m, of set] by simp
  have "fst ` (\<lambda>r. (lr_pk r, lr_status r)) ` set (db_requests db') = fst ` (\<lambda>r. (lr_pk r, lr_status r)) ` set (db_requests db)"
    by (simp only: set_eq)
  then have pks: "lr_pk ` set (db_requests db') = lr_pk ` set (db_requests db)" by (simp add: image_image)
  show "audited db'"
    unfolding audited_def history_cong [OF e] pks
  proof (intro conjI ballI)
    fix r assume "r \<in> set (db_requests db')"
    then have "(lr_pk r, lr_status r) \<in> (\<lambda>r. (lr_pk r, lr_status r)) ` set (db_requests db)"
      using set_eq by blast
    then obtain r0 where "r0 \<in> set (db_requests db)" "lr_pk r0 = lr_pk r" "lr_status r0 = lr_status r" by auto
    then show "links ''new'' (history_of db (lr_pk r)) = Some (status_text (lr_status r))"
      using a unfolding audited_def by metis
  qed (use a in \<open>simp add: audited_def\<close>)
qed

lemma history_log_event:
  "history_of (log_event e db) k =
     history_of db k @ (if ev_kind e = ''request'' \<and> ev_request e = Some k then [(ev_from e, ev_to e)] else [])"
  by (simp add: history_of_def log_event_def)

lemma audited_other_event:
  "audited db \<Longrightarrow> ev_kind e \<noteq> ''request'' \<Longrightarrow> audited (log_event e db)"
  unfolding audited_def history_log_event by (simp add: log_event_def)

lemma save_request_frame [simp]:
  "db_requests (save_request a c r db) = row_save lr_pk r (db_requests db)"
  "db_balances (save_request a c r db) = db_balances db"
  "db_settings (save_request a c r db) = db_settings db"
  "db_types (save_request a c r db) = db_types db"
  "db_users (save_request a c r db) = db_users db"
  "db_subs (save_request a c r db) = db_subs db"
  "db_chains (save_request a c r db) = db_chains db"
  by (simp_all add: save_request_def log_event_def Let_def split: option.splits)

lemma create_request_frame [simp]:
  "db_requests (create_request a r db) = row_create r (db_requests db)"
  "db_balances (create_request a r db) = db_balances db"
  "db_subs (create_request a r db) = db_subs db"
  "db_types (create_request a r db) = db_types db"
  "db_settings (create_request a r db) = db_settings db"
  by (simp_all add: create_request_def log_event_def)

lemma log_event_frame [simp]:
  "db_requests (log_event e db) = db_requests db" "db_balances (log_event e db) = db_balances db"
  "db_subs (log_event e db) = db_subs db"
  by (simp_all add: log_event_def)

lemma history_save:
  assumes "get_request db (lr_pk r) = Some old"
  shows "history_of (save_request a c r db) k =
     history_of db k @ (if k = lr_pk r \<and> lr_status old \<noteq> lr_status r
       then [(status_text (lr_status old), status_text (lr_status r))] else [])"
  using assms by (simp add: save_request_def Let_def history_log_event) (simp add: history_of_def)

lemma audited_save:
  assumes "audited db" and "get_request db (lr_pk r) = Some old" and "distinct (map lr_pk (db_requests db))"
  shows "audited (save_request a c r db)"
proof -
  have old: "old \<in> set (db_requests db)" "lr_pk old = lr_pk r"
    using assms(2) by (auto simp: get_request_def dest: row_get_Some)
  then have l: "links ''new'' (history_of db (lr_pk r)) = Some (status_text (lr_status old))"
    using assms(1) by (metis audited_def)
  show ?thesis
    unfolding audited_def history_save [OF assms(2)]
  proof (intro conjI ballI allI impI)
    fix x assume "x \<in> set (db_requests (save_request a c r db))"
    then consider "x = r" | "x \<in> set (db_requests db)" "lr_pk x \<noteq> lr_pk r"
      by (auto simp: set_row_save split: if_splits)
    then show "links ''new'' (history_of db (lr_pk x) @ (if lr_pk x = lr_pk r \<and> lr_status old \<noteq> lr_status r
        then [(status_text (lr_status old), status_text (lr_status r))] else [])) = Some (status_text (lr_status x))"
      using l assms(1) by cases (auto simp: links_append audited_def)
  next
    fix k assume "k \<notin> lr_pk ` set (db_requests (save_request a c r db))"
    moreover have "lr_pk ` set (db_requests (save_request a c r db)) = lr_pk ` set (db_requests db)"
      using map_key_row_save [of lr_pk r "db_requests db"] by (metis save_request_frame(1) set_map)
    ultimately have "k \<notin> lr_pk ` set (db_requests db)" by simp
    moreover from this have "k \<noteq> lr_pk r" using old by (metis imageI)
    ultimately show "history_of db k @ (if k = lr_pk r \<and> lr_status old \<noteq> lr_status r
        then [(status_text (lr_status old), status_text (lr_status r))] else []) = []"
      using assms(1) by (simp add: audited_def)
  qed
qed

lemma audited_create:
  assumes "audited db" and "lr_pk r \<notin> lr_pk ` set (db_requests db)"
  shows "audited (create_request a r db)"
proof -
  have h: "history_of (create_request a r db) k =
      history_of db k @ (if k = lr_pk r then [(''new'', status_text (lr_status r))] else [])" for k
    by (auto simp: create_request_def history_log_event) (simp_all add: history_of_def)
  have "history_of db (lr_pk r) = []" using assms by (simp add: audited_def)
  then show ?thesis using assms unfolding audited_def h by (auto simp: image_iff)
qed

lemma audited_delete:
  assumes "audited db"
  shows "audited (delete_request r db)"
proof -
  have "history_of (delete_request r db) k = (if k = lr_pk r then [] else history_of db k)" for k
  proof -
    have "map (\<lambda>e. (ev_from e, ev_to e)) (filter (\<lambda>e. ev_kind e = ''request'' \<and> ev_request e = Some k)
        (map (\<lambda>e. if ev_request e = Some (lr_pk r) then e\<lparr>ev_request := None\<rparr> else e) es))
      = (if k = lr_pk r then [] else map (\<lambda>e. (ev_from e, ev_to e))
          (filter (\<lambda>e. ev_kind e = ''request'' \<and> ev_request e = Some k) es))" for es
      by (induction es) auto
    note step = this [of "db_events db"]
    have "db_events (delete_request r db) =
        map (\<lambda>e. if ev_request e = Some (lr_pk r) then e\<lparr>ev_request := None\<rparr> else e) (db_events db)"
      by (simp add: delete_request_def)
    then show ?thesis unfolding history_of_def by (simp only: step)
  qed
  then show ?thesis using assms by (auto simp: audited_def delete_request_def)
qed

end
