(* ===== verification/Leave_Substitutes.thy ===== *)
theory Leave_Substitutes
  imports Leave_Audit
begin

text \<open>
  Substitutes and their consent: \<^verbatim>\<open>leave_management/substitutes.py\<close> and the employee's own list
  of \<^verbatim>\<open>views_substitutes.py\<close>.  Rows of a request body are pairs of a substitute id (None when
  missing) and a task text.  Notifications are not modelled.  The theory shows which lists are
  accepted and how an answer moves the request.
\<close>

subsection \<open>Substitute lists\<close>

datatype substitute_error =
    Too_many_substitutes
  | Bad_substitute_row
  | Saved_substitute_inactive
  | Substitutes_needed
  | Substitute_on_leave pk
  | Covering_on_dates

definition max_per_owner :: nat where "max_per_owner = 50"

definition substitutes_on :: "leave_db \<Rightarrow> bool" where
  "substitutes_on db = (case db_settings db of None \<Rightarrow> False | Some s \<Rightarrow> ls_substitutes_enabled s)"

definition requires_substitutes :: "leave_db \<Rightarrow> leave_type \<Rightarrow> bool" where
  "requires_substitutes db ty \<longleftrightarrow> substitutes_on db \<and> lt_requires_substitutes ty"

type_synonym body_row = "pk option \<times> string"

fun clean_loop :: "leave_db \<Rightarrow> pk \<Rightarrow> pk list \<Rightarrow> body_row list \<Rightarrow> substitute_error + (pk \<times> string) list" where
  "clean_loop db owner seen [] = Inr []"
| "clean_loop db owner seen ((sub, raw) # rows) =
     (let task = strip raw
      in case (case sub of None \<Rightarrow> None | Some k \<Rightarrow> get_user db k) of
           None \<Rightarrow> Inl Bad_substitute_row
         | Some u \<Rightarrow>
             if \<not> u_is_active u \<or> u_pk u = owner \<or> u_pk u \<in> set seen \<or> task = [] \<or> length task > 300
             then Inl Bad_substitute_row
             else (case clean_loop db owner (u_pk u # seen) rows of
                     Inl e \<Rightarrow> Inl e
                   | Inr cleaned \<Rightarrow> Inr ((u_pk u, task) # cleaned)))"

definition clean_rows :: "leave_db \<Rightarrow> pk \<Rightarrow> body_row list \<Rightarrow> substitute_error + (pk \<times> string) list" where
  "clean_rows db owner rows =
     (if length rows > max_per_owner then Inl Too_many_substitutes else clean_loop db owner [] rows)"

definition my_assignments :: "leave_db \<Rightarrow> pk \<Rightarrow> substitute_assignment list" where
  "my_assignments db owner = sort_key sa_sort_order (filter (\<lambda>a. sa_owner a = owner) (db_assignments db))"

definition resolve_for_request ::
  "leave_db \<Rightarrow> pk \<Rightarrow> leave_type \<Rightarrow> body_row list \<Rightarrow> substitute_error + (pk \<times> string) list" where
  "resolve_for_request db owner ty body_rows =
     (if \<not> requires_substitutes db ty then Inr []
      else
        let saved = my_assignments db owner
        in if saved \<noteq> [] then
             (case clean_rows db owner (map (\<lambda>a. (Some (sa_substitute a), sa_task a)) saved) of
                Inl _ \<Rightarrow> Inl Saved_substitute_inactive
              | Inr cleaned \<Rightarrow> Inr cleaned)
           else if body_rows = [] then Inl Substitutes_needed
           else clean_rows db owner body_rows)"

definition confirmed_request_statuses :: "leave_status list" where
  "confirmed_request_statuses = [Pending, Manager_approved, Hr_approved, Approved]"

definition on_approved_leave :: "leave_db \<Rightarrow> date \<Rightarrow> date \<Rightarrow> pk \<Rightarrow> bool" where
  "on_approved_leave db start_date end_date user \<longleftrightarrow>
     (\<exists>r \<in> set (db_requests db). lr_employee r = user \<and> lr_status r = Approved
        \<and> lr_start r \<le> end_date \<and> lr_end r \<ge> start_date)"

definition covering_rows ::
  "leave_db \<Rightarrow> pk \<Rightarrow> date \<Rightarrow> date \<Rightarrow> pk option \<Rightarrow> request_substitute list" where
  "covering_rows db employee start_date end_date exclude =
     filter (\<lambda>s. rs_substitute s = employee \<and> rs_status s \<in> {Sub_accepted, Sub_skipped}
        \<and> (case get_request db (rs_request s) of
             None \<Rightarrow> False
           | Some r \<Rightarrow> lr_status r \<in> set confirmed_request_statuses
               \<and> lr_start r \<le> end_date \<and> lr_end r \<ge> start_date)
        \<and> (case exclude of None \<Rightarrow> True | Some k \<Rightarrow> rs_request s \<noteq> k))
       (db_subs db)"

definition check_availability ::
  "leave_db \<Rightarrow> pk \<Rightarrow> (pk \<times> string) list \<Rightarrow> date \<Rightarrow> date \<Rightarrow> pk option \<Rightarrow> substitute_error option" where
  "check_availability db employee subs start_date end_date exclude =
     (case find (on_approved_leave db start_date end_date) (map fst subs) of
        Some user \<Rightarrow> Some (Substitute_on_leave user)
      | None \<Rightarrow>
          if substitutes_on db \<and> covering_rows db employee start_date end_date exclude \<noteq> []
          then Some Covering_on_dates else None)"

subsection \<open>The rows of a request\<close>

definition rate_snapshot :: "leave_db \<Rightarrow> pk \<Rightarrow> pk \<Rightarrow> string \<Rightarrow> (rate_mode \<times> decimal \<times> string) option" where
  "rate_snapshot db owner sub task =
     (case db_settings db of
        None \<Rightarrow> None
      | Some s \<Rightarrow>
          if \<not> ls_substitution_pay_enabled s then None
          else (case find (\<lambda>a. sa_owner a = owner \<and> sa_substitute a = sub \<and> sa_task a = task \<and> sa_rate a \<noteq> None)
                  (db_assignments db) of
                  None \<Rightarrow> None | Some a \<Rightarrow> sa_rate a))"

fun snapshot_rows ::
  "leave_db \<Rightarrow> leave_request \<Rightarrow> nat \<Rightarrow> (pk \<times> string) list \<Rightarrow> request_substitute list \<Rightarrow> request_substitute list" where
  "snapshot_rows db r index [] t = t"
| "snapshot_rows db r index ((sub, task) # subs) t =
     snapshot_rows db r (index + 1) subs
       (row_create \<lparr>rs_pk = next_pk rs_pk t, rs_request = lr_pk r, rs_substitute = sub, rs_task = task,
          rs_sort_order = index, rs_status = Sub_pending, rs_responded_at = None, rs_comment = [],
          rs_rate = rate_snapshot db (lr_employee r) sub task, rs_worked_days = [], rs_totals = [],
          rs_confirmed_by = None, rs_confirmed_at = None\<rparr> t)"

definition snapshot :: "leave_db \<Rightarrow> leave_request \<Rightarrow> (pk \<times> string) list \<Rightarrow> pk option \<Rightarrow> leave_db" where
  "snapshot db r subs actor =
     (let kept = filter (\<lambda>s. rs_request s \<noteq> lr_pk r) (db_subs db)
      in log_event
           \<lparr>ev_kind = ''substitute'', ev_action = ''snapshot'', ev_request = Some (lr_pk r),
            ev_subject = Some (lr_employee r),
            ev_actor = Some (case actor of None \<Rightarrow> lr_employee r | Some a \<Rightarrow> a),
            ev_object = nat_text (lr_pk r), ev_from = [], ev_to = [], ev_kpi = None, ev_data = Substitutes_data subs\<rparr>
           (db\<lparr>db_subs := snapshot_rows db r 0 subs kept\<rparr>))"

subsection \<open>Answers\<close>

datatype response_error =
    Bad_action
  | Not_a_substitute
  | Not_waiting
  | Already_answered
  | Reason_required

fun sub_status_text :: "substitute_status \<Rightarrow> string" where
  "sub_status_text Sub_pending = ''pending''"
| "sub_status_text Sub_accepted = ''accepted''"
| "sub_status_text Sub_rejected = ''rejected''"
| "sub_status_text Sub_skipped = ''skipped''"

definition save_sub :: "request_substitute \<Rightarrow> leave_db \<Rightarrow> leave_db" where
  "save_sub s db = db\<lparr>db_subs := row_save rs_pk s (db_subs db)\<rparr>"

definition respond ::
  "leave_db \<Rightarrow> leave_request \<Rightarrow> pk \<Rightarrow> string \<Rightarrow> string \<Rightarrow> datetime \<Rightarrow> response_error + leave_db" where
  "respond db locked user action comment now =
     (if action \<notin> {''accept'', ''reject''} then Inl Bad_action
      else
        case find (\<lambda>s. rs_substitute s = user) (request_subs db (lr_pk locked)) of
          None \<Rightarrow> Inl Not_a_substitute
        | Some row \<Rightarrow>
            if lr_status locked \<noteq> Awaiting_substitutes then Inl Not_waiting
            else if rs_status row \<noteq> Sub_pending then Inl Already_answered
            else if action = ''reject'' \<and> strip comment = [] then Inl Reason_required
            else
              let row' = row\<lparr>rs_status := (if action = ''accept'' then Sub_accepted else Sub_rejected),
                             rs_responded_at := Some now, rs_comment := comment\<rparr>;
                  db1 = log_event
                    \<lparr>ev_kind = ''substitute'',
                     ev_action = (if action = ''accept'' then ''accepted'' else ''rejected''),
                     ev_request = Some (lr_pk locked), ev_subject = Some (lr_employee locked),
                     ev_actor = Some user, ev_object = nat_text (rs_pk row), ev_from = ''pending'',
                     ev_to = sub_status_text (rs_status row'), ev_kpi = None, ev_data = Comment_data comment\<rparr>
                    (save_sub row' db)
              in if action = ''reject'' then
                   (let locked' = locked\<lparr>lr_status := Rejected, lr_rejected_by := Some user,
                                        lr_rejected_at := Some now, lr_rejection_reason := comment\<rparr>
                    in Inr (update_leave_balance (save_request (Some user) [] locked' db1) locked' Act_reject))
                 else if \<forall>s \<in> set (request_subs db1 (lr_pk locked)). rs_status s \<in> {Sub_accepted, Sub_skipped}
                 then Inr (save_request (Some user) [] (locked\<lparr>lr_status := Pending\<rparr>) db1)
                 else Inr db1)"

definition skip_pending ::
  "leave_db \<Rightarrow> leave_request \<Rightarrow> pk \<Rightarrow> string \<Rightarrow> datetime \<Rightarrow> response_error + leave_db" where
  "skip_pending db locked admin raw_reason now =
     (let reason = strip raw_reason
      in if reason = [] then Inl Reason_required
         else if lr_status locked \<noteq> Awaiting_substitutes then Inl Not_waiting
         else
           let skipped = filter (\<lambda>s. rs_status s = Sub_pending) (request_subs db (lr_pk locked));
               db1 = db\<lparr>db_subs := map (\<lambda>s. if rs_request s = lr_pk locked \<and> rs_status s = Sub_pending
                         then s\<lparr>rs_status := Sub_skipped, rs_responded_at := Some now\<rparr> else s) (db_subs db)\<rparr>;
               locked' = locked\<lparr>lr_skipped_by := Some admin, lr_skipped_at := Some now,
                                lr_skip_reason := reason, lr_status := Pending\<rparr>;
               db2 = save_request (Some admin) reason locked' db1
           in Inr (log_event
                \<lparr>ev_kind = ''substitute'', ev_action = ''skipped'', ev_request = Some (lr_pk locked),
                 ev_subject = Some (lr_employee locked), ev_actor = Some admin,
                 ev_object = nat_text (lr_pk locked), ev_from = [], ev_to = [],
                 ev_kpi = None, ev_data = Skip_data reason (map rs_substitute skipped)\<rparr> db2))"

subsection \<open>The employee's own list\<close>

fun replace_loop :: "pk \<Rightarrow> nat \<Rightarrow> (pk \<times> string) list \<Rightarrow> substitute_assignment list \<Rightarrow> substitute_assignment list" where
  "replace_loop owner index [] t = t"
| "replace_loop owner index ((sub, task) # rows) t =
     replace_loop owner (index + 1) rows
       (if \<exists>a \<in> set t. sa_owner a = owner \<and> sa_substitute a = sub
        then map (\<lambda>a. if sa_owner a = owner \<and> sa_substitute a = sub
                      then a\<lparr>sa_task := task, sa_sort_order := index\<rparr> else a) t
        else row_create \<lparr>sa_pk = next_pk sa_pk t, sa_owner = owner, sa_substitute = sub, sa_task = task,
               sa_sort_order = index, sa_rate = None\<rparr> t)"

definition replace_substitutes :: "leave_db \<Rightarrow> pk \<Rightarrow> body_row list \<Rightarrow> substitute_error + leave_db" where
  "replace_substitutes db owner items =
     (case clean_rows db owner items of
        Inl e \<Rightarrow> Inl e
      | Inr rows \<Rightarrow>
          let t = replace_loop owner 0 rows (db_assignments db)
          in Inr (db\<lparr>db_assignments :=
               filter (\<lambda>a. sa_owner a \<noteq> owner \<or> sa_substitute a \<in> set (map fst rows)) t\<rparr>))"

end
