(* ===== verification/Leave_Requests.thy ===== *)
theory Leave_Requests
  imports Leave_Substitutes
begin

text \<open>
  The life of a leave request: the create and update serializers of
  \<^verbatim>\<open>leave_management/serializers.py\<close> and the endpoints of \<^verbatim>\<open>views_employee.py\<close>,
  \<^verbatim>\<open>views_manager.py\<close>, \<^verbatim>\<open>views.py\<close> and \<^verbatim>\<open>views_substitutes.py\<close> that change one.  An
  endpoint takes the database and the signed-in user and returns the database it leaves behind
  with the answer.  The checks run outside the transaction, so what they allocate stays even
  when the answer is an error; everything after them is one transaction on the locked row.
  The feature check of the tenant's subscription (\<^verbatim>\<open>HasLeaveManagementFeature\<close>), query
  parameters and notifications are not modelled; texts arrive as the request parser leaves them.
\<close>

datatype leave_error =
    Not_found
  | Permission_denied
  | Wrong_status
  | Bad_body
  | Action_mismatch
  | Different_role
  | End_before_start
  | Type_unavailable
  | No_working_days
  | Limit_reached limit_reason
  | Overlapping "date \<times> date"
  | Balance_refused balance_error
  | Substitutes_refused substitute_error
  | Response_refused response_error

type_synonym 'a outcome = "leave_db \<times> (leave_error + 'a)"

subsection \<open>Submitting\<close>

definition validate_create ::
  "leave_db \<Rightarrow> pk \<Rightarrow> pk \<Rightarrow> date \<Rightarrow> date \<Rightarrow> body_row list \<Rightarrow> (decimal \<times> (pk \<times> string) list) outcome" where
  "validate_create db user type_pk start_date end_date body_rows =
     (if end_date < start_date then (db, Inl End_before_start)
      else case get_type db type_pk of
        None \<Rightarrow> (db, Inl Type_unavailable)
      | Some ty \<Rightarrow>
          if \<not> lt_is_active ty then (db, Inl Type_unavailable)
          else
            let total_days = calculate_working_days start_date end_date db True
            in if total_days = 0 then (db, Inl No_working_days)
               else case validate_type_limits user ty start_date total_days db None of
                 Some reason \<Rightarrow> (db, Inl (Limit_reached reason))
               | None \<Rightarrow>
                   (case check_overlapping_leaves user start_date end_date db None of
                      Some dates \<Rightarrow> (db, Inl (Overlapping dates))
                    | None \<Rightarrow>
                        (case check_leave_balance db user type_pk total_days (year_of start_date) of
                           (db1, Some e) \<Rightarrow> (db1, Inl (Balance_refused e))
                         | (db1, None) \<Rightarrow>
                             (case resolve_for_request db1 user ty body_rows of
                                Inl e \<Rightarrow> (db1, Inl (Substitutes_refused e))
                              | Inr subs \<Rightarrow>
                                  (case check_availability db1 user subs start_date end_date None of
                                     Some e \<Rightarrow> (db1, Inl (Substitutes_refused e))
                                   | None \<Rightarrow> (db1, Inr (total_days, subs)))))))"

definition new_request ::
  "leave_db \<Rightarrow> pk \<Rightarrow> pk \<Rightarrow> date \<Rightarrow> date \<Rightarrow> decimal \<Rightarrow> string \<Rightarrow> leave_status \<Rightarrow> leave_request" where
  "new_request db user type_pk start_date end_date total_days reason status =
     \<lparr>lr_pk = next_pk lr_pk (db_requests db), lr_employee = user, lr_type = type_pk,
      lr_start = start_date, lr_end = end_date, lr_days = total_days, lr_reason = reason,
      lr_status = status, lr_manager_approver = None, lr_manager_at = None, lr_manager_comments = [],
      lr_hr_approver = None, lr_hr_at = None, lr_hr_comments = [], lr_final_approver = None,
      lr_final_at = None, lr_final_comments = [], lr_rejected_by = None, lr_rejected_at = None,
      lr_rejection_reason = [], lr_cancelled_at = None, lr_cancellation_reason = [],
      lr_skipped_by = None, lr_skipped_at = None, lr_skip_reason = []\<rparr>"

definition create_leave ::
  "leave_db \<Rightarrow> pk \<Rightarrow> pk \<Rightarrow> date \<Rightarrow> date \<Rightarrow> string \<Rightarrow> body_row list \<Rightarrow> leave_request outcome" where
  "create_leave db user type_pk start_date end_date reason body_rows =
     (case validate_create db user type_pk start_date end_date body_rows of
        (db1, Inl e) \<Rightarrow> (db1, Inl e)
      | (db1, Inr (total_days, subs)) \<Rightarrow>
          let r = new_request db1 user type_pk start_date end_date total_days reason
                    (if subs \<noteq> [] then Awaiting_substitutes else Pending);
              db2 = update_leave_balance (create_request None r db1) r Act_pending;
              db3 = (if subs \<noteq> [] then snapshot db2 r subs (Some user) else db2)
          in (db3, Inr r))"

text \<open>\<^verbatim>\<open>preview\<close> runs the same checks; it reports the days, the balance and the refusal.\<close>

definition preview_checks ::
  "leave_db \<Rightarrow> pk \<Rightarrow> leave_type \<Rightarrow> date \<Rightarrow> date \<Rightarrow> leave_db \<times> decimal \<times> leave_error option" where
  "preview_checks db user ty start_date end_date =
     (if end_date < start_date then (db, 0, Some End_before_start)
      else
        let total_days = calculate_working_days start_date end_date db True
        in if total_days = 0 then (db, total_days, Some No_working_days)
           else case validate_type_limits user ty start_date total_days db None of
             Some reason \<Rightarrow> (db, total_days, Some (Limit_reached reason))
           | None \<Rightarrow>
               (case check_overlapping_leaves user start_date end_date db None of
                  Some dates \<Rightarrow> (db, total_days, Some (Overlapping dates))
                | None \<Rightarrow>
                    (case check_leave_balance db user (lt_pk ty) total_days (year_of start_date) of
                       (db1, Some e) \<Rightarrow> (db1, total_days, Some (Balance_refused e))
                     | (db1, None) \<Rightarrow> (db1, total_days, None))))"

definition preview ::
  "leave_db \<Rightarrow> pk \<Rightarrow> leave_type \<Rightarrow> date \<Rightarrow> date \<Rightarrow> leave_db \<times> decimal \<times> decimal option \<times> leave_error option" where
  "preview db user ty start_date end_date =
     (let (db1, total_days, refusal) = preview_checks db user ty start_date end_date;
          k = (user, lt_pk ty, year_of start_date);
          db2 = (case get_balance db1 k of
                   Some _ \<Rightarrow> db1
                 | None \<Rightarrow> fst (initialize_leave_balances_for_user db1 user (year_of start_date)))
      in (db2, total_days, map_option available_days (get_balance db2 k), refusal))"

subsection \<open>Changing a request\<close>

record request_patch =
  rp_start :: "date option"
  rp_end :: "date option"
  rp_reason :: "string option"

definition editable_statuses :: "leave_status list" where
  "editable_statuses = [Pending, Awaiting_substitutes]"

text \<open>The validated day count and the substitutes to ask again, when the body has dates.\<close>

definition validate_update ::
  "leave_db \<Rightarrow> leave_request \<Rightarrow> request_patch \<Rightarrow> leave_error + (decimal option \<times> (pk \<times> string) list)" where
  "validate_update db r p =
     (if lr_status r \<notin> set editable_statuses then Inl Wrong_status
      else if rp_start p = None \<and> rp_end p = None then Inr (None, [])
      else
        let start_date = (case rp_start p of Some d \<Rightarrow> d | None \<Rightarrow> lr_start r);
            end_date = (case rp_end p of Some d \<Rightarrow> d | None \<Rightarrow> lr_end r)
        in if end_date < start_date then Inl End_before_start
           else
             let total_days = calculate_working_days start_date end_date db True
             in case check_overlapping_leaves (lr_employee r) start_date end_date db (Some (lr_pk r)) of
                  Some dates \<Rightarrow> Inl (Overlapping dates)
                | None \<Rightarrow>
                    if total_days = 0 then Inl No_working_days
                    else case (case get_type db (lr_type r) of
                                 None \<Rightarrow> None
                               | Some ty \<Rightarrow> validate_type_limits (lr_employee r) ty start_date total_days db
                                   (Some (lr_pk r))) of
                      Some reason \<Rightarrow> Inl (Limit_reached reason)
                    | None \<Rightarrow>
                        (let subs = map (\<lambda>s. (rs_substitute s, rs_task s)) (request_subs db (lr_pk r))
                         in if subs = [] then Inr (Some total_days, [])
                            else case check_availability db (lr_employee r) subs start_date end_date
                                   (Some (lr_pk r)) of
                              Some e \<Rightarrow> Inl (Substitutes_refused e)
                            | None \<Rightarrow> Inr (Some total_days, subs)))"

definition patched :: "leave_request \<Rightarrow> request_patch \<Rightarrow> decimal option \<Rightarrow> leave_request" where
  "patched r p days =
     r\<lparr>lr_start := (case rp_start p of Some d \<Rightarrow> d | None \<Rightarrow> lr_start r),
       lr_end := (case rp_end p of Some d \<Rightarrow> d | None \<Rightarrow> lr_end r),
       lr_reason := (case rp_reason p of Some t \<Rightarrow> t | None \<Rightarrow> lr_reason r),
       lr_days := (case days of Some d \<Rightarrow> d | None \<Rightarrow> lr_days r)\<rparr>"

definition apply_update ::
  "leave_db \<Rightarrow> leave_request \<Rightarrow> request_patch \<Rightarrow> decimal option \<Rightarrow> (pk \<times> string) list \<Rightarrow> leave_db" where
  "apply_update db r p days subs =
     (let r1 = patched r p days;
          resnapshot = (if lr_start r1 = lr_start r \<and> lr_end r1 = lr_end r then [] else subs);
          moves = (lr_days r1 \<noteq> lr_days r \<or> year_of (lr_start r1) \<noteq> year_of (lr_start r));
          db1 = (if moves then update_leave_balance db r Act_cancel else db);
          db2 = save_request None [] r1 db1;
          db3 = (if moves then update_leave_balance db2 r1 Act_pending else db2)
      in if resnapshot = [] then db3
         else
           let r2 = r1\<lparr>lr_status := Awaiting_substitutes\<rparr>
           in snapshot (save_request (Some (lr_employee r)) [] r2 db3) r2 resnapshot
                (Some (lr_employee r)))"

definition update_request :: "leave_db \<Rightarrow> leave_request \<Rightarrow> request_patch \<Rightarrow> leave_error + leave_db" where
  "update_request db r p =
     (case validate_update db r p of
        Inl e \<Rightarrow> Inl e
      | Inr (days, subs) \<Rightarrow> Inr (apply_update db r p days subs))"

subsection \<open>Employee endpoints\<close>

definition own_request :: "leave_db \<Rightarrow> user \<Rightarrow> pk \<Rightarrow> leave_error + leave_request" where
  "own_request db u k =
     (case get_request db k of
        None \<Rightarrow> Inl Not_found
      | Some r \<Rightarrow> if lr_employee r = u_pk u then Inr r else Inl Not_found)"

definition employee_update :: "leave_db \<Rightarrow> user \<Rightarrow> pk \<Rightarrow> request_patch \<Rightarrow> leave_error + leave_db" where
  "employee_update db u k p =
     (case own_request db u k of
        Inl e \<Rightarrow> Inl e
      | Inr r \<Rightarrow>
          (case validate_update db r p of
             Inl e \<Rightarrow> Inl e
           | Inr (days, subs) \<Rightarrow>
               if lr_status r \<notin> set editable_statuses then Inl Wrong_status
               else Inr (apply_update db r p days subs)))"

definition employee_destroy :: "leave_db \<Rightarrow> user \<Rightarrow> pk \<Rightarrow> leave_error + leave_db" where
  "employee_destroy db u k =
     (case own_request db u k of
        Inl e \<Rightarrow> Inl e
      | Inr r \<Rightarrow>
          if lr_status r \<notin> set editable_statuses then Inl Wrong_status
          else Inr (delete_request r (update_leave_balance db r Act_cancel)))"

text \<open>The body shared by both cancel actions once the status check has passed.\<close>

definition cancel_locked :: "leave_db \<Rightarrow> user \<Rightarrow> leave_request \<Rightarrow> string \<Rightarrow> datetime \<Rightarrow> leave_db" where
  "cancel_locked db u r reason now =
     (let was_approved = (lr_status r = Approved);
          r' = r\<lparr>lr_status := Cancelled, lr_cancelled_at := Some now, lr_cancellation_reason := reason\<rparr>;
          db1 = save_request (Some (u_pk u)) [] r' db
      in update_leave_balance db1 r' (if was_approved then Act_cancel_approved else Act_cancel))"

definition employee_cancel :: "leave_db \<Rightarrow> user \<Rightarrow> pk \<Rightarrow> string \<Rightarrow> datetime \<Rightarrow> leave_error + leave_db" where
  "employee_cancel db u k reason now =
     (case own_request db u k of
        Inl e \<Rightarrow> Inl e
      | Inr r \<Rightarrow>
          if \<not> CanCancelLeave db u r then Inl Permission_denied
          else if lr_status r = Cancelled then Inl Wrong_status
          else if lr_status r \<notin> {Awaiting_substitutes, Pending, Manager_approved, Hr_approved, Approved}
            then Inl Wrong_status
          else Inr (cancel_locked db u r reason now))"

definition covering_respond ::
  "leave_db \<Rightarrow> user \<Rightarrow> pk \<Rightarrow> string \<Rightarrow> string \<Rightarrow> datetime \<Rightarrow> leave_error + leave_db" where
  "covering_respond db u k action comment now =
     (case get_request db k of
        None \<Rightarrow> Inl Not_found
      | Some r \<Rightarrow>
          if \<forall>s \<in> set (request_subs db k). rs_substitute s \<noteq> u_pk u then Inl Not_found
          else if action \<notin> {''accept'', ''reject''} then Inl Bad_body
          else (case respond db r (u_pk u) action comment now of
                  Inl e \<Rightarrow> Inl (Response_refused e)
                | Inr db' \<Rightarrow> Inr db'))"

subsection \<open>Manager endpoints\<close>

text \<open>\<^verbatim>\<open>LeaveApprovalSerializer\<close>: a rejection needs comments.\<close>

definition approval_body_ok :: "string \<Rightarrow> string \<Rightarrow> bool" where
  "approval_body_ok action comments \<longleftrightarrow>
     action \<in> {''approve'', ''reject''} \<and> \<not> (action = ''reject'' \<and> comments = [])"

definition reject_locked :: "leave_db \<Rightarrow> user \<Rightarrow> leave_request \<Rightarrow> string \<Rightarrow> datetime \<Rightarrow> leave_db" where
  "reject_locked db u r comments now =
     (let r' = r\<lparr>lr_status := Rejected, lr_rejected_by := Some (u_pk u), lr_rejected_at := Some now,
                 lr_rejection_reason := comments\<rparr>
      in update_leave_balance (save_request (Some (u_pk u)) [] r' db) r' Act_reject)"

definition approve_locked :: "leave_db \<Rightarrow> user \<Rightarrow> leave_request \<Rightarrow> string \<Rightarrow> datetime \<Rightarrow> leave_db" where
  "approve_locked db u r comments now =
     (let (db1, r', _) = apply_approval_step db r (u_pk u) now comments
      in save_request (Some (u_pk u)) [] r' db1)"

definition team_request :: "leave_db \<Rightarrow> user \<Rightarrow> pk \<Rightarrow> leave_error + leave_request" where
  "team_request db u k =
     (if \<not> is_leave_manager db (Some u) then Inl Permission_denied
      else case get_request db k of
        None \<Rightarrow> Inl Not_found
      | Some r \<Rightarrow>
          (case get_user db (lr_employee r) of
             None \<Rightarrow> Inl Not_found
           | Some e \<Rightarrow> if team_q u e then Inr r else Inl Not_found))"

definition manager_approve ::
  "leave_db \<Rightarrow> user \<Rightarrow> pk \<Rightarrow> string \<Rightarrow> string \<Rightarrow> datetime \<Rightarrow> leave_error + leave_db" where
  "manager_approve db u k action comments now =
     (case team_request db u k of
        Inl e \<Rightarrow> Inl e
      | Inr r \<Rightarrow>
          if \<not> CanApproveLeave db u r then Inl Permission_denied
          else if get_next_approver_role db r \<noteq> Some Manager then Inl Different_role
          else if \<not> approval_body_ok action comments then Inl Bad_body
          else Inr (approve_locked db u r comments now))"

definition manager_can_reject :: "leave_db \<Rightarrow> leave_request \<Rightarrow> bool" where
  "manager_can_reject db r =
     (if lr_status r = Pending then True
      else lr_status r \<in> set approval_statuses \<and> get_next_approver_role db r = Some Manager)"

definition manager_reject ::
  "leave_db \<Rightarrow> user \<Rightarrow> pk \<Rightarrow> string \<Rightarrow> string \<Rightarrow> datetime \<Rightarrow> leave_error + leave_db" where
  "manager_reject db u k action comments now =
     (case team_request db u k of
        Inl e \<Rightarrow> Inl e
      | Inr r \<Rightarrow>
          if \<not> CanApproveLeave db u r then Inl Permission_denied
          else if \<not> manager_can_reject db r then Inl Wrong_status
          else if \<not> approval_body_ok action comments then Inl Bad_body
          else Inr (reject_locked db u r comments now))"

subsection \<open>Administrator endpoints\<close>

definition admin_request :: "leave_db \<Rightarrow> user \<Rightarrow> pk \<Rightarrow> leave_error + leave_request" where
  "admin_request db u k =
     (if \<not> CanManageLeaveBalances (Some u) then Inl Permission_denied
      else case get_request db k of None \<Rightarrow> Inl Not_found | Some r \<Rightarrow> Inr r)"

definition admin_update :: "leave_db \<Rightarrow> user \<Rightarrow> pk \<Rightarrow> request_patch \<Rightarrow> leave_error + leave_db" where
  "admin_update db u k p =
     (case admin_request db u k of Inl e \<Rightarrow> Inl e | Inr r \<Rightarrow> update_request db r p)"

definition admin_approve ::
  "leave_db \<Rightarrow> user \<Rightarrow> pk \<Rightarrow> string \<Rightarrow> string \<Rightarrow> datetime \<Rightarrow> leave_error + leave_db" where
  "admin_approve db u k action comments now =
     (case admin_request db u k of
        Inl e \<Rightarrow> Inl e
      | Inr r \<Rightarrow>
          if \<not> CanApproveLeave db u r then Inl Permission_denied
          else if lr_status r \<notin> set approval_statuses then Inl Wrong_status
          else if \<not> approval_body_ok action comments then Inl Bad_body
          else if action \<noteq> ''approve'' then Inl Action_mismatch
          else Inr (approve_locked db u r comments now))"

definition admin_reject ::
  "leave_db \<Rightarrow> user \<Rightarrow> pk \<Rightarrow> string \<Rightarrow> string \<Rightarrow> datetime \<Rightarrow> leave_error + leave_db" where
  "admin_reject db u k action comments now =
     (case admin_request db u k of
        Inl e \<Rightarrow> Inl e
      | Inr r \<Rightarrow>
          if \<not> CanApproveLeave db u r then Inl Permission_denied
          else if lr_status r \<notin> set approval_statuses then Inl Wrong_status
          else if \<not> approval_body_ok action comments then Inl Bad_body
          else if action \<noteq> ''reject'' then Inl Action_mismatch
          else Inr (reject_locked db u r comments now))"

definition admin_cancel :: "leave_db \<Rightarrow> user \<Rightarrow> pk \<Rightarrow> string \<Rightarrow> datetime \<Rightarrow> leave_error + leave_db" where
  "admin_cancel db u k reason now =
     (case admin_request db u k of
        Inl e \<Rightarrow> Inl e
      | Inr r \<Rightarrow>
          if \<not> CanCancelLeave db u r then Inl Permission_denied
          else if lr_status r \<in> {Cancelled, Rejected} then Inl Wrong_status
          else Inr (cancel_locked db u r reason now))"

definition admin_destroy :: "leave_db \<Rightarrow> user \<Rightarrow> pk \<Rightarrow> leave_error + leave_db" where
  "admin_destroy db u k =
     (case admin_request db u k of
        Inl e \<Rightarrow> Inl e
      | Inr r \<Rightarrow>
          let db1 = (if lr_status r = Approved then update_leave_balance db r Act_cancel_approved
                     else if lr_status r \<in> set open_statuses then update_leave_balance db r Act_cancel
                     else db)
          in Inr (delete_request r db1))"

definition admin_skip_substitutes ::
  "leave_db \<Rightarrow> user \<Rightarrow> pk \<Rightarrow> string \<Rightarrow> datetime \<Rightarrow> leave_error + leave_db" where
  "admin_skip_substitutes db u k reason now =
     (if \<not> CanManageLeaveSettings (Some u) then Inl Permission_denied
      else case get_request db k of
        None \<Rightarrow> Inl Not_found
      | Some r \<Rightarrow>
          (case skip_pending db r (u_pk u) reason now of
             Inl e \<Rightarrow> Inl (Response_refused e)
           | Inr db' \<Rightarrow> Inr db'))"

definition admin_update_balance :: "leave_db \<Rightarrow> user \<Rightarrow> balance_key \<Rightarrow> decimal option \<Rightarrow> decimal option \<Rightarrow> leave_error + leave_db" where
  "admin_update_balance db u k allocated carried =
     (if \<not> CanManageLeaveBalances (Some u) then Inl Permission_denied
      else case get_balance db k of
        None \<Rightarrow> Inl Not_found
      | Some b \<Rightarrow>
          if (\<exists>x. allocated = Some x \<and> x < 0) \<or> (\<exists>x. carried = Some x \<and> x < 0) then Inl Bad_body
          else Inr (db\<lparr>db_balances := row_save lb_key
                 (b\<lparr>lb_allocated := (case allocated of Some x \<Rightarrow> x | None \<Rightarrow> lb_allocated b),
                    lb_carried := (case carried of Some x \<Rightarrow> x | None \<Rightarrow> lb_carried b)\<rparr>)
                 (db_balances db)\<rparr>))"

text \<open>
  POST and DELETE of a balance.  The serializer of POST leaves all figures writable, each at least
  zero, those that requests write included; a second balance of the same key fails on the unique constraint.
\<close>

definition admin_create_balance :: "leave_db \<Rightarrow> user \<Rightarrow> leave_balance \<Rightarrow> leave_error + leave_db" where
  "admin_create_balance db u b =
     (if \<not> CanManageLeaveBalances (Some u) then Inl Permission_denied
      else if get_user db (lb_user b) = None \<or> get_type db (lb_type b) = None then Inl Bad_body
      else if lb_allocated b < 0 \<or> lb_used b < 0 \<or> lb_carried b < 0 \<or> lb_pending b < 0 then Inl Bad_body
      else if get_balance db (lb_key b) \<noteq> None then Inl Bad_body
      else Inr (db\<lparr>db_balances := row_create b (db_balances db)\<rparr>))"

definition admin_delete_balance :: "leave_db \<Rightarrow> user \<Rightarrow> balance_key \<Rightarrow> leave_error + leave_db" where
  "admin_delete_balance db u k =
     (if \<not> CanManageLeaveBalances (Some u) then Inl Permission_denied
      else if get_balance db k = None then Inl Not_found
      else Inr (db\<lparr>db_balances := row_delete lb_key k (db_balances db)\<rparr>))"

text \<open>Deleting a leave type: refused while requests use it; its balances and chain go with it.\<close>

definition CanManageLeaveTypes :: "user \<Rightarrow> bool" where
  "CanManageLeaveTypes u = (u_is_staff u \<or> u_is_superuser u)"

definition destroy_leave_type :: "leave_db \<Rightarrow> user \<Rightarrow> pk \<Rightarrow> leave_error + leave_db" where
  "destroy_leave_type db u t =
     (if \<not> CanManageLeaveTypes u then Inl Permission_denied
      else if get_type db t = None then Inl Not_found
      else if \<exists>r \<in> set (db_requests db). lr_type r = t then Inl Bad_body
      else Inr (db\<lparr>db_types := row_delete lt_pk t (db_types db),
                   db_balances := filter (\<lambda>b. lb_type b \<noteq> t) (db_balances db),
                   db_chains := filter (\<lambda>c. ac_type c \<noteq> Some t) (db_chains db)\<rparr>))"

end
