(* ===== verification/Leave_Invariant.thy ===== *)
theory Leave_Invariant
  imports Leave_Requests
begin

text \<open>
  The invariant of the leave database and its preservation by every operation of the workflow.
  It has five parts: well-formed rows, the ledger (every balance's pending and used days are the
  sums over the requests that hold them), disjoint dates of an employee's active requests,
  substitutes' consent, and the audit chain.  Each part is preserved by the primitive writes;
  the endpoints are compositions of those.
\<close>

subsection \<open>The parts\<close>

definition row_ok :: "leave_request \<Rightarrow> bool" where
  "row_ok r \<longleftrightarrow> coherent r \<and> lr_start r \<le> lr_end r \<and> 0 \<le> lr_days r"

definition dates_ok :: "leave_request list \<Rightarrow> bool" where
  "dates_ok rs \<longleftrightarrow>
     (\<forall>a \<in> set rs. \<forall>b \<in> set rs. lr_pk a \<noteq> lr_pk b \<and> lr_employee a = lr_employee b
        \<and> active_request a \<and> active_request b \<longrightarrow> disjoint_dates a b)"

definition sub_statuses :: "leave_db \<Rightarrow> pk \<Rightarrow> substitute_status set" where
  "sub_statuses db k = rs_status ` {s \<in> set (db_subs db). rs_request s = k}"

definition consent_for :: "leave_status \<Rightarrow> substitute_status set \<Rightarrow> bool" where
  "consent_for st answers \<longleftrightarrow>
     (st \<in> set confirmed_request_statuses \<longrightarrow> answers \<subseteq> {Sub_accepted, Sub_skipped})
   \<and> (st = Awaiting_substitutes \<longrightarrow> Sub_pending \<in> answers \<and> Sub_rejected \<notin> answers)"

definition consent_ok :: "leave_db \<Rightarrow> bool" where
  "consent_ok db \<longleftrightarrow>
     distinct (map rs_pk (db_subs db))
   \<and> rs_request ` set (db_subs db) \<subseteq> lr_pk ` set (db_requests db)
   \<and> (\<forall>r \<in> set (db_requests db). consent_for (lr_status r) (sub_statuses db (lr_pk r)))"

definition base_inv :: "leave_db \<Rightarrow> bool" where
  "base_inv db \<longleftrightarrow>
     distinct (map lr_pk (db_requests db)) \<and> distinct (map lb_key (db_balances db))
   \<and> (\<forall>r \<in> set (db_requests db). row_ok r) \<and> lg.balanced (db_requests db) db
   \<and> dates_ok (db_requests db) \<and> audited db"

definition leave_inv :: "leave_db \<Rightarrow> bool" where
  "leave_inv db \<longleftrightarrow> base_inv db \<and> consent_ok db"

lemma base_invD:
  assumes "base_inv db"
  shows "distinct (map lr_pk (db_requests db))" "distinct (map lb_key (db_balances db))"
    "r \<in> set (db_requests db) \<Longrightarrow> row_ok r" "lg.balanced (db_requests db) db"
    "dates_ok (db_requests db)" "audited db" "lg.days_ok (db_requests db)"
  using assms by (auto simp: base_inv_def lg.days_ok_def row_ok_def)

lemma leave_invD:
  assumes "leave_inv db"
  shows "distinct (map lr_pk (db_requests db))" "distinct (map lb_key (db_balances db))"
    "r \<in> set (db_requests db) \<Longrightarrow> row_ok r" "lg.balanced (db_requests db) db"
    "dates_ok (db_requests db)" "consent_ok db" "audited db"
    "lg.days_ok (db_requests db)"
  using assms base_invD [of db] by (auto simp: leave_inv_def)

lemma get_request_mem: "get_request db k = Some r \<Longrightarrow> r \<in> set (db_requests db) \<and> lr_pk r = k"
  by (auto simp: get_request_def dest: row_get_Some)

lemma get_request_stored:
  "distinct (map lr_pk (db_requests db)) \<Longrightarrow> r \<in> set (db_requests db) \<Longrightarrow>
     lr_pk r' = lr_pk r \<Longrightarrow> get_request db (lr_pk r') = Some r"
  by (simp add: get_request_def row_get_unique)

lemma confirmed_iff [simp]:
  "st \<in> set confirmed_request_statuses \<longleftrightarrow> st \<in> {Pending, Manager_approved, Hr_approved, Approved}"
  by (simp add: confirmed_request_statuses_def)

subsection \<open>Only the four core tables matter\<close>

text \<open>
  What the balances contribute is the pending and used days and the distinctness of their keys,
  so any step that keeps those and the other three tables keeps the invariant.
\<close>

definition ledger_same :: "leave_db \<Rightarrow> leave_db \<Rightarrow> bool" where
  "ledger_same db db' \<longleftrightarrow> pending_at db' = pending_at db \<and> used_at db' = used_at db
     \<and> (distinct (map lb_key (db_balances db)) \<longrightarrow> distinct (map lb_key (db_balances db')))"

definition core_same :: "leave_db \<Rightarrow> leave_db \<Rightarrow> bool" where
  "core_same db db' \<longleftrightarrow> db_requests db' = db_requests db \<and> db_subs db' = db_subs db
     \<and> history_of db' = history_of db \<and> ledger_same db db'"

lemma core_same_inv:
  assumes "leave_inv db" and "core_same db db'"
  shows "leave_inv db'"
proof -
  have e: "db_requests db' = db_requests db" "db_subs db' = db_subs db" "history_of db' = history_of db"
    and l: "ledger_same db db'" using assms(2) by (auto simp: core_same_def)
  have "lg.balanced (db_requests db) db'"
    by (rule lg.balanced_cong [OF leave_invD(4) [OF assms(1)]]) (use l in \<open>simp_all add: ledger_same_def\<close>)
  moreover have "audited db'" using leave_invD(7) [OF assms(1)] by (simp add: audited_def e)
  moreover have "consent_ok db'" using leave_invD(6) [OF assms(1)] by (simp add: consent_ok_def sub_statuses_def e)
  moreover have "distinct (map lb_key (db_balances db'))"
    using leave_invD(2) [OF assms(1)] l by (simp add: ledger_same_def)
  ultimately show ?thesis
    unfolding leave_inv_def base_inv_def e(1) using leave_invD(1,3,5) [OF assms(1)] by blast
qed

lemma core_same_refl: "core_same db db"
  by (simp add: core_same_def ledger_same_def)

lemma core_same_balances:
  "ledger_same db (db\<lparr>db_balances := t\<rparr>) \<Longrightarrow> core_same db (db\<lparr>db_balances := t\<rparr>)"
  by (simp add: core_same_def history_of_def fun_eq_iff)

lemma initialize_core:
  assumes "initialize_leave_balances_for_user db u y = (db', n)"
  shows "core_same db db'"
proof -
  note f = initialize_frame [OF assms]
  then obtain t where t: "db' = db\<lparr>db_balances := t\<rparr>" by blast
  show ?thesis unfolding t by (rule core_same_balances) (use f t in \<open>simp add: ledger_same_def\<close>)
qed

lemma check_core:
  assumes "check_leave_balance db u ty days y = (db', v)"
  shows "core_same db db'"
proof -
  note f = check_frame [OF assms]
  then obtain t where t: "db' = db\<lparr>db_balances := t\<rparr>" by blast
  show ?thesis unfolding t by (rule core_same_balances) (use f t in \<open>simp add: ledger_same_def\<close>)
qed

lemma core_same_trans: "core_same a b \<Longrightarrow> core_same b c \<Longrightarrow> core_same a c"
  by (auto simp: core_same_def ledger_same_def)

lemma preview_core:
  assumes "preview db u ty s e = (db', x)"
  shows "core_same db db'"
proof -
  obtain db1 total refusal where c: "preview_checks db u ty s e = (db1, total, refusal)"
    by (metis prod_cases3)
  have "core_same db db1"
    using c by (auto simp: preview_checks_def Let_def core_same_refl
        split: if_splits option.splits prod.splits intro: check_core)
  moreover obtain d n where i: "initialize_leave_balances_for_user db1 u (year_of s) = (d, n)"
    by (metis surj_pair)
  ultimately show ?thesis
    using assms initialize_core [OF i] c i
    by (auto simp: preview_def Let_def split: option.splits intro: core_same_trans)
qed

lemma validate_create_core:
  assumes "validate_create db u ty s e rows = (db', x)"
  shows "core_same db db'"
  using assms
  by (auto simp: validate_create_def Let_def core_same_refl
      split: if_splits option.splits prod.splits sum.splits intro: check_core)

lemma save_balance_core:
  assumes "get_balance db (lb_key b') = Some b" and "lb_pending b' = lb_pending b" and "lb_used b' = lb_used b"
  shows "core_same db (db\<lparr>db_balances := row_save lb_key b' (db_balances db)\<rparr>)"
proof (rule core_same_balances)
  have "lb_key b' \<in> lb_key ` set (db_balances db)"
    using assms(1) row_get_None [of lb_key "lb_key b'" "db_balances db"] by (auto simp: get_balance_def)
  then show "ledger_same db (db\<lparr>db_balances := row_save lb_key b' (db_balances db)\<rparr>)"
    using assms by (auto simp: ledger_same_def fun_eq_iff pending_at_def used_at_def get_balance_def row_get_save)
qed

lemma admin_update_balance_core:
  assumes "admin_update_balance db u k a c = Inr db'"
  shows "core_same db db'"
proof -
  obtain b where b: "get_balance db k = Some b" and db': "db' = db\<lparr>db_balances := row_save lb_key
      (b\<lparr>lb_allocated := (case a of Some x \<Rightarrow> x | None \<Rightarrow> lb_allocated b),
         lb_carried := (case c of Some x \<Rightarrow> x | None \<Rightarrow> lb_carried b)\<rparr>) (db_balances db)\<rparr>"
    using assms by (auto simp: admin_update_balance_def split: if_splits option.splits)
  have "lb_key b = k" using b by (auto simp: get_balance_def dest: row_get_Some)
  then show ?thesis unfolding db' using b by (intro save_balance_core [of _ _ b]) (auto simp: lb_key_def)
qed

text \<open>Balances without used and pending days come and go without a trace in the ledger.\<close>

lemma admin_create_balance_core:
  assumes "admin_create_balance db u b = Inr db'" and "lb_used b = 0" and "lb_pending b = 0"
  shows "core_same db db'"
proof -
  have none: "get_balance db (lb_key b) = None" and db': "db' = db\<lparr>db_balances := row_create b (db_balances db)\<rparr>"
    using assms(1) by (auto simp: admin_create_balance_def split: if_splits)
  have "lb_key b \<notin> lb_key ` set (db_balances db)" using none by (simp add: get_balance_def row_get_None)
  moreover have "row_get lb_key k (row_create b (db_balances db)) =
      (if k = lb_key b then Some b else row_get lb_key k (db_balances db))" for k
    using none by (auto simp: get_balance_def row_get_create split: option.split)
  ultimately show ?thesis unfolding db' using assms(2,3) none
    by (intro core_same_balances)
      (auto simp: ledger_same_def fun_eq_iff pending_at_def used_at_def get_balance_def distinct_row_create)
qed

lemma admin_delete_balance_core:
  assumes "admin_delete_balance db u k = Inr db'" and "used_at db k = 0" and "pending_at db k = 0"
  shows "core_same db db'"
proof -
  have db': "db' = db\<lparr>db_balances := row_delete lb_key k (db_balances db)\<rparr>"
    using assms(1) by (auto simp: admin_delete_balance_def split: if_splits)
  show ?thesis unfolding db' using assms(2,3)
    by (intro core_same_balances)
      (auto simp: ledger_same_def fun_eq_iff pending_at_def used_at_def get_balance_def row_get_delete distinct_row_delete)
qed

lemma sum_list_zero: "(\<And>r. r \<in> set rs \<Longrightarrow> f r = (0 :: rat)) \<Longrightarrow> (\<Sum>r\<leftarrow>rs. f r) = 0"
  by (induction rs) auto

lemma row_get_filter_balances:
  "row_get lb_key k (filter (\<lambda>b. lb_type b \<noteq> t) bs) = (if fst (snd k) = t then None else row_get lb_key k bs)"
  unfolding row_get_def by (induction bs) (auto simp: lb_key_def)

text \<open>A leave type that can be deleted has no requests, so the balances that go with it are empty.\<close>

lemma destroy_leave_type_core:
  assumes "destroy_leave_type db u t = Inr db'" and "leave_inv db"
  shows "core_same db db'"
proof -
  have free: "\<And>r. r \<in> set (db_requests db) \<Longrightarrow> lr_type r \<noteq> t"
    and db': "db' = db\<lparr>db_types := row_delete lt_pk t (db_types db),
                   db_balances := filter (\<lambda>b. lb_type b \<noteq> t) (db_balances db),
                   db_chains := filter (\<lambda>c. ac_type c \<noteq> Some t) (db_chains db)\<rparr>"
    using assms(1) by (auto simp: destroy_leave_type_def split: if_splits)
  have "lg.held k r = 0 \<and> lg.spent k r = 0" if "r \<in> set (db_requests db)" "fst (snd k) = t" for k r
    using free [OF that(1)] that(2) by (auto simp: lg.held_def lg.spent_def request_key_def)
  then have empty: "pending_at db k = 0 \<and> used_at db k = 0" if "fst (snd k) = t" for k
    using leave_invD(4) [OF assms(2)] that sum_list_zero [of "db_requests db" "lg.held k"]
      sum_list_zero [of "db_requests db" "lg.spent k"]
    unfolding lg.balanced_def by metis
  have "pending_at db' k = pending_at db k \<and> used_at db' k = used_at db k" for k
    using empty [of k]
    by (simp add: db' pending_at_def used_at_def get_balance_def row_get_filter_balances split: option.splits)
  then show ?thesis
    by (simp add: core_same_def ledger_same_def fun_eq_iff db' history_of_def distinct_map_filter)
qed

subsection \<open>Saving a request\<close>

text \<open>A status change: everything the ledger and the dates depend on stays.\<close>

definition same_shape :: "leave_request \<Rightarrow> leave_request \<Rightarrow> bool" where
  "same_shape r0 r \<longleftrightarrow> lr_pk r = lr_pk r0 \<and> lr_employee r = lr_employee r0 \<and> lr_type r = lr_type r0
     \<and> lr_start r = lr_start r0 \<and> lr_end r = lr_end r0 \<and> lr_days r = lr_days r0"

lemma ledger_of_balances:
  "db_balances a = db_balances b \<Longrightarrow> pending_at a = pending_at b \<and> used_at a = used_at b"
  by (simp add: pending_at_def used_at_def get_balance_def fun_eq_iff)

lemma balanced_of_balances:
  "lg.balanced rs a \<Longrightarrow> db_balances a = db_balances b \<Longrightarrow> lg.balanced rs b"
  using ledger_of_balances [of a b] by (auto intro: lg.balanced_cong)

lemma balanced_post_of_balances:
  assumes "lg.balanced rs (update_leave_balance a r act)" and "db_balances a = db_balances b"
  shows "lg.balanced rs (update_leave_balance b r act)"
proof (rule lg.balanced_cong [OF assms(1)])
  show "pending_at (update_leave_balance b r act) = pending_at (update_leave_balance a r act)"
    "used_at (update_leave_balance b r act) = used_at (update_leave_balance a r act)"
    using ledger_of_balances [OF assms(2)]
    by (auto intro!: ext simp: pending_at_update used_at_update)
qed

lemma row_save_mem:
  "x \<in> set (row_save key r t) \<Longrightarrow> x = r \<and> key r \<in> key ` set t \<or> x \<in> set t \<and> key x \<noteq> key r"
  by (auto simp: set_row_save split: if_splits)

lemma dates_ok_save:
  assumes "dates_ok rs" and "r0 \<in> set rs" and "same_shape r0 r"
    and "active_request r \<Longrightarrow> active_request r0"
  shows "dates_ok (row_save lr_pk r rs)"
  unfolding dates_ok_def
proof (intro ballI impI)
  fix a b assume a: "a \<in> set (row_save lr_pk r rs)" and b: "b \<in> set (row_save lr_pk r rs)"
    and h: "lr_pk a \<noteq> lr_pk b \<and> lr_employee a = lr_employee b \<and> active_request a \<and> active_request b"
  have old: "\<exists>x \<in> set rs. same_shape x y \<and> (active_request y \<longrightarrow> active_request x)"
    if "y \<in> set (row_save lr_pk r rs)" for y
    using row_save_mem [OF that] assms(2-4) by (auto simp: same_shape_def)
  obtain x y where xy: "x \<in> set rs" "same_shape x a" "active_request x" "y \<in> set rs" "same_shape y b" "active_request y"
    using old [OF a] old [OF b] h by blast
  then have "disjoint_dates x y"
    using assms(1) h unfolding dates_ok_def same_shape_def by metis
  then show "disjoint_dates a b" using xy(2,5) by (simp add: disjoint_dates_def same_shape_def)
qed

lemma sub_statusesI: "s \<in> set (db_subs db) \<Longrightarrow> rs_request s = k \<Longrightarrow> rs_status s \<in> sub_statuses db k"
  unfolding sub_statuses_def by blast

lemma sub_statuses_cong: "db_subs db' = db_subs db \<Longrightarrow> sub_statuses db' = sub_statuses db"
  by (simp add: sub_statuses_def fun_eq_iff)

lemma consent_save:
  assumes "consent_ok db" and "db_subs db' = db_subs db"
    and "db_requests db' = row_save lr_pk r (db_requests db)"
    and "consent_for (lr_status r) (sub_statuses db (lr_pk r))"
  shows "consent_ok db'"
proof -
  have "lr_pk ` set (row_save lr_pk r (db_requests db)) = lr_pk ` set (db_requests db)"
    using map_key_row_save [of lr_pk r "db_requests db"] by (metis set_map)
  then have "rs_request ` set (db_subs db) \<subseteq> lr_pk ` set (row_save lr_pk r (db_requests db))"
    using assms(1) by (simp add: consent_ok_def)
  moreover have "consent_for (lr_status x) (sub_statuses db (lr_pk x))"
    if "x \<in> set (row_save lr_pk r (db_requests db))" for x
    using row_save_mem [OF that] assms(1,4) by (auto simp: consent_ok_def)
  ultimately show ?thesis
    using assms(1) unfolding consent_ok_def sub_statuses_cong [OF assms(2)] assms(2,3) by blast
qed

lemma base_inv_save:
  assumes "base_inv db" and "r0 \<in> set (db_requests db)" and "same_shape r0 r" and "coherent r"
    and "active_request r \<Longrightarrow> active_request r0"
    and "db_requests db' = row_save lr_pk r (db_requests db)"
    and "lg.balanced (row_save lr_pk r (db_requests db)) db'"
    and "distinct (map lb_key (db_balances db'))" and "audited db'"
  shows "base_inv db'"
proof -
  note i = base_invD [OF assms(1)]
  have "row_ok r" using i(3) [OF assms(2)] assms(3,4) by (simp add: row_ok_def same_shape_def)
  then have "\<forall>x \<in> set (row_save lr_pk r (db_requests db)). row_ok x"
    using i(3) by (auto dest: row_save_mem)
  moreover have "dates_ok (row_save lr_pk r (db_requests db))"
    using dates_ok_save [OF i(5) assms(2,3,5)] .
  ultimately show ?thesis
    unfolding base_inv_def assms(6) using assms(7-9) i(1) by (simp only: map_key_row_save)
qed

text \<open>The two orders in which the code saves a request and posts to its balance.\<close>

lemma base_save_then_post:
  assumes "base_inv db" and "r0 \<in> set (db_requests db)" and "same_shape r0 r" and "coherent r"
    and "active_request r \<Longrightarrow> active_request r0"
    and "lg.balanced (row_save lr_pk r (db_requests db)) (update_leave_balance db r act)"
  shows "base_inv (update_leave_balance (save_request a c r db) r act)"
    and "base_inv (save_request a c r (update_leave_balance db r act))"
proof -
  note i = base_invD [OF assms(1)]
  have get: "get_request db (lr_pk r) = Some r0"
    using get_request_stored [OF i(1) assms(2), of r] assms(3) by (simp add: same_shape_def)
  let ?d1 = "update_leave_balance (save_request a c r db) r act"
  let ?d2 = "save_request a c r (update_leave_balance db r act)"
  have aud: "audited (save_request a c r db)" by (rule audited_save [OF i(6) get i(1)])
  have "audited (update_leave_balance db r act)" by (rule audited_cong [OF i(6)]) simp_all
  then have aud2: "audited ?d2"
    by (rule audited_save [where old = r0]) (use get i(1) in \<open>simp_all add: get_request_def\<close>)
  show "base_inv ?d1"
  proof (rule base_inv_save [OF assms(1-5)])
    show "lg.balanced (row_save lr_pk r (db_requests db)) ?d1"
      by (rule balanced_post_of_balances [OF assms(6)]) simp
    show "distinct (map lb_key (db_balances ?d1))" using i(2) by (intro distinct_update) simp
    show "audited ?d1" by (rule audited_cong [OF aud]) simp_all
  qed simp_all
  show "base_inv ?d2"
  proof (rule base_inv_save [OF assms(1-5)])
    show "lg.balanced (row_save lr_pk r (db_requests db)) ?d2"
      by (rule balanced_of_balances [OF assms(6)]) simp
    show "distinct (map lb_key (db_balances ?d2))" using distinct_update [OF i(2), of r act] by simp
  qed (use aud2 in simp_all)
qed

lemma save_then_post:
  assumes "leave_inv db" and "r0 \<in> set (db_requests db)" and "same_shape r0 r" and "coherent r"
    and "active_request r \<Longrightarrow> active_request r0"
    and "lg.balanced (row_save lr_pk r (db_requests db)) (update_leave_balance db r act)"
    and "consent_for (lr_status r) (sub_statuses db (lr_pk r))"
  shows "leave_inv (update_leave_balance (save_request a c r db) r act)"
    and "leave_inv (save_request a c r (update_leave_balance db r act))"
proof -
  have i: "base_inv db" "consent_ok db" using assms(1) by (simp_all add: leave_inv_def)
  have c: "consent_ok (update_leave_balance (save_request a c r db) r act)"
    "consent_ok (save_request a c r (update_leave_balance db r act))"
    by (rule consent_save [OF i(2) _ _ assms(7)]; simp)+
  note b = base_save_then_post [OF i(1) assms(2-6)]
  show "leave_inv (update_leave_balance (save_request a c r db) r act)"
    "leave_inv (save_request a c r (update_leave_balance db r act))"
    unfolding leave_inv_def using b c by blast+
qed

lemma base_save_no_post:
  assumes "base_inv db" and "r0 \<in> set (db_requests db)" and "same_shape r0 r" and "coherent r"
    and "request_bucket r0 = request_bucket r" and "active_request r \<Longrightarrow> active_request r0"
  shows "base_inv (save_request a c r db)"
proof -
  note i = base_invD [OF assms(1)]
  have get: "get_request db (lr_pk r) = Some r0"
    using get_request_stored [OF i(1) assms(2), of r] assms(3) by (simp add: same_shape_def)
  have b: "lg.balanced (row_save lr_pk r (db_requests db)) db"
    by (rule lg.balanced_keep [OF i(4,1) assms(2)])
      (use assms(3,5) in \<open>simp_all add: same_shape_def request_key_def\<close>)
  show ?thesis
  proof (rule base_inv_save [OF assms(1-4,6)])
    show "lg.balanced (row_save lr_pk r (db_requests db)) (save_request a c r db)"
      by (rule balanced_of_balances [OF b]) simp
    show "audited (save_request a c r db)" by (rule audited_save [OF i(6) get i(1)])
  qed (use i(2) in simp_all)
qed

lemma save_no_post:
  assumes "leave_inv db" and "r0 \<in> set (db_requests db)" and "same_shape r0 r" and "coherent r"
    and "request_bucket r0 = request_bucket r" and "active_request r \<Longrightarrow> active_request r0"
    and "consent_for (lr_status r) (sub_statuses db (lr_pk r))"
  shows "leave_inv (save_request a c r db)"
proof -
  have i: "base_inv db" "consent_ok db" using assms(1) by (simp_all add: leave_inv_def)
  have "consent_ok (save_request a c r db)" by (rule consent_save [OF i(2) _ _ assms(7)]) simp_all
  then show ?thesis using base_save_no_post [OF i(1) assms(2-6)] by (simp add: leave_inv_def)
qed

subsection \<open>Decisions\<close>

lemma active_bucket: "active_request r \<longleftrightarrow> request_bucket r \<noteq> Free"
  by (cases "lr_status r") (simp_all add: active_request_iff request_bucket_def)

lemma consent_closed: "st \<in> {Rejected, Cancelled} \<Longrightarrow> consent_for st answers"
  by (auto simp: consent_for_def)

lemma consent_confirmed:
  assumes "leave_inv db" and "r \<in> set (db_requests db)"
    and "lr_status r \<in> set confirmed_request_statuses" and "st \<in> set confirmed_request_statuses"
  shows "consent_for st (sub_statuses db (lr_pk r))"
  using leave_invD(6) [OF assms(1)] assms(2-4) by (auto simp: consent_ok_def consent_for_def)

lemma coherent_of: "leave_inv db \<Longrightarrow> r \<in> set (db_requests db) \<Longrightarrow> coherent r"
  using leave_invD(3) by (auto simp: row_ok_def)

lemma reject_locked_inv:
  assumes "leave_inv db" and "r \<in> set (db_requests db)" and "lr_status r \<in> set open_statuses"
  shows "leave_inv (reject_locked db u r comments now)"
proof -
  note i = leave_invD [OF assms(1)]
  let ?r = "r\<lparr>lr_status := Rejected, lr_rejected_by := Some (u_pk u), lr_rejected_at := Some now,
      lr_rejection_reason := comments\<rparr>"
  have "lg.balanced (row_save lr_pk ?r (db_requests db)) (update_leave_balance db ?r Act_reject)"
    by (rule lg.balanced_release [OF i(4,8,1) assms(2)])
      (use assms(3) in \<open>simp_all add: request_key_def request_bucket_def bucket_open del: open_statuses_iff\<close>)
  then show ?thesis
    unfolding reject_locked_def Let_def
    by (intro save_then_post(1) [OF assms(1,2)])
      (use coherent_of [OF assms(1,2)] in \<open>simp_all add: same_shape_def coherent_def active_request_iff consent_closed\<close>)
qed

lemma cancel_locked_inv:
  assumes "leave_inv db" and "r \<in> set (db_requests db)" and "lr_status r \<notin> {Rejected, Cancelled}"
  shows "leave_inv (cancel_locked db u r reason now)"
proof -
  note i = leave_invD [OF assms(1)]
  let ?r = "r\<lparr>lr_status := Cancelled, lr_cancelled_at := Some now, lr_cancellation_reason := reason\<rparr>"
  let ?act = "if lr_status r = Approved then Act_cancel_approved else Act_cancel"
  have "lg.balanced (row_save lr_pk ?r (db_requests db)) (update_leave_balance db ?r ?act)"
  proof (cases "lr_status r = Approved")
    case True
    then show ?thesis
      using lg.balanced_return [OF i(4,8,1) assms(2), of ?r] by (simp add: request_key_def request_bucket_def)
  next
    case False
    then have "request_bucket r = Held" using assms(3) by (cases "lr_status r") (simp_all add: request_bucket_def)
    then show ?thesis
      using lg.balanced_release [OF i(4,8,1) assms(2), of ?r Act_cancel] False
      by (simp add: request_key_def) (simp add: request_bucket_def)
  qed
  then show ?thesis
    unfolding cancel_locked_def Let_def
    by (intro save_then_post(1) [OF assms(1,2)])
      (use coherent_of [OF assms(1,2)] in \<open>simp_all add: same_shape_def coherent_def active_request_iff consent_closed\<close>)
qed

lemma approve_locked_inv:
  assumes "leave_inv db" and "r \<in> set (db_requests db)" and "lr_status r \<in> set approval_statuses"
  shows "leave_inv (approve_locked db u r comments now)"
proof -
  note i = leave_invD [OF assms(1)]
  obtain db1 r' role where a: "apply_approval_step db r (u_pk u) now comments = (db1, r', role)"
    by (metis prod_cases3)
  note f = apply_frame [OF a] and b = apply_balance [OF a assms(3)]
  have coh: "coherent r'" using apply_coherent [OF a assms(3) coherent_of [OF assms(1,2)]] .
  have shape: "same_shape r r'" using f by (simp add: same_shape_def)
  have open_r: "request_bucket r = Held" "active_request r"
    using assms(3) by (auto simp: request_bucket_def active_request_iff)
  have con: "consent_for (lr_status r') (sub_statuses db (lr_pk r'))"
    using consent_confirmed [OF assms(1,2), of "lr_status r'"] assms(3) b(2) f(1) by auto
  have e: "approve_locked db u r comments now = save_request (Some (u_pk u)) [] r' db1"
    by (simp add: approve_locked_def a)
  show ?thesis
  proof (cases "lr_status r' = Approved")
    case True
    have "lg.balanced (row_save lr_pk r' (db_requests db)) (update_leave_balance db r' Act_approve)"
      by (rule lg.balanced_approve [OF i(4,8,1) assms(2)])
        (use f open_r True in \<open>simp_all add: request_key_def request_bucket_def\<close>)
    then show ?thesis
      unfolding e using b(1) True open_r
      by (simp add: save_then_post(2) [OF assms(1,2) shape coh _ _ con])
  next
    case False
    then have "request_bucket r' = Held" using b(2) by (auto simp: request_bucket_def)
    then show ?thesis
      unfolding e using b(1) False open_r
      by (simp add: save_no_post [OF assms(1,2) shape coh _ _ con])
  qed
qed

subsection \<open>Deleting\<close>

lemma delete_inv:
  assumes "leave_inv db" and "r \<in> set (db_requests db)"
    and "db' = (if lr_status r = Approved then update_leave_balance db r Act_cancel_approved
                else if lr_status r \<in> set open_statuses then update_leave_balance db r Act_cancel else db)"
  shows "leave_inv (delete_request r db')"
proof -
  note i = leave_invD [OF assms(1)]
  have same: "db_requests db' = db_requests db" "db_subs db' = db_subs db" "db_events db' = db_events db"
    using assms(3) by simp_all
  have keys: "distinct (map lb_key (db_balances db'))"
    using i(2) assms(3) distinct_update by auto
  let ?rs = "row_delete lr_pk (lr_pk r) (db_requests db)"
  have bal: "lg.balanced ?rs db'"
  proof -
    consider "lr_status r = Approved" | "lr_status r \<in> set open_statuses" | "lr_status r \<in> {Rejected, Cancelled}"
      by (cases "lr_status r") auto
    then show ?thesis
    proof cases
      case 1
      then show ?thesis
        using lg.balanced_delete_spent [OF i(4,8,1) assms(2)] assms(3) by (simp add: request_bucket_def)
    next
      case 2
      then have "request_bucket r = Held" by (simp add: request_bucket_def bucket_open del: open_statuses_iff)
      moreover have "lr_status r \<noteq> Approved" using 2 by auto
      ultimately show ?thesis
        using lg.balanced_delete_held [OF i(4,8,1) assms(2)] assms(3) 2 by simp
    next
      case 3
      then have "request_bucket r = Free" "db' = db" using assms(3) by (auto simp: request_bucket_def)
      then show ?thesis using lg.balanced_delete_free [OF i(4,1) assms(2)] by simp
    qed
  qed
  let ?d = "delete_request r db'"
  have req: "db_requests ?d = ?rs" "db_subs ?d = filter (\<lambda>s. rs_request s \<noteq> lr_pk r) (db_subs db)"
    "db_balances ?d = db_balances db'"
    by (simp_all add: delete_request_def same)
  have "audited db'" by (rule audited_cong [OF i(7)]) (simp_all add: same)
  then have "audited ?d" by (rule audited_delete)
  moreover have "consent_ok ?d"
  proof -
    have st: "sub_statuses ?d k = sub_statuses db k" if "k \<noteq> lr_pk r" for k
      using that by (auto simp: sub_statuses_def req)
    have "consent_for (lr_status x) (sub_statuses ?d (lr_pk x))" if "x \<in> set ?rs" for x
      using that i(6) st [of "lr_pk x"] by (auto simp: consent_ok_def)
    moreover have "rs_request ` set (db_subs ?d) \<subseteq> lr_pk ` set ?rs"
    proof
      fix k assume "k \<in> rs_request ` set (db_subs ?d)"
      then have "k \<in> rs_request ` set (db_subs db)" "k \<noteq> lr_pk r" by (auto simp: req)
      then have "k \<in> lr_pk ` set (db_requests db)" using i(6) by (auto simp: consent_ok_def)
      with \<open>k \<noteq> lr_pk r\<close> show "k \<in> lr_pk ` set ?rs" by auto
    qed
    moreover have "distinct (map rs_pk (db_subs ?d))"
      using i(6) by (simp add: consent_ok_def req distinct_map_filter)
    ultimately show ?thesis by (simp add: consent_ok_def req)
  qed
  moreover have "lg.balanced ?rs ?d" by (rule balanced_of_balances [OF bal]) (simp add: req)
  moreover have "dates_ok ?rs" using i(5) by (auto simp: dates_ok_def)
  moreover have "distinct (map lr_pk ?rs)" using i(1) by (rule distinct_row_delete)
  moreover have "\<forall>x \<in> set ?rs. row_ok x" using i(3) by auto
  ultimately show ?thesis unfolding leave_inv_def base_inv_def req using keys by simp
qed

subsection \<open>Answers of substitutes\<close>

lemma request_subs_mem: "s \<in> set (request_subs db k) \<longleftrightarrow> s \<in> set (db_subs db) \<and> rs_request s = k"
  by (auto simp: request_subs_def)

lemma sub_statuses_save:
  assumes "distinct (map rs_pk (db_subs db))" and "row \<in> set (db_subs db)"
    and "rs_pk row' = rs_pk row" and "rs_request row' = rs_request row"
    and "db_subs db' = row_save rs_pk row' (db_subs db)"
  shows "k \<noteq> rs_request row \<Longrightarrow> sub_statuses db' k = sub_statuses db k"
    and "rs_status row' \<in> sub_statuses db' (rs_request row)"
    and "sub_statuses db' (rs_request row) \<subseteq> insert (rs_status row') (sub_statuses db (rs_request row))"
proof -
  have mem: "x \<in> set (db_subs db') \<longleftrightarrow> x = row' \<or> x \<in> set (db_subs db) \<and> rs_pk x \<noteq> rs_pk row" for x
    using assms(2,3) unfolding assms(5) by (auto simp: set_row_save)
  have uniq: "x = row" if "x \<in> set (db_subs db)" "rs_pk x = rs_pk row" for x
    using assms(1,2) that by (auto simp: distinct_map inj_on_def)
  show "k \<noteq> rs_request row \<Longrightarrow> sub_statuses db' k = sub_statuses db k"
    using uniq assms(4) by (auto simp: sub_statuses_def mem image_iff)
  show "rs_status row' \<in> sub_statuses db' (rs_request row)"
    using assms(4) by (auto simp: sub_statuses_def mem)
  show "sub_statuses db' (rs_request row) \<subseteq> insert (rs_status row') (sub_statuses db (rs_request row))"
    by (auto simp: sub_statuses_def mem)
qed

lemma consent_row_update:
  assumes "consent_ok db" and "row \<in> set (db_subs db)"
    and "rs_pk row' = rs_pk row" and "rs_request row' = rs_request row"
    and "db_requests db' = db_requests db" and "db_subs db' = row_save rs_pk row' (db_subs db)"
    and "\<And>r. r \<in> set (db_requests db) \<Longrightarrow> lr_pk r = rs_request row \<Longrightarrow>
      consent_for (lr_status r) (sub_statuses db' (rs_request row))"
  shows "consent_ok db'"
proof -
  have d: "distinct (map rs_pk (db_subs db))" using assms(1) by (simp add: consent_ok_def)
  note s = sub_statuses_save [OF d assms(2-4,6)]
  have "rs_request ` set (db_subs db') \<subseteq> lr_pk ` set (db_requests db')"
    using assms(1,2,4,5) unfolding assms(6) consent_ok_def by (auto dest!: row_save_mem)
  moreover have "consent_for (lr_status r) (sub_statuses db' (lr_pk r))" if "r \<in> set (db_requests db)" for r
    using assms(1,7) s(1) that by (cases "lr_pk r = rs_request row") (auto simp: consent_ok_def)
  ultimately show ?thesis using d by (simp add: consent_ok_def assms(5,6))
qed

lemma consent_both:
  assumes "consent_ok db" and "row \<in> set (db_subs db)" and "rs_request row = lr_pk r"
    and "rs_pk row' = rs_pk row" and "rs_request row' = rs_request row"
    and "db_requests db' = row_save lr_pk r (db_requests db)"
    and "db_subs db' = row_save rs_pk row' (db_subs db)"
    and "consent_for (lr_status r) (sub_statuses db' (lr_pk r))"
  shows "consent_ok db'"
proof -
  have d: "distinct (map rs_pk (db_subs db))" using assms(1) by (simp add: consent_ok_def)
  note s = sub_statuses_save [OF d assms(2,4,5,7)]
  have "lr_pk ` set (db_requests db') = lr_pk ` set (db_requests db)"
    unfolding assms(6) using map_key_row_save [of lr_pk r "db_requests db"] by (metis set_map)
  moreover have "rs_request ` set (db_subs db') \<subseteq> lr_pk ` set (db_requests db)"
    using assms(1,2,5) unfolding assms(7) consent_ok_def by (auto dest!: row_save_mem)
  moreover have "consent_for (lr_status x) (sub_statuses db' (lr_pk x))" if "x \<in> set (db_requests db')" for x
    using that assms(1,3,8) s(1) unfolding assms(6) by (auto simp: consent_ok_def dest!: row_save_mem)
  ultimately show ?thesis using d by (simp add: consent_ok_def assms(7))
qed

lemma base_cong:
  assumes "base_inv db" and "db_requests db' = db_requests db" and "db_balances db' = db_balances db"
    and "history_of db' = history_of db"
  shows "base_inv db'"
proof -
  note i = base_invD [OF assms(1)]
  have "lg.balanced (db_requests db) db'" by (rule balanced_of_balances [OF i(4)]) (simp add: assms(3))
  moreover have "audited db'" using i(6) by (simp add: audited_def assms(2,4))
  ultimately show ?thesis unfolding base_inv_def assms(2,3) using i by blast
qed

lemma find_mem: "find P xs = Some x \<Longrightarrow> x \<in> set xs \<and> P x"
  by (auto simp: find_Some_iff)

lemma respond_inv:
  assumes "leave_inv db" and "r \<in> set (db_requests db)" and "respond db r u action comment now = Inr db'"
  shows "leave_inv db'"
proof -
  have i: "base_inv db" "consent_ok db" using assms(1) by (simp_all add: leave_inv_def)
  obtain row where row: "find (\<lambda>s. rs_substitute s = u) (request_subs db (lr_pk r)) = Some row"
    and st: "lr_status r = Awaiting_substitutes" "rs_status row = Sub_pending"
    using assms(3) by (auto simp: respond_def Let_def split: if_splits option.splits)
  have mem: "row \<in> set (db_subs db)" "rs_request row = lr_pk r"
    using find_mem [OF row] by (simp_all add: request_subs_mem)
  define row' where "row' = row\<lparr>rs_status := (if action = ''accept'' then Sub_accepted else Sub_rejected),
      rs_responded_at := Some now, rs_comment := comment\<rparr>"
  define e where "e = \<lparr>ev_kind = ''substitute'',
      ev_action = (if action = ''accept'' then ''accepted'' else ''rejected''),
      ev_request = Some (lr_pk r), ev_subject = Some (lr_employee r), ev_actor = Some u,
      ev_object = nat_text (rs_pk row), ev_from = ''pending'', ev_to = sub_status_text (rs_status row'),
      ev_kpi = None, ev_data = Comment_data comment\<rparr>"
  define db1 where "db1 = log_event e (save_sub row' db)"
  have k: "rs_pk row' = rs_pk row" "rs_request row' = rs_request row" by (simp_all add: row'_def)
  have d1: "db_requests db1 = db_requests db" "db_balances db1 = db_balances db"
    "db_subs db1 = row_save rs_pk row' (db_subs db)"
    by (simp_all add: db1_def log_event_def save_sub_def)
  have h1: "history_of db1 = history_of db"
    unfolding db1_def by (simp add: fun_eq_iff history_log_event e_def) (simp add: history_of_def save_sub_def)
  have b1: "base_inv db1" by (rule base_cong [OF i(1) d1(1,2) h1])
  note bi = base_invD [OF b1]
  have mem1: "r \<in> set (db_requests db1)" using assms(2) by (simp add: d1)
  have coh: "coherent r" by (rule coherent_of [OF assms(1,2)])
  have res: "Inr db' = (if action = ''reject'' then
       (let r' = r\<lparr>lr_status := Rejected, lr_rejected_by := Some u, lr_rejected_at := Some now,
                   lr_rejection_reason := comment\<rparr>
        in Inr (update_leave_balance (save_request (Some u) [] r' db1) r' Act_reject))
     else if \<forall>s \<in> set (request_subs db1 (lr_pk r)). rs_status s \<in> {Sub_accepted, Sub_skipped}
     then Inr (save_request (Some u) [] (r\<lparr>lr_status := Pending\<rparr>) db1) else Inr db1)"
    using assms(3) row st unfolding respond_def db1_def e_def row'_def Let_def
    by (auto simp only: option.case split: if_splits)
  consider (reject) "action = ''reject''"
    | (last) "action \<noteq> ''reject''" "\<forall>s \<in> set (request_subs db1 (lr_pk r)). rs_status s \<in> {Sub_accepted, Sub_skipped}"
    | (more) "action \<noteq> ''reject''" "\<not> (\<forall>s \<in> set (request_subs db1 (lr_pk r)). rs_status s \<in> {Sub_accepted, Sub_skipped})"
    by blast
  then show ?thesis
  proof cases
    case reject
    let ?r = "r\<lparr>lr_status := Rejected, lr_rejected_by := Some u, lr_rejected_at := Some now, lr_rejection_reason := comment\<rparr>"
    have db': "db' = update_leave_balance (save_request (Some u) [] ?r db1) ?r Act_reject"
      using res reject by (simp add: Let_def)
    have "lg.balanced (row_save lr_pk ?r (db_requests db1)) (update_leave_balance db1 ?r Act_reject)"
      by (rule lg.balanced_release [OF bi(4,7,1) mem1]) (simp_all add: request_key_def request_bucket_def st)
    then have "base_inv db'"
      unfolding db' by (rule base_save_then_post(1) [OF b1 mem1, rotated 3])
        (use coh in \<open>simp_all add: same_shape_def coherent_def active_request_iff\<close>)
    moreover have "consent_ok db'"
      by (rule consent_both [OF i(2) mem(1), of ?r]) (simp_all add: mem k db' d1 consent_closed)
    ultimately show ?thesis by (simp add: leave_inv_def)
  next
    case last
    let ?r = "r\<lparr>lr_status := Pending\<rparr>"
    have db': "db' = save_request (Some u) [] ?r db1" using res last by simp
    have "base_inv db'"
      unfolding db' by (rule base_save_no_post [OF b1 mem1])
        (use coh st in \<open>simp_all add: same_shape_def coherent_def active_request_iff request_bucket_def\<close>)
    moreover have "sub_statuses db' (lr_pk r) \<subseteq> {Sub_accepted, Sub_skipped}"
      using last(2) by (auto simp: sub_statuses_def db' request_subs_mem)
    then have "consent_ok db'"
      by (intro consent_both [OF i(2) mem(1), of ?r]) (simp_all add: mem k db' d1 consent_for_def)
    ultimately show ?thesis by (simp add: leave_inv_def)
  next
    case more
    have db': "db' = db1"
      using res unfolding if_not_P [OF more(1)] if_not_P [OF more(2)] by (rule Inr_inject)
    have old: "Sub_rejected \<notin> sub_statuses db (lr_pk r)"
      using i(2) assms(2) st by (auto simp: consent_ok_def consent_for_def)
    have acc: "rs_status row' = Sub_accepted"
    proof -
      have "action \<in> {''accept'', ''reject''}"
        using assms(3) by (auto simp: respond_def split: if_splits)
      then show ?thesis using more(1) by (simp add: row'_def)
    qed
    have sub: "sub_statuses db1 (lr_pk r) \<subseteq> insert Sub_accepted (sub_statuses db (lr_pk r))"
      using sub_statuses_save(3) [OF _ mem(1) k d1(3)] i(2) acc mem(2) by (simp add: consent_ok_def)
    obtain s where s: "s \<in> set (request_subs db1 (lr_pk r))" "rs_status s \<noteq> Sub_accepted" "rs_status s \<noteq> Sub_skipped"
      using more(2) by auto
    define x where "x = rs_status s"
    have x: "x \<in> sub_statuses db1 (lr_pk r)" "x \<noteq> Sub_accepted" "x \<noteq> Sub_skipped"
      using s sub_statusesI [of s db1] by (simp_all add: x_def request_subs_mem)
    then have "x = Sub_pending" using sub old by (cases x) auto
    then have w: "consent_for Awaiting_substitutes (sub_statuses db1 (rs_request row))"
      using x sub old by (auto simp: consent_for_def mem)
    have "consent_for (lr_status y) (sub_statuses db1 (rs_request row))"
      if "y \<in> set (db_requests db)" "lr_pk y = rs_request row" for y
    proof -
      have "y = r"
        using that assms(2) mem(2) leave_invD(1) [OF assms(1)] by (auto simp: distinct_map inj_on_def)
      then show ?thesis using w st by simp
    qed
    then have "consent_ok db1" by (rule consent_row_update [OF i(2) mem(1) k d1(1,3)])
    then show ?thesis using b1 by (simp add: db' leave_inv_def)
  qed
qed

lemma skip_pending_inv:
  assumes "leave_inv db" and "r \<in> set (db_requests db)" and "skip_pending db r u reason now = Inr db'"
  shows "leave_inv db'"
proof -
  have i: "base_inv db" "consent_ok db" using assms(1) by (simp_all add: leave_inv_def)
  have st: "lr_status r = Awaiting_substitutes"
    using assms(3) by (auto simp: skip_pending_def Let_def split: if_splits)
  define f :: "request_substitute \<Rightarrow> request_substitute" where "f s = (if rs_request s = lr_pk r \<and> rs_status s = Sub_pending
      then s\<lparr>rs_status := Sub_skipped, rs_responded_at := Some now\<rparr> else s)" for s
  define db1 where "db1 = db\<lparr>db_subs := map f (db_subs db)\<rparr>"
  define r' where "r' = r\<lparr>lr_skipped_by := Some u, lr_skipped_at := Some now,
      lr_skip_reason := strip reason, lr_status := Pending\<rparr>"
  define e where "e = \<lparr>ev_kind = ''substitute'', ev_action = ''skipped'', ev_request = Some (lr_pk r),
      ev_subject = Some (lr_employee r), ev_actor = Some u, ev_object = nat_text (lr_pk r), ev_from = [],
      ev_to = [], ev_kpi = None, ev_data = Skip_data (strip reason)
        (map rs_substitute (filter (\<lambda>s. rs_status s = Sub_pending) (request_subs db (lr_pk r))))\<rparr>"
  have db': "db' = log_event e (save_request (Some u) (strip reason) r' db1)"
    using assms(3) unfolding skip_pending_def Let_def db1_def f_def r'_def e_def
    by (simp split: if_splits)
  have f: "rs_pk (f s) = rs_pk s" "rs_request (f s) = rs_request s" for s by (simp_all add: f_def)
  have "base_inv db1" by (rule base_cong [OF i(1)]) (simp_all add: db1_def history_of_def fun_eq_iff)
  then have "base_inv (save_request (Some u) (strip reason) r' db1)"
    by (rule base_save_no_post [where ?r0.0 = r])
      (use assms(2) coherent_of [OF assms(1,2)] st in \<open>simp_all add: db1_def r'_def same_shape_def
        coherent_def active_request_iff request_bucket_def\<close>)
  then have "base_inv db'"
    by (rule base_cong) (simp_all add: db' fun_eq_iff history_log_event e_def)
  moreover have "consent_ok db'"
  proof -
    have req: "db_requests db' = row_save lr_pk r' (db_requests db)" "db_subs db' = map f (db_subs db)"
      by (simp_all add: db' db1_def)
    have pks: "lr_pk ` set (db_requests db') = lr_pk ` set (db_requests db)"
      unfolding req using map_key_row_save [of lr_pk r' "db_requests db"] by (metis set_map)
    have other: "sub_statuses db' k = sub_statuses db k" if "k \<noteq> lr_pk r" for k
      using that f by (auto simp: sub_statuses_def req image_iff f_def)
    have "Sub_rejected \<notin> sub_statuses db (lr_pk r)"
      using i(2) assms(2) st by (auto simp: consent_ok_def consent_for_def)
    then have no: "rs_status s \<noteq> Sub_rejected" if "s \<in> set (db_subs db)" "rs_request s = lr_pk r" for s
      using that sub_statusesI [of s db] by metis
    have own: "sub_statuses db' (lr_pk r) \<subseteq> {Sub_accepted, Sub_skipped}"
    proof
      fix x assume "x \<in> sub_statuses db' (lr_pk r)"
      then obtain s where "s \<in> set (db_subs db)" "rs_request s = lr_pk r" "x = rs_status (f s)"
        by (auto simp: sub_statuses_def req f)
      then show "x \<in> {Sub_accepted, Sub_skipped}"
        using no [of s] by (cases "rs_status s") (simp_all add: f_def)
    qed
    have "consent_for (lr_status x) (sub_statuses db' (lr_pk x))" if x: "x \<in> set (db_requests db')" for x
    proof -
      consider "x = r'" | "x \<in> set (db_requests db)" "lr_pk x \<noteq> lr_pk r"
        using row_save_mem [OF x [unfolded req(1)]] by (auto simp: r'_def)
      then show ?thesis
      proof cases
        case 1
        then show ?thesis using own by (simp add: consent_for_def r'_def)
      next
        case 2
        then show ?thesis using i(2) other [of "lr_pk x"] by (simp add: consent_ok_def)
      qed
    qed
    moreover have "rs_request ` set (db_subs db') \<subseteq> lr_pk ` set (db_requests db')"
      unfolding pks using i(2) f by (auto simp: consent_ok_def req)
    moreover have "distinct (map rs_pk (db_subs db'))"
      using i(2) f by (simp add: consent_ok_def req comp_def)
    ultimately show ?thesis by (simp add: consent_ok_def)
  qed
  ultimately show ?thesis by (simp add: leave_inv_def)
qed

end
