(* ===== verification/Leave_Workflow.thy ===== *)
theory Leave_Workflow
  imports Leave_Invariant
begin

text \<open>
  Submitting and editing keep the invariant too, so every reachable state of the leave database
  has it.  The step relation lists the endpoints; configuration (settings, users, types, chains,
  holidays, substitute lists) may change between any two of them.
\<close>

subsection \<open>Snapshots\<close>

lemma snapshot_rows_spec:
  fixes r :: leave_request
  assumes "t' = snapshot_rows db r i subs t"
  shows "distinct (map rs_pk t) \<Longrightarrow> distinct (map rs_pk t')"
    and "s \<in> set t \<Longrightarrow> s \<in> set t'"
    and "s \<in> set t' \<Longrightarrow> s \<in> set t \<or> rs_request s = lr_pk r \<and> rs_status s = Sub_pending"
    and "subs \<noteq> [] \<Longrightarrow> \<exists>s \<in> set t'. rs_request s = lr_pk r \<and> rs_status s = Sub_pending"
proof -
  have "(distinct (map rs_pk t) \<longrightarrow> distinct (map rs_pk t')) \<and> set t \<subseteq> set t'
    \<and> (\<forall>s \<in> set t'. s \<in> set t \<or> rs_request s = lr_pk r \<and> rs_status s = Sub_pending)
    \<and> (subs \<noteq> [] \<longrightarrow> (\<exists>s \<in> set t'. rs_request s = lr_pk r \<and> rs_status s = Sub_pending))"
    if "t' = snapshot_rows db r i subs t" for i subs t
    using that
  proof (induction db r i subs t rule: snapshot_rows.induct)
    case (1 db r index t)
    then show ?case by simp
  next
    case (2 db r index sub task subs t)
    define x where "x = \<lparr>rs_pk = next_pk rs_pk t, rs_request = lr_pk r, rs_substitute = sub, rs_task = task,
          rs_sort_order = index, rs_status = Sub_pending, rs_responded_at = None, rs_comment = [],
          rs_rate = rate_snapshot db (lr_employee r) sub task, rs_worked_days = [], rs_totals = [],
          rs_confirmed_by = None, rs_confirmed_at = None\<rparr>"
    have t': "t' = snapshot_rows db r (index + 1) subs (row_create x t)"
      using 2(2) by (simp add: x_def)
    have x: "rs_pk x \<notin> rs_pk ` set t" "rs_request x = lr_pk r" "rs_status x = Sub_pending"
      by (simp_all add: x_def)
    note ih = 2(1) [folded x_def, OF t']
    show ?case using ih x by auto
  qed
  from this [OF assms] show "distinct (map rs_pk t) \<Longrightarrow> distinct (map rs_pk t')"
    "s \<in> set t \<Longrightarrow> s \<in> set t'"
    "s \<in> set t' \<Longrightarrow> s \<in> set t \<or> rs_request s = lr_pk r \<and> rs_status s = Sub_pending"
    "subs \<noteq> [] \<Longrightarrow> \<exists>s \<in> set t'. rs_request s = lr_pk r \<and> rs_status s = Sub_pending"
    by blast+
qed

lemma snapshot_consent:
  assumes "distinct (map rs_pk (db_subs db))"
    and "rs_request ` set (db_subs db) \<subseteq> lr_pk ` set (db_requests db)"
    and "\<And>x. x \<in> set (db_requests db) \<Longrightarrow> lr_pk x \<noteq> lr_pk r \<Longrightarrow> consent_for (lr_status x) (sub_statuses db (lr_pk x))"
    and "\<And>x. x \<in> set (db_requests db) \<Longrightarrow> lr_pk x = lr_pk r \<Longrightarrow> lr_status x = Awaiting_substitutes"
    and "lr_pk r \<in> lr_pk ` set (db_requests db)" and "subs \<noteq> []"
  shows "consent_ok (snapshot db r subs actor)"
proof -
  define t where "t = filter (\<lambda>s. rs_request s \<noteq> lr_pk r) (db_subs db)"
  define t' where "t' = snapshot_rows db r 0 subs t"
  have d: "db_requests (snapshot db r subs actor) = db_requests db" "db_subs (snapshot db r subs actor) = t'"
    by (simp_all add: snapshot_def Let_def log_event_def t'_def t_def)
  note s = snapshot_rows_spec [OF t'_def]
  have "distinct (map rs_pk t')" using s(1) assms(1) by (simp add: t_def distinct_map_filter)
  moreover have "rs_request ` set t' \<subseteq> lr_pk ` set (db_requests db)"
  proof
    fix k assume "k \<in> rs_request ` set t'"
    then obtain s' where s': "s' \<in> set t'" "k = rs_request s'" by blast
    from s(3) [OF s'(1)] show "k \<in> lr_pk ` set (db_requests db)"
      using assms(2,5) s'(2) by (auto simp: t_def)
  qed
  moreover have "consent_for (lr_status x) (rs_status ` {s \<in> set t'. rs_request s = lr_pk x})"
    if x: "x \<in> set (db_requests db)" for x
  proof (cases "lr_pk x = lr_pk r")
    case True
    have "rs_status y = Sub_pending" if "y \<in> set t'" "rs_request y = lr_pk r" for y
      using s(3) [OF that(1)] that(2) by (auto simp: t_def)
    moreover obtain y where "y \<in> set t'" "rs_request y = lr_pk r" "rs_status y = Sub_pending"
      using s(4) [OF assms(6)] by blast
    ultimately have "rs_status ` {s \<in> set t'. rs_request s = lr_pk x} = {Sub_pending}"
      using True by auto
    then show ?thesis using assms(4) [OF x True] by (simp add: consent_for_def)
  next
    case False
    have "{s \<in> set t'. rs_request s = lr_pk x} = {s \<in> set (db_subs db). rs_request s = lr_pk x}"
    proof (intro equalityI subsetI)
      fix y assume "y \<in> {s \<in> set t'. rs_request s = lr_pk x}"
      then show "y \<in> {s \<in> set (db_subs db). rs_request s = lr_pk x}"
        using s(3) [of y] False by (auto simp: t_def)
    next
      fix y assume "y \<in> {s \<in> set (db_subs db). rs_request s = lr_pk x}"
      then show "y \<in> {s \<in> set t'. rs_request s = lr_pk x}"
        using s(2) [of y] False by (auto simp: t_def)
    qed
    then show ?thesis using assms(3) [OF x False] by (simp add: sub_statuses_def)
  qed
  ultimately show ?thesis by (simp add: consent_ok_def sub_statuses_def d)
qed

lemma snapshot_base: "base_inv db \<Longrightarrow> base_inv (snapshot db r subs actor)"
proof -
  assume b: "base_inv db"
  have "history_of (snapshot db r subs actor) = history_of db"
    unfolding snapshot_def Let_def by (simp add: fun_eq_iff history_log_event) (simp add: history_of_def)
  then show ?thesis
    by (intro base_cong [OF b]) (simp_all add: snapshot_def Let_def log_event_def)
qed

subsection \<open>Submitting\<close>

lemma validate_create_facts:
  assumes "validate_create db u ty s e rows = (db1, Inr (days, subs))"
  shows "s \<le> e" "0 \<le> days" "check_overlapping_leaves u s e db None = None"
  using assms
  by (auto simp: validate_create_def Let_def split: if_splits option.splits prod.splits sum.splits)

lemma no_overlap_disjoint:
  assumes "check_overlapping_leaves u s e db exclude = None" and "s \<le> e"
    and "\<forall>r \<in> set (db_requests db). lr_start r \<le> lr_end r"
    and "x \<in> set (db_requests db)" "lr_employee x = u" "active_request x" "not_excluded exclude x"
  shows "lr_end x < s \<or> e < lr_start x"
  using no_overlap_iff [OF assms(2,3)] assms(1,4-7) by blast

lemma dates_ok_insert:
  assumes "dates_ok rs" and "\<And>x. x \<in> set rs \<Longrightarrow> lr_pk x \<noteq> lr_pk r \<Longrightarrow> lr_employee x = lr_employee r \<Longrightarrow>
      active_request x \<Longrightarrow> disjoint_dates x r"
    and "\<And>x. x \<in> set rs' \<Longrightarrow> x = r \<or> x \<in> set rs"
  shows "dates_ok rs'"
  unfolding dates_ok_def
proof (intro ballI impI)
  have sym: "disjoint_dates a b \<Longrightarrow> disjoint_dates b a" for a b by (auto simp: disjoint_dates_def)
  fix a b assume a: "a \<in> set rs'" and b: "b \<in> set rs'"
    and h: "lr_pk a \<noteq> lr_pk b \<and> lr_employee a = lr_employee b \<and> active_request a \<and> active_request b"
  consider "a = r" "b \<in> set rs" | "b = r" "a \<in> set rs" | "a \<in> set rs" "b \<in> set rs"
    using assms(3) [OF a] assms(3) [OF b] h by blast
  then show "disjoint_dates a b"
  proof cases
    case 1
    then show ?thesis using assms(2) [of b] h sym by auto
  next
    case 2
    then show ?thesis using assms(2) [of a] h by auto
  next
    case 3
    then show ?thesis using assms(1) h by (auto simp: dates_ok_def)
  qed
qed

lemma create_leave_inv:
  assumes "leave_inv db" and "create_leave db u ty s e reason rows = (db', res)"
  shows "leave_inv db'"
proof -
  obtain db1 out where v: "validate_create db u ty s e rows = (db1, out)" by (metis surj_pair)
  have core: "core_same db db1" by (rule validate_create_core [OF v])
  then have inv1: "leave_inv db1" using core_same_inv assms(1) by blast
  show ?thesis
  proof (cases out)
    case (Inl err)
    then show ?thesis using assms(2) v inv1 by (simp add: create_leave_def)
  next
    case (Inr p)
    then obtain days subs where p: "out = Inr (days, subs)" by (cases p) auto
    note f = validate_create_facts [OF v [unfolded p]]
    note i = leave_invD [OF inv1]
    define r where "r = new_request db1 u ty s e days reason (if subs \<noteq> [] then Awaiting_substitutes else Pending)"
    have r: "lr_pk r = next_pk lr_pk (db_requests db1)" "lr_employee r = u" "lr_start r = s" "lr_end r = e"
      "lr_days r = days" "lr_status r = (if subs \<noteq> [] then Awaiting_substitutes else Pending)"
      by (simp_all add: r_def new_request_def)
    have fresh: "lr_pk r \<notin> lr_pk ` set (db_requests db1)" by (simp add: r)
    define db2 where "db2 = update_leave_balance (create_request None r db1) r Act_pending"
    have req: "db_requests db2 = row_create r (db_requests db1)" "db_subs db2 = db_subs db1"
      by (simp_all add: db2_def)
    have held: "request_bucket r = Held" by (simp add: request_bucket_def r)
    have "lg.balanced (row_create r (db_requests db1)) (update_leave_balance db1 r Act_pending)"
      by (rule lg.balanced_create [OF i(4) held])
    then have bal: "lg.balanced (row_create r (db_requests db1)) db2"
      unfolding db2_def by (rule balanced_post_of_balances) simp
    have "audited (create_request None r db1)" by (rule audited_create [OF i(7) fresh])
    then have aud: "audited db2" unfolding db2_def by (rule audited_cong) simp_all
    have "row_ok r" using f by (simp add: row_ok_def r) (simp add: coherent_def r_def new_request_def)
    then have rows: "\<forall>x \<in> set (row_create r (db_requests db1)). row_ok x" using i(3) by auto
    have "db_requests db1 = db_requests db" using core by (simp add: core_same_def)
    moreover have "\<forall>x \<in> set (db_requests db). lr_start x \<le> lr_end x"
      using leave_invD(3) [OF assms(1)] by (auto simp: row_ok_def)
    ultimately have disj: "disjoint_dates x r"
      if "x \<in> set (db_requests db1)" "lr_employee x = lr_employee r" "active_request x" for x
      using no_overlap_disjoint [OF f(3,1), of x] that
      by (auto simp: disjoint_dates_def r not_excluded_def)
    have dates: "dates_ok (row_create r (db_requests db1))"
      by (rule dates_ok_insert [OF i(5), of r]) (auto intro: disj)
    have keys: "distinct (map lb_key (db_balances db2))"
      unfolding db2_def using i(2) by (intro distinct_update) simp
    have pks: "distinct (map lr_pk (row_create r (db_requests db1)))"
      using i(1) fresh by (simp only: distinct_row_create) blast
    have base: "base_inv db2"
      unfolding base_inv_def req using bal aud rows dates keys pks by blast
    have none: "sub_statuses db1 (lr_pk r) = {}"
    proof (rule ccontr)
      assume "sub_statuses db1 (lr_pk r) \<noteq> {}"
      then obtain x where "x \<in> set (db_subs db1)" "rs_request x = lr_pk r"
        unfolding sub_statuses_def by blast
      then have "lr_pk r \<in> rs_request ` set (db_subs db1)" by (metis imageI)
      then show False using i(6) fresh unfolding consent_ok_def by blast
    qed
    have db': "db' = (if subs \<noteq> [] then snapshot db2 r subs (Some u) else db2)"
      using assms(2) v p by (auto simp: create_leave_def Let_def db2_def r_def)
    show ?thesis
    proof (cases "subs = []")
      case True
      have "consent_ok db2"
        using i(6) none True unfolding consent_ok_def req sub_statuses_cong [OF req(2)]
        by (auto simp: r consent_for_def)
      then show ?thesis using base True by (simp add: db' leave_inv_def)
    next
      case False
      have "consent_ok (snapshot db2 r subs (Some u))"
      proof (rule snapshot_consent)
        show "distinct (map rs_pk (db_subs db2))" using i(6) by (simp add: req consent_ok_def)
        show "rs_request ` set (db_subs db2) \<subseteq> lr_pk ` set (db_requests db2)"
          using i(6) by (auto simp: req consent_ok_def)
        show "consent_for (lr_status x) (sub_statuses db2 (lr_pk x))"
          if "x \<in> set (db_requests db2)" "lr_pk x \<noteq> lr_pk r" for x
          using that i(6) by (auto simp: req consent_ok_def sub_statuses_cong [OF req(2)])
        show "lr_status x = Awaiting_substitutes" if "x \<in> set (db_requests db2)" "lr_pk x = lr_pk r" for x
          using that fresh False by (auto simp: req r image_iff)
      qed (use False in \<open>simp_all add: req\<close>)
      then show ?thesis using snapshot_base [OF base] False by (simp add: db' leave_inv_def)
    qed
  qed
qed

subsection \<open>Editing\<close>

lemma validate_update_facts:
  assumes "validate_update db r p = Inr (days, subs)"
  defines "r1 \<equiv> patched r p days"
  shows "lr_status r \<in> {Pending, Awaiting_substitutes}"
    and "lr_start r1 = lr_start r \<and> lr_end r1 = lr_end r \<and> lr_days r1 = lr_days r \<and> subs = []
      \<or> lr_start r1 \<le> lr_end r1 \<and> 0 \<le> lr_days r1 \<and>
        check_overlapping_leaves (lr_employee r) (lr_start r1) (lr_end r1) db (Some (lr_pk r)) = None"
proof -
  show st: "lr_status r \<in> {Pending, Awaiting_substitutes}"
    using assms(1) by (auto simp: validate_update_def editable_statuses_def split: if_splits)
  show "lr_start r1 = lr_start r \<and> lr_end r1 = lr_end r \<and> lr_days r1 = lr_days r \<and> subs = []
      \<or> lr_start r1 \<le> lr_end r1 \<and> 0 \<le> lr_days r1 \<and>
        check_overlapping_leaves (lr_employee r) (lr_start r1) (lr_end r1) db (Some (lr_pk r)) = None"
  proof (cases "rp_start p = None \<and> rp_end p = None")
    case True
    then show ?thesis
      using assms(1) unfolding r1_def by (auto simp: validate_update_def patched_def split: if_splits)
  next
    case False
    define s where "s = (case rp_start p of Some d \<Rightarrow> d | None \<Rightarrow> lr_start r)"
    define e where "e = (case rp_end p of Some d \<Rightarrow> d | None \<Rightarrow> lr_end r)"
    have "\<not> e < s \<and> check_overlapping_leaves (lr_employee r) s e db (Some (lr_pk r)) = None
        \<and> days = Some (calculate_working_days s e db True)"
      using assms(1) False unfolding validate_update_def Let_def s_def [symmetric] e_def [symmetric]
      by (auto split: if_splits option.splits)
    then show ?thesis unfolding r1_def by (simp add: patched_def s_def e_def)
  qed
qed

lemma base_inv_edit:
  assumes "base_inv db" and "r0 \<in> set (db_requests db)" and "lr_pk r = lr_pk r0"
    and "row_ok r"
    and "\<And>x. x \<in> set (db_requests db) \<Longrightarrow> lr_pk x \<noteq> lr_pk r \<Longrightarrow> lr_employee x = lr_employee r \<Longrightarrow>
      active_request x \<Longrightarrow> disjoint_dates x r"
    and "db_requests db' = row_save lr_pk r (db_requests db)"
    and "lg.balanced (row_save lr_pk r (db_requests db)) db'"
    and "distinct (map lb_key (db_balances db'))" and "audited db'"
  shows "base_inv db'"
proof -
  note i = base_invD [OF assms(1)]
  have "\<forall>x \<in> set (row_save lr_pk r (db_requests db)). row_ok x"
    using i(3) assms(4) by (auto dest: row_save_mem)
  moreover have "dates_ok (row_save lr_pk r (db_requests db))"
    by (rule dates_ok_insert [OF i(5) assms(5)]) (auto dest: row_save_mem)
  ultimately show ?thesis
    unfolding base_inv_def assms(6) using assms(7-9) i(1) by (simp only: map_key_row_save)
qed

lemma patched_frame [simp]:
  "lr_pk (patched r p days) = lr_pk r" "lr_employee (patched r p days) = lr_employee r"
  "lr_type (patched r p days) = lr_type r" "lr_status (patched r p days) = lr_status r"
  "coherent (patched r p days) \<longleftrightarrow> coherent r"
  by (simp_all add: patched_def coherent_def)

lemma apply_update_inv:
  assumes "leave_inv db" and "r \<in> set (db_requests db)" and "validate_update db r p = Inr (days, subs)"
  shows "leave_inv (apply_update db r p days subs)"
proof -
  have ib: "base_inv db" "consent_ok db" using assms(1) by (simp_all add: leave_inv_def)
  note i = leave_invD [OF assms(1)]
  define r1 where "r1 = patched r p days"
  note f = validate_update_facts [OF assms(3), folded r1_def]
  have r1: "lr_pk r1 = lr_pk r" "lr_employee r1 = lr_employee r" "lr_type r1 = lr_type r"
    "lr_status r1 = lr_status r" "coherent r1" "lr_type r1 = lr_type r"
    using coherent_of [OF assms(1,2)] by (simp_all add: r1_def)
  have old: "row_ok r" by (rule i(3) [OF assms(2)])
  have held: "request_bucket r = Held" "request_bucket r1 = Held"
    using f(1) r1(4) by (auto simp: request_bucket_def)
  have ok: "row_ok r1" using f(2) old r1(5) by (auto simp: row_ok_def)
  have spans: "\<forall>x \<in> set (db_requests db). lr_start x \<le> lr_end x" using i(3) by (auto simp: row_ok_def)
  have act: "active_request r" using held by (simp add: active_bucket)
  have disj: "disjoint_dates x r1"
    if x: "x \<in> set (db_requests db)" "lr_pk x \<noteq> lr_pk r1" "lr_employee x = lr_employee r1" "active_request x" for x
    using f(2)
  proof (elim disjE conjE)
    assume "lr_start r1 = lr_start r" "lr_end r1 = lr_end r"
    moreover have "disjoint_dates x r"
      using i(5) x assms(2) act unfolding dates_ok_def r1 by blast
    ultimately show ?thesis by (simp add: disjoint_dates_def)
  next
    assume "lr_start r1 \<le> lr_end r1"
      "check_overlapping_leaves (lr_employee r) (lr_start r1) (lr_end r1) db (Some (lr_pk r)) = None"
    from no_overlap_disjoint [OF this(2,1) spans x(1) _ x(4)] x show ?thesis
      by (auto simp: disjoint_dates_def not_excluded_def r1)
  qed
  define moves where "moves \<longleftrightarrow> lr_days r1 \<noteq> lr_days r \<or> year_of (lr_start r1) \<noteq> year_of (lr_start r)"
  define db1 where "db1 = (if moves then update_leave_balance db r Act_cancel else db)"
  define db2 where "db2 = save_request None [] r1 db1"
  define db3 where "db3 = (if moves then update_leave_balance db2 r1 Act_pending else db2)"
  have req1: "db_requests db1 = db_requests db" "db_subs db1 = db_subs db" "db_events db1 = db_events db"
    by (simp_all add: db1_def)
  have req3: "db_requests db3 = row_save lr_pk r1 (db_requests db)" "db_subs db3 = db_subs db"
    by (simp_all add: db3_def db2_def req1)
  have keys: "distinct (map lb_key (db_balances db3))"
    unfolding db3_def db2_def db1_def using i(2) by (auto intro!: distinct_update)
  have get: "get_request db1 (lr_pk r1) = Some r"
    using get_request_stored [OF i(1) assms(2), of r1] by (simp add: get_request_def req1 r1)
  have "audited db1" by (rule audited_cong [OF i(7)]) (simp_all add: req1)
  then have "audited db2" unfolding db2_def by (rule audited_save [OF _ get]) (simp add: req1 i(1))
  then have aud: "audited db3" unfolding db3_def by (auto intro: audited_cong)
  have bal: "lg.balanced (row_save lr_pk r1 (db_requests db)) db3"
  proof (cases moves)
    case True
    have "lg.balanced (row_save lr_pk r1 (db_requests db))
        (update_leave_balance (update_leave_balance db r Act_cancel) r1 Act_pending)"
      by (rule lg.balanced_edit [OF i(4,8,1) assms(2)]) (simp_all add: r1 held)
    then have "lg.balanced (row_save lr_pk r1 (db_requests db)) (update_leave_balance db2 r1 Act_pending)"
      by (rule balanced_post_of_balances) (simp add: db2_def db1_def True)
    then show ?thesis by (simp add: db3_def True)
  next
    case False
    have "lg.balanced (row_save lr_pk r1 (db_requests db)) db"
      by (rule lg.balanced_keep [OF i(4,1) assms(2)])
        (use False r1 held in \<open>simp_all add: moves_def request_key_def\<close>)
    then show ?thesis by (rule balanced_of_balances) (simp add: db3_def db2_def db1_def False)
  qed
  have base3: "base_inv db3"
    by (rule base_inv_edit [OF ib(1) assms(2) r1(1) ok disj req3(1) bal keys aud])
  have cons: "consent_for (lr_status r1) (sub_statuses db (lr_pk r1))"
    using ib(2) assms(2) r1 by (simp add: consent_ok_def)
  have con3: "consent_ok db3" by (rule consent_save [OF ib(2) req3(2,1) cons])
  define again where "again = (if lr_start r1 = lr_start r \<and> lr_end r1 = lr_end r then [] else subs)"
  define r2 where "r2 = r1\<lparr>lr_status := Awaiting_substitutes\<rparr>"
  have e: "apply_update db r p days subs =
      (if again = [] then db3
       else snapshot (save_request (Some (lr_employee r)) [] r2 db3) r2 again (Some (lr_employee r)))"
    unfolding apply_update_def Let_def again_def r2_def db3_def db2_def db1_def moves_def r1_def by simp
  show ?thesis
  proof (cases "again = []")
    case True
    then show ?thesis using base3 con3 by (simp add: e leave_inv_def)
  next
    case False
    have mem: "r1 \<in> set (db_requests db3)"
      unfolding req3(1) using assms(2) r1(1) by (auto simp: set_row_save image_iff)
    have base4: "base_inv (save_request (Some (lr_employee r)) [] r2 db3)"
      by (rule base_save_no_post [OF base3 mem])
        (use r1 held f(1) in \<open>auto simp: r2_def same_shape_def coherent_def request_bucket_def active_request_iff\<close>)
    have req4: "db_requests (save_request (Some (lr_employee r)) [] r2 db3) = row_save lr_pk r2 (db_requests db3)"
      by simp
    have "consent_ok (snapshot (save_request (Some (lr_employee r)) [] r2 db3) r2 again (Some (lr_employee r)))"
    proof (rule snapshot_consent)
      let ?d = "save_request (Some (lr_employee r)) [] r2 db3"
      have pks: "lr_pk ` set (db_requests ?d) = lr_pk ` set (db_requests db3)"
        using map_key_row_save [of lr_pk r2 "db_requests db3"] by (metis req4 set_map)
      show "distinct (map rs_pk (db_subs ?d))" using con3 by (simp add: consent_ok_def)
      show "rs_request ` set (db_subs ?d) \<subseteq> lr_pk ` set (db_requests ?d)"
        unfolding pks using con3 by (simp add: consent_ok_def)
      show "lr_pk r2 \<in> lr_pk ` set (db_requests ?d)"
        unfolding pks using mem by (auto simp: r2_def)
      show "consent_for (lr_status x) (sub_statuses ?d (lr_pk x))"
        if "x \<in> set (db_requests ?d)" "lr_pk x \<noteq> lr_pk r2" for x
        using row_save_mem [OF that(1) [unfolded req4]] that(2) con3 sub_statuses_cong [of ?d db3]
        by (auto simp: consent_ok_def)
      show "lr_status x = Awaiting_substitutes" if "x \<in> set (db_requests ?d)" "lr_pk x = lr_pk r2" for x
        using row_save_mem [OF that(1) [unfolded req4]] that(2) by (auto simp: r2_def)
    qed (rule False)
    then show ?thesis using snapshot_base [OF base4] False by (simp add: e leave_inv_def)
  qed
qed

subsection \<open>Accrual and carry forward\<close>

lemma ledger_sameI:
  assumes "\<And>k. (case get_balance db' k of None \<Rightarrow> (0, 0) | Some b \<Rightarrow> (lb_pending b, lb_used b))
      = (case get_balance db k of None \<Rightarrow> (0, 0) | Some b \<Rightarrow> (lb_pending b, lb_used b))"
    and "distinct (map lb_key (db_balances db)) \<Longrightarrow> distinct (map lb_key (db_balances db'))"
  shows "ledger_same db db'"
proof -
  have "pending_at db' k = pending_at db k \<and> used_at db' k = used_at db k" for k
    using assms(1) [of k] by (auto simp: pending_at_def used_at_def split: option.splits)
  then show ?thesis using assms(2) by (auto simp: ledger_same_def)
qed

lemma get_or_create_core:
  assumes "get_or_create_balance k d (db_balances db) = (b, c, t)"
  shows "core_same db (db\<lparr>db_balances := t\<rparr>)"
proof (rule core_same_balances, rule ledger_sameI)
  fix k'
  show "(case get_balance (db\<lparr>db_balances := t\<rparr>) k' of None \<Rightarrow> (0, 0) | Some b \<Rightarrow> (lb_pending b, lb_used b))
      = (case get_balance db k' of None \<Rightarrow> (0, 0) | Some b \<Rightarrow> (lb_pending b, lb_used b))"
    using get_or_create_spec(3,4) [OF assms] by (auto simp: get_balance_def split: option.splits)
next
  assume "distinct (map lb_key (db_balances db))"
  then show "distinct (map lb_key (db_balances (db\<lparr>db_balances := t\<rparr>)))"
    using get_or_create_distinct [OF _ assms] by simp
qed

lemma process_accrual_core:
  assumes "process_accrual store db u ty d = (db', days)"
  shows "core_same db db'"
proof (cases "lt_method ty = Accrual")
  case False
  then show ?thesis using assms by (simp add: process_accrual_def core_same_refl)
next
  case True
  obtain b c t where g: "get_or_create_balance (u_pk u, lt_pk ty, year_of d) 0 (db_balances db) = (b, c, t)"
    by (metis prod_cases3)
  let ?d = "db\<lparr>db_balances := t\<rparr>"
  have c1: "core_same db ?d" by (rule get_or_create_core [OF g])
  have key: "lb_key b = (u_pk u, lt_pk ty, year_of d)" "get_balance ?d (lb_key b) = Some b"
    using get_or_create_spec(1,2) [OF g] by (simp_all add: get_balance_def)
  have save: "core_same ?d (?d\<lparr>db_balances := row_save lb_key
      (b\<lparr>lb_allocated := x, lb_last_accrual := y\<rparr>) (db_balances ?d)\<rparr>)" for x y
    by (rule save_balance_core [of _ _ b]) (use key in \<open>simp_all add: lb_key_def\<close>)
  show ?thesis
    using assms True g c1 core_same_trans [OF c1 save]
    by (auto simp: process_accrual_def Let_def split: if_splits)
qed

lemma carry_balance_core:
  assumes "core_same db (db\<lparr>db_balances := fst acc\<rparr>)"
  shows "core_same db (db\<lparr>db_balances := fst (carry_balance ty y old acc)\<rparr>)"
proof (rule core_same_trans [OF assms])
  obtain t c where acc: "acc = (t, c)" by (cases acc)
  have g: "row_get lb_key k (fst (carry_balance ty y old acc))
      = (if k = carry_target y (ty, old) then carried_row y (ty, old) (row_get lb_key k t) else row_get lb_key k t)" for k
    using carry_balance_get [where p = "(ty, old)" and y = y and t = t and c = c and k = k] by (simp add: acc)
  have d: "distinct (map lb_key (fst (carry_balance ty y old acc)))" if "distinct (map lb_key t)"
    using that carry_balance_fst [where p = "(ty, old)" and y = y and t = t and c = c]
    by (auto simp: acc carried_row_def Let_def row_get_None split: option.splits)
  have "core_same (db\<lparr>db_balances := t\<rparr>) ((db\<lparr>db_balances := t\<rparr>)\<lparr>db_balances := fst (carry_balance ty y old acc)\<rparr>)"
    by (rule core_same_balances, rule ledger_sameI)
      (auto simp: get_balance_def g d carried_row_def Let_def split: option.splits)
  then show "core_same (db\<lparr>db_balances := fst acc\<rparr>) (db\<lparr>db_balances := fst (carry_balance ty y old acc)\<rparr>)"
    by (simp add: acc)
qed

lemma fold_core:
  assumes "\<And>x acc. core_same db (db\<lparr>db_balances := fst acc\<rparr>) \<Longrightarrow> core_same db (db\<lparr>db_balances := fst (f x acc)\<rparr>)"
  shows "core_same db (db\<lparr>db_balances := fst acc\<rparr>) \<Longrightarrow> core_same db (db\<lparr>db_balances := fst (fold f xs acc)\<rparr>)"
  by (induction xs arbitrary: acc) (simp_all add: assms)

lemma carry_forward_core:
  assumes "carry_forward_balances db from_year to_year user force = Inr (db', run, n)"
  shows "core_same db db'"
proof -
  obtain t c tot where f: "fold (carry_type from_year to_year) (carry_types db) (db_balances db, 0, 0) = (t, c, tot)"
    by (metis prod_cases3)
  have "core_same db (db\<lparr>db_balances := fst (fold (carry_type from_year to_year) (carry_types db) (db_balances db, 0, 0))\<rparr>)"
    by (rule fold_core) (simp_all add: carry_type_def fold_core carry_balance_core core_same_refl)
  then have t: "core_same db (db\<lparr>db_balances := t\<rparr>)" by (simp add: f)
  obtain runs where "db' = db\<lparr>db_balances := t, db_runs := runs\<rparr>"
    using assms f by (auto simp: carry_forward_balances_def Let_def split: option.splits if_splits)
  then show ?thesis
    using t by (simp add: core_same_def ledger_same_def history_of_def pending_at_def used_at_def
        get_balance_def fun_eq_iff)
qed

subsection \<open>The step relation\<close>

definition leave_init :: "leave_db \<Rightarrow> bool" where
  "leave_init db \<longleftrightarrow> db_requests db = [] \<and> db_balances db = [] \<and> db_subs db = [] \<and> db_events db = []"

text \<open>
  One endpoint call.  Times, texts and users are arbitrary; a refused call of the endpoints
  whose result type carries no database changes nothing and is no step.  A balance that an
  administrator creates starts without used and pending days, and one that an administrator deletes
  has none; what happens otherwise is \<open>posted_balance_off_ledger\<close> below.  \<open>configure\<close> is any
  change of the tables the workflow only reads.
\<close>

inductive leave_step :: "leave_db \<Rightarrow> leave_db \<Rightarrow> bool" where
  submit: "create_leave db u ty s e reason rows = (db', res) \<Longrightarrow> leave_step db db'"
| previewed: "preview db u lt s e = (db', out) \<Longrightarrow> leave_step db db'"
| edit: "employee_update db usr k p = Inr db' \<Longrightarrow> leave_step db db'"
| withdraw: "employee_destroy db usr k = Inr db' \<Longrightarrow> leave_step db db'"
| cancel: "employee_cancel db usr k txt now = Inr db' \<Longrightarrow> leave_step db db'"
| answer: "covering_respond db usr k act txt now = Inr db' \<Longrightarrow> leave_step db db'"
| team_approve: "manager_approve db usr k act txt now = Inr db' \<Longrightarrow> leave_step db db'"
| team_reject: "manager_reject db usr k act txt now = Inr db' \<Longrightarrow> leave_step db db'"
| office_edit: "admin_update db usr k p = Inr db' \<Longrightarrow> leave_step db db'"
| office_approve: "admin_approve db usr k act txt now = Inr db' \<Longrightarrow> leave_step db db'"
| office_reject: "admin_reject db usr k act txt now = Inr db' \<Longrightarrow> leave_step db db'"
| office_cancel: "admin_cancel db usr k txt now = Inr db' \<Longrightarrow> leave_step db db'"
| office_delete: "admin_destroy db usr k = Inr db' \<Longrightarrow> leave_step db db'"
| office_skip: "admin_skip_substitutes db usr k txt now = Inr db' \<Longrightarrow> leave_step db db'"
| office_balance: "admin_update_balance db usr key al ca = Inr db' \<Longrightarrow> leave_step db db'"
| office_post: "admin_create_balance db usr b = Inr db' \<Longrightarrow> lb_used b = 0 \<Longrightarrow> lb_pending b = 0 \<Longrightarrow> leave_step db db'"
| office_drop: "admin_delete_balance db usr key = Inr db' \<Longrightarrow> used_at db key = 0 \<Longrightarrow> pending_at db key = 0 \<Longrightarrow>
    leave_step db db'"
| office_type: "destroy_leave_type db usr t = Inr db' \<Longrightarrow> leave_step db db'"
| allocate: "initialize_leave_balances_for_user db u year = (db', n) \<Longrightarrow> leave_step db db'"
| accrue: "process_accrual store db usr lt d = (db', days) \<Longrightarrow> leave_step db db'"
| carry: "carry_forward_balances db y1 y2 actor force = Inr (db', run, count) \<Longrightarrow> leave_step db db'"
| configure: "db_requests db' = db_requests db \<Longrightarrow> db_balances db' = db_balances db \<Longrightarrow>
    db_subs db' = db_subs db \<Longrightarrow> history_of db' = history_of db \<Longrightarrow> leave_step db db'"

lemma own_request_mem: "own_request db u k = Inr r \<Longrightarrow> r \<in> set (db_requests db)"
  by (auto simp: own_request_def dest: get_request_mem split: option.splits if_splits)

lemma team_request_mem: "team_request db u k = Inr r \<Longrightarrow> r \<in> set (db_requests db)"
  by (auto simp: team_request_def dest: get_request_mem split: option.splits if_splits)

lemma admin_request_mem: "admin_request db u k = Inr r \<Longrightarrow> r \<in> set (db_requests db)"
  by (auto simp: admin_request_def dest: get_request_mem split: option.splits if_splits)

lemmas request_mem = own_request_mem team_request_mem admin_request_mem

lemma next_role_open: "get_next_approver_role db r = Some x \<Longrightarrow> lr_status r \<in> set approval_statuses"
  using next_role_closed [of r db] by auto

lemma delete_open_inv:
  assumes "leave_inv db" and "r \<in> set (db_requests db)" and "lr_status r \<in> set editable_statuses"
  shows "leave_inv (delete_request r (update_leave_balance db r Act_cancel))"
  using assms by (intro delete_inv) (auto simp: editable_statuses_def)

lemma leave_step_inv:
  assumes "leave_inv db" and "leave_step db db'"
  shows "leave_inv db'"
  using assms(2,1)
proof cases
  case submit
  then show ?thesis using assms(1) create_leave_inv by blast
next
  case previewed
  then show ?thesis using assms(1) core_same_inv preview_core by blast
next
  case edit
  then show ?thesis
    using assms(1) by (auto simp: employee_update_def intro: apply_update_inv request_mem
        split: sum.splits prod.splits if_splits)
next
  case withdraw
  then show ?thesis
    using assms(1) by (auto simp: employee_destroy_def intro: delete_open_inv request_mem
        split: sum.splits if_splits)
next
  case cancel
  then show ?thesis
    using assms(1) by (auto simp: employee_cancel_def intro!: cancel_locked_inv intro: request_mem
        split: sum.splits if_splits)
next
  case answer
  then show ?thesis
    using assms(1) by (auto simp: covering_respond_def intro: respond_inv dest: get_request_mem
        split: option.splits sum.splits if_splits)
next
  case team_approve
  then show ?thesis
    using assms(1) by (auto simp: manager_approve_def intro: approve_locked_inv request_mem next_role_open
        simp del: approval_statuses_iff split: sum.splits if_splits)
next
  case team_reject
  then show ?thesis
    using assms(1) by (auto simp: manager_reject_def manager_can_reject_def intro!: reject_locked_inv
        intro: request_mem split: sum.splits if_splits)
next
  case office_edit
  then show ?thesis
    using assms(1) by (auto simp: admin_update_def update_request_def intro: apply_update_inv request_mem
        split: sum.splits prod.splits)
next
  case office_approve
  then show ?thesis
    using assms(1) by (auto simp: admin_approve_def intro: approve_locked_inv request_mem
        simp del: approval_statuses_iff split: sum.splits if_splits)
next
  case office_reject
  then show ?thesis
    using assms(1) by (auto simp: admin_reject_def intro!: reject_locked_inv intro: request_mem
        split: sum.splits if_splits)
next
  case office_cancel
  then show ?thesis
    using assms(1) by (auto simp: admin_cancel_def intro!: cancel_locked_inv intro: request_mem
        split: sum.splits if_splits)
next
  case office_delete
  then show ?thesis
    using assms(1) by (auto simp: admin_destroy_def Let_def intro: delete_inv request_mem
        simp del: open_statuses_iff split: sum.splits)
next
  case office_skip
  then show ?thesis
    using assms(1) by (auto simp: admin_skip_substitutes_def intro: skip_pending_inv dest: get_request_mem
        split: option.splits sum.splits if_splits)
next
  case office_balance
  then show ?thesis using assms(1) core_same_inv admin_update_balance_core by blast
next
  case office_post
  then show ?thesis using assms(1) core_same_inv admin_create_balance_core by blast
next
  case office_drop
  then show ?thesis using assms(1) core_same_inv admin_delete_balance_core by blast
next
  case office_type
  then show ?thesis using assms(1) core_same_inv destroy_leave_type_core by blast
next
  case allocate
  then show ?thesis using assms(1) core_same_inv initialize_core by blast
next
  case accrue
  then show ?thesis using assms(1) core_same_inv process_accrual_core by blast
next
  case carry
  then show ?thesis using assms(1) core_same_inv carry_forward_core by blast
next
  case configure
  then have "core_same db db'"
    using ledger_of_balances [of db' db] by (simp add: core_same_def ledger_same_def)
  then show ?thesis using assms(1) core_same_inv by blast
qed

lemma leave_init_inv: "leave_init db \<Longrightarrow> leave_inv db"
  by (simp add: leave_init_def leave_inv_def base_inv_def lg.balanced_def dates_ok_def consent_ok_def
      audited_def history_of_def pending_at_def used_at_def get_balance_def row_get_def)

interpretation lw: invariant_system leave_init leave_step leave_inv
  by unfold_locales (auto intro: leave_init_inv leave_step_inv)

subsection \<open>A concrete run\<close>

text \<open>The employee of the sample tenant submits three days in March 2026.\<close>

definition allocated_db :: leave_db where
  "allocated_db = fst (initialize_leave_balances_for_user sample_db 1 2026)"

definition submitted_db :: leave_db where
  "submitted_db = fst (create_leave sample_db 1 1 739677 739679 ''trip'' [])"

lemma sample_working_days: "calculate_working_days 739677 739679 sample_db True = 3"
  by (simp add: calculate_working_days_def working_dates_def holiday_dates_def weekend_days_def
      sample_db_def sample_settings_def working_loop.simps weekday_def)

lemma sample_check: "check_leave_balance sample_db 1 1 3 2026 = (allocated_db, None)"
proof -
  have "get_balance sample_db (1, 1, 2026) = None"
    by (simp add: sample_db_def get_balance_def row_get_def)
  moreover have "get_balance allocated_db (1, 1, 2026) = Some (new_balance (1, 1, 2026) 24)"
    by (simp add: allocated_db_def initialize_leave_balances_for_user_def get_or_create_balance_def
        get_balance_def row_get_def row_create_def sample_db_def annual_leave_def
        accrual_leave_def Let_def)
  ultimately show ?thesis
    by (simp add: check_leave_balance_def balance_verdict_def available_days_def allocated_db_def Let_def)
qed

lemma initialize_fields:
  assumes "initialize_leave_balances_for_user db u y = (d, n)"
  shows "db_requests d = db_requests db" "db_settings d = db_settings db" "db_events d = db_events db"
    "db_subs d = db_subs db" "db_types d = db_types db" "db_users d = db_users db"
    "db_chains d = db_chains db" "db_holidays d = db_holidays db"
proof -
  obtain t where "d = db\<lparr>db_balances := t\<rparr>" using initialize_frame(3) [OF assms] by blast
  then show "db_requests d = db_requests db" "db_settings d = db_settings db" "db_events d = db_events db"
    "db_subs d = db_subs db" "db_types d = db_types db" "db_users d = db_users db"
    "db_chains d = db_chains db" "db_holidays d = db_holidays db" by simp_all
qed

lemma allocated_frame: "db_requests allocated_db = []" "db_settings allocated_db = Some sample_settings"
  "db_events allocated_db = []" "db_subs allocated_db = []"
  "db_types allocated_db = [annual_leave, accrual_leave]" "db_holidays allocated_db = []"
  "db_chains allocated_db = []" "db_users allocated_db = [employee_1, manager_2, staff_3]"
  unfolding allocated_db_def initialize_fields [OF prod.collapse [symmetric]]
  by (simp_all add: sample_db_def)

lemma sample_validate:
  "validate_create sample_db 1 1 739677 739679 [] = (allocated_db, Inr (3, []))"
proof -
  have "get_type sample_db 1 = Some annual_leave"
    by (simp add: get_type_def row_get_def sample_db_def annual_leave_def)
  moreover have "validate_type_limits 1 annual_leave 739677 3 sample_db None = None"
    by (simp add: validate_type_limits_def annual_leave_def)
  moreover have "check_overlapping_leaves 1 739677 739679 sample_db None = None"
    by (simp add: check_overlapping_leaves_def sample_db_def)
  moreover have "resolve_for_request allocated_db 1 annual_leave [] = Inr []"
    by (simp add: resolve_for_request_def requires_substitutes_def annual_leave_def)
  moreover have "check_availability allocated_db 1 [] 739677 739679 None = None"
    by (simp add: check_availability_def substitutes_on_def allocated_frame sample_settings_def)
  ultimately show ?thesis
    by (simp add: validate_create_def sample_working_days sample_check Let_def del: One_nat_def)
      (simp add: annual_leave_def)
qed

lemma submitted_requests: "db_requests submitted_db = [sample_request]"
proof -
  have "new_request allocated_db 1 1 739677 739679 3 ''trip'' Pending = sample_request"
    by (simp add: new_request_def sample_request_def next_pk_def allocated_frame)
  then show ?thesis
    by (simp add: submitted_db_def create_leave_def sample_validate Let_def allocated_frame row_create_def
        del: One_nat_def)
qed

lemma submitted_reachable: "reachable leave_init leave_step submitted_db"
proof (rule reachable.next_step)
  show "reachable leave_init leave_step sample_db"
    by (rule reachable.start) (simp add: leave_init_def sample_db_def)
  show "leave_step sample_db submitted_db"
    unfolding submitted_db_def by (rule leave_step.submit [OF prod.collapse [symmetric]])
qed

subsection \<open>Properties\<close>

text \<open>C1: The balance ledger is exact in every reachable state: for every employee, leave type and year
  the pending days are the days of the requests still open and the used days those of the
  approved ones, whatever mix of submissions, edits, decisions, cancellations, deletions,
  substitute answers, accruals, carry forwards, deletions of leave types and corrections of
  balances by administrators led there; so neither is ever negative and the clamps at zero never
  hide a day.  Three conditions are part of the step relation: a balance that an administrator
  posts comes without used and pending days, one that is deleted has none, and no employee account
  is removed.\<close>

theorem ledger_exact:
  assumes "reachable leave_init leave_step db"
  shows "pending_at db k = (\<Sum>r\<leftarrow>db_requests db.
             if request_key r = k \<and> lr_status r \<in> set open_statuses then lr_days r else 0)
    \<and> used_at db k = (\<Sum>r\<leftarrow>db_requests db.
             if request_key r = k \<and> lr_status r = Approved then lr_days r else 0)
    \<and> 0 \<le> pending_at db k \<and> 0 \<le> used_at db k"
proof -
  have inv: "leave_inv db" by (rule lw.reachable_inv [OF assms])
  note i = leave_invD [OF inv]
  have b: "request_bucket r = Held \<longleftrightarrow> lr_status r \<in> set open_statuses"
    "request_bucket r = Spent \<longleftrightarrow> lr_status r = Approved" for r
    by (cases "lr_status r"; simp add: request_bucket_def)+
  have "pending_at db k = (\<Sum>r\<leftarrow>db_requests db. lg.held k r) \<and> used_at db k = (\<Sum>r\<leftarrow>db_requests db. lg.spent k r)"
    using i(4) unfolding lg.balanced_def by blast
  then show ?thesis
    using lg.balanced_nonneg [OF i(4,8), of k] unfolding lg.held_def lg.spent_def b by simp
qed

theorem ledger_exact_witness:
  "pending_at submitted_db (1, 1, 2026) = 3 \<and> used_at submitted_db (1, 1, 2026) = 0"
  using ledger_exact [OF submitted_reachable, of "(1, 1, 2026)"]
  by (simp add: submitted_requests request_key_def) (simp add: sample_request_def)

text \<open>
  The condition on POST is needed.  An administrator of the sample tenant may post a balance with
  two used days for an employee who has no request at all: the serializer leaves the used and the
  pending days writable, and the ledger no longer agrees with the requests.
\<close>

definition posted_balance :: leave_balance where
  "posted_balance = (new_balance (1, 1, 2026) 24)\<lparr>lb_used := 2\<rparr>"

theorem posted_balance_off_ledger:
  "\<exists>db. admin_create_balance sample_db staff_3 posted_balance = Inr db
     \<and> used_at db (1, 1, 2026) = 2 \<and> db_requests db = []"
  by (rule exI [of _ "sample_db\<lparr>db_balances := [posted_balance]\<rparr>"])
    (simp add: admin_create_balance_def posted_balance_def new_balance_def CanManageLeaveBalances_def
      sample_people sample_db_def get_user_def get_type_def get_balance_def row_get_def used_at_def
      annual_leave_def row_create_def lb_key_def)

text \<open>C4: A request reaches its approvers only with everybody's consent: in every reachable state the
  substitutes of a pending, partly approved or approved request have all accepted (or were
  skipped by an administrator), and a request that awaits its substitutes has an unanswered one
  and no refusal.\<close>

theorem consent_before_approval:
  assumes "reachable leave_init leave_step db" and "r \<in> set (db_requests db)"
  shows "(lr_status r \<in> {Pending, Manager_approved, Hr_approved, Approved} \<longrightarrow>
           (\<forall>s \<in> set (request_subs db (lr_pk r)). rs_status s \<in> {Sub_accepted, Sub_skipped}))
    \<and> (lr_status r = Awaiting_substitutes \<longrightarrow>
           (\<exists>s \<in> set (request_subs db (lr_pk r)). rs_status s = Sub_pending)
         \<and> (\<forall>s \<in> set (request_subs db (lr_pk r)). rs_status s \<noteq> Sub_rejected))"
proof -
  have "consent_ok db" using leave_invD(6) [OF lw.reachable_inv [OF assms(1)]] .
  then have c: "consent_for (lr_status r) (sub_statuses db (lr_pk r))"
    using assms(2) by (simp add: consent_ok_def)
  have m: "s \<in> set (request_subs db (lr_pk r)) \<Longrightarrow> rs_status s \<in> sub_statuses db (lr_pk r)" for s
    using sub_statusesI by (simp add: request_subs_mem)
  have x: "Sub_pending \<in> sub_statuses db (lr_pk r) \<Longrightarrow>
      \<exists>s \<in> set (request_subs db (lr_pk r)). rs_status s = Sub_pending"
    by (auto simp: sub_statuses_def) (metis request_subs_mem)
  show ?thesis
  proof (intro conjI impI ballI)
    fix s assume "lr_status r \<in> {Pending, Manager_approved, Hr_approved, Approved}"
      and "s \<in> set (request_subs db (lr_pk r))"
    then show "rs_status s \<in> {Sub_accepted, Sub_skipped}" using c m [of s] by (auto simp: consent_for_def)
  next
    assume "lr_status r = Awaiting_substitutes"
    then show "\<exists>s \<in> set (request_subs db (lr_pk r)). rs_status s = Sub_pending"
      using c x by (simp add: consent_for_def)
  next
    fix s assume "lr_status r = Awaiting_substitutes" and "s \<in> set (request_subs db (lr_pk r))"
    then show "rs_status s \<noteq> Sub_rejected" using c m [of s] by (auto simp: consent_for_def)
  qed
qed

theorem consent_before_approval_witness:
  "rs_status ` set (request_subs submitted_db 1) \<subseteq> {Sub_accepted, Sub_skipped} \<and> sample_request \<in> set (db_requests submitted_db)"
  using consent_before_approval [OF submitted_reachable, of sample_request]
  by (simp add: submitted_requests image_subset_iff) (simp add: sample_request_def)

text \<open>C5: The audit log tells the whole story: in every reachable state the logged status changes of a
  request form an unbroken chain that starts with its creation and ends at the status it has
  now.\<close>

theorem audit_chain:
  assumes "reachable leave_init leave_step db" and "r \<in> set (db_requests db)"
  shows "links ''new'' (history_of db (lr_pk r)) = Some (status_text (lr_status r))"
  using leave_invD(7) [OF lw.reachable_inv [OF assms(1)]] assms(2) by (auto simp: audited_def)

theorem audit_chain_witness:
  "links ''new'' (history_of submitted_db 1) = Some ''pending''"
  using audit_chain [OF submitted_reachable, of sample_request]
  by (simp add: submitted_requests) (simp add: sample_request_def)

end
