(* ===== verification/Leave_Decisions.thy ===== *)
theory Leave_Decisions
  imports Leave_Workflow
begin

text \<open>
  What the decision endpoints guarantee, and two places where they do less than they say: an edit
  moves the days of a request without asking the balance, and the manager endpoints ignore the
  \<^verbatim>\<open>action\<close> of the body.  The concrete runs continue the one of \<open>Leave_Workflow\<close>.
\<close>

subsection \<open>A second request\<close>

lemma submitted_eq:
  "submitted_db = update_leave_balance (create_request None sample_request allocated_db) sample_request Act_pending"
proof -
  have "new_request allocated_db 1 1 739677 739679 3 ''trip'' Pending = sample_request"
    by (simp add: new_request_def sample_request_def next_pk_def allocated_frame)
  then show ?thesis
    by (simp add: submitted_db_def create_leave_def sample_validate Let_def del: One_nat_def)
qed

lemma submitted_frame: "db_settings submitted_db = Some sample_settings" "db_subs submitted_db = []"
  "db_types submitted_db = [annual_leave, accrual_leave]" "db_holidays submitted_db = []"
  "db_users submitted_db = [employee_1, manager_2, staff_3]"
  unfolding submitted_eq by (simp_all add: allocated_frame create_request_def log_event_def)

lemma sample_key: "request_key sample_request = (1, 1, 2026)"
  by (simp add: request_key_def sample_request_def)

lemma submitted_balance:
  "get_balance submitted_db (1, 1, 2026) = Some ((new_balance (1, 1, 2026) 24)\<lparr>lb_pending := 3\<rparr>)"
proof -
  have "get_balance allocated_db (1, 1, 2026) = Some (new_balance (1, 1, 2026) 24)"
    by (simp add: allocated_db_def initialize_leave_balances_for_user_def get_or_create_balance_def
        get_balance_def row_get_def row_create_def sample_db_def annual_leave_def
        accrual_leave_def Let_def)
  then have "get_balance (create_request None sample_request allocated_db) (1, 1, 2026) = Some (new_balance (1, 1, 2026) 24)"
    by (simp add: get_balance_def)
  moreover have "lr_days sample_request = 3" by (simp add: sample_request_def)
  ultimately show ?thesis
    unfolding submitted_eq get_balance_update sample_key fst_get_or_create by simp
qed

lemma submitted_working_days: "calculate_working_days 739680 739681 submitted_db True = 2"
  by (simp add: calculate_working_days_def working_dates_def holiday_dates_def weekend_days_def
      submitted_frame sample_settings_def working_loop.simps weekday_def)

lemma sample_year2: "year_of 739680 = 2026"
  by (simp add: year_of_def Let_def)

definition second_request :: leave_request where
  "second_request = sample_request\<lparr>lr_pk := 2, lr_start := 739680, lr_end := 739681, lr_days := 2\<rparr>"

definition two_requests_db :: leave_db where
  "two_requests_db = fst (create_leave submitted_db 1 1 739680 739681 ''trip'' [])"

lemma second_validate: "validate_create submitted_db 1 1 739680 739681 [] = (submitted_db, Inr (2, []))"
proof -
  have "get_type submitted_db 1 = Some annual_leave"
    by (simp add: get_type_def row_get_def submitted_frame) (simp add: annual_leave_def)
  moreover have "validate_type_limits 1 annual_leave 739680 2 submitted_db None = None"
    by (simp add: validate_type_limits_def annual_leave_def)
  moreover have "check_overlapping_leaves 1 739680 739681 submitted_db None = None"
    by (simp add: check_overlapping_leaves_def submitted_requests overlap_query_def)
      (simp add: sample_request_def)
  moreover have "check_leave_balance submitted_db 1 1 2 2026 = (submitted_db, None)"
    by (simp add: check_leave_balance_def submitted_balance balance_verdict_def available_days_def
        Let_def del: One_nat_def)
  moreover have "resolve_for_request submitted_db 1 annual_leave [] = Inr []"
    by (simp add: resolve_for_request_def requires_substitutes_def annual_leave_def)
  moreover have "check_availability submitted_db 1 [] 739680 739681 None = None"
    by (simp add: check_availability_def substitutes_on_def submitted_frame sample_settings_def)
  ultimately show ?thesis
    by (simp add: validate_create_def submitted_working_days sample_year2 Let_def del: One_nat_def)
      (simp add: annual_leave_def)
qed

lemma two_requests: "db_requests two_requests_db = [sample_request, second_request]"
proof -
  have "new_request submitted_db 1 1 739680 739681 2 ''trip'' Pending = second_request"
    unfolding new_request_def next_pk_def submitted_requests
    by (simp add: second_request_def sample_request_def)
  then show ?thesis
    by (simp add: two_requests_db_def create_leave_def second_validate Let_def submitted_requests
        row_create_def del: One_nat_def)
qed

lemma two_requests_reachable: "reachable leave_init leave_step two_requests_db"
  unfolding two_requests_db_def
  by (rule reachable.next_step [OF submitted_reachable leave_step.submit [OF prod.collapse [symmetric]]])

subsection \<open>Properties\<close>

text \<open>C2: Nobody is ever booked off twice: in every reachable state two different requests of the same
  employee that are neither rejected nor cancelled have disjoint dates.\<close>

theorem no_double_leave:
  assumes "reachable leave_init leave_step db"
    and "a \<in> set (db_requests db)" and "b \<in> set (db_requests db)" and "lr_pk a \<noteq> lr_pk b"
    and "lr_employee a = lr_employee b"
    and "lr_status a \<notin> {Rejected, Cancelled}" and "lr_status b \<notin> {Rejected, Cancelled}"
  shows "lr_end a < lr_start b \<or> lr_end b < lr_start a"
proof -
  have "dates_ok (db_requests db)" using leave_invD(5) [OF lw.reachable_inv [OF assms(1)]] .
  then have "disjoint_dates a b"
    using assms(2-7) by (auto simp: dates_ok_def active_request_iff)
  then show ?thesis by (simp add: disjoint_dates_def)
qed

theorem no_double_leave_witness:
  "lr_end sample_request < lr_start second_request \<or> lr_end second_request < lr_start sample_request"
proof (rule no_double_leave [OF two_requests_reachable])
  show "sample_request \<in> set (db_requests two_requests_db)" "second_request \<in> set (db_requests two_requests_db)"
    by (simp_all only: two_requests list.set insert_iff simp_thms)
qed (simp_all add: second_request_def sample_request_def)

text \<open>
  A decision is a successful call of one of the four endpoints that approve and reject, or of the
  endpoint with which a substitute declines.  No other code sets the status approved or rejected.
\<close>

definition decided_by :: "leave_db \<Rightarrow> user \<Rightarrow> pk \<Rightarrow> leave_db \<Rightarrow> bool" where
  "decided_by db u k db' \<longleftrightarrow>
     (\<exists>action txt now. Inr db' \<in>
        {manager_approve db u k action txt now, manager_reject db u k action txt now,
         admin_approve db u k action txt now, admin_reject db u k action txt now,
         covering_respond db u k ''reject'' txt now})"

text \<open>C6: No decision without authority.  Whoever approves or rejects a request through the endpoints of
  managers and administrators is a superuser, or is not its employee and is staff or manages the
  employee; the only other way a request is rejected is that one of its substitutes, whose answer is
  still open, declines while the request waits for its substitutes.\<close>

theorem decision_authority:
  assumes "decided_by db u k db'"
  shows "u_is_superuser u \<or>
    (\<exists>r. get_request db k = Some r \<and>
       (lr_employee r \<noteq> u_pk u \<and> (u_is_staff u \<or> manages_employee u (get_user db (lr_employee r)))
        \<or> lr_status r = Awaiting_substitutes
          \<and> (\<exists>s \<in> set (request_subs db k). rs_substitute s = u_pk u \<and> rs_status s = Sub_pending)))"
proof -
  have declined: "\<exists>r. get_request db k = Some r \<and> lr_status r = Awaiting_substitutes
      \<and> (\<exists>s \<in> set (request_subs db k). rs_substitute s = u_pk u \<and> rs_status s = Sub_pending)"
    if "covering_respond db u k ''reject'' reply now = Inr db'" for reply now
    using that
    by (auto simp: covering_respond_def respond_def dest: get_request_mem dest!: find_member
        split: option.splits sum.splits if_splits)
  show ?thesis
    using assms declined
    by (auto simp: decided_by_def manager_approve_def manager_reject_def admin_approve_def admin_reject_def
        team_request_def admin_request_def can_approve_iff
        split: sum.splits option.splits if_splits)
qed

lemma submitted_request: "get_request submitted_db 1 = Some sample_request"
  by (simp add: get_request_def row_get_def submitted_requests) (simp add: sample_request_def)

lemma submitted_chain_roles: "chain_roles submitted_db sample_request = [Manager]"
proof -
  have "db_chains submitted_db = []"
    unfolding submitted_eq by (simp add: allocated_frame create_request_def log_event_def)
  moreover have "get_type submitted_db 1 = Some annual_leave"
    by (simp add: get_type_def row_get_def submitted_frame) (simp add: annual_leave_def)
  moreover have "lr_type sample_request = 1" by (simp add: sample_request_def)
  moreover have "lt_requires_approval annual_leave" by (simp add: annual_leave_def)
  ultimately have "get_approval_chain submitted_db sample_request = [(1, Manager)]"
    by (simp add: get_approval_chain_def submitted_frame) (simp add: sample_settings_def)
  then show ?thesis by (simp add: chain_roles_def)
qed

lemma submitted_chain: "get_next_approver_role submitted_db sample_request = Some Manager"
  using next_role_coherent [OF sample_request_coherent, of submitted_db] sample_unsigned
  by (simp add: submitted_chain_roles del: signed_by.simps)

lemma approve_final:
  assumes "get_next_approver_role db r = Some Manager"
    and "get_next_approver_role db (sign_step (Some Manager) (u_pk u) now c r) = None"
  shows "db_requests (approve_locked db u r c now) =
      row_save lr_pk (finalise (Some Manager) (u_pk u) now c (sign_step (Some Manager) (u_pk u) now c r)) (db_requests db)"
  using assms unfolding approve_locked_def apply_approval_step_def finalise_def Let_def by simp

lemma submitted_signed:
  "get_next_approver_role submitted_db (sign_step (Some Manager) (u_pk manager_2) 10 ''no'' sample_request) = None"
proof -
  let ?r = "sign_step (Some Manager) (u_pk manager_2) 10 ''no'' sample_request"
  have "find (\<lambda>x. \<not> signed_by sample_request x) (chain_roles submitted_db sample_request) = Some Manager"
    using next_role_coherent [OF sample_request_coherent, of submitted_db] submitted_chain by simp
  then show ?thesis
    using next_role_coherent [of ?r submitted_db] sign_step_coherent [OF sample_request_coherent(1)]
      chain_cong [of ?r sample_request submitted_db] submitted_chain_roles
    by (simp add: signed_sign_step sample_request_def del: signed_by.simps)
qed

lemma submitted_manager:
  "team_request submitted_db manager_2 1 = Inr sample_request"
  "CanApproveLeave submitted_db manager_2 sample_request"
proof -
  have u: "get_user submitted_db 1 = Some employee_1"
    by (simp add: get_user_def row_get_def submitted_frame) (simp add: sample_people)
  have e: "lr_employee sample_request = 1" by (simp add: sample_request_def)
  show "team_request submitted_db manager_2 1 = Inr sample_request"
    using u by (simp add: team_request_def submitted_request e is_leave_manager_def team_q_def del: One_nat_def)
      (simp add: sample_people is_elevated_def)
  show "CanApproveLeave submitted_db manager_2 sample_request"
    unfolding can_approve_iff e u submitted_chain by (simp add: manages_employee_def sample_people)
qed

lemma submitted_manager_approve:
  "manager_approve submitted_db manager_2 1 ''reject'' ''no'' 10 = Inr (approve_locked submitted_db manager_2 sample_request ''no'' 10)"
  by (simp add: manager_approve_def submitted_manager submitted_chain approval_body_ok_def del: One_nat_def)

theorem decision_authority_witness:
  "u_is_superuser manager_2 \<or>
    (\<exists>r. get_request submitted_db 1 = Some r \<and>
       (lr_employee r \<noteq> u_pk manager_2 \<and> (u_is_staff manager_2 \<or> manages_employee manager_2 (get_user submitted_db (lr_employee r)))
        \<or> lr_status r = Awaiting_substitutes
          \<and> (\<exists>s \<in> set (request_subs submitted_db 1). rs_substitute s = u_pk manager_2 \<and> rs_status s = Sub_pending)))"
proof (rule decision_authority)
  show "decided_by submitted_db manager_2 1 (approve_locked submitted_db manager_2 sample_request ''no'' 10)"
    unfolding decided_by_def submitted_manager_approve [symmetric] insert_iff by blast
qed

text \<open>The manager endpoints ignore the action of the body: a manager who posts the action
  reject to the approve endpoint approves the request, and one who posts the action approve to
  the reject endpoint rejects it without giving any reason.\<close>

theorem manager_action_ignored:
  "\<exists>db1 db2. manager_approve submitted_db manager_2 1 ''reject'' ''no'' 10 = Inr db1
     \<and> map lr_status (db_requests db1) = [Approved]
     \<and> manager_reject submitted_db manager_2 1 ''approve'' [] 10 = Inr db2
     \<and> map lr_status (db_requests db2) = [Rejected]
     \<and> map lr_rejection_reason (db_requests db2) = [[]]"
proof -
  have r: "manager_reject submitted_db manager_2 1 ''approve'' [] 10 = Inr (reject_locked submitted_db manager_2 sample_request [] 10)"
    by (simp add: manager_reject_def submitted_manager manager_can_reject_def approval_body_ok_def del: One_nat_def)
      (simp add: sample_request_def)
  have "map lr_status (db_requests (approve_locked submitted_db manager_2 sample_request ''no'' 10)) = [Approved]"
    unfolding approve_final [OF submitted_chain submitted_signed] by (simp add: submitted_requests row_save_def)
  moreover have "map lr_status (db_requests (reject_locked submitted_db manager_2 sample_request [] 10)) = [Rejected]
      \<and> map lr_rejection_reason (db_requests (reject_locked submitted_db manager_2 sample_request [] 10)) = [[]]"
    by (simp add: reject_locked_def submitted_requests row_save_def Let_def)
  ultimately show ?thesis
    by (intro exI [of _ "approve_locked submitted_db manager_2 sample_request ''no'' 10"]
        exI [of _ "reject_locked submitted_db manager_2 sample_request [] 10"])
      (simp only: submitted_manager_approve r simp_thms)
qed

text \<open>An edit is not checked against the balance: the employee of the sample tenant, whose balance
  may not go negative, moves the end of a three-day request to 35 working days, and the balance
  falls to eleven days below zero.\<close>

theorem edit_exceeds_balance:
  "\<exists>db1 b. employee_update submitted_db employee_1 1
        \<lparr>rp_start = None, rp_end = Some 739725, rp_reason = None\<rparr> = Inr db1
     \<and> \<not> ls_allow_negative_balance sample_settings \<and> db_settings db1 = Some sample_settings
     \<and> get_balance db1 (1, 1, 2026) = Some b \<and> available_days b = - 11"
proof -
  define p where "p = \<lparr>rp_start = None, rp_end = Some 739725, rp_reason = None\<rparr>"
  let ?r1 = "patched sample_request p (Some 35)"
  have own: "own_request submitted_db employee_1 1 = Inr sample_request"
    by (simp add: own_request_def submitted_request del: One_nat_def)
      (simp add: sample_request_def sample_people)
  have days: "calculate_working_days 739677 739725 submitted_db True = 35"
    by (simp add: calculate_working_days_def working_dates_def holiday_dates_def weekend_days_def
        submitted_frame sample_settings_def working_loop.simps weekday_def)
  have ty: "get_type submitted_db 1 = Some annual_leave"
    by (simp add: get_type_def row_get_def submitted_frame) (simp add: annual_leave_def)
  have f: "lr_start sample_request = 739677" "lr_end sample_request = 739679" "lr_type sample_request = 1"
    "lr_employee sample_request = 1" "lr_status sample_request = Pending" "lr_pk sample_request = 1"
    "lr_days sample_request = 3"
    by (simp_all add: sample_request_def)
  have "check_overlapping_leaves 1 739677 739725 submitted_db (Some 1) = None"
    by (simp add: check_overlapping_leaves_def submitted_requests overlap_query_def not_excluded_def f)
  moreover have "validate_type_limits 1 annual_leave 739677 35 submitted_db (Some 1) = None"
    by (simp add: validate_type_limits_def annual_leave_def)
  moreover have "request_subs submitted_db 1 = []" by (simp add: request_subs_def submitted_frame)
  ultimately have v: "validate_update submitted_db sample_request p = Inr (Some 35, [])"
    by (simp add: validate_update_def p_def editable_statuses_def f days ty Let_def del: One_nat_def)
  have r1: "lr_days ?r1 = 35" "lr_start ?r1 = 739677" "request_key ?r1 = (1, 1, 2026)"
    by (simp_all add: patched_def p_def request_key_def f)
  define db3 where "db3 = update_leave_balance (save_request None [] ?r1
      (update_leave_balance submitted_db sample_request Act_cancel)) ?r1 Act_pending"
  have upd: "employee_update submitted_db employee_1 1 p = Inr db3"
    by (simp add: employee_update_def own v editable_statuses_def f apply_update_def r1 db3_def Let_def
        del: One_nat_def)
  have "get_balance (update_leave_balance submitted_db sample_request Act_cancel) (1, 1, 2026)
      = Some (new_balance (1, 1, 2026) 24)"
    unfolding get_balance_update sample_key fst_get_or_create submitted_balance f
    by (simp add: new_balance_def)
  then have "get_balance (save_request None [] ?r1 (update_leave_balance submitted_db sample_request Act_cancel)) (1, 1, 2026)
      = Some (new_balance (1, 1, 2026) 24)"
    by (simp add: get_balance_def)
  then have "get_balance db3 (1, 1, 2026) = Some ((new_balance (1, 1, 2026) 24)\<lparr>lb_pending := 35\<rparr>)"
    unfolding db3_def get_balance_update r1(3) fst_get_or_create r1(1) by simp
  moreover have "db_settings db3 = Some sample_settings" by (simp add: db3_def submitted_frame)
  moreover have "available_days ((new_balance (1, 1, 2026) 24)\<lparr>lb_pending := 35\<rparr>) = - 11"
    by (simp add: available_days_def)
  moreover have "\<not> ls_allow_negative_balance sample_settings" by (simp add: sample_settings_def)
  ultimately show ?thesis using upd unfolding p_def by blast
qed

end
