(* ===== verification/Leave_Payroll.thy ===== *)
theory Leave_Payroll
  imports Leave_Substitutes
begin

text \<open>
  Substitution pay and the monthly payroll (\<^verbatim>\<open>leave_management/payroll.py\<close>): the text form of a
  month, the days a substitute may have worked, the totals of the worked days, the salary in
  force on a day and the payroll report.  Amounts are exact rationals rounded half up to cents
  where the code calls \<^verbatim>\<open>round2\<close>; the 28 digits of Python's decimal context are enough for
  every intermediate value (salaries have at most twelve digits and divisors are at most 31).
  A report lists its rows in the order of the user table; the \<^verbatim>\<open>ORDER BY\<close> on names depends on the
  collation of the database and is left out.
\<close>

subsection \<open>Months\<close>

definition round2 :: "decimal \<Rightarrow> decimal" where
  "round2 value = round_half_up 2 value"

text \<open>\<^verbatim>\<open>parse_period\<close>: None stands for the \<^verbatim>\<open>ValueError\<close>.\<close>

definition parse_period :: "string \<Rightarrow> (date \<times> date) option" where
  "parse_period period =
     (case map read_int (split_on (CHR ''-'') period) of
        [Some year, Some month] \<Rightarrow>
          (case mk_date year month 1 of
             None \<Rightarrow> None
           | Some first_day \<Rightarrow>
               if length period \<noteq> 7 then None
               else Some (first_day, ymd year month (days_in_month year month)))
      | _ \<Rightarrow> None)"

text \<open>\<^verbatim>\<open>day.strftime('%Y-%m')\<close>.\<close>

definition period_of :: "date \<Rightarrow> string" where
  "period_of d =
     nat_text (nat (year_of d)) @ ''-'' @ pad_zeros 2 (nat_text (nat (month_of d)))"

definition locked_periods :: "leave_db \<Rightarrow> string list" where
  "locked_periods db = map py_period (filter py_locked (db_payroll db))"

subsection \<open>Substitution pay\<close>

datatype worked_days_error =
    Not_on_approved_request
  | Rate_needed
  | Too_many_days
  | Days_not_workable "date list"
  | Payroll_locked "string list"

definition approved_days :: "leave_db \<Rightarrow> pk \<Rightarrow> date \<Rightarrow> date \<Rightarrow> date set" where
  "approved_days db user start until =
     (\<Union>r \<in> {r \<in> set (db_requests db). lr_employee r = user \<and> lr_status r = Approved
               \<and> lr_start r \<le> until \<and> start \<le> lr_end r}.
        {max (lr_start r) start .. min (lr_end r) until})"

definition workable_days :: "leave_db \<Rightarrow> leave_request \<Rightarrow> user \<Rightarrow> date \<Rightarrow> date list" where
  "workable_days db req sub today =
     (let until = min (lr_end req) today
      in if until < lr_start req then []
         else
           let own_leave = approved_days db (u_pk sub) (lr_start req) until
           in filter (\<lambda>d. (case employment_start sub of None \<Rightarrow> True | Some s \<Rightarrow> s \<le> d)
                        \<and> (case employment_end sub of None \<Rightarrow> True | Some e \<Rightarrow> d \<le> e)
                        \<and> d \<notin> own_leave)
                (working_dates (lr_start req) until db True))"

text \<open>\<open>month_days\<close> counts the days of a month; the keys are visited in sorted order.\<close>

definition month_days :: "string \<Rightarrow> date list \<Rightarrow> nat" where
  "month_days month days = length (filter (\<lambda>d. period_of d = month) days)"

definition month_amount :: "leave_db \<Rightarrow> rate_mode \<Rightarrow> decimal \<Rightarrow> string \<Rightarrow> nat \<Rightarrow> decimal" where
  "month_amount db mode rate month count =
     (let amount = rate * of_nat count
      in case mode of
           Per_day \<Rightarrow> amount
         | Per_month \<Rightarrow>
             (case parse_period month of
                None \<Rightarrow> 0
              | Some (first_day, last_day) \<Rightarrow>
                  let divisor = length (working_dates first_day last_day db True)
                  in if divisor \<noteq> 0 then amount / of_nat divisor else 0))"

definition compute_totals :: "leave_db \<Rightarrow> request_substitute \<Rightarrow> date list \<Rightarrow> (string \<times> decimal) list" where
  "compute_totals db row days =
     (case rs_rate row of
        None \<Rightarrow> []
      | Some (mode, amount, _) \<Rightarrow>
          map (\<lambda>month. (month, round2 (month_amount db mode amount month (month_days month days))))
            (sort (remdups (map period_of days))))"

definition set_worked_days ::
  "leave_db \<Rightarrow> request_substitute \<Rightarrow> date list \<Rightarrow> pk \<Rightarrow> date \<Rightarrow> datetime \<Rightarrow> worked_days_error + leave_db" where
  "set_worked_days db row raw_days actor today now =
     (case (get_request db (rs_request row), get_user db (rs_substitute row)) of
        (Some req, Some sub) \<Rightarrow>
          if lr_status req \<noteq> Approved then Inl Not_on_approved_request
          else if rs_rate row = None then Inl Rate_needed
          else if length raw_days > 366 then Inl Too_many_days
          else
            let days = sort (remdups raw_days);
                allowed = workable_days db req sub today;
                bad = filter (\<lambda>d. d \<notin> set allowed) days
            in if bad \<noteq> [] then Inl (Days_not_workable bad)
               else
                 let old_days = rs_worked_days row;
                     moved = filter (\<lambda>d. d \<notin> set days) old_days @ filter (\<lambda>d. d \<notin> set old_days) days;
                     hit = sort (remdups (filter (\<lambda>p. p \<in> set (locked_periods db)) (map period_of moved)))
                 in if hit \<noteq> [] then Inl (Payroll_locked hit)
                    else
                      let row' = row\<lparr>rs_worked_days := days, rs_totals := compute_totals db row days,
                                     rs_confirmed_by := Some actor, rs_confirmed_at := Some now\<rparr>
                      in Inr (log_event
                           \<lparr>ev_kind = ''substitute'', ev_action = ''worked_days_set'',
                            ev_request = Some (lr_pk req), ev_subject = Some (u_pk sub),
                            ev_actor = Some actor, ev_object = nat_text (rs_pk row), ev_from = [],
                            ev_to = [], ev_kpi = None,
                            ev_data = Worked_data old_days (rs_totals row) days (rs_totals row')\<rparr>
                           (save_sub row' db))
      | _ \<Rightarrow> Inl Not_on_approved_request)"

text \<open>The rate goes to the owner's rows of this task that have none; the count is logged.\<close>

definition backfills :: "leave_db \<Rightarrow> substitute_assignment \<Rightarrow> request_substitute \<Rightarrow> bool" where
  "backfills db a s \<longleftrightarrow>
     (\<exists>r. get_request db (rs_request s) = Some r \<and> lr_employee r = sa_owner a)
     \<and> rs_substitute s = sa_substitute a \<and> rs_task s = sa_task a \<and> rs_rate s = None"

definition backfill_rate ::
  "leave_db \<Rightarrow> substitute_assignment \<Rightarrow> rate_mode \<times> decimal \<times> string \<Rightarrow> leave_db \<times> nat" where
  "backfill_rate db a rate =
     (db\<lparr>db_subs := map (\<lambda>s. if backfills db a s then s\<lparr>rs_rate := Some rate\<rparr> else s) (db_subs db)\<rparr>,
      length (filter (backfills db a) (db_subs db)))"

subsection \<open>The payroll report\<close>

text \<open>The best row so far is replaced only by a strictly later one.\<close>

fun salary_loop :: "pk \<Rightarrow> date \<Rightarrow> compensation option \<Rightarrow> compensation list \<Rightarrow> compensation option" where
  "salary_loop user last_day best [] = best"
| "salary_loop user last_day best (c # cs) =
     salary_loop user last_day
       (if co_user c = user \<and> co_from c \<le> last_day
        then (case best of
                None \<Rightarrow> Some c
              | Some b \<Rightarrow> if co_from c > co_from b then Some c else best)
        else best) cs"

definition salary_for :: "pk \<Rightarrow> date \<Rightarrow> compensation list \<Rightarrow> (decimal \<times> string) option" where
  "salary_for user last_day comps =
     map_option (\<lambda>c. (co_salary c, co_currency c)) (salary_loop user last_day None comps)"

text \<open>Leave days of one employee: (covered days, paid, unpaid).\<close>

fun cover_days :: "leave_request \<Rightarrow> bool \<Rightarrow> date list \<Rightarrow> date list \<times> nat \<times> nat \<Rightarrow> date list \<times> nat \<times> nat" where
  "cover_days req paid_type [] acc = acc"
| "cover_days req paid_type (d # ds) (covered, paid, unpaid) =
     cover_days req paid_type ds
       (if lr_start req \<le> d \<and> d \<le> lr_end req \<and> d \<notin> set covered
        then (if paid_type then (d # covered, paid + 1, unpaid) else (d # covered, paid, unpaid + 1))
        else (covered, paid, unpaid))"

definition type_is_paid :: "leave_db \<Rightarrow> leave_request \<Rightarrow> bool" where
  "type_is_paid db r = (case get_type db (lr_type r) of Some ty \<Rightarrow> lt_is_paid ty | None \<Rightarrow> False)"

fun cover_requests :: "leave_db \<Rightarrow> date list \<Rightarrow> leave_request list \<Rightarrow> date list \<times> nat \<times> nat \<Rightarrow> date list \<times> nat \<times> nat" where
  "cover_requests db scheduled [] acc = acc"
| "cover_requests db scheduled (req # reqs) acc =
     cover_requests db scheduled reqs (cover_days req (type_is_paid db req) scheduled acc)"

definition scheduled_days :: "user \<Rightarrow> date list \<Rightarrow> date list" where
  "scheduled_days u working =
     filter (\<lambda>d. (case employment_start u of None \<Rightarrow> True | Some s \<Rightarrow> s \<le> d)
               \<and> (case employment_end u of None \<Rightarrow> True | Some e \<Rightarrow> d \<le> e)) working"

text \<open>The substitution pay of a user: (currency, amount) of every row of an approved request.\<close>

definition pay_rows :: "leave_db \<Rightarrow> string \<Rightarrow> string \<Rightarrow> pk \<Rightarrow> (string \<times> decimal) list" where
  "pay_rows db default_currency period user =
     concat (map (\<lambda>s.
       if rs_substitute s = user
          \<and> (\<exists>r. get_request db (rs_request s) = Some r \<and> lr_status r = Approved)
       then (case map_of (rs_totals s) period of
               None \<Rightarrow> []
             | Some amount \<Rightarrow>
                 [((case rs_rate s of Some (_, _, c) \<Rightarrow> if c = [] then default_currency else c
                                    | None \<Rightarrow> default_currency), amount)])
       else []) (db_subs db))"

definition pay_in :: "string \<Rightarrow> (string \<times> decimal) list \<Rightarrow> decimal" where
  "pay_in currency rows = (\<Sum>(c, a)\<leftarrow>rows. if c = currency then a else 0)"

definition payroll_row_of ::
  "leave_db \<Rightarrow> string \<Rightarrow> payroll_mode \<Rightarrow> string \<Rightarrow> decimal \<Rightarrow> decimal \<Rightarrow> date \<Rightarrow> date \<Rightarrow> date list
     \<Rightarrow> compensation list \<Rightarrow> date \<Rightarrow> user \<Rightarrow> payroll_row" where
  "payroll_row_of db period mode default_currency tax_rate pension_rate first_day last_day working comps today u =
     (let scheduled = scheduled_days u working;
          reqs = rev (filter (\<lambda>r. lr_employee r = u_pk u \<and> lr_status r = Approved
                         \<and> lr_start r \<le> last_day \<and> first_day \<le> lr_end r) (db_requests db));
          (covered, paid_leave, unpaid) = cover_requests db scheduled reqs ([], 0, 0);
          worked = length (filter (\<lambda>d. d < today \<and> d \<notin> set covered) scheduled);
          found = salary_for (u_pk u) last_day comps;
          currency = (case found of Some (_, c) \<Rightarrow> if c = [] then default_currency else c
                                  | None \<Rightarrow> default_currency);
          base = (case found of
                    Some (salary, _) \<Rightarrow>
                      if working \<noteq> []
                      then round2 (salary * (of_nat (length scheduled) - of_nat unpaid) / of_nat (length working))
                      else 0
                  | None \<Rightarrow> 0);
          user_pay = pay_rows db default_currency period (u_pk u);
          substitution_pay = round2 (pay_in currency user_pay);
          other_pay = map (\<lambda>c. (c, round2 (pay_in c user_pay)))
            (filter (\<lambda>c. c \<noteq> currency \<and> pay_in c user_pay \<noteq> 0) (remdups (map fst user_pay)));
          gross = round2 (base + substitution_pay);
          pension = round2 (gross * pension_rate / 100);
          tax = round2 ((gross - pension) * tax_rate / 100)
      in \<lparr>pr_user = u_pk u, pr_currency = currency, pr_salary = map_option fst found,
          pr_working_days = length working, pr_scheduled_days = length scheduled, pr_worked = worked,
          pr_paid_leave = paid_leave, pr_unpaid = unpaid, pr_base = base,
          pr_substitution = substitution_pay, pr_other = other_pay, pr_gross = gross,
          pr_net = (if mode = Net then Some (pension, tax, round2 (gross - pension - tax)) else None)\<rparr>)"

text \<open>The totals per currency, each sum rounded once more.\<close>

definition totals_of :: "payroll_mode \<Rightarrow> payroll_row list \<Rightarrow> payroll_totals" where
  "totals_of mode rows =
     \<lparr>pt_base = round2 (\<Sum>r\<leftarrow>rows. pr_base r),
      pt_substitution = round2 (\<Sum>r\<leftarrow>rows. pr_substitution r),
      pt_gross = round2 (\<Sum>r\<leftarrow>rows. pr_gross r),
      pt_net = (if mode = Net
                then Some (round2 (\<Sum>r\<leftarrow>rows. case pr_net r of Some (p, _, _) \<Rightarrow> p | None \<Rightarrow> 0),
                           round2 (\<Sum>r\<leftarrow>rows. case pr_net r of Some (_, t, _) \<Rightarrow> t | None \<Rightarrow> 0),
                           round2 (\<Sum>r\<leftarrow>rows. case pr_net r of Some (_, _, n) \<Rightarrow> n | None \<Rightarrow> 0))
                else None)\<rparr>"

definition report_totals :: "payroll_mode \<Rightarrow> payroll_row list \<Rightarrow> (string \<times> payroll_totals) list" where
  "report_totals mode rows =
     map (\<lambda>c. (c, totals_of mode (filter (\<lambda>r. pr_currency r = c) rows)))
       (remdups (map pr_currency rows))"

definition build_report ::
  "leave_db \<Rightarrow> string \<Rightarrow> pk list option \<Rightarrow> date \<Rightarrow> payroll_report option" where
  "build_report db period user_ids today =
     (case parse_period period of
        None \<Rightarrow> None
      | Some (first_day, last_day) \<Rightarrow>
          let (mode, default_currency, tax_rate, pension_rate) =
                (case db_settings db of
                   None \<Rightarrow> (Gross, ''GEL'', 20, 2)
                 | Some s \<Rightarrow> (ls_payroll_mode s,
                     if ls_payroll_currency s = [] then ''GEL'' else ls_payroll_currency s,
                     ls_income_tax_rate s, ls_pension_rate s));
              working = working_dates first_day last_day db True;
              comps = filter (\<lambda>c. co_from c \<le> last_day) (db_comps db);
              wanted = filter (\<lambda>u. ((\<exists>c \<in> set comps. co_user c = u_pk u)
                                   \<or> pay_rows db default_currency period (u_pk u) \<noteq> [])
                                 \<and> (case user_ids of None \<Rightarrow> True | Some ids \<Rightarrow> u_pk u \<in> set ids)
                                 \<and> (case u_employment_end u of None \<Rightarrow> True | Some e \<Rightarrow> first_day \<le> e))
                (db_users db);
              rows = map (payroll_row_of db period mode default_currency tax_rate pension_rate
                            first_day last_day working comps today) wanted
          in Some \<lparr>po_period = period, po_mode = mode, po_currency = default_currency,
               po_tax_rate = tax_rate, po_pension_rate = pension_rate,
               po_working_days = length working, po_locked = False, po_rows = rows,
               po_totals = report_totals mode rows, po_locked_at = None, po_locked_by = None\<rparr>)"

definition locked_run :: "leave_db \<Rightarrow> string \<Rightarrow> payroll_run option" where
  "locked_run db period = find (\<lambda>p. py_period p = period \<and> py_locked p) (db_payroll db)"

definition report_for :: "leave_db \<Rightarrow> string \<Rightarrow> date \<Rightarrow> payroll_report option" where
  "report_for db period today =
     (case locked_run db period of
        Some run \<Rightarrow> Some ((py_snapshot run)\<lparr>po_locked := True, po_locked_at := py_locked_at run,
                            po_locked_by := py_locked_by run\<rparr>)
      | None \<Rightarrow> build_report db period None today)"

subsection \<open>Months as text\<close>

lemma month_of_nat: "nat (month_of d) < 100" "1 \<le> nat (month_of d)" "int (nat (month_of d)) = month_of d"
  using month_of_range [of d] by auto

lemma period_of_shape:
  assumes "1000 \<le> year_of d" "year_of d \<le> 9999"
  shows "period_of d = map digit_char (digits4 (nat (year_of d))) @ CHR ''-'' # pad_zeros 2 (nat_text (nat (month_of d)))"
  using assms by (simp add: period_of_def digits4)

lemma digit_no_dash: "\<forall>x \<in> set xs. x < 10 \<Longrightarrow> CHR ''-'' \<notin> set (map digit_char xs)"
proof (induction xs)
  case (Cons x xs)
  then show ?case using digit_char_simps(4) [of x] by (simp add: eq_commute)
qed simp

lemma period_roundtrip_parse:
  assumes "1000 \<le> year_of d" "year_of d \<le> 9999"
  shows "parse_period (period_of d) = Some (month_first (year_of d) (month_of d), month_last (year_of d) (month_of d))"
proof -
  let ?y = "nat (year_of d)" and ?m = "nat (month_of d)"
  have y: "1000 \<le> ?y" "?y < 10000" using assms by auto
  have small: "\<forall>x \<in> set [?m div 10, ?m mod 10]. x < 10"
    using month_of_nat [of d] by (simp add: less_mult_imp_div_less)
  have split: "split_on (CHR ''-'') (period_of d) = [nat_text ?y, pad_zeros 2 (nat_text ?m)]"
    unfolding period_of_shape [OF assms(1,2)]
    using split_on_append [OF digit_no_dash [OF digits4(3) [OF y]]] split_on_none [OF digit_no_dash [OF small]]
    by (simp add: pad2 month_of_nat digits4(1) [OF y])
  have valid: "valid_ymd (year_of d) (month_of d) 1"
    using assms month_of_range [of d] days_in_month_pos [of "year_of d" "month_of d"]
    by (simp add: valid_ymd_def)
  have len: "length (period_of d) = 7"
    unfolding period_of_shape [OF assms(1,2)] by (simp add: pad2 month_of_nat digits4_def)
  show ?thesis
    using valid len assms(1) month_of_nat [of d]
    by (simp add: parse_period_def split read_int_nat_text read_int_pad2 mk_date_def month_first_def
        month_last_def)
qed

lemma period_less_iff:
  assumes "1000 \<le> year_of d" "year_of d \<le> 9999" "1000 \<le> year_of e" "year_of e \<le> 9999"
  shows "period_of d < period_of e \<longleftrightarrow> month_index d < month_index e"
proof -
  let ?y = "nat (year_of d)" and ?z = "nat (year_of e)" and ?m = "nat (month_of d)"
  have y: "1000 \<le> ?y" "?y < 10000" using assms by auto
  have z: "1000 \<le> ?z" "?z < 10000" using assms by auto
  have num: "map digit_char (digits4 ?y) < map digit_char (digits4 ?z) \<longleftrightarrow> year_of d < year_of e"
    using digits_less [of "digits4 ?y" "digits4 ?z"] digits4 [OF y] digits4 [OF z] assms by simp
  have same: "map digit_char (digits4 ?y) = map digit_char (digits4 ?z) \<longleftrightarrow> year_of d = year_of e"
    using digits4(1) [OF y] digits4(1) [OF z] assms nat_text_inject [of ?y ?z] by auto
  have mon: "pad_zeros 2 (nat_text ?m) < pad_zeros 2 (nat_text (nat (month_of e))) \<longleftrightarrow> month_of d < month_of e"
    using pad2_order month_of_nat month_of_range [of d] by auto
  show ?thesis
    unfolding period_of_shape [OF assms(1,2)] period_of_shape [OF assms(3,4)]
    using num same mon month_of_range [of d] month_of_range [of e]
    by (subst list_less_append) (auto simp: digits4_def month_index_def)
qed

lemma period_of_month: "month_index d = month_index e \<Longrightarrow> period_of d = period_of e"
  by (simp add: month_index_inj period_of_def)

lemma period_of_eq:
  assumes "1000 \<le> year_of d" "year_of d \<le> 9999" "1000 \<le> year_of e" "year_of e \<le> 9999"
  shows "period_of d = period_of e \<longleftrightarrow> month_index d = month_index e"
  using period_less_iff [OF assms] period_less_iff [OF assms(3,4,1,2)] period_of_month
  by (metis less_irrefl linorder_neqE)

text \<open>C15: Months survive the trip through their text: the month a date is filed under parses back to the
  first and the last day of that date's month, and months compare as texts the way their dates
  do, which the salary guard relies on.\<close>

theorem period_roundtrip:
  assumes "1000 \<le> year_of d" "year_of d \<le> 9999" "1000 \<le> year_of e" "year_of e \<le> 9999"
  shows "parse_period (period_of d) = Some (month_first (year_of d) (month_of d), month_last (year_of d) (month_of d))
    \<and> (period_of d < period_of e \<longleftrightarrow> month_index d < month_index e)"
  using period_roundtrip_parse period_less_iff assms by simp

theorem period_roundtrip_witness: "parse_period ''2026-03'' = Some (739676, 739706) \<and> ''2026-03'' < ''2026-10''"
proof -
  have a: "year_of 739677 = 2026" "month_of 739677 = 3" "year_of 739900 = 2026" "month_of 739900 = 10"
    by (simp_all add: month_of_def yday_of_def year_of_def days_before_year_def days_before_month_def is_leap_def Let_def)
  have "period_of 739677 = ''2026-03''" "period_of 739900 = ''2026-10''"
    by (simp_all add: period_of_def a nat_text_step nat_text_1 pad_zeros_def digit_char_def char_of_def bit_iff_odd)
  moreover have "month_first 2026 3 = 739676" "month_last 2026 3 = 739706"
    by (simp_all add: month_first_def month_last_def ymd_def days_before_year_def days_before_month_def days_in_month_def is_leap_def)
  moreover have "month_index 739677 < month_index 739900" by (simp add: month_index_def a)
  ultimately show ?thesis using period_roundtrip [of 739677 739900] by (simp add: a)
qed

text \<open>The guard on the month parameter is looser than its message: texts that are not of the form
  YYYY-MM, with a space or a sign for the leading zero or an underscore in the year, are read as
  a month, although no date is ever filed under them.\<close>

theorem parse_period_too_lax:
  "parse_period ''2026- 3'' = Some (739676, 739706) \<and> parse_period ''2026-+3'' = Some (739676, 739706)
    \<and> parse_period ''2_0-003'' = Some (month_first 20 3, month_last 20 3)
    \<and> \<not> (\<exists>d. 1000 \<le> year_of d \<and> year_of d \<le> 9999 \<and> period_of d \<in> {''2026- 3'', ''2026-+3'', ''2_0-003''})"
proof -
  have r: "read_int ''2026'' = Some 2026" "read_int '' 3'' = Some 3" "read_int ''+3'' = Some 3"
    "read_int ''2_0'' = Some 20" "read_int ''003'' = Some 3"
    by (simp_all add: read_int_def strip_def is_space_def read_digits_def is_digit_def digit_value_def)
  have "\<forall>c \<in> set (period_of d). c = CHR ''-'' \<or> is_digit c" if "1000 \<le> year_of d" "year_of d \<le> 9999" for d
    using that month_of_nat [of d] digits4(3) [of "nat (year_of d)"]
    by (auto simp: period_of_shape pad2 less_mult_imp_div_less)
  then have "\<not> (\<exists>d. 1000 \<le> year_of d \<and> year_of d \<le> 9999 \<and> period_of d \<in> {''2026- 3'', ''2026-+3'', ''2_0-003''})"
    by (force simp: is_digit_def)
  then show ?thesis
    by (simp add: parse_period_def r mk_date_def valid_ymd_def days_in_month_def ymd_def
        days_before_year_def days_before_month_def is_leap_def month_first_def month_last_def)
qed

subsection \<open>Substitution pay\<close>

lemma sum_month_days:
  "distinct ms \<Longrightarrow> set (map period_of days) \<subseteq> set ms \<Longrightarrow> (\<Sum>m\<leftarrow>ms. month_days m days) = length days"
proof (induction days)
  case (Cons d ds)
  have "(\<Sum>m\<leftarrow>ms. month_days m (d # ds)) = (\<Sum>m\<leftarrow>ms. month_days m ds + (if period_of d = m then 1 else 0))"
    by (rule arg_cong [where f = sum_list]) (simp add: month_days_def)
  also have "\<dots> = (\<Sum>m\<leftarrow>ms. month_days m ds) + (\<Sum>m\<leftarrow>ms. if period_of d = m then 1 else 0)"
    by (rule sum_list_addf)
  also have "(\<Sum>m\<leftarrow>ms. if period_of d = m then 1 else 0) = (1::nat)"
    using Cons.prems by (simp add: sum_list_distinct_conv_sum_set)
  finally show ?case using Cons by simp
qed (simp add: month_days_def)

lemma of_nat_month_days:
  "of_nat (\<Sum>m\<leftarrow>ms. month_days m days) = (\<Sum>m\<leftarrow>ms. of_nat (month_days m days) :: rat)"
  by (induction ms) simp_all

lemma round2_grid: "on_grid 2 x \<Longrightarrow> round2 x = x"
  unfolding round2_def by (rule round_half_up_id)

lemma on_grid_round2: "on_grid 2 (round2 x)"
  unfolding round2_def by (rule round_half_up_grid)

lemma on_grid_times_nat: "on_grid n x \<Longrightarrow> on_grid n (x * of_nat k)"
proof -
  assume "on_grid n x"
  then obtain i where "x * 10 ^ n = of_int i" by (auto simp: on_grid_def)
  then have "x * of_nat k * 10 ^ n = of_int (i * int k)" by (simp add: algebra_simps)
  then show ?thesis unfolding on_grid_def by blast
qed

lemma on_grid_add: "on_grid n x \<Longrightarrow> on_grid n y \<Longrightarrow> on_grid n (x + y)"
  unfolding on_grid_def by (metis distrib_right of_int_add)

lemma on_grid_diff: "on_grid n x \<Longrightarrow> on_grid n y \<Longrightarrow> on_grid n (x - y)"
  unfolding on_grid_def by (metis left_diff_distrib of_int_diff)

lemma on_grid_0: "on_grid n 0"
  unfolding on_grid_def by (rule exI [of _ 0]) simp

lemma on_grid_sum: "(\<And>x. x \<in> set xs \<Longrightarrow> on_grid n (f x)) \<Longrightarrow> on_grid n (\<Sum>x\<leftarrow>xs. f x)"
  by (induction xs) (auto intro: on_grid_add on_grid_0)

lemmas round2_nonneg = round_half_up_nonneg [of _ 2, folded round2_def]

lemma round2_le: "0 \<le> x \<Longrightarrow> x \<le> y \<Longrightarrow> on_grid 2 y \<Longrightarrow> round2 x \<le> y"
  using round_half_up_mono [of x y 2] round2_grid [of y] by (simp add: round2_def)

text \<open>A substitute paid per day gets the rate once for every confirmed day, however the days fall into
  months: the stored monthly totals add up to rate times days.\<close>

theorem day_rate_total:
  assumes "rs_rate row = Some (Per_day, rate, cur)" and "on_grid 2 rate"
  shows "(\<Sum>(m, x)\<leftarrow>compute_totals db row days. x) = rate * of_nat (length days)"
proof -
  let ?ms = "sort (remdups (map period_of days))"
  have "compute_totals db row days = map (\<lambda>m. (m, rate * of_nat (month_days m days))) ?ms"
    using assms by (simp add: compute_totals_def month_amount_def round2_grid on_grid_times_nat)
  then have "(\<Sum>(m, x)\<leftarrow>compute_totals db row days. x) = (\<Sum>m\<leftarrow>?ms. rate * of_nat (month_days m days))"
    by (simp add: o_def)
  also have "\<dots> = rate * of_nat (\<Sum>m\<leftarrow>?ms. month_days m days)"
    by (simp add: sum_list_const_mult of_nat_month_days)
  also have "(\<Sum>m\<leftarrow>?ms. month_days m days) = length days" by (rule sum_month_days) simp_all
  finally show ?thesis .
qed

text \<open>A substitute paid per month never gets more than the monthly rate for a month: when the
  confirmed days are distinct working days, every monthly total is at most the rate, and it is
  the whole rate once all working days of the month are confirmed.\<close>

theorem month_rate_cap:
  assumes "rs_rate row = Some (Per_month, rate, cur)" and "on_grid 2 rate" and "0 \<le> rate"
    and "distinct days" and "\<forall>d \<in> set days. workday db True d \<and> 1000 \<le> year_of d \<and> year_of d \<le> 9999"
    and "(m, x) \<in> set (compute_totals db row days)"
  shows "0 \<le> x \<and> x \<le> rate
    \<and> (\<exists>first_day last_day. parse_period m = Some (first_day, last_day)
         \<and> (set (working_dates first_day last_day db True) \<subseteq> set days \<longrightarrow> x = rate))"
proof -
  have m: "m \<in> period_of ` set days" and x: "x = round2 (month_amount db Per_month rate m (month_days m days))"
    using assms(1,6) by (auto simp: compute_totals_def)
  then obtain d0 where d0: "d0 \<in> set days" "m = period_of d0" by auto
  let ?f = "month_first (year_of d0) (month_of d0)" and ?l = "month_last (year_of d0) (month_of d0)"
  let ?w = "working_dates ?f ?l db True" and ?in = "filter (\<lambda>d. period_of d = m) days"
  have y0: "1 \<le> year_of d0" "year_of d0 \<le> 9999" using assms(5) d0 by auto
  have p: "parse_period m = Some (?f, ?l)" using period_roundtrip_parse assms(5) d0 by auto
  have sub: "set ?in \<subseteq> set ?w"
  proof
    fix d assume "d \<in> set ?in"
    then have "d \<in> set days" "month_index d = month_index d0" using assms(5) d0 period_of_eq by auto
    then show "d \<in> set ?w" using assms(5) month_interval [of d0 d] y0 by (auto simp: working_dates_iff)
  qed
  have "distinct ?w" by (simp add: working_dates_filter)
  then have w: "length ?w = card (set ?w)" by (simp add: distinct_card)
  have k: "month_days m days = card (set ?in)" using assms(4) by (simp add: month_days_def distinct_card [symmetric])
  have "month_days m days \<le> length ?w" unfolding w k using sub by (intro card_mono) simp_all
  moreover have "1 \<le> month_days m days"
    using d0 unfolding month_days_def by (simp add: Suc_le_eq filter_empty_conv) blast
  ultimately have n: "0 < length ?w" "month_days m days \<le> length ?w" by linarith+
  have amount: "month_amount db Per_month rate m (month_days m days) = rate * of_nat (month_days m days) / of_nat (length ?w)"
    using n by (simp add: month_amount_def p Let_def)
  have "rate * of_nat (month_days m days) / of_nat (length ?w) \<le> rate"
    using n assms(3) by (simp add: divide_le_eq mult_left_mono)
  then have "0 \<le> x" "x \<le> rate"
    unfolding x amount using assms(2,3) by (auto intro!: round2_le round2_nonneg)
  moreover have "x = rate" if "set ?w \<subseteq> set days"
  proof -
    have "set ?w \<subseteq> set ?in"
    proof
      fix d assume "d \<in> set ?w"
      then have d: "d \<in> set days" "month_index d = month_index d0"
        using that month_interval [OF y0, of d] by (auto simp: working_dates_iff)
      show "d \<in> set ?in" using d0 d period_of_month [OF d(2)] by simp
    qed
    then have "month_days m days = length ?w" using sub w k by auto
    then show ?thesis using n amount x assms(2) by (simp add: round2_grid)
  qed
  ultimately show ?thesis using p by blast
qed

end
