(* ===== verification/Leave_Report.thy ===== *)
theory Leave_Report
  imports Leave_Payroll
begin

text \<open>
  What the payroll report says: every scheduled day of an employee is counted once as worked,
  paid leave or unpaid leave, the salary in force is the latest one, the amounts of a row add up
  to the cent and the totals of a currency are the sums of its rows.
\<close>

subsection \<open>Days\<close>

definition covers :: "leave_request \<Rightarrow> date \<Rightarrow> bool" where
  "covers r d \<longleftrightarrow> lr_start r \<le> d \<and> d \<le> lr_end r"

definition cover_ok :: "date list \<Rightarrow> date list \<times> nat \<times> nat \<Rightarrow> bool" where
  "cover_ok scheduled acc = (case acc of (covered, paid, unpaid) \<Rightarrow>
     distinct covered \<and> set covered \<subseteq> set scheduled \<and> paid + unpaid = length covered)"

lemma cover_days_ok:
  "cover_ok scheduled acc \<Longrightarrow> set ds \<subseteq> set scheduled \<Longrightarrow>
     cover_ok scheduled (cover_days req p ds acc)
     \<and> set (fst (cover_days req p ds acc)) = set (fst acc) \<union> {d \<in> set ds. covers req d}"
proof (induction req p ds acc rule: cover_days.induct)
  case (2 req p d ds covered paid unpaid)
  let ?acc = "if lr_start req \<le> d \<and> d \<le> lr_end req \<and> d \<notin> set covered
        then (if p then (d # covered, paid + 1, unpaid) else (d # covered, paid, unpaid + 1))
        else (covered, paid, unpaid)"
  have "cover_ok scheduled ?acc" using 2 by (auto simp: cover_ok_def)
  then have "cover_ok scheduled (cover_days req p ds ?acc)
      \<and> set (fst (cover_days req p ds ?acc)) = set (fst ?acc) \<union> {d \<in> set ds. covers req d}"
    using 2 by simp
  then show ?case by (auto simp: covers_def)
qed simp

lemma cover_requests_ok:
  "cover_ok scheduled acc \<Longrightarrow>
     cover_ok scheduled (cover_requests db scheduled reqs acc)
     \<and> set (fst (cover_requests db scheduled reqs acc))
        = set (fst acc) \<union> {d \<in> set scheduled. \<exists>r \<in> set reqs. covers r d}"
proof (induction db scheduled reqs acc rule: cover_requests.induct)
  case (2 db scheduled req reqs acc)
  have "cover_ok scheduled (cover_days req (type_is_paid db req) scheduled acc)
     \<and> set (fst (cover_days req (type_is_paid db req) scheduled acc)) = set (fst acc) \<union> {d \<in> set scheduled. covers req d}"
    using 2 by (intro cover_days_ok) auto
  then show ?case using 2 by auto
qed simp

lemma cover_total:
  assumes "distinct scheduled" and "cover_requests db scheduled reqs ([], 0, 0) = (covered, paid, unpaid)"
  shows "set covered = {d \<in> set scheduled. \<exists>r \<in> set reqs. covers r d}"
    and "paid + unpaid = length (filter (\<lambda>d. \<exists>r \<in> set reqs. covers r d) scheduled)"
proof -
  have ok: "cover_ok scheduled (covered, paid, unpaid)"
    and s: "set covered = {d \<in> set scheduled. \<exists>r \<in> set reqs. covers r d}"
    using cover_requests_ok [of scheduled "([], 0, 0)" db reqs] assms(2) by (auto simp: cover_ok_def)
  have "paid + unpaid = card (set covered)" using ok by (simp add: cover_ok_def distinct_card)
  also have "\<dots> = length (filter (\<lambda>d. \<exists>r \<in> set reqs. covers r d) scheduled)"
    unfolding s using assms(1) distinct_card [of "filter (\<lambda>d. \<exists>r \<in> set reqs. covers r d) scheduled"] by simp
  finally show "paid + unpaid = length (filter (\<lambda>d. \<exists>r \<in> set reqs. covers r d) scheduled)" .
  show "set covered = {d \<in> set scheduled. \<exists>r \<in> set reqs. covers r d}" by (rule s)
qed

text \<open>Approved leave of a user on a day.\<close>

definition on_leave :: "leave_db \<Rightarrow> pk \<Rightarrow> date \<Rightarrow> bool" where
  "on_leave db user d \<longleftrightarrow>
     (\<exists>r \<in> set (db_requests db). lr_employee r = user \<and> lr_status r = Approved \<and> covers r d)"

lemma report_row_days:
  assumes working: "working = working_dates first_day last_day db True"
    and row_def: "row = payroll_row_of db period mode dc tax pen first_day last_day working comps today u"
    and scheduled_def: "scheduled = scheduled_days u working"
  shows "pr_working_days row = length working" "pr_scheduled_days row = length scheduled"
    "pr_paid_leave row + pr_unpaid row = length (filter (on_leave db (u_pk u)) scheduled)"
    "pr_worked row = length (filter (\<lambda>d. d < today \<and> \<not> on_leave db (u_pk u) d) scheduled)"
proof -
  let ?reqs = "rev (filter (\<lambda>r. lr_employee r = u_pk u \<and> lr_status r = Approved
                         \<and> lr_start r \<le> last_day \<and> first_day \<le> lr_end r) (db_requests db))"
  obtain covered paid unpaid where c: "cover_requests db scheduled ?reqs ([], 0, 0) = (covered, paid, unpaid)"
    by (rule prod_cases3)
  have range: "first_day \<le> d \<and> d \<le> last_day" if "d \<in> set scheduled" for d
    using that unfolding scheduled_def scheduled_days_def working by (auto simp: working_dates_iff)
  have dist: "distinct scheduled"
    unfolding scheduled_def scheduled_days_def working by (simp add: working_dates_filter)
  have same: "(\<exists>r \<in> set ?reqs. covers r d) \<longleftrightarrow> on_leave db (u_pk u) d" if "d \<in> set scheduled" for d
    using range [OF that] by (auto simp: on_leave_def covers_def)
  have f: "filter (\<lambda>d. \<exists>r \<in> set ?reqs. covers r d) scheduled = filter (on_leave db (u_pk u)) scheduled"
    by (rule filter_cong) (simp_all only: same)
  have w: "filter (\<lambda>d. d < today \<and> d \<notin> set covered) scheduled
      = filter (\<lambda>d. d < today \<and> \<not> on_leave db (u_pk u) d) scheduled"
    using cover_total(1) [OF dist c] same by (intro filter_cong) auto
  show "pr_working_days row = length working" "pr_scheduled_days row = length scheduled"
    unfolding row_def scheduled_def payroll_row_of_def by (simp_all add: Let_def split: prod.split)
  show "pr_paid_leave row + pr_unpaid row = length (filter (on_leave db (u_pk u)) scheduled)"
    using cover_total(2) [OF dist c, unfolded f] c unfolding row_def payroll_row_of_def scheduled_def by (simp add: Let_def)
  show "pr_worked row = length (filter (\<lambda>d. d < today \<and> \<not> on_leave db (u_pk u) d) scheduled)"
    using c arg_cong [OF w, of length] unfolding row_def payroll_row_of_def scheduled_def by (simp add: Let_def)
qed

lemma length_filter_mono: "(\<And>x. P x \<Longrightarrow> Q x) \<Longrightarrow> length (filter P xs) \<le> length (filter Q xs)"
  by (induction xs) (auto simp: le_Suc_eq)

lemma filter_partition:
  "length (filter P xs) + length (filter (\<lambda>x. \<not> P x) xs) = length xs"
  by (rule sum_length_filter_compl)

text \<open>No day of the month is counted twice or lost: in every row of the payroll report the paid and
  unpaid leave days are together the scheduled days on which the employee has approved leave,
  however many approved requests cover a day, the worked days are the past ones without leave,
  so worked, paid and unpaid days never exceed the scheduled days and make them up exactly once
  the month is over; and the scheduled days are at most the working days.\<close>

theorem report_days_partition:
  "let working = working_dates first_day last_day db True;
       row = payroll_row_of db period mode dc tax pen first_day last_day working comps today u
   in pr_paid_leave row + pr_unpaid row = length (filter (on_leave db (u_pk u)) (scheduled_days u working))
    \<and> pr_worked row + pr_paid_leave row + pr_unpaid row \<le> pr_scheduled_days row
    \<and> (today \<le> last_day \<or> pr_worked row + pr_paid_leave row + pr_unpaid row = pr_scheduled_days row)
    \<and> pr_scheduled_days row \<le> pr_working_days row"
proof -
  define working where "working = working_dates first_day last_day db True"
  let ?row = "payroll_row_of db period mode dc tax pen first_day last_day working comps today u"
  let ?s = "scheduled_days u working" and ?l = "on_leave db (u_pk u)"
  note days = report_row_days [OF working_def refl refl, of period mode dc tax pen comps today u]
  have all: "length (filter ?l ?s) + length (filter (\<lambda>d. \<not> ?l d) ?s) = length ?s" by (rule filter_partition)
  have "length (filter (\<lambda>d. d < today \<and> \<not> ?l d) ?s) \<le> length (filter (\<lambda>d. \<not> ?l d) ?s)"
    by (rule length_filter_mono) simp
  moreover have "filter (\<lambda>d. d < today \<and> \<not> ?l d) ?s = filter (\<lambda>d. \<not> ?l d) ?s" if "\<not> today \<le> last_day"
    using that by (intro filter_cong) (auto simp: scheduled_days_def working_def working_dates_iff)
  moreover have "length ?s \<le> length working" by (simp add: scheduled_days_def)
  ultimately show ?thesis
    unfolding Let_def working_def [symmetric] using days all by (cases "today \<le> last_day") simp_all
qed

subsection \<open>Salaries\<close>

lemma salary_loop_spec:
  "salary_loop user d best cs = Some c \<Longrightarrow>
     (c \<in> set cs \<and> co_user c = user \<and> co_from c \<le> d \<or> best = Some c)
     \<and> (\<forall>c' \<in> set cs. co_user c' = user \<and> co_from c' \<le> d \<longrightarrow> co_from c' \<le> co_from c)
     \<and> (\<forall>b. best = Some b \<longrightarrow> co_from b \<le> co_from c)"
proof (induction user d best cs rule: salary_loop.induct)
  case (2 user d best c0 cs)
  then show ?case by (auto split: if_splits option.splits)
qed simp

lemma salary_loop_None:
  "salary_loop user d best cs = None \<longleftrightarrow>
     best = None \<and> (\<forall>c \<in> set cs. \<not> (co_user c = user \<and> co_from c \<le> d))"
proof (induction user d best cs rule: salary_loop.induct)
  case (2 user d best c0 cs)
  then show ?case by (cases best) auto
qed simp

lemma salary_loop_cong:
  assumes "filter (\<lambda>c. co_user c = user \<and> co_from c \<le> d) cs = filter (\<lambda>c. co_user c = user \<and> co_from c \<le> d) cs'"
  shows "salary_loop user d best cs = salary_loop user d best cs'"
proof -
  have "salary_loop user d best cs = salary_loop user d best (filter (\<lambda>c. co_user c = user \<and> co_from c \<le> d) cs)" for cs
    by (induction user d best cs rule: salary_loop.induct) auto
  then show ?thesis using assms by metis
qed

lemma salary_for_mem: "salary_for user d comps = Some (s, cur) \<Longrightarrow> \<exists>c \<in> set comps. co_salary c = s"
  by (auto simp: salary_for_def dest!: salary_loop_spec)

subsection \<open>Money\<close>

text \<open>The constraints of the columns: amounts are cents and not negative, rates are percentages.\<close>

definition money :: "decimal \<Rightarrow> bool" where
  "money x \<longleftrightarrow> 0 \<le> x \<and> on_grid 2 x"

definition payroll_columns_ok :: "leave_db \<Rightarrow> bool" where
  "payroll_columns_ok db \<longleftrightarrow>
     (\<forall>c \<in> set (db_comps db). money (co_salary c))
   \<and> (\<forall>s \<in> set (db_subs db). \<forall>(m, x) \<in> set (rs_totals s). money x)
   \<and> (\<forall>s. db_settings db = Some s \<longrightarrow> 0 \<le> ls_income_tax_rate s \<and> ls_income_tax_rate s \<le> 100
        \<and> 0 \<le> ls_pension_rate s \<and> ls_pension_rate s \<le> 100)"

definition row_adds_up :: "payroll_mode \<Rightarrow> payroll_row \<Rightarrow> bool" where
  "row_adds_up mode row \<longleftrightarrow>
     money (pr_base row) \<and> money (pr_substitution row) \<and> pr_gross row = pr_base row + pr_substitution row
   \<and> (case pr_salary row of None \<Rightarrow> pr_base row = 0 | Some s \<Rightarrow> pr_base row \<le> s)
   \<and> (case (mode, pr_net row) of
        (Gross, None) \<Rightarrow> True
      | (Net, Some (pension, tax, net)) \<Rightarrow>
          money pension \<and> money tax \<and> money net \<and> pension + tax + net = pr_gross row
      | _ \<Rightarrow> False)"

lemma money_round2: "0 \<le> x \<Longrightarrow> money (round2 x)"
  by (simp add: money_def round2_nonneg on_grid_round2)

lemma money_add: "money x \<Longrightarrow> money y \<Longrightarrow> money (x + y)"
  by (simp add: money_def on_grid_add)

lemma money_round2_id: "money x \<Longrightarrow> round2 x = x"
  by (simp add: money_def round2_grid)

lemma money_diff: "money x \<Longrightarrow> money y \<Longrightarrow> y \<le> x \<Longrightarrow> money (x - y)"
  by (simp add: money_def on_grid_diff)

lemma percent_le:
  assumes "money x" "0 \<le> p" "p \<le> 100"
  shows "round2 (x * p / 100) \<le> x" "money (round2 (x * p / 100))"
proof -
  have "x * p \<le> x * 100" using assms by (intro mult_left_mono) (simp_all add: money_def)
  then show "round2 (x * p / 100) \<le> x" "money (round2 (x * p / 100))"
    using assms by (auto simp: money_def intro!: round2_le round2_nonneg on_grid_round2)
qed

lemma money_sum: "(\<And>x. x \<in> set xs \<Longrightarrow> money (f x)) \<Longrightarrow> money (\<Sum>x\<leftarrow>xs. f x)"
  unfolding money_def by (auto intro: sum_list_nonneg_rat on_grid_sum)

lemma net_split:
  assumes "money gross" "0 \<le> p" "p \<le> 100" "0 \<le> t" "t \<le> 100"
  defines "pension \<equiv> round2 (gross * p / 100)"
  defines "tax \<equiv> round2 ((gross - pension) * t / 100)"
  shows "money pension" "money tax" "money (round2 (gross - pension - tax))"
    "pension + tax + round2 (gross - pension - tax) = gross"
proof -
  show "money pension" unfolding pension_def using assms percent_le by blast
  have rest: "money (gross - pension)"
    unfolding pension_def using assms percent_le by (intro money_diff) blast+
  show "money tax" unfolding tax_def using rest assms percent_le by blast
  have "money (gross - pension - tax)"
    using money_diff [OF rest \<open>money tax\<close>] percent_le(1) [OF rest assms(4,5)] by (simp add: tax_def)
  then show "money (round2 (gross - pension - tax))" "pension + tax + round2 (gross - pension - tax) = gross"
    by (simp_all add: money_round2_id)
qed

lemma pay_rows_amount:
  assumes "p \<in> set (pay_rows db dc period user)"
  shows "\<exists>s \<in> set (db_subs db). (period, snd p) \<in> set (rs_totals s)"
proof -
  obtain s where s: "s \<in> set (db_subs db)" and p: "p \<in> set (case map_of (rs_totals s) period of
               None \<Rightarrow> []
             | Some amount \<Rightarrow>
                 [((case rs_rate s of Some (_, _, c) \<Rightarrow> if c = [] then dc else c
                                    | None \<Rightarrow> dc), amount)])"
    using assms by (auto simp: pay_rows_def split: if_splits)
  then show ?thesis
    by (cases "map_of (rs_totals s) period") (auto dest: map_of_SomeD)
qed

lemma pay_in_money:
  assumes "payroll_columns_ok db"
  shows "money (pay_in c (pay_rows db dc period user))"
proof -
  have "money (snd p)" if "p \<in> set (pay_rows db dc period user)" for p
    using pay_rows_amount [OF that] assms by (auto simp: payroll_columns_ok_def)
  moreover have "money 0" by (simp add: money_def on_grid_0)
  ultimately show ?thesis unfolding pay_in_def by (intro money_sum) (auto split: prod.splits)
qed

lemma row_money:
  assumes ok: "payroll_columns_ok db" and rates: "0 \<le> tax_rate" "tax_rate \<le> 100" "0 \<le> pension_rate" "pension_rate \<le> 100"
    and comps: "set comps \<subseteq> set (db_comps db)"
    and working: "working = working_dates first_day last_day db True"
    and row: "row = payroll_row_of db period mode dc tax_rate pension_rate first_day last_day working comps today u"
  shows "row_adds_up mode row"
proof -
  let ?n = "length (scheduled_days u working)"
  obtain covered paid unpaid where c: "cover_requests db (scheduled_days u working)
      (rev (filter (\<lambda>r. lr_employee r = u_pk u \<and> lr_status r = Approved
         \<and> lr_start r \<le> last_day \<and> first_day \<le> lr_end r) (db_requests db))) ([], 0, 0) = (covered, paid, unpaid)"
    by (rule prod_cases3)
  have unpaid: "unpaid \<le> ?n" "?n \<le> length working"
    using report_row_days [OF working row refl] sum_length_filter_compl [of "on_leave db (u_pk u)" "scheduled_days u working"]
      c by (simp_all add: row payroll_row_of_def Let_def scheduled_days_def)
  have salary: "money s" if "salary_for (u_pk u) last_day comps = Some (s, cur)" for s cur
    using salary_for_mem [OF that] ok comps by (auto simp: payroll_columns_ok_def)
  have base: "money (round2 (s * (of_nat ?n - of_nat unpaid) / of_nat (length working)))
      \<and> round2 (s * (of_nat ?n - of_nat unpaid) / of_nat (length working)) \<le> s" if "money s" "working \<noteq> []" for s
  proof -
    have k: "(of_nat ?n - of_nat unpaid :: rat) = of_nat (?n - unpaid)" using unpaid by (simp add: of_nat_diff)
    have "s * of_nat (?n - unpaid) \<le> s * of_nat (length working)"
      using that unpaid by (intro mult_left_mono) (simp_all add: money_def)
    then have "s * of_nat (?n - unpaid) / of_nat (length working) \<le> s"
      using that by (simp add: divide_le_eq)
    then show ?thesis unfolding k using that by (auto simp: money_def intro!: round2_le round2_nonneg on_grid_round2)
  qed
  have z: "money 0" by (simp add: money_def on_grid_0)
  let ?b = "pr_base row" and ?s = "pr_substitution row"
  have b: "money ?b" "case pr_salary row of None \<Rightarrow> ?b = 0 | Some s \<Rightarrow> ?b \<le> s"
    using salary base z c by (auto simp: row payroll_row_of_def Let_def money_def split: option.splits)
  have s: "money ?s" using pay_in_money [OF ok] c
    by (simp add: row payroll_row_of_def Let_def money_round2_id split: option.splits)
  have g: "pr_gross row = ?b + ?s" using money_round2_id [OF money_add [OF b(1) s]] c
    by (simp add: row payroll_row_of_def Let_def)
  have n: "pr_net row = (if mode = Net then Some (round2 (pr_gross row * pension_rate / 100),
        round2 ((pr_gross row - round2 (pr_gross row * pension_rate / 100)) * tax_rate / 100),
        round2 (pr_gross row - round2 (pr_gross row * pension_rate / 100)
          - round2 ((pr_gross row - round2 (pr_gross row * pension_rate / 100)) * tax_rate / 100))) else None)"
    using c by (simp add: row payroll_row_of_def Let_def)
  show ?thesis
    unfolding row_adds_up_def n
    using b s g net_split [OF money_add [OF b(1) s] rates(3,4,1,2)] by (cases mode) simp_all
qed

lemma build_report_cases:
  assumes "build_report db period ids today = Some rep"
  obtains first_day last_day tax pen dc comps wanted where
    "parse_period period = Some (first_day, last_day)"
    "comps = filter (\<lambda>c. co_from c \<le> last_day) (db_comps db)"
    "po_rows rep = map (payroll_row_of db period (po_mode rep) dc tax pen first_day last_day
       (working_dates first_day last_day db True) comps today) wanted"
    "po_totals rep = report_totals (po_mode rep) (po_rows rep)"
    "payroll_columns_ok db \<longrightarrow> 0 \<le> tax \<and> tax \<le> 100 \<and> 0 \<le> pen \<and> pen \<le> 100"
    "set wanted \<subseteq> set (db_users db)"
proof -
  obtain first_day last_day where p: "parse_period period = Some (first_day, last_day)"
    using assms by (auto simp: build_report_def split: option.splits)
  show thesis
    using assms p that by (cases "db_settings db") (force simp: build_report_def Let_def payroll_columns_ok_def)+
qed

lemma report_rows_money:
  assumes "build_report db period ids today = Some rep" and "payroll_columns_ok db" and "row \<in> set (po_rows rep)"
  shows "row_adds_up (po_mode rep) row"
proof -
  obtain first_day last_day tax pen dc comps wanted where r: "comps = filter (\<lambda>c. co_from c \<le> last_day) (db_comps db)"
    "po_rows rep = map (payroll_row_of db period (po_mode rep) dc tax pen first_day last_day
       (working_dates first_day last_day db True) comps today) wanted"
    "payroll_columns_ok db \<longrightarrow> 0 \<le> tax \<and> tax \<le> 100 \<and> 0 \<le> pen \<and> pen \<le> 100"
    using build_report_cases [OF assms(1)] by metis
  obtain u where "row = payroll_row_of db period (po_mode rep) dc tax pen first_day last_day
       (working_dates first_day last_day db True) comps today u"
    using assms(3) r(2) by auto
  then show ?thesis using assms(2) r(1,3) by (intro row_money [OF assms(2) _ _ _ _ _ refl]) auto
qed

definition totals_ok :: "payroll_mode \<Rightarrow> payroll_row list \<Rightarrow> payroll_totals \<Rightarrow> bool" where
  "totals_ok mode rows t \<longleftrightarrow>
     pt_base t = (\<Sum>r\<leftarrow>rows. pr_base r) \<and> pt_substitution t = (\<Sum>r\<leftarrow>rows. pr_substitution r)
   \<and> pt_gross t = pt_base t + pt_substitution t
   \<and> (case pt_net t of None \<Rightarrow> mode = Gross
      | Some (pension, tax, net) \<Rightarrow> mode = Net \<and> pension + tax + net = pt_gross t)"

lemma totals_of_exact:
  assumes "\<And>r. r \<in> set rows \<Longrightarrow> row_adds_up mode r"
  shows "totals_ok mode rows (totals_of mode rows)"
proof -
  let ?p = "\<lambda>r. case pr_net r of Some (p, _, _) \<Rightarrow> p | None \<Rightarrow> 0"
    and ?t = "\<lambda>r. case pr_net r of Some (_, t, _) \<Rightarrow> t | None \<Rightarrow> 0"
    and ?n = "\<lambda>r. case pr_net r of Some (_, _, n) \<Rightarrow> n | None \<Rightarrow> 0"
  have m: "money (pr_base r)" "money (pr_substitution r)" "money (pr_gross r)"
    "pr_gross r = pr_base r + pr_substitution r"
    "mode = Net \<Longrightarrow> money (?p r) \<and> money (?t r) \<and> money (?n r) \<and> ?p r + ?t r + ?n r = pr_gross r"
    if "r \<in> set rows" for r
    using assms [OF that] by (auto simp: row_adds_up_def money_add split: option.splits)
  have r: "round2 (\<Sum>r\<leftarrow>rows. f r) = (\<Sum>r\<leftarrow>rows. f r)" if "\<And>r. r \<in> set rows \<Longrightarrow> money (f r)" for f
    using money_round2_id [OF money_sum [OF that]] .
  have g: "(\<Sum>r\<leftarrow>rows. pr_gross r) = (\<Sum>r\<leftarrow>rows. pr_base r) + (\<Sum>r\<leftarrow>rows. pr_substitution r)"
    unfolding sum_list_addf [symmetric] using m(4) by (intro arg_cong [where f = sum_list] map_cong) auto
  have n: "(\<Sum>r\<leftarrow>rows. ?p r) + (\<Sum>r\<leftarrow>rows. ?t r) + (\<Sum>r\<leftarrow>rows. ?n r) = (\<Sum>r\<leftarrow>rows. pr_gross r)" if "mode = Net"
    unfolding sum_list_addf [symmetric] using m(5) that by (intro arg_cong [where f = sum_list] map_cong) auto
  have "pt_base (totals_of mode rows) = (\<Sum>r\<leftarrow>rows. pr_base r)"
    "pt_substitution (totals_of mode rows) = (\<Sum>r\<leftarrow>rows. pr_substitution r)"
    "pt_gross (totals_of mode rows) = (\<Sum>r\<leftarrow>rows. pr_gross r)"
    using m r by (simp_all add: totals_of_def)
  moreover have "pt_net (totals_of mode rows) = (if mode = Net then
      Some (\<Sum>r\<leftarrow>rows. ?p r, \<Sum>r\<leftarrow>rows. ?t r, \<Sum>r\<leftarrow>rows. ?n r) else None)"
    using m(5) r [of ?p] r [of ?t] r [of ?n] by (simp add: totals_of_def)
  ultimately show ?thesis using g n by (cases mode) (simp_all add: totals_ok_def)
qed

text \<open>C9: Every payroll row adds up to the cent: gross is base plus substitution pay, the base never
  exceeds the salary, in net mode pension, income tax and net pay are never negative and sum to
  the gross; and the totals of a currency are the exact sums over its rows, no cent lost to
  rounding.\<close>

theorem payroll_adds_up:
  assumes "build_report db period ids today = Some rep" and "payroll_columns_ok db"
  shows "list_all (row_adds_up (po_mode rep)) (po_rows rep)
    \<and> list_all (\<lambda>(c, t). let rows = filter (\<lambda>r. pr_currency r = c) (po_rows rep) in
         pt_base t = (\<Sum>r\<leftarrow>rows. pr_base r) \<and> pt_substitution t = (\<Sum>r\<leftarrow>rows. pr_substitution r)
       \<and> pt_gross t = pt_base t + pt_substitution t
       \<and> (case pt_net t of None \<Rightarrow> po_mode rep = Gross
          | Some (pension, tax, net) \<Rightarrow> po_mode rep = Net \<and> pension + tax + net = pt_gross t))
         (po_totals rep)"
proof -
  note rows = report_rows_money [OF assms]
  have t: "po_totals rep = report_totals (po_mode rep) (po_rows rep)"
    using build_report_cases [OF assms(1)] by metis
  have totals: "totals_ok (po_mode rep) rows' (totals_of (po_mode rep) rows')"
    if "set rows' \<subseteq> set (po_rows rep)" for rows'
    using totals_of_exact rows that by blast
  show ?thesis
    unfolding t report_totals_def list_all_iff using rows totals by (auto simp: totals_ok_def)
qed

end
