(* ===== verification/Leave_Payroll_Runs.thy ===== *)
theory Leave_Payroll_Runs
  imports Leave_Report Leave_Requests
begin

text \<open>
  The payroll endpoints of \<^verbatim>\<open>leave_management/views_payroll.py\<close>: substitution rates, the worked
  days of a substitute, the salary history and the locking of a month.  \<open>payroll_op\<close> lists the
  calls and \<open>payroll_call\<close> runs one; a refused call changes nothing.  The theorem is about what a
  locked month protects.
\<close>

datatype payroll_error =
    Pay_denied
  | Pay_not_found
  | Pay_bad_body
  | Pay_month_locked
  | Pay_duplicate
  | Pay_days_refused worked_days_error
  | Pay_already_locked
  | Pay_not_locked
  | Pay_reason_needed
  | Pay_bad_period

definition SubstitutionPayOn :: "leave_db \<Rightarrow> bool" where
  "SubstitutionPayOn db =
     LeaveFeatureEnabled [ls_substitutes_enabled, ls_substitution_pay_enabled] (db_settings db)"

definition PayrollOn :: "leave_db \<Rightarrow> bool" where
  "PayrollOn db = LeaveFeatureEnabled [ls_payroll_enabled] (db_settings db)"

definition pay_rates_allowed :: "leave_db \<Rightarrow> user \<Rightarrow> bool" where
  "pay_rates_allowed db u \<longleftrightarrow> SubstitutionPayOn db \<and> is_payroll_manager (db_settings db) (Some u)"

definition payroll_allowed :: "leave_db \<Rightarrow> user \<Rightarrow> bool" where
  "payroll_allowed db u \<longleftrightarrow> PayrollOn db \<and> is_payroll_manager (db_settings db) (Some u)"

definition default_payroll_currency :: "leave_db \<Rightarrow> string" where
  "default_payroll_currency db = (case db_settings db of None \<Rightarrow> [] | Some s \<Rightarrow> ls_payroll_currency s)"

subsection \<open>Substitution rates\<close>

text \<open>A \<^verbatim>\<open>DecimalField(decimal_places=2)\<close> refuses more than two decimals.\<close>

definition two_decimals :: "decimal \<Rightarrow> bool" where
  "two_decimals x \<longleftrightarrow> of_int \<lfloor>x * 100\<rfloor> = x * 100"

definition pay_event ::
  "string \<Rightarrow> string \<Rightarrow> pk \<Rightarrow> pk option \<Rightarrow> string \<Rightarrow> audit_data \<Rightarrow> leave_db \<Rightarrow> leave_db" where
  "pay_event kind action actor subject object_id data =
     log_event \<lparr>ev_kind = kind, ev_action = action, ev_request = None, ev_subject = subject,
       ev_actor = Some actor, ev_object = object_id, ev_from = [], ev_to = [], ev_kpi = None,
       ev_data = data\<rparr>"

definition set_rate ::
  "leave_db \<Rightarrow> user \<Rightarrow> pk \<Rightarrow> rate_mode \<Rightarrow> decimal \<Rightarrow> string option \<Rightarrow> payroll_error + leave_db" where
  "set_rate db u k mode amount body_currency =
     (if \<not> pay_rates_allowed db u then Inl Pay_denied
      else case find (\<lambda>a. sa_pk a = k) (db_assignments db) of
        None \<Rightarrow> Inl Pay_not_found
      | Some a \<Rightarrow>
          if amount < 1/100 \<or> 1000000 < amount \<or> \<not> two_decimals amount
             \<or> (\<exists>c. body_currency = Some c \<and> length c > 3) then Inl Pay_bad_body
          else
            let chosen = (case body_currency of
                            Some c \<Rightarrow> if c = [] then default_payroll_currency db else c
                          | None \<Rightarrow> default_payroll_currency db);
                rate = (mode, amount, upper chosen);
                db1 = db\<lparr>db_assignments := row_save sa_pk (a\<lparr>sa_rate := Some rate\<rparr>) (db_assignments db)\<rparr>;
                (db2, filled) = backfill_rate db1 a rate
            in Inr (pay_event ''rate'' ''set'' (u_pk u) (Some (sa_substitute a)) (nat_text k)
                 (Rate_data (sa_owner a) (sa_task a) mode amount (upper chosen) filled) db2))"

definition delete_rate :: "leave_db \<Rightarrow> user \<Rightarrow> pk \<Rightarrow> payroll_error + leave_db" where
  "delete_rate db u k =
     (if \<not> pay_rates_allowed db u then Inl Pay_denied
      else case find (\<lambda>a. sa_pk a = k) (db_assignments db) of
        None \<Rightarrow> Inl Pay_not_found
      | Some a \<Rightarrow>
          if sa_rate a = None then Inr db
          else Inr (pay_event ''rate'' ''deleted'' (u_pk u) (Some (sa_substitute a)) (nat_text k) No_data
                 (db\<lparr>db_assignments := row_save sa_pk (a\<lparr>sa_rate := None\<rparr>) (db_assignments db)\<rparr>)))"

subsection \<open>Worked days\<close>

definition coverage_row :: "leave_db \<Rightarrow> pk \<Rightarrow> request_substitute option" where
  "coverage_row db k =
     (case row_get rs_pk k (db_subs db) of
        None \<Rightarrow> None
      | Some s \<Rightarrow>
          if (\<exists>r. get_request db (rs_request s) = Some r \<and> lr_status r = Approved)
             \<and> rs_status s \<noteq> Sub_rejected
          then Some s else None)"

definition worked_days ::
  "leave_db \<Rightarrow> user \<Rightarrow> pk \<Rightarrow> date list \<Rightarrow> date \<Rightarrow> datetime \<Rightarrow> payroll_error + leave_db" where
  "worked_days db u k days today now =
     (if \<not> pay_rates_allowed db u then Inl Pay_denied
      else if length days > 366 then Inl Pay_bad_body
      else case coverage_row db k of
        None \<Rightarrow> Inl Pay_not_found
      | Some row \<Rightarrow>
          (case set_worked_days db row days (u_pk u) today now of
             Inl e \<Rightarrow> Inl (Pay_days_refused e)
           | Inr db' \<Rightarrow> Inr db'))"

subsection \<open>Salaries\<close>

definition guard_locked :: "leave_db \<Rightarrow> date \<Rightarrow> bool" where
  "guard_locked db eff_date \<longleftrightarrow>
     (\<exists>p \<in> set (db_payroll db). py_locked p \<and> period_of eff_date \<le> py_period p)"

text \<open>\<^verbatim>\<open>validate_currency\<close>: None stands for the validation error.\<close>

definition validate_currency :: "string \<Rightarrow> string option" where
  "validate_currency value =
     (let v = upper value in if length v \<noteq> 3 \<or> \<not> list_all is_upper v then None else Some v)"

record comp_body =
  cb_user :: "pk option"
  cb_salary :: "decimal option"
  cb_currency :: "string option"
  cb_from :: "date option"
  cb_note :: "string option"

definition comp_body_ok :: "comp_body \<Rightarrow> bool" where
  "comp_body_ok b \<longleftrightarrow>
     (case cb_salary b of None \<Rightarrow> True | Some s \<Rightarrow> 0 \<le> s \<and> two_decimals s)
   \<and> (case cb_currency b of None \<Rightarrow> True | Some c \<Rightarrow> validate_currency c \<noteq> None)"

definition comp_create :: "leave_db \<Rightarrow> user \<Rightarrow> comp_body \<Rightarrow> payroll_error + leave_db" where
  "comp_create db u b =
     (if \<not> payroll_allowed db u then Inl Pay_denied
      else case (cb_user b, cb_salary b, cb_from b) of
        (Some who, Some salary, Some eff) \<Rightarrow>
          if \<not> comp_body_ok b \<or> get_user db who = None then Inl Pay_bad_body
          else if \<exists>c \<in> set (db_comps db). co_user c = who \<and> co_from c = eff then Inl Pay_duplicate
          else if guard_locked db eff then Inl Pay_month_locked
          else
            let currency = (case cb_currency b of None \<Rightarrow> default_payroll_currency db | Some c \<Rightarrow> upper c);
                entry = \<lparr>co_pk = next_pk co_pk (db_comps db), co_user = who, co_salary = salary,
                        co_currency = currency, co_from = eff,
                        co_note = (case cb_note b of None \<Rightarrow> [] | Some n \<Rightarrow> n),
                        co_created_by = Some (u_pk u)\<rparr>
            in Inr (pay_event ''compensation'' ''created'' (u_pk u) (Some who) (nat_text (co_pk entry))
                 (Salary_data None salary currency eff)
                 (db\<lparr>db_comps := row_create entry (db_comps db)\<rparr>))
      | _ \<Rightarrow> Inl Pay_bad_body)"

definition comp_update :: "leave_db \<Rightarrow> user \<Rightarrow> pk \<Rightarrow> comp_body \<Rightarrow> payroll_error + leave_db" where
  "comp_update db u k b =
     (if \<not> payroll_allowed db u then Inl Pay_denied
      else case row_get co_pk k (db_comps db) of
        None \<Rightarrow> Inl Pay_not_found
      | Some old \<Rightarrow>
          let who = (case cb_user b of Some w \<Rightarrow> w | None \<Rightarrow> co_user old);
              eff = (case cb_from b of Some d \<Rightarrow> d | None \<Rightarrow> co_from old)
          in if \<not> comp_body_ok b \<or> get_user db who = None then Inl Pay_bad_body
             else if \<exists>c \<in> set (db_comps db). co_user c = who \<and> co_from c = eff \<and> co_pk c \<noteq> k
               then Inl Pay_duplicate
             else if guard_locked db (min (co_from old) eff) then Inl Pay_month_locked
             else
               let entry = old\<lparr>co_user := who, co_from := eff,
                     co_salary := (case cb_salary b of Some s \<Rightarrow> s | None \<Rightarrow> co_salary old),
                     co_currency := (case cb_currency b of Some c \<Rightarrow> upper c | None \<Rightarrow> co_currency old),
                     co_note := (case cb_note b of Some n \<Rightarrow> n | None \<Rightarrow> co_note old)\<rparr>
               in Inr (pay_event ''compensation'' ''updated'' (u_pk u) (Some who) (nat_text k)
                    (Salary_data (Some (co_salary old, co_from old)) (co_salary entry) (co_currency entry) eff)
                    (db\<lparr>db_comps := row_save co_pk entry (db_comps db)\<rparr>)))"

definition comp_destroy :: "leave_db \<Rightarrow> user \<Rightarrow> pk \<Rightarrow> payroll_error + leave_db" where
  "comp_destroy db u k =
     (if \<not> payroll_allowed db u then Inl Pay_denied
      else case row_get co_pk k (db_comps db) of
        None \<Rightarrow> Inl Pay_not_found
      | Some entry \<Rightarrow>
          if guard_locked db (co_from entry) then Inl Pay_month_locked
          else let db1 = pay_event ''compensation'' ''deleted'' (u_pk u) (Some (co_user entry)) (nat_text k)
                     (Salary_data None (co_salary entry) (co_currency entry) (co_from entry)) db
               in Inr (db1\<lparr>db_comps := row_delete co_pk k (db_comps db1)\<rparr>))"

subsection \<open>Reports and runs\<close>

definition payroll_list :: "leave_db \<Rightarrow> user \<Rightarrow> string \<Rightarrow> date \<Rightarrow> payroll_error + (leave_db \<times> payroll_report)" where
  "payroll_list db u period today =
     (if \<not> payroll_allowed db u then Inl Pay_denied
      else if parse_period period = None then Inl Pay_bad_period
      else case report_for db period today of
        None \<Rightarrow> Inl Pay_bad_period
      | Some report \<Rightarrow>
          Inr (pay_event ''payroll'' ''viewed'' (u_pk u) None period (Period_data period) db, report))"

definition payroll_export :: "leave_db \<Rightarrow> user \<Rightarrow> string \<Rightarrow> date \<Rightarrow> payroll_error + (leave_db \<times> payroll_report)" where
  "payroll_export db u period today =
     (if \<not> payroll_allowed db u then Inl Pay_denied
      else if parse_period period = None then Inl Pay_bad_period
      else case report_for db period today of
        None \<Rightarrow> Inl Pay_bad_period
      | Some report \<Rightarrow>
          Inr (pay_event ''payroll'' ''exported'' (u_pk u) None period
                 (Export_data period (length (po_rows report))) db, report))"

text \<open>\<^verbatim>\<open>MyPayrollViewSet.list\<close>: the caller's own row and substitution rows.\<close>

definition my_payroll ::
  "leave_db \<Rightarrow> user \<Rightarrow> string \<Rightarrow> date \<Rightarrow> payroll_error + (payroll_row option \<times> (pk \<times> date list \<times> decimal option) list)" where
  "my_payroll db u period today =
     (if \<not> LeaveFeatureEnabled [ls_payroll_enabled, ls_payroll_self_view_enabled] (db_settings db)
      then Inl Pay_denied
      else if parse_period period = None then Inl Pay_bad_period
      else case report_for db period today of
        None \<Rightarrow> Inl Pay_bad_period
      | Some report \<Rightarrow>
          Inr (find (\<lambda>r. pr_user r = u_pk u) (po_rows report),
               map (\<lambda>s. (rs_request s, filter (\<lambda>d. period_of d = period) (rs_worked_days s),
                         map_of (rs_totals s) period))
                 (filter (\<lambda>s. rs_substitute s = u_pk u \<and> map_of (rs_totals s) period \<noteq> None
                    \<and> (\<exists>r. get_request db (rs_request s) = Some r \<and> lr_status r = Approved))
                    (db_subs db))))"

definition lock_run :: "leave_db \<Rightarrow> user \<Rightarrow> string \<Rightarrow> date \<Rightarrow> datetime \<Rightarrow> payroll_error + leave_db" where
  "lock_run db u period today now =
     (if \<not> payroll_allowed db u then Inl Pay_denied
      else if parse_period period = None then Inl Pay_bad_period
      else
        let found = find (\<lambda>p. py_period p = period) (db_payroll db)
        in if (case found of None \<Rightarrow> False | Some p \<Rightarrow> py_locked p) then Inl Pay_already_locked
           else case build_report db period None today of
             None \<Rightarrow> Inl Pay_bad_period
           | Some report \<Rightarrow>
               let t = (case found of
                     None \<Rightarrow> row_create \<lparr>py_pk = next_pk py_pk (db_payroll db), py_period = period,
                         py_mode = po_mode report, py_snapshot = report, py_locked = True,
                         py_locked_by = Some (u_pk u), py_locked_at = Some now, py_unlocked_by = None,
                         py_unlocked_at = None, py_unlock_reason = []\<rparr> (db_payroll db)
                   | Some p \<Rightarrow> row_save py_pk (p\<lparr>py_mode := po_mode report, py_snapshot := report,
                         py_locked := True, py_locked_by := Some (u_pk u), py_locked_at := Some now\<rparr>)
                         (db_payroll db))
               in Inr (pay_event ''payroll'' ''locked'' (u_pk u) None period
                    (Lock_data period (length (po_rows report)) (po_totals report))
                    (db\<lparr>db_payroll := t\<rparr>)))"

definition unlock_run :: "leave_db \<Rightarrow> user \<Rightarrow> pk \<Rightarrow> string \<Rightarrow> datetime \<Rightarrow> payroll_error + leave_db" where
  "unlock_run db u k raw_reason now =
     (if \<not> payroll_allowed db u then Inl Pay_denied
      else if \<not> is_elevated u then Inl Pay_denied
      else if strip raw_reason = [] then Inl Pay_reason_needed
      else case row_get py_pk k (db_payroll db) of
        None \<Rightarrow> Inl Pay_not_found
      | Some run \<Rightarrow>
          if \<not> py_locked run then Inl Pay_not_locked
          else Inr (pay_event ''payroll'' ''unlocked'' (u_pk u) None (py_period run)
                 (Unlock_data (py_period run) (strip raw_reason))
                 (db\<lparr>db_payroll := row_save py_pk (run\<lparr>py_locked := False, py_unlocked_by := Some (u_pk u),
                    py_unlocked_at := Some now, py_unlock_reason := strip raw_reason\<rparr>) (db_payroll db)\<rparr>)))"

subsection \<open>The calls as one step\<close>

datatype payroll_op =
    Set_rate pk rate_mode decimal "string option"
  | Delete_rate pk
  | Worked_days pk "date list"
  | Comp_create comp_body
  | Comp_update pk comp_body
  | Comp_destroy pk
  | Lock_month string
  | Unlock_run pk string
  | View_report string
  | Export_report string

definition payroll_call :: "leave_db \<Rightarrow> user \<Rightarrow> payroll_op \<Rightarrow> date \<Rightarrow> datetime \<Rightarrow> payroll_error + leave_db" where
  "payroll_call db u call today now =
     (case call of
        Set_rate k mode amount cur \<Rightarrow> set_rate db u k mode amount cur
      | Delete_rate k \<Rightarrow> delete_rate db u k
      | Worked_days k days \<Rightarrow> worked_days db u k days today now
      | Comp_create b \<Rightarrow> comp_create db u b
      | Comp_update k b \<Rightarrow> comp_update db u k b
      | Comp_destroy k \<Rightarrow> comp_destroy db u k
      | Lock_month period \<Rightarrow> lock_run db u period today now
      | Unlock_run k reason \<Rightarrow> unlock_run db u k reason now
      | View_report period \<Rightarrow> map_sum id fst (payroll_list db u period today)
      | Export_report period \<Rightarrow> map_sum id fst (payroll_export db u period today))"

subsection \<open>What a locked month protects\<close>

lemma pay_event_frame [simp]:
  "db_comps (pay_event k a u s i d db) = db_comps db" "db_payroll (pay_event k a u s i d db) = db_payroll db"
  "db_subs (pay_event k a u s i d db) = db_subs db" "db_settings (pay_event k a u s i d db) = db_settings db"
  "db_assignments (pay_event k a u s i d db) = db_assignments db"
  by (simp_all add: pay_event_def log_event_def)

text \<open>
  The facts a locked month \<open>period_of d\<close> freezes: its run, the salary of everybody at any day up
  to the end of the month, and the confirmed days of the month on every substitute row.
\<close>

definition salaries_until :: "leave_db \<Rightarrow> date \<Rightarrow> (pk \<times> date \<times> decimal \<times> string) list" where
  "salaries_until db d =
     map (\<lambda>c. (co_user c, co_from c, co_salary c, co_currency c))
       (filter (\<lambda>c. co_from c \<le> month_last (year_of d) (month_of d)) (db_comps db))"

definition days_of_month :: "leave_db \<Rightarrow> date \<Rightarrow> pk \<Rightarrow> date set option" where
  "days_of_month db d k =
     map_option (\<lambda>s. {x \<in> set (rs_worked_days s). period_of x = period_of d}) (row_get rs_pk k (db_subs db))"

definition month_frozen :: "date \<Rightarrow> leave_db \<Rightarrow> leave_db \<Rightarrow> bool" where
  "month_frozen d db db' \<longleftrightarrow>
     locked_run db' (period_of d) = locked_run db (period_of d)
   \<and> salaries_until db' d = salaries_until db d
   \<and> days_of_month db' d = days_of_month db d"

text \<open>Dates the four-digit month text can order, and the unique keys of the run table.\<close>

definition year_ok :: "date \<Rightarrow> bool" where
  "year_ok d \<longleftrightarrow> 1000 \<le> year_of d \<and> year_of d \<le> 9999"

definition runs_ok :: "leave_db \<Rightarrow> bool" where
  "runs_ok db \<longleftrightarrow> distinct (map py_pk (db_payroll db)) \<and> distinct (map py_period (db_payroll db))
     \<and> (\<forall>c \<in> set (db_comps db). year_ok (co_from c)) \<and> distinct (map co_pk (db_comps db))"

definition op_dates_ok :: "payroll_op \<Rightarrow> bool" where
  "op_dates_ok call =
     (case call of
        Comp_create b \<Rightarrow> (case cb_from b of None \<Rightarrow> True | Some d \<Rightarrow> year_ok d)
      | Comp_update k b \<Rightarrow> (case cb_from b of None \<Rightarrow> True | Some d \<Rightarrow> year_ok d)
      | _ \<Rightarrow> True)"

lemma guard_locked_late:
  assumes "locked_run db (period_of d) = Some run" and "\<not> guard_locked db eff" and "year_ok d" "year_ok eff"
  shows "month_last (year_of d) (month_of d) < eff"
proof -
  have "run \<in> set (db_payroll db)" "py_locked run" "py_period run = period_of d"
    using assms(1) by (auto simp: locked_run_def find_Some_iff)
  then have "period_of d < period_of eff" using assms(2) by (auto simp: guard_locked_def not_le)
  then have less: "month_index d < month_index eff"
    using period_less_iff [of d eff] assms(3,4) by (simp add: year_ok_def)
  have last: "month_index (month_last (year_of d) (month_of d)) = month_index d"
    using month_interval [of d "month_last (year_of d) (month_of d)"] assms(3) month_interval [of d d]
    by (simp add: year_ok_def)
  show ?thesis
  proof (rule ccontr)
    assume "\<not> month_last (year_of d) (month_of d) < eff"
    then have "month_index eff \<le> month_index (month_last (year_of d) (month_of d))"
      by (intro month_index_mono) simp
    then show False using less last by simp
  qed
qed

lemma filter_row_save:
  assumes "\<not> P r" and "\<And>x. x \<in> set t \<Longrightarrow> key x = key r \<Longrightarrow> \<not> P x"
  shows "filter P (row_save key r t) = filter P t"
  using assms by (induction t) (auto simp: row_save_def)

lemma filter_row_delete:
  assumes "\<And>x. x \<in> set t \<Longrightarrow> key x = k \<Longrightarrow> \<not> P x"
  shows "filter P (row_delete key k t) = filter P t"
  using assms by (induction t) (auto simp: row_delete_def)

lemma month_frozen_refl: "month_frozen d db db"
  by (simp add: month_frozen_def)

lemma days_of_month_cong: "db_subs db' = db_subs db \<Longrightarrow> days_of_month db' = days_of_month db"
  by (simp add: days_of_month_def fun_eq_iff)

lemma month_frozenI:
  assumes "db_payroll db' = db_payroll db" and "days_of_month db' d = days_of_month db d"
    and "filter (\<lambda>c. co_from c \<le> month_last (year_of d) (month_of d)) (db_comps db')
       = filter (\<lambda>c. co_from c \<le> month_last (year_of d) (month_of d)) (db_comps db)"
  shows "month_frozen d db db'"
  unfolding month_frozen_def locked_run_def salaries_until_def assms by simp

lemma frozen_create:
  assumes "comp_create db u b = Inr db'" and "locked_run db (period_of d) = Some run" and "year_ok d"
    and "op_dates_ok (Comp_create b)"
  shows "month_frozen d db db'"
proof -
  obtain eff where e: "cb_from b = Some eff" "\<not> guard_locked db eff"
    using assms(1) by (auto simp: comp_create_def Let_def split: option.splits if_splits)
  have "month_last (year_of d) (month_of d) < eff"
    using guard_locked_late [OF assms(2) e(2) assms(3)] assms(4) e(1) by (simp add: op_dates_ok_def)
  then show ?thesis using assms(1) e(1)
    by (intro month_frozenI)
      (auto simp: comp_create_def Let_def row_create_def split: option.splits if_splits intro!: fun_cong [OF days_of_month_cong])
qed

lemma comp_update_Inr:
  assumes "comp_update db u k b = Inr db'"
  obtains old entry where "old \<in> set (db_comps db)" "co_pk old = k" "co_pk entry = k"
    "co_from entry = (case cb_from b of Some d \<Rightarrow> d | None \<Rightarrow> co_from old)"
    "\<not> guard_locked db (min (co_from old) (co_from entry))"
    "db_comps db' = row_save co_pk entry (db_comps db)"
    "db_payroll db' = db_payroll db" "db_subs db' = db_subs db"
proof -
  obtain old where old: "row_get co_pk k (db_comps db) = Some old"
    using assms by (auto simp: comp_update_def split: option.splits if_splits)
  have in_db: "old \<in> set (db_comps db)" "co_pk old = k" using row_get_Some [OF old] by auto
  define entry where "entry = old\<lparr>co_user := (case cb_user b of Some w \<Rightarrow> w | None \<Rightarrow> co_user old),
     co_from := (case cb_from b of Some d \<Rightarrow> d | None \<Rightarrow> co_from old),
     co_salary := (case cb_salary b of Some s \<Rightarrow> s | None \<Rightarrow> co_salary old),
     co_currency := (case cb_currency b of Some c \<Rightarrow> upper c | None \<Rightarrow> co_currency old),
     co_note := (case cb_note b of Some n \<Rightarrow> n | None \<Rightarrow> co_note old)\<rparr>"
  have e: "co_pk entry = k" "co_from entry = (case cb_from b of Some d \<Rightarrow> d | None \<Rightarrow> co_from old)"
    using in_db by (simp_all add: entry_def)
  have g: "\<not> guard_locked db (min (co_from old) (co_from entry))"
    using assms old unfolding e(2) by (auto simp: comp_update_def Let_def split: if_splits)
  have t: "db_comps db' = row_save co_pk entry (db_comps db)" "db_payroll db' = db_payroll db"
    "db_subs db' = db_subs db"
    using assms old by (simp_all add: comp_update_def Let_def entry_def split: if_splits) auto
  show thesis by (rule that [OF in_db e g t])
qed

lemma frozen_update:
  assumes "comp_update db u k b = Inr db'" and "locked_run db (period_of d) = Some run" and "year_ok d"
    and "op_dates_ok (Comp_update k b)" and "runs_ok db"
  shows "month_frozen d db db'"
proof -
  obtain old entry where in_db: "old \<in> set (db_comps db)" "co_pk old = k" and e: "co_pk entry = k"
    "co_from entry = (case cb_from b of Some d \<Rightarrow> d | None \<Rightarrow> co_from old)"
    and g: "\<not> guard_locked db (min (co_from old) (co_from entry))"
    and t: "db_comps db' = row_save co_pk entry (db_comps db)"
    and same: "db_payroll db' = db_payroll db" "db_subs db' = db_subs db"
    by (rule comp_update_Inr [OF assms(1)])
  have ok: "year_ok (co_from old)" "year_ok (co_from entry)"
    using assms(4,5) in_db by (auto simp: e runs_ok_def op_dates_ok_def split: option.splits)
  have late: "month_last (year_of d) (month_of d) < min (co_from old) (co_from entry)"
    using guard_locked_late [OF assms(2) g assms(3)] ok by (simp add: min_def)
  define P where "P = (\<lambda>c :: compensation. co_from c \<le> month_last (year_of d) (month_of d))"
  have only: "x = old" if "x \<in> set (db_comps db)" "co_pk x = k" for x
    using that in_db assms(5) by (auto simp: runs_ok_def inj_on_def distinct_map)
  have "filter P (db_comps db') = filter P (db_comps db)"
    unfolding t using late e(1) only by (intro filter_row_save) (auto simp: P_def)
  then show ?thesis
    unfolding P_def using same by (intro month_frozenI fun_cong [OF days_of_month_cong]) simp_all
qed

lemma frozen_destroy:
  assumes "comp_destroy db u k = Inr db'" and "locked_run db (period_of d) = Some run" and "year_ok d"
    and "runs_ok db"
  shows "month_frozen d db db'"
proof -
  obtain old where old: "row_get co_pk k (db_comps db) = Some old"
    using assms(1) by (auto simp: comp_destroy_def split: option.splits if_splits)
  have in_db: "old \<in> set (db_comps db)" "co_pk old = k" using row_get_Some [OF old] by auto
  have g: "\<not> guard_locked db (co_from old)"
    using assms(1) old by (auto simp: comp_destroy_def split: if_splits)
  have late: "month_last (year_of d) (month_of d) < co_from old"
    using guard_locked_late [OF assms(2) g assms(3)] assms(4) in_db by (simp add: runs_ok_def)
  define P where "P = (\<lambda>c :: compensation. co_from c \<le> month_last (year_of d) (month_of d))"
  have only: "x = old" if "x \<in> set (db_comps db)" "co_pk x = k" for x
    using that in_db assms(4) by (auto simp: runs_ok_def inj_on_def distinct_map)
  have t: "db_comps db' = row_delete co_pk k (db_comps db)"
    and same: "db_payroll db' = db_payroll db" "db_subs db' = db_subs db"
    using assms(1) old by (auto simp: comp_destroy_def Let_def split: if_splits)
  have "filter P (db_comps db') = filter P (db_comps db)"
    unfolding t using late only by (intro filter_row_delete) (auto simp: P_def)
  then show ?thesis
    unfolding P_def using same by (intro month_frozenI fun_cong [OF days_of_month_cong]) simp_all
qed

lemma moved_days:
  assumes "sort (remdups (filter (\<lambda>p. p \<in> set locked) (map period_of
      (filter (\<lambda>d. d \<notin> set new) old @ filter (\<lambda>d. d \<notin> set old) new)))) = []"
    and "period \<in> set locked"
  shows "{x \<in> set new. period_of x = period} = {x \<in> set old. period_of x = period}"
proof -
  have "set (sort (remdups (filter (\<lambda>p. p \<in> set locked) (map period_of
      (filter (\<lambda>d. d \<notin> set new) old @ filter (\<lambda>d. d \<notin> set old) new))))) = {}"
    by (simp only: assms(1) list.set)
  then show ?thesis using assms(2) by auto
qed

lemma frozen_worked:
  assumes "worked_days db u k days today now = Inr db'" and "locked_run db (period_of d) = Some run"
  shows "month_frozen d db db'"
proof -
  have locked: "period_of d \<in> set (locked_periods db)"
    using assms(2) by (force simp: locked_run_def locked_periods_def find_Some_iff)
  obtain row where row: "coverage_row db k = Some row" "set_worked_days db row days (u_pk u) today now = Inr db'"
    using assms(1) by (auto simp: worked_days_def split: if_splits option.splits sum.splits)
  have k: "row_get rs_pk k (db_subs db) = Some row" "rs_pk row = k"
    using row(1) by (auto simp: coverage_row_def dest: row_get_Some split: option.splits if_splits)
  obtain row' e where r': "db' = log_event e (save_sub row' db)" "rs_pk row' = k"
    and moved: "sort (remdups (filter (\<lambda>p. p \<in> set (locked_periods db)) (map period_of
        (filter (\<lambda>x. x \<notin> set (rs_worked_days row')) (rs_worked_days row)
          @ filter (\<lambda>x. x \<notin> set (rs_worked_days row)) (rs_worked_days row'))))) = []"
    using row(2) k(2) by (auto simp: set_worked_days_def Let_def split: option.splits if_splits)
  have subs: "db_subs db' = row_save rs_pk row' (db_subs db)"
    and same: "db_payroll db' = db_payroll db" "db_comps db' = db_comps db"
    by (simp_all add: r'(1) save_sub_def log_event_def)
  have "days_of_month db' d j = days_of_month db d j" for j
    using moved_days [OF moved locked] k row_get_Some [OF k(1)]
    by (auto simp: days_of_month_def subs row_get_save r'(2))
  then show ?thesis using same by (intro month_frozenI) (simp_all add: fun_eq_iff)
qed

lemma find_filter: "find P xs = (case filter P xs of [] \<Rightarrow> None | x # _ \<Rightarrow> Some x)"
  by (induction xs) auto

lemma locked_run_cong:
  "filter (\<lambda>p. py_period p = period \<and> py_locked p) (db_payroll db')
     = filter (\<lambda>p. py_period p = period \<and> py_locked p) (db_payroll db) \<Longrightarrow>
   locked_run db' period = locked_run db period"
  by (simp add: locked_run_def find_filter)

lemma run_by_period:
  assumes "runs_ok db" and "p \<in> set (db_payroll db)" and "q \<in> set (db_payroll db)"
  shows "py_period p = py_period q \<longleftrightarrow> p = q" "py_pk p = py_pk q \<longleftrightarrow> p = q"
  using assms by (auto simp: runs_ok_def distinct_map inj_on_def)

lemma locked_run_Some:
  "locked_run db period = Some run \<Longrightarrow> run \<in> set (db_payroll db) \<and> py_period run = period \<and> py_locked run"
  by (auto simp: locked_run_def find_Some_iff)

lemma month_frozenI2:
  assumes "locked_run db' (period_of d) = locked_run db (period_of d)" and "db_comps db' = db_comps db"
    and "days_of_month db' d = days_of_month db d"
  shows "month_frozen d db db'"
  unfolding month_frozen_def salaries_until_def assms by simp

lemma frozen_lock:
  assumes "lock_run db u period today now = Inr db'" and "locked_run db (period_of d) = Some run" and "runs_ok db"
  shows "month_frozen d db db'"
proof -
  let ?found = "find (\<lambda>p. py_period p = period) (db_payroll db)"
  note run = locked_run_Some [OF assms(2)]
  have other: "period \<noteq> period_of d"
  proof
    assume same: "period = period_of d"
    have "?found \<noteq> None" using run same by (auto simp: find_None_iff)
    then obtain q where q: "?found = Some q" by blast
    then have "q \<in> set (db_payroll db)" "py_period q = period" by (auto simp: find_Some_iff)
    then have "q = run" using run_by_period(1) [OF assms(3), of q run] run same by simp
    then show False using assms(1) q run by (simp add: lock_run_def Let_def split: if_splits)
  qed
  let ?P = "\<lambda>p. py_period p = period_of d \<and> py_locked p"
  have "filter ?P (db_payroll db') = filter ?P (db_payroll db)"
  proof (cases ?found)
    case None
    then show ?thesis using assms(1) other
      by (auto simp: lock_run_def Let_def row_create_def split: if_splits option.splits)
  next
    case (Some q)
    then have q: "q \<in> set (db_payroll db)" "py_period q = period" by (auto simp: find_Some_iff)
    have keep: "filter ?P (row_save py_pk r (db_payroll db)) = filter ?P (db_payroll db)"
      if "py_pk r = py_pk q" "py_period r = period" for r
      using that other q run_by_period(2) [OF assms(3) _ q(1)] by (intro filter_row_save) auto
    show ?thesis using assms(1) Some q
      by (auto simp: lock_run_def Let_def keep split: if_splits option.splits)
  qed
  then show ?thesis
    using assms(1) by (intro month_frozenI2 locked_run_cong fun_cong [OF days_of_month_cong])
      (auto simp: lock_run_def Let_def split: if_splits option.splits)
qed

lemma frozen_unlock:
  assumes "unlock_run db u k reason now = Inr db'" and "locked_run db (period_of d) = Some run" and "runs_ok db"
    and "k \<noteq> py_pk run"
  shows "month_frozen d db db'"
proof -
  note run = locked_run_Some [OF assms(2)]
  obtain q where q: "row_get py_pk k (db_payroll db) = Some q"
    using assms(1) by (auto simp: unlock_run_def split: if_splits option.splits)
  have in_db: "q \<in> set (db_payroll db)" "py_pk q = k" using row_get_Some [OF q] by auto
  have "q \<noteq> run" using in_db assms(4) by auto
  then have other: "py_period q \<noteq> period_of d" using run_by_period(1) [OF assms(3) in_db(1), of run] run by auto
  let ?P = "\<lambda>p. py_period p = period_of d \<and> py_locked p"
  have keep: "filter ?P (row_save py_pk r (db_payroll db)) = filter ?P (db_payroll db)"
    if "py_pk r = k" "py_period r = py_period q" for r
    using that other in_db run_by_period(2) [OF assms(3) _ in_db(1)] by (intro filter_row_save) auto
  have "filter ?P (db_payroll db') = filter ?P (db_payroll db)"
    using assms(1) q in_db by (auto simp: unlock_run_def keep split: if_splits)
  then show ?thesis
    using assms(1) q by (intro month_frozenI2 locked_run_cong fun_cong [OF days_of_month_cong])
      (auto simp: unlock_run_def split: if_splits)
qed

lemma backfill_frame:
  "backfill_rate db a rate = (db', n) \<Longrightarrow>
     db_comps db' = db_comps db \<and> db_payroll db' = db_payroll db \<and> days_of_month db' = days_of_month db"
proof -
  assume b: "backfill_rate db a rate = (db', n)"
  then have subs: "db_subs db' = map (\<lambda>s. if backfills db a s then s\<lparr>rs_rate := Some rate\<rparr> else s) (db_subs db)"
    by (auto simp: backfill_rate_def)
  have "days_of_month db' d k = days_of_month db d k" for d k
    unfolding days_of_month_def subs
    by (subst row_get_map) (auto simp: option.map_comp o_def intro!: option.map_cong0 split: if_splits)
  then show ?thesis using b by (auto simp: backfill_rate_def fun_eq_iff)
qed

lemma frozen_set_rate:
  assumes "set_rate db u k mode amount cur = Inr db'"
  shows "month_frozen d db db' \<and> db_comps db' = db_comps db \<and> db_payroll db' = db_payroll db"
proof -
  obtain db1 db2 a rate n where b: "backfill_rate db1 a rate = (db2, n)"
    and s: "db_subs db1 = db_subs db" "db_comps db1 = db_comps db" "db_payroll db1 = db_payroll db"
    and d: "db_subs db' = db_subs db2" "db_comps db' = db_comps db2" "db_payroll db' = db_payroll db2"
    using assms by (auto simp: set_rate_def Let_def split: if_splits option.splits prod.splits)
  have f: "days_of_month db' = days_of_month db" "db_comps db' = db_comps db" "db_payroll db' = db_payroll db"
    using backfill_frame [OF b] d s days_of_month_cong [OF d(1)] days_of_month_cong [OF s(1)] by simp_all
  have "month_frozen d db db'" using f by (intro month_frozenI) simp_all
  then show ?thesis using f by simp
qed

lemma frozen_delete_rate:
  assumes "delete_rate db u k = Inr db'"
  shows "month_frozen d db db' \<and> db_comps db' = db_comps db \<and> db_payroll db' = db_payroll db"
proof -
  have f: "db_subs db' = db_subs db" "db_comps db' = db_comps db" "db_payroll db' = db_payroll db"
    using assms by (auto simp: delete_rate_def split: if_splits option.splits)
  then have "month_frozen d db db'" by (intro month_frozenI fun_cong [OF days_of_month_cong]) simp_all
  then show ?thesis using f by simp
qed

lemma frozen_view:
  assumes "map_sum id fst (payroll_list db u period today) = Inr db' \<or> map_sum id fst (payroll_export db u period today) = Inr db'"
  shows "month_frozen d db db' \<and> db_comps db' = db_comps db \<and> db_payroll db' = db_payroll db"
proof -
  have f: "db_subs db' = db_subs db" "db_comps db' = db_comps db" "db_payroll db' = db_payroll db"
    using assms by (auto simp: payroll_list_def payroll_export_def split: if_splits option.splits)
  then have "month_frozen d db db'" by (intro month_frozenI fun_cong [OF days_of_month_cong]) simp_all
  then show ?thesis using f by simp
qed

lemma payroll_call_frozen:
  assumes "payroll_call db u call today now = Inr db'" and "locked_run db (period_of d) = Some run" and "year_ok d"
    and "runs_ok db" and "op_dates_ok call" and "\<And>r. call \<noteq> Unlock_run (py_pk run) r"
  shows "month_frozen d db db'"
proof (cases call)
  case (Unlock_run k r)
  then show ?thesis using assms frozen_unlock [of db u k r now db' d run] by (auto simp: payroll_call_def)
qed (use assms frozen_set_rate frozen_delete_rate frozen_worked frozen_create frozen_update frozen_destroy
       frozen_lock frozen_view in \<open>force simp: payroll_call_def\<close>)+

subsection \<open>Keys stay unique\<close>

lemma runs_ok_cong: "runs_ok db \<Longrightarrow> db_comps db' = db_comps db \<Longrightarrow> db_payroll db' = db_payroll db \<Longrightarrow> runs_ok db'"
  by (simp add: runs_ok_def)

lemma year_ok_row_save:
  assumes "\<forall>c \<in> set t. year_ok (co_from c)" and "year_ok (co_from r)"
  shows "\<forall>c \<in> set (row_save co_pk r t). year_ok (co_from c)"
  using assms by (auto simp: row_save_def)

lemma runs_ok_comps:
  assumes "runs_ok db"
  shows "comp_create db u b = Inr db' \<Longrightarrow> op_dates_ok (Comp_create b) \<Longrightarrow> runs_ok db'"
    and "comp_update db u k b = Inr db' \<Longrightarrow> op_dates_ok (Comp_update k b) \<Longrightarrow> runs_ok db'"
    and "comp_destroy db u k = Inr db' \<Longrightarrow> runs_ok db'"
proof -
  show "runs_ok db'" if "comp_create db u b = Inr db'" "op_dates_ok (Comp_create b)"
    using that assms by (auto simp: comp_create_def runs_ok_def op_dates_ok_def Let_def split: if_splits option.splits)
  show "runs_ok db'" if "comp_destroy db u k = Inr db'"
    using that assms by (auto simp: comp_destroy_def runs_ok_def Let_def distinct_row_delete split: if_splits option.splits)
  show "runs_ok db'" if u: "comp_update db u k b = Inr db'" "op_dates_ok (Comp_update k b)"
  proof (rule comp_update_Inr [OF u(1)])
    fix old entry
    assume a: "old \<in> set (db_comps db)" "co_from entry = (case cb_from b of Some d \<Rightarrow> d | None \<Rightarrow> co_from old)"
      "db_comps db' = row_save co_pk entry (db_comps db)" "db_payroll db' = db_payroll db"
    then have "year_ok (co_from entry)"
      using u(2) assms by (auto simp: runs_ok_def op_dates_ok_def split: option.splits)
    then show ?thesis using assms a(3,4) year_ok_row_save by (auto simp: runs_ok_def)
  qed
qed

lemma runs_ok_lock:
  assumes "lock_run db u period today now = Inr db'" and "runs_ok db"
  shows "runs_ok db'"
proof (cases "find (\<lambda>p. py_period p = period) (db_payroll db)")
  case None
  then have "period \<notin> py_period ` set (db_payroll db)" by (auto simp: find_None_iff)
  then show ?thesis using assms None
    by (auto simp: lock_run_def runs_ok_def Let_def split: if_splits option.splits)
next
  case (Some q)
  then have "q \<in> set (db_payroll db)" by (auto simp: find_Some_iff)
  have same: "map py_period (row_save py_pk r (db_payroll db)) = map py_period (db_payroll db)"
    if "py_pk r = py_pk q" "py_period r = py_period q" for r
    using that run_by_period(2) [OF assms(2) _ \<open>q \<in> _\<close>] by (auto simp: row_save_def)
  show ?thesis using assms Some
    by (auto simp: lock_run_def runs_ok_def Let_def same split: if_splits option.splits)
qed

lemma runs_ok_unlock:
  assumes "unlock_run db u k reason now = Inr db'" and "runs_ok db"
  shows "runs_ok db'"
proof -
  obtain q where q: "row_get py_pk k (db_payroll db) = Some q"
    using assms(1) by (auto simp: unlock_run_def split: if_splits option.splits)
  have "q \<in> set (db_payroll db)" using row_get_Some [OF q] by auto
  then have same: "map py_period (row_save py_pk r (db_payroll db)) = map py_period (db_payroll db)"
    if "py_pk r = py_pk q" "py_period r = py_period q" for r
    using that run_by_period(2) [OF assms(2), of _ q] by (auto simp: row_save_def)
  show ?thesis using assms q by (auto simp: unlock_run_def runs_ok_def same split: if_splits)
qed

lemma runs_ok_worked:
  assumes "worked_days db u k days today now = Inr db'" and "runs_ok db"
  shows "runs_ok db'"
  using assms
  by (auto simp: worked_days_def set_worked_days_def save_sub_def log_event_def Let_def
      intro: runs_ok_cong split: if_splits option.splits sum.splits)

lemma payroll_call_runs_ok:
  assumes "payroll_call db u call today now = Inr db'" and "runs_ok db" and "op_dates_ok call"
  shows "runs_ok db'"
proof (cases call)
  case (Set_rate k mode amount cur)
  then show ?thesis using assms frozen_set_rate [of db u k mode amount cur db'] by (auto simp: payroll_call_def intro: runs_ok_cong)
next
  case (Delete_rate k)
  then show ?thesis using assms frozen_delete_rate [of db u k db'] by (auto simp: payroll_call_def intro: runs_ok_cong)
next
  case (View_report period)
  then show ?thesis using assms frozen_view [of db u period today db'] by (auto simp: payroll_call_def intro: runs_ok_cong)
next
  case (Export_report period)
  then show ?thesis using assms frozen_view [of db u period today db'] by (auto simp: payroll_call_def intro: runs_ok_cong)
next
  case (Worked_days k days)
  then show ?thesis using assms runs_ok_worked [of db u k days today now db'] by (simp add: payroll_call_def)
next
  case (Comp_create b)
  then show ?thesis using assms runs_ok_comps(1) [of db u b db'] by (simp add: payroll_call_def)
next
  case (Comp_update k b)
  then show ?thesis using assms runs_ok_comps(2) [of db u k b db'] by (simp add: payroll_call_def)
next
  case (Comp_destroy k)
  then show ?thesis using assms runs_ok_comps(3) [of db u k db'] by (simp add: payroll_call_def)
next
  case (Lock_month p)
  then show ?thesis using assms runs_ok_lock [of db u p today now db'] by (simp add: payroll_call_def)
next
  case (Unlock_run k reason)
  then show ?thesis using assms runs_ok_unlock [of db u k reason now db'] by (simp add: payroll_call_def)
qed

subsection \<open>Any number of calls\<close>

text \<open>A refused call leaves the database as it is.\<close>

fun payroll_calls :: "leave_db \<Rightarrow> (user \<times> payroll_op \<times> date \<times> datetime) list \<Rightarrow> leave_db" where
  "payroll_calls db [] = db"
| "payroll_calls db ((u, call, today, now) # calls) =
     payroll_calls (case payroll_call db u call today now of Inl _ \<Rightarrow> db | Inr db' \<Rightarrow> db') calls"

lemma month_frozen_trans: "month_frozen d a b \<Longrightarrow> month_frozen d b c \<Longrightarrow> month_frozen d a c"
  by (simp add: month_frozen_def)

definition leaves_locked :: "payroll_run \<Rightarrow> user \<times> payroll_op \<times> date \<times> datetime \<Rightarrow> bool" where
  "leaves_locked run c \<longleftrightarrow>
     (case c of (u, call, _, _) \<Rightarrow> op_dates_ok call
        \<and> (case call of Unlock_run k r \<Rightarrow> k \<noteq> py_pk run \<or> \<not> is_elevated u \<or> strip r = [] | _ \<Rightarrow> True))"

lemma unlock_refused:
  "\<not> is_elevated u \<or> strip r = [] \<Longrightarrow> \<exists>e. unlock_run db u k r now = Inl e"
  by (auto simp: unlock_run_def)

lemma payroll_calls_frozen:
  assumes "locked_run db (period_of d) = Some run" and "year_ok d" and "runs_ok db"
    and "list_all (leaves_locked run) calls"
  shows "month_frozen d db (payroll_calls db calls)"
  using assms
proof (induction db calls rule: payroll_calls.induct)
  case (2 db u call today now calls)
  let ?db = "case payroll_call db u call today now of Inl _ \<Rightarrow> db | Inr db' \<Rightarrow> db'"
  have c: "leaves_locked run (u, call, today, now)" using 2 by simp
  have "month_frozen d db ?db \<and> runs_ok ?db"
  proof (cases "payroll_call db u call today now")
    case (Inr db')
    have "call \<noteq> Unlock_run (py_pk run) r" for r
      using c Inr unlock_refused [of u r db "py_pk run" now] by (auto simp: leaves_locked_def payroll_call_def)
    then show ?thesis
      using Inr 2 c payroll_call_frozen [OF Inr] payroll_call_runs_ok [OF Inr] by (simp add: leaves_locked_def)
  qed (simp add: month_frozen_refl 2)
  moreover from this have "locked_run ?db (period_of d) = Some run" using 2 by (simp add: month_frozen_def)
  ultimately show ?case using 2 month_frozen_trans by auto
qed (simp add: month_frozen_refl)

text \<open>C8: A locked month stays as it was paid: whatever payroll calls follow, by whomever and in whatever
  order, as long as no administrator unlocks it with a reason, the report of the month, every
  salary in force up to its end and the confirmed days of the month on every substitute row are
  what they were when it was locked.\<close>

theorem locked_month_frozen:
  assumes "locked_run db (period_of d) = Some run" and "year_ok d" and "runs_ok db"
    and "list_all (leaves_locked run) calls"
  shows "report_for (payroll_calls db calls) (period_of d) today = report_for db (period_of d) today
    \<and> salaries_until (payroll_calls db calls) d = salaries_until db d
    \<and> days_of_month (payroll_calls db calls) d = days_of_month db d"
  using payroll_calls_frozen [OF assms] assms(1) by (simp add: month_frozen_def report_for_def)

end
