(* ===== verification/Leave_Payroll_Sample.thy ===== *)
theory Leave_Payroll_Sample
  imports Leave_Payroll_Runs
begin

text \<open>
  The payroll properties on the sample tenant: substitution pay and payroll switched on in net
  mode, a salary of 2200 for the employee from January 2026, March 2026 locked.
\<close>

definition pay_settings :: leave_settings where
  "pay_settings = sample_settings\<lparr>ls_substitutes_enabled := True, ls_substitution_pay_enabled := True,
     ls_payroll_mode := Net\<rparr>"

definition sample_salary :: compensation where
  "sample_salary = \<lparr>co_pk = 1, co_user = 1, co_salary = 2200, co_currency = ''GEL'', co_from = 739617,
     co_note = [], co_created_by = Some 3\<rparr>"

definition march_report :: payroll_report where
  "march_report = \<lparr>po_period = ''2026-03'', po_mode = Net, po_currency = ''GEL'', po_tax_rate = 20,
     po_pension_rate = 2, po_working_days = 22, po_locked = False, po_rows = [], po_totals = [],
     po_locked_at = None, po_locked_by = None\<rparr>"

definition march_run :: payroll_run where
  "march_run = \<lparr>py_pk = 1, py_period = ''2026-03'', py_mode = Net, py_snapshot = march_report,
     py_locked = True, py_locked_by = Some 3, py_locked_at = Some 5, py_unlocked_by = None,
     py_unlocked_at = None, py_unlock_reason = []\<rparr>"

definition pay_db :: leave_db where
  "pay_db = sample_db\<lparr>db_settings := Some pay_settings, db_comps := [sample_salary]\<rparr>"

definition locked_db :: leave_db where
  "locked_db = pay_db\<lparr>db_payroll := [march_run]\<rparr>"

definition sub_row :: "rate_mode \<Rightarrow> decimal \<Rightarrow> request_substitute" where
  "sub_row mode rate =
     \<lparr>rs_pk = 1, rs_request = 1, rs_substitute = 3, rs_task = ''desk'', rs_sort_order = 0,
      rs_status = Sub_accepted, rs_responded_at = None, rs_comment = [],
      rs_rate = Some (mode, rate, ''GEL''), rs_worked_days = [], rs_totals = [],
      rs_confirmed_by = None, rs_confirmed_at = None\<rparr>"

lemma march_2026: "year_of 739677 = 2026" "month_of 739677 = 3" "period_of 739677 = ''2026-03''"
proof -
  show m: "year_of 739677 = 2026" "month_of 739677 = 3"
    by (simp_all add: month_of_def yday_of_def year_of_def days_before_year_def days_before_month_def is_leap_def Let_def)
  show "period_of 739677 = ''2026-03''"
    by (simp add: period_of_def m nat_text_step nat_text_1 pad_zeros_def digit_char_def char_of_def bit_iff_odd)
qed

lemma grid_int: "on_grid n (of_int k)"
proof -
  have "(of_int k :: rat) * 10 ^ n = of_int (k * 10 ^ n)" by simp
  then show ?thesis unfolding on_grid_def by blast
qed

lemma grid_samples: "on_grid 2 50" "on_grid 2 300" "on_grid 2 2200"
  using grid_int [of 2 50] grid_int [of 2 300] grid_int [of 2 2200] by simp_all

theorem day_rate_total_witness:
  "(\<Sum>(m, x)\<leftarrow>compute_totals pay_db (sub_row Per_day 50) [739677, 739678, 739740]. x) = 150"
  using day_rate_total [of "sub_row Per_day 50" 50 "''GEL''" pay_db "[739677, 739678, 739740]"] grid_samples
  by (simp add: sub_row_def)

theorem month_rate_cap_witness:
  "fst (hd (compute_totals pay_db (sub_row Per_month 300) [739677])) = ''2026-03''
   \<and> 0 \<le> snd (hd (compute_totals pay_db (sub_row Per_month 300) [739677]))
   \<and> snd (hd (compute_totals pay_db (sub_row Per_month 300) [739677])) \<le> 300"
proof -
  have c: "compute_totals pay_db (sub_row Per_month 300) [739677]
      = [(''2026-03'', snd (hd (compute_totals pay_db (sub_row Per_month 300) [739677])))]"
    by (simp add: compute_totals_def sub_row_def march_2026)
  have w: "workday pay_db True 739677"
    by (simp add: workday_def holiday_on_def weekend_days_def pay_db_def pay_settings_def sample_db_def
        sample_settings_def weekday_def)
  have "(''2026-03'', snd (hd (compute_totals pay_db (sub_row Per_month 300) [739677])))
      \<in> set (compute_totals pay_db (sub_row Per_month 300) [739677])"
    by (subst (2) c) simp
  moreover have "rs_rate (sub_row Per_month 300) = Some (Per_month, 300, ''GEL'')" by (simp add: sub_row_def)
  moreover have "\<forall>d \<in> set [739677]. workday pay_db True d \<and> 1000 \<le> year_of d \<and> year_of d \<le> 9999"
    using w by (simp add: march_2026)
  ultimately have "0 \<le> snd (hd (compute_totals pay_db (sub_row Per_month 300) [739677]))
     \<and> snd (hd (compute_totals pay_db (sub_row Per_month 300) [739677])) \<le> 300"
    using month_rate_cap [of "sub_row Per_month 300" 300 "''GEL''" "[739677]" pay_db "''2026-03''"
        "snd (hd (compute_totals pay_db (sub_row Per_month 300) [739677]))"] grid_samples
    by simp
  moreover have "fst (hd (compute_totals pay_db (sub_row Per_month 300) [739677])) = ''2026-03''"
    by (subst c) simp
  ultimately show ?thesis by blast
qed

lemma pay_columns: "payroll_columns_ok pay_db"
  using grid_samples
  by (simp add: payroll_columns_ok_def money_def pay_db_def pay_settings_def sample_settings_def
      sample_salary_def sample_db_def)

lemma march_parse: "parse_period ''2026-03'' = Some (739676, 739706)"
  using period_roundtrip_parse [of 739677]
  by (simp add: march_2026 month_first_def month_last_def ymd_def days_before_year_def
      days_before_month_def days_in_month_def is_leap_def)

theorem payroll_adds_up_witness:
  "list_all (row_adds_up Net) (po_rows (the (build_report pay_db ''2026-03'' None 739700)))
   \<and> map pr_user (po_rows (the (build_report pay_db ''2026-03'' None 739700))) = [1]"
proof -
  obtain rep where rep: "build_report pay_db ''2026-03'' None 739700 = Some rep"
    by (simp add: build_report_def march_parse Let_def pay_db_def)
  have "po_mode rep = Net"
    using rep by (auto simp: build_report_def march_parse pay_db_def pay_settings_def Let_def)
  moreover have "map pr_user (po_rows rep) = [1]"
    using rep by (auto simp: build_report_def march_parse pay_db_def pay_settings_def Let_def pay_rows_def
        sample_db_def sample_people sample_salary_def payroll_row_of_def split: prod.splits)
  ultimately show ?thesis using payroll_adds_up [OF rep pay_columns] rep by simp
qed

definition later_calls :: "(user \<times> payroll_op \<times> date \<times> datetime) list" where
  "later_calls =
     [(staff_3, Comp_create \<lparr>cb_user = Some 1, cb_salary = Some 2500, cb_currency = None,
         cb_from = Some 739690, cb_note = None\<rparr>, 739700, 7),
      (staff_3, Unlock_run 1 '' '', 739700, 8), (staff_3, Lock_month ''2026-03'', 739700, 9)]"

theorem locked_month_frozen_witness:
  "report_for (payroll_calls locked_db later_calls) ''2026-03'' 739700 = report_for locked_db ''2026-03'' 739700
   \<and> salaries_until (payroll_calls locked_db later_calls) 739677 = [(1, 739617, 2200, ''GEL'')]"
proof -
  have years: "year_of 739617 = 2026" "year_of 739690 = 2026" by (simp_all add: year_of_def Let_def)
  have run: "locked_run locked_db (period_of 739677) = Some march_run"
    by (simp add: locked_run_def locked_db_def march_2026 march_run_def)
  have ok: "runs_ok locked_db"
    by (simp add: runs_ok_def locked_db_def pay_db_def sample_salary_def year_ok_def years march_run_def)
  have calls: "list_all (leaves_locked march_run) later_calls"
    by (simp add: later_calls_def leaves_locked_def op_dates_ok_def year_ok_def years strip_def is_space_def)
  have "salaries_until locked_db 739677 = [(1, 739617, 2200, ''GEL'')]"
    by (simp add: salaries_until_def locked_db_def pay_db_def sample_salary_def march_2026 month_last_def ymd_def
        days_before_year_def days_before_month_def days_in_month_def is_leap_def)
  then show ?thesis
    using locked_month_frozen [OF run _ ok calls, of 739700] by (simp add: year_ok_def march_2026)
qed

end
