(* ===== verification/Leave_Kpi.thy ===== *)
theory Leave_Kpi
  imports Leave_Payroll
begin

text \<open>
  Monthly KPI goals (\<^verbatim>\<open>leave_management/views_kpi.py\<close>): the manager sets a target, the employee
  submits the result, the manager approves or returns it.  Every change is logged, and the
  theorems are about the states a goal can be in, its log and the copying of last month's goals.
  A call is refused with a \<open>kpi_error\<close> and then changes nothing.
\<close>

datatype kpi_error =
    Kpi_not_found
  | Kpi_denied
  | Kpi_bad_body
  | Kpi_fixed_field
  | Kpi_wrong_status
  | Kpi_feedback_needed
  | Kpi_crash

fun kpi_text :: "kpi_status \<Rightarrow> string" where
  "kpi_text Kpi_draft = ''draft''"
| "kpi_text Kpi_pending = ''pending''"
| "kpi_text Kpi_approved = ''approved''"
| "kpi_text Kpi_returned = ''returned''"

lemma kpi_text_inj [simp]: "kpi_text a = kpi_text b \<longleftrightarrow> a = b"
  by (cases a; cases b; simp)

subsection \<open>Fields\<close>

text \<open>\<^verbatim>\<open>PERIOD_RE\<close>; text fields arrive stripped.\<close>

definition valid_kpi_period :: "string \<Rightarrow> bool" where
  "valid_kpi_period s \<longleftrightarrow>
     (case s of
        [a, b, c, d, e, f, g] \<Rightarrow>
          list_all is_digit [a, b, c, d] \<and> e = CHR ''-''
          \<and> (f = CHR ''0'' \<and> is_digit g \<and> g \<noteq> CHR ''0''
             \<or> f = CHR ''1'' \<and> g \<in> {CHR ''0'', CHR ''1'', CHR ''2''})
      | _ \<Rightarrow> False)"

definition percent :: "kpi_goal \<Rightarrow> decimal option" where
  "percent g =
     (case kg_actual g of
        None \<Rightarrow> None
      | Some actual \<Rightarrow>
          if kg_direction g = Higher then Some (round_half_even 1 (actual / kg_target g * 100))
          else if actual = 0 then None
          else Some (round_half_even 1 (kg_target g / actual * 100)))"

definition target_met :: "kpi_goal \<Rightarrow> bool" where
  "target_met g =
     (case kg_actual g of
        None \<Rightarrow> False
      | Some actual \<Rightarrow> if kg_direction g = Higher then actual \<ge> kg_target g else actual \<le> kg_target g)"

definition cents :: "decimal \<Rightarrow> bool" where
  "cents x \<longleftrightarrow> of_int \<lfloor>x * 100\<rfloor> = x * 100 \<and> x < 1000000000000"

record goal_body =
  gb_employee :: "pk option"
  gb_period :: "string option"
  gb_title :: "string option"
  gb_target :: "decimal option"
  gb_unit :: "string option"
  gb_direction :: "kpi_direction option"

definition text_ok :: "nat \<Rightarrow> string option \<Rightarrow> bool" where
  "text_ok n t = (case t of None \<Rightarrow> True | Some s \<Rightarrow> strip s \<noteq> [] \<and> length (strip s) \<le> n)"

definition goal_body_ok :: "goal_body \<Rightarrow> bool" where
  "goal_body_ok b \<longleftrightarrow>
     (case gb_period b of None \<Rightarrow> True | Some p \<Rightarrow> valid_kpi_period (strip p))
   \<and> text_ok 200 (gb_title b) \<and> text_ok 50 (gb_unit b)
   \<and> (case gb_target b of None \<Rightarrow> True | Some t \<Rightarrow> 1/100 \<le> t \<and> cents t)"

subsection \<open>Who may do what\<close>

definition can_manage_goal :: "user \<Rightarrow> user option \<Rightarrow> bool" where
  "can_manage_goal u employee =
     (case employee of
        None \<Rightarrow> False
      | Some e \<Rightarrow> if u_pk e = u_pk u then False else manages_employee u (Some e))"

definition goal_visible :: "leave_db \<Rightarrow> user \<Rightarrow> kpi_goal \<Rightarrow> bool" where
  "goal_visible db u g \<longleftrightarrow>
     u_is_staff u \<or> u_is_superuser u \<or> kg_employee g = u_pk u
     \<or> (\<exists>e. get_user db (kg_employee g) = Some e \<and> team_q u e)"

definition kpi_on :: "leave_db \<Rightarrow> bool" where
  "kpi_on db = LeaveFeatureEnabled [ls_kpi_enabled] (db_settings db)"

definition get_goal :: "leave_db \<Rightarrow> user \<Rightarrow> pk \<Rightarrow> kpi_error + kpi_goal" where
  "get_goal db u k =
     (if \<not> kpi_on db then Inl Kpi_denied
      else case row_get kg_pk k (db_goals db) of
        None \<Rightarrow> Inl Kpi_not_found
      | Some g \<Rightarrow> if goal_visible db u g then Inr g else Inl Kpi_not_found)"

subsection \<open>Writing a goal with its event\<close>

definition kpi_event ::
  "string \<Rightarrow> pk \<Rightarrow> kpi_goal \<Rightarrow> pk option \<Rightarrow> string \<Rightarrow> string \<Rightarrow> audit_data \<Rightarrow> audit_event" where
  "kpi_event action actor g ref from_status to_status data =
     \<lparr>ev_kind = ''kpi'', ev_action = action, ev_request = None, ev_subject = Some (kg_employee g),
      ev_actor = Some actor, ev_object = nat_text (kg_pk g), ev_from = from_status, ev_to = to_status,
      ev_kpi = ref, ev_data = data\<rparr>"

definition goal_data :: "kpi_goal \<Rightarrow> audit_data" where
  "goal_data g = Goal_data (kg_title g) (kg_target g) (kg_unit g) (kg_direction g)"

definition save_goal :: "string \<Rightarrow> pk \<Rightarrow> kpi_status \<Rightarrow> audit_data \<Rightarrow> kpi_goal \<Rightarrow> leave_db \<Rightarrow> leave_db" where
  "save_goal action actor old data g db =
     log_event (kpi_event action actor g (Some (kg_pk g)) (kpi_text old) (kpi_text (kg_status g)) data)
       (db\<lparr>db_goals := row_save kg_pk g (db_goals db)\<rparr>)"

definition create_goal :: "pk \<Rightarrow> audit_data \<Rightarrow> kpi_goal \<Rightarrow> leave_db \<Rightarrow> leave_db" where
  "create_goal actor data g db =
     log_event (kpi_event ''created'' actor g (Some (kg_pk g)) ''new'' (kpi_text (kg_status g)) data)
       (db\<lparr>db_goals := row_create g (db_goals db)\<rparr>)"

text \<open>The events of a deleted goal stay and lose the reference (\<^verbatim>\<open>SET_NULL\<close>).\<close>

definition delete_goal :: "pk \<Rightarrow> leave_db \<Rightarrow> leave_db" where
  "delete_goal k db =
     db\<lparr>db_goals := row_delete kg_pk k (db_goals db),
        db_events := map (\<lambda>e. if ev_kpi e = Some k then e\<lparr>ev_kpi := None\<rparr> else e) (db_events db)\<rparr>"

subsection \<open>Endpoints\<close>

definition new_goal :: "leave_db \<Rightarrow> pk \<Rightarrow> string \<Rightarrow> string \<Rightarrow> decimal \<Rightarrow> string \<Rightarrow> kpi_direction \<Rightarrow> pk \<Rightarrow> kpi_goal" where
  "new_goal db employee period title target unit direction by_user =
     \<lparr>kg_pk = next_pk kg_pk (db_goals db), kg_employee = employee, kg_period = period, kg_title = title,
      kg_target = target, kg_unit = unit, kg_direction = direction, kg_actual = None, kg_note = [],
      kg_feedback = [], kg_status = Kpi_draft, kg_submitted_at = None, kg_reviewed_at = None,
      kg_reviewed_by = None, kg_created_by = Some by_user, kg_updated_by = Some by_user\<rparr>"

definition kpi_create :: "leave_db \<Rightarrow> user \<Rightarrow> goal_body \<Rightarrow> kpi_error + leave_db" where
  "kpi_create db u b =
     (if \<not> kpi_on db then Inl Kpi_denied
      else case (gb_employee b, gb_period b, gb_title b, gb_target b, gb_unit b) of
        (Some who, Some period, Some title, Some target, Some unit) \<Rightarrow>
          if \<not> goal_body_ok b \<or> get_user db who = None then Inl Kpi_bad_body
          else if \<not> can_manage_goal u (get_user db who) then Inl Kpi_denied
          else
            let g = new_goal db who (strip period) (strip title) target (strip unit)
                  (case gb_direction b of None \<Rightarrow> Higher | Some d \<Rightarrow> d) (u_pk u)
            in Inr (create_goal (u_pk u) (goal_data g) g db)
      | _ \<Rightarrow> Inl Kpi_bad_body)"

definition kpi_update :: "leave_db \<Rightarrow> user \<Rightarrow> pk \<Rightarrow> goal_body \<Rightarrow> kpi_error + leave_db" where
  "kpi_update db u k b =
     (case get_goal db u k of
        Inl e \<Rightarrow> Inl e
      | Inr g \<Rightarrow>
          if \<not> goal_body_ok b then Inl Kpi_bad_body
          else if (\<exists>e. gb_employee b = Some e \<and> e \<noteq> kg_employee g)
                  \<or> (\<exists>p. gb_period b = Some p \<and> strip p \<noteq> kg_period g) then Inl Kpi_fixed_field
          else if \<not> can_manage_goal u (get_user db (kg_employee g)) then Inl Kpi_denied
          else if kg_status g \<notin> {Kpi_draft, Kpi_returned} then Inl Kpi_wrong_status
          else
            let g' = g\<lparr>kg_title := (case gb_title b of Some t \<Rightarrow> strip t | None \<Rightarrow> kg_title g),
                       kg_target := (case gb_target b of Some t \<Rightarrow> t | None \<Rightarrow> kg_target g),
                       kg_unit := (case gb_unit b of Some t \<Rightarrow> strip t | None \<Rightarrow> kg_unit g),
                       kg_direction := (case gb_direction b of Some d \<Rightarrow> d | None \<Rightarrow> kg_direction g),
                       kg_updated_by := Some (u_pk u), kg_status := Kpi_draft, kg_actual := None,
                       kg_note := [], kg_feedback := [], kg_submitted_at := None,
                       kg_reviewed_at := None, kg_reviewed_by := None\<rparr>
            in Inr (save_goal ''target_changed'' (u_pk u) (kg_status g) (goal_data g') g' db))"

definition kpi_destroy :: "leave_db \<Rightarrow> user \<Rightarrow> pk \<Rightarrow> kpi_error + leave_db" where
  "kpi_destroy db u k =
     (case get_goal db u k of
        Inl e \<Rightarrow> Inl e
      | Inr g \<Rightarrow>
          if kg_status g \<noteq> Kpi_draft
             \<or> \<not> (kg_created_by g = Some (u_pk u) \<or> u_is_staff u \<or> u_is_superuser u)
          then Inl Kpi_denied
          else Inr (delete_goal k
                 (log_event (kpi_event ''deleted'' (u_pk u) g None (kpi_text (kg_status g)) ''deleted''
                    (Goal_deleted_data (kg_title g) (kg_period g))) db)))"

definition kpi_submit :: "leave_db \<Rightarrow> user \<Rightarrow> pk \<Rightarrow> decimal \<Rightarrow> string \<Rightarrow> datetime \<Rightarrow> kpi_error + leave_db" where
  "kpi_submit db u k actual note now =
     (if actual < 0 \<or> \<not> cents actual then Inl Kpi_bad_body
      else case get_goal db u k of
        Inl e \<Rightarrow> Inl e
      | Inr g \<Rightarrow>
          if kg_employee g \<noteq> u_pk u then Inl Kpi_denied
          else
            let g' = g\<lparr>kg_actual := Some actual, kg_note := strip note, kg_feedback := [],
                       kg_status := Kpi_pending, kg_submitted_at := Some now, kg_reviewed_at := None,
                       kg_reviewed_by := None, kg_updated_by := Some (u_pk u)\<rparr>
            in Inr (save_goal ''submitted'' (u_pk u) (kg_status g) (Actual_data actual) g' db))"

definition kpi_review ::
  "leave_db \<Rightarrow> user \<Rightarrow> pk \<Rightarrow> kpi_status \<Rightarrow> string \<Rightarrow> datetime \<Rightarrow> kpi_error + leave_db" where
  "kpi_review db u k decision raw_feedback now =
     (let feedback = strip raw_feedback
      in if decision = Kpi_returned \<and> feedback = [] then Inl Kpi_feedback_needed
         else case get_goal db u k of
           Inl e \<Rightarrow> Inl e
         | Inr g \<Rightarrow>
             if \<not> can_manage_goal u (get_user db (kg_employee g)) then Inl Kpi_denied
             else if kg_status g \<noteq> Kpi_pending then Inl Kpi_wrong_status
             else
               let g' = g\<lparr>kg_status := decision, kg_feedback := feedback, kg_reviewed_at := Some now,
                          kg_reviewed_by := Some (u_pk u), kg_updated_by := Some (u_pk u)\<rparr>
               in Inr (save_goal (kpi_text decision) (u_pk u) Kpi_pending (Feedback_data feedback) g' db))"

definition kpi_approve :: "leave_db \<Rightarrow> user \<Rightarrow> pk \<Rightarrow> string \<Rightarrow> datetime \<Rightarrow> kpi_error + leave_db" where
  "kpi_approve db u k feedback now = kpi_review db u k Kpi_approved feedback now"

definition kpi_return :: "leave_db \<Rightarrow> user \<Rightarrow> pk \<Rightarrow> string \<Rightarrow> datetime \<Rightarrow> kpi_error + leave_db" where
  "kpi_return db u k feedback now = kpi_review db u k Kpi_returned feedback now"

text \<open>The month before; None when Python's \<^verbatim>\<open>date\<close> refuses it (year 0).\<close>

definition previous_period :: "string \<Rightarrow> string option" where
  "previous_period period =
     (case map read_int (split_on (CHR ''-'') period) of
        [Some year, Some month] \<Rightarrow>
          map_option period_of (if month = 1 then mk_date (year - 1) 12 1 else mk_date year (month - 1) 1)
      | _ \<Rightarrow> None)"

fun copy_loop :: "user \<Rightarrow> string \<Rightarrow> (pk \<times> string) list \<Rightarrow> kpi_goal list \<Rightarrow> leave_db \<Rightarrow> leave_db" where
  "copy_loop u period existing [] db = db"
| "copy_loop u period existing (src # sources) db =
     (if (kg_employee src, kg_title src) \<in> set existing
         \<or> \<not> (case get_user db (kg_employee src) of Some e \<Rightarrow> u_is_active e | None \<Rightarrow> False)
      then copy_loop u period existing sources db
      else copy_loop u period existing sources
             (create_goal (u_pk u) (Copied_data (kg_pk src))
                (new_goal db (kg_employee src) period (kg_title src) (kg_target src) (kg_unit src)
                   (kg_direction src) (u_pk u)) db))"

definition copy_sources :: "leave_db \<Rightarrow> user \<Rightarrow> string \<Rightarrow> kpi_goal list" where
  "copy_sources db u prev_period =
     sort_key kg_employee (filter (\<lambda>g. kg_period g = prev_period \<and> kg_employee g \<noteq> u_pk u
        \<and> (case get_user db (kg_employee g) of Some e \<Rightarrow> team_q u e | None \<Rightarrow> False)) (db_goals db))"

definition goals_in :: "leave_db \<Rightarrow> string \<Rightarrow> (pk \<times> string) list" where
  "goals_in db period =
     map (\<lambda>g. (kg_employee g, kg_title g)) (filter (\<lambda>g. kg_period g = period) (db_goals db))"

definition copy_previous :: "leave_db \<Rightarrow> user \<Rightarrow> string \<Rightarrow> kpi_error + leave_db" where
  "copy_previous db u raw_period =
     (let period = strip raw_period
      in if \<not> kpi_on db then Inl Kpi_denied
         else if \<not> valid_kpi_period period then Inl Kpi_bad_body
         else case previous_period period of
           None \<Rightarrow> Inl Kpi_crash
         | Some prev_period \<Rightarrow>
             if \<not> is_leave_manager db (Some u) then Inl Kpi_denied
             else Inr (copy_loop u period (goals_in db period) (copy_sources db u prev_period) db))"

end
