(* ===== verification/Leave_Kpi_Facts.thy ===== *)
theory Leave_Kpi_Facts
  imports Leave_Kpi Leave_Audit
begin

text \<open>
  The life of a KPI goal as a step relation over the endpoints of \<open>Leave_Kpi\<close>: a goal is decided
  only with a result and by somebody other than its employee, its log is an unbroken chain, and
  copying last month's goals twice copies nothing the second time.
\<close>

subsection \<open>Well-formed goals\<close>

definition goal_ok :: "kpi_goal \<Rightarrow> bool" where
  "goal_ok g \<longleftrightarrow>
     (case kg_status g of
        Kpi_draft \<Rightarrow> kg_actual g = None \<and> kg_submitted_at g = None \<and> kg_reviewed_by g = None
      | Kpi_pending \<Rightarrow> kg_actual g \<noteq> None \<and> kg_submitted_at g \<noteq> None \<and> kg_reviewed_by g = None
      | decided \<Rightarrow> kg_actual g \<noteq> None \<and> kg_submitted_at g \<noteq> None \<and> kg_reviewed_at g \<noteq> None
          \<and> (\<exists>r. kg_reviewed_by g = Some r \<and> r \<noteq> kg_employee g)
          \<and> (kg_status g = Kpi_returned \<longrightarrow> kg_feedback g \<noteq> []))"

definition kpi_history :: "leave_db \<Rightarrow> pk \<Rightarrow> (string \<times> string) list" where
  "kpi_history db k =
     map (\<lambda>e. (ev_from e, ev_to e)) (filter (\<lambda>e. ev_kind e = ''kpi'' \<and> ev_kpi e = Some k) (db_events db))"

definition kpi_inv :: "leave_db \<Rightarrow> bool" where
  "kpi_inv db \<longleftrightarrow>
     distinct (map kg_pk (db_goals db))
   \<and> (\<forall>g \<in> set (db_goals db). goal_ok g \<and> links ''new'' (kpi_history db (kg_pk g)) = Some (kpi_text (kg_status g)))
   \<and> (\<forall>k. k \<notin> kg_pk ` set (db_goals db) \<longrightarrow> kpi_history db k = [])"

lemma kpi_event_simps [simp]:
  "ev_kind (kpi_event a u g ref f t d) = ''kpi''" "ev_kpi (kpi_event a u g ref f t d) = ref"
  "ev_from (kpi_event a u g ref f t d) = f" "ev_to (kpi_event a u g ref f t d) = t"
  by (simp_all add: kpi_event_def)

lemma kpi_history_save:
  "kpi_history (save_goal a u old d g db) k = kpi_history db k @ (if k = kg_pk g then [(kpi_text old, kpi_text (kg_status g))] else [])"
  by (simp add: kpi_history_def save_goal_def log_event_def)

lemma kpi_history_create:
  "kpi_history (create_goal u d g db) k = kpi_history db k @ (if k = kg_pk g then [(''new'', kpi_text (kg_status g))] else [])"
  by (simp add: kpi_history_def create_goal_def log_event_def)

lemma goals_after [simp]:
  "db_goals (save_goal a u old d g db) = row_save kg_pk g (db_goals db)"
  "db_goals (create_goal u d g db) = row_create g (db_goals db)"
  "db_goals (log_event e db) = db_goals db"
  "db_goals (delete_goal k db) = row_delete kg_pk k (db_goals db)"
  "db_users (create_goal u d g db) = db_users db" "db_settings (create_goal u d g db) = db_settings db"
  by (simp_all add: save_goal_def create_goal_def log_event_def delete_goal_def)

lemma kpi_invD:
  assumes "kpi_inv db"
  shows "distinct (map kg_pk (db_goals db))"
    and "g \<in> set (db_goals db) \<Longrightarrow> goal_ok g"
    and "g \<in> set (db_goals db) \<Longrightarrow> links ''new'' (kpi_history db (kg_pk g)) = Some (kpi_text (kg_status g))"
    and "k \<notin> kg_pk ` set (db_goals db) \<Longrightarrow> kpi_history db k = []"
  using assms by (simp_all add: kpi_inv_def)

lemma save_goal_inv:
  assumes "kpi_inv db" and "row_get kg_pk (kg_pk g) (db_goals db) = Some old" and "goal_ok g"
  shows "kpi_inv (save_goal a u (kg_status old) d g db)"
proof -
  note old = row_get_Some [OF assms(2)]
  have keys: "kg_pk ` set (row_save kg_pk g (db_goals db)) = kg_pk ` set (db_goals db)"
    by (metis list.set_map map_key_row_save)
  have "links ''new'' (kpi_history db (kg_pk g)) = Some (kpi_text (kg_status old))"
    using kpi_invD(3) [OF assms(1)] old by metis
  then have new: "links ''new'' (kpi_history (save_goal a u (kg_status old) d g db) (kg_pk g)) = Some (kpi_text (kg_status g))"
    by (simp add: kpi_history_save links_append)
  have other: "kpi_history (save_goal a u (kg_status old) d g db) k = kpi_history db k" if "k \<noteq> kg_pk g" for k
    using that by (simp add: kpi_history_save)
  have "goal_ok x \<and> links ''new'' (kpi_history (save_goal a u (kg_status old) d g db) (kg_pk x)) = Some (kpi_text (kg_status x))"
    if "x \<in> set (row_save kg_pk g (db_goals db))" for x
  proof (cases "x = g")
    case False
    then have "x \<in> set (db_goals db)" "kg_pk x \<noteq> kg_pk g" using that by (auto simp: set_row_save split: if_splits)
    then show ?thesis using kpi_invD(2,3) [OF assms(1)] other by simp
  qed (use new assms(3) in simp)
  moreover have "kpi_history (save_goal a u (kg_status old) d g db) k = []" if "k \<notin> kg_pk ` set (db_goals db)" for k
  proof -
    have "k \<noteq> kg_pk g" using that old by (metis imageI)
    then show ?thesis using that other kpi_invD(4) [OF assms(1)] by simp
  qed
  ultimately show ?thesis unfolding kpi_inv_def goals_after keys using kpi_invD(1) [OF assms(1)] by simp
qed

lemma create_goal_inv:
  assumes "kpi_inv db" and "kg_pk g = next_pk kg_pk (db_goals db)" and "goal_ok g"
  shows "kpi_inv (create_goal u d g db)"
proof -
  have fresh: "kg_pk g \<notin> kg_pk ` set (db_goals db)" using assms(2) by simp
  have "kpi_history db (kg_pk g) = []" using fresh by (rule kpi_invD(4) [OF assms(1)])
  then have new: "links ''new'' (kpi_history (create_goal u d g db) (kg_pk g)) = Some (kpi_text (kg_status g))"
    by (simp add: kpi_history_create)
  have other: "kpi_history (create_goal u d g db) k = kpi_history db k" if "k \<noteq> kg_pk g" for k
    using that by (simp add: kpi_history_create)
  have "goal_ok x \<and> links ''new'' (kpi_history (create_goal u d g db) (kg_pk x)) = Some (kpi_text (kg_status x))"
    if "x \<in> set (db_goals db)" for x
  proof -
    have "kg_pk x \<noteq> kg_pk g" using that fresh by (metis imageI)
    then show ?thesis using that other kpi_invD(2,3) [OF assms(1)] by simp
  qed
  moreover have "kpi_history (create_goal u d g db) k = []" if "k \<noteq> kg_pk g" "k \<notin> kg_pk ` set (db_goals db)" for k
    using that other kpi_invD(4) [OF assms(1)] by simp
  ultimately show ?thesis
    unfolding kpi_inv_def goals_after using new assms(3) kpi_invD(1) [OF assms(1)] fresh
    by (simp add: distinct_row_create)
qed

lemma kpi_history_delete:
  "kpi_history (delete_goal k (log_event e db)) j = (if j = k then [] else kpi_history db j)" if "ev_kpi e = None"
proof -
  have h: "map (\<lambda>e. (ev_from e, ev_to e)) (filter (\<lambda>e. ev_kind e = ''kpi'' \<and> ev_kpi e = Some j)
        (map (\<lambda>e. if ev_kpi e = Some k then e\<lparr>ev_kpi := None\<rparr> else e) es))
      = (if j = k then [] else map (\<lambda>e. (ev_from e, ev_to e)) (filter (\<lambda>e. ev_kind e = ''kpi'' \<and> ev_kpi e = Some j) es))" for es
    by (induction es) auto
  show ?thesis using that by (simp add: kpi_history_def delete_goal_def log_event_def h)
qed

lemma delete_goal_inv:
  assumes "kpi_inv db" and "ev_kpi e = None"
  shows "kpi_inv (delete_goal k (log_event e db))"
  using assms unfolding kpi_inv_def kpi_history_delete [OF assms(2)] goals_after
  by (auto simp: distinct_row_delete)

lemma new_goal_ok [simp]: "goal_ok (new_goal db e p t x un di u)" "kg_pk (new_goal db e p t x un di u) = next_pk kg_pk (db_goals db)"
  by (simp_all add: new_goal_def goal_ok_def)

lemma new_goal_fields:
  "kg_employee (new_goal db e p t x un di u) = e" "kg_period (new_goal db e p t x un di u) = p"
  "kg_title (new_goal db e p t x un di u) = t" "kg_status (new_goal db e p t x un di u) = Kpi_draft"
  by (simp_all add: new_goal_def)

lemma get_goal_Inr:
  "get_goal db u k = Inr g \<Longrightarrow> row_get kg_pk k (db_goals db) = Some g \<and> kg_pk g = k \<and> goal_visible db u g"
  by (auto simp: get_goal_def dest: row_get_Some split: if_splits option.splits)

subsection \<open>Steps\<close>

inductive kpi_step :: "leave_db \<Rightarrow> leave_db \<Rightarrow> bool" where
  created: "kpi_create db u b = Inr db' \<Longrightarrow> kpi_step db db'"
| updated: "kpi_update db u k b = Inr db' \<Longrightarrow> kpi_step db db'"
| destroyed: "kpi_destroy db u k = Inr db' \<Longrightarrow> kpi_step db db'"
| submitted: "kpi_submit db u k actual note now = Inr db' \<Longrightarrow> kpi_step db db'"
| approved: "kpi_approve db u k feedback now = Inr db' \<Longrightarrow> kpi_step db db'"
| returned: "kpi_return db u k feedback now = Inr db' \<Longrightarrow> kpi_step db db'"
| copied: "copy_previous db u period = Inr db' \<Longrightarrow> kpi_step db db'"

definition kpi_init :: "leave_db \<Rightarrow> bool" where
  "kpi_init db \<longleftrightarrow> db_goals db = [] \<and> db_events db = []"

lemma kpi_update_inv: "kpi_inv db \<Longrightarrow> kpi_update db u k b = Inr db' \<Longrightarrow> kpi_inv db'"
  by (auto simp: kpi_update_def Let_def goal_ok_def dest!: get_goal_Inr intro!: save_goal_inv
      split: sum.splits if_splits)

lemma kpi_submit_inv: "kpi_inv db \<Longrightarrow> kpi_submit db u k actual note now = Inr db' \<Longrightarrow> kpi_inv db'"
  by (auto simp: kpi_submit_def Let_def goal_ok_def dest!: get_goal_Inr intro!: save_goal_inv
      split: sum.splits if_splits)

lemma kpi_review_inv:
  assumes "kpi_inv db" and "kpi_review db u k decision feedback now = Inr db'"
    and "decision \<in> {Kpi_approved, Kpi_returned}"
  shows "kpi_inv db'"
proof -
  obtain g where g: "get_goal db u k = Inr g" "can_manage_goal u (get_user db (kg_employee g))"
    "kg_status g = Kpi_pending" "decision = Kpi_returned \<longrightarrow> strip feedback \<noteq> []"
    and db': "db' = save_goal (kpi_text decision) (u_pk u) (kg_status g) (Feedback_data (strip feedback))
        (g\<lparr>kg_status := decision, kg_feedback := strip feedback, kg_reviewed_at := Some now,
           kg_reviewed_by := Some (u_pk u), kg_updated_by := Some (u_pk u)\<rparr>) db"
    using assms(2) by (auto simp: kpi_review_def Let_def split: sum.splits if_splits)
  note row = get_goal_Inr [OF g(1)]
  have ok: "goal_ok g" using kpi_invD(2) [OF assms(1)] row_get_Some [OF conjunct1 [OF row]] by simp
  have "u_pk u \<noteq> kg_employee g"
    using g(2) by (auto simp: can_manage_goal_def get_user_def dest: row_get_Some split: option.splits if_splits)
  then have "goal_ok (g\<lparr>kg_status := decision, kg_feedback := strip feedback, kg_reviewed_at := Some now,
      kg_reviewed_by := Some (u_pk u), kg_updated_by := Some (u_pk u)\<rparr>)"
    using ok g(3,4) assms(3) by (auto simp: goal_ok_def)
  then show ?thesis unfolding db' using row by (intro save_goal_inv [OF assms(1)]) simp_all
qed

lemma copy_loop_inv: "kpi_inv db \<Longrightarrow> kpi_inv (copy_loop u period existing sources db)"
proof (induction u period existing sources db rule: copy_loop.induct)
  case (2 u period existing src sources db)
  then show ?case using create_goal_inv [OF 2(3) new_goal_ok(2,1)] by simp
qed simp

lemma kpi_step_inv: "kpi_step db db' \<Longrightarrow> kpi_inv db \<Longrightarrow> kpi_inv db'"
proof (induction rule: kpi_step.induct)
  case (created db u b db')
  then show ?case
    by (auto simp: kpi_create_def Let_def intro!: create_goal_inv split: option.splits if_splits)
next
  case (destroyed db u k db')
  then show ?case
    by (auto simp: kpi_destroy_def intro!: delete_goal_inv split: sum.splits if_splits)
next
  case (copied db u period db')
  then show ?case
    by (auto simp: copy_previous_def Let_def intro!: copy_loop_inv split: option.splits if_splits)
qed (auto intro: kpi_update_inv kpi_submit_inv kpi_review_inv simp: kpi_approve_def kpi_return_def)

lemma kpi_init_inv: "kpi_init db \<Longrightarrow> kpi_inv db"
  by (simp add: kpi_init_def kpi_inv_def kpi_history_def)

interpretation kpis: invariant_system kpi_init kpi_step kpi_inv
  by unfold_locales (auto intro: kpi_init_inv kpi_step_inv)

subsection \<open>Copying\<close>

lemma copy_loop_frame:
  "db_users (copy_loop u period existing sources db) = db_users db"
  "db_settings (copy_loop u period existing sources db) = db_settings db"
  by (induction u period existing sources db rule: copy_loop.induct) auto

lemma copy_loop_goals:
  "\<exists>new. db_goals (copy_loop u period existing sources db) = db_goals db @ new
     \<and> (\<forall>g \<in> set new. kg_period g = period)"
proof (induction u period existing sources db rule: copy_loop.induct)
  case (2 u period existing src sources db)
  then show ?case by (auto simp: row_create_def new_goal_def)
qed simp

lemma copy_loop_covers:
  assumes "src \<in> set sources" and "get_user db (kg_employee src) = Some e" and "u_is_active e"
  shows "(kg_employee src, kg_title src) \<in> set existing \<union> set (goals_in (copy_loop u period existing sources db) period)"
  using assms
proof (induction u period existing sources db rule: copy_loop.induct)
  case (2 u period existing s sources db)
  let ?skip = "(kg_employee s, kg_title s) \<in> set existing
         \<or> \<not> (case get_user db (kg_employee s) of Some e \<Rightarrow> u_is_active e | None \<Rightarrow> False)"
  let ?db = "create_goal (u_pk u) (Copied_data (kg_pk s))
       (new_goal db (kg_employee s) period (kg_title s) (kg_target s) (kg_unit s) (kg_direction s) (u_pk u)) db"
  show ?case
  proof (cases ?skip)
    case True
    then show ?thesis using 2 by (cases "src = s") auto
  next
    case False
    obtain new where n: "db_goals (copy_loop u period existing sources ?db) = db_goals ?db @ new"
      using copy_loop_goals by blast
    have "(kg_employee s, kg_title s) \<in> set (goals_in (copy_loop u period existing sources ?db) period)"
      unfolding goals_in_def n by (simp add: new_goal_fields row_create_def)
    moreover have "get_user ?db (kg_employee src) = Some e" using 2 by (simp add: get_user_def)
    ultimately show ?thesis using 2 False by (cases "src = s") auto
  qed
qed simp

lemma copy_loop_nothing:
  assumes "\<And>s. s \<in> set sources \<Longrightarrow> (kg_employee s, kg_title s) \<in> set existing
      \<or> \<not> (case get_user db (kg_employee s) of Some e \<Rightarrow> u_is_active e | None \<Rightarrow> False)"
  shows "copy_loop u period existing sources db = db"
  using assms by (induction u period existing sources db rule: copy_loop.induct) auto

lemma read_period:
  assumes "1 \<le> year_of d"
  shows "map read_int (split_on (CHR ''-'') (period_of d)) = [Some (year_of d), Some (month_of d)]"
proof -
  let ?y = "nat_text (nat (year_of d))" and ?m = "pad_zeros 2 (nat_text (nat (month_of d)))"
  have y: "CHR ''-'' \<notin> set ?y" using nat_text_digits by blast
  have small: "\<forall>x \<in> set [nat (month_of d) div 10, nat (month_of d) mod 10]. x < 10"
    using month_of_nat [of d] by (simp add: less_mult_imp_div_less)
  have m: "CHR ''-'' \<notin> set ?m" unfolding pad2 [OF month_of_nat(1)] using small by (rule digit_no_dash)
  have "split_on (CHR ''-'') (period_of d) = [?y, ?m]"
    using split_on_append [OF y] split_on_none [OF m] by (simp add: period_of_def)
  then show ?thesis
    using assms month_of_nat [of d] by (simp add: read_int_nat_text read_int_pad2)
qed

lemma previous_differs: "previous_period period = Some p \<Longrightarrow> p \<noteq> period"
proof
  assume a: "previous_period period = Some p" "p = period"
  obtain year month where ym: "map read_int (split_on (CHR ''-'') period) = [Some year, Some month]"
    and p: "map_option period_of (if month = 1 then mk_date (year - 1) 12 1 else mk_date year (month - 1) 1) = Some p"
    using a(1) by (auto simp: previous_period_def split: list.splits option.splits)
  obtain d where d: "(if month = 1 then mk_date (year - 1) 12 1 else mk_date year (month - 1) 1) = Some d"
    and pd: "p = period_of d" using p by auto
  have m: "month_of d = (if month = 1 then 12 else month - 1)" and "1 \<le> year_of d"
    using d by (auto simp: mk_date_def valid_ymd_def dest: mk_date_attributes split: if_splits)
  then have "[Some (year_of d), Some (month_of d)] = [Some year, Some month]"
    using read_period ym pd a(2) by metis
  then show False using m by (auto split: if_splits)
qed

lemma sources_frame:
  assumes "db_goals db' = db_goals db @ new" and "db_users db' = db_users db"
    and "\<forall>g \<in> set new. kg_period g \<noteq> prev"
  shows "copy_sources db' u prev = copy_sources db u prev"
  using assms by (simp add: copy_sources_def get_user_def filter_empty_conv cong: filter_cong)

subsection \<open>Properties\<close>

text \<open>A KPI is never decided by the person it measures, nor without a result: in every reachable
  state an approved or returned goal has a result, a submission time and a reviewer other than
  its employee, a returned one has feedback, a draft has no result, and the log of the goal is
  an unbroken chain of status changes from its creation to the status it has.\<close>

theorem kpi_decided_by_another:
  assumes "reachable kpi_init kpi_step db" and "g \<in> set (db_goals db)"
  shows "(kg_status g \<in> {Kpi_approved, Kpi_returned} \<longrightarrow>
            kg_actual g \<noteq> None \<and> kg_submitted_at g \<noteq> None
          \<and> (\<exists>r. kg_reviewed_by g = Some r \<and> r \<noteq> kg_employee g))
    \<and> (kg_status g = Kpi_returned \<longrightarrow> kg_feedback g \<noteq> [])
    \<and> (kg_status g = Kpi_draft \<longrightarrow> kg_actual g = None)
    \<and> links ''new'' (kpi_history db (kg_pk g)) = Some (kpi_text (kg_status g))"
proof -
  have inv: "kpi_inv db" using assms(1) by (rule kpis.reachable_inv)
  show ?thesis
    using kpi_invD(2,3) [OF inv assms(2)] by (auto simp: goal_ok_def split: kpi_status.splits)
qed

text \<open>Copying last month's goals is safe to repeat: a second copy to the same month changes nothing.\<close>

theorem copy_previous_once:
  assumes "copy_previous db u period = Inr db'"
  shows "copy_previous db' u period = Inr db'"
proof -
  let ?p = "strip period"
  obtain prev where c: "kpi_on db" "valid_kpi_period ?p" "previous_period ?p = Some prev" "is_leave_manager db (Some u)"
    and db': "db' = copy_loop u ?p (goals_in db ?p) (copy_sources db u prev) db"
    using assms by (auto simp: copy_previous_def Let_def split: if_splits option.splits)
  obtain new where new: "db_goals db' = db_goals db @ new" "\<forall>g \<in> set new. kg_period g = ?p"
    using copy_loop_goals unfolding db' by blast
  have users: "db_users db' = db_users db" "db_settings db' = db_settings db" unfolding db' by (simp_all add: copy_loop_frame)
  have sources: "copy_sources db' u prev = copy_sources db u prev"
    using new users previous_differs [OF c(3)] by (intro sources_frame) auto
  have "copy_loop u ?p (goals_in db' ?p) (copy_sources db u prev) db' = db'"
  proof (rule copy_loop_nothing)
    fix s assume s: "s \<in> set (copy_sources db u prev)"
    have same: "get_user db' (kg_employee s) = get_user db (kg_employee s)" by (simp add: get_user_def users)
    have "set (goals_in db ?p) \<subseteq> set (goals_in db' ?p)" by (auto simp: goals_in_def new)
    moreover have "(kg_employee s, kg_title s) \<in> set (goals_in db ?p) \<union> set (goals_in db' ?p)"
      if "get_user db (kg_employee s) = Some e" "u_is_active e" for e
      using copy_loop_covers [OF s that] unfolding db' .
    ultimately show "(kg_employee s, kg_title s) \<in> set (goals_in db' ?p)
        \<or> \<not> (case get_user db' (kg_employee s) of Some e \<Rightarrow> u_is_active e | None \<Rightarrow> False)"
      unfolding same by (cases "get_user db (kg_employee s)") auto
  qed
  moreover have "is_leave_manager db' (Some u) = is_leave_manager db (Some u)" by (simp add: is_leave_manager_def users)
  ultimately show ?thesis
    using c users by (simp add: copy_previous_def kpi_on_def sources Let_def)
qed

subsection \<open>A concrete run\<close>

text \<open>The manager sets ten calls for February 2026, the employee reports eight, the manager approves.\<close>

definition calls_goal :: kpi_goal where
  "calls_goal = new_goal sample_db 1 ''2026-02'' ''Calls'' 10 ''calls'' Higher 2"

definition goal_set_db :: leave_db where
  "goal_set_db = create_goal 2 (goal_data calls_goal) calls_goal sample_db"

definition reported_goal :: kpi_goal where
  "reported_goal = calls_goal\<lparr>kg_actual := Some 8, kg_note := [], kg_feedback := [],
     kg_status := Kpi_pending, kg_submitted_at := Some 1, kg_reviewed_at := None, kg_reviewed_by := None,
     kg_updated_by := Some 1\<rparr>"

definition reported_db :: leave_db where
  "reported_db = save_goal ''submitted'' 1 Kpi_draft (Actual_data 8) reported_goal goal_set_db"

definition approved_goal :: kpi_goal where
  "approved_goal = reported_goal\<lparr>kg_status := Kpi_approved, kg_reviewed_at := Some 2,
     kg_reviewed_by := Some 2, kg_updated_by := Some 2\<rparr>"

definition approved_db :: leave_db where
  "approved_db = save_goal ''approved'' 2 Kpi_pending (Feedback_data []) approved_goal reported_db"

lemma run_goals:
  "db_goals goal_set_db = [calls_goal]" "db_goals reported_db = [reported_goal]"
  "db_goals approved_db = [approved_goal]"
  by (simp_all add: goal_set_db_def reported_db_def approved_db_def row_save_def row_create_def sample_db_def
      reported_goal_def approved_goal_def)

lemma run_tables:
  "db_users goal_set_db = [employee_1, manager_2, staff_3]" "db_settings goal_set_db = Some sample_settings"
  "db_users reported_db = [employee_1, manager_2, staff_3]" "db_settings reported_db = Some sample_settings"
  by (simp_all add: goal_set_db_def reported_db_def save_goal_def log_event_def create_goal_def sample_db_def)

lemma run_user: "db_users db = [employee_1, manager_2, staff_3] \<Longrightarrow> get_user db (Suc 0) = Some employee_1"
  by (simp add: get_user_def row_get_def sample_people)

lemma kpi_on_sample: "db_settings db = Some sample_settings \<Longrightarrow> kpi_on db"
  by (simp add: kpi_on_def LeaveFeatureEnabled_def sample_settings_def)

lemma goal_fields: "kg_pk calls_goal = Suc 0" "kg_employee calls_goal = Suc 0" "kg_status calls_goal = Kpi_draft"
  "kg_note calls_goal = []" "kg_feedback calls_goal = []" "kg_reviewed_at calls_goal = None" "kg_reviewed_by calls_goal = None"
  by (simp_all add: calls_goal_def new_goal_def next_pk_def sample_db_def)

lemma run_create:
  "kpi_create sample_db manager_2 \<lparr>gb_employee = Some 1, gb_period = Some ''2026-02'', gb_title = Some ''Calls'',
     gb_target = Some 10, gb_unit = Some ''calls'', gb_direction = None\<rparr> = Inr goal_set_db"
  by (simp add: kpi_create_def kpi_on_sample sample_db_def run_user goal_body_ok_def text_ok_def strip_def is_space_def
      valid_kpi_period_def is_digit_def cents_def can_manage_goal_def manages_employee_def)
    (simp add: sample_people goal_set_db_def calls_goal_def sample_db_def Let_def)

lemma run_submit: "kpi_submit goal_set_db employee_1 1 8 '' '' 1 = Inr reported_db"
proof -
  have "get_goal goal_set_db employee_1 1 = Inr calls_goal"
    by (simp add: get_goal_def kpi_on_sample run_tables run_goals row_get_def goal_fields goal_visible_def)
      (simp add: sample_people)
  then show ?thesis
    by (simp add: kpi_submit_def cents_def reported_db_def reported_goal_def goal_fields strip_def is_space_def)
      (simp add: sample_people)
qed

lemma run_approve: "kpi_approve reported_db manager_2 1 [] 2 = Inr approved_db"
proof -
  have f: "kg_pk reported_goal = Suc 0" "kg_employee reported_goal = Suc 0" "kg_status reported_goal = Kpi_pending"
    "kg_feedback reported_goal = []"
    by (simp_all add: reported_goal_def goal_fields)
  have m: "team_q manager_2 employee_1" "can_manage_goal manager_2 (Some employee_1)"
    by (simp_all add: team_q_def can_manage_goal_def manages_employee_def sample_people is_elevated_def)
  have "get_goal reported_db manager_2 1 = Inr reported_goal"
    by (simp add: get_goal_def kpi_on_sample run_tables run_goals row_get_def f goal_visible_def run_user m)
  moreover have "reported_goal\<lparr>kg_status := Kpi_approved, kg_feedback := [], kg_reviewed_at := Some 2,
      kg_reviewed_by := Some (u_pk manager_2), kg_updated_by := Some (u_pk manager_2)\<rparr> = approved_goal"
    using f(4) by (simp add: approved_goal_def reported_goal_def goal_fields sample_people)
  ultimately show ?thesis
    by (simp add: kpi_approve_def kpi_review_def strip_def f run_user run_tables m approved_db_def)
      (simp add: sample_people)
qed

lemma approved_reachable: "reachable kpi_init kpi_step approved_db"
proof -
  have "reachable kpi_init kpi_step sample_db"
    by (rule reachable.start) (simp add: kpi_init_def sample_db_def)
  then show ?thesis
    using run_create run_submit run_approve
    by (blast intro: reachable.next_step kpi_step.created kpi_step.submitted kpi_step.approved)
qed

theorem kpi_decided_by_another_witness:
  "kg_reviewed_by approved_goal = Some 2 \<and> kg_employee approved_goal = 1
   \<and> links ''new'' (kpi_history approved_db 1) = Some ''approved''"
  using kpi_decided_by_another [OF approved_reachable, of approved_goal]
  by (simp add: run_goals) (simp add: approved_goal_def reported_goal_def goal_fields)

theorem copy_previous_once_witness:
  "\<exists>db'. copy_previous approved_db manager_2 ''2026-03'' = Inr db' \<and> copy_previous db' manager_2 ''2026-03'' = Inr db'"
proof -
  have "year_of 739648 = 2026" "month_of 739648 = 2"
    by (simp_all add: month_of_def yday_of_def year_of_def days_before_year_def days_before_month_def is_leap_def Let_def)
  then have "previous_period ''2026-03'' = Some ''2026-02''"
    by (simp add: previous_period_def read_int_def strip_def is_space_def read_digits_def is_digit_def digit_value_def
        mk_date_def valid_ymd_def days_in_month_def ymd_def days_before_year_def days_before_month_def is_leap_def
        period_of_def nat_text_step nat_text_1 pad_zeros_def digit_char_def char_of_def bit_iff_odd)
  moreover have "kpi_on approved_db"
    by (rule kpi_on_sample) (simp add: approved_db_def save_goal_def log_event_def run_tables)
  moreover have "is_leave_manager approved_db (Some manager_2)" by (simp add: is_leave_manager_def sample_people)
  ultimately have "\<exists>db'. copy_previous approved_db manager_2 ''2026-03'' = Inr db'"
    by (simp add: copy_previous_def strip_def is_space_def valid_kpi_period_def is_digit_def Let_def)
  then show ?thesis using copy_previous_once by blast
qed

end
