(* ===== verification/Leave_Attendance.thy ===== *)
theory Leave_Attendance
  imports Leave_Report Leave_Kpi
begin

text \<open>
  The attendance grid of a month (\<^verbatim>\<open>leave_management/views_attendance.py\<close>), related to the payroll
  report, and the checks before an account is removed (\<^verbatim>\<open>leave_management/guards.py\<close>).
\<close>

subsection \<open>The grid\<close>

datatype day_kind = Kind_holiday | Kind_weekend | Kind_working

datatype cell = Not_employed | Off | On_leave pk | Future | Worked

definition day_kind_of :: "leave_db \<Rightarrow> date \<Rightarrow> date \<Rightarrow> date \<Rightarrow> day_kind" where
  "day_kind_of db first_day last_day d =
     (if d \<in> set (holiday_dates first_day last_day db) then Kind_holiday
      else if weekday d \<in> set (weekend_days db) then Kind_weekend
      else Kind_working)"

definition leave_rows :: "leave_db \<Rightarrow> date \<Rightarrow> date \<Rightarrow> pk \<Rightarrow> leave_request list" where
  "leave_rows db first_day last_day user =
     rev (filter (\<lambda>r. lr_status r = Approved \<and> lr_employee r = user
        \<and> lr_start r \<le> last_day \<and> first_day \<le> lr_end r) (db_requests db))"

definition cell_code :: "leave_db \<Rightarrow> date \<Rightarrow> date \<Rightarrow> date \<Rightarrow> user \<Rightarrow> date \<Rightarrow> cell" where
  "cell_code db first_day last_day today u d =
     (if (\<exists>s. employment_start u = Some s \<and> d < s) \<or> (\<exists>e. employment_end u = Some e \<and> d > e)
      then Not_employed
      else if day_kind_of db first_day last_day d \<noteq> Kind_working then Off
      else case find (\<lambda>r. lr_start r \<le> d \<and> d \<le> lr_end r) (leave_rows db first_day last_day (u_pk u)) of
        Some r \<Rightarrow> On_leave (lr_type r)
      | None \<Rightarrow> if d > today then Future else Worked)"

definition grid_users :: "leave_db \<Rightarrow> user \<Rightarrow> date \<Rightarrow> pk option \<Rightarrow> user list" where
  "grid_users db viewer first_day department =
     filter (\<lambda>u. (u_is_active u \<or> (\<exists>e. u_employment_end u = Some e \<and> first_day \<le> e))
        \<and> (u_is_staff viewer \<or> u_is_superuser viewer
           \<or> (u_manager u = Some (u_pk viewer)
               \<or> u_role viewer = Role_manager \<and> u_department viewer \<noteq> None \<and> u_department u = u_department viewer)
             \<and> u_pk u \<noteq> u_pk viewer)
        \<and> (case department of None \<Rightarrow> True | Some d \<Rightarrow> u_department u = Some d)) (db_users db)"

definition attendance :: "leave_db \<Rightarrow> user \<Rightarrow> string \<Rightarrow> pk option \<Rightarrow> date \<Rightarrow> (pk \<times> (date \<times> cell) list) list option" where
  "attendance db viewer period department today =
     (if \<not> (LeaveFeatureEnabled [ls_attendance_grid_enabled] (db_settings db) \<and> is_leave_manager db (Some viewer))
      then None
      else case parse_period period of
        None \<Rightarrow> None
      | Some (first_day, last_day) \<Rightarrow>
          Some (map (\<lambda>u. (u_pk u, map (\<lambda>d. (d, cell_code db first_day last_day today u d)) [first_day .. last_day]))
            (grid_users db viewer first_day department)))"

lemma day_kind_working:
  "first_day \<le> d \<Longrightarrow> d \<le> last_day \<Longrightarrow> day_kind_of db first_day last_day d = Kind_working \<longleftrightarrow> workday db True d"
  by (auto simp: day_kind_of_def workday_def holiday_dates_iff)

lemma find_leave:
  assumes "first_day \<le> d" "d \<le> last_day"
  shows "find (\<lambda>r. lr_start r \<le> d \<and> d \<le> lr_end r) (leave_rows db first_day last_day user) = None
    \<longleftrightarrow> \<not> on_leave db user d"
  using assms by (auto simp: find_None_iff leave_rows_def on_leave_def covers_def)

lemma scheduled_iff:
  "d \<in> set (scheduled_days u (working_dates first_day last_day db True)) \<longleftrightarrow>
     first_day \<le> d \<and> d \<le> last_day \<and> workday db True d
     \<and> \<not> ((\<exists>s. employment_start u = Some s \<and> d < s) \<or> (\<exists>e. employment_end u = Some e \<and> d > e))"
  by (auto simp: scheduled_days_def working_dates_iff not_less split: option.splits)

lemma worked_cell:
  assumes "first_day \<le> d" "d \<le> last_day"
  shows "cell_code db first_day last_day today u d = Worked \<longleftrightarrow>
    d \<in> set (scheduled_days u (working_dates first_day last_day db True)) \<and> \<not> on_leave db (u_pk u) d \<and> d \<le> today"
proof (cases "find (\<lambda>r. lr_start r \<le> d \<and> d \<le> lr_end r) (leave_rows db first_day last_day (u_pk u))")
  case None
  then have "\<not> on_leave db (u_pk u) d" using find_leave [OF assms] by simp
  then show ?thesis using assms day_kind_working [OF assms, of db] None
    by (auto simp: cell_code_def scheduled_iff)
next
  case (Some r)
  then have "on_leave db (u_pk u) d" using find_leave [OF assms, of db "u_pk u"] by simp
  then show ?thesis using Some by (simp add: cell_code_def)
qed

text \<open>The attendance grid and the payroll report count the same days, except for today: the grid
  calls today worked, the report counts a day as worked only once it is over.  So the number of
  worked cells of an employee is the worked days of the payroll row, plus one when today is a
  scheduled day of the month without leave.\<close>

theorem grid_matches_payroll:
  "let working = working_dates first_day last_day db True;
       row = payroll_row_of db period mode dc tax pen first_day last_day working comps today u;
       cells = map (cell_code db first_day last_day today u) [first_day .. last_day]
   in length (filter (\<lambda>c. c = Worked) cells)
      = pr_worked row + (if today \<in> set (scheduled_days u working) \<and> \<not> on_leave db (u_pk u) today then 1 else 0)"
proof -
  define working where "working = working_dates first_day last_day db True"
  let ?row = "payroll_row_of db period mode dc tax pen first_day last_day working comps today u"
  let ?s = "scheduled_days u working" and ?l = "on_leave db (u_pk u)"
  have dist: "distinct ?s" by (simp add: scheduled_days_def working_def working_dates_filter)
  have "length (filter (\<lambda>c. c = Worked) (map (cell_code db first_day last_day today u) [first_day .. last_day]))
      = card {d \<in> {first_day .. last_day}. cell_code db first_day last_day today u d = Worked}"
    using distinct_card [of "filter (\<lambda>d. cell_code db first_day last_day today u d = Worked) [first_day .. last_day]"]
    by (simp add: filter_map o_def)
  also have "{d \<in> {first_day .. last_day}. cell_code db first_day last_day today u d = Worked}
      = {d \<in> set ?s. \<not> ?l d \<and> d \<le> today}"
    using worked_cell scheduled_iff unfolding working_def by auto
  also have "\<dots> = {d \<in> set ?s. d < today \<and> \<not> ?l d} \<union> (if today \<in> set ?s \<and> \<not> ?l today then {today} else {})"
    by (auto simp: le_less)
  also have "card \<dots> = card {d \<in> set ?s. d < today \<and> \<not> ?l d} + (if today \<in> set ?s \<and> \<not> ?l today then 1 else 0)"
    by (subst card_Un_disjoint) auto
  also have "card {d \<in> set ?s. d < today \<and> \<not> ?l d} = pr_worked ?row"
    using report_row_days(4) [OF working_def refl refl, of period mode dc tax pen comps today u]
      distinct_card [of "filter (\<lambda>d. d < today \<and> \<not> ?l d) ?s"] dist by simp
  finally show ?thesis unfolding Let_def working_def .
qed

subsection \<open>Removal guards\<close>

datatype removal_reason =
    Open_requests nat
  | Covering nat
  | Active_reports nat
  | Has_history

definition guard_enabled :: "leave_db \<Rightarrow> bool" where
  "guard_enabled db = (case db_settings db of None \<Rightarrow> True | Some s \<Rightarrow> ls_block_deactivation s)"

definition deactivation_blockers :: "leave_db \<Rightarrow> pk \<Rightarrow> removal_reason list" where
  "deactivation_blockers db user =
     (let open_requests = length (filter (\<lambda>r. lr_employee r = user \<and> lr_status r \<in> set open_statuses) (db_requests db));
          covering = length (filter (\<lambda>s. rs_substitute s = user
             \<and> (\<exists>r. get_request db (rs_request s) = Some r \<and> lr_status r \<in> set open_statuses)
             \<and> rs_status s \<notin> {Sub_rejected, Sub_skipped}) (db_subs db));
          reports = length (filter (\<lambda>e. u_manager e = Some user \<and> u_is_active e) (db_users db))
      in (if open_requests \<noteq> 0 then [Open_requests open_requests] else [])
         @ (if covering \<noteq> 0 then [Covering covering] else [])
         @ (if reports \<noteq> 0 then [Active_reports reports] else []))"

definition deletion_blockers :: "leave_db \<Rightarrow> pk \<Rightarrow> removal_reason list" where
  "deletion_blockers db user =
     (let has_history = (\<exists>r \<in> set (db_requests db). lr_employee r = user)
            \<or> (\<exists>s \<in> set (db_subs db). rs_substitute s = user)
            \<or> (\<exists>g \<in> set (db_goals db). kg_employee g = user)
      in deactivation_blockers db user @ (if has_history then [Has_history] else []))"

definition check_removal :: "leave_db \<Rightarrow> pk \<Rightarrow> bool \<Rightarrow> removal_reason list" where
  "check_removal db user delete =
     (if \<not> guard_enabled db then []
      else if delete then deletion_blockers db user else deactivation_blockers db user)"

end
