(* ===== verification/Booking_Model.thy ===== *)
theory Booking_Model
  imports Users Text
begin

text \<open>
  The data of appointment booking (\<^verbatim>\<open>booking_management/models.py\<close>): services, the people who
  provide them with their weekly hours and exceptions, bookings with their payment columns,
  repeating bookings, and the booking settings of the tenant.

  A \<^verbatim>\<open>TimeField\<close> is a number of microseconds since midnight, so comparisons are those of the
  integers.  Booking dates and times are wall clock times of the business; \<open>now\<close> always stands for
  \<^verbatim>\<open>tenant_now\<close>, the naive local datetime, and \<open>utc\<close> for \<^verbatim>\<open>timezone.now()\<close>.  Columns that only
  feed a page or a message (names, images, texts of the settings, SMS switches) are left out.
\<close>

type_synonym clock = int

datatype booking_type = Fixed_slots | Duration_based

datatype service_status = Service_active | Service_inactive | Service_coming_soon

text \<open>\<open>sv_slots\<close> is the JSON of \<^verbatim>\<open>available_time_slots\<close>: None when it is not a list, and in a list
  None for an element that is not a string.\<close>

record service =
  sv_pk :: pk
  sv_status :: service_status
  sv_base_price :: decimal
  sv_deposit_percentage :: int
  sv_duration :: int
  sv_buffer :: int
  sv_type :: booking_type
  sv_slots :: "string option list option"
  sv_staff :: "pk list"

definition total_duration_minutes :: "service \<Rightarrow> int" where
  "total_duration_minutes s = sv_duration s + sv_buffer s"

definition calculate_deposit_amount :: "service \<Rightarrow> decimal" where
  "calculate_deposit_amount s = sv_base_price s * of_int (sv_deposit_percentage s) / 100"

definition calculate_remaining_amount :: "service \<Rightarrow> decimal" where
  "calculate_remaining_amount s = sv_base_price s - calculate_deposit_amount s"

record booking_staff =
  bf_pk :: pk
  bf_user :: pk
  bf_active :: bool
  bf_rating :: decimal
  bf_ratings :: int

record staff_availability =
  wa_pk :: pk
  wa_staff :: pk
  wa_day :: int
  wa_start :: clock
  wa_end :: clock
  wa_available :: bool
  wa_break_start :: "clock option"
  wa_break_end :: "clock option"

record staff_exception =
  sx_pk :: pk
  sx_staff :: pk
  sx_date :: date
  sx_start :: "clock option"
  sx_end :: "clock option"
  sx_available :: bool

datatype booking_status = Booked_pending | Booked_confirmed | In_progress | Completed
  | Booking_cancelled | No_show

datatype payment_status = Pay_pending | Deposit_paid | Fully_paid | Pay_failed | Refunded

datatype payment_method = Method_unset | Pay_cash | Pay_card

datatype refund_state = Requested | Manual_required

text \<open>The keys of \<^verbatim>\<open>payment_metadata\<close> that the code reads back: the refund of the online part, the
  amount to return by hand, and whether the notice of a paid booking went out.\<close>

record payment_metadata =
  md_refund :: "(refund_state \<times> decimal) option"
  md_manual_refund :: "decimal option"
  md_created_email :: bool

definition no_metadata :: payment_metadata where
  "no_metadata = \<lparr>md_refund = None, md_manual_refund = None, md_created_email = False\<rparr>"

record manual_payment =
  mp_amount :: decimal
  mp_method :: string
  mp_note :: string
  mp_by :: pk

record booking =
  bk_pk :: pk
  bk_number :: string
  bk_client :: pk
  bk_service :: pk
  bk_staff :: "pk option"
  bk_date :: date
  bk_start :: clock
  bk_end :: clock
  bk_status :: booking_status
  bk_payment_status :: payment_status
  bk_total :: decimal
  bk_deposit :: decimal
  bk_paid :: decimal
  bk_order :: string                    \<comment> \<open>\<^verbatim>\<open>bog_order_id\<close>, empty for NULL\<close>
  bk_method :: payment_method
  bk_metadata :: payment_metadata
  bk_client_notes :: string
  bk_staff_notes :: string
  bk_rating :: "int option"
  bk_review :: string
  bk_reminder_sent :: bool
  bk_second_reminder_sent :: bool
  bk_staff_reminder_sent :: bool
  bk_manual :: "manual_payment list"
  bk_created_by :: "pk option"
  bk_cancelled_at :: "datetime option"
  bk_cancelled_by :: string
  bk_reason :: string
  bk_created_at :: datetime
  bk_confirmed_at :: "datetime option"
  bk_completed_at :: "datetime option"

text \<open>The status changes of the model class, each with the \<^verbatim>\<open>save\<close> of the columns it sets.\<close>

definition confirm_booking :: "datetime \<Rightarrow> booking \<Rightarrow> booking" where
  "confirm_booking utc b = b\<lparr>bk_status := Booked_confirmed, bk_confirmed_at := Some utc\<rparr>"

definition complete_booking :: "datetime \<Rightarrow> booking \<Rightarrow> booking" where
  "complete_booking utc b = b\<lparr>bk_status := Completed, bk_completed_at := Some utc\<rparr>"

definition check_in_booking :: "booking \<Rightarrow> booking" where
  "check_in_booking b = b\<lparr>bk_status := In_progress\<rparr>"

definition mark_no_show :: "booking \<Rightarrow> booking" where
  "mark_no_show b = b\<lparr>bk_status := No_show\<rparr>"

definition cancel_booking :: "datetime \<Rightarrow> string \<Rightarrow> string \<Rightarrow> booking \<Rightarrow> booking" where
  "cancel_booking utc by reason b =
     b\<lparr>bk_status := Booking_cancelled, bk_cancelled_at := Some utc, bk_cancelled_by := by,
       bk_reason := reason\<rparr>"

definition remaining_amount :: "booking \<Rightarrow> decimal" where
  "remaining_amount b = bk_total b - bk_paid b"

definition active_booking_statuses :: "booking_status list" where
  "active_booking_statuses = [Booked_pending, Booked_confirmed, In_progress]"

definition final_booking_statuses :: "booking_status list" where
  "final_booking_statuses = [Completed, Booking_cancelled, No_show]"

abbreviation active_booking :: "booking \<Rightarrow> bool" where
  "active_booking b \<equiv> bk_status b \<in> set active_booking_statuses"

datatype frequency = Weekly | Biweekly | Monthly

datatype recurring_status = Series_active | Series_paused | Series_cancelled | Series_completed

record recurring_booking =
  rb_pk :: pk
  rb_client :: pk
  rb_service :: pk
  rb_staff :: "pk option"
  rb_frequency :: frequency
  rb_day :: int
  rb_time :: clock
  rb_status :: recurring_status
  rb_next :: date
  rb_last :: "pk option"
  rb_until :: "date option"
  rb_max :: "int option"
  rb_count :: int

datatype refund_policy = Refund_full | Partial_50 | Partial_25 | No_refund

record booking_settings =
  bs_require_deposit :: bool
  bs_allow_cash :: bool
  bs_allow_card :: bool
  bs_credentials :: bool                \<comment> \<open>both BOG credentials are stored\<close>
  bs_cancellation_hours :: int
  bs_refund_policy :: refund_policy
  bs_confirm_on_deposit :: bool
  bs_confirm_on_full :: bool
  bs_min_hours :: int
  bs_max_days :: int
  bs_reminder_hours :: int
  bs_second_reminder_hours :: "int option"

definition default_booking_settings :: booking_settings where
  "default_booking_settings =
     \<lparr>bs_require_deposit = False, bs_allow_cash = True, bs_allow_card = True, bs_credentials = False,
      bs_cancellation_hours = 24, bs_refund_policy = Refund_full, bs_confirm_on_deposit = True,
      bs_confirm_on_full = True, bs_min_hours = 2, bs_max_days = 60, bs_reminder_hours = 24,
      bs_second_reminder_hours = None\<rparr>"

record booking_client =
  cl_pk :: pk
  cl_name :: string
  cl_phone :: string
  cl_email :: string                    \<comment> \<open>empty for NULL\<close>
  cl_booking_enabled :: bool

record booking_db =
  bd_services :: "service list"
  bd_staff :: "booking_staff list"
  bd_weekly :: "staff_availability list"
  bd_exceptions :: "staff_exception list"
  bd_bookings :: "booking list"
  bd_series :: "recurring_booking list"
  bd_clients :: "booking_client list"
  bd_settings :: "booking_settings option"

definition get_service :: "booking_db \<Rightarrow> pk \<Rightarrow> service option" where
  "get_service db k = row_get sv_pk k (bd_services db)"

definition get_staff :: "booking_db \<Rightarrow> pk \<Rightarrow> booking_staff option" where
  "get_staff db k = row_get bf_pk k (bd_staff db)"

definition get_booking :: "booking_db \<Rightarrow> pk \<Rightarrow> booking option" where
  "get_booking db k = row_get bk_pk k (bd_bookings db)"

definition save_booking :: "booking \<Rightarrow> booking_db \<Rightarrow> booking_db" where
  "save_booking b db = db\<lparr>bd_bookings := row_save bk_pk b (bd_bookings db)\<rparr>"

text \<open>\<^verbatim>\<open>get_or_create_booking_settings\<close>: the row of the tenant, created with the defaults.\<close>

definition get_or_create_booking_settings :: "booking_db \<Rightarrow> booking_db \<times> booking_settings" where
  "get_or_create_booking_settings db =
     (case bd_settings db of
        Some s \<Rightarrow> (db, s)
      | None \<Rightarrow> (db\<lparr>bd_settings := Some default_booking_settings\<rparr>, default_booking_settings))"

text \<open>\<^verbatim>\<open>is_booking_admin\<close>: staff flag, superuser, or role admin or manager.\<close>

definition is_booking_admin :: "user \<Rightarrow> bool" where
  "is_booking_admin u \<longleftrightarrow> u_is_superuser u \<or> u_is_staff u \<or> u_role u \<in> {Role_admin, Role_manager}"

lemma save_booking_simps [simp]:
  "bd_services (save_booking b db) = bd_services db"
  "bd_staff (save_booking b db) = bd_staff db"
  "bd_weekly (save_booking b db) = bd_weekly db"
  "bd_exceptions (save_booking b db) = bd_exceptions db"
  "bd_series (save_booking b db) = bd_series db"
  "bd_clients (save_booking b db) = bd_clients db"
  "bd_settings (save_booking b db) = bd_settings db"
  "bd_bookings (save_booking b db) = row_save bk_pk b (bd_bookings db)"
  by (simp_all add: save_booking_def)

lemma get_booking_Some: "get_booking db k = Some b \<Longrightarrow> b \<in> set (bd_bookings db) \<and> bk_pk b = k"
  unfolding get_booking_def by (rule row_get_Some)

end
