(* ===== verification/Booking_Slots.thy ===== *)
theory Booking_Slots
  imports Booking_Model
begin

text \<open>
  When an appointment can take place (\<^verbatim>\<open>booking_management/utils.py\<close>): the working hours of a
  staff member on a date, the times a service may start at, the overlap query on the booked time,
  the check of a chosen time, and the slot lists of the public page and of the dashboard.

  Checks return None when they pass and otherwise the reason.  The order in which the database
  lists staff by name depends on its collation: it is the parameter \<open>by_name\<close>, which is only
  assumed to list the same rows.
\<close>

datatype slot_error =
    Too_soon | Too_far_ahead
  | Past_date | Past_time | Staff_away | Not_offered | Outside_hours | Beyond_hours
  | Break_conflict | Already_booked | No_staff | No_free_staff

subsection \<open>Clock times\<close>

definition time_to_minutes :: "clock \<Rightarrow> int" where
  "time_to_minutes t = t div us_per_minute"

definition minutes_to_time :: "int \<Rightarrow> clock" where
  "minutes_to_time m = m * us_per_minute"

text \<open>\<^verbatim>\<open>datetime.combine(...) + timedelta(minutes=n)\<close> read back as a time of day: it wraps at midnight.\<close>

definition add_minutes_to_time :: "clock \<Rightarrow> int \<Rightarrow> clock" where
  "add_minutes_to_time t n = (t + n * us_per_minute) mod us_per_day"

definition combine :: "date \<Rightarrow> clock \<Rightarrow> datetime" where
  "combine d t = d * us_per_day + t"

definition clock_of :: "datetime \<Rightarrow> clock" where
  "clock_of n = n mod us_per_day"

text \<open>\<^verbatim>\<open>strptime(s, '%H:%M').time()\<close>, None for the ValueError: one or two digits on both sides.\<close>

definition clock_field :: "int \<Rightarrow> string \<Rightarrow> int option" where
  "clock_field limit s =
     (if length s \<in> {1, 2} \<and> list_all is_digit s
      then (case read_digits s of
              Some n \<Rightarrow> if int n \<le> limit then Some (int n) else None
            | None \<Rightarrow> None)
      else None)"

definition parse_clock :: "string \<Rightarrow> clock option" where
  "parse_clock s =
     (case split_on (CHR '':'') s of
        [h, m] \<Rightarrow>
          (case (clock_field 23 h, clock_field 59 m) of
             (Some hour, Some minute) \<Rightarrow> Some (minutes_to_time (hour * 60 + minute))
           | _ \<Rightarrow> None)
      | _ \<Rightarrow> None)"

text \<open>\<^verbatim>\<open>strftime('%H:%M')\<close>.\<close>

definition clock_text :: "clock \<Rightarrow> string" where
  "clock_text t =
     pad_zeros 2 (nat_text (nat (time_to_minutes t div 60))) @ '':''
     @ pad_zeros 2 (nat_text (nat (time_to_minutes t mod 60)))"

text \<open>\<^verbatim>\<open>range(a, b, step)\<close> for a positive step.\<close>

definition py_range :: "int \<Rightarrow> int \<Rightarrow> int \<Rightarrow> int list" where
  "py_range a b step = map (\<lambda>i. a + i * step) [0..(b - a - 1) div step]"

subsection \<open>Working hours\<close>

record day_hours =
  dh_start :: clock
  dh_end :: clock
  dh_break_start :: "clock option"
  dh_break_end :: "clock option"

definition weekly_hours :: "staff_availability \<Rightarrow> day_hours" where
  "weekly_hours w =
     \<lparr>dh_start = wa_start w, dh_end = wa_end w, dh_break_start = wa_break_start w,
      dh_break_end = wa_break_end w\<rparr>"

definition get_staff_availability :: "booking_db \<Rightarrow> pk \<Rightarrow> date \<Rightarrow> day_hours option" where
  "get_staff_availability db staff d =
     (let weekly = find (\<lambda>w. wa_staff w = staff \<and> wa_day w = weekday d \<and> wa_available w) (rev (bd_weekly db));
          from_weekly = map_option weekly_hours weekly
      in case find (\<lambda>x. sx_staff x = staff \<and> sx_date x = d) (rev (bd_exceptions db)) of
           None \<Rightarrow> from_weekly
         | Some x \<Rightarrow>
             if \<not> sx_available x then None
             else (case (sx_start x, sx_end x) of
                 (Some s, Some e) \<Rightarrow>
                   Some \<lparr>dh_start = s, dh_end = e, dh_break_start = None, dh_break_end = None\<rparr>
               | (s, e) \<Rightarrow>
                   if weekly = None
                   then Some \<lparr>dh_start = (case s of Some t \<Rightarrow> t | None \<Rightarrow> minutes_to_time (9 * 60)),
                              dh_end = (case e of Some t \<Rightarrow> t | None \<Rightarrow> minutes_to_time (17 * 60)),
                              dh_break_start = None, dh_break_end = None\<rparr>
                   else from_weekly))"

subsection \<open>Start times\<close>

definition candidate_start_times :: "service \<Rightarrow> day_hours \<Rightarrow> clock list" where
  "candidate_start_times s h =
     (case sv_type s of
        Fixed_slots \<Rightarrow>
          List.map_filter (\<lambda>x. case x of Some t \<Rightarrow> parse_clock t | None \<Rightarrow> None)
            (case sv_slots s of Some xs \<Rightarrow> xs | None \<Rightarrow> [])
      | Duration_based \<Rightarrow>
          map minutes_to_time
            (py_range (time_to_minutes (dh_start h)) (time_to_minutes (dh_end h))
              (max 1 (min 30 (sv_duration s)))))"

definition fits_working_hours :: "day_hours \<Rightarrow> clock \<Rightarrow> int \<Rightarrow> bool" where
  "fits_working_hours h start_time total_minutes =
     (let start = time_to_minutes start_time;
          finish = start + total_minutes
      in if start < time_to_minutes (dh_start h) then False
         else if finish > time_to_minutes (dh_end h) then False
         else (case (dh_break_start h, dh_break_end h) of
             (Some bs, Some be) \<Rightarrow> \<not> (start < time_to_minutes be \<and> finish > time_to_minutes bs)
           | _ \<Rightarrow> True))"

definition staff_can_perform :: "service \<Rightarrow> booking_staff \<Rightarrow> bool" where
  "staff_can_perform s f \<longleftrightarrow> bf_active f \<and> bf_pk f \<in> set (sv_staff s)"

definition is_slot_booked :: "booking_db \<Rightarrow> pk \<Rightarrow> date \<Rightarrow> clock \<Rightarrow> int \<Rightarrow> pk option \<Rightarrow> bool" where
  "is_slot_booked db staff d start_time duration_minutes exclude_booking_id =
     (let end_time = add_minutes_to_time start_time duration_minutes
      in \<exists>b \<in> set (bd_bookings db).
           bk_staff b = Some staff \<and> bk_date b = d \<and> active_booking b
           \<and> bk_start b < end_time \<and> bk_end b > start_time
           \<and> exclude_booking_id \<noteq> Some (bk_pk b))"

definition is_time_in_range :: "clock \<Rightarrow> clock \<Rightarrow> clock \<Rightarrow> bool" where
  "is_time_in_range t a b \<longleftrightarrow> a \<le> t \<and> t < b"

definition clock_second :: "clock \<Rightarrow> int" where
  "clock_second t = (t div 1000000) mod 60"

definition check_staff_slot ::
  "booking_db \<Rightarrow> service \<Rightarrow> pk \<Rightarrow> date \<Rightarrow> clock \<Rightarrow> pk option \<Rightarrow> bool \<Rightarrow> slot_error option" where
  "check_staff_slot db s staff d start_time exclude_booking_id enforce_grid =
     (case get_staff_availability db staff d of
        None \<Rightarrow> Some Staff_away
      | Some h \<Rightarrow>
          if enforce_grid \<and>
             (time_to_minutes start_time \<notin> time_to_minutes ` set (candidate_start_times s h)
              \<or> clock_second start_time \<noteq> 0)
          then Some Not_offered
          else if \<not> is_time_in_range start_time (dh_start h) (dh_end h) then Some Outside_hours
          else if time_to_minutes start_time + total_duration_minutes s > time_to_minutes (dh_end h)
          then Some Beyond_hours
          else if \<not> fits_working_hours h start_time (total_duration_minutes s) then Some Break_conflict
          else if is_slot_booked db staff d start_time (total_duration_minutes s) exclude_booking_id
          then Some Already_booked
          else None)"

definition check_booking_window :: "booking_settings option \<Rightarrow> datetime \<Rightarrow> date \<Rightarrow> clock \<Rightarrow> slot_error option" where
  "check_booking_window settings now d start_time =
     (let min_hours = (case settings of Some s \<Rightarrow> bs_min_hours s | None \<Rightarrow> 2);
          max_days = (case settings of Some s \<Rightarrow> bs_max_days s | None \<Rightarrow> 60)
      in if combine d start_time < now + min_hours * us_per_hour then Some Too_soon
         else if d > date_of now + max_days then Some Too_far_ahead
         else None)"

subsection \<open>Choosing a staff member\<close>

definition active_staff_of :: "booking_db \<Rightarrow> service \<Rightarrow> booking_staff list" where
  "active_staff_of db s = filter (\<lambda>f. bf_pk f \<in> set (sv_staff s) \<and> bf_active f) (bd_staff db)"

definition find_available_staff ::
  "booking_db \<Rightarrow> service \<Rightarrow> date \<Rightarrow> clock \<Rightarrow> pk option \<Rightarrow> bool \<Rightarrow> booking_staff option" where
  "find_available_staff db s d start_time exclude_booking_id enforce_grid =
     find (\<lambda>f. check_staff_slot db s (bf_pk f) d start_time exclude_booking_id enforce_grid = None)
       (active_staff_of db s)"

definition validate_booking_availability ::
  "booking_db \<Rightarrow> datetime \<Rightarrow> service \<Rightarrow> pk option \<Rightarrow> date \<Rightarrow> clock \<Rightarrow> pk option \<Rightarrow> bool \<Rightarrow> slot_error option" where
  "validate_booking_availability db now s staff d start_time exclude_booking_id enforce_grid =
     (if d < date_of now then Some Past_date
      else if d = date_of now \<and> start_time \<le> clock_of now then Some Past_time
      else case staff of
        Some f \<Rightarrow> check_staff_slot db s f d start_time exclude_booking_id enforce_grid
      | None \<Rightarrow>
          if active_staff_of db s = [] then Some No_staff
          else if find_available_staff db s d start_time exclude_booking_id enforce_grid = None
          then Some No_free_staff
          else None)"

subsection \<open>Slot lists\<close>

text \<open>One entry per start time, with everyone free at that time; the first is the primary one.\<close>

record slot =
  so_start :: string
  so_end :: string
  so_staff :: "pk list"

definition slot_staff_id :: "slot \<Rightarrow> pk" where
  "slot_staff_id x = hd (so_staff x)"

text \<open>\<^verbatim>\<open>slots_by_time.setdefault(key, ...)\<close> and the append to its \<^verbatim>\<open>available_staff\<close>.\<close>

fun add_slot :: "string \<Rightarrow> string \<Rightarrow> pk \<Rightarrow> slot list \<Rightarrow> slot list" where
  "add_slot key fin f [] = [\<lparr>so_start = key, so_end = fin, so_staff = [f]\<rparr>]"
| "add_slot key fin f (x # xs) =
     (if so_start x = key then x\<lparr>so_staff := so_staff x @ [f]\<rparr> # xs else x # add_slot key fin f xs)"

definition collect_slots :: "service \<Rightarrow> (pk \<times> clock) list \<Rightarrow> slot list" where
  "collect_slots s offers =
     fold (\<lambda>(f, t). add_slot (clock_text t) (clock_text (add_minutes_to_time t (sv_duration s))) f) offers []"

definition staff_offers ::
  "booking_db \<Rightarrow> booking_settings option \<Rightarrow> datetime \<Rightarrow> service \<Rightarrow> date \<Rightarrow> booking_staff \<Rightarrow> (pk \<times> clock) list" where
  "staff_offers db settings now s d f =
     (case get_staff_availability db (bf_pk f) d of
        None \<Rightarrow> []
      | Some h \<Rightarrow>
          map (Pair (bf_pk f))
            (filter (\<lambda>t. fits_working_hours h t (total_duration_minutes s)
                \<and> check_booking_window settings now d t = None
                \<and> \<not> is_slot_booked db (bf_pk f) d t (total_duration_minutes s) None)
              (candidate_start_times s h)))"

definition generate_available_slots ::
  "(booking_staff list \<Rightarrow> booking_staff list) \<Rightarrow> booking_db \<Rightarrow> datetime \<Rightarrow> service \<Rightarrow> date \<Rightarrow> booking_staff option
     \<Rightarrow> slot list" where
  "generate_available_slots by_name db now s d staff =
     (let members = (case staff of
            Some f \<Rightarrow> if staff_can_perform s f then [f] else []
          | None \<Rightarrow> by_name (active_staff_of db s))
      in sort_key so_start
           (collect_slots s (concat (map (staff_offers db (bd_settings db) now s d) members))))"

definition admin_offers ::
  "booking_db \<Rightarrow> service \<Rightarrow> date \<Rightarrow> pk option \<Rightarrow> datetime option \<Rightarrow> int option \<Rightarrow> booking_staff \<Rightarrow> (pk \<times> clock) list" where
  "admin_offers db s d exclude_booking_id not_before step_minutes f =
     (case get_staff_availability db (bf_pk f) d of
        None \<Rightarrow> []
      | Some h \<Rightarrow>
          let candidates = (case step_minutes of
                Some step \<Rightarrow>
                  if sv_type s = Duration_based \<and> step \<noteq> 0
                  then map minutes_to_time
                         (py_range (time_to_minutes (dh_start h)) (time_to_minutes (dh_end h)) step)
                  else candidate_start_times s h
              | None \<Rightarrow> candidate_start_times s h)
          in map (Pair (bf_pk f))
               (filter (\<lambda>t. fits_working_hours h t (total_duration_minutes s)
                   \<and> \<not> (case not_before of Some n \<Rightarrow> combine d t < n | None \<Rightarrow> False)
                   \<and> \<not> is_slot_booked db (bf_pk f) d t (total_duration_minutes s) exclude_booking_id)
                 candidates))"

definition generate_admin_slots ::
  "booking_db \<Rightarrow> service \<Rightarrow> date \<Rightarrow> booking_staff option \<Rightarrow> pk option \<Rightarrow> datetime option \<Rightarrow> int option \<Rightarrow> slot list" where
  "generate_admin_slots db s d staff exclude_booking_id not_before step_minutes =
     (let members = (case staff of Some f \<Rightarrow> [f] | None \<Rightarrow> active_staff_of db s)
      in sort_key so_start
           (collect_slots s
             (concat (map (admin_offers db s d exclude_booking_id not_before step_minutes) members))))"

end
