(* ===== verification/Bog.thy ===== *)
theory Bog
  imports Text
begin

text \<open>
  The client of the Bank of Georgia payment API (\<^verbatim>\<open>tenants/bog_payment.py\<close>): creating an order,
  asking for its receipt and refunding it.  The bank itself is not code of this repository: its
  answers are the fields of a record \<open>bog_api\<close> that every definition takes as an argument.
\<close>

text \<open>The answer to an HTTP request: it failed (\<^verbatim>\<open>RequestException\<close>), or a status code and a body.\<close>

datatype 'a http_answer = Request_failed | Answer nat 'a

record bog_receipt =
  rc_order_status :: "string option"    \<comment> \<open>\<^verbatim>\<open>order_status.key\<close>\<close>
  rc_transfer_amount :: "decimal option"

record bog_api =
  api_token :: bool                     \<comment> \<open>an access token could be obtained\<close>
  api_order :: "string \<Rightarrow> decimal \<Rightarrow> string http_answer"
  api_receipt :: "string \<Rightarrow> bog_receipt http_answer"
  api_refund :: "string \<Rightarrow> decimal option \<Rightarrow> unit http_answer"

text \<open>\<^verbatim>\<open>create_payment\<close>: the order id, None when it raises.\<close>

definition create_payment :: "bog_api \<Rightarrow> string \<Rightarrow> decimal \<Rightarrow> string option" where
  "create_payment api external_order_id amount =
     (if \<not> api_token api then None
      else case api_order api external_order_id amount of
             Answer code order_id \<Rightarrow> if code \<in> {200, 201} then Some order_id else None
           | Request_failed \<Rightarrow> None)"

definition status_mapping :: "(string \<times> string) list" where
  "status_mapping =
     [(''created'', ''pending''), (''processing'', ''processing''), (''completed'', ''paid''),
      (''rejected'', ''failed''), (''refund_requested'', ''refund_requested''),
      (''refunded'', ''refunded''), (''refunded_partially'', ''refunded_partially''),
      (''blocked'', ''blocked'')]"

record bog_status =
  bo_status :: string
  bo_amount :: "decimal option"

text \<open>\<^verbatim>\<open>check_payment_status\<close>: an answer of the bank or a failed request gives a status, only a
  missing access token raises (None).\<close>

definition check_payment_status :: "bog_api \<Rightarrow> string \<Rightarrow> bog_status option" where
  "check_payment_status api order_id =
     (if \<not> api_token api then None
      else Some (case api_receipt api order_id of
             Answer code data \<Rightarrow>
               if code = 200
               then (let status_key = (case rc_order_status data of Some k \<Rightarrow> k | None \<Rightarrow> ''unknown'')
                     in \<lparr>bo_status = (case map_of status_mapping status_key of Some s \<Rightarrow> s | None \<Rightarrow> ''unknown''),
                         bo_amount = rc_transfer_amount data\<rparr>)
               else \<lparr>bo_status = ''unknown'', bo_amount = None\<rparr>
           | Request_failed \<Rightarrow> \<lparr>bo_status = ''error'', bo_amount = None\<rparr>))"

text \<open>\<^verbatim>\<open>refund_payment\<close>: False when it raises.  No amount refunds the whole order.\<close>

definition refund_payment :: "bog_api \<Rightarrow> string \<Rightarrow> decimal option \<Rightarrow> bool" where
  "refund_payment api order_id amount =
     (if \<not> api_token api then False
      else case api_refund api order_id amount of
             Answer code _ \<Rightarrow> code \<in> {200, 201, 202}
           | Request_failed \<Rightarrow> False)"

section \<open>Charges of saved cards\<close>

text \<open>
  The calls that subscription billing and the web shop make: charging a saved card, creating an
  order, and asking for the receipt of an order.  Again the bank is a parameter: the record
  \<open>charge_api\<close> holds its answers.  A call that raises is None.
\<close>

record charge_receipt =
  cr_order_status :: "string option"    \<comment> \<open>\<^verbatim>\<open>order_status.key\<close>\<close>
  cr_code :: "string option"            \<comment> \<open>\<^verbatim>\<open>code\<close>\<close>

record charge_api =
  cg_configured :: bool                 \<comment> \<open>client id and secret are set\<close>
  cg_token :: bool                      \<comment> \<open>an access token could be obtained\<close>
  cg_subscribe :: "string \<Rightarrow> string \<Rightarrow> string http_answer"
  cg_recurrent :: "string \<Rightarrow> decimal \<Rightarrow> string \<Rightarrow> string http_answer"
  cg_create :: "string \<Rightarrow> decimal \<Rightarrow> string http_answer"
  cg_receipt :: "string \<Rightarrow> charge_receipt http_answer"

definition accepted :: "nat list \<Rightarrow> 'a http_answer \<Rightarrow> 'a option" where
  "accepted codes answer =
     (case answer of Answer code x \<Rightarrow> if code \<in> set codes then Some x else None | Request_failed \<Rightarrow> None)"

text \<open>\<^verbatim>\<open>charge_subscription\<close>: the same amount as the original order.\<close>

definition charge_subscription :: "charge_api \<Rightarrow> string \<Rightarrow> string \<Rightarrow> string option" where
  "charge_subscription api parent_order_id external_order_id =
     (if \<not> cg_configured api then None else if \<not> cg_token api then None
      else accepted [200, 201] (cg_subscribe api parent_order_id external_order_id))"

text \<open>\<^verbatim>\<open>charge_saved_card\<close>: any amount, rounded to two places before it is sent.\<close>

definition charge_saved_card :: "charge_api \<Rightarrow> string \<Rightarrow> decimal \<Rightarrow> string \<Rightarrow> string option" where
  "charge_saved_card api parent_order_id amount external_order_id =
     (if \<not> cg_configured api then None else if \<not> cg_token api then None
      else accepted [200, 201] (cg_recurrent api parent_order_id (round_half_even 2 amount) external_order_id))"

definition create_order :: "charge_api \<Rightarrow> string \<Rightarrow> decimal \<Rightarrow> string option" where
  "create_order api external_order_id amount =
     (if \<not> cg_configured api then None else if \<not> cg_token api then None
      else accepted [200, 201] (cg_create api external_order_id amount))"

text \<open>\<^verbatim>\<open>check_payment_status\<close>: the keys \<^verbatim>\<open>status\<close>, \<^verbatim>\<open>bog_status\<close> and \<^verbatim>\<open>response_code\<close> of its answer.\<close>

record receipt_status =
  rv_status :: string
  rv_bog :: "string option"
  rv_code :: "string option"

definition receipt_of :: "charge_api \<Rightarrow> string \<Rightarrow> receipt_status option" where
  "receipt_of api order_id =
     (if \<not> cg_configured api then None else if \<not> cg_token api then None
      else Some (case cg_receipt api order_id of
             Answer code data \<Rightarrow>
               if code = 200
               then (let status_key = (case cr_order_status data of Some k \<Rightarrow> k | None \<Rightarrow> ''unknown'')
                     in \<lparr>rv_status = (case map_of status_mapping status_key of Some s \<Rightarrow> s | None \<Rightarrow> ''unknown''),
                         rv_bog = Some status_key, rv_code = cr_code data\<rparr>)
               else \<lparr>rv_status = ''unknown'', rv_bog = None, rv_code = None\<rparr>
           | Request_failed \<Rightarrow> \<lparr>rv_status = ''error'', rv_bog = None, rv_code = None\<rparr>))"

end
