(* ===== verification/Booking_Payment.thy ===== *)
theory Booking_Payment
  imports Booking_Model Bog
begin

text \<open>
  The money of a booking (\<^verbatim>\<open>payment_service.py\<close> and the refund part of \<^verbatim>\<open>utils.py\<close> in
  \<^verbatim>\<open>booking_management\<close>): starting an online payment, the callback of the bank, payments taken
  at the desk, and the refund of a cancelled booking, online through the bank and by hand.
\<close>

subsection \<open>Refund amounts\<close>

definition manual_paid_amount :: "booking \<Rightarrow> decimal" where
  "manual_paid_amount b = (\<Sum>p\<leftarrow>bk_manual b. mp_amount p)"

definition online_paid_amount :: "booking \<Rightarrow> decimal" where
  "online_paid_amount b = max 0 (bk_paid b - manual_paid_amount b)"

definition apply_refund_policy :: "decimal \<Rightarrow> booking_settings \<Rightarrow> decimal" where
  "apply_refund_policy amount st =
     (if amount \<le> 0 then 0
      else case bs_refund_policy st of
        Refund_full \<Rightarrow> amount
      | Partial_50 \<Rightarrow> round_half_even 2 (amount * (1/2))
      | Partial_25 \<Rightarrow> round_half_even 2 (amount * (1/4))
      | No_refund \<Rightarrow> 0)"

definition calculate_refund_amount :: "booking \<Rightarrow> booking_settings \<Rightarrow> decimal" where
  "calculate_refund_amount b st = apply_refund_policy (online_paid_amount b) st"

definition calculate_manual_refund_due :: "booking \<Rightarrow> booking_settings \<Rightarrow> decimal" where
  "calculate_manual_refund_due b st =
     apply_refund_policy (max 0 (min (manual_paid_amount b) (bk_paid b))) st"

text \<open>The text of an amount with two decimal places.\<close>

definition money_text :: "decimal \<Rightarrow> string" where
  "money_text x = (let cents = nat \<lfloor>x * 100\<rfloor>
     in nat_text (cents div 100) @ ''.'' @ pad_zeros 2 (nat_text (cents mod 100)))"

definition flag_manual_refund :: "booking \<Rightarrow> booking_settings \<Rightarrow> booking \<times> decimal" where
  "flag_manual_refund b st =
     (let due = calculate_manual_refund_due b st
      in if due \<le> 0 then (b, 0)
         else case md_manual_refund (bk_metadata b) of
           Some amount \<Rightarrow> (b, amount)
         | None \<Rightarrow>
             let note = ''Refund '' @ money_text due
                   @ '' GEL by hand: recorded manually (cash/terminal/transfer), not refundable online.''
             in (b\<lparr>bk_staff_notes := (if bk_staff_notes b = [] then note
                                     else bk_staff_notes b @ [CHR 0x0A] @ note),
                   bk_metadata := (bk_metadata b)\<lparr>md_manual_refund := Some due\<rparr>\<rparr>, due))"

subsection \<open>Online payment\<close>

definition charge_amount :: "booking \<Rightarrow> decimal" where
  "charge_amount b = (if bk_deposit b > 0 then bk_deposit b else bk_total b)"

text \<open>None when the bank client raises; the booking is then unchanged.\<close>

definition create_booking_payment :: "bog_api \<Rightarrow> booking_settings \<Rightarrow> booking \<Rightarrow> booking option" where
  "create_booking_payment api st b =
     (if \<not> bs_credentials st then None
      else case create_payment api (bk_number b) (charge_amount b) of
        None \<Rightarrow> None
      | Some order_id \<Rightarrow> Some (b\<lparr>bk_order := order_id, bk_metadata := no_metadata\<rparr>))"

text \<open>What \<^verbatim>\<open>process_webhook\<close> does with the locked booking once the bank said that it is paid.\<close>

definition payment_received :: "bog_api \<Rightarrow> booking_settings \<Rightarrow> datetime \<Rightarrow> decimal option \<Rightarrow> booking \<Rightarrow> booking" where
  "payment_received api st utc amount b =
     (let given = (case amount of Some a \<Rightarrow> a | None \<Rightarrow> 0);
          paid = (if given \<le> 0 then charge_amount b else given);
          b1 = b\<lparr>bk_paid := paid,
                 bk_payment_status := (if paid \<ge> bk_total b then Fully_paid else Deposit_paid),
                 bk_metadata := no_metadata\<rparr>
      in if bk_status b1 = Booking_cancelled then
           (if refund_payment api (bk_order b1) None
            then b1\<lparr>bk_payment_status := Refunded, bk_paid := 0,
                    bk_metadata := (bk_metadata b1)\<lparr>md_refund := Some (Requested, paid)\<rparr>\<rparr>
            else b1\<lparr>bk_metadata := (bk_metadata b1)\<lparr>md_refund := Some (Manual_required, paid)\<rparr>\<rparr>)
         else if bk_status b1 = Booked_pending
           \<and> (if bk_payment_status b1 = Fully_paid then bs_confirm_on_full st else bs_confirm_on_deposit st)
         then confirm_booking utc b1
         else b1)"

text \<open>
  The rest of \<^verbatim>\<open>process_webhook\<close> for a booking that was found and has an order.  The result is the
  booking afterwards with \<^verbatim>\<open>last_state\<close> (None when the bank was not asked), or None when it raises
  and the transaction is rolled back.
\<close>

definition settle_payment ::
  "bog_api \<Rightarrow> booking_settings \<Rightarrow> datetime \<Rightarrow> booking \<Rightarrow> (booking \<times> string option) option" where
  "settle_payment api st utc b =
     (if bk_payment_status b \<in> {Deposit_paid, Fully_paid, Refunded} then Some (b, None)
      else if \<not> bs_credentials st then None
      else case check_payment_status api (bk_order b) of
        None \<Rightarrow> None
      | Some s \<Rightarrow>
          Some (if bo_status s = ''paid'' then payment_received api st utc (bo_amount s) b
                else if bo_status s = ''failed'' then
                  (let b1 = b\<lparr>bk_payment_status := Pay_failed\<rparr>
                   in if bk_status b1 = Booked_pending
                      then cancel_booking utc ''admin'' ''Card payment was declined'' b1 else b1)
                else b,
                Some (bo_status s)))"

definition find_webhook_booking :: "booking_db \<Rightarrow> string \<Rightarrow> string \<Rightarrow> booking option" where
  "find_webhook_booking db external_order_id callback_order_id =
     (case (if external_order_id = [] then None
            else find (\<lambda>b. bk_number b = external_order_id) (bd_bookings db)) of
        Some b \<Rightarrow> Some b
      | None \<Rightarrow> if callback_order_id = [] then None
               else find (\<lambda>b. bk_order b = callback_order_id) (bd_bookings db))"

text \<open>None when it raises; otherwise the tables, the booking it handled and \<^verbatim>\<open>last_state\<close>.\<close>

definition process_webhook ::
  "bog_api \<Rightarrow> datetime \<Rightarrow> booking_db \<Rightarrow> string \<Rightarrow> string \<Rightarrow> (booking_db \<times> booking option \<times> string option) option" where
  "process_webhook api utc db0 external_order_id callback_order_id =
     (let (db, st) = get_or_create_booking_settings db0
      in if external_order_id = [] \<and> callback_order_id = [] then Some (db, None, None)
         else case find_webhook_booking db external_order_id callback_order_id of
           None \<Rightarrow> Some (db, None, None)
         | Some b \<Rightarrow>
             if bk_order b = [] then Some (db, None, None)
             else case settle_payment api st utc b of
               None \<Rightarrow> None
             | Some (b', state) \<Rightarrow> Some (save_booking b' db, Some b', state))"

text \<open>The callback endpoint: an exception answers 500 and leaves the tables as they were.\<close>

definition payment_webhook :: "bog_api \<Rightarrow> datetime \<Rightarrow> booking_db \<Rightarrow> string \<Rightarrow> string \<Rightarrow> nat \<times> booking_db" where
  "payment_webhook api utc db external_order_id callback_order_id =
     (case process_webhook api utc db external_order_id callback_order_id of
        None \<Rightarrow> (500, fst (get_or_create_booking_settings db))
      | Some (db', handled, _) \<Rightarrow>
          (200, case handled of
             Some b \<Rightarrow>
               if bk_payment_status b \<in> {Deposit_paid, Fully_paid} \<and> bk_status b = Booked_pending
                 \<and> \<not> md_created_email (bk_metadata b)
               then save_booking (b\<lparr>bk_metadata := (bk_metadata b)\<lparr>md_created_email := True\<rparr>\<rparr>) db'
               else db'
           | None \<Rightarrow> db'))"

subsection \<open>Refunds\<close>

datatype refund_outcome = Not_refunded | Refund_sent decimal | Refund_by_staff decimal

text \<open>The amount \<^verbatim>\<open>initiate_refund\<close> asks the bank for, None when it does not ask.\<close>

definition refund_to_request :: "booking_settings \<Rightarrow> booking \<Rightarrow> decimal option" where
  "refund_to_request st b =
     (if bk_order b = [] \<or> online_paid_amount b \<le> 0 then None
      else if map_option fst (md_refund (bk_metadata b)) = Some Requested then None
      else if calculate_refund_amount b st \<le> 0 then None
      else Some (calculate_refund_amount b st))"

definition initiate_refund :: "bog_api \<Rightarrow> booking_settings \<Rightarrow> booking \<Rightarrow> booking \<times> refund_outcome" where
  "initiate_refund api st b =
     (case refund_to_request st b of
        None \<Rightarrow> (b, Not_refunded)
      | Some amount \<Rightarrow>
          if bs_credentials st
            \<and> refund_payment api (bk_order b) (if amount \<ge> online_paid_amount b then None else Some amount)
          then (b\<lparr>bk_payment_status := Refunded, bk_paid := max 0 (bk_paid b - amount),
                  bk_metadata := (bk_metadata b)\<lparr>md_refund := Some (Requested, amount)\<rparr>\<rparr>,
                Refund_sent amount)
          else (b\<lparr>bk_metadata := (bk_metadata b)\<lparr>md_refund := Some (Manual_required, amount)\<rparr>\<rparr>,
                Refund_by_staff amount))"

subsection \<open>Payments at the desk\<close>

datatype payment_error = Booking_is_cancelled | More_than_owed decimal | Amount_too_small

definition record_payment :: "booking \<Rightarrow> manual_payment \<Rightarrow> payment_error + booking" where
  "record_payment b p =
     (if mp_amount p < 1/100 then Inl Amount_too_small
      else if bk_status b = Booking_cancelled then Inl Booking_is_cancelled
      else let remaining = bk_total b - bk_paid b
           in if mp_amount p > remaining then Inl (More_than_owed remaining)
              else let paid = bk_paid b + mp_amount p
                   in Inr (b\<lparr>bk_paid := paid,
                             bk_payment_status := (if paid \<ge> bk_total b then Fully_paid else Deposit_paid),
                             bk_manual := bk_manual b @ [p]\<rparr>))"

text \<open>The price change of \<^verbatim>\<open>AdminBookingUpdateSerializer\<close> (validation, then update).\<close>

definition update_total :: "booking \<Rightarrow> decimal \<Rightarrow> payment_error + booking" where
  "update_total b price =
     (if price < bk_paid b \<or> price < 0 then Inl (More_than_owed (bk_paid b))
      else let b1 = b\<lparr>bk_total := price\<rparr>
           in Inr (if bk_paid b1 > 0 \<and> bk_payment_status b1 \<in> {Pay_pending, Deposit_paid, Fully_paid}
                   then b1\<lparr>bk_payment_status := (if bk_paid b1 \<ge> price then Fully_paid else Deposit_paid)\<rparr>
                   else b1))"

end
