(* ===== verification/Booking_Create.thy ===== *)
theory Booking_Create
  imports Booking_Slots Booking_Payment
begin

text \<open>
  Contacts of the booking site: telephone numbers in their different spellings
  (\<^verbatim>\<open>booking_management/utils_text.py\<close>) and the contact record a guest booking is attached to
  (\<^verbatim>\<open>find_or_create_client\<close>).

  Making a booking: the validation of the create serializer, the second half of the endpoint,
  which re-checks the slot under a lock on the staff rows, and the bookings the business enters
  itself.  Validation and creation are separate definitions because they run in separate
  transactions: other requests can be handled between them.
\<close>

definition only_digits :: "string \<Rightarrow> string" where
  "only_digits s = filter is_digit s"

definition phone_digits :: "string \<Rightarrow> string" where
  "phone_digits phone =
     (let digits = only_digits phone;
          digits = (if take 2 digits = ''00'' then drop 2 digits else digits)
      in if length digits = 9 \<and> take 1 digits = ''5'' then ''995'' @ digits else digits)"

definition normalize_phone :: "string \<Rightarrow> string" where
  "normalize_phone phone =
     (let digits = phone_digits phone in if digits = [] then [] else CHR ''+'' # digits)"

definition phone_variants :: "string \<Rightarrow> string list" where
  "phone_variants digits =
     (if take 3 digits = ''995'' then [digits, drop 3 digits] else [digits])"

definition find_or_create_client ::
  "booking_db \<Rightarrow> string \<Rightarrow> string \<Rightarrow> string \<Rightarrow> string \<Rightarrow> booking_db \<times> booking_client \<times> bool" where
  "find_or_create_client db first_name last_name phone email =
     (let digits = phone_digits phone;
          found = (if digits = [] then None
                   else find (\<lambda>c. only_digits (cl_phone c) \<in> set (phone_variants digits)) (bd_clients db))
      in case found of
           Some c \<Rightarrow>
             if cl_booking_enabled c then (db, c, True)
             else (let c' = c\<lparr>cl_booking_enabled := True\<rparr>
                   in (db\<lparr>bd_clients := row_save cl_pk c' (bd_clients db)\<rparr>, c', True))
         | None \<Rightarrow>
             let c = \<lparr>cl_pk = next_pk cl_pk (bd_clients db),
                      cl_name = strip (first_name @ '' '' @ last_name),
                      cl_phone = normalize_phone phone, cl_email = email, cl_booking_enabled = True\<rparr>
             in (db\<lparr>bd_clients := row_create c (bd_clients db)\<rparr>, c, False))"

lemma only_digits_normalize: "only_digits (normalize_phone p) = phone_digits p"
proof -
  have "set (phone_digits p) \<subseteq> {c. is_digit c}"
    by (auto simp: phone_digits_def only_digits_def Let_def is_digit_def dest: in_set_dropD)
  moreover have "\<not> is_digit (CHR ''+'')" by (simp add: is_digit_def)
  ultimately show ?thesis by (auto simp: normalize_phone_def only_digits_def Let_def filter_id_conv)
qed

lemma find_in: "find P xs = Some x \<Longrightarrow> x \<in> set xs \<and> P x"
  by (auto simp: find_Some_iff)

lemma phone_variants_self: "d \<in> set (phone_variants d)"
  by (simp add: phone_variants_def)

text \<open>Whoever books again with the same number, however it is spelled, is found again.\<close>

lemma same_number_same_client:
  assumes "phone_digits p' = phone_digits p" and "phone_digits p \<noteq> []"
    and "distinct (map cl_pk (bd_clients db))"
    and "find_or_create_client db f l p e = (db', c, matched)"
  shows "find_or_create_client db' f' l' p' e' = (db', c, True)"
proof -
  let ?P = "\<lambda>c. only_digits (cl_phone c) \<in> set (phone_variants (phone_digits p))"
  show ?thesis
  proof (cases "find ?P (bd_clients db)")
    case None
    have new: "?P c" "bd_clients db' = bd_clients db @ [c]" "cl_booking_enabled c"
      using assms(2,4) None
      by (auto simp: find_or_create_client_def Let_def row_create_def only_digits_normalize phone_variants_self)
    have "find ?P (xs @ [c]) = Some c" if "find ?P xs = None" for xs
      using that new(1) by (induction xs) (auto split: if_splits)
    then show ?thesis using None new assms(1,2) by (simp add: find_or_create_client_def Let_def)
  next
    case (Some old)
    have "bd_clients db' = row_save cl_pk c (bd_clients db) \<and> cl_pk c = cl_pk old
        \<and> cl_phone c = cl_phone old \<and> cl_booking_enabled c"
      if "\<not> cl_booking_enabled old"
      using assms(2,4) Some that by (auto simp: find_or_create_client_def Let_def)
    moreover have "find ?P (row_save cl_pk c xs) = Some c"
      if "find ?P xs = Some old" "cl_pk c = cl_pk old" "cl_phone c = cl_phone old" "distinct (map cl_pk xs)" for xs
      using that
    proof (induction xs)
      case Nil
      then show ?case by simp
    next
      case (Cons a xs)
      then show ?case by (cases "?P a") (auto simp: row_save_def dest!: find_in)
    qed
    ultimately show ?thesis
      using assms Some by (cases "cl_booking_enabled old") (auto simp: find_or_create_client_def Let_def)
  qed
qed

section \<open>Making a booking\<close>

datatype booking_error =
    Service_unavailable | Staff_not_found | Staff_inactive | Staff_not_assigned
  | Slot_rejected slot_error | Outside_window slot_error
  | Payment_option_unavailable | Booking_limit nat | Just_booked | Payment_unavailable
  | Wrong_status booking_status | Payment_missing | Booking_not_found | Bad_input
  | Too_late_to_cancel | Payment_refused payment_error | Not_booking_admin | Already_rated
  | Client_not_found

subsection \<open>Payment options\<close>

datatype payment_choice = Choice_cash | Choice_deposit | Choice_full

definition card_payment_enabled :: "booking_settings option \<Rightarrow> bool" where
  "card_payment_enabled st = (case st of None \<Rightarrow> False | Some s \<Rightarrow> bs_allow_card s \<and> bs_credentials s)"

definition available_payment_options :: "booking_settings option \<Rightarrow> service option \<Rightarrow> payment_choice list" where
  "available_payment_options st service =
     (if (case service of Some s \<Rightarrow> sv_base_price s = 0 | None \<Rightarrow> False) then [Choice_cash]
      else
        let card_ok = card_payment_enabled st;
            cash_ok = (case st of
                None \<Rightarrow> True
              | Some s \<Rightarrow> if bs_require_deposit s \<and> card_ok then False else bs_allow_cash s);
            deposit_ok = (case service of
                None \<Rightarrow> True
              | Some s \<Rightarrow> 0 < sv_deposit_percentage s \<and> sv_deposit_percentage s < 100);
            options = (if cash_ok then [Choice_cash] else [])
              @ (if card_ok then (if deposit_ok then [Choice_deposit] else []) @ [Choice_full] else [])
        in if options = [] then [Choice_cash] else options)"

subsection \<open>Validation\<close>

record booking_request =
  rq_service :: pk
  rq_staff :: "pk option"
  rq_date :: date
  rq_start :: clock
  rq_notes :: string
  rq_choice :: "payment_choice option"

record valid_request =
  vq_service :: service
  vq_staff :: "pk option"
  vq_date :: date
  vq_start :: clock
  vq_notes :: string
  vq_choice :: payment_choice
  vq_auto :: bool

text \<open>The staff member a request names: an empty or zero \<^verbatim>\<open>staff_id\<close> means any.\<close>

definition requested_staff :: "booking_db \<Rightarrow> service \<Rightarrow> pk option \<Rightarrow> booking_error + booking_staff option" where
  "requested_staff db s staff_id =
     (case staff_id of
        None \<Rightarrow> Inr None
      | Some k \<Rightarrow>
          if k = 0 then Inr None
          else case get_staff db k of
            None \<Rightarrow> Inl Staff_not_found
          | Some f \<Rightarrow> if staff_can_perform s f then Inr (Some f) else Inl Staff_not_assigned)"

definition validate_booking :: "booking_db \<Rightarrow> datetime \<Rightarrow> booking_request \<Rightarrow> booking_error + valid_request" where
  "validate_booking db now rq =
     (case get_service db (rq_service rq) of
        None \<Rightarrow> Inl Service_unavailable
      | Some s \<Rightarrow>
          if sv_status s \<noteq> Service_active then Inl Service_unavailable
          else case requested_staff db s (rq_staff rq) of
            Inl e \<Rightarrow> Inl e
          | Inr staff \<Rightarrow>
              (case check_booking_window (bd_settings db) now (rq_date rq) (rq_start rq) of
                 Some e \<Rightarrow> Inl (Outside_window e)
               | None \<Rightarrow>
                   (case validate_booking_availability db now s (map_option bf_pk staff) (rq_date rq)
                           (rq_start rq) None True of
                      Some e \<Rightarrow> Inl (Slot_rejected e)
                    | None \<Rightarrow>
                        let chosen = (case staff of
                              Some f \<Rightarrow> Some f
                            | None \<Rightarrow> find_available_staff db s (rq_date rq) (rq_start rq) None True);
                            options = available_payment_options (bd_settings db) (Some s);
                            choice = (case rq_choice rq of Some c \<Rightarrow> c | None \<Rightarrow> hd options)
                        in if choice \<notin> set options then Inl Payment_option_unavailable
                           else Inr \<lparr>vq_service = s, vq_staff = map_option bf_pk chosen, vq_date = rq_date rq,
                                     vq_start = rq_start rq, vq_notes = rq_notes rq, vq_choice = choice,
                                     vq_auto = (staff = None)\<rparr>)))"

subsection \<open>Creation\<close>

text \<open>A fresh row with the column defaults of the model.\<close>

definition blank_booking :: "pk \<Rightarrow> string \<Rightarrow> pk \<Rightarrow> service \<Rightarrow> pk option \<Rightarrow> date \<Rightarrow> clock \<Rightarrow> datetime \<Rightarrow> booking" where
  "blank_booking k ref client s staff d t utc =
     \<lparr>bk_pk = k, bk_number = ref, bk_client = client, bk_service = sv_pk s, bk_staff = staff, bk_date = d,
      bk_start = t, bk_end = add_minutes_to_time t (total_duration_minutes s), bk_status = Booked_pending,
      bk_payment_status = Pay_pending, bk_total = sv_base_price s, bk_deposit = 0, bk_paid = 0, bk_order = [],
      bk_method = Method_unset, bk_metadata = no_metadata, bk_client_notes = [], bk_staff_notes = [],
      bk_rating = None, bk_review = [], bk_reminder_sent = False, bk_second_reminder_sent = False,
      bk_staff_reminder_sent = False, bk_manual = [], bk_created_by = None, bk_cancelled_at = None,
      bk_cancelled_by = [], bk_reason = [], bk_created_at = utc, bk_confirmed_at = None,
      bk_completed_at = None\<rparr>"

text \<open>\<^verbatim>\<open>BookingCreateSerializer.create\<close>; the deposit column keeps two decimal places.\<close>

definition new_booking :: "pk \<Rightarrow> string \<Rightarrow> pk \<Rightarrow> valid_request \<Rightarrow> datetime \<Rightarrow> booking" where
  "new_booking k ref client v utc =
     (let s = vq_service v;
          b = (blank_booking k ref client s (vq_staff v) (vq_date v) (vq_start v) utc)
                \<lparr>bk_client_notes := vq_notes v\<rparr>
      in case vq_choice v of
           Choice_cash \<Rightarrow> b\<lparr>bk_method := Pay_cash, bk_deposit := 0\<rparr>
         | Choice_deposit \<Rightarrow> b\<lparr>bk_method := Pay_card, bk_deposit := round_half_even 2 (calculate_deposit_amount s)\<rparr>
         | Choice_full \<Rightarrow> b\<lparr>bk_method := Pay_card, bk_deposit := sv_base_price s\<rparr>)"

definition max_active_bookings_per_client :: nat where
  "max_active_bookings_per_client = 5"

definition upcoming_bookings :: "booking_db \<Rightarrow> datetime \<Rightarrow> pk \<Rightarrow> nat" where
  "upcoming_bookings db now client =
     length (filter (\<lambda>b. bk_client b = client \<and> bk_status b \<in> {Booked_pending, Booked_confirmed}
               \<and> bk_date b \<ge> date_of now) (bd_bookings db))"

text \<open>The staff member after the check under the lock, None when the slot was taken meanwhile.\<close>

definition recheck_staff :: "booking_db \<Rightarrow> valid_request \<Rightarrow> pk option" where
  "recheck_staff db v =
     (let s = vq_service v;
          again = (if vq_auto v
                   then map_option bf_pk (find_available_staff db s (vq_date v) (vq_start v) None False)
                   else None)
      in case vq_staff v of
           None \<Rightarrow> again
         | Some f \<Rightarrow>
             if is_slot_booked db f (vq_date v) (vq_start v) (total_duration_minutes s) None then again
             else Some f)"

text \<open>\<^verbatim>\<open>_create_booking\<close>.  When the online payment cannot be started the booking stays, cancelled.\<close>

definition create_booking ::
  "bog_api \<Rightarrow> booking_db \<Rightarrow> datetime \<Rightarrow> datetime \<Rightarrow> string \<Rightarrow> pk \<Rightarrow> valid_request \<Rightarrow> booking_db \<times> (booking_error + booking)" where
  "create_booking api db now utc ref client v =
     (if upcoming_bookings db now client \<ge> max_active_bookings_per_client
      then (db, Inl (Booking_limit (upcoming_bookings db now client)))
      else case recheck_staff db v of
        None \<Rightarrow> (db, Inl Just_booked)
      | Some f \<Rightarrow>
          let b = new_booking (next_pk bk_pk (bd_bookings db)) ref client (v\<lparr>vq_staff := Some f\<rparr>) utc;
              db1 = db\<lparr>bd_bookings := row_create b (bd_bookings db)\<rparr>
          in if bk_method b = Pay_card
             then (let (db2, st) = get_or_create_booking_settings db1
                   in case create_booking_payment api st b of
                        Some b' \<Rightarrow> (save_booking b' db2, Inr b')
                      | None \<Rightarrow>
                          (save_booking (cancel_booking utc ''admin'' ''Payment initialization failed'' b) db2,
                           Inl Payment_unavailable))
             else (db1, Inr b))"

text \<open>The second half of \<^verbatim>\<open>guest_booking_create\<close>, after the validation.\<close>

definition guest_booking ::
  "bog_api \<Rightarrow> booking_db \<Rightarrow> datetime \<Rightarrow> datetime \<Rightarrow> string \<Rightarrow> string \<Rightarrow> string \<Rightarrow> string \<Rightarrow> string \<Rightarrow> valid_request
     \<Rightarrow> booking_db \<times> (booking_error + booking)" where
  "guest_booking api db now utc ref first_name last_name phone email v =
     (let first = strip first_name; second = strip last_name; mail = strip email;
          (db1, client, matched) = find_or_create_client db first second phone mail
      in case create_booking api db1 now utc ref (cl_pk client) v of
           (db2, Inl e) \<Rightarrow> (db2, Inl e)
         | (db2, Inr b) \<Rightarrow>
             if matched
             then (let full_name = strip (first @ '' '' @ second);
                       parts = filter (\<lambda>p. p \<noteq> []) [full_name, phone, mail];
                       entered = concat (case parts of [] \<Rightarrow> [] | p # ps \<Rightarrow> p # map (\<lambda>q. '', '' @ q) ps);
                       b' = b\<lparr>bk_staff_notes := ''Booked online as: '' @ entered\<rparr>
                   in (save_booking b' db2, Inr b'))
             else (db2, Inr b))"

text \<open>\<^verbatim>\<open>validate_phone_number\<close> of the guest serializer.\<close>

definition guest_phone_ok :: "string \<Rightarrow> bool" where
  "guest_phone_ok phone \<longleftrightarrow> length (filter is_digit phone) \<ge> 6"

subsection \<open>Bookings entered by the business\<close>

record admin_request =
  aq_service :: pk
  aq_staff :: pk
  aq_date :: date
  aq_start :: clock
  aq_client :: "pk option"
  aq_first_name :: string
  aq_last_name :: string
  aq_phone :: string
  aq_email :: string
  aq_total :: "decimal option"
  aq_confirmed :: bool
  aq_staff_notes :: string
  aq_client_notes :: string

definition validate_admin_booking ::
  "booking_db \<Rightarrow> admin_request \<Rightarrow> booking_error + service \<times> booking_staff \<times> booking_client option" where
  "validate_admin_booking db rq =
     (case get_service db (aq_service rq) of
        None \<Rightarrow> Inl Service_unavailable
      | Some s \<Rightarrow>
          if sv_status s \<noteq> Service_active then Inl Service_unavailable
          else case get_staff db (aq_staff rq) of
            None \<Rightarrow> Inl Staff_not_found
          | Some f \<Rightarrow>
              if \<not> bf_active f then Inl Staff_inactive
              else if \<not> staff_can_perform s f then Inl Staff_not_assigned
              else
                let client = (case aq_client rq of
                      Some k \<Rightarrow> if k = 0 then Inr None
                               else (case row_get cl_pk k (bd_clients db) of
                                       None \<Rightarrow> Inl Client_not_found | Some c \<Rightarrow> Inr (Some c))
                    | None \<Rightarrow> Inr None);
                    named = (strip (aq_first_name rq) \<noteq> [] \<and> guest_phone_ok (aq_phone rq))
                in case client of
                     Inl e \<Rightarrow> Inl e
                   | Inr c \<Rightarrow>
                       if c = None \<and> \<not> named then Inl Bad_input
                       else case check_staff_slot db s (bf_pk f) (aq_date rq) (aq_start rq) None False of
                         Some e \<Rightarrow> Inl (Slot_rejected e)
                       | None \<Rightarrow> Inr (s, f, c))"

text \<open>The locked part of the endpoint: the re-check, then \<^verbatim>\<open>AdminBookingCreateSerializer.create\<close>.\<close>

definition admin_client :: "booking_db \<Rightarrow> admin_request \<Rightarrow> booking_client option \<Rightarrow> booking_db \<times> booking_client" where
  "admin_client db rq client =
     (case client of
        Some c \<Rightarrow>
          if cl_booking_enabled c then (db, c)
          else (let c' = c\<lparr>cl_booking_enabled := True\<rparr>
                in (db\<lparr>bd_clients := row_save cl_pk c' (bd_clients db)\<rparr>, c'))
      | None \<Rightarrow>
          let (db', c, _) = find_or_create_client db (strip (aq_first_name rq)) (strip (aq_last_name rq))
                              (aq_phone rq) (aq_email rq)
          in (db', c))"

definition create_admin_booking ::
  "booking_db \<Rightarrow> pk \<Rightarrow> datetime \<Rightarrow> string \<Rightarrow> admin_request \<Rightarrow> service \<times> booking_staff \<times> booking_client option
     \<Rightarrow> booking_error + booking_db" where
  "create_admin_booking db user utc ref rq data =
     (let (s, f, client) = data
      in if is_slot_booked db (bf_pk f) (aq_date rq) (aq_start rq) (total_duration_minutes s) None
         then Inl Just_booked
         else
           let (db1, c) = admin_client db rq client;
               b = (blank_booking (next_pk bk_pk (bd_bookings db1)) ref (cl_pk c) s (Some (bf_pk f))
                      (aq_date rq) (aq_start rq) utc)
                   \<lparr>bk_status := (if aq_confirmed rq then Booked_confirmed else Booked_pending),
                    bk_confirmed_at := (if aq_confirmed rq then Some utc else None),
                    bk_total := (case aq_total rq of None \<Rightarrow> sv_base_price s | Some t \<Rightarrow> t),
                    bk_method := Pay_cash, bk_staff_notes := aq_staff_notes rq,
                    bk_client_notes := aq_client_notes rq, bk_created_by := Some user\<rparr>
           in Inr (db1\<lparr>bd_bookings := row_create b (bd_bookings db1)\<rparr>))"

end
