(* ===== verification/Booking_Tasks.thy ===== *)
theory Booking_Tasks
  imports Booking_Create
begin

text \<open>
  The operations on existing bookings: the actions of the dashboard (\<^verbatim>\<open>views_admin.py\<close>), those of
  the customer (\<^verbatim>\<open>views_client.py\<close>), and the task that releases unpaid bookings.  An answer
  \<open>Inl e\<close> leaves the tables unchanged.  Notifications are left out; the customer sees only their
  own bookings, everything else is not found.

  The scheduled tasks of \<^verbatim>\<open>booking_management/tasks.py\<close> besides the release of unpaid bookings:
  bookings made from repeating series, and which reminders are due.
\<close>

subsection \<open>Status actions\<close>

definition with_booking ::
  "booking_db \<Rightarrow> pk \<Rightarrow> (booking \<Rightarrow> booking_error + booking) \<Rightarrow> booking_error + booking_db" where
  "with_booking db k f =
     (case get_booking db k of
        None \<Rightarrow> Inl Booking_not_found
      | Some b \<Rightarrow> (case f b of Inl e \<Rightarrow> Inl e | Inr b' \<Rightarrow> Inr (save_booking b' db)))"

definition awaiting_online_payment :: "booking \<Rightarrow> bool" where
  "awaiting_online_payment b \<longleftrightarrow> bk_method b = Pay_card \<and> bk_payment_status b \<notin> {Deposit_paid, Fully_paid}"

definition admin_confirm :: "booking_db \<Rightarrow> pk \<Rightarrow> bool \<Rightarrow> datetime \<Rightarrow> booking_error + booking_db" where
  "admin_confirm db k forced utc = with_booking db k (\<lambda>b.
     if bk_status b \<noteq> Booked_pending then Inl (Wrong_status (bk_status b))
     else if \<not> forced \<and> awaiting_online_payment b then Inl Payment_missing
     else Inr (confirm_booking utc b))"

definition admin_check_in :: "booking_db \<Rightarrow> pk \<Rightarrow> bool \<Rightarrow> booking_error + booking_db" where
  "admin_check_in db k forced = with_booking db k (\<lambda>b.
     if bk_status b \<notin> {Booked_pending, Booked_confirmed} then Inl (Wrong_status (bk_status b))
     else if bk_status b = Booked_pending \<and> \<not> forced \<and> awaiting_online_payment b then Inl Payment_missing
     else Inr (check_in_booking b))"

definition admin_complete :: "booking_db \<Rightarrow> pk \<Rightarrow> datetime \<Rightarrow> booking_error + booking_db" where
  "admin_complete db k utc = with_booking db k (\<lambda>b.
     if bk_status b \<notin> {Booked_confirmed, In_progress} then Inl (Wrong_status (bk_status b))
     else Inr (complete_booking utc b))"

definition admin_no_show :: "booking_db \<Rightarrow> pk \<Rightarrow> booking_error + booking_db" where
  "admin_no_show db k = with_booking db k (\<lambda>b.
     if bk_status b \<notin> {Booked_pending, Booked_confirmed} then Inl (Wrong_status (bk_status b))
     else Inr (mark_no_show b))"

subsection \<open>Cancelling\<close>

text \<open>The refund after a cancellation, online and by hand.\<close>

definition refund_cancelled :: "bog_api \<Rightarrow> booking_settings \<Rightarrow> booking \<Rightarrow> booking" where
  "refund_cancelled api st b = fst (flag_manual_refund (fst (initiate_refund api st b)) st)"

definition admin_cancel ::
  "bog_api \<Rightarrow> booking_db \<Rightarrow> pk \<Rightarrow> string \<Rightarrow> bool \<Rightarrow> datetime \<Rightarrow> booking_error + booking_db" where
  "admin_cancel api db k reason refund_requested utc =
     (case get_booking db k of
        None \<Rightarrow> Inl Booking_not_found
      | Some b \<Rightarrow>
          if bk_status b \<in> set final_booking_statuses then Inl (Wrong_status (bk_status b))
          else
            let reason' = (if strip reason = [] then ''Cancelled by admin'' else strip reason);
                b1 = cancel_booking utc ''admin'' reason' b;
                db1 = save_booking b1 db
            in if bk_paid b1 > 0 \<and> refund_requested
               then (let (db2, st) = get_or_create_booking_settings db1
                     in Inr (save_booking (refund_cancelled api st b1) db2))
               else Inr db1)"

definition can_cancel_booking :: "booking \<Rightarrow> booking_settings \<Rightarrow> datetime \<Rightarrow> booking_error option" where
  "can_cancel_booking b st now =
     (if bk_status b \<in> set final_booking_statuses then Some (Wrong_status (bk_status b))
      else if combine (bk_date b) (bk_start b) - now < bs_cancellation_hours st * us_per_hour
      then Some Too_late_to_cancel
      else None)"

text \<open>\<^verbatim>\<open>_cancel_booking\<close>: None when it was already over.\<close>

definition customer_cancel :: "bog_api \<Rightarrow> booking_db \<Rightarrow> booking \<Rightarrow> string \<Rightarrow> datetime \<Rightarrow> booking_db option" where
  "customer_cancel api db b reason utc =
     (if bk_status b \<in> {Booking_cancelled, Completed, No_show} then None
      else
        let b1 = cancel_booking utc ''client'' reason b;
            db1 = save_booking b1 db
        in if bk_paid b1 > 0
           then (let (db2, st) = get_or_create_booking_settings db1
                 in Some (save_booking (refund_cancelled api st b1) db2))
           else Some db1)"

definition own_booking :: "booking_db \<Rightarrow> pk \<Rightarrow> pk \<Rightarrow> booking option" where
  "own_booking db client k =
     (case get_booking db k of Some b \<Rightarrow> if bk_client b = client then Some b else None | None \<Rightarrow> None)"

definition client_cancel ::
  "bog_api \<Rightarrow> booking_db \<Rightarrow> datetime \<Rightarrow> pk \<Rightarrow> pk \<Rightarrow> string \<Rightarrow> datetime \<Rightarrow> booking_error + booking_db" where
  "client_cancel api db now client k reason utc =
     (case own_booking db client k of
        None \<Rightarrow> Inl Booking_not_found
      | Some b \<Rightarrow>
          let (db1, st) = get_or_create_booking_settings db
          in case can_cancel_booking b st now of
               Some e \<Rightarrow> Inl e
             | None \<Rightarrow> Inr (case customer_cancel api db1 b reason utc of Some db2 \<Rightarrow> db2 | None \<Rightarrow> db1))"

subsection \<open>Moving and reassigning\<close>

text \<open>\<^verbatim>\<open>strptime(s, '%Y-%m-%d').date()\<close>: four digits, then one or two each; a day may be padded with a space.\<close>

definition date_field :: "string \<Rightarrow> int option" where
  "date_field s = (if length s \<in> {1, 2} \<and> list_all is_digit s then map_option int (read_digits s) else None)"

definition day_field :: "string \<Rightarrow> int option" where
  "day_field s = (case s of
       c # ds \<Rightarrow> if c = CHR '' '' then (if length ds = 1 then date_field ds else None) else date_field s
     | [] \<Rightarrow> None)"

definition parse_date :: "string \<Rightarrow> date option" where
  "parse_date s =
     (case split_on (CHR ''-'') s of
        [y, m, d] \<Rightarrow>
          (case (if length y = 4 \<and> list_all is_digit y then read_digits y else None, date_field m, day_field d) of
             (Some year, Some month, Some day) \<Rightarrow> mk_date (int year) month day
           | _ \<Rightarrow> None)
      | _ \<Rightarrow> None)"

definition parse_time :: "string \<Rightarrow> clock option" where
  "parse_time s = parse_clock (take 5 s)"

definition move_booking :: "service \<Rightarrow> date \<Rightarrow> clock \<Rightarrow> booking \<Rightarrow> booking" where
  "move_booking s d t b =
     b\<lparr>bk_date := d, bk_start := t, bk_end := add_minutes_to_time t (total_duration_minutes s),
       bk_reminder_sent := False, bk_second_reminder_sent := False, bk_staff_reminder_sent := False\<rparr>"

definition admin_reschedule ::
  "booking_db \<Rightarrow> datetime \<Rightarrow> pk \<Rightarrow> string \<Rightarrow> string \<Rightarrow> booking_error + booking_db" where
  "admin_reschedule db now k date_text time_text =
     (case get_booking db k of
        None \<Rightarrow> Inl Booking_not_found
      | Some b \<Rightarrow>
          if date_text = [] \<or> time_text = [] then Inl Bad_input
          else if bk_status b \<notin> {Booked_pending, Booked_confirmed} then Inl (Wrong_status (bk_status b))
          else case (parse_date date_text, parse_time time_text, get_service db (bk_service b)) of
            (Some d, Some t, Some s) \<Rightarrow>
              (case validate_booking_availability db now s (bk_staff b) d t (Some (bk_pk b)) False of
                 Some e \<Rightarrow> Inl (Slot_rejected e)
               | None \<Rightarrow> Inr (save_booking (move_booking s d t b) db))
          | _ \<Rightarrow> Inl Bad_input)"

definition client_reschedule ::
  "booking_db \<Rightarrow> datetime \<Rightarrow> pk \<Rightarrow> pk \<Rightarrow> string \<Rightarrow> string \<Rightarrow> booking_error + booking_db" where
  "client_reschedule db now client k date_text time_text =
     (case own_booking db client k of
        None \<Rightarrow> Inl Booking_not_found
      | Some b \<Rightarrow>
          if bk_status b \<notin> {Booked_pending, Booked_confirmed} then Inl (Wrong_status (bk_status b))
          else case (parse_date date_text, parse_time time_text, get_service db (bk_service b)) of
            (Some d, Some t, Some s) \<Rightarrow>
              let (db1, st) = get_or_create_booking_settings db
              in (case can_cancel_booking b st now of
                    Some e \<Rightarrow> Inl e
                  | None \<Rightarrow>
                      (case check_booking_window (Some st) now d t of
                         Some e \<Rightarrow> Inl (Outside_window e)
                       | None \<Rightarrow>
                           (case validate_booking_availability db1 now s (bk_staff b) d t (Some (bk_pk b)) True of
                              Some e \<Rightarrow> Inl (Slot_rejected e)
                            | None \<Rightarrow>
                                let b1 = (if bk_staff b = None
                                      then b\<lparr>bk_staff := map_option bf_pk
                                             (find_available_staff db1 s d t (Some (bk_pk b)) True)\<rparr>
                                      else b)
                                in Inr (save_booking (move_booking s d t b1) db1))))
          | _ \<Rightarrow> Inl Bad_input)"

definition admin_assign_staff :: "booking_db \<Rightarrow> pk \<Rightarrow> pk \<Rightarrow> booking_error + booking_db" where
  "admin_assign_staff db k staff_id =
     (case get_booking db k of
        None \<Rightarrow> Inl Booking_not_found
      | Some b \<Rightarrow>
          if staff_id = 0 then Inl Bad_input
          else if bk_status b \<notin> {Booked_pending, Booked_confirmed} then Inl (Wrong_status (bk_status b))
          else case (get_staff db staff_id, get_service db (bk_service b)) of
            (Some f, Some s) \<Rightarrow>
              if Some (bf_pk f) = bk_staff b then Inr db
              else if \<not> bf_active f then Inl Staff_inactive
              else if bf_pk f \<notin> set (sv_staff s) then Inl Staff_not_assigned
              else (case check_staff_slot db s (bf_pk f) (bk_date b) (bk_start b) (Some (bk_pk b)) False of
                      Some e \<Rightarrow> Inl (Slot_rejected e)
                    | None \<Rightarrow>
                        Inr (save_booking (b\<lparr>bk_staff := Some (bf_pk f), bk_staff_reminder_sent := False\<rparr>) db))
          | _ \<Rightarrow> Inl Staff_not_found)"

subsection \<open>Money, notes, rating, deletion\<close>

definition admin_record_payment :: "booking_db \<Rightarrow> pk \<Rightarrow> manual_payment \<Rightarrow> booking_error + booking_db" where
  "admin_record_payment db k p = with_booking db k (\<lambda>b.
     case record_payment b p of Inl e \<Rightarrow> Inl (Payment_refused e) | Inr b' \<Rightarrow> Inr b')"

definition admin_update ::
  "booking_db \<Rightarrow> pk \<Rightarrow> string option \<Rightarrow> string option \<Rightarrow> decimal option \<Rightarrow> booking_error + booking_db" where
  "admin_update db k staff_notes client_notes price = with_booking db k (\<lambda>b.
     let b1 = (case staff_notes of Some n \<Rightarrow> b\<lparr>bk_staff_notes := n\<rparr> | None \<Rightarrow> b);
         b2 = (case client_notes of Some n \<Rightarrow> b1\<lparr>bk_client_notes := n\<rparr> | None \<Rightarrow> b1)
     in case price of
          None \<Rightarrow> Inr b2
        | Some t \<Rightarrow> (case update_total b2 t of Inl e \<Rightarrow> Inl (Payment_refused e) | Inr b3 \<Rightarrow> Inr b3))"

definition admin_delete :: "booking_db \<Rightarrow> user \<Rightarrow> pk \<Rightarrow> booking_error + booking_db" where
  "admin_delete db u k =
     (if \<not> is_booking_admin u then Inl Not_booking_admin
      else case get_booking db k of
        None \<Rightarrow> Inl Booking_not_found
      | Some b \<Rightarrow> Inr (db\<lparr>bd_bookings := row_delete bk_pk k (bd_bookings db)\<rparr>))"

text \<open>\<^verbatim>\<open>BookingStaff.update_rating\<close>; the average is a column with two decimal places.\<close>

definition update_rating :: "int \<Rightarrow> booking_staff \<Rightarrow> booking_staff" where
  "update_rating r f =
     (let total = bf_rating f * of_int (bf_ratings f) + of_int r
      in f\<lparr>bf_ratings := bf_ratings f + 1,
           bf_rating := round_half_even 2 (total / of_int (bf_ratings f + 1))\<rparr>)"

definition client_rate :: "booking_db \<Rightarrow> pk \<Rightarrow> pk \<Rightarrow> int option \<Rightarrow> string \<Rightarrow> booking_error + booking_db" where
  "client_rate db client k rating review =
     (case own_booking db client k of
        None \<Rightarrow> Inl Booking_not_found
      | Some b \<Rightarrow>
          if bk_status b \<noteq> Completed then Inl (Wrong_status (bk_status b))
          else if bk_rating b \<noteq> None then Inl Already_rated
          else case rating of
            None \<Rightarrow> Inl Bad_input
          | Some r \<Rightarrow>
              if r < 1 \<or> r > 5 then Inl Bad_input
              else
                let db1 = save_booking (b\<lparr>bk_rating := Some r, bk_review := review\<rparr>) db
                in Inr (case bk_staff b of
                     None \<Rightarrow> db1
                   | Some f \<Rightarrow>
                       (case get_staff db1 f of
                          None \<Rightarrow> db1
                        | Some row \<Rightarrow> db1\<lparr>bd_staff := row_save bf_pk (update_rating r row) (bd_staff db1)\<rparr>)))"

subsection \<open>Unpaid bookings\<close>

text \<open>
  \<^verbatim>\<open>_cancel_unpaid_for_tenant\<close>.  The query is evaluated once; each booking found is handled on its
  own, and an exception (None from \<^const>\<open>process_webhook\<close>) leaves it alone.
\<close>

definition unpaid_card_grace_minutes :: int where
  "unpaid_card_grace_minutes = 30"

definition unpaid_booking :: "datetime \<Rightarrow> booking \<Rightarrow> bool" where
  "unpaid_booking utc b \<longleftrightarrow>
     bk_status b = Booked_pending \<and> bk_method b = Pay_card \<and> bk_payment_status b \<in> {Pay_pending, Pay_failed}
     \<and> bk_created_at b < utc - unpaid_card_grace_minutes * us_per_minute"

definition release :: "datetime \<Rightarrow> booking \<Rightarrow> booking" where
  "release utc b = cancel_booking utc ''admin'' ''Auto-cancelled: online payment was not completed'' b"

definition sweep_booking :: "bog_api \<Rightarrow> datetime \<Rightarrow> booking \<Rightarrow> booking_db \<Rightarrow> booking_db" where
  "sweep_booking api utc b db =
     (if bk_order b \<noteq> [] \<and> bk_payment_status b = Pay_pending
      then (case process_webhook api utc db (bk_number b) [] of
              None \<Rightarrow> fst (get_or_create_booking_settings db)
            | Some (db1, _, state) \<Rightarrow>
                if state \<notin> {Some ''pending'', Some ''failed''} then db1
                else (case get_booking db1 (bk_pk b) of
                        None \<Rightarrow> db1
                      | Some b1 \<Rightarrow>
                          if bk_status b1 \<noteq> Booked_pending \<or> bk_payment_status b1 \<in> {Deposit_paid, Fully_paid}
                          then db1
                          else save_booking (release utc b1) db1))
      else (case get_booking db (bk_pk b) of
              None \<Rightarrow> db
            | Some b1 \<Rightarrow> save_booking (release utc b1) db))"

definition cancel_unpaid :: "bog_api \<Rightarrow> datetime \<Rightarrow> booking_db \<Rightarrow> booking_db" where
  "cancel_unpaid api utc db = fold (sweep_booking api utc) (filter (unpaid_booking utc) (bd_bookings db)) db"

section \<open>Scheduled tasks\<close>

subsection \<open>Repeating series\<close>

definition should_create_booking :: "date \<Rightarrow> recurring_booking \<Rightarrow> bool" where
  "should_create_booking today r =
     (if rb_status r \<noteq> Series_active then False
      else if (case rb_until r of Some e \<Rightarrow> today > e | None \<Rightarrow> False) then False
      else if (case rb_max r of Some n \<Rightarrow> n \<noteq> 0 \<and> rb_count r \<ge> n | None \<Rightarrow> False) then False
      else today \<ge> rb_next r)"

text \<open>None only past the last year of the calendar, where \<^verbatim>\<open>monthrange\<close> or \<^verbatim>\<open>replace\<close> raises.\<close>

definition calculate_next_date :: "recurring_booking \<Rightarrow> date option" where
  "calculate_next_date r =
     (case rb_frequency r of
        Weekly \<Rightarrow> Some (rb_next r + 7)
      | Biweekly \<Rightarrow> Some (rb_next r + 14)
      | Monthly \<Rightarrow>
          let next_month = month_of (rb_next r) + 1;
              (year, month) = (if next_month > 12 then (year_of (rb_next r) + 1, 1)
                               else (year_of (rb_next r), next_month));
              next_day = min (day_of (rb_next r)) (days_in_month year month)
          in mk_date year month next_day)"

definition series_booking :: "booking_db \<Rightarrow> string \<Rightarrow> datetime \<Rightarrow> service \<Rightarrow> recurring_booking \<Rightarrow> booking" where
  "series_booking db ref utc s r =
     (blank_booking (next_pk bk_pk (bd_bookings db)) ref (rb_client r) s (rb_staff r) (rb_next r) (rb_time r) utc)
       \<lparr>bk_end := add_minutes_to_time (rb_time r) (sv_duration s), bk_status := Booked_confirmed,
        bk_deposit := round_half_even 2 (calculate_deposit_amount s),
        bk_client_notes := ''Auto-created from recurring booking #'' @ nat_text (rb_pk r)\<rparr>"

text \<open>The series after a booking was made from it.\<close>

definition advance_series :: "pk \<Rightarrow> date \<Rightarrow> recurring_booking \<Rightarrow> recurring_booking" where
  "advance_series booking next_date r =
     (let r1 = r\<lparr>rb_last := Some booking, rb_count := rb_count r + 1, rb_next := next_date\<rparr>;
          r2 = (if (case rb_max r1 of Some n \<Rightarrow> n \<noteq> 0 \<and> rb_count r1 \<ge> n | None \<Rightarrow> False)
                then r1\<lparr>rb_status := Series_completed\<rparr> else r1)
      in if (case rb_until r2 of Some e \<Rightarrow> rb_next r2 > e | None \<Rightarrow> False)
         then r2\<lparr>rb_status := Series_completed\<rparr> else r2)"

text \<open>
  One round of the loop.  There is no transaction: when the next date cannot be computed the
  booking is there and the series is not advanced.  \<open>refs\<close> gives the booking references.
\<close>

definition create_from_series ::
  "(pk \<Rightarrow> string) \<Rightarrow> date \<Rightarrow> datetime \<Rightarrow> recurring_booking \<Rightarrow> booking_db \<Rightarrow> booking_db" where
  "create_from_series refs today utc r db =
     (if \<not> should_create_booking today r then db
      else case get_service db (rb_service r) of
        None \<Rightarrow> db
      | Some s \<Rightarrow>
          let b = series_booking db (refs (rb_pk r)) utc s r;
              db1 = db\<lparr>bd_bookings := row_create b (bd_bookings db)\<rparr>
          in case calculate_next_date r of
               None \<Rightarrow> db1
             | Some d \<Rightarrow>
                 db1\<lparr>bd_series := row_save rb_pk (advance_series (bk_pk b) d r) (bd_series db1)\<rparr>)"

definition create_recurring_bookings :: "(pk \<Rightarrow> string) \<Rightarrow> datetime \<Rightarrow> booking_db \<Rightarrow> booking_db" where
  "create_recurring_bookings refs utc db =
     (let today = date_of utc;
          due = filter (\<lambda>r. rb_status r = Series_active \<and> rb_next r \<le> today) (bd_series db)
      in fold (create_from_series refs today utc) due db)"

text \<open>The first date of a new series: the next preferred weekday after today.\<close>

definition first_series_date :: "date \<Rightarrow> int \<Rightarrow> date" where
  "first_series_date today preferred_day =
     (let days_ahead = preferred_day - weekday today
      in today + (if days_ahead \<le> 0 then days_ahead + 7 else days_ahead))"

definition pause_series :: "recurring_booking \<Rightarrow> recurring_booking" where
  "pause_series r = r\<lparr>rb_status := Series_paused\<rparr>"

definition resume_series :: "recurring_booking \<Rightarrow> recurring_booking" where
  "resume_series r = r\<lparr>rb_status := Series_active\<rparr>"

definition cancel_series :: "date \<Rightarrow> recurring_booking \<Rightarrow> recurring_booking" where
  "cancel_series today r = r\<lparr>rb_status := Series_cancelled, rb_until := Some today\<rparr>"

subsection \<open>Reminders\<close>

datatype reminder = First_reminder | Second_reminder

definition clock_hour :: "datetime \<Rightarrow> int" where
  "clock_hour n = clock_of n div us_per_hour"

definition sending_hours :: "datetime \<Rightarrow> bool" where
  "sending_hours now \<longleftrightarrow> 9 \<le> clock_hour now \<and> clock_hour now < 21"

text \<open>\<open>created\<close> is the creation time of the booking on the clock of the business.\<close>

definition due_reminder :: "booking \<Rightarrow> datetime \<Rightarrow> datetime \<Rightarrow> booking_settings option \<Rightarrow> reminder option" where
  "due_reminder b created now settings =
     (let start = combine (bk_date b) (bk_start b);
          first_hours = (case settings of Some s \<Rightarrow> if bs_reminder_hours s = 0 then 24 else bs_reminder_hours s
                                        | None \<Rightarrow> 24);
          second_hours = (case settings of Some s \<Rightarrow> (case bs_second_reminder_hours s of
                                               Some h \<Rightarrow> if h = 0 then None else Some h | None \<Rightarrow> None)
                                         | None \<Rightarrow> None);
          due = (\<lambda>hours. now \<ge> start - hours * us_per_hour \<and> created \<le> start - hours * us_per_hour)
      in if bk_status b \<noteq> Booked_confirmed then None
         else if \<not> sending_hours now then None
         else if start \<le> now then None
         else if (case second_hours of Some h \<Rightarrow> \<not> bk_second_reminder_sent b \<and> due h | None \<Rightarrow> False)
         then Some Second_reminder
         else if \<not> bk_reminder_sent b \<and> due first_hours
         then (case second_hours of
                 Some h \<Rightarrow> if now \<ge> start - h * us_per_hour then None else Some First_reminder
               | None \<Rightarrow> Some First_reminder)
         else None)"

text \<open>The flags set once a reminder was delivered or given up.\<close>

definition mark_reminded :: "reminder \<Rightarrow> booking \<Rightarrow> booking" where
  "mark_reminded which b =
     (case which of
        First_reminder \<Rightarrow> b\<lparr>bk_reminder_sent := True\<rparr>
      | Second_reminder \<Rightarrow> b\<lparr>bk_second_reminder_sent := True, bk_reminder_sent := True\<rparr>)"

text \<open>The query window of \<^verbatim>\<open>_send_staff_reminders_for_tenant\<close>.\<close>

definition staff_reminder_window :: "datetime \<Rightarrow> int \<Rightarrow> booking \<Rightarrow> bool" where
  "staff_reminder_window now minutes b =
     (let horizon = now + minutes * us_per_minute
      in if date_of horizon = date_of now
         then bk_date b = date_of now \<and> clock_of now < bk_start b \<and> bk_start b \<le> clock_of horizon
         else (bk_date b = date_of now \<and> clock_of now < bk_start b)
           \<or> (date_of now < bk_date b \<and> bk_date b < date_of horizon)
           \<or> (bk_date b = date_of horizon \<and> bk_start b \<le> clock_of horizon))"

definition staff_reminder_candidates :: "datetime \<Rightarrow> int \<Rightarrow> booking_db \<Rightarrow> booking list" where
  "staff_reminder_candidates now minutes db =
     filter (\<lambda>b. staff_reminder_window now minutes b \<and> bk_status b \<in> {Booked_pending, Booked_confirmed}
         \<and> bk_staff b \<noteq> None \<and> \<not> bk_staff_reminder_sent b) (bd_bookings db)"

lemma lex_less:
  fixes D :: int
  assumes "0 \<le> c" "c < D" "0 \<le> t" "t < D"
  shows "a * D + c < d * D + t \<longleftrightarrow> a < d \<or> (a = d \<and> c < t)"
proof (cases a d rule: linorder_cases)
  case less
  then have "(a + 1) * D \<le> d * D" using assms by (intro mult_right_mono) auto
  then have "a * D + D \<le> d * D" by (simp add: distrib_right)
  then have "a * D + c < d * D + t" using assms by linarith
  then show ?thesis using less by simp
next
  case greater
  then have "(d + 1) * D \<le> a * D" using assms by (intro mult_right_mono) auto
  then have "d * D + D \<le> a * D" by (simp add: distrib_right)
  then have "\<not> a * D + c < d * D + t" using assms by linarith
  then show ?thesis using greater by simp
qed simp

lemma datetime_order:
  assumes "0 \<le> t" "t < us_per_day"
  shows "n < combine d t \<longleftrightarrow> date_of n < d \<or> (date_of n = d \<and> clock_of n < t)"
    and "combine d t \<le> n \<longleftrightarrow> d < date_of n \<or> (d = date_of n \<and> t \<le> clock_of n)"
proof -
  have n: "date_of n * us_per_day + clock_of n = n" "0 \<le> clock_of n" "clock_of n < us_per_day"
    by (simp_all add: date_of_def clock_of_def us_per_day_def)
  show l: "n < combine d t \<longleftrightarrow> date_of n < d \<or> (date_of n = d \<and> clock_of n < t)"
    using lex_less [OF n(2,3) assms, of "date_of n" d] unfolding n(1) combine_def by simp
  show "combine d t \<le> n \<longleftrightarrow> d < date_of n \<or> (d = date_of n \<and> t \<le> clock_of n)"
    unfolding linorder_not_less [symmetric] l by auto
qed

text \<open>The window of the staff reminders is the half-open interval of datetimes from now to the
  given number of minutes later, also when it crosses midnight.\<close>

theorem staff_window_exact:
  assumes "0 \<le> minutes" and "0 \<le> bk_start b" and "bk_start b < us_per_day"
  shows "staff_reminder_window now minutes b \<longleftrightarrow>
    now < combine (bk_date b) (bk_start b)
    \<and> combine (bk_date b) (bk_start b) \<le> now + minutes * us_per_minute"
proof -
  have "date_of now \<le> date_of (now + minutes * us_per_minute)"
    unfolding date_of_def using assms(1) by (intro zdiv_mono1) (auto simp: us_per_minute_def us_per_day_def)
  then show ?thesis
    unfolding staff_reminder_window_def Let_def datetime_order [OF assms(2,3)] by auto
qed

text \<open>A booking gets each reminder at most once, and no first one after the second.\<close>

lemma reminder_once:
  "due_reminder (mark_reminded which b) created now st \<noteq> Some First_reminder"
  "due_reminder (mark_reminded Second_reminder b) created now st = None"
  by (auto simp: due_reminder_def mark_reminded_def Let_def split: reminder.splits option.splits)

lemma reminder_in_time:
  "due_reminder b created now st \<noteq> None \<Longrightarrow> sending_hours now \<and> now < combine (bk_date b) (bk_start b)
    \<and> bk_status b = Booked_confirmed"
  by (auto simp: due_reminder_def Let_def split: if_splits)

end
