(* ===== verification/Booking_Slot_Facts.thy ===== *)
theory Booking_Slot_Facts
  imports Booking_Slots
begin

text \<open>
  What the slot lists promise: the times the public page offers are exactly the ones the
  create endpoint then accepts, each start is listed once and in order of the clock, and the
  time of an accepted appointment lies inside one day.
\<close>

subsection \<open>Clock times\<close>

lemma int_div_less_iff: "0 < k \<Longrightarrow> a div k < m \<longleftrightarrow> a < m * (k::int)"
proof -
  assume k: "0 < k"
  have e: "a = a div k * k + a mod k" "0 \<le> a mod k" "a mod k < k" using k by simp_all
  show ?thesis
  proof
    assume "a div k < m"
    then have "(a div k + 1) * k \<le> m * k" using k by (intro mult_right_mono) auto
    then have "a div k * k + k \<le> m * k" by (simp add: distrib_right)
    then show "a < m * k" using e by linarith
  next
    assume "a < m * k"
    then have "a div k * k < m * k" using e by linarith
    then show "a div k < m" using k by simp
  qed
qed

definition whole_minute :: "clock \<Rightarrow> bool" where
  "whole_minute t \<longleftrightarrow> 0 \<le> t \<and> t < us_per_day \<and> t mod us_per_minute = 0"

lemma us_simps: "us_per_minute = 60000000" "us_per_day = 1440 * us_per_minute"
  "us_per_hour = 60 * us_per_minute" "0 < us_per_minute"
  by (simp_all add: us_per_minute_def us_per_day_def us_per_hour_def)

lemma minutes_to_time_inverse [simp]: "time_to_minutes (minutes_to_time m) = m"
  by (simp add: time_to_minutes_def minutes_to_time_def us_simps)

lemma whole_minute_minutes: "whole_minute t \<Longrightarrow> t = minutes_to_time (time_to_minutes t)"
  by (auto simp: whole_minute_def minutes_to_time_def time_to_minutes_def minus_mod_eq_div_mult [symmetric])

lemma whole_minute_range: "whole_minute t \<Longrightarrow> 0 \<le> time_to_minutes t \<and> time_to_minutes t < 1440"
  by (auto simp: whole_minute_def time_to_minutes_def us_simps div_less_iff_less_mult)

lemma whole_minute_of_minutes: "0 \<le> m \<Longrightarrow> m < 1440 \<Longrightarrow> whole_minute (minutes_to_time m)"
  by (auto simp: whole_minute_def minutes_to_time_def us_simps)

lemma minutes_to_time_le [simp]: "minutes_to_time a \<le> minutes_to_time b \<longleftrightarrow> a \<le> b"
  and minutes_to_time_less [simp]: "minutes_to_time a < minutes_to_time b \<longleftrightarrow> a < b"
  by (simp_all add: minutes_to_time_def us_simps)

lemma whole_minute_second: "whole_minute t \<Longrightarrow> clock_second t = 0"
proof -
  assume "whole_minute t"
  then have "t = time_to_minutes t * 60 * 1000000"
    by (drule_tac whole_minute_minutes) (simp add: minutes_to_time_def us_simps)
  then have "t div 1000000 = time_to_minutes t * 60" by simp
  then show ?thesis by (simp add: clock_second_def)
qed

lemma clock_text_inject:
  assumes "whole_minute a" "whole_minute b" "clock_text a = clock_text b"
  shows "a = b"
proof -
  let ?m = "time_to_minutes a" and ?n = "time_to_minutes b"
  have r: "0 \<le> ?m" "?m < 1440" "0 \<le> ?n" "?n < 1440" using assms whole_minute_range by auto
  then have b: "nat (?m div 60) < 100" "nat (?n div 60) < 100" "nat (?m mod 60) < 100" "nat (?n mod 60) < 100"
    by (auto simp: nat_less_iff div_less_iff_less_mult)
  have l: "length (pad_zeros 2 (nat_text k)) = 2" if "k < 100" for k using that by (simp add: pad2)
  have "pad_zeros 2 (nat_text (nat (?m div 60))) = pad_zeros 2 (nat_text (nat (?n div 60)))"
    "pad_zeros 2 (nat_text (nat (?m mod 60))) = pad_zeros 2 (nat_text (nat (?n mod 60)))"
    using assms(3) l [OF b(1)] l [OF b(2)] by (auto simp: clock_text_def)
  then have "nat (?m div 60) = nat (?n div 60)" "nat (?m mod 60) = nat (?n mod 60)"
    using pad2_order b by (metis linorder_neq_iff)+
  then have "?m div 60 = ?n div 60" "?m mod 60 = ?n mod 60"
    using r by (auto simp: eq_nat_nat_iff pos_imp_zdiv_nonneg_iff)
  then have "?m = ?n" by (metis mult_div_mod_eq)
  then show ?thesis using whole_minute_minutes assms(1,2) by metis
qed

lemma set_py_range: "0 < step \<Longrightarrow> m \<in> set (py_range a b step) \<longleftrightarrow> (\<exists>i \<ge> 0. m = a + i * step \<and> m < b)"
proof -
  assume s: "0 < step"
  have "i \<le> (b - a - 1) div step \<longleftrightarrow> a + i * step < b" for i
    using int_div_less_iff [OF s, of "b - a - 1" i] by (auto simp flip: not_less)
  then show ?thesis unfolding py_range_def by (auto simp: image_iff)
qed

lemma py_range_bounds: "0 < step \<Longrightarrow> m \<in> set (py_range a b step) \<Longrightarrow> a \<le> m \<and> m < b"
  by (auto simp: set_py_range)

lemma clock_field_range: "clock_field limit s = Some n \<Longrightarrow> 0 \<le> n \<and> n \<le> limit"
  by (auto simp: clock_field_def split: if_splits option.splits)

lemma parse_clock_whole: "parse_clock s = Some t \<Longrightarrow> whole_minute t"
  unfolding parse_clock_def
  by (auto split: list.splits option.splits intro!: whole_minute_of_minutes dest!: clock_field_range)

subsection \<open>Schedules\<close>

definition hours_ok :: "day_hours \<Rightarrow> bool" where
  "hours_ok h \<longleftrightarrow> whole_minute (dh_start h) \<and> whole_minute (dh_end h)"

text \<open>The hours entered in the dashboard are times of day on the minute.\<close>

definition schedule_ok :: "booking_db \<Rightarrow> bool" where
  "schedule_ok db \<longleftrightarrow>
     list_all (\<lambda>w. whole_minute (wa_start w) \<and> whole_minute (wa_end w)) (bd_weekly db)
     \<and> list_all (\<lambda>x. pred_option whole_minute (sx_start x) \<and> pred_option whole_minute (sx_end x)) (bd_exceptions db)"

lemma find_rev_Some: "find P (rev xs) = Some x \<Longrightarrow> x \<in> set xs \<and> P x"
  by (auto simp: find_Some_iff rev_nth)

lemma availability_ok:
  assumes "schedule_ok db" "get_staff_availability db f d = Some h"
  shows "hours_ok h"
  using assms whole_minute_of_minutes [of "9 * 60"] whole_minute_of_minutes [of "17 * 60"]
  unfolding get_staff_availability_def schedule_ok_def hours_ok_def
  by (auto simp: Let_def list_all_iff weekly_hours_def split: option.splits if_splits dest!: find_rev_Some)

lemma candidates_whole:
  assumes "hours_ok h" "t \<in> set (candidate_start_times s h)"
  shows "whole_minute t"
proof (cases "sv_type s")
  case Fixed_slots
  then show ?thesis using assms(2)
    by (auto simp: candidate_start_times_def List.map_filter_def split: option.splits intro: parse_clock_whole)
next
  case Duration_based
  then obtain m where m: "t = minutes_to_time m"
    "m \<in> set (py_range (time_to_minutes (dh_start h)) (time_to_minutes (dh_end h)) (max 1 (min 30 (sv_duration s))))"
    using assms(2) by (auto simp: candidate_start_times_def)
  then have "time_to_minutes (dh_start h) \<le> m" "m < time_to_minutes (dh_end h)" using py_range_bounds [OF _ m(2)] by auto
  with assms(1) whole_minute_range show ?thesis unfolding m(1) hours_ok_def
    by (intro whole_minute_of_minutes) force+
qed

lemma candidates_minutes:
  assumes "hours_ok h" "whole_minute t"
  shows "time_to_minutes t \<in> time_to_minutes ` set (candidate_start_times s h) \<longleftrightarrow> t \<in> set (candidate_start_times s h)"
  using candidates_whole [OF assms(1)] assms(2) whole_minute_minutes by (metis image_iff)

subsection \<open>An accepted appointment\<close>

lemma fits_lower: "fits_working_hours h t n \<Longrightarrow> time_to_minutes (dh_start h) \<le> time_to_minutes t"
  and fits_upper: "fits_working_hours h t n \<Longrightarrow> time_to_minutes t + n \<le> time_to_minutes (dh_end h)"
  by (auto simp: fits_working_hours_def Let_def split: if_splits)

lemma check_staff_slot_None:
  "check_staff_slot db s f d t ex grid = None \<longleftrightarrow>
     (\<exists>h. get_staff_availability db f d = Some h
        \<and> (grid \<longrightarrow> time_to_minutes t \<in> time_to_minutes ` set (candidate_start_times s h) \<and> clock_second t = 0)
        \<and> dh_start h \<le> t \<and> t < dh_end h \<and> fits_working_hours h t (total_duration_minutes s)
        \<and> \<not> is_slot_booked db f d t (total_duration_minutes s) ex)"
  by (auto simp: check_staff_slot_def is_time_in_range_def split: option.splits dest: fits_upper)

text \<open>An appointment that passed the check starts and ends on the same day, so its end is not wrapped.\<close>

lemma clock_minutes_less: "time_to_minutes t < m \<longleftrightarrow> t < minutes_to_time m"
  by (simp add: time_to_minutes_def minutes_to_time_def int_div_less_iff us_simps(4))

definition day_clock :: "clock \<Rightarrow> bool" where
  "day_clock t \<longleftrightarrow> 0 \<le> t \<and> t < us_per_day"

definition hours_in_day :: "booking_db \<Rightarrow> bool" where
  "hours_in_day db \<longleftrightarrow>
     list_all (\<lambda>w. day_clock (wa_start w) \<and> day_clock (wa_end w)) (bd_weekly db)
     \<and> list_all (\<lambda>x. pred_option day_clock (sx_start x) \<and> pred_option day_clock (sx_end x)) (bd_exceptions db)"

lemma availability_in_day:
  assumes "hours_in_day db" "get_staff_availability db f d = Some h"
  shows "day_clock (dh_start h) \<and> day_clock (dh_end h)"
proof -
  have "day_clock (minutes_to_time (9 * 60))" "day_clock (minutes_to_time (17 * 60))"
    by (simp_all add: day_clock_def minutes_to_time_def us_simps)
  then show ?thesis using assms
    unfolding get_staff_availability_def hours_in_day_def
    by (auto simp: Let_def list_all_iff weekly_hours_def split: option.splits if_splits dest!: find_rev_Some)
qed

lemma checked_in_day:
  assumes "check_staff_slot db s f d t ex grid = None" "hours_in_day db"
  shows "0 \<le> t \<and> t + total_duration_minutes s * us_per_minute < us_per_day"
proof -
  obtain h where h: "get_staff_availability db f d = Some h" "dh_start h \<le> t"
    "fits_working_hours h t (total_duration_minutes s)"
    using assms(1) by (auto simp: check_staff_slot_None)
  have d: "day_clock (dh_start h)" "day_clock (dh_end h)" using availability_in_day [OF assms(2) h(1)] by auto
  have "time_to_minutes (dh_end h) < 1440"
    using d(2) by (simp add: day_clock_def clock_minutes_less) (simp add: minutes_to_time_def us_simps)
  then have "time_to_minutes t < 1440 - total_duration_minutes s" using fits_upper [OF h(3)] by simp
  then have "t < minutes_to_time (1440 - total_duration_minutes s)" by (simp add: clock_minutes_less)
  then have "t + total_duration_minutes s * us_per_minute < us_per_day"
    by (simp add: minutes_to_time_def us_simps algebra_simps)
  then show ?thesis using d(1) h(2) by (simp add: day_clock_def)
qed

subsection \<open>The slot lists\<close>

definition offered_at :: "slot list \<Rightarrow> string \<Rightarrow> pk \<Rightarrow> bool" where
  "offered_at slots key f \<longleftrightarrow> (\<exists>x \<in> set slots. so_start x = key \<and> f \<in> set (so_staff x))"

lemma add_slot_offered: "offered_at (add_slot key fin f xs) k g \<longleftrightarrow> offered_at xs k g \<or> k = key \<and> g = f"
  by (induction xs) (auto simp: offered_at_def)

lemma add_slot_starts: "map so_start (add_slot key fin f xs) =
  (if key \<in> so_start ` set xs then map so_start xs else map so_start xs @ [key])"
  by (induction xs) auto

lemma add_slot_staff: "\<forall>x \<in> set xs. so_staff x \<noteq> [] \<Longrightarrow> \<forall>x \<in> set (add_slot key fin f xs). so_staff x \<noteq> []"
  by (induction xs) auto

lemma collect_slots_facts:
  "(\<forall>k g. offered_at (collect_slots s offers) k g \<longleftrightarrow> (\<exists>t. (g, t) \<in> set offers \<and> clock_text t = k))
   \<and> distinct (map so_start (collect_slots s offers))
   \<and> (\<forall>x \<in> set (collect_slots s offers). so_staff x \<noteq> [])"
proof (induction offers rule: rev_induct)
  case Nil
  then show ?case by (simp add: collect_slots_def offered_at_def)
next
  case (snoc o' offers)
  obtain f t where o': "o' = (f, t)" by (cases o')
  have "collect_slots s (offers @ [o']) =
    add_slot (clock_text t) (clock_text (add_minutes_to_time t (sv_duration s))) f (collect_slots s offers)"
    by (simp add: collect_slots_def o')
  with snoc show ?case by (auto simp: add_slot_offered add_slot_starts o' intro!: add_slot_staff)
qed

lemma offered_at_sort [simp]: "offered_at (sort_key f xs) k g \<longleftrightarrow> offered_at xs k g"
  by (simp add: offered_at_def)

lemma staff_offers_iff:
  "(g, t) \<in> set (staff_offers db st now s d f) \<longleftrightarrow>
     g = bf_pk f \<and> (\<exists>h. get_staff_availability db g d = Some h \<and> t \<in> set (candidate_start_times s h)
       \<and> fits_working_hours h t (total_duration_minutes s) \<and> check_booking_window st now d t = None
       \<and> \<not> is_slot_booked db g d t (total_duration_minutes s) None)"
  by (cases "get_staff_availability db (bf_pk f) d") (auto simp: staff_offers_def)

lemma in_window_not_past:
  assumes "check_booking_window st now d t = None" "0 < (case st of Some s \<Rightarrow> bs_min_hours s | None \<Rightarrow> 2)"
    "0 \<le> t" "t < us_per_day"
  shows "\<not> d < date_of now \<and> \<not> (d = date_of now \<and> t \<le> clock_of now)"
proof -
  define m where "m = (case st of Some s \<Rightarrow> bs_min_hours s | None \<Rightarrow> 2)"
  have "now + m * us_per_hour \<le> d * us_per_day + t"
    using assms(1) by (auto simp: check_booking_window_def Let_def m_def combine_def split: if_splits)
  moreover have "1 * us_per_hour \<le> m * us_per_hour"
    using assms(2) by (intro mult_right_mono) (auto simp: m_def us_per_hour_def)
  ultimately have w: "now + us_per_hour \<le> d * us_per_day + t" by simp
  have n: "now = date_of now * us_per_day + clock_of now" "0 \<le> clock_of now" "clock_of now < us_per_day"
    by (simp_all add: date_of_def clock_of_def us_per_day_def)
  have "\<not> d < date_of now"
  proof
    assume "d < date_of now"
    then have "(d + 1) * us_per_day \<le> date_of now * us_per_day"
      by (intro mult_right_mono) (auto simp: us_per_day_def)
    with w n assms(4) show False by (simp add: us_per_hour_def distrib_right)
  qed
  moreover have "\<not> (d = date_of now \<and> t \<le> clock_of now)" using w n by (auto simp: us_per_hour_def)
  ultimately show ?thesis by simp
qed

lemma mem_active_staff: "f \<in> set (active_staff_of db s) \<longleftrightarrow> f \<in> set (bd_staff db) \<and> staff_can_perform s f"
  by (auto simp: active_staff_of_def staff_can_perform_def)

text \<open>C13: The public slot list and the create endpoint agree: a staff member is listed as free at a
  start time exactly when they are active and provide the service, the time is inside the booking
  window, and the validation of a booking for that staff member and time accepts it.  The list is
  in chronological order, without repetitions and without an entry that nobody can take.\<close>

theorem slots_are_bookable:
  assumes "schedule_ok db" and "0 < total_duration_minutes s"
    and "0 < (case bd_settings db of Some st \<Rightarrow> bs_min_hours st | None \<Rightarrow> 2)"
    and "set (by_name (active_staff_of db s)) = set (active_staff_of db s)"
    and "distinct (map bf_pk (bd_staff db))" and "f \<in> set (bd_staff db)" and "whole_minute t"
  shows "let slots = generate_available_slots by_name db now s d None
         in ((\<exists>x \<in> set slots. so_start x = clock_text t \<and> bf_pk f \<in> set (so_staff x))
             \<longleftrightarrow> staff_can_perform s f \<and> check_booking_window (bd_settings db) now d t = None
               \<and> validate_booking_availability db now s (Some (bf_pk f)) d t None True = None)
            \<and> sorted (map so_start slots) \<and> distinct (map so_start slots) \<and> [] \<notin> so_staff ` set slots"
proof -
  define offers where "offers = concat (map (staff_offers db (bd_settings db) now s d) (by_name (active_staff_of db s)))"
  have g: "generate_available_slots by_name db now s d None = sort_key so_start (collect_slots s offers)"
    by (simp add: generate_available_slots_def offers_def)
  note c = collect_slots_facts [of s offers]
  let ?st = "bd_settings db" and ?n = "total_duration_minutes s"
  have "(\<exists>x \<in> set (generate_available_slots by_name db now s d None).
            so_start x = clock_text t \<and> bf_pk f \<in> set (so_staff x))
      \<longleftrightarrow> (\<exists>t'. (bf_pk f, t') \<in> set offers \<and> clock_text t' = clock_text t)"
    using c unfolding g offered_at_def [symmetric] offered_at_sort by blast
  also have "\<dots> \<longleftrightarrow> (bf_pk f, t) \<in> set offers"
    using assms(1,7) availability_ok candidates_whole clock_text_inject
    unfolding offers_def by (auto simp: staff_offers_iff; metis)
  also have "\<dots> \<longleftrightarrow> staff_can_perform s f \<and> (bf_pk f, t) \<in> set (staff_offers db ?st now s d f)"
  proof -
    have "x = f" if "x \<in> set (bd_staff db)" "bf_pk f = bf_pk x" for x
      using assms(5,6) that by (auto simp: distinct_map inj_on_def)
    moreover have "(bf_pk f, t) \<in> set offers \<longleftrightarrow>
        (\<exists>x \<in> set (active_staff_of db s). (bf_pk f, t) \<in> set (staff_offers db ?st now s d x))"
      by (simp add: offers_def assms(4))
    ultimately show ?thesis using assms(6) by (metis mem_active_staff staff_offers_iff)
  qed
  also have "\<dots> \<longleftrightarrow> staff_can_perform s f \<and> check_booking_window ?st now d t = None
            \<and> validate_booking_availability db now s (Some (bf_pk f)) d t None True = None"
  proof (cases "check_booking_window ?st now d t = None")
    case True
    have tr: "0 \<le> t" "t < us_per_day" using assms(7) by (auto simp: whole_minute_def)
    have v: "validate_booking_availability db now s (Some (bf_pk f)) d t None True
        = check_staff_slot db s (bf_pk f) d t None True"
      using in_window_not_past [OF True assms(3) tr] by (auto simp: validate_booking_availability_def)
    have "dh_start h \<le> t \<and> t < dh_end h" if "hours_ok h" "fits_working_hours h t ?n" for h
      using fits_lower [OF that(2)] fits_upper [OF that(2)] that(1) assms(2,7)
      by (metis hours_ok_def whole_minute_minutes minutes_to_time_le minutes_to_time_less less_add_same_cancel1
          order_less_le_trans)
    then show ?thesis
      unfolding v staff_offers_iff check_staff_slot_None
      using True assms(1,7) availability_ok candidates_minutes whole_minute_second by blast
  qed (auto simp: staff_offers_iff)
  finally have "(\<exists>x \<in> set (generate_available_slots by_name db now s d None).
            so_start x = clock_text t \<and> bf_pk f \<in> set (so_staff x))
          \<longleftrightarrow> staff_can_perform s f \<and> check_booking_window ?st now d t = None
            \<and> validate_booking_availability db now s (Some (bf_pk f)) d t None True = None" .
  moreover have "sorted (map so_start (sort_key so_start (collect_slots s offers)))
      \<and> distinct (map so_start (sort_key so_start (collect_slots s offers)))
      \<and> [] \<notin> so_staff ` set (sort_key so_start (collect_slots s offers))"
    using c by (auto simp: distinct_map)
  ultimately show ?thesis unfolding Let_def g by blast
qed

end
