(* ===== verification/Booking_Invariant.thy ===== *)
theory Booking_Invariant
  imports Booking_Tasks Booking_Slot_Facts
begin

text \<open>
  No staff member is booked twice for the same time.  The system state is the tables together
  with the requests that passed their validation and whose second half has not run yet, so every
  interleaving of validations and creations is a run.  Schedules, staff and services, their
  lengths included, may change at any time.  Two operations place a booking without looking at the
  whole of its time: the task for repeating series does not look at the calendar at all (see
  \<open>series_ignores_calendar\<close>), and \<^verbatim>\<open>assign_staff\<close> looks at the length the service has now,
  which may be shorter than the booking.  Both are steps; the invariant is relative to the set of
  the keys of the bookings they placed.
\<close>

subsection \<open>The invariant\<close>

definition occupies :: "pk \<Rightarrow> date \<Rightarrow> booking \<Rightarrow> bool" where
  "occupies f d b \<longleftrightarrow> bk_staff b = Some f \<and> bk_date b = d \<and> active_booking b"

definition apart :: "booking \<Rightarrow> booking \<Rightarrow> bool" where
  "apart b c \<longleftrightarrow> bk_end b \<le> bk_start c \<or> bk_end c \<le> bk_start b"

text \<open>An appointment inside one day.\<close>

definition timed :: "booking \<Rightarrow> bool" where
  "timed b \<longleftrightarrow> 0 \<le> bk_start b \<and> bk_start b < bk_end b \<and> bk_end b < us_per_day"

definition services_ok :: "booking_db \<Rightarrow> bool" where
  "services_ok db \<longleftrightarrow> distinct (map sv_pk (bd_services db))
     \<and> (\<forall>s \<in> set (bd_services db). 0 < total_duration_minutes s)"

text \<open>\<open>X\<close> holds the keys of the bookings that were placed without a full check.\<close>

definition calendar_inv :: "pk set \<Rightarrow> booking_db \<Rightarrow> bool" where
  "calendar_inv X db \<longleftrightarrow> services_ok db \<and> hours_in_day db \<and> distinct (map bk_pk (bd_bookings db))
     \<and> (\<forall>b \<in> set (bd_bookings db). bk_pk b \<notin> X \<longrightarrow> timed b)
     \<and> (\<forall>b \<in> set (bd_bookings db). \<forall>c \<in> set (bd_bookings db). \<forall>f d. bk_pk b \<notin> X \<longrightarrow> bk_pk c \<notin> X \<longrightarrow>
          occupies f d b \<longrightarrow> occupies f d c \<longrightarrow> bk_pk b \<noteq> bk_pk c \<longrightarrow> apart b c)"

lemma calendar_invD:
  assumes "calendar_inv X db"
  shows "distinct (map bk_pk (bd_bookings db))" "services_ok db" "hours_in_day db"
    and "b \<in> set (bd_bookings db) \<Longrightarrow> bk_pk b \<notin> X \<Longrightarrow> timed b"
  using assms by (auto simp: calendar_inv_def)

lemma calendar_inv_mono: "calendar_inv X db \<Longrightarrow> X \<subseteq> Y \<Longrightarrow> calendar_inv Y db"
  unfolding calendar_inv_def by blast

text \<open>Only services, hours and bookings matter.\<close>

lemma calendar_inv_cong:
  assumes "bd_services db' = bd_services db" "bd_weekly db' = bd_weekly db"
    "bd_exceptions db' = bd_exceptions db" "bd_bookings db' = bd_bookings db"
  shows "calendar_inv X db' = calendar_inv X db"
  using assms by (simp add: calendar_inv_def services_ok_def hours_in_day_def)

lemma get_service_pos: "services_ok db \<Longrightarrow> get_service db k = Some s \<Longrightarrow> 0 < total_duration_minutes s"
  by (auto simp: get_service_def services_ok_def dest: row_get_Some)

subsection \<open>Writing a booking\<close>

text \<open>A row that occupies no more than the row it replaces.\<close>

lemma calendar_inv_frame:
  assumes "calendar_inv X db" "b \<in> set (bd_bookings db)" "bk_pk b' = bk_pk b"
    and "bk_staff b' = bk_staff b" "bk_date b' = bk_date b" "bk_start b' = bk_start b"
    and "bk_end b' = bk_end b" "active_booking b' \<Longrightarrow> active_booking b"
  shows "calendar_inv X (save_booking b' db)"
proof -
  have t: "bk_pk b \<notin> X \<Longrightarrow> timed b'" using assms by (auto simp: calendar_inv_def timed_def)
  have old: "occupies f d b" if "occupies f d b'" for f d using that assms(4,5,8) by (auto simp: occupies_def)
  have ap: "apart b' c = apart b c" "apart c b' = apart c b" for c using assms(6,7) by (auto simp: apart_def)
  show ?thesis
    using assms(1,2,3) t old ap unfolding calendar_inv_def
    by (auto simp: set_row_save services_ok_def hours_in_day_def) metis+
qed

text \<open>The overlap query finds every occupied interval that is not apart from the new one.\<close>

lemma free_slot_apart:
  assumes "\<not> is_slot_booked db f d t n ex" "0 \<le> t" "t + n * us_per_minute < us_per_day" "0 \<le> n"
    and "c \<in> set (bd_bookings db)" "occupies f d c" "ex \<noteq> Some (bk_pk c)"
  shows "t + n * us_per_minute \<le> bk_start c \<or> bk_end c \<le> t"
proof -
  have "0 \<le> n * us_per_minute" using assms(4) by (simp add: us_per_minute_def)
  then have "add_minutes_to_time t n = t + n * us_per_minute"
    using assms(2,3) by (simp add: add_minutes_to_time_def)
  then show ?thesis using assms by (auto simp: is_slot_booked_def occupies_def Let_def not_less)
qed

text \<open>A new row, or a row moved to another time or staff member, in a free slot.\<close>

lemma calendar_inv_create:
  assumes "calendar_inv X db" "bk_pk b \<notin> bk_pk ` set (bd_bookings db)" "timed b"
    and "\<And>f d c. occupies f d b \<Longrightarrow> c \<in> set (bd_bookings db) \<Longrightarrow> occupies f d c \<Longrightarrow> apart b c"
  shows "calendar_inv X (db\<lparr>bd_bookings := row_create b (bd_bookings db)\<rparr>)"
proof -
  have sym: "apart x y = apart y x" for x y by (auto simp: apart_def)
  show ?thesis using assms unfolding calendar_inv_def
    by (auto simp: services_ok_def hours_in_day_def sym)
qed

lemma calendar_inv_move:
  assumes "calendar_inv X db" "b \<in> set (bd_bookings db)" "bk_pk b' = bk_pk b" "timed b'"
    and "\<And>f d c. occupies f d b' \<Longrightarrow> c \<in> set (bd_bookings db) \<Longrightarrow> occupies f d c
      \<Longrightarrow> bk_pk c \<noteq> bk_pk b \<Longrightarrow> apart b' c"
  shows "calendar_inv (X - {bk_pk b}) (save_booking b' db)"
proof -
  have sym: "apart x y = apart y x" for x y by (auto simp: apart_def)
  have mem: "x = b' \<or> x \<in> set (bd_bookings db) \<and> bk_pk x \<noteq> bk_pk b"
    if "x \<in> set (row_save bk_pk b' (bd_bookings db))" for x
    using that assms(3) by (auto simp: set_row_save split: if_splits)
  have old: "apart x y" if "x \<in> set (bd_bookings db)" "y \<in> set (bd_bookings db)" "bk_pk x \<notin> X" "bk_pk y \<notin> X"
    "occupies f d x" "occupies f d y" "bk_pk x \<noteq> bk_pk y" for x y f d
    using that assms(1) unfolding calendar_inv_def by blast
  have "apart x y" if "x \<in> set (row_save bk_pk b' (bd_bookings db))" "y \<in> set (row_save bk_pk b' (bd_bookings db))"
    "bk_pk x \<notin> X - {bk_pk b}" "bk_pk y \<notin> X - {bk_pk b}"
    "occupies f d x" "occupies f d y" "bk_pk x \<noteq> bk_pk y" for x y f d
  proof -
    note h = that
    consider "x = b'" "y \<in> set (bd_bookings db)" "bk_pk y \<noteq> bk_pk b"
      | "y = b'" "x \<in> set (bd_bookings db)" "bk_pk x \<noteq> bk_pk b"
      | "x \<in> set (bd_bookings db)" "y \<in> set (bd_bookings db)" "bk_pk x \<notin> X" "bk_pk y \<notin> X"
      using mem [OF h(1)] mem [OF h(2)] h(3,4,7) by auto
    then show ?thesis using h(5,6,7) assms(5) old sym by cases blast+
  qed
  moreover have "timed x" if "x \<in> set (row_save bk_pk b' (bd_bookings db))" "bk_pk x \<notin> X - {bk_pk b}" for x
    using mem [OF that(1)] that(2) assms(1,4) unfolding calendar_inv_def by auto
  ultimately show ?thesis using assms(1) unfolding calendar_inv_def
    by (auto simp: services_ok_def hours_in_day_def)
qed

lemma slot_timed:
  assumes "0 < n" "0 \<le> bk_start b" "bk_start b + n * us_per_minute < us_per_day"
    and "bk_end b = add_minutes_to_time (bk_start b) n"
  shows "timed b"
proof -
  have "0 < n * us_per_minute" using assms(1) by (simp add: us_per_minute_def)
  then show ?thesis using assms unfolding timed_def by (auto simp: add_minutes_to_time_def)
qed

text \<open>Rows that are added under unchecked keys.\<close>

lemma calendar_inv_extend:
  assumes "calendar_inv X db" "bd_services db' = bd_services db" "bd_weekly db' = bd_weekly db"
    "bd_exceptions db' = bd_exceptions db" "distinct (map bk_pk (bd_bookings db'))"
    and "set (bd_bookings db) \<subseteq> set (bd_bookings db')"
    and "bk_pk ` set (bd_bookings db') \<subseteq> bk_pk ` set (bd_bookings db) \<union> Y" and "X \<subseteq> Y"
  shows "calendar_inv Y db'"
proof -
  have old: "x \<in> set (bd_bookings db) \<and> bk_pk x \<notin> X" if x: "x \<in> set (bd_bookings db')" "bk_pk x \<notin> Y" for x
  proof -
    have "bk_pk x \<in> bk_pk ` set (bd_bookings db)" using x assms(7) by blast
    then obtain y where y: "y \<in> set (bd_bookings db)" "bk_pk y = bk_pk x" by auto
    then have "y = x" using assms(5,6) x(1) by (metis distinct_map inj_onD subsetD)
    then show ?thesis using y(1) x(2) assms(8) by blast
  qed
  have "services_ok db' \<and> hours_in_day db'"
    using assms(1-4) by (simp add: calendar_inv_def services_ok_def hours_in_day_def)
  moreover have "timed x" if "x \<in> set (bd_bookings db')" "bk_pk x \<notin> Y" for x
    using old [OF that] assms(1) unfolding calendar_inv_def by blast
  moreover have "apart x y" if "x \<in> set (bd_bookings db')" "y \<in> set (bd_bookings db')" "bk_pk x \<notin> Y" "bk_pk y \<notin> Y"
    "occupies f d x" "occupies f d y" "bk_pk x \<noteq> bk_pk y" for x y f d
    using old [OF that(1,3)] old [OF that(2,4)] that(5-7) assms(1) unfolding calendar_inv_def by blast
  ultimately show ?thesis using assms(5) unfolding calendar_inv_def by blast
qed

end
