(* ===== verification/Booking_Series.thy ===== *)
theory Booking_Series
  imports Booking_Invariant
begin

text \<open>
  Repeating series: the dates they produce, that a series with a maximum number of bookings comes
  to its end, and that the task does not look at the calendar.
\<close>

subsection \<open>The next date\<close>

lemma monthly_date:
  assumes "1 \<le> year_of n" "year_of n < 9999"
    and "p = (if month_of n + 1 > 12 then (year_of n + 1, 1) else (year_of n, month_of n + 1))"
  shows "\<exists>d. mk_date (fst p) (snd p) (min (day_of n) (days_in_month (fst p) (snd p))) = Some d \<and> n < d \<and> d \<le> n + 31"
proof -
  let ?y = "year_of n" and ?m = "month_of n" and ?d = "day_of n"
  define e where "e = min ?d (days_in_month (fst p) (snd p))"
  note r = month_of_range [of n] day_of_range [of n] days_in_month_pos [of ?y ?m] days_in_month_pos [of "fst p" "snd p"]
  have e: "1 \<le> e" "e \<le> ?d" "e \<le> days_in_month (fst p) (snd p)" using r by (auto simp: e_def)
  have v: "valid_ymd (fst p) (snd p) e" using assms e r by (auto simp: valid_ymd_def split: if_splits)
  have n: "n = days_before_year ?y + days_before_month ?y ?m + ?d"
    using ymd_of_attributes [of n] by (simp add: ymd_def)
  have "days_before_year (fst p) + days_before_month (fst p) (snd p)
      = days_before_year ?y + days_before_month ?y ?m + days_in_month ?y ?m"
  proof (cases "?m = 12")
    case True
    then show ?thesis using assms(3) days_before_year_Suc [of ?y]
      by (simp add: days_before_month_def days_in_month_def split: if_splits)
  next
    case False
    then show ?thesis using assms(3) r days_before_month_Suc [of ?m ?y] by auto
  qed
  then have "ymd (fst p) (snd p) e = n - ?d + days_in_month ?y ?m + e" using n by (simp add: ymd_def)
  then show ?thesis using v e r by (auto simp: mk_date_def simp flip: e_def)
qed

lemma next_date:
  assumes "1 \<le> year_of (rb_next r)" "year_of (rb_next r) < 9999"
  shows "\<exists>d. calculate_next_date r = Some d \<and> rb_next r < d \<and> d \<le> rb_next r + 31"
proof (cases "rb_frequency r")
  case Monthly
  then show ?thesis using monthly_date [OF assms refl]
    by (auto simp: calculate_next_date_def Let_def split: if_splits prod.splits)
qed (auto simp: calculate_next_date_def)

text \<open>A weekly series keeps its weekday.\<close>

lemma weekday_week: "weekday (n + 7) = weekday n"
proof -
  have "(n + 6 + 7) mod 7 = (n + 6) mod 7" by (rule mod_add_self2)
  moreover have "n + 7 + 6 = n + 6 + 7" by simp
  ultimately show ?thesis unfolding weekday_def by metis
qed

lemma same_weekday:
  "rb_frequency r \<noteq> Monthly \<Longrightarrow> calculate_next_date r = Some d \<Longrightarrow> weekday d = weekday (rb_next r)"
  using weekday_week [of "rb_next r"] weekday_week [of "rb_next r + 7"]
  by (cases "rb_frequency r") (auto simp: calculate_next_date_def add.commute)

subsection \<open>One run of the task\<close>

lemma series_keys [simp]:
  "rb_pk (advance_series b d r) = rb_pk r" "bk_pk (series_booking db ref utc s r) = next_pk bk_pk (bd_bookings db)"
  by (simp_all add: advance_series_def Let_def series_booking_def blank_booking_def)

lemma series_round_frame:
  "bd_services (create_from_series refs today utc q db) = bd_services db"
  "set (bd_bookings db) \<subseteq> set (bd_bookings (create_from_series refs today utc q db))"
  "rb_pk q \<noteq> k \<Longrightarrow> row_get rb_pk k (bd_series (create_from_series refs today utc q db)) = row_get rb_pk k (bd_series db)"
  "map rb_pk (bd_series (create_from_series refs today utc q db)) = map rb_pk (bd_series db)"
  by (auto simp: create_from_series_def Let_def row_get_save split: option.splits)

lemma series_rounds_frame:
  "bd_services (fold (create_from_series refs today utc) qs db) = bd_services db"
  "set (bd_bookings db) \<subseteq> set (bd_bookings (fold (create_from_series refs today utc) qs db))"
  "k \<notin> rb_pk ` set qs \<Longrightarrow>
     row_get rb_pk k (bd_series (fold (create_from_series refs today utc) qs db)) = row_get rb_pk k (bd_series db)"
  "map rb_pk (bd_series (fold (create_from_series refs today utc) qs db)) = map rb_pk (bd_series db)"
proof -
  show "bd_services (fold (create_from_series refs today utc) qs db) = bd_services db"
    by (induction qs arbitrary: db) (simp_all add: series_round_frame)
  show "set (bd_bookings db) \<subseteq> set (bd_bookings (fold (create_from_series refs today utc) qs db))"
    by (induction qs arbitrary: db) (use series_round_frame(2) in \<open>auto, blast\<close>)
  show "k \<notin> rb_pk ` set qs \<Longrightarrow>
     row_get rb_pk k (bd_series (fold (create_from_series refs today utc) qs db)) = row_get rb_pk k (bd_series db)"
    by (induction qs arbitrary: db) (auto simp: series_round_frame)
  show "map rb_pk (bd_series (fold (create_from_series refs today utc) qs db)) = map rb_pk (bd_series db)"
    by (induction qs arbitrary: db) (simp_all add: series_round_frame)
qed

text \<open>The bookings of a series: the note names the series, the rest is copied from it.\<close>

definition bookings_of_series :: "recurring_booking \<Rightarrow> booking_db \<Rightarrow> booking list" where
  "bookings_of_series r db = filter (\<lambda>b. bk_client_notes b = ''Auto-created from recurring booking #'' @ nat_text (rb_pk r)
     \<and> bk_client b = rb_client r \<and> bk_service b = rb_service r \<and> bk_staff b = rb_staff r
     \<and> bk_start b = rb_time r) (bd_bookings db)"

lemma bookings_of_series_advance [simp]: "bookings_of_series (advance_series b d r) db = bookings_of_series r db"
  by (simp add: bookings_of_series_def advance_series_def Let_def)

lemma bookings_of_series_round:
  "rb_pk q \<noteq> rb_pk r \<Longrightarrow> bookings_of_series r (create_from_series refs today utc q db) = bookings_of_series r db"
  "should_create_booking today r \<Longrightarrow> get_service db (rb_service r) \<noteq> None \<Longrightarrow>
     length (bookings_of_series r (create_from_series refs today utc r db)) = Suc (length (bookings_of_series r db))"
  by (auto simp: create_from_series_def Let_def bookings_of_series_def row_create_def series_booking_def
      blank_booking_def nat_text_inject get_service_def dest: row_get_Some split: option.splits)

lemma bookings_of_series_rounds:
  "rb_pk r \<notin> rb_pk ` set qs \<Longrightarrow>
     bookings_of_series r (fold (create_from_series refs today utc) qs db) = bookings_of_series r db"
  by (induction qs arbitrary: db) (auto simp: bookings_of_series_round(1))

text \<open>The run split at the series of interest.\<close>

lemma run_at_series:
  assumes "distinct (map rb_pk (bd_series db))" "r \<in> set (bd_series db)" "should_create_booking (date_of utc) r"
  obtains pre post db1 where
    "create_recurring_bookings refs utc db
       = fold (create_from_series refs (date_of utc) utc) post (create_from_series refs (date_of utc) utc r db1)"
    "db1 = fold (create_from_series refs (date_of utc) utc) pre db"
    "rb_pk r \<notin> rb_pk ` set pre" "rb_pk r \<notin> rb_pk ` set post"
proof -
  define due where "due = filter (\<lambda>q. rb_status q = Series_active \<and> rb_next q \<le> date_of utc) (bd_series db)"
  have "r \<in> set due" using assms(2,3) by (auto simp: due_def should_create_booking_def split: if_splits)
  then obtain pre post where d: "due = pre @ r # post" by (meson split_list)
  have "distinct (map rb_pk due)" using assms(1) by (simp add: due_def distinct_map_filter)
  then have "rb_pk r \<notin> rb_pk ` set pre" "rb_pk r \<notin> rb_pk ` set post" by (auto simp: d)
  moreover have "create_recurring_bookings refs utc db
       = fold (create_from_series refs (date_of utc) utc) post
           (create_from_series refs (date_of utc) utc r (fold (create_from_series refs (date_of utc) utc) pre db))"
    by (simp add: create_recurring_bookings_def Let_def d flip: due_def)
  ultimately show ?thesis using that by blast
qed

lemma run_advances:
  assumes "distinct (map rb_pk (bd_series db))" "row_get rb_pk k (bd_series db) = Some r"
    and "should_create_booking (date_of utc) r" "get_service db (rb_service r) \<noteq> None"
    and "calculate_next_date r = Some d"
  shows "\<exists>b. row_get rb_pk k (bd_series (create_recurring_bookings refs utc db)) = Some (advance_series b d r)"
    and "length (bookings_of_series r (create_recurring_bookings refs utc db)) = Suc (length (bookings_of_series r db))"
proof -
  have r: "r \<in> set (bd_series db)" "rb_pk r = k" using row_get_Some [OF assms(2)] by auto
  obtain pre post db1 where p: "create_recurring_bookings refs utc db
       = fold (create_from_series refs (date_of utc) utc) post (create_from_series refs (date_of utc) utc r db1)"
    "db1 = fold (create_from_series refs (date_of utc) utc) pre db"
    "rb_pk r \<notin> rb_pk ` set pre" "rb_pk r \<notin> rb_pk ` set post"
    by (rule run_at_series [OF assms(1) r(1) assms(3)])
  have k: "k \<notin> rb_pk ` set pre" "k \<notin> rb_pk ` set post" using p(3,4) r(2) by simp_all
  have 1: "row_get rb_pk k (bd_series db1) = Some r" "bd_services db1 = bd_services db"
    unfolding p(2) by (rule trans [OF series_rounds_frame(3) [OF k(1)] assms(2)], rule series_rounds_frame(1))
  obtain s where s: "get_service db1 (rb_service r) = Some s" using assms(4) 1(2) by (auto simp: get_service_def)
  have "k \<in> rb_pk ` set (bd_series db1)" using row_get_Some [OF 1(1)] by auto
  then have "row_get rb_pk k (bd_series (create_from_series refs (date_of utc) utc r db1))
      = Some (advance_series (next_pk bk_pk (bd_bookings db1)) d r)"
    using assms(3,5) s r(2)
    by (simp add: create_from_series_def Let_def row_get_save)
  then show "\<exists>b. row_get rb_pk k (bd_series (create_recurring_bookings refs utc db)) = Some (advance_series b d r)"
    unfolding p(1) series_rounds_frame(3) [OF k(2)] by blast
  have "bookings_of_series r db1 = bookings_of_series r db" unfolding p(2) by (rule bookings_of_series_rounds [OF p(3)])
  then show "length (bookings_of_series r (create_recurring_bookings refs utc db)) = Suc (length (bookings_of_series r db))"
    using bookings_of_series_round(2) [OF assms(3), of db1] s
    unfolding p(1) bookings_of_series_rounds [OF p(4)] by simp
qed

lemma run_frame:
  "bd_services (create_recurring_bookings refs utc db) = bd_services db"
  "map rb_pk (bd_series (create_recurring_bookings refs utc db)) = map rb_pk (bd_series db)"
  by (simp_all add: create_recurring_bookings_def Let_def series_rounds_frame)

subsection \<open>Properties\<close>

text \<open>C14: A series with a maximum number of bookings and no end date comes to its end: after as many
  runs of the task as bookings are missing, with nothing else in between and each run on a day late
  enough (31 days per missing booking after the next date), the series is completed, its counter
  stands at the maximum, and the table holds exactly as many more bookings of the series (with its
  note, customer, service, staff member and time) as were missing.  The service of the series
  exists and its dates stay before the year 9999.\<close>

theorem series_ends:
  assumes "distinct (map rb_pk (bd_series db))" and "row_get rb_pk k (bd_series db) = Some r"
    and "rb_status r = Series_active" and "rb_until r = None" and "rb_max r = Some n"
    and "0 \<le> rb_count r" and "rb_count r + int (length runs) = n" and "runs \<noteq> []"
    and "get_service db (rb_service r) \<noteq> None"
    and "1 \<le> year_of (rb_next r)" and "year_of (rb_next r + 31 * int (length runs)) < 9999"
    and "list_all (\<lambda>(refs, utc). rb_next r + 31 * int (length runs) \<le> date_of utc) runs"
  shows "\<exists>r'. row_get rb_pk k (bd_series (fold (\<lambda>(refs, utc). create_recurring_bookings refs utc) runs db)) = Some r'
    \<and> rb_status r' = Series_completed \<and> rb_count r' = n
    \<and> int (length (bookings_of_series r (fold (\<lambda>(refs, utc). create_recurring_bookings refs utc) runs db)))
        = int (length (bookings_of_series r db)) + (n - rb_count r)"
  using assms
proof (induction runs arbitrary: db r)
  case Nil
  then show ?case by simp
next
  case (Cons run runs)
  obtain refs utc where u: "run = (refs, utc)" by (cases run)
  have y: "year_of (rb_next r) < 9999"
    using year_of_mono [of "rb_next r" "rb_next r + 31 * int (length (run # runs))"] Cons.prems(11) by simp
  obtain d where d: "calculate_next_date r = Some d" "rb_next r < d" "d \<le> rb_next r + 31"
    using next_date [OF Cons.prems(10) y] by blast
  have "rb_next r \<le> date_of utc" using Cons.prems(12) by (simp add: u)
  then have c: "should_create_booking (date_of utc) r"
    using Cons.prems(3-7) by (auto simp: should_create_booking_def)
  define db1 where "db1 = create_recurring_bookings refs utc db"
  obtain b where b: "row_get rb_pk k (bd_series db1) = Some (advance_series b d r)"
    unfolding db1_def using run_advances(1) [OF Cons.prems(1,2) c Cons.prems(9) d(1)] by blast
  have one: "length (bookings_of_series r db1) = Suc (length (bookings_of_series r db))"
    unfolding db1_def by (rule run_advances(2) [OF Cons.prems(1,2) c Cons.prems(9) d(1)])
  define r1 where "r1 = advance_series b d r"
  have r1: "rb_until r1 = None" "rb_max r1 = Some n" "rb_count r1 = rb_count r + 1" "rb_next r1 = d"
    "rb_service r1 = rb_service r"
    "rb_status r1 = (if rb_count r + 1 \<ge> n then Series_completed else Series_active)"
    using Cons.prems(3-7) by (auto simp: r1_def advance_series_def Let_def)
  show ?case
  proof (cases "runs = []")
    case True
    then have "rb_count r + 1 = n" using Cons.prems(7) by simp
    then show ?thesis using b True r1 one by (simp add: u flip: db1_def r1_def)
  next
    case False
    then have "1 \<le> int (length runs)" by (cases runs) auto
    then have n: "rb_count r + 1 < n" using Cons.prems(7) by simp
    have later: "d + 31 * int (length runs) \<le> rb_next r + 31 * int (length (run # runs))" using d by simp
    have "\<exists>r'. row_get rb_pk k (bd_series (fold (\<lambda>(refs, utc). create_recurring_bookings refs utc) runs db1)) = Some r'
      \<and> rb_status r' = Series_completed \<and> rb_count r' = n
      \<and> int (length (bookings_of_series r1 (fold (\<lambda>(refs, utc). create_recurring_bookings refs utc) runs db1)))
        = int (length (bookings_of_series r1 db1)) + (n - rb_count r1)"
    proof (rule Cons.IH [OF _ b [folded r1_def]])
      show "distinct (map rb_pk (bd_series db1))" using Cons.prems(1) by (simp add: db1_def run_frame)
      show "get_service db1 (rb_service r1) \<noteq> None"
        using Cons.prems(9) by (simp add: db1_def run_frame get_service_def r1)
      show "1 \<le> year_of (rb_next r1)" using year_of_mono [of "rb_next r" d] d Cons.prems(10) r1 by simp
      show "year_of (rb_next r1 + 31 * int (length runs)) < 9999"
        using year_of_mono [OF later] Cons.prems(11) r1 by simp
      show "list_all (\<lambda>(refs, utc). rb_next r1 + 31 * int (length runs) \<le> date_of utc) runs"
        using Cons.prems(12) later r1 by (fastforce simp: list_all_iff)
    qed (use r1 n False Cons.prems in auto)
    moreover have "bookings_of_series r1 x = bookings_of_series r x" for x by (simp add: r1_def)
    ultimately show ?thesis using one r1(3) by (simp add: u flip: db1_def)
  qed
qed

text \<open>The task does not look at the calendar: when a series is due for a staff member at a time at
  which the staff member already has an active booking, the run leaves two active overlapping
  bookings of that staff member on that date.\<close>

theorem series_ignores_calendar:
  assumes "distinct (map rb_pk (bd_series db))" and "r \<in> set (bd_series db)"
    and "should_create_booking (date_of utc) r" and "rb_staff r = Some f" and "get_service db (rb_service r) = Some s"
    and "0 \<le> rb_time r" and "rb_time r + sv_duration s * us_per_minute < us_per_day" and "0 \<le> sv_duration s"
    and "c \<in> set (bd_bookings db)" and "occupies f (rb_next r) c"
    and "bk_start c < rb_time r + sv_duration s * us_per_minute" and "rb_time r < bk_end c"
  shows "\<exists>b \<in> set (bd_bookings (create_recurring_bookings refs utc db)).
    c \<in> set (bd_bookings (create_recurring_bookings refs utc db)) \<and> bk_pk b \<noteq> bk_pk c
    \<and> occupies f (rb_next r) b \<and> occupies f (rb_next r) c \<and> bk_start b < bk_end c \<and> bk_start c < bk_end b"
proof -
  obtain pre post db1 where p: "create_recurring_bookings refs utc db
       = fold (create_from_series refs (date_of utc) utc) post (create_from_series refs (date_of utc) utc r db1)"
    "db1 = fold (create_from_series refs (date_of utc) utc) pre db"
    by (rule run_at_series [OF assms(1,2,3)])
  have c1: "c \<in> set (bd_bookings db1)" unfolding p(2) using series_rounds_frame(2) assms(9) by blast
  have s1: "get_service db1 (rb_service r) = Some s"
    using assms(5) by (simp add: p(2) get_service_def series_rounds_frame(1))
  define b where "b = series_booking db1 (refs (rb_pk r)) utc s r"
  have "0 \<le> sv_duration s * us_per_minute" using assms(8) by (simp add: us_per_minute_def)
  then have b: "occupies f (rb_next r) b" "bk_start b = rb_time r" "bk_pk b = next_pk bk_pk (bd_bookings db1)"
    "bk_end b = rb_time r + sv_duration s * us_per_minute"
    using assms(4,6,7) by (simp_all add: b_def series_booking_def blank_booking_def occupies_def
        active_booking_statuses_def add_minutes_to_time_def)
  have ne: "bk_pk b \<noteq> bk_pk c" using next_pk_fresh [OF c1, of bk_pk] b(3) by simp
  have "b \<in> set (bd_bookings (create_from_series refs (date_of utc) utc r db1))"
    using assms(3) s1 by (auto simp: create_from_series_def Let_def simp flip: b_def split: option.splits)
  then have "b \<in> set (bd_bookings (create_recurring_bookings refs utc db))"
    unfolding p(1) using series_rounds_frame(2) by blast
  moreover have "c \<in> set (bd_bookings (create_recurring_bookings refs utc db))"
    unfolding p(1) using series_rounds_frame(2) series_round_frame(2) c1 by blast
  ultimately show ?thesis using ne b(1,2,4) assms(10,11,12) by (intro bexI [of _ b]) auto
qed

end
