(* ===== verification/Booking_Ledger.thy ===== *)
theory Booking_Ledger
  imports Booking_Payment
begin

text \<open>
  What the payment columns of a booking mean.  The specification is a ledger with the money the
  bank holds for the booking and the money taken at the desk; every operation on the payment
  columns refines a step of that ledger, as long as the amounts the bank reports are the ones it
  captured.
\<close>

subsection \<open>The specification\<close>

record ledger =
  lg_online :: decimal
  lg_desk :: decimal

inductive ledger_step :: "ledger \<Rightarrow> ledger \<Rightarrow> bool" where
  capture: "lg_online l = 0 \<Longrightarrow> 0 < x \<Longrightarrow> ledger_step l (l\<lparr>lg_online := x\<rparr>)"
| refund: "0 < x \<Longrightarrow> x \<le> lg_online l \<Longrightarrow> ledger_step l (l\<lparr>lg_online := lg_online l - x\<rparr>)"
| desk: "0 < x \<Longrightarrow> ledger_step l (l\<lparr>lg_desk := lg_desk l + x\<rparr>)"

definition ledger_of :: "booking \<Rightarrow> ledger" where
  "ledger_of b = \<lparr>lg_online = bk_paid b - manual_paid_amount b, lg_desk = manual_paid_amount b\<rparr>"

subsection \<open>The operations\<close>

inductive money_step :: "booking \<Rightarrow> booking \<Rightarrow> bool" where
  callback: "settle_payment api st utc b = Some (b', state) \<Longrightarrow> money_step b b'"
| refunded: "initiate_refund api st b = (b', out) \<Longrightarrow> money_step b b'"
| at_desk: "record_payment b p = Inr b' \<Longrightarrow> money_step b b'"
| price: "update_total b t = Inr b' \<Longrightarrow> money_step b b'"
| flagged: "flag_manual_refund b st = (b', due) \<Longrightarrow> money_step b b'"
| ordered: "create_booking_payment api st b = Some b' \<Longrightarrow> money_step b b'"
| confirmed: "money_step b (confirm_booking utc b)"
| completed: "money_step b (complete_booking utc b)"
| arrived: "money_step b (check_in_booking b)"
| missed: "money_step b (mark_no_show b)"
| cancelled: "money_step b (cancel_booking utc by reason b)"

definition pay_inv :: "booking \<Rightarrow> bool" where
  "pay_inv b \<longleftrightarrow> 0 \<le> manual_paid_amount b \<and> manual_paid_amount b \<le> bk_paid b \<and> 0 \<le> bk_total b
     \<and> (bk_payment_status b \<in> {Pay_pending, Pay_failed} \<longrightarrow> bk_paid b = 0)"

lemma lifecycle_frame [simp]:
  "bk_paid (confirm_booking utc b) = bk_paid b" "bk_paid (complete_booking utc b) = bk_paid b"
  "bk_paid (check_in_booking b) = bk_paid b" "bk_paid (mark_no_show b) = bk_paid b"
  "bk_paid (cancel_booking utc by r b) = bk_paid b"
  "bk_manual (confirm_booking utc b) = bk_manual b" "bk_manual (complete_booking utc b) = bk_manual b"
  "bk_manual (check_in_booking b) = bk_manual b" "bk_manual (mark_no_show b) = bk_manual b"
  "bk_manual (cancel_booking utc by r b) = bk_manual b"
  "bk_total (confirm_booking utc b) = bk_total b" "bk_total (complete_booking utc b) = bk_total b"
  "bk_total (check_in_booking b) = bk_total b" "bk_total (mark_no_show b) = bk_total b"
  "bk_total (cancel_booking utc by r b) = bk_total b"
  "bk_payment_status (confirm_booking utc b) = bk_payment_status b"
  "bk_payment_status (complete_booking utc b) = bk_payment_status b"
  "bk_payment_status (check_in_booking b) = bk_payment_status b"
  "bk_payment_status (mark_no_show b) = bk_payment_status b"
  "bk_payment_status (cancel_booking utc by r b) = bk_payment_status b"
  by (simp_all add: confirm_booking_def complete_booking_def check_in_booking_def mark_no_show_def
      cancel_booking_def)

lemma manual_paid_cong: "bk_manual b = bk_manual b' \<Longrightarrow> manual_paid_amount b = manual_paid_amount b'"
  by (simp add: manual_paid_amount_def)

lemma unmoved:
  assumes "bk_paid b' = bk_paid b" "bk_manual b' = bk_manual b"
  shows "ledger_of b' = ledger_of b"
    and "pay_inv b \<Longrightarrow> 0 \<le> bk_total b' \<Longrightarrow> (bk_payment_status b' \<in> {Pay_pending, Pay_failed} \<longrightarrow> bk_paid b = 0)
      \<Longrightarrow> pay_inv b'"
  using assms manual_paid_cong [OF assms(2)] by (auto simp: ledger_of_def pay_inv_def)

lemma refund_policy_bounds:
  assumes "0 \<le> a"
  shows "0 \<le> apply_refund_policy a st \<and> apply_refund_policy a st \<le> a"
proof -
  have half: "0 \<le> round_half_even 2 (a * c) \<and> round_half_even 2 (a * c) \<le> a"
    if c: "0 \<le> c" "c \<le> 1/2" for c :: rat
  proof (cases "a * c * 10 ^ 2 < 1/2")
    case True
    then show ?thesis using round_half_even_small [of "a * c" 2] assms c by simp
  next
    case False
    have "round_half_even 2 (a * c) \<le> a * c + 1 / 200"
      using order_trans [OF abs_ge_self round_half_even_error [of 2 "a * c"]] by simp
    moreover have "a * c \<le> a * (1/2)" using assms c by (intro mult_left_mono)
    moreover have "1 / 200 \<le> a * c" using False by simp
    ultimately show ?thesis using round_half_even_nonneg [of "a * c" 2] assms c by simp
  qed
  show ?thesis
    using half [of "1/2"] half [of "1/4"] assms
    by (cases "bs_refund_policy st") (auto simp: apply_refund_policy_def)
qed

lemma online_paid: "pay_inv b \<Longrightarrow> online_paid_amount b = bk_paid b - manual_paid_amount b"
  by (simp add: pay_inv_def online_paid_amount_def)

lemma refund_request_bounds:
  "pay_inv b \<Longrightarrow> refund_to_request st b = Some r \<Longrightarrow> 0 < r \<and> r \<le> bk_paid b - manual_paid_amount b"
  using refund_policy_bounds [of "online_paid_amount b" st] online_paid [of b]
  by (auto simp: refund_to_request_def calculate_refund_amount_def split: if_splits)

text \<open>Money that arrives through the callback: a capture, and its refund when the booking is cancelled.\<close>

lemma payment_received_ledger:
  assumes "pay_inv b" "bk_paid b = 0"
  shows "pay_inv (payment_received api st utc amount b)
    \<and> ledger_step\<^sup>*\<^sup>* (ledger_of b) (ledger_of (payment_received api st utc amount b))"
proof -
  define b' where "b' = payment_received api st utc amount b"
  define paid where "paid = (case amount of Some a \<Rightarrow> if a \<le> 0 then charge_amount b else a | None \<Rightarrow> charge_amount b)"
  have m: "manual_paid_amount b = 0" using assms by (simp add: pay_inv_def)
  have pos: "0 \<le> paid" using assms(1) by (auto simp: paid_def charge_amount_def pay_inv_def split: option.splits)
  have frame: "bk_manual b' = bk_manual b" "bk_total b' = bk_total b"
    "bk_payment_status b' \<notin> {Pay_pending, Pay_failed}" "bk_paid b' = paid \<or> bk_paid b' = 0"
    by (auto simp: b'_def payment_received_def Let_def paid_def confirm_booking_def split: option.splits)
  have m': "manual_paid_amount b' = 0" using manual_paid_cong [OF frame(1)] m by simp
  have "pay_inv b'" using frame assms(1) m' pos by (auto simp: pay_inv_def)
  moreover have "ledger_step\<^sup>*\<^sup>* (ledger_of b) (ledger_of b')"
  proof (cases "bk_paid b' = 0")
    case True
    then show ?thesis using assms(2) m m' by (simp add: ledger_of_def)
  next
    case False
    then have p: "bk_paid b' = paid" "0 < paid" using frame(4) pos by auto
    have "ledger_of b' = (ledger_of b)\<lparr>lg_online := paid\<rparr>" by (simp add: ledger_of_def m m' p)
    then show ?thesis using capture [of "ledger_of b" paid] p assms(2) m by (auto simp: ledger_of_def)
  qed
  ultimately show ?thesis by (simp add: b'_def)
qed

lemma settle_ledger:
  assumes "pay_inv b" "settle_payment api st utc b = Some (b', state)"
  shows "pay_inv b' \<and> ledger_step\<^sup>*\<^sup>* (ledger_of b) (ledger_of b')"
proof (cases "bk_payment_status b \<in> {Deposit_paid, Fully_paid, Refunded}")
  case True
  then show ?thesis using assms by (simp add: settle_payment_def)
next
  case False
  then have "bk_payment_status b \<in> {Pay_pending, Pay_failed}" by (cases "bk_payment_status b") auto
  then have zero: "bk_paid b = 0" using assms(1) by (simp add: pay_inv_def)
  let ?failed = "b\<lparr>bk_payment_status := Pay_failed\<rparr>"
  from assms(2) False consider
      (paid) amount where "b' = payment_received api st utc amount b"
    | (failed) "b' = ?failed \<or> b' = cancel_booking utc ''admin'' ''Card payment was declined'' ?failed"
    | (same) "b' = b"
    by (auto simp: settle_payment_def Let_def split: if_splits option.splits)
  then show ?thesis
  proof cases
    case paid
    then show ?thesis using payment_received_ledger [OF assms(1) zero] by simp
  next
    case failed
    then have "bk_paid b' = bk_paid b" "bk_manual b' = bk_manual b" "bk_total b' = bk_total b" by auto
    then show ?thesis using unmoved [of b' b] assms(1) zero by (auto simp: pay_inv_def)
  next
    case same
    then show ?thesis using assms(1) by simp
  qed
qed

lemma initiate_refund_ledger:
  assumes "pay_inv b" "initiate_refund api st b = (b', out)"
  shows "pay_inv b' \<and> ledger_step\<^sup>*\<^sup>* (ledger_of b) (ledger_of b')"
proof (cases "refund_to_request st b")
  case None
  then show ?thesis using assms by (simp add: initiate_refund_def)
next
  case (Some r)
  note r = refund_request_bounds [OF assms(1) Some]
  show ?thesis
  proof (cases "bk_payment_status b' = Refunded \<and> bk_paid b' = max 0 (bk_paid b - r)")
    case True
    then have f: "bk_paid b' = bk_paid b - r" "bk_manual b' = bk_manual b" "bk_total b' = bk_total b"
      using assms r Some by (auto simp: initiate_refund_def pay_inv_def split: if_splits)
    have m: "manual_paid_amount b' = manual_paid_amount b" by (rule manual_paid_cong) (rule f)
    have "ledger_of b' = (ledger_of b)\<lparr>lg_online := lg_online (ledger_of b) - r\<rparr>"
      by (simp add: ledger_of_def f m)
    moreover have "ledger_step (ledger_of b) \<dots>" by (rule refund) (use r in \<open>simp_all add: ledger_of_def\<close>)
    moreover have "pay_inv b'" using r f m assms(1) True by (simp add: pay_inv_def)
    ultimately show ?thesis by auto
  next
    case False
    then have "bk_paid b' = bk_paid b" "bk_manual b' = bk_manual b" "bk_total b' = bk_total b"
      "bk_payment_status b' = bk_payment_status b"
      using assms(2) Some by (auto simp: initiate_refund_def split: if_splits)
    then show ?thesis using unmoved [of b' b] assms(1) by (auto simp: pay_inv_def)
  qed
qed

lemma record_payment_ledger:
  assumes "pay_inv b" "record_payment b p = Inr b'"
  shows "pay_inv b' \<and> ledger_step\<^sup>*\<^sup>* (ledger_of b) (ledger_of b')"
proof -
  have p: "0 < mp_amount p" "bk_paid b' = bk_paid b + mp_amount p" "bk_manual b' = bk_manual b @ [p]"
    "bk_payment_status b' \<in> {Fully_paid, Deposit_paid}" "bk_total b' = bk_total b"
    using assms(2) by (auto simp: record_payment_def Let_def split: if_splits)
  have "manual_paid_amount b' = manual_paid_amount b + mp_amount p" by (simp add: manual_paid_amount_def p)
  moreover from this have "ledger_of b' = (ledger_of b)\<lparr>lg_desk := lg_desk (ledger_of b) + mp_amount p\<rparr>"
    by (simp add: ledger_of_def p)
  moreover have "ledger_step (ledger_of b) ((ledger_of b)\<lparr>lg_desk := lg_desk (ledger_of b) + mp_amount p\<rparr>)"
    by (rule desk) (rule p)
  ultimately show ?thesis using p assms(1) by (auto simp: pay_inv_def)
qed

lemma lifecycle_ledger:
  assumes "pay_inv b"
    and "b' \<in> {confirm_booking utc b, complete_booking utc b, check_in_booking b, mark_no_show b, cancel_booking utc by reason b}"
  shows "pay_inv b' \<and> ledger_step\<^sup>*\<^sup>* (ledger_of b) (ledger_of b')"
proof -
  have "bk_paid b' = bk_paid b" "bk_manual b' = bk_manual b" "bk_total b' = bk_total b"
    "bk_payment_status b' = bk_payment_status b" using assms(2) by auto
  then show ?thesis using unmoved [of b' b] assms(1) by (auto simp: pay_inv_def)
qed

lemma money_step_ledger:
  assumes "pay_inv b" "money_step b b'"
  shows "pay_inv b' \<and> ledger_step\<^sup>*\<^sup>* (ledger_of b) (ledger_of b')"
  using assms(2,1)
proof (induction rule: money_step.induct)
  case (price b t b')
  then have "bk_paid b' = bk_paid b" "bk_manual b' = bk_manual b" "0 \<le> bk_total b'"
    "bk_payment_status b' \<in> {Pay_pending, Pay_failed} \<longrightarrow> bk_paid b = 0"
    by (auto simp: update_total_def Let_def pay_inv_def split: if_splits)
  then show ?case using unmoved [of b' b] price.prems by auto
next
  case (flagged b st b' due)
  then have "bk_paid b' = bk_paid b" "bk_manual b' = bk_manual b" "bk_total b' = bk_total b"
    "bk_payment_status b' = bk_payment_status b"
    by (auto simp: flag_manual_refund_def Let_def split: if_splits option.splits)
  then show ?case using unmoved [of b' b] flagged.prems by (auto simp: pay_inv_def)
next
  case (ordered api st b b')
  then have "bk_paid b' = bk_paid b" "bk_manual b' = bk_manual b" "bk_total b' = bk_total b"
    "bk_payment_status b' = bk_payment_status b"
    by (auto simp: create_booking_payment_def split: if_splits option.splits)
  then show ?case using unmoved [of b' b] ordered.prems by (auto simp: pay_inv_def)
qed (use settle_ledger initiate_refund_ledger record_payment_ledger lifecycle_ledger in blast)+

interpretation money: simulation money_step ledger_step pay_inv ledger_of
  by unfold_locales (auto dest: money_step_ledger)

lemma ledger_nonneg: "ledger_step\<^sup>*\<^sup>* l l' \<Longrightarrow> 0 \<le> lg_online l \<Longrightarrow> 0 \<le> lg_desk l \<Longrightarrow> 0 \<le> lg_online l' \<and> 0 \<le> lg_desk l'"
  by (induction rule: rtranclp_induct) (auto elim!: ledger_step.cases)

subsection \<open>Properties\<close>

definition new_booking_money :: "booking \<Rightarrow> bool" where
  "new_booking_money b \<longleftrightarrow> bk_paid b = 0 \<and> bk_manual b = [] \<and> 0 \<le> bk_total b \<and> bk_payment_status b = Pay_pending"

text \<open>C11: The payment columns of a booking refine a ledger: whatever callbacks, refunds, payments at
  the desk, price changes and status changes follow one another, the amount paid is the money the
  bank still holds plus the money taken at the desk, and it changes only by captures, by refunds
  of at most what the bank holds, and by payments at the desk.\<close>

theorem payments_refine_ledger:
  assumes "new_booking_money b" and "money_step\<^sup>*\<^sup>* b b'"
  shows "ledger_step\<^sup>*\<^sup>* \<lparr>lg_online = 0, lg_desk = 0\<rparr> (ledger_of b')
    \<and> bk_paid b' = lg_online (ledger_of b') + lg_desk (ledger_of b')
    \<and> lg_online (ledger_of b') = online_paid_amount b' \<and> 0 \<le> lg_desk (ledger_of b')"
proof -
  have i: "pay_inv b" "ledger_of b = \<lparr>lg_online = 0, lg_desk = 0\<rparr>"
    using assms(1) by (simp_all add: new_booking_money_def pay_inv_def manual_paid_amount_def ledger_of_def)
  have s: "pay_inv b'" "ledger_step\<^sup>*\<^sup>* (ledger_of b) (ledger_of b')"
    using money.simulates [OF assms(2) i(1)] by auto
  then show ?thesis using i(2) ledger_nonneg [OF s(2)] online_paid [OF s(1)] by (auto simp: ledger_of_def)
qed

text \<open>C12: A cancellation never pays back more than was paid: the online refund is positive and at
  most the online part, together with the money to return by hand it is at most the amount paid,
  and after the bank accepted a refund no second one is requested under any policy.\<close>

theorem refund_within_payment:
  assumes "pay_inv b" and "refund_to_request st b = Some r"
  shows "0 < r \<and> r \<le> online_paid_amount b \<and> r + calculate_manual_refund_due b st' \<le> bk_paid b
    \<and> (snd (initiate_refund api st b) = Refund_sent r
        \<longrightarrow> refund_to_request st'' (fst (initiate_refund api st b)) = None)"
proof -
  note r = refund_request_bounds [OF assms]
  have "0 \<le> manual_paid_amount b" "manual_paid_amount b \<le> bk_paid b" using assms(1) by (auto simp: pay_inv_def)
  then have "calculate_manual_refund_due b st' \<le> manual_paid_amount b"
    using refund_policy_bounds [of "manual_paid_amount b" st'] by (simp add: calculate_manual_refund_due_def)
  moreover have "refund_to_request st'' (fst (initiate_refund api st b)) = None"
    if "snd (initiate_refund api st b) = Refund_sent r"
    using that assms(2) by (auto simp: initiate_refund_def refund_to_request_def split: if_splits)
  ultimately show ?thesis using r online_paid [OF assms(1)] by auto
qed

text \<open>The callback of the bank is idempotent: processing it again while the bank gives the same
  answers leaves the booking as the first processing left it, in every branch (paid, paid after a
  cancellation, declined, not final), whatever the clock shows.\<close>

theorem webhook_idempotent:
  assumes "settle_payment api st utc b = Some (b', state)"
  shows "\<exists>state'. settle_payment api st utc' b' = Some (b', state')"
proof (cases "bk_payment_status b' \<in> {Deposit_paid, Fully_paid, Refunded}")
  case True
  then show ?thesis by (simp add: settle_payment_def)
next
  case False
  have "bk_payment_status (payment_received api st utc amount b) \<in> {Deposit_paid, Fully_paid, Refunded}" for amount
    by (auto simp: payment_received_def Let_def)
  then have not_paid: "b' \<noteq> payment_received api st utc amount b" for amount using False by metis
  have open_b: "bk_payment_status b \<notin> {Deposit_paid, Fully_paid, Refunded}"
  proof
    assume "bk_payment_status b \<in> {Deposit_paid, Fully_paid, Refunded}"
    then have "b' = b" using assms by (simp add: settle_payment_def)
    with False \<open>bk_payment_status b \<in> _\<close> show False by simp
  qed
  then obtain s where c: "bs_credentials st" "check_payment_status api (bk_order b) = Some s"
    using assms by (auto simp: settle_payment_def split: if_splits option.splits)
  with assms open_b have b': "b' = (if bo_status s = ''paid'' then payment_received api st utc (bo_amount s) b
      else if bo_status s = ''failed'' then
        (let b1 = b\<lparr>bk_payment_status := Pay_failed\<rparr>
         in if bk_status b1 = Booked_pending
            then cancel_booking utc ''admin'' ''Card payment was declined'' b1 else b1)
      else b)"
    by (simp add: settle_payment_def)
  then have np: "bo_status s \<noteq> ''paid''" using not_paid [of "bo_amount s"] by auto
  show ?thesis
  proof (cases "bo_status s = ''failed''")
    case True
    with b' have f: "bk_order b' = bk_order b" "bk_payment_status b' = Pay_failed" "bk_status b' \<noteq> Booked_pending"
      by (auto simp: Let_def cancel_booking_def)
    then have "b'\<lparr>bk_payment_status := Pay_failed\<rparr> = b'" by simp
    then show ?thesis using c f True by (simp add: settle_payment_def Let_def)
  next
    case False
    then show ?thesis using assms b' np c open_b by (simp add: settle_payment_def)
  qed
qed

text \<open>Once the staff recorded any payment by hand, the bank is never asked about the online
  order again: a card payment the customer completes afterwards is not credited, not refunded and
  changes nothing, whatever the bank would answer.\<close>

theorem desk_payment_hides_online:
  assumes "record_payment b p = Inr b'"
  shows "settle_payment api st utc b' = Some (b', None)"
  using assms by (auto simp: record_payment_def settle_payment_def Let_def split: if_splits)

end
