(* ===== verification/Booking_Runs.thy ===== *)
theory Booking_Runs
  imports Booking_Series Booking_Ledger
begin

text \<open>
  The runs of the booking system and the proof that they keep the calendar free of double
  bookings.  \<open>sy_unchecked\<close> is a ghost: the keys of the bookings that were created by the task for
  repeating series, or that were longer than their service is now when they were handed to another
  staff member.  A move checks the whole time, so it takes a key out.
\<close>

subsection \<open>The system\<close>

record booking_system =
  sy_db :: booking_db
  sy_requests :: "valid_request list"
  sy_admin :: "(admin_request \<times> service \<times> booking_staff \<times> booking_client option) list"
  sy_unchecked :: "pk list"

definition longer_than_service :: "booking_db \<Rightarrow> pk \<Rightarrow> bool" where
  "longer_than_service db k =
     (case get_booking db k of
        None \<Rightarrow> False
      | Some b \<Rightarrow>
          (case get_service db (bk_service b) of
             None \<Rightarrow> False
           | Some s \<Rightarrow> add_minutes_to_time (bk_start b) (total_duration_minutes s) < bk_end b))"

definition new_keys :: "booking_db \<Rightarrow> booking_db \<Rightarrow> pk list" where
  "new_keys db db' = filter (\<lambda>k. k \<notin> bk_pk ` set (bd_bookings db)) (map bk_pk (bd_bookings db'))"

inductive booking_step :: "booking_system \<Rightarrow> booking_system \<Rightarrow> bool" where
  validated: "validate_booking (sy_db s) now rq = Inr v \<Longrightarrow>
     booking_step s (s\<lparr>sy_requests := v # sy_requests s\<rparr>)"
| created: "v \<in> set (sy_requests s) \<Longrightarrow> create_booking api (sy_db s) now utc ref client v = (db', res) \<Longrightarrow>
     booking_step s (s\<lparr>sy_db := db'\<rparr>)"
| guest: "v \<in> set (sy_requests s) \<Longrightarrow>
     guest_booking api (sy_db s) now utc ref n1 n2 phone mail v = (db', res) \<Longrightarrow>
     booking_step s (s\<lparr>sy_db := db'\<rparr>)"
| admin_validated: "validate_admin_booking (sy_db s) rq2 = Inr data \<Longrightarrow>
     booking_step s (s\<lparr>sy_admin := (rq2, data) # sy_admin s\<rparr>)"
| admin_created: "(rq2, data) \<in> set (sy_admin s) \<Longrightarrow>
     create_admin_booking (sy_db s) usr utc ref rq2 data = Inr db' \<Longrightarrow> booking_step s (s\<lparr>sy_db := db'\<rparr>)"
| confirm: "admin_confirm (sy_db s) k forced utc = Inr db' \<Longrightarrow> booking_step s (s\<lparr>sy_db := db'\<rparr>)"
| check_in: "admin_check_in (sy_db s) k forced = Inr db' \<Longrightarrow> booking_step s (s\<lparr>sy_db := db'\<rparr>)"
| complete: "admin_complete (sy_db s) k utc = Inr db' \<Longrightarrow> booking_step s (s\<lparr>sy_db := db'\<rparr>)"
| no_show: "admin_no_show (sy_db s) k = Inr db' \<Longrightarrow> booking_step s (s\<lparr>sy_db := db'\<rparr>)"
| cancel: "admin_cancel api (sy_db s) k txt wanted utc = Inr db' \<Longrightarrow> booking_step s (s\<lparr>sy_db := db'\<rparr>)"
| withdraw: "client_cancel api (sy_db s) now client k txt utc = Inr db' \<Longrightarrow> booking_step s (s\<lparr>sy_db := db'\<rparr>)"
| move: "admin_reschedule (sy_db s) now k txt txt2 = Inr db' \<Longrightarrow>
     booking_step s (s\<lparr>sy_db := db', sy_unchecked := removeAll k (sy_unchecked s)\<rparr>)"
| client_move: "client_reschedule (sy_db s) now client k txt txt2 = Inr db' \<Longrightarrow>
     booking_step s (s\<lparr>sy_db := db', sy_unchecked := removeAll k (sy_unchecked s)\<rparr>)"
| assign: "admin_assign_staff (sy_db s) k f = Inr db' \<Longrightarrow> \<not> longer_than_service (sy_db s) k \<Longrightarrow>
     booking_step s (s\<lparr>sy_db := db'\<rparr>)"
| assign_longer: "admin_assign_staff (sy_db s) k f = Inr db' \<Longrightarrow> longer_than_service (sy_db s) k \<Longrightarrow>
     booking_step s (s\<lparr>sy_db := db', sy_unchecked := k # sy_unchecked s\<rparr>)"
| repeat: "create_recurring_bookings refs utc (sy_db s) = db' \<Longrightarrow>
     booking_step s (s\<lparr>sy_db := db', sy_unchecked := new_keys (sy_db s) db' @ sy_unchecked s\<rparr>)"
| pay: "admin_record_payment (sy_db s) k p = Inr db' \<Longrightarrow> booking_step s (s\<lparr>sy_db := db'\<rparr>)"
| edit: "admin_update (sy_db s) k t1 t2 price = Inr db' \<Longrightarrow> booking_step s (s\<lparr>sy_db := db'\<rparr>)"
| delete: "admin_delete (sy_db s) who k = Inr db' \<Longrightarrow>
     booking_step s (s\<lparr>sy_db := db', sy_unchecked := removeAll k (sy_unchecked s)\<rparr>)"
| rate: "client_rate (sy_db s) client k rating txt = Inr db' \<Longrightarrow> booking_step s (s\<lparr>sy_db := db'\<rparr>)"
| callback: "payment_webhook api utc (sy_db s) o1 o2 = (code, db') \<Longrightarrow> booking_step s (s\<lparr>sy_db := db'\<rparr>)"
| sweep: "booking_step s (s\<lparr>sy_db := cancel_unpaid api utc (sy_db s)\<rparr>)"
| schedule: "hours_in_day ((sy_db s)\<lparr>bd_weekly := ws, bd_exceptions := xs\<rparr>) \<Longrightarrow>
     booking_step s (s\<lparr>sy_db := (sy_db s)\<lparr>bd_weekly := ws, bd_exceptions := xs, bd_staff := fs\<rparr>\<rparr>)"
| catalogue: "services_ok ((sy_db s)\<lparr>bd_services := ss\<rparr>) \<Longrightarrow>
     booking_step s (s\<lparr>sy_db := (sy_db s)\<lparr>bd_services := ss\<rparr>\<rparr>)"
| others: "booking_step s (s\<lparr>sy_db := (sy_db s)\<lparr>bd_settings := st, bd_clients := cs, bd_series := rs\<rparr>\<rparr>)"

subsection \<open>Rows that keep their time\<close>

definition keeps_slot :: "booking \<Rightarrow> booking \<Rightarrow> bool" where
  "keeps_slot b b' \<longleftrightarrow> bk_pk b' = bk_pk b \<and> bk_staff b' = bk_staff b \<and> bk_date b' = bk_date b
     \<and> bk_start b' = bk_start b \<and> bk_end b' = bk_end b
     \<and> (active_booking b' \<longrightarrow> active_booking b)"

lemma keeps_slot_refl: "keeps_slot b b"
  by (simp add: keeps_slot_def)

lemma keeps_slot_trans: "keeps_slot a b \<Longrightarrow> keeps_slot b c \<Longrightarrow> keeps_slot a c"
  by (simp add: keeps_slot_def)

lemma save_keeps_slot:
  "calendar_inv X db \<Longrightarrow> b \<in> set (bd_bookings db) \<Longrightarrow> keeps_slot b b' \<Longrightarrow> calendar_inv X (save_booking b' db)"
  unfolding keeps_slot_def by (elim conjE) (rule calendar_inv_frame [of _ db b b'], blast+)

lemma with_booking_inv:
  assumes "calendar_inv X db" "with_booking db k f = Inr db'" "\<And>b b'. f b = Inr b' \<Longrightarrow> keeps_slot b b'"
  shows "calendar_inv X db'"
  using assms save_keeps_slot
  by (auto simp: with_booking_def split: option.splits sum.splits dest!: get_booking_Some)

lemma settings_inv:
  "calendar_inv X db \<Longrightarrow> get_or_create_booking_settings db = (db', st) \<Longrightarrow>
     calendar_inv X db' \<and> bd_bookings db' = bd_bookings db \<and> bd_services db' = bd_services db
     \<and> bd_weekly db' = bd_weekly db \<and> bd_exceptions db' = bd_exceptions db \<and> bd_staff db' = bd_staff db"
  using calendar_inv_cong [of db' db]
  by (auto simp: get_or_create_booking_settings_def split: option.splits)

lemma initiate_refund_slot: "keeps_slot b (fst (initiate_refund api st b))"
  by (auto simp: initiate_refund_def keeps_slot_def split: option.splits)

lemma flag_manual_slot: "keeps_slot b (fst (flag_manual_refund b st))"
  by (auto simp: flag_manual_refund_def keeps_slot_def Let_def split: option.splits)

lemma refund_cancelled_slot: "keeps_slot b (refund_cancelled api st b)"
  unfolding refund_cancelled_def by (rule keeps_slot_trans [OF initiate_refund_slot flag_manual_slot])

lemma cancel_slot: "keeps_slot b (cancel_booking utc by reason b)"
  by (simp add: keeps_slot_def cancel_booking_def active_booking_statuses_def)

lemma payment_received_slot: "keeps_slot b (payment_received api st utc amount b)"
  by (simp add: keeps_slot_def payment_received_def Let_def confirm_booking_def active_booking_statuses_def)

lemma settle_slot: "settle_payment api st utc b = Some (b', state) \<Longrightarrow> keeps_slot b b'"
  using payment_received_slot [of b] cancel_slot [of "b\<lparr>bk_payment_status := Pay_failed\<rparr>"]
  by (auto simp: settle_payment_def Let_def keeps_slot_def split: if_splits option.splits)

lemma find_webhook_in: "find_webhook_booking db e c = Some b \<Longrightarrow> b \<in> set (bd_bookings db)"
  by (auto simp: find_webhook_booking_def split: if_splits option.splits dest!: find_in)

lemma process_webhook_inv:
  assumes "calendar_inv X db" "process_webhook api utc db e c = Some (db', handled, state)"
  shows "calendar_inv X db' \<and> (\<forall>b. handled = Some b \<longrightarrow> b \<in> set (bd_bookings db'))"
proof -
  obtain db1 st where st: "get_or_create_booking_settings db = (db1, st)" by (cases "get_or_create_booking_settings db")
  note i = settings_inv [OF assms(1) st]
  consider (same) "db' = db1" "handled = None"
    | (handled) b b' where "find_webhook_booking db1 e c = Some b"
        "settle_payment api st utc b = Some (b', state)" "db' = save_booking b' db1" "handled = Some b'"
  proof (cases "find_webhook_booking db1 e c")
    case None
    then show ?thesis using assms(2) st same by (simp add: process_webhook_def split: if_splits)
  next
    case (Some b)
    show ?thesis
    proof (cases "settle_payment api st utc b")
      case None
      then show ?thesis using assms(2) st same Some by (simp add: process_webhook_def split: if_splits)
    next
      case (Some res)
      then show ?thesis using assms(2) st same handled \<open>find_webhook_booking db1 e c = Some b\<close>
        by (cases res) (simp add: process_webhook_def split: if_splits)
    qed
  qed
  then show ?thesis
  proof cases
    case same
    then show ?thesis using i by simp
  next
    case handled
    have b: "b \<in> set (bd_bookings db1)" "keeps_slot b b'"
      using handled find_webhook_in settle_slot by blast+
    then have "calendar_inv X db'" using save_keeps_slot [of _ db1 b b'] i handled(3) by simp
    moreover have "b' \<in> set (bd_bookings db')" using b by (auto simp: handled(3) set_row_save keeps_slot_def)
    ultimately show ?thesis using handled(4) by simp
  qed
qed

lemma payment_webhook_inv:
  assumes "calendar_inv X db" "payment_webhook api utc db e c = (code, db')"
  shows "calendar_inv X db'"
proof (cases "process_webhook api utc db e c")
  case None
  then have "db' = fst (get_or_create_booking_settings db)" using assms(2) by (simp add: payment_webhook_def)
  then show ?thesis using settings_inv [OF assms(1)] by (metis prod.collapse)
next
  case (Some res)
  obtain db1 handled state where r: "res = (db1, handled, state)" by (cases res)
  note i = process_webhook_inv [OF assms(1) Some [unfolded r]]
  have k: "keeps_slot b (b\<lparr>bk_metadata := m\<rparr>)" for b m by (simp add: keeps_slot_def)
  show ?thesis
  proof (cases handled)
    case None
    then show ?thesis using assms(2) i by (simp add: payment_webhook_def Some r)
  next
    case (Some b)
    then show ?thesis
      using assms(2) i save_keeps_slot [OF _ _ k, of _ db1 b] \<open>process_webhook api utc db e c = Some res\<close>
      by (auto simp: payment_webhook_def r split: if_splits)
  qed
qed

subsection \<open>The tasks and the money\<close>

lemma release_inv: "calendar_inv X db \<Longrightarrow> get_booking db k = Some b \<Longrightarrow> calendar_inv X (save_booking (release utc b) db)"
  using save_keeps_slot [OF _ _ cancel_slot] by (auto simp: release_def dest!: get_booking_Some)

lemma sweep_booking_inv:
  assumes "calendar_inv X db"
  shows "calendar_inv X (sweep_booking api utc b db)"
proof (cases "bk_order b \<noteq> [] \<and> bk_payment_status b = Pay_pending")
  case False
  then show ?thesis using assms release_inv by (auto simp: sweep_booking_def split: option.splits)
next
  case True
  show ?thesis
  proof (cases "process_webhook api utc db (bk_number b) []")
    case None
    then show ?thesis using True settings_inv [OF assms] by (auto simp: sweep_booking_def prod_eq_iff)
  next
    case (Some res)
    obtain db1 handled state where r: "res = (db1, handled, state)" by (cases res)
    show ?thesis
      using True process_webhook_inv [OF assms Some [unfolded r]] release_inv
      by (auto simp: sweep_booking_def Some r split: option.splits)
  qed
qed

lemma cancel_unpaid_inv: "calendar_inv X db \<Longrightarrow> calendar_inv X (cancel_unpaid api utc db)"
proof -
  have "calendar_inv X db \<Longrightarrow> calendar_inv X (fold (sweep_booking api utc) bs db)" for bs
    by (induction bs arbitrary: db) (auto simp: sweep_booking_inv)
  then show "calendar_inv X db \<Longrightarrow> calendar_inv X (cancel_unpaid api utc db)" by (simp add: cancel_unpaid_def)
qed

lemma cancelled_inv:
  assumes "calendar_inv X db" "b \<in> set (bd_bookings db)"
    and "get_or_create_booking_settings (save_booking (cancel_booking utc who reason b) db) = (db2, st)"
  shows "calendar_inv X (save_booking (refund_cancelled api st (cancel_booking utc who reason b)) db2)"
proof -
  let ?b = "cancel_booking utc who reason b"
  have i: "calendar_inv X (save_booking ?b db)" by (rule save_keeps_slot [OF assms(1,2) cancel_slot])
  have "?b \<in> set (bd_bookings (save_booking ?b db))"
    using assms(2) by (auto simp: set_row_save cancel_booking_def)
  then show ?thesis
    using settings_inv [OF i assms(3)] save_keeps_slot [OF _ _ refund_cancelled_slot] by metis
qed

lemma admin_cancel_inv: "calendar_inv X db \<Longrightarrow> admin_cancel api db k reason wanted utc = Inr db' \<Longrightarrow> calendar_inv X db'"
  using cancelled_inv save_keeps_slot [OF _ _ cancel_slot]
  by (auto simp: admin_cancel_def Let_def split: option.splits if_splits prod.splits dest!: get_booking_Some)

lemma own_booking_in: "own_booking db client k = Some b \<Longrightarrow> b \<in> set (bd_bookings db) \<and> bk_pk b = k"
  by (auto simp: own_booking_def split: option.splits if_splits dest!: get_booking_Some)

lemma customer_cancel_inv:
  "calendar_inv X db \<Longrightarrow> b \<in> set (bd_bookings db) \<Longrightarrow> customer_cancel api db b reason utc = Some db' \<Longrightarrow> calendar_inv X db'"
  using cancelled_inv save_keeps_slot [OF _ _ cancel_slot]
  by (auto simp: customer_cancel_def Let_def split: if_splits prod.splits)

lemma client_cancel_inv:
  assumes "calendar_inv X db" "client_cancel api db now client k reason utc = Inr db'"
  shows "calendar_inv X db'"
proof -
  obtain db1 st where st: "get_or_create_booking_settings db = (db1, st)" by (cases "get_or_create_booking_settings db")
  note i = settings_inv [OF assms(1) st]
  then show ?thesis
    using assms(2) st customer_cancel_inv [of _ db1]
    by (auto simp: client_cancel_def split: option.splits dest!: own_booking_in)
qed

lemma admin_update_inv:
  assumes "calendar_inv X db" "admin_update db k t1 t2 price = Inr db'"
  shows "calendar_inv X db'"
  using assms(1) assms(2) [unfolded admin_update_def]
  by (rule with_booking_inv)
    (auto simp: keeps_slot_def Let_def update_total_def split: option.splits sum.splits if_splits)

lemma status_actions_inv:
  assumes "calendar_inv X db"
  shows "admin_confirm db k forced utc = Inr db' \<Longrightarrow> calendar_inv X db'"
    and "admin_check_in db k forced = Inr db' \<Longrightarrow> calendar_inv X db'"
    and "admin_complete db k utc = Inr db' \<Longrightarrow> calendar_inv X db'"
    and "admin_no_show db k = Inr db' \<Longrightarrow> calendar_inv X db'"
    and "admin_record_payment db k p = Inr db' \<Longrightarrow> calendar_inv X db'"
  unfolding admin_confirm_def admin_check_in_def admin_complete_def admin_no_show_def admin_record_payment_def
  by (erule with_booking_inv [OF assms];
      auto simp: keeps_slot_def confirm_booking_def check_in_booking_def complete_booking_def mark_no_show_def
        active_booking_statuses_def record_payment_def Let_def split: if_splits sum.splits)+

lemma admin_delete_inv: "calendar_inv X db \<Longrightarrow> admin_delete db u k = Inr db' \<Longrightarrow> calendar_inv (X - {k}) db'"
  using calendar_invD(1) [of X db]
  by (auto simp: admin_delete_def calendar_inv_def services_ok_def hours_in_day_def distinct_row_delete
      split: if_splits option.splits)

lemma client_rate_inv: "calendar_inv X db \<Longrightarrow> client_rate db client k r t = Inr db' \<Longrightarrow> calendar_inv X db'"
proof -
  assume i: "calendar_inv X db" and c: "client_rate db client k r t = Inr db'"
  obtain b where b: "own_booking db client k = Some b" using c by (auto simp: client_rate_def split: option.splits)
  define b' where "b' = b\<lparr>bk_rating := r, bk_review := t\<rparr>"
  have k: "keeps_slot b b'" by (simp add: keeps_slot_def b'_def)
  then have i': "calendar_inv X (save_booking b' db)"
    using save_keeps_slot [OF i] own_booking_in [OF b] by blast
  have "bd_services db' = bd_services db \<and> bd_weekly db' = bd_weekly db \<and> bd_exceptions db' = bd_exceptions db
      \<and> bd_bookings db' = bd_bookings (save_booking b' db)"
    using c b by (auto simp: client_rate_def b'_def Let_def split: if_splits option.splits)
  then show "calendar_inv X db'" using i' calendar_inv_cong [of db' "save_booking b' db"] by simp
qed

subsection \<open>Creating and moving\<close>

definition request_ok :: "service \<Rightarrow> clock \<Rightarrow> bool" where
  "request_ok s t \<longleftrightarrow> 0 < total_duration_minutes s
     \<and> 0 \<le> t \<and> t + total_duration_minutes s * us_per_minute < us_per_day"

lemma request_ok_create:
  assumes "calendar_inv X db" "request_ok s t"
    and "\<not> is_slot_booked db f d t (total_duration_minutes s) None"
    and "bk_pk b = next_pk bk_pk (bd_bookings db)" "bk_service b = sv_pk s" "bk_staff b = Some f" "bk_date b = d"
    "bk_start b = t" "bk_end b = add_minutes_to_time t (total_duration_minutes s)"
  shows "calendar_inv X (db\<lparr>bd_bookings := row_create b (bd_bookings db)\<rparr>)"
proof (rule calendar_inv_create [OF assms(1)])
  let ?n = "total_duration_minutes s"
  show "bk_pk b \<notin> bk_pk ` set (bd_bookings db)" using assms(4) by simp
  show "timed b" using assms by (intro slot_timed [of ?n b]) (auto simp: request_ok_def)
  fix f' d' c
  assume c: "occupies f' d' b" "c \<in> set (bd_bookings db)" "occupies f' d' c"
  then have fd: "f' = f" "d' = d" using assms by (auto simp: occupies_def)
  have "t + ?n * us_per_minute \<le> bk_start c \<or> bk_end c \<le> t"
    using free_slot_apart [OF assms(3) _ _ _ c(2)] assms(2) c(3) by (auto simp: fd request_ok_def)
  then show "apart b c"
    using assms slot_timed [of ?n b] by (auto simp: apart_def request_ok_def add_minutes_to_time_def us_per_minute_def)
qed

lemma request_ok_move:
  assumes "calendar_inv X db" "b \<in> set (bd_bookings db)" "request_ok s t" "bk_pk b' = bk_pk b"
    and "bk_service b' = sv_pk s" "bk_date b' = d" "bk_start b' = t"
    and "bk_end b' = add_minutes_to_time t (total_duration_minutes s)"
    and "\<And>f. bk_staff b' = Some f \<Longrightarrow> \<not> is_slot_booked db f d t (total_duration_minutes s) (Some (bk_pk b))"
  shows "calendar_inv (X - {bk_pk b}) (save_booking b' db)"
proof (rule calendar_inv_move [OF assms(1,2,4)])
  let ?n = "total_duration_minutes s"
  show t: "timed b'" using assms by (intro slot_timed [of ?n b']) (auto simp: request_ok_def)
  fix f' d' c
  assume c: "occupies f' d' b'" "c \<in> set (bd_bookings db)" "occupies f' d' c" "bk_pk c \<noteq> bk_pk b"
  then have fd: "bk_staff b' = Some f'" "d' = d" using assms by (auto simp: occupies_def)
  have "t + ?n * us_per_minute \<le> bk_start c \<or> bk_end c \<le> t"
    using free_slot_apart [OF assms(9) [OF fd(1)] _ _ _ c(2)] assms(3) c(3,4) by (auto simp: fd request_ok_def)
  then show "apart b' c"
    using assms by (auto simp: apart_def request_ok_def add_minutes_to_time_def us_per_minute_def)
qed

lemma checked_request:
  assumes "calendar_inv X db" "get_service db k = Some s" "check_staff_slot db s f d t ex grid = None"
  shows "request_ok s t \<and> \<not> is_slot_booked db f d t (total_duration_minutes s) ex \<and> sv_pk s = k"
proof -
  have "sv_pk s = k" using assms(2) by (auto simp: get_service_def dest: row_get_Some)
  moreover note checked_in_day [OF assms(3) calendar_invD(3) [OF assms(1)]]
  moreover have "0 < total_duration_minutes s"
    using get_service_pos [OF calendar_invD(2) [OF assms(1)] assms(2)] .
  ultimately show ?thesis using assms(3) by (auto simp: request_ok_def check_staff_slot_None)
qed

text \<open>A validated time is in order for the chosen staff member, or for some staff member.\<close>

lemma validated_slot:
  assumes "validate_booking_availability db now s staff d t ex grid = None"
  shows "\<exists>f. check_staff_slot db s f d t ex grid = None \<and> (staff = None \<or> staff = Some f)"
  using assms by (auto simp: validate_booking_availability_def find_available_staff_def
      split: if_splits option.splits dest!: find_in)

lemma validate_booking_ok:
  assumes "calendar_inv X db" "validate_booking db now rq = Inr v"
  shows "request_ok (vq_service v) (vq_start v)"
proof -
  obtain s staff where s: "get_service db (rq_service rq) = Some s"
    "validate_booking_availability db now s staff (rq_date rq) (rq_start rq) None True = None"
    "vq_service v = s" "vq_start v = rq_start rq"
    using assms(2) by (auto simp: validate_booking_def Let_def split: option.splits sum.splits if_splits)
  obtain f where "check_staff_slot db s f (rq_date rq) (rq_start rq) None True = None"
    using validated_slot [OF s(2)] by blast
  then show ?thesis using checked_request [OF assms(1) s(1)] s by auto
qed

lemma validate_admin_ok:
  assumes "calendar_inv X db" "validate_admin_booking db rq = Inr (s, f, c)"
  shows "request_ok s (aq_start rq)"
proof -
  have "get_service db (aq_service rq) = Some s" "check_staff_slot db s (bf_pk f) (aq_date rq) (aq_start rq) None False = None"
    using assms(2) by (auto simp: validate_admin_booking_def Let_def split: option.splits sum.splits if_splits)
  then show ?thesis using checked_request [OF assms(1)] by blast
qed

lemma recheck_free: "recheck_staff db v = Some f \<Longrightarrow>
  \<not> is_slot_booked db f (vq_date v) (vq_start v) (total_duration_minutes (vq_service v)) None"
  by (auto simp: recheck_staff_def find_available_staff_def Let_def check_staff_slot_None
      split: option.splits if_splits dest!: find_in)

lemma new_booking_simps [simp]:
  "bk_pk (new_booking k ref c v utc) = k" "bk_service (new_booking k ref c v utc) = sv_pk (vq_service v)"
  "bk_staff (new_booking k ref c v utc) = vq_staff v" "bk_date (new_booking k ref c v utc) = vq_date v"
  "bk_start (new_booking k ref c v utc) = vq_start v"
  "bk_end (new_booking k ref c v utc) = add_minutes_to_time (vq_start v) (total_duration_minutes (vq_service v))"
  by (simp_all add: new_booking_def blank_booking_def Let_def split: payment_choice.splits)

lemma create_booking_inv:
  assumes "calendar_inv X db" "request_ok (vq_service v) (vq_start v)"
    and "create_booking api db now utc ref client v = (db', res)"
  shows "calendar_inv X db' \<and> (\<forall>b. res = Inr b \<longrightarrow> b \<in> set (bd_bookings db'))"
proof (cases "upcoming_bookings db now client \<ge> max_active_bookings_per_client \<or> recheck_staff db v = None")
  case True
  then show ?thesis using assms by (auto simp: create_booking_def split: option.splits if_splits)
next
  case False
  then obtain f where f: "recheck_staff db v = Some f" by auto
  define b where "b = new_booking (next_pk bk_pk (bd_bookings db)) ref client (v\<lparr>vq_staff := Some f\<rparr>) utc"
  define db1 where "db1 = db\<lparr>bd_bookings := row_create b (bd_bookings db)\<rparr>"
  have i1: "calendar_inv X db1" unfolding db1_def
    by (rule request_ok_create [OF assms(1,2) recheck_free [OF f]]) (simp_all add: b_def)
  obtain db2 st where st: "get_or_create_booking_settings db1 = (db2, st)" by (cases "get_or_create_booking_settings db1")
  note i2 = settings_inv [OF i1 st]
  have b: "b \<in> set (bd_bookings db2)" "bk_pk b = next_pk bk_pk (bd_bookings db)" using i2 by (simp_all add: db1_def b_def)
  have kept: "calendar_inv X (save_booking b' db2) \<and> b' \<in> set (bd_bookings (save_booking b' db2))" if "keeps_slot b b'" for b'
    using that save_keeps_slot [of _ db2 b b'] i2 b(1) by (auto simp: keeps_slot_def set_row_save)
  have c: "create_booking api db now utc ref client v =
     (if bk_method b = Pay_card
      then (case create_booking_payment api st b of
              Some b' \<Rightarrow> (save_booking b' db2, Inr b')
            | None \<Rightarrow> (save_booking (cancel_booking utc ''admin'' ''Payment initialization failed'' b) db2,
                       Inl Payment_unavailable))
      else (db1, Inr b))"
    using False f st unfolding b_def db1_def by (simp add: create_booking_def Let_def)
  have "keeps_slot b b'" if "create_booking_payment api st b = Some b'" for b'
    using that by (auto simp: create_booking_payment_def keeps_slot_def split: if_splits option.splits)
  then show ?thesis
    using assms(3) kept cancel_slot i1 unfolding c by (auto simp: db1_def split: if_splits option.splits)
qed

lemma find_or_create_frame:
  "find_or_create_client db n1 n2 p e = (db', c, m) \<Longrightarrow> bd_services db' = bd_services db \<and> bd_weekly db' = bd_weekly db
     \<and> bd_exceptions db' = bd_exceptions db \<and> bd_bookings db' = bd_bookings db \<and> bd_staff db' = bd_staff db"
  by (auto simp: find_or_create_client_def Let_def split: option.splits if_splits)

lemma guest_booking_inv:
  assumes "calendar_inv X db" "request_ok (vq_service v) (vq_start v)"
    and "guest_booking api db now utc ref n1 n2 phone mail v = (db', res)"
  shows "calendar_inv X db'"
proof -
  obtain db1 c m where f: "find_or_create_client db (strip n1) (strip n2) phone (strip mail) = (db1, c, m)"
    by (metis prod_cases3)
  note fr = find_or_create_frame [OF f]
  have i1: "calendar_inv X db1" using fr calendar_inv_cong [of db1 db] assms(1) by simp
  obtain db2 r where c: "create_booking api db1 now utc ref (cl_pk c) v = (db2, r)" by fastforce
  note i2 = create_booking_inv [OF i1 assms(2) c]
  have "keeps_slot b (b\<lparr>bk_staff_notes := n\<rparr>)" for b n by (simp add: keeps_slot_def)
  then show ?thesis
    using assms(3) f c i2 fr save_keeps_slot [of _ db2]
    by (auto simp: guest_booking_def Let_def split: sum.splits if_splits)
qed

lemma admin_create_inv:
  assumes "calendar_inv X db" "request_ok s (aq_start rq)"
    and "create_admin_booking db usr utc ref rq (s, f, c) = Inr db'"
  shows "calendar_inv X db'"
proof -
  obtain db1 cl where cl: "admin_client db rq c = (db1, cl)" by fastforce
  have fr: "bd_services db1 = bd_services db \<and> bd_weekly db1 = bd_weekly db
     \<and> bd_exceptions db1 = bd_exceptions db \<and> bd_bookings db1 = bd_bookings db"
    using cl find_or_create_frame by (auto simp: admin_client_def Let_def split: option.splits if_splits prod.splits)
  have i1: "calendar_inv X db1" using fr calendar_inv_cong [of db1 db] assms(1) by simp
  have free: "\<not> is_slot_booked db1 (bf_pk f) (aq_date rq) (aq_start rq) (total_duration_minutes s) None"
    using assms(3) fr by (auto simp: create_admin_booking_def is_slot_booked_def split: if_splits)
  show ?thesis
    using assms(3) cl fr request_ok_create [OF i1 assms(2) free]
    by (auto simp: create_admin_booking_def blank_booking_def Let_def split: if_splits)
qed

lemma move_booking_simps [simp]:
  "bk_pk (move_booking s d t b) = bk_pk b" "bk_service (move_booking s d t b) = bk_service b"
  "bk_staff (move_booking s d t b) = bk_staff b" "bk_date (move_booking s d t b) = d"
  "bk_start (move_booking s d t b) = t"
  "bk_end (move_booking s d t b) = add_minutes_to_time t (total_duration_minutes s)"
  by (simp_all add: move_booking_def)

lemma validated_move_inv:
  assumes "calendar_inv X db" "b \<in> set (bd_bookings db)" "get_service db (bk_service b) = Some s"
    and "validate_booking_availability db now s (bk_staff b) d t (Some (bk_pk b)) grid = None"
    and "f = None \<or> (\<exists>g. f = Some g \<and> check_staff_slot db s g d t (Some (bk_pk b)) grid = None)"
    and "bk_staff b \<noteq> None \<Longrightarrow> f = bk_staff b"
  shows "calendar_inv (X - {bk_pk b}) (save_booking (move_booking s d t (b\<lparr>bk_staff := f\<rparr>)) db)"
proof -
  obtain g where "check_staff_slot db s g d t (Some (bk_pk b)) grid = None"
    using validated_slot [OF assms(4)] by blast
  note r = checked_request [OF assms(1,3) this]
  show ?thesis
  proof (rule request_ok_move [OF assms(1,2), of s t])
    fix h
    assume "bk_staff (move_booking s d t (b\<lparr>bk_staff := f\<rparr>)) = Some h"
    then have "check_staff_slot db s h d t (Some (bk_pk b)) grid = None" using assms(5) by auto
    then show "\<not> is_slot_booked db h d t (total_duration_minutes s) (Some (bk_pk b))"
      using checked_request [OF assms(1,3)] by blast
  qed (use r in auto)
qed

lemma admin_reschedule_inv:
  assumes "calendar_inv X db" "admin_reschedule db now k x y = Inr db'"
  shows "calendar_inv (X - {k}) db'"
proof -
  obtain b s d t where b: "get_booking db k = Some b" "get_service db (bk_service b) = Some s"
    "validate_booking_availability db now s (bk_staff b) d t (Some (bk_pk b)) False = None"
    "db' = save_booking (move_booking s d t b) db"
    using assms(2) by (auto simp: admin_reschedule_def split: option.splits if_splits)
  have "bk_staff b = None \<or> (\<exists>g. bk_staff b = Some g \<and> check_staff_slot db s g d t (Some (bk_pk b)) False = None)"
    using validated_slot [OF b(3)] by auto
  then have "calendar_inv (X - {bk_pk b}) (save_booking (move_booking s d t (b\<lparr>bk_staff := bk_staff b\<rparr>)) db)"
    using get_booking_Some [OF b(1)] by (intro validated_move_inv [OF assms(1) _ b(2,3)]) auto
  then show ?thesis using b(4) get_booking_Some [OF b(1)] by simp
qed

lemma client_reschedule_inv:
  assumes "calendar_inv X db" "client_reschedule db now client k x y = Inr db'"
  shows "calendar_inv (X - {k}) db'"
proof -
  obtain db1 st where st: "get_or_create_booking_settings db = (db1, st)" by fastforce
  note i = settings_inv [OF assms(1) st]
  obtain b s d t where b: "own_booking db client k = Some b" "get_service db (bk_service b) = Some s"
    "validate_booking_availability db1 now s (bk_staff b) d t (Some (bk_pk b)) True = None"
    "db' = save_booking (move_booking s d t (if bk_staff b = None
        then b\<lparr>bk_staff := map_option bf_pk (find_available_staff db1 s d t (Some (bk_pk b)) True)\<rparr> else b)) db1"
    using assms(2) st by (auto simp: client_reschedule_def Let_def split: option.splits if_splits)
  define f where "f = (if bk_staff b = None
      then map_option bf_pk (find_available_staff db1 s d t (Some (bk_pk b)) True) else bk_staff b)"
  have "f = None \<or> (\<exists>g. f = Some g \<and> check_staff_slot db1 s g d t (Some (bk_pk b)) True = None)"
    using validated_slot [OF b(3)] by (cases "find_available_staff db1 s d t (Some (bk_pk b)) True")
      (auto simp: f_def find_available_staff_def dest!: find_in)
  then have "calendar_inv (X - {bk_pk b}) (save_booking (move_booking s d t (b\<lparr>bk_staff := f\<rparr>)) db1)"
    using i own_booking_in [OF b(1)] b(2)
    by (intro validated_move_inv [OF _ _ _ b(3)]) (auto simp: get_service_def f_def)
  moreover have "(if bk_staff b = None
        then b\<lparr>bk_staff := map_option bf_pk (find_available_staff db1 s d t (Some (bk_pk b)) True)\<rparr> else b)
      = b\<lparr>bk_staff := f\<rparr>" by (simp add: f_def)
  ultimately show ?thesis using b(4) i own_booking_in [OF b(1)] by simp
qed

text \<open>
  Handing a booking over: the row keeps its time, and when it is not longer than the service is
  now, the check covered all of it.
\<close>

lemma assign_staff_inv:
  assumes "calendar_inv X db" "admin_assign_staff db k g = Inr db'" "k \<in> X \<or> \<not> longer_than_service db k"
  shows "calendar_inv X db'"
proof (cases "db' = db")
  case True
  then show ?thesis using assms by simp
next
  case False
  obtain b s f where g: "get_booking db k = Some b" "get_service db (bk_service b) = Some s" "get_staff db g = Some f"
    using assms(2) by (auto simp: admin_assign_staff_def split: option.splits if_splits)
  define b' where "b' = b\<lparr>bk_staff := Some (bf_pk f), bk_staff_reminder_sent := False\<rparr>"
  have b: "check_staff_slot db s (bf_pk f) (bk_date b) (bk_start b) (Some (bk_pk b)) False = None"
    "db' = save_booking b' db"
    using assms(2) False g by (auto simp: admin_assign_staff_def b'_def split: option.splits if_splits)
  have bin: "b \<in> set (bd_bookings db)" "bk_pk b = k" using get_booking_Some [OF g(1)] by simp_all
  show ?thesis
  proof (cases "k \<in> X")
    case True
    have "calendar_inv X (save_booking b' db)"
    proof (rule calendar_inv_extend [of X "db\<lparr>bd_bookings := row_delete bk_pk k (bd_bookings db)\<rparr>"])
      show "calendar_inv X (db\<lparr>bd_bookings := row_delete bk_pk k (bd_bookings db)\<rparr>)"
        using assms(1) by (auto simp: calendar_inv_def services_ok_def hours_in_day_def distinct_row_delete)
    qed (use True bin calendar_invD(1) [OF assms(1)] in
        \<open>auto simp: set_row_save b'_def split: if_splits\<close>)
    then show ?thesis by (simp add: b)
  next
    case out: False
    note r = checked_request [OF assms(1) g(2) b(1)]
    have t: "timed b" using calendar_invD(4) [OF assms(1) bin(1)] bin(2) out by simp
    have e: "bk_end b \<le> add_minutes_to_time (bk_start b) (total_duration_minutes s)"
      using assms(3) out g by (simp add: longer_than_service_def)
    then have e': "bk_end b \<le> bk_start b + total_duration_minutes s * us_per_minute"
      using r by (simp add: add_minutes_to_time_def request_ok_def us_per_minute_def)
    have "calendar_inv (X - {bk_pk b}) (save_booking b' db)"
    proof (rule calendar_inv_move [OF assms(1) bin(1)])
      show "bk_pk b' = bk_pk b" "timed b'" using t by (simp_all add: b'_def timed_def)
      fix h d c
      assume c: "occupies h d b'" "c \<in> set (bd_bookings db)" "occupies h d c" "bk_pk c \<noteq> bk_pk b"
      then have hd: "h = bf_pk f" "d = bk_date b" by (auto simp: occupies_def b'_def)
      have "bk_start b + total_duration_minutes s * us_per_minute \<le> bk_start c \<or> bk_end c \<le> bk_start b"
        using free_slot_apart [OF r [THEN conjunct2, THEN conjunct1] _ _ _ c(2)] r c(3,4)
        by (auto simp: hd request_ok_def)
      then show "apart b' c" using e' by (auto simp: apart_def b'_def)
    qed
    then show ?thesis unfolding b(2) by (rule calendar_inv_mono) blast
  qed
qed

text \<open>The task for repeating series only adds bookings.\<close>

lemma series_round_adds:
  "bd_weekly (create_from_series refs today utc q db) = bd_weekly db"
  "bd_exceptions (create_from_series refs today utc q db) = bd_exceptions db"
  "distinct (map bk_pk (bd_bookings db)) \<Longrightarrow>
     distinct (map bk_pk (bd_bookings (create_from_series refs today utc q db)))"
  by (auto simp: create_from_series_def Let_def distinct_row_create split: option.splits)

lemma series_rounds_add:
  "bd_weekly (fold (create_from_series refs today utc) qs db) = bd_weekly db"
  "bd_exceptions (fold (create_from_series refs today utc) qs db) = bd_exceptions db"
  "distinct (map bk_pk (bd_bookings db)) \<Longrightarrow>
     distinct (map bk_pk (bd_bookings (fold (create_from_series refs today utc) qs db)))"
proof -
  show "bd_weekly (fold (create_from_series refs today utc) qs db) = bd_weekly db"
    by (induction qs arbitrary: db) (simp_all add: series_round_adds)
  show "bd_exceptions (fold (create_from_series refs today utc) qs db) = bd_exceptions db"
    by (induction qs arbitrary: db) (simp_all add: series_round_adds)
  show "distinct (map bk_pk (bd_bookings db)) \<Longrightarrow>
     distinct (map bk_pk (bd_bookings (fold (create_from_series refs today utc) qs db)))"
    by (induction qs arbitrary: db) (simp_all add: series_round_adds)
qed

lemma series_task_inv:
  assumes "calendar_inv X db" "create_recurring_bookings refs utc db = db'"
  shows "calendar_inv (set (new_keys db db') \<union> X) db'"
  using calendar_invD(1) [OF assms(1)] subsetD [OF series_rounds_frame(2) [of db]] assms(2)
  by (intro calendar_inv_extend [OF assms(1)])
    (auto simp: new_keys_def create_recurring_bookings_def Let_def series_rounds_frame series_rounds_add)

subsection \<open>Every step\<close>

definition system_inv :: "booking_system \<Rightarrow> bool" where
  "system_inv s \<longleftrightarrow> calendar_inv (set (sy_unchecked s)) (sy_db s)
     \<and> (\<forall>v \<in> set (sy_requests s). request_ok (vq_service v) (vq_start v))
     \<and> (\<forall>(rq, sv, f, c) \<in> set (sy_admin s). request_ok sv (aq_start rq))"

lemma system_inv_db:
  "system_inv s \<Longrightarrow> calendar_inv (set ks) db' \<Longrightarrow> system_inv (s\<lparr>sy_db := db', sy_unchecked := ks\<rparr>)"
  by (simp add: system_inv_def)

lemma system_inv_kept:
  "system_inv s \<Longrightarrow> (\<And>X. calendar_inv X (sy_db s) \<Longrightarrow> calendar_inv X db') \<Longrightarrow> system_inv (s\<lparr>sy_db := db'\<rparr>)"
  by (simp add: system_inv_def)

lemmas op_inv = status_actions_inv admin_update_inv admin_cancel_inv client_cancel_inv
  client_rate_inv payment_webhook_inv cancel_unpaid_inv

lemma system_inv_step:
  assumes "system_inv s" "booking_step s s'"
  shows "system_inv s'"
  using assms(2,1)
proof (induction rule: booking_step.induct)
  case (validated s now rq v)
  then show ?case using validate_booking_ok by (auto simp: system_inv_def)
next
  case (admin_validated s rq2 data)
  then show ?case using validate_admin_ok by (cases data) (auto simp: system_inv_def)
next
  case (created v s api now utc ref client db' res)
  then show ?case using create_booking_inv [OF _ _ created(2)] by (auto simp: system_inv_def)
next
  case (guest v s api now utc ref n1 n2 phone mail db' res)
  then show ?case using guest_booking_inv [OF _ _ guest(2)] by (auto simp: system_inv_def)
next
  case (admin_created rq2 data s usr utc ref db')
  obtain sv f c where d: "data = (sv, f, c)" by (cases data)
  then show ?case using admin_created admin_create_inv by (auto simp: system_inv_def)
next
  case (move s now k x y db')
  then show ?case using admin_reschedule_inv [OF _ move(1)] by (auto simp: system_inv_def)
next
  case (client_move s now client k x y db')
  then show ?case using client_reschedule_inv [OF _ client_move(1)] by (auto simp: system_inv_def)
next
  case (assign s k f db')
  then show ?case using assign_staff_inv [OF _ assign(1)] by (auto simp: system_inv_def)
next
  case (assign_longer s k f db')
  then have "calendar_inv (insert k (set (sy_unchecked s))) (sy_db s)"
    by (auto simp: system_inv_def intro: calendar_inv_mono)
  then show ?case using assign_longer assign_staff_inv [OF _ assign_longer(1)] by (auto simp: system_inv_def)
next
  case (repeat refs utc s db')
  then show ?case using series_task_inv [OF _ repeat(1)] by (auto simp: system_inv_def)
next
  case (delete s who k db')
  then show ?case using admin_delete_inv [OF _ delete(1)] by (auto simp: system_inv_def)
next
  case (catalogue ss s)
  then show ?case by (auto simp: system_inv_def calendar_inv_def hours_in_day_def)
next
  case (schedule xs ws s fs)
  then show ?case by (auto simp: system_inv_def calendar_inv_def services_ok_def hours_in_day_def)
next
  case (others s rs cs st)
  then have "calendar_inv X ((sy_db s)\<lparr>bd_settings := st, bd_clients := cs, bd_series := rs\<rparr>) = calendar_inv X (sy_db s)" for X
    by (intro calendar_inv_cong) simp_all
  then show ?case using others by (simp add: system_inv_def)
qed (erule system_inv_kept, blast intro: op_inv)+

definition booking_init :: "booking_system \<Rightarrow> bool" where
  "booking_init s \<longleftrightarrow> sy_requests s = [] \<and> sy_admin s = [] \<and> bd_bookings (sy_db s) = []
     \<and> services_ok (sy_db s) \<and> hours_in_day (sy_db s)"

lemma booking_init_inv: "booking_init s \<Longrightarrow> system_inv s"
  by (simp add: booking_init_def system_inv_def calendar_inv_def)

interpretation bookings: invariant_system booking_init booking_step system_inv
  by unfold_locales (rule booking_init_inv, assumption, erule system_inv_step)

text \<open>C10: No double booking.  In every state reached by validations, creations (by customers, guests
  and the business), status actions, cancellations, moves, reassignments, payments, callbacks,
  runs of the task for repeating series and the release of unpaid bookings, in any interleaving and
  while schedules, staff, services and settings change, two active bookings of a staff member on a
  date have disjoint times, except where one of them is a booking the series task created or one
  that was longer than its service at that moment when it was handed to another staff member (and
  in both cases has not been moved since): these two operations do not check the whole time.  Every
  service takes at least a minute, and hours of work lie within a day.\<close>

theorem no_double_booking:
  assumes "reachable booking_init booking_step s"
    and "b \<in> set (bd_bookings (sy_db s))" and "c \<in> set (bd_bookings (sy_db s))" and "bk_pk b \<noteq> bk_pk c"
    and "bk_staff b = Some f" and "bk_staff c = Some f" and "bk_date b = bk_date c"
    and "active_booking b" and "active_booking c"
    and "bk_pk b \<notin> set (sy_unchecked s)" and "bk_pk c \<notin> set (sy_unchecked s)"
  shows "bk_start b < bk_end b \<and> bk_start c < bk_end c \<and> (bk_end b \<le> bk_start c \<or> bk_end c \<le> bk_start b)"
proof -
  have i: "calendar_inv (set (sy_unchecked s)) (sy_db s)"
    using bookings.reachable_inv [OF assms(1)] by (simp add: system_inv_def)
  have "bk_start b < bk_end b" "bk_start c < bk_end c"
    using calendar_invD(4) [OF i assms(2,10)] calendar_invD(4) [OF i assms(3,11)] by (simp_all add: timed_def)
  moreover have "apart b c"
    using i assms(2-11) unfolding calendar_inv_def occupies_def by blast
  ultimately show ?thesis by (simp add: apart_def)
qed

end
