(* ===== verification/Booking_Sample.thy ===== *)
theory Booking_Sample
  imports Booking_Runs Booking_Series
begin

text \<open>
  The booking properties on a small salon: one service of an hour with fifteen minutes of
  buffer, one stylist who works on Mondays from nine to five with a break at one, and Monday
  9 March 2026 (day 739677) as the day of the appointments.
\<close>

definition haircut :: service where
  "haircut = \<lparr>sv_pk = 1, sv_status = Service_active, sv_base_price = 100, sv_deposit_percentage = 30,
     sv_duration = 60, sv_buffer = 15, sv_type = Duration_based, sv_slots = None, sv_staff = [1]\<rparr>"

definition stylist :: booking_staff where
  "stylist = \<lparr>bf_pk = 1, bf_user = 5, bf_active = True, bf_rating = 0, bf_ratings = 0\<rparr>"

definition mondays :: staff_availability where
  "mondays = \<lparr>wa_pk = 1, wa_staff = 1, wa_day = 0, wa_start = minutes_to_time 540, wa_end = minutes_to_time 1020,
     wa_available = True, wa_break_start = Some (minutes_to_time 780), wa_break_end = Some (minutes_to_time 840)\<rparr>"

definition salon_db :: booking_db where
  "salon_db = \<lparr>bd_services = [haircut], bd_staff = [stylist], bd_weekly = [mondays], bd_exceptions = [],
     bd_bookings = [], bd_series = [], bd_clients = [], bd_settings = Some default_booking_settings\<rparr>"

definition salon_day :: date where "salon_day = 739677"

definition salon_now :: datetime where "salon_now = 739670 * us_per_day"

definition silent_bank :: bog_api where
  "silent_bank = \<lparr>api_token = True, api_order = (\<lambda>_ _. Request_failed), api_receipt = (\<lambda>_. Request_failed),
     api_refund = (\<lambda>_ _. Request_failed)\<rparr>"

lemma salon_schedule: "schedule_ok salon_db"
  by (simp add: schedule_ok_def salon_db_def mondays_def whole_minute_def minutes_to_time_def us_simps)

lemma salon_ten_oclock:
  "staff_can_perform haircut stylist"
  "check_booking_window (bd_settings salon_db) salon_now salon_day (minutes_to_time 600) = None"
  "validate_booking_availability salon_db salon_now haircut (Some 1) salon_day (minutes_to_time 600) None True = None"
  by code_simp+

theorem slots_are_bookable_witness:
  "offered_at (generate_available_slots id salon_db salon_now haircut salon_day None) (clock_text (minutes_to_time 600)) 1"
proof -
  have "whole_minute (minutes_to_time 600)" by (rule whole_minute_of_minutes) simp_all
  from slots_are_bookable [of salon_db haircut id stylist "minutes_to_time 600" salon_now salon_day, OF salon_schedule _ _ _ _ _ this]
  show ?thesis using salon_ten_oclock
    by (simp add: offered_at_def Let_def salon_db_def haircut_def stylist_def total_duration_minutes_def
        default_booking_settings_def)
qed

subsection \<open>A run with two customers\<close>

definition request_at :: "int \<Rightarrow> booking_request" where
  "request_at m = \<lparr>rq_service = 1, rq_staff = Some 1, rq_date = salon_day, rq_start = minutes_to_time m,
     rq_notes = [], rq_choice = Some Choice_cash\<rparr>"

definition accepted_at :: "int \<Rightarrow> valid_request" where
  "accepted_at m = \<lparr>vq_service = haircut, vq_staff = Some 1, vq_date = salon_day, vq_start = minutes_to_time m,
     vq_notes = [], vq_choice = Choice_cash, vq_auto = False\<rparr>"

lemma salon_validated:
  "validate_booking salon_db salon_now (request_at 600) = Inr (accepted_at 600)"
  "validate_booking salon_db salon_now (request_at 690) = Inr (accepted_at 690)"
  by code_simp+

definition salon_booking :: "pk \<Rightarrow> int \<Rightarrow> booking" where
  "salon_booking k m = new_booking k ''B'' k (accepted_at m) salon_now"

definition salon_db1 :: booking_db where
  "salon_db1 = salon_db\<lparr>bd_bookings := [salon_booking 1 600]\<rparr>"

definition salon_db2 :: booking_db where
  "salon_db2 = salon_db\<lparr>bd_bookings := [salon_booking 1 600, salon_booking 2 690]\<rparr>"

lemma salon_created:
  "create_booking silent_bank salon_db salon_now salon_now ''B'' 1 (accepted_at 600) = (salon_db1, Inr (salon_booking 1 600))"
  "create_booking silent_bank salon_db1 salon_now salon_now ''B'' 2 (accepted_at 690) = (salon_db2, Inr (salon_booking 2 690))"
  by code_simp+

definition salon_0 :: booking_system where
  "salon_0 = \<lparr>sy_db = salon_db, sy_requests = [], sy_admin = [], sy_unchecked = []\<rparr>"

definition salon_2 :: booking_system where
  "salon_2 = \<lparr>sy_db = salon_db2, sy_requests = [accepted_at 690, accepted_at 600], sy_admin = [], sy_unchecked = []\<rparr>"

lemma salon_run: "reachable booking_init booking_step salon_2"
proof -
  define s1 where "s1 = salon_0\<lparr>sy_requests := accepted_at 600 # sy_requests salon_0\<rparr>"
  define s2 where "s2 = s1\<lparr>sy_requests := accepted_at 690 # sy_requests s1\<rparr>"
  define s3 where "s3 = s2\<lparr>sy_db := salon_db1\<rparr>"
  have db: "sy_db salon_0 = salon_db" "sy_db s1 = salon_db" "sy_db s2 = salon_db" "sy_db s3 = salon_db1"
    "sy_requests s2 = [accepted_at 690, accepted_at 600]" "sy_requests s3 = [accepted_at 690, accepted_at 600]"
    by (simp_all add: salon_0_def s1_def s2_def s3_def)
  have s4: "salon_2 = s3\<lparr>sy_db := salon_db2\<rparr>" by (simp add: salon_0_def s1_def s2_def s3_def salon_2_def)
  have "booking_init salon_0"
    by (simp add: booking_init_def salon_0_def salon_db_def services_ok_def haircut_def total_duration_minutes_def
        hours_in_day_def mondays_def day_clock_def minutes_to_time_def us_simps)
  then have "reachable booking_init booking_step salon_0" by (rule reachable.start)
  moreover have "booking_step salon_0 s1"
    unfolding s1_def by (rule validated [of _ salon_now "request_at 600"]) (simp add: db salon_validated)
  ultimately have "reachable booking_init booking_step s1" by (rule reachable.next_step)
  moreover have "booking_step s1 s2"
    unfolding s2_def by (rule validated [of _ salon_now "request_at 690"]) (simp add: db salon_validated)
  ultimately have "reachable booking_init booking_step s2" by (rule reachable.next_step)
  moreover have "booking_step s2 s3" unfolding s3_def
    by (rule created [of "accepted_at 600" _ silent_bank salon_now salon_now "''B''" 1 _ "Inr (salon_booking 1 600)"])
      (simp_all add: db salon_created del: One_nat_def)
  ultimately have "reachable booking_init booking_step s3" by (rule reachable.next_step)
  moreover have "booking_step s3 salon_2" unfolding s4
    by (rule created [of "accepted_at 690" _ silent_bank salon_now salon_now "''B''" 2 _ "Inr (salon_booking 2 690)"])
      (simp_all add: db salon_created)
  ultimately show ?thesis by (rule reachable.next_step)
qed

theorem no_double_booking_witness:
  "bk_start (salon_booking 1 600) < bk_end (salon_booking 1 600)
   \<and> bk_start (salon_booking 2 690) < bk_end (salon_booking 2 690)
   \<and> (bk_end (salon_booking 1 600) \<le> bk_start (salon_booking 2 690)
      \<or> bk_end (salon_booking 2 690) \<le> bk_start (salon_booking 1 600))"
proof -
  have "salon_booking 1 600 \<in> set (bd_bookings (sy_db salon_2))" "salon_booking 2 690 \<in> set (bd_bookings (sy_db salon_2))"
    by (simp_all add: salon_2_def salon_db2_def)
  then show ?thesis
    by (rule no_double_booking [OF salon_run, of _ _ 1])
      (simp_all add: salon_booking_def accepted_at_def new_booking_def blank_booking_def active_booking_statuses_def
        salon_2_def)
qed

subsection \<open>Money\<close>

text \<open>An online booking of 100 with a deposit of 30, a bank that reports the deposit as paid, the
  balance paid at the desk.\<close>

definition paying_bank :: bog_api where
  "paying_bank = \<lparr>api_token = True, api_order = (\<lambda>_ _. Answer 200 ''X''),
     api_receipt = (\<lambda>_. Answer 200 \<lparr>rc_order_status = Some ''completed'', rc_transfer_amount = Some 30\<rparr>),
     api_refund = (\<lambda>_ _. Answer 200 ())\<rparr>"

definition card_settings :: booking_settings where
  "card_settings = default_booking_settings\<lparr>bs_credentials := True, bs_refund_policy := Partial_50\<rparr>"

definition card_booking :: booking where
  "card_booking = (new_booking 1 ''B'' 1 ((accepted_at 600)\<lparr>vq_choice := Choice_deposit\<rparr>) salon_now)\<lparr>bk_order := ''X''\<rparr>"

definition deposit_paid_booking :: booking where
  "deposit_paid_booking = payment_received paying_bank card_settings salon_now (Some 30) card_booking"

definition cash_70 :: manual_payment where
  "cash_70 = \<lparr>mp_amount = 70, mp_method = ''cash'', mp_note = [], mp_by = 5\<rparr>"

definition all_paid_booking :: booking where
  "all_paid_booking = deposit_paid_booking\<lparr>bk_paid := 100, bk_payment_status := Fully_paid, bk_manual := [cash_70]\<rparr>"

lemmas card_defs = card_booking_def new_booking_def blank_booking_def accepted_at_def haircut_def
  total_duration_minutes_def calculate_deposit_amount_def

lemma card_booking_money: "bk_total card_booking = 100" "bk_paid card_booking = 0" "bk_manual card_booking = []"
  "bk_payment_status card_booking = Pay_pending" "bk_order card_booking = ''X''" "bk_status card_booking = Booked_pending"
  by (simp_all add: card_defs)

lemma deposit_settled: "settle_payment paying_bank card_settings salon_now card_booking = Some (deposit_paid_booking, Some ''paid'')"
  by (simp add: settle_payment_def card_booking_money card_settings_def check_payment_status_def paying_bank_def
      status_mapping_def deposit_paid_booking_def Let_def)

lemma deposit_paid_money: "bk_total deposit_paid_booking = 100" "bk_paid deposit_paid_booking = 30"
  "bk_manual deposit_paid_booking = []" "bk_payment_status deposit_paid_booking = Deposit_paid"
  "bk_status deposit_paid_booking = Booked_confirmed" "bk_order deposit_paid_booking = ''X''"
  "bk_metadata deposit_paid_booking = no_metadata"
  by (simp_all add: deposit_paid_booking_def payment_received_def card_booking_money card_settings_def
      default_booking_settings_def confirm_booking_def Let_def)

lemma balance_recorded: "record_payment deposit_paid_booking cash_70 = Inr all_paid_booking"
  by (simp add: record_payment_def deposit_paid_money cash_70_def all_paid_booking_def Let_def)

theorem payments_refine_ledger_witness:
  "ledger_step\<^sup>*\<^sup>* \<lparr>lg_online = 0, lg_desk = 0\<rparr> (ledger_of all_paid_booking)
   \<and> ledger_of all_paid_booking = \<lparr>lg_online = 30, lg_desk = 70\<rparr>"
proof -
  have "money_step card_booking deposit_paid_booking" by (rule money_step.callback) (rule deposit_settled)
  moreover have "money_step deposit_paid_booking all_paid_booking" by (rule at_desk) (rule balance_recorded)
  ultimately have "money_step\<^sup>*\<^sup>* card_booking all_paid_booking" by auto
  moreover have "new_booking_money card_booking" by (simp add: new_booking_money_def card_booking_money)
  ultimately show ?thesis
    using payments_refine_ledger [of card_booking all_paid_booking]
    by (simp add: ledger_of_def all_paid_booking_def manual_paid_amount_def cash_70_def)
qed

theorem refund_within_payment_witness:
  "0 < (15::decimal) \<and> 15 \<le> online_paid_amount all_paid_booking
   \<and> 15 + calculate_manual_refund_due all_paid_booking card_settings \<le> bk_paid all_paid_booking
   \<and> snd (initiate_refund paying_bank card_settings all_paid_booking) = Refund_sent 15
   \<and> refund_to_request card_settings (fst (initiate_refund paying_bank card_settings all_paid_booking)) = None"
proof -
  have m: "manual_paid_amount all_paid_booking = 70" "bk_paid all_paid_booking = 100" "bk_total all_paid_booking = 100"
    "bk_order all_paid_booking = ''X''" "bk_metadata all_paid_booking = no_metadata"
    by (simp_all add: all_paid_booking_def manual_paid_amount_def cash_70_def deposit_paid_money)
  have inv: "pay_inv all_paid_booking" by (simp add: pay_inv_def m) (simp add: all_paid_booking_def)
  have "round_half_even 2 15 = (15::rat)" by (simp add: round_half_even_def)
  then have req: "refund_to_request card_settings all_paid_booking = Some 15"
    by (simp add: refund_to_request_def m online_paid_amount_def calculate_refund_amount_def apply_refund_policy_def
        card_settings_def no_metadata_def)
  have credentials: "bs_credentials card_settings" by (simp add: card_settings_def)
  have "snd (initiate_refund paying_bank card_settings all_paid_booking) = Refund_sent 15"
    using credentials by (simp add: initiate_refund_def req refund_payment_def paying_bank_def)
  then show ?thesis using refund_within_payment [OF inv req, of card_settings paying_bank card_settings] by simp
qed

theorem webhook_idempotent_witness:
  "\<exists>state. settle_payment paying_bank card_settings (salon_now + 1) deposit_paid_booking = Some (deposit_paid_booking, state)"
  by (rule webhook_idempotent [OF deposit_settled])

theorem desk_payment_hides_online_witness:
  "settle_payment paying_bank card_settings salon_now all_paid_booking = Some (all_paid_booking, None)"
  by (rule desk_payment_hides_online [OF balance_recorded])

subsection \<open>Series\<close>

definition weekly_cut :: recurring_booking where
  "weekly_cut = \<lparr>rb_pk = 1, rb_client = 1, rb_service = 1, rb_staff = Some 1, rb_frequency = Weekly, rb_day = 0,
     rb_time = minutes_to_time 630, rb_status = Series_active, rb_next = salon_day, rb_last = None,
     rb_until = None, rb_max = Some 2, rb_count = 0\<rparr>"

definition series_db :: booking_db where
  "series_db = salon_db2\<lparr>bd_series := [weekly_cut]\<rparr>"

lemma year_2026: "year_of 739677 = 2026" "year_of 739739 = 2026"
  by (simp_all add: year_of_def Let_def)

theorem series_ends_witness:
  "\<exists>r'. row_get rb_pk 1 (bd_series (fold (\<lambda>(refs, utc). create_recurring_bookings refs utc)
        [(\<lambda>_. ''S1'', 739800 * us_per_day), (\<lambda>_. ''S2'', 739801 * us_per_day)] series_db)) = Some r'
    \<and> rb_status r' = Series_completed \<and> rb_count r' = 2
    \<and> int (length (bookings_of_series weekly_cut (fold (\<lambda>(refs, utc). create_recurring_bookings refs utc)
        [(\<lambda>_. ''S1'', 739800 * us_per_day), (\<lambda>_. ''S2'', 739801 * us_per_day)] series_db))) = 2"
proof -
  have none: "bookings_of_series weekly_cut series_db = []"
    by (simp add: bookings_of_series_def series_db_def salon_db2_def salon_booking_def new_booking_def accepted_at_def
        blank_booking_def)
  have "\<exists>r'. row_get rb_pk 1 (bd_series (fold (\<lambda>(refs, utc). create_recurring_bookings refs utc)
        [(\<lambda>_. ''S1'', 739800 * us_per_day), (\<lambda>_. ''S2'', 739801 * us_per_day)] series_db)) = Some r'
    \<and> rb_status r' = Series_completed \<and> rb_count r' = 2
    \<and> int (length (bookings_of_series weekly_cut (fold (\<lambda>(refs, utc). create_recurring_bookings refs utc)
        [(\<lambda>_. ''S1'', 739800 * us_per_day), (\<lambda>_. ''S2'', 739801 * us_per_day)] series_db)))
      = int (length (bookings_of_series weekly_cut series_db)) + (2 - rb_count weekly_cut)"
  proof (rule series_ends [of series_db 1 weekly_cut 2])
  have "date_of (739800 * us_per_day) = 739800" "date_of (739801 * us_per_day) = 739801"
    by (simp_all add: date_of_def us_per_day_def)
  then show "list_all (\<lambda>(refs, utc). rb_next weekly_cut + 31 * int (length
      [(\<lambda>_. ''S1'', 739800 * us_per_day), (\<lambda>_. ''S2'', 739801 * us_per_day)]) \<le> date_of utc)
      [(\<lambda>_. ''S1'', 739800 * us_per_day), (\<lambda>_. ''S2'', 739801 * us_per_day)]"
    by (simp add: weekly_cut_def salon_day_def)
  qed (simp_all add: series_db_def salon_db2_def salon_db_def weekly_cut_def row_get_def salon_day_def year_2026
      get_service_def haircut_def)
  then show ?thesis by (simp add: none) (simp add: weekly_cut_def)
qed

theorem series_ignores_calendar_witness:
  "\<exists>b \<in> set (bd_bookings (create_recurring_bookings (\<lambda>_. ''S1'') (739677 * us_per_day) series_db)).
    salon_booking 1 600 \<in> set (bd_bookings (create_recurring_bookings (\<lambda>_. ''S1'') (739677 * us_per_day) series_db))
    \<and> bk_pk b \<noteq> bk_pk (salon_booking 1 600) \<and> occupies 1 (rb_next weekly_cut) b
    \<and> occupies 1 (rb_next weekly_cut) (salon_booking 1 600)
    \<and> bk_start b < bk_end (salon_booking 1 600) \<and> bk_start (salon_booking 1 600) < bk_end b"
proof (rule series_ignores_calendar [of _ _ _ _ haircut])
  have "date_of (739677 * us_per_day) = 739677" by (simp add: date_of_def us_per_day_def)
  then show "should_create_booking (date_of (739677 * us_per_day)) weekly_cut"
    by (simp add: should_create_booking_def weekly_cut_def salon_day_def)
qed (simp_all add: series_db_def salon_db2_def salon_db_def weekly_cut_def row_get_def salon_day_def
      get_service_def haircut_def salon_booking_def new_booking_def blank_booking_def accepted_at_def occupies_def
      active_booking_statuses_def minutes_to_time_def us_simps add_minutes_to_time_def total_duration_minutes_def)

theorem staff_window_exact_witness:
  "staff_reminder_window (739677 * us_per_day - 10 * us_per_minute) 30 ((salon_booking 1 15)) \<longleftrightarrow>
    739677 * us_per_day - 10 * us_per_minute < combine (bk_date (salon_booking 1 15)) (bk_start (salon_booking 1 15))
    \<and> combine (bk_date (salon_booking 1 15)) (bk_start (salon_booking 1 15))
      \<le> 739677 * us_per_day - 10 * us_per_minute + 30 * us_per_minute"
  by (rule staff_window_exact)
    (simp_all add: salon_booking_def new_booking_def blank_booking_def accepted_at_def minutes_to_time_def us_simps)

end
