(* ===== verification/Invoice_Model.thy ===== *)
theory Invoice_Model
  imports Users Text
begin

text \<open>
  The data of invoicing (\<^verbatim>\<open>invoices/models.py\<close>): the settings row of the tenant, invoices with
  their line items and payments, templates, and what invoices read of other applications: the
  customers of the shop, its products, and the items of the lists a tenant can use instead.

  Amounts are exact.  The columns \<^verbatim>\<open>subtotal\<close>, \<^verbatim>\<open>tax_amount\<close> and \<^verbatim>\<open>total\<close> receive sums with more
  than two decimals and are rounded by the database when a row is written, half away from zero
  (\<open>invoice_columns\<close>); every other amount comes from a field that accepts two decimals.  Columns
  are taken to be wide enough for the amounts.  Texts that only appear on the printed page, files
  and uuids are left out.
\<close>

subsection \<open>Rows\<close>

datatype invoice_status = Invoice_draft | Invoice_sent | Invoice_viewed | Invoice_partially_paid
  | Invoice_paid | Invoice_overdue | Invoice_cancelled

record invoice_settings =
  ivs_prefix :: string
  ivs_starting_number :: nat
  ivs_currency :: string
  ivs_due_days :: nat
  ivs_terms :: string
  ivs_client_list :: "pk option"
  ivs_materials_list :: "pk option"

definition default_invoice_settings :: invoice_settings where
  "default_invoice_settings = \<lparr>ivs_prefix = ''INV'', ivs_starting_number = 1, ivs_currency = ''GEL'',
     ivs_due_days = 30, ivs_terms = '''', ivs_client_list = None, ivs_materials_list = None\<rparr>"

record invoice =
  iv_pk :: pk
  iv_number :: string
  iv_status :: invoice_status
  iv_client :: "pk option"
  iv_list_client :: "pk option"
  iv_client_name :: string
  iv_issue :: date
  iv_due :: date
  iv_sent_date :: "datetime option"
  iv_paid_date :: "datetime option"
  iv_currency :: string
  iv_subtotal :: decimal
  iv_tax :: decimal
  iv_discount :: decimal
  iv_total :: decimal
  iv_paid :: decimal
  iv_notes :: string
  iv_terms :: string
  iv_template :: "pk option"
  iv_created_by :: "pk option"
  iv_created_at :: datetime

datatype item_source = Source_product | Source_list_item | Source_manual

record line_item =
  li_pk :: pk
  li_invoice :: pk
  li_source :: item_source
  li_product :: "pk option"
  li_list_item :: "pk option"
  li_description :: string
  li_quantity :: decimal
  li_unit :: string
  li_unit_price :: decimal
  li_tax_rate :: decimal
  li_discount_percent :: decimal
  li_position :: nat

datatype pay_method = By_card | By_cash | By_bank_transfer | By_check | By_other

record invoice_payment =
  ip_pk :: pk
  ip_invoice :: pk
  ip_date :: datetime
  ip_amount :: decimal
  ip_method :: pay_method
  ip_notes :: string
  ip_by :: "pk option"

record invoice_template =
  it_pk :: pk
  it_name :: string
  it_default :: bool
  it_active :: bool
  it_languages :: "string list"

text \<open>Rows of other applications.  \<open>lt_price\<close> is the price in the custom data of a list item, 0
  when there is none.\<close>

record shop_client =
  sc_pk :: pk
  sc_first :: string
  sc_last :: string
  sc_email :: string
  sc_active :: bool

record list_row =
  lt_pk :: pk
  lt_list :: pk
  lt_label :: string
  lt_active :: bool
  lt_price :: decimal

record shop_product =
  pr_pk :: pk
  pr_name :: string
  pr_price :: decimal

record invoice_db =
  vd_settings :: "invoice_settings option"
  vd_invoices :: "invoice list"
  vd_lines :: "line_item list"
  vd_payments :: "invoice_payment list"
  vd_templates :: "invoice_template list"
  vd_clients :: "shop_client list"
  vd_list_rows :: "list_row list"
  vd_products :: "shop_product list"

text \<open>\<^verbatim>\<open>InvoiceSettings.objects.get_or_create()\<close>: the row is a singleton.\<close>

definition settings_of :: "invoice_db \<Rightarrow> invoice_settings" where
  "settings_of db = (case vd_settings db of Some s \<Rightarrow> s | None \<Rightarrow> default_invoice_settings)"

definition ensure_settings :: "invoice_db \<Rightarrow> invoice_db" where
  "ensure_settings db = db\<lparr>vd_settings := Some (settings_of db)\<rparr>"

definition invoice_lines :: "invoice_db \<Rightarrow> pk \<Rightarrow> line_item list" where
  "invoice_lines db k = filter (\<lambda>l. li_invoice l = k) (vd_lines db)"

definition invoice_payments :: "invoice_db \<Rightarrow> pk \<Rightarrow> invoice_payment list" where
  "invoice_payments db k = filter (\<lambda>p. ip_invoice p = k) (vd_payments db)"

definition payments_sum :: "invoice_db \<Rightarrow> pk \<Rightarrow> decimal" where
  "payments_sum db k = (\<Sum>p\<leftarrow>invoice_payments db k. ip_amount p)"

subsection \<open>Line items\<close>

definition line_subtotal :: "line_item \<Rightarrow> decimal" where
  "line_subtotal l = li_quantity l * li_unit_price l"

definition line_discount :: "line_item \<Rightarrow> decimal" where
  "line_discount l = line_subtotal l * li_discount_percent l / 100"

definition taxable_amount :: "line_item \<Rightarrow> decimal" where
  "taxable_amount l = line_subtotal l - line_discount l"

definition line_tax :: "line_item \<Rightarrow> decimal" where
  "line_tax l = taxable_amount l * li_tax_rate l / 100"

definition line_total :: "line_item \<Rightarrow> decimal" where
  "line_total l = taxable_amount l"

text \<open>What \<^verbatim>\<open>InvoiceLineItem.save\<close> fills in before the row is written: a missing description, and
  a unit price that is not set or zero.\<close>

definition fill_line :: "invoice_db \<Rightarrow> line_item \<Rightarrow> line_item" where
  "fill_line db l =
     (let product = Option.bind (li_product l) (\<lambda>k. row_get pr_pk k (vd_products db));
          item = Option.bind (li_list_item l) (\<lambda>k. row_get lt_pk k (vd_list_rows db));
          l1 = (if li_description l = '''' then
                  (case (product, item) of
                     (Some p, _) \<Rightarrow> l\<lparr>li_description := pr_name p\<rparr>
                   | (None, Some i) \<Rightarrow> l\<lparr>li_description := lt_label i\<rparr>
                   | _ \<Rightarrow> l)
                else l)
      in if li_unit_price l1 = 0 then
           (case (product, item) of
              (Some p, _) \<Rightarrow> l1\<lparr>li_unit_price := pr_price p\<rparr>
            | (None, Some i) \<Rightarrow> l1\<lparr>li_unit_price := round_half_up 2 (lt_price i)\<rparr>
            | _ \<Rightarrow> l1)
         else l1)"

subsection \<open>Totals, balance and payment status\<close>

definition calculate_totals :: "line_item list \<Rightarrow> invoice \<Rightarrow> invoice" where
  "calculate_totals ls v =
     (let subtotal = (\<Sum>l\<leftarrow>ls. line_total l); tax = (\<Sum>l\<leftarrow>ls. line_tax l)
      in v\<lparr>iv_subtotal := subtotal, iv_tax := tax, iv_total := subtotal + tax - iv_discount v\<rparr>)"

definition get_balance :: "invoice \<Rightarrow> decimal" where
  "get_balance v = iv_total v - iv_paid v"

definition is_overdue :: "date \<Rightarrow> invoice \<Rightarrow> bool" where
  "is_overdue today v =
     (if iv_status v \<in> {Invoice_paid, Invoice_cancelled, Invoice_draft} then False else iv_due v < today)"

definition overdue_eligible :: "invoice_status list" where
  "overdue_eligible = [Invoice_sent, Invoice_viewed, Invoice_partially_paid, Invoice_overdue]"

definition overdue_q :: "date \<Rightarrow> invoice \<Rightarrow> bool" where
  "overdue_q today v \<longleftrightarrow> iv_due v < today \<and> iv_status v \<in> set overdue_eligible"

text \<open>The row the database keeps of an instance.\<close>

definition invoice_columns :: "invoice \<Rightarrow> invoice" where
  "invoice_columns v = v\<lparr>iv_subtotal := round_half_up 2 (iv_subtotal v), iv_tax := round_half_up 2 (iv_tax v),
     iv_total := round_half_up 2 (iv_total v)\<rparr>"

definition save_invoice :: "invoice \<Rightarrow> invoice_db \<Rightarrow> invoice_db" where
  "save_invoice v db = db\<lparr>vd_invoices := row_save iv_pk (invoice_columns v) (vd_invoices db)\<rparr>"

text \<open>The methods below return the instance that is saved last; \<open>now\<close> is \<^verbatim>\<open>timezone.now()\<close>.\<close>

definition mark_as_paid :: "datetime \<Rightarrow> invoice \<Rightarrow> invoice" where
  "mark_as_paid now v = v\<lparr>iv_status := Invoice_paid, iv_paid := iv_total v, iv_paid_date := Some now\<rparr>"

definition update_payment_status :: "datetime \<Rightarrow> invoice \<Rightarrow> invoice" where
  "update_payment_status now v =
     (if iv_total v \<le> iv_paid v then v\<lparr>iv_status := Invoice_paid, iv_paid_date := Some now\<rparr>
      else if 0 < iv_paid v then v\<lparr>iv_status := Invoice_partially_paid\<rparr>
      else if is_overdue (date_of now) v then v\<lparr>iv_status := Invoice_overdue\<rparr>
      else v)"

definition recompute_paid_amount :: "datetime \<Rightarrow> decimal \<Rightarrow> invoice \<Rightarrow> invoice" where
  "recompute_paid_amount now total_paid v =
     (let v1 = v\<lparr>iv_paid := total_paid, iv_paid_date := None\<rparr>
      in if total_paid \<le> 0 then
           let v2 = (if iv_status v1 \<in> {Invoice_paid, Invoice_partially_paid}
                     then v1\<lparr>iv_status := Invoice_sent\<rparr> else v1)
           in if iv_status v2 \<in> {Invoice_draft, Invoice_cancelled} then v2
              else update_payment_status now v2
         else update_payment_status now v1)"

text \<open>Recomputing an instance from the payment rows and saving it.\<close>

definition recompute :: "datetime \<Rightarrow> invoice \<Rightarrow> invoice_db \<Rightarrow> invoice \<times> invoice_db" where
  "recompute now v db =
     (let v' = recompute_paid_amount now (payments_sum db (iv_pk v)) v in (v', save_invoice v' db))"

subsection \<open>Numbers\<close>

text \<open>\<^verbatim>\<open>order_by('-created_at').first()\<close>\<close>

definition latest_invoice :: "invoice list \<Rightarrow> invoice option" where
  "latest_invoice vs = find (\<lambda>v. \<forall>w \<in> set vs. iv_created_at w \<le> iv_created_at v) (rev vs)"

definition number_stem :: "invoice_settings \<Rightarrow> datetime \<Rightarrow> string" where
  "number_stem s now = ivs_prefix s @ ''-'' @ nat_text (nat (year_of (date_of now)))"

definition get_next_invoice_number :: "invoice_db \<Rightarrow> invoice_settings \<Rightarrow> datetime \<Rightarrow> string" where
  "get_next_invoice_number db s now =
     (let next_sequence =
            (case latest_invoice (filter (\<lambda>v. starts_with (number_stem s now) (iv_number v)) (vd_invoices db)) of
               None \<Rightarrow> ivs_starting_number s
             | Some v \<Rightarrow>
                 (case read_int (last (split_on (CHR ''-'') (iv_number v))) of
                    None \<Rightarrow> ivs_starting_number s
                  | Some n \<Rightarrow> nat (n + 1)))
      in number_stem s now @ ''-'' @ pad_zeros 4 (nat_text next_sequence))"

subsection \<open>Templates\<close>

text \<open>\<^verbatim>\<open>InvoiceTemplate.save\<close>: a default template clears the flag of every other one first.\<close>

definition clear_default :: "invoice_template \<Rightarrow> invoice_template list \<Rightarrow> invoice_template list" where
  "clear_default t ts = (if it_default t then map (\<lambda>u. if it_default u then u\<lparr>it_default := False\<rparr> else u) ts else ts)"

definition save_template :: "invoice_template \<Rightarrow> invoice_db \<Rightarrow> invoice_db" where
  "save_template t db =
     (let ts = clear_default t (vd_templates db)
      in db\<lparr>vd_templates := (if it_pk t \<in> it_pk ` set ts then row_save it_pk t ts else row_create t ts)\<rparr>)"

end
