(* ===== verification/Invoice_Ops.thy ===== *)
theory Invoice_Ops
  imports Invoice_Model
begin

text \<open>
  The endpoints of invoicing (\<^verbatim>\<open>invoices/serializers.py\<close>, \<^verbatim>\<open>invoices/views.py\<close>).  A request holds
  what the serializer fields parsed; an absent field is None.  A refusal is an \<open>Inl\<close> and leaves
  the tables as they were, except that a missing settings row may have been created.  In an edit of
  an invoice the line items given are complete (the form in which a PATCH leaves out columns of a
  line is not modelled).
\<close>

datatype invoice_error =
    Invoice_not_found | Only_drafts | Client_unknown pk | Due_before_issue | Bad_line
  | Product_required | List_item_required | Description_required | Duplicate_number
  | No_invoice_given | Payment_on_cancelled | Exceeds_balance decimal | Bad_amount | Payment_not_found
  | Cancelled_not_payable | Template_unknown | No_client_to_copy | Finalize_first | Recipient_required | Line_not_found

subsection \<open>Clients\<close>

datatype resolved_client = Shop_client pk string | List_client pk string

definition shop_client_name :: "shop_client \<Rightarrow> string" where
  "shop_client_name c =
     (let full = strip (sc_first c @ '' '' @ sc_last c) in if full = '''' then sc_email c else full)"

definition validate_client :: "invoice_db \<Rightarrow> pk \<Rightarrow> resolved_client option" where
  "validate_client db k =
     (case ivs_client_list (settings_of db) of
        Some l \<Rightarrow>
          (case row_get lt_pk k (vd_list_rows db) of
             Some r \<Rightarrow> if lt_list r = l then Some (List_client (lt_pk r) (lt_label r)) else None
           | None \<Rightarrow> None)
      | None \<Rightarrow> map_option (\<lambda>c. Shop_client (sc_pk c) (shop_client_name c)) (row_get sc_pk k (vd_clients db)))"

definition set_client :: "resolved_client \<Rightarrow> invoice \<Rightarrow> invoice" where
  "set_client c v =
     (case c of
        List_client k label \<Rightarrow> v\<lparr>iv_list_client := Some k, iv_client := None, iv_client_name := label\<rparr>
      | Shop_client k name \<Rightarrow> v\<lparr>iv_client := Some k, iv_list_client := None, iv_client_name := name\<rparr>)"

subsection \<open>Line items\<close>

record line_data =
  ld_source :: item_source
  ld_product :: "pk option"
  ld_list_item :: "pk option"
  ld_description :: string
  ld_quantity :: decimal
  ld_unit :: string
  ld_unit_price :: decimal
  ld_tax_rate :: decimal
  ld_discount_percent :: decimal
  ld_position :: nat

text \<open>The lower bound of quantities and payments is the float 0.01, which is a little more than one
  hundredth; a \<^verbatim>\<open>Decimal\<close> is compared with it exactly.\<close>

definition float_cent :: decimal where
  "float_cent = 5764607523034235 / 576460752303423488"

definition source_error :: "item_source \<Rightarrow> pk option \<Rightarrow> pk option \<Rightarrow> string \<Rightarrow> invoice_error option" where
  "source_error source product item description =
     (if source = Source_product \<and> product = None then Some Product_required
      else if source = Source_list_item \<and> item = None then Some List_item_required
      else if source = Source_manual \<and> description = '''' then Some Description_required
      else None)"

definition percent_ok :: "decimal \<Rightarrow> bool" where
  "percent_ok x \<longleftrightarrow> 0 \<le> x \<and> x \<le> 100"

definition refs_ok :: "invoice_db \<Rightarrow> pk option \<Rightarrow> pk option \<Rightarrow> bool" where
  "refs_ok db product item \<longleftrightarrow>
     (case product of None \<Rightarrow> True | Some k \<Rightarrow> k \<in> pr_pk ` set (vd_products db))
     \<and> (case item of None \<Rightarrow> True | Some k \<Rightarrow> k \<in> lt_pk ` set (vd_list_rows db))"

definition line_error :: "invoice_db \<Rightarrow> line_data \<Rightarrow> invoice_error option" where
  "line_error db d =
     (if \<not> (ld_description d \<noteq> '''' \<and> float_cent \<le> ld_quantity d \<and> 0 \<le> ld_unit_price d
            \<and> percent_ok (ld_tax_rate d) \<and> percent_ok (ld_discount_percent d)
            \<and> refs_ok db (ld_product d) (ld_list_item d)) then Some Bad_line
      else source_error (ld_source d) (ld_product d) (ld_list_item d) (ld_description d))"

definition first_line_error :: "invoice_db \<Rightarrow> line_data list \<Rightarrow> invoice_error option" where
  "first_line_error db ds = (case List.map_filter (line_error db) ds of [] \<Rightarrow> None | e # _ \<Rightarrow> Some e)"

definition line_of :: "pk \<Rightarrow> pk \<Rightarrow> line_data \<Rightarrow> line_item" where
  "line_of k invoice d = \<lparr>li_pk = k, li_invoice = invoice, li_source = ld_source d, li_product = ld_product d,
     li_list_item = ld_list_item d, li_description = ld_description d, li_quantity = ld_quantity d,
     li_unit = ld_unit d, li_unit_price = ld_unit_price d, li_tax_rate = ld_tax_rate d,
     li_discount_percent = ld_discount_percent d, li_position = ld_position d\<rparr>"

text \<open>
  Where \<^verbatim>\<open>invoice.line_items.all()\<close> reads from: the table (an instance that was not prefetched), or
  the prefetched queryset of the instance, which reads the table once, at its first use after it
  was emptied, and keeps what it read.
\<close>

datatype line_source = From_table | Prefetched "line_item list option"

definition read_lines :: "invoice_db \<Rightarrow> pk \<Rightarrow> line_source \<Rightarrow> line_item list \<times> line_source" where
  "read_lines db k src =
     (case src of
        From_table \<Rightarrow> (invoice_lines db k, From_table)
      | Prefetched (Some ls) \<Rightarrow> (ls, src)
      | Prefetched None \<Rightarrow> (let ls = invoice_lines db k in (ls, Prefetched (Some ls))))"

definition retotal :: "invoice \<times> line_source \<times> invoice_db \<Rightarrow> invoice \<times> line_source \<times> invoice_db" where
  "retotal s =
     (case s of (v, src, db) \<Rightarrow>
        let (ls, src') = read_lines db (iv_pk v) src; v' = calculate_totals ls v
        in (v', src', save_invoice v' db))"

text \<open>\<^verbatim>\<open>InvoiceLineItem.objects.create(invoice=invoice, ...)\<close> and the loop over the items.\<close>

definition add_line :: "line_data \<Rightarrow> invoice \<times> line_source \<times> invoice_db \<Rightarrow> invoice \<times> line_source \<times> invoice_db" where
  "add_line d s =
     (case s of (v, src, db) \<Rightarrow>
        let l = fill_line db (line_of (next_pk li_pk (vd_lines db)) (iv_pk v) d)
        in retotal (v, src, db\<lparr>vd_lines := row_create l (vd_lines db)\<rparr>))"

fun add_lines :: "line_data list \<Rightarrow> invoice \<times> line_source \<times> invoice_db \<Rightarrow> invoice \<times> line_source \<times> invoice_db" where
  "add_lines [] s = s"
| "add_lines (d # ds) s = add_lines ds (add_line d s)"

subsection \<open>Creating an invoice\<close>

definition template_known :: "invoice_db \<Rightarrow> pk option \<Rightarrow> bool" where
  "template_known db t = (case t of None \<Rightarrow> True | Some k \<Rightarrow> k \<in> it_pk ` set (vd_templates db))"

record invoice_request =
  vr_client :: pk
  vr_issue :: "date option"
  vr_due :: date
  vr_currency :: "string option"
  vr_discount :: "decimal option"
  vr_notes :: "string option"
  vr_terms :: "string option"
  vr_template :: "pk option"
  vr_lines :: "line_data list"

definition dates_ok :: "date option \<Rightarrow> date option \<Rightarrow> bool" where
  "dates_ok issue due = (case (issue, due) of (Some i, Some d) \<Rightarrow> i \<le> d | _ \<Rightarrow> True)"

definition or_default :: "'a option \<Rightarrow> 'a \<Rightarrow> 'a" where
  "or_default x d = (case x of Some v \<Rightarrow> v | None \<Rightarrow> d)"

definition new_invoice :: "pk \<Rightarrow> string \<Rightarrow> datetime \<Rightarrow> pk option \<Rightarrow> invoice_settings \<Rightarrow> resolved_client \<Rightarrow> invoice_request \<Rightarrow> invoice" where
  "new_invoice k n now by_user s c q = set_client c
     \<lparr>iv_pk = k, iv_number = n, iv_status = Invoice_draft, iv_client = None, iv_list_client = None,
      iv_client_name = '''', iv_issue = or_default (vr_issue q) (date_of now), iv_due = vr_due q,
      iv_sent_date = None, iv_paid_date = None, iv_currency = or_default (vr_currency q) (ivs_currency s),
      iv_subtotal = 0, iv_tax = 0, iv_discount = or_default (vr_discount q) 0, iv_total = 0, iv_paid = 0,
      iv_notes = or_default (vr_notes q) '''',
      iv_terms = (let t = or_default (vr_terms q) '''' in if t = '''' then ivs_terms s else t),
      iv_template = vr_template q, iv_created_by = by_user, iv_created_at = now\<rparr>"

definition validate_invoice :: "invoice_db \<Rightarrow> invoice_request \<Rightarrow> invoice_error + resolved_client" where
  "validate_invoice db q =
     (case validate_client db (vr_client q) of
        None \<Rightarrow> Inl (Client_unknown (vr_client q))
      | Some c \<Rightarrow>
          (case first_line_error db (vr_lines q) of
             Some e \<Rightarrow> Inl e
           | None \<Rightarrow>
               if \<not> template_known db (vr_template q) then Inl Template_unknown
               else if dates_ok (vr_issue q) (Some (vr_due q)) then Inr c else Inl Due_before_issue))"

text \<open>The transaction of \<^verbatim>\<open>create\<close>: number, row, line items, totals.  A number that is taken breaks
  the unique constraint and rolls everything back.\<close>

definition create_invoice :: "datetime \<Rightarrow> pk option \<Rightarrow> invoice_request \<Rightarrow> invoice_db \<Rightarrow> invoice_error + invoice \<times> invoice_db" where
  "create_invoice now by_user q db =
     (case validate_invoice db q of
        Inl e \<Rightarrow> Inl e
      | Inr c \<Rightarrow>
          let db0 = ensure_settings db;
              s = settings_of db0;
              n = get_next_invoice_number db0 s now;
              v = new_invoice (next_pk iv_pk (vd_invoices db0)) n now by_user s c q
          in if n \<in> iv_number ` set (vd_invoices db0) then Inl Duplicate_number
             else let st = add_lines (vr_lines q)
                        (v, From_table, db0\<lparr>vd_invoices := row_create (invoice_columns v) (vd_invoices db0)\<rparr>);
                      (v', _, db') = retotal st
                  in Inr (v', db'))"

subsection \<open>Editing, finalizing and deleting a draft\<close>

record invoice_patch =
  vp_client :: "pk option"
  vp_issue :: "date option"
  vp_due :: "date option"
  vp_currency :: "string option"
  vp_discount :: "decimal option"
  vp_notes :: "string option"
  vp_terms :: "string option"
  vp_template :: "pk option option"
  vp_lines :: "line_data list option"

definition apply_patch :: "invoice_patch \<Rightarrow> invoice \<Rightarrow> invoice" where
  "apply_patch p v = v\<lparr>iv_issue := or_default (vp_issue p) (iv_issue v), iv_due := or_default (vp_due p) (iv_due v),
     iv_currency := or_default (vp_currency p) (iv_currency v),
     iv_discount := or_default (vp_discount p) (iv_discount v),
     iv_notes := or_default (vp_notes p) (iv_notes v), iv_terms := or_default (vp_terms p) (iv_terms v),
     iv_template := or_default (vp_template p) (iv_template v)\<rparr>"

definition validate_patch :: "invoice_db \<Rightarrow> invoice_patch \<Rightarrow> invoice_error + resolved_client option" where
  "validate_patch db p =
     (case (vp_client p, Option.bind (vp_client p) (validate_client db)) of
        (Some k, None) \<Rightarrow> Inl (Client_unknown k)
      | (_, c) \<Rightarrow>
          (case first_line_error db (or_default (vp_lines p) []) of
             Some e \<Rightarrow> Inl e
           | None \<Rightarrow>
               if \<not> template_known db (or_default (vp_template p) None) then Inl Template_unknown
               else if dates_ok (vp_issue p) (vp_due p) then Inr c else Inl Due_before_issue))"

text \<open>The body of the serializer's \<^verbatim>\<open>update\<close>.  The instance comes from the queryset of the view, which
  prefetches its line items; deleting them empties that cache.\<close>

definition update_body :: "invoice_patch \<Rightarrow> invoice \<Rightarrow> invoice_db \<Rightarrow> invoice \<times> line_source \<times> invoice_db" where
  "update_body p v db =
     (case vp_lines p of
        None \<Rightarrow> retotal (v, Prefetched (Some (invoice_lines db (iv_pk v))), db)
      | Some ds \<Rightarrow>
          retotal (add_lines ds
            (v, Prefetched None, db\<lparr>vd_lines := filter (\<lambda>l. li_invoice l \<noteq> iv_pk v) (vd_lines db)\<rparr>)))"

definition update_invoice :: "pk \<Rightarrow> invoice_patch \<Rightarrow> invoice_db \<Rightarrow> invoice_error + invoice \<times> invoice_db" where
  "update_invoice k p db =
     (case row_get iv_pk k (vd_invoices db) of
        None \<Rightarrow> Inl Invoice_not_found
      | Some v \<Rightarrow>
          if iv_status v \<noteq> Invoice_draft then Inl Only_drafts
          else (case validate_patch db p of
                  Inl e \<Rightarrow> Inl e
                | Inr c \<Rightarrow>
                    let v1 = (case c of None \<Rightarrow> v | Some c \<Rightarrow> set_client c v);
                        (v', _, db') = update_body p (apply_patch p v1) db
                    in Inr (v', db')))"

definition destroy_invoice :: "pk \<Rightarrow> invoice_db \<Rightarrow> invoice_error + invoice_db" where
  "destroy_invoice k db =
     (case row_get iv_pk k (vd_invoices db) of
        None \<Rightarrow> Inl Invoice_not_found
      | Some v \<Rightarrow>
          if iv_status v \<noteq> Invoice_draft then Inl Only_drafts
          else Inr (db\<lparr>vd_invoices := row_delete iv_pk k (vd_invoices db),
                 vd_lines := filter (\<lambda>l. li_invoice l \<noteq> k) (vd_lines db),
                 vd_payments := filter (\<lambda>p. ip_invoice p \<noteq> k) (vd_payments db)\<rparr>))"

definition finalize :: "pk \<Rightarrow> invoice_db \<Rightarrow> invoice_error + invoice \<times> invoice_db" where
  "finalize k db =
     (case row_get iv_pk k (vd_invoices db) of
        None \<Rightarrow> Inl Invoice_not_found
      | Some v \<Rightarrow>
          if iv_status v \<noteq> Invoice_draft then Inl Only_drafts
          else let v' = v\<lparr>iv_status := Invoice_sent\<rparr> in Inr (v', save_invoice v' db))"

definition send_email :: "datetime \<Rightarrow> pk \<Rightarrow> string \<Rightarrow> invoice_db \<Rightarrow> invoice_error + invoice_db" where
  "send_email now k recipient db =
     (case row_get iv_pk k (vd_invoices db) of
        None \<Rightarrow> Inl Invoice_not_found
      | Some v \<Rightarrow>
          if iv_status v = Invoice_draft then Inl Finalize_first
          else if recipient = '''' then Inl Recipient_required
          else Inr (save_invoice (v\<lparr>iv_sent_date := Some now\<rparr>) db))"

text \<open>\<^verbatim>\<open>duplicate\<close>: the data of the original goes through the create serializer, which looks the
  client up again under the settings of today.\<close>

definition line_data_of :: "line_item \<Rightarrow> line_data" where
  "line_data_of l = \<lparr>ld_source = li_source l, ld_product = li_product l, ld_list_item = li_list_item l,
     ld_description = li_description l, ld_quantity = li_quantity l, ld_unit = li_unit l,
     ld_unit_price = li_unit_price l, ld_tax_rate = li_tax_rate l,
     ld_discount_percent = li_discount_percent l, ld_position = li_position l\<rparr>"

definition copy_request :: "datetime \<Rightarrow> invoice_db \<Rightarrow> invoice \<Rightarrow> pk \<Rightarrow> invoice_request" where
  "copy_request now db v client =
     \<lparr>vr_client = client, vr_issue = Some (date_of now), vr_due = date_of now + 30,
      vr_currency = Some (iv_currency v), vr_discount = Some (iv_discount v), vr_notes = Some (iv_notes v),
      vr_terms = Some (iv_terms v), vr_template = iv_template v,
      vr_lines = map line_data_of (sort_key li_position (invoice_lines db (iv_pk v)))\<rparr>"

definition duplicate :: "datetime \<Rightarrow> pk option \<Rightarrow> pk \<Rightarrow> invoice_db \<Rightarrow> invoice_error + invoice \<times> invoice_db" where
  "duplicate now by_user k db =
     (case row_get iv_pk k (vd_invoices db) of
        None \<Rightarrow> Inl Invoice_not_found
      | Some v \<Rightarrow>
          (case (iv_list_client v, iv_client v) of
             (Some c, _) \<Rightarrow> create_invoice now by_user (copy_request now db v c) db
           | (None, Some c) \<Rightarrow> create_invoice now by_user (copy_request now db v c) db
           | (None, None) \<Rightarrow> Inl No_client_to_copy))"

subsection \<open>Payments\<close>

record payment_data =
  pd_invoice :: pk
  pd_amount :: decimal
  pd_date :: datetime
  pd_method :: pay_method
  pd_notes :: string

definition payment_of :: "pk \<Rightarrow> pk option \<Rightarrow> payment_data \<Rightarrow> invoice_payment" where
  "payment_of k by_user d = \<lparr>ip_pk = k, ip_invoice = pd_invoice d, ip_date = pd_date d, ip_amount = pd_amount d,
     ip_method = pd_method d, ip_notes = pd_notes d, ip_by = by_user\<rparr>"

definition validate_payment :: "invoice \<Rightarrow> decimal \<Rightarrow> decimal \<Rightarrow> invoice_error option" where
  "validate_payment v given_back amount =
     (if amount < float_cent then Some Bad_amount
      else if iv_status v = Invoice_cancelled then Some Payment_on_cancelled
      else let balance = get_balance v + given_back
           in if balance < amount then Some (Exceeds_balance balance) else None)"

definition insert_payment :: "datetime \<Rightarrow> pk option \<Rightarrow> payment_data \<Rightarrow> invoice \<Rightarrow> invoice_db \<Rightarrow> invoice \<times> invoice_db" where
  "insert_payment now by_user d v db =
     recompute now v (db\<lparr>vd_payments := row_create (payment_of (next_pk ip_pk (vd_payments db)) by_user d) (vd_payments db)\<rparr>)"

definition create_payment :: "datetime \<Rightarrow> pk option \<Rightarrow> payment_data \<Rightarrow> invoice_db \<Rightarrow> invoice_error + invoice_db" where
  "create_payment now by_user d db =
     (case row_get iv_pk (pd_invoice d) (vd_invoices db) of
        None \<Rightarrow> Inl Invoice_not_found
      | Some v \<Rightarrow>
          (case validate_payment v 0 (pd_amount d) of
             Some e \<Rightarrow> Inl e
           | None \<Rightarrow> Inr (snd (insert_payment now by_user d v db))))"

record payment_patch =
  pp_invoice :: "pk option"
  pp_amount :: "decimal option"
  pp_date :: "datetime option"
  pp_method :: "pay_method option"
  pp_notes :: "string option"

definition apply_payment_patch :: "payment_patch \<Rightarrow> invoice_payment \<Rightarrow> invoice_payment" where
  "apply_payment_patch q p = p\<lparr>ip_invoice := or_default (pp_invoice q) (ip_invoice p),
     ip_amount := or_default (pp_amount q) (ip_amount p), ip_date := or_default (pp_date q) (ip_date p),
     ip_method := or_default (pp_method q) (ip_method p), ip_notes := or_default (pp_notes q) (ip_notes p)\<rparr>"

text \<open>The amount is only held against the lower bound when it is given; the invoice that is
  recomputed is the one the payment belongs to after the change.\<close>

definition update_payment :: "datetime \<Rightarrow> pk \<Rightarrow> payment_patch \<Rightarrow> invoice_db \<Rightarrow> invoice_error + invoice_db" where
  "update_payment now k q db =
     (case row_get ip_pk k (vd_payments db) of
        None \<Rightarrow> Inl Payment_not_found
      | Some p \<Rightarrow>
          let p' = apply_payment_patch q p in
          (case row_get iv_pk (ip_invoice p') (vd_invoices db) of
             None \<Rightarrow> Inl Invoice_not_found
           | Some v \<Rightarrow>
               if (case pp_amount q of None \<Rightarrow> False | Some a \<Rightarrow> a < float_cent) then Inl Bad_amount
               else if iv_status v = Invoice_cancelled then Inl Payment_on_cancelled
               else let balance = get_balance v + (if ip_invoice p = iv_pk v then ip_amount p else 0)
                    in if balance < ip_amount p' then Inl (Exceeds_balance balance)
                       else Inr (snd (recompute now v (db\<lparr>vd_payments := row_save ip_pk p' (vd_payments db)\<rparr>)))))"

definition delete_payment :: "datetime \<Rightarrow> pk \<Rightarrow> invoice_db \<Rightarrow> invoice_error + invoice_db" where
  "delete_payment now k db =
     (case row_get ip_pk k (vd_payments db) of
        None \<Rightarrow> Inl Payment_not_found
      | Some p \<Rightarrow>
          let db1 = db\<lparr>vd_payments := row_delete ip_pk k (vd_payments db)\<rparr> in
          (case row_get iv_pk (ip_invoice p) (vd_invoices db1) of
             None \<Rightarrow> Inr db1
           | Some v \<Rightarrow> Inr (snd (recompute now v db1))))"

definition mark_paid :: "datetime \<Rightarrow> pk option \<Rightarrow> pay_method \<Rightarrow> string \<Rightarrow> pk \<Rightarrow> invoice_db \<Rightarrow> invoice_error + invoice_db" where
  "mark_paid now by_user method notes k db =
     (case row_get iv_pk k (vd_invoices db) of
        None \<Rightarrow> Inl Invoice_not_found
      | Some v \<Rightarrow>
          if iv_status v = Invoice_cancelled then Inl Cancelled_not_payable
          else if iv_status v = Invoice_paid then Inr db
          else let balance = iv_total v - iv_paid v;
                   (v1, db1) = (if 0 < balance
                     then insert_payment now by_user \<lparr>pd_invoice = k, pd_amount = balance, pd_date = now,
                            pd_method = method, pd_notes = notes\<rparr> v db
                     else (v, db))
               in Inr (save_invoice (mark_as_paid now v1) db1))"

subsection \<open>The line item endpoints\<close>

text \<open>The line item serializer has no field for the invoice, so the insert breaks the not-null
  constraint whatever the body is.\<close>

definition create_line :: "line_data \<Rightarrow> invoice_db \<Rightarrow> invoice_error + invoice_db" where
  "create_line d db = (case line_error db d of Some e \<Rightarrow> Inl e | None \<Rightarrow> Inl No_invoice_given)"

record line_patch =
  lp_source :: "item_source option"
  lp_product :: "pk option option"
  lp_list_item :: "pk option option"
  lp_description :: "string option"
  lp_quantity :: "decimal option"
  lp_unit :: "string option"
  lp_unit_price :: "decimal option"
  lp_tax_rate :: "decimal option"
  lp_discount_percent :: "decimal option"
  lp_position :: "nat option"

definition line_patch_error :: "invoice_db \<Rightarrow> line_patch \<Rightarrow> invoice_error option" where
  "line_patch_error db q =
     (if \<not> (lp_description q \<noteq> Some '''' \<and> float_cent \<le> or_default (lp_quantity q) 1
            \<and> 0 \<le> or_default (lp_unit_price q) 0 \<and> percent_ok (or_default (lp_tax_rate q) 0)
            \<and> percent_ok (or_default (lp_discount_percent q) 0)
            \<and> refs_ok db (or_default (lp_product q) None) (or_default (lp_list_item q) None)) then Some Bad_line
      else source_error (or_default (lp_source q) Source_manual) (or_default (lp_product q) None)
             (or_default (lp_list_item q) None) (or_default (lp_description q) ''''))"

definition apply_line_patch :: "line_patch \<Rightarrow> line_item \<Rightarrow> line_item" where
  "apply_line_patch q l = l\<lparr>li_source := or_default (lp_source q) (li_source l),
     li_product := or_default (lp_product q) (li_product l),
     li_list_item := or_default (lp_list_item q) (li_list_item l),
     li_description := or_default (lp_description q) (li_description l),
     li_quantity := or_default (lp_quantity q) (li_quantity l), li_unit := or_default (lp_unit q) (li_unit l),
     li_unit_price := or_default (lp_unit_price q) (li_unit_price l),
     li_tax_rate := or_default (lp_tax_rate q) (li_tax_rate l),
     li_discount_percent := or_default (lp_discount_percent q) (li_discount_percent l),
     li_position := or_default (lp_position q) (li_position l)\<rparr>"

definition update_line :: "pk \<Rightarrow> line_patch \<Rightarrow> invoice_db \<Rightarrow> invoice_error + invoice_db" where
  "update_line k q db =
     (case row_get li_pk k (vd_lines db) of
        None \<Rightarrow> Inl Line_not_found
      | Some l \<Rightarrow>
          (case line_patch_error db q of
             Some e \<Rightarrow> Inl e
           | None \<Rightarrow>
               let db1 = db\<lparr>vd_lines := row_save li_pk (fill_line db (apply_line_patch q l)) (vd_lines db)\<rparr>
               in (case row_get iv_pk (li_invoice l) (vd_invoices db1) of
                     None \<Rightarrow> Inl Invoice_not_found
                   | Some v \<Rightarrow> Inr (snd (snd (retotal (v, From_table, db1)))))))"

definition delete_line :: "pk \<Rightarrow> invoice_db \<Rightarrow> invoice_error + invoice_db" where
  "delete_line k db =
     (if k \<in> li_pk ` set (vd_lines db) then Inr (db\<lparr>vd_lines := row_delete li_pk k (vd_lines db)\<rparr>)
      else Inl Line_not_found)"

definition reorder :: "(pk \<times> nat) list \<Rightarrow> invoice_db \<Rightarrow> invoice_db" where
  "reorder items db = db\<lparr>vd_lines := map (\<lambda>l. case map_of (rev items) (li_pk l) of
     Some n \<Rightarrow> l\<lparr>li_position := n\<rparr> | None \<Rightarrow> l) (vd_lines db)\<rparr>"

subsection \<open>Lists, statistics and settings\<close>

definition CanManageInvoices :: "user option \<Rightarrow> string list \<Rightarrow> bool" where
  "CanManageInvoices u keys = (case u of None \<Rightarrow> False | Some u \<Rightarrow> has_feature u keys ''invoice_management'')"

definition filter_status :: "date \<Rightarrow> invoice_status option \<Rightarrow> invoice list \<Rightarrow> invoice list" where
  "filter_status today value vs =
     (case value of
        None \<Rightarrow> vs
      | Some st \<Rightarrow> if st = Invoice_overdue then filter (overdue_q today) vs else filter (\<lambda>v. iv_status v = st) vs)"

definition filter_overdue :: "date \<Rightarrow> bool option \<Rightarrow> invoice list \<Rightarrow> invoice list" where
  "filter_overdue today value vs = (if value = Some True then filter (overdue_q today) vs else vs)"

definition filter_dates :: "date option \<Rightarrow> date option \<Rightarrow> invoice list \<Rightarrow> invoice list" where
  "filter_dates from_date to_date vs =
     filter (\<lambda>v. (case from_date of None \<Rightarrow> True | Some d \<Rightarrow> d \<le> iv_issue v)
       \<and> (case to_date of None \<Rightarrow> True | Some d \<Rightarrow> iv_issue v \<le> d)) vs"

record invoice_stats =
  st_invoiced :: decimal
  st_paid :: decimal
  st_count :: nat
  st_outstanding :: decimal
  st_overdue :: nat

definition month_start :: "datetime \<Rightarrow> datetime" where
  "month_start now = month_first (year_of (date_of now)) (month_of (date_of now)) * us_per_day"

definition stats :: "datetime \<Rightarrow> invoice_db \<Rightarrow> invoice_stats" where
  "stats now db =
     (let current_month = filter (\<lambda>v. month_start now \<le> iv_created_at v) (vd_invoices db)
      in \<lparr>st_invoiced = (\<Sum>v\<leftarrow>current_month. iv_total v),
          st_paid = (\<Sum>v\<leftarrow>filter (\<lambda>v. iv_status v = Invoice_paid) current_month. iv_total v),
          st_count = length current_month,
          st_outstanding = (\<Sum>v\<leftarrow>filter (\<lambda>v. iv_status v \<notin> {Invoice_paid, Invoice_cancelled}) (vd_invoices db). iv_total v),
          st_overdue = length (filter (overdue_q (date_of now)) (vd_invoices db))\<rparr>)"

text \<open>Bank accounts are given as JSON: None when the value is not a list, else the keys of each account.\<close>

definition validate_bank_accounts :: "string list list option \<Rightarrow> bool" where
  "validate_bank_accounts value =
     (case value of None \<Rightarrow> False
      | Some accounts \<Rightarrow> \<forall>a \<in> set accounts. ''bank_name'' \<in> set a \<and> ''account_number'' \<in> set a)"

definition validate_supported_languages :: "string list option \<Rightarrow> bool" where
  "validate_supported_languages value =
     (case value of None \<Rightarrow> False | Some langs \<Rightarrow> \<forall>l \<in> set langs. l \<in> {''en'', ''ka'', ''ru''})"

definition update_settings :: "(invoice_settings \<Rightarrow> invoice_settings) \<Rightarrow> invoice_db \<Rightarrow> invoice_db" where
  "update_settings f db = db\<lparr>vd_settings := Some (f (settings_of db))\<rparr>"

text \<open>The clients and the materials an invoice can use.\<close>

definition client_choices :: "invoice_db \<Rightarrow> pk list" where
  "client_choices db =
     (case ivs_client_list (settings_of db) of
        Some l \<Rightarrow> map lt_pk (filter (\<lambda>r. lt_list r = l \<and> lt_active r) (vd_list_rows db))
      | None \<Rightarrow> map sc_pk (filter sc_active (vd_clients db)))"

definition materials :: "invoice_db \<Rightarrow> list_row list" where
  "materials db =
     (case ivs_materials_list (settings_of db) of
        Some l \<Rightarrow> filter (\<lambda>r. lt_active r \<and> lt_list r = l) (vd_list_rows db)
      | None \<Rightarrow> [])"

end
