(* ===== verification/Invoice_Facts.thy ===== *)
theory Invoice_Facts
  imports Invoice_Ops
begin

text \<open>
  What the operations of invoicing keep: the paid amount of every invoice against its payment
  rows, and the numbers.  An edit of a payment may move it to another invoice, and nothing recomputes
  the invoice it leaves (\<open>moved_payment_drifts\<close>); so what is kept is relative to a set \<open>M\<close> of
  invoices that payments may leave.
\<close>

subsection \<open>Frame of the writes\<close>

lemma invoice_columns_simps [simp]:
  "iv_pk (invoice_columns v) = iv_pk v" "iv_paid (invoice_columns v) = iv_paid v"
  "iv_status (invoice_columns v) = iv_status v" "iv_number (invoice_columns v) = iv_number v"
  "iv_created_at (invoice_columns v) = iv_created_at v" "iv_discount (invoice_columns v) = iv_discount v"
  "iv_total (invoice_columns v) = round_half_up 2 (iv_total v)"
  "iv_subtotal (invoice_columns v) = round_half_up 2 (iv_subtotal v)"
  "iv_tax (invoice_columns v) = round_half_up 2 (iv_tax v)"
  by (simp_all add: invoice_columns_def)

lemma save_invoice_simps [simp]:
  "vd_payments (save_invoice v db) = vd_payments db" "vd_lines (save_invoice v db) = vd_lines db"
  "vd_settings (save_invoice v db) = vd_settings db"
  "vd_invoices (save_invoice v db) = row_save iv_pk (invoice_columns v) (vd_invoices db)"
  by (simp_all add: save_invoice_def)

lemma calculate_totals_simps [simp]:
  "iv_pk (calculate_totals ls v) = iv_pk v" "iv_paid (calculate_totals ls v) = iv_paid v"
  "iv_status (calculate_totals ls v) = iv_status v" "iv_number (calculate_totals ls v) = iv_number v"
  "iv_created_at (calculate_totals ls v) = iv_created_at v" "iv_discount (calculate_totals ls v) = iv_discount v"
  by (simp_all add: calculate_totals_def Let_def)

lemma update_payment_status_simps [simp]:
  "iv_pk (update_payment_status now v) = iv_pk v" "iv_paid (update_payment_status now v) = iv_paid v"
  "iv_number (update_payment_status now v) = iv_number v" "iv_total (update_payment_status now v) = iv_total v"
  "iv_created_at (update_payment_status now v) = iv_created_at v"
  by (simp_all add: update_payment_status_def)

lemma recompute_paid_amount_simps [simp]:
  "iv_pk (recompute_paid_amount now x v) = iv_pk v" "iv_paid (recompute_paid_amount now x v) = x"
  "iv_number (recompute_paid_amount now x v) = iv_number v" "iv_total (recompute_paid_amount now x v) = iv_total v"
  "iv_created_at (recompute_paid_amount now x v) = iv_created_at v"
  by (simp_all add: recompute_paid_amount_def Let_def)

lemma mark_as_paid_simps [simp]:
  "iv_pk (mark_as_paid now v) = iv_pk v" "iv_paid (mark_as_paid now v) = iv_total v"
  "iv_status (mark_as_paid now v) = Invoice_paid" "iv_number (mark_as_paid now v) = iv_number v"
  "iv_created_at (mark_as_paid now v) = iv_created_at v"
  by (simp_all add: mark_as_paid_def)

lemma set_client_simps [simp]:
  "iv_pk (set_client c v) = iv_pk v" "iv_paid (set_client c v) = iv_paid v"
  "iv_status (set_client c v) = iv_status v" "iv_number (set_client c v) = iv_number v"
  "iv_created_at (set_client c v) = iv_created_at v" "iv_discount (set_client c v) = iv_discount v"
  by (simp_all add: set_client_def split: resolved_client.splits)

lemma apply_patch_simps [simp]:
  "iv_pk (apply_patch p v) = iv_pk v" "iv_paid (apply_patch p v) = iv_paid v"
  "iv_status (apply_patch p v) = iv_status v" "iv_number (apply_patch p v) = iv_number v"
  "iv_created_at (apply_patch p v) = iv_created_at v"
  by (simp_all add: apply_patch_def)

lemma new_invoice_simps [simp]:
  "iv_pk (new_invoice k n now u s c q) = k" "iv_paid (new_invoice k n now u s c q) = 0"
  "iv_status (new_invoice k n now u s c q) = Invoice_draft" "iv_number (new_invoice k n now u s c q) = n"
  "iv_created_at (new_invoice k n now u s c q) = now"
  by (simp_all add: new_invoice_def)

lemma ensure_settings_simps [simp]:
  "vd_invoices (ensure_settings db) = vd_invoices db" "vd_lines (ensure_settings db) = vd_lines db"
  "vd_payments (ensure_settings db) = vd_payments db" "settings_of (ensure_settings db) = settings_of db"
  by (simp_all add: ensure_settings_def settings_of_def)

lemma line_of_simps [simp]: "li_pk (line_of k i d) = k" "li_invoice (line_of k i d) = i"
  by (simp_all add: line_of_def)

lemma fill_line_simps [simp]: "li_pk (fill_line db l) = li_pk l" "li_invoice (fill_line db l) = li_invoice l"
  by (simp_all add: fill_line_def Let_def split: option.splits)

text \<open>Every change of the line items is a sequence of writes of one invoice, with its money and its
  number unchanged; \<open>line_writes\<close> is what such a sequence leaves.\<close>

definition line_writes :: "invoice \<Rightarrow> invoice_db \<Rightarrow> invoice \<Rightarrow> invoice_db \<Rightarrow> bool" where
  "line_writes v db v' db' \<longleftrightarrow>
     iv_pk v' = iv_pk v \<and> iv_paid v' = iv_paid v \<and> iv_status v' = iv_status v \<and> iv_number v' = iv_number v
     \<and> iv_created_at v' = iv_created_at v \<and> iv_discount v' = iv_discount v
     \<and> vd_payments db' = vd_payments db \<and> vd_settings db' = vd_settings db
     \<and> (vd_invoices db' = vd_invoices db \<and> v' = v
        \<or> vd_invoices db' = row_save iv_pk (invoice_columns v') (vd_invoices db))"

lemma keys_row_save [simp]: "key ` set (row_save key r t) = key ` set t"
  by (metis list.set_map map_key_row_save)

lemma row_save_twice: "key a = key b \<Longrightarrow> row_save key a (row_save key b t) = row_save key a t"
  by (simp add: row_save_def)

lemma line_writes_trans:
  assumes "line_writes v db v1 db1" and "line_writes v1 db1 v2 db2"
  shows "line_writes v db v2 db2"
  using assms unfolding line_writes_def by (auto simp: row_save_twice)

lemma retotal_writes: "retotal (v, src, db) = (v', src', db') \<Longrightarrow> line_writes v db v' db'"
  by (auto simp: retotal_def line_writes_def Let_def split: prod.splits)

lemma add_line_writes: "add_line d (v, src, db) = (v', src', db') \<Longrightarrow> line_writes v db v' db'"
  using retotal_writes [of v src "db\<lparr>vd_lines := row_create (fill_line db (line_of (next_pk li_pk (vd_lines db)) (iv_pk v) d)) (vd_lines db)\<rparr>" v' src' db']
  by (simp add: add_line_def Let_def line_writes_def)

lemma add_lines_writes: "add_lines ds (v, src, db) = (v', src', db') \<Longrightarrow> line_writes v db v' db'"
proof (induction ds arbitrary: v src db)
  case Nil
  then show ?case by (simp add: line_writes_def)
next
  case (Cons d ds)
  obtain v1 src1 db1 where s1: "add_line d (v, src, db) = (v1, src1, db1)" by (metis prod_cases3)
  then have "line_writes v1 db1 v' db'" using Cons by simp
  with add_line_writes [OF s1] show ?case by (rule line_writes_trans)
qed

lemma retotal_add_lines_writes:
  assumes "retotal (add_lines ds (v, src, db)) = (v', src', db')"
  shows "line_writes v db v' db'" and "vd_invoices db' = row_save iv_pk (invoice_columns v') (vd_invoices db)"
proof -
  obtain v1 src1 db1 where s1: "add_lines ds (v, src, db) = (v1, src1, db1)" by (metis prod_cases3)
  then have r: "line_writes v1 db1 v' db'" using assms retotal_writes by simp
  have w: "line_writes v db v1 db1" using s1 by (rule add_lines_writes)
  show "line_writes v db v' db'" using line_writes_trans [OF w r] .
  have "vd_invoices db' = row_save iv_pk (invoice_columns v') (vd_invoices db1)" "iv_pk v' = iv_pk v1"
    using assms s1 by (auto simp: retotal_def Let_def split: prod.splits)
  then show "vd_invoices db' = row_save iv_pk (invoice_columns v') (vd_invoices db)"
    using w by (auto simp: line_writes_def row_save_twice)
qed

subsection \<open>The payment rows and the paid amount\<close>

definition ledger_row :: "invoice_db \<Rightarrow> invoice \<Rightarrow> bool" where
  "ledger_row db v \<longleftrightarrow> iv_paid v \<le> payments_sum db (iv_pk v)
     \<and> (iv_status v \<noteq> Invoice_paid \<longrightarrow> iv_paid v = payments_sum db (iv_pk v))"

definition ledger_tables :: "invoice_db \<Rightarrow> bool" where
  "ledger_tables db \<longleftrightarrow> distinct (map iv_pk (vd_invoices db)) \<and> distinct (map ip_pk (vd_payments db))
     \<and> (\<forall>p \<in> set (vd_payments db). ip_invoice p \<in> iv_pk ` set (vd_invoices db) \<and> 0 < ip_amount p)"

definition ledger_ok :: "pk set \<Rightarrow> invoice_db \<Rightarrow> bool" where
  "ledger_ok M db \<longleftrightarrow> ledger_tables db \<and> (\<forall>v \<in> set (vd_invoices db). iv_pk v \<notin> M \<longrightarrow> ledger_row db v)"

lemma payments_sum_cong: "vd_payments db = vd_payments db' \<Longrightarrow> payments_sum db k = payments_sum db' k"
  by (simp add: payments_sum_def invoice_payments_def)

lemma ledger_row_cong: "vd_payments db = vd_payments db' \<Longrightarrow> ledger_row db v = ledger_row db' v"
  by (simp add: ledger_row_def payments_sum_cong [of db db'])

lemma ledger_columns [simp]: "ledger_row db (invoice_columns v) = ledger_row db v"
  by (simp add: ledger_row_def)

lemma ledger_save:
  assumes "ledger_tables db" and "\<And>v. v \<in> set (vd_invoices db) \<Longrightarrow> iv_pk v \<noteq> iv_pk v' \<Longrightarrow> iv_pk v \<notin> M \<Longrightarrow> ledger_row db v"
    and "iv_pk v' \<notin> M \<Longrightarrow> ledger_row db v'" and "vd_payments db' = vd_payments db"
    and "vd_invoices db' = row_save iv_pk (invoice_columns v') (vd_invoices db)"
  shows "ledger_ok M db'"
proof -
  have "ledger_tables db'" using assms by (simp add: ledger_tables_def)
  moreover have "ledger_row db' v" if "v \<in> set (vd_invoices db')" "iv_pk v \<notin> M" for v
    using that assms(2,3) by (auto simp: assms(5) set_row_save ledger_row_cong [OF assms(4)] split: if_splits)
  ultimately show ?thesis by (simp add: ledger_ok_def)
qed

lemma ledger_line_writes:
  assumes "ledger_tables db" and "\<And>w. w \<in> set (vd_invoices db) \<Longrightarrow> iv_pk w \<noteq> iv_pk v \<Longrightarrow> iv_pk w \<notin> M \<Longrightarrow> ledger_row db w"
    and "iv_pk v \<notin> M \<Longrightarrow> ledger_row db v" and "line_writes v db v' db'"
    and "vd_invoices db' = row_save iv_pk (invoice_columns v') (vd_invoices db)"
  shows "ledger_ok M db'"
proof (rule ledger_save [OF assms(1) _ _ _ assms(5)])
  show "ledger_row db v'" if "iv_pk v' \<notin> M"
    using assms(3,4) that by (simp add: ledger_row_def line_writes_def)
  show "vd_payments db' = vd_payments db" using assms(4) by (simp add: line_writes_def)
  show "ledger_row db w" if "w \<in> set (vd_invoices db)" "iv_pk w \<noteq> iv_pk v'" "iv_pk w \<notin> M" for w
    using assms(2,4) that by (simp add: line_writes_def)
qed

text \<open>Recomputing an invoice restores its row, whatever it held before.\<close>

lemma ledger_recompute:
  assumes "ledger_tables db" and "\<And>w. w \<in> set (vd_invoices db) \<Longrightarrow> iv_pk w \<noteq> iv_pk v \<Longrightarrow> iv_pk w \<notin> M \<Longrightarrow> ledger_row db w"
  shows "ledger_ok M (snd (recompute now v db))"
proof (rule ledger_save [OF assms(1), of "fst (recompute now v db)"])
  show "ledger_row db w" if "w \<in> set (vd_invoices db)" "iv_pk w \<noteq> iv_pk (fst (recompute now v db))" "iv_pk w \<notin> M" for w
    using assms(2) that by (simp add: recompute_def Let_def)
qed (simp_all add: recompute_def Let_def ledger_row_def)

lemma invoice_row: "row_get iv_pk k (vd_invoices db) = Some v \<Longrightarrow> v \<in> set (vd_invoices db) \<and> iv_pk v = k"
  by (rule row_get_Some)

lemma payments_sum_insert:
  "payments_sum (db\<lparr>vd_payments := row_create p ps\<rparr>) k
    = (\<Sum>q\<leftarrow>filter (\<lambda>q. ip_invoice q = k) ps. ip_amount q) + (if ip_invoice p = k then ip_amount p else 0)"
  by (simp add: payments_sum_def invoice_payments_def row_create_def)

lemma ledger_row_other:
  assumes "ledger_row db v" and "filter (\<lambda>q. ip_invoice q = iv_pk v) ps = filter (\<lambda>q. ip_invoice q = iv_pk v) (vd_payments db)"
  shows "ledger_row (db\<lparr>vd_payments := ps\<rparr>) v"
  using assms by (simp add: ledger_row_def payments_sum_def invoice_payments_def)

lemma filter_row_save_other:
  "\<not> P r \<Longrightarrow> (\<And>x. x \<in> set t \<Longrightarrow> key x = key r \<Longrightarrow> \<not> P x) \<Longrightarrow> filter P (row_save key r t) = filter P t"
  by (induction t) (auto simp: row_save_def)

lemma filter_row_delete_other:
  "(\<And>x. x \<in> set t \<Longrightarrow> key x = k \<Longrightarrow> \<not> P x) \<Longrightarrow> filter P (row_delete key k t) = filter P t"
  by (induction t) (auto simp: row_delete_def)

lemma unique_row: "distinct (map key t) \<Longrightarrow> x \<in> set t \<Longrightarrow> y \<in> set t \<Longrightarrow> key x = key y \<Longrightarrow> x = y"
  by (auto simp: distinct_map inj_on_def)

text \<open>A payment inserted for an existing invoice.\<close>

lemma insert_payment_tables:
  assumes "ledger_tables db" and "pd_invoice d \<in> iv_pk ` set (vd_invoices db)" and "0 < pd_amount d"
  shows "ledger_tables (db\<lparr>vd_payments := row_create (payment_of (next_pk ip_pk (vd_payments db)) u d) (vd_payments db)\<rparr>)"
  using assms by (auto simp: ledger_tables_def payment_of_def)

lemma ledger_insert:
  assumes "ledger_ok M db" and "pd_invoice d = iv_pk v" and "v \<in> set (vd_invoices db)" and "0 < pd_amount d"
  shows "ledger_ok M (snd (insert_payment now u d v db))"
  unfolding insert_payment_def
proof (rule ledger_recompute)
  show "ledger_tables (db\<lparr>vd_payments := row_create (payment_of (next_pk ip_pk (vd_payments db)) u d) (vd_payments db)\<rparr>)"
    using assms by (intro insert_payment_tables) (auto simp: ledger_ok_def)
  show "ledger_row (db\<lparr>vd_payments := row_create (payment_of (next_pk ip_pk (vd_payments db)) u d) (vd_payments db)\<rparr>) w"
    if "w \<in> set (vd_invoices (db\<lparr>vd_payments := row_create (payment_of (next_pk ip_pk (vd_payments db)) u d) (vd_payments db)\<rparr>))"
      "iv_pk w \<noteq> iv_pk v" "iv_pk w \<notin> M" for w
    using that assms(1,2) by (intro ledger_row_other) (auto simp: ledger_ok_def row_create_def payment_of_def)
qed

lemma float_cent_pos: "0 < float_cent"
  by (simp add: float_cent_def)

lemma create_payment_ledger:
  assumes "ledger_ok M db" and "create_payment now u d db = Inr db'"
  shows "ledger_ok M db'"
proof -
  obtain v where v: "row_get iv_pk (pd_invoice d) (vd_invoices db) = Some v" "validate_payment v 0 (pd_amount d) = None"
    "db' = snd (insert_payment now u d v db)"
    using assms(2) by (auto simp: create_payment_def split: option.splits)
  then have "0 < pd_amount d" using float_cent_pos by (auto simp: validate_payment_def split: if_splits)
  then show ?thesis using ledger_insert [OF assms(1), of d v now u] invoice_row [OF v(1)] v(3) by simp
qed

text \<open>The invoice an edit takes a payment away from.\<close>

definition moves_from :: "invoice_db \<Rightarrow> pk \<Rightarrow> payment_patch \<Rightarrow> pk set" where
  "moves_from db k q =
     (case (row_get ip_pk k (vd_payments db), pp_invoice q) of
        (Some p, Some j) \<Rightarrow> if j = ip_invoice p then {} else {ip_invoice p}
      | _ \<Rightarrow> {})"

lemma update_payment_ledger:
  assumes "ledger_ok M db" and "update_payment now k q db = Inr db'" and "moves_from db k q \<subseteq> M"
  shows "ledger_ok M db'"
proof -
  obtain p v where p: "row_get ip_pk k (vd_payments db) = Some p"
    and v: "row_get iv_pk (ip_invoice (apply_payment_patch q p)) (vd_invoices db) = Some v"
    and a: "\<not> (case pp_amount q of None \<Rightarrow> False | Some a \<Rightarrow> a < float_cent)"
    and db': "db' = snd (recompute now v (db\<lparr>vd_payments := row_save ip_pk (apply_payment_patch q p) (vd_payments db)\<rparr>))"
    using assms(2) by (auto simp: update_payment_def Let_def split: option.splits if_splits)
  note pr = row_get_Some [OF p] and vr = invoice_row [OF v]
  have t: "ledger_tables db" and d: "distinct (map ip_pk (vd_payments db))" using assms(1) by (auto simp: ledger_ok_def ledger_tables_def)
  have only: "x = p" if "x \<in> set (vd_payments db)" "ip_pk x = ip_pk p" for x
    by (rule unique_row [OF d that(1)]) (use that(2) pr in simp_all)
  define p' where "p' = apply_payment_patch q p"
  have p': "ip_pk p' = ip_pk p" "iv_pk v = ip_invoice p'"
    using vr by (simp_all add: p'_def apply_payment_patch_def)
  have target: "ip_invoice p' \<in> iv_pk ` set (vd_invoices db)" using vr p'(2) by force
  have left: "ip_invoice p \<in> M" if "ip_invoice p \<noteq> ip_invoice p'"
    using assms(3) that p by (auto simp: moves_from_def p'_def apply_payment_patch_def or_default_def split: option.splits if_splits)
  have "0 < ip_amount p" using t pr by (simp add: ledger_tables_def)
  then have pos: "0 < ip_amount p'"
    using a float_cent_pos by (auto simp: p'_def apply_payment_patch_def or_default_def split: option.splits)
  show ?thesis unfolding db' p'_def [symmetric]
  proof (rule ledger_recompute)
    show "ledger_tables (db\<lparr>vd_payments := row_save ip_pk p' (vd_payments db)\<rparr>)"
      using t pos pr p'(1) target by (auto simp: ledger_tables_def set_row_save split: if_splits)
    show "ledger_row (db\<lparr>vd_payments := row_save ip_pk p' (vd_payments db)\<rparr>) w"
      if "w \<in> set (vd_invoices (db\<lparr>vd_payments := row_save ip_pk p' (vd_payments db)\<rparr>))" "iv_pk w \<noteq> iv_pk v" "iv_pk w \<notin> M" for w
    proof (rule ledger_row_other)
      have w: "iv_pk w \<noteq> ip_invoice p'" "iv_pk w \<noteq> ip_invoice p" using that(2,3) left by (auto simp: p'(2))
      show "ledger_row db w" using that assms(1) by (simp add: ledger_ok_def)
      show "filter (\<lambda>q. ip_invoice q = iv_pk w) (row_save ip_pk p' (vd_payments db))
          = filter (\<lambda>q. ip_invoice q = iv_pk w) (vd_payments db)"
      proof (rule filter_row_save_other)
        show "\<not> ip_invoice x = iv_pk w" if "x \<in> set (vd_payments db)" "ip_pk x = ip_pk p'" for x
          using only [of x] that w by (simp add: p'(1))
      qed (use w in simp)
    qed
  qed
qed

lemma delete_payment_ledger:
  assumes "ledger_ok M db" and "delete_payment now k db = Inr db'"
  shows "ledger_ok M db'"
proof -
  obtain p where p: "row_get ip_pk k (vd_payments db) = Some p" using assms(2) by (auto simp: delete_payment_def split: option.splits)
  note pr = row_get_Some [OF p]
  have t: "ledger_tables db" and d: "distinct (map ip_pk (vd_payments db))" using assms(1) by (auto simp: ledger_ok_def ledger_tables_def)
  then obtain v where v: "row_get iv_pk (ip_invoice p) (vd_invoices db) = Some v"
    using pr by (cases "row_get iv_pk (ip_invoice p) (vd_invoices db)") (auto simp: row_get_None ledger_tables_def)
  note vr = invoice_row [OF v]
  have only: "x = p" if "x \<in> set (vd_payments db)" "ip_pk x = k" for x
    by (rule unique_row [OF d that(1)]) (use that(2) pr in simp_all)
  define ps where "ps = row_delete ip_pk k (vd_payments db)"
  have db': "db' = snd (recompute now v (db\<lparr>vd_payments := ps\<rparr>))"
    using assms(2) p v by (simp add: delete_payment_def Let_def ps_def)
  show ?thesis unfolding db'
  proof (rule ledger_recompute)
    show "ledger_tables (db\<lparr>vd_payments := ps\<rparr>)"
      using t by (auto simp: ledger_tables_def ps_def distinct_row_delete)
    show "ledger_row (db\<lparr>vd_payments := ps\<rparr>) w"
      if "w \<in> set (vd_invoices (db\<lparr>vd_payments := ps\<rparr>))" "iv_pk w \<noteq> iv_pk v" "iv_pk w \<notin> M" for w
    proof (rule ledger_row_other)
      show "ledger_row db w" using that assms(1) by (simp add: ledger_ok_def)
      show "filter (\<lambda>q. ip_invoice q = iv_pk w) ps = filter (\<lambda>q. ip_invoice q = iv_pk w) (vd_payments db)"
        unfolding ps_def
      proof (rule filter_row_delete_other)
        show "\<not> ip_invoice x = iv_pk w" if "x \<in> set (vd_payments db)" "ip_pk x = k" for x
          using only [OF that] \<open>iv_pk w \<noteq> iv_pk v\<close> vr by simp
      qed
    qed
  qed
qed

text \<open>The four outcomes of \<open>mark_paid\<close> that are no refusal, and the shape of the payment endpoints:
  the payments change, and then at most one invoice is recomputed.\<close>

lemma mark_paid_cases:
  assumes "mark_paid now u method notes k db = Inr db'"
  obtains (already) v where "row_get iv_pk k (vd_invoices db) = Some v" "iv_status v = Invoice_paid" "db' = db"
  | (rest) v d where "row_get iv_pk k (vd_invoices db) = Some v" "iv_status v \<noteq> Invoice_paid" "0 < iv_total v - iv_paid v"
      "d = \<lparr>pd_invoice = k, pd_amount = iv_total v - iv_paid v, pd_date = now, pd_method = method, pd_notes = notes\<rparr>"
      "db' = save_invoice (mark_as_paid now (fst (insert_payment now u d v db))) (snd (insert_payment now u d v db))"
  | (settled) v where "row_get iv_pk k (vd_invoices db) = Some v" "iv_status v \<noteq> Invoice_paid" "iv_total v \<le> iv_paid v"
      "db' = save_invoice (mark_as_paid now v) db"
proof -
  obtain v where v: "row_get iv_pk k (vd_invoices db) = Some v" using assms by (auto simp: mark_paid_def split: option.splits)
  show ?thesis
  proof (cases "iv_status v = Invoice_paid")
    case True
    then show ?thesis using already [OF v] assms v by (simp add: mark_paid_def)
  next
    case False
    then show ?thesis using rest [OF v False _ refl] settled [OF v False] assms v
      by (cases "0 < iv_total v - iv_paid v") (auto simp: mark_paid_def Let_def not_less split: if_splits prod.splits)
  qed
qed

lemma payment_shape:
  "create_payment now u d db = Inr db'
    \<Longrightarrow> \<exists>v ps. v \<in> set (vd_invoices db) \<and> db' = snd (recompute now v (db\<lparr>vd_payments := ps\<rparr>))"
  "update_payment now k q db = Inr db'
    \<Longrightarrow> \<exists>v ps. v \<in> set (vd_invoices db) \<and> db' = snd (recompute now v (db\<lparr>vd_payments := ps\<rparr>))"
  "delete_payment now k db = Inr db'
    \<Longrightarrow> (\<exists>v ps. v \<in> set (vd_invoices db) \<and> db' = snd (recompute now v (db\<lparr>vd_payments := ps\<rparr>)))
      \<or> (\<exists>ps. db' = db\<lparr>vd_payments := ps\<rparr>)"
proof -
  show "\<exists>v ps. v \<in> set (vd_invoices db) \<and> db' = snd (recompute now v (db\<lparr>vd_payments := ps\<rparr>))"
    if "create_payment now u d db = Inr db'"
    using that by (auto simp: create_payment_def insert_payment_def split: option.splits dest!: invoice_row)
  show "\<exists>v ps. v \<in> set (vd_invoices db) \<and> db' = snd (recompute now v (db\<lparr>vd_payments := ps\<rparr>))"
    if upd: "update_payment now k q db = Inr db'"
  proof -
    obtain p where p: "row_get ip_pk k (vd_payments db) = Some p"
      using upd by (auto simp: update_payment_def split: option.splits)
    then obtain v where v: "row_get iv_pk (ip_invoice (apply_payment_patch q p)) (vd_invoices db) = Some v"
      using upd by (auto simp: update_payment_def Let_def split: option.splits)
    have "db' = snd (recompute now v (db\<lparr>vd_payments := row_save ip_pk (apply_payment_patch q p) (vd_payments db)\<rparr>))"
      using upd p v by (auto simp: update_payment_def Let_def split: option.splits if_splits)
    then show ?thesis using invoice_row [OF v] by blast
  qed
  show "(\<exists>v ps. v \<in> set (vd_invoices db) \<and> db' = snd (recompute now v (db\<lparr>vd_payments := ps\<rparr>)))
      \<or> (\<exists>ps. db' = db\<lparr>vd_payments := ps\<rparr>)" if del: "delete_payment now k db = Inr db'"
  proof -
    obtain p where p: "row_get ip_pk k (vd_payments db) = Some p"
      using del by (auto simp: delete_payment_def split: option.splits)
    show ?thesis
    proof (cases "row_get iv_pk (ip_invoice p) (vd_invoices db)")
      case None
      then show ?thesis using del p by (auto simp: delete_payment_def Let_def)
    next
      case (Some v)
      then show ?thesis using del p invoice_row [OF Some] by (auto simp: delete_payment_def Let_def)
    qed
  qed
qed

lemma mark_paid_ledger:
  assumes "ledger_ok M db" and "mark_paid now u method notes k db = Inr db'"
  shows "ledger_ok M db'"
  using assms(2)
proof (cases rule: mark_paid_cases)
  case (already v)
  then show ?thesis using assms(1) by simp
next
  case (rest v d)
  note vr = invoice_row [OF rest(1)]
  define db1 where "db1 = snd (insert_payment now u d v db)"
  define v1 where "v1 = fst (insert_payment now u d v db)"
  have ok: "ledger_ok M db1" unfolding db1_def by (rule ledger_insert) (use assms(1) vr rest in simp_all)
  have v1: "iv_pk v1 = iv_pk v" "iv_total v1 = iv_total v"
    by (simp_all add: v1_def insert_payment_def recompute_def Let_def)
  have "payments_sum db1 (iv_pk v) = payments_sum db (iv_pk v) + (iv_total v - iv_paid v)"
    using vr by (simp add: db1_def insert_payment_def recompute_def Let_def payments_sum_def invoice_payments_def
        row_create_def payment_of_def rest(4))
  moreover have "ledger_row db v" if "iv_pk v \<notin> M" using assms(1) vr that by (simp add: ledger_ok_def)
  ultimately have r: "ledger_row db1 (mark_as_paid now v1)" if "iv_pk v \<notin> M" using that by (simp add: ledger_row_def v1)
  show ?thesis unfolding rest(5) db1_def [symmetric] v1_def [symmetric]
    by (rule ledger_save [of db1 "mark_as_paid now v1"]) (use ok r v1 in \<open>auto simp: ledger_ok_def\<close>)
next
  case (settled v)
  have "ledger_row db v" if "iv_pk v \<notin> M" using assms(1) invoice_row [OF settled(1)] that by (simp add: ledger_ok_def)
  then have r: "ledger_row db (mark_as_paid now v)" if "iv_pk v \<notin> M" using settled(3) that by (auto simp: ledger_row_def)
  show ?thesis unfolding settled(4)
    by (rule ledger_save [of db "mark_as_paid now v"]) (use assms(1) r in \<open>auto simp: ledger_ok_def\<close>)
qed

end
