(* ===== verification/Invoice_Runs.thy ===== *)
theory Invoice_Runs
  imports Invoice_Facts
begin

text \<open>
  Invoice numbers: how a number of the form PREFIX-YEAR-SEQUENCE is read back, and when the next
  number is new.  Prefixes without a dash and years of four digits are assumed; with a dash in the
  prefix the numbers of one prefix can start with the stem of another.

  The system of all invoicing endpoints, its two invariants, and what follows for every reachable
  state.  A state has the time of the last request that read the clock; invoices are created at
  strictly increasing times because their creation locks the settings row.
\<close>

subsection \<open>Reading a padded number\<close>

lemma read_digits_zero:
  assumes "is_digit d"
  shows "read_digits (CHR ''0'' # d # ds) = read_digits (d # ds)"
proof -
  have "is_digit (CHR ''0'')" "digit_value (CHR ''0'') = 0" by (simp_all add: is_digit_def digit_value_def)
  then show ?thesis using assms by (cases ds) (simp_all add: read_digits_def)
qed

lemma read_digits_padded:
  assumes "\<forall>c \<in> set s. is_digit c" and "s \<noteq> []"
  shows "read_digits (replicate k (CHR ''0'') @ s) = read_digits s"
proof (induction k)
  case (Suc k)
  have zero: "is_digit (CHR ''0'')" by (simp add: is_digit_def)
  obtain d ds where ds: "replicate k (CHR ''0'') @ s = d # ds" using assms(2) by (cases "replicate k (CHR ''0'') @ s") auto
  have "is_digit d"
  proof (cases k)
    case 0
    then show ?thesis using ds assms(1) by auto
  next
    case (Suc j)
    then show ?thesis using ds zero by auto
  qed
  then show ?case using Suc ds by (simp add: read_digits_zero)
qed simp

lemma padded_digits: "c \<in> set (pad_zeros w (nat_text n)) \<Longrightarrow> is_digit c \<and> \<not> is_space c \<and> c \<noteq> CHR ''-''"
  using nat_text_digits [of c n] by (auto simp: pad_zeros_def is_digit_def is_space_def)

lemma read_int_padded: "read_int (pad_zeros w (nat_text n)) = Some (int n)"
proof -
  have "read_int (pad_zeros w (nat_text n)) = map_option int (read_digits (pad_zeros w (nat_text n)))"
    by (rule read_int_digits) (use padded_digits nat_text_nonempty in \<open>auto simp: pad_zeros_def\<close>)
  also have "read_digits (pad_zeros w (nat_text n)) = Some n"
    using nat_text_digits [of _ n] nat_text_nonempty [of n]
    by (simp add: pad_zeros_def read_digits_padded read_digits_nat_text)
  finally show ?thesis by simp
qed

subsection \<open>The parts of a number\<close>

definition dashless :: "string \<Rightarrow> bool" where
  "dashless p \<longleftrightarrow> CHR ''-'' \<notin> set p"

definition number_of :: "string \<Rightarrow> int \<Rightarrow> nat \<Rightarrow> string" where
  "number_of p y n = p @ ''-'' @ nat_text (nat y) @ ''-'' @ pad_zeros 4 (nat_text n)"

definition issued :: "string \<Rightarrow> string \<Rightarrow> int \<Rightarrow> nat \<Rightarrow> bool" where
  "issued s p y n \<longleftrightarrow> dashless p \<and> 1000 \<le> y \<and> y < 10000 \<and> s = number_of p y n"

lemma year_text: "1000 \<le> y \<Longrightarrow> y < 10000 \<Longrightarrow> length (nat_text (nat y)) = 4"
  using digits4(1,4) [of "nat y"] by simp

lemma split_number:
  "dashless p \<Longrightarrow> split_on (CHR ''-'') (number_of p y n) = [p, nat_text (nat y), pad_zeros 4 (nat_text n)]"
proof -
  assume p: "dashless p"
  have y: "CHR ''-'' \<notin> set (nat_text (nat y))" using nat_text_digits [of "CHR ''-''" "nat y"] by auto
  have n: "CHR ''-'' \<notin> set (pad_zeros 4 (nat_text n))" using padded_digits [of "CHR ''-''" 4 n] by auto
  show ?thesis using p y n by (simp add: number_of_def dashless_def split_on_append split_on_none)
qed

lemma issued_unique: "issued s p y m \<Longrightarrow> issued s q z n \<Longrightarrow> p = q \<and> y = z \<and> m = n"
proof -
  assume a: "issued s p y m" "issued s q z n"
  then have "[p, nat_text (nat y), pad_zeros 4 (nat_text m)] = [q, nat_text (nat z), pad_zeros 4 (nat_text n)]"
    using split_number [of p y m] split_number [of q z n] by (simp add: issued_def)
  then have "p = q" "nat_text (nat y) = nat_text (nat z)" "pad_zeros 4 (nat_text m) = pad_zeros 4 (nat_text n)" by auto
  moreover from this have "Some (int m) = Some (int n)" using read_int_padded by metis
  ultimately show ?thesis using a by (auto simp: nat_text_inject issued_def)
qed

lemma last_part: "issued s p y n \<Longrightarrow> read_int (last (split_on (CHR ''-'') s)) = Some (int n)"
  by (simp add: issued_def split_number read_int_padded)

lemma append_same_length: "xs @ us = ys @ vs \<Longrightarrow> length xs = length ys \<Longrightarrow> xs = ys"
  by simp

lemma starts_with_stem:
  assumes "issued s q z n" and "dashless p" and "1000 \<le> y" and "y < 10000"
  shows "starts_with (p @ ''-'' @ nat_text (nat y)) s \<longleftrightarrow> p = q \<and> y = z"
proof
  assume "starts_with (p @ ''-'' @ nat_text (nat y)) s"
  then obtain t where t: "s = p @ CHR ''-'' # nat_text (nat y) @ t" by (auto simp: starts_with_iff)
  have s: "s = q @ CHR ''-'' # nat_text (nat z) @ CHR ''-'' # pad_zeros 4 (nat_text n)"
    using assms(1) by (simp add: issued_def number_of_def)
  have "CHR ''-'' \<notin> set p" "CHR ''-'' \<notin> set q" using assms(1,2) by (simp_all add: issued_def dashless_def)
  then have parts: "p # split_on (CHR ''-'') (nat_text (nat y) @ t)
      = q # split_on (CHR ''-'') (nat_text (nat z) @ CHR ''-'' # pad_zeros 4 (nat_text n))"
    using split_on_append t s by metis
  then have "p = q" by simp
  then have "nat_text (nat y) @ t = nat_text (nat z) @ CHR ''-'' # pad_zeros 4 (nat_text n)" using t s by simp
  moreover have "length (nat_text (nat y)) = length (nat_text (nat z))"
    using assms by (simp add: issued_def year_text)
  ultimately have "nat_text (nat y) = nat_text (nat z)" by (rule append_same_length)
  with \<open>p = q\<close> show "p = q \<and> y = z" using assms by (simp add: nat_text_inject issued_def)
next
  assume "p = q \<and> y = z"
  then show "starts_with (p @ ''-'' @ nat_text (nat y)) s"
    using assms(1) by (auto simp: starts_with_iff issued_def number_of_def)
qed

subsection \<open>The numbering of a table\<close>

text \<open>The rows in the order of their creation: later ones were created later, and have larger
  sequence numbers where prefix and year agree.\<close>

definition after_number :: "string \<times> datetime \<Rightarrow> string \<times> datetime \<Rightarrow> bool" where
  "after_number a b \<longleftrightarrow> snd a < snd b
     \<and> (\<forall>p y m n. issued (fst a) p y m \<longrightarrow> issued (fst b) p y n \<longrightarrow> m < n)"

definition numbering :: "datetime \<Rightarrow> (string \<times> datetime) list \<Rightarrow> bool" where
  "numbering t ks \<longleftrightarrow> sorted_wrt after_number ks
     \<and> (\<forall>k \<in> set ks. snd k \<le> t \<and> (\<exists>p y n. issued (fst k) p y n))"

definition number_keys :: "invoice_db \<Rightarrow> (string \<times> datetime) list" where
  "number_keys db = map (\<lambda>v. (iv_number v, iv_created_at v)) (vd_invoices db)"

lemma latest_last:
  assumes "sorted_wrt (\<lambda>v w. iv_created_at v < iv_created_at w) vs" and "vs \<noteq> []"
  shows "latest_invoice vs = Some (last vs)"
proof -
  obtain us v where vs: "vs = us @ [v]" using assms(2) by (metis rev_exhaust)
  then have "\<forall>w \<in> set vs. iv_created_at w \<le> iv_created_at v"
    using assms(1) by (auto simp: sorted_wrt_append intro: less_imp_le)
  then show ?thesis by (simp add: latest_invoice_def vs)
qed

lemma numbering_distinct: "numbering t ks \<Longrightarrow> distinct (map fst ks)"
proof (induction ks)
  case (Cons k ks)
  have "fst k \<noteq> fst j" if "j \<in> set ks" for j
  proof
    assume eq: "fst k = fst j"
    have "\<exists>p y n. issued (fst j) p y n" using Cons.prems that by (simp add: numbering_def)
    then obtain p y n where i: "issued (fst j) p y n" by blast
    moreover have "after_number k j" using Cons.prems that by (simp add: numbering_def)
    ultimately have "n < n" unfolding after_number_def using eq by metis
    then show False by simp
  qed
  then have "fst k \<notin> fst ` set ks" by (metis imageE)
  moreover have "numbering t ks" using Cons.prems by (simp add: numbering_def)
  ultimately show ?case using Cons.IH by simp
qed simp

text \<open>The number handed out next comes after every number in use.\<close>

lemma next_number:
  assumes "numbering t (number_keys db)" and "t < now" and "dashless (ivs_prefix s)"
    and "1000 \<le> year_of (date_of now)" and "year_of (date_of now) < 10000"
  shows "numbering now (number_keys db @ [(get_next_invoice_number db s now, now)])"
proof -
  define y where "y = year_of (date_of now)"
  define same where "same = filter (\<lambda>v. starts_with (number_stem s now) (iv_number v)) (vd_invoices db)"
  have y: "1000 \<le> y" "y < 10000" using assms(4,5) by (simp_all add: y_def)
  have issued_all: "\<exists>p z n. issued (iv_number v) p z n" if "v \<in> set (vd_invoices db)" for v
    using assms(1) that by (auto simp: numbering_def number_keys_def)
  have same_iff: "v \<in> set same \<longleftrightarrow> v \<in> set (vd_invoices db) \<and> (\<exists>n. issued (iv_number v) (ivs_prefix s) y n)" for v
    using issued_all [of v] starts_with_stem [OF _ assms(3) y] issued_unique
    by (auto simp: same_def number_stem_def y_def) blast+
  have order: "sorted_wrt (\<lambda>v w. after_number (iv_number v, iv_created_at v) (iv_number w, iv_created_at w)) same"
    using assms(1) by (simp add: numbering_def number_keys_def sorted_wrt_map same_def sorted_wrt_filter)
  have next_text: "get_next_invoice_number db s now = number_stem s now @ ''-'' @ pad_zeros 4 (nat_text
      (case latest_invoice same of None \<Rightarrow> ivs_starting_number s
       | Some v \<Rightarrow> (case read_int (last (split_on (CHR ''-'') (iv_number v))) of
           None \<Rightarrow> ivs_starting_number s | Some n \<Rightarrow> nat (n + 1))))"
    by (simp add: get_next_invoice_number_def same_def Let_def)
  have "\<exists>n. get_next_invoice_number db s now = number_of (ivs_prefix s) y n
      \<and> (\<forall>v m. v \<in> set same \<longrightarrow> issued (iv_number v) (ivs_prefix s) y m \<longrightarrow> m < n)"
  proof (cases "same = []")
    case True
    then have "get_next_invoice_number db s now = number_of (ivs_prefix s) y (ivs_starting_number s)"
      by (simp add: next_text latest_invoice_def number_of_def number_stem_def y_def)
    then show ?thesis using True by auto
  next
    case False
    obtain us v where same: "same = us @ [v]" using False by (metis rev_exhaust)
    then obtain k where k: "issued (iv_number v) (ivs_prefix s) y k" using same_iff [of v] by auto
    have "latest_invoice same = Some v"
      using latest_last [of same] sorted_wrt_mono_rel [OF _ order] same by (simp add: after_number_def)
    then have "get_next_invoice_number db s now = number_of (ivs_prefix s) y (Suc k)"
      using last_part [OF k] by (simp add: next_text number_of_def number_stem_def y_def nat_add_distrib)
    moreover have "m < Suc k" if "w \<in> set same" "issued (iv_number w) (ivs_prefix s) y m" for w m
    proof (cases "w = v")
      case True
      then show ?thesis using issued_unique [OF k] that(2) by auto
    next
      case False
      then have "w \<in> set us" using that(1) same by simp
      then have "after_number (iv_number w, iv_created_at w) (iv_number v, iv_created_at v)"
        using order same by (simp add: sorted_wrt_append)
      then show ?thesis using that(2) k by (auto simp: after_number_def intro: less_SucI)
    qed
    ultimately show ?thesis by blast
  qed
  then obtain n where n: "get_next_invoice_number db s now = number_of (ivs_prefix s) y n"
    and larger: "\<And>v m. v \<in> set same \<Longrightarrow> issued (iv_number v) (ivs_prefix s) y m \<Longrightarrow> m < n" by blast
  have new: "issued (get_next_invoice_number db s now) (ivs_prefix s) y n" using n y assms(3) by (simp add: issued_def)
  have "after_number (iv_number v, iv_created_at v) (get_next_invoice_number db s now, now)"
    if v: "v \<in> set (vd_invoices db)" for v
  proof -
    have "iv_created_at v \<le> t" using assms(1) v by (auto simp: numbering_def number_keys_def)
    moreover have "m < k" if i: "issued (iv_number v) p z m" and j: "issued (get_next_invoice_number db s now) p z k" for p z m k
    proof -
      have "p = ivs_prefix s" "z = y" "k = n" using issued_unique [OF j new] by auto
      then show ?thesis using larger [of v m] same_iff [of v] v i by auto
    qed
    ultimately show ?thesis using assms(2) by (auto simp: after_number_def)
  qed
  then show ?thesis using assms(1,2) new
    by (auto simp: numbering_def sorted_wrt_append number_keys_def intro: order_trans less_imp_le)
qed

lemma next_number_fresh:
  assumes "numbering t (number_keys db)" and "t < now" and "dashless (ivs_prefix s)"
    and "1000 \<le> year_of (date_of now)" and "year_of (date_of now) < 10000"
  shows "get_next_invoice_number db s now \<notin> iv_number ` set (vd_invoices db)"
  using numbering_distinct [OF next_number [OF assms]] by (auto simp: number_keys_def image_image)

section \<open>The system\<close>

subsection \<open>Pieces of the compound operations\<close>

lemma create_invoice_pieces:
  assumes "create_invoice now u q db = Inr (v', db')"
  obtains c v src db1 where "validate_invoice db q = Inr c"
    "v = new_invoice (next_pk iv_pk (vd_invoices db)) (get_next_invoice_number db (settings_of db) now) now u (settings_of db) c q"
    "iv_number v \<notin> iv_number ` set (vd_invoices db)"
    "db1 = (ensure_settings db)\<lparr>vd_invoices := row_create (invoice_columns v) (vd_invoices db)\<rparr>"
    "retotal (add_lines (vr_lines q) (v, From_table, db1)) = (v', src, db')"
proof -
  have n: "get_next_invoice_number (ensure_settings db) s now = get_next_invoice_number db s now" for s
    by (simp add: get_next_invoice_number_def)
  show ?thesis using assms that
    by (auto simp: create_invoice_def Let_def n split: sum.splits if_splits prod.splits)
qed

lemma update_invoice_pieces:
  assumes "update_invoice k p db = Inr (v', db')"
  obtains v w src where "row_get iv_pk k (vd_invoices db) = Some v" "iv_status v = Invoice_draft"
    "iv_pk w = iv_pk v \<and> iv_paid w = iv_paid v \<and> iv_status w = iv_status v \<and> iv_number w = iv_number v
      \<and> iv_created_at w = iv_created_at v"
    "iv_discount w = or_default (vp_discount p) (iv_discount v)"
    "update_body p w db = (v', src, db')"
proof -
  obtain v where v: "row_get iv_pk k (vd_invoices db) = Some v" "iv_status v = Invoice_draft"
    using assms by (auto simp: update_invoice_def split: option.splits if_splits)
  obtain c where c: "validate_patch db p = Inr c"
    using assms v by (cases "validate_patch db p") (auto simp: update_invoice_def)
  obtain src where u: "update_body p (apply_patch p (case c of None \<Rightarrow> v | Some c \<Rightarrow> set_client c v)) db = (v', src, db')"
    using assms v c by (auto simp: update_invoice_def Let_def split: prod.splits)
  show ?thesis by (rule that [OF v _ _ u]) (auto simp: apply_patch_def split: option.splits)
qed

lemma update_body_writes:
  assumes "update_body p v db = (v', src, db')"
  shows "\<exists>ls. line_writes v (db\<lparr>vd_lines := ls\<rparr>) v' db'
    \<and> vd_invoices db' = row_save iv_pk (invoice_columns v') (vd_invoices db)"
proof (cases "vp_lines p")
  case None
  then have "retotal (add_lines [] (v, Prefetched (Some (invoice_lines db (iv_pk v))), db)) = (v', src, db')"
    using assms by (simp add: update_body_def)
  from retotal_add_lines_writes [OF this] show ?thesis by (intro exI [of _ "vd_lines db"]) simp
next
  case (Some ds)
  then have "retotal (add_lines ds (v, Prefetched None,
      db\<lparr>vd_lines := filter (\<lambda>l. li_invoice l \<noteq> iv_pk v) (vd_lines db)\<rparr>)) = (v', src, db')"
    using assms by (simp add: update_body_def)
  from retotal_add_lines_writes [OF this] show ?thesis by auto
qed

subsection \<open>The paid amount is kept\<close>

lemma create_invoice_ledger:
  assumes "ledger_ok M db" and "create_invoice now u q db = Inr (v', db')"
  shows "ledger_ok M db'"
proof -
  obtain c v src db1 where v: "v = new_invoice (next_pk iv_pk (vd_invoices db)) (get_next_invoice_number db (settings_of db) now) now u (settings_of db) c q"
    and db1: "db1 = (ensure_settings db)\<lparr>vd_invoices := row_create (invoice_columns v) (vd_invoices db)\<rparr>"
    and r: "retotal (add_lines (vr_lines q) (v, From_table, db1)) = (v', src, db')"
    using assms(2) by (rule create_invoice_pieces)
  have pay: "vd_payments db1 = vd_payments db" by (simp add: db1)
  have "filter (\<lambda>p. ip_invoice p = next_pk iv_pk (vd_invoices db)) (vd_payments db) = []"
    using assms(1) by (auto simp: ledger_ok_def ledger_tables_def filter_empty_conv dest!: bspec dest: next_pk_fresh [of _ _ iv_pk])
  then have new: "ledger_row db1 v" by (simp add: ledger_row_def payments_sum_def invoice_payments_def pay v)
  have t: "ledger_tables db1" using assms(1) by (auto simp: ledger_ok_def ledger_tables_def db1 v)
  have others: "ledger_row db1 w" if "w \<in> set (vd_invoices db1)" "iv_pk w \<notin> M" for w
    using that new assms(1) ledger_row_cong [OF pay] by (auto simp: db1 ledger_ok_def)
  show ?thesis
    by (rule ledger_line_writes [OF t others new retotal_add_lines_writes [OF r]])
qed

lemma update_invoice_ledger:
  assumes "ledger_ok M db" and "update_invoice k p db = Inr (v', db')"
  shows "ledger_ok M db'"
proof -
  obtain v w src where v: "row_get iv_pk k (vd_invoices db) = Some v"
    and w: "iv_pk w = iv_pk v \<and> iv_paid w = iv_paid v \<and> iv_status w = iv_status v \<and> iv_number w = iv_number v
      \<and> iv_created_at w = iv_created_at v"
    and u: "update_body p w db = (v', src, db')"
    using assms(2) by (rule update_invoice_pieces)
  obtain ls where l: "line_writes w (db\<lparr>vd_lines := ls\<rparr>) v' db'"
    "vd_invoices db' = row_save iv_pk (invoice_columns v') (vd_invoices (db\<lparr>vd_lines := ls\<rparr>))"
    using update_body_writes [OF u] by auto
  have cong: "ledger_row (db\<lparr>vd_lines := ls\<rparr>) x = ledger_row db x" for x by (rule ledger_row_cong) simp
  have "ledger_row db v" if "iv_pk v \<notin> M" using assms(1) invoice_row [OF v] that by (simp add: ledger_ok_def)
  then have "ledger_row db w" if "iv_pk w \<notin> M" using w that by (simp add: ledger_row_def)
  then show ?thesis using assms(1) l
    by (intro ledger_line_writes [of "db\<lparr>vd_lines := ls\<rparr>" w]) (auto simp: ledger_ok_def ledger_tables_def cong)
qed

lemma destroy_invoice_ledger:
  assumes "ledger_ok M db" and "destroy_invoice k db = Inr db'"
  shows "ledger_ok M db'"
proof -
  have db': "vd_invoices db' = row_delete iv_pk k (vd_invoices db)"
    "vd_payments db' = filter (\<lambda>p. ip_invoice p \<noteq> k) (vd_payments db)"
    using assms(2) by (auto simp: destroy_invoice_def split: option.splits if_splits)
  have same: "invoice_payments db' (iv_pk w) = invoice_payments db (iv_pk w)" if "iv_pk w \<noteq> k" for w
    unfolding invoice_payments_def db' filter_filter using that by (intro filter_cong) auto
  have "ledger_row db' w = ledger_row db w" if "iv_pk w \<noteq> k" for w
    using same [OF that] by (simp add: ledger_row_def payments_sum_def)
  then show ?thesis using assms(1)
    by (auto simp: ledger_ok_def ledger_tables_def db' distinct_row_delete distinct_map_filter)
qed

lemma save_same_money:
  assumes "ledger_ok M db" and "row_get iv_pk k (vd_invoices db) = Some v"
    and "iv_pk w = iv_pk v" "iv_paid w = iv_paid v" "iv_status w = iv_status v \<or> iv_status v \<noteq> Invoice_paid"
  shows "ledger_ok M (save_invoice w db)"
  by (rule ledger_save [of db w]) (use assms invoice_row [OF assms(2)] in \<open>auto simp: ledger_ok_def ledger_row_def\<close>)

lemma finalize_ledger: "ledger_ok M db \<Longrightarrow> finalize k db = Inr (v', db') \<Longrightarrow> ledger_ok M db'"
  by (auto simp: finalize_def Let_def split: option.splits if_splits intro!: save_same_money)

lemma send_email_ledger: "ledger_ok M db \<Longrightarrow> send_email now k r db = Inr db' \<Longrightarrow> ledger_ok M db'"
  by (auto simp: send_email_def Let_def split: option.splits if_splits intro!: save_same_money)

lemma update_line_ledger:
  assumes "ledger_ok M db" and "update_line k q db = Inr db'"
  shows "ledger_ok M db'"
proof -
  obtain v ls src v' where v: "row_get iv_pk (iv_pk v) (vd_invoices db) = Some v"
    and r: "retotal (v, From_table, db\<lparr>vd_lines := ls\<rparr>) = (v', src, db')"
    using assms(2) by (auto simp: update_line_def Let_def split: option.splits dest: row_get_Some)
      (metis prod.collapse invoice_row)
  have cong: "ledger_row (db\<lparr>vd_lines := ls\<rparr>) x = ledger_row db x" for x by (rule ledger_row_cong) simp
  show ?thesis using assms(1) invoice_row [OF v] retotal_add_lines_writes [of "[]" v From_table "db\<lparr>vd_lines := ls\<rparr>", simplified, OF r]
    by (intro ledger_line_writes [of "db\<lparr>vd_lines := ls\<rparr>" v]) (auto simp: ledger_ok_def ledger_tables_def cong)
qed

lemma ledger_frame:
  "ledger_ok M db \<Longrightarrow> vd_invoices db' = vd_invoices db \<Longrightarrow> vd_payments db' = vd_payments db \<Longrightarrow> ledger_ok M db'"
  by (simp add: ledger_ok_def ledger_tables_def ledger_row_cong [of db' db])

subsection \<open>The numbers are kept\<close>

lemma number_keys_save:
  assumes "ledger_ok M db" and "v \<in> set (vd_invoices db)" and "iv_pk w = iv_pk v" "iv_number w = iv_number v"
    and "iv_created_at w = iv_created_at v" and "vd_invoices db' = row_save iv_pk (invoice_columns w) (vd_invoices db)"
  shows "number_keys db' = number_keys db"
  unfolding number_keys_def assms(6) using assms
  by (intro map_row_save_same) (auto simp: ledger_ok_def ledger_tables_def)

lemma number_keys_cong: "vd_invoices db' = vd_invoices db \<Longrightarrow> number_keys db' = number_keys db"
  by (simp add: number_keys_def)

lemma recompute_keys:
  assumes "ledger_ok M db" and "v \<in> set (vd_invoices db)"
  shows "number_keys (snd (recompute now v (db\<lparr>vd_payments := ps\<rparr>))) = number_keys db"
  by (rule number_keys_save [OF assms, of "fst (recompute now v (db\<lparr>vd_payments := ps\<rparr>))"])
    (simp_all add: recompute_def Let_def)

lemma update_invoice_keys:
  assumes "ledger_ok M db" and "update_invoice k p db = Inr (v', db')"
  shows "number_keys db' = number_keys db"
proof -
  obtain v w src where v: "row_get iv_pk k (vd_invoices db) = Some v"
    and w: "iv_pk w = iv_pk v \<and> iv_paid w = iv_paid v \<and> iv_status w = iv_status v \<and> iv_number w = iv_number v
      \<and> iv_created_at w = iv_created_at v"
    and u: "update_body p w db = (v', src, db')"
    using assms(2) by (rule update_invoice_pieces)
  show ?thesis using update_body_writes [OF u] w invoice_row [OF v]
    by (intro number_keys_save [OF assms(1), of v v']) (auto simp: line_writes_def)
qed

lemma update_line_keys:
  assumes "ledger_ok M db" and "update_line k q db = Inr db'"
  shows "number_keys db' = number_keys db"
proof -
  obtain v ls src v' where v: "row_get iv_pk (iv_pk v) (vd_invoices db) = Some v"
    and r: "retotal (v, From_table, db\<lparr>vd_lines := ls\<rparr>) = (v', src, db')"
    using assms(2) by (auto simp: update_line_def Let_def split: option.splits dest: row_get_Some)
      (metis prod.collapse invoice_row)
  show ?thesis using invoice_row [OF v] retotal_add_lines_writes [of "[]" v From_table "db\<lparr>vd_lines := ls\<rparr>", simplified, OF r]
    by (intro number_keys_save [OF assms(1), of v v']) (auto simp: line_writes_def)
qed

lemma payment_keys:
  assumes "ledger_ok M db"
  shows "create_payment now u d db = Inr db' \<Longrightarrow> number_keys db' = number_keys db"
    and "update_payment now k q db = Inr db' \<Longrightarrow> number_keys db' = number_keys db"
    and "delete_payment now k db = Inr db' \<Longrightarrow> number_keys db' = number_keys db"
proof -
  have r: "number_keys db' = number_keys db"
    if "(\<exists>v ps. v \<in> set (vd_invoices db) \<and> db' = snd (recompute now v (db\<lparr>vd_payments := ps\<rparr>)))
      \<or> (\<exists>ps. db' = db\<lparr>vd_payments := ps\<rparr>)"
    using that
  proof (elim disjE exE conjE)
    show "number_keys db' = number_keys db" if "db' = db\<lparr>vd_payments := ps\<rparr>" for ps
      by (rule number_keys_cong) (simp add: that)
  qed (simp add: recompute_keys [OF assms])
  show "create_payment now u d db = Inr db' \<Longrightarrow> number_keys db' = number_keys db"
    and "update_payment now k q db = Inr db' \<Longrightarrow> number_keys db' = number_keys db"
    and "delete_payment now k db = Inr db' \<Longrightarrow> number_keys db' = number_keys db"
    using payment_shape [of now] r by blast+
qed

lemma mark_paid_keys:
  assumes "ledger_ok M db" and "mark_paid now u method notes k db = Inr db'"
  shows "number_keys db' = number_keys db"
  using assms(2)
proof (cases rule: mark_paid_cases)
  case (rest v d)
  have "vd_invoices db' = row_save iv_pk (invoice_columns (mark_as_paid now (fst (insert_payment now u d v db)))) (vd_invoices db)"
    by (simp add: rest(5) insert_payment_def recompute_def Let_def row_save_twice)
  then show ?thesis using invoice_row [OF rest(1)]
    by (intro number_keys_save [OF assms(1), of v]) (simp_all add: insert_payment_def recompute_def Let_def)
next
  case (settled v)
  then show ?thesis using invoice_row [OF settled(1)]
    by (intro number_keys_save [OF assms(1), of v "mark_as_paid now v"]) simp_all
qed simp

lemma sorted_wrt_map_filter: "sorted_wrt P (map f xs) \<Longrightarrow> sorted_wrt P (map f (filter Q xs))"
  by (simp add: sorted_wrt_map sorted_wrt_filter)

lemma destroy_numbering:
  assumes "numbering t (number_keys db)" and "destroy_invoice k db = Inr db'"
  shows "numbering t (number_keys db')"
proof -
  have "vd_invoices db' = row_delete iv_pk k (vd_invoices db)"
    using assms(2) by (auto simp: destroy_invoice_def split: option.splits if_splits)
  then show ?thesis using assms(1)
    by (auto simp: numbering_def number_keys_def row_delete_def intro: sorted_wrt_map_filter)
qed

lemma destroy_keys:
  "destroy_invoice k db = Inr db' \<Longrightarrow> distinct (map fst (number_keys db)) \<Longrightarrow> distinct (map fst (number_keys db'))"
  by (auto simp: destroy_invoice_def number_keys_def row_delete_def distinct_map_filter comp_def
      split: option.splits if_splits)

lemma numbering_later: "numbering t ks \<Longrightarrow> t \<le> now \<Longrightarrow> numbering now ks"
  by (auto simp: numbering_def)

definition clock_ok :: "datetime \<Rightarrow> bool" where
  "clock_ok now \<longleftrightarrow> 1000 \<le> year_of (date_of now) \<and> year_of (date_of now) < 10000"

lemma create_invoice_keys:
  assumes "create_invoice now u q db = Inr (v', db')"
  shows "number_keys db' = number_keys db @ [(get_next_invoice_number db (settings_of db) now, now)]"
    and "get_next_invoice_number db (settings_of db) now \<notin> fst ` set (number_keys db)"
proof -
  obtain c v src db1 where v: "v = new_invoice (next_pk iv_pk (vd_invoices db)) (get_next_invoice_number db (settings_of db) now) now u (settings_of db) c q"
    and new: "iv_number v \<notin> iv_number ` set (vd_invoices db)"
    and db1: "db1 = (ensure_settings db)\<lparr>vd_invoices := row_create (invoice_columns v) (vd_invoices db)\<rparr>"
    and r: "retotal (add_lines (vr_lines q) (v, From_table, db1)) = (v', src, db')"
    using assms by (rule create_invoice_pieces)
  have "row_save iv_pk (invoice_columns v') (vd_invoices db) = vd_invoices db"
    using retotal_add_lines_writes(1) [OF r] by (intro sum_row_save_absent) (simp add: line_writes_def v)
  then have "vd_invoices db' = vd_invoices db @ [invoice_columns v']"
    using retotal_add_lines_writes [OF r] by (simp add: db1 row_create_def row_save_def line_writes_def)
  then show "number_keys db' = number_keys db @ [(get_next_invoice_number db (settings_of db) now, now)]"
    using retotal_add_lines_writes(1) [OF r] by (simp add: number_keys_def line_writes_def v)
  show "get_next_invoice_number db (settings_of db) now \<notin> fst ` set (number_keys db)"
    using new by (auto simp: number_keys_def v)
qed

lemma create_invoice_numbering:
  assumes "numbering t (number_keys db)" and "t < now" and "clock_ok now" and "dashless (ivs_prefix (settings_of db))"
    and "create_invoice now u q db = Inr (v', db')"
  shows "numbering now (number_keys db')"
  using next_number [OF assms(1,2,4)] assms(3) create_invoice_keys(1) [OF assms(5)] by (simp add: clock_ok_def)

subsection \<open>The system\<close>

text \<open>
  The two parameters make explicit what the properties depend on: \<open>M\<close> is the set of invoices that an
  edited payment may leave, \<open>P\<close> the prefixes an administrator may choose.  With \<open>UNIV\<close> and the
  predicate that is always true, every endpoint is a step without a condition but the clock.
\<close>

inductive invoice_step :: "pk set \<Rightarrow> (string \<Rightarrow> bool) \<Rightarrow> datetime \<times> invoice_db \<Rightarrow> datetime \<times> invoice_db \<Rightarrow> bool" for M P where
  created: "t < now \<Longrightarrow> clock_ok now \<Longrightarrow> create_invoice now u q db = Inr (v, db') \<Longrightarrow> invoice_step M P (t, db) (now, db')"
| duplicated: "t < now \<Longrightarrow> clock_ok now \<Longrightarrow> duplicate now u k db = Inr (v, db') \<Longrightarrow> invoice_step M P (t, db) (now, db')"
| edited: "update_invoice k p db = Inr (v, db') \<Longrightarrow> invoice_step M P (t, db) (t, db')"
| destroyed: "destroy_invoice k db = Inr db' \<Longrightarrow> invoice_step M P (t, db) (t, db')"
| finalized: "finalize k db = Inr (v, db') \<Longrightarrow> invoice_step M P (t, db) (t, db')"
| emailed: "t \<le> now \<Longrightarrow> send_email now k r db = Inr db' \<Longrightarrow> invoice_step M P (t, db) (now, db')"
| payment_created: "t \<le> now \<Longrightarrow> create_payment now u d db = Inr db' \<Longrightarrow> invoice_step M P (t, db) (now, db')"
| payment_edited: "t \<le> now \<Longrightarrow> moves_from db k q' \<subseteq> M \<Longrightarrow> update_payment now k q' db = Inr db' \<Longrightarrow> invoice_step M P (t, db) (now, db')"
| payment_deleted: "t \<le> now \<Longrightarrow> delete_payment now k db = Inr db' \<Longrightarrow> invoice_step M P (t, db) (now, db')"
| marked_paid: "t \<le> now \<Longrightarrow> mark_paid now u method notes k db = Inr db' \<Longrightarrow> invoice_step M P (t, db) (now, db')"
| line_edited: "update_line k lq db = Inr db' \<Longrightarrow> invoice_step M P (t, db) (t, db')"
| line_deleted: "delete_line k db = Inr db' \<Longrightarrow> invoice_step M P (t, db) (t, db')"
| reordered: "invoice_step M P (t, db) (t, reorder items db)"
| settings_changed: "P (ivs_prefix (f (settings_of db))) \<Longrightarrow> invoice_step M P (t, db) (t, update_settings f db)"
| template_saved: "invoice_step M P (t, db) (t, save_template tpl db)"
| template_deleted: "invoice_step M P (t, db) (t, db\<lparr>vd_templates := row_delete it_pk k (vd_templates db)\<rparr>)"
| other_apps: "invoice_step M P (t, db) (t, db\<lparr>vd_clients := cs, vd_list_rows := ls, vd_products := ps\<rparr>)"

definition invoice_start :: "datetime \<times> invoice_db \<Rightarrow> bool" where
  "invoice_start s \<longleftrightarrow> vd_invoices (snd s) = [] \<and> vd_payments (snd s) = [] \<and> vd_templates (snd s) = []
     \<and> vd_settings (snd s) = None"

definition one_default :: "invoice_db \<Rightarrow> bool" where
  "one_default db \<longleftrightarrow> distinct (map it_pk (vd_templates db)) \<and> length (filter it_default (vd_templates db)) \<le> 1"

definition invoice_inv :: "pk set \<Rightarrow> (string \<Rightarrow> bool) \<Rightarrow> datetime \<times> invoice_db \<Rightarrow> bool" where
  "invoice_inv M P s \<longleftrightarrow> ledger_ok M (snd s) \<and> distinct (map fst (number_keys (snd s)))
     \<and> ((\<forall>p. P p \<longrightarrow> dashless p) \<longrightarrow>
          numbering (fst s) (number_keys (snd s)) \<and> dashless (ivs_prefix (settings_of (snd s))))"

lemma duplicate_create:
  "duplicate now u k db = Inr r \<Longrightarrow> \<exists>q. create_invoice now u q db = Inr r"
  by (auto simp: duplicate_def split: option.splits)

text \<open>The settings row: only \<open>update_settings\<close> changes it, and creating an invoice adds the default one.\<close>

lemma settings_frames:
  "create_invoice now u q db = Inr (v, db') \<Longrightarrow> settings_of db' = settings_of db"
  "update_invoice k p db = Inr (v, db') \<Longrightarrow> settings_of db' = settings_of db"
  "update_line k lq db = Inr db' \<Longrightarrow> settings_of db' = settings_of db"
  by (auto elim!: create_invoice_pieces dest!: retotal_add_lines_writes(1)
      simp: line_writes_def settings_of_def ensure_settings_def)
    (auto elim!: update_invoice_pieces dest!: update_body_writes simp: line_writes_def settings_of_def,
     auto simp: update_line_def retotal_def settings_of_def Let_def split: option.splits prod.splits)

lemma settings_frames2:
  "destroy_invoice k db = Inr db' \<Longrightarrow> settings_of db' = settings_of db"
  "finalize k db = Inr (v, db') \<Longrightarrow> settings_of db' = settings_of db"
  "send_email now k r db = Inr db' \<Longrightarrow> settings_of db' = settings_of db"
  "create_payment now u d db = Inr db' \<Longrightarrow> settings_of db' = settings_of db"
  "update_payment now k q' db = Inr db' \<Longrightarrow> settings_of db' = settings_of db"
  "delete_payment now k db = Inr db' \<Longrightarrow> settings_of db' = settings_of db"
  "mark_paid now u method notes k db = Inr db' \<Longrightarrow> settings_of db' = settings_of db"
  "delete_line k db = Inr db' \<Longrightarrow> settings_of db' = settings_of db"
  by (auto simp: destroy_invoice_def finalize_def send_email_def create_payment_def update_payment_def
      delete_payment_def mark_paid_def delete_line_def insert_payment_def recompute_def settings_of_def Let_def
      split: option.splits if_splits prod.splits)

lemma simple_keys:
  assumes "ledger_ok M db"
  shows "finalize k db = Inr (v, db') \<Longrightarrow> number_keys db' = number_keys db"
    and "send_email now k r db = Inr db' \<Longrightarrow> number_keys db' = number_keys db"
proof -
  have save: "number_keys (save_invoice w db) = number_keys db"
    if "row_get iv_pk k (vd_invoices db) = Some v" "iv_pk w = iv_pk v" "iv_number w = iv_number v" "iv_created_at w = iv_created_at v"
    for v w using invoice_row [OF that(1)] that by (intro number_keys_save [OF assms, of v w]) auto
  show "finalize k db = Inr (v, db') \<Longrightarrow> number_keys db' = number_keys db"
    by (auto simp: finalize_def Let_def save split: option.splits if_splits)
  show "send_email now k r db = Inr db' \<Longrightarrow> number_keys db' = number_keys db"
    by (auto simp: send_email_def Let_def save split: option.splits if_splits)
qed

text \<open>Every step keeps the invariant.\<close>

lemma invoice_inv_frame:
  "invoice_inv M P (t, db) \<Longrightarrow> ledger_ok M db' \<Longrightarrow> number_keys db' = number_keys db \<Longrightarrow> settings_of db' = settings_of db
    \<Longrightarrow> t \<le> now \<Longrightarrow> invoice_inv M P (now, db')"
  by (auto simp: invoice_inv_def intro: numbering_later)

lemma create_step_inv:
  assumes "invoice_inv M P (t, db)" and "t < now" and "clock_ok now" and "create_invoice now u q db = Inr (v, db')"
  shows "invoice_inv M P (now, db')"
proof -
  have i: "ledger_ok M db" using assms(1) by (simp add: invoice_inv_def)
  then have "ledger_ok M db'" by (rule create_invoice_ledger [OF _ assms(4)])
  moreover have "distinct (map fst (number_keys db'))"
    using create_invoice_keys [OF assms(4)] assms(1) by (auto simp: invoice_inv_def)
  ultimately show ?thesis using create_invoice_numbering [OF _ assms(2,3) _ assms(4)] assms(1)
    by (simp add: invoice_inv_def settings_frames(1) [OF assms(4)])
qed

lemma tables_frame:
  assumes "invoice_inv M P (t, db)" and "vd_invoices db' = vd_invoices db" and "vd_payments db' = vd_payments db"
    and "(\<forall>p. P p \<longrightarrow> dashless p) \<longrightarrow> dashless (ivs_prefix (settings_of db'))"
  shows "invoice_inv M P (t, db')"
  using assms ledger_frame [OF _ assms(2,3)] by (simp add: invoice_inv_def number_keys_cong [OF assms(2)])

lemma invoice_inv_step: "invoice_step M P s s' \<Longrightarrow> invoice_inv M P s \<Longrightarrow> invoice_inv M P s'"
proof (induction rule: invoice_step.induct)
  case (created t now u q db v db')
  then show ?case using create_step_inv by blast
next
  case (duplicated t now u k db v db')
  then obtain q where "create_invoice now u q db = Inr (v, db')" using duplicate_create by blast
  then show ?case using duplicated create_step_inv by blast
next
  case (edited k p db v db' t)
  then have l: "ledger_ok M db" by (simp add: invoice_inv_def)
  show ?case
    by (rule invoice_inv_frame [OF edited(2) update_invoice_ledger [OF l edited(1)] update_invoice_keys [OF l edited(1)]
          settings_frames(2) [OF edited(1)]]) (use edited in simp)
next
  case (destroyed k db db' t)
  then have "distinct (map fst (number_keys db'))" using destroy_keys by (simp add: invoice_inv_def)
  then show ?case using destroyed destroy_numbering [OF _ destroyed(1)] destroy_invoice_ledger [OF _ destroyed(1)]
    by (simp add: invoice_inv_def settings_frames2(1) [OF destroyed(1)])
next
  case (finalized k db v db' t)
  then have l: "ledger_ok M db" by (simp add: invoice_inv_def)
  show ?case
    by (rule invoice_inv_frame [OF finalized(2) finalize_ledger [OF l finalized(1)] simple_keys(1) [OF l finalized(1)]
          settings_frames2(2) [OF finalized(1)]]) (use finalized in simp)
next
  case (emailed t now k r db db')
  then have l: "ledger_ok M db" by (simp add: invoice_inv_def)
  show ?case
    by (rule invoice_inv_frame [OF emailed(3) send_email_ledger [OF l emailed(2)] simple_keys(2) [OF l emailed(2)]
          settings_frames2(3) [OF emailed(2)]]) (use emailed in simp)
next
  case (payment_created t now u d db db')
  then have l: "ledger_ok M db" by (simp add: invoice_inv_def)
  show ?case
    by (rule invoice_inv_frame [OF payment_created(3) create_payment_ledger [OF l payment_created(2)] payment_keys(1) [OF l payment_created(2)]
          settings_frames2(4) [OF payment_created(2)]]) (use payment_created in simp)
next
  case (payment_edited t now db k q' db')
  then have l: "ledger_ok M db" by (simp add: invoice_inv_def)
  show ?case
    by (rule invoice_inv_frame [OF payment_edited(4) update_payment_ledger [OF l payment_edited(3) payment_edited(2)] payment_keys(2) [OF l payment_edited(3)]
          settings_frames2(5) [OF payment_edited(3)]]) (use payment_edited in simp)
next
  case (payment_deleted t now k db db')
  then have l: "ledger_ok M db" by (simp add: invoice_inv_def)
  show ?case
    by (rule invoice_inv_frame [OF payment_deleted(3) delete_payment_ledger [OF l payment_deleted(2)] payment_keys(3) [OF l payment_deleted(2)]
          settings_frames2(6) [OF payment_deleted(2)]]) (use payment_deleted in simp)
next
  case (marked_paid t now u meth nts k db db')
  then have l: "ledger_ok M db" by (simp add: invoice_inv_def)
  show ?case
    by (rule invoice_inv_frame [OF marked_paid(3) mark_paid_ledger [OF l marked_paid(2)] mark_paid_keys [OF l marked_paid(2)]
          settings_frames2(7) [OF marked_paid(2)]]) (use marked_paid in simp)
next
  case (line_edited k lq db db' t)
  then have l: "ledger_ok M db" by (simp add: invoice_inv_def)
  show ?case
    by (rule invoice_inv_frame [OF line_edited(2) update_line_ledger [OF l line_edited(1)] update_line_keys [OF l line_edited(1)]
          settings_frames(3) [OF line_edited(1)]]) (use line_edited in simp)
next
  case (line_deleted k db db' t)
  have "db' = db\<lparr>vd_lines := row_delete li_pk k (vd_lines db)\<rparr>"
    using line_deleted(1) by (simp add: delete_line_def split: if_splits)
  then show ?case using line_deleted(2)
    by (intro tables_frame [OF line_deleted(2)]) (simp_all add: settings_of_def invoice_inv_def)
next
  case (reordered t db items)
  then show ?case by (rule tables_frame) (use reordered in \<open>simp_all add: reorder_def settings_of_def invoice_inv_def\<close>)
next
  case (settings_changed f db t)
  then show ?case by (intro tables_frame [OF settings_changed(2)]) (simp_all add: update_settings_def settings_of_def)
next
  case (template_saved t db tpl)
  then show ?case by (rule tables_frame) (use template_saved in \<open>simp_all add: save_template_def Let_def settings_of_def invoice_inv_def\<close>)
next
  case (template_deleted t db k)
  then show ?case by (rule tables_frame) (use template_deleted in \<open>simp_all add: settings_of_def invoice_inv_def\<close>)
next
  case (other_apps t db cs ls ps)
  then show ?case by (rule tables_frame) (use other_apps in \<open>simp_all add: settings_of_def invoice_inv_def\<close>)
qed

lemma invoice_start_inv: "invoice_start s \<Longrightarrow> invoice_inv M P s"
  by (simp add: invoice_start_def invoice_inv_def ledger_ok_def ledger_tables_def numbering_def
      number_keys_def settings_of_def default_invoice_settings_def dashless_def)

interpretation invoices: invariant_system invoice_start "invoice_step M P" "invoice_inv M P" for M P
  by unfold_locales (rule invoice_start_inv, assumption, erule (1) invoice_inv_step)

end
