(* ===== verification/Invoice_Props.thy ===== *)
theory Invoice_Props
  imports Invoice_Runs
begin

text \<open>What follows for the invoices of every reachable state, the totals of created and edited
  invoices, and where the endpoints depart from the intention their comments state.\<close>

subsection \<open>Totals\<close>

lemma add_line_lines:
  assumes "add_line d (v, src, db) = (v', src', db')"
  shows "vd_lines db' = vd_lines db @ [fill_line db (line_of (next_pk li_pk (vd_lines db)) (iv_pk v) d)] \<and> iv_pk v' = iv_pk v"
  using assms by (auto simp: add_line_def retotal_def row_create_def Let_def split: prod.splits)

lemma add_lines_lines:
  "add_lines ds (v, src, db) = (v', src', db')
    \<Longrightarrow> \<exists>ls. vd_lines db' = vd_lines db @ ls \<and> length ls = length ds \<and> (\<forall>l \<in> set ls. li_invoice l = iv_pk v)"
proof (induction ds arbitrary: v src db)
  case (Cons d ds)
  obtain v1 src1 db1 where s1: "add_line d (v, src, db) = (v1, src1, db1)" by (metis prod_cases3)
  then have "add_lines ds (v1, src1, db1) = (v', src', db')" using Cons.prems by simp
  then obtain ls where "vd_lines db' = vd_lines db1 @ ls" "length ls = length ds" "\<forall>l \<in> set ls. li_invoice l = iv_pk v1"
    using Cons.IH by blast
  then show ?case using add_line_lines [OF s1]
    by (intro exI [of _ "fill_line db (line_of (next_pk li_pk (vd_lines db)) (iv_pk v) d) # ls"]) auto
qed simp

lemma add_lines_from_table: "add_lines ds (v, From_table, db) = (v', src', db') \<Longrightarrow> src' = From_table"
proof (induction ds arbitrary: v db)
  case (Cons d ds)
  obtain v1 src1 db1 where s1: "add_line d (v, From_table, db) = (v1, src1, db1)" by (metis prod_cases3)
  then have "src1 = From_table" by (auto simp: add_line_def retotal_def read_lines_def Let_def split: prod.splits)
  then show ?case using Cons s1 by auto
qed simp

lemma add_lines_cached: "add_lines ds (v, Prefetched (Some ls), db) = (v', src', db') \<Longrightarrow> src' = Prefetched (Some ls)"
proof (induction ds arbitrary: v db)
  case (Cons d ds)
  obtain v1 src1 db1 where s1: "add_line d (v, Prefetched (Some ls), db) = (v1, src1, db1)" by (metis prod_cases3)
  then have "src1 = Prefetched (Some ls)" by (auto simp: add_line_def retotal_def read_lines_def Let_def split: prod.splits)
  then show ?case using Cons s1 by auto
qed simp

definition lines_ok :: "invoice_db \<Rightarrow> bool" where
  "lines_ok db \<longleftrightarrow> (\<forall>l \<in> set (vd_lines db). li_invoice l \<in> iv_pk ` set (vd_invoices db))"

text \<open>A created invoice has exactly the requested number of line items, its stored subtotal, tax
  and total are the exact sums over these items rounded once, and the printed figures add up to
  within a cent and a half.\<close>

theorem created_totals:
  assumes "lines_ok db" and "create_invoice now u q db = Inr (v, db')"
  shows "length (invoice_lines db' (iv_pk v)) = length (vr_lines q)
    \<and> (\<exists>w \<in> set (vd_invoices db'). iv_pk w = iv_pk v
        \<and> iv_subtotal w = round_half_up 2 (\<Sum>l\<leftarrow>invoice_lines db' (iv_pk v). line_total l)
        \<and> iv_tax w = round_half_up 2 (\<Sum>l\<leftarrow>invoice_lines db' (iv_pk v). line_tax l)
        \<and> iv_total w = round_half_up 2 ((\<Sum>l\<leftarrow>invoice_lines db' (iv_pk v). line_total l)
            + (\<Sum>l\<leftarrow>invoice_lines db' (iv_pk v). line_tax l) - iv_discount w)
        \<and> \<bar>iv_total w - (iv_subtotal w + iv_tax w - iv_discount w)\<bar> \<le> 3/200)"
proof -
  obtain c v0 src db1 where v0: "v0 = new_invoice (next_pk iv_pk (vd_invoices db)) (get_next_invoice_number db (settings_of db) now) now u (settings_of db) c q"
    and db1: "db1 = (ensure_settings db)\<lparr>vd_invoices := row_create (invoice_columns v0) (vd_invoices db)\<rparr>"
    and r: "retotal (add_lines (vr_lines q) (v0, From_table, db1)) = (v, src, db')"
    using assms(2) by (rule create_invoice_pieces)
  obtain v2 src2 db2 where a: "add_lines (vr_lines q) (v0, From_table, db1) = (v2, src2, db2)" by (metis prod_cases3)
  have "src2 = From_table" using a by (rule add_lines_from_table)
  then have v: "v = calculate_totals (invoice_lines db2 (iv_pk v2)) v2" "db' = save_invoice v db2"
    using r a by (auto simp: retotal_def read_lines_def Let_def split: prod.splits)
  have w: "line_writes v0 db1 v db'" and rows: "vd_invoices db' = row_save iv_pk (invoice_columns v) (vd_invoices db1)"
    using retotal_add_lines_writes [OF r] by auto
  have pk: "iv_pk v = next_pk iv_pk (vd_invoices db)" "iv_pk v2 = iv_pk v" using w v by (auto simp: line_writes_def v0)
  obtain ls where ls: "vd_lines db2 = vd_lines db @ ls" "length ls = length (vr_lines q)" "\<forall>l \<in> set ls. li_invoice l = iv_pk v"
    using add_lines_lines [OF a] pk by (auto simp: db1 v0)
  have "li_invoice l \<noteq> iv_pk v" if "l \<in> set (vd_lines db)" for l
    using assms(1) that next_pk_fresh [of _ "vd_invoices db" iv_pk] pk by (force simp: lines_ok_def)
  then have lines: "invoice_lines db' (iv_pk v) = ls" "invoice_lines db2 (iv_pk v2) = ls"
    using ls v(2) pk by (simp_all add: invoice_lines_def filter_empty_conv)
  define S T where "S = (\<Sum>l\<leftarrow>ls. line_total l)" and "T = (\<Sum>l\<leftarrow>ls. line_tax l)"
  have sums: "iv_subtotal v = S" "iv_tax v = T" "iv_total v = S + T - iv_discount v"
    using v(1) lines by (auto simp: calculate_totals_def Let_def S_def T_def)
  have mem: "invoice_columns v \<in> set (vd_invoices db')" using pk by (simp add: rows set_row_save db1 v0)
  have "\<bar>round_half_up 2 x - x\<bar> \<le> 1/200" for x using round_half_up_error [of 2 x] by simp
  note err = this [of S] this [of T] this [of "S + T - iv_discount v"]
  have "\<bar>round_half_up 2 (S + T - iv_discount v) - (round_half_up 2 S + round_half_up 2 T - iv_discount v)\<bar> \<le> 3/200"
    using err by linarith
  then show ?thesis using ls(2) mem sums unfolding lines S_def [symmetric] T_def [symmetric]
    by (intro conjI bexI [of _ "invoice_columns v"]) simp_all
qed

text \<open>An edit of a draft that replaces its line items writes all of them, but the total it stores
  is that of the first item alone: the prefetched line items of the instance are read again only
  once, when the first of the new items has been written.\<close>

theorem update_counts_first_line:
  assumes "update_invoice k p db = Inr (v, db')" and "vp_lines p = Some (d # ds)"
  shows "length (invoice_lines db' k) = Suc (length ds)
    \<and> iv_total v = line_total (hd (invoice_lines db' k)) + line_tax (hd (invoice_lines db' k)) - iv_discount v
    \<and> invoice_columns v \<in> set (vd_invoices db')"
proof -
  obtain v0 w src where v0: "row_get iv_pk k (vd_invoices db) = Some v0"
    and w: "iv_pk w = iv_pk v0 \<and> iv_paid w = iv_paid v0 \<and> iv_status w = iv_status v0 \<and> iv_number w = iv_number v0
      \<and> iv_created_at w = iv_created_at v0"
    and u: "update_body p w db = (v, src, db')"
    using assms(1) by (rule update_invoice_pieces)
  have pk: "iv_pk w = k" using invoice_row [OF v0] w by simp
  define db0 where "db0 = db\<lparr>vd_lines := filter (\<lambda>l. li_invoice l \<noteq> k) (vd_lines db)\<rparr>"
  have b: "retotal (add_lines ds (add_line d (w, Prefetched None, db0))) = (v, src, db')"
    using u assms(2) pk by (simp add: update_body_def db0_def)
  obtain v1 src1 db1 where s1: "add_line d (w, Prefetched None, db0) = (v1, src1, db1)" by (metis prod_cases3)
  define l1 where "l1 = fill_line db0 (line_of (next_pk li_pk (vd_lines db0)) k d)"
  have lines1: "vd_lines db1 = vd_lines db0 @ [l1]" "iv_pk v1 = k" using add_line_lines [OF s1] pk by (simp_all add: l1_def)
  have none: "filter (\<lambda>l. li_invoice l = k) (vd_lines db0) = []" by (simp add: db0_def filter_empty_conv)
  have "src1 = Prefetched (Some (invoice_lines db1 k))"
    using s1 pk by (auto simp: add_line_def retotal_def read_lines_def row_create_def invoice_lines_def Let_def split: prod.splits)
  then have src1: "src1 = Prefetched (Some [l1])"
    using none lines1 by (simp add: invoice_lines_def l1_def)
  obtain v2 src2 db2 where s2: "add_lines ds (v1, src1, db1) = (v2, src2, db2)" by (metis prod_cases3)
  have "src2 = Prefetched (Some [l1])" using s2 src1 add_lines_cached by blast
  then have v: "v = calculate_totals [l1] v2" "db' = save_invoice v db2"
    using b s1 s2 by (auto simp: retotal_def read_lines_def Let_def split: prod.splits)
  obtain ls where ls: "vd_lines db2 = vd_lines db1 @ ls" "length ls = length ds" "\<forall>l \<in> set ls. li_invoice l = k"
    using add_lines_lines [OF s2] lines1(2) by auto
  then have lines: "invoice_lines db' k = l1 # ls"
    using none v(2) lines1 by (simp add: invoice_lines_def l1_def)
  have rows: "vd_invoices db' = row_save iv_pk (invoice_columns v) (vd_invoices db)"
    using update_body_writes [OF u] by blast
  have "iv_pk v = k" using update_body_writes [OF u] pk by (auto simp: line_writes_def)
  moreover have "k \<in> iv_pk ` set (vd_invoices db)" using invoice_row [OF v0] by (metis image_eqI)
  ultimately have "invoice_columns v \<in> set (vd_invoices db')" by (simp add: rows set_row_save)
  then show ?thesis using lines ls(2) v(1) by (simp add: calculate_totals_def Let_def)
qed

subsection \<open>Payments\<close>

text \<open>C33: In every reachable state the paid amount of an invoice that no edited payment has left for
  another invoice (\<open>M\<close> has the invoices that payments left) never exceeds the sum of its payment rows,
  and is exactly that sum unless the invoice is marked as paid.  An invoice that a payment left keeps
  counting it, which \<open>moved_payment_drifts\<close> shows.\<close>

theorem paid_amount_backed:
  assumes "reachable invoice_start (invoice_step M P) (t, db)" and "v \<in> set (vd_invoices db)" and "iv_pk v \<notin> M"
  shows "iv_paid v \<le> payments_sum db (iv_pk v)
    \<and> (iv_status v \<noteq> Invoice_paid \<longrightarrow> iv_paid v = payments_sum db (iv_pk v))"
  using invoices.reachable_inv [OF assms(1)] assms(2,3) by (simp add: invoice_inv_def ledger_ok_def ledger_row_def)

text \<open>In every reachable state, recording a payment on an invoice that is not yet paid, and that no
  edited payment has left, leaves its
  payments at most at its total, and marks it paid exactly when they reach it.\<close>

theorem payment_settles:
  assumes "reachable invoice_start (invoice_step M P) (t, db)" and "v \<in> set (vd_invoices db)" and "iv_status v \<noteq> Invoice_paid"
    and "pd_invoice d = iv_pk v" and "create_payment now u d db = Inr db'" and "iv_pk v \<notin> M"
  shows "\<exists>w \<in> set (vd_invoices db'). iv_pk w = iv_pk v \<and> iv_paid w = payments_sum db' (iv_pk v)
    \<and> iv_paid w = iv_paid v + pd_amount d
    \<and> iv_status w = (if pd_amount d = get_balance v then Invoice_paid else Invoice_partially_paid)
    \<and> round_half_up 2 (iv_total v) = iv_total w \<and> iv_paid w \<le> iv_total v"
proof -
  have inv: "ledger_ok M db" using invoices.reachable_inv [OF assms(1)] by (simp add: invoice_inv_def)
  have dist: "distinct (map iv_pk (vd_invoices db))" using inv by (simp add: ledger_ok_def ledger_tables_def)
  have paid: "iv_paid v = payments_sum db (iv_pk v)" using inv assms(2,3,6) by (simp add: ledger_ok_def ledger_row_def)
  have v: "row_get iv_pk (pd_invoice d) (vd_invoices db) = Some v"
    using row_get_unique [OF dist assms(2)] assms(4) by simp
  have ok: "validate_payment v 0 (pd_amount d) = None" and db': "db' = snd (insert_payment now u d v db)"
    using assms(5) v by (auto simp: create_payment_def split: option.splits)
  have amount: "0 < pd_amount d" "pd_amount d \<le> get_balance v" and open_inv: "iv_status v \<noteq> Invoice_cancelled"
    using ok float_cent_pos by (auto simp: validate_payment_def Let_def split: if_splits)
  define s where "s = payments_sum db' (iv_pk v)"
  have s: "s = iv_paid v + pd_amount d"
    by (simp add: s_def db' insert_payment_def recompute_def Let_def payments_sum_def invoice_payments_def
        row_create_def payment_of_def assms(4) paid)
  have "0 \<le> payments_sum db (iv_pk v)"
    unfolding payments_sum_def using inv
    by (intro sum_list_nonneg_rat) (auto simp: invoice_payments_def ledger_ok_def ledger_tables_def intro: less_imp_le)
  then have pos: "0 < s" using s paid amount by simp
  define w where "w = recompute_paid_amount now s v"
  have "vd_invoices db' = row_save iv_pk (invoice_columns w) (vd_invoices db)"
    by (simp add: w_def s_def db' insert_payment_def recompute_def Let_def payments_sum_def invoice_payments_def)
  then have mem: "invoice_columns w \<in> set (vd_invoices db')" using assms(2) by (auto simp: w_def set_row_save)
  have "iv_status w = (if iv_total v \<le> s then Invoice_paid else Invoice_partially_paid)"
    using pos by (simp add: w_def recompute_paid_amount_def Let_def update_payment_status_def)
  then have "iv_status w = (if pd_amount d = get_balance v then Invoice_paid else Invoice_partially_paid)"
    using s amount by (auto simp: get_balance_def)
  then show ?thesis using mem s amount
    by (intro bexI [of _ "invoice_columns w"]) (simp_all add: w_def s_def [symmetric] get_balance_def)
qed

text \<open>A payment that is edited to belong to another invoice is taken from the payments of the old
  one, whose paid amount keeps counting it: only the new invoice is recomputed.\<close>

theorem moved_payment_drifts:
  assumes "ledger_ok M db" and "row_get ip_pk k (vd_payments db) = Some p" and "pp_invoice q = Some j"
    and "j \<noteq> ip_invoice p" and "v \<in> set (vd_invoices db)" and "iv_pk v = ip_invoice p"
    and "update_payment now k q db = Inr db'"
  shows "v \<in> set (vd_invoices db') \<and> payments_sum db' (iv_pk v) = payments_sum db (iv_pk v) - ip_amount p
    \<and> payments_sum db' (iv_pk v) < payments_sum db (iv_pk v)"
proof -
  define p' where "p' = apply_payment_patch q p"
  have p': "ip_pk p' = ip_pk p" "ip_invoice p' = j" using assms(3) by (simp_all add: p'_def apply_payment_patch_def or_default_def)
  note pr = row_get_Some [OF assms(2)]
  obtain w where w: "row_get iv_pk j (vd_invoices db) = Some w"
    using assms(2,3,7) p' by (auto simp: update_payment_def Let_def p'_def split: option.splits)
  have db': "db' = snd (recompute now w (db\<lparr>vd_payments := row_save ip_pk p' (vd_payments db)\<rparr>))"
    using assms(2,7) w p' by (auto simp: update_payment_def Let_def p'_def split: option.splits if_splits)
  have dist: "distinct (map ip_pk (vd_payments db))" and pos: "0 < ip_amount p"
    using assms(1) pr by (auto simp: ledger_ok_def ledger_tables_def)
  have sums: "(\<Sum>x\<leftarrow>filter P xs. ip_amount x) = (\<Sum>x\<leftarrow>xs. if P x then ip_amount x else 0)" for P xs
    by (induction xs) auto
  have "(\<Sum>x\<leftarrow>row_save ip_pk p' (vd_payments db). if ip_invoice x = iv_pk v then ip_amount x else 0)
      = (\<Sum>x\<leftarrow>vd_payments db. if ip_invoice x = iv_pk v then ip_amount x else 0) - ip_amount p"
    using sum_row_save [OF dist, of p p' "\<lambda>x. if ip_invoice x = iv_pk v then ip_amount x else 0"] pr p' assms(4,6) by auto
  then have "payments_sum db' (iv_pk v) = payments_sum db (iv_pk v) - ip_amount p"
    by (simp add: payments_sum_def invoice_payments_def db' recompute_def Let_def sums)
  moreover have "v \<in> set (vd_invoices db')"
    using assms(4-6) invoice_row [OF w] by (auto simp: db' recompute_def Let_def set_row_save)
  ultimately show ?thesis using pos by simp
qed

subsection \<open>Numbers\<close>

lemma first_line_error_Some: "first_line_error db ds = Some e \<Longrightarrow> \<exists>d \<in> set ds. line_error db d = Some e"
proof (induction ds)
  case (Cons d ds)
  then show ?case by (cases "line_error db d") (auto simp: first_line_error_def List.map_filter_simps)
qed (simp add: first_line_error_def List.map_filter_simps)

text \<open>C34: In every reachable state the invoice numbers are distinct, whatever prefixes were chosen, and
  as long as administrators choose prefixes without a dash (and years have four digits, and invoices
  are created at different times) creating the next invoice never fails on the unique constraint of
  the numbers.  The code accepts a prefix with a dash; \<open>dashed_prefix_blocks\<close> shows that the next
  number can then be taken for good.\<close>

theorem numbers_unique:
  assumes "reachable invoice_start (invoice_step M P) (t, db)" and "t < now" and "clock_ok now"
  shows "distinct (map iv_number (vd_invoices db))
    \<and> ((\<forall>p. P p \<longrightarrow> dashless p) \<longrightarrow> create_invoice now u q db \<noteq> Inl Duplicate_number)"
proof (intro conjI impI)
  note i = invoices.reachable_inv [OF assms(1)]
  show "distinct (map iv_number (vd_invoices db))"
    using i by (simp add: invoice_inv_def number_keys_def comp_def)
  assume "\<forall>p. P p \<longrightarrow> dashless p"
  then have n: "numbering t (number_keys db)" "dashless (ivs_prefix (settings_of db))"
    using i by (simp_all add: invoice_inv_def)
  have "get_next_invoice_number (ensure_settings db) (settings_of db) now \<notin> iv_number ` set (vd_invoices db)"
    using next_number_fresh [OF n(1) assms(2) n(2)] assms(3) by (simp add: clock_ok_def get_next_invoice_number_def)
  moreover have "validate_invoice db q \<noteq> Inl Duplicate_number"
    by (auto simp: validate_invoice_def line_error_def source_error_def
        split: option.splits if_splits dest!: first_line_error_Some)
  ultimately show "create_invoice now u q db \<noteq> Inl Duplicate_number"
    by (auto simp: create_invoice_def Let_def split: sum.splits prod.splits)
qed

end
