(* ===== verification/Invoice_Sample.thy ===== *)
theory Invoice_Sample
  imports Invoice_Props
begin

text \<open>A tenant with one customer, two invoices and a payment, on which the properties are applied.\<close>

definition lamp_line :: line_data where
  "lamp_line = \<lparr>ld_source = Source_manual, ld_product = None, ld_list_item = None, ld_description = ''Lamp'',
     ld_quantity = 2, ld_unit = ''unit'', ld_unit_price = 10, ld_tax_rate = 18, ld_discount_percent = 0, ld_position = 0\<rparr>"

text \<open>A line whose price and tax are half a cent each.\<close>

definition screw_line :: line_data where
  "screw_line = lamp_line\<lparr>ld_description := ''Screw'', ld_quantity := 1, ld_unit_price := 1/100,
     ld_tax_rate := 100, ld_discount_percent := 50\<rparr>"

definition lamp_request :: invoice_request where
  "lamp_request = \<lparr>vr_client = 1, vr_issue = None, vr_due = 739710, vr_currency = None, vr_discount = None,
     vr_notes = None, vr_terms = None, vr_template = None, vr_lines = [lamp_line, screw_line]\<rparr>"

definition new_tenant :: invoice_db where
  "new_tenant = \<lparr>vd_settings = None, vd_invoices = [], vd_lines = [], vd_payments = [], vd_templates = [],
     vd_clients = [\<lparr>sc_pk = 1, sc_first = ''Ann'', sc_last = ''Lee'', sc_email = ''a@b.c'', sc_active = True\<rparr>],
     vd_list_rows = [], vd_products = []\<rparr>"

definition noon :: datetime where "noon = 739677 * us_per_day + 12 * us_per_hour"

text \<open>The tables after each request, as the database shows them.\<close>

definition lamp_bill :: "pk \<Rightarrow> string \<Rightarrow> datetime \<Rightarrow> invoice" where
  "lamp_bill k n made = \<lparr>iv_pk = k, iv_number = n, iv_status = Invoice_draft, iv_client = Some 1,
     iv_list_client = None, iv_client_name = ''Ann Lee'', iv_issue = 739677, iv_due = 739710,
     iv_sent_date = None, iv_paid_date = None, iv_currency = ''GEL'', iv_subtotal = 2001/100, iv_tax = 361/100,
     iv_discount = 0, iv_total = 2361/100, iv_paid = 0, iv_notes = [], iv_terms = [], iv_template = None,
     iv_created_by = Some 7, iv_created_at = made\<rparr>"

definition bill_1 :: invoice where "bill_1 = lamp_bill 1 ''INV-2026-0001'' 63908136000000000"
definition bill_2 :: invoice where "bill_2 = lamp_bill 2 ''INV-2026-0002'' 63908136000000001"

definition unrounded :: "invoice \<Rightarrow> invoice" where
  "unrounded v = v\<lparr>iv_subtotal := 4001/200, iv_tax := 721/200\<rparr>"

definition tenant_1 :: invoice_db where
  "tenant_1 = new_tenant\<lparr>vd_settings := Some default_invoice_settings, vd_invoices := [bill_1],
     vd_lines := [line_of 1 1 lamp_line, line_of 2 1 screw_line]\<rparr>"

definition tenant_2 :: invoice_db where
  "tenant_2 = tenant_1\<lparr>vd_invoices := [bill_1, bill_2],
     vd_lines := vd_lines tenant_1 @ [line_of 3 2 lamp_line, line_of 4 2 screw_line]\<rparr>"

definition ten_gel :: payment_data where
  "ten_gel = \<lparr>pd_invoice = 1, pd_amount = 10, pd_date = noon, pd_method = By_cash, pd_notes = []\<rparr>"

definition bill_1_paid :: invoice where
  "bill_1_paid = bill_1\<lparr>iv_status := Invoice_partially_paid, iv_paid := 10\<rparr>"

definition ten_row :: invoice_payment where "ten_row = payment_of 1 (Some 7) ten_gel"

definition paid_ten :: invoice_db where
  "paid_ten = tenant_2\<lparr>vd_invoices := [bill_1_paid, bill_2], vd_payments := [ten_row]\<rparr>"

definition move_payment :: payment_patch where
  "move_payment = \<lparr>pp_invoice = Some 2, pp_amount = None, pp_date = None, pp_method = None, pp_notes = None\<rparr>"

definition bill_2_paid :: invoice where
  "bill_2_paid = bill_2\<lparr>iv_status := Invoice_partially_paid, iv_paid := 10\<rparr>"

definition moved_ten :: invoice_db where
  "moved_ten = paid_ten\<lparr>vd_invoices := [bill_1_paid, bill_2_paid], vd_payments := [ten_row\<lparr>ip_invoice := 2\<rparr>]\<rparr>"

definition two_lamps :: invoice_patch where
  "two_lamps = \<lparr>vp_client = None, vp_issue = None, vp_due = None, vp_currency = None, vp_discount = None,
     vp_notes = None, vp_terms = None, vp_template = None, vp_lines = Some [lamp_line, lamp_line]\<rparr>"

definition bill_2_edited :: invoice where
  "bill_2_edited = bill_2\<lparr>iv_subtotal := 20, iv_tax := 36/10, iv_total := 236/10\<rparr>"

definition edited_2 :: invoice_db where
  "edited_2 = paid_ten\<lparr>vd_invoices := [bill_1_paid, bill_2_edited],
     vd_lines := vd_lines tenant_1 @ [line_of 3 2 lamp_line, line_of 4 2 lamp_line]\<rparr>"

lemma created_1: "create_invoice noon (Some 7) lamp_request new_tenant = Inr (unrounded bill_1, tenant_1)"
  by code_simp

lemma created_2: "create_invoice (noon + 1) (Some 7) lamp_request tenant_1 = Inr (unrounded bill_2, tenant_2)"
  by code_simp

lemma paid_ten: "create_payment (noon + 2) (Some 7) ten_gel tenant_2 = Inr paid_ten"
  by code_simp

lemma moved_ten: "update_payment (noon + 3) 1 move_payment paid_ten = Inr moved_ten"
  by code_simp

lemma edited_2: "update_invoice 2 two_lamps paid_ten = Inr (bill_2_edited, edited_2)"
  by code_simp

lemma clock_samples: "clock_ok noon" "clock_ok (noon + 1)" "clock_ok (noon + 2)" "clock_ok (noon + 3)"
  by code_simp+

lemma tenant_reachable: "reachable invoice_start (invoice_step {} dashless) (noon + 1, tenant_2)"
proof -
  have "reachable invoice_start (invoice_step {} dashless) (noon - 1, new_tenant)"
    by (rule reachable.start) (simp add: invoice_start_def new_tenant_def)
  moreover have "invoice_step {} dashless (noon - 1, new_tenant) (noon, tenant_1)"
    by (rule invoice_step.created [OF _ _ created_1]) (simp_all add: clock_samples)
  moreover have "invoice_step {} dashless (noon, tenant_1) (noon + 1, tenant_2)"
    by (rule invoice_step.created [OF _ _ created_2]) (simp_all add: clock_samples)
  ultimately show ?thesis by (meson reachable.next_step)
qed

lemma tenant_reachable_paid: "reachable invoice_start (invoice_step {} dashless) (noon + 2, paid_ten)"
  by (rule reachable.next_step [OF tenant_reachable invoice_step.payment_created [OF _ paid_ten]]) simp

lemma bills:
  "bill_1 \<in> set (vd_invoices tenant_2)" "bill_1_paid \<in> set (vd_invoices paid_ten)"
  "iv_pk bill_1 = 1" "iv_pk bill_1_paid = 1" "iv_status bill_1 = Invoice_draft"
  "iv_status bill_1_paid = Invoice_partially_paid" "get_balance bill_1 = 2361/100" "iv_total bill_2_edited = 236/10"
  by (simp_all add: tenant_2_def paid_ten_def bill_1_paid_def bill_1_def lamp_bill_def get_balance_def bill_2_edited_def)

theorem created_totals_witness:
  "length (invoice_lines tenant_1 (iv_pk (unrounded bill_1))) = length (vr_lines lamp_request)
    \<and> (\<exists>w \<in> set (vd_invoices tenant_1). iv_pk w = iv_pk (unrounded bill_1)
        \<and> iv_subtotal w = round_half_up 2 (\<Sum>l\<leftarrow>invoice_lines tenant_1 (iv_pk (unrounded bill_1)). line_total l)
        \<and> iv_tax w = round_half_up 2 (\<Sum>l\<leftarrow>invoice_lines tenant_1 (iv_pk (unrounded bill_1)). line_tax l)
        \<and> iv_total w = round_half_up 2 ((\<Sum>l\<leftarrow>invoice_lines tenant_1 (iv_pk (unrounded bill_1)). line_total l)
            + (\<Sum>l\<leftarrow>invoice_lines tenant_1 (iv_pk (unrounded bill_1)). line_tax l) - iv_discount w)
        \<and> \<bar>iv_total w - (iv_subtotal w + iv_tax w - iv_discount w)\<bar> \<le> 3/200)"
  by (rule created_totals [OF _ created_1]) (simp add: lines_ok_def new_tenant_def)

text \<open>The stored figures of the sample: 20.01 plus 3.61 is printed as 23.61.\<close>

lemma figures_off_by_a_cent: "(iv_subtotal bill_1, iv_tax bill_1, iv_total bill_1) = (2001/100, 361/100, 2361/100)"
  by (simp add: bill_1_def lamp_bill_def)

theorem update_counts_first_line_witness:
  "length (invoice_lines edited_2 2) = 2
    \<and> iv_total bill_2_edited = line_total (hd (invoice_lines edited_2 2)) + line_tax (hd (invoice_lines edited_2 2))
        - iv_discount bill_2_edited
    \<and> invoice_columns bill_2_edited \<in> set (vd_invoices edited_2) \<and> iv_total bill_2_edited = 236/10"
  using update_counts_first_line [OF edited_2, of lamp_line "[lamp_line]"] bills by (simp add: two_lamps_def)

theorem paid_amount_backed_witness:
  "bill_1_paid \<in> set (vd_invoices paid_ten) \<and> iv_paid bill_1_paid = payments_sum paid_ten (iv_pk bill_1_paid)"
  using paid_amount_backed [OF tenant_reachable_paid bills(2)] bills by simp

theorem payment_settles_witness:
  "\<exists>w \<in> set (vd_invoices paid_ten). iv_pk w = iv_pk bill_1 \<and> iv_paid w = payments_sum paid_ten (iv_pk bill_1)
    \<and> iv_paid w = iv_paid bill_1 + pd_amount ten_gel
    \<and> iv_status w = (if pd_amount ten_gel = get_balance bill_1 then Invoice_paid else Invoice_partially_paid)
    \<and> round_half_up 2 (iv_total bill_1) = iv_total w \<and> iv_paid w \<le> iv_total bill_1"
  by (rule payment_settles [OF tenant_reachable bills(1) _ _ paid_ten]) (simp_all add: bills ten_gel_def)

theorem moved_payment_drifts_witness:
  "bill_1_paid \<in> set (vd_invoices moved_ten)
    \<and> payments_sum moved_ten (iv_pk bill_1_paid) = payments_sum paid_ten (iv_pk bill_1_paid) - 10
    \<and> payments_sum moved_ten (iv_pk bill_1_paid) < payments_sum paid_ten (iv_pk bill_1_paid)"
proof -
  have p: "row_get ip_pk 1 (vd_payments paid_ten) = Some ten_row" "ip_amount ten_row = 10" "ip_invoice ten_row = 1"
    by (simp_all add: paid_ten_def row_get_def ten_row_def payment_of_def ten_gel_def)
  have "ledger_ok {} paid_ten" using invoices.reachable_inv [OF tenant_reachable_paid] by (simp add: invoice_inv_def)
  then show ?thesis using moved_payment_drifts [OF _ p(1) _ _ bills(2) _ moved_ten, of "{}" 2] p bills
    by (simp add: move_payment_def)
qed

theorem numbers_unique_witness:
  "distinct (map iv_number (vd_invoices paid_ten))
    \<and> create_invoice (noon + 3) None lamp_request paid_ten \<noteq> Inl Duplicate_number"
  using numbers_unique [OF tenant_reachable_paid, of "noon + 3"] by (simp add: clock_samples)

text \<open>
  Two invoices INV-2026-0001 and INV-2026-0002, then one with the prefix INV-2026, whose number
  INV-2026-2026-0001 starts with the stem of the prefix INV too: back under the prefix INV the next
  number continues from it and is 0002, which is taken.  Every further attempt fails.
\<close>

definition with_prefix :: "string \<Rightarrow> invoice_settings \<Rightarrow> invoice_settings" where
  "with_prefix p s = s\<lparr>ivs_prefix := p\<rparr>"

definition tenant_3 :: invoice_db where
  "tenant_3 = (case create_invoice (noon + 2) (Some 7) lamp_request (update_settings (with_prefix ''INV-2026'') tenant_2) of
     Inr (_, db) \<Rightarrow> update_settings (with_prefix ''INV'') db | Inl _ \<Rightarrow> tenant_2)"

lemma created_3:
  "(case create_invoice (noon + 2) (Some 7) lamp_request (update_settings (with_prefix ''INV-2026'') tenant_2) of
     Inr _ \<Rightarrow> True | Inl _ \<Rightarrow> False)"
  "create_invoice (noon + 3) (Some 7) lamp_request tenant_3 = Inl Duplicate_number"
  by code_simp+

theorem dashed_prefix_blocks:
  "reachable invoice_start (invoice_step {} (\<lambda>_. True)) (noon + 2, tenant_3)
    \<and> create_invoice (noon + 3) (Some 7) lamp_request tenant_3 = Inl Duplicate_number"
proof
  obtain v db where c: "create_invoice (noon + 2) (Some 7) lamp_request
      (update_settings (with_prefix ''INV-2026'') tenant_2) = Inr (v, db)"
    using created_3(1) by (auto split: sum.splits)
  have "reachable invoice_start (invoice_step {} (\<lambda>_. True)) (noon - 1, new_tenant)"
    by (rule reachable.start) (simp add: invoice_start_def new_tenant_def)
  moreover have "invoice_step {} (\<lambda>_. True) (noon - 1, new_tenant) (noon, tenant_1)"
    by (rule invoice_step.created [OF _ _ created_1]) (simp_all add: clock_samples)
  moreover have "invoice_step {} (\<lambda>_. True) (noon, tenant_1) (noon + 1, tenant_2)"
    by (rule invoice_step.created [OF _ _ created_2]) (simp_all add: clock_samples)
  moreover have "invoice_step {} (\<lambda>_. True) (noon + 1, tenant_2)
      (noon + 1, update_settings (with_prefix ''INV-2026'') tenant_2)"
    by (rule invoice_step.settings_changed) simp
  moreover have "invoice_step {} (\<lambda>_. True) (noon + 1, update_settings (with_prefix ''INV-2026'') tenant_2) (noon + 2, db)"
    by (rule invoice_step.created [OF _ _ c]) (simp_all add: clock_samples)
  moreover have "invoice_step {} (\<lambda>_. True) (noon + 2, db) (noon + 2, tenant_3)"
    unfolding tenant_3_def c by simp (rule invoice_step.settings_changed, simp)
  ultimately show "reachable invoice_start (invoice_step {} (\<lambda>_. True)) (noon + 2, tenant_3)"
    by (meson reachable.next_step)
qed (rule created_3(2))

end
