(* ===== verification/Tenant_Features.thy ===== *)
theory Tenant_Features
  imports Users
begin

text \<open>
  Features of a tenant and the permissions they make available (\<^verbatim>\<open>tenants/feature_models.py\<close>,
  \<^verbatim>\<open>tenants/subscription_service.py\<close>).  The rows of \<open>fd_features\<close> are listed in the order of
  \<^verbatim>\<open>Feature.Meta\<close>; names, icons and the counters that \<^verbatim>\<open>sync_tenant_features\<close> only logs are left
  out.  \<open>feature_on\<close> and \<open>perm_on\<close> are what the rest of the program asks the tables for.
\<close>

subsection \<open>Tables\<close>

record feature =
  ft_pk :: pk
  ft_key :: string
  ft_core :: bool
  ft_price :: decimal
  ft_active :: bool

record feature_link =
  fl_feature :: pk
  fl_permission :: pk

record tenant_feature =
  tf_pk :: pk
  tf_tenant :: pk
  tf_feature :: pk
  tf_active :: bool
  tf_disabled_at :: "datetime option"

record tenant_perm =
  tp_pk :: pk
  tp_tenant :: pk
  tp_permission :: pk
  tp_granted_by :: "pk option"
  tp_active :: bool
  tp_revoked_at :: "datetime option"

record feature_db =
  fd_features :: "feature list"
  fd_links :: "feature_link list"
  fd_rows :: "tenant_feature list"
  fd_perms :: "tenant_perm list"

definition feature_permissions :: "feature_db \<Rightarrow> pk \<Rightarrow> pk list" where
  "feature_permissions fd f = map fl_permission (filter (\<lambda>l. fl_feature l = f) (fd_links fd))"

definition feature_on :: "feature_db \<Rightarrow> pk \<Rightarrow> pk \<Rightarrow> bool" where
  "feature_on fd t f \<longleftrightarrow> (\<exists>r \<in> set (fd_rows fd). tf_tenant r = t \<and> tf_feature r = f \<and> tf_active r)"

definition perm_on :: "feature_db \<Rightarrow> pk \<Rightarrow> pk \<Rightarrow> bool" where
  "perm_on fd t p \<longleftrightarrow> (\<exists>r \<in> set (fd_perms fd). tp_tenant r = t \<and> tp_permission r = p \<and> tp_active r)"

subsection \<open>The synchronisation\<close>

definition grant_permission :: "pk \<Rightarrow> pk \<Rightarrow> pk \<Rightarrow> feature_db \<Rightarrow> feature_db" where
  "grant_permission t f p fd =
     (case find (\<lambda>r. tp_tenant r = t \<and> tp_permission r = p) (fd_perms fd) of
        None \<Rightarrow> fd\<lparr>fd_perms := row_create \<lparr>tp_pk = next_pk tp_pk (fd_perms fd), tp_tenant = t, tp_permission = p,
                  tp_granted_by = Some f, tp_active = True, tp_revoked_at = None\<rparr> (fd_perms fd)\<rparr>
      | Some r \<Rightarrow>
          if tp_active r then fd
          else fd\<lparr>fd_perms := row_save tp_pk (r\<lparr>tp_active := True, tp_revoked_at := None, tp_granted_by := Some f\<rparr>) (fd_perms fd)\<rparr>)"

text \<open>\<^verbatim>\<open>_sync_feature_permissions\<close>\<close>

definition sync_feature_permissions :: "pk \<Rightarrow> pk \<Rightarrow> feature_db \<Rightarrow> feature_db" where
  "sync_feature_permissions t f fd = fold (grant_permission t f) (feature_permissions fd f) fd"

definition enable_feature :: "pk \<Rightarrow> pk \<Rightarrow> feature_db \<Rightarrow> feature_db" where
  "enable_feature t f fd =
     (case find (\<lambda>r. tf_tenant r = t \<and> tf_feature r = f) (fd_rows fd) of
        None \<Rightarrow> fd\<lparr>fd_rows := row_create \<lparr>tf_pk = next_pk tf_pk (fd_rows fd), tf_tenant = t, tf_feature = f,
                  tf_active = True, tf_disabled_at = None\<rparr> (fd_rows fd)\<rparr>
      | Some r \<Rightarrow>
          if tf_active r then fd
          else fd\<lparr>fd_rows := row_save tf_pk (r\<lparr>tf_active := True, tf_disabled_at := None\<rparr>) (fd_rows fd)\<rparr>)"

definition sync_one :: "pk \<Rightarrow> feature \<Rightarrow> feature_db \<Rightarrow> feature_db" where
  "sync_one t f fd = sync_feature_permissions t (ft_pk f) (enable_feature t (ft_pk f) fd)"

text \<open>\<^verbatim>\<open>_revoke_feature_permissions\<close>\<close>

definition protected_permissions :: "feature_db \<Rightarrow> pk \<Rightarrow> pk \<Rightarrow> pk list" where
  "protected_permissions fd t f =
     (let other = map tf_feature (filter (\<lambda>r. tf_tenant r = t \<and> tf_active r \<and> tf_feature r \<noteq> f) (fd_rows fd))
      in map fl_permission (filter (\<lambda>l. fl_feature l \<in> set other) (fd_links fd)))"

definition revoke_feature_permissions :: "datetime \<Rightarrow> pk \<Rightarrow> pk \<Rightarrow> feature_db \<Rightarrow> feature_db" where
  "revoke_feature_permissions now t f fd =
     (let revokable = set (feature_permissions fd f) - set (protected_permissions fd t f)
      in fd\<lparr>fd_perms := map (\<lambda>r. if tp_tenant r = t \<and> tp_permission r \<in> revokable \<and> tp_granted_by r = Some f
                              then r\<lparr>tp_active := False, tp_revoked_at := Some now\<rparr> else r) (fd_perms fd)\<rparr>)"

definition disable_feature :: "datetime \<Rightarrow> pk \<Rightarrow> tenant_feature \<Rightarrow> feature_db \<Rightarrow> feature_db" where
  "disable_feature now t r fd =
     revoke_feature_permissions now t (tf_feature r)
       (fd\<lparr>fd_rows := row_save tf_pk (r\<lparr>tf_active := False, tf_disabled_at := Some now\<rparr>) (fd_rows fd)\<rparr>)"

text \<open>The active features among the selected ones.\<close>

definition selected_active :: "feature_db \<Rightarrow> pk list \<Rightarrow> feature list" where
  "selected_active fd selected = filter (\<lambda>f. ft_pk f \<in> set selected \<and> ft_active f) (fd_features fd)"

definition stale_rows :: "pk \<Rightarrow> pk list \<Rightarrow> feature_db \<Rightarrow> tenant_feature list" where
  "stale_rows t ids fd = filter (\<lambda>r. tf_tenant r = t \<and> tf_active r \<and> tf_feature r \<notin> set ids) (fd_rows fd)"

definition sync_tenant_features :: "datetime \<Rightarrow> pk \<Rightarrow> pk list \<Rightarrow> feature_db \<Rightarrow> feature_db" where
  "sync_tenant_features now t selected fd =
     (let chosen = selected_active fd selected;
          fd1 = fold (sync_one t) chosen fd
      in fold (disable_feature now t) (stale_rows t (map ft_pk chosen) fd1) fd1)"

text \<open>\<^verbatim>\<open>check_tenant_feature\<close>, for the selected features of the active subscription of the tenant.\<close>

definition check_tenant_feature :: "feature_db \<Rightarrow> pk list \<Rightarrow> string \<Rightarrow> bool" where
  "check_tenant_feature fd selected k \<longleftrightarrow> (\<exists>f \<in> set (selected_active fd selected). ft_key f = k)"

subsection \<open>Well-formed tables\<close>

text \<open>Primary keys and the two \<^verbatim>\<open>unique_together\<close> constraints.\<close>

definition features_wf :: "feature_db \<Rightarrow> bool" where
  "features_wf fd \<longleftrightarrow> distinct (map tf_pk (fd_rows fd)) \<and> distinct (map tp_pk (fd_perms fd))
     \<and> distinct (map (\<lambda>r. (tf_tenant r, tf_feature r)) (fd_rows fd))
     \<and> distinct (map (\<lambda>r. (tp_tenant r, tp_permission r)) (fd_perms fd))"

end
