(* ===== verification/Tenant_Model.thy ===== *)
theory Tenant_Model
  imports Tenant_Features Bog
begin

text \<open>
  The data of subscription billing (\<^verbatim>\<open>tenants/models.py\<close>): tenants, their one subscription each,
  payment orders with their attempts and scheduled retries, saved cards, invoices and the event
  log; and the saving of a subscription, whose signal synchronises the features
  (\<^verbatim>\<open>tenants/signals.py\<close>).

  The keys of an order's metadata that the code reads are columns here.  Selected features are a
  list of keys on the subscription.  Texts that are only shown (descriptions, reasons, names, the
  bank's raw answers) are left out, and so are Telegram messages and mails.  \<open>bl_charges\<close> is not a
  table: it is the list of the charges the bank has accepted, in their order.
\<close>

subsection \<open>Rows\<close>

record tenant =
  tn_pk :: pk
  tn_schema :: string
  tn_active :: bool
  tn_provider :: string

datatype payment_health = Health_current | Health_overdue | Health_retrying | Health_failed | Health_no_card

record subscription =
  ts_pk :: pk
  ts_tenant :: pk
  ts_features :: "pk list"
  ts_agents :: int
  ts_active :: bool
  ts_users :: int
  ts_expires :: "datetime option"
  ts_last_billed :: "datetime option"
  ts_next_billing :: "datetime option"
  ts_trial :: bool
  ts_trial_ends :: "datetime option"
  ts_converted :: bool
  ts_parent :: "string option"
  ts_health :: payment_health
  ts_last_failure :: "datetime option"
  ts_failures :: int
  ts_paid_type :: bool

datatype order_status = Order_pending | Order_paid | Order_failed | Order_cancelled | Order_processing

record payment_order =
  od_pk :: pk
  od_id :: string
  od_bog :: "string option"
  od_tenant :: "pk option"
  od_amount :: decimal
  od_agents :: int
  od_status :: order_status
  od_card_saved :: bool
  od_kind :: "string option"
  od_subscription :: "pk option"
  od_feature :: "pk option"
  od_make_default :: bool
  od_save_both :: bool
  od_created :: datetime
  od_paid_at :: "datetime option"

record sub_invoice =
  nv_pk :: pk
  nv_number :: string
  nv_tenant :: pk
  nv_order :: pk
  nv_amount :: decimal
  nv_agents :: int
  nv_paid_date :: datetime

datatype attempt_status = Attempt_pending | Attempt_success | Attempt_failed | Attempt_cancelled

record payment_attempt =
  pa_pk :: pk
  pa_order :: pk
  pa_subscription :: "pk option"
  pa_tenant :: pk
  pa_number :: nat
  pa_status :: attempt_status
  pa_bog :: string
  pa_amount :: decimal
  pa_retry :: bool
  pa_parent :: "pk option"

datatype retry_status = Retry_pending | Retry_executing | Retry_succeeded | Retry_failed | Retry_skipped | Retry_cancelled

record retry_row =
  ry_pk :: pk
  ry_order :: pk
  ry_subscription :: pk
  ry_tenant :: pk
  ry_attempt :: pk
  ry_number :: nat
  ry_due :: datetime
  ry_executed :: "datetime option"
  ry_status :: retry_status
  ry_result :: "pk option"

datatype event_type = Ev_payment_failed | Ev_retry_scheduled | Ev_retry_success | Ev_suspended

record sub_event =
  se_subscription :: pk
  se_tenant :: pk
  se_type :: event_type
  se_order :: "pk option"
  se_attempt :: "pk option"

datatype card_kind = Card_subscription | Card_ecommerce

record saved_card =
  kd_pk :: pk
  kd_tenant :: pk
  kd_parent :: string
  kd_kind :: card_kind
  kd_masked :: string
  kd_saved_at :: datetime
  kd_active :: bool
  kd_default :: bool

record bank_charge =
  bc_tenant :: pk
  bc_parent :: string
  bc_order :: string
  bc_at :: datetime

record billing_db =
  bl_tenants :: "tenant list"
  bl_subs :: "subscription list"
  bl_orders :: "payment_order list"
  bl_invoices :: "sub_invoice list"
  bl_attempts :: "payment_attempt list"
  bl_retries :: "retry_row list"
  bl_events :: "sub_event list"
  bl_cards :: "saved_card list"
  bl_features :: feature_db
  bl_charges :: "bank_charge list"

subsection \<open>Subscriptions\<close>

text \<open>\<^verbatim>\<open>tenant.subscription\<close>, None when the tenant has none and the attribute raises.\<close>

definition sub_of :: "billing_db \<Rightarrow> pk \<Rightarrow> subscription option" where
  "sub_of db t = find (\<lambda>s. ts_tenant s = t) (bl_subs db)"

definition save_tenant :: "tenant \<Rightarrow> billing_db \<Rightarrow> billing_db" where
  "save_tenant t db = db\<lparr>bl_tenants := row_save tn_pk t (bl_tenants db)\<rparr>"

text \<open>\<^verbatim>\<open>sync_subscription_features\<close> runs after the row is written.\<close>

definition sync_subscription_features :: "datetime \<Rightarrow> subscription \<Rightarrow> billing_db \<Rightarrow> billing_db" where
  "sync_subscription_features now s db =
     (if ts_active s
      then db\<lparr>bl_features := sync_tenant_features now (ts_tenant s) (ts_features s) (bl_features db)\<rparr>
      else db)"

definition save_sub :: "datetime \<Rightarrow> subscription \<Rightarrow> billing_db \<Rightarrow> billing_db" where
  "save_sub now s db = sync_subscription_features now s (db\<lparr>bl_subs := row_save ts_pk s (bl_subs db)\<rparr>)"

definition monthly_cost :: "feature_db \<Rightarrow> subscription \<Rightarrow> decimal" where
  "monthly_cost fd s =
     (let selected = filter (\<lambda>f. ft_pk f \<in> set (ts_features s)) (fd_features fd)
      in if selected \<noteq> [] then (\<Sum>f\<leftarrow>selected. ft_price f) * of_int (ts_agents s) else 0)"

definition can_add_user :: "subscription \<Rightarrow> bool" where
  "can_add_user s \<longleftrightarrow> ts_users s < ts_agents s"

definition is_over_user_limit :: "subscription \<Rightarrow> bool" where
  "is_over_user_limit s \<longleftrightarrow> ts_agents s < ts_users s"

definition has_payment_issues :: "subscription \<Rightarrow> bool" where
  "has_payment_issues s \<longleftrightarrow> ts_health s \<in> {Health_overdue, Health_retrying, Health_failed}"

definition mark_payment_failed :: "datetime \<Rightarrow> subscription \<Rightarrow> subscription" where
  "mark_payment_failed now s =
     s\<lparr>ts_failures := ts_failures s + 1, ts_last_failure := Some now, ts_health := Health_retrying\<rparr>"

definition mark_payment_succeeded :: "subscription \<Rightarrow> subscription" where
  "mark_payment_succeeded s = s\<lparr>ts_failures := 0, ts_last_failure := None, ts_health := Health_current\<rparr>"

text \<open>\<^verbatim>\<open>if not subscription.parent_order_id\<close> is true of a missing and of an empty text.\<close>

definition text_given :: "string option \<Rightarrow> bool" where
  "text_given x \<longleftrightarrow> x \<noteq> None \<and> x \<noteq> Some ''''"

subsection \<open>The billing cycle\<close>

definition billing_interval :: "bool \<Rightarrow> int" where
  "billing_interval test = (if test then 2 * us_per_minute else 30 * us_per_day)"

definition get_next_billing_date :: "bool \<Rightarrow> datetime \<Rightarrow> datetime" where
  "get_next_billing_date test now = now + billing_interval test"

lemma billing_interval_pos: "0 < billing_interval test"
  by (simp add: billing_interval_def us_per_minute_def us_per_day_def)

text \<open>\<^verbatim>\<open>while anchor <= timezone.now(): anchor += billing_interval\<close>\<close>

function catch_up :: "bool \<Rightarrow> datetime \<Rightarrow> datetime \<Rightarrow> datetime" where
  "catch_up test now anchor = (if anchor \<le> now then catch_up test now (anchor + billing_interval test) else anchor)"
  by auto

termination
  by (relation "measure (\<lambda>(test, now, anchor). nat (now + 1 - anchor))")
    (auto simp: nat_mono_iff billing_interval_pos)

declare catch_up.simps [simp del]

text \<open>The anchor of the next cycle: one interval after the previous billing date, and on until it
  lies in the future.\<close>

definition next_anchor :: "bool \<Rightarrow> datetime \<Rightarrow> datetime option \<Rightarrow> datetime" where
  "next_anchor test now billed =
     catch_up test now ((case billed of Some d \<Rightarrow> d | None \<Rightarrow> now) + billing_interval test)"

text \<open>What a settled recurring charge writes.\<close>

definition renew :: "bool \<Rightarrow> datetime \<Rightarrow> subscription \<Rightarrow> subscription" where
  "renew test now s =
     (let anchor = next_anchor test now (ts_next_billing s)
      in s\<lparr>ts_last_billed := Some now, ts_expires := Some anchor, ts_next_billing := Some anchor, ts_failures := 0\<rparr>)"

end
