(* ===== verification/Billing_Orders.thy ===== *)
theory Billing_Orders
  imports Bog Text Tenant_Model
begin

text \<open>
  Saved cards (\<^verbatim>\<open>SavedCard.save\<close> in \<^verbatim>\<open>tenants/models.py\<close>, and the card endpoints of
  \<^verbatim>\<open>tenants/payment_views.py\<close>).  A write that raises is None: it is inside an atomic block of its
  caller, which rolls back.

  Payment orders that tenants start (\<^verbatim>\<open>tenants/payment_views.py\<close>), the invoices of settled orders,
  and the endpoints that change a subscription (\<^verbatim>\<open>tenants/feature_views.py\<close>).

  Four endpoints still pass \<^verbatim>\<open>package=\<close> to \<^verbatim>\<open>PaymentOrder.objects.create\<close> or read
  \<^verbatim>\<open>subscription.package\<close>, columns that migration 0042 dropped: the call raises after the bank
  created its order, and the handler answers 500.  They are modelled that way.
\<close>

datatype billing_error = Billing_forbidden | Billing_bad_request | Billing_not_found | Billing_unavailable | Billing_failed

definition cards_of :: "billing_db \<Rightarrow> pk \<Rightarrow> saved_card list" where
  "cards_of db t = filter (\<lambda>c. kd_tenant c = t) (bl_cards db)"

definition unset_defaults :: "saved_card \<Rightarrow> saved_card list \<Rightarrow> saved_card list" where
  "unset_defaults c cs = map (\<lambda>x. if kd_tenant x = kd_tenant c \<and> kd_default x \<and> kd_pk x \<noteq> kd_pk c
                                 then x\<lparr>kd_default := False\<rparr> else x) cs"

definition other_active :: "saved_card \<Rightarrow> saved_card list \<Rightarrow> bool" where
  "other_active c cs \<longleftrightarrow> (\<exists>x \<in> set cs. kd_tenant x = kd_tenant c \<and> kd_active x \<and> kd_pk x \<noteq> kd_pk c)"

definition put_card :: "saved_card \<Rightarrow> saved_card list \<Rightarrow> saved_card list" where
  "put_card c cs = (if kd_pk c \<in> kd_pk ` set cs then row_save kd_pk c cs else row_create c cs)"

text \<open>\<^verbatim>\<open>SavedCard.save\<close>: None when the unique key \<^verbatim>\<open>parent_order_id\<close> is taken.\<close>

definition save_card :: "saved_card \<Rightarrow> billing_db \<Rightarrow> billing_db option" where
  "save_card c db =
     (let cs = (if kd_default c then unset_defaults c (bl_cards db) else bl_cards db);
          c1 = (if kd_active c \<and> \<not> other_active c cs then c\<lparr>kd_default := True\<rparr> else c)
      in if \<exists>x \<in> set cs. kd_pk x \<noteq> kd_pk c \<and> kd_parent x = kd_parent c then None
         else Some (db\<lparr>bl_cards := put_card c1 cs\<rparr>))"

text \<open>\<^verbatim>\<open>.first()\<close> in the order of \<^verbatim>\<open>Meta.ordering\<close>: default cards first, then the newest.\<close>

definition card_before :: "saved_card \<Rightarrow> saved_card \<Rightarrow> bool" where
  "card_before a b \<longleftrightarrow> (kd_default a \<and> \<not> kd_default b) \<or> (kd_default a = kd_default b \<and> kd_saved_at b < kd_saved_at a)"

definition first_card :: "saved_card list \<Rightarrow> saved_card option" where
  "first_card cs = find (\<lambda>c. \<not> (\<exists>x \<in> set cs. card_before x c)) cs"

text \<open>What the bank's answer says about the card.\<close>

record card_details =
  cd_order :: string      \<comment> \<open>the bank's order id, the handle of later charges\<close>
  cd_masked :: string

definition new_card :: "billing_db \<Rightarrow> datetime \<Rightarrow> pk \<Rightarrow> card_kind \<Rightarrow> bool \<Rightarrow> card_details \<Rightarrow> saved_card" where
  "new_card db now t kind is_default d =
     \<lparr>kd_pk = next_pk kd_pk (bl_cards db), kd_tenant = t, kd_parent = cd_order d, kd_kind = kind,
      kd_masked = cd_masked d, kd_saved_at = now, kd_active = True, kd_default = is_default\<rparr>"

definition refresh_card :: "card_details \<Rightarrow> saved_card \<Rightarrow> saved_card" where
  "refresh_card d c = c\<lparr>kd_parent := cd_order d, kd_masked := cd_masked d\<rparr>"

text \<open>Update the active card of a kind, or create one.\<close>

definition upsert_kind :: "datetime \<Rightarrow> pk \<Rightarrow> card_kind \<Rightarrow> bool \<Rightarrow> card_details \<Rightarrow> billing_db \<Rightarrow> billing_db option" where
  "upsert_kind now t kind is_default d db =
     (case first_card (filter (\<lambda>c. kd_kind c = kind \<and> kd_active c) (cards_of db t)) of
        None \<Rightarrow> save_card (new_card db now t kind is_default d) db
      | Some c \<Rightarrow> save_card (refresh_card d c) db)"

text \<open>\<^verbatim>\<open>SavedCard.objects.update_or_create(tenant=tenant, defaults=...)\<close>: two cards raise
  \<^verbatim>\<open>MultipleObjectsReturned\<close>.\<close>

definition update_or_create_card :: "datetime \<Rightarrow> pk \<Rightarrow> card_details \<Rightarrow> billing_db \<Rightarrow> billing_db option" where
  "update_or_create_card now t d db =
     (case cards_of db t of
        [] \<Rightarrow> save_card (new_card db now t Card_subscription True d) db
      | [c] \<Rightarrow> save_card ((refresh_card d c)\<lparr>kd_active := True, kd_default := True, kd_kind := Card_subscription\<rparr>) db
      | _ \<Rightarrow> None)"

subsection \<open>Endpoints\<close>

definition active_card :: "billing_db \<Rightarrow> pk \<Rightarrow> pk \<Rightarrow> saved_card option" where
  "active_card db t k = find (\<lambda>c. kd_pk c = k \<and> kd_tenant c = t \<and> kd_active c) (bl_cards db)"

text \<open>Write the handle of the card that renewals are charged to, when there is a subscription.\<close>

definition set_parent :: "datetime \<Rightarrow> pk \<Rightarrow> string option \<Rightarrow> billing_db \<Rightarrow> billing_db" where
  "set_parent now t parent db =
     (case sub_of db t of None \<Rightarrow> db | Some s \<Rightarrow> save_sub now (s\<lparr>ts_parent := parent\<rparr>) db)"

definition next_default :: "datetime \<Rightarrow> pk \<Rightarrow> billing_db \<Rightarrow> billing_db option" where
  "next_default now t db =
     (case first_card (filter kd_active (cards_of db t)) of
        Some c \<Rightarrow> save_card (c\<lparr>kd_default := True\<rparr>) db
      | None \<Rightarrow> Some (set_parent now t None db))"

definition remove_saved_card :: "datetime \<Rightarrow> bool \<Rightarrow> pk \<Rightarrow> pk option \<Rightarrow> billing_db \<Rightarrow> billing_error + billing_db" where
  "remove_saved_card now staff t card_id db =
     (if \<not> staff then Inl Billing_forbidden
      else case card_id of None \<Rightarrow> Inl Billing_bad_request | Some k \<Rightarrow>
        (case active_card db t k of None \<Rightarrow> Inl Billing_not_found | Some c \<Rightarrow>
          (case save_card (c\<lparr>kd_active := False, kd_default := False\<rparr>) db of None \<Rightarrow> Inl Billing_failed | Some db1 \<Rightarrow>
             if kd_default c
             then (case next_default now t db1 of None \<Rightarrow> Inl Billing_failed | Some db2 \<Rightarrow> Inr db2)
             else Inr db1)))"

definition set_default_card :: "datetime \<Rightarrow> bool \<Rightarrow> pk \<Rightarrow> pk option \<Rightarrow> billing_db \<Rightarrow> billing_error + billing_db" where
  "set_default_card now staff t card_id db =
     (if \<not> staff then Inl Billing_forbidden
      else case card_id of None \<Rightarrow> Inl Billing_bad_request | Some k \<Rightarrow>
        (case active_card db t k of None \<Rightarrow> Inl Billing_not_found | Some c \<Rightarrow>
          (case save_card (c\<lparr>kd_default := True\<rparr>) (db\<lparr>bl_cards := unset_defaults c (bl_cards db)\<rparr>) of
             None \<Rightarrow> Inl Billing_failed
           | Some db1 \<Rightarrow> Inr (set_parent now t (Some (kd_parent c)) db1))))"

definition get_saved_card :: "bool \<Rightarrow> pk \<Rightarrow> billing_db \<Rightarrow> billing_error + saved_card list" where
  "get_saved_card staff t db =
     (if \<not> staff then Inl Billing_forbidden else Inr (filter kd_active (cards_of db t)))"

subsection \<open>One default card\<close>

text \<open>Default cards are active, a tenant has at most one, and a tenant with an active card has one.\<close>

definition cards_wf :: "saved_card list \<Rightarrow> bool" where
  "cards_wf cs \<longleftrightarrow> distinct (map kd_pk cs) \<and> (\<forall>c \<in> set cs. kd_default c \<longrightarrow> kd_active c)
     \<and> (\<forall>c \<in> set cs. \<forall>d \<in> set cs. kd_tenant c = kd_tenant d \<longrightarrow> kd_default c \<longrightarrow> kd_default d \<longrightarrow> c = d)"

definition has_default :: "saved_card list \<Rightarrow> pk \<Rightarrow> bool" where
  "has_default cs t \<longleftrightarrow> (\<exists>c \<in> set cs. kd_tenant c = t \<and> kd_active c) \<longrightarrow> (\<exists>c \<in> set cs. kd_tenant c = t \<and> kd_default c)"

definition cards_ok :: "saved_card list \<Rightarrow> bool" where
  "cards_ok cs \<longleftrightarrow> cards_wf cs \<and> (\<forall>t. has_default cs t)"

lemma set_put_card:
  "distinct (map kd_pk cs) \<Longrightarrow> set (put_card c cs) = insert c {x \<in> set cs. kd_pk x \<noteq> kd_pk c}"
proof (cases "kd_pk c \<in> kd_pk ` set cs")
  case False
  then have "kd_pk x \<noteq> kd_pk c" if "x \<in> set cs" for x using imageI [OF that, of kd_pk] by metis
  with False show ?thesis by (auto simp: put_card_def)
qed (simp add: put_card_def set_row_save)

lemma distinct_put_card: "distinct (map kd_pk cs) \<Longrightarrow> distinct (map kd_pk (put_card c cs))"
  by (simp add: put_card_def distinct_row_create)

lemma map_unset [simp]: "map kd_pk (unset_defaults c cs) = map kd_pk cs"
  by (simp add: unset_defaults_def)

lemma other_active_unset [simp]: "other_active c (unset_defaults c cs) = other_active c cs"
  by (induction cs) (auto simp: other_active_def unset_defaults_def)

text \<open>The rows after a save, for every card but the saved one.\<close>

definition card_after :: "saved_card \<Rightarrow> saved_card \<Rightarrow> saved_card" where
  "card_after c x = (if kd_default c \<and> kd_tenant x = kd_tenant c \<and> kd_default x then x\<lparr>kd_default := False\<rparr> else x)"

lemma save_card_set:
  assumes "distinct (map kd_pk (bl_cards db))" and "save_card c db = Some db'"
  shows "set (bl_cards db') = insert (if kd_active c \<and> \<not> other_active c (bl_cards db) then c\<lparr>kd_default := True\<rparr> else c)
      (card_after c ` {x \<in> set (bl_cards db). kd_pk x \<noteq> kd_pk c})"
    and "distinct (map kd_pk (bl_cards db'))"
proof -
  define cs where "cs = (if kd_default c then unset_defaults c (bl_cards db) else bl_cards db)"
  define c1 where "c1 = (if kd_active c \<and> \<not> other_active c (bl_cards db) then c\<lparr>kd_default := True\<rparr> else c)"
  have o: "other_active c cs = other_active c (bl_cards db)" by (simp add: cs_def)
  have db': "bl_cards db' = put_card c1 cs"
    using assms(2) by (auto simp: save_card_def Let_def c1_def o cs_def split: if_splits)
  have d: "distinct (map kd_pk cs)" using assms(1) by (simp add: cs_def)
  have k: "kd_pk c1 = kd_pk c" by (simp add: c1_def)
  show "distinct (map kd_pk (bl_cards db'))" unfolding db' by (rule distinct_put_card [OF d])
  have "{x \<in> set cs. kd_pk x \<noteq> kd_pk c} = card_after c ` {x \<in> set (bl_cards db). kd_pk x \<noteq> kd_pk c}"
    by (auto simp: cs_def card_after_def unset_defaults_def image_iff)
  then show "set (bl_cards db') = insert c1 (card_after c ` {x \<in> set (bl_cards db). kd_pk x \<noteq> kd_pk c})"
    unfolding db' set_put_card [OF d] k by simp
qed

lemma card_after_simps [simp]:
  "kd_pk (card_after c x) = kd_pk x" "kd_tenant (card_after c x) = kd_tenant x" "kd_active (card_after c x) = kd_active x"
  "kd_default (card_after c x) \<longleftrightarrow> kd_default x \<and> \<not> (kd_default c \<and> kd_tenant x = kd_tenant c)"
  by (auto simp: card_after_def)

section \<open>Orders\<close>

subsection \<open>Who may manage billing\<close>

definition IsBillingAdmin :: "user \<Rightarrow> bool" where
  "IsBillingAdmin u \<longleftrightarrow> u_is_staff u \<or> u_is_superuser u \<or> u_role u = Role_admin"

definition IsStaffOrSuperUser :: "user \<Rightarrow> bool" where
  "IsStaffOrSuperUser u \<longleftrightarrow> u_is_staff u \<or> u_is_superuser u"

subsection \<open>Invoices\<close>

text \<open>\<^verbatim>\<open>INV-%Y%m\<close>\<close>

definition invoice_month :: "datetime \<Rightarrow> string" where
  "invoice_month now = ''INV-'' @ pad_zeros 4 (nat_text (nat (year_of (date_of now))))
     @ pad_zeros 2 (nat_text (nat (month_of (date_of now))))"

text \<open>\<^verbatim>\<open>order_by('-invoice_number').first()\<close>: the numbers are compared as texts.\<close>

definition last_number :: "string list \<Rightarrow> string option" where
  "last_number ns = find (\<lambda>n. \<forall>m \<in> set ns. m \<le> n) ns"

definition generate_invoice_number :: "datetime \<Rightarrow> sub_invoice list \<Rightarrow> string" where
  "generate_invoice_number now vs =
     (let month = invoice_month now;
          new_seq = (case last_number (filter (starts_with month) (map nv_number vs)) of
               None \<Rightarrow> 1
             | Some n \<Rightarrow> (case read_int (last (split_on (CHR ''-'') n)) of None \<Rightarrow> 1 | Some k \<Rightarrow> nat (k + 1)))
      in month @ ''-'' @ pad_zeros 4 (nat_text new_seq))"

text \<open>\<^verbatim>\<open>generate_invoice_for_payment\<close>.  The five attempts of \<^verbatim>\<open>Invoice.save\<close> compute the same number when
  nobody else writes, so a taken number fails all of them; the error is swallowed.\<close>

definition generate_invoice_for_payment :: "datetime \<Rightarrow> payment_order \<Rightarrow> pk \<Rightarrow> int \<Rightarrow> billing_db \<Rightarrow> billing_db" where
  "generate_invoice_for_payment now o' t agents db =
     (if \<exists>v \<in> set (bl_invoices db). nv_order v = od_pk o' then db
      else if od_amount o' \<le> 0 then db
      else let n = generate_invoice_number now (bl_invoices db)
           in if n \<in> nv_number ` set (bl_invoices db) then db
              else db\<lparr>bl_invoices := row_create \<lparr>nv_pk = next_pk nv_pk (bl_invoices db), nv_number = n, nv_tenant = t,
                     nv_order = od_pk o', nv_amount = od_amount o', nv_agents = agents,
                     nv_paid_date = (case od_paid_at o' of Some d \<Rightarrow> d | None \<Rightarrow> now)\<rparr> (bl_invoices db)\<rparr>)"

subsection \<open>Orders\<close>

definition save_order :: "payment_order \<Rightarrow> billing_db \<Rightarrow> billing_db" where
  "save_order o' db = db\<lparr>bl_orders := row_save od_pk o' (bl_orders db)\<rparr>"

text \<open>\<^verbatim>\<open>PaymentOrder.objects.create\<close>: None when \<^verbatim>\<open>order_id\<close> is taken.  The key of the row is filled in.\<close>

definition create_payment_order :: "payment_order \<Rightarrow> billing_db \<Rightarrow> (payment_order \<times> billing_db) option" where
  "create_payment_order o' db =
     (if od_id o' \<in> od_id ` set (bl_orders db) then None
      else let o1 = o'\<lparr>od_pk := next_pk od_pk (bl_orders db)\<rparr>
           in Some (o1, db\<lparr>bl_orders := row_create o1 (bl_orders db)\<rparr>))"

definition blank_order :: "datetime \<Rightarrow> string \<Rightarrow> string option \<Rightarrow> pk option \<Rightarrow> decimal \<Rightarrow> int \<Rightarrow> payment_order" where
  "blank_order now ext bog t amount agents =
     \<lparr>od_pk = 0, od_id = ext, od_bog = bog, od_tenant = t, od_amount = amount, od_agents = agents,
      od_status = Order_pending, od_card_saved = False, od_kind = None, od_subscription = None, od_feature = None,
      od_make_default = False, od_save_both = False, od_created = now, od_paid_at = None\<rparr>"

text \<open>\<^verbatim>\<open>reactivate_subscription_payment\<close>; \<open>hex\<close> is the uuid the handler draws.\<close>

definition reactivate_subscription_payment ::
  "charge_api \<Rightarrow> datetime \<Rightarrow> string \<Rightarrow> user \<Rightarrow> pk \<Rightarrow> billing_db \<Rightarrow> billing_error + (payment_order \<times> billing_db)" where
  "reactivate_subscription_payment api now hex u t db =
     (if \<not> IsBillingAdmin u then Inl Billing_forbidden
      else case sub_of db t of None \<Rightarrow> Inl Billing_not_found | Some s \<Rightarrow>
        let selected = filter (\<lambda>f. ft_pk f \<in> set (ts_features s)) (fd_features (bl_features db));
            amount = (\<Sum>f\<leftarrow>selected. ft_price f) * of_int (ts_agents s)
        in if selected = [] then Inl Billing_bad_request
           else if \<not> cg_configured api then Inl Billing_unavailable
           else let ext = ''REACT-'' @ hex
                in case create_order api ext (round_half_even 2 amount) of None \<Rightarrow> Inl Billing_failed | Some bog \<Rightarrow>
                  (case create_payment_order ((blank_order now ext (Some bog) (Some t) amount (ts_agents s))
                           \<lparr>od_kind := Some ''reactivation'', od_subscription := Some (ts_pk s)\<rparr>) db of
                     None \<Rightarrow> Inl Billing_failed
                   | Some r \<Rightarrow> Inr r))"

text \<open>\<^verbatim>\<open>Package.objects.get\<close> of the stub always raises \<^verbatim>\<open>DoesNotExist\<close>.\<close>

definition create_subscription_payment :: "user \<Rightarrow> pk option \<Rightarrow> billing_error" where
  "create_subscription_payment u package_id =
     (if \<not> IsBillingAdmin u then Billing_forbidden
      else case package_id of None \<Rightarrow> Billing_bad_request | Some _ \<Rightarrow> Billing_not_found)"

definition manual_payment :: "user \<Rightarrow> pk \<Rightarrow> billing_db \<Rightarrow> billing_error" where
  "manual_payment u t db =
     (if \<not> IsBillingAdmin u then Billing_forbidden
      else case find (\<lambda>s. ts_tenant s = t \<and> ts_active s) (bl_subs db) of
             None \<Rightarrow> Billing_not_found | Some _ \<Rightarrow> Billing_failed)"

definition add_new_card :: "charge_api \<Rightarrow> user \<Rightarrow> billing_error" where
  "add_new_card api u =
     (if \<not> IsBillingAdmin u then Billing_forbidden
      else if \<not> cg_configured api then Billing_unavailable else Billing_failed)"

definition add_ecommerce_card :: "charge_api \<Rightarrow> user \<Rightarrow> billing_error" where
  "add_ecommerce_card api u =
     (if \<not> IsBillingAdmin u then Billing_forbidden
      else if \<not> cg_configured api then Billing_unavailable else Billing_failed)"

definition cancel_subscription :: "datetime \<Rightarrow> user \<Rightarrow> pk \<Rightarrow> billing_db \<Rightarrow> billing_error + billing_db" where
  "cancel_subscription now u t db =
     (if \<not> u_is_staff u then Inl Billing_forbidden
      else case find (\<lambda>s. ts_tenant s = t \<and> ts_active s) (bl_subs db) of
             None \<Rightarrow> Inl Billing_not_found
           | Some s \<Rightarrow> Inr (save_sub now (s\<lparr>ts_active := False\<rparr>) db))"

subsection \<open>Changing the subscription\<close>

definition active_sub :: "billing_db \<Rightarrow> pk \<Rightarrow> subscription option" where
  "active_sub db t = find (\<lambda>s. ts_tenant s = t \<and> ts_active s) (bl_subs db)"

definition days_remaining :: "datetime \<Rightarrow> subscription \<Rightarrow> int" where
  "days_remaining now s = (case ts_next_billing s of Some d \<Rightarrow> date_of d - date_of now | None \<Rightarrow> 30)"

definition prorated_cost :: "datetime \<Rightarrow> feature \<Rightarrow> subscription \<Rightarrow> decimal" where
  "prorated_cost now f s = of_int (days_remaining now s) / 30 * (ft_price f * of_int (ts_agents s))"

definition add_feature_to_subscription ::
  "datetime \<Rightarrow> user \<Rightarrow> pk \<Rightarrow> pk option \<Rightarrow> bool \<Rightarrow> billing_db \<Rightarrow> billing_error + billing_db" where
  "add_feature_to_subscription now u t feature_id charge_immediately db =
     (if \<not> IsStaffOrSuperUser u then Inl Billing_forbidden
      else case feature_id of None \<Rightarrow> Inl Billing_bad_request | Some k \<Rightarrow>
        (case find (\<lambda>f. ft_pk f = k \<and> ft_active f) (fd_features (bl_features db)) of
           None \<Rightarrow> Inl Billing_not_found
         | Some f \<Rightarrow>
             (case active_sub db t of
                None \<Rightarrow> Inl Billing_bad_request
              | Some s \<Rightarrow>
                  if k \<in> set (ts_features s) then Inl Billing_bad_request
                  else if 0 < prorated_cost now f s \<and> charge_immediately then Inl Billing_failed
                  else Inr (save_sub now (s\<lparr>ts_features := ts_features s @ [k]\<rparr>) db))))"

definition remove_feature_from_subscription ::
  "datetime \<Rightarrow> user \<Rightarrow> pk \<Rightarrow> pk option \<Rightarrow> billing_db \<Rightarrow> billing_error + billing_db" where
  "remove_feature_from_subscription now u t feature_id db =
     (if \<not> IsStaffOrSuperUser u then Inl Billing_forbidden
      else case feature_id of None \<Rightarrow> Inl Billing_bad_request | Some k \<Rightarrow>
        (case find (\<lambda>f. ft_pk f = k) (fd_features (bl_features db)) of
           None \<Rightarrow> Inl Billing_not_found
         | Some f \<Rightarrow>
             if ft_core f then Inl Billing_bad_request
             else (case active_sub db t of
                None \<Rightarrow> Inl Billing_bad_request
              | Some s \<Rightarrow>
                  if k \<notin> set (ts_features s) then Inl Billing_bad_request
                  else Inr (save_sub now (s\<lparr>ts_features := filter (\<lambda>x. x \<noteq> k) (ts_features s)\<rparr>) db))))"

text \<open>\<^verbatim>\<open>update_agent_count\<close>: \<open>None\<close> stands for a count that is no integer.  Subtracting a date from the
  billing datetime raises a \<^verbatim>\<open>TypeError\<close> that nothing catches.\<close>

definition update_agent_count :: "datetime \<Rightarrow> user \<Rightarrow> pk \<Rightarrow> int option \<Rightarrow> billing_db \<Rightarrow> billing_error + billing_db" where
  "update_agent_count now u t agent_count db =
     (if \<not> IsStaffOrSuperUser u then Inl Billing_forbidden
      else case agent_count of None \<Rightarrow> Inl Billing_bad_request | Some n \<Rightarrow>
        if n < 1 then Inl Billing_bad_request
        else (case active_sub db t of
           None \<Rightarrow> Inl Billing_bad_request
         | Some s \<Rightarrow>
             (case ts_next_billing s of
                Some _ \<Rightarrow> Inl Billing_failed
              | None \<Rightarrow> Inr (save_sub now (s\<lparr>ts_agents := n\<rparr>) db))))"

end
