(* ===== verification/Billing_Webhook.thy ===== *)
theory Billing_Webhook
  imports Billing_Orders
begin

text \<open>
  Retries of failed charges (\<^verbatim>\<open>tenants/subscription_utils.py\<close> and the command
  \<^verbatim>\<open>process_payment_retries\<close>).

  The payment webhook of the bank (\<^verbatim>\<open>bog_webhook\<close> in \<^verbatim>\<open>tenants/payment_views.py\<close>).  The endpoint is
  open to everybody; a completed payment is confirmed with the bank before anything is written, a
  rejected one is not.

  Exceptions are branches.  An order without a tenant cannot get its \<^verbatim>\<open>PaymentAttempt\<close> (the column
  is not null) and a tenant without subscription has no attribute \<^verbatim>\<open>subscription\<close>, so both end in
  500 after the order has been marked paid; the code that would create a tenant from a pending
  registration comes after that write and is never reached.  An order whose metadata names none of
  the handled types reads \<^verbatim>\<open>payment_order.package\<close>, a column that no longer exists.
\<close>

definition log_event :: "subscription \<Rightarrow> event_type \<Rightarrow> pk option \<Rightarrow> pk option \<Rightarrow> billing_db \<Rightarrow> billing_db" where
  "log_event s e o' a db =
     db\<lparr>bl_events := bl_events db @ [\<lparr>se_subscription = ts_pk s, se_tenant = ts_tenant s, se_type = e, se_order = o', se_attempt = a\<rparr>]\<rparr>"

definition create_attempt :: "payment_attempt \<Rightarrow> billing_db \<Rightarrow> pk \<times> billing_db" where
  "create_attempt a db =
     (let k = next_pk pa_pk (bl_attempts db) in (k, db\<lparr>bl_attempts := row_create (a\<lparr>pa_pk := k\<rparr>) (bl_attempts db)\<rparr>))"

definition save_retry :: "retry_row \<Rightarrow> billing_db \<Rightarrow> billing_db" where
  "save_retry r db = db\<lparr>bl_retries := row_save ry_pk r (bl_retries db)\<rparr>"

text \<open>\<^verbatim>\<open>getattr(tenant, 'payment_provider', 'bog') == 'bog'\<close>\<close>

definition bog_tenant :: "billing_db \<Rightarrow> pk \<Rightarrow> bool" where
  "bog_tenant db t \<longleftrightarrow> (\<exists>x \<in> set (bl_tenants db). tn_pk x = t \<and> tn_provider x = ''bog'')"

subsection \<open>Scheduling and cancelling\<close>

definition retry_delays :: "(nat \<times> int) list" where
  "retry_delays = [(1, 4 * us_per_hour), (2, 3 * us_per_day), (3, 7 * us_per_day)]"

definition create_retry :: "datetime \<Rightarrow> payment_order \<Rightarrow> subscription \<Rightarrow> pk \<Rightarrow> nat \<times> int \<Rightarrow> billing_db \<Rightarrow> billing_db" where
  "create_retry now o' s a c db =
     db\<lparr>bl_retries := row_create \<lparr>ry_pk = next_pk ry_pk (bl_retries db), ry_order = od_pk o', ry_subscription = ts_pk s,
        ry_tenant = ts_tenant s, ry_attempt = a, ry_number = fst c, ry_due = now + snd c, ry_executed = None,
        ry_status = Retry_pending, ry_result = None\<rparr> (bl_retries db)\<rparr>"

text \<open>\<^verbatim>\<open>schedule_payment_retries\<close>: the subscription instance is written and handed back.\<close>

definition schedule_payment_retries ::
  "datetime \<Rightarrow> payment_order \<Rightarrow> pk \<Rightarrow> subscription \<Rightarrow> billing_db \<Rightarrow> subscription \<times> billing_db" where
  "schedule_payment_retries now o' a s db =
     (if \<not> bog_tenant db (ts_tenant s) then (s, db)
      else let db1 = log_event s Ev_retry_scheduled (Some (od_pk o')) (Some a) (fold (create_retry now o' s a) retry_delays db);
               s' = mark_payment_failed now s
           in (s', save_sub now s' db1))"

definition cancel_pending_retries :: "datetime \<Rightarrow> pk \<Rightarrow> billing_db \<Rightarrow> billing_db" where
  "cancel_pending_retries now k db =
     db\<lparr>bl_retries := map (\<lambda>r. if ry_subscription r = k \<and> ry_status r = Retry_pending
                              then r\<lparr>ry_status := Retry_cancelled, ry_executed := Some now\<rparr> else r) (bl_retries db)\<rparr>"

subsection \<open>Executing one retry\<close>

text \<open>The f-string of the handle: a missing handle prints as \<^verbatim>\<open>None\<close>.\<close>

definition parent_text :: "subscription \<Rightarrow> string" where
  "parent_text s = (case ts_parent s of Some p \<Rightarrow> p | None \<Rightarrow> ''None'')"

definition retry_order_id :: "retry_row \<Rightarrow> payment_order \<Rightarrow> string" where
  "retry_order_id r o' = ''RETRY-'' @ nat_text (ry_pk r) @ ''-'' @ od_id o'"

definition log_charge :: "subscription \<Rightarrow> string \<Rightarrow> string \<Rightarrow> datetime \<Rightarrow> billing_db \<Rightarrow> billing_db" where
  "log_charge s parent ext now db =
     db\<lparr>bl_charges := bl_charges db @ [\<lparr>bc_tenant = ts_tenant s, bc_parent = parent, bc_order = ext, bc_at = now\<rparr>]\<rparr>"

definition paid_ahead :: "datetime \<Rightarrow> subscription \<Rightarrow> bool" where
  "paid_ahead now s \<longleftrightarrow> (case ts_next_billing s of Some d \<Rightarrow> now < d | None \<Rightarrow> False)"

text \<open>After the bank has accepted the charge: a pending attempt, linked to the retry, and an event.\<close>

definition record_retry :: "subscription \<Rightarrow> payment_order \<Rightarrow> retry_row \<Rightarrow> string \<Rightarrow> billing_db \<Rightarrow> billing_db" where
  "record_retry s o' r bog db =
     (case create_attempt \<lparr>pa_pk = 0, pa_order = od_pk o', pa_subscription = Some (ts_pk s), pa_tenant = ts_tenant s,
             pa_number = ry_number r + 1, pa_status = Attempt_pending, pa_bog = bog, pa_amount = od_amount o',
             pa_retry = True, pa_parent = Some (ry_attempt r)\<rparr> db of
        (k, db1) \<Rightarrow> log_event s Ev_retry_scheduled (Some (od_pk o')) (Some k) (save_retry (r\<lparr>ry_result := Some k\<rparr>) db1))"

text \<open>\<^verbatim>\<open>execute_retry\<close>: whether the charge was sent, and the database.  \<open>s\<close> is the instance
  \<^verbatim>\<open>retry_schedule.subscription\<close>; foreign keys make its order exist.\<close>

definition execute_retry :: "charge_api \<Rightarrow> datetime \<Rightarrow> subscription \<Rightarrow> retry_row \<Rightarrow> billing_db \<Rightarrow> bool \<times> billing_db" where
  "execute_retry api now s r db =
     (if \<not> bog_tenant db (ry_tenant r) then (False, save_retry (r\<lparr>ry_status := Retry_skipped\<rparr>) db)
      else let r1 = r\<lparr>ry_status := Retry_executing, ry_executed := Some now\<rparr>; db1 = save_retry r1 db
           in if paid_ahead now s then (False, save_retry (r1\<lparr>ry_status := Retry_skipped\<rparr>) db1)
              else case row_get od_pk (ry_order r) (bl_orders db1) of
                None \<Rightarrow> (False, save_retry (r1\<lparr>ry_status := Retry_failed\<rparr>) db1)
              | Some o' \<Rightarrow>
                  (let ext = retry_order_id r o'
                   in case charge_subscription api (parent_text s) ext of
                        None \<Rightarrow> (False, save_retry (r1\<lparr>ry_status := Retry_failed\<rparr>) db1)
                      | Some bog \<Rightarrow> (True, record_retry s o' r1 bog (log_charge s (parent_text s) ext now db1))))"

definition suspend_subscription_for_payment_failure :: "datetime \<Rightarrow> subscription \<Rightarrow> billing_db \<Rightarrow> billing_db" where
  "suspend_subscription_for_payment_failure now s db =
     (let s' = s\<lparr>ts_active := False, ts_health := Health_failed\<rparr>;
          db1 = save_sub now s' db;
          db2 = (case row_get tn_pk (ts_tenant s) (bl_tenants db1) of
                   None \<Rightarrow> db1 | Some t \<Rightarrow> save_tenant (t\<lparr>tn_active := False\<rparr>) db1)
      in log_event s' Ev_suspended None None db2)"

subsection \<open>The hourly command\<close>

definition due_retries :: "datetime \<Rightarrow> billing_db \<Rightarrow> retry_row list" where
  "due_retries now db =
     sort_key ry_due (filter (\<lambda>r. ry_status r = Retry_pending \<and> ry_due r \<le> now \<and> bog_tenant db (ry_tenant r)) (bl_retries db))"

definition remaining_retries :: "retry_row \<Rightarrow> billing_db \<Rightarrow> nat" where
  "remaining_retries r db =
     length (filter (\<lambda>x. ry_subscription x = ry_subscription r \<and> ry_status x = Retry_pending \<and> ry_number r < ry_number x) (bl_retries db))"

definition process_retry :: "charge_api \<Rightarrow> datetime \<Rightarrow> subscription \<Rightarrow> retry_row \<Rightarrow> billing_db \<Rightarrow> billing_db" where
  "process_retry api now s r db =
     (case execute_retry api now s r db of (success, db1) \<Rightarrow>
        if success then db1
        else if remaining_retries r db1 = 0 then suspend_subscription_for_payment_failure now s db1
        else db1)"

text \<open>The query loads every due retry together with its subscription before the first one is executed.\<close>

definition process_payment_retries :: "charge_api \<Rightarrow> datetime \<Rightarrow> bool \<Rightarrow> billing_db \<Rightarrow> billing_db" where
  "process_payment_retries api now dry_run db =
     (if dry_run then db
      else fold (\<lambda>r d. case row_get ts_pk (ry_subscription r) (bl_subs db) of
                         None \<Rightarrow> d | Some s \<Rightarrow> process_retry api now s r d) (due_retries now db) db)"

section \<open>The webhook\<close>

record webhook =
  wk_event :: string
  wk_bog :: "string option"
  wk_ext :: "string option"
  wk_status :: string
  wk_code :: string
  wk_saved :: bool        \<comment> \<open>\<^verbatim>\<open>saved_card_type == 'subscription'\<close>\<close>
  wk_masked :: string

datatype hook_reply = Hook_done string | Hook_ignored | Hook_received | Hook_error nat

subsection \<open>Confirmation and retries\<close>

text \<open>None when the bank confirms the payment, otherwise the answer to give.\<close>

definition refuse_unconfirmed :: "charge_api \<Rightarrow> string \<Rightarrow> hook_reply option" where
  "refuse_unconfirmed api bog =
     (case receipt_of api bog of
        None \<Rightarrow> Some (Hook_error 503)
      | Some c \<Rightarrow>
          if rv_status c \<in> {''error'', ''unknown''} then Some (Hook_error 503)
          else if rv_bog c = Some ''completed'' \<and> rv_code c = Some ''100'' then None
          else Some Hook_ignored)"

definition find_order :: "billing_db \<Rightarrow> string \<Rightarrow> payment_order option" where
  "find_order db ext = row_get od_id ext (bl_orders db)"

definition mark_paid :: "datetime \<Rightarrow> string \<Rightarrow> payment_order \<Rightarrow> payment_order" where
  "mark_paid now bog o' = o'\<lparr>od_status := Order_paid, od_paid_at := Some now, od_bog := Some bog\<rparr>"

text \<open>\<^verbatim>\<open>PaymentRetrySchedule.objects.get(id=external_order_id.split('-')[1])\<close>\<close>

definition retry_of :: "billing_db \<Rightarrow> string \<Rightarrow> retry_row option" where
  "retry_of db ext =
     (case split_on (CHR ''-'') ext of
        _ # part # _ \<Rightarrow> (case read_int part of
            Some n \<Rightarrow> if 0 \<le> n then row_get ry_pk (nat n) (bl_retries db) else None
          | None \<Rightarrow> None)
      | _ \<Rightarrow> None)"

definition success_attempt_number :: "billing_db \<Rightarrow> string \<Rightarrow> nat" where
  "success_attempt_number db ext =
     (if starts_with ''RETRY-'' ext then (case retry_of db ext of Some r \<Rightarrow> ry_number r + 1 | None \<Rightarrow> 2) else 1)"

definition settle_retry :: "datetime \<Rightarrow> string \<Rightarrow> payment_order \<Rightarrow> pk \<Rightarrow> subscription \<Rightarrow> billing_db \<Rightarrow> billing_db" where
  "settle_retry now ext o' a s db =
     (let s' = mark_payment_succeeded s;
          db1 = cancel_pending_retries now (ts_pk s) (save_sub now s' db)
      in case retry_of db1 ext of
           None \<Rightarrow> db1
         | Some r \<Rightarrow> log_event s' Ev_retry_success (Some (od_pk o')) (Some a)
               (save_retry (r\<lparr>ry_status := Retry_succeeded, ry_executed := Some now, ry_result := Some a\<rparr>) db1))"

subsection \<open>What a settled order does\<close>

text \<open>Each branch is one atomic block: on an exception the database is as it was before the block.\<close>

definition add_selected_feature :: "datetime \<Rightarrow> pk \<Rightarrow> pk option \<Rightarrow> billing_db \<Rightarrow> billing_db" where
  "add_selected_feature now t feature_id db =
     (case Option.bind feature_id (\<lambda>k. row_get ft_pk k (fd_features (bl_features db))) of
        None \<Rightarrow> db
      | Some f \<Rightarrow> (case sub_of db t of
            None \<Rightarrow> db
          | Some s \<Rightarrow> save_sub now (if ft_pk f \<in> set (ts_features s) then s
                                     else s\<lparr>ts_features := ts_features s @ [ft_pk f]\<rparr>) db))"

definition save_both_cards :: "datetime \<Rightarrow> pk \<Rightarrow> card_details \<Rightarrow> billing_db \<Rightarrow> billing_db option" where
  "save_both_cards now t d db =
     (case upsert_kind now t Card_ecommerce False d db of
        None \<Rightarrow> None
      | Some db1 \<Rightarrow> (case upsert_kind now t Card_subscription True d db1 of
            None \<Rightarrow> None
          | Some db2 \<Rightarrow> Some (set_parent now t (Some (cd_order d)) db2)))"

definition settle_feature :: "datetime \<Rightarrow> bool \<Rightarrow> card_details \<Rightarrow> payment_order \<Rightarrow> pk \<Rightarrow> billing_db \<Rightarrow> hook_reply \<times> billing_db" where
  "settle_feature now saved d o' t db =
     (let db1 = add_selected_feature now t (od_feature o') db
      in case (if saved \<and> od_save_both o' then save_both_cards now t d db1 else Some db1) of
           None \<Rightarrow> (Hook_error 500, db)
         | Some db2 \<Rightarrow>
             (let o1 = o'\<lparr>od_card_saved := saved\<rparr>
              in (Hook_done ''feature_added'', generate_invoice_for_payment now o1 t (od_agents o1) (save_order o1 db2))))"

definition settle_recurring :: "bool \<Rightarrow> datetime \<Rightarrow> payment_order \<Rightarrow> pk \<Rightarrow> billing_db \<Rightarrow> hook_reply \<times> billing_db" where
  "settle_recurring test now o' t db =
     (case Option.bind (od_subscription o') (\<lambda>k. row_get ts_pk k (bl_subs db)) of
        None \<Rightarrow> (Hook_error 404, db)
      | Some s \<Rightarrow> (Hook_done ''recurring_renewed'',
          generate_invoice_for_payment now o' t (ts_agents s) (save_order o' (save_sub now (renew test now s) db))))"

definition reactivate :: "bool \<Rightarrow> datetime \<Rightarrow> string option \<Rightarrow> subscription \<Rightarrow> subscription" where
  "reactivate test now handle s =
     (let d = get_next_billing_date test now
      in s\<lparr>ts_active := True, ts_expires := Some d, ts_last_billed := Some now, ts_next_billing := Some d, ts_paid_type := True,
          ts_parent := (case handle of Some c \<Rightarrow> Some c | None \<Rightarrow> ts_parent s)\<rparr>)"

definition settle_reactivation ::
  "bool \<Rightarrow> datetime \<Rightarrow> bool \<Rightarrow> card_details \<Rightarrow> payment_order \<Rightarrow> pk \<Rightarrow> billing_db \<Rightarrow> hook_reply \<times> billing_db" where
  "settle_reactivation test now saved d o' t db =
     (case Option.bind (od_subscription o') (\<lambda>k. row_get ts_pk k (bl_subs db)) of
        None \<Rightarrow> (Hook_error 404, db)
      | Some s \<Rightarrow>
          (let s' = reactivate test now (if saved then Some (cd_order d) else None) s;
               db1 = save_sub now s' db
           in case (if saved then update_or_create_card now t d db1 else Some db1) of
                None \<Rightarrow> (Hook_error 500, db)
              | Some db2 \<Rightarrow>
                  (let o1 = o'\<lparr>od_card_saved := saved\<rparr>
                   in (Hook_done ''reactivated'', generate_invoice_for_payment now o1 t (ts_agents s') (save_order o1 db2)))))"

definition settle_card :: "hook_reply \<Rightarrow> payment_order \<Rightarrow> billing_db \<Rightarrow> billing_db option \<Rightarrow> hook_reply \<times> billing_db" where
  "settle_card reply o' db saved =
     (case saved of None \<Rightarrow> (Hook_error 500, db) | Some db1 \<Rightarrow> (reply, save_order (o'\<lparr>od_card_saved := True\<rparr>) db1))"

definition settle :: "bool \<Rightarrow> datetime \<Rightarrow> bool \<Rightarrow> card_details \<Rightarrow> payment_order \<Rightarrow> pk \<Rightarrow> billing_db \<Rightarrow> hook_reply \<times> billing_db" where
  "settle test now saved d o' t db =
     (if od_kind o' = Some ''add_card''
      then settle_card (Hook_done ''card_added'') o' db (save_card (new_card db now t Card_subscription (od_make_default o') d) db)
      else if od_kind o' = Some ''add_ecommerce_card''
      then settle_card (Hook_done ''ecommerce_card_added'') o' db (upsert_kind now t Card_ecommerce False d db)
      else if od_kind o' = Some ''feature_addition'' then settle_feature now saved d o' t db
      else if od_kind o' = Some ''recurring'' then settle_recurring test now o' t db
      else if od_kind o' = Some ''reactivation'' then settle_reactivation test now saved d o' t db
      else (Hook_error 500, db))"

subsection \<open>The handler\<close>

text \<open>After the order is marked paid.\<close>

definition after_payment ::
  "bool \<Rightarrow> datetime \<Rightarrow> webhook \<Rightarrow> string \<Rightarrow> string \<Rightarrow> payment_order \<Rightarrow> billing_db \<Rightarrow> hook_reply \<times> billing_db" where
  "after_payment test now w bog ext o' db =
     (case od_tenant o' of
        None \<Rightarrow> (Hook_error 500, db)
      | Some t \<Rightarrow>
          (case sub_of db t of
             None \<Rightarrow> (Hook_error 500, db)
           | Some s \<Rightarrow>
               (case create_attempt \<lparr>pa_pk = 0, pa_order = od_pk o', pa_subscription = Some (ts_pk s), pa_tenant = t,
                       pa_number = success_attempt_number db ext, pa_status = Attempt_success, pa_bog = bog,
                       pa_amount = od_amount o', pa_retry = starts_with ''RETRY-'' ext, pa_parent = None\<rparr> db of
                  (a, db1) \<Rightarrow>
                    settle test now (wk_saved w) \<lparr>cd_order = bog, cd_masked = wk_masked w\<rparr> o' t
                      (if starts_with ''RETRY-'' ext then settle_retry now ext o' a s db1 else db1))))"

definition hook_completed :: "charge_api \<Rightarrow> bool \<Rightarrow> datetime \<Rightarrow> webhook \<Rightarrow> billing_db \<Rightarrow> hook_reply \<times> billing_db" where
  "hook_completed api test now w db =
     (case (wk_ext w, wk_bog w) of
        (Some ext, Some bog) \<Rightarrow>
          if ext = '''' \<or> bog = '''' then (Hook_error 400, db)
          else (case refuse_unconfirmed api bog of
             Some r \<Rightarrow> (r, db)
           | None \<Rightarrow>
               (case find_order db ext of
                  None \<Rightarrow> (Hook_error 404, db)
                | Some o' \<Rightarrow>
                    if od_status o' = Order_paid \<and> od_tenant o' \<noteq> None then (Hook_done ''Payment already processed'', db)
                    else after_payment test now w bog ext (mark_paid now bog o') (save_order (mark_paid now bog o') db)))
      | _ \<Rightarrow> (Hook_error 400, db))"

definition hook_rejected :: "datetime \<Rightarrow> webhook \<Rightarrow> billing_db \<Rightarrow> hook_reply \<times> billing_db" where
  "hook_rejected now w db =
     (case Option.bind (wk_ext w) (find_order db) of
        None \<Rightarrow> (Hook_received, db)
      | Some o' \<Rightarrow>
          (let o1 = o'\<lparr>od_status := Order_failed, od_bog := wk_bog w\<rparr>; db1 = save_order o1 db
           in case (Option.bind (od_tenant o1) (sub_of db1), wk_bog w) of
                (Some s, Some bog) \<Rightarrow>
                  (case create_attempt \<lparr>pa_pk = 0, pa_order = od_pk o1, pa_subscription = Some (ts_pk s), pa_tenant = ts_tenant s,
                          pa_number = 1, pa_status = Attempt_failed, pa_bog = bog, pa_amount = od_amount o1,
                          pa_retry = False, pa_parent = None\<rparr> db1 of
                     (a, db2) \<Rightarrow>
                       (let db3 = log_event s Ev_payment_failed (Some (od_pk o1)) (Some a) db2
                        in if text_given (ts_parent s)
                           then (case schedule_payment_retries now o1 a s db3 of
                                   (s', db4) \<Rightarrow> (Hook_received, save_sub now (mark_payment_failed now s') db4))
                           else (Hook_received, save_sub now (mark_payment_failed now (s\<lparr>ts_health := Health_failed\<rparr>)) db3)))
              | _ \<Rightarrow> (Hook_error 500, db1)))"

definition bog_webhook :: "charge_api \<Rightarrow> bool \<Rightarrow> datetime \<Rightarrow> webhook \<Rightarrow> billing_db \<Rightarrow> hook_reply \<times> billing_db" where
  "bog_webhook api test now w db =
     (if wk_event w \<noteq> ''order_payment'' then (Hook_error 400, db)
      else if wk_status w = ''completed'' \<and> wk_code w = ''100'' then hook_completed api test now w db
      else if wk_status w = ''rejected'' then hook_rejected now w db
      else (Hook_received, db))"

end
