(* ===== verification/Billing_Jobs.thy ===== *)
theory Billing_Jobs
  imports Billing_Webhook
begin

text \<open>
  The scheduled commands of subscription billing (\<^verbatim>\<open>tenants/management/commands\<close>): charging renewals,
  converting trials, suspending expired tenants and reconciling charges whose webhook never came.
  Mails and the printed report are left out.
\<close>

definition tenant_row :: "billing_db \<Rightarrow> pk \<Rightarrow> tenant option" where
  "tenant_row db t = row_get tn_pk t (bl_tenants db)"

subsection \<open>Renewals (\<^verbatim>\<open>process_recurring_payments\<close>)\<close>

definition billed_recently :: "datetime \<Rightarrow> subscription \<Rightarrow> bool" where
  "billed_recently now s \<longleftrightarrow> (case ts_last_billed s of Some d \<Rightarrow> now - 25 * us_per_day \<le> d | None \<Rightarrow> False)"

definition renewal_due :: "datetime \<Rightarrow> int \<Rightarrow> billing_db \<Rightarrow> subscription \<Rightarrow> bool" where
  "renewal_due now days_before db s \<longleftrightarrow>
     ts_active s \<and> (case ts_next_billing s of Some d \<Rightarrow> d \<le> now + days_before * us_per_day | None \<Rightarrow> False)
     \<and> (case tenant_row db (ts_tenant s) of Some t \<Rightarrow> tn_active t \<and> tn_provider t = ''bog'' | None \<Rightarrow> False)
     \<and> \<not> billed_recently now s"

definition live_order :: "payment_order \<Rightarrow> bool" where
  "live_order o' \<longleftrightarrow> od_status o' \<notin> {Order_failed, Order_cancelled}"

text \<open>The guard that does not depend on the webhook.\<close>

definition recent_charge :: "datetime \<Rightarrow> pk \<Rightarrow> billing_db \<Rightarrow> bool" where
  "recent_charge now t db \<longleftrightarrow> (\<exists>o' \<in> set (bl_orders db). od_tenant o' = Some t \<and> starts_with ''REC-'' (od_id o')
     \<and> now - 25 * us_per_day \<le> od_created o' \<and> live_order o')"

text \<open>One subscription.  \<open>hex\<close> gives the uuid drawn for it.\<close>

definition charge_renewal :: "charge_api \<Rightarrow> datetime \<Rightarrow> bool \<Rightarrow> (pk \<Rightarrow> string) \<Rightarrow> subscription \<Rightarrow> billing_db \<Rightarrow> billing_db" where
  "charge_renewal api now dry_run hex s db =
     (if \<not> text_given (ts_parent s) then db
      else if recent_charge now (ts_tenant s) db then db
      else if dry_run then db
      else let ext = ''REC-'' @ hex (ts_pk s)
           in case charge_subscription api (parent_text s) ext of
                None \<Rightarrow> db
              | Some bog \<Rightarrow>
                  (let db1 = log_charge s (parent_text s) ext now db
                   in case create_payment_order ((blank_order now ext (Some bog) (Some (ts_tenant s)) (monthly_cost (bl_features db) s) (ts_agents s))
                          \<lparr>od_kind := Some ''recurring'', od_subscription := Some (ts_pk s)\<rparr>) db1 of
                        None \<Rightarrow> db1 | Some (_, db2) \<Rightarrow> db2))"

text \<open>\<open>held\<close>: another run holds the lock.\<close>

definition process_recurring_payments :: "charge_api \<Rightarrow> datetime \<Rightarrow> bool \<Rightarrow> int \<Rightarrow> (pk \<Rightarrow> string) \<Rightarrow> bool \<Rightarrow> billing_db \<Rightarrow> billing_db" where
  "process_recurring_payments api now dry_run days_before hex held db =
     (if held then db
      else fold (charge_renewal api now dry_run hex) (filter (renewal_due now days_before db) (bl_subs db)) db)"

subsection \<open>Trials (\<^verbatim>\<open>process_trial_expirations\<close>)\<close>

definition trial_due :: "datetime \<Rightarrow> int \<Rightarrow> subscription \<Rightarrow> bool" where
  "trial_due now days_before s \<longleftrightarrow> ts_trial s \<and> \<not> ts_converted s \<and> ts_active s
     \<and> (case ts_trial_ends s of Some d \<Rightarrow> d \<le> now + days_before * us_per_day | None \<Rightarrow> False)"

definition convert_trial :: "datetime \<Rightarrow> subscription \<Rightarrow> subscription" where
  "convert_trial now s = s\<lparr>ts_converted := True, ts_trial := False, ts_last_billed := Some now,
     ts_next_billing := Some (now + 30 * us_per_day), ts_expires := Some (now + 30 * us_per_day)\<rparr>"

definition expire_trial :: "charge_api \<Rightarrow> datetime \<Rightarrow> bool \<Rightarrow> (pk \<Rightarrow> string) \<Rightarrow> subscription \<Rightarrow> billing_db \<Rightarrow> billing_db" where
  "expire_trial api now dry_run hex s db =
     (let off = save_sub now (s\<lparr>ts_active := False\<rparr>)
      in if \<not> text_given (ts_parent s) then (if dry_run then db else off db)
         else if dry_run then db
         else let ext = ''TRIAL-CONV-'' @ hex (ts_pk s); amount = monthly_cost (bl_features db) s
              in case charge_saved_card api (parent_text s) amount ext of
                   None \<Rightarrow> off db
                 | Some bog \<Rightarrow>
                     (let db1 = log_charge s (parent_text s) ext now db
                      in case create_payment_order ((blank_order now ext (Some bog) (Some (ts_tenant s)) amount (ts_agents s))
                             \<lparr>od_status := Order_processing, od_kind := Some ''trial_conversion''\<rparr>) db1 of
                           None \<Rightarrow> off db1
                         | Some (_, db2) \<Rightarrow> save_sub now (convert_trial now s) db2))"

definition process_trial_expirations :: "charge_api \<Rightarrow> datetime \<Rightarrow> bool \<Rightarrow> int \<Rightarrow> (pk \<Rightarrow> string) \<Rightarrow> billing_db \<Rightarrow> billing_db" where
  "process_trial_expirations api now dry_run days_before hex db =
     fold (expire_trial api now dry_run hex) (filter (trial_due now days_before) (bl_subs db)) db"

subsection \<open>Expiry (\<^verbatim>\<open>check_subscription_status\<close>)\<close>

definition exempt_tenants :: "string list" where
  "exempt_tenants = [''amanati'', ''groot'']"

text \<open>The subscriptions in and past the grace period.\<close>

definition checked_sub :: "billing_db \<Rightarrow> subscription \<Rightarrow> bool" where
  "checked_sub db s \<longleftrightarrow> ts_active s
     \<and> (case tenant_row db (ts_tenant s) of Some t \<Rightarrow> tn_active t \<and> tn_schema t \<notin> set exempt_tenants | None \<Rightarrow> False)"

definition in_grace :: "datetime \<Rightarrow> int \<Rightarrow> billing_db \<Rightarrow> subscription \<Rightarrow> bool" where
  "in_grace now grace_days db s \<longleftrightarrow> checked_sub db s
     \<and> (case ts_expires s of Some d \<Rightarrow> d < now \<and> now - grace_days * us_per_day \<le> d | None \<Rightarrow> False)"

definition past_grace :: "datetime \<Rightarrow> int \<Rightarrow> billing_db \<Rightarrow> subscription \<Rightarrow> bool" where
  "past_grace now grace_days db s \<longleftrightarrow> checked_sub db s
     \<and> (case ts_expires s of Some d \<Rightarrow> d < now - grace_days * us_per_day | None \<Rightarrow> False)"

definition suspend_expired :: "datetime \<Rightarrow> subscription \<Rightarrow> billing_db \<Rightarrow> billing_db" where
  "suspend_expired now s db =
     (let db1 = (case tenant_row db (ts_tenant s) of None \<Rightarrow> db | Some t \<Rightarrow> save_tenant (t\<lparr>tn_active := False\<rparr>) db)
      in save_sub now (s\<lparr>ts_active := False\<rparr>) db1)"

definition check_subscription_status :: "datetime \<Rightarrow> int \<Rightarrow> billing_db \<Rightarrow> billing_db" where
  "check_subscription_status now grace_days db =
     fold (suspend_expired now) (filter (past_grace now grace_days db) (bl_subs db)) db"

subsection \<open>Reconciliation (\<^verbatim>\<open>reconcile_pending_payments\<close>)\<close>

text \<open>\<^verbatim>\<open>_advance_billing\<close>: whether it advanced.\<close>

definition advance_billing :: "bool \<Rightarrow> datetime \<Rightarrow> subscription \<Rightarrow> billing_db \<Rightarrow> bool \<times> billing_db" where
  "advance_billing test now s db =
     (if paid_ahead now s then (False, db) else (True, save_sub now (renew test now s) db))"

definition stuck_order :: "datetime \<Rightarrow> payment_order \<Rightarrow> bool" where
  "stuck_order now o' \<longleftrightarrow> od_status o' = Order_pending \<and> od_created o' \<le> now - 10 * us_per_minute
     \<and> now - 14 * us_per_day \<le> od_created o' \<and> (starts_with ''REC-'' (od_id o') \<or> starts_with ''RETRY-'' (od_id o'))"

text \<open>The subscription an order pays for: the one in its metadata, else the newest of its tenant.\<close>

definition order_sub :: "payment_order \<Rightarrow> billing_db \<Rightarrow> subscription option" where
  "order_sub o' db =
     (case Option.bind (od_subscription o') (\<lambda>k. row_get ts_pk k (bl_subs db)) of
        Some s \<Rightarrow> Some s
      | None \<Rightarrow> (case od_tenant o' of None \<Rightarrow> None | Some t \<Rightarrow> find (\<lambda>s. ts_tenant s = t) (rev (bl_subs db))))"

definition close_attempts :: "datetime \<Rightarrow> pk \<Rightarrow> billing_db \<Rightarrow> billing_db" where
  "close_attempts now k db =
     db\<lparr>bl_retries := map (\<lambda>r. if ry_subscription r = k \<and> ry_status r = Retry_pending then r\<lparr>ry_status := Retry_cancelled\<rparr> else r) (bl_retries db),
        bl_attempts := map (\<lambda>a. if pa_subscription a = Some k \<and> pa_status a = Attempt_pending then a\<lparr>pa_status := Attempt_cancelled\<rparr> else a) (bl_attempts db)\<rparr>"

definition settle_paid :: "bool \<Rightarrow> datetime \<Rightarrow> bool \<Rightarrow> payment_order \<Rightarrow> billing_db \<Rightarrow> billing_db" where
  "settle_paid test now dry_run o' db =
     (if dry_run then db
      else case row_get od_pk (od_pk o') (bl_orders db) of
             None \<Rightarrow> db
           | Some locked \<Rightarrow>
               if od_status locked = Order_paid then db
               else let db1 = save_order (locked\<lparr>od_status := Order_paid, od_paid_at := Some now\<rparr>) db
                    in case order_sub o' db of
                         None \<Rightarrow> db1
                       | Some s \<Rightarrow> close_attempts now (ts_pk s) (snd (advance_billing test now s db1)))"

definition set_order_status :: "order_status \<Rightarrow> payment_order \<Rightarrow> billing_db \<Rightarrow> billing_db" where
  "set_order_status st o' db =
     (case row_get od_pk (od_pk o') (bl_orders db) of None \<Rightarrow> db | Some x \<Rightarrow> save_order (x\<lparr>od_status := st\<rparr>) db)"

definition reconcile_order :: "charge_api \<Rightarrow> bool \<Rightarrow> datetime \<Rightarrow> bool \<Rightarrow> payment_order \<Rightarrow> billing_db \<Rightarrow> billing_db" where
  "reconcile_order api test now dry_run o' db =
     (if \<not> text_given (od_bog o') then db
      else case receipt_of api (the (od_bog o')) of
             None \<Rightarrow> db
           | Some res \<Rightarrow>
               if rv_bog res = Some ''completed'' then settle_paid test now dry_run o' db
               else if rv_bog res \<in> {Some ''refunded'', Some ''refunded_partially''}
               then (if dry_run then db else set_order_status Order_cancelled o' db)
               else if rv_bog res \<in> {Some ''rejected'', Some ''blocked''}
               then (if dry_run then db else set_order_status Order_failed o' db)
               else db)"

definition reconcile_pending_payments :: "charge_api \<Rightarrow> bool \<Rightarrow> datetime \<Rightarrow> bool \<Rightarrow> billing_db \<Rightarrow> billing_db" where
  "reconcile_pending_payments api test now dry_run db =
     fold (reconcile_order api test now dry_run) (filter (stuck_order now) (bl_orders db)) db"

end
