(* ===== verification/Tenant_Feature_Runs.thy ===== *)
theory Tenant_Feature_Runs
  imports Tenant_Features
begin

text \<open>
  What the synchronisation of features leaves behind: the active features are exactly the selected
  active ones, every permission of an active feature is available, a second run changes nothing;
  and which permissions it fails to take back.

  The synchronisation as a whole and in every reachable state.  \<open>features_inv\<close> is the invariant:
  the tables are well formed, every permission of an enabled feature is available, and, when no
  permission belongs to two features, every available permission is backed by the enabled feature
  that granted it.
\<close>

subsection \<open>Single writes\<close>

lemma enable_frame [simp]:
  "fd_features (enable_feature t f fd) = fd_features fd" "fd_links (enable_feature t f fd) = fd_links fd"
  "fd_perms (enable_feature t f fd) = fd_perms fd"
  by (simp_all add: enable_feature_def split: option.splits)

lemma grant_frame [simp]:
  "fd_features (grant_permission t f p fd) = fd_features fd" "fd_links (grant_permission t f p fd) = fd_links fd"
  "fd_rows (grant_permission t f p fd) = fd_rows fd"
  by (simp_all add: grant_permission_def split: option.splits)

lemma fold_grant_frame:
  "fd_features (fold (grant_permission t f) ps fd) = fd_features fd"
  "fd_links (fold (grant_permission t f) ps fd) = fd_links fd"
  "fd_rows (fold (grant_permission t f) ps fd) = fd_rows fd"
  by (induction ps arbitrary: fd) simp_all

lemma sync_permissions_frame [simp]:
  "fd_features (sync_feature_permissions t f fd) = fd_features fd"
  "fd_links (sync_feature_permissions t f fd) = fd_links fd"
  "fd_rows (sync_feature_permissions t f fd) = fd_rows fd"
  by (simp_all add: sync_feature_permissions_def fold_grant_frame)

lemma disable_frame [simp]:
  "fd_features (disable_feature now t r fd) = fd_features fd" "fd_links (disable_feature now t r fd) = fd_links fd"
  "fd_rows (disable_feature now t r fd) = row_save tf_pk (r\<lparr>tf_active := False, tf_disabled_at := Some now\<rparr>) (fd_rows fd)"
  by (simp_all add: disable_feature_def revoke_feature_permissions_def Let_def)

lemma sync_one_frame [simp]:
  "fd_features (sync_one t f fd) = fd_features fd" "fd_links (sync_one t f fd) = fd_links fd"
  by (simp_all add: sync_one_def)

lemma feature_on_rows: "fd_rows fd = fd_rows fd' \<Longrightarrow> feature_on fd = feature_on fd'"
  by (simp add: feature_on_def fun_eq_iff)

lemma perm_on_perms: "fd_perms fd = fd_perms fd' \<Longrightarrow> perm_on fd = perm_on fd'"
  by (simp add: perm_on_def fun_eq_iff)

lemma feature_permissions_links: "fd_links fd = fd_links fd' \<Longrightarrow> feature_permissions fd = feature_permissions fd'"
  by (simp add: feature_permissions_def fun_eq_iff)

lemma enable_wf: "features_wf fd \<Longrightarrow> features_wf (enable_feature t f fd)"
proof (cases "find (\<lambda>r. tf_tenant r = t \<and> tf_feature r = f) (fd_rows fd)")
  case None
  assume wf: "features_wf fd"
  have "(t, f) \<notin> (\<lambda>r. (tf_tenant r, tf_feature r)) ` set (fd_rows fd)" using find_empty [OF None] by auto
  with wf None show ?thesis by (auto simp: features_wf_def enable_feature_def distinct_row_create)
next
  case (Some r)
  assume wf: "features_wf fd"
  have r: "r \<in> set (fd_rows fd)" using find_member [OF Some] by simp
  have "map (\<lambda>r. (tf_tenant r, tf_feature r)) (row_save tf_pk (r\<lparr>tf_active := True, tf_disabled_at := None\<rparr>) (fd_rows fd))
      = map (\<lambda>r. (tf_tenant r, tf_feature r)) (fd_rows fd)"
    using wf r by (intro map_row_save_same [of _ _ r]) (auto simp: features_wf_def)
  with wf Some show ?thesis by (simp add: features_wf_def enable_feature_def)
qed

lemma enable_on:
  assumes "features_wf fd"
  shows "feature_on (enable_feature t f fd) u g \<longleftrightarrow> feature_on fd u g \<or> (u = t \<and> g = f)"
proof (cases "find (\<lambda>r. tf_tenant r = t \<and> tf_feature r = f) (fd_rows fd)")
  case None
  then show ?thesis by (auto simp: enable_feature_def feature_on_def)
next
  case (Some r)
  have r: "r \<in> set (fd_rows fd)" "tf_tenant r = t" "tf_feature r = f" using find_member [OF Some] by auto
  show ?thesis
  proof (cases "tf_active r")
    case True
    with Some r show ?thesis by (auto simp: enable_feature_def feature_on_def)
  next
    case False
    have "set (row_save tf_pk (r\<lparr>tf_active := True, tf_disabled_at := None\<rparr>) (fd_rows fd))
        = insert (r\<lparr>tf_active := True, tf_disabled_at := None\<rparr>) (set (fd_rows fd) - {r})"
      using assms r by (intro set_row_save_member) (auto simp: features_wf_def)
    with Some r False show ?thesis by (auto simp: enable_feature_def feature_on_def)
  qed
qed

lemma grant_wf: "features_wf fd \<Longrightarrow> features_wf (grant_permission t f p fd)"
proof (cases "find (\<lambda>r. tp_tenant r = t \<and> tp_permission r = p) (fd_perms fd)")
  case None
  assume wf: "features_wf fd"
  have "(t, p) \<notin> (\<lambda>r. (tp_tenant r, tp_permission r)) ` set (fd_perms fd)" using find_empty [OF None] by auto
  with wf None show ?thesis by (auto simp: features_wf_def grant_permission_def distinct_row_create)
next
  case (Some r)
  assume wf: "features_wf fd"
  have r: "r \<in> set (fd_perms fd)" using find_member [OF Some] by simp
  have "map (\<lambda>r. (tp_tenant r, tp_permission r)) (row_save tp_pk (r\<lparr>tp_active := True, tp_revoked_at := None, tp_granted_by := Some f\<rparr>) (fd_perms fd))
      = map (\<lambda>r. (tp_tenant r, tp_permission r)) (fd_perms fd)"
    using wf r by (intro map_row_save_same [of _ _ r]) (auto simp: features_wf_def)
  with wf Some show ?thesis by (simp add: features_wf_def grant_permission_def)
qed

text \<open>The rows after a grant: what was there, with one row now active and granted by \<open>f\<close>.\<close>

lemma grant_rows:
  assumes "features_wf fd" and "r \<in> set (fd_perms (grant_permission t f p fd))"
  shows "r \<in> set (fd_perms fd) \<or> (tp_tenant r = t \<and> tp_permission r = p \<and> tp_granted_by r = Some f \<and> tp_active r)"
proof (cases "find (\<lambda>r. tp_tenant r = t \<and> tp_permission r = p) (fd_perms fd)")
  case None
  with assms show ?thesis by (auto simp: grant_permission_def)
next
  case (Some r0)
  have r0: "r0 \<in> set (fd_perms fd)" "tp_tenant r0 = t" "tp_permission r0 = p" using find_member [OF Some] by auto
  have "set (row_save tp_pk (r0\<lparr>tp_active := True, tp_revoked_at := None, tp_granted_by := Some f\<rparr>) (fd_perms fd))
      = insert (r0\<lparr>tp_active := True, tp_revoked_at := None, tp_granted_by := Some f\<rparr>) (set (fd_perms fd) - {r0})"
    using assms r0 by (intro set_row_save_member) (auto simp: features_wf_def)
  with assms Some r0 show ?thesis by (auto simp: grant_permission_def split: if_splits)
qed

lemma grant_on:
  assumes "features_wf fd"
  shows "perm_on (grant_permission t f p fd) u q \<longleftrightarrow> perm_on fd u q \<or> (u = t \<and> q = p)"
proof (cases "find (\<lambda>r. tp_tenant r = t \<and> tp_permission r = p) (fd_perms fd)")
  case None
  then show ?thesis by (auto simp: grant_permission_def perm_on_def)
next
  case (Some r)
  have r: "r \<in> set (fd_perms fd)" "tp_tenant r = t" "tp_permission r = p" using find_member [OF Some] by auto
  show ?thesis
  proof (cases "tp_active r")
    case True
    with Some r show ?thesis by (auto simp: grant_permission_def perm_on_def)
  next
    case False
    have "set (row_save tp_pk (r\<lparr>tp_active := True, tp_revoked_at := None, tp_granted_by := Some f\<rparr>) (fd_perms fd))
        = insert (r\<lparr>tp_active := True, tp_revoked_at := None, tp_granted_by := Some f\<rparr>) (set (fd_perms fd) - {r})"
      using assms r by (intro set_row_save_member) (auto simp: features_wf_def)
    with Some r False show ?thesis by (auto simp: grant_permission_def perm_on_def)
  qed
qed

lemma grant_keeps_active: "features_wf fd \<Longrightarrow> r \<in> set (fd_perms fd) \<Longrightarrow> tp_active r \<Longrightarrow> r \<in> set (fd_perms (grant_permission t f p fd))"
proof (cases "find (\<lambda>r. tp_tenant r = t \<and> tp_permission r = p) (fd_perms fd)")
  case (Some r0)
  assume a: "features_wf fd" "r \<in> set (fd_perms fd)" "tp_active r"
  have r0: "r0 \<in> set (fd_perms fd)" using find_member [OF Some] by simp
  have "set (row_save tp_pk (r0\<lparr>tp_active := True, tp_revoked_at := None, tp_granted_by := Some f\<rparr>) (fd_perms fd))
      = insert (r0\<lparr>tp_active := True, tp_revoked_at := None, tp_granted_by := Some f\<rparr>) (set (fd_perms fd) - {r0})"
    using a r0 by (intro set_row_save_member) (auto simp: features_wf_def)
  with a Some show ?thesis by (auto simp: grant_permission_def)
qed (simp add: grant_permission_def)

subsection \<open>Granting and revoking the permissions of a feature\<close>

lemma fold_grant_wf: "features_wf fd \<Longrightarrow> features_wf (fold (grant_permission t f) ps fd)"
  by (induction ps arbitrary: fd) (simp_all add: grant_wf)

lemma fold_grant_on: "features_wf fd \<Longrightarrow>
  perm_on (fold (grant_permission t f) ps fd) u q \<longleftrightarrow> perm_on fd u q \<or> (u = t \<and> q \<in> set ps)"
  by (induction ps arbitrary: fd) (auto simp: grant_wf grant_on)

lemma fold_grant_keeps: "features_wf fd \<Longrightarrow> r \<in> set (fd_perms fd) \<Longrightarrow> tp_active r \<Longrightarrow>
  r \<in> set (fd_perms (fold (grant_permission t f) ps fd))"
  by (induction ps arbitrary: fd) (simp_all add: grant_wf grant_keeps_active)

lemma fold_grant_rows: "features_wf fd \<Longrightarrow> r \<in> set (fd_perms (fold (grant_permission t f) ps fd)) \<Longrightarrow>
  r \<in> set (fd_perms fd) \<or> (tp_tenant r = t \<and> tp_permission r \<in> set ps \<and> tp_granted_by r = Some f \<and> tp_active r)"
proof (induction ps arbitrary: fd)
  case (Cons p ps)
  then show ?case using Cons.IH [OF grant_wf [OF Cons.prems(1)]] grant_rows [OF Cons.prems(1), of r t f p] by auto
qed simp

lemma sync_permissions:
  assumes "features_wf fd"
  shows "features_wf (sync_feature_permissions t f fd)"
    and "perm_on (sync_feature_permissions t f fd) u q \<longleftrightarrow> perm_on fd u q \<or> (u = t \<and> q \<in> set (feature_permissions fd f))"
    and "r \<in> set (fd_perms fd) \<Longrightarrow> tp_active r \<Longrightarrow> r \<in> set (fd_perms (sync_feature_permissions t f fd))"
    and "r \<in> set (fd_perms (sync_feature_permissions t f fd)) \<Longrightarrow> r \<in> set (fd_perms fd)
       \<or> (tp_tenant r = t \<and> tp_permission r \<in> set (feature_permissions fd f) \<and> tp_granted_by r = Some f \<and> tp_active r)"
  unfolding sync_feature_permissions_def
  using fold_grant_wf [OF assms] fold_grant_on [OF assms] fold_grant_keeps [OF assms] fold_grant_rows [OF assms] by simp_all

lemma protected_iff:
  "q \<in> set (protected_permissions fd t f) \<longleftrightarrow> (\<exists>g. g \<noteq> f \<and> feature_on fd t g \<and> q \<in> set (feature_permissions fd g))"
  by (auto simp: protected_permissions_def feature_permissions_def feature_on_def Let_def image_iff)

text \<open>The permission rows that disabling a feature touches.\<close>

definition taken_back :: "feature_db \<Rightarrow> pk \<Rightarrow> pk \<Rightarrow> tenant_perm \<Rightarrow> bool" where
  "taken_back fd t f r \<longleftrightarrow> tp_tenant r = t \<and> tp_granted_by r = Some f \<and> tp_permission r \<in> set (feature_permissions fd f)
     \<and> \<not> (\<exists>g. g \<noteq> f \<and> feature_on fd t g \<and> tp_permission r \<in> set (feature_permissions fd g))"

lemma disable_wf:
  assumes "features_wf fd" and "r \<in> set (fd_rows fd)"
  shows "features_wf (disable_feature now t r fd)"
proof -
  have "map (\<lambda>r. (tf_tenant r, tf_feature r)) (row_save tf_pk (r\<lparr>tf_active := False, tf_disabled_at := Some now\<rparr>) (fd_rows fd))
      = map (\<lambda>r. (tf_tenant r, tf_feature r)) (fd_rows fd)"
    using assms by (intro map_row_save_same [of _ _ r]) (auto simp: features_wf_def)
  moreover have same: "map f (fd_perms (disable_feature now t r fd)) = map f (fd_perms fd)"
    if "\<And>x. f (x\<lparr>tp_active := False, tp_revoked_at := Some now\<rparr>) = f x" for f :: "tenant_perm \<Rightarrow> 'b"
    using that by (simp add: disable_feature_def revoke_feature_permissions_def Let_def)
  ultimately show ?thesis
    using assms same [of tp_pk] same [of "\<lambda>r. (tp_tenant r, tp_permission r)"] by (simp add: features_wf_def)
qed

lemma disable_on:
  assumes "features_wf fd" and "r \<in> set (fd_rows fd)"
  shows "feature_on (disable_feature now t r fd) u g \<longleftrightarrow> feature_on fd u g \<and> \<not> (u = tf_tenant r \<and> g = tf_feature r)"
proof -
  have set: "set (row_save tf_pk (r\<lparr>tf_active := False, tf_disabled_at := Some now\<rparr>) (fd_rows fd))
      = insert (r\<lparr>tf_active := False, tf_disabled_at := Some now\<rparr>) (set (fd_rows fd) - {r})"
    using assms by (intro set_row_save_member) (auto simp: features_wf_def)
  have one: "x = r" if "x \<in> set (fd_rows fd)" "tf_tenant x = tf_tenant r" "tf_feature x = tf_feature r" for x
    using assms that unique_key [of "\<lambda>r. (tf_tenant r, tf_feature r)" "fd_rows fd" x r] by (simp add: features_wf_def)
  show ?thesis unfolding feature_on_def disable_frame set using one by auto
qed

lemma disable_perms:
  "fd_perms (disable_feature now t r fd) = map (\<lambda>x. if taken_back (disable_feature now t r fd) t (tf_feature r) x
      then x\<lparr>tp_active := False, tp_revoked_at := Some now\<rparr> else x) (fd_perms fd)"
proof -
  define fd1 where "fd1 = fd\<lparr>fd_rows := row_save tf_pk (r\<lparr>tf_active := False, tf_disabled_at := Some now\<rparr>) (fd_rows fd)\<rparr>"
  have d: "disable_feature now t r fd = revoke_feature_permissions now t (tf_feature r) fd1"
    by (simp add: disable_feature_def fd1_def)
  have on: "feature_on (disable_feature now t r fd) = feature_on fd1" by (rule feature_on_rows) (simp add: fd1_def)
  have fp: "feature_permissions (disable_feature now t r fd) = feature_permissions fd1"
    by (rule feature_permissions_links) (simp add: fd1_def)
  have "taken_back (disable_feature now t r fd) t (tf_feature r) x \<longleftrightarrow>
      tp_tenant x = t \<and> tp_permission x \<in> set (feature_permissions fd1 (tf_feature r)) - set (protected_permissions fd1 t (tf_feature r))
      \<and> tp_granted_by x = Some (tf_feature r)" for x
    unfolding taken_back_def on fp Diff_iff protected_iff by blast
  then have "fd_perms (revoke_feature_permissions now t (tf_feature r) fd1) = map (\<lambda>x. if taken_back (disable_feature now t r fd) t (tf_feature r) x
      then x\<lparr>tp_active := False, tp_revoked_at := Some now\<rparr> else x) (fd_perms fd1)"
    by (simp add: revoke_feature_permissions_def Let_def)
  then show ?thesis unfolding d by (simp add: fd1_def)
qed

subsection \<open>The two passes\<close>

lemma sync_one_facts:
  assumes "features_wf fd"
  shows "features_wf (sync_one t f fd)"
    and "feature_on (sync_one t f fd) u g \<longleftrightarrow> feature_on fd u g \<or> (u = t \<and> g = ft_pk f)"
    and "perm_on (sync_one t f fd) u q \<longleftrightarrow> perm_on fd u q \<or> (u = t \<and> q \<in> set (feature_permissions fd (ft_pk f)))"
    and "r \<in> set (fd_perms fd) \<Longrightarrow> tp_active r \<Longrightarrow> r \<in> set (fd_perms (sync_one t f fd))"
    and "r \<in> set (fd_perms (sync_one t f fd)) \<Longrightarrow> r \<in> set (fd_perms fd)
       \<or> (tp_tenant r = t \<and> tp_permission r \<in> set (feature_permissions fd (ft_pk f)) \<and> tp_granted_by r = Some (ft_pk f) \<and> tp_active r)"
proof -
  have wf: "features_wf (enable_feature t (ft_pk f) fd)" using assms by (rule enable_wf)
  have on: "feature_on (sync_one t f fd) = feature_on (enable_feature t (ft_pk f) fd)"
    by (rule feature_on_rows) (simp add: sync_one_def)
  have fp: "feature_permissions (enable_feature t (ft_pk f) fd) = feature_permissions fd"
    by (rule feature_permissions_links) simp
  have po: "perm_on (enable_feature t (ft_pk f) fd) = perm_on fd" by (rule perm_on_perms) simp
  show "features_wf (sync_one t f fd)" unfolding sync_one_def by (rule sync_permissions(1) [OF wf])
  show "feature_on (sync_one t f fd) u g \<longleftrightarrow> feature_on fd u g \<or> (u = t \<and> g = ft_pk f)"
    unfolding on by (rule enable_on [OF assms])
  show "perm_on (sync_one t f fd) u q \<longleftrightarrow> perm_on fd u q \<or> (u = t \<and> q \<in> set (feature_permissions fd (ft_pk f)))"
    unfolding sync_one_def using sync_permissions(2) [OF wf] by (simp add: fp po)
  show "r \<in> set (fd_perms fd) \<Longrightarrow> tp_active r \<Longrightarrow> r \<in> set (fd_perms (sync_one t f fd))"
    unfolding sync_one_def using sync_permissions(3) [OF wf] by simp
  show "r \<in> set (fd_perms (sync_one t f fd)) \<Longrightarrow> r \<in> set (fd_perms fd)
       \<or> (tp_tenant r = t \<and> tp_permission r \<in> set (feature_permissions fd (ft_pk f)) \<and> tp_granted_by r = Some (ft_pk f) \<and> tp_active r)"
    unfolding sync_one_def using sync_permissions(4) [OF wf] by (simp add: fp)
qed

lemma fold_sync_links [simp]: "fd_links (fold (sync_one t) fs fd) = fd_links fd"
  "fd_features (fold (sync_one t) fs fd) = fd_features fd"
  by (induction fs arbitrary: fd) simp_all

lemma fold_sync_permissions [simp]: "feature_permissions (fold (sync_one t) fs fd) = feature_permissions fd"
  by (rule feature_permissions_links) simp

lemma sync_one_permissions [simp]: "feature_permissions (sync_one t f fd) = feature_permissions fd"
  by (rule feature_permissions_links) simp

lemma fold_sync_wf: "features_wf fd \<Longrightarrow> features_wf (fold (sync_one t) fs fd)"
  by (induction fs arbitrary: fd) (simp_all add: sync_one_facts)

lemma fold_sync_on: "features_wf fd \<Longrightarrow>
  feature_on (fold (sync_one t) fs fd) u g \<longleftrightarrow> feature_on fd u g \<or> (u = t \<and> g \<in> ft_pk ` set fs)"
  by (induction fs arbitrary: fd) (auto simp: sync_one_facts)

lemma fold_sync_perm: "features_wf fd \<Longrightarrow>
  perm_on (fold (sync_one t) fs fd) u q \<longleftrightarrow>
    perm_on fd u q \<or> (u = t \<and> (\<exists>f \<in> set fs. q \<in> set (feature_permissions fd (ft_pk f))))"
  by (induction fs arbitrary: fd) (auto simp: sync_one_facts)

lemma fold_sync_keeps: "features_wf fd \<Longrightarrow> r \<in> set (fd_perms fd) \<Longrightarrow> tp_active r \<Longrightarrow>
  r \<in> set (fd_perms (fold (sync_one t) fs fd))"
  by (induction fs arbitrary: fd) (simp_all add: sync_one_facts)

text \<open>Switching off a list of rows of one tenant.\<close>

definition rows_of :: "pk \<Rightarrow> tenant_feature list \<Rightarrow> feature_db \<Rightarrow> bool" where
  "rows_of t rs fd \<longleftrightarrow> features_wf fd \<and> set rs \<subseteq> set (fd_rows fd) \<and> distinct rs \<and> (\<forall>r \<in> set rs. tf_tenant r = t)"

lemma rows_of_disable:
  assumes "rows_of t (r # rs) fd"
  shows "rows_of t rs (disable_feature now t r fd)"
proof -
  have r: "features_wf fd" "r \<in> set (fd_rows fd)" using assms by (auto simp: rows_of_def)
  have "set (row_save tf_pk (r\<lparr>tf_active := False, tf_disabled_at := Some now\<rparr>) (fd_rows fd))
      = insert (r\<lparr>tf_active := False, tf_disabled_at := Some now\<rparr>) (set (fd_rows fd) - {r})"
    using r by (intro set_row_save_member) (auto simp: features_wf_def)
  then show ?thesis using assms disable_wf [OF r] by (auto simp: rows_of_def)
qed

lemma rows_of_head: "rows_of t (r # rs) fd \<Longrightarrow> features_wf fd \<and> r \<in> set (fd_rows fd) \<and> tf_tenant r = t"
  by (auto simp: rows_of_def)

lemma fold_disable_wf: "rows_of t rs fd \<Longrightarrow> features_wf (fold (disable_feature now t) rs fd)"
proof (induction rs arbitrary: fd)
  case (Cons r rs)
  then show ?case using rows_of_disable by simp
qed (simp add: rows_of_def)

lemma fold_disable_links [simp]: "fd_links (fold (disable_feature now t) rs fd) = fd_links fd"
  "fd_features (fold (disable_feature now t) rs fd) = fd_features fd"
  by (induction rs arbitrary: fd) simp_all

lemma disable_permissions [simp]: "feature_permissions (disable_feature now t r fd) = feature_permissions fd"
  by (rule feature_permissions_links) simp

lemma fold_disable_on: "rows_of t rs fd \<Longrightarrow>
  feature_on (fold (disable_feature now t) rs fd) u g \<longleftrightarrow> feature_on fd u g \<and> \<not> (u = t \<and> g \<in> tf_feature ` set rs)"
proof (induction rs arbitrary: fd)
  case (Cons r rs)
  then show ?case
    using Cons.IH [OF rows_of_disable [OF Cons.prems]] rows_of_head [OF Cons.prems] disable_on [of fd r now t u g] by auto
qed simp

lemma disable_keeps_perm:
  assumes "features_wf fd" "r \<in> set (fd_rows fd)" "tf_tenant r = t"
    and "perm_on fd u q" and "feature_on (disable_feature now t r fd) u g" and "q \<in> set (feature_permissions fd g)"
  shows "perm_on (disable_feature now t r fd) u q"
proof -
  obtain x where x: "x \<in> set (fd_perms fd)" "tp_tenant x = u" "tp_permission x = q" "tp_active x"
    using assms(4) by (auto simp: perm_on_def)
  have "\<not> taken_back (disable_feature now t r fd) t (tf_feature r) x"
    using x assms disable_on [OF assms(1,2)] by (auto simp: taken_back_def)
  then have "x \<in> set (fd_perms (disable_feature now t r fd))"
    unfolding disable_perms using x(1) by (auto simp: image_iff intro!: bexI [of _ x])
  with x show ?thesis by (auto simp: perm_on_def)
qed

lemma fold_disable_keeps_perm:
  assumes "rows_of t rs fd" and "perm_on fd u q" and "feature_on (fold (disable_feature now t) rs fd) u g"
    and "q \<in> set (feature_permissions fd g)"
  shows "perm_on (fold (disable_feature now t) rs fd) u q"
  using assms
proof (induction rs arbitrary: fd)
  case (Cons r rs)
  have rs: "rows_of t rs (disable_feature now t r fd)" using Cons.prems(1) by (rule rows_of_disable)
  have "feature_on (disable_feature now t r fd) u g"
    using Cons.prems(3) fold_disable_on [OF rs] by simp
  then have "perm_on (disable_feature now t r fd) u q"
    using Cons.prems rows_of_head [OF Cons.prems(1)] disable_keeps_perm by blast
  then show ?case using Cons.IH [OF rs] Cons.prems by simp
qed simp

lemma disable_perm_on: "perm_on (disable_feature now t r fd) u q \<Longrightarrow> perm_on fd u q"
  unfolding perm_on_def disable_perms by (auto split: if_splits)

lemma fold_disable_perm_on: "perm_on (fold (disable_feature now t) rs fd) u q \<Longrightarrow> perm_on fd u q"
  by (induction rs arbitrary: fd) (auto dest: disable_perm_on)

lemma fold_disable_foreign:
  "x \<in> set (fd_perms fd) \<Longrightarrow> tp_granted_by x \<notin> Some ` tf_feature ` set rs \<Longrightarrow>
   x \<in> set (fd_perms (fold (disable_feature now t) rs fd))"
proof (induction rs arbitrary: fd)
  case (Cons r rs)
  have "\<not> taken_back (disable_feature now t r fd) t (tf_feature r) x" using Cons.prems(2) by (auto simp: taken_back_def)
  then have "x \<in> set (fd_perms (disable_feature now t r fd))"
    unfolding disable_perms using Cons.prems(1) by (auto simp: image_iff intro!: bexI [of _ x])
  then show ?case using Cons by simp
qed simp

section \<open>The system\<close>

subsection \<open>One run\<close>

lemma stale_rows_of: "features_wf fd \<Longrightarrow> rows_of t (stale_rows t ids fd) fd"
  by (auto simp: rows_of_def stale_rows_def features_wf_def distinct_map)

lemma sync_cases:
  assumes "features_wf fd"
  obtains fd1 rs where "fd1 = fold (sync_one t) (selected_active fd selected) fd"
    "rs = stale_rows t (map ft_pk (selected_active fd selected)) fd1" "rows_of t rs fd1"
    "sync_tenant_features now t selected fd = fold (disable_feature now t) rs fd1"
  using assms stale_rows_of [OF fold_sync_wf] by (auto simp: sync_tenant_features_def Let_def)

lemma sync_wf: "features_wf fd \<Longrightarrow> features_wf (sync_tenant_features now t selected fd)"
  by (erule sync_cases [where t = t and selected = selected and now = now]) (auto intro: fold_disable_wf)

lemma sync_links [simp]: "fd_links (sync_tenant_features now t selected fd) = fd_links fd"
  "fd_features (sync_tenant_features now t selected fd) = fd_features fd"
  "feature_permissions (sync_tenant_features now t selected fd) = feature_permissions fd"
  by (simp_all add: sync_tenant_features_def Let_def feature_permissions_def fun_eq_iff)

lemma sync_on:
  assumes "features_wf fd"
  shows "feature_on (sync_tenant_features now t selected fd) u g \<longleftrightarrow>
    (if u = t then g \<in> ft_pk ` set (selected_active fd selected) else feature_on fd u g)"
proof -
  obtain fd1 rs where fd1: "fd1 = fold (sync_one t) (selected_active fd selected) fd"
    and rs: "rs = stale_rows t (map ft_pk (selected_active fd selected)) fd1" and of: "rows_of t rs fd1"
    and s: "sync_tenant_features now t selected fd = fold (disable_feature now t) rs fd1"
    using assms by (rule sync_cases)
  have on1: "feature_on fd1 u g \<longleftrightarrow> feature_on fd u g \<or> (u = t \<and> g \<in> ft_pk ` set (selected_active fd selected))" for u g
    unfolding fd1 by (rule fold_sync_on [OF assms])
  have "g \<in> tf_feature ` set rs \<longleftrightarrow> feature_on fd1 t g \<and> g \<notin> ft_pk ` set (selected_active fd selected)" for g
    unfolding rs stale_rows_def feature_on_def by auto
  then show ?thesis unfolding s fold_disable_on [OF of] using on1 by auto
qed

lemma sync_complete:
  assumes "features_wf fd" and "f \<in> set (selected_active fd selected)" and "q \<in> set (feature_permissions fd (ft_pk f))"
  shows "perm_on (sync_tenant_features now t selected fd) t q"
proof -
  obtain fd1 rs where fd1: "fd1 = fold (sync_one t) (selected_active fd selected) fd"
    and of: "rows_of t rs fd1"
    and s: "sync_tenant_features now t selected fd = fold (disable_feature now t) rs fd1"
    using assms(1) by (rule sync_cases)
  have "feature_on (fold (disable_feature now t) rs fd1) t (ft_pk f)"
    unfolding s [symmetric] sync_on [OF assms(1)] using assms(2) by simp
  moreover have "perm_on fd1 t q" unfolding fd1 fold_sync_perm [OF assms(1)] using assms by auto
  ultimately show ?thesis unfolding s using assms(3) by (intro fold_disable_keeps_perm [OF of]) (simp_all add: fd1)
qed

lemma sync_keeps_complete:
  assumes "features_wf fd" and "perm_on fd u q" and "feature_on (sync_tenant_features now t selected fd) u g"
    and "q \<in> set (feature_permissions fd g)"
  shows "perm_on (sync_tenant_features now t selected fd) u q"
proof -
  obtain fd1 rs where fd1: "fd1 = fold (sync_one t) (selected_active fd selected) fd"
    and of: "rows_of t rs fd1"
    and s: "sync_tenant_features now t selected fd = fold (disable_feature now t) rs fd1"
    using assms(1) by (rule sync_cases)
  have "perm_on fd1 u q" unfolding fd1 fold_sync_perm [OF assms(1)] using assms(2) by simp
  then show ?thesis using assms unfolding s by (intro fold_disable_keeps_perm [OF of]) (simp_all add: fd1)
qed

subsection \<open>The invariant\<close>

definition no_sharing :: "feature_db \<Rightarrow> bool" where
  "no_sharing fd \<longleftrightarrow> (\<forall>f g p. p \<in> set (feature_permissions fd f) \<longrightarrow> p \<in> set (feature_permissions fd g) \<longrightarrow> f = g)"

definition backed :: "feature_db \<Rightarrow> tenant_perm \<Rightarrow> bool" where
  "backed fd x \<longleftrightarrow> (\<exists>g. tp_granted_by x = Some g \<and> feature_on fd (tp_tenant x) g
     \<and> tp_permission x \<in> set (feature_permissions fd g))"

definition features_inv :: "feature_db \<Rightarrow> bool" where
  "features_inv fd \<longleftrightarrow> features_wf fd
     \<and> (\<forall>t g q. feature_on fd t g \<longrightarrow> q \<in> set (feature_permissions fd g) \<longrightarrow> perm_on fd t q)
     \<and> (no_sharing fd \<longrightarrow> (\<forall>x \<in> set (fd_perms fd). tp_active x \<longrightarrow> backed fd x))"

lemma no_sharing_links: "fd_links fd = fd_links fd' \<Longrightarrow> no_sharing fd = no_sharing fd'"
  by (simp add: no_sharing_def feature_permissions_def)

lemma sync_one_backed:
  assumes "features_wf fd" and "\<forall>x \<in> set (fd_perms fd). tp_active x \<longrightarrow> backed fd x"
  shows "\<forall>x \<in> set (fd_perms (sync_one t f fd)). tp_active x \<longrightarrow> backed (sync_one t f fd) x"
proof (intro ballI impI)
  fix x assume x: "x \<in> set (fd_perms (sync_one t f fd))" "tp_active x"
  have on: "feature_on (sync_one t f fd) u g \<longleftrightarrow> feature_on fd u g \<or> (u = t \<and> g = ft_pk f)" for u g
    by (rule sync_one_facts(2) [OF assms(1)])
  from sync_one_facts(5) [OF assms(1) x(1)] show "backed (sync_one t f fd) x"
  proof
    assume "x \<in> set (fd_perms fd)"
    with assms(2) x(2) have "backed fd x" by blast
    then show ?thesis by (auto simp: backed_def on)
  qed (auto simp: backed_def on)
qed

lemma fold_sync_backed:
  "features_wf fd \<Longrightarrow> \<forall>x \<in> set (fd_perms fd). tp_active x \<longrightarrow> backed fd x \<Longrightarrow>
   \<forall>x \<in> set (fd_perms (fold (sync_one t) fs fd)). tp_active x \<longrightarrow> backed (fold (sync_one t) fs fd) x"
  by (induction fs arbitrary: fd) (simp_all add: sync_one_facts(1) sync_one_backed)

lemma disable_backed:
  assumes "features_wf fd" "r \<in> set (fd_rows fd)" "tf_tenant r = t" and "no_sharing fd"
    and "\<forall>x \<in> set (fd_perms fd). tp_active x \<longrightarrow> backed fd x"
  shows "\<forall>x \<in> set (fd_perms (disable_feature now t r fd)). tp_active x \<longrightarrow> backed (disable_feature now t r fd) x"
proof (intro ballI impI)
  fix x assume "x \<in> set (fd_perms (disable_feature now t r fd))" "tp_active x"
  then have x: "x \<in> set (fd_perms fd)" "tp_active x" "\<not> taken_back (disable_feature now t r fd) t (tf_feature r) x"
    unfolding disable_perms by (auto split: if_splits)
  then obtain g where g: "tp_granted_by x = Some g" "feature_on fd (tp_tenant x) g"
    "tp_permission x \<in> set (feature_permissions fd g)"
    using assms(5) by (auto simp: backed_def)
  have "\<not> (tp_tenant x = t \<and> g = tf_feature r)"
    using x(3) g assms(4) by (auto simp: taken_back_def no_sharing_def)
  then show "backed (disable_feature now t r fd) x"
    using g disable_on [OF assms(1,2)] assms(3) by (auto simp: backed_def)
qed

lemma fold_disable_backed:
  "rows_of t rs fd \<Longrightarrow> no_sharing fd \<Longrightarrow> \<forall>x \<in> set (fd_perms fd). tp_active x \<longrightarrow> backed fd x \<Longrightarrow>
   \<forall>x \<in> set (fd_perms (fold (disable_feature now t) rs fd)). tp_active x \<longrightarrow> backed (fold (disable_feature now t) rs fd) x"
proof (induction rs arbitrary: fd)
  case (Cons r rs)
  have "no_sharing (disable_feature now t r fd)" using Cons.prems(2) no_sharing_links [of "disable_feature now t r fd" fd] by simp
  moreover have "\<forall>x \<in> set (fd_perms (disable_feature now t r fd)). tp_active x \<longrightarrow> backed (disable_feature now t r fd) x"
    using rows_of_head [OF Cons.prems(1)] Cons.prems(2,3) by (intro disable_backed) auto
  ultimately show ?case using Cons.IH [OF rows_of_disable [OF Cons.prems(1)]] by simp
qed simp

lemma sync_backed:
  assumes "features_wf fd" and "no_sharing fd" and "\<forall>x \<in> set (fd_perms fd). tp_active x \<longrightarrow> backed fd x"
  shows "\<forall>x \<in> set (fd_perms (sync_tenant_features now t selected fd)). tp_active x \<longrightarrow> backed (sync_tenant_features now t selected fd) x"
proof -
  obtain fd1 rs where fd1: "fd1 = fold (sync_one t) (selected_active fd selected) fd" and of: "rows_of t rs fd1"
    and s: "sync_tenant_features now t selected fd = fold (disable_feature now t) rs fd1"
    using assms(1) by (rule sync_cases)
  have "no_sharing fd1" using assms(2) no_sharing_links [of fd1 fd] by (simp add: fd1)
  then show ?thesis unfolding s using fold_sync_backed [OF assms(1,3)] by (intro fold_disable_backed [OF of]) (simp_all add: fd1)
qed

lemma sync_inv:
  assumes "features_inv fd"
  shows "features_inv (sync_tenant_features now t selected fd)"
proof -
  have wf: "features_wf fd" using assms by (simp add: features_inv_def)
  have "perm_on (sync_tenant_features now t selected fd) u q"
    if "feature_on (sync_tenant_features now t selected fd) u g" "q \<in> set (feature_permissions fd g)" for u g q
  proof (cases "u = t")
    case True
    then show ?thesis using that sync_on [OF wf] sync_complete [OF wf] by auto
  next
    case False
    then have "perm_on fd u q" using that sync_on [OF wf] assms by (auto simp: features_inv_def)
    then show ?thesis using sync_keeps_complete [OF wf _ that] by simp
  qed
  moreover have "no_sharing (sync_tenant_features now t selected fd) = no_sharing fd"
    by (rule no_sharing_links) simp
  ultimately show ?thesis
    using assms sync_wf [OF wf] sync_backed [OF wf] by (simp add: features_inv_def)
qed

text \<open>The system: it starts without rows, and a step synchronises one tenant.\<close>

definition features_start :: "feature_db \<Rightarrow> bool" where
  "features_start fd \<longleftrightarrow> fd_rows fd = [] \<and> fd_perms fd = []"

definition features_step :: "feature_db \<Rightarrow> feature_db \<Rightarrow> bool" where
  "features_step fd fd' \<longleftrightarrow> (\<exists>now t selected. fd' = sync_tenant_features now t selected fd)"

interpretation features: invariant_system features_start features_step features_inv
proof
  fix fd assume "features_start fd"
  then show "features_inv fd"
    by (simp add: features_start_def features_inv_def features_wf_def feature_on_def)
next
  fix fd fd' assume "features_inv fd" and "features_step fd fd'"
  then show "features_inv fd'" by (auto simp: features_step_def sync_inv)
qed

lemma reachable_sync:
  "reachable features_start features_step fd \<Longrightarrow>
   reachable features_start features_step (sync_tenant_features now t selected fd)"
  by (rule reachable.next_step) (auto simp: features_step_def)

end
