(* ===== verification/Tenant_Feature_Props.thy ===== *)
theory Tenant_Feature_Props
  imports Tenant_Feature_Runs
begin

text \<open>The properties of the synchronisation of features, and a tenant on which they are applied.\<close>

subsection \<open>A second run\<close>

lemma enable_again:
  assumes "features_wf fd" and "feature_on fd t f"
  shows "enable_feature t f fd = fd"
proof -
  obtain r where r: "r \<in> set (fd_rows fd)" "tf_tenant r = t" "tf_feature r = f" "tf_active r"
    using assms(2) by (auto simp: feature_on_def)
  show ?thesis
  proof (cases "find (\<lambda>r. tf_tenant r = t \<and> tf_feature r = f) (fd_rows fd)")
    case None
    with r show ?thesis by (auto simp: find_None_iff)
  next
    case (Some x)
    then have "x = r" using r find_member [OF Some] assms(1)
        unique_key [of "\<lambda>r. (tf_tenant r, tf_feature r)" "fd_rows fd" x r] by (simp add: features_wf_def)
    with r Some show ?thesis by (simp add: enable_feature_def)
  qed
qed

lemma grant_again:
  assumes "features_wf fd" and "perm_on fd t p"
  shows "grant_permission t f p fd = fd"
proof -
  obtain r where r: "r \<in> set (fd_perms fd)" "tp_tenant r = t" "tp_permission r = p" "tp_active r"
    using assms(2) by (auto simp: perm_on_def)
  show ?thesis
  proof (cases "find (\<lambda>r. tp_tenant r = t \<and> tp_permission r = p) (fd_perms fd)")
    case None
    with r show ?thesis by (auto simp: find_None_iff)
  next
    case (Some x)
    then have "x = r" using r find_member [OF Some] assms(1)
        unique_key [of "\<lambda>r. (tp_tenant r, tp_permission r)" "fd_perms fd" x r] by (simp add: features_wf_def)
    with r Some show ?thesis by (simp add: grant_permission_def)
  qed
qed

lemma fold_grant_again:
  "features_wf fd \<Longrightarrow> \<forall>p \<in> set ps. perm_on fd t p \<Longrightarrow> fold (grant_permission t f) ps fd = fd"
  by (induction ps) (simp_all add: grant_again)

lemma sync_one_again:
  "features_wf fd \<Longrightarrow> feature_on fd t (ft_pk f) \<Longrightarrow> \<forall>q \<in> set (feature_permissions fd (ft_pk f)). perm_on fd t q \<Longrightarrow> sync_one t f fd = fd"
  by (simp add: sync_one_def enable_again sync_feature_permissions_def fold_grant_again)

lemma fold_sync_again:
  "features_wf fd \<Longrightarrow> \<forall>f \<in> set fs. feature_on fd t (ft_pk f) \<and> (\<forall>q \<in> set (feature_permissions fd (ft_pk f)). perm_on fd t q)
   \<Longrightarrow> fold (sync_one t) fs fd = fd"
  by (induction fs) (simp_all add: sync_one_again)

subsection \<open>Properties\<close>

text \<open>C38: after a synchronisation the enabled features of the tenant are exactly the features of its
  subscription that are active in the catalogue, and no other tenant's features change.\<close>

theorem features_follow_selection:
  assumes "features_wf fd"
  shows "feature_on (sync_tenant_features now t selected fd) u g \<longleftrightarrow>
    (if u = t then g \<in> set selected \<and> (\<exists>f \<in> set (fd_features fd). ft_pk f = g \<and> ft_active f) else feature_on fd u g)"
  unfolding sync_on [OF assms] by (auto simp: selected_active_def image_iff)

text \<open>Synchronising again, at any later time, changes no row: signals and commands may run it as
  often as they like.\<close>

theorem sync_idempotent:
  assumes "features_wf fd"
  shows "sync_tenant_features later t selected (sync_tenant_features now t selected fd) = sync_tenant_features now t selected fd"
proof -
  let ?s = "sync_tenant_features now t selected fd"
  have wf: "features_wf ?s" using assms by (rule sync_wf)
  have sel: "selected_active ?s selected = selected_active fd selected" by (simp add: selected_active_def)
  have "fold (sync_one t) (selected_active fd selected) ?s = ?s"
    using wf by (rule fold_sync_again) (auto simp: sync_on [OF assms] intro: sync_complete [OF assms])
  moreover have "stale_rows t (map ft_pk (selected_active fd selected)) ?s = []"
  proof -
    have "tf_feature r \<in> ft_pk ` set (selected_active fd selected)"
      if "r \<in> set (fd_rows ?s)" "tf_tenant r = t" "tf_active r" for r
      using that sync_on [OF assms, of now t selected t "tf_feature r"] by (auto simp: feature_on_def)
    then show ?thesis by (auto simp: stale_rows_def filter_empty_conv)
  qed
  ultimately show ?thesis
    unfolding sync_tenant_features_def [of later] sel Let_def by simp
qed

text \<open>As long as no permission belongs to two features, in every reachable state the permissions a
  tenant can hand out are exactly those of its enabled features.\<close>

theorem permissions_follow_features:
  assumes "reachable features_start features_step fd" and "no_sharing fd"
  shows "perm_on fd t q \<longleftrightarrow> (\<exists>g. feature_on fd t g \<and> q \<in> set (feature_permissions fd g))"
proof -
  have inv: "features_inv fd" using assms(1) by (rule features.reachable_inv)
  show ?thesis
  proof
    assume "perm_on fd t q"
    then obtain x where "x \<in> set (fd_perms fd)" "tp_tenant x = t" "tp_permission x = q" "tp_active x"
      by (auto simp: perm_on_def)
    then show "\<exists>g. feature_on fd t g \<and> q \<in> set (feature_permissions fd g)"
      using inv assms(2) by (auto simp: features_inv_def backed_def)
  qed (use inv in \<open>auto simp: features_inv_def\<close>)
qed

text \<open>A permission granted through a feature that is switched off stays available after every
  further synchronisation that does not select this feature, whatever else is selected: it is only
  taken back in the run that disables the feature it was granted by.\<close>

theorem orphan_permission_stays:
  assumes "features_wf fd" and "x \<in> set (fd_perms fd)" and "tp_active x" and "tp_granted_by x = Some g"
    and "\<not> feature_on fd t g" and "g \<notin> set selected"
  shows "x \<in> set (fd_perms (sync_tenant_features now t selected fd))"
proof -
  obtain fd1 rs where fd1: "fd1 = fold (sync_one t) (selected_active fd selected) fd"
    and rs: "rs = stale_rows t (map ft_pk (selected_active fd selected)) fd1"
    and s: "sync_tenant_features now t selected fd = fold (disable_feature now t) rs fd1"
    using assms(1) by (rule sync_cases)
  have x1: "x \<in> set (fd_perms fd1)" unfolding fd1 by (rule fold_sync_keeps [OF assms(1-3)])
  have "\<not> feature_on fd1 t g"
    unfolding fd1 fold_sync_on [OF assms(1)] using assms(5,6) by (auto simp: selected_active_def)
  then have "g \<notin> tf_feature ` set rs" by (auto simp: rs stale_rows_def feature_on_def)
  then show ?thesis unfolding s using x1 assms(4) by (intro fold_disable_foreign) auto
qed

subsection \<open>A tenant with two features that share a permission\<close>

text \<open>Tickets (1) and reports (2) both come with permission 40, calls (3) with permission 50.\<close>

definition catalogue :: feature_db where
  "catalogue = \<lparr>fd_features = [\<lparr>ft_pk = 1, ft_key = ''tickets'', ft_core = True, ft_price = 5, ft_active = True\<rparr>,
       \<lparr>ft_pk = 2, ft_key = ''reports'', ft_core = False, ft_price = 3, ft_active = True\<rparr>,
       \<lparr>ft_pk = 3, ft_key = ''calls'', ft_core = False, ft_price = 4, ft_active = True\<rparr>],
     fd_links = [\<lparr>fl_feature = 1, fl_permission = 40\<rparr>, \<lparr>fl_feature = 2, fl_permission = 40\<rparr>, \<lparr>fl_feature = 3, fl_permission = 50\<rparr>],
     fd_rows = [], fd_perms = []\<rparr>"

definition tickets_and_reports :: feature_db where
  "tickets_and_reports = sync_tenant_features 1000 7 [1, 2] catalogue"

text \<open>Tickets are removed: permission 40 is protected by reports.\<close>

definition only_reports :: feature_db where
  "only_reports = sync_tenant_features 2000 7 [2] tickets_and_reports"

text \<open>Reports are removed too: permission 40 was granted by tickets, and stays.\<close>

definition only_calls :: feature_db where
  "only_calls = sync_tenant_features 3000 7 [3] only_reports"

lemma catalogue_start: "features_start catalogue"
  by (simp add: features_start_def catalogue_def)

lemma catalogue_wf: "features_wf catalogue"
  by (simp add: features_wf_def catalogue_def)

lemma both_wf: "features_wf tickets_and_reports"
  by (simp add: tickets_and_reports_def sync_wf catalogue_wf)

lemma only_reports_wf: "features_wf only_reports"
  by (simp add: only_reports_def sync_wf both_wf)

definition shared_grant :: tenant_perm where
  "shared_grant = \<lparr>tp_pk = 1, tp_tenant = 7, tp_permission = 40, tp_granted_by = Some 1, tp_active = True, tp_revoked_at = None\<rparr>"

lemma shared_grant_left: "shared_grant \<in> set (fd_perms only_reports)" by code_simp

lemma tickets_off: "\<not> feature_on only_reports 7 1"
  unfolding only_reports_def using both_wf by (subst sync_on) (auto simp: selected_active_def)

theorem orphan_permission_stays_witness:
  "shared_grant \<in> set (fd_perms only_calls) \<and> \<not> feature_on only_calls 7 1 \<and> \<not> feature_on only_calls 7 2"
proof -
  have "\<not> feature_on only_calls 7 g" if "g \<in> {1, 2}" for g
    unfolding only_calls_def using only_reports_wf that by (subst sync_on) (auto simp: selected_active_def)
  moreover have "shared_grant \<in> set (fd_perms only_calls)"
    unfolding only_calls_def
    by (rule orphan_permission_stays [OF only_reports_wf shared_grant_left _ _ tickets_off]) (simp_all add: shared_grant_def)
  ultimately show ?thesis by simp
qed

theorem features_follow_selection_witness:
  "feature_on (sync_tenant_features 1000 7 [1, 2, 9] catalogue) 7 2 \<and> \<not> feature_on (sync_tenant_features 1000 7 [1, 2, 9] catalogue) 7 9"
  unfolding features_follow_selection [OF catalogue_wf] by (simp add: catalogue_def)

theorem sync_idempotent_witness:
  "sync_tenant_features 5000 7 [1, 2] (sync_tenant_features 1000 7 [1, 2] catalogue) = tickets_and_reports"
  unfolding sync_idempotent [OF catalogue_wf] tickets_and_reports_def ..

definition calls_catalogue :: feature_db where
  "calls_catalogue = catalogue\<lparr>fd_links := [\<lparr>fl_feature = 1, fl_permission = 40\<rparr>, \<lparr>fl_feature = 3, fl_permission = 50\<rparr>]\<rparr>"

theorem permissions_follow_features_witness:
  "perm_on (sync_tenant_features 1000 7 [1] calls_catalogue) 7 40 \<and> \<not> perm_on (sync_tenant_features 1000 7 [1] calls_catalogue) 7 50"
proof -
  have wf: "features_wf calls_catalogue" by (simp add: calls_catalogue_def features_wf_def catalogue_def)
  have r: "reachable features_start features_step (sync_tenant_features 1000 7 [1] calls_catalogue)"
    by (intro reachable_sync reachable.start) (simp add: features_start_def calls_catalogue_def catalogue_def)
  have n: "no_sharing (sync_tenant_features 1000 7 [1] calls_catalogue)"
    by (auto simp: no_sharing_def feature_permissions_def calls_catalogue_def split: if_splits)
  show ?thesis
    unfolding permissions_follow_features [OF r n] sync_on [OF wf]
    by (simp add: selected_active_def calls_catalogue_def catalogue_def feature_permissions_def)
qed

end
