(* ===== verification/Billing_Facts.thy ===== *)
theory Billing_Facts
  imports Billing_Jobs Tenant_Feature_Props
begin

text \<open>
  Every write of a card keeps \<open>cards_ok\<close>: a tenant with an active card has exactly one default card.

  What every operation of subscription billing keeps: unique subscriptions and orders, one default
  card per tenant, and the invariant of the feature tables, which every saved subscription touches.
\<close>

lemma save_card_wf:
  assumes wf: "cards_wf (bl_cards db)" and c: "kd_default c \<Longrightarrow> kd_active c" and s: "save_card c db = Some db'"
  shows "cards_wf (bl_cards db')"
proof -
  define new where "new = (if kd_active c \<and> \<not> other_active c (bl_cards db) then c\<lparr>kd_default := True\<rparr> else c)"
  have d: "distinct (map kd_pk (bl_cards db))" using wf by (simp add: cards_wf_def)
  have set: "set (bl_cards db') = insert new (card_after c ` {x \<in> set (bl_cards db). kd_pk x \<noteq> kd_pk c})"
    unfolding new_def by (rule save_card_set(1) [OF d s])
  have new: "kd_tenant new = kd_tenant c" "kd_default new \<Longrightarrow> kd_active new" using c by (auto simp: new_def)
  have clash: False if x: "x \<in> set (bl_cards db)" "kd_pk x \<noteq> kd_pk c" "kd_tenant x = kd_tenant c"
    and def: "kd_default (card_after c x)" "kd_default new" for x
  proof -
    have "kd_default x" "\<not> kd_default c" using def(1) x(3) by auto
    moreover have "kd_active x" using wf x(1) \<open>kd_default x\<close> by (auto simp: cards_wf_def)
    ultimately show False using def(2) x by (auto simp: new_def other_active_def split: if_splits)
  qed
  have same: "x = y" if "x \<in> set (bl_cards db)" "y \<in> set (bl_cards db)" "kd_tenant x = kd_tenant y" "kd_default x" "kd_default y" for x y
    using wf that by (auto simp: cards_wf_def)
  have "a = b" if ab: "a \<in> set (bl_cards db')" "b \<in> set (bl_cards db')" "kd_tenant a = kd_tenant b" "kd_default a" "kd_default b" for a b
    using ab(1,2) unfolding set
  proof (elim insertE imageE)
    fix x y assume "a = card_after c x" "x \<in> {x \<in> set (bl_cards db). kd_pk x \<noteq> kd_pk c}"
      "b = card_after c y" "y \<in> {x \<in> set (bl_cards db). kd_pk x \<noteq> kd_pk c}"
    then show ?thesis using ab same [of x y] by auto
  next
    fix x assume "a = card_after c x" "x \<in> {x \<in> set (bl_cards db). kd_pk x \<noteq> kd_pk c}" "b = new"
    then show ?thesis using ab clash [of x] new(1) by auto
  next
    fix x assume "b = card_after c x" "x \<in> {x \<in> set (bl_cards db). kd_pk x \<noteq> kd_pk c}" "a = new"
    then show ?thesis using ab clash [of x] new(1) by auto
  qed simp
  moreover have "kd_active a" if "a \<in> set (bl_cards db')" "kd_default a" for a
    using that wf new(2) unfolding set by (auto simp: cards_wf_def)
  ultimately show ?thesis using save_card_set(2) [OF d s] by (simp add: cards_wf_def)
qed

text \<open>The row a save replaces: of the same tenant, and not the default one unless the new row is.\<close>

definition replaces :: "saved_card \<Rightarrow> saved_card list \<Rightarrow> bool" where
  "replaces c cs \<longleftrightarrow> (\<forall>x \<in> set cs. kd_pk x = kd_pk c \<longrightarrow> kd_tenant x = kd_tenant c \<and> (kd_default x \<longrightarrow> kd_default c))"

lemma save_card_other_tenant:
  assumes d: "distinct (map kd_pk (bl_cards db))" and s: "save_card c db = Some db'" and u: "u \<noteq> kd_tenant c"
    and r: "\<forall>x \<in> set (bl_cards db). kd_pk x = kd_pk c \<longrightarrow> kd_tenant x = kd_tenant c"
    and h: "has_default (bl_cards db) u"
  shows "has_default (bl_cards db') u"
proof -
  have "{x \<in> set (bl_cards db'). kd_tenant x = u} = {x \<in> set (bl_cards db). kd_tenant x = u}"
    unfolding save_card_set(1) [OF d s] using u r by (auto simp: card_after_def image_iff)
  then show ?thesis using h by (auto simp: has_default_def)
qed

lemma save_card_ok:
  assumes ok: "cards_ok (bl_cards db)" and c: "kd_default c \<Longrightarrow> kd_active c" and r: "replaces c (bl_cards db)"
    and s: "save_card c db = Some db'"
  shows "cards_ok (bl_cards db')"
proof -
  define new where "new = (if kd_active c \<and> \<not> other_active c (bl_cards db) then c\<lparr>kd_default := True\<rparr> else c)"
  have d: "distinct (map kd_pk (bl_cards db))" using ok by (simp add: cards_ok_def cards_wf_def)
  have set: "set (bl_cards db') = insert new (card_after c ` {x \<in> set (bl_cards db). kd_pk x \<noteq> kd_pk c})"
    unfolding new_def by (rule save_card_set(1) [OF d s])
  have "has_default (bl_cards db') (kd_tenant c)"
  proof (cases "kd_default new")
    case True
    moreover have "kd_tenant new = kd_tenant c" by (simp add: new_def)
    ultimately show ?thesis by (auto simp: has_default_def set)
  next
    case False
    then have n: "new = c" "\<not> kd_default c" by (auto simp: new_def split: if_splits)
    have o: "kd_active c \<Longrightarrow> other_active c (bl_cards db)" using False n(2) by (auto simp: new_def split: if_splits)
    have id: "card_after c = (\<lambda>x. x)" using n(2) by (simp add: card_after_def fun_eq_iff)
    show ?thesis unfolding has_default_def
    proof
      assume "\<exists>x \<in> set (bl_cards db'). kd_tenant x = kd_tenant c \<and> kd_active x"
      then have "\<exists>x \<in> set (bl_cards db). kd_tenant x = kd_tenant c \<and> kd_active x"
        using o unfolding set id n(1) by (auto simp: other_active_def)
      then obtain y where y: "y \<in> set (bl_cards db)" "kd_tenant y = kd_tenant c" "kd_default y"
        using ok by (auto simp: cards_ok_def has_default_def)
      then have "kd_pk y \<noteq> kd_pk c" using r n(2) by (auto simp: replaces_def)
      with y show "\<exists>x \<in> set (bl_cards db'). kd_tenant x = kd_tenant c \<and> kd_default x" unfolding set id by auto
    qed
  qed
  moreover have "has_default (bl_cards db') u" if "u \<noteq> kd_tenant c" for u
    using ok r that by (intro save_card_other_tenant [OF d s]) (auto simp: cards_ok_def replaces_def)
  ultimately have "has_default (bl_cards db') u" for u by (cases "u = kd_tenant c") auto
  then show ?thesis using save_card_wf [OF _ c s] ok by (auto simp: cards_ok_def)
qed

lemma card_before_trans: "card_before a b \<Longrightarrow> card_before b c \<Longrightarrow> card_before a c"
  by (auto simp: card_before_def)

lemma front_card: "cs \<noteq> [] \<Longrightarrow> \<exists>c \<in> set cs. \<not> (\<exists>x \<in> set cs. card_before x c)"
proof (induction cs)
  case (Cons a cs)
  show ?case
  proof (cases "cs = []")
    case True
    then show ?thesis by (simp add: card_before_def)
  next
    case False
    then obtain m where m: "m \<in> set cs" "\<not> (\<exists>x \<in> set cs. card_before x m)" using Cons.IH by blast
    show ?thesis
    proof (cases "card_before a m")
      case True
      then have "\<not> (\<exists>x \<in> set (a # cs). card_before x a)"
        using m card_before_trans [of _ a m] by (auto simp: card_before_def)
      then show ?thesis by auto
    qed (use m in auto)
  qed
qed simp

lemma first_card_None: "first_card cs = None \<longleftrightarrow> cs = []"
  using front_card [of cs] by (auto simp: first_card_def find_None_iff)

lemma first_card_Some: "first_card cs = Some c \<Longrightarrow> c \<in> set cs"
  by (auto simp: first_card_def find_Some_iff)

lemma unset_twice: "unset_defaults c (unset_defaults c cs) = unset_defaults c cs"
  by (auto simp: unset_defaults_def)

lemma unset_same: "unset_defaults (c\<lparr>kd_default := True\<rparr>) cs = unset_defaults c cs"
  by (simp add: unset_defaults_def)

lemma other_active_default: "other_active (c\<lparr>kd_default := True\<rparr>) cs = other_active c cs"
  by (simp add: other_active_def)

lemma save_default_again:
  "save_card (c\<lparr>kd_default := True\<rparr>) (db\<lparr>bl_cards := unset_defaults c (bl_cards db)\<rparr>) = save_card (c\<lparr>kd_default := True\<rparr>) db"
  by (simp add: save_card_def Let_def unset_twice unset_same other_active_default)

lemma cards_of_member: "c \<in> set (cards_of db t) \<longleftrightarrow> c \<in> set (bl_cards db) \<and> kd_tenant c = t"
  by (auto simp: cards_of_def)

lemma cards_member_replaces:
  assumes "cards_ok (bl_cards db)" and "c \<in> set (bl_cards db)" and "kd_pk c' = kd_pk c" "kd_tenant c' = kd_tenant c"
    and "kd_default c \<Longrightarrow> kd_default c'"
  shows "replaces c' (bl_cards db)"
  using assms unique_key [of kd_pk "bl_cards db" _ c] by (auto simp: replaces_def cards_ok_def cards_wf_def)

lemma new_card_replaces: "replaces (new_card db now t kind is_default d) (bl_cards db)"
  by (auto simp: replaces_def new_card_def dest: next_pk_fresh [of _ _ kd_pk])

lemma upsert_kind_ok:
  assumes "cards_ok (bl_cards db)" and "upsert_kind now t kind is_default d db = Some db'"
  shows "cards_ok (bl_cards db')"
proof (cases "first_card (filter (\<lambda>c. kd_kind c = kind \<and> kd_active c) (cards_of db t))")
  case None
  then have s: "save_card (new_card db now t kind is_default d) db = Some db'" using assms(2) by (simp add: upsert_kind_def)
  show ?thesis by (rule save_card_ok [OF assms(1) _ new_card_replaces s]) (simp add: new_card_def)
next
  case (Some c)
  then have s: "save_card (refresh_card d c) db = Some db'" using assms(2) by (simp add: upsert_kind_def)
  have c: "c \<in> set (bl_cards db)" "kd_active c" using first_card_Some [OF Some] by (auto simp: cards_of_member)
  have "replaces (refresh_card d c) (bl_cards db)"
    by (rule cards_member_replaces [OF assms(1) c(1)]) (simp_all add: refresh_card_def)
  from save_card_ok [OF assms(1) _ this s] show ?thesis by (simp add: refresh_card_def c)
qed

lemma update_or_create_card_ok:
  assumes "cards_ok (bl_cards db)" and "update_or_create_card now t d db = Some db'"
  shows "cards_ok (bl_cards db')"
proof (cases "cards_of db t")
  case Nil
  then have s: "save_card (new_card db now t Card_subscription True d) db = Some db'"
    using assms(2) by (simp add: update_or_create_card_def)
  show ?thesis by (rule save_card_ok [OF assms(1) _ new_card_replaces s]) (simp add: new_card_def)
next
  case (Cons c cs)
  then have "cs = []" using assms(2) by (cases cs) (auto simp: update_or_create_card_def)
  define c' where "c' = (refresh_card d c)\<lparr>kd_active := True, kd_default := True, kd_kind := Card_subscription\<rparr>"
  have s: "save_card c' db = Some db'" using assms(2) Cons \<open>cs = []\<close> by (simp add: update_or_create_card_def c'_def)
  have "c \<in> set (bl_cards db)" using Cons cards_of_member [of c db t] by simp
  then have "replaces c' (bl_cards db)"
    by (rule cards_member_replaces [OF assms(1)]) (simp_all add: refresh_card_def c'_def)
  from save_card_ok [OF assms(1) _ this s] show ?thesis by (simp add: c'_def)
qed

lemma set_parent_cards [simp]: "bl_cards (set_parent now t p db) = bl_cards db"
  by (simp add: set_parent_def save_sub_def sync_subscription_features_def split: option.splits)

lemma active_card_Some: "active_card db t k = Some c \<Longrightarrow> c \<in> set (bl_cards db) \<and> kd_pk c = k \<and> kd_tenant c = t \<and> kd_active c"
  by (auto simp: active_card_def find_Some_iff)

lemma set_default_card_ok:
  assumes "cards_ok (bl_cards db)" and "set_default_card now staff t k db = Inr db'"
  shows "cards_ok (bl_cards db')"
proof -
  obtain j c db1 where c: "active_card db t j = Some c" and s: "save_card (c\<lparr>kd_default := True\<rparr>) db = Some db1"
    and db': "db' = set_parent now t (Some (kd_parent c)) db1"
    using assms(2) by (auto simp: set_default_card_def save_default_again split: if_splits option.splits)
  have m: "c \<in> set (bl_cards db)" "kd_active c" using active_card_Some [OF c] by auto
  have "replaces (c\<lparr>kd_default := True\<rparr>) (bl_cards db)" by (rule cards_member_replaces [OF assms(1) m(1)]) simp_all
  from save_card_ok [OF assms(1) _ this s] have "cards_ok (bl_cards db1)" by (simp add: m)
  then show ?thesis by (simp add: db')
qed

lemma remove_saved_card_ok:
  assumes ok: "cards_ok (bl_cards db)" and "remove_saved_card now staff t k db = Inr db'"
  shows "cards_ok (bl_cards db')"
proof -
  obtain j c db1 where c: "active_card db t j = Some c" and s: "save_card (c\<lparr>kd_active := False, kd_default := False\<rparr>) db = Some db1"
    and db': "if kd_default c then next_default now t db1 = Some db' else db' = db1"
    using assms(2) by (auto simp: remove_saved_card_def split: if_splits option.splits)
  let ?c = "c\<lparr>kd_active := False, kd_default := False\<rparr>"
  have m: "c \<in> set (bl_cards db)" "kd_tenant c = t" using active_card_Some [OF c] by auto
  show ?thesis
  proof (cases "kd_default c")
    case False
    have "replaces ?c (bl_cards db)" using False by (intro cards_member_replaces [OF ok m(1)]) simp_all
    from save_card_ok [OF ok _ this s] have "cards_ok (bl_cards db1)" by simp
    then show ?thesis using db' False by simp
  next
    case True
    have d: "distinct (map kd_pk (bl_cards db))" using ok by (simp add: cards_ok_def cards_wf_def)
    have wf1: "cards_wf (bl_cards db1)" by (rule save_card_wf [OF _ _ s]) (use ok in \<open>simp_all add: cards_ok_def\<close>)
    have u1: "has_default (bl_cards db1) u" if "u \<noteq> t" for u
      using ok that m unique_key [OF d] by (intro save_card_other_tenant [OF d s]) (auto simp: cards_ok_def)
    have n: "next_default now t db1 = Some db'" using db' True by simp
    show ?thesis
    proof (cases "first_card (filter kd_active (cards_of db1 t))")
      case None
      then have "\<not> (\<exists>c \<in> set (bl_cards db1). kd_tenant c = t \<and> kd_active c)"
        by (auto simp: first_card_None cards_of_def filter_empty_conv)
      then have "has_default (bl_cards db1) t" by (auto simp: has_default_def)
      then have "has_default (bl_cards db1) u" for u using u1 by (cases "u = t") auto
      then show ?thesis using n None wf1 by (auto simp: next_default_def cards_ok_def)
    next
      case (Some x)
      then have s2: "save_card (x\<lparr>kd_default := True\<rparr>) db1 = Some db'" using n by (simp add: next_default_def)
      have x: "x \<in> set (bl_cards db1)" "kd_tenant x = t" "kd_active x" using first_card_Some [OF Some] by (auto simp: cards_of_member)
      have d1: "distinct (map kd_pk (bl_cards db1))" using wf1 by (simp add: cards_wf_def)
      have "cards_wf (bl_cards db')" by (rule save_card_wf [OF wf1 _ s2]) (simp add: x)
      moreover have "has_default (bl_cards db') u" if "u \<noteq> t" for u
        using u1 [OF that] that x unique_key [OF d1] by (intro save_card_other_tenant [OF d1 s2]) auto
      moreover have "has_default (bl_cards db') t"
        unfolding has_default_def save_card_set(1) [OF d1 s2] using x by auto
      ultimately show ?thesis by (metis cards_ok_def)
    qed
  qed
qed

section \<open>What billing keeps\<close>

subsection \<open>The tables a write leaves alone\<close>

named_theorems billing_frame

lemma save_sub_frame [billing_frame, simp]:
  "bl_tenants (save_sub now s db) = bl_tenants db" "bl_orders (save_sub now s db) = bl_orders db"
  "bl_invoices (save_sub now s db) = bl_invoices db" "bl_attempts (save_sub now s db) = bl_attempts db"
  "bl_retries (save_sub now s db) = bl_retries db" "bl_events (save_sub now s db) = bl_events db"
  "bl_cards (save_sub now s db) = bl_cards db" "bl_charges (save_sub now s db) = bl_charges db"
  "bl_subs (save_sub now s db) = row_save ts_pk s (bl_subs db)"
  by (simp_all add: save_sub_def sync_subscription_features_def)

lemma save_card_frame:
  assumes "save_card c db = Some db'"
  shows "bl_tenants db' = bl_tenants db" "bl_orders db' = bl_orders db" "bl_subs db' = bl_subs db"
    "bl_retries db' = bl_retries db" "bl_features db' = bl_features db" "bl_charges db' = bl_charges db"
    "bl_invoices db' = bl_invoices db" "bl_attempts db' = bl_attempts db"
  using assms by (auto simp: save_card_def Let_def split: if_splits)

text \<open>A write of cards changes no other table.\<close>

definition only_cards :: "billing_db \<Rightarrow> billing_db \<Rightarrow> bool" where
  "only_cards db db' \<longleftrightarrow> (\<exists>cs. db' = db\<lparr>bl_cards := cs\<rparr>)"

lemma only_cards_refl: "only_cards db db"
  unfolding only_cards_def by (rule exI [of _ "bl_cards db"]) simp

lemma save_card_only: "save_card c db = Some db' \<Longrightarrow> only_cards db db'"
  by (auto simp: save_card_def Let_def only_cards_def split: if_splits)

lemma upsert_kind_only: "upsert_kind now t kind is_default d db = Some db' \<Longrightarrow> only_cards db db'"
  by (auto simp: upsert_kind_def split: option.splits dest: save_card_only)

lemma update_or_create_card_only: "update_or_create_card now t d db = Some db' \<Longrightarrow> only_cards db db'"
  by (auto simp: update_or_create_card_def split: list.splits dest: save_card_only)

lemma only_cards_frame:
  assumes "only_cards db db'"
  shows "bl_tenants db' = bl_tenants db" "bl_subs db' = bl_subs db" "bl_orders db' = bl_orders db"
    "bl_features db' = bl_features db" "bl_charges db' = bl_charges db" "bl_retries db' = bl_retries db"
  using assms by (auto simp: only_cards_def)

lemma billing_event_frame [simp]:
  "bl_tenants (log_event s e o' a db) = bl_tenants db" "bl_orders (log_event s e o' a db) = bl_orders db"
  "bl_subs (log_event s e o' a db) = bl_subs db" "bl_retries (log_event s e o' a db) = bl_retries db"
  "bl_cards (log_event s e o' a db) = bl_cards db" "bl_features (log_event s e o' a db) = bl_features db"
  "bl_charges (log_event s e o' a db) = bl_charges db" "bl_attempts (log_event s e o' a db) = bl_attempts db"
  by (simp_all add: log_event_def)

lemma save_retry_frame [simp]:
  "bl_tenants (save_retry r db) = bl_tenants db" "bl_orders (save_retry r db) = bl_orders db"
  "bl_subs (save_retry r db) = bl_subs db" "bl_cards (save_retry r db) = bl_cards db"
  "bl_features (save_retry r db) = bl_features db" "bl_charges (save_retry r db) = bl_charges db"
  "bl_attempts (save_retry r db) = bl_attempts db" "bl_retries (save_retry r db) = row_save ry_pk r (bl_retries db)"
  by (simp_all add: save_retry_def)

lemma create_attempt_frame [simp]:
  "bl_tenants (snd (create_attempt a db)) = bl_tenants db" "bl_orders (snd (create_attempt a db)) = bl_orders db"
  "bl_subs (snd (create_attempt a db)) = bl_subs db" "bl_cards (snd (create_attempt a db)) = bl_cards db"
  "bl_features (snd (create_attempt a db)) = bl_features db" "bl_charges (snd (create_attempt a db)) = bl_charges db"
  "bl_retries (snd (create_attempt a db)) = bl_retries db"
  by (simp_all add: create_attempt_def Let_def)

lemma log_charge_frame [simp]:
  "bl_tenants (log_charge s p x now db) = bl_tenants db" "bl_orders (log_charge s p x now db) = bl_orders db"
  "bl_subs (log_charge s p x now db) = bl_subs db" "bl_cards (log_charge s p x now db) = bl_cards db"
  "bl_features (log_charge s p x now db) = bl_features db" "bl_retries (log_charge s p x now db) = bl_retries db"
  by (simp_all add: log_charge_def)

lemma save_order_frame [simp]:
  "bl_tenants (save_order o' db) = bl_tenants db" "bl_subs (save_order o' db) = bl_subs db"
  "bl_cards (save_order o' db) = bl_cards db" "bl_features (save_order o' db) = bl_features db"
  "bl_charges (save_order o' db) = bl_charges db" "bl_retries (save_order o' db) = bl_retries db"
  "bl_orders (save_order o' db) = row_save od_pk o' (bl_orders db)" "bl_invoices (save_order o' db) = bl_invoices db"
  by (simp_all add: save_order_def)

lemma invoice_frame [simp]:
  "bl_tenants (generate_invoice_for_payment now o' t n db) = bl_tenants db"
  "bl_orders (generate_invoice_for_payment now o' t n db) = bl_orders db"
  "bl_subs (generate_invoice_for_payment now o' t n db) = bl_subs db"
  "bl_cards (generate_invoice_for_payment now o' t n db) = bl_cards db"
  "bl_features (generate_invoice_for_payment now o' t n db) = bl_features db"
  "bl_charges (generate_invoice_for_payment now o' t n db) = bl_charges db"
  "bl_retries (generate_invoice_for_payment now o' t n db) = bl_retries db"
  by (simp_all add: generate_invoice_for_payment_def Let_def)

lemma save_tenant_frame [simp]:
  "bl_orders (save_tenant t db) = bl_orders db" "bl_subs (save_tenant t db) = bl_subs db"
  "bl_cards (save_tenant t db) = bl_cards db" "bl_features (save_tenant t db) = bl_features db"
  "bl_charges (save_tenant t db) = bl_charges db" "bl_retries (save_tenant t db) = bl_retries db"
  by (simp_all add: save_tenant_def)

lemma cancel_frame [simp]:
  "bl_tenants (cancel_pending_retries now k db) = bl_tenants db" "bl_orders (cancel_pending_retries now k db) = bl_orders db"
  "bl_subs (cancel_pending_retries now k db) = bl_subs db" "bl_cards (cancel_pending_retries now k db) = bl_cards db"
  "bl_features (cancel_pending_retries now k db) = bl_features db"
  by (simp_all add: cancel_pending_retries_def)

lemma create_retry_frame [simp]:
  "bl_tenants (create_retry now o' s a c db) = bl_tenants db" "bl_orders (create_retry now o' s a c db) = bl_orders db"
  "bl_subs (create_retry now o' s a c db) = bl_subs db" "bl_cards (create_retry now o' s a c db) = bl_cards db"
  "bl_features (create_retry now o' s a c db) = bl_features db" "bl_charges (create_retry now o' s a c db) = bl_charges db"
  by (simp_all add: create_retry_def)

lemma fold_create_retry_frame [simp]:
  "bl_tenants (fold (create_retry now o' s a) cs db) = bl_tenants db" "bl_orders (fold (create_retry now o' s a) cs db) = bl_orders db"
  "bl_subs (fold (create_retry now o' s a) cs db) = bl_subs db" "bl_cards (fold (create_retry now o' s a) cs db) = bl_cards db"
  "bl_features (fold (create_retry now o' s a) cs db) = bl_features db" "bl_charges (fold (create_retry now o' s a) cs db) = bl_charges db"
  by (induction cs arbitrary: db) simp_all

lemma close_attempts_frame [simp]:
  "bl_tenants (close_attempts now k db) = bl_tenants db" "bl_orders (close_attempts now k db) = bl_orders db"
  "bl_subs (close_attempts now k db) = bl_subs db" "bl_cards (close_attempts now k db) = bl_cards db"
  "bl_features (close_attempts now k db) = bl_features db" "bl_charges (close_attempts now k db) = bl_charges db"
  by (simp_all add: close_attempts_def)

subsection \<open>The invariant\<close>

definition order_ok :: "payment_order \<Rightarrow> bool" where
  "order_ok o' \<longleftrightarrow> \<not> starts_with ''RETRY-'' (od_id o')
     \<and> od_kind o' \<in> {None, Some ''recurring'', Some ''trial_conversion'', Some ''reactivation''}"

definition billing_inv :: "billing_db \<Rightarrow> bool" where
  "billing_inv db \<longleftrightarrow> distinct (map ts_pk (bl_subs db)) \<and> distinct (map ts_tenant (bl_subs db))
     \<and> distinct (map od_pk (bl_orders db)) \<and> distinct (map od_id (bl_orders db)) \<and> (\<forall>o' \<in> set (bl_orders db). order_ok o')
     \<and> cards_ok (bl_cards db) \<and> features_inv (bl_features db)"

lemma inv_frame:
  "billing_inv db \<Longrightarrow> bl_subs db' = bl_subs db \<Longrightarrow> bl_orders db' = bl_orders db \<Longrightarrow> bl_cards db' = bl_cards db
   \<Longrightarrow> bl_features db' = bl_features db \<Longrightarrow> billing_inv db'"
  by (simp add: billing_inv_def)

text \<open>A subscription instance as a handler holds it: its key and tenant are those of a row.\<close>

definition sub_instance :: "billing_db \<Rightarrow> subscription \<Rightarrow> bool" where
  "sub_instance db s \<longleftrightarrow> (ts_pk s, ts_tenant s) \<in> (\<lambda>x. (ts_pk x, ts_tenant x)) ` set (bl_subs db)"

lemma sub_instanceI: "x \<in> set (bl_subs db) \<Longrightarrow> ts_pk s = ts_pk x \<Longrightarrow> ts_tenant s = ts_tenant x \<Longrightarrow> sub_instance db s"
  by (auto simp: sub_instance_def image_iff)

lemma sub_instance_keys:
  assumes "sub_instance db s" and "map (\<lambda>x. (ts_pk x, ts_tenant x)) (bl_subs db') = map (\<lambda>x. (ts_pk x, ts_tenant x)) (bl_subs db)"
    and "ts_pk s' = ts_pk s" and "ts_tenant s' = ts_tenant s"
  shows "sub_instance db' s'"
  using assms(1,3,4) arg_cong [OF assms(2), of set] by (simp add: sub_instance_def)

lemma save_sub_keys:
  assumes "billing_inv db" and "sub_instance db s"
  shows "map (\<lambda>x. (ts_pk x, ts_tenant x)) (bl_subs (save_sub now s db)) = map (\<lambda>x. (ts_pk x, ts_tenant x)) (bl_subs db)"
proof -
  obtain x where x: "x \<in> set (bl_subs db)" "ts_pk s = ts_pk x" "ts_tenant s = ts_tenant x"
    using assms(2) by (auto simp: sub_instance_def)
  show ?thesis using assms(1) x by (simp add: map_row_save_same [of ts_pk _ x] billing_inv_def)
qed

lemma inv_save_sub:
  assumes "billing_inv db" and "sub_instance db s"
  shows "billing_inv (save_sub now s db)"
proof -
  have k: "map (\<lambda>x. (ts_pk x, ts_tenant x)) (bl_subs (save_sub now s db)) = map (\<lambda>x. (ts_pk x, ts_tenant x)) (bl_subs db)"
    using assms by (rule save_sub_keys)
  have "map ts_tenant (bl_subs (save_sub now s db)) = map ts_tenant (bl_subs db)"
    using arg_cong [OF k, of "map snd"] by (simp add: comp_def)
  moreover have "features_inv (bl_features (save_sub now s db))"
    using assms(1) by (simp add: save_sub_def sync_subscription_features_def billing_inv_def sync_inv)
  ultimately show ?thesis using assms(1) by (simp add: billing_inv_def)
qed

lemma order_ok_cong: "od_id x = od_id y \<Longrightarrow> od_kind x = od_kind y \<Longrightarrow> order_ok x = order_ok y"
  by (simp add: order_ok_def)

lemma order_ok_key [simp]: "order_ok (o'\<lparr>od_pk := k\<rparr>) = order_ok o'"
  by (rule order_ok_cong) simp_all

lemma inv_save_order:
  assumes "billing_inv db" and "x \<in> set (bl_orders db)" and "od_pk o' = od_pk x" "od_id o' = od_id x" "od_kind o' = od_kind x"
  shows "billing_inv (save_order o' db)"
proof -
  have d: "distinct (map od_pk (bl_orders db))" using assms(1) by (simp add: billing_inv_def)
  have "map od_id (row_save od_pk o' (bl_orders db)) = map od_id (bl_orders db)"
    using d assms by (intro map_row_save_same [of _ _ x]) simp_all
  moreover have "set (row_save od_pk o' (bl_orders db)) = insert o' (set (bl_orders db) - {x})"
    using d assms by (intro set_row_save_member) simp_all
  moreover have "order_ok o'" using assms order_ok_cong [of o' x] by (simp add: billing_inv_def)
  ultimately show ?thesis using assms by (auto simp: billing_inv_def)
qed

lemma inv_create_order:
  assumes "billing_inv db" and "create_payment_order o' db = Some (o1, db')" and "order_ok o'"
  shows "billing_inv db'"
  using assms by (auto simp: billing_inv_def create_payment_order_def Let_def distinct_row_create split: if_splits)

lemma create_order_row:
  "create_payment_order o' db = Some (o1, db') \<Longrightarrow>
   o1 = o'\<lparr>od_pk := next_pk od_pk (bl_orders db)\<rparr> \<and> db' = db\<lparr>bl_orders := row_create o1 (bl_orders db)\<rparr> \<and> od_id o' \<notin> od_id ` set (bl_orders db)"
  by (auto simp: create_payment_order_def Let_def split: if_splits)

lemma inv_cards:
  assumes "billing_inv db" and "cards_ok (bl_cards db')" and "bl_subs db' = bl_subs db" "bl_orders db' = bl_orders db"
    "bl_features db' = bl_features db"
  shows "billing_inv db'"
  using assms by (simp add: billing_inv_def)

lemma sub_of_Some: "sub_of db t = Some s \<Longrightarrow> s \<in> set (bl_subs db) \<and> ts_tenant s = t"
  by (auto simp: sub_of_def find_Some_iff)

lemma sub_of_instance: "sub_of db t = Some s \<Longrightarrow> ts_pk s' = ts_pk s \<Longrightarrow> ts_tenant s' = ts_tenant s \<Longrightarrow> sub_instance db s'"
  by (auto dest: sub_of_Some intro: sub_instanceI)

lemma row_get_instance: "row_get ts_pk k (bl_subs db) = Some s \<Longrightarrow> ts_pk s' = ts_pk s \<Longrightarrow> ts_tenant s' = ts_tenant s \<Longrightarrow> sub_instance db s'"
  by (auto dest: row_get_Some intro: sub_instanceI)

lemma inv_set_parent:
  assumes "billing_inv db"
  shows "billing_inv (set_parent now t p db)"
  using assms by (auto simp: set_parent_def split: option.splits intro!: inv_save_sub intro: sub_of_instance)

end
