(* ===== verification/Billing_Runs.thy ===== *)
theory Billing_Runs
  imports Billing_Facts
begin

text \<open>
  The system of subscription billing: webhooks, card and subscription endpoints and the scheduled
  commands, each one step.  \<open>kept db d\<close> is what every step guarantees: the invariant, and the same
  subscriptions as before.
\<close>

subsection \<open>The relation every write keeps\<close>

definition sub_keys :: "billing_db \<Rightarrow> (pk \<times> pk) list" where
  "sub_keys db = map (\<lambda>x. (ts_pk x, ts_tenant x)) (bl_subs db)"

definition kept :: "billing_db \<Rightarrow> billing_db \<Rightarrow> bool" where
  "kept db d \<longleftrightarrow> billing_inv d \<and> sub_keys d = sub_keys db"

lemma kept_refl: "billing_inv db \<Longrightarrow> kept db db"
  by (simp add: kept_def)

lemma kept_inv: "kept db d \<Longrightarrow> billing_inv d"
  by (simp add: kept_def)

lemma kept_frame:
  "kept db d \<Longrightarrow> bl_subs d' = bl_subs d \<Longrightarrow> bl_orders d' = bl_orders d \<Longrightarrow> bl_cards d' = bl_cards d
   \<Longrightarrow> bl_features d' = bl_features d \<Longrightarrow> kept db d'"
  by (auto simp: kept_def sub_keys_def intro: inv_frame)

lemma kept_instance: "kept db d \<Longrightarrow> sub_instance db s \<Longrightarrow> sub_instance d s"
  by (auto simp: kept_def sub_keys_def intro: sub_instance_keys)

lemma kept_save_sub: "kept db d \<Longrightarrow> sub_instance db s \<Longrightarrow> kept db (save_sub now s d)"
  using save_sub_keys [of d s now] inv_save_sub [of d s now] kept_instance [of db d s]
  by (simp add: kept_def sub_keys_def)

lemma kept_save_order:
  "kept db d \<Longrightarrow> x \<in> set (bl_orders d) \<Longrightarrow> od_pk o' = od_pk x \<Longrightarrow> od_id o' = od_id x \<Longrightarrow> od_kind o' = od_kind x
   \<Longrightarrow> kept db (save_order o' d)"
  by (auto simp: kept_def sub_keys_def intro: inv_save_order)

lemma kept_create_order:
  "kept db d \<Longrightarrow> create_payment_order o' d = Some (o1, d') \<Longrightarrow> order_ok o' \<Longrightarrow> kept db d'"
  using create_order_row [of o' d o1 d'] inv_create_order [of d o' o1 d'] by (auto simp: kept_def sub_keys_def)

lemma kept_cards:
  "kept db d \<Longrightarrow> cards_ok (bl_cards d') \<Longrightarrow> bl_subs d' = bl_subs d \<Longrightarrow> bl_orders d' = bl_orders d
   \<Longrightarrow> bl_features d' = bl_features d \<Longrightarrow> kept db d'"
  by (auto simp: kept_def sub_keys_def intro: inv_cards)

lemma kept_fold:
  "billing_inv db \<Longrightarrow> (\<And>x d. x \<in> set xs \<Longrightarrow> kept db d \<Longrightarrow> kept db (f x d)) \<Longrightarrow> kept db d \<Longrightarrow> kept db (fold f xs d)"
  by (induction xs arbitrary: d) simp_all

lemma kept_ok: "kept db d \<Longrightarrow> cards_ok (bl_cards d)"
  by (simp add: kept_def billing_inv_def)

lemma row_instance: "s \<in> set (bl_subs db) \<Longrightarrow> ts_pk s' = ts_pk s \<Longrightarrow> ts_tenant s' = ts_tenant s \<Longrightarrow> sub_instance db s'"
  by (rule sub_instanceI)

subsection \<open>Retries\<close>

lemma execute_retry_frame:
  "bl_tenants (snd (execute_retry api now s r db)) = bl_tenants db" "bl_subs (snd (execute_retry api now s r db)) = bl_subs db"
  "bl_orders (snd (execute_retry api now s r db)) = bl_orders db" "bl_cards (snd (execute_retry api now s r db)) = bl_cards db"
  "bl_features (snd (execute_retry api now s r db)) = bl_features db"
  by (simp_all add: execute_retry_def record_retry_def create_attempt_def Let_def split: option.splits)

lemma kept_suspend:
  assumes "kept db d" and "sub_instance db s"
  shows "kept db (suspend_subscription_for_payment_failure now s d)"
proof -
  define s' where "s' = s\<lparr>ts_active := False, ts_health := Health_failed\<rparr>"
  have "sub_instance db s'" using assms(2) by (simp add: sub_instance_def s'_def)
  then have "kept db (save_sub now s' d)" by (rule kept_save_sub [OF assms(1)])
  then show ?thesis
    by (rule kept_frame)
      (simp_all add: suspend_subscription_for_payment_failure_def Let_def s'_def save_sub_def sync_subscription_features_def split: option.splits)
qed

lemma kept_process_retry:
  assumes "kept db d" and "sub_instance db s"
  shows "kept db (process_retry api now s r d)"
proof -
  obtain ok d1 where e: "execute_retry api now s r d = (ok, d1)" by (cases "execute_retry api now s r d")
  have d1: "bl_subs d1 = bl_subs d" "bl_orders d1 = bl_orders d" "bl_cards d1 = bl_cards d" "bl_features d1 = bl_features d"
    using execute_retry_frame(2-5) [of api now s r d] by (simp_all add: e)
  have "kept db d1" using assms(1) d1 by (rule kept_frame)
  then show ?thesis using assms(2) by (simp add: process_retry_def e kept_suspend)
qed

lemma kept_process_payment_retries:
  assumes "billing_inv db"
  shows "kept db (process_payment_retries api now dry db)"
proof -
  have "kept db (case row_get ts_pk (ry_subscription r) (bl_subs db) of None \<Rightarrow> d | Some s \<Rightarrow> process_retry api now s r d)"
    if "kept db d" for r d
    using that row_get_instance [of _ db] by (auto split: option.splits intro!: kept_process_retry)
  then show ?thesis
    unfolding process_payment_retries_def using kept_refl [OF assms] by (auto intro!: kept_fold [OF assms])
qed

lemma kept_schedule:
  assumes "kept db d" and "sub_instance db s" and "schedule_payment_retries now o' a s d = (s', d')"
  shows "kept db d' \<and> sub_instance db s'"
proof (cases "bog_tenant d (ts_tenant s)")
  case False
  then show ?thesis using assms by (simp add: schedule_payment_retries_def)
next
  case True
  define d1 where "d1 = log_event s Ev_retry_scheduled (Some (od_pk o')) (Some a) (fold (create_retry now o' s a) retry_delays d)"
  have "kept db d1" by (rule kept_frame [OF assms(1)]) (simp_all add: d1_def)
  moreover have "sub_instance db (mark_payment_failed now s)" using assms(2) by (simp add: sub_instance_def mark_payment_failed_def)
  ultimately show ?thesis
    using assms(3) True by (auto simp: schedule_payment_retries_def Let_def d1_def intro: kept_save_sub)
qed

subsection \<open>The webhook\<close>

lemma kept_settle_retry:
  assumes "kept db d" and "sub_instance db s"
  shows "kept db (settle_retry now ext o' a s d)"
proof -
  have "sub_instance db (mark_payment_succeeded s)" using assms(2) by (simp add: sub_instance_def mark_payment_succeeded_def)
  then have "kept db (save_sub now (mark_payment_succeeded s) d)" by (rule kept_save_sub [OF assms(1)])
  then show ?thesis
    by (rule kept_frame) (simp_all add: settle_retry_def Let_def save_sub_def sync_subscription_features_def split: option.splits)
qed

lemma kept_settle_recurring:
  assumes "kept db d" and "o' \<in> set (bl_orders d)" and "settle_recurring test now o' t d = (r, d')"
  shows "kept db d'"
proof (cases "Option.bind (od_subscription o') (\<lambda>k. row_get ts_pk k (bl_subs d))")
  case None
  then show ?thesis using assms by (simp add: settle_recurring_def)
next
  case (Some s)
  then obtain k where "row_get ts_pk k (bl_subs d) = Some s" by (auto simp: bind_eq_Some_conv)
  then have "sub_instance d (renew test now s)" by (rule row_get_instance) (simp_all add: renew_def Let_def)
  then have "kept d (save_sub now (renew test now s) d)" using assms(1) by (intro kept_save_sub kept_refl) (simp add: kept_def)
  then have k1: "kept db (save_sub now (renew test now s) d)" using assms(1) by (simp add: kept_def)
  have "kept db (save_order o' (save_sub now (renew test now s) d))"
    by (rule kept_save_order [OF k1, of o']) (simp_all add: assms)
  then have "kept db (generate_invoice_for_payment now o' t (ts_agents s) (save_order o' (save_sub now (renew test now s) d)))"
    by (rule kept_frame) simp_all
  then show ?thesis using assms(3) Some by (auto simp: settle_recurring_def)
qed

lemma kept_settle_reactivation:
  assumes "kept db d" and "o' \<in> set (bl_orders d)" and "settle_reactivation test now saved c o' t d = (r, d')"
  shows "kept db d'"
proof (cases "Option.bind (od_subscription o') (\<lambda>k. row_get ts_pk k (bl_subs d))")
  case None
  then show ?thesis using assms by (simp add: settle_reactivation_def)
next
  case (Some s)
  define s' where "s' = reactivate test now (if saved then Some (cd_order c) else None) s"
  note eq = assms(3) [unfolded settle_reactivation_def Some option.case Let_def, folded s'_def]
  obtain k where "row_get ts_pk k (bl_subs d) = Some s" using Some by (auto simp: bind_eq_Some_conv)
  then have "sub_instance d s'" by (rule row_get_instance) (simp_all add: s'_def reactivate_def Let_def)
  then have "kept d (save_sub now s' d)" using assms(1) by (intro kept_save_sub kept_refl) (simp add: kept_def)
  then have k1: "kept db (save_sub now s' d)" using assms(1) by (simp add: kept_def)
  show ?thesis
  proof (cases "if saved then update_or_create_card now t c (save_sub now s' d) else Some (save_sub now s' d)")
    case None
    then show ?thesis using assms(1) eq by simp
  next
    case (Some d2)
    have o2: "bl_orders d2 = bl_orders d" and k2: "kept db d2"
    proof -
      have only: "only_cards (save_sub now s' d) d2"
        using Some update_or_create_card_only only_cards_refl by (auto split: if_splits)
      show "bl_orders d2 = bl_orders d" using only_cards_frame(3) [OF only] by simp
      show "kept db d2"
      proof (cases saved)
        case True
        then have u: "update_or_create_card now t c (save_sub now s' d) = Some d2" using Some by simp
        have "cards_ok (bl_cards d2)" using kept_ok [OF k1] u by (rule update_or_create_card_ok)
        then show ?thesis using only_cards_frame [OF only] by (intro kept_cards [OF k1]) simp_all
      qed (use Some k1 in simp)
    qed
    define o1 where "o1 = o'\<lparr>od_card_saved := saved\<rparr>"
    have "kept db (save_order o1 d2)" by (rule kept_save_order [OF k2, of o']) (simp_all add: o2 assms o1_def)
    then have "kept db (generate_invoice_for_payment now o1 t (ts_agents s') (save_order o1 d2))"
      by (rule kept_frame) simp_all
    then show ?thesis using eq Some by (simp add: o1_def)
  qed
qed

text \<open>The orders of the system have no other type that is handled.\<close>

lemma kept_settle:
  assumes "kept db d" and "o' \<in> set (bl_orders d)" and "settle test now saved c o' t d = (r, d')"
  shows "kept db d'"
proof -
  have "order_ok o'" using assms(1,2) by (simp add: kept_def billing_inv_def)
  then consider "od_kind o' = Some ''recurring''" | "od_kind o' = Some ''reactivation''"
    | "od_kind o' \<in> {None, Some ''trial_conversion''}" by (auto simp: order_ok_def)
  then show ?thesis
  proof cases
    case 1
    then show ?thesis using assms by (intro kept_settle_recurring [OF assms(1,2)]) (simp add: settle_def)
  next
    case 2
    then show ?thesis using assms by (intro kept_settle_reactivation [OF assms(1,2)]) (simp add: settle_def)
  next
    case 3
    then show ?thesis using assms by (auto simp: settle_def)
  qed
qed

lemma kept_mark_paid:
  assumes "billing_inv db" and "find_order db ext = Some o'"
  shows "kept db (save_order (mark_paid now bog o') db)" and "mark_paid now bog o' \<in> set (bl_orders (save_order (mark_paid now bog o') db))"
proof -
  have o': "o' \<in> set (bl_orders db)" using assms(2) by (auto simp: find_order_def dest: row_get_Some)
  show "kept db (save_order (mark_paid now bog o') db)"
    using assms(1) o' by (intro kept_save_order [OF kept_refl, of db o']) (simp_all add: mark_paid_def)
  show "mark_paid now bog o' \<in> set (bl_orders (save_order (mark_paid now bog o') db))"
    using o' by (auto simp: set_row_save mark_paid_def)
qed

lemma settle_retry_orders [simp]: "bl_orders (settle_retry now ext o' a s d) = bl_orders d"
  by (simp add: settle_retry_def Let_def split: option.splits)

lemma kept_after_payment:
  assumes "kept db d" and "o' \<in> set (bl_orders d)" and "after_payment test now w bog ext o' d = (r, d')"
  shows "kept db d'"
proof (cases "Option.bind (od_tenant o') (sub_of d)")
  case None
  then show ?thesis using assms by (cases "od_tenant o'") (auto simp: after_payment_def)
next
  case (Some s)
  then obtain t where t: "od_tenant o' = Some t" "sub_of d t = Some s" by (auto simp: bind_eq_Some_conv)
  obtain att a d1 where a: "create_attempt att d = (a, d1)"
    and settled: "settle test now (wk_saved w) \<lparr>cd_order = bog, cd_masked = wk_masked w\<rparr> o' t
      (if starts_with ''RETRY-'' ext then settle_retry now ext o' a s d1 else d1) = (r, d')"
    using assms(3) t by (auto simp: after_payment_def split: prod.splits)
  have d1: "d1 = snd (create_attempt att d)" using a by simp
  have k1: "kept db d1" by (rule kept_frame [OF assms(1)]) (simp_all add: d1)
  have o1: "bl_orders d1 = bl_orders d" by (simp add: d1)
  have "sub_instance d s" using t(2) by (rule sub_of_instance) simp_all
  then have "sub_instance db s" using assms(1) by (auto simp: kept_def sub_keys_def intro: sub_instance_keys [OF \<open>sub_instance d s\<close>])
  then have "kept db (if starts_with ''RETRY-'' ext then settle_retry now ext o' a s d1 else d1)"
    using k1 by (simp add: kept_settle_retry)
  then show ?thesis by (rule kept_settle [OF _ _ settled]) (simp add: o1 assms)
qed

lemma kept_completed:
  assumes "billing_inv db" and "hook_completed api test now w db = (r, d')"
  shows "kept db d'"
proof (cases "\<exists>ext bog o'. find_order db ext = Some o'
    \<and> after_payment test now w bog ext (mark_paid now bog o') (save_order (mark_paid now bog o') db) = (r, d')")
  case True
  then show ?thesis using kept_mark_paid [OF assms(1)] by (blast intro: kept_after_payment)
next
  case False
  then show ?thesis using assms kept_refl [OF assms(1)]
    by (auto simp: hook_completed_def split: option.splits if_splits)
qed

lemma kept_rejected:
  assumes inv: "billing_inv db" and h: "hook_rejected now w db = (r, d')"
  shows "kept db d'"
proof (cases "Option.bind (wk_ext w) (find_order db)")
  case None
  then show ?thesis using h kept_refl [OF inv] by (simp add: hook_rejected_def)
next
  case (Some o')
  define o1 where "o1 = o'\<lparr>od_status := Order_failed, od_bog := wk_bog w\<rparr>"
  define db1 where "db1 = save_order o1 db"
  have "o' \<in> set (bl_orders db)" using Some by (auto simp: bind_eq_Some_conv find_order_def dest: row_get_Some)
  then have k1: "kept db db1"
    unfolding db1_def o1_def using inv by (intro kept_save_order [OF kept_refl, of db o']) simp_all
  note eq = h [unfolded hook_rejected_def Some option.case Let_def, folded o1_def, folded db1_def]
  show ?thesis
  proof (cases "(Option.bind (od_tenant o1) (sub_of db1), wk_bog w)")
    case (Pair x y)
    show ?thesis
    proof (cases x)
      case None
      then show ?thesis using eq Pair k1 by auto
    next
      case (Some s)
      show ?thesis
      proof (cases y)
        case None
        then show ?thesis using eq Pair k1 Some by auto
      next
        case y: (Some bog)
        obtain t where "sub_of db1 t = Some s" using Pair Some by (auto simp: bind_eq_Some_conv)
        then have "s \<in> set (bl_subs db)" using sub_of_Some [of db1 t s] by (simp add: db1_def)
        then have s: "sub_instance db s" by (rule row_instance) simp_all
        obtain att a db2 where a: "create_attempt att db1 = (a, db2)" and
          eq2: "(if text_given (ts_parent s)
            then case schedule_payment_retries now o1 a s (log_event s Ev_payment_failed (Some (od_pk o1)) (Some a) db2) of
              (s', db4) \<Rightarrow> (Hook_received, save_sub now (mark_payment_failed now s') db4)
            else (Hook_received, save_sub now (mark_payment_failed now (s\<lparr>ts_health := Health_failed\<rparr>))
              (log_event s Ev_payment_failed (Some (od_pk o1)) (Some a) db2))) = (r, d')"
          using eq Pair Some y by (auto split: prod.splits)
        have "db2 = snd (create_attempt att db1)" using a by simp
        then have k3: "kept db (log_event s Ev_payment_failed (Some (od_pk o1)) (Some a) db2)"
          by (intro kept_frame [OF k1]) simp_all
        have inst: "sub_instance db (mark_payment_failed now x)" if "sub_instance db x" for x
          using that by (simp add: sub_instance_def mark_payment_failed_def)
        show ?thesis
        proof (cases "text_given (ts_parent s)")
          case True
          then obtain s' db4 where "schedule_payment_retries now o1 a s (log_event s Ev_payment_failed (Some (od_pk o1)) (Some a) db2) = (s', db4)"
            and d': "d' = save_sub now (mark_payment_failed now s') db4" using eq2 by (auto split: prod.splits)
          from kept_schedule [OF k3 s this(1)] show ?thesis unfolding d' by (intro kept_save_sub inst) simp_all
        next
          case False
          have "sub_instance db (s\<lparr>ts_health := Health_failed\<rparr>)" using s by (simp add: sub_instance_def)
          then show ?thesis using False eq2 k3 by (auto intro: kept_save_sub inst)
        qed
      qed
    qed
  qed
qed

lemma kept_webhook:
  assumes "billing_inv db"
  shows "kept db (snd (bog_webhook api test now w db))"
  using kept_refl [OF assms] kept_completed [OF assms] kept_rejected [OF assms]
  by (simp add: bog_webhook_def) (metis prod.collapse)

end
