(* ===== verification/Billing_System.thy ===== *)
theory Billing_System
  imports Billing_Runs
begin

text \<open>
  The commands and endpoints as steps, and the reachable states of subscription billing.  A start
  state has any tenants and subscriptions, cards with one default card per tenant, no feature rows, and only
  orders without a handled type, which registrations leave.
\<close>

subsection \<open>Commands\<close>

lemma renewal_order_ok: "order_ok ((blank_order now (''REC-'' @ h) b t a n)\<lparr>od_kind := Some ''recurring'', od_subscription := x\<rparr>)"
  by (simp add: order_ok_def blank_order_def starts_with_def)

lemma trial_order_ok: "order_ok ((blank_order now (''TRIAL-CONV-'' @ h) b t a n)\<lparr>od_status := x, od_kind := Some ''trial_conversion''\<rparr>)"
  by (simp add: order_ok_def blank_order_def starts_with_def)

lemmas charge_orders_ok = renewal_order_ok [simplified] trial_order_ok [simplified]

lemma kept_charge_renewal:
  assumes "billing_inv db" and "kept db d"
  shows "kept db (charge_renewal api now dry hex s d)"
proof -
  have l: "kept db (log_charge s p x now d)" for p x by (rule kept_frame [OF assms(2)]) simp_all
  show ?thesis
    using assms l by (auto simp: charge_renewal_def Let_def charge_orders_ok split: option.splits dest!: kept_create_order [OF l])
qed

lemma kept_process_recurring:
  "billing_inv db \<Longrightarrow> kept db (process_recurring_payments api now dry days hex held db)"
  unfolding process_recurring_payments_def
  by (auto intro!: kept_fold kept_charge_renewal kept_refl)

lemma kept_expire_trial:
  assumes "kept db d" and "s \<in> set (bl_subs db)"
  shows "kept db (expire_trial api now dry hex s d)"
proof -
  have off: "kept db (save_sub now (s\<lparr>ts_active := False\<rparr>) x)" if "kept db x" for x
    using that assms(2) by (intro kept_save_sub row_instance) simp_all
  have on: "kept db (save_sub now (convert_trial now s) x)" if "kept db x" for x
    using that assms(2) by (intro kept_save_sub row_instance) (simp_all add: convert_trial_def)
  have l: "kept db (log_charge s p x now d)" for p x by (rule kept_frame [OF assms(1)]) simp_all
  show ?thesis
    using assms l by (auto simp: expire_trial_def Let_def charge_orders_ok split: option.splits intro!: off on dest!: kept_create_order [OF l])
qed

lemma kept_process_trials:
  "billing_inv db \<Longrightarrow> kept db (process_trial_expirations api now dry days hex db)"
  unfolding process_trial_expirations_def by (rule kept_fold) (auto intro: kept_expire_trial kept_refl)

lemma kept_suspend_expired:
  assumes "kept db d" and "s \<in> set (bl_subs db)"
  shows "kept db (suspend_expired now s d)"
proof -
  have "kept db (case tenant_row d (ts_tenant s) of None \<Rightarrow> d | Some t \<Rightarrow> save_tenant (t\<lparr>tn_active := False\<rparr>) d)"
    by (rule kept_frame [OF assms(1)]) (simp_all split: option.splits)
  then show ?thesis unfolding suspend_expired_def Let_def using assms(2) by (intro kept_save_sub row_instance) simp_all
qed

lemma kept_check_status: "billing_inv db \<Longrightarrow> kept db (check_subscription_status now grace db)"
  unfolding check_subscription_status_def by (rule kept_fold) (auto intro: kept_suspend_expired kept_refl)

lemma order_sub_member: "order_sub o' db = Some s \<Longrightarrow> s \<in> set (bl_subs db)"
  by (auto simp: order_sub_def bind_eq_Some_conv find_Some_iff split: option.splits dest: row_get_Some)
    (metis nth_mem set_rev length_rev)

lemma kept_settle_paid:
  assumes "kept db d"
  shows "kept db (settle_paid test now dry o' d)"
proof -
  have "kept db (close_attempts now (ts_pk s) (snd (advance_billing test now s x)))"
    if "kept db x" "s \<in> set (bl_subs x)" for s x
  proof -
    have "sub_instance x (renew test now s)" using that(2) by (rule row_instance) (simp_all add: renew_def Let_def)
    then have "kept x (save_sub now (renew test now s) x)"
      using that(1) by (intro kept_save_sub kept_refl) (simp add: kept_def)
    then have "kept db (snd (advance_billing test now s x))" using that(1) by (simp add: advance_billing_def kept_def)
    then show ?thesis by (rule kept_frame) simp_all
  qed
  moreover have "kept db (save_order (x\<lparr>od_status := Order_paid, od_paid_at := Some now\<rparr>) d)"
    if "row_get od_pk (od_pk o') (bl_orders d) = Some x" for x
    using that by (intro kept_save_order [OF assms, of x]) (auto dest: row_get_Some)
  ultimately show ?thesis
    using assms order_sub_member [of o' d] by (auto simp: settle_paid_def Let_def split: option.splits)
qed

lemma kept_set_order_status:
  assumes "kept db d"
  shows "kept db (set_order_status st o' d)"
  using assms by (auto simp: set_order_status_def split: option.splits dest!: row_get_Some intro: kept_save_order)

lemma kept_reconcile: "billing_inv db \<Longrightarrow> kept db (reconcile_pending_payments api test now dry db)"
  unfolding reconcile_pending_payments_def
proof (rule kept_fold)
  fix o' d assume "kept db d"
  then show "kept db (reconcile_order api test now dry o' d)"
    by (auto simp: reconcile_order_def kept_settle_paid kept_set_order_status split: option.splits)
qed (auto intro: kept_refl)

subsection \<open>Endpoints\<close>

lemma save_card_same_rest:
  assumes "kept db d" and "only_cards d d'" and "cards_ok (bl_cards d')"
  shows "kept db d'"
  using only_cards_frame [OF assms(2)] by (intro kept_cards [OF assms(1,3)]) simp_all

lemma kept_set_parent:
  assumes "kept db d"
  shows "kept db (set_parent now t p d)"
proof (cases "sub_of d t")
  case (Some s)
  then have "sub_instance d (s\<lparr>ts_parent := p\<rparr>)" by (rule sub_of_instance) simp_all
  then have "kept d (save_sub now (s\<lparr>ts_parent := p\<rparr>) d)" using assms by (intro kept_save_sub kept_refl) (simp add: kept_def)
  then show ?thesis using assms Some by (simp add: set_parent_def kept_def)
qed (use assms in \<open>simp add: set_parent_def\<close>)

lemma kept_keys: "billing_inv db \<Longrightarrow> bl_subs d = bl_subs db \<Longrightarrow> bl_orders d = bl_orders db \<Longrightarrow> bl_features d = bl_features db
   \<Longrightarrow> cards_ok (bl_cards d) \<Longrightarrow> kept db d"
  by (rule kept_cards [OF kept_refl])

lemma next_default_rest:
  "next_default now t d = Some d' \<Longrightarrow> bl_orders d' = bl_orders d \<and>
     (only_cards d d' \<or> d' = set_parent now t None d)"
  by (auto simp: next_default_def split: option.splits dest: save_card_only)
    (auto simp: set_parent_def only_cards_def split: option.splits dest!: save_card_only)

lemma kept_remove_card:
  assumes inv: "billing_inv db" and r: "remove_saved_card now staff t k db = Inr db'"
  shows "kept db db'"
proof -
  have ok: "cards_ok (bl_cards db')" using inv r by (auto simp: billing_inv_def intro: remove_saved_card_ok)
  obtain c db1 where s: "save_card c db = Some db1" and d: "db' = db1 \<or> next_default now t db1 = Some db'"
    using r by (auto simp: remove_saved_card_def split: if_splits option.splits)
  have f1: "bl_subs db1 = bl_subs db" "bl_orders db1 = bl_orders db" "bl_features db1 = bl_features db"
    using only_cards_frame [OF save_card_only [OF s]] by simp_all
  consider "only_cards db1 db'" | "db' = set_parent now t None db1"
    using d next_default_rest [of now t db1 db'] only_cards_refl by blast
  then show ?thesis
  proof cases
    case 1
    show ?thesis using only_cards_frame [OF 1] f1 by (intro kept_keys [OF inv _ _ _ ok]) simp_all
  next
    case 2
    have "cards_ok (bl_cards db1)" using ok 2 by simp
    then have "kept db db1" by (rule kept_keys [OF inv f1])
    then show ?thesis unfolding 2 by (rule kept_set_parent)
  qed
qed

lemma kept_set_default:
  assumes inv: "billing_inv db" and r: "set_default_card now staff t k db = Inr db'"
  shows "kept db db'"
proof -
  obtain c db1 where s: "save_card (c\<lparr>kd_default := True\<rparr>) db = Some db1" and d: "db' = set_parent now t (Some (kd_parent c)) db1"
    using r by (auto simp: set_default_card_def save_default_again split: if_splits option.splits)
  have f1: "bl_subs db1 = bl_subs db" "bl_orders db1 = bl_orders db" "bl_features db1 = bl_features db"
    using only_cards_frame [OF save_card_only [OF s]] by simp_all
  have "cards_ok (bl_cards db')" using inv r by (auto simp: billing_inv_def intro: set_default_card_ok)
  then have "cards_ok (bl_cards db1)" using d by simp
  then have "kept db db1" by (rule kept_keys [OF inv f1])
  then show ?thesis unfolding d by (rule kept_set_parent)
qed

lemma kept_reactivation_order:
  assumes "billing_inv db" and "reactivate_subscription_payment api now hex u t db = Inr (o', db')"
  shows "kept db db'"
  using assms kept_refl [OF assms(1)]
  by (auto simp: reactivate_subscription_payment_def Let_def order_ok_def blank_order_def starts_with_def
      split: if_splits option.splits intro: kept_create_order)

lemma kept_save_found:
  assumes "billing_inv db" and "find P (bl_subs db) = Some s" and "ts_pk s' = ts_pk s" "ts_tenant s' = ts_tenant s"
  shows "kept db (save_sub now s' db)"
proof -
  have "s \<in> set (bl_subs db)" using find_member [OF assms(2)] by simp
  then show ?thesis using assms by (intro kept_save_sub kept_refl row_instance) simp_all
qed

lemma kept_subscription_changes:
  assumes "billing_inv db"
  shows "cancel_subscription now u t db = Inr db' \<Longrightarrow> kept db db'"
    and "add_feature_to_subscription now u t f charge db = Inr db' \<Longrightarrow> kept db db'"
    and "remove_feature_from_subscription now u t f db = Inr db' \<Longrightarrow> kept db db'"
    and "update_agent_count now u t n db = Inr db' \<Longrightarrow> kept db db'"
  using kept_save_found [OF assms]
  by (auto simp: cancel_subscription_def add_feature_to_subscription_def remove_feature_from_subscription_def
      update_agent_count_def active_sub_def split: if_splits option.splits)

subsection \<open>The system\<close>

inductive billing_step :: "billing_db \<Rightarrow> billing_db \<Rightarrow> bool" where
  webhook: "billing_step db (snd (bog_webhook api test now w db))"
| renewals: "billing_step db (process_recurring_payments api now dry days hex held db)"
| trials: "billing_step db (process_trial_expirations api now dry days hex db)"
| expiry: "billing_step db (check_subscription_status now grace db)"
| retries: "billing_step db (process_payment_retries api now dry db)"
| reconcile: "billing_step db (reconcile_pending_payments api test now dry db)"
| remove_card: "remove_saved_card now staff t k db = Inr db' \<Longrightarrow> billing_step db db'"
| default_card: "set_default_card now staff t k db = Inr db' \<Longrightarrow> billing_step db db'"
| reactivation: "reactivate_subscription_payment api now hex' u t db = Inr (o', db') \<Longrightarrow> billing_step db db'"
| cancel: "cancel_subscription now u t db = Inr db' \<Longrightarrow> billing_step db db'"
| add_feature: "add_feature_to_subscription now u t f charge db = Inr db' \<Longrightarrow> billing_step db db'"
| remove_feature: "remove_feature_from_subscription now u t f db = Inr db' \<Longrightarrow> billing_step db db'"
| agents: "update_agent_count now u t n db = Inr db' \<Longrightarrow> billing_step db db'"

inductive_cases billing_stepE: "billing_step db db'"

definition billing_start :: "billing_db \<Rightarrow> bool" where
  "billing_start db \<longleftrightarrow> distinct (map ts_pk (bl_subs db)) \<and> distinct (map ts_tenant (bl_subs db))
     \<and> distinct (map od_pk (bl_orders db)) \<and> distinct (map od_id (bl_orders db))
     \<and> (\<forall>o' \<in> set (bl_orders db). od_kind o' = None \<and> starts_with ''REG-'' (od_id o'))
     \<and> cards_ok (bl_cards db) \<and> features_start (bl_features db)"

lemma reg_not_retry: "starts_with ''REG-'' s \<Longrightarrow> \<not> starts_with ''RETRY-'' s"
  unfolding starts_with_iff by auto

interpretation billing: invariant_system billing_start billing_step billing_inv
proof
  fix db assume "billing_start db"
  then show "billing_inv db"
    using features.inv_init [of "bl_features db"] reg_not_retry
    by (auto simp: billing_start_def billing_inv_def order_ok_def)
next
  fix db db' assume inv: "billing_inv db" and "billing_step db db'"
  from this(2) have "kept db db'"
    using kept_webhook [OF inv] kept_process_recurring [OF inv] kept_process_trials [OF inv] kept_check_status [OF inv]
      kept_process_payment_retries [OF inv] kept_reconcile [OF inv] kept_remove_card [OF inv] kept_set_default [OF inv]
      kept_reactivation_order [OF inv] kept_subscription_changes [OF inv]
    by cases simp_all
  then show "billing_inv db'" by (rule kept_inv)
qed

end
