(* ===== verification/Billing_Props.thy ===== *)
theory Billing_Props
  imports Billing_System
begin

text \<open>The properties of subscription billing: what the system guarantees in every reachable state,
  and where it does not do what its comments say.\<close>

subsection \<open>The billing cycle\<close>

lemma catch_up_grid:
  "now < catch_up test now a \<and> (\<exists>k. catch_up test now a = a + int k * billing_interval test)
   \<and> (catch_up test now a = a \<or> catch_up test now a - billing_interval test \<le> now)"
proof (induction test now a rule: catch_up.induct)
  case (1 test now a)
  show ?case
  proof (cases "a \<le> now")
    case False
    then show ?thesis by (simp add: catch_up.simps [of test now a] exI [of _ 0])
  next
    case True
    have step: "catch_up test now a = catch_up test now (a + billing_interval test)"
      using True by (simp add: catch_up.simps [of test now a])
    obtain k where "catch_up test now (a + billing_interval test) = a + billing_interval test + int k * billing_interval test"
      using 1 [OF True] by auto
    then have "catch_up test now a = a + int (Suc k) * billing_interval test" by (simp add: step algebra_simps)
    moreover have "catch_up test now a - billing_interval test \<le> now" using 1 [OF True] True by (auto simp: step)
    moreover have "now < catch_up test now a" using 1 [OF True] by (simp add: step)
    ultimately show ?thesis by blast
  qed
qed

text \<open>The loop that finds the next billing date ends, and it ends at the first date after the
  present that lies a positive number of whole intervals after the previous billing date.\<close>

theorem next_anchor_grid:
  "now < next_anchor test now (Some d)
   \<and> (\<exists>k. next_anchor test now (Some d) = d + int (Suc k) * billing_interval test)
   \<and> (next_anchor test now (Some d) = d + billing_interval test \<or> next_anchor test now (Some d) - billing_interval test \<le> now)"
proof -
  obtain k where "catch_up test now (d + billing_interval test) = d + billing_interval test + int k * billing_interval test"
    using catch_up_grid by blast
  then have "catch_up test now (d + billing_interval test) = d + int (Suc k) * billing_interval test" by (simp add: algebra_simps)
  then show ?thesis using catch_up_grid [of now test "d + billing_interval test"] by (auto simp: next_anchor_def)
qed

subsection \<open>Renewals are charged once\<close>

definition tenant_charges :: "pk \<Rightarrow> billing_db \<Rightarrow> bank_charge list" where
  "tenant_charges t db = filter (\<lambda>c. bc_tenant c = t) (bl_charges db)"

lemma charge_renewal_cases:
  "charge_renewal api now dry hex s d = d \<or>
   (text_given (ts_parent s) \<and> \<not> recent_charge now (ts_tenant s) d \<and> \<not> dry
    \<and> (\<exists>c. bc_tenant c = ts_tenant s \<and> bl_charges (charge_renewal api now dry hex s d) = bl_charges d @ [c])
    \<and> (bl_orders (charge_renewal api now dry hex s d) = bl_orders d
       \<or> (\<exists>o1. od_tenant o1 = Some (ts_tenant s) \<and> bl_orders (charge_renewal api now dry hex s d) = row_create o1 (bl_orders d))))"
proof (cases "text_given (ts_parent s) \<and> \<not> recent_charge now (ts_tenant s) d \<and> \<not> dry")
  case False
  then show ?thesis by (auto simp: charge_renewal_def)
next
  case True
  define ext where "ext = ''REC-'' @ hex (ts_pk s)"
  define d1 where "d1 = log_charge s (parent_text s) ext now d"
  have d1: "bl_charges d1 = bl_charges d @ [\<lparr>bc_tenant = ts_tenant s, bc_parent = parent_text s, bc_order = ext, bc_at = now\<rparr>]"
    "bl_orders d1 = bl_orders d" by (simp_all add: d1_def log_charge_def)
  show ?thesis
  proof (cases "charge_subscription api (parent_text s) ext")
    case None
    then show ?thesis using True by (simp add: charge_renewal_def Let_def ext_def)
  next
    case (Some bog)
    define o' where "o' = (blank_order now ext (Some bog) (Some (ts_tenant s)) (monthly_cost (bl_features d) s) (ts_agents s))
      \<lparr>od_kind := Some ''recurring'', od_subscription := Some (ts_pk s)\<rparr>"
    have r: "charge_renewal api now dry hex s d = (case create_payment_order o' d1 of None \<Rightarrow> d1 | Some (_, db2) \<Rightarrow> db2)"
      using True Some unfolding charge_renewal_def Let_def ext_def [symmetric] d1_def [symmetric] o'_def by simp
    show ?thesis
    proof (cases "create_payment_order o' d1")
      case None
      then show ?thesis using True d1 unfolding r by auto
    next
      case (Some q)
      obtain o1 d2 where "q = (o1, d2)" by (cases q)
      then have "d2 = d1\<lparr>bl_orders := row_create o1 (bl_orders d1)\<rparr>" "od_tenant o1 = Some (ts_tenant s)"
        using create_order_row [of o' d1 o1 d2] Some by (simp_all add: o'_def blank_order_def)
      then show ?thesis using True Some d1 \<open>q = (o1, d2)\<close> unfolding r by auto
    qed
  qed
qed

lemma charge_renewal_other:
  assumes "ts_tenant s \<noteq> t"
  shows "tenant_charges t (charge_renewal api now dry hex s d) = tenant_charges t d"
    and "recent_charge now t (charge_renewal api now dry hex s d) = recent_charge now t d"
  using charge_renewal_cases [of api now dry hex s d] assms by (auto simp: tenant_charges_def recent_charge_def)

lemma charge_renewal_own:
  "\<exists>cs. tenant_charges t (charge_renewal api now dry hex s d) = tenant_charges t d @ cs \<and> length cs \<le> 1
     \<and> (cs = [] \<or> (\<not> recent_charge now (ts_tenant s) d \<and> text_given (ts_parent s) \<and> \<not> dry))"
  using charge_renewal_cases [of api now dry hex s d]
proof
  assume "charge_renewal api now dry hex s d = d"
  then show ?thesis by (intro exI [of _ "[]"]) simp
next
  assume a: "text_given (ts_parent s) \<and> \<not> recent_charge now (ts_tenant s) d \<and> \<not> dry
    \<and> (\<exists>c. bc_tenant c = ts_tenant s \<and> bl_charges (charge_renewal api now dry hex s d) = bl_charges d @ [c])
    \<and> (bl_orders (charge_renewal api now dry hex s d) = bl_orders d
       \<or> (\<exists>o1. od_tenant o1 = Some (ts_tenant s) \<and> bl_orders (charge_renewal api now dry hex s d) = row_create o1 (bl_orders d)))"
  then obtain c where "bl_charges (charge_renewal api now dry hex s d) = bl_charges d @ [c]" by blast
  then show ?thesis using a by (intro exI [of _ "filter (\<lambda>c. bc_tenant c = t) [c]"]) (simp add: tenant_charges_def)
qed

lemma renewals_fold:
  assumes "distinct (map ts_tenant xs)"
  shows "\<exists>cs. tenant_charges t (fold (charge_renewal api now dry hex) xs d) = tenant_charges t d @ cs \<and> length cs \<le> 1
     \<and> (cs = [] \<or> (\<not> recent_charge now t d \<and> \<not> dry \<and> (\<exists>s \<in> set xs. ts_tenant s = t \<and> text_given (ts_parent s))))"
  using assms
proof (induction xs arbitrary: d)
  case Nil
  then show ?case by simp
next
  case (Cons s xs)
  show ?case
  proof (cases "ts_tenant s = t")
    case False
    then show ?thesis using Cons.IH [of "charge_renewal api now dry hex s d"] Cons.prems charge_renewal_other [OF False] by auto
  next
    case True
    have rest: "tenant_charges t (fold (charge_renewal api now dry hex) ys e) = tenant_charges t e"
      if "t \<notin> ts_tenant ` set ys" for ys e
      using that by (induction ys arbitrary: e) (auto simp: charge_renewal_other)
    have "t \<notin> ts_tenant ` set xs" using Cons.prems True by auto
    then show ?thesis using charge_renewal_own [of t api now dry hex s d] True by (auto simp: rest)
  qed
qed

text \<open>C35: one run of the renewal command charges a tenant at most once, and only when the run holds the
  lock, the subscription is due and has a saved card, and no renewal order of the tenant (an order
  whose id starts with REC-) from the last 25 days is pending or paid, whether or not its webhook has
  arrived.  The guard sees renewal orders only: a retry of a failed renewal has no order, and
  \<open>retried_renewal_charged_again\<close> shows a renewal a day after the bank accepted its retry.\<close>

theorem renewals_charge_once:
  assumes "distinct (map ts_tenant (bl_subs db))"
  shows "\<exists>cs. tenant_charges t (process_recurring_payments api now dry days hex held db) = tenant_charges t db @ cs
     \<and> length cs \<le> 1
     \<and> (cs = [] \<or> (\<not> recent_charge now t db \<and> \<not> held \<and> \<not> dry
          \<and> (\<exists>s \<in> set (bl_subs db). ts_tenant s = t \<and> renewal_due now days db s \<and> text_given (ts_parent s))))"
proof (cases held)
  case False
  have "distinct (map ts_tenant (filter (renewal_due now days db) (bl_subs db)))" using assms by (rule distinct_map_filter)
  from renewals_fold [OF this, of t api now dry hex db] show ?thesis
    using False by (auto simp: process_recurring_payments_def)
qed (simp add: process_recurring_payments_def)

subsection \<open>An order settles once\<close>

definition settled :: "billing_db \<Rightarrow> string \<Rightarrow> pk \<Rightarrow> bool" where
  "settled db ext t \<longleftrightarrow> (\<exists>x \<in> set (bl_orders db). od_id x = ext \<and> od_status x = Order_paid \<and> od_tenant x = Some t)"

lemma settled_save:
  assumes "o' \<in> set (bl_orders d)" "od_id o' = ext" "od_status o' = Order_paid" "od_tenant o' = Some t"
    and "od_pk x = od_pk o'" "od_id x = ext" "od_status x = Order_paid" "od_tenant x = Some t"
  shows "settled (save_order x d) ext t"
  using assms by (auto simp: settled_def set_row_save intro!: bexI [of _ x])

lemma settled_orders: "bl_orders d = bl_orders d' \<Longrightarrow> settled d ext t = settled d' ext t"
  by (simp add: settled_def)

lemma settle_settled:
  assumes o': "o' \<in> set (bl_orders d)" "od_id o' = ext" "od_status o' = Order_paid" "od_tenant o' = Some t"
  shows "settled (snd (settle test now saved c o' u d)) ext t"
proof -
  have here: "settled d ext t" using o' by (auto simp: settled_def)
  have saves: "settled (save_order x e) ext t"
    if "bl_orders e = bl_orders d" "od_pk x = od_pk o'" "od_id x = ext" "od_status x = Order_paid" "od_tenant x = Some t" for x e
    using that o' by (intro settled_save [of o']) simp_all
  have invoiced: "settled (generate_invoice_for_payment now x u n e) ext t = settled e ext t" for x n e
    by (rule settled_orders) simp
  have cards: "bl_orders e' = bl_orders e" if "only_cards e e'" for e e' using only_cards_frame(3) [OF that] .
  have rec: "settled (snd (settle_recurring test now o' u d)) ext t"
    using here o'(1,3,4) by (auto simp: settle_recurring_def invoiced o'(2) intro!: saves split: option.splits)
  have rea: "settled (snd (settle_reactivation test now saved c o' u d)) ext t"
    using here o'(1,3,4) by (auto simp: settle_reactivation_def invoiced Let_def o'(2) intro!: saves split: option.splits
        dest!: update_or_create_card_only cards)
  have both: "bl_orders e' = bl_orders e" if "save_both_cards now u c e = Some e'" for e e'
    using that by (auto simp: save_both_cards_def set_parent_def split: option.splits dest!: upsert_kind_only cards)
  have fea: "settled (snd (settle_feature now saved c o' u d)) ext t"
    using here o'(1,3,4) by (auto simp: settle_feature_def add_selected_feature_def invoiced Let_def o'(2) intro!: saves split: option.splits
        dest!: both)
  have kard: "settled (snd (settle_card r o' d e)) ext t" if "\<And>x. e = Some x \<Longrightarrow> only_cards d x" for r e
    using here o'(1,3,4) that by (auto simp: settle_card_def o'(2) intro!: saves cards split: option.splits)
  show ?thesis
    using here rec rea fea by (auto simp: settle_def intro!: kard dest: save_card_only upsert_kind_only)
qed

text \<open>C36: when the bank has confirmed the payment of an order that has a tenant and delivers the same
  notification again, right after it was processed, the second delivery leaves the database as it is,
  however the processing of the first one ended.  With a rejection in between this fails
  (\<open>rejection_replay_free_month\<close>), and an order without a tenant gets a new date of payment by every
  delivery (\<open>tenantless_order_paid_again\<close>).\<close>

theorem webhook_settles_once:
  assumes "reachable billing_start billing_step db"
    and "wk_ext w = Some ext" "wk_bog w = Some bog" "ext \<noteq> ''''" "bog \<noteq> ''''"
    and "refuse_unconfirmed api bog = None" and "find_order db ext = Some o'" "od_tenant o' = Some t"
  shows "snd (hook_completed api2 test2 later w (snd (hook_completed api test now w db))) = snd (hook_completed api test now w db)"
proof -
  let ?d = "snd (hook_completed api test now w db)"
  have inv: "billing_inv db" using assms(1) by (rule billing.reachable_inv)
  have "billing_inv ?d"
    using kept_inv [OF kept_completed [OF inv, of api test now w "fst (hook_completed api test now w db)" ?d]] by simp
  then have ids: "distinct (map od_id (bl_orders ?d))" by (simp add: billing_inv_def)
  have o': "o' \<in> set (bl_orders db)" "od_id o' = ext" using assms(7) by (auto simp: find_order_def dest: row_get_Some)
  have "settled ?d ext t"
  proof (cases "od_status o' = Order_paid")
    case True
    then have "?d = db" using assms by (simp add: hook_completed_def)
    then show ?thesis using True o' assms(8) by (auto simp: settled_def)
  next
    case False
    define m where "m = mark_paid now bog o'"
    have m: "od_id m = ext" "od_status m = Order_paid" "od_tenant m = Some t" "m \<in> set (bl_orders (save_order m db))"
      using kept_mark_paid(2) [OF inv assms(7)] o' assms(8) by (simp_all add: m_def mark_paid_def)
    have d: "?d = snd (after_payment test now w bog ext m (save_order m db))"
      using assms False by (simp add: hook_completed_def m_def)
    show ?thesis
    proof (cases "sub_of (save_order m db) t")
      case None
      then show ?thesis unfolding d using m by (auto simp: after_payment_def settled_def)
    next
      case (Some s)
      have "settled (snd (settle test now (wk_saved w) c m t e)) ext t" if "bl_orders e = bl_orders (save_order m db)" for c e
        using m that by (intro settle_settled) simp_all
      then show ?thesis unfolding d using Some m by (auto simp: after_payment_def create_attempt_def Let_def)
    qed
  qed
  then obtain x where x: "x \<in> set (bl_orders ?d)" "od_id x = ext" "od_status x = Order_paid" "od_tenant x = Some t"
    by (auto simp: settled_def)
  then have "find_order ?d ext = Some x" unfolding find_order_def using row_get_unique [OF ids x(1)] by simp
  then show ?thesis using assms x by (simp add: hook_completed_def [of api2] split: option.splits)
qed

end
