(* ===== verification/Billing_Suspension.thy ===== *)
theory Billing_Suspension
  imports Billing_Props
begin

text \<open>
  More properties of reachable states, and the places where billing does not do what its comments
  promise: settled retries that are refused, skipped retries that suspend a paying tenant, early
  reconciliation, replayed rejections, removed cards that are still charged, and suspended tenants
  that cannot come back.

  Suspension: which subscriptions the expiry check deactivates, and that no billing step ever
  activates a tenant again, so a payment that reactivates a subscription does not bring its tenant
  back.
\<close>

subsection \<open>Cards\<close>

text \<open>C37: in every reachable state a tenant with an active card has exactly one default card, and it is
  active.\<close>

theorem one_default_card:
  assumes "reachable billing_start billing_step db" and "c \<in> set (bl_cards db)" and "kd_active c"
  shows "\<exists>!d. d \<in> set (bl_cards db) \<and> kd_tenant d = kd_tenant c \<and> kd_default d \<and> kd_active d"
proof -
  have ok: "cards_ok (bl_cards db)" using billing.reachable_inv [OF assms(1)] by (simp add: billing_inv_def)
  then obtain d where d: "d \<in> set (bl_cards db)" "kd_tenant d = kd_tenant c" "kd_default d"
    using assms(2,3) by (auto simp: cards_ok_def has_default_def)
  show ?thesis
  proof (rule ex1I [of _ d])
    show "d \<in> set (bl_cards db) \<and> kd_tenant d = kd_tenant c \<and> kd_default d \<and> kd_active d"
      using d ok by (auto simp: cards_ok_def cards_wf_def)
  next
    fix x assume "x \<in> set (bl_cards db) \<and> kd_tenant x = kd_tenant c \<and> kd_default x \<and> kd_active x"
    then show "x = d" using d ok by (auto simp: cards_ok_def cards_wf_def)
  qed
qed

text \<open>Removing the default card while another card is active makes the other one the default, but
  the subscription keeps the handle of the removed card, so renewals go on charging it.\<close>

theorem removed_card_still_charged:
  assumes "reachable billing_start billing_step db" and "active_card db t k = Some c" and "kd_default c"
    and "other_active c (bl_cards db)" and "sub_of db t = Some s" and "ts_parent s = Some (kd_parent c)"
    and "remove_saved_card now staff t (Some k) db = Inr db'"
  shows "\<exists>s'. sub_of db' t = Some s' \<and> ts_parent s' = Some (kd_parent c) \<and> active_card db' t k = None"
proof -
  have inv: "billing_inv db" using assms(1) by (rule billing.reachable_inv)
  have c: "c \<in> set (bl_cards db)" "kd_pk c = k" "kd_tenant c = t" using active_card_Some [OF assms(2)] by auto
  let ?c = "c\<lparr>kd_active := False, kd_default := False\<rparr>"
  obtain db1 where s1: "save_card ?c db = Some db1" and n: "next_default now t db1 = Some db'"
    using assms(2,3,7) by (auto simp: remove_saved_card_def split: if_splits option.splits)
  have d: "distinct (map kd_pk (bl_cards db))" using inv by (simp add: billing_inv_def cards_ok_def cards_wf_def)
  have set1: "set (bl_cards db1) = insert ?c {x \<in> set (bl_cards db). kd_pk x \<noteq> k}"
    using save_card_set(1) [OF d s1] c by (auto simp: card_after_def)
  obtain o' where "o' \<in> set (bl_cards db)" "kd_tenant o' = t" "kd_active o'" "kd_pk o' \<noteq> k"
    using assms(4) c by (auto simp: other_active_def)
  then have "o' \<in> set (filter kd_active (cards_of db1 t))" by (simp add: set1 cards_of_member)
  then have "filter kd_active (cards_of db1 t) \<noteq> []" by (metis empty_iff empty_set)
  then obtain x where x: "first_card (filter kd_active (cards_of db1 t)) = Some x"
    using first_card_None by blast
  then have s2: "save_card (x\<lparr>kd_default := True\<rparr>) db1 = Some db'" using n by (simp add: next_default_def)
  have xm: "x \<in> set (bl_cards db1)" "kd_active x" using first_card_Some [OF x] by (auto simp: cards_of_member)
  then have xk: "kd_pk x \<noteq> k" using set1 c by auto
  have "sub_of db' t = sub_of db t"
    using only_cards_frame(2) [OF save_card_only [OF s1]] only_cards_frame(2) [OF save_card_only [OF s2]] by (simp add: sub_of_def)
  moreover have d1: "distinct (map kd_pk (bl_cards db1))" by (rule save_card_set(2) [OF d s1])
  define x' where "x' = x\<lparr>kd_default := True\<rparr>"
  define new where "new = (if kd_active x' \<and> \<not> other_active x' (bl_cards db1) then x'\<lparr>kd_default := True\<rparr> else x')"
  have new: "kd_pk new = kd_pk x" by (simp add: new_def x'_def)
  have set2: "set (bl_cards db') = insert new (card_after x' ` {y \<in> set (bl_cards db1). kd_pk y \<noteq> kd_pk x})"
    using save_card_set(1) [OF d1 s2] by (simp add: new_def x'_def)
  have "\<not> kd_active y" if "y \<in> set (bl_cards db')" "kd_pk y = k" for y
    using that xk new unfolding set2 set1 by auto
  then have "active_card db' t k = None" by (auto simp: active_card_def find_None_iff)
  ultimately show ?thesis using assms(5,6) by auto
qed

subsection \<open>Retries\<close>

text \<open>A retry is charged under an order id of its own, for which no order exists: in every
  reachable state the bank's confirmed notification of a settled retry is answered 404 and changes
  nothing, so the period stays unpaid.\<close>

theorem retry_settlement_refused:
  assumes "reachable billing_start billing_step db" and "starts_with ''RETRY-'' ext"
    and "wk_ext w = Some ext" "wk_bog w = Some bog" "ext \<noteq> ''''" "bog \<noteq> ''''" and "refuse_unconfirmed api bog = None"
  shows "hook_completed api test now w db = (Hook_error 404, db)"
proof -
  have "billing_inv db" using assms(1) by (rule billing.reachable_inv)
  then have "find_order db ext = None"
    using assms(2) by (auto simp: billing_inv_def order_ok_def find_order_def row_get_None)
  then show ?thesis using assms by (simp add: hook_completed_def)
qed

text \<open>A last retry that is skipped because the period is already paid counts as exhausted: the
  subscription and the tenant are deactivated although the next billing date lies in the future.\<close>

theorem skipped_retry_suspends:
  assumes "row_get ts_pk (ts_pk s) (bl_subs db) = Some s" and "bog_tenant db (ry_tenant r)" and "paid_ahead now s"
    and "remaining_retries r db = 0" and "ry_status r = Retry_pending" and "r \<in> set (bl_retries db)" and "ts_tenant s = ry_tenant r"
    and "row_get tn_pk (ry_tenant r) (bl_tenants db) = Some t"
  shows "(\<exists>s'. row_get ts_pk (ts_pk s) (bl_subs (process_retry api now s r db)) = Some s' \<and> \<not> ts_active s' \<and> paid_ahead now s')
    \<and> (\<exists>t'. row_get tn_pk (ry_tenant r) (bl_tenants (process_retry api now s r db)) = Some t' \<and> \<not> tn_active t')"
proof -
  define r2 where "r2 = r\<lparr>ry_status := Retry_executing, ry_executed := Some now, ry_status := Retry_skipped\<rparr>"
  define db1 where "db1 = save_retry r2 (save_retry (r\<lparr>ry_status := Retry_executing, ry_executed := Some now\<rparr>) db)"
  have e: "execute_retry api now s r db = (False, db1)"
    using assms(2,3) by (simp add: execute_retry_def db1_def r2_def Let_def)
  have "remaining_retries r db1 = 0"
  proof -
    have z: "\<not> (ry_subscription x = ry_subscription r \<and> ry_status x = Retry_pending \<and> ry_number r < ry_number x)"
      if "x \<in> set (bl_retries db)" for x
      using assms(4) that by (auto simp: remaining_retries_def filter_empty_conv)
    have "x = r2 \<or> x = r\<lparr>ry_status := Retry_executing, ry_executed := Some now\<rparr> \<or> x \<in> set (bl_retries db)"
      if "x \<in> set (bl_retries db1)" for x
      using that by (auto simp: db1_def set_row_save split: if_splits)
    then show ?thesis using z by (fastforce simp: remaining_retries_def filter_empty_conv r2_def)
  qed
  then have p: "process_retry api now s r db = suspend_subscription_for_payment_failure now s db1"
    by (simp add: process_retry_def e)
  have subs: "bl_subs db1 = bl_subs db" "bl_tenants db1 = bl_tenants db" by (simp_all add: db1_def)
  have "ts_pk s \<in> ts_pk ` set (bl_subs db)" using row_get_Some [OF assms(1)] by (metis image_eqI)
  moreover have "ry_tenant r \<in> tn_pk ` set (bl_tenants db)" "tn_pk t = ry_tenant r" using row_get_Some [OF assms(8)] by force+
  ultimately show ?thesis
    unfolding p suspend_subscription_for_payment_failure_def Let_def using assms(3,7,8)
    by (auto simp: subs row_get_save save_tenant_def paid_ahead_def split: option.splits)
qed

subsection \<open>Reconciliation\<close>

lemma save_order_found:
  assumes "distinct (map od_pk (bl_orders db))" "distinct (map od_id (bl_orders db))" "x \<in> set (bl_orders db)"
    and "od_pk y = od_pk x" "od_id y = od_id x"
  shows "find_order (save_order y db) (od_id x) = Some y"
proof -
  have "map od_id (row_save od_pk y (bl_orders db)) = map od_id (bl_orders db)"
    using assms by (intro map_row_save_same [of _ _ x]) simp_all
  moreover have "y \<in> set (row_save od_pk y (bl_orders db))" using assms(3,4) by (auto simp: set_row_save)
  ultimately have "row_get od_id (od_id y) (row_save od_pk y (bl_orders db)) = Some y"
    using assms(2) by (intro row_get_unique) simp_all
  then show ?thesis by (simp add: find_order_def assms(5))
qed

text \<open>A renewal is charged up to three days before the billing date.  When the reconciliation finds
  it settled before that date, the order becomes paid but no date of the subscription moves: the
  paid month is lost.\<close>

theorem early_reconciliation_loses_month:
  assumes "reachable billing_start billing_step db" and "o' \<in> set (bl_orders db)" and "od_status o' = Order_pending"
    and "order_sub o' db = Some s" and "paid_ahead now s"
  shows "bl_subs (settle_paid test now False o' db) = bl_subs db
    \<and> (\<exists>x. find_order (settle_paid test now False o' db) (od_id o') = Some x \<and> od_status x = Order_paid)"
proof -
  have inv: "billing_inv db" using assms(1) by (rule billing.reachable_inv)
  have g: "row_get od_pk (od_pk o') (bl_orders db) = Some o'"
    using inv assms(2) by (intro row_get_unique) (simp_all add: billing_inv_def)
  define x where "x = o'\<lparr>od_status := Order_paid, od_paid_at := Some now\<rparr>"
  have d: "settle_paid test now False o' db = close_attempts now (ts_pk s) (save_order x db)"
    using assms g by (simp add: settle_paid_def advance_billing_def x_def Let_def)
  have "find_order (save_order x db) (od_id o') = Some x"
    using inv assms(2) by (intro save_order_found) (simp_all add: billing_inv_def x_def)
  moreover have "bl_orders (close_attempts now k e) = bl_orders e" for k e by simp
  ultimately show ?thesis by (auto simp: d find_order_def x_def)
qed

subsection \<open>Forged rejections\<close>

lemma sub_of_save:
  assumes "distinct (map ts_tenant (bl_subs db))" "distinct (map ts_pk (bl_subs db))" "s \<in> set (bl_subs db)"
    and "ts_pk s' = ts_pk s" "ts_tenant s' = ts_tenant s"
  shows "sub_of (save_sub now s' db) (ts_tenant s) = Some s'"
proof -
  have "map ts_tenant (row_save ts_pk s' (bl_subs db)) = map ts_tenant (bl_subs db)"
    using assms by (intro map_row_save_same [of _ _ s]) simp_all
  moreover have "s' \<in> set (row_save ts_pk s' (bl_subs db))" using assms(3,4) by (auto simp: set_row_save)
  ultimately have "row_get ts_tenant (ts_tenant s') (row_save ts_pk s' (bl_subs db)) = Some s'"
    using assms(1) by (intro row_get_unique) simp_all
  then show ?thesis by (simp add: sub_of_def row_get_def assms(5))
qed

lemma row_save_again: "k x = k y \<Longrightarrow> row_save k x (row_save k y xs) = row_save k x xs"
  by (simp add: row_save_def)

lemma rejected_effect:
  assumes "find_order db ext = Some o'" and "od_tenant o' = Some t" and "sub_of db t = Some s"
    and "wk_ext w = Some ext" "wk_bog w = Some bog"
  shows "\<exists>s2. ts_pk s2 = ts_pk s \<and> ts_tenant s2 = ts_tenant s \<and> ts_next_billing s2 = ts_next_billing s
    \<and> bl_subs (snd (hook_rejected now w db)) = row_save ts_pk s2 (bl_subs db)
    \<and> bl_orders (snd (hook_rejected now w db)) = row_save od_pk (o'\<lparr>od_status := Order_failed, od_bog := Some bog\<rparr>) (bl_orders db)
    \<and> bl_charges (snd (hook_rejected now w db)) = bl_charges db"
proof -
  define o1 where "o1 = o'\<lparr>od_status := Order_failed, od_bog := Some bog\<rparr>"
  have s: "sub_of (save_order o1 db) t = Some s" using assms(3) by (simp add: sub_of_def)
  show ?thesis
  proof (cases "text_given (ts_parent s)")
    case False
    show ?thesis
      by (rule exI [of _ "mark_payment_failed now (s\<lparr>ts_health := Health_failed\<rparr>)"])
        (use False assms s in \<open>simp add: hook_rejected_def Let_def o1_def mark_payment_failed_def create_attempt_def\<close>)
  next
    case True
    define d where "d = log_event s Ev_payment_failed (Some (od_pk o1)) (Some (next_pk pa_pk (bl_attempts (save_order o1 db))))
      (snd (create_attempt \<lparr>pa_pk = 0, pa_order = od_pk o1, pa_subscription = Some (ts_pk s), pa_tenant = ts_tenant s,
         pa_number = 1, pa_status = Attempt_failed, pa_bog = bog, pa_amount = od_amount o1, pa_retry = False, pa_parent = None\<rparr>
         (save_order o1 db)))"
    define r where "r = schedule_payment_retries now o1 (next_pk pa_pk (bl_attempts (save_order o1 db))) s d"
    have e: "snd (hook_rejected now w db) = save_sub now (mark_payment_failed now (fst r)) (snd r)"
      using True assms s unfolding r_def d_def
      by (simp add: hook_rejected_def Let_def o1_def create_attempt_def split: prod.splits)
    have r: "ts_pk (fst r) = ts_pk s \<and> ts_tenant (fst r) = ts_tenant s \<and> ts_next_billing (fst r) = ts_next_billing s
      \<and> (bl_subs (snd r) = bl_subs d \<or> bl_subs (snd r) = row_save ts_pk (fst r) (bl_subs d)) \<and> bl_orders (snd r) = bl_orders d
      \<and> bl_charges (snd r) = bl_charges d"
      by (simp add: r_def schedule_payment_retries_def Let_def mark_payment_failed_def)
    have d: "bl_subs d = bl_subs db" "bl_orders d = row_save od_pk o1 (bl_orders db)" "bl_charges d = bl_charges db"
      by (simp_all add: d_def)
    show ?thesis
      by (rule exI [of _ "mark_payment_failed now (fst r)"])
        (use r d in \<open>auto simp: e mark_payment_failed_def o1_def [symmetric] row_save_again\<close>)
  qed
qed

text \<open>C39: the endpoint believes a rejection without asking the bank.  A rejection of an order that is
  already paid and settled makes it payable again: when the bank's confirmation is delivered a second
  time the subscription advances by at least one more interval, with no further charge.\<close>

theorem rejection_replay_free_month:
  assumes "reachable billing_start billing_step db" and "find_order db ext = Some o'" and "od_tenant o' = Some t"
    and "od_kind o' = Some ''recurring''" "od_subscription o' = Some (ts_pk s)" and "sub_of db t = Some s" "ts_next_billing s = Some d"
    and "wk_ext w = Some ext" "wk_bog w = Some bog" "ext \<noteq> ''''" "bog \<noteq> ''''" and "refuse_unconfirmed api bog = None"
  shows "let after = snd (hook_completed api test now w (snd (hook_rejected now w db)))
    in bl_charges after = bl_charges db
       \<and> (\<exists>s' d'. sub_of after t = Some s' \<and> ts_next_billing s' = Some d' \<and> d + billing_interval test \<le> d')"
proof -
  define after where "after = snd (hook_completed api test now w (snd (hook_rejected now w db)))"
  have inv: "billing_inv db" using assms(1) by (rule billing.reachable_inv)
  have o': "o' \<in> set (bl_orders db)" "od_id o' = ext" using assms(2) by (auto simp: find_order_def dest: row_get_Some)
  have sm: "s \<in> set (bl_subs db)" "ts_tenant s = t" using assms(6) by (auto simp: sub_of_def find_Some_iff)
  define e where "e = snd (hook_rejected now w db)"
  obtain s2 where s2: "ts_pk s2 = ts_pk s" "ts_tenant s2 = t" "ts_next_billing s2 = Some d"
    and subs: "bl_subs e = row_save ts_pk s2 (bl_subs db)"
    and orders: "bl_orders e = row_save od_pk (o'\<lparr>od_status := Order_failed, od_bog := Some bog\<rparr>) (bl_orders db)"
    and charges: "bl_charges e = bl_charges db"
    using rejected_effect [OF assms(2,3,6,8,9), of now] sm assms(7) unfolding e_def by auto
  have "find_order e ext = Some (o'\<lparr>od_status := Order_failed, od_bog := Some bog\<rparr>)"
    using save_order_found [of db o' "o'\<lparr>od_status := Order_failed, od_bog := Some bog\<rparr>"] inv o'
    by (simp add: billing_inv_def find_order_def orders save_order_def)
  moreover define m where "m = mark_paid now bog (o'\<lparr>od_status := Order_failed, od_bog := Some bog\<rparr>)"
  ultimately have after: "after = snd (after_payment test now w bog ext m (save_order m e))"
    using assms by (simp add: after_def e_def hook_completed_def)
  have ids: "distinct (map ts_tenant (bl_subs db))" "distinct (map ts_pk (bl_subs db))" using inv by (auto simp: billing_inv_def)
  have keys: "map ts_tenant (row_save ts_pk x (bl_subs db)) = map ts_tenant (bl_subs db)"
     "map ts_pk (row_save ts_pk x (bl_subs db)) = map ts_pk (bl_subs db)" if "ts_pk x = ts_pk s" "ts_tenant x = t" for x
    using that sm ids by (intro map_row_save_same [of _ _ s]; simp)+
  have found: "find (\<lambda>y. ts_tenant y = t) (row_save ts_pk x (bl_subs db)) = Some x"
    "row_get ts_pk (ts_pk s) (row_save ts_pk x (bl_subs db)) = Some x" if x: "ts_pk x = ts_pk s" "ts_tenant x = t" for x
  proof -
    have xm: "x \<in> set (row_save ts_pk x (bl_subs db))" using x sm by (auto simp: set_row_save)
    then have "row_get ts_tenant t (row_save ts_pk x (bl_subs db)) = Some x"
      using row_get_unique [of ts_tenant "row_save ts_pk x (bl_subs db)" x] keys [OF x] ids x by simp
    then show "find (\<lambda>y. ts_tenant y = t) (row_save ts_pk x (bl_subs db)) = Some x" by (simp add: row_get_def)
    show "row_get ts_pk (ts_pk s) (row_save ts_pk x (bl_subs db)) = Some x"
      using row_get_unique [of ts_pk "row_save ts_pk x (bl_subs db)" x] xm keys [OF x] ids x by simp
  qed
  have "order_ok o'" using inv o' by (auto simp: billing_inv_def)
  then have nr: "\<not> starts_with ''RETRY-'' ext" using o' by (simp add: order_ok_def)
  have m: "od_tenant m = Some t" "od_kind m = Some ''recurring''" "od_subscription m = Some (ts_pk s)"
    using assms(3-5) by (simp_all add: m_def mark_paid_def)
  have "sub_of (save_order m e) t = Some s2" using found(1) [of s2] s2 by (simp add: sub_of_def subs)
  then have a: "bl_subs after = row_save ts_pk (renew test now s2) (bl_subs db)" "bl_charges after = bl_charges db"
    unfolding after using m nr s2 charges found(2) [of s2]
    by (simp_all add: after_payment_def settle_def settle_recurring_def subs row_save_again renew_def Let_def split: prod.splits)
      (simp_all add: create_attempt_def Let_def subs row_save_again renew_def)
  have s': "sub_of after t = Some (renew test now s2)"
    using found(1) [of "renew test now s2"] s2 by (simp add: sub_of_def a renew_def Let_def)
  have "d + billing_interval test \<le> next_anchor test now (Some d)"
    using catch_up_grid [of now test "d + billing_interval test"] billing_interval_pos [of test] by (auto simp: next_anchor_def)
  then show ?thesis using s' a(2) s2 unfolding after_def [symmetric] Let_def by (simp add: renew_def Let_def)
qed

section \<open>Suspension\<close>

subsection \<open>Tenants that are off\<close>

definition tenant_off :: "billing_db \<Rightarrow> pk \<Rightarrow> bool" where
  "tenant_off db t \<longleftrightarrow> (\<forall>x \<in> set (bl_tenants db). tn_pk x = t \<longrightarrow> \<not> tn_active x)"

text \<open>A step that turns tenants off at most.\<close>

definition only_suspends :: "billing_db \<Rightarrow> billing_db \<Rightarrow> bool" where
  "only_suspends db db' \<longleftrightarrow> (\<forall>t. tenant_off db t \<longrightarrow> tenant_off db' t)"

lemma same_tenants: "bl_tenants db' = bl_tenants db \<Longrightarrow> only_suspends db db'"
  by (simp add: only_suspends_def tenant_off_def)

lemma only_suspends_trans: "only_suspends a b \<Longrightarrow> only_suspends b c \<Longrightarrow> only_suspends a c"
  by (simp add: only_suspends_def)

lemma only_suspends_fold: "(\<And>x d. only_suspends d (f x d)) \<Longrightarrow> only_suspends db (fold f xs db)"
proof (induction xs arbitrary: db)
  case Nil
  show ?case by (simp add: same_tenants)
next
  case (Cons x xs)
  have "only_suspends (f x db) (fold f xs (f x db))" by (rule Cons.IH [OF Cons.prems])
  then show ?case using only_suspends_trans [OF Cons.prems] by simp
qed

lemma same_tenants_fold: "(\<And>x d. bl_tenants (f x d) = bl_tenants d) \<Longrightarrow> bl_tenants (fold f xs db) = bl_tenants db"
  by (induction xs arbitrary: db) simp_all

lemma save_tenant_off: "\<not> tn_active x \<Longrightarrow> only_suspends db (save_tenant x db)"
  by (auto simp: only_suspends_def tenant_off_def save_tenant_def set_row_save)

lemma same_tenants_then:
  assumes "only_suspends db d" and "bl_tenants d' = bl_tenants d"
  shows "only_suspends db d'"
  using only_suspends_trans [OF assms(1) same_tenants [OF assms(2)]] .

lemma suspend_expired_off: "only_suspends db (suspend_expired now s db)"
proof (cases "tenant_row db (ts_tenant s)")
  case None
  then show ?thesis by (intro same_tenants) (simp add: suspend_expired_def)
next
  case (Some t)
  show ?thesis
    by (rule same_tenants_then [OF save_tenant_off [of "t\<lparr>tn_active := False\<rparr>"]]) (simp_all add: suspend_expired_def Some)
qed

lemma suspend_failed_off: "only_suspends db (suspend_subscription_for_payment_failure now s db)"
proof (cases "row_get tn_pk (ts_tenant s) (bl_tenants db)")
  case None
  then show ?thesis by (intro same_tenants) (simp add: suspend_subscription_for_payment_failure_def Let_def)
next
  case (Some t)
  show ?thesis
    by (rule same_tenants_then [OF save_tenant_off [of "t\<lparr>tn_active := False\<rparr>"]])
      (simp_all add: suspend_subscription_for_payment_failure_def Let_def Some save_tenant_def)
qed

subsection \<open>Operations that leave the tenants alone\<close>

lemma set_parent_tenants [simp]: "bl_tenants (set_parent now t p db) = bl_tenants db"
  by (simp add: set_parent_def split: option.splits)

lemma only_cards_tenants: "only_cards db db' \<Longrightarrow> bl_tenants db' = bl_tenants db"
  by (rule only_cards_frame)

lemma create_order_tenants: "create_payment_order o' db = Some (o1, db') \<Longrightarrow> bl_tenants db' = bl_tenants db"
  using create_order_row by fastforce

lemma settle_tenants: "bl_tenants (snd (settle test now saved c o' t d)) = bl_tenants d"
proof -
  have both: "bl_tenants e' = bl_tenants e" if "save_both_cards now t c e = Some e'" for e e'
    using that by (auto simp: save_both_cards_def split: option.splits dest!: upsert_kind_only only_cards_tenants)
  have rec: "bl_tenants (snd (settle_recurring test now o' t d)) = bl_tenants d"
    by (simp add: settle_recurring_def split: option.splits)
  have rea: "bl_tenants (snd (settle_reactivation test now saved c o' t d)) = bl_tenants d"
    by (auto simp: settle_reactivation_def Let_def split: option.splits dest!: update_or_create_card_only only_cards_tenants)
  have fea: "bl_tenants (snd (settle_feature now saved c o' t d)) = bl_tenants d"
    by (auto simp: settle_feature_def add_selected_feature_def Let_def split: option.splits dest!: both)
  have kard: "bl_tenants (snd (settle_card r o' d e)) = bl_tenants d" if "\<And>x. e = Some x \<Longrightarrow> only_cards d x" for r e
    using that by (auto simp: settle_card_def split: option.splits dest: only_cards_tenants)
  show ?thesis using rec rea fea by (auto simp: settle_def intro!: kard dest: save_card_only upsert_kind_only)
qed

lemma settle_retry_tenants: "bl_tenants (settle_retry now ext o' a s d) = bl_tenants d"
  by (simp add: settle_retry_def Let_def split: option.splits)

lemma completed_tenants: "bl_tenants (snd (hook_completed api test now w db)) = bl_tenants db"
  by (auto simp: hook_completed_def after_payment_def settle_tenants settle_retry_tenants create_attempt_def Let_def
      split: option.splits)

lemma rejected_tenants: "bl_tenants (snd (hook_rejected now w db)) = bl_tenants db"
  by (auto simp: hook_rejected_def schedule_payment_retries_def create_attempt_def Let_def split: option.splits prod.splits)

lemma webhook_tenants: "bl_tenants (snd (bog_webhook api test now w db)) = bl_tenants db"
  by (simp add: bog_webhook_def completed_tenants rejected_tenants)

lemma charge_renewal_tenants: "bl_tenants (charge_renewal api now dry hex s d) = bl_tenants d"
  by (auto simp: charge_renewal_def Let_def split: option.splits dest: create_order_tenants)

lemma expire_trial_tenants: "bl_tenants (expire_trial api now dry hex s d) = bl_tenants d"
  by (auto simp: expire_trial_def Let_def split: option.splits dest: create_order_tenants)

lemma reconcile_tenants: "bl_tenants (reconcile_order api test now dry o' d) = bl_tenants d"
  by (auto simp: reconcile_order_def settle_paid_def set_order_status_def advance_billing_def Let_def split: option.splits)

lemma execute_retry_tenants: "bl_tenants (snd (execute_retry api now s r d)) = bl_tenants d"
  by (auto simp: execute_retry_def record_retry_def create_attempt_def Let_def split: option.splits)

lemma process_retry_off: "only_suspends d (process_retry api now s r d)"
proof -
  obtain ok d1 where e: "execute_retry api now s r d = (ok, d1)" by fastforce
  then have "only_suspends d d1" using execute_retry_tenants [of api now s r d] by (intro same_tenants) simp
  then show ?thesis using only_suspends_trans [OF _ suspend_failed_off] by (simp add: process_retry_def e)
qed

lemma card_endpoints_tenants:
  "remove_saved_card now staff t k db = Inr db' \<Longrightarrow> bl_tenants db' = bl_tenants db"
  "set_default_card now staff t k db = Inr db' \<Longrightarrow> bl_tenants db' = bl_tenants db"
proof -
  have nd: "bl_tenants d' = bl_tenants d" if "next_default now t d = Some d'" for d d'
    using next_default_rest [OF that] by (auto dest: only_cards_tenants)
  show "remove_saved_card now staff t k db = Inr db' \<Longrightarrow> bl_tenants db' = bl_tenants db"
    by (auto simp: remove_saved_card_def split: if_splits option.splits dest!: nd save_card_only only_cards_tenants)
  show "set_default_card now staff t k db = Inr db' \<Longrightarrow> bl_tenants db' = bl_tenants db"
    by (auto simp: set_default_card_def split: if_splits option.splits dest!: save_card_only only_cards_tenants)
qed

lemma subscription_endpoints_tenants:
  "reactivate_subscription_payment api now hex u t db = Inr (o', db') \<Longrightarrow> bl_tenants db' = bl_tenants db"
  "cancel_subscription now u t db = Inr db' \<Longrightarrow> bl_tenants db' = bl_tenants db"
  "add_feature_to_subscription now u t f charge db = Inr db' \<Longrightarrow> bl_tenants db' = bl_tenants db"
  "remove_feature_from_subscription now u t f db = Inr db' \<Longrightarrow> bl_tenants db' = bl_tenants db"
  "update_agent_count now u t n db = Inr db' \<Longrightarrow> bl_tenants db' = bl_tenants db"
  by (auto simp: reactivate_subscription_payment_def cancel_subscription_def add_feature_to_subscription_def
      remove_feature_from_subscription_def update_agent_count_def Let_def
      split: if_splits option.splits dest: create_order_tenants)

lemma step_only_suspends:
  assumes "billing_step db db'"
  shows "only_suspends db db'"
  using assms
proof cases
  case (expiry now grace)
  then show ?thesis by (auto simp: check_subscription_status_def intro: only_suspends_fold suspend_expired_off)
next
  case (retries api now dry)
  then show ?thesis
    by (auto simp: process_payment_retries_def intro!: only_suspends_fold same_tenants [of db db]
        split: option.splits intro: process_retry_off same_tenants)
qed (auto intro!: same_tenants dest: card_endpoints_tenants subscription_endpoints_tenants
      simp: webhook_tenants process_recurring_payments_def process_trial_expirations_def reconcile_pending_payments_def
        charge_renewal_tenants expire_trial_tenants reconcile_tenants same_tenants_fold)

subsection \<open>Properties\<close>

text \<open>No command, webhook or endpoint of billing activates a tenant: once a tenant has been suspended
  it is off in every later state, also after the payment that reactivates its subscription.\<close>

theorem suspended_tenant_stays_off:
  assumes "reachable (\<lambda>d. d = db) billing_step db'" and "tenant_off db t"
  shows "tenant_off db' t"
  using assms(1)
proof induction
  case (start s)
  then show ?case using assms(2) by simp
next
  case (next_step s s')
  then show ?case using step_only_suspends [of s s'] by (simp add: only_suspends_def)
qed

lemma suspend_expired_subs: "bl_subs (suspend_expired now s d) = row_save ts_pk (s\<lparr>ts_active := False\<rparr>) (bl_subs d)"
  by (simp add: suspend_expired_def Let_def split: option.splits)

lemma suspend_expired_keys: "ts_pk ` set (bl_subs (suspend_expired now s d)) = ts_pk ` set (bl_subs d)"
  unfolding suspend_expired_subs by (metis image_set map_key_row_save)

lemma suspend_expired_get:
  assumes "distinct (map ts_pk xs)" and "ts_pk ` set xs \<subseteq> ts_pk ` set (bl_subs d)"
  shows "row_get ts_pk k (bl_subs (fold (suspend_expired now) xs d)) =
     (case row_get ts_pk k xs of Some s \<Rightarrow> Some (s\<lparr>ts_active := False\<rparr>) | None \<Rightarrow> row_get ts_pk k (bl_subs d))"
  using assms
proof (induction xs arbitrary: d)
  case Nil
  show ?case by (simp add: row_get_def)
next
  case (Cons x xs)
  let ?d = "suspend_expired now x d"
  have "row_get ts_pk k (bl_subs (fold (suspend_expired now) xs ?d)) =
     (case row_get ts_pk k xs of Some s \<Rightarrow> Some (s\<lparr>ts_active := False\<rparr>) | None \<Rightarrow> row_get ts_pk k (bl_subs ?d))"
    using Cons.prems by (intro Cons.IH) (simp_all add: suspend_expired_keys)
  moreover have "row_get ts_pk (ts_pk x) xs = None" using Cons.prems(1) by (auto simp: row_get_None)
  moreover have "row_get ts_pk k (x # xs) = (if ts_pk x = k then Some x else row_get ts_pk k xs)" by (simp add: row_get_def)
  ultimately show ?case using Cons.prems(2) by (auto simp: suspend_expired_subs row_get_save split: option.splits)
qed

text \<open>The daily check deactivates exactly the active subscriptions of active, not exempt tenants that
  expired more than the grace period ago, and changes nothing else of any subscription.\<close>

theorem expiry_check_exact:
  assumes "distinct (map ts_pk (bl_subs db))" and "s \<in> set (bl_subs db)"
  shows "row_get ts_pk (ts_pk s) (bl_subs (check_subscription_status now grace db)) =
    Some (if past_grace now grace db s then s\<lparr>ts_active := False\<rparr> else s)"
proof -
  have only: "x = s" if "x \<in> set (bl_subs db)" "ts_pk x = ts_pk s" for x
    using assms that by (auto simp: distinct_map inj_on_def)
  let ?xs = "filter (past_grace now grace db) (bl_subs db)"
  have s: "row_get ts_pk (ts_pk s) (bl_subs db) = Some s" using row_get_unique assms .
  have "row_get ts_pk (ts_pk s) ?xs = (if past_grace now grace db s then Some s else None)"
  proof (cases "past_grace now grace db s")
    case True
    have "distinct (map ts_pk ?xs)" using assms(1) by (rule distinct_map_filter)
    then show ?thesis using True row_get_unique [of ts_pk ?xs s] assms(2) by simp
  next
    case False
    then show ?thesis using only by (auto simp: row_get_None)
  qed
  then show ?thesis
    unfolding check_subscription_status_def using s assms(1)
    by (subst suspend_expired_get) (auto simp: distinct_map_filter)
qed

end
