(* ===== verification/Billing_Sample.thy ===== *)
theory Billing_Sample
  imports Billing_Suspension
begin

text \<open>
  A salon (tenant 7) with a subscription that is paid until day 30, two saved cards and a bank that
  accepts every charge and confirms every order, and the properties of billing applied to it.
\<close>

subsection \<open>The salon and its bank\<close>

definition day :: "int \<Rightarrow> datetime" where
  "day n = n * us_per_day"

definition good_bank :: charge_api where
  "good_bank = \<lparr>cg_configured = True, cg_token = True, cg_subscribe = (\<lambda>p e. Answer 200 (''B-'' @ e)),
     cg_recurrent = (\<lambda>p a e. Answer 200 (''B-'' @ e)), cg_create = (\<lambda>e a. Answer 200 (''B-'' @ e)),
     cg_receipt = (\<lambda>_. Answer 200 \<lparr>cr_order_status = Some ''completed'', cr_code = Some ''100''\<rparr>)\<rparr>"

definition salon_sub :: subscription where
  "salon_sub = \<lparr>ts_pk = 3, ts_tenant = 7, ts_features = [1], ts_agents = 2, ts_active = True, ts_users = 2,
     ts_expires = Some (day 30), ts_last_billed = Some (day 0), ts_next_billing = Some (day 30),
     ts_trial = False, ts_trial_ends = None, ts_converted = False, ts_parent = Some ''BOG1'',
     ts_health = Health_current, ts_last_failure = None, ts_failures = 0, ts_paid_type = True\<rparr>"

definition card_one :: saved_card where
  "card_one = \<lparr>kd_pk = 1, kd_tenant = 7, kd_parent = ''BOG1'', kd_kind = Card_subscription, kd_masked = ''1111'',
     kd_saved_at = 0, kd_active = True, kd_default = True\<rparr>"

definition card_two :: saved_card where
  "card_two = \<lparr>kd_pk = 2, kd_tenant = 7, kd_parent = ''BOG2'', kd_kind = Card_subscription, kd_masked = ''2222'',
     kd_saved_at = 5, kd_active = True, kd_default = False\<rparr>"

definition salon :: billing_db where
  "salon = \<lparr>bl_tenants = [\<lparr>tn_pk = 7, tn_schema = ''salon'', tn_active = True, tn_provider = ''bog''\<rparr>],
     bl_subs = [salon_sub], bl_orders = [], bl_invoices = [], bl_attempts = [], bl_retries = [], bl_events = [],
     bl_cards = [card_one, card_two], bl_features = catalogue, bl_charges = []\<rparr>"

text \<open>A notification about the renewal, as the bank would send it.\<close>

definition notice :: "string \<Rightarrow> string \<Rightarrow> string \<Rightarrow> webhook" where
  "notice ext status code = \<lparr>wk_event = ''order_payment'', wk_bog = Some (''B-'' @ ext), wk_ext = Some ext,
     wk_status = status, wk_code = code, wk_saved = False, wk_masked = ''1111''\<rparr>"

text \<open>On day 28 the renewal is charged; a rejection may follow, or the confirmation.\<close>

definition renewed :: billing_db where
  "renewed = process_recurring_payments good_bank (day 28) False 3 (\<lambda>_. ''a'') False salon"

definition paid :: billing_db where
  "paid = snd (bog_webhook good_bank False (day 29) (notice ''REC-a'' ''completed'' ''100'') renewed)"

definition refused :: billing_db where
  "refused = snd (bog_webhook good_bank False (day 28) (notice ''REC-a'' ''rejected'' ''107'') renewed)"

text \<open>The first retry is skipped, as the paid period runs until day 30; the second is charged.\<close>

definition retried :: billing_db where
  "retried = process_payment_retries good_bank (day 31) False (process_payment_retries good_bank (day 29) False refused)"

definition recovered :: billing_db where
  "recovered = snd (bog_webhook good_bank False (day 29) (notice ''REC-a'' ''completed'' ''100'') refused)"

lemma salon_start: "billing_start salon"
proof -
  have "cards_ok (bl_cards salon)"
    by (auto simp: salon_def cards_ok_def cards_wf_def has_default_def card_one_def card_two_def)
  then show ?thesis using catalogue_start by (simp add: billing_start_def salon_def)
qed

lemma salon_reachable: "reachable billing_start billing_step salon"
  using salon_start by (rule reachable.start)

lemma renewed_reachable: "reachable billing_start billing_step renewed"
  unfolding renewed_def by (rule reachable.next_step [OF salon_reachable billing_step.renewals])

lemma paid_reachable: "reachable billing_start billing_step paid"
  unfolding paid_def by (rule reachable.next_step [OF renewed_reachable billing_step.webhook])

lemma refused_reachable: "reachable billing_start billing_step refused"
  unfolding refused_def by (rule reachable.next_step [OF renewed_reachable billing_step.webhook])

lemma retried_reachable: "reachable billing_start billing_step retried"
  unfolding retried_def
  by (rule reachable.next_step [OF reachable.next_step [OF refused_reachable billing_step.retries] billing_step.retries])

lemma renewed_order: "find_order renewed ''REC-a'' = Some ((blank_order (day 28) ''REC-a'' (Some ''B-REC-a'') (Some 7) 10 2)
    \<lparr>od_pk := 1, od_kind := Some ''recurring'', od_subscription := Some 3\<rparr>)"
  by code_simp

lemma confirmed: "refuse_unconfirmed good_bank x = None" by (simp add: refuse_unconfirmed_def receipt_of_def good_bank_def) code_simp

subsection \<open>The properties on the salon\<close>

definition renewed_sub :: "datetime \<Rightarrow> datetime \<Rightarrow> subscription" where
  "renewed_sub billed upcoming = salon_sub\<lparr>ts_last_billed := Some billed, ts_expires := Some upcoming, ts_next_billing := Some upcoming\<rparr>"

text \<open>A second run of the command a day later charges nothing, although no webhook has arrived.\<close>

theorem renewals_charge_once_witness:
  "tenant_charges 7 (process_recurring_payments good_bank (day 29) False 3 (\<lambda>_. ''b'') False renewed) = tenant_charges 7 renewed
   \<and> length (tenant_charges 7 renewed) = 1"
proof -
  have d: "distinct (map ts_tenant (bl_subs renewed))" by code_simp
  have "recent_charge (day 29) 7 renewed" by code_simp
  moreover have "length (tenant_charges 7 renewed) = 1" by code_simp
  ultimately show ?thesis
    using renewals_charge_once [OF d, of 7 good_bank "day 29" False 3 "\<lambda>_. ''b''" False] by auto
qed

theorem webhook_settles_once_witness:
  "snd (hook_completed good_bank True (day 77) (notice ''REC-a'' ''completed'' ''100'')
       (snd (hook_completed good_bank False (day 29) (notice ''REC-a'' ''completed'' ''100'') renewed)))
     = snd (hook_completed good_bank False (day 29) (notice ''REC-a'' ''completed'' ''100'') renewed)
   \<and> sub_of (snd (hook_completed good_bank False (day 29) (notice ''REC-a'' ''completed'' ''100'') renewed)) 7
     = Some (renewed_sub (day 29) (day 60))"
proof -
  have "sub_of (snd (hook_completed good_bank False (day 29) (notice ''REC-a'' ''completed'' ''100'') renewed)) 7
     = Some (renewed_sub (day 29) (day 60))" by code_simp
  then show ?thesis
    using webhook_settles_once [OF renewed_reachable, of "notice ''REC-a'' ''completed'' ''100''" "''REC-a''" "''B-REC-a''"
        good_bank "the (find_order renewed ''REC-a'')" 7 good_bank True "day 77" False "day 29"]
    by (simp add: renewed_order confirmed notice_def blank_order_def)
qed

theorem one_default_card_witness: "\<exists>!d. d \<in> set (bl_cards salon) \<and> kd_tenant d = 7 \<and> kd_default d \<and> kd_active d"
  using one_default_card [OF salon_reachable, of card_two] by (simp add: salon_def card_two_def)

theorem removed_card_still_charged_witness:
  "\<exists>db' s'. remove_saved_card (day 1) True 7 (Some 1) salon = Inr db' \<and> sub_of db' 7 = Some s'
     \<and> ts_parent s' = Some ''BOG1'' \<and> active_card db' 7 1 = None"
proof -
  have a: "active_card salon 7 1 = Some card_one" by code_simp
  have s: "sub_of salon 7 = Some salon_sub" by code_simp
  have o': "other_active card_one (bl_cards salon)" by code_simp
  have "isl (remove_saved_card (day 1) True 7 (Some 1) salon) = False" by code_simp
  then obtain db' where r: "remove_saved_card (day 1) True 7 (Some 1) salon = Inr db'"
    by (cases "remove_saved_card (day 1) True 7 (Some 1) salon") auto
  show ?thesis
    using removed_card_still_charged [OF salon_reachable a _ o' s _ r] r by (auto simp: card_one_def salon_sub_def)
qed

theorem retry_settlement_refused_witness:
  "hook_completed good_bank False (day 31) (notice ''RETRY-2-REC-a'' ''completed'' ''100'') retried = (Hook_error 404, retried)
   \<and> map bc_order (bl_charges retried) = [''REC-a'', ''RETRY-2-REC-a'']"
proof -
  have "map bc_order (bl_charges retried) = [''REC-a'', ''RETRY-2-REC-a'']" by code_simp
  then show ?thesis
    using retry_settlement_refused [OF retried_reachable, of "''RETRY-2-REC-a''" "notice ''RETRY-2-REC-a'' ''completed'' ''100''"
        "''B-RETRY-2-REC-a''" good_bank False "day 31"]
    by (simp add: confirmed notice_def starts_with_def)
qed

text \<open>
  The retry of day 31 has no order, so the renewal of day 32 does not see it: the rejected renewal
  order does not count, and the salon is charged again.
\<close>

theorem retried_renewal_charged_again:
  "reachable billing_start billing_step retried
   \<and> map (\<lambda>c. (bc_order c, bc_at c)) (tenant_charges 7 retried) = [(''REC-a'', day 28), (''RETRY-2-REC-a'', day 31)]
   \<and> map (\<lambda>c. (bc_order c, bc_at c)) (tenant_charges 7
        (process_recurring_payments good_bank (day 32) False 3 (\<lambda>_. ''b'') False retried))
      = [(''REC-a'', day 28), (''RETRY-2-REC-a'', day 31), (''REC-b'', day 32)]"
proof (intro conjI)
  show "reachable billing_start billing_step retried" by (rule retried_reachable)
qed code_simp+

text \<open>An order of a registration has no tenant; every delivery of its confirmation is processed again.\<close>

definition registering :: billing_db where
  "registering = salon\<lparr>bl_orders := [(blank_order (day 1) ''REG-a'' (Some ''B-REG-a'') None 10 2)\<lparr>od_pk := 1\<rparr>]\<rparr>"

theorem tenantless_order_paid_again:
  "billing_start registering
   \<and> map od_paid_at (bl_orders (snd (hook_completed good_bank False (day 2) (notice ''REG-a'' ''completed'' ''100'') registering)))
      = [Some (day 2)]
   \<and> map od_paid_at (bl_orders (snd (hook_completed good_bank False (day 3) (notice ''REG-a'' ''completed'' ''100'')
        (snd (hook_completed good_bank False (day 2) (notice ''REG-a'' ''completed'' ''100'') registering)))))
      = [Some (day 3)]"
proof (intro conjI)
  show "billing_start registering" using salon_start
    by (simp add: billing_start_def registering_def salon_def blank_order_def starts_with_def)
qed code_simp+

definition last_retry :: retry_row where
  "last_retry = \<lparr>ry_pk = 3, ry_order = 1, ry_subscription = 3, ry_tenant = 7, ry_attempt = 1, ry_number = 3, ry_due = day 35,
     ry_executed = None, ry_status = Retry_pending, ry_result = None\<rparr>"

text \<open>The first charge was refused and then settled after all; day 35 is before the next date, day 60.\<close>

theorem skipped_retry_suspends_witness:
  "\<exists>s' t'. row_get ts_pk 3 (bl_subs (process_retry good_bank (day 35) (the (sub_of recovered 7)) last_retry recovered)) = Some s'
     \<and> \<not> ts_active s' \<and> paid_ahead (day 35) s'
     \<and> row_get tn_pk 7 (bl_tenants (process_retry good_bank (day 35) (the (sub_of recovered 7)) last_retry recovered)) = Some t'
     \<and> \<not> tn_active t'"
proof -
  let ?s = "the (sub_of recovered 7)"
  have k: "ts_pk ?s = 3" "ts_tenant ?s = 7" "paid_ahead (day 35) ?s" "row_get ts_pk 3 (bl_subs recovered) = Some ?s"
    "bog_tenant recovered 7" "remaining_retries last_retry recovered = 0" "last_retry \<in> set (bl_retries recovered)"
    by code_simp+
  obtain t where "row_get tn_pk 7 (bl_tenants recovered) = Some t"
    using k(5) by (cases "row_get tn_pk 7 (bl_tenants recovered)") (auto simp: bog_tenant_def row_get_None)
  then show ?thesis
    using skipped_retry_suspends [of ?s recovered last_retry "day 35" t good_bank] k by (auto simp: last_retry_def)
qed

text \<open>The renewal of day 28 is settled by the reconciliation of day 29; on day 35 the daily check
  suspends the salon.\<close>

definition reconciled :: billing_db where
  "reconciled = settle_paid False (day 29) False (the (find_order renewed ''REC-a'')) renewed"

theorem early_reconciliation_loses_month_witness:
  "bl_subs reconciled = [salon_sub]
   \<and> (\<exists>x. find_order reconciled ''REC-a'' = Some x \<and> od_status x = Order_paid)
   \<and> tenant_off (check_subscription_status (day 35) 3 reconciled) 7"
proof -
  let ?o = "the (find_order renewed ''REC-a'')"
  have m: "?o \<in> set (bl_orders renewed)" "order_sub ?o renewed = Some salon_sub" "paid_ahead (day 29) salon_sub"
    "od_status ?o = Order_pending" "bl_subs renewed = [salon_sub]" "od_id ?o = ''REC-a''"
    by code_simp+
  have "tenant_off (check_subscription_status (day 35) 3 reconciled) 7" by code_simp
  then show ?thesis
    using early_reconciliation_loses_month [OF renewed_reachable m(1,4,2,3), of False] m(5,6) by (simp add: reconciled_def)
qed

theorem rejection_replay_free_month_witness:
  "\<exists>s' d'. sub_of (snd (hook_completed good_bank False (day 29) (notice ''REC-a'' ''completed'' ''100'')
       (snd (hook_rejected (day 29) (notice ''REC-a'' ''completed'' ''100'') paid)))) 7 = Some s'
     \<and> ts_next_billing s' = Some d' \<and> day 90 \<le> d'"
proof -
  have s: "sub_of paid 7 = Some (renewed_sub (day 29) (day 60))" by code_simp
  define x where "x = the (find_order paid ''REC-a'')"
  have x: "find_order paid ''REC-a'' = Some x" "od_tenant x = Some 7" "od_kind x = Some ''recurring''"
    "od_subscription x = Some (ts_pk (renewed_sub (day 29) (day 60)))"
    unfolding x_def by code_simp+
  have "day 60 + billing_interval False = day 90" by (simp add: day_def billing_interval_def)
  then show ?thesis
    using rejection_replay_free_month [OF paid_reachable x s, of "day 60" "notice ''REC-a'' ''completed'' ''100''" "''B-REC-a''"
        good_bank False "day 29"]
    by (auto simp: Let_def renewed_sub_def notice_def confirmed)
qed

text \<open>The salon lets its renewal lapse, is suspended on day 40, and pays for the reactivation on day 41.\<close>

definition lapsed :: billing_db where
  "lapsed = check_subscription_status (day 40) 3 salon"

definition billing_admin :: user where
  "billing_admin = \<lparr>u_pk = 1, u_role = Role_admin, u_status = Status_active, u_is_active = True, u_is_staff = True,
     u_is_superuser = False, u_department = None, u_manager = None, u_employment_start = None, u_employment_end = None,
     u_date_joined = None, u_can = [], u_groups = []\<rparr>"

definition reactivation_order :: billing_db where
  "reactivation_order = (case reactivate_subscription_payment good_bank (day 41) ''c'' billing_admin 7 lapsed of
     Inr (_, db) \<Rightarrow> db | Inl _ \<Rightarrow> lapsed)"

definition reactivated :: billing_db where
  "reactivated = snd (bog_webhook good_bank False (day 41) (notice ''REACT-c'' ''completed'' ''100'') reactivation_order)"

lemma lapsed_run: "reachable (\<lambda>d. d = lapsed) billing_step reactivated"
proof -
  have "isl (reactivate_subscription_payment good_bank (day 41) ''c'' billing_admin 7 lapsed) = False" by code_simp
  then obtain o' db where "reactivate_subscription_payment good_bank (day 41) ''c'' billing_admin 7 lapsed = Inr (o', db)"
    by (cases "reactivate_subscription_payment good_bank (day 41) ''c'' billing_admin 7 lapsed") auto
  then have "billing_step lapsed reactivation_order" by (simp add: reactivation_order_def billing_step.reactivation)
  moreover have "reachable (\<lambda>d. d = lapsed) billing_step lapsed" by (rule reachable.start) simp
  ultimately have "reachable (\<lambda>d. d = lapsed) billing_step reactivation_order" by (rule reachable.next_step [rotated])
  then show ?thesis unfolding reactivated_def by (rule reachable.next_step) (rule billing_step.webhook)
qed

theorem suspended_tenant_stays_off_witness:
  "tenant_off reactivated 7 \<and> map ts_active (bl_subs lapsed) = [False] \<and> map ts_active (bl_subs reactivated) = [True]"
proof -
  have "tenant_off lapsed 7" "map ts_active (bl_subs lapsed) = [False]" "map ts_active (bl_subs reactivated) = [True]"
    by code_simp+
  then show ?thesis using suspended_tenant_stays_off [OF lapsed_run] by simp
qed

theorem expiry_check_exact_witness:
  "row_get ts_pk 3 (bl_subs (check_subscription_status (day 33) 3 salon)) = Some salon_sub
   \<and> row_get ts_pk 3 (bl_subs (check_subscription_status (day 34) 3 salon)) = Some (salon_sub\<lparr>ts_active := False\<rparr>)"
proof -
  have d: "distinct (map ts_pk (bl_subs salon))" by code_simp
  have m: "salon_sub \<in> set (bl_subs salon)" "ts_pk salon_sub = 3" "\<not> past_grace (day 33) 3 salon salon_sub" "past_grace (day 34) 3 salon salon_sub"
    by code_simp+
  show ?thesis
    using expiry_check_exact [OF d m(1), of "day 33" 3] expiry_check_exact [OF d m(1), of "day 34" 3] m by simp
qed

end
