(* ===== verification/Shop_Model.thy ===== *)
theory Shop_Model
  imports Users Text Bog
begin

text \<open>
  The tables of the web shop (\<^verbatim>\<open>ecommerce_crm/models.py\<close>) and the methods of their rows: products
  and variants with their stock, carts, orders, promo codes, shipping methods, and what customers
  own.  Names, descriptions, images, notes and courier columns that no modelled operation reads are
  left out.  The two keys of an order's \<^verbatim>\<open>payment_metadata\<close> that the program reads later
  (\<^verbatim>\<open>delivery_method\<close>, \<^verbatim>\<open>quickshipper_quote\<close>) are columns here.
\<close>

subsection \<open>Rows\<close>

datatype product_status = Draft | Active | Inactive | Out_of_stock

record product =
  pr_pk :: pk
  pr_status :: product_status
  pr_price :: decimal
  pr_tracked :: bool
  pr_quantity :: int
  pr_threshold :: int

record variant =
  va_pk :: pk
  va_product :: pk
  va_price :: "decimal option"
  va_quantity :: int
  va_active :: bool

record shop_client =
  cl_pk :: pk
  cl_email :: string

record client_address =
  ad_pk :: pk
  ad_client :: pk
  ad_default :: bool

record client_card =
  cc_pk :: pk
  cc_client :: pk
  cc_parent :: string
  cc_masked :: string
  cc_default :: bool
  cc_active :: bool

datatype cart_status = Cart_active | Cart_abandoned | Cart_converted

record cart =
  ca_pk :: pk
  ca_client :: pk
  ca_address :: "pk option"
  ca_status :: cart_status

record cart_item =
  ci_pk :: pk
  ci_cart :: pk
  ci_product :: pk
  ci_variant :: "pk option"
  ci_quantity :: int
  ci_price :: decimal

record promo_code =
  pm_pk :: pk
  pm_code :: string
  pm_percentage :: bool
  pm_value :: decimal
  pm_min :: "decimal option"
  pm_max_uses :: "int option"
  pm_used :: int
  pm_from :: datetime
  pm_until :: datetime
  pm_active :: bool

record shipping_method =
  sh_pk :: pk
  sh_price :: decimal
  sh_free_from :: "decimal option"
  sh_active :: bool

datatype shop_status = So_pending | So_confirmed | So_processing | So_shipped | So_delivered | So_cancelled | So_refunded

text \<open>\<open>Pay_processing\<close> is not among the choices of the column but is written to it.\<close>

datatype pay_status = Pay_pending | Pay_paid | Pay_failed | Pay_refunded | Pay_partially_refunded | Pay_processing

datatype delivery = Courier | Pickup

record shop_order =
  so_pk :: pk
  so_number :: string
  so_client :: pk
  so_address :: pk
  so_status :: shop_status
  so_total :: decimal
  so_subtotal :: decimal
  so_discount :: decimal
  so_shipping :: decimal
  so_tax :: decimal
  so_promo :: "pk option"
  so_pay :: pay_status
  so_method :: string
  so_provider :: string
  so_bog :: "string option"
  so_url :: "string option"
  so_delivery :: "delivery option"
  so_quote :: "int option"
  so_created :: datetime
  so_paid_at :: "datetime option"
  so_confirmed_at :: "datetime option"
  so_cancelled_at :: "datetime option"

record shop_item =
  oi_pk :: pk
  oi_order :: pk
  oi_product :: "pk option"
  oi_variant :: "pk option"
  oi_quantity :: int
  oi_price :: decimal

record shop_settings =
  ss_tax_rate :: decimal
  ss_tax_inclusive :: bool
  ss_allow_pickup :: bool
  ss_providers :: "string list"
  ss_bog :: bool
  ss_tbc :: bool
  ss_flitt :: bool

record shop_db =
  sd_products :: "product list"
  sd_variants :: "variant list"
  sd_clients :: "shop_client list"
  sd_addresses :: "client_address list"
  sd_cards :: "client_card list"
  sd_carts :: "cart list"
  sd_cart_items :: "cart_item list"
  sd_promos :: "promo_code list"
  sd_shipping :: "shipping_method list"
  sd_orders :: "shop_order list"
  sd_items :: "shop_item list"
  sd_settings :: "shop_settings option"

text \<open>An answer: a created order, success, or an error with its HTTP status.\<close>

datatype shop_reply = Shop_created pk | Shop_done | Shop_error nat

subsection \<open>Products and their stock\<close>

definition is_low_stock :: "product \<Rightarrow> bool" where
  "is_low_stock p \<longleftrightarrow> pr_tracked p \<and> pr_quantity p \<le> pr_threshold p"

definition is_in_stock :: "product \<Rightarrow> bool" where
  "is_in_stock p \<longleftrightarrow> \<not> pr_tracked p \<or> 0 < pr_quantity p"

text \<open>A price of zero counts as not given.\<close>

definition given_price :: "decimal option \<Rightarrow> bool" where
  "given_price x \<longleftrightarrow> x \<noteq> None \<and> x \<noteq> Some 0"

definition effective_price :: "product \<Rightarrow> variant \<Rightarrow> decimal" where
  "effective_price p v = (if given_price (va_price v) then the (va_price v) else pr_price p)"

definition save_product :: "product \<Rightarrow> shop_db \<Rightarrow> shop_db" where
  "save_product p db = db\<lparr>sd_products := row_save pr_pk p (sd_products db)\<rparr>"

definition save_variant :: "variant \<Rightarrow> shop_db \<Rightarrow> shop_db" where
  "save_variant v db = db\<lparr>sd_variants := row_save va_pk v (sd_variants db)\<rparr>"

text \<open>\<^verbatim>\<open>reserve_stock\<close>: None when it raises; \<open>p\<close> and \<open>v\<close> are the instances of the caller, the rows are
  read again under the lock.\<close>

definition reserve_stock :: "product \<Rightarrow> variant option \<Rightarrow> int \<Rightarrow> shop_db \<Rightarrow> shop_db option" where
  "reserve_stock p v quantity db =
     (if \<not> pr_tracked p then Some db
      else case row_get pr_pk (pr_pk p) (sd_products db) of
             None \<Rightarrow> None
           | Some lp \<Rightarrow>
               if pr_quantity lp < quantity then None
               else (case v of
                  None \<Rightarrow> Some (save_product (lp\<lparr>pr_quantity := pr_quantity lp - quantity\<rparr>) db)
                | Some w \<Rightarrow>
                    (case row_get va_pk (va_pk w) (sd_variants db) of
                       None \<Rightarrow> None
                     | Some lw \<Rightarrow>
                         if va_quantity lw < quantity then None
                         else Some (save_product (lp\<lparr>pr_quantity := pr_quantity lp - quantity\<rparr>)
                                (save_variant (lw\<lparr>va_quantity := va_quantity lw - quantity\<rparr>) db)))))"

text \<open>\<^verbatim>\<open>QuerySet.update(quantity=F('quantity') + n)\<close>\<close>

definition add_stock :: "pk \<Rightarrow> int \<Rightarrow> shop_db \<Rightarrow> shop_db" where
  "add_stock k n db = db\<lparr>sd_products := map (\<lambda>p. if pr_pk p = k then p\<lparr>pr_quantity := pr_quantity p + n\<rparr> else p) (sd_products db)\<rparr>"

definition add_variant_stock :: "pk \<Rightarrow> int \<Rightarrow> shop_db \<Rightarrow> shop_db" where
  "add_variant_stock k n db =
     db\<lparr>sd_variants := map (\<lambda>v. if va_pk v = k then v\<lparr>va_quantity := va_quantity v + n\<rparr> else v) (sd_variants db)\<rparr>"

definition release_stock :: "shop_item \<Rightarrow> shop_db \<Rightarrow> shop_db" where
  "release_stock it db =
     (case Option.bind (oi_product it) (\<lambda>k. row_get pr_pk k (sd_products db)) of
        None \<Rightarrow> db
      | Some p \<Rightarrow>
          if \<not> pr_tracked p then db
          else let db1 = add_stock (pr_pk p) (oi_quantity it) db
               in case oi_variant it of None \<Rightarrow> db1 | Some w \<Rightarrow> add_variant_stock w (oi_quantity it) db1)"

subsection \<open>Promo codes and shipping\<close>

text \<open>\<^verbatim>\<open>if self.min_order_amount\<close>: a minimum of zero counts as none.\<close>

definition promo_is_valid :: "datetime \<Rightarrow> decimal option \<Rightarrow> promo_code \<Rightarrow> bool" where
  "promo_is_valid now subtotal p \<longleftrightarrow>
     pm_active p \<and> pm_from p \<le> now \<and> now \<le> pm_until p
     \<and> \<not> (case pm_max_uses p of Some m \<Rightarrow> m \<le> pm_used p | None \<Rightarrow> False)
     \<and> \<not> (case (subtotal, pm_min p) of (Some s, Some m) \<Rightarrow> m \<noteq> 0 \<and> s < m | _ \<Rightarrow> False)"

definition calculate_discount :: "decimal \<Rightarrow> promo_code \<Rightarrow> decimal" where
  "calculate_discount subtotal p =
     (if pm_percentage p then min (subtotal * pm_value p / 100) subtotal else min (pm_value p) subtotal)"

definition get_effective_price :: "decimal \<Rightarrow> shipping_method \<Rightarrow> decimal" where
  "get_effective_price order_subtotal m =
     (if given_price (sh_free_from m) \<and> the (sh_free_from m) \<le> order_subtotal then 0 else sh_price m)"

definition save_promo :: "promo_code \<Rightarrow> shop_db \<Rightarrow> shop_db" where
  "save_promo p db = db\<lparr>sd_promos := row_save pm_pk p (sd_promos db)\<rparr>"

text \<open>\<^verbatim>\<open>filter(pk=..., times_used__gt=0).update(times_used=F('times_used') - 1)\<close>\<close>

definition release_promo :: "pk option \<Rightarrow> shop_db \<Rightarrow> shop_db" where
  "release_promo k db =
     (case k of None \<Rightarrow> db
      | Some j \<Rightarrow> db\<lparr>sd_promos := map (\<lambda>p. if pm_pk p = j \<and> 0 < pm_used p then p\<lparr>pm_used := pm_used p - 1\<rparr> else p) (sd_promos db)\<rparr>)"

subsection \<open>Orders\<close>

definition save_shop_order :: "shop_order \<Rightarrow> shop_db \<Rightarrow> shop_db" where
  "save_shop_order o' db = db\<lparr>sd_orders := row_save so_pk o' (sd_orders db)\<rparr>"

definition items_of :: "pk \<Rightarrow> shop_db \<Rightarrow> shop_item list" where
  "items_of k db = filter (\<lambda>it. oi_order it = k) (sd_items db)"

definition terminal :: "shop_status \<Rightarrow> bool" where
  "terminal s \<longleftrightarrow> s = So_cancelled \<or> s = So_refunded"

text \<open>Restock and release the promo use, which \<^verbatim>\<open>cancel\<close> and \<^verbatim>\<open>_refund_order\<close> share.\<close>

definition give_back :: "shop_order \<Rightarrow> shop_db \<Rightarrow> shop_db" where
  "give_back o' db = release_promo (so_promo o') (fold release_stock (items_of (so_pk o') db) db)"

text \<open>\<^verbatim>\<open>Order.cancel\<close>: whether it cancelled, and the database.\<close>

definition cancel_order :: "datetime \<Rightarrow> shop_order \<Rightarrow> shop_db \<Rightarrow> bool \<times> shop_db" where
  "cancel_order now inst db =
     (if terminal (so_status inst) then (False, db)
      else case row_get so_pk (so_pk inst) (sd_orders db) of
             None \<Rightarrow> (False, db)
           | Some o' \<Rightarrow>
               if terminal (so_status o') then (False, db)
               else (True, save_shop_order (o'\<lparr>so_status := So_cancelled, so_cancelled_at := Some now\<rparr>) (give_back o' db)))"

subsection \<open>Addresses and cards of a customer\<close>

text \<open>\<^verbatim>\<open>ClientAddress.save\<close> and \<^verbatim>\<open>ClientCard.save\<close>: one default per customer.\<close>

definition save_address :: "client_address \<Rightarrow> shop_db \<Rightarrow> shop_db" where
  "save_address a db =
     (let t = (if ad_default a
               then map (\<lambda>x. if ad_client x = ad_client a \<and> ad_default x \<and> ad_pk x \<noteq> ad_pk a then x\<lparr>ad_default := False\<rparr> else x) (sd_addresses db)
               else sd_addresses db)
      in db\<lparr>sd_addresses := (if ad_pk a \<in> ad_pk ` set t then row_save ad_pk a t else row_create a t)\<rparr>)"

definition save_client_card :: "client_card \<Rightarrow> shop_db \<Rightarrow> shop_db" where
  "save_client_card c db =
     (let t = (if cc_default c
               then map (\<lambda>x. if cc_client x = cc_client c \<and> cc_default x \<and> cc_pk x \<noteq> cc_pk c then x\<lparr>cc_default := False\<rparr> else x) (sd_cards db)
               else sd_cards db)
      in db\<lparr>sd_cards := (if cc_pk c \<in> cc_pk ` set t then row_save cc_pk c t else row_create c t)\<rparr>)"

end
