(* ===== verification/Shop_Guest.thy ===== *)
theory Shop_Guest
  imports Shop_Model
begin

text \<open>
  Placing an order: from the cart of a customer (\<^verbatim>\<open>OrderCreateSerializer\<close> in
  \<^verbatim>\<open>ecommerce_crm/serializers.py\<close>, \<^verbatim>\<open>ClientOrderViewSet.create\<close> in \<^verbatim>\<open>views_client.py\<close>,
  \<^verbatim>\<open>OrderViewSet.create\<close> in \<^verbatim>\<open>views.py\<close>) and as a guest (\<^verbatim>\<open>guest_checkout\<close>), with the choice of the
  payment provider (\<^verbatim>\<open>payment_utils.py\<close>).

  The row of an order stores its figures with two decimal places, as the database rounds them; the
  amount that is sent to a provider is the exact one.  The order number is drawn at random and an
  argument here; a number that is taken makes the insert fail.

  Ordering without an account (\<^verbatim>\<open>guest_checkout\<close> in \<^verbatim>\<open>ecommerce_crm/views_client.py\<close>), and the cart
  endpoints for customers and staff (\<^verbatim>\<open>views_client.py\<close>, \<^verbatim>\<open>views.py\<close>).
\<close>

subsection \<open>The payment providers\<close>

text \<open>\<open>sg_ready\<close>: the credentials of the shop can be loaded.  \<open>sg_hosted provider number amount\<close>: the
  provider's id of a hosted payment and its address, None when the call raises.\<close>

record shop_gateway =
  sg_ready :: bool
  sg_bank :: charge_api
  sg_hosted :: "string \<Rightarrow> string \<Rightarrow> decimal \<Rightarrow> (string \<times> string) option"

definition card_providers :: "string list" where
  "card_providers = [''bog'', ''tbc'', ''flitt'']"

text \<open>None when \<^verbatim>\<open>resolve_card_provider\<close> raises.\<close>

definition resolve_card_provider :: "string \<Rightarrow> string \<Rightarrow> shop_settings option \<Rightarrow> string option" where
  "resolve_card_provider asked payment_method settings =
     (let given = lower (strip asked);
          method' = lower (strip payment_method);
          provider = (if given = '''' \<and> method' \<in> set card_providers then method' else given);
          active = (case settings of Some s \<Rightarrow> ss_providers s | None \<Rightarrow> [])
      in if provider = '''' then Some ''bog''
         else if provider \<notin> set card_providers then None
         else if active \<noteq> [] \<and> provider \<notin> set active then None
         else if provider = ''tbc'' \<and> \<not> (case settings of Some s \<Rightarrow> ss_tbc s | None \<Rightarrow> False) then None
         else if provider = ''flitt'' \<and> \<not> (case settings of Some s \<Rightarrow> ss_flitt s | None \<Rightarrow> False) then None
         else Some provider)"

definition create_card_payment :: "shop_gateway \<Rightarrow> string \<Rightarrow> string \<Rightarrow> decimal \<Rightarrow> (string \<times> string) option" where
  "create_card_payment g provider order_number amount =
     (if provider = ''bog'' \<and> \<not> sg_ready g then None
      else case sg_hosted g provider order_number amount of
             None \<Rightarrow> None
           | Some (k, url) \<Rightarrow> if provider \<noteq> ''bog'' \<and> url = '''' then None else Some (k, url))"

subsection \<open>Figures\<close>

text \<open>A line of a basket: product, variant, quantity and unit price.\<close>

record basket_line =
  bl_product :: product
  bl_variant :: "variant option"
  bl_quantity :: int
  bl_price :: decimal

definition basket_subtotal :: "basket_line list \<Rightarrow> decimal" where
  "basket_subtotal ls = (\<Sum>l\<leftarrow>ls. bl_price l * of_int (bl_quantity l))"

text \<open>The promo code of an order, and its discount: an invalid code stays on the order with discount 0.\<close>

definition find_promo :: "string \<Rightarrow> shop_db \<Rightarrow> promo_code option" where
  "find_promo code db = (if strip code = '''' then None else find (\<lambda>p. upper (pm_code p) = upper (strip code)) (sd_promos db))"

definition promo_discount :: "datetime \<Rightarrow> decimal \<Rightarrow> promo_code option \<Rightarrow> decimal" where
  "promo_discount now subtotal promo =
     (case promo of None \<Rightarrow> 0 | Some p \<Rightarrow> if promo_is_valid now (Some subtotal) p then calculate_discount subtotal p else 0)"

definition tax_for :: "shop_settings option \<Rightarrow> decimal \<Rightarrow> decimal" where
  "tax_for settings taxable =
     (case settings of
        None \<Rightarrow> 0
      | Some s \<Rightarrow>
          if ss_tax_rate s > 0
          then round_half_even 2 (if ss_tax_inclusive s then taxable - taxable / (1 + ss_tax_rate s / 100)
                                  else taxable * ss_tax_rate s / 100)
          else 0)"

definition total_for :: "shop_settings option \<Rightarrow> decimal \<Rightarrow> decimal \<Rightarrow> decimal \<Rightarrow> decimal \<Rightarrow> decimal" where
  "total_for settings subtotal discount shipping tax =
     (if 0 < tax \<and> (case settings of Some s \<Rightarrow> \<not> ss_tax_inclusive s | None \<Rightarrow> False)
      then subtotal - discount + shipping + tax else subtotal - discount + shipping)"

definition find_shipping :: "pk option \<Rightarrow> shop_db \<Rightarrow> shipping_method option" where
  "find_shipping k db = Option.bind k (\<lambda>j. find (\<lambda>m. sh_pk m = j \<and> sh_active m) (sd_shipping db))"

text \<open>A live quote of a courier: provider id and price.\<close>

type_synonym quote = "int \<times> decimal"

definition shipping_cost_for :: "delivery \<Rightarrow> shipping_method option \<Rightarrow> quote option \<Rightarrow> decimal \<Rightarrow> decimal" where
  "shipping_cost_for d m q subtotal =
     (if d = Pickup then 0
      else case q of Some (_, price) \<Rightarrow> price
           | None \<Rightarrow> (case m of Some x \<Rightarrow> get_effective_price subtotal x | None \<Rightarrow> 0))"

subsection \<open>Placing an order\<close>

fun reserve_lines :: "basket_line list \<Rightarrow> shop_db \<Rightarrow> shop_db option" where
  "reserve_lines [] db = Some db"
| "reserve_lines (l # ls) db =
     (case reserve_stock (bl_product l) (bl_variant l) (bl_quantity l) db of
        None \<Rightarrow> None | Some db1 \<Rightarrow> reserve_lines ls db1)"

definition create_item :: "pk \<Rightarrow> basket_line \<Rightarrow> shop_db \<Rightarrow> shop_db" where
  "create_item k l db =
     db\<lparr>sd_items := row_create \<lparr>oi_pk = next_pk oi_pk (sd_items db), oi_order = k, oi_product = Some (pr_pk (bl_product l)),
        oi_variant = map_option va_pk (bl_variant l), oi_quantity = bl_quantity l, oi_price = bl_price l\<rparr> (sd_items db)\<rparr>"

definition new_shop_order ::
  "datetime \<Rightarrow> string \<Rightarrow> pk \<Rightarrow> pk \<Rightarrow> delivery \<Rightarrow> promo_code option \<Rightarrow> shipping_method option \<Rightarrow> quote option \<Rightarrow> basket_line list
   \<Rightarrow> shop_db \<Rightarrow> shop_order" where
  "new_shop_order now order_number client address d promo m q ls db =
     (let subtotal = basket_subtotal ls;
          discount = promo_discount now subtotal promo;
          shipping = shipping_cost_for d m q subtotal;
          tax = tax_for (sd_settings db) (subtotal - discount)
      in \<lparr>so_pk = next_pk so_pk (sd_orders db), so_number = order_number, so_client = client, so_address = address,
          so_status = So_pending, so_total = total_for (sd_settings db) subtotal discount shipping tax, so_subtotal = subtotal,
          so_discount = discount, so_shipping = shipping, so_tax = tax, so_promo = map_option pm_pk promo,
          so_pay = Pay_pending, so_method = ''card'', so_provider = '''', so_bog = None, so_url = None,
          so_delivery = Some d, so_quote = (if d = Pickup then None else map_option fst q), so_created = now,
          so_paid_at = None, so_confirmed_at = None, so_cancelled_at = None\<rparr>)"

text \<open>The figures of a stored row have two decimal places.\<close>

definition rounded_row :: "shop_order \<Rightarrow> shop_order" where
  "rounded_row o' = o'\<lparr>so_total := round_half_up 2 (so_total o'), so_subtotal := round_half_up 2 (so_subtotal o'),
     so_discount := round_half_up 2 (so_discount o'), so_shipping := round_half_up 2 (so_shipping o'),
     so_tax := round_half_up 2 (so_tax o')\<rparr>"

definition use_promo :: "decimal \<Rightarrow> promo_code option \<Rightarrow> shop_db \<Rightarrow> shop_db" where
  "use_promo discount promo db =
     (case promo of
        Some p \<Rightarrow> if 0 < discount then save_promo (p\<lparr>pm_used := pm_used p + 1\<rparr>) db else db
      | None \<Rightarrow> db)"

text \<open>The transaction: reserve every line, insert the order with its lines, count the promo use.  None
  when a line cannot be covered or the number is taken; then nothing is written.\<close>

definition place_order :: "shop_order \<Rightarrow> promo_code option \<Rightarrow> basket_line list \<Rightarrow> shop_db \<Rightarrow> shop_db option" where
  "place_order o' promo ls db =
     (case reserve_lines ls db of
        None \<Rightarrow> None
      | Some db1 \<Rightarrow>
          if so_number o' \<in> so_number ` set (sd_orders db1) then None
          else Some (use_promo (so_discount o') promo
                 (fold (create_item (so_pk o')) ls (db1\<lparr>sd_orders := row_create (rounded_row o') (sd_orders db1)\<rparr>))))"

subsection \<open>From a cart\<close>

record order_request =
  rq_cart :: pk
  rq_address :: pk
  rq_card :: "pk option"
  rq_promo :: string
  rq_shipping :: "pk option"
  rq_method :: string
  rq_provider :: string
  rq_delivery :: delivery
  rq_quote :: "quote option"

definition cart_items_of :: "pk \<Rightarrow> shop_db \<Rightarrow> cart_item list" where
  "cart_items_of k db = filter (\<lambda>i. ci_cart i = k) (sd_cart_items db)"

text \<open>Foreign keys make the product exist.\<close>

definition cart_line :: "shop_db \<Rightarrow> cart_item \<Rightarrow> basket_line option" where
  "cart_line db i = map_option (\<lambda>p. \<lparr>bl_product = p, bl_variant = Option.bind (ci_variant i) (\<lambda>k. row_get va_pk k (sd_variants db)),
      bl_quantity = ci_quantity i, bl_price = ci_price i\<rparr>) (row_get pr_pk (ci_product i) (sd_products db))"

definition cart_lines :: "pk \<Rightarrow> shop_db \<Rightarrow> basket_line list" where
  "cart_lines k db = List.map_filter (cart_line db) (cart_items_of k db)"

definition valid_request :: "order_request \<Rightarrow> shop_db \<Rightarrow> bool" where
  "valid_request rq db \<longleftrightarrow>
     (\<exists>c \<in> set (sd_carts db). ca_pk c = rq_cart rq \<and> ca_status c = Cart_active) \<and> cart_items_of (rq_cart rq) db \<noteq> []
     \<and> rq_address rq \<in> ad_pk ` set (sd_addresses db)
     \<and> (case rq_card rq of None \<Rightarrow> True | Some k \<Rightarrow> \<exists>c \<in> set (sd_cards db). cc_pk c = k \<and> cc_active c)
     \<and> (case rq_shipping rq of None \<Rightarrow> True | Some k \<Rightarrow> \<exists>m \<in> set (sd_shipping db). sh_pk m = k \<and> sh_active m)"

text \<open>The new order with its exact figures, and the database.\<close>

definition order_from_cart :: "datetime \<Rightarrow> string \<Rightarrow> order_request \<Rightarrow> shop_db \<Rightarrow> (shop_order \<times> shop_db) option" where
  "order_from_cart now order_number rq db =
     (if \<not> valid_request rq db then None
      else case row_get ca_pk (rq_cart rq) (sd_carts db) of
             None \<Rightarrow> None
           | Some c \<Rightarrow>
               (let ls = cart_lines (rq_cart rq) db;
                    promo = find_promo (rq_promo rq) db;
                    o' = new_shop_order now order_number (ca_client c) (rq_address rq) (rq_delivery rq) promo
                           (find_shipping (rq_shipping rq) db) (rq_quote rq) ls db
                in map_option (\<lambda>db1. (o', db1\<lparr>sd_carts := row_save ca_pk (c\<lparr>ca_status := Cart_converted\<rparr>) (sd_carts db1)\<rparr>))
                     (place_order o' promo ls db)))"

text \<open>Write payment columns of the order: the metadata is replaced by the answer of the provider.\<close>

definition hosted :: "string \<Rightarrow> string \<Rightarrow> string \<Rightarrow> shop_order \<Rightarrow> shop_order" where
  "hosted provider k url o' =
     o'\<lparr>so_bog := (if provider = ''bog'' then Some k else so_bog o'), so_provider := provider, so_url := Some url,
        so_pay := Pay_pending, so_method := ''card''\<rparr>"

definition cash_order :: "shop_order \<Rightarrow> shop_order" where
  "cash_order o' = o'\<lparr>so_method := ''cash_on_delivery'', so_pay := Pay_pending\<rparr>"

definition no_metadata :: "shop_order \<Rightarrow> shop_order" where
  "no_metadata o' = o'\<lparr>so_delivery := None, so_quote := None\<rparr>"

definition charged_order :: "string \<Rightarrow> shop_order \<Rightarrow> shop_order" where
  "charged_order bog o' = o'\<lparr>so_bog := Some bog, so_pay := Pay_processing, so_method := ''saved_card'', so_provider := ''bog''\<rparr>"

text \<open>\<^verbatim>\<open>ClientOrderViewSet.create\<close>; \<open>u\<close> is the customer.\<close>

definition charge_card_order :: "shop_gateway \<Rightarrow> pk \<Rightarrow> pk \<Rightarrow> shop_order \<Rightarrow> shop_db \<Rightarrow> shop_reply \<times> shop_db" where
  "charge_card_order g u k o' db =
     (case find (\<lambda>c. cc_pk c = k \<and> cc_client c = u \<and> cc_active c) (sd_cards db) of
        None \<Rightarrow> (Shop_error 400, db)
      | Some c \<Rightarrow>
          (case charge_saved_card (sg_bank g) (cc_parent c) (so_total o') (so_number o') of
             None \<Rightarrow> (Shop_error 400, db)
           | Some bog \<Rightarrow> (Shop_created (so_pk o'), save_shop_order (no_metadata (charged_order bog (rounded_row o'))) db)))"

definition client_create_order ::
  "shop_gateway \<Rightarrow> datetime \<Rightarrow> string \<Rightarrow> pk \<Rightarrow> order_request \<Rightarrow> shop_db \<Rightarrow> shop_reply \<times> shop_db" where
  "client_create_order g now order_number u rq db =
     (let cash = (rq_method rq = ''cash_on_delivery'');
          provider = (if cash then Some '''' else resolve_card_provider (rq_provider rq) (rq_method rq) (sd_settings db))
      in if \<not> valid_request rq db then (Shop_error 400, db)
         else case provider of
           None \<Rightarrow> (Shop_error 400, db)
         | Some p \<Rightarrow>
             if \<not> cash \<and> rq_card rq \<noteq> None \<and> p \<noteq> ''bog'' then (Shop_error 400, db)
             else case order_from_cart now order_number rq db of
               None \<Rightarrow> (Shop_error 400, db)
             | Some (o', db1) \<Rightarrow>
                 if cash then (Shop_created (so_pk o'), save_shop_order (cash_order (rounded_row o')) db1)
                 else if p = ''bog'' \<and> \<not> sg_ready g then (Shop_error 503, snd (cancel_order now o' db1))
                 else case rq_card rq of
                   Some k \<Rightarrow> charge_card_order g u k o' db1
                 | None \<Rightarrow>
                     (case create_card_payment g p (so_number o') (so_total o') of
                        None \<Rightarrow> (Shop_error 402, snd (cancel_order now o' db1))
                      | Some (k, url) \<Rightarrow> (Shop_created (so_pk o'), save_shop_order (no_metadata (hosted p k url (rounded_row o'))) db1)))"

text \<open>\<^verbatim>\<open>OrderViewSet.create\<close>: staff place the order of a cart; the bank is the only provider, and an
  order whose payment cannot be started stays.\<close>

definition admin_create_order ::
  "shop_gateway \<Rightarrow> datetime \<Rightarrow> string \<Rightarrow> order_request \<Rightarrow> shop_db \<Rightarrow> shop_reply \<times> shop_db" where
  "admin_create_order g now order_number rq db =
     (case order_from_cart now order_number rq db of
        None \<Rightarrow> (Shop_error 400, db)
      | Some (o', db1) \<Rightarrow>
          if rq_method rq = ''cash_on_delivery'' then (Shop_created (so_pk o'), save_shop_order (cash_order (rounded_row o')) db1)
          else if \<not> sg_ready g then (Shop_error 503, snd (cancel_order now o' db1))
          else (case sg_hosted g ''bog'' (so_number o') (so_total o') of
                  None \<Rightarrow> (Shop_created (so_pk o'), db1)
                | Some (k, url) \<Rightarrow>
                    (Shop_created (so_pk o'), save_shop_order (no_metadata ((rounded_row o')\<lparr>so_bog := Some k, so_url := Some url,
                       so_pay := Pay_pending, so_method := ''card''\<rparr>)) db1)))"

section \<open>Guests and carts\<close>

subsection \<open>Guest checkout\<close>

text \<open>\<open>gq_complete\<close>: the required fields of the customer and of the address are present.  A line is a
  product key, a quantity and a variant key.\<close>

record guest_request =
  gq_complete :: bool
  gq_email :: string
  gq_items :: "(pk \<times> int \<times> pk option) list"
  gq_promo :: string
  gq_shipping :: "pk option"
  gq_method :: string
  gq_provider :: string
  gq_delivery :: string
  gq_quote :: "quote option"

text \<open>\<^verbatim>\<open>EcommerceClient.objects.get_or_create(email=...)\<close> and the new address.\<close>

definition guest_client :: "string \<Rightarrow> shop_db \<Rightarrow> pk \<times> shop_db" where
  "guest_client email db =
     (let e = lower (strip email)
      in case find (\<lambda>c. cl_email c = e) (sd_clients db) of
           Some c \<Rightarrow> (cl_pk c, db)
         | None \<Rightarrow> (let k = next_pk cl_pk (sd_clients db)
                   in (k, db\<lparr>sd_clients := row_create \<lparr>cl_pk = k, cl_email = e\<rparr> (sd_clients db)\<rparr>)))"

definition guest_address :: "pk \<Rightarrow> shop_db \<Rightarrow> pk \<times> shop_db" where
  "guest_address u db =
     (let k = next_pk ad_pk (sd_addresses db)
      in (k, db\<lparr>sd_addresses := row_create \<lparr>ad_pk = k, ad_client = u, ad_default = False\<rparr> (sd_addresses db)\<rparr>))"

definition guest_line :: "shop_db \<Rightarrow> pk \<times> int \<times> pk option \<Rightarrow> basket_line option" where
  "guest_line db i =
     (case i of (k, quantity, w) \<Rightarrow>
        if k = 0 \<or> quantity < 1 then None
        else case find (\<lambda>p. pr_pk p = k \<and> pr_status p = Active) (sd_products db) of
               None \<Rightarrow> None
             | Some p \<Rightarrow>
                 (case w of
                    None \<Rightarrow> Some \<lparr>bl_product = p, bl_variant = None, bl_quantity = quantity, bl_price = pr_price p\<rparr>
                  | Some j \<Rightarrow>
                      (case find (\<lambda>v. va_pk v = j \<and> va_product v = pr_pk p \<and> va_active v) (sd_variants db) of
                         None \<Rightarrow> None
                       | Some v \<Rightarrow> Some \<lparr>bl_product = p, bl_variant = Some v, bl_quantity = quantity, bl_price = effective_price p v\<rparr>)))"

text \<open>None when a line is refused.\<close>

fun guest_lines :: "shop_db \<Rightarrow> (pk \<times> int \<times> pk option) list \<Rightarrow> basket_line list option" where
  "guest_lines db [] = Some []"
| "guest_lines db (i # is) =
     (case guest_line db i of None \<Rightarrow> None | Some l \<Rightarrow> map_option (\<lambda>ls. l # ls) (guest_lines db is))"

text \<open>Unknown delivery methods count as courier; None when pickup is not offered.\<close>

definition guest_delivery :: "string \<Rightarrow> shop_settings option \<Rightarrow> delivery option" where
  "guest_delivery asked settings =
     (if lower (strip asked) = ''pickup''
      then (case settings of Some s \<Rightarrow> if ss_allow_pickup s then Some Pickup else None | None \<Rightarrow> None)
      else Some Courier)"

text \<open>What happens after the order is placed.\<close>

definition guest_payment :: "shop_gateway \<Rightarrow> string \<Rightarrow> string \<Rightarrow> delivery \<Rightarrow> shop_order \<Rightarrow> shop_db \<Rightarrow> shop_reply \<times> shop_db" where
  "guest_payment g payment_method provider d o' db =
     (if payment_method = ''cash_on_delivery'' \<and> d = Courier then (Shop_error 400, db)
      else if payment_method = ''cash_on_delivery'' then (Shop_created (so_pk o'), save_shop_order (cash_order (rounded_row o')) db)
      else case create_card_payment g provider (so_number o') (so_total o') of
             None \<Rightarrow> (Shop_created (so_pk o'), db)
           | Some (k, url) \<Rightarrow> (Shop_created (so_pk o'), save_shop_order (hosted provider k url (rounded_row o')) db))"

definition guest_checkout :: "shop_gateway \<Rightarrow> datetime \<Rightarrow> string \<Rightarrow> guest_request \<Rightarrow> shop_db \<Rightarrow> shop_reply \<times> shop_db" where
  "guest_checkout g now order_number gq db =
     (if \<not> gq_complete gq \<or> gq_items gq = [] then (Shop_error 400, db)
      else case guest_client (gq_email gq) db of (u, db1) \<Rightarrow>
        (case guest_address u db1 of (a, db2) \<Rightarrow>
          (case (guest_lines db2 (gq_items gq), guest_delivery (gq_delivery gq) (sd_settings db2)) of
             (Some ls, Some d) \<Rightarrow>
               (let promo = find_promo (gq_promo gq) db2;
                    provider = (if gq_method gq = ''cash_on_delivery'' then Some ''''
                                else resolve_card_provider (gq_provider gq) (gq_method gq) (sd_settings db2));
                    m = (if d = Pickup then None else find_shipping (gq_shipping gq) db2);
                    o' = new_shop_order now order_number u a d promo m (gq_quote gq) ls db2
                in case provider of
                     None \<Rightarrow> (Shop_error 400, db2)
                   | Some p \<Rightarrow>
                       (case place_order o' promo ls db2 of
                          None \<Rightarrow> (Shop_error 400, db2)
                        | Some db3 \<Rightarrow> guest_payment g (gq_method gq) p d o' db3))
           | _ \<Rightarrow> (Shop_error 400, db2))))"

subsection \<open>Carts\<close>

definition get_or_create_cart :: "pk \<Rightarrow> shop_db \<Rightarrow> shop_db" where
  "get_or_create_cart u db =
     (if \<exists>c \<in> set (sd_carts db). ca_client c = u \<and> ca_status c = Cart_active then db
      else db\<lparr>sd_carts := row_create \<lparr>ca_pk = next_pk ca_pk (sd_carts db), ca_client = u, ca_address = None, ca_status = Cart_active\<rparr> (sd_carts db)\<rparr>)"

text \<open>\<^verbatim>\<open>CartItem.save\<close>: the price of the moment.\<close>

definition price_at_add :: "product \<Rightarrow> variant option \<Rightarrow> decimal" where
  "price_at_add p v = (case v of Some w \<Rightarrow> effective_price p w | None \<Rightarrow> pr_price p)"

text \<open>The serializer: the cart, the product and the variant exist, the quantity is at least 1.  Which
  customer owns the cart, and whether the variant is one of the product, is not asked.\<close>

definition insert_cart_item :: "pk \<Rightarrow> pk \<Rightarrow> pk option \<Rightarrow> int \<Rightarrow> shop_db \<Rightarrow> shop_reply \<times> shop_db" where
  "insert_cart_item c k w quantity db =
     (case row_get pr_pk k (sd_products db) of
        None \<Rightarrow> (Shop_error 400, db)
      | Some p \<Rightarrow>
          if c \<notin> ca_pk ` set (sd_carts db) \<or> quantity < 1
             \<or> (case w of Some j \<Rightarrow> j \<notin> va_pk ` set (sd_variants db) | None \<Rightarrow> False) then (Shop_error 400, db)
          else (let i = \<lparr>ci_pk = next_pk ci_pk (sd_cart_items db), ci_cart = c, ci_product = k, ci_variant = w, ci_quantity = quantity,
                    ci_price = price_at_add p (Option.bind w (\<lambda>j. row_get va_pk j (sd_variants db)))\<rparr>
                in (Shop_created (ci_pk i), db\<lparr>sd_cart_items := row_create i (sd_cart_items db)\<rparr>)))"

text \<open>\<^verbatim>\<open>ClientCartItemViewSet.create\<close>: a line of the customer's own cart for the same product and variant
  grows by the quantity of the request, whatever its sign.\<close>

definition client_add_item :: "pk \<Rightarrow> pk \<Rightarrow> pk \<Rightarrow> pk option \<Rightarrow> int \<Rightarrow> shop_db \<Rightarrow> shop_reply \<times> shop_db" where
  "client_add_item u c k w add_quantity db =
     (case find (\<lambda>i. ci_cart i = c \<and> (\<exists>x \<in> set (sd_carts db). ca_pk x = c \<and> ca_client x = u) \<and> ci_product i = k \<and> ci_variant i = w)
             (sd_cart_items db) of
        Some i \<Rightarrow> (Shop_done, db\<lparr>sd_cart_items := row_save ci_pk (i\<lparr>ci_quantity := ci_quantity i + add_quantity\<rparr>) (sd_cart_items db)\<rparr>)
      | None \<Rightarrow> insert_cart_item c k w add_quantity db)"

text \<open>\<^verbatim>\<open>ClientCartItemViewSet.update\<close>\<close>

definition owns_item :: "shop_db \<Rightarrow> pk \<Rightarrow> cart_item \<Rightarrow> bool" where
  "owns_item db u i \<longleftrightarrow> (\<exists>c \<in> set (sd_carts db). ca_pk c = ci_cart i \<and> ca_client c = u)"

text \<open>A column of a partial update.\<close>

definition or_keep :: "'a option \<Rightarrow> 'a \<Rightarrow> 'a" where
  "or_keep new old = (case new of Some x \<Rightarrow> x | None \<Rightarrow> old)"

text \<open>The serializer takes every column but the price, which \<^verbatim>\<open>CartItem.save\<close> only sets when it is zero.\<close>

record item_patch =
  ip_cart :: "pk option"
  ip_product :: "pk option"
  ip_variant :: "pk option option"
  ip_quantity :: "int option"

definition patched_item :: "item_patch \<Rightarrow> cart_item \<Rightarrow> cart_item" where
  "patched_item ip i = i\<lparr>ci_cart := or_keep (ip_cart ip) (ci_cart i), ci_product := or_keep (ip_product ip) (ci_product i),
     ci_variant := or_keep (ip_variant ip) (ci_variant i), ci_quantity := or_keep (ip_quantity ip) (ci_quantity i)\<rparr>"

definition priced_item :: "shop_db \<Rightarrow> cart_item \<Rightarrow> cart_item" where
  "priced_item db i =
     (if ci_price i \<noteq> 0 then i
      else case row_get pr_pk (ci_product i) (sd_products db) of
             None \<Rightarrow> i
           | Some p \<Rightarrow> i\<lparr>ci_price := price_at_add p (Option.bind (ci_variant i) (\<lambda>j. row_get va_pk j (sd_variants db)))\<rparr>)"

definition item_patch_ok :: "shop_db \<Rightarrow> item_patch \<Rightarrow> bool" where
  "item_patch_ok db ip \<longleftrightarrow>
     (case ip_cart ip of Some c \<Rightarrow> c \<in> ca_pk ` set (sd_carts db) | None \<Rightarrow> True)
     \<and> (case ip_product ip of Some k \<Rightarrow> k \<in> pr_pk ` set (sd_products db) | None \<Rightarrow> True)
     \<and> (case ip_variant ip of Some (Some j) \<Rightarrow> j \<in> va_pk ` set (sd_variants db) | _ \<Rightarrow> True)
     \<and> (case ip_quantity ip of Some q \<Rightarrow> 1 \<le> q | None \<Rightarrow> True)"

definition client_update_item :: "pk \<Rightarrow> pk \<Rightarrow> item_patch \<Rightarrow> shop_db \<Rightarrow> shop_reply \<times> shop_db" where
  "client_update_item u k ip db =
     (case find (\<lambda>i. ci_pk i = k \<and> owns_item db u i) (sd_cart_items db) of
        None \<Rightarrow> (Shop_error 404, db)
      | Some i \<Rightarrow>
          if \<not> item_patch_ok db ip then (Shop_error 400, db)
          else (Shop_done, db\<lparr>sd_cart_items := row_save ci_pk (priced_item db (patched_item ip i)) (sd_cart_items db)\<rparr>))"

definition client_remove_item :: "pk \<Rightarrow> pk \<Rightarrow> shop_db \<Rightarrow> shop_reply \<times> shop_db" where
  "client_remove_item u k db =
     (case find (\<lambda>i. ci_pk i = k \<and> owns_item db u i) (sd_cart_items db) of
        None \<Rightarrow> (Shop_error 404, db)
      | Some i \<Rightarrow> (Shop_done, db\<lparr>sd_cart_items := row_delete ci_pk k (sd_cart_items db)\<rparr>))"

text \<open>\<^verbatim>\<open>CartItemViewSet\<close> takes the same columns from staff, for every line; its \<^verbatim>\<open>create\<close> is
  \<open>insert_cart_item\<close>.\<close>

definition staff_update_item :: "pk \<Rightarrow> item_patch \<Rightarrow> shop_db \<Rightarrow> shop_reply \<times> shop_db" where
  "staff_update_item k ip db =
     (case row_get ci_pk k (sd_cart_items db) of
        None \<Rightarrow> (Shop_error 404, db)
      | Some i \<Rightarrow>
          if \<not> item_patch_ok db ip then (Shop_error 400, db)
          else (Shop_done, db\<lparr>sd_cart_items := row_save ci_pk (priced_item db (patched_item ip i)) (sd_cart_items db)\<rparr>))"

definition staff_remove_item :: "pk \<Rightarrow> shop_db \<Rightarrow> shop_reply \<times> shop_db" where
  "staff_remove_item k db =
     (case row_get ci_pk k (sd_cart_items db) of
        None \<Rightarrow> (Shop_error 404, db)
      | Some i \<Rightarrow> (Shop_done, db\<lparr>sd_cart_items := row_delete ci_pk k (sd_cart_items db)\<rparr>))"

text \<open>\<^verbatim>\<open>CartSerializer\<close>: owner and status can be written, by staff and by customers.\<close>

record cart_patch =
  cp_client :: "pk option"
  cp_status :: "cart_status option"

definition cart_patch_ok :: "shop_db \<Rightarrow> cart_patch \<Rightarrow> bool" where
  "cart_patch_ok db cp \<longleftrightarrow> (case cp_client cp of Some u \<Rightarrow> u \<in> cl_pk ` set (sd_clients db) | None \<Rightarrow> True)"

definition patched_cart :: "cart_patch \<Rightarrow> cart \<Rightarrow> cart" where
  "patched_cart cp c = c\<lparr>ca_client := or_keep (cp_client cp) (ca_client c), ca_status := or_keep (cp_status cp) (ca_status c)\<rparr>"

text \<open>\<^verbatim>\<open>create\<close> of \<^verbatim>\<open>CartViewSet\<close> and of \<^verbatim>\<open>ClientCartViewSet\<close>: the owner comes from the request in both.\<close>

definition create_cart :: "cart_patch \<Rightarrow> shop_db \<Rightarrow> shop_reply \<times> shop_db" where
  "create_cart cp db =
     (case cp_client cp of
        None \<Rightarrow> (Shop_error 400, db)
      | Some u \<Rightarrow>
          if \<not> cart_patch_ok db cp then (Shop_error 400, db)
          else (let c = \<lparr>ca_pk = next_pk ca_pk (sd_carts db), ca_client = u, ca_address = None,
                    ca_status = or_keep (cp_status cp) Cart_active\<rparr>
                in (Shop_created (ca_pk c), db\<lparr>sd_carts := row_create c (sd_carts db)\<rparr>)))"

definition staff_update_cart :: "pk \<Rightarrow> cart_patch \<Rightarrow> shop_db \<Rightarrow> shop_reply \<times> shop_db" where
  "staff_update_cart k cp db =
     (case row_get ca_pk k (sd_carts db) of
        None \<Rightarrow> (Shop_error 404, db)
      | Some c \<Rightarrow> if \<not> cart_patch_ok db cp then (Shop_error 400, db)
                  else (Shop_done, db\<lparr>sd_carts := row_save ca_pk (patched_cart cp c) (sd_carts db)\<rparr>))"

text \<open>\<^verbatim>\<open>ClientCartViewSet.update\<close>: the same for the customer's own carts, an ordered one included.\<close>

definition client_update_cart :: "pk \<Rightarrow> pk \<Rightarrow> cart_patch \<Rightarrow> shop_db \<Rightarrow> shop_reply \<times> shop_db" where
  "client_update_cart u k cp db =
     (case find (\<lambda>c. ca_pk c = k \<and> ca_client c = u) (sd_carts db) of
        None \<Rightarrow> (Shop_error 404, db)
      | Some c \<Rightarrow> if \<not> cart_patch_ok db cp then (Shop_error 400, db)
                  else (Shop_done, db\<lparr>sd_carts := row_save ca_pk (patched_cart cp c) (sd_carts db)\<rparr>))"

text \<open>Deleting a cart takes its lines with it.\<close>

definition delete_cart :: "pk \<Rightarrow> shop_db \<Rightarrow> shop_db" where
  "delete_cart k db =
     db\<lparr>sd_carts := row_delete ca_pk k (sd_carts db), sd_cart_items := filter (\<lambda>i. ci_cart i \<noteq> k) (sd_cart_items db)\<rparr>"

definition staff_delete_cart :: "pk \<Rightarrow> shop_db \<Rightarrow> shop_reply \<times> shop_db" where
  "staff_delete_cart k db = (if k \<in> ca_pk ` set (sd_carts db) then (Shop_done, delete_cart k db) else (Shop_error 404, db))"

definition client_delete_cart :: "pk \<Rightarrow> pk \<Rightarrow> shop_db \<Rightarrow> shop_reply \<times> shop_db" where
  "client_delete_cart u k db =
     (case find (\<lambda>c. ca_pk c = k \<and> ca_client c = u) (sd_carts db) of
        None \<Rightarrow> (Shop_error 404, db)
      | Some _ \<Rightarrow> (Shop_done, delete_cart k db))"

text \<open>\<^verbatim>\<open>CartViewSet.set_address\<close> and \<^verbatim>\<open>clear\<close>, for staff.\<close>

definition set_cart_address :: "pk \<Rightarrow> pk option \<Rightarrow> shop_db \<Rightarrow> shop_reply \<times> shop_db" where
  "set_cart_address k address db =
     (case row_get ca_pk k (sd_carts db) of
        None \<Rightarrow> (Shop_error 404, db)
      | Some c \<Rightarrow>
          (case address of
             None \<Rightarrow> (Shop_error 400, db)
           | Some a \<Rightarrow>
               if \<exists>x \<in> set (sd_addresses db). ad_pk x = a \<and> ad_client x = ca_client c
               then (Shop_done, db\<lparr>sd_carts := row_save ca_pk (c\<lparr>ca_address := Some a\<rparr>) (sd_carts db)\<rparr>)
               else (Shop_error 404, db)))"

definition clear_cart :: "pk \<Rightarrow> shop_db \<Rightarrow> shop_reply \<times> shop_db" where
  "clear_cart k db =
     (case row_get ca_pk k (sd_carts db) of
        None \<Rightarrow> (Shop_error 404, db)
      | Some c \<Rightarrow> (Shop_done, db\<lparr>sd_cart_items := filter (\<lambda>i. ci_cart i \<noteq> k) (sd_cart_items db)\<rparr>))"

end
