(* ===== verification/Shop_Payments.thy ===== *)
theory Shop_Payments
  imports Shop_Guest
begin

text \<open>
  Orders after they are placed (\<^verbatim>\<open>ecommerce_crm/views.py\<close>, \<^verbatim>\<open>views_client.py\<close>, \<^verbatim>\<open>tasks.py\<close>,
  \<^verbatim>\<open>permissions.py\<close>): status changes, refunds, cancelling, marking as paid, starting a payment, the
  sweeper of unpaid orders, and corrections of the stock.

  Notifications of the payment providers about shop orders (\<^verbatim>\<open>ecommerce_payment_webhook\<close>,
  \<^verbatim>\<open>tbc_payment_webhook\<close>, \<^verbatim>\<open>flitt_payment_webhook\<close> in \<^verbatim>\<open>ecommerce_crm/views.py\<close>) and of the courier, the saved cards of
  customers, and reviews, favourites and promo checks (\<^verbatim>\<open>views_client.py\<close>, \<^verbatim>\<open>views.py\<close>).
\<close>

subsection \<open>Who may do what\<close>

definition is_ecommerce_manager :: "user \<Rightarrow> bool" where
  "is_ecommerce_manager u \<longleftrightarrow>
     u_is_superuser u \<or> u_is_staff u \<or> u_role u \<in> {Role_admin, Role_manager} \<or> has_permission u ''access_orders''"

definition is_ecommerce_admin :: "user \<Rightarrow> bool" where
  "is_ecommerce_admin u \<longleftrightarrow>
     u_is_superuser u \<or> u_is_staff u \<or> u_role u = Role_admin \<or> has_permission u ''manage_settings''"

text \<open>\<open>plan\<close>: the feature keys of the tenant's subscription.\<close>

definition user_has_ecommerce_feature :: "user \<Rightarrow> string list \<Rightarrow> bool" where
  "user_has_ecommerce_feature u plan \<longleftrightarrow>
     has_feature u plan ''ecommerce_crm'' \<or> ((u_is_staff u \<or> u_is_superuser u) \<and> ''ecommerce_crm'' \<in> set plan)"

subsection \<open>Status changes\<close>

datatype status_error = Not_allowed | Needs_manager

text \<open>\<^verbatim>\<open>_refund_order\<close>: None when the order is cancelled or refunded already.\<close>

definition refund_order :: "pk \<Rightarrow> shop_db \<Rightarrow> shop_db option" where
  "refund_order k db =
     (case row_get so_pk k (sd_orders db) of
        None \<Rightarrow> None
      | Some o' \<Rightarrow>
          if terminal (so_status o') then None
          else Some (save_shop_order (o'\<lparr>so_status := So_refunded, so_pay := Pay_refunded\<rparr>) (give_back o' db)))"

definition cancel_needs_manager :: "shop_order \<Rightarrow> shop_status \<Rightarrow> bool" where
  "cancel_needs_manager o' new_status \<longleftrightarrow> new_status = So_cancelled \<and> so_status o' \<noteq> So_cancelled \<and> so_pay o' = Pay_paid"

text \<open>The timestamp of \<^verbatim>\<open>confirmed\<close> is the one of \<^verbatim>\<open>_ORDER_STATUS_TIMESTAMPS\<close> kept here.\<close>

definition stamp_status :: "datetime \<Rightarrow> shop_status \<Rightarrow> shop_order \<Rightarrow> shop_order" where
  "stamp_status now s o' =
     o'\<lparr>so_status := s,
        so_confirmed_at := (if s = So_confirmed \<and> so_confirmed_at o' = None then Some now else so_confirmed_at o')\<rparr>"

definition apply_order_status :: "datetime \<Rightarrow> bool \<Rightarrow> pk \<Rightarrow> shop_status \<Rightarrow> shop_db \<Rightarrow> status_error + shop_db" where
  "apply_order_status now can_cancel_paid k new_status db =
     (case row_get so_pk k (sd_orders db) of
        None \<Rightarrow> Inl Not_allowed
      | Some o' \<Rightarrow>
          if terminal (so_status o') then (if new_status = so_status o' then Inr db else Inl Not_allowed)
          else if new_status = So_cancelled
          then (if \<not> can_cancel_paid \<and> cancel_needs_manager o' new_status then Inl Needs_manager
                else Inr (snd (cancel_order now o' db)))
          else if new_status = So_refunded
          then (case refund_order k db of None \<Rightarrow> Inl Not_allowed | Some db1 \<Rightarrow> Inr db1)
          else Inr (save_shop_order (stamp_status now new_status o') db))"

text \<open>\<^verbatim>\<open>update_status\<close>; a status that is no choice is None.\<close>

definition update_order_status :: "datetime \<Rightarrow> user \<Rightarrow> pk \<Rightarrow> shop_status option \<Rightarrow> shop_db \<Rightarrow> shop_reply \<times> shop_db" where
  "update_order_status now u k status db =
     (case row_get so_pk k (sd_orders db) of
        None \<Rightarrow> (Shop_error 404, db)
      | Some o' \<Rightarrow>
          (case status of
             None \<Rightarrow> (Shop_error 400, db)
           | Some s \<Rightarrow>
               if s = So_refunded \<and> so_status o' \<noteq> So_refunded \<and> \<not> is_ecommerce_manager u then (Shop_error 403, db)
               else if cancel_needs_manager o' s \<and> \<not> is_ecommerce_manager u then (Shop_error 403, db)
               else (case apply_order_status now (is_ecommerce_manager u) k s db of
                       Inl Needs_manager \<Rightarrow> (Shop_error 403, db)
                     | Inl Not_allowed \<Rightarrow> (Shop_error 400, db)
                     | Inr db1 \<Rightarrow> (Shop_done, db1))))"

definition bulk_update_status :: "datetime \<Rightarrow> user \<Rightarrow> pk list \<Rightarrow> shop_status option \<Rightarrow> shop_db \<Rightarrow> shop_reply \<times> shop_db" where
  "bulk_update_status now u ids status db =
     (case status of
        None \<Rightarrow> (Shop_error 400, db)
      | Some s \<Rightarrow>
          if ids = [] \<or> s = So_refunded then (Shop_error 400, db)
          else let orders = filter (\<lambda>o'. so_pk o' \<in> set ids) (sd_orders db)
               in if \<not> set ids \<subseteq> so_pk ` set orders then (Shop_error 400, db)
                  else if \<not> is_ecommerce_manager u \<and> (\<exists>o' \<in> set orders. cancel_needs_manager o' s) then (Shop_error 403, db)
                  else (Shop_done, fold (\<lambda>o' d. case apply_order_status now (is_ecommerce_manager u) (so_pk o') s d of
                                           Inl _ \<Rightarrow> d | Inr d1 \<Rightarrow> d1) orders db))"

definition refund :: "pk \<Rightarrow> shop_db \<Rightarrow> shop_reply \<times> shop_db" where
  "refund k db =
     (case row_get so_pk k (sd_orders db) of
        None \<Rightarrow> (Shop_error 404, db)
      | Some _ \<Rightarrow> (case refund_order k db of None \<Rightarrow> (Shop_error 400, db) | Some db1 \<Rightarrow> (Shop_done, db1)))"

text \<open>\<^verbatim>\<open>ClientOrderViewSet.cancel\<close>\<close>

definition customer_cancel :: "datetime \<Rightarrow> pk \<Rightarrow> pk \<Rightarrow> shop_db \<Rightarrow> shop_reply \<times> shop_db" where
  "customer_cancel now u k db =
     (case find (\<lambda>o'. so_pk o' = k \<and> so_client o' = u) (sd_orders db) of
        None \<Rightarrow> (Shop_error 404, db)
      | Some o' \<Rightarrow>
          if so_status o' \<notin> {So_pending, So_confirmed} then (Shop_error 400, db)
          else (Shop_done, snd (cancel_order now o' db)))"

subsection \<open>Free-form edits\<close>

text \<open>The columns the serializer accepts for an order, with the values as its fields have validated them
  (choices, keys that exist, amounts with two decimal places); the theorems hold for all values.\<close>

record order_patch =
  up_client :: "pk option"
  up_status :: "shop_status option"
  up_pay :: "pay_status option"
  up_method :: "string option"
  up_total :: "decimal option"
  up_subtotal :: "decimal option"
  up_discount :: "decimal option"
  up_shipping :: "decimal option"
  up_tax :: "decimal option"
  up_promo :: "pk option option"
  up_confirmed_at :: "datetime option option"
  up_cancelled_at :: "datetime option option"

text \<open>A request that names no column.\<close>

definition no_patch :: order_patch where
  "no_patch = \<lparr>up_client = None, up_status = None, up_pay = None, up_method = None, up_total = None, up_subtotal = None,
     up_discount = None, up_shipping = None, up_tax = None, up_promo = None, up_confirmed_at = None, up_cancelled_at = None\<rparr>"

definition patch_order :: "order_patch \<Rightarrow> shop_order \<Rightarrow> shop_order" where
  "patch_order up o' = o'\<lparr>so_client := or_keep (up_client up) (so_client o'),
     so_status := or_keep (up_status up) (so_status o'), so_pay := or_keep (up_pay up) (so_pay o'),
     so_method := or_keep (up_method up) (so_method o'), so_total := or_keep (up_total up) (so_total o'),
     so_subtotal := or_keep (up_subtotal up) (so_subtotal o'), so_discount := or_keep (up_discount up) (so_discount o'),
     so_shipping := or_keep (up_shipping up) (so_shipping o'), so_tax := or_keep (up_tax up) (so_tax o'),
     so_promo := or_keep (up_promo up) (so_promo o'), so_confirmed_at := or_keep (up_confirmed_at up) (so_confirmed_at o'),
     so_cancelled_at := or_keep (up_cancelled_at up) (so_cancelled_at o')\<rparr>"

text \<open>\<^verbatim>\<open>OrderViewSet.perform_update\<close>, for managers: a change of the status follows the rules above.  The
  block is a transaction, so a refused status takes the other columns back.\<close>

definition admin_update_order :: "datetime \<Rightarrow> pk \<Rightarrow> order_patch \<Rightarrow> shop_db \<Rightarrow> shop_reply \<times> shop_db" where
  "admin_update_order now k up db =
     (case row_get so_pk k (sd_orders db) of
        None \<Rightarrow> (Shop_error 404, db)
      | Some o' \<Rightarrow>
          (case up_status up of
             None \<Rightarrow> (Shop_done, save_shop_order (patch_order up o') db)
           | Some s \<Rightarrow>
               if s = so_status o' then (Shop_done, save_shop_order (patch_order up o') db)
               else if terminal (so_status o') then (Shop_error 400, db)
               else if terminal s
               then (let db1 = save_shop_order (patch_order (up\<lparr>up_status := None\<rparr>) o') db
                     in case apply_order_status now True k s db1 of Inl _ \<Rightarrow> (Shop_error 400, db) | Inr db2 \<Rightarrow> (Shop_done, db2))
               else (Shop_done, save_shop_order (stamp_status now s (patch_order up o')) db)))"

text \<open>\<^verbatim>\<open>ClientOrderViewSet\<close> is a full \<^verbatim>\<open>ModelViewSet\<close> whose serializer has the same writable columns: a
  customer may write and delete their own orders.\<close>

definition client_update_order :: "pk \<Rightarrow> pk \<Rightarrow> order_patch \<Rightarrow> shop_db \<Rightarrow> shop_reply \<times> shop_db" where
  "client_update_order u k up db =
     (case find (\<lambda>o'. so_pk o' = k \<and> so_client o' = u) (sd_orders db) of
        None \<Rightarrow> (Shop_error 404, db)
      | Some o' \<Rightarrow> (Shop_done, save_shop_order (patch_order up o') db))"

text \<open>Deleting an order takes its lines with it; neither stock nor promo use is given back.\<close>

definition delete_order :: "pk \<Rightarrow> shop_db \<Rightarrow> shop_db" where
  "delete_order k db =
     db\<lparr>sd_orders := row_delete so_pk k (sd_orders db), sd_items := filter (\<lambda>it. oi_order it \<noteq> k) (sd_items db)\<rparr>"

definition client_delete_order :: "pk \<Rightarrow> pk \<Rightarrow> shop_db \<Rightarrow> shop_reply \<times> shop_db" where
  "client_delete_order u k db =
     (case find (\<lambda>o'. so_pk o' = k \<and> so_client o' = u) (sd_orders db) of
        None \<Rightarrow> (Shop_error 404, db)
      | Some _ \<Rightarrow> (Shop_done, delete_order k db))"

text \<open>\<^verbatim>\<open>OrderViewSet.destroy\<close>, for managers.\<close>

definition destroy_order :: "pk \<Rightarrow> shop_db \<Rightarrow> shop_reply \<times> shop_db" where
  "destroy_order k db = (if k \<in> so_pk ` set (sd_orders db) then (Shop_done, delete_order k db) else (Shop_error 404, db))"

subsection \<open>Payments by staff\<close>

definition mark_order_paid :: "datetime \<Rightarrow> pk \<Rightarrow> shop_db \<Rightarrow> shop_reply \<times> shop_db" where
  "mark_order_paid now k db =
     (case row_get so_pk k (sd_orders db) of
        None \<Rightarrow> (Shop_error 404, db)
      | Some o' \<Rightarrow>
          if so_pay o' = Pay_paid then (Shop_error 400, db)
          else if so_pay o' \<in> {Pay_refunded, Pay_partially_refunded} \<or> terminal (so_status o') then (Shop_error 400, db)
          else (let paid = o'\<lparr>so_pay := Pay_paid, so_paid_at := Some now\<rparr>
                in (Shop_done, save_shop_order (if so_status o' = So_pending then stamp_status now So_confirmed paid else paid) db)))"

definition initiate_payment :: "shop_gateway \<Rightarrow> string \<Rightarrow> pk \<Rightarrow> shop_db \<Rightarrow> shop_reply \<times> shop_db" where
  "initiate_payment g payment_method k db =
     (case row_get so_pk k (sd_orders db) of
        None \<Rightarrow> (Shop_error 404, db)
      | Some o' \<Rightarrow>
          if so_pay o' = Pay_paid \<or> terminal (so_status o') then (Shop_error 400, db)
          else if so_url o' \<noteq> None \<and> so_url o' \<noteq> Some '''' \<and> so_pay o' = Pay_pending then (Shop_done, db)
          else if payment_method = ''cash_on_delivery'' then (Shop_done, save_shop_order (cash_order o') db)
          else if \<not> (case sd_settings db of Some s \<Rightarrow> ss_bog s | None \<Rightarrow> False) then (Shop_error 400, db)
          else if \<not> sg_ready g then (Shop_error 503, db)
          else (case sg_hosted g ''bog'' (so_number o') (so_total o') of
                  None \<Rightarrow> (Shop_error 500, db)
                | Some (b, url) \<Rightarrow> (Shop_done, save_shop_order (no_metadata (hosted ''bog'' b url o')) db)))"

subsection \<open>The sweeper\<close>

definition unpaid_grace_hours :: int where
  "unpaid_grace_hours = 24"

definition abandoned :: "datetime \<Rightarrow> shop_order \<Rightarrow> bool" where
  "abandoned now o' \<longleftrightarrow> so_status o' = So_pending \<and> so_pay o' \<in> {Pay_pending, Pay_failed}
     \<and> so_created o' < now - unpaid_grace_hours * us_per_hour \<and> so_method o' \<noteq> ''cash_on_delivery''"

definition cancel_unpaid_orders :: "datetime \<Rightarrow> shop_db \<Rightarrow> shop_db" where
  "cancel_unpaid_orders now db = fold (\<lambda>o' d. snd (cancel_order now o' d)) (filter (abandoned now) (sd_orders db)) db"

subsection \<open>Stock corrections\<close>

text \<open>\<^verbatim>\<open>adjust_stock\<close> of products and variants; None stands for a delta that is no integer.\<close>

definition adjust_product_stock :: "pk \<Rightarrow> int option \<Rightarrow> shop_db \<Rightarrow> shop_reply \<times> shop_db" where
  "adjust_product_stock k delta db =
     (if k \<notin> pr_pk ` set (sd_products db) then (Shop_error 404, db)
      else case delta of None \<Rightarrow> (Shop_error 400, db)
           | Some d \<Rightarrow> if d = 0 then (Shop_error 400, db) else (Shop_done, add_stock k d db))"

definition adjust_variant_stock :: "pk \<Rightarrow> int option \<Rightarrow> shop_db \<Rightarrow> shop_reply \<times> shop_db" where
  "adjust_variant_stock k delta db =
     (if k \<notin> va_pk ` set (sd_variants db) then (Shop_error 404, db)
      else case delta of None \<Rightarrow> (Shop_error 400, db)
           | Some d \<Rightarrow> if d = 0 then (Shop_error 400, db) else (Shop_done, add_variant_stock k d db))"

definition open_order_statuses :: "shop_status list" where
  "open_order_statuses = [So_pending, So_confirmed, So_processing, So_shipped]"

text \<open>\<^verbatim>\<open>_open_orders_conflict\<close>: the open orders with a line that satisfies a condition.\<close>

definition open_orders_conflict :: "(shop_item \<Rightarrow> bool) \<Rightarrow> shop_db \<Rightarrow> bool" where
  "open_orders_conflict P db \<longleftrightarrow>
     (\<exists>o' \<in> set (sd_orders db). so_status o' \<in> set open_order_statuses \<and> (\<exists>it \<in> set (items_of (so_pk o') db). P it))"

text \<open>Deleting a variant or a product: order lines lose the link, cart lines go.\<close>

definition destroy_variant :: "pk \<Rightarrow> shop_db \<Rightarrow> shop_reply \<times> shop_db" where
  "destroy_variant k db =
     (if k \<notin> va_pk ` set (sd_variants db) then (Shop_error 404, db)
      else if open_orders_conflict (\<lambda>it. oi_variant it = Some k) db then (Shop_error 409, db)
      else (Shop_done, db\<lparr>sd_variants := row_delete va_pk k (sd_variants db),
              sd_items := map (\<lambda>it. if oi_variant it = Some k then it\<lparr>oi_variant := None\<rparr> else it) (sd_items db),
              sd_cart_items := filter (\<lambda>i. ci_variant i \<noteq> Some k) (sd_cart_items db)\<rparr>))"

section \<open>Payments and customers\<close>

datatype hook_answer = Hook_success | Hook_again | Hook_conflict | Hook_not_confirmed | Hook_card pk | Hook_noted | Hook_failed nat

subsection \<open>What a notification does to an order\<close>

text \<open>\<^verbatim>\<open>_payment_callback_blocked\<close>\<close>

definition payment_callback_blocked :: "shop_order \<Rightarrow> bool" where
  "payment_callback_blocked o' \<longleftrightarrow> terminal (so_status o') \<or> so_pay o' \<in> {Pay_refunded, Pay_partially_refunded}"

definition paid_order :: "datetime \<Rightarrow> string \<Rightarrow> shop_order \<Rightarrow> shop_order" where
  "paid_order now provider o' = o'\<lparr>so_pay := Pay_paid, so_paid_at := Some now, so_status := So_confirmed, so_confirmed_at := Some now,
     so_provider := (if so_provider o' = '''' then provider else so_provider o')\<rparr>"

text \<open>The part that the three handlers share, under the lock of the order.\<close>

definition settle_order :: "datetime \<Rightarrow> string \<Rightarrow> string \<Rightarrow> shop_db \<Rightarrow> hook_answer \<times> shop_db" where
  "settle_order now provider order_number db =
     (case row_get so_number order_number (sd_orders db) of
        None \<Rightarrow> (Hook_failed 404, db)
      | Some o' \<Rightarrow>
          if so_pay o' = Pay_paid \<and> so_paid_at o' \<noteq> None then (Hook_again, db)
          else if payment_callback_blocked o' then (Hook_conflict, db)
          else (Hook_success, save_shop_order (paid_order now provider o') db))"

definition fail_order :: "string \<Rightarrow> shop_db \<Rightarrow> hook_answer \<times> shop_db" where
  "fail_order order_number db =
     (case row_get so_number order_number (sd_orders db) of
        None \<Rightarrow> (Hook_noted, db)
      | Some o' \<Rightarrow>
          if so_pay o' = Pay_paid then (Hook_noted, db)
          else if so_pay o' \<in> {Pay_refunded, Pay_partially_refunded} \<or> so_status o' = So_refunded then (Hook_noted, db)
          else (Hook_noted, save_shop_order (o'\<lparr>so_pay := Pay_failed\<rparr>) db))"

subsection \<open>Bank of Georgia\<close>

text \<open>A verdict on a claimed payment: confirmed, or the answer to give.\<close>

definition confirm_payment :: "shop_gateway \<Rightarrow> string \<Rightarrow> hook_answer option" where
  "confirm_payment g bog =
     (if \<not> sg_ready g then Some (Hook_failed 503)
      else case receipt_of (sg_bank g) bog of
             None \<Rightarrow> Some (Hook_failed 503)
           | Some c \<Rightarrow>
               if rv_status c \<in> {''error'', ''unknown''} then Some (Hook_failed 503)
               else if rv_bog c = Some ''completed'' \<and> rv_code c = Some ''100'' then None
               else Some Hook_not_confirmed)"

text \<open>The validation of a new card: \<^verbatim>\<open>card_{client}_{random}\<close>.  The default flag is computed before the
  card is looked up, so an update of the only active card of a customer clears it.\<close>

definition save_validated_card :: "string \<Rightarrow> string \<Rightarrow> string \<Rightarrow> shop_db \<Rightarrow> hook_answer \<times> shop_db" where
  "save_validated_card order_number bog masked db =
     (case split_on (CHR ''_'') order_number of
        _ # part # _ \<Rightarrow>
          (case read_int part of
             None \<Rightarrow> (Hook_failed 400, db)
           | Some n \<Rightarrow>
               if n < 0 \<or> nat n \<notin> cl_pk ` set (sd_clients db) then (Hook_failed 400, db)
               else (let u = nat n;
                         lone = \<not> (\<exists>c \<in> set (sd_cards db). cc_client c = u \<and> cc_active c)
                     in case row_get cc_parent bog (sd_cards db) of
                          Some c \<Rightarrow> (Hook_card (cc_pk c), save_client_card (c\<lparr>cc_client := u, cc_masked := masked, cc_active := True, cc_default := lone\<rparr>) db)
                        | None \<Rightarrow>
                            (let k = next_pk cc_pk (sd_cards db)
                             in (Hook_card k, save_client_card \<lparr>cc_pk = k, cc_client = u, cc_parent = bog, cc_masked = masked,
                                   cc_default = lone, cc_active = True\<rparr> db))))
      | _ \<Rightarrow> (Hook_failed 400, db))"

record bank_notice =
  bn_event :: string
  bn_number :: "string option"
  bn_bog :: "string option"
  bn_status :: string
  bn_code :: string
  bn_masked :: string

definition ecommerce_payment_webhook :: "shop_gateway \<Rightarrow> datetime \<Rightarrow> bank_notice \<Rightarrow> shop_db \<Rightarrow> hook_answer \<times> shop_db" where
  "ecommerce_payment_webhook g now n db =
     (if bn_event n \<noteq> ''order_payment'' then (Hook_failed 400, db)
      else if bn_status n = ''completed'' \<and> bn_code n = ''100''
      then (case (bn_number n, bn_bog n) of
              (Some order_number, Some bog) \<Rightarrow>
                if order_number = '''' \<or> bog = '''' then (Hook_failed 400, db)
                else (case confirm_payment g bog of
                        Some r \<Rightarrow> (r, db)
                      | None \<Rightarrow> if starts_with ''card_'' order_number then save_validated_card order_number bog (bn_masked n) db
                               else settle_order now ''bog'' order_number db)
            | _ \<Rightarrow> (Hook_failed 400, db))
      else if bn_status n = ''rejected''
      then (case bn_number n of None \<Rightarrow> (Hook_noted, db) | Some order_number \<Rightarrow> fail_order order_number db)
      else (Hook_noted, db))"

subsection \<open>The other providers\<close>

text \<open>TBC does not sign its notifications, and the handler does not ask back.\<close>

definition tbc_payment_webhook :: "datetime \<Rightarrow> string \<Rightarrow> string \<Rightarrow> shop_db \<Rightarrow> hook_answer \<times> shop_db" where
  "tbc_payment_webhook now status order_number db =
     (if order_number = '''' then (Hook_failed 400, db)
      else if lower status \<in> {''succeeded'', ''completed''} then settle_order now ''tbc'' order_number db
      else if lower status \<in> {''failed'', ''rejected'', ''expired''} then fail_order order_number db
      else (Hook_noted, db))"

text \<open>\<open>signed\<close>: a signature came with the notification and verified.\<close>

definition flitt_payment_webhook :: "datetime \<Rightarrow> bool \<Rightarrow> string \<Rightarrow> string \<Rightarrow> shop_db \<Rightarrow> hook_answer \<times> shop_db" where
  "flitt_payment_webhook now signed status order_number db =
     (if order_number = '''' then (Hook_failed 400, db)
      else if \<not> signed then (Hook_failed 403, db)
      else if lower status = ''approved'' then settle_order now ''flitt'' order_number db
      else if lower status \<in> {''declined'', ''expired'', ''reversed''} then fail_order order_number db
      else (Hook_noted, db))"

subsection \<open>The courier\<close>

definition courier_status :: "string \<Rightarrow> shop_status option" where
  "courier_status s =
     (if s \<in> {''pickedup'', ''picked_up'', ''pickup'', ''inprogress'', ''in_progress'', ''delivering'', ''shipping''} then Some So_shipped
      else if s \<in> {''delivered'', ''finished'', ''completed''} then Some So_delivered
      else if s \<in> {''cancelled'', ''canceled'', ''rejected'', ''failed''} then Some So_cancelled
      else None)"

text \<open>A status only moves forward, and a delivery that failed cancels the order.\<close>

definition courier_moves :: "datetime \<Rightarrow> shop_status option \<Rightarrow> shop_order \<Rightarrow> shop_db \<Rightarrow> shop_db" where
  "courier_moves now reported o' db =
     (if reported = Some So_shipped \<and> so_status o' \<notin> {So_shipped, So_delivered, So_cancelled, So_refunded}
      then save_shop_order (o'\<lparr>so_status := So_shipped\<rparr>) db
      else if reported = Some So_delivered \<and> so_status o' \<notin> {So_delivered, So_cancelled, So_refunded}
      then save_shop_order (o'\<lparr>so_status := So_delivered\<rparr>) db
      else if reported = Some So_cancelled \<and> so_status o' \<notin> {So_delivered, So_refunded, So_cancelled}
      then snd (cancel_order now o' db)
      else db)"

text \<open>\<open>signed\<close>: the secret or the signature is missing, or the signature is right.  \<open>known\<close>: the key of the
  order with the courier's tracking number, a column that is not modelled.\<close>

definition quickshipper_webhook :: "datetime \<Rightarrow> bool \<Rightarrow> string \<Rightarrow> pk option \<Rightarrow> string \<Rightarrow> shop_db \<Rightarrow> hook_answer \<times> shop_db" where
  "quickshipper_webhook now signed integration_order_id known new_status db =
     (let named = (if integration_order_id = '''' then None else row_get so_number integration_order_id (sd_orders db))
      in if sd_settings db = None then (Hook_failed 404, db)
         else if \<not> signed then (Hook_failed 401, db)
         else case (if named \<noteq> None then named else Option.bind known (\<lambda>k. row_get so_pk k (sd_orders db))) of
           None \<Rightarrow> (Hook_failed 404, db)
         | Some o' \<Rightarrow> (Hook_success, courier_moves now (courier_status (lower (strip new_status))) o' db))"

subsection \<open>What customers keep\<close>

definition list_client_cards :: "pk \<Rightarrow> shop_db \<Rightarrow> client_card list" where
  "list_client_cards u db = filter (\<lambda>c. cc_client c = u \<and> cc_active c) (sd_cards db)"

definition delete_client_card :: "pk \<Rightarrow> pk \<Rightarrow> shop_db \<Rightarrow> shop_reply \<times> shop_db" where
  "delete_client_card u k db =
     (case find (\<lambda>c. cc_pk c = k \<and> cc_client c = u) (sd_cards db) of
        None \<Rightarrow> (Shop_error 404, db)
      | Some c \<Rightarrow> (Shop_done, save_client_card (c\<lparr>cc_active := False\<rparr>) db))"

definition set_default_client_card :: "pk \<Rightarrow> pk \<Rightarrow> shop_db \<Rightarrow> shop_reply \<times> shop_db" where
  "set_default_client_card u k db =
     (case find (\<lambda>c. cc_pk c = k \<and> cc_client c = u \<and> cc_active c) (sd_cards db) of
        None \<Rightarrow> (Shop_error 404, db)
      | Some c \<Rightarrow> (Shop_done, save_client_card (c\<lparr>cc_default := True\<rparr>) db))"

definition set_default_address :: "pk \<Rightarrow> pk \<Rightarrow> shop_db \<Rightarrow> shop_reply \<times> shop_db" where
  "set_default_address u k db =
     (case find (\<lambda>a. ad_pk a = k \<and> ad_client a = u) (sd_addresses db) of
        None \<Rightarrow> (Shop_error 404, db)
      | Some a \<Rightarrow> (Shop_done, save_address (a\<lparr>ad_default := True\<rparr>) db))"

text \<open>\<^verbatim>\<open>validate_promo_code\<close>: the discount, None when the code is refused.\<close>

definition validate_promo_code :: "datetime \<Rightarrow> string \<Rightarrow> decimal \<Rightarrow> shop_db \<Rightarrow> decimal option" where
  "validate_promo_code now code subtotal db =
     (case find_promo code db of
        None \<Rightarrow> None
      | Some p \<Rightarrow> if promo_is_valid now (Some subtotal) p then Some (calculate_discount subtotal p) else None)"

text \<open>\<^verbatim>\<open>PromoCodeSerializer.validate\<close>, on the values after the edit.\<close>

definition promo_fields_ok :: "promo_code \<Rightarrow> bool" where
  "promo_fields_ok p \<longleftrightarrow> 0 < pm_value p \<and> (pm_percentage p \<longrightarrow> pm_value p \<le> 100) \<and> pm_from p < pm_until p"

text \<open>Whether a review counts as a verified purchase (\<^verbatim>\<open>ClientProductReviewViewSet.create\<close>).\<close>

definition verified_purchase :: "pk \<Rightarrow> pk \<Rightarrow> shop_db \<Rightarrow> bool" where
  "verified_purchase u k db \<longleftrightarrow>
     (\<exists>it \<in> set (sd_items db). oi_product it = Some k
        \<and> (\<exists>o' \<in> set (sd_orders db). so_pk o' = oi_order it \<and> so_client o' = u \<and> so_status o' = So_delivered))"

end
