(* ===== verification/Shop_Stock.thy ===== *)
theory Shop_Stock
  imports Shop_Payments
begin

text \<open>
  Facts about the stock of the shop.  A \<open>shelf\<close> is the stock of a product or of a variant;
  \<open>on_shelf\<close> is what the database shows there, \<open>claim\<close> what an order line took from it.  Reserving
  and releasing move quantities between the two, and \<open>held\<close> adds the claims of all open orders.
\<close>

datatype shelf = Of_product pk | Of_variant pk

definition tracked :: "pk \<Rightarrow> shop_db \<Rightarrow> bool" where
  "tracked k db \<longleftrightarrow> (\<exists>p \<in> set (sd_products db). pr_pk p = k \<and> pr_tracked p)"

fun on_shelf :: "shelf \<Rightarrow> shop_db \<Rightarrow> int" where
  "on_shelf (Of_product k) db = (\<Sum>p\<leftarrow>sd_products db. if pr_pk p = k then pr_quantity p else 0)"
| "on_shelf (Of_variant k) db = (\<Sum>v\<leftarrow>sd_variants db. if va_pk v = k then va_quantity v else 0)"

fun shelf_exists :: "shelf \<Rightarrow> shop_db \<Rightarrow> bool" where
  "shelf_exists (Of_product k) db \<longleftrightarrow> k \<in> pr_pk ` set (sd_products db)"
| "shelf_exists (Of_variant k) db \<longleftrightarrow> k \<in> va_pk ` set (sd_variants db)"

text \<open>What a quantity of a product and perhaps a variant takes from a shelf.\<close>

fun takes :: "shelf \<Rightarrow> pk \<Rightarrow> pk option \<Rightarrow> int \<Rightarrow> int" where
  "takes (Of_product j) k w n = (if j = k then n else 0)"
| "takes (Of_variant j) k w n = (if w = Some j then n else 0)"

definition claim :: "shelf \<Rightarrow> shop_db \<Rightarrow> shop_item \<Rightarrow> int" where
  "claim s db it = (case oi_product it of
     Some k \<Rightarrow> if tracked k db then takes s k (oi_variant it) (oi_quantity it) else 0 | None \<Rightarrow> 0)"

definition claim_line :: "shelf \<Rightarrow> shop_db \<Rightarrow> basket_line \<Rightarrow> int" where
  "claim_line s db l = (if tracked (pr_pk (bl_product l)) db
     then takes s (pr_pk (bl_product l)) (map_option va_pk (bl_variant l)) (bl_quantity l) else 0)"

text \<open>Two databases with the same products and variants, up to quantities.\<close>

definition same_goods :: "shop_db \<Rightarrow> shop_db \<Rightarrow> bool" where
  "same_goods a b \<longleftrightarrow> map (\<lambda>p. (pr_pk p, pr_tracked p)) (sd_products a) = map (\<lambda>p. (pr_pk p, pr_tracked p)) (sd_products b)
     \<and> map va_pk (sd_variants a) = map va_pk (sd_variants b)"

definition keyed_goods :: "shop_db \<Rightarrow> bool" where
  "keyed_goods db \<longleftrightarrow> distinct (map pr_pk (sd_products db)) \<and> distinct (map va_pk (sd_variants db))"

definition stocked :: "shop_db \<Rightarrow> bool" where
  "stocked db \<longleftrightarrow> (\<forall>p \<in> set (sd_products db). 0 \<le> pr_quantity p) \<and> (\<forall>v \<in> set (sd_variants db). 0 \<le> va_quantity v)"

lemma same_goods_refl [simp]: "same_goods a a"
  by (simp add: same_goods_def)

lemma same_goods_trans: "same_goods a b \<Longrightarrow> same_goods b c \<Longrightarrow> same_goods a c"
  by (simp add: same_goods_def)

lemma tracked_alt: "tracked k db \<longleftrightarrow> (k, True) \<in> set (map (\<lambda>p. (pr_pk p, pr_tracked p)) (sd_products db))"
  by (force simp: tracked_def)

lemma map_pk_goods: "map pr_pk ps = map fst (map (\<lambda>p. (pr_pk p, pr_tracked p)) ps)"
  by simp

lemma same_goods_facts:
  assumes "same_goods a b"
  shows "tracked k a = tracked k b" "keyed_goods a = keyed_goods b" "shelf_exists s a = shelf_exists s b"
    "claim s a = claim s b" "claim_line s a = claim_line s b"
    "pr_pk ` set (sd_products a) = pr_pk ` set (sd_products b)"
proof -
  have p: "map (\<lambda>p. (pr_pk p, pr_tracked p)) (sd_products a) = map (\<lambda>p. (pr_pk p, pr_tracked p)) (sd_products b)"
    and v: "map va_pk (sd_variants a) = map va_pk (sd_variants b)" using assms by (auto simp: same_goods_def)
  have m: "map pr_pk (sd_products a) = map pr_pk (sd_products b)" unfolding map_pk_goods p ..
  show t: "tracked k a = tracked k b" for k by (simp only: tracked_alt p)
  show "keyed_goods a = keyed_goods b" by (simp only: keyed_goods_def m v)
  show g: "pr_pk ` set (sd_products a) = pr_pk ` set (sd_products b)" by (simp only: m flip: set_map)
  show "shelf_exists s a = shelf_exists s b"
    using g arg_cong [OF v, of set] by (cases s) simp_all
  show "claim s a = claim s b" by (simp add: fun_eq_iff claim_def t split: option.splits)
  show "claim_line s a = claim_line s b" by (simp add: fun_eq_iff claim_line_def t)
qed

lemma tracked_unique:
  assumes "keyed_goods db" and "p \<in> set (sd_products db)"
  shows "tracked (pr_pk p) db = pr_tracked p"
  using assms by (auto simp: tracked_def keyed_goods_def dest: unique_key)

lemma sum_add_matching:
  fixes w :: "'r \<Rightarrow> int"
  assumes "distinct (map key t)" and "j \<in> key ` set t"
  shows "(\<Sum>x\<leftarrow>t. if key x = k then (if key x = j then w x + n else w x) else 0)
    = (\<Sum>x\<leftarrow>t. if key x = k then w x else 0) + (if k = j then n else 0)"
  using assms
proof (induction t)
  case Nil
  then show ?case by simp
next
  case (Cons a t)
  have none: "key a \<notin> key ` set t" using Cons.prems by simp
  show ?case
  proof (cases "j \<in> key ` set t")
    case True
    then have "key a \<noteq> j" using none by auto
    with Cons True show ?thesis by auto
  next
    case False
    then have "(\<Sum>x\<leftarrow>t. if key x = k then (if key x = j then w x + n else w x) else 0) = (\<Sum>x\<leftarrow>t. if key x = k then w x else 0)"
      by (intro arg_cong [where f = sum_list] map_cong) auto
    with False Cons.prems show ?thesis by auto
  qed
qed

subsection \<open>Releasing\<close>

lemma add_stock_shelf:
  assumes "keyed_goods db" and "k \<in> pr_pk ` set (sd_products db)"
  shows "on_shelf (Of_product j) (add_stock k n db) = on_shelf (Of_product j) db + (if j = k then n else 0)"
    "on_shelf (Of_variant j) (add_stock k n db) = on_shelf (Of_variant j) db"
proof -
  have "(\<Sum>p\<leftarrow>sd_products (add_stock k n db). if pr_pk p = j then pr_quantity p else 0)
    = (\<Sum>p\<leftarrow>sd_products db. if pr_pk p = j then (if pr_pk p = k then pr_quantity p + n else pr_quantity p) else 0)"
    by (auto simp: add_stock_def comp_def intro!: arg_cong [where f = sum_list])
  also have "\<dots> = on_shelf (Of_product j) db + (if j = k then n else 0)"
    using assms by (simp add: keyed_goods_def sum_add_matching)
  finally show "on_shelf (Of_product j) (add_stock k n db) = on_shelf (Of_product j) db + (if j = k then n else 0)" by simp
  show "on_shelf (Of_variant j) (add_stock k n db) = on_shelf (Of_variant j) db" by (simp add: add_stock_def)
qed

lemma add_variant_stock_shelf:
  assumes "keyed_goods db" and "j \<in> va_pk ` set (sd_variants db)"
  shows "on_shelf (Of_variant j) (add_variant_stock k n db) = on_shelf (Of_variant j) db + (if j = k then n else 0)"
    "on_shelf (Of_product i) (add_variant_stock k n db) = on_shelf (Of_product i) db"
proof -
  have s: "(\<Sum>v\<leftarrow>sd_variants (add_variant_stock k n db). if va_pk v = j then va_quantity v else 0)
    = (\<Sum>v\<leftarrow>sd_variants db. if va_pk v = j then (if va_pk v = k then va_quantity v + n else va_quantity v) else 0)"
    by (auto simp: add_variant_stock_def comp_def intro!: arg_cong [where f = sum_list])
  show "on_shelf (Of_variant j) (add_variant_stock k n db) = on_shelf (Of_variant j) db + (if j = k then n else 0)"
  proof (cases "k \<in> va_pk ` set (sd_variants db)")
    case True
    with s assms show ?thesis by (simp add: keyed_goods_def sum_add_matching)
  next
    case False
    then have "j \<noteq> k" using assms(2) by auto
    then have "(\<Sum>v\<leftarrow>sd_variants db. if va_pk v = j then (if va_pk v = k then va_quantity v + n else va_quantity v) else 0)
      = (\<Sum>v\<leftarrow>sd_variants db. if va_pk v = j then va_quantity v else 0)"
      by (intro arg_cong [where f = sum_list] map_cong) auto
    with s \<open>j \<noteq> k\<close> show ?thesis by simp
  qed
  show "on_shelf (Of_product i) (add_variant_stock k n db) = on_shelf (Of_product i) db" by (simp add: add_variant_stock_def)
qed

lemma add_stock_goods [simp]: "same_goods (add_stock k n db) db" "same_goods (add_variant_stock k n db) db"
  by (auto simp: same_goods_def add_stock_def add_variant_stock_def comp_def)

lemma release_stock_goods: "same_goods (release_stock it db) db"
  unfolding release_stock_def Let_def
  by (auto split: option.splits intro: same_goods_trans [OF add_stock_goods(2) add_stock_goods(1)])

lemma release_stock_shelf:
  assumes "keyed_goods db" and "shelf_exists s db"
  shows "on_shelf s (release_stock it db) = on_shelf s db + claim s db it"
proof (cases "Option.bind (oi_product it) (\<lambda>k. row_get pr_pk k (sd_products db))")
  case None
  then have "claim s db it = 0" by (cases "oi_product it") (auto simp: claim_def tracked_def row_get_None)
  with None show ?thesis unfolding release_stock_def None by simp
next
  case (Some p)
  then have k: "oi_product it = Some (pr_pk p)" and p: "p \<in> set (sd_products db)"
    by (auto simp: bind_eq_Some_conv dest: row_get_Some)
  have t: "tracked (pr_pk p) db = pr_tracked p" by (rule tracked_unique [OF assms(1) p])
  let ?d = "add_stock (pr_pk p) (oi_quantity it) db"
  have g: "same_goods ?d db" by simp
  have kd: "keyed_goods ?d" using assms(1) same_goods_facts(2) [OF g] by simp
  have ex: "shelf_exists s ?d" using assms(2) same_goods_facts(3) [OF g] by simp
  have a: "on_shelf s ?d = on_shelf s db + (case s of Of_product j \<Rightarrow> if j = pr_pk p then oi_quantity it else 0 | Of_variant _ \<Rightarrow> 0)"
    using add_stock_shelf [OF assms(1), of "pr_pk p"] p by (cases s) auto
  show ?thesis
  proof (cases s)
    case (Of_product j)
    with Some k t a show ?thesis
      by (auto simp: release_stock_def claim_def Let_def add_variant_stock_def split: option.splits)
  next
    case (Of_variant j)
    then have "on_shelf s (add_variant_stock w n ?d) = on_shelf s ?d + (if j = w then n else 0)" for w n
      using add_variant_stock_shelf [OF kd] ex by simp
    with Of_variant Some k t a show ?thesis
      by (auto simp: release_stock_def claim_def Let_def split: option.splits)
  qed
qed

lemma fold_release_goods: "same_goods (fold release_stock its db) db"
proof (induction its arbitrary: db)
  case (Cons it its)
  show ?case using same_goods_trans [OF Cons.IH [of "release_stock it db"] release_stock_goods] by simp
qed simp

lemma fold_release_shelf:
  assumes "keyed_goods db" and "shelf_exists s db"
  shows "on_shelf s (fold release_stock its db) = on_shelf s db + (\<Sum>it\<leftarrow>its. claim s db it)"
  using assms
proof (induction its arbitrary: db)
  case (Cons it its)
  note g = release_stock_goods [of it db]
  have "on_shelf s (fold release_stock its (release_stock it db))
    = on_shelf s (release_stock it db) + (\<Sum>it\<leftarrow>its. claim s db it)"
    using Cons.IH [of "release_stock it db"] Cons.prems same_goods_facts [OF g] by simp
  then show ?case using release_stock_shelf Cons.prems by simp
qed simp

subsection \<open>Reserving\<close>

text \<open>A line of a basket whose product is one of the database.\<close>

definition fair_line :: "shop_db \<Rightarrow> basket_line \<Rightarrow> bool" where
  "fair_line db l \<longleftrightarrow>
     (\<exists>p \<in> set (sd_products db). pr_pk p = pr_pk (bl_product l) \<and> pr_tracked p = pr_tracked (bl_product l))"

definition goods_frame :: "shop_db \<Rightarrow> shop_db \<Rightarrow> bool" where
  "goods_frame a b \<longleftrightarrow> b = a\<lparr>sd_products := sd_products b, sd_variants := sd_variants b\<rparr>"

lemma goods_frame_refl [simp]: "goods_frame a a"
  by (simp add: goods_frame_def)

lemma goods_frame_rest:
  assumes "goods_frame a b"
  shows "sd_clients b = sd_clients a" "sd_addresses b = sd_addresses a" "sd_cards b = sd_cards a" "sd_carts b = sd_carts a"
    "sd_cart_items b = sd_cart_items a" "sd_promos b = sd_promos a" "sd_shipping b = sd_shipping a" "sd_orders b = sd_orders a"
    "sd_items b = sd_items a" "sd_settings b = sd_settings a"
  by (subst assms [unfolded goods_frame_def], simp)+

lemma goods_frame_trans:
  assumes "goods_frame a b" and "goods_frame b c"
  shows "goods_frame a c"
  using goods_frame_rest [OF assms(1)] goods_frame_rest [OF assms(2)] unfolding goods_frame_def
  by (intro shop_db.equality) simp_all

lemma release_stock_frame: "goods_frame db (release_stock it db)"
  unfolding release_stock_def Let_def
  by (auto simp: goods_frame_def add_stock_def add_variant_stock_def split: option.splits)

lemma fold_release_frame: "goods_frame db (fold release_stock its db)"
proof (induction its arbitrary: db)
  case (Cons it its)
  show ?case using goods_frame_trans [OF release_stock_frame Cons.IH [of "release_stock it db"]] by simp
qed simp

lemma same_goods_save:
  assumes "keyed_goods db"
  shows "q \<in> set (sd_products db) \<Longrightarrow> same_goods (save_product (q\<lparr>pr_quantity := n\<rparr>) db) db"
    "w \<in> set (sd_variants db) \<Longrightarrow> same_goods (save_variant (w\<lparr>va_quantity := n\<rparr>) db) db"
  using assms by (auto simp: same_goods_def save_product_def save_variant_def keyed_goods_def intro!: map_row_save_same)

lemma save_product_shelf:
  assumes "keyed_goods db" and "q \<in> set (sd_products db)"
  shows "on_shelf s (save_product (q\<lparr>pr_quantity := pr_quantity q - n\<rparr>) db)
    = on_shelf s db - (case s of Of_product j \<Rightarrow> takes s (pr_pk q) None n | Of_variant _ \<Rightarrow> 0)"
proof (cases s)
  case (Of_product j)
  then show ?thesis
    using assms sum_row_save [of pr_pk "sd_products db" q "q\<lparr>pr_quantity := pr_quantity q - n\<rparr>" "\<lambda>p. if pr_pk p = j then pr_quantity p else 0"]
    by (simp add: save_product_def keyed_goods_def)
qed (simp add: save_product_def)

lemma save_variant_shelf:
  assumes "keyed_goods db" and "w \<in> set (sd_variants db)"
  shows "on_shelf s (save_variant (w\<lparr>va_quantity := va_quantity w - n\<rparr>) db)
    = on_shelf s db - (case s of Of_product _ \<Rightarrow> 0 | Of_variant j \<Rightarrow> if va_pk w = j then n else 0)"
proof (cases s)
  case (Of_variant j)
  then show ?thesis
    using assms sum_row_save [of va_pk "sd_variants db" w "w\<lparr>va_quantity := va_quantity w - n\<rparr>" "\<lambda>v. if va_pk v = j then va_quantity v else 0"]
    by (simp add: save_variant_def keyed_goods_def)
qed (simp add: save_variant_def)

text \<open>What a successful reservation writes.\<close>

lemma reserve_stock_cases:
  assumes "reserve_stock p v n db = Some db1"
  obtains "\<not> pr_tracked p" "db1 = db"
  | q where "pr_tracked p" "q \<in> set (sd_products db)" "pr_pk q = pr_pk p" "n \<le> pr_quantity q" "v = None"
      "db1 = save_product (q\<lparr>pr_quantity := pr_quantity q - n\<rparr>) db"
  | q x w where "pr_tracked p" "q \<in> set (sd_products db)" "pr_pk q = pr_pk p" "n \<le> pr_quantity q" "v = Some x"
      "w \<in> set (sd_variants db)" "va_pk w = va_pk x" "n \<le> va_quantity w"
      "db1 = save_product (q\<lparr>pr_quantity := pr_quantity q - n\<rparr>) (save_variant (w\<lparr>va_quantity := va_quantity w - n\<rparr>) db)"
  using assms unfolding reserve_stock_def
  by (force split: if_splits option.splits dest!: row_get_Some)

lemma reserve_stock_goods:
  assumes "keyed_goods db" and "reserve_stock p v n db = Some db1"
  shows "same_goods db1 db" "goods_frame db db1"
proof -
  show "same_goods db1 db"
    using assms(2)
  proof (cases rule: reserve_stock_cases)
    case (3 q x w)
    let ?d = "save_variant (w\<lparr>va_quantity := va_quantity w - n\<rparr>) db"
    have g: "same_goods ?d db" using same_goods_save [OF assms(1)] 3 by simp
    have "same_goods db1 ?d"
      using same_goods_save(1) [of ?d q] same_goods_facts(2) [OF g] assms(1) 3 by (simp add: save_variant_def)
    then show ?thesis by (rule same_goods_trans) (rule g)
  qed (use same_goods_save [OF assms(1)] in simp_all)
  show "goods_frame db db1"
    using assms(2) by (cases rule: reserve_stock_cases) (simp_all add: goods_frame_def save_product_def save_variant_def)
qed

lemma reserve_stock_shelf:
  assumes "keyed_goods db" and "fair_line db l" and "reserve_stock (bl_product l) (bl_variant l) (bl_quantity l) db = Some db1"
  shows "on_shelf s db1 = on_shelf s db - claim_line s db l"
proof -
  have t: "tracked (pr_pk (bl_product l)) db = pr_tracked (bl_product l)"
    using assms(2) tracked_unique [OF assms(1)] by (metis fair_line_def)
  from assms(3) show ?thesis
  proof (cases rule: reserve_stock_cases)
    case (2 q)
    then show ?thesis using save_product_shelf [OF assms(1), of q s "bl_quantity l"] t
      by (cases s) (auto simp: claim_line_def)
  next
    case (3 q x w)
    let ?d = "save_variant (w\<lparr>va_quantity := va_quantity w - bl_quantity l\<rparr>) db"
    have g: "same_goods ?d db" using same_goods_save [OF assms(1)] 3 by simp
    have k: "keyed_goods ?d" using same_goods_facts(2) [OF g] assms(1) by simp
    have q: "q \<in> set (sd_products ?d)" using 3 by (simp add: save_variant_def)
    show ?thesis using save_product_shelf [OF k q, of s "bl_quantity l"] save_variant_shelf [OF assms(1), of w s "bl_quantity l"] 3 t
      by (cases s) (auto simp: claim_line_def)
  qed (simp add: claim_line_def t)
qed

lemma stocked_saved:
  assumes "stocked db"
  shows "0 \<le> pr_quantity q \<Longrightarrow> stocked (save_product q db)" "0 \<le> va_quantity w \<Longrightarrow> stocked (save_variant w db)"
  using assms by (auto simp: stocked_def save_product_def save_variant_def set_row_save split: if_splits)

lemma reserve_stock_stocked:
  assumes "stocked db" and "reserve_stock p v n db = Some db1"
  shows "stocked db1"
  using assms(2) by (cases rule: reserve_stock_cases) (auto intro!: stocked_saved assms(1))

lemma fair_line_alt: "fair_line db l
    \<longleftrightarrow> (pr_pk (bl_product l), pr_tracked (bl_product l)) \<in> set (map (\<lambda>p. (pr_pk p, pr_tracked p)) (sd_products db))"
  unfolding fair_line_def set_map image_iff prod.inject by metis

lemma fair_line_goods: "same_goods a b \<Longrightarrow> fair_line a l = fair_line b l"
  by (simp only: fair_line_alt same_goods_def)

lemma reserve_lines_facts:
  assumes "keyed_goods db" and "\<forall>l \<in> set ls. fair_line db l" and "reserve_lines ls db = Some db1"
  shows "same_goods db1 db \<and> goods_frame db db1 \<and> (stocked db \<longrightarrow> stocked db1)
    \<and> on_shelf s db1 = on_shelf s db - (\<Sum>l\<leftarrow>ls. claim_line s db l)"
  using assms
proof (induction ls arbitrary: db)
  case (Cons l ls)
  then obtain d where d: "reserve_stock (bl_product l) (bl_variant l) (bl_quantity l) db = Some d" and rest: "reserve_lines ls d = Some db1"
    by (auto split: option.splits)
  note g = reserve_stock_goods [OF Cons.prems(1) d]
  have fair: "\<forall>m \<in> set ls. fair_line d m" using fair_line_goods [OF g(1)] Cons.prems(2) by simp
  have IH: "same_goods db1 d \<and> goods_frame d db1 \<and> (stocked d \<longrightarrow> stocked db1)
      \<and> on_shelf s db1 = on_shelf s d - (\<Sum>l\<leftarrow>ls. claim_line s d l)"
    by (rule Cons.IH [OF _ fair rest]) (use Cons.prems(1) same_goods_facts(2) [OF g(1)] in simp)
  have "on_shelf s d = on_shelf s db - claim_line s db l" using reserve_stock_shelf [OF Cons.prems(1) _ d] Cons.prems(2) by simp
  moreover have "stocked db \<longrightarrow> stocked d" using reserve_stock_stocked [OF _ d] by blast
  moreover have "same_goods db1 db" using same_goods_trans [OF _ g(1)] IH by blast
  moreover have "goods_frame db db1" using goods_frame_trans [OF g(2)] IH by blast
  ultimately show ?case using IH same_goods_facts(5) [OF g(1)] by simp
qed simp

end
