(* ===== verification/Shop_Runs.thy ===== *)
theory Shop_Runs
  imports Shop_Stock
begin

text \<open>
  The effects the operations of the shop are made of (\<open>sale_effect\<close>): editing an order, closing it
  (cancelled or refunded, giving back what it held), placing one, changes to carts and customers that
  touch none of this, and what the program leaves unchecked.  The invariant of the shop (\<open>shop_inv\<close>)
  and the balance between the shelves and the open orders are proved for the effects.

  Then the operations of the shop as a transition system (\<open>shop_step\<close>), and its refinement of the
  effects: every operation, on every branch, is a sequence of effects.

  Some operations of the program break promises of the others.  They are steps as well, and both the
  effects and the system carry the set of those \<open>liberties\<close> that a run may take: customers who
  rewrite their orders, orders that are deleted, negative amounts added to cart lines, changes of the
  catalogue, and changes of the catalogue that leave a negative stock or an overused code.  Each property
  names the liberties it excludes; \<open>Shop_Gaps\<close> and \<open>Shop_Sample\<close> show what each of them does.
\<close>

subsection \<open>Well-formed shops\<close>

datatype liberty = Rewritten_orders | Deleted_orders | Negative_amounts | Catalogue_changes | Unbounded_counts

definition promo_room :: "promo_code \<Rightarrow> bool" where
  "promo_room p \<longleftrightarrow> (case pm_max_uses p of Some m \<Rightarrow> pm_used p < m | None \<Rightarrow> True)"

definition promo_capped :: "promo_code \<Rightarrow> bool" where
  "promo_capped p \<longleftrightarrow> (case pm_max_uses p of Some m \<Rightarrow> pm_used p \<le> m | None \<Rightarrow> True)"

definition shop_keys :: "shop_db \<Rightarrow> bool" where
  "shop_keys db \<longleftrightarrow> keyed_goods db \<and> distinct (map so_pk (sd_orders db)) \<and> distinct (map so_number (sd_orders db))
     \<and> distinct (map pm_pk (sd_promos db))"

definition shop_links :: "shop_db \<Rightarrow> bool" where
  "shop_links db \<longleftrightarrow> (\<forall>it \<in> set (sd_items db). oi_order it \<in> so_pk ` set (sd_orders db) \<and> 1 \<le> oi_quantity it)
     \<and> (\<forall>i \<in> set (sd_cart_items db). 1 \<le> ci_quantity i)"

definition shop_ok :: "shop_db \<Rightarrow> bool" where
  "shop_ok db \<longleftrightarrow> shop_keys db \<and> shop_links db \<and> stocked db \<and> (\<forall>p \<in> set (sd_promos db). promo_capped p)"

text \<open>What holds of a run with the liberties \<open>L\<close>.\<close>

definition well_counted :: "shop_db \<Rightarrow> bool" where
  "well_counted db \<longleftrightarrow> stocked db \<and> (\<forall>p \<in> set (sd_promos db). promo_capped p)"

definition owned_lines :: "shop_db \<Rightarrow> bool" where
  "owned_lines db \<longleftrightarrow> (\<forall>it \<in> set (sd_items db). oi_order it \<in> so_pk ` set (sd_orders db))"

definition shop_inv :: "liberty set \<Rightarrow> shop_db \<Rightarrow> bool" where
  "shop_inv L db \<longleftrightarrow> shop_keys db \<and> owned_lines db \<and> (Negative_amounts \<notin> L \<longrightarrow> shop_links db)
     \<and> (Negative_amounts \<notin> L \<and> Unbounded_counts \<notin> L \<longrightarrow> stocked db)
     \<and> (Unbounded_counts \<notin> L \<longrightarrow> (\<forall>p \<in> set (sd_promos db). promo_capped p))"

lemma shop_ok_inv: "shop_ok db \<Longrightarrow> shop_inv L db"
  by (auto simp: shop_ok_def shop_inv_def shop_links_def owned_lines_def)

lemma shop_inv_strict [simp]: "shop_inv {} db = shop_ok db"
  by (auto simp: shop_ok_def shop_inv_def shop_links_def owned_lines_def)

lemma shop_invD: "shop_inv L db \<Longrightarrow> shop_keys db" "shop_inv L db \<Longrightarrow> owned_lines db"
  "shop_inv L db \<Longrightarrow> Negative_amounts \<notin> L \<Longrightarrow> shop_links db"
  "shop_inv L db \<Longrightarrow> Unbounded_counts \<notin> L \<Longrightarrow> \<forall>p \<in> set (sd_promos db). promo_capped p"
  "shop_inv L db \<Longrightarrow> Negative_amounts \<notin> L \<Longrightarrow> Unbounded_counts \<notin> L \<Longrightarrow> stocked db"
  by (simp_all add: shop_inv_def)

definition same_order :: "shop_order \<Rightarrow> shop_order \<Rightarrow> bool" where
  "same_order o' q \<longleftrightarrow> so_pk q = so_pk o' \<and> so_number q = so_number o'"

definition edited :: "shop_order \<Rightarrow> shop_order \<Rightarrow> bool" where
  "edited o' q \<longleftrightarrow> same_order o' q \<and> terminal (so_status q) = terminal (so_status o')
     \<and> (terminal (so_status o') \<longrightarrow> so_status q = so_status o')"

definition closed_order :: "shop_order \<Rightarrow> shop_order \<Rightarrow> bool" where
  "closed_order o' q \<longleftrightarrow> same_order o' q \<and> \<not> terminal (so_status o') \<and> terminal (so_status q)"

definition positive_lines :: "basket_line list \<Rightarrow> bool" where
  "positive_lines ls \<longleftrightarrow> (\<forall>l \<in> set ls. 1 \<le> bl_quantity l)"

definition placeable :: "liberty set \<Rightarrow> shop_db \<Rightarrow> shop_order \<Rightarrow> promo_code option \<Rightarrow> basket_line list \<Rightarrow> bool" where
  "placeable L db o' promo ls \<longleftrightarrow> so_pk o' = next_pk so_pk (sd_orders db) \<and> \<not> terminal (so_status o')
     \<and> (\<forall>l \<in> set ls. fair_line db l) \<and> (Negative_amounts \<notin> L \<longrightarrow> positive_lines ls)
     \<and> (\<forall>p. promo = Some p \<longrightarrow> p \<in> set (sd_promos db) \<and> (0 < so_discount o' \<longrightarrow> promo_room p))"

text \<open>Changes to customers and carts only.\<close>

definition beside :: "liberty set \<Rightarrow> shop_db \<Rightarrow> shop_db \<Rightarrow> bool" where
  "beside L a b \<longleftrightarrow> sd_products b = sd_products a \<and> sd_variants b = sd_variants a \<and> sd_promos b = sd_promos a
     \<and> sd_orders b = sd_orders a \<and> sd_items b = sd_items a
     \<and> (Negative_amounts \<notin> L \<longrightarrow> (\<forall>i \<in> set (sd_cart_items a). 1 \<le> ci_quantity i) \<longrightarrow> (\<forall>i \<in> set (sd_cart_items b). 1 \<le> ci_quantity i))"

text \<open>Changes to products, variants and promo codes: corrections of the stock, forms, deletions.  Deleting
  takes a product out of the lines that name it and a code out of its orders, and cart lines may go.\<close>

definition catalogue_edit :: "shop_db \<Rightarrow> shop_db \<Rightarrow> bool" where
  "catalogue_edit a b \<longleftrightarrow> keyed_goods b \<and> distinct (map pm_pk (sd_promos b))
     \<and> map (\<lambda>x. x\<lparr>so_promo := None\<rparr>) (sd_orders b) = map (\<lambda>x. x\<lparr>so_promo := None\<rparr>) (sd_orders a)
     \<and> map (\<lambda>it. (oi_order it, oi_quantity it)) (sd_items b) = map (\<lambda>it. (oi_order it, oi_quantity it)) (sd_items a)
     \<and> set (sd_cart_items b) \<subseteq> set (sd_cart_items a)"

inductive sale_effect :: "liberty set \<Rightarrow> shop_db \<Rightarrow> shop_db \<Rightarrow> bool" for L where
  eff_edit: "o0 \<in> set (sd_orders db) \<Longrightarrow> edited o0 q \<Longrightarrow> sale_effect L db (save_shop_order q db)"
| eff_close: "o0 \<in> set (sd_orders db) \<Longrightarrow> closed_order o0 q \<Longrightarrow> sale_effect L db (save_shop_order q (give_back o0 db))"
| eff_place: "placeable L db o' promo ls \<Longrightarrow> place_order o' promo ls db = Some db1 \<Longrightarrow> sale_effect L db db1"
| eff_beside: "beside L db db1 \<Longrightarrow> sale_effect L db db1"
| eff_rewrite: "Rewritten_orders \<in> L \<Longrightarrow> o0 \<in> set (sd_orders db) \<Longrightarrow> same_order o0 q \<Longrightarrow> sale_effect L db (save_shop_order q db)"
| eff_delete: "Deleted_orders \<in> L \<Longrightarrow> sale_effect L db (delete_order k db)"
| eff_catalogue: "Catalogue_changes \<in> L \<Longrightarrow> catalogue_edit db db1 \<Longrightarrow> Unbounded_counts \<in> L \<or> well_counted db1
    \<Longrightarrow> sale_effect L db db1"

inductive_cases sale_effectE: "sale_effect L db db1"

definition held :: "shelf \<Rightarrow> shop_db \<Rightarrow> int" where
  "held s db = (\<Sum>o'\<leftarrow>sd_orders db. if terminal (so_status o') then 0 else (\<Sum>it\<leftarrow>items_of (so_pk o') db. claim s db it))"

definition balance :: "shelf \<Rightarrow> shop_db \<Rightarrow> int" where
  "balance s db = on_shelf s db + held s db"

subsection \<open>Writing orders\<close>

lemma order_written:
  assumes "shop_keys db" and "o0 \<in> set (sd_orders db)" and "same_order o0 q"
  shows "map so_pk (sd_orders (save_shop_order q db)) = map so_pk (sd_orders db)"
    and "map so_number (sd_orders (save_shop_order q db)) = map so_number (sd_orders db)"
    and "set (sd_orders (save_shop_order q db)) = insert q (set (sd_orders db) - {o0})"
  using assms unfolding shop_keys_def same_order_def
  by (auto simp: save_shop_order_def intro: map_row_save_same dest: set_row_save_member [where r = q])

lemma save_order_rest [simp]:
  "sd_products (save_shop_order q db) = sd_products db" "sd_variants (save_shop_order q db) = sd_variants db"
  "sd_promos (save_shop_order q db) = sd_promos db" "sd_items (save_shop_order q db) = sd_items db"
  "sd_cart_items (save_shop_order q db) = sd_cart_items db" "sd_carts (save_shop_order q db) = sd_carts db"
  "sd_settings (save_shop_order q db) = sd_settings db"
  by (simp_all add: save_shop_order_def)

lemma goods_only: "sd_products a = sd_products b \<Longrightarrow> sd_variants a = sd_variants b
  \<Longrightarrow> same_goods a b \<and> on_shelf s a = on_shelf s b \<and> stocked a = stocked b"
  by (cases s) (simp_all add: same_goods_def stocked_def)

lemma held_saved:
  assumes "shop_keys db" and "o0 \<in> set (sd_orders db)" and "same_order o0 q"
  shows "held s (save_shop_order q db) = held s db
    - (if terminal (so_status o0) then 0 else \<Sum>it\<leftarrow>items_of (so_pk o0) db. claim s db it)
    + (if terminal (so_status q) then 0 else \<Sum>it\<leftarrow>items_of (so_pk o0) db. claim s db it)"
proof -
  let ?w = "\<lambda>x. if terminal (so_status x) then 0 else \<Sum>it\<leftarrow>items_of (so_pk x) db. claim s db it"
  have c: "claim s (save_shop_order q db) = claim s db"
    by (rule same_goods_facts(4)) (simp add: same_goods_def)
  have i: "items_of k (save_shop_order q db) = items_of k db" for k by (simp add: items_of_def)
  have "held s (save_shop_order q db) = (\<Sum>x\<leftarrow>row_save so_pk q (sd_orders db). ?w x)"
    unfolding held_def c i by (simp add: save_shop_order_def)
  also have "\<dots> = (\<Sum>x\<leftarrow>sd_orders db. ?w x) - ?w o0 + ?w q"
    by (rule sum_row_save) (use assms in \<open>simp_all add: shop_keys_def same_order_def\<close>)
  finally show ?thesis using assms(3) by (simp add: held_def same_order_def)
qed

subsection \<open>Giving back\<close>

lemma release_promo_rest:
  "sd_products (release_promo k db) = sd_products db" "sd_variants (release_promo k db) = sd_variants db"
  "sd_orders (release_promo k db) = sd_orders db" "sd_items (release_promo k db) = sd_items db"
  "sd_cart_items (release_promo k db) = sd_cart_items db" "map pm_pk (sd_promos (release_promo k db)) = map pm_pk (sd_promos db)"
  by (auto simp: release_promo_def comp_def split: option.split intro!: map_cong)

lemma release_promo_capped: "(\<forall>p \<in> set (sd_promos db). promo_capped p) \<Longrightarrow> (\<forall>p \<in> set (sd_promos (release_promo k db)). promo_capped p)"
  by (auto simp: release_promo_def promo_capped_def split: option.splits if_splits)

lemma add_stock_stocked: "stocked db \<Longrightarrow> 0 \<le> n \<Longrightarrow> stocked (add_stock k n db)"
  "stocked db \<Longrightarrow> 0 \<le> n \<Longrightarrow> stocked (add_variant_stock k n db)"
  by (auto simp: stocked_def add_stock_def add_variant_stock_def)

lemma release_stock_stocked: "stocked db \<Longrightarrow> 0 \<le> oi_quantity it \<Longrightarrow> stocked (release_stock it db)"
  unfolding release_stock_def Let_def by (auto split: option.splits intro: add_stock_stocked)

lemma fold_release_stocked: "\<forall>it \<in> set its. 0 \<le> oi_quantity it \<Longrightarrow> stocked db \<Longrightarrow> stocked (fold release_stock its db)"
  by (induction its arbitrary: db) (simp_all add: release_stock_stocked)

lemma give_back_promos:
  "map pm_pk (sd_promos (give_back o' db)) = map pm_pk (sd_promos db)"
  "(\<forall>p \<in> set (sd_promos db). promo_capped p) \<Longrightarrow> (\<forall>p \<in> set (sd_promos (give_back o' db)). promo_capped p)"
  unfolding give_back_def
  using goods_frame_rest(6) [OF fold_release_frame [of db "items_of (so_pk o') db"]]
  by (simp_all add: release_promo_rest) (rule release_promo_capped, simp)

lemma give_back_facts:
  assumes "shop_keys db"
  shows "same_goods (give_back o' db) db" "sd_orders (give_back o' db) = sd_orders db" "sd_items (give_back o' db) = sd_items db"
    "sd_cart_items (give_back o' db) = sd_cart_items db" "shop_links db \<Longrightarrow> stocked db \<Longrightarrow> stocked (give_back o' db)"
    "shelf_exists s db \<Longrightarrow> on_shelf s (give_back o' db) = on_shelf s db + (\<Sum>it\<leftarrow>items_of (so_pk o') db. claim s db it)"
proof -
  let ?its = "items_of (so_pk o') db"
  let ?d = "fold release_stock ?its db"
  note rest = release_promo_rest [of "so_promo o'" ?d] goods_frame_rest [OF fold_release_frame [of db ?its]]
  have gd: "same_goods ?d db" by (rule fold_release_goods)
  have g: "same_goods (give_back o' db) ?d" "on_shelf s (give_back o' db) = on_shelf s ?d" "stocked (give_back o' db) = stocked ?d" for s
    using goods_only [of "give_back o' db" ?d] by (simp_all add: give_back_def rest)
  show "same_goods (give_back o' db) db" using g(1) gd by (rule same_goods_trans)
  show "sd_orders (give_back o' db) = sd_orders db" "sd_items (give_back o' db) = sd_items db"
    "sd_cart_items (give_back o' db) = sd_cart_items db"
    by (simp_all add: give_back_def rest)
  show "stocked (give_back o' db)" if "shop_links db" "stocked db"
  proof -
    have "\<forall>it \<in> set ?its. 0 \<le> oi_quantity it" using that(1) by (force simp: shop_links_def items_of_def)
    then show ?thesis using that(2) fold_release_stocked g(3) by simp
  qed
  show "on_shelf s (give_back o' db) = on_shelf s db + (\<Sum>it\<leftarrow>?its. claim s db it)" if "shelf_exists s db"
    using fold_release_shelf [OF _ that] assms g(2) by (simp add: shop_keys_def)
qed

subsection \<open>Placing\<close>

lemma fold_create_items:
  "\<exists>its. fold (create_item k) ls db = db\<lparr>sd_items := sd_items db @ its\<rparr> \<and> (\<forall>it \<in> set its. oi_order it = k)
     \<and> map (\<lambda>it. (oi_product it, oi_variant it, oi_quantity it)) its
       = map (\<lambda>l. (Some (pr_pk (bl_product l)), map_option va_pk (bl_variant l), bl_quantity l)) ls"
proof (induction ls arbitrary: db)
  case Nil
  show ?case by (rule exI [of _ "[]"]) simp
next
  case (Cons l ls)
  obtain its where its: "fold (create_item k) ls (create_item k l db) = (create_item k l db)\<lparr>sd_items := sd_items (create_item k l db) @ its\<rparr>"
      "\<forall>it \<in> set its. oi_order it = k"
      "map (\<lambda>it. (oi_product it, oi_variant it, oi_quantity it)) its
       = map (\<lambda>l. (Some (pr_pk (bl_product l)), map_option va_pk (bl_variant l), bl_quantity l)) ls"
    using Cons.IH [of "create_item k l db"] by blast
  let ?it = "\<lparr>oi_pk = next_pk oi_pk (sd_items db), oi_order = k, oi_product = Some (pr_pk (bl_product l)),
        oi_variant = map_option va_pk (bl_variant l), oi_quantity = bl_quantity l, oi_price = bl_price l\<rparr>"
  have c: "create_item k l db = db\<lparr>sd_items := sd_items db @ [?it]\<rparr>" by (simp add: create_item_def row_create_def)
  show ?case by (rule exI [of _ "?it # its"]) (use its in \<open>simp add: c\<close>)
qed

lemma claims_of_lines:
  assumes "map (\<lambda>it. (oi_product it, oi_variant it, oi_quantity it)) its
      = map (\<lambda>l. (Some (pr_pk (bl_product l)), map_option va_pk (bl_variant l), bl_quantity l)) ls"
  shows "(\<Sum>it\<leftarrow>its. claim s db it) = (\<Sum>l\<leftarrow>ls. claim_line s db l)"
  using assms by (induction its ls rule: list_induct2') (auto simp: claim_def claim_line_def)

lemma quantities_of_lines:
  assumes "map (\<lambda>it. (oi_product it, oi_variant it, oi_quantity it)) its
      = map (\<lambda>l. (Some (pr_pk (bl_product l)), map_option va_pk (bl_variant l), bl_quantity l)) ls"
    and "positive_lines ls"
  shows "\<forall>it \<in> set its. 1 \<le> oi_quantity it"
  using assms by (induction its ls rule: list_induct2') (auto simp: positive_lines_def)

lemma use_promo_rest:
  "sd_products (use_promo x promo db) = sd_products db" "sd_variants (use_promo x promo db) = sd_variants db"
  "sd_orders (use_promo x promo db) = sd_orders db" "sd_items (use_promo x promo db) = sd_items db"
  "sd_cart_items (use_promo x promo db) = sd_cart_items db" "sd_carts (use_promo x promo db) = sd_carts db"
  "map pm_pk (sd_promos (use_promo x promo db)) = map pm_pk (sd_promos db)"
  by (simp_all add: use_promo_def save_promo_def split: option.split)

lemma use_promo_capped:
  assumes "\<forall>p \<in> set (sd_promos db). promo_capped p" and "\<And>p. promo = Some p \<Longrightarrow> 0 < x \<Longrightarrow> promo_room p"
  shows "\<forall>p \<in> set (sd_promos (use_promo x promo db)). promo_capped p"
  using assms by (force simp: use_promo_def save_promo_def set_row_save promo_room_def promo_capped_def split: option.splits if_splits)

text \<open>What a placed order adds.\<close>

lemma place_order_facts:
  assumes "shop_keys db" and "placeable L db o' promo ls" and "place_order o' promo ls db = Some db1"
  obtains its where "same_goods db1 db" "sd_orders db1 = sd_orders db @ [rounded_row o']" "sd_items db1 = sd_items db @ its"
    "\<forall>it \<in> set its. oi_order it = so_pk o'" "Negative_amounts \<notin> L \<longrightarrow> (\<forall>it \<in> set its. 1 \<le> oi_quantity it)"
    "(\<Sum>it\<leftarrow>its. claim s db it) = (\<Sum>l\<leftarrow>ls. claim_line s db l)"
    "on_shelf s db1 = on_shelf s db - (\<Sum>l\<leftarrow>ls. claim_line s db l)" "stocked db \<longrightarrow> stocked db1"
    "sd_cart_items db1 = sd_cart_items db" "sd_carts db1 = sd_carts db" "map pm_pk (sd_promos db1) = map pm_pk (sd_promos db)"
    "(\<forall>p \<in> set (sd_promos db). promo_capped p) \<longrightarrow> (\<forall>p \<in> set (sd_promos db1). promo_capped p)"
    "so_number o' \<notin> so_number ` set (sd_orders db)"
proof -
  have k: "keyed_goods db" using assms(1) by (simp add: shop_keys_def)
  have fair: "\<forall>l \<in> set ls. fair_line db l" using assms(2) by (simp add: placeable_def)
  from assms(3) obtain d where d: "reserve_lines ls db = Some d" and fresh: "so_number o' \<notin> so_number ` set (sd_orders d)"
    and db1: "db1 = use_promo (so_discount o') promo
      (fold (create_item (so_pk o')) ls (d\<lparr>sd_orders := row_create (rounded_row o') (sd_orders d)\<rparr>))"
    by (auto simp: place_order_def split: option.splits if_splits)
  let ?d1 = "d\<lparr>sd_orders := row_create (rounded_row o') (sd_orders d)\<rparr>"
  note R = reserve_lines_facts [OF k fair d, of s]
  have fr: "goods_frame db d" using R by blast
  note rest = goods_frame_rest [OF fr]
  obtain its where its: "fold (create_item (so_pk o')) ls ?d1 = ?d1\<lparr>sd_items := sd_items ?d1 @ its\<rparr>"
      "\<forall>it \<in> set its. oi_order it = so_pk o'"
      "map (\<lambda>it. (oi_product it, oi_variant it, oi_quantity it)) its
       = map (\<lambda>l. (Some (pr_pk (bl_product l)), map_option va_pk (bl_variant l), bl_quantity l)) ls"
    using fold_create_items [of "so_pk o'" ls ?d1] by blast
  have g: "same_goods db1 d \<and> on_shelf s db1 = on_shelf s d \<and> stocked db1 = stocked d"
    by (rule goods_only) (simp_all add: db1 use_promo_rest its(1))
  show thesis
  proof (rule that [of its])
    show "same_goods db1 db" using g R same_goods_trans by blast
    show "sd_orders db1 = sd_orders db @ [rounded_row o']"
      unfolding db1 its(1) use_promo_rest by (simp add: rest row_create_def)
    show "sd_items db1 = sd_items db @ its" unfolding db1 its(1) use_promo_rest by (simp add: rest)
    show "\<forall>it \<in> set its. oi_order it = so_pk o'" by (rule its(2))
    show "Negative_amounts \<notin> L \<longrightarrow> (\<forall>it \<in> set its. 1 \<le> oi_quantity it)"
      using quantities_of_lines [OF its(3)] assms(2) by (simp add: placeable_def)
    show "(\<Sum>it\<leftarrow>its. claim s db it) = (\<Sum>l\<leftarrow>ls. claim_line s db l)" by (rule claims_of_lines [OF its(3)])
    show "on_shelf s db1 = on_shelf s db - (\<Sum>l\<leftarrow>ls. claim_line s db l)" "stocked db \<longrightarrow> stocked db1" using g R by simp_all
    show "sd_cart_items db1 = sd_cart_items db" "sd_carts db1 = sd_carts db" "map pm_pk (sd_promos db1) = map pm_pk (sd_promos db)"
      unfolding db1 its(1) use_promo_rest by (simp_all add: rest)
    show "(\<forall>p \<in> set (sd_promos db). promo_capped p) \<longrightarrow> (\<forall>p \<in> set (sd_promos db1). promo_capped p)"
    proof
      assume c: "\<forall>p \<in> set (sd_promos db). promo_capped p"
      show "\<forall>p \<in> set (sd_promos db1). promo_capped p" unfolding db1 its(1)
        by (rule use_promo_capped) (use c assms(2) in \<open>simp_all add: rest placeable_def\<close>)
    qed
    show "so_number o' \<notin> so_number ` set (sd_orders db)" using fresh by (simp add: rest)
  qed
qed

lemma rounded_row_keys [simp]: "so_pk (rounded_row q) = so_pk q" "so_number (rounded_row q) = so_number q"
  "so_client (rounded_row q) = so_client q" "so_status (rounded_row q) = so_status q" "so_pay (rounded_row q) = so_pay q"
  "so_promo (rounded_row q) = so_promo q"
  by (simp_all add: rounded_row_def)

lemma held_placed:
  assumes "same_goods db1 db" and "sd_orders db1 = sd_orders db @ [r]" and "sd_items db1 = sd_items db @ its"
    and "\<forall>it \<in> set its. oi_order it = so_pk r" and "so_pk r \<notin> so_pk ` set (sd_orders db)"
    and "\<forall>it \<in> set (sd_items db). oi_order it \<in> so_pk ` set (sd_orders db)" and "\<not> terminal (so_status r)"
  shows "held s db1 = held s db + (\<Sum>it\<leftarrow>its. claim s db it)"
proof -
  have c: "claim s db1 = claim s db" by (rule same_goods_facts(4)) (rule assms(1))
  have old: "items_of (so_pk x) db1 = items_of (so_pk x) db" if "x \<in> set (sd_orders db)" for x
    using that assms(4,5) by (auto simp: items_of_def assms(3) filter_empty_conv)
  have new: "items_of (so_pk r) db1 = its"
  proof -
    have "oi_order x \<noteq> so_pk r" if "x \<in> set (sd_items db)" for x using assms(5,6) that by metis
    then show ?thesis using assms(4) by (auto simp: items_of_def assms(3) filter_empty_conv filter_id_conv)
  qed
  have "(\<Sum>x\<leftarrow>sd_orders db. if terminal (so_status x) then 0 else (\<Sum>it\<leftarrow>items_of (so_pk x) db1. claim s db it)) = held s db"
    unfolding held_def by (intro arg_cong [where f = sum_list] map_cong) (simp_all add: old)
  then show ?thesis using assms(7) new unfolding held_def [of s db1] c assms(2) by simp
qed

subsection \<open>What every effect keeps\<close>

text \<open>Orders stay, and a cancelled or refunded order keeps its status.\<close>

definition orders_advance :: "shop_db \<Rightarrow> shop_db \<Rightarrow> bool" where
  "orders_advance a b \<longleftrightarrow> (\<forall>x \<in> set (sd_orders a). \<exists>y \<in> set (sd_orders b). same_order x y
     \<and> (terminal (so_status x) \<longrightarrow> so_status y = so_status x))"

text \<open>The runs in which orders are not reopened behind the books, and those in which stock and open orders
  balance.\<close>

definition orders_guarded :: "liberty set \<Rightarrow> bool" where
  "orders_guarded L \<longleftrightarrow> Rewritten_orders \<notin> L \<and> Deleted_orders \<notin> L"

definition books_guarded :: "liberty set \<Rightarrow> bool" where
  "books_guarded L \<longleftrightarrow> orders_guarded L \<and> Catalogue_changes \<notin> L"

definition kept_by :: "liberty set \<Rightarrow> shelf \<Rightarrow> shop_db \<Rightarrow> shop_db \<Rightarrow> bool" where
  "kept_by L s a b \<longleftrightarrow> shop_inv L b
     \<and> (books_guarded L \<longrightarrow> same_goods b a \<and> (shelf_exists s a \<longrightarrow> balance s b = balance s a))
     \<and> (orders_guarded L \<longrightarrow> orders_advance a b)"

lemma same_order_refl [simp]: "same_order x x"
  by (simp add: same_order_def)

lemma orders_advance_kept: "set (sd_orders a) \<subseteq> set (sd_orders b) \<Longrightarrow> orders_advance a b"
  unfolding orders_advance_def by (intro ballI, rule bexI) auto

lemma advance_written:
  assumes "shop_keys db" and "o0 \<in> set (sd_orders db)" and "same_order o0 q"
    and "terminal (so_status o0) \<Longrightarrow> so_status q = so_status o0"
  shows "orders_advance db (save_shop_order q db)"
  unfolding orders_advance_def order_written(3) [OF assms(1-3)]
  using assms(3,4) by (metis Diff_iff insert_iff same_order_refl singletonD)

lemma saved_inv:
  assumes "shop_inv L db" and "o0 \<in> set (sd_orders db)" and "same_order o0 q"
  shows "shop_inv L (save_shop_order q db)"
proof -
  have k: "shop_keys db" using assms(1) by (rule shop_invD)
  note w = order_written(1,2) [OF k assms(2,3)]
  have "shop_keys (save_shop_order q db)" using k unfolding shop_keys_def w by (simp add: keyed_goods_def)
  moreover have "owned_lines (save_shop_order q db)"
    using shop_invD(2) [OF assms(1)] unfolding owned_lines_def set_map [symmetric] w by simp
  moreover have "shop_links (save_shop_order q db) = shop_links db"
    unfolding shop_links_def set_map [symmetric] w by simp
  moreover have "stocked (save_shop_order q db) = stocked db" by (simp add: stocked_def)
  ultimately show ?thesis using assms(1) by (simp add: shop_inv_def)
qed

lemma saved_goods: "same_goods (save_shop_order q db) db" "on_shelf s (save_shop_order q db) = on_shelf s db"
  using goods_only [of "save_shop_order q db" db s] by simp_all

lemma effect_edit:
  assumes "shop_inv L db" and "o0 \<in> set (sd_orders db)" and "edited o0 q"
  shows "kept_by L s db (save_shop_order q db)"
proof -
  have k: "shop_keys db" and so: "same_order o0 q" using assms by (simp_all add: shop_inv_def edited_def)
  have "balance s (save_shop_order q db) = balance s db"
    using held_saved [OF k assms(2) so, of s] saved_goods(2) assms(3) by (simp add: balance_def edited_def)
  moreover have "orders_advance db (save_shop_order q db)"
    by (rule advance_written [OF k assms(2) so]) (use assms(3) in \<open>simp add: edited_def\<close>)
  ultimately show ?thesis using saved_inv [OF assms(1,2) so] saved_goods(1) by (simp add: kept_by_def)
qed

lemma given_inv:
  assumes "shop_inv L db"
  shows "shop_inv L (give_back o' db)"
proof -
  note B = give_back_facts [OF shop_invD(1) [OF assms], where o' = o'] and P = give_back_promos [where db = db and o' = o']
  have "shop_keys (give_back o' db)"
    using shop_invD(1) [OF assms] same_goods_facts(2) [OF B(1)] by (simp add: shop_keys_def B P(1))
  moreover have "shop_links (give_back o' db) = shop_links db" "owned_lines (give_back o' db) = owned_lines db"
    by (simp_all add: shop_links_def owned_lines_def B)
  ultimately show ?thesis using assms B(5) P(2) by (auto simp: shop_inv_def)
qed

lemma effect_close:
  assumes "shop_inv L db" and "o0 \<in> set (sd_orders db)" and "closed_order o0 q"
  shows "kept_by L s db (save_shop_order q (give_back o0 db))"
proof -
  let ?b = "give_back o0 db"
  let ?d = "save_shop_order q ?b"
  note B = give_back_facts [OF shop_invD(1) [OF assms(1)], where o' = o0] and inv = given_inv [OF assms(1), of o0]
  have so: "same_order o0 q" and o0: "o0 \<in> set (sd_orders ?b)" using assms by (simp_all add: closed_order_def B)
  note k = shop_invD(1) [OF inv]
  have "same_goods ?d db" using saved_goods(1) B(1) by (rule same_goods_trans)
  moreover have "balance s ?d = balance s db" if "shelf_exists s db"
  proof -
    have c: "claim s ?b = claim s db" by (rule same_goods_facts(4) [OF B(1)])
    have i: "items_of j ?b = items_of j db" for j by (simp add: items_of_def B)
    have "held s ?b = held s db" unfolding held_def c i B ..
    then show ?thesis using held_saved [OF k o0 so, of s] B(6) [OF that] saved_goods(2) [of s q ?b] assms(3)
      by (simp add: balance_def closed_order_def c i)
  qed
  moreover have "orders_advance db ?d"
    using advance_written [OF k o0 so] assms(3) by (simp add: orders_advance_def B closed_order_def)
  ultimately show ?thesis using saved_inv [OF inv o0 so] by (simp add: kept_by_def)
qed

lemma effect_place:
  assumes "shop_inv L db" and "placeable L db o' promo ls" and "place_order o' promo ls db = Some db1"
  shows "kept_by L s db db1"
proof -
  have k: "shop_keys db" using assms(1) by (rule shop_invD)
  from place_order_facts [OF k assms(2,3), of s] obtain its where P: "same_goods db1 db"
    "sd_orders db1 = sd_orders db @ [rounded_row o']" "sd_items db1 = sd_items db @ its"
    "\<forall>it \<in> set its. oi_order it = so_pk o'" "Negative_amounts \<notin> L \<longrightarrow> (\<forall>it \<in> set its. 1 \<le> oi_quantity it)"
    "(\<Sum>it\<leftarrow>its. claim s db it) = (\<Sum>l\<leftarrow>ls. claim_line s db l)"
    "on_shelf s db1 = on_shelf s db - (\<Sum>l\<leftarrow>ls. claim_line s db l)" "stocked db \<longrightarrow> stocked db1"
    "sd_cart_items db1 = sd_cart_items db" "map pm_pk (sd_promos db1) = map pm_pk (sd_promos db)"
    "(\<forall>p \<in> set (sd_promos db). promo_capped p) \<longrightarrow> (\<forall>p \<in> set (sd_promos db1). promo_capped p)"
    "so_number o' \<notin> so_number ` set (sd_orders db)" .
  have pk: "so_pk o' \<notin> so_pk ` set (sd_orders db)" using assms(2) by (simp add: placeable_def)
  have "shop_keys db1"
    using k same_goods_facts(2) [OF P(1)] pk P(12) by (auto simp: shop_keys_def P(2,10))
  moreover have "owned_lines db1" using shop_invD(2) [OF assms(1)] P(4) by (auto simp: owned_lines_def P(2,3))
  moreover have "shop_links db1" if "Negative_amounts \<notin> L"
    using shop_invD(3) [OF assms(1) that] P(4,5) that by (auto simp: shop_links_def P(2,3,9))
  ultimately have "shop_inv L db1" using assms(1) P(8,11) by (auto simp: shop_inv_def)
  moreover have "held s db1 = held s db + (\<Sum>it\<leftarrow>its. claim s db it)"
    by (rule held_placed [OF P(1,2,3)])
      (use P(4) pk assms(2) shop_invD(2) [OF assms(1)] in \<open>auto simp: placeable_def owned_lines_def\<close>)
  moreover have "orders_advance db db1"
    by (rule orders_advance_kept) (auto simp: P(2))
  ultimately show ?thesis using P(1,6,7) by (simp add: kept_by_def balance_def)
qed

lemma effect_beside:
  assumes "shop_inv L db" and "beside L db db1"
  shows "kept_by L s db db1"
proof -
  have g: "same_goods db1 db \<and> on_shelf s db1 = on_shelf s db \<and> stocked db1 = stocked db"
    by (rule goods_only) (use assms(2) in \<open>simp_all add: beside_def\<close>)
  have c: "claim s db1 = claim s db" by (rule same_goods_facts(4)) (use g in simp)
  have i: "items_of j db1 = items_of j db" for j using assms(2) by (simp add: items_of_def beside_def)
  have "held s db1 = held s db" using assms(2) unfolding held_def c i by (simp add: beside_def)
  moreover have "shop_inv L db1"
    using assms g by (auto simp: shop_inv_def shop_keys_def shop_links_def owned_lines_def beside_def keyed_goods_def)
  moreover have "orders_advance db db1" by (rule orders_advance_kept) (use assms(2) in \<open>simp add: beside_def\<close>)
  ultimately show ?thesis using g by (simp add: kept_by_def balance_def)
qed

text \<open>The liberties keep what the other operations do not need them for.\<close>

lemma effect_rewrite:
  assumes "shop_inv L db" and "Rewritten_orders \<in> L" and "o0 \<in> set (sd_orders db)" and "same_order o0 q"
  shows "kept_by L s db (save_shop_order q db)"
  using saved_inv [OF assms(1,3,4)] assms(2) by (simp add: kept_by_def books_guarded_def orders_guarded_def)

lemma set_row_delete_sub: "set (row_delete key k t) \<subseteq> set t"
  by (auto simp: row_delete_def)

lemma effect_delete:
  assumes "shop_inv L db" and "Deleted_orders \<in> L"
  shows "kept_by L s db (delete_order k db)"
proof -
  let ?d = "delete_order k db"
  have "shop_keys ?d"
    using shop_invD(1) [OF assms(1)]
    by (simp add: shop_keys_def delete_order_def row_delete_def keyed_goods_def distinct_map_filter)
  moreover have "owned_lines ?d"
    using shop_invD(2) [OF assms(1)] by (auto simp: owned_lines_def delete_order_def row_delete_def)
  moreover have "shop_links ?d" if "shop_links db"
    using that by (auto simp: shop_links_def delete_order_def row_delete_def)
  moreover have "stocked ?d = stocked db" "sd_promos ?d = sd_promos db" by (simp_all add: stocked_def delete_order_def)
  ultimately have "shop_inv L ?d" using assms(1) by (simp add: shop_inv_def)
  then show ?thesis using assms(2) by (simp add: kept_by_def books_guarded_def orders_guarded_def)
qed

lemma catalogue_orders:
  assumes "catalogue_edit a b"
  shows "map so_pk (sd_orders b) = map so_pk (sd_orders a)" "map so_number (sd_orders b) = map so_number (sd_orders a)"
    "orders_advance a b"
proof -
  let ?f = "\<lambda>x. x\<lparr>so_promo := None\<rparr>"
  have m: "map ?f (sd_orders b) = map ?f (sd_orders a)" using assms by (simp add: catalogue_edit_def)
  have "map (so_pk \<circ> ?f) (sd_orders b) = map (so_pk \<circ> ?f) (sd_orders a)"
    "map (so_number \<circ> ?f) (sd_orders b) = map (so_number \<circ> ?f) (sd_orders a)"
    using arg_cong [OF m, of "map so_pk"] arg_cong [OF m, of "map so_number"] by (simp_all only: map_map)
  then show "map so_pk (sd_orders b) = map so_pk (sd_orders a)" "map so_number (sd_orders b) = map so_number (sd_orders a)"
    by (simp_all add: comp_def)
  show "orders_advance a b"
    unfolding orders_advance_def
  proof
    fix x assume "x \<in> set (sd_orders a)"
    then have "?f x \<in> set (map ?f (sd_orders b))" unfolding m by simp
    then obtain y where y: "y \<in> set (sd_orders b)" "?f x = ?f y" by auto
    have "so_pk y = so_pk x" "so_number y = so_number x" "so_status y = so_status x"
      using arg_cong [OF y(2), of so_pk] arg_cong [OF y(2), of so_number] arg_cong [OF y(2), of so_status] by simp_all
    then show "\<exists>y \<in> set (sd_orders b). same_order x y \<and> (terminal (so_status x) \<longrightarrow> so_status y = so_status x)"
      using y(1) by (auto simp: same_order_def)
  qed
qed

lemma catalogue_lines:
  assumes "catalogue_edit a b" and "it \<in> set (sd_items b)"
  obtains it' where "it' \<in> set (sd_items a)" "oi_order it' = oi_order it" "oi_quantity it' = oi_quantity it"
proof -
  have "(oi_order it, oi_quantity it) \<in> set (map (\<lambda>it. (oi_order it, oi_quantity it)) (sd_items b))" using assms(2) by force
  also have "\<dots> = set (map (\<lambda>it. (oi_order it, oi_quantity it)) (sd_items a))" using assms(1) by (simp only: catalogue_edit_def)
  finally show thesis using that by auto
qed

lemma effect_catalogue:
  assumes "shop_inv L db" and "Catalogue_changes \<in> L" and "catalogue_edit db db1" and "Unbounded_counts \<in> L \<or> well_counted db1"
  shows "kept_by L s db db1"
proof -
  note O = catalogue_orders [OF assms(3)]
  have pk: "so_pk ` set (sd_orders db1) = so_pk ` set (sd_orders db)" using O(1) by (metis set_map)
  have "shop_keys db1"
    using shop_invD(1) [OF assms(1)] assms(3) O(1,2) by (simp add: shop_keys_def catalogue_edit_def)
  moreover have "owned_lines db1" unfolding owned_lines_def pk
    using shop_invD(2) [OF assms(1)] by (metis catalogue_lines [OF assms(3)] owned_lines_def)
  moreover have "shop_links db1" if l: "shop_links db"
    unfolding shop_links_def pk
  proof (intro conjI ballI)
    fix it assume "it \<in> set (sd_items db1)"
    from catalogue_lines [OF assms(3) this] obtain it' where "it' \<in> set (sd_items db)"
      "oi_order it' = oi_order it" "oi_quantity it' = oi_quantity it" .
    then show "oi_order it \<in> so_pk ` set (sd_orders db)" "1 \<le> oi_quantity it" using l unfolding shop_links_def by metis+
  next
    show "1 \<le> ci_quantity i" if "i \<in> set (sd_cart_items db1)" for i
      using that l assms(3) by (auto simp: shop_links_def catalogue_edit_def)
  qed
  ultimately have "shop_inv L db1" using assms(1,4) by (auto simp: shop_inv_def well_counted_def)
  then show ?thesis using assms(2) O(3) by (simp add: kept_by_def books_guarded_def)
qed

lemma sale_effect_kept:
  assumes "shop_inv L db" and "sale_effect L db db1"
  shows "kept_by L s db db1"
  using assms(2)
  by (cases rule: sale_effectE)
    (auto intro: effect_edit effect_close effect_place effect_beside effect_rewrite effect_delete effect_catalogue assms(1))

lemma orders_advance_trans: "orders_advance a b \<Longrightarrow> orders_advance b c \<Longrightarrow> orders_advance a c"
  unfolding orders_advance_def same_order_def by (metis (no_types, lifting))

lemma kept_by_trans:
  assumes "kept_by L s a b" and "kept_by L s b c"
  shows "kept_by L s a c"
proof -
  have "shelf_exists s b = shelf_exists s a" if "books_guarded L"
    using assms(1) that same_goods_facts(3) by (simp add: kept_by_def)
  then show ?thesis using assms unfolding kept_by_def by (auto intro: same_goods_trans orders_advance_trans)
qed

lemma sale_effects_kept:
  assumes "(sale_effect L)\<^sup>*\<^sup>* a b" and "shop_inv L a"
  shows "kept_by L s a b"
  using assms
proof (induction rule: rtranclp_induct)
  case base
  then show ?case by (simp add: kept_by_def orders_advance_kept)
next
  case (step b c)
  then have "kept_by L s a b" by simp
  moreover from this have "shop_inv L b" by (simp add: kept_by_def)
  then have "kept_by L s b c" using step.hyps(2) by (rule sale_effect_kept)
  ultimately show ?case by (rule kept_by_trans)
qed

section \<open>The system\<close>

lemma effect_then: "(sale_effect L)\<^sup>*\<^sup>* a b \<Longrightarrow> sale_effect L b c \<Longrightarrow> (sale_effect L)\<^sup>*\<^sup>* a c"
  by (rule rtranclp.rtrancl_into_rtrancl)

lemma besideI [step_intros]:
  "beside L db (db\<lparr>sd_carts := x\<rparr>)" "beside L db (db\<lparr>sd_clients := y\<rparr>)" "beside L db (db\<lparr>sd_addresses := z\<rparr>)"
  "beside L db (db\<lparr>sd_cards := w\<rparr>)"
  by (simp_all add: beside_def)

lemma beside_refl [simp]: "beside L db db"
  by (simp add: beside_def)

lemma beside_effects: "beside L a b \<Longrightarrow> (sale_effect L)\<^sup>*\<^sup>* a b"
  by (blast intro: eff_beside)

subsection \<open>Order rows\<close>

lemma edit_effects: "o0 \<in> set (sd_orders db) \<Longrightarrow> edited o0 q \<Longrightarrow> (sale_effect L)\<^sup>*\<^sup>* db (save_shop_order q db)"
  by (blast intro: eff_edit)

lemma cancel_effects: "(sale_effect L)\<^sup>*\<^sup>* db (snd (cancel_order now inst db))"
  unfolding cancel_order_def
  by (auto split: option.splits dest!: row_get_Some intro!: r_into_rtranclp eff_close
      simp: closed_order_def same_order_def) (simp_all add: terminal_def)

lemma refund_effects: "refund_order k db = Some db1 \<Longrightarrow> (sale_effect L)\<^sup>*\<^sup>* db db1"
  unfolding refund_order_def
  by (auto split: option.splits if_splits dest!: row_get_Some intro!: r_into_rtranclp eff_close
      simp: closed_order_def same_order_def) (simp_all add: terminal_def)

lemma edited_simps [simp]:
  "edited o' (no_metadata q) = edited o' q" "edited o' (cash_order q) = edited o' q" "edited o' (charged_order b q) = edited o' q"
  "edited o' (hosted p k url q) = edited o' q" "edited o' (rounded_row q) = edited o' q" "edited o' o'"
  "edited o' (q\<lparr>so_pay := x\<rparr>) = edited o' q" "edited o' (q\<lparr>so_paid_at := y\<rparr>) = edited o' q"
  "edited o' (q\<lparr>so_method := m\<rparr>) = edited o' q" "edited o' (q\<lparr>so_bog := b2\<rparr>) = edited o' q" "edited o' (q\<lparr>so_url := u\<rparr>) = edited o' q"
  "edited (rounded_row q) o' = edited q o'"
  by (simp_all add: edited_def same_order_def no_metadata_def cash_order_def charged_order_def hosted_def)

lemma edited_stamp: "edited o' q \<Longrightarrow> \<not> terminal (so_status o') \<Longrightarrow> \<not> terminal s \<Longrightarrow> edited o' (stamp_status now s q)"
  by (simp add: edited_def same_order_def stamp_status_def)

lemma edited_patch: "up_status up = None \<or> up_status up = Some (so_status o') \<Longrightarrow> edited o' (patch_order up o')"
  by (auto simp: edited_def same_order_def patch_order_def or_keep_def)

lemma status_effects: "apply_order_status now m k s db = Inr db1 \<Longrightarrow> (sale_effect L)\<^sup>*\<^sup>* db db1"
  unfolding apply_order_status_def
  by (auto split: option.splits if_splits dest!: row_get_Some intro!: edit_effects edited_stamp
      intro: cancel_effects refund_effects) (simp_all add: terminal_def)

lemma fold_effects: "(\<And>x d. (sale_effect L)\<^sup>*\<^sup>* d (f x d)) \<Longrightarrow> (sale_effect L)\<^sup>*\<^sup>* db (fold f xs db)"
proof (induction xs arbitrary: db)
  case (Cons x xs)
  show ?case using rtranclp_trans [OF Cons.prems Cons.IH [OF Cons.prems]] by simp
qed simp

subsection \<open>Changes by staff and customers\<close>

lemma update_status_effects: "(sale_effect L)\<^sup>*\<^sup>* db (snd (update_order_status now u k status db))"
  unfolding update_order_status_def
  by (auto split: option.splits sum.splits status_error.splits intro: status_effects)

lemma bulk_effects: "(sale_effect L)\<^sup>*\<^sup>* db (snd (bulk_update_status now u ids status db))"
  unfolding bulk_update_status_def
  by (auto simp: Let_def split: option.splits sum.splits intro!: fold_effects intro: status_effects)

lemma refund_view_effects: "(sale_effect L)\<^sup>*\<^sup>* db (snd (refund k db))"
  unfolding refund_def by (auto split: option.splits intro: refund_effects)

lemma customer_cancel_effects: "(sale_effect L)\<^sup>*\<^sup>* db (snd (customer_cancel now u k db))"
  unfolding customer_cancel_def by (auto split: option.splits intro: cancel_effects)

lemma sweep_effects: "(sale_effect L)\<^sup>*\<^sup>* db (cancel_unpaid_orders now db)"
  unfolding cancel_unpaid_orders_def by (rule fold_effects) (rule cancel_effects)

lemma admin_update_effects: "(sale_effect L)\<^sup>*\<^sup>* db (snd (admin_update_order now k up db))"
proof (cases "row_get so_pk k (sd_orders db)")
  case None
  then show ?thesis by (simp add: admin_update_order_def)
next
  case (Some o')
  then have o': "o' \<in> set (sd_orders db)" by (auto dest: row_get_Some)
  have first: "(sale_effect L)\<^sup>*\<^sup>* db (save_shop_order (patch_order (up\<lparr>up_status := None\<rparr>) o') db)"
    by (rule edit_effects [OF o']) (rule edited_patch, simp)
  have keep: "edited o' (patch_order up o')" if "up_status up = None \<or> up_status up = Some (so_status o')"
    using that by (rule edited_patch)
  have stamped: "edited o' (stamp_status now s (patch_order up o'))" if "\<not> terminal (so_status o')" "\<not> terminal s" for s
    using that by (simp add: edited_def same_order_def stamp_status_def patch_order_def)
  show ?thesis
    using Some o' unfolding admin_update_order_def Let_def
    by (auto split: option.splits sum.splits intro!: edit_effects [OF o'] keep stamped
        intro: rtranclp_trans [OF first] status_effects)
qed

lemma mark_paid_effects: "(sale_effect L)\<^sup>*\<^sup>* db (snd (mark_order_paid now k db))"
  unfolding mark_order_paid_def Let_def
  by (auto split: option.splits dest!: row_get_Some intro!: edit_effects edited_stamp) (simp_all add: terminal_def)

lemma initiate_effects: "(sale_effect L)\<^sup>*\<^sup>* db (snd (initiate_payment g m k db))"
  unfolding initiate_payment_def
  by (auto split: option.splits prod.splits dest!: row_get_Some intro!: edit_effects)

subsection \<open>Notifications\<close>

lemma settle_effects: "(sale_effect L)\<^sup>*\<^sup>* db (snd (settle_order now p n db))"
  unfolding settle_order_def
  by (auto split: option.splits dest!: row_get_Some intro!: edit_effects
      simp: edited_def same_order_def paid_order_def payment_callback_blocked_def) (simp_all add: terminal_def)

lemma fail_effects: "(sale_effect L)\<^sup>*\<^sup>* db (snd (fail_order n db))"
  unfolding fail_order_def
  by (auto split: option.splits dest!: row_get_Some intro!: edit_effects)

lemma save_card_beside: "beside L db (save_client_card c db)" "beside L db (save_address a db)"
  by (simp_all add: save_client_card_def save_address_def Let_def step_intros)

lemma validated_card_effects: "(sale_effect L)\<^sup>*\<^sup>* db (snd (save_validated_card n b m db))"
  unfolding save_validated_card_def Let_def
  by (auto split: list.splits option.splits intro!: beside_effects save_card_beside)

lemma webhook_effects:
  "(sale_effect L)\<^sup>*\<^sup>* db (snd (ecommerce_payment_webhook g now n db))"
  "(sale_effect L)\<^sup>*\<^sup>* db (snd (tbc_payment_webhook now st k db))"
  "(sale_effect L)\<^sup>*\<^sup>* db (snd (flitt_payment_webhook now signed st k db))"
  unfolding ecommerce_payment_webhook_def tbc_payment_webhook_def flitt_payment_webhook_def
  by (auto split: option.splits intro: settle_effects fail_effects validated_card_effects)

lemma courier_effects: "(sale_effect L)\<^sup>*\<^sup>* db (snd (quickshipper_webhook now signed n known st db))"
proof -
  have "(sale_effect L)\<^sup>*\<^sup>* db (courier_moves now r o' db)" if "o' \<in> set (sd_orders db)" for r o'
    unfolding courier_moves_def
    using that cancel_effects by (auto intro!: edit_effects simp: edited_def same_order_def terminal_def)
  then show ?thesis
    unfolding quickshipper_webhook_def Let_def
    by (auto split: option.split simp: bind_eq_Some_conv dest!: row_get_Some)
qed

lemma keepsake_effects:
  "(sale_effect L)\<^sup>*\<^sup>* db (snd (delete_client_card u k db))" "(sale_effect L)\<^sup>*\<^sup>* db (snd (set_default_client_card u k db))"
  "(sale_effect L)\<^sup>*\<^sup>* db (snd (set_default_address u k db))"
  unfolding delete_client_card_def set_default_client_card_def set_default_address_def
  by (auto split: option.splits intro!: beside_effects save_card_beside)

subsection \<open>Placing orders\<close>

lemma pos_promo_room: "0 < promo_discount now x promo \<Longrightarrow> promo = Some p \<Longrightarrow> promo_room p"
  by (auto simp: promo_discount_def promo_is_valid_def promo_room_def split: if_splits option.splits)

lemma new_order_simps [simp]:
  "so_pk (new_shop_order now n c a d promo m q ls db) = next_pk so_pk (sd_orders db)"
  "so_status (new_shop_order now n c a d promo m q ls db) = So_pending"
  "so_number (new_shop_order now n c a d promo m q ls db) = n"
  "so_client (new_shop_order now n c a d promo m q ls db) = c"
  "so_pay (new_shop_order now n c a d promo m q ls db) = Pay_pending"
  "so_discount (new_shop_order now n c a d promo m q ls db) = promo_discount now (basket_subtotal ls) promo"
  by (simp_all add: new_shop_order_def Let_def)

lemma find_promo_member: "find_promo code db = Some p \<Longrightarrow> p \<in> set (sd_promos db)"
  by (auto simp: find_promo_def split: if_splits dest: find_member)

lemma new_order_placeable:
  assumes "\<forall>l \<in> set ls. fair_line db l" and "Negative_amounts \<notin> L \<Longrightarrow> positive_lines ls" and "\<And>p. promo = Some p \<Longrightarrow> p \<in> set (sd_promos db)"
  shows "placeable L db (new_shop_order now n c a d promo m q ls db) promo ls"
  using assms by (auto simp: placeable_def terminal_def intro: pos_promo_room)

lemma member_map_filter: "y \<in> set (List.map_filter f xs) \<longleftrightarrow> (\<exists>x \<in> set xs. f x = Some y)"
  by (induction xs) (auto simp: map_filter_def)

lemma cart_lines_fair: "\<forall>l \<in> set (cart_lines k db). fair_line db l"
  by (auto simp: cart_lines_def member_map_filter cart_line_def cart_items_of_def fair_line_def dest!: row_get_Some) metis

lemma cart_lines_positive: "shop_links db \<Longrightarrow> positive_lines (cart_lines k db)"
  by (auto simp: cart_lines_def member_map_filter cart_line_def cart_items_of_def positive_lines_def shop_links_def)

lemma placed_member:
  assumes "shop_keys db" and "placeable L db o' promo ls" and "place_order o' promo ls db = Some db1"
  shows "rounded_row o' \<in> set (sd_orders db1)"
  using place_order_facts [OF assms] by (metis in_set_conv_decomp)

lemma order_from_cart_effects:
  assumes "shop_inv L db" and "order_from_cart now n rq db = Some (o', db1)"
  shows "(sale_effect L)\<^sup>*\<^sup>* db db1 \<and> rounded_row o' \<in> set (sd_orders db1) \<and> so_status o' = So_pending"
proof -
  from assms(2) obtain c d where c: "row_get ca_pk (rq_cart rq) (sd_carts db) = Some c"
    and o': "o' = new_shop_order now n (ca_client c) (rq_address rq) (rq_delivery rq) (find_promo (rq_promo rq) db)
        (find_shipping (rq_shipping rq) db) (rq_quote rq) (cart_lines (rq_cart rq) db) db"
    and d: "place_order o' (find_promo (rq_promo rq) db) (cart_lines (rq_cart rq) db) db = Some d"
    and db1: "db1 = d\<lparr>sd_carts := row_save ca_pk (c\<lparr>ca_status := Cart_converted\<rparr>) (sd_carts d)\<rparr>"
    by (auto simp: order_from_cart_def Let_def split: if_splits option.splits)
  have p: "placeable L db o' (find_promo (rq_promo rq) db) (cart_lines (rq_cart rq) db)"
    unfolding o' using cart_lines_positive [OF shop_invD(3) [OF assms(1)]]
    by (intro new_order_placeable find_promo_member cart_lines_fair)
  have "sale_effect L db d" using p d by (rule eff_place)
  moreover have "sale_effect L d db1" unfolding db1 by (rule eff_beside) (rule step_intros)
  moreover have "rounded_row o' \<in> set (sd_orders d)" using shop_invD(1) [OF assms(1)] p d by (rule placed_member)
  ultimately show ?thesis by (auto simp: db1 o')
qed

lemma placed_edit:
  "(sale_effect L)\<^sup>*\<^sup>* db db1 \<and> rounded_row o' \<in> set (sd_orders db1) \<and> so_status o' = So_pending \<Longrightarrow> edited (rounded_row o') q
    \<Longrightarrow> (sale_effect L)\<^sup>*\<^sup>* db (save_shop_order q db1)"
  by (blast intro: rtranclp_trans edit_effects)

lemma placed_cancel: "(sale_effect L)\<^sup>*\<^sup>* db db1 \<and> P \<Longrightarrow> (sale_effect L)\<^sup>*\<^sup>* db (snd (cancel_order now inst db1))"
  by (blast intro: rtranclp_trans cancel_effects)

lemma charge_effects:
  assumes "(sale_effect L)\<^sup>*\<^sup>* db db1" and "rounded_row o' \<in> set (sd_orders db1)" and "so_status o' = So_pending"
  shows "(sale_effect L)\<^sup>*\<^sup>* db (snd (charge_card_order g u k o' db1))"
  using assms unfolding charge_card_order_def by (auto split: option.splits intro!: placed_edit)

lemma client_create_effects:
  assumes "shop_inv L db"
  shows "(sale_effect L)\<^sup>*\<^sup>* db (snd (client_create_order g now n u rq db))"
proof -
  have place: "(sale_effect L)\<^sup>*\<^sup>* db db1 \<and> rounded_row o' \<in> set (sd_orders db1) \<and> so_status o' = So_pending"
    if "order_from_cart now n rq db = Some (o', db1)" for o' db1
    using order_from_cart_effects [OF assms that] .
  show ?thesis
    unfolding client_create_order_def Let_def
    by (auto split: option.splits prod.splits dest!: place intro!: placed_edit intro: placed_cancel charge_effects)
qed

lemma admin_create_effects:
  assumes "shop_inv L db"
  shows "(sale_effect L)\<^sup>*\<^sup>* db (snd (admin_create_order g now n rq db))"
  unfolding admin_create_order_def
  by (auto split: option.splits prod.splits dest!: order_from_cart_effects [OF assms] intro!: placed_edit intro: placed_cancel)

lemma guest_line_fair: "guest_line db i = Some l \<Longrightarrow> fair_line db l \<and> 1 \<le> bl_quantity l"
  by (auto simp: guest_line_def fair_line_def split: prod.splits if_splits option.splits dest!: find_member)

lemma guest_lines_fair: "guest_lines db is = Some ls \<Longrightarrow> (\<forall>l \<in> set ls. fair_line db l) \<and> positive_lines ls"
  by (induction "is" arbitrary: ls) (auto simp: positive_lines_def split: option.splits dest: guest_line_fair)

lemma guest_setup_effects:
  "guest_client e db = (u, db1) \<Longrightarrow> (sale_effect L)\<^sup>*\<^sup>* db db1" "guest_address u db = (a, db2) \<Longrightarrow> (sale_effect L)\<^sup>*\<^sup>* db db2"
  by (auto simp: guest_client_def guest_address_def Let_def split: option.splits intro!: beside_effects step_intros)

lemma guest_effects:
  assumes "shop_inv L db"
  shows "(sale_effect L)\<^sup>*\<^sup>* db (snd (guest_checkout g now n gq db))"
proof -
  obtain u db1 where u: "guest_client (gq_email gq) db = (u, db1)" by (cases "guest_client (gq_email gq) db")
  obtain a db2 where a: "guest_address u db1 = (a, db2)" by (cases "guest_address u db1")
  have before: "(sale_effect L)\<^sup>*\<^sup>* db db2" using guest_setup_effects(1) [OF u] guest_setup_effects(2) [OF a] by (rule rtranclp_trans)
  have ok: "shop_keys db2" using sale_effects_kept [OF before assms] by (simp add: kept_by_def shop_inv_def)
  have pay: "(sale_effect L)\<^sup>*\<^sup>* db (snd (guest_payment g m p d o' db3))"
    if ls: "guest_lines db2 (gq_items gq) = Some ls"
      and o': "o' = new_shop_order now n u a d (find_promo (gq_promo gq) db2) sm (gq_quote gq) ls db2"
      and db3: "place_order o' (find_promo (gq_promo gq) db2) ls db2 = Some db3" for ls o' db3 sm m p d
  proof -
    have pl: "placeable L db2 o' (find_promo (gq_promo gq) db2) ls"
      unfolding o' using guest_lines_fair [OF ls] by (intro new_order_placeable find_promo_member) simp_all
    have "(sale_effect L)\<^sup>*\<^sup>* db db3" using before eff_place [OF pl db3] by (rule effect_then)
    then have "(sale_effect L)\<^sup>*\<^sup>* db db3 \<and> rounded_row o' \<in> set (sd_orders db3) \<and> so_status o' = So_pending"
      using placed_member [OF ok pl db3] by (simp add: o')
    then show ?thesis unfolding guest_payment_def by (auto split: option.splits intro!: placed_edit)
  qed
  show ?thesis
    by (simp add: guest_checkout_def u a) (auto simp: Let_def split: option.splits intro: before intro!: pay)
qed

subsection \<open>Carts\<close>

lemma carts_beside: "(Negative_amounts \<notin> L \<Longrightarrow> \<forall>i \<in> set x. 1 \<le> ci_quantity i \<or> i \<in> set (sd_cart_items db))
  \<Longrightarrow> beside L db (db\<lparr>sd_cart_items := x\<rparr>)"
  "set x \<subseteq> set (sd_cart_items db) \<Longrightarrow> beside L db (db\<lparr>sd_carts := cs, sd_cart_items := x\<rparr>)"
  by (auto simp: beside_def)

lemma edited_item_beside:
  assumes "shop_inv L db" and "i \<in> set (sd_cart_items db)" and "item_patch_ok db ip"
  shows "beside L db (db\<lparr>sd_cart_items := row_save ci_pk (priced_item db (patched_item ip i)) (sd_cart_items db)\<rparr>)"
proof (rule carts_beside(1))
  assume "Negative_amounts \<notin> L"
  then have "1 \<le> ci_quantity i" using shop_invD(3) [OF assms(1)] assms(2) by (simp add: shop_links_def)
  then have "1 \<le> ci_quantity (priced_item db (patched_item ip i))"
    using assms(3) by (auto simp: priced_item_def patched_item_def or_keep_def item_patch_ok_def split: option.split option.split_asm)
  then show "\<forall>j \<in> set (row_save ci_pk (priced_item db (patched_item ip i)) (sd_cart_items db)).
      1 \<le> ci_quantity j \<or> j \<in> set (sd_cart_items db)"
    by (auto simp: set_row_save split: if_splits)
qed

lemma insert_item_effects: "(sale_effect L)\<^sup>*\<^sup>* db (snd (insert_cart_item c k w m db))"
  unfolding insert_cart_item_def Let_def by (auto split: option.splits intro!: beside_effects carts_beside)

lemma add_item_effects:
  assumes "0 \<le> n \<or> Negative_amounts \<in> L" and "shop_inv L db"
  shows "(sale_effect L)\<^sup>*\<^sup>* db (snd (client_add_item u c k w n db))"
proof -
  have grown: "1 \<le> ci_quantity i + n" if "i \<in> set (sd_cart_items db)" "Negative_amounts \<notin> L" for i
    using that assms shop_invD(3) [OF assms(2)] by (force simp: shop_links_def)
  show ?thesis
    unfolding client_add_item_def
    by (auto split: option.splits intro!: beside_effects carts_beside grown simp: set_row_save insert_item_effects
        split: if_splits dest!: find_member)
qed

lemma removed_item_beside: "beside L db (db\<lparr>sd_cart_items := row_delete ci_pk k (sd_cart_items db)\<rparr>)"
  by (auto simp: beside_def row_delete_def)

lemma item_effects:
  assumes "shop_inv L db"
  shows "(sale_effect L)\<^sup>*\<^sup>* db (snd (client_update_item u k ip db))" "(sale_effect L)\<^sup>*\<^sup>* db (snd (staff_update_item k ip db))"
    "(sale_effect L)\<^sup>*\<^sup>* db (snd (client_remove_item u k db))" "(sale_effect L)\<^sup>*\<^sup>* db (snd (staff_remove_item k db))"
  unfolding client_update_item_def staff_update_item_def client_remove_item_def staff_remove_item_def
  by (auto split: option.splits intro!: beside_effects edited_item_beside [OF assms] removed_item_beside
      dest!: find_member row_get_Some)

lemma cart_effects:
  "(sale_effect L)\<^sup>*\<^sup>* db (get_or_create_cart u db)" "(sale_effect L)\<^sup>*\<^sup>* db (snd (create_cart cp db))"
  "(sale_effect L)\<^sup>*\<^sup>* db (snd (client_update_cart u k cp db))" "(sale_effect L)\<^sup>*\<^sup>* db (snd (staff_update_cart k cp db))"
  "(sale_effect L)\<^sup>*\<^sup>* db (snd (client_delete_cart u k db))" "(sale_effect L)\<^sup>*\<^sup>* db (snd (staff_delete_cart k db))"
  "(sale_effect L)\<^sup>*\<^sup>* db (snd (set_cart_address k adr db))" "(sale_effect L)\<^sup>*\<^sup>* db (snd (clear_cart k db))"
  unfolding get_or_create_cart_def create_cart_def client_update_cart_def staff_update_cart_def client_delete_cart_def
    staff_delete_cart_def delete_cart_def set_cart_address_def clear_cart_def Let_def
  by (auto split: option.splits intro!: beside_effects carts_beside step_intros)

subsection \<open>What the liberties do\<close>

lemma rewrite_effects: "Rewritten_orders \<in> L \<Longrightarrow> (sale_effect L)\<^sup>*\<^sup>* db (snd (client_update_order u k up db))"
  unfolding client_update_order_def
  by (auto split: option.splits dest!: find_member intro!: r_into_rtranclp eff_rewrite simp: same_order_def patch_order_def)

lemma delete_effects:
  assumes "Deleted_orders \<in> L"
  shows "(sale_effect L)\<^sup>*\<^sup>* db (snd (client_delete_order u k db))" "(sale_effect L)\<^sup>*\<^sup>* db (snd (destroy_order k db))"
  unfolding client_delete_order_def destroy_order_def
  by (auto split: option.splits intro!: r_into_rtranclp eff_delete assms)

lemma catalogue_effects:
  "Catalogue_changes \<in> L \<Longrightarrow> catalogue_edit db db1 \<Longrightarrow> Unbounded_counts \<in> L \<or> well_counted db1 \<Longrightarrow> (sale_effect L)\<^sup>*\<^sup>* db db1"
  by (blast intro: eff_catalogue)

text \<open>The endpoints that correct the stock and delete variants are changes of the catalogue.\<close>

lemma catalogue_operations:
  assumes "shop_keys db"
  shows "catalogue_edit db (snd (adjust_product_stock k delta db))" "catalogue_edit db (snd (adjust_variant_stock k delta db))"
    "catalogue_edit db (snd (destroy_variant k db))"
proof -
  have keep: "keyed_goods db" "distinct (map pm_pk (sd_promos db))" using assms by (simp_all add: shop_keys_def)
  have same: "catalogue_edit db db" using keep by (simp add: catalogue_edit_def)
  have added: "keyed_goods (add_stock k n db)" "keyed_goods (add_variant_stock k n db)" for n
    using keep(1) same_goods_facts(2) [OF add_stock_goods(1)] same_goods_facts(2) [OF add_stock_goods(2)] by simp_all
  then have "catalogue_edit db (add_stock k n db)" "catalogue_edit db (add_variant_stock k n db)" for n
    using keep(2) by (simp_all add: catalogue_edit_def add_stock_def add_variant_stock_def)
  then show "catalogue_edit db (snd (adjust_product_stock k delta db))" "catalogue_edit db (snd (adjust_variant_stock k delta db))"
    using same by (auto simp: adjust_product_stock_def adjust_variant_stock_def split: option.split)
  show "catalogue_edit db (snd (destroy_variant k db))"
    using keep same
    by (auto simp: destroy_variant_def catalogue_edit_def keyed_goods_def row_delete_def distinct_map_filter)
qed

subsection \<open>The system\<close>

text \<open>The operations of customers, guests, staff, banks, courier and scheduler on a shop in which the liberties
  \<open>L\<close> are taken.  \<open>st_account\<close> stands for the forms of customers, addresses, shipping methods and settings.\<close>

inductive shop_step :: "liberty set \<Rightarrow> shop_db \<Rightarrow> shop_db \<Rightarrow> bool" for L where
  st_cart: "shop_step L db (get_or_create_cart u db)"
| st_create_cart: "shop_step L db (snd (create_cart cp db))"
| st_client_cart: "shop_step L db (snd (client_update_cart u k cp db))"
| st_staff_cart: "shop_step L db (snd (staff_update_cart k cp db))"
| st_client_drop: "shop_step L db (snd (client_delete_cart u k db))"
| st_staff_drop: "shop_step L db (snd (staff_delete_cart k db))"
| st_add: "0 \<le> n \<or> Negative_amounts \<in> L \<Longrightarrow> shop_step L db (snd (client_add_item u c k w n db))"
| st_insert: "shop_step L db (snd (insert_cart_item c k w n db))"
| st_update_item: "shop_step L db (snd (client_update_item u k ip db))"
| st_staff_item: "shop_step L db (snd (staff_update_item k ip db))"
| st_remove_item: "shop_step L db (snd (client_remove_item u k db))"
| st_staff_remove: "shop_step L db (snd (staff_remove_item k db))"
| st_cart_address: "shop_step L db (snd (set_cart_address k adr db))"
| st_clear: "shop_step L db (snd (clear_cart k db))"
| st_order: "shop_step L db (snd (client_create_order g now n u rq db))"
| st_admin_order: "shop_step L db (snd (admin_create_order g now n rq db))"
| st_guest: "shop_step L db (snd (guest_checkout g now n gq db))"
| st_status: "shop_step L db (snd (update_order_status now v k status db))"
| st_bulk: "shop_step L db (snd (bulk_update_status now v ids status db))"
| st_refund: "shop_step L db (snd (refund k db))"
| st_cancel: "shop_step L db (snd (customer_cancel now u k db))"
| st_edit: "shop_step L db (snd (admin_update_order now k up db))"
| st_mark_paid: "shop_step L db (snd (mark_order_paid now k db))"
| st_initiate: "shop_step L db (snd (initiate_payment g m k db))"
| st_sweep: "shop_step L db (cancel_unpaid_orders now db)"
| st_bank: "shop_step L db (snd (ecommerce_payment_webhook g now notice db))"
| st_tbc: "shop_step L db (snd (tbc_payment_webhook now st order_number db))"
| st_flitt: "shop_step L db (snd (flitt_payment_webhook now signed st order_number db))"
| st_courier: "shop_step L db (snd (quickshipper_webhook now signed order_number known st db))"
| st_delete_card: "shop_step L db (snd (delete_client_card u k db))"
| st_default_card: "shop_step L db (snd (set_default_client_card u k db))"
| st_default_address: "shop_step L db (snd (set_default_address u k db))"
| st_account: "shop_step L db (db\<lparr>sd_clients := cs, sd_addresses := ads, sd_shipping := shs, sd_settings := se\<rparr>)"
| st_rewrite: "Rewritten_orders \<in> L \<Longrightarrow> shop_step L db (snd (client_update_order u k up db))"
| st_client_delete: "Deleted_orders \<in> L \<Longrightarrow> shop_step L db (snd (client_delete_order u k db))"
| st_staff_delete: "Deleted_orders \<in> L \<Longrightarrow> shop_step L db (snd (destroy_order k db))"
| st_catalogue: "Catalogue_changes \<in> L \<Longrightarrow> catalogue_edit db db1 \<Longrightarrow> Unbounded_counts \<in> L \<or> well_counted db1
    \<Longrightarrow> shop_step L db db1"

inductive_cases shop_stepE: "shop_step L db db1"

lemma account_effects: "(sale_effect L)\<^sup>*\<^sup>* db (db\<lparr>sd_clients := cs, sd_addresses := ads, sd_shipping := shs, sd_settings := se\<rparr>)"
  by (rule beside_effects) (simp add: beside_def)

lemmas operation_effects = cart_effects add_item_effects insert_item_effects item_effects
  client_create_effects admin_create_effects guest_effects update_status_effects bulk_effects
  refund_view_effects customer_cancel_effects admin_update_effects mark_paid_effects initiate_effects sweep_effects
  webhook_effects courier_effects keepsake_effects account_effects rewrite_effects delete_effects

lemma shop_step_effects: "shop_inv L db \<Longrightarrow> shop_step L db db1 \<Longrightarrow> (sale_effect L)\<^sup>*\<^sup>* db db1"
  by (erule shop_stepE; (simp only: operation_effects)?) (rule catalogue_effects)

text \<open>A shop opens with its catalogue, codes and customers, and no orders.\<close>

definition shop_start :: "shop_db \<Rightarrow> bool" where
  "shop_start db \<longleftrightarrow> shop_ok db \<and> sd_orders db = []"

lemma shop_step_inv:
  assumes "shop_inv L db" and "shop_step L db db1"
  shows "shop_inv L db1"
  using sale_effects_kept [OF shop_step_effects [OF assms] assms(1)] by (simp add: kept_by_def)

interpretation shop: invariant_system shop_start "shop_step L" "shop_inv L" for L
proof
  show "shop_inv L s" if "shop_start s" for s using that by (simp add: shop_start_def shop_ok_inv)
  show "shop_inv L t" if "shop_inv L s" "shop_step L s t" for s t using that by (rule shop_step_inv)
qed

interpretation sales: simulation "shop_step L" "sale_effect L" "shop_inv L" "\<lambda>db. db" for L
  by unfold_locales (blast intro: shop_step_inv shop_step_effects)+

lemma shop_runs_kept:
  assumes "(shop_step L)\<^sup>*\<^sup>* a b" and "shop_inv L a"
  shows "kept_by L s a b"
  using sales.simulates [OF assms] assms(2) by (blast intro: sale_effects_kept)

end
