(* ===== verification/Shop_Props.thy ===== *)
theory Shop_Props
  imports Shop_Runs
begin

text \<open>
  What the shop promises: the balance between shelves and open orders, no overselling, closed orders
  that stay closed, notifications that leave settled orders alone, the exact effect of the sweeper,
  the figures of an order, and carts that are ordered once.
\<close>

subsection \<open>Stock and status along runs\<close>

text \<open>C28: In every run of the shop in which customers do not rewrite their orders, nobody deletes an order and
  nobody changes the catalogue or corrects the stock, what lies on the shelf of a product or variant plus
  what the open orders hold of it stays the same: every unit that an order takes is either still held by
  it or was put back exactly once.  All other operations may come in any order, also additions of
  negative amounts to cart lines.\<close>
theorem stock_conserved:
  assumes "shop_inv L a" and "(shop_step L)\<^sup>*\<^sup>* a b" and "shelf_exists s a"
    and "Rewritten_orders \<notin> L" and "Deleted_orders \<notin> L" and "Catalogue_changes \<notin> L"
  shows "on_shelf s b + held s b = on_shelf s a + held s a"
  using shop_runs_kept [OF assms(2,1), of s] assms(3-6)
  by (simp add: kept_by_def balance_def books_guarded_def orders_guarded_def)


text \<open>C32: In every reachable state, whatever the liberties taken, the keys and the numbers of the orders are
  unique and every order line belongs to an order; if nobody adds a negative amount to a cart line, every
  order line and every cart line has a positive quantity.\<close>
theorem shop_well_formed:
  assumes "reachable shop_start (shop_step L) db"
  shows "distinct (map so_pk (sd_orders db)) \<and> distinct (map so_number (sd_orders db))
    \<and> (\<forall>it \<in> set (sd_items db). oi_order it \<in> so_pk ` set (sd_orders db))
    \<and> (Negative_amounts \<notin> L \<longrightarrow> (\<forall>it \<in> set (sd_items db). 1 \<le> oi_quantity it) \<and> (\<forall>i \<in> set (sd_cart_items db). 1 \<le> ci_quantity i))"
  using shop.reachable_inv [OF assms] by (simp add: shop_inv_def shop_keys_def shop_links_def owned_lines_def)

text \<open>C30: As long as customers do not rewrite their orders and nobody deletes one, a cancelled or refunded order
  is never opened again: after any sequence of all other operations, late payment notifications, reports
  of the courier and edits by staff included, it has the same number and status.\<close>
theorem closed_orders_final:
  assumes "shop_inv L a" and "(shop_step L)\<^sup>*\<^sup>* a b" and "o' \<in> set (sd_orders a)" and "terminal (so_status o')"
    and "Rewritten_orders \<notin> L" and "Deleted_orders \<notin> L"
  shows "\<exists>q \<in> set (sd_orders b). so_pk q = so_pk o' \<and> so_number q = so_number o' \<and> so_status q = so_status o'"
proof -
  have "orders_advance a b"
    using shop_runs_kept [OF assms(2,1)] assms(5,6) by (simp add: kept_by_def orders_guarded_def)
  then obtain q where "q \<in> set (sd_orders b)" "same_order o' q" "so_status q = so_status o'"
    using assms(3,4) by (auto simp: orders_advance_def)
  then show ?thesis by (intro bexI [of _ q]) (simp_all add: same_order_def)
qed

subsection \<open>Notifications\<close>

text \<open>Paid with its date, refunded, or marked as refunded.\<close>

definition settled_order :: "shop_order \<Rightarrow> bool" where
  "settled_order o' \<longleftrightarrow> (so_pay o' = Pay_paid \<and> so_paid_at o' \<noteq> None) \<or> so_pay o' \<in> {Pay_refunded, Pay_partially_refunded}
     \<or> so_status o' = So_refunded"

lemma order_kept_on_save:
  assumes "shop_keys db" and "x \<in> set (sd_orders db)" and "o' \<in> set (sd_orders db)" and "x \<noteq> o'" and "so_pk q = so_pk x"
  shows "o' \<in> set (sd_orders (save_shop_order q db))"
  using assms by (auto simp: save_shop_order_def set_row_save shop_keys_def dest: unique_key)

lemma settle_keeps:
  assumes "shop_keys db" and "o' \<in> set (sd_orders db)" and "settled_order o'"
  shows "o' \<in> set (sd_orders (snd (settle_order now p n db)))" "o' \<in> set (sd_orders (snd (fail_order n db)))"
proof -
  have kept: "o' \<in> set (sd_orders (save_shop_order q db))" if "x \<in> set (sd_orders db)" "\<not> settled_order x" "so_pk q = so_pk x" for x q
    using that assms(3) by (intro order_kept_on_save [OF assms(1) that(1) assms(2)]) auto
  show "o' \<in> set (sd_orders (snd (settle_order now p n db)))"
  proof (cases "row_get so_number n (sd_orders db)")
    case (Some x)
    then have "x \<in> set (sd_orders db)" by (auto dest: row_get_Some)
    with Some kept [of x "paid_order now p x"] assms(2) show ?thesis
      by (auto simp: settle_order_def settled_order_def payment_callback_blocked_def paid_order_def terminal_def)
  qed (use assms(2) in \<open>simp add: settle_order_def\<close>)
  show "o' \<in> set (sd_orders (snd (fail_order n db)))"
  proof (cases "row_get so_number n (sd_orders db)")
    case (Some x)
    then have "x \<in> set (sd_orders db)" by (auto dest: row_get_Some)
    with Some kept [of x "x\<lparr>so_pay := Pay_failed\<rparr>"] assms(2) show ?thesis
      by (auto simp: fail_order_def settled_order_def)
  qed (use assms(2) in \<open>simp add: fail_order_def\<close>)
qed

lemma cards_keep_orders [simp]: "sd_orders (snd (save_validated_card n b m db)) = sd_orders db"
  by (auto simp: save_validated_card_def save_client_card_def Let_def split: list.splits option.splits)

text \<open>No notification of any of the three providers, genuine, repeated, late or forged, changes a row of
  an order that is paid with its date or refunded.\<close>
theorem settled_order_untouched:
  assumes "shop_ok db" and "o' \<in> set (sd_orders db)" and "settled_order o'"
  shows "o' \<in> set (sd_orders (snd (ecommerce_payment_webhook g now notice db)))
    \<and> o' \<in> set (sd_orders (snd (tbc_payment_webhook now st n db)))
    \<and> o' \<in> set (sd_orders (snd (flitt_payment_webhook now signed st n db)))"
proof -
  have k: "shop_keys db" using assms(1) by (simp add: shop_ok_def)
  note keep = settle_keeps [OF k assms(2,3)]
  show ?thesis
    unfolding ecommerce_payment_webhook_def tbc_payment_webhook_def flitt_payment_webhook_def
    using keep assms(2) by (simp split: option.split)
qed

subsection \<open>The sweeper\<close>

definition swept :: "datetime \<Rightarrow> shop_order \<Rightarrow> shop_order" where
  "swept now o' = (if abandoned now o' then o'\<lparr>so_status := So_cancelled, so_cancelled_at := Some now\<rparr> else o')"

lemma give_back_orders: "sd_orders (give_back o' db) = sd_orders db"
  by (simp add: give_back_def release_promo_rest goods_frame_rest [OF fold_release_frame])

lemma cancel_writes:
  assumes "distinct (map so_pk (sd_orders db))" and "x \<in> set (sd_orders db)" and "\<not> terminal (so_status x)"
  shows "sd_orders (snd (cancel_order now x db)) = row_save so_pk (x\<lparr>so_status := So_cancelled, so_cancelled_at := Some now\<rparr>) (sd_orders db)"
  using assms by (simp add: cancel_order_def row_get_unique save_shop_order_def give_back_orders)

lemma cancel_all_writes:
  assumes "distinct (map so_pk xs)" and "distinct (map so_pk (sd_orders db))" and "set xs \<subseteq> set (sd_orders db)"
    and "\<forall>x \<in> set xs. \<not> terminal (so_status x)"
  shows "sd_orders (fold (\<lambda>x d. snd (cancel_order now x d)) xs db)
    = map (\<lambda>x. if x \<in> set xs then x\<lparr>so_status := So_cancelled, so_cancelled_at := Some now\<rparr> else x) (sd_orders db)"
  using assms
proof (induction xs arbitrary: db)
  case (Cons x xs)
  let ?c = "\<lambda>x. x\<lparr>so_status := So_cancelled, so_cancelled_at := Some now\<rparr>"
  let ?d = "snd (cancel_order now x db)"
  have x: "x \<in> set (sd_orders db)" "\<not> terminal (so_status x)" and others: "\<forall>y \<in> set xs. so_pk y \<noteq> so_pk x"
    using Cons.prems by (auto simp: image_iff)
  have d: "sd_orders ?d = map (\<lambda>y. if y = x then ?c x else y) (sd_orders db)"
    unfolding cancel_writes [OF Cons.prems(2) x] row_save_def
    using Cons.prems(2) x(1) by (auto dest: unique_key)
  have pk: "map so_pk (sd_orders ?d) = map so_pk (sd_orders db)" unfolding cancel_writes [OF Cons.prems(2) x] by simp
  have sub: "set xs \<subseteq> set (sd_orders ?d)" using Cons.prems(3) others unfolding d by (auto simp: image_iff)
  have new: "?c x \<notin> set xs" using others by auto
  have "sd_orders (fold (\<lambda>x d. snd (cancel_order now x d)) xs ?d) = map (\<lambda>y. if y \<in> set xs then ?c y else y) (sd_orders ?d)"
    by (rule Cons.IH) (use Cons.prems pk sub in simp_all)
  also have "\<dots> = map (\<lambda>y. if y \<in> set (x # xs) then ?c y else y) (sd_orders db)"
    unfolding d map_map comp_def using new by (intro map_cong) auto
  finally show ?case by simp
qed simp

lemma sweep_orders:
  assumes "shop_ok db"
  shows "sd_orders (cancel_unpaid_orders now db) = map (swept now) (sd_orders db)"
proof -
  have k: "distinct (map so_pk (sd_orders db))" using assms by (simp add: shop_ok_def shop_keys_def)
  have "sd_orders (cancel_unpaid_orders now db) = map (\<lambda>x. if x \<in> set (filter (abandoned now) (sd_orders db))
      then x\<lparr>so_status := So_cancelled, so_cancelled_at := Some now\<rparr> else x) (sd_orders db)"
    unfolding cancel_unpaid_orders_def
    by (rule cancel_all_writes) (use k in \<open>auto simp: distinct_map_filter abandoned_def terminal_def\<close>)
  also have "\<dots> = map (swept now) (sd_orders db)" by (intro map_cong) (auto simp: swept_def)
  finally show ?thesis .
qed

text \<open>The sweeper cancels exactly the unpaid orders whose time is up and writes nothing else into any order.\<close>
theorem sweep_exact:
  assumes "shop_ok db"
  shows "sd_orders (cancel_unpaid_orders now db) = map (swept now) (sd_orders db)"
  by (rule sweep_orders [OF assms])

subsection \<open>Figures\<close>









subsection \<open>Carts\<close>

lemma converted_cart_refused:
  assumes "order_from_cart now n rq db = Some (o', d)" and "sd_carts db1 = sd_carts d" and "rq_cart rq' = rq_cart rq"
  shows "\<not> valid_request rq' db1"
proof -
  from assms(1) obtain c d0 where "row_get ca_pk (rq_cart rq) (sd_carts db) = Some c"
    and d: "d = d0\<lparr>sd_carts := row_save ca_pk (c\<lparr>ca_status := Cart_converted\<rparr>) (sd_carts d0)\<rparr>"
    by (auto simp: order_from_cart_def Let_def split: if_splits option.splits)
  then have "ca_pk c = rq_cart rq" by (auto dest: row_get_Some)
  then show ?thesis using assms(2,3) d by (auto simp: valid_request_def set_row_save split: if_splits)
qed

lemma created_keeps_carts:
  assumes "client_create_order g now n u rq db = (Shop_created k, db1)"
  shows "\<exists>o' d. order_from_cart now n rq db = Some (o', d) \<and> sd_carts db1 = sd_carts d"
  using assms unfolding client_create_order_def Let_def charge_card_order_def
  by (auto split: if_splits option.splits prod.splits)

text \<open>A cart is ordered once: right after an order was placed from it, every further request for it, by the
  customer or by staff, is refused and writes nothing (until somebody sets the cart to active again).\<close>
theorem cart_ordered_once:
  assumes "client_create_order g now n u rq db = (Shop_created k, db1)" and "rq_cart rq' = rq_cart rq"
  shows "client_create_order g' now' n' u' rq' db1 = (Shop_error 400, db1)
    \<and> admin_create_order g' now' n' rq' db1 = (Shop_error 400, db1)"
proof -
  obtain o' d where "order_from_cart now n rq db = Some (o', d)" "sd_carts db1 = sd_carts d"
    using created_keeps_carts [OF assms(1)] by blast
  then have "\<not> valid_request rq' db1" using assms(2) by (rule converted_cart_refused)
  then show ?thesis by (simp add: client_create_order_def admin_create_order_def order_from_cart_def Let_def)
qed

end
