(* ===== verification/Shop_Gaps.thy ===== *)
theory Shop_Gaps
  imports Shop_Props
begin

text \<open>
  What the unchecked paths of the shop do: customers who rewrite or delete their orders, identities
  that checkout does not compare, answers that deny an order which was placed, orders the sweeper
  never finds, promo uses that are given back without having been taken, and a notification that
  nobody verifies.
\<close>

subsection \<open>Customers and their orders\<close>

lemma own_order_found:
  assumes "distinct (map so_pk (sd_orders db))" and "o' \<in> set (sd_orders db)"
  shows "find (\<lambda>x. so_pk x = so_pk o' \<and> so_client x = so_client o') (sd_orders db) = Some o'"
proof (cases "find (\<lambda>x. so_pk x = so_pk o' \<and> so_client x = so_client o') (sd_orders db)")
  case None
  then show ?thesis using assms(2) by (auto simp: find_None_iff)
next
  case (Some x)
  then have "x \<in> set (sd_orders db) \<and> so_pk x = so_pk o'" by (auto dest: find_member)
  then have "x = o'" using assms unique_key [of so_pk "sd_orders db" x o'] by blast
  with Some show ?thesis by simp
qed

text \<open>C40: A customer can write the payment columns of an own order: one request turns any order, unpaid or
  already cancelled, into a delivered one that is paid and costs whatever the request says.\<close>
theorem customer_marks_paid:
  assumes "shop_ok db" and "o' \<in> set (sd_orders db)"
  shows "let up = no_patch\<lparr>up_status := Some So_delivered, up_pay := Some Pay_paid, up_total := Some x\<rparr>;
      r = client_update_order (so_client o') (so_pk o') up db
    in fst r = Shop_done \<and> (\<exists>q \<in> set (sd_orders (snd r)). so_number q = so_number o' \<and> so_status q = So_delivered
         \<and> so_pay q = Pay_paid \<and> so_total q = x \<and> so_paid_at q = so_paid_at o')"
proof -
  have k: "distinct (map so_pk (sd_orders db))" using assms(1) by (simp add: shop_ok_def shop_keys_def)
  have pk: "so_pk o' \<in> so_pk ` set (sd_orders db)" using assms(2) by blast
  show ?thesis
    unfolding client_update_order_def own_order_found [OF k assms(2)] Let_def
    using pk by (auto simp: save_shop_order_def set_row_save patch_order_def or_keep_def no_patch_def)
qed

text \<open>Deleting an open order, which customers may do with their own, takes what it held out of the books:
  the stock is not put back, and the balance of every shelf drops by what the lines of the order claim.\<close>
theorem deleted_order_loses_stock:
  assumes "shop_ok db" and "o' \<in> set (sd_orders db)" and "\<not> terminal (so_status o')"
  shows "let db1 = snd (client_delete_order (so_client o') (so_pk o') db)
    in on_shelf s db1 = on_shelf s db \<and> held s db1 = held s db - (\<Sum>it\<leftarrow>items_of (so_pk o') db. claim s db it)"
proof -
  have k: "distinct (map so_pk (sd_orders db))" using assms(1) by (simp add: shop_ok_def shop_keys_def)
  let ?d = "delete_order (so_pk o') db"
  have d: "snd (client_delete_order (so_client o') (so_pk o') db) = ?d"
    by (simp add: client_delete_order_def own_order_found [OF k assms(2)])
  have g: "same_goods ?d db \<and> on_shelf s ?d = on_shelf s db \<and> stocked ?d = stocked db"
    by (rule goods_only) (simp_all add: delete_order_def)
  have c: "claim s ?d = claim s db" by (rule same_goods_facts(4)) (use g in blast)
  let ?w = "\<lambda>x. if terminal (so_status x) then 0 else \<Sum>it\<leftarrow>items_of (so_pk x) db. claim s db it"
  have "held s ?d = (\<Sum>x\<leftarrow>row_delete so_pk (so_pk o') (sd_orders db). if terminal (so_status x) then 0 else \<Sum>it\<leftarrow>items_of (so_pk x) ?d. claim s db it)"
    unfolding held_def c by (simp add: delete_order_def)
  also have "\<dots> = (\<Sum>x\<leftarrow>row_delete so_pk (so_pk o') (sd_orders db). ?w x)"
    by (intro arg_cong [where f = sum_list] map_cong) (auto simp: items_of_def delete_order_def intro!: filter_cong arg_cong [where f = "\<lambda>l. sum_list (map f l)" for f])
  also have "\<dots> = (\<Sum>x\<leftarrow>sd_orders db. ?w x) - ?w o'" by (rule sum_row_delete [OF k assms(2)])
  finally show ?thesis using g assms(3) by (simp add: d held_def)
qed

text \<open>Checkout does not compare the customer who asks with the owner of the cart: without a saved card
  every customer gets the same answer for a cart, and the order is booked on the owner of the cart.\<close>
theorem foreign_cart_accepted:
  assumes "rq_card rq = None"
  shows "client_create_order g now n u rq db = client_create_order g now n w rq db
    \<and> (\<forall>o' d. order_from_cart now n rq db = Some (o', d) \<longrightarrow>
         (\<exists>c \<in> set (sd_carts db). ca_pk c = rq_cart rq \<and> so_client o' = ca_client c))"
proof -
  have "client_create_order g now n u rq db = client_create_order g now n w rq db"
    unfolding client_create_order_def assms option.case ..
  then show ?thesis by (auto simp: order_from_cart_def Let_def split: if_splits option.splits dest: row_get_Some)
qed

subsection \<open>Prices the customer sends\<close>

text \<open>Changing the product of a cart line keeps the price of the old product: the order line then sells the
  new product for the price of the one that was put into the cart.\<close>
theorem swapped_product_keeps_price:
  assumes "find (\<lambda>i. ci_pk i = k \<and> owns_item db u i) (sd_cart_items db) = Some i" and "ci_price i \<noteq> 0"
    and "q \<in> set (sd_products db)" and "keyed_goods db"
  shows "let r = client_update_item u k \<lparr>ip_cart = None, ip_product = Some (pr_pk q), ip_variant = Some None, ip_quantity = None\<rparr> db
    in fst r = Shop_done \<and> (\<exists>j \<in> set (sd_cart_items (snd r)). ci_pk j = k \<and> ci_cart j = ci_cart i
      \<and> cart_line (snd r) j = Some \<lparr>bl_product = q, bl_variant = None, bl_quantity = ci_quantity i, bl_price = ci_price i\<rparr>)"
proof -
  let ?ip = "\<lparr>ip_cart = None, ip_product = Some (pr_pk q), ip_variant = Some None, ip_quantity = None\<rparr>"
  let ?j = "i\<lparr>ci_product := pr_pk q, ci_variant := None\<rparr>"
  let ?d = "db\<lparr>sd_cart_items := row_save ci_pk ?j (sd_cart_items db)\<rparr>"
  have ok: "item_patch_ok db ?ip" using assms(3) by (simp add: item_patch_ok_def)
  have j: "priced_item db (patched_item ?ip i) = ?j" using assms(2) by (simp add: priced_item_def patched_item_def or_keep_def)
  have r: "client_update_item u k ?ip db = (Shop_done, ?d)" by (simp add: client_update_item_def assms(1) ok j)
  have i: "i \<in> set (sd_cart_items db)" "ci_pk i = k" using find_member [OF assms(1)] by auto
  then have "?j \<in> set (sd_cart_items ?d)" by (auto simp: set_row_save)
  moreover have "cart_line ?d ?j = Some \<lparr>bl_product = q, bl_variant = None, bl_quantity = ci_quantity i, bl_price = ci_price i\<rparr>"
    using assms(3,4) by (simp add: cart_line_def keyed_goods_def row_get_unique)
  ultimately show ?thesis unfolding Let_def r using i(2) by (auto intro!: bexI [of _ ?j])
qed

lemma place_order_success:
  assumes "so_number x = so_number y"
  shows "(place_order x promo ls db = None) = (place_order y promo ls db = None)"
  using assms by (simp add: place_order_def split: option.split)

text \<open>The price of the courier is whatever the request names: replacing the quote of a courier order changes
  the total by exactly the difference, and no amount is too small, so a negative price sells the
  basket for less than its goods.\<close>
theorem courier_price_unchecked:
  assumes "order_from_cart now n rq db = Some (o', d)" and "rq_delivery rq = Courier"
  shows "\<exists>o2 d2. order_from_cart now n (rq\<lparr>rq_quote := Some (j, x)\<rparr>) db = Some (o2, d2)
    \<and> so_total o2 = so_total o' - so_shipping o' + x \<and> so_subtotal o2 = so_subtotal o'"
proof -
  let ?ls = "cart_lines (rq_cart rq) db"
  let ?promo = "find_promo (rq_promo rq) db"
  let ?new = "\<lambda>c q. new_shop_order now n c (rq_address rq) (rq_delivery rq) ?promo (find_shipping (rq_shipping rq) db) q ?ls db"
  from assms(1) obtain c d0 where v: "valid_request rq db" and c: "row_get ca_pk (rq_cart rq) (sd_carts db) = Some c"
    and o': "o' = ?new (ca_client c) (rq_quote rq)" and p: "place_order o' ?promo ?ls db = Some d0"
    by (auto simp: order_from_cart_def Let_def split: if_splits option.splits)
  let ?o2 = "?new (ca_client c) (Some (j, x))"
  have "place_order ?o2 ?promo ?ls db \<noteq> None"
    using p place_order_success [of ?o2 o' ?promo ?ls db] by (simp add: o')
  then obtain d1 where d1: "place_order ?o2 ?promo ?ls db = Some d1" by blast
  have "valid_request (rq\<lparr>rq_quote := Some (j, x)\<rparr>) db" using v by (simp add: valid_request_def)
  then have "\<exists>d2. order_from_cart now n (rq\<lparr>rq_quote := Some (j, x)\<rparr>) db = Some (?o2, d2)"
    using c d1 by (simp add: order_from_cart_def Let_def)
  moreover have "so_total ?o2 = so_total o' - so_shipping o' + x \<and> so_subtotal ?o2 = so_subtotal o'"
    by (simp add: o' new_shop_order_def Let_def total_for_def shipping_cost_for_def assms(2))
  ultimately show ?thesis by blast
qed

subsection \<open>Orders that stay behind\<close>

text \<open>A guest who asks for cash on delivery by courier is refused with an error, and the order has been
  placed all the same: it is in the table, its stock is taken and its promo use counted.\<close>
theorem refused_guest_order_stays:
  assumes "gq_complete gq" and "gq_items gq \<noteq> []" and "gq_method gq = ''cash_on_delivery''" and "shop_ok db"
    and "guest_client (gq_email gq) db = (u, db1)" and "guest_address u db1 = (a, db2)"
    and "guest_lines db2 (gq_items gq) = Some ls" and "guest_delivery (gq_delivery gq) (sd_settings db2) = Some Courier"
    and "place_order (new_shop_order now n u a Courier (find_promo (gq_promo gq) db2) (find_shipping (gq_shipping gq) db2) (gq_quote gq) ls db2)
      (find_promo (gq_promo gq) db2) ls db2 = Some db3"
  shows "guest_checkout g now n gq db = (Shop_error 400, db3)
    \<and> (\<exists>q \<in> set (sd_orders db3). so_number q = n \<and> so_client q = u \<and> so_status q = So_pending)
    \<and> on_shelf s db3 = on_shelf s db2 - (\<Sum>l\<leftarrow>ls. claim_line s db2 l)"
proof -
  let ?o = "new_shop_order now n u a Courier (find_promo (gq_promo gq) db2) (find_shipping (gq_shipping gq) db2) (gq_quote gq) ls db2"
  have "(sale_effect {})\<^sup>*\<^sup>* db db2" using guest_setup_effects(1) [OF assms(5)] guest_setup_effects(2) [OF assms(6)] by (rule rtranclp_trans)
  then have k: "shop_keys db2" using sale_effects_kept [where L = "{}"] assms(4) by (auto simp: kept_by_def shop_ok_def)
  have p: "placeable {} db2 ?o (find_promo (gq_promo gq) db2) ls"
    using guest_lines_fair [OF assms(7)] by (intro new_order_placeable find_promo_member) simp_all
  have shelf: "on_shelf s db3 = on_shelf s db2 - (\<Sum>l\<leftarrow>ls. claim_line s db2 l)"
    using place_order_facts [OF k p assms(9), of s] by metis
  have answer: "guest_checkout g now n gq db = (Shop_error 400, db3)"
    using assms(1,2,3,5-9) by (simp add: guest_checkout_def guest_payment_def Let_def)
  have "\<exists>q \<in> set (sd_orders db3). so_number q = n \<and> so_client q = u \<and> so_status q = So_pending"
    by (rule bexI [OF _ placed_member [OF k p assms(9)]]) simp
  with answer shelf show ?thesis by blast
qed

text \<open>C39: An order that is charged to a saved card waits in the payment status \<open>processing\<close>, which is not a
  choice of the column, and the sweeper never cancels it, however late it runs: without a
  notification from the bank it holds its stock for good.\<close>
theorem saved_card_order_never_swept:
  assumes "shop_ok db" and "client_create_order g now n u rq db = (Shop_created k, db1)" and "rq_card rq = Some c"
    and "rq_method rq \<noteq> ''cash_on_delivery''"
  shows "\<exists>q \<in> set (sd_orders db1). so_pk q = k \<and> so_status q = So_pending \<and> so_pay q = Pay_processing
    \<and> q \<in> set (sd_orders (cancel_unpaid_orders late db1))"
proof -
  have ok: "shop_ok db1" using shop_step_inv [of "{}" db, OF _ st_order [of _ db g now n u rq]] assms(1,2) by simp
  from assms(2-4) obtain o' d bog where d: "order_from_cart now n rq db = Some (o', d)" and k: "k = so_pk o'"
    and db1: "db1 = save_shop_order (no_metadata (charged_order bog (rounded_row o'))) d"
    unfolding client_create_order_def charge_card_order_def Let_def
    by (auto split: if_splits option.splits prod.splits)
  let ?q = "no_metadata (charged_order bog (rounded_row o'))"
  have o': "rounded_row o' \<in> set (sd_orders d)" "so_status o' = So_pending"
    using order_from_cart_effects [OF shop_ok_inv [OF assms(1)] d] by blast+
  have pk: "so_pk ?q = so_pk o'" "so_status ?q = So_pending" "so_pay ?q = Pay_processing"
    using o'(2) by (simp_all add: no_metadata_def charged_order_def)
  have "so_pk ?q \<in> so_pk ` set (sd_orders d)" unfolding pk using o'(1) by (metis imageI rounded_row_keys(1))
  then have q: "?q \<in> set (sd_orders db1)" unfolding db1 by (simp add: save_shop_order_def set_row_save)
  have "swept late ?q = ?q" by (simp add: swept_def abandoned_def pk(3))
  then have "?q \<in> set (sd_orders (cancel_unpaid_orders late db1))"
    unfolding sweep_orders [OF ok] using q by (metis image_eqI list.set_map)
  then show ?thesis by (intro bexI [OF _ q]) (simp add: pk k)
qed

subsection \<open>Promo uses\<close>

lemma reserve_lines_promos: "reserve_lines ls db = Some d \<Longrightarrow> sd_promos d = sd_promos db"
proof (induction ls arbitrary: db)
  case (Cons l ls)
  then obtain e where e: "reserve_stock (bl_product l) (bl_variant l) (bl_quantity l) db = Some e" "reserve_lines ls e = Some d"
    by (auto split: option.splits)
  have "sd_promos e = sd_promos db"
    using e(1) by (cases rule: reserve_stock_cases) (simp_all add: save_product_def save_variant_def)
  with Cons.IH [OF e(2)] show ?case by simp
qed simp

lemma place_order_promos:
  assumes "place_order o' promo ls db = Some d" and "so_discount o' \<le> 0"
  shows "sd_promos d = sd_promos db"
proof -
  from assms(1) obtain e where e: "reserve_lines ls db = Some e"
    and d: "d = use_promo (so_discount o') promo (fold (create_item (so_pk o')) ls (e\<lparr>sd_orders := row_create (rounded_row o') (sd_orders e)\<rparr>))"
    by (auto simp: place_order_def split: option.splits if_splits)
  obtain its where "fold (create_item (so_pk o')) ls (e\<lparr>sd_orders := row_create (rounded_row o') (sd_orders e)\<rparr>)
      = e\<lparr>sd_orders := row_create (rounded_row o') (sd_orders e), sd_items := sd_items e @ its\<rparr>"
    using fold_create_items [of "so_pk o'" ls "e\<lparr>sd_orders := row_create (rounded_row o') (sd_orders e)\<rparr>"] by auto
  then show ?thesis using assms(2) reserve_lines_promos [OF e] by (simp add: d use_promo_def split: option.split)
qed

text \<open>An order with a promo code whose uses are exhausted gets no discount but keeps the code, and
  cancelling it gives back a use it never took: the code can then be used once more than its limit
  allows.\<close>
theorem exhausted_code_refilled:
  assumes "shop_ok db" and "order_from_cart now n rq db = Some (o', db1)" and "find_promo (rq_promo rq) db = Some p"
    and "pm_max_uses p = Some m" and "pm_used p = m" and "0 < m"
  shows "so_discount o' = 0 \<and> so_promo o' = Some (pm_pk p)
    \<and> (\<exists>q \<in> set (sd_promos (snd (cancel_order later o' db1))). q = p\<lparr>pm_used := m - 1\<rparr> \<and> promo_room q)"
proof -
  have place: "(sale_effect {})\<^sup>*\<^sup>* db db1 \<and> rounded_row o' \<in> set (sd_orders db1) \<and> so_status o' = So_pending"
    by (rule order_from_cart_effects [OF shop_ok_inv [OF assms(1)] assms(2)])
  from assms(2,3) obtain c d where o': "o' = new_shop_order now n (ca_client c) (rq_address rq) (rq_delivery rq) (Some p)
        (find_shipping (rq_shipping rq) db) (rq_quote rq) (cart_lines (rq_cart rq) db) db"
    and d: "place_order o' (Some p) (cart_lines (rq_cart rq) db) db = Some d"
    and db1: "db1 = d\<lparr>sd_carts := row_save ca_pk (c\<lparr>ca_status := Cart_converted\<rparr>) (sd_carts d)\<rparr>"
    by (auto simp: order_from_cart_def Let_def split: if_splits option.splits)
  have disc: "so_discount o' = 0" using assms(4,5) by (simp add: o' promo_discount_def promo_is_valid_def)
  have promo: "so_promo o' = Some (pm_pk p)" by (simp add: o' new_shop_order_def Let_def)
  have promos: "sd_promos db1 = sd_promos db" using place_order_promos [OF d] disc by (simp add: db1)
  have p: "p \<in> set (sd_promos db)" by (rule find_promo_member [OF assms(3)])
  have "shop_ok db1" using sale_effects_kept [where L = "{}"] place assms(1) by (auto simp: kept_by_def)
  then have k: "distinct (map so_pk (sd_orders db1))" by (simp add: shop_ok_def shop_keys_def)
  have "row_get so_pk (so_pk o') (sd_orders db1) = Some (rounded_row o')"
    using row_get_unique [OF k] place by (metis rounded_row_keys(1))
  then have "sd_promos (snd (cancel_order later o' db1)) = sd_promos (give_back (rounded_row o') db1)"
    using place by (simp add: cancel_order_def terminal_def)
  also have "\<dots> = map (\<lambda>q. if pm_pk q = pm_pk p \<and> 0 < pm_used q then q\<lparr>pm_used := pm_used q - 1\<rparr> else q) (sd_promos db)"
    using goods_frame_rest(6) [OF fold_release_frame] promo promos by (simp add: give_back_def release_promo_def)
  finally have "p\<lparr>pm_used := m - 1\<rparr> \<in> set (sd_promos (snd (cancel_order later o' db1)))"
    using p assms(5,6) by (auto simp: image_iff intro!: bexI [of _ p])
  then show ?thesis using disc promo assms(4) by (auto simp: promo_room_def)
qed

subsection \<open>A notification nobody verifies\<close>

text \<open>A request that only names an order marks it as paid: no notification of TBC is checked, and the
  order falls back to confirmed even when it was shipped or delivered before.\<close>
theorem forged_notice_pays_order:
  assumes "shop_ok db" and "o' \<in> set (sd_orders db)" and "so_pay o' \<noteq> Pay_paid" and "\<not> payment_callback_blocked o'"
    and "so_number o' \<noteq> ''''"
  shows "fst (tbc_payment_webhook now ''succeeded'' (so_number o') db) = Hook_success
    \<and> (\<exists>q \<in> set (sd_orders (snd (tbc_payment_webhook now ''succeeded'' (so_number o') db))).
         so_pk q = so_pk o' \<and> so_pay q = Pay_paid \<and> so_status q = So_confirmed)"
proof -
  have "row_get so_number (so_number o') (sd_orders db) = Some o'"
    using assms(1,2) by (simp add: shop_ok_def shop_keys_def row_get_unique)
  moreover have "lower ''succeeded'' = ''succeeded''" by code_simp
  moreover have "so_pk o' \<in> so_pk ` set (sd_orders db)" using assms(2) by blast
  ultimately show ?thesis
    using assms(3-5) by (simp add: tbc_payment_webhook_def settle_order_def save_shop_order_def set_row_save paid_order_def)
qed

end
