(* ===== verification/Shop_Sample.thy ===== *)
theory Shop_Sample
  imports Shop_Gaps
begin

text \<open>
  A shop with two products, one of them with a variant, two carts, two promo codes (one used up) and
  a bank that accepts everything, and the properties of the shop applied to it.
\<close>

subsection \<open>The shop and its bank\<close>

definition shop_bank :: charge_api where
  "shop_bank = \<lparr>cg_configured = True, cg_token = True, cg_subscribe = (\<lambda>p e. Answer 200 (''B-'' @ e)),
     cg_recurrent = (\<lambda>p a e. Answer 200 (''B-'' @ e)), cg_create = (\<lambda>e a. Answer 200 (''B-'' @ e)),
     cg_receipt = (\<lambda>_. Answer 200 \<lparr>cr_order_status = Some ''completed'', cr_code = Some ''100''\<rparr>)\<rparr>"

definition gateway :: shop_gateway where
  "gateway = \<lparr>sg_ready = True, sg_bank = shop_bank, sg_hosted = (\<lambda>p n a. Some (''P-'' @ n, ''url''))\<rparr>"

definition ten_percent :: promo_code where
  "ten_percent = \<lparr>pm_pk = 1, pm_code = ''TEN'', pm_percentage = True, pm_value = 10, pm_min = None, pm_max_uses = Some 3,
     pm_used = 1, pm_from = 0, pm_until = 1000000, pm_active = True\<rparr>"

definition used_up :: promo_code where
  "used_up = \<lparr>pm_pk = 2, pm_code = ''GONE'', pm_percentage = False, pm_value = 5, pm_min = None, pm_max_uses = Some 1,
     pm_used = 1, pm_from = 0, pm_until = 1000000, pm_active = True\<rparr>"

definition opened :: shop_db where
  "opened = \<lparr>sd_products = [\<lparr>pr_pk = 1, pr_status = Active, pr_price = 30, pr_tracked = True, pr_quantity = 10, pr_threshold = 3\<rparr>,
       \<lparr>pr_pk = 2, pr_status = Active, pr_price = 40, pr_tracked = True, pr_quantity = 5, pr_threshold = 3\<rparr>],
     sd_variants = [\<lparr>va_pk = 7, va_product = 2, va_price = Some 50, va_quantity = 4, va_active = True\<rparr>],
     sd_clients = [\<lparr>cl_pk = 5, cl_email = ''a@b''\<rparr>],
     sd_addresses = [\<lparr>ad_pk = 1, ad_client = 5, ad_default = True\<rparr>],
     sd_cards = [\<lparr>cc_pk = 1, cc_client = 5, cc_parent = ''BOG1'', cc_masked = ''1111'', cc_default = True, cc_active = True\<rparr>],
     sd_carts = [\<lparr>ca_pk = 1, ca_client = 5, ca_address = None, ca_status = Cart_active\<rparr>,
       \<lparr>ca_pk = 2, ca_client = 5, ca_address = None, ca_status = Cart_active\<rparr>],
     sd_cart_items = [\<lparr>ci_pk = 1, ci_cart = 1, ci_product = 1, ci_variant = None, ci_quantity = 2, ci_price = 30\<rparr>,
       \<lparr>ci_pk = 2, ci_cart = 1, ci_product = 2, ci_variant = Some 7, ci_quantity = 1, ci_price = 50\<rparr>,
       \<lparr>ci_pk = 3, ci_cart = 2, ci_product = 1, ci_variant = None, ci_quantity = 1, ci_price = 30\<rparr>],
     sd_promos = [ten_percent, used_up],
     sd_shipping = [\<lparr>sh_pk = 1, sh_price = 5, sh_free_from = None, sh_active = True\<rparr>],
     sd_orders = [], sd_items = [],
     sd_settings = Some \<lparr>ss_tax_rate = 18, ss_tax_inclusive = False, ss_allow_pickup = True, ss_providers = [], ss_bog = True,
       ss_tbc = False, ss_flitt = False\<rparr>\<rparr>"

text \<open>The first cart is ordered through the payment page of the bank, the second with the saved card.\<close>

definition request_one :: order_request where
  "request_one = \<lparr>rq_cart = 1, rq_address = 1, rq_card = None, rq_promo = ''ten'', rq_shipping = Some 1, rq_method = ''card'',
     rq_provider = ''bog'', rq_delivery = Courier, rq_quote = None\<rparr>"

definition request_card :: order_request where
  "request_card = \<lparr>rq_cart = 2, rq_address = 1, rq_card = Some 1, rq_promo = ''gone'', rq_shipping = Some 1, rq_method = ''card'',
     rq_provider = ''bog'', rq_delivery = Courier, rq_quote = None\<rparr>"

definition ordered :: shop_db where
  "ordered = snd (client_create_order gateway 1000 ''N1'' 5 request_one opened)"

definition too_late :: datetime where
  "too_late = 2000 + 24 * us_per_hour"

definition cleaned :: shop_db where
  "cleaned = cancel_unpaid_orders too_late ordered"

definition settled :: shop_db where
  "settled = snd (ecommerce_payment_webhook gateway 1500 \<lparr>bn_event = ''order_payment'', bn_number = Some ''N1'', bn_bog = Some ''P-N1'',
     bn_status = ''completed'', bn_code = ''100'', bn_masked = ''1111''\<rparr> ordered)"

lemmas sample_shop_defs = opened_def ten_percent_def used_up_def request_one_def request_card_def gateway_def shop_bank_def

lemma opened_ok: "shop_ok opened"
  by (simp add: shop_ok_def shop_keys_def keyed_goods_def shop_links_def stocked_def promo_capped_def sample_shop_defs)

lemma opened_start: "shop_start opened"
  by (simp add: shop_start_def opened_ok) (simp add: opened_def)

lemma opened_ordered: "(shop_step L)\<^sup>*\<^sup>* opened ordered"
  unfolding ordered_def by (rule r_into_rtranclp) (rule st_order)

lemma ordered_reachable: "reachable shop_start (shop_step L) ordered"
proof (rule reachable.next_step)
  show "reachable shop_start (shop_step L) opened" using opened_start by (rule reachable.start)
  show "shop_step L opened ordered" unfolding ordered_def by (rule st_order)
qed

lemma ordered_ok: "shop_ok ordered"
  using shop.reachable_inv [OF ordered_reachable [of "{}"]] by simp

definition order_one :: shop_order where
  "order_one = \<lparr>so_pk = 1, so_number = ''N1'', so_client = 5, so_address = 1, so_status = So_pending, so_total = 12182 / 100,
     so_subtotal = 110, so_discount = 11, so_shipping = 5, so_tax = 1782 / 100, so_promo = Some 1, so_pay = Pay_pending,
     so_method = ''card'', so_provider = ''bog'', so_bog = Some ''P-N1'', so_url = Some ''url'', so_delivery = None, so_quote = None,
     so_created = 1000, so_paid_at = None, so_confirmed_at = None, so_cancelled_at = None\<rparr>"

lemma ordered_created: "fst (client_create_order gateway 1000 ''N1'' 5 request_one opened) = Shop_created 1"
  by code_simp

lemma ordered_orders: "sd_orders ordered = [order_one]"
  by code_simp

subsection \<open>The promises\<close>

theorem stock_conserved_witness:
  "on_shelf (Of_variant 7) ordered + held (Of_variant 7) ordered = 4 \<and> on_shelf (Of_variant 7) ordered = 3"
proof -
  have "on_shelf (Of_variant 7) opened + held (Of_variant 7) opened = 4" by code_simp
  moreover have "shelf_exists (Of_variant 7) opened" by code_simp
  moreover have "on_shelf (Of_variant 7) ordered = 3" by code_simp
  ultimately show ?thesis using stock_conserved [OF shop_ok_inv [OF opened_ok] opened_ordered [of "{Negative_amounts}"], of "Of_variant 7"] by simp
qed

definition most_liberties :: "liberty set" where
  "most_liberties = {Rewritten_orders, Deleted_orders, Catalogue_changes}"


theorem shop_well_formed_witness:
  "reachable shop_start (shop_step most_liberties) ordered \<and> list_all (\<lambda>it. 1 \<le> oi_quantity it) (sd_items ordered) \<and> length (sd_items ordered) = 2"
proof -
  have "length (sd_items ordered) = 2" by code_simp
  moreover have "Negative_amounts \<notin> most_liberties" by (simp add: most_liberties_def)
  ultimately show ?thesis using shop_well_formed [OF ordered_reachable [of most_liberties]] ordered_reachable by (simp add: list_all_iff)
qed

definition swept_one :: shop_order where
  "swept_one = order_one\<lparr>so_status := So_cancelled, so_cancelled_at := Some too_late\<rparr>"

lemma cleaned_orders: "sd_orders cleaned = [swept_one]"
  by code_simp

lemma cleaned_ok: "shop_ok cleaned"
  unfolding cleaned_def using shop_step_inv [of "{}", OF _ st_sweep] ordered_ok by simp

definition paid_late :: shop_db where
  "paid_late = snd (tbc_payment_webhook (too_late + 5) ''succeeded'' ''N1'' cleaned)"

theorem closed_orders_final_witness:
  "\<exists>q \<in> set (sd_orders paid_late). so_pk q = 1 \<and> so_status q = So_cancelled"
proof -
  have "(shop_step {Catalogue_changes})\<^sup>*\<^sup>* cleaned paid_late" unfolding paid_late_def by (rule r_into_rtranclp) (rule st_tbc)
  moreover have "swept_one \<in> set (sd_orders cleaned)" by (simp add: cleaned_orders)
  moreover have "terminal (so_status swept_one)" by code_simp
  ultimately obtain q where "q \<in> set (sd_orders paid_late)" "so_pk q = so_pk swept_one" "so_status q = so_status swept_one"
    using closed_orders_final [OF shop_ok_inv [OF cleaned_ok]] by blast
  then show ?thesis by (intro bexI [of _ q]) (simp_all add: swept_one_def order_one_def)
qed

definition paid_one :: shop_order where
  "paid_one = order_one\<lparr>so_pay := Pay_paid, so_paid_at := Some 1500, so_status := So_confirmed, so_confirmed_at := Some 1500\<rparr>"

lemma settled_shop_orders: "sd_orders settled = [paid_one]"
  by code_simp

lemma settled_ok: "shop_ok settled"
  unfolding settled_def using shop_step_inv [of "{}", OF _ st_bank] ordered_ok by simp

theorem settled_order_untouched_witness:
  "paid_one \<in> set (sd_orders (snd (tbc_payment_webhook 1600 ''failed'' ''N1'' settled)))"
proof -
  have "settled_order paid_one" by code_simp
  moreover have "paid_one \<in> set (sd_orders settled)" by (simp add: settled_shop_orders)
  ultimately show ?thesis using settled_order_untouched [OF settled_ok] by blast
qed

theorem sweep_exact_witness: "sd_orders (cancel_unpaid_orders too_late ordered) = map (swept too_late) [order_one]"
  using sweep_exact [OF ordered_ok, of too_late] by (simp add: ordered_orders)


lemma request_placed: "\<exists>o' d. order_from_cart 1000 ''N1'' request_one opened = Some (o', d)"
proof -
  have "order_from_cart 1000 ''N1'' request_one opened \<noteq> None" by code_simp
  then show ?thesis by auto
qed


theorem cart_ordered_once_witness:
  "client_create_order gateway 1100 ''N9'' 5 request_one ordered = (Shop_error 400, ordered)"
proof -
  have "client_create_order gateway 1000 ''N1'' 5 request_one opened = (Shop_created 1, ordered)"
    using ordered_created by (simp add: ordered_def prod_eq_iff)
  then show ?thesis using cart_ordered_once by blast
qed

subsection \<open>The gaps\<close>

theorem customer_marks_paid_witness:
  "\<exists>q \<in> set (sd_orders (snd (client_update_order 5 1 (no_patch\<lparr>up_status := Some So_delivered, up_pay := Some Pay_paid,
       up_total := Some 0\<rparr>) ordered))). so_pay q = Pay_paid \<and> so_total q = 0 \<and> so_paid_at q = None"
proof -
  have "order_one \<in> set (sd_orders ordered)" by (simp add: ordered_orders)
  from customer_marks_paid [OF ordered_ok this, of 0] show ?thesis by (auto simp: Let_def order_one_def)
qed

theorem deleted_order_loses_stock_witness:
  "on_shelf (Of_product 1) (snd (client_delete_order 5 1 ordered)) = 8 \<and> held (Of_product 1) (snd (client_delete_order 5 1 ordered)) = 0"
proof -
  have "order_one \<in> set (sd_orders ordered)" by (simp add: ordered_orders)
  moreover have "\<not> terminal (so_status order_one)" by code_simp
  moreover have "on_shelf (Of_product 1) ordered = 8" "held (Of_product 1) ordered = 2"
    "(\<Sum>it\<leftarrow>items_of (so_pk order_one) ordered. claim (Of_product 1) ordered it) = 2" by code_simp+
  moreover have "so_client order_one = 5" "so_pk order_one = 1" by (simp_all add: order_one_def)
  ultimately show ?thesis using deleted_order_loses_stock [OF ordered_ok, of order_one "Of_product 1"] by (simp add: Let_def)
qed

theorem foreign_cart_accepted_witness:
  "client_create_order gateway 1000 ''N1'' 99 request_one opened = client_create_order gateway 1000 ''N1'' 5 request_one opened"
proof -
  have "rq_card request_one = None" by (simp add: request_one_def)
  then show ?thesis using foreign_cart_accepted by blast
qed

definition guest_wish :: guest_request where
  "guest_wish = \<lparr>gq_complete = True, gq_email = ''c@d'', gq_items = [(1, 2, None)], gq_promo = '''', gq_shipping = None,
     gq_method = ''cash_on_delivery'', gq_provider = '''', gq_delivery = ''courier'', gq_quote = None\<rparr>"

theorem refused_guest_order_stays_witness:
  "fst (guest_checkout gateway 1000 ''G1'' guest_wish opened) = Shop_error 400
    \<and> (\<exists>q \<in> set (sd_orders (snd (guest_checkout gateway 1000 ''G1'' guest_wish opened))). so_number q = ''G1'')"
proof -
  obtain u db1 where u: "guest_client (gq_email guest_wish) opened = (u, db1)" by force
  obtain a db2 where a: "guest_address u db1 = (a, db2)" by force
  have e: "u = fst (guest_client (gq_email guest_wish) opened)" "db1 = snd (guest_client (gq_email guest_wish) opened)"
    "a = fst (guest_address u db1)" "db2 = snd (guest_address u db1)" using u a by simp_all
  have "guest_lines db2 (gq_items guest_wish) \<noteq> None" unfolding e by code_simp
  then obtain ls where ls: "guest_lines db2 (gq_items guest_wish) = Some ls" by blast
  then have l: "ls = the (guest_lines db2 (gq_items guest_wish))" by simp
  have d: "guest_delivery (gq_delivery guest_wish) (sd_settings db2) = Some Courier" unfolding e by code_simp
  have "place_order (new_shop_order 1000 ''G1'' u a Courier (find_promo (gq_promo guest_wish) db2) (find_shipping (gq_shipping guest_wish) db2)
      (gq_quote guest_wish) ls db2) (find_promo (gq_promo guest_wish) db2) ls db2 \<noteq> None"
    unfolding l unfolding e by code_simp
  then obtain db3 where p: "place_order (new_shop_order 1000 ''G1'' u a Courier (find_promo (gq_promo guest_wish) db2)
      (find_shipping (gq_shipping guest_wish) db2) (gq_quote guest_wish) ls db2) (find_promo (gq_promo guest_wish) db2) ls db2 = Some db3" by blast
  have g: "gq_complete guest_wish" "gq_items guest_wish \<noteq> []" "gq_method guest_wish = ''cash_on_delivery''" by (simp_all add: guest_wish_def)
  show ?thesis using refused_guest_order_stays [OF g opened_ok u a ls d p, of gateway] by auto
qed

definition charged :: shop_db where
  "charged = snd (client_create_order gateway 1000 ''N2'' 5 request_card opened)"

theorem saved_card_order_never_swept_witness:
  "\<exists>q \<in> set (sd_orders (cancel_unpaid_orders (too_late * 1000) charged)). so_pk q = 1 \<and> so_pay q = Pay_processing"
proof -
  have "fst (client_create_order gateway 1000 ''N2'' 5 request_card opened) = Shop_created 1" by code_simp
  then have "client_create_order gateway 1000 ''N2'' 5 request_card opened = (Shop_created 1, charged)"
    by (simp add: charged_def prod_eq_iff)
  moreover have "rq_card request_card = Some 1" "rq_method request_card \<noteq> ''cash_on_delivery''" by (simp_all add: request_card_def)
  ultimately show ?thesis using saved_card_order_never_swept [OF opened_ok] by blast
qed

theorem exhausted_code_refilled_witness:
  "\<exists>o' d. order_from_cart 1000 ''N2'' request_card opened = Some (o', d) \<and> so_discount o' = 0
    \<and> (\<exists>q \<in> set (sd_promos (snd (cancel_order 1100 o' d))). q = used_up\<lparr>pm_used := 0\<rparr> \<and> promo_room q)"
proof -
  have "order_from_cart 1000 ''N2'' request_card opened \<noteq> None" by code_simp
  then obtain o' d where placed: "order_from_cart 1000 ''N2'' request_card opened = Some (o', d)" by auto
  have p: "find_promo (rq_promo request_card) opened = Some used_up" by code_simp
  have m: "pm_max_uses used_up = Some 1" "pm_used used_up = 1" "(0::int) < 1" by (simp_all add: used_up_def)
  show ?thesis using exhausted_code_refilled [OF opened_ok placed p m, of 1100] placed by auto
qed

theorem forged_notice_pays_order_witness:
  "\<exists>q \<in> set (sd_orders (snd (tbc_payment_webhook 1200 ''succeeded'' ''N1'' ordered))). so_pk q = 1 \<and> so_pay q = Pay_paid"
proof -
  have o': "order_one \<in> set (sd_orders ordered)" by (simp add: ordered_orders)
  have "so_pay order_one \<noteq> Pay_paid" "\<not> payment_callback_blocked order_one" "so_number order_one \<noteq> ''''" by code_simp+
  from forged_notice_pays_order [OF ordered_ok o' this, of 1200] show ?thesis by (auto simp: order_one_def)
qed

subsection \<open>Prices the customer sends\<close>

theorem swapped_product_keeps_price_witness:
  "\<exists>j \<in> set (sd_cart_items (snd (client_update_item 5 3 \<lparr>ip_cart = None, ip_product = Some 2, ip_variant = Some None, ip_quantity = None\<rparr> opened))).
     ci_product j = 2 \<and> ci_price j = 30"
proof -
  have i: "find (\<lambda>i. ci_pk i = 3 \<and> owns_item opened 5 i) (sd_cart_items opened)
    = Some \<lparr>ci_pk = 3, ci_cart = 2, ci_product = 1, ci_variant = None, ci_quantity = 1, ci_price = 30\<rparr>" by code_simp
  have q: "\<lparr>pr_pk = 2, pr_status = Active, pr_price = 40, pr_tracked = True, pr_quantity = 5, pr_threshold = 3\<rparr> \<in> set (sd_products opened)"
    by (simp add: opened_def)
  have k: "keyed_goods opened" using opened_ok by (simp add: shop_ok_def shop_keys_def)
  from swapped_product_keeps_price [OF i _ q k] obtain j
    where j: "j \<in> set (sd_cart_items (snd (client_update_item 5 3 \<lparr>ip_cart = None, ip_product = Some 2, ip_variant = Some None, ip_quantity = None\<rparr> opened)))"
      and l: "cart_line (snd (client_update_item 5 3 \<lparr>ip_cart = None, ip_product = Some 2, ip_variant = Some None, ip_quantity = None\<rparr> opened)) j
        = Some \<lparr>bl_product = \<lparr>pr_pk = 2, pr_status = Active, pr_price = 40, pr_tracked = True, pr_quantity = 5, pr_threshold = 3\<rparr>,
            bl_variant = None, bl_quantity = 1, bl_price = 30\<rparr>"
    by (auto simp: Let_def)
  show ?thesis by (rule bexI [OF _ j]) (use l in \<open>auto simp: cart_line_def dest!: row_get_Some\<close>)
qed

theorem courier_price_unchecked_witness:
  "\<exists>o' o2 d d2. order_from_cart 1000 ''N1'' request_one opened = Some (o', d)
     \<and> order_from_cart 1000 ''N1'' (request_one\<lparr>rq_quote := Some (4, - 100)\<rparr>) opened = Some (o2, d2)
     \<and> so_total o2 = so_total o' - so_shipping o' - 100"
proof -
  obtain o' d where placed: "order_from_cart 1000 ''N1'' request_one opened = Some (o', d)" using request_placed by blast
  have "rq_delivery request_one = Courier" by (simp add: request_one_def)
  from courier_price_unchecked [OF placed this, of 4 "- 100"] placed show ?thesis by auto
qed

subsection \<open>A negative amount\<close>

text \<open>Adding a negative amount to a line of the cart is accepted: here the line of the variant drops to minus
  one, the order costs 10 instead of 110, and placing it raises the stock of the variant from 4 to 5.\<close>
theorem negative_line_pays_back:
  "fst (client_add_item 5 1 2 (Some 7) (- 2) opened) = Shop_done \<and> on_shelf (Of_variant 7) opened = 4
    \<and> map_option (\<lambda>(o', d). (so_subtotal o', on_shelf (Of_variant 7) d))
        (order_from_cart 1000 ''N1'' request_one (snd (client_add_item 5 1 2 (Some 7) (- 2) opened))) = Some (10, 5)"
  by code_simp

subsection \<open>Corrections and carts\<close>

text \<open>A correction of the stock is added whatever the result: ten pieces are on the shelf, eleven are taken off.\<close>
theorem correction_below_zero:
  "fst (adjust_product_stock 1 (Some (- 11)) opened) = Shop_done
    \<and> on_shelf (Of_product 1) (snd (adjust_product_stock 1 (Some (- 11)) opened)) = - 1"
  by code_simp

text \<open>The status of a cart can be written by its owner: an ordered cart is set to active again, and the same
  lines are ordered a second time.\<close>
theorem reopened_cart_ordered_again:
  "fst (client_update_cart 5 1 \<lparr>cp_client = None, cp_status = Some Cart_active\<rparr> ordered) = Shop_done
    \<and> fst (client_create_order gateway 1100 ''N9'' 5 request_one
        (snd (client_update_cart 5 1 \<lparr>cp_client = None, cp_status = Some Cart_active\<rparr> ordered))) = Shop_created 2"
  by code_simp

end
