(* ===== verification/Ticket_Model.thy ===== *)
theory Ticket_Model
  imports Users Text
begin

text \<open>
  The tables of the ticket desk (\<^verbatim>\<open>tickets/models.py\<close>) and what their rows answer: boards with their
  columns, tickets with a place in a column, assignments, time logs, payments, history, checklists,
  hierarchical list items and forms.  Times are microseconds on the axis of \<open>Calendar\<close>;
  \<open>dk_clock\<close> is what \<^verbatim>\<open>timezone.now()\<close> returns.  Columns of type \<^verbatim>\<open>numeric(10, 2)\<close> are rounded
  half up when a row is written (\<open>stored_ticket\<close>), as PostgreSQL does.  Colours, descriptions of
  columns and lists, rich text, metadata, attachments and form submissions carry no behaviour here
  and are left out.
\<close>

datatype ticket_priority = Priority_low | Priority_medium | Priority_high | Priority_critical

definition priority_name :: "ticket_priority \<Rightarrow> string" where
  "priority_name p =
     (case p of Priority_low \<Rightarrow> ''low'' | Priority_medium \<Rightarrow> ''medium''
      | Priority_high \<Rightarrow> ''high'' | Priority_critical \<Rightarrow> ''critical'')"

record board =
  kb_pk :: pk
  kb_name :: string
  kb_default :: bool
  kb_order_users :: "pk list"
  kb_users :: "pk list"
  kb_groups :: "pk list"

record ticket_column =
  kc_pk :: pk
  kc_name :: string
  kc_position :: nat
  kc_default :: bool
  kc_closed :: bool
  kc_track :: bool
  kc_board :: pk
  kc_created :: datetime

record ticket =
  tk_pk :: pk
  tk_title :: string
  tk_description :: string
  tk_priority :: ticket_priority
  tk_column :: "pk option"
  tk_position :: nat
  tk_created :: datetime
  tk_created_by :: pk
  tk_assigned_to :: "pk option"
  tk_groups :: "pk list"
  tk_department :: "pk option"
  tk_tags :: "pk list"
  tk_is_order :: bool
  tk_price :: "decimal option"
  tk_currency :: string
  tk_is_paid :: bool
  tk_amount_paid :: decimal
  tk_due :: "date option"

record assignment =
  an_pk :: pk
  an_ticket :: pk
  an_user :: pk
  an_role :: string
  an_by :: "pk option"

record time_log =
  tl_pk :: pk
  tl_ticket :: pk
  tl_column :: pk
  tl_user :: pk
  tl_entered :: datetime
  tl_exited :: "datetime option"
  tl_duration :: "int option"

record ticket_payment =
  tq_pk :: pk
  tq_ticket :: pk
  tq_amount :: decimal
  tq_currency :: string
  tq_method :: string
  tq_by :: "pk option"

record history_row =
  hy_ticket :: pk
  hy_action :: string
  hy_field :: string
  hy_old :: string
  hy_new :: string
  hy_user :: "pk option"

record checklist_item =
  ck_pk :: pk
  ck_ticket :: pk
  ck_text :: string
  ck_checked :: bool
  ck_position :: nat
  ck_by :: pk

record list_item =
  ix_pk :: pk
  ix_list :: pk
  ix_label :: string
  ix_parent :: "pk option"
  ix_position :: nat
  ix_active :: bool

record ticket_form =
  fm_pk :: pk
  fm_title :: string
  fm_default :: bool
  fm_active :: bool

record ticket_comment =
  cm_pk :: pk
  cm_ticket :: pk
  cm_user :: pk
  cm_text :: string

text \<open>
  The tenant's rows.  Accounts, groups, departments and tags belong to other applications; the desk
  only asks which keys exist, and of an account whether it is active.
\<close>

record desk =
  dk_clock :: datetime
  dk_accounts :: "(pk \<times> bool) list"
  dk_group_keys :: "pk list"
  dk_department_keys :: "pk list"
  dk_tag_keys :: "pk list"
  dk_boards :: "board list"
  dk_columns :: "ticket_column list"
  dk_tickets :: "ticket list"
  dk_assignments :: "assignment list"
  dk_logs :: "time_log list"
  dk_payments :: "ticket_payment list"
  dk_history :: "history_row list"
  dk_checklist :: "checklist_item list"
  dk_items :: "list_item list"
  dk_forms :: "ticket_form list"
  dk_comments :: "ticket_comment list"

text \<open>A signed-in account with the keys of its tenant groups and whether each is active.\<close>

record member =
  mb_user :: user
  mb_groups :: "(pk \<times> bool) list"

definition mb_pk :: "member \<Rightarrow> pk" where
  "mb_pk m = u_pk (mb_user m)"

definition mb_staff :: "member \<Rightarrow> bool" where
  "mb_staff m \<longleftrightarrow> u_is_staff (mb_user m)"

definition mb_super :: "member \<Rightarrow> bool" where
  "mb_super m \<longleftrightarrow> u_is_superuser (mb_user m)"

definition all_group_keys :: "member \<Rightarrow> pk list" where
  "all_group_keys m = map fst (mb_groups m)"

definition active_group_keys :: "member \<Rightarrow> pk list" where
  "active_group_keys m = map fst (filter snd (mb_groups m))"

subsection \<open>Rows by key and in display order\<close>

definition column_of :: "desk \<Rightarrow> pk \<Rightarrow> ticket_column option" where
  "column_of d k = row_get kc_pk k (dk_columns d)"

definition ticket_of :: "desk \<Rightarrow> pk \<Rightarrow> ticket option" where
  "ticket_of d k = row_get tk_pk k (dk_tickets d)"

definition board_of :: "desk \<Rightarrow> pk \<Rightarrow> board option" where
  "board_of d k = row_get kb_pk k (dk_boards d)"

text \<open>\<^verbatim>\<open>ticket.column\<close>.\<close>

definition ticket_column_row :: "desk \<Rightarrow> ticket \<Rightarrow> ticket_column option" where
  "ticket_column_row d t = Option.bind (tk_column t) (column_of d)"

text \<open>
  \<^verbatim>\<open>order_by('position_in_column', '-created_at')\<close>.  Rows equal in both come in key order here; the
  database leaves their order open.
\<close>

definition column_tickets :: "desk \<Rightarrow> pk \<Rightarrow> ticket list" where
  "column_tickets d k =
     sort_key tk_position (sort_key (\<lambda>t. - tk_created t) (filter (\<lambda>t. tk_column t = Some k) (dk_tickets d)))"

text \<open>\<^verbatim>\<open>order_by('position', 'created_at', 'id')\<close> over the columns of a board.\<close>

definition columns_in_order :: "ticket_column list \<Rightarrow> ticket_column list" where
  "columns_in_order cs = sort_key kc_position (sort_key kc_created (sort_key kc_pk cs))"

definition board_columns :: "desk \<Rightarrow> pk \<Rightarrow> ticket_column list" where
  "board_columns d b = columns_in_order (filter (\<lambda>c. kc_board c = b) (dk_columns d))"

subsection \<open>What a ticket answers\<close>

text \<open>\<^verbatim>\<open>str.replace(' ', '_')\<close>.\<close>

definition underscored :: "string \<Rightarrow> string" where
  "underscored s = map (\<lambda>c. if c = CHR '' '' then CHR ''_'' else c) s"

definition ticket_status :: "desk \<Rightarrow> ticket \<Rightarrow> string" where
  "ticket_status d t =
     (case ticket_column_row d t of
        Some c \<Rightarrow> underscored (lower (kc_name c))
      | None \<Rightarrow> ''unassigned'')"

definition ticket_is_closed :: "desk \<Rightarrow> ticket \<Rightarrow> bool" where
  "ticket_is_closed d t = (case ticket_column_row d t of Some c \<Rightarrow> kc_closed c | None \<Rightarrow> False)"

definition ticket_balance :: "ticket \<Rightarrow> decimal option" where
  "ticket_balance t = map_option (\<lambda>p. p - tk_amount_paid t) (tk_price t)"

datatype ticket_pay_status =
  No_payment_required | Ticket_paid | Ticket_unpaid | Ticket_partially_paid | Ticket_overpaid

definition ticket_pay_status :: "ticket \<Rightarrow> ticket_pay_status" where
  "ticket_pay_status t =
     (case tk_price t of
        None \<Rightarrow> No_payment_required
      | Some p \<Rightarrow>
          if p = 0 then No_payment_required
          else if tk_is_paid t then Ticket_paid
          else if tk_amount_paid t = 0 then Ticket_unpaid
          else if tk_amount_paid t < p then Ticket_partially_paid
          else Ticket_overpaid)"

definition ticket_is_overdue :: "desk \<Rightarrow> ticket \<Rightarrow> bool" where
  "ticket_is_overdue d t =
     (case tk_due t of
        None \<Rightarrow> False
      | Some due \<Rightarrow> if tk_is_paid t then False else due < date_of (dk_clock d))"

subsection \<open>Saving a ticket\<close>

text \<open>The column \<^verbatim>\<open>Ticket.save\<close> gives a ticket that has none.\<close>

definition default_column :: "desk \<Rightarrow> pk option" where
  "default_column d =
     (case find kb_default (dk_boards d) of
        Some b \<Rightarrow> map_option kc_pk (find (\<lambda>c. kc_board c = kb_pk b \<and> kc_default c) (columns_in_order (dk_columns d)))
      | None \<Rightarrow> map_option kc_pk (find kc_default (columns_in_order (dk_columns d))))"

definition with_column :: "desk \<Rightarrow> ticket \<Rightarrow> ticket" where
  "with_column d t =
     (case tk_column t of
        Some _ \<Rightarrow> t
      | None \<Rightarrow> (case default_column d of Some k \<Rightarrow> t\<lparr>tk_column := Some k\<rparr> | None \<Rightarrow> t))"

definition max_position :: "nat list \<Rightarrow> nat option" where
  "max_position ps = (if ps = [] then None else Some (foldr max ps 0))"

text \<open>Only on create, only when no position was given (or it was 0).\<close>

definition with_position :: "desk \<Rightarrow> ticket \<Rightarrow> ticket" where
  "with_position d t =
     (case tk_column t of
        None \<Rightarrow> t
      | Some k \<Rightarrow>
          if tk_position t = 0
          then t\<lparr>tk_position := (case max_position (map tk_position (column_tickets d k)) of
                                   None \<Rightarrow> 0 | Some p \<Rightarrow> p + 1)\<rparr>
          else t)"

definition with_paid_flag :: "ticket \<Rightarrow> ticket" where
  "with_paid_flag t =
     (case tk_price t of
        None \<Rightarrow> t
      | Some p \<Rightarrow>
          if p \<noteq> 0 \<and> p \<le> tk_amount_paid t then t\<lparr>tk_is_paid := True\<rparr>
          else if p \<noteq> 0 \<and> tk_amount_paid t < p then t\<lparr>tk_is_paid := False\<rparr>
          else t)"

definition stored_ticket :: "ticket \<Rightarrow> ticket" where
  "stored_ticket t =
     t\<lparr>tk_price := map_option (round_half_up 2) (tk_price t),
       tk_amount_paid := round_half_up 2 (tk_amount_paid t)\<rparr>"

text \<open>
  The rows \<^verbatim>\<open>capture_ticket_prev_state\<close> writes: one for each tracked field that changed, in the order
  of its table.  \<open>opt_text\<close> is \<^verbatim>\<open>str(v) if v is not None else ''\<close>.
\<close>

definition opt_text :: "pk option \<Rightarrow> string" where
  "opt_text k = (case k of None \<Rightarrow> [] | Some n \<Rightarrow> nat_text n)"

definition change_row :: "pk \<Rightarrow> pk option \<Rightarrow> string \<Rightarrow> string \<Rightarrow> bool \<Rightarrow> string \<Rightarrow> string \<Rightarrow> history_row list" where
  "change_row k uid action field changed old new =
     (if changed
      then [\<lparr>hy_ticket = k, hy_action = action, hy_field = field, hy_old = old, hy_new = new, hy_user = uid\<rparr>]
      else [])"

definition history_of_save :: "pk option \<Rightarrow> ticket \<Rightarrow> ticket \<Rightarrow> history_row list" where
  "history_of_save uid old new =
     change_row (tk_pk new) uid ''updated'' ''title'' (tk_title old \<noteq> tk_title new) (tk_title old) (tk_title new)
   @ change_row (tk_pk new) uid ''updated'' ''description'' (tk_description old \<noteq> tk_description new)
       (tk_description old) (tk_description new)
   @ change_row (tk_pk new) uid ''priority_changed'' ''priority'' (tk_priority old \<noteq> tk_priority new)
       (priority_name (tk_priority old)) (priority_name (tk_priority new))
   @ change_row (tk_pk new) uid ''status_changed'' ''column_id'' (tk_column old \<noteq> tk_column new)
       (opt_text (tk_column old)) (opt_text (tk_column new))
   @ change_row (tk_pk new) uid ''assigned'' ''assigned_to_id'' (tk_assigned_to old \<noteq> tk_assigned_to new)
       (opt_text (tk_assigned_to old)) (opt_text (tk_assigned_to new))
   @ change_row (tk_pk new) uid ''updated'' ''assigned_department_id'' (tk_department old \<noteq> tk_department new)
       (opt_text (tk_department old)) (opt_text (tk_department new))"

text \<open>
  \<^verbatim>\<open>Ticket.save\<close> of an existing row with its \<^verbatim>\<open>pre_save\<close> receiver; \<open>uid\<close> is \<^verbatim>\<open>_current_user\<close>, None
  where the caller did not tag the instance.
\<close>

definition saved_form :: "desk \<Rightarrow> ticket \<Rightarrow> ticket" where
  "saved_form d t = with_paid_flag (with_column d t)"

definition save_ticket :: "pk option \<Rightarrow> ticket \<Rightarrow> desk \<Rightarrow> desk" where
  "save_ticket uid t d =
     (let t' = saved_form d t
      in (case ticket_of d (tk_pk t) of
            None \<Rightarrow> d
          | Some old \<Rightarrow>
              d\<lparr>dk_tickets := row_save tk_pk (stored_ticket t') (dk_tickets d),
                dk_history := dk_history d @ history_of_save uid old t'\<rparr>))"

text \<open>\<^verbatim>\<open>Ticket.save\<close> of a new row.\<close>

definition new_ticket :: "desk \<Rightarrow> ticket \<Rightarrow> ticket" where
  "new_ticket d t =
     stored_ticket (with_paid_flag (with_position d (with_column d
       (t\<lparr>tk_pk := next_pk tk_pk (dk_tickets d), tk_created := dk_clock d\<rparr>))))"

definition insert_ticket :: "ticket \<Rightarrow> desk \<Rightarrow> desk" where
  "insert_ticket t d = d\<lparr>dk_tickets := row_create (new_ticket d t) (dk_tickets d)\<rparr>"

subsection \<open>Time logs\<close>

text \<open>\<^verbatim>\<open>int(seconds)\<close> truncates towards zero.\<close>

definition whole_seconds :: "datetime \<Rightarrow> int" where
  "whole_seconds us = (if us < 0 then - ((- us) div 1000000) else us div 1000000)"

text \<open>\<^verbatim>\<open>calculate_duration\<close>: the row is saved only when the duration is set here.\<close>

definition calculate_duration :: "time_log \<Rightarrow> time_log list \<Rightarrow> time_log list" where
  "calculate_duration l logs =
     (case tl_exited l of
        None \<Rightarrow> logs
      | Some ex \<Rightarrow>
          if tl_duration l = None \<or> tl_duration l = Some 0
          then row_save tl_pk (l\<lparr>tl_duration := Some (whole_seconds (ex - tl_entered l))\<rparr>) logs
          else logs)"

text \<open>
  The open log of a ticket in a column: \<^verbatim>\<open>filter(..., exited_at__isnull=True).first()\<close> over the ordering
  \<^verbatim>\<open>-entered_at\<close>.
\<close>

definition active_log :: "desk \<Rightarrow> pk \<Rightarrow> pk \<Rightarrow> time_log option" where
  "active_log d k c =
     find (\<lambda>l. tl_ticket l = k \<and> tl_column l = c \<and> tl_exited l = None) (sort_key (\<lambda>l. - tl_entered l) (dk_logs d))"

definition close_active_time_log :: "pk \<Rightarrow> pk option \<Rightarrow> desk \<Rightarrow> desk" where
  "close_active_time_log k col d =
     (case Option.bind col (column_of d) of
        None \<Rightarrow> d
      | Some c \<Rightarrow>
          if \<not> kc_track c then d
          else (case active_log d k (kc_pk c) of
                  None \<Rightarrow> d
                | Some l \<Rightarrow> d\<lparr>dk_logs := calculate_duration (l\<lparr>tl_exited := Some (dk_clock d)\<rparr>) (dk_logs d)\<rparr>))"

definition open_time_log :: "pk \<Rightarrow> pk option \<Rightarrow> pk \<Rightarrow> desk \<Rightarrow> desk" where
  "open_time_log k col uid d =
     (case Option.bind col (column_of d) of
        None \<Rightarrow> d
      | Some c \<Rightarrow>
          if \<not> kc_track c then d
          else d\<lparr>dk_logs := row_create
                 \<lparr>tl_pk = next_pk tl_pk (dk_logs d), tl_ticket = k, tl_column = kc_pk c, tl_user = uid,
                  tl_entered = dk_clock d, tl_exited = None, tl_duration = None\<rparr> (dk_logs d)\<rparr>)"

definition format_duration :: "int \<Rightarrow> string" where
  "format_duration s =
     (if s < 60 then (if s < 0 then CHR ''-'' # nat_text (nat (- s)) else nat_text (nat s)) @ ''s''
      else if s < 3600 then nat_text (nat (s div 60)) @ ''m '' @ nat_text (nat (s mod 60)) @ ''s''
      else if s mod 3600 div 60 = 0 then nat_text (nat (s div 3600)) @ ''h''
      else nat_text (nat (s div 3600)) @ ''h '' @ nat_text (nat (s mod 3600 div 60)) @ ''m'')"

definition duration_display :: "desk \<Rightarrow> time_log \<Rightarrow> string" where
  "duration_display d l =
     (case tl_duration l of
        Some s \<Rightarrow>
          if s \<noteq> 0 then format_duration s
          else (case tl_exited l of
                  Some ex \<Rightarrow> format_duration (whole_seconds (ex - tl_entered l))
                | None \<Rightarrow> format_duration (whole_seconds (dk_clock d - tl_entered l)) @ '' (active)'')
      | None \<Rightarrow>
          (case tl_exited l of
             Some ex \<Rightarrow> format_duration (whole_seconds (ex - tl_entered l))
           | None \<Rightarrow> format_duration (whole_seconds (dk_clock d - tl_entered l)) @ '' (active)''))"

end
