(* ===== verification/Ticket_Ops.thy ===== *)
theory Ticket_Ops
  imports Ticket_Model
begin

text \<open>
  Tickets over the API (\<^verbatim>\<open>TicketViewSet\<close> and \<^verbatim>\<open>TicketSerializer\<close>): who sees and who may touch a
  ticket, creating and updating, moving it to a column and reordering it there, assigning and
  deleting.  An operation returns the desk it leaves and the refusal it answers with, None for
  success; a refusal after some rows were written leaves them written unless the code runs in one
  transaction.
\<close>

datatype desk_refusal = Desk_forbidden | Desk_not_found | Desk_bad_request | Desk_server_error

type_synonym desk_answer = "desk \<times> desk_refusal option"

text \<open>The tenant settings the desk reads.\<close>

record desk_settings =
  ds_only_super_delete :: bool
  ds_min_users :: nat

subsection \<open>Visibility and object permission\<close>

definition ticket_assignees :: "desk \<Rightarrow> pk \<Rightarrow> pk list" where
  "ticket_assignees d k = map an_user (filter (\<lambda>a. an_ticket a = k) (dk_assignments d))"

definition ticket_board :: "desk \<Rightarrow> ticket \<Rightarrow> board option" where
  "ticket_board d t = Option.bind (ticket_column_row d t) (\<lambda>c. board_of d (kc_board c))"

definition ticket_visibility :: "member \<Rightarrow> desk \<Rightarrow> ticket \<Rightarrow> bool" where
  "ticket_visibility m d t \<longleftrightarrow>
     tk_created_by t = mb_pk m
   \<or> tk_assigned_to t = Some (mb_pk m)
   \<or> mb_pk m \<in> set (ticket_assignees d (tk_pk t))
   \<or> list_ex (\<lambda>g. g \<in> set (all_group_keys m)) (tk_groups t)
   \<or> (case ticket_board d t of
        None \<Rightarrow> False
      | Some b \<Rightarrow> mb_pk m \<in> set (kb_order_users b) \<or> mb_pk m \<in> set (kb_users b)
               \<or> list_ex (\<lambda>g. g \<in> set (all_group_keys m)) (kb_groups b))"

definition visible_tickets :: "member \<Rightarrow> desk \<Rightarrow> ticket list" where
  "visible_tickets m d =
     (if mb_staff m then dk_tickets d else filter (ticket_visibility m d) (dk_tickets d))"

text \<open>\<^verbatim>\<open>get_object\<close> up to the object permission: None is the 404.\<close>

definition find_ticket :: "member \<Rightarrow> desk \<Rightarrow> pk \<Rightarrow> ticket option" where
  "find_ticket m d k = row_get tk_pk k (visible_tickets m d)"

datatype http_verb = Verb_safe | Verb_post | Verb_put | Verb_patch | Verb_delete

text \<open>
  A request body: the validated fields, None where the key is absent.  Nullable references keep
  the difference between an absent key and \<^verbatim>\<open>null\<close>; roles are keyed by the account.
\<close>

record ticket_body =
  tb_title :: "string option"
  tb_description :: "string option"
  tb_priority :: "ticket_priority option"
  tb_is_order :: "bool option"
  tb_position :: "nat option"
  tb_price :: "decimal option option"
  tb_currency :: "string option"
  tb_is_paid :: "bool option"
  tb_amount_paid :: "decimal option"
  tb_due :: "date option option"
  tb_column :: "pk option option"
  tb_assigned_to :: "pk option option"
  tb_department :: "pk option option"
  tb_users :: "pk list option"
  tb_roles :: "(pk \<times> string) list"
  tb_groups :: "pk list option"
  tb_tags :: "pk list option"

definition closed_target :: "desk \<Rightarrow> ticket_body \<Rightarrow> bool" where
  "closed_target d body =
     (case tb_column body of
        Some (Some k) \<Rightarrow> (case column_of d k of Some c \<Rightarrow> kc_closed c | None \<Rightarrow> False)
      | _ \<Rightarrow> False)"

text \<open>\<^verbatim>\<open>TicketPermission.has_object_permission\<close>.\<close>

definition ticket_permission :: "member \<Rightarrow> desk \<Rightarrow> http_verb \<Rightarrow> ticket_body \<Rightarrow> ticket \<Rightarrow> bool" where
  "ticket_permission m d verb body t =
     (if mb_staff m then True
      else
        let in_group = list_ex (\<lambda>g. g \<in> set (all_group_keys m)) (tk_groups t);
            on_board = (case ticket_board d t of
                          None \<Rightarrow> False
                        | Some b \<Rightarrow> mb_pk m \<in> set (kb_users b) \<or> mb_pk m \<in> set (kb_order_users b)
                                 \<or> list_ex (\<lambda>g. g \<in> set (all_group_keys m)) (kb_groups b));
            own = (tk_created_by t = mb_pk m \<or> tk_assigned_to t = Some (mb_pk m)
                   \<or> mb_pk m \<in> set (ticket_assignees d (tk_pk t)) \<or> in_group)
        in (case verb of
              Verb_safe \<Rightarrow> own \<or> on_board
            | Verb_put \<Rightarrow>
                if tb_assigned_to body \<noteq> None \<or> tb_groups body \<noteq> None then mb_staff m
                else if closed_target d body then mb_staff m
                else own
            | Verb_patch \<Rightarrow>
                if tb_assigned_to body \<noteq> None \<or> tb_groups body \<noteq> None then mb_staff m
                else if closed_target d body then mb_staff m
                else own
            | Verb_delete \<Rightarrow> mb_staff m
            | Verb_post \<Rightarrow> False))"

subsection \<open>Assignments\<close>

definition assign_role :: "(pk \<times> string) list \<Rightarrow> pk \<Rightarrow> string" where
  "assign_role roles u = (case map_of roles u of Some r \<Rightarrow> r | None \<Rightarrow> ''collaborator'')"

text \<open>
  \<^verbatim>\<open>TicketAssignment.objects.create\<close>: None is the IntegrityError of the unique pair or of the
  foreign key.
\<close>

definition create_assignment :: "pk \<Rightarrow> pk \<Rightarrow> string \<Rightarrow> pk \<Rightarrow> desk \<Rightarrow> desk option" where
  "create_assignment k u role by_user d =
     (if u \<notin> fst ` set (dk_accounts d) \<or> u \<in> set (ticket_assignees d k) then None
      else Some (d\<lparr>dk_assignments := row_create
             \<lparr>an_pk = next_pk an_pk (dk_assignments d), an_ticket = k, an_user = u, an_role = role,
              an_by = Some by_user\<rparr> (dk_assignments d)\<rparr>))"

text \<open>The loop over \<^verbatim>\<open>assigned_user_ids\<close>: the rows written so far, and whether it reached the end.\<close>

fun assign_each :: "pk \<Rightarrow> pk \<Rightarrow> (pk \<times> string) list \<Rightarrow> pk list \<Rightarrow> desk \<Rightarrow> desk \<times> bool" where
  "assign_each k by_user roles [] d = (d, True)"
| "assign_each k by_user roles (u # us) d =
     (case create_assignment k u (assign_role roles u) by_user d of
        None \<Rightarrow> (d, False)
      | Some d' \<Rightarrow> assign_each k by_user roles us d')"

definition clear_assignments :: "pk \<Rightarrow> desk \<Rightarrow> desk" where
  "clear_assignments k d = d\<lparr>dk_assignments := filter (\<lambda>a. an_ticket a \<noteq> k) (dk_assignments d)\<rparr>"

text \<open>\<^verbatim>\<open>ticket.tags.set\<close> and \<^verbatim>\<open>ticket.assigned_groups.set\<close>.\<close>

definition set_ticket_tags :: "pk \<Rightarrow> pk list \<Rightarrow> desk \<Rightarrow> desk option" where
  "set_ticket_tags k ids d =
     (if set ids \<subseteq> set (dk_tag_keys d)
      then Some (d\<lparr>dk_tickets := map (\<lambda>t. if tk_pk t = k then t\<lparr>tk_tags := remdups ids\<rparr> else t) (dk_tickets d)\<rparr>)
      else None)"

definition set_ticket_groups :: "pk \<Rightarrow> pk list \<Rightarrow> desk \<Rightarrow> desk option" where
  "set_ticket_groups k ids d =
     (if set ids \<subseteq> set (dk_group_keys d)
      then Some (d\<lparr>dk_tickets := map (\<lambda>t. if tk_pk t = k then t\<lparr>tk_groups := remdups ids\<rparr> else t) (dk_tickets d)\<rparr>)
      else None)"

subsection \<open>Creating a ticket\<close>

definition or_given :: "'a option \<Rightarrow> 'a \<Rightarrow> 'a" where
  "or_given x y = (case x of Some v \<Rightarrow> v | None \<Rightarrow> y)"

text \<open>A reference that counts only when it is truthy: the row must exist, else the lookup raises.\<close>

definition truthy_ref :: "pk option option \<Rightarrow> pk option" where
  "truthy_ref r = (case r of Some (Some k) \<Rightarrow> if k = 0 then None else Some k | _ \<Rightarrow> None)"

definition lookup_ref :: "pk list \<Rightarrow> pk option \<Rightarrow> pk option option" where
  "lookup_ref keys r = (case r of None \<Rightarrow> Some None | Some k \<Rightarrow> if k \<in> set keys then Some (Some k) else None)"

definition account_keys :: "desk \<Rightarrow> pk list" where
  "account_keys d = map fst (dk_accounts d)"

text \<open>The column of a new ticket: an order goes to the first column of the board of the one it names.\<close>

definition starting_column :: "desk \<Rightarrow> ticket_body \<Rightarrow> pk option option" where
  "starting_column d body =
     (case truthy_ref (tb_column body) of
        None \<Rightarrow> Some None
      | Some k \<Rightarrow>
          (case column_of d k of
             None \<Rightarrow> None
           | Some c \<Rightarrow>
               if or_given (tb_is_order body) False
               then (case board_columns d (kc_board c) of
                       [] \<Rightarrow> Some (Some k)
                     | c1 # _ \<Rightarrow> Some (Some (kc_pk c1)))
               else Some (Some k)))"

definition ticket_from_body :: "member \<Rightarrow> ticket_body \<Rightarrow> pk option \<Rightarrow> pk option \<Rightarrow> pk option \<Rightarrow> ticket" where
  "ticket_from_body m body col assigned dept =
     \<lparr>tk_pk = 0, tk_title = or_given (tb_title body) [], tk_description = or_given (tb_description body) [],
      tk_priority = or_given (tb_priority body) Priority_medium, tk_column = col,
      tk_position = or_given (tb_position body) 0, tk_created = 0, tk_created_by = mb_pk m,
      tk_assigned_to = assigned, tk_groups = [], tk_department = dept, tk_tags = [],
      tk_is_order = or_given (tb_is_order body) False, tk_price = or_given (tb_price body) None,
      tk_currency = or_given (tb_currency body) ''USD'', tk_is_paid = or_given (tb_is_paid body) False,
      tk_amount_paid = or_given (tb_amount_paid body) 0, tk_due = or_given (tb_due body) None\<rparr>"

text \<open>
  \<^verbatim>\<open>TicketSerializer.create\<close> and \<^verbatim>\<open>perform_create\<close>.  Nothing joins the writes: the ticket stays when
  a tag, a group or an assignee that follows is refused, and then no time log is opened.
\<close>

definition decorate_ticket :: "member \<Rightarrow> pk \<Rightarrow> ticket_body \<Rightarrow> desk \<Rightarrow> desk_answer" where
  "decorate_ticket m k body d =
     (case set_ticket_tags k (or_given (tb_tags body) []) d of
        None \<Rightarrow> (d, Some Desk_server_error)
      | Some d1 \<Rightarrow>
          (case set_ticket_groups k (or_given (tb_groups body) []) d1 of
             None \<Rightarrow> (d1, Some Desk_server_error)
           | Some d2 \<Rightarrow>
               (case assign_each k (mb_pk m) (tb_roles body) (or_given (tb_users body) []) d2 of
                  (d3, False) \<Rightarrow> (d3, Some Desk_server_error)
                | (d3, True) \<Rightarrow> (d3, None))))"

definition create_ticket :: "member \<Rightarrow> ticket_body \<Rightarrow> desk \<Rightarrow> desk_answer" where
  "create_ticket m body d =
     (case (lookup_ref (account_keys d) (truthy_ref (tb_assigned_to body)),
            lookup_ref (dk_department_keys d) (truthy_ref (tb_department body)),
            starting_column d body) of
        (Some assigned, Some dept, Some col) \<Rightarrow>
          let k = next_pk tk_pk (dk_tickets d);
              d1 = insert_ticket (ticket_from_body m body col assigned dept) d
          in (case decorate_ticket m k body d1 of
                (d2, Some e) \<Rightarrow> (d2, Some e)
              | (d2, None) \<Rightarrow>
                  (open_time_log k (Option.bind (ticket_of d2 k) tk_column) (mb_pk m) d2, None))
      | _ \<Rightarrow> (d, Some Desk_server_error))"

subsection \<open>Updating a ticket\<close>

text \<open>
  \<^verbatim>\<open>TicketSerializer.update\<close> reads a reference as: absent or \<^verbatim>\<open>null\<close> keeps, 0 clears, anything else
  must exist.
\<close>

definition changed_ref :: "pk list \<Rightarrow> pk option option \<Rightarrow> pk option \<Rightarrow> pk option option" where
  "changed_ref keys r old =
     (case r of
        Some (Some k) \<Rightarrow> if k = 0 then Some None else if k \<in> set keys then Some (Some k) else None
      | _ \<Rightarrow> Some old)"

definition patch_ticket :: "ticket_body \<Rightarrow> pk option \<Rightarrow> pk option \<Rightarrow> pk option \<Rightarrow> ticket \<Rightarrow> ticket" where
  "patch_ticket body col assigned dept t =
     t\<lparr>tk_title := or_given (tb_title body) (tk_title t),
       tk_description := or_given (tb_description body) (tk_description t),
       tk_priority := or_given (tb_priority body) (tk_priority t),
       tk_column := col,
       tk_position := or_given (tb_position body) (tk_position t),
       tk_assigned_to := assigned,
       tk_department := dept,
       tk_is_order := or_given (tb_is_order body) (tk_is_order t),
       tk_price := or_given (tb_price body) (tk_price t),
       tk_currency := or_given (tb_currency body) (tk_currency t),
       tk_is_paid := or_given (tb_is_paid body) (tk_is_paid t),
       tk_amount_paid := or_given (tb_amount_paid body) (tk_amount_paid t),
       tk_due := or_given (tb_due body) (tk_due t)\<rparr>"

text \<open>The minimum number of assignees, enforced only once it was reached.\<close>

definition too_few_users :: "desk_settings \<Rightarrow> member \<Rightarrow> desk \<Rightarrow> pk \<Rightarrow> pk list \<Rightarrow> bool" where
  "too_few_users ds m d k ids \<longleftrightarrow>
     0 < ds_min_users ds \<and> ds_min_users ds \<le> length (ticket_assignees d k)
   \<and> \<not> mb_staff m \<and> length ids < ds_min_users ds"

definition replace_assignees :: "desk_settings \<Rightarrow> member \<Rightarrow> pk \<Rightarrow> ticket_body \<Rightarrow> desk \<Rightarrow> desk_answer" where
  "replace_assignees ds m k body d =
     (case tb_users body of
        None \<Rightarrow> (d, None)
      | Some ids \<Rightarrow>
          if too_few_users ds m d k ids then (d, Some Desk_bad_request)
          else (case assign_each k (mb_pk m) (tb_roles body) ids (clear_assignments k d) of
                  (d1, True) \<Rightarrow> (d1, None)
                | (d1, False) \<Rightarrow> (d1, Some Desk_server_error)))"

definition set_links :: "pk \<Rightarrow> ticket_body \<Rightarrow> desk \<Rightarrow> desk option" where
  "set_links k body d =
     Option.bind (case tb_tags body of None \<Rightarrow> Some d | Some ids \<Rightarrow> set_ticket_tags k ids d)
       (\<lambda>d1. case tb_groups body of None \<Rightarrow> Some d1 | Some ids \<Rightarrow> set_ticket_groups k ids d1)"

definition shift_log :: "member \<Rightarrow> pk \<Rightarrow> pk option \<Rightarrow> pk option \<Rightarrow> desk \<Rightarrow> desk" where
  "shift_log m k old_col new_col d =
     (if old_col \<noteq> new_col
      then open_time_log k new_col (mb_pk m) (close_active_time_log k old_col d)
      else d)"

text \<open>
  An unknown tag or group: the database checks the keys when the transaction commits, after the
  number of assignees was checked.
\<close>

definition links_refusal :: "desk_settings \<Rightarrow> member \<Rightarrow> pk \<Rightarrow> ticket_body \<Rightarrow> desk \<Rightarrow> desk_refusal" where
  "links_refusal ds m k body d =
     (case tb_users body of
        None \<Rightarrow> Desk_server_error
      | Some ids \<Rightarrow> if too_few_users ds m d k ids then Desk_bad_request else Desk_server_error)"

text \<open>\<^verbatim>\<open>perform_update\<close> runs in one transaction: every refusal leaves the desk as it was.\<close>

definition update_ticket :: "desk_settings \<Rightarrow> member \<Rightarrow> http_verb \<Rightarrow> pk \<Rightarrow> ticket_body \<Rightarrow> desk \<Rightarrow> desk_answer" where
  "update_ticket ds m verb k body d =
     (case find_ticket m d k of
        None \<Rightarrow> (d, Some Desk_not_found)
      | Some t \<Rightarrow>
          if \<not> ticket_permission m d verb body t then (d, Some Desk_forbidden)
          else
            (case (changed_ref (account_keys d) (tb_assigned_to body) (tk_assigned_to t),
                   changed_ref (dk_department_keys d) (tb_department body) (tk_department t),
                   changed_ref (map kc_pk (dk_columns d)) (tb_column body) (tk_column t)) of
               (Some assigned, Some dept, Some col) \<Rightarrow>
                 (case set_links k body
                         (save_ticket (Some (mb_pk m)) (patch_ticket body col assigned dept t) d) of
                    None \<Rightarrow> (d, Some (links_refusal ds m k body d))
                  | Some d1 \<Rightarrow>
                      (case replace_assignees ds m k body d1 of
                         (_, Some e) \<Rightarrow> (d, Some e)
                       | (d2, None) \<Rightarrow>
                           (shift_log m k (tk_column t) (Option.bind (ticket_of d2 k) tk_column) d2, None)))
             | _ \<Rightarrow> (d, Some Desk_server_error)))"

subsection \<open>Moving and reordering\<close>

datatype raw_value = Raw_null | Raw_int int | Raw_real rat | Raw_text string | Raw_other

text \<open>\<^verbatim>\<open>int(raw)\<close>; None is the TypeError or ValueError.\<close>

definition int_of_raw :: "raw_value \<Rightarrow> int option" where
  "int_of_raw r =
     (case r of
        Raw_int n \<Rightarrow> Some n
      | Raw_real x \<Rightarrow> Some (if x < 0 then - \<lfloor>- x\<rfloor> else \<lfloor>x\<rfloor>)
      | Raw_text s \<Rightarrow> read_int s
      | Raw_null \<Rightarrow> None
      | Raw_other \<Rightarrow> None)"

text \<open>\<^verbatim>\<open>_parse_position\<close>: None is the error message, Some None an omitted position.\<close>

definition parse_position :: "raw_value \<Rightarrow> int option option" where
  "parse_position r =
     (if r = Raw_null \<or> r = Raw_text [] then Some None
      else case int_of_raw r of None \<Rightarrow> None | Some n \<Rightarrow> Some (Some n))"

definition locked_column_order :: "desk \<Rightarrow> pk \<Rightarrow> pk list" where
  "locked_column_order d c = map tk_pk (column_tickets d c)"

definition insert_at :: "nat \<Rightarrow> 'a \<Rightarrow> 'a list \<Rightarrow> 'a list" where
  "insert_at i x xs = take i xs @ x # drop i xs"

text \<open>\<^verbatim>\<open>max(0, min(position, len(ids)))\<close>, or the end when no position is given.\<close>

definition clamped_index :: "int option \<Rightarrow> nat \<Rightarrow> nat" where
  "clamped_index p n = (case p of None \<Rightarrow> n | Some i \<Rightarrow> nat (max 0 (min i (int n))))"

definition renumber_column :: "pk list \<Rightarrow> pk option \<Rightarrow> desk \<Rightarrow> desk" where
  "renumber_column ids skip d =
     d\<lparr>dk_tickets := map (\<lambda>t. if skip = Some (tk_pk t) then t
         else (case map_of (zip ids [0..<length ids]) (tk_pk t) of
                 Some i \<Rightarrow> t\<lparr>tk_position := i\<rparr>
               | None \<Rightarrow> t)) (dk_tickets d)\<rparr>"

definition move_ticket :: "member \<Rightarrow> ticket \<Rightarrow> pk \<Rightarrow> int option \<Rightarrow> desk \<Rightarrow> desk" where
  "move_ticket m t c p d =
     (let k = tk_pk t;
          others = filter (\<lambda>i. i \<noteq> k) (locked_column_order d c);
          index = clamped_index p (length others);
          target = insert_at index k others;
          d1 = close_active_time_log k (tk_column t) d;
          d2 = (case tk_column t of
                  None \<Rightarrow> d1
                | Some old \<Rightarrow>
                    if old \<noteq> c
                    then renumber_column (filter (\<lambda>i. i \<noteq> k) (locked_column_order d old)) None d1
                    else d1);
          d3 = renumber_column target (Some k) d2;
          d4 = save_ticket (Some (mb_pk m)) (t\<lparr>tk_column := Some c, tk_position := index\<rparr>) d3
      in open_time_log k (Some c) (mb_pk m) d4)"

definition move_to_column :: "member \<Rightarrow> pk \<Rightarrow> pk option \<Rightarrow> raw_value \<Rightarrow> desk \<Rightarrow> desk_answer" where
  "move_to_column m k column_id raw d =
     (case find_ticket m d k of
        None \<Rightarrow> (d, Some Desk_not_found)
      | Some t \<Rightarrow>
          (case truthy_ref (Some column_id) of
             None \<Rightarrow> (d, Some Desk_bad_request)
           | Some c \<Rightarrow>
               (case parse_position raw of
                  None \<Rightarrow> (d, Some Desk_bad_request)
                | Some p \<Rightarrow>
                    (case column_of d c of
                       None \<Rightarrow> (d, Some Desk_bad_request)
                     | Some _ \<Rightarrow> (move_ticket m t c p d, None)))))"

definition reorder_ticket :: "member \<Rightarrow> ticket \<Rightarrow> pk \<Rightarrow> int \<Rightarrow> desk \<Rightarrow> desk" where
  "reorder_ticket m t c p d =
     (let k = tk_pk t;
          others = filter (\<lambda>i. i \<noteq> k) (locked_column_order d c);
          index = clamped_index (Some p) (length others)
      in save_ticket (Some (mb_pk m)) (t\<lparr>tk_position := index\<rparr>)
           (renumber_column (insert_at index k others) (Some k) d))"

definition reorder_in_column :: "member \<Rightarrow> pk \<Rightarrow> raw_value \<Rightarrow> desk \<Rightarrow> desk_answer" where
  "reorder_in_column m k raw d =
     (case find_ticket m d k of
        None \<Rightarrow> (d, Some Desk_not_found)
      | Some t \<Rightarrow>
          (case parse_position raw of
             None \<Rightarrow> (d, Some Desk_bad_request)
           | Some None \<Rightarrow> (d, Some Desk_bad_request)
           | Some (Some p) \<Rightarrow>
               (case tk_column t of
                  None \<Rightarrow> (d, Some Desk_bad_request)
                | Some c \<Rightarrow> (reorder_ticket m t c p d, None))))"

subsection \<open>Assigning and deleting\<close>

definition assign_ticket :: "member \<Rightarrow> pk \<Rightarrow> pk option \<Rightarrow> desk \<Rightarrow> desk_answer" where
  "assign_ticket m k assigned_to_id d =
     (if \<not> mb_staff m then (d, Some Desk_forbidden)
      else case find_ticket m d k of
        None \<Rightarrow> (d, Some Desk_not_found)
      | Some t \<Rightarrow>
          (case truthy_ref (Some assigned_to_id) of
             None \<Rightarrow> (save_ticket None (t\<lparr>tk_assigned_to := None\<rparr>) d, None)
           | Some u \<Rightarrow>
               if u \<in> set (account_keys d)
               then (save_ticket None (t\<lparr>tk_assigned_to := Some u\<rparr>) d, None)
               else (d, Some Desk_bad_request)))"

text \<open>The rows that go with a ticket (\<^verbatim>\<open>on_delete=CASCADE\<close>).\<close>

definition drop_ticket :: "pk \<Rightarrow> desk \<Rightarrow> desk" where
  "drop_ticket k d =
     d\<lparr>dk_tickets := row_delete tk_pk k (dk_tickets d),
       dk_assignments := filter (\<lambda>a. an_ticket a \<noteq> k) (dk_assignments d),
       dk_logs := filter (\<lambda>l. tl_ticket l \<noteq> k) (dk_logs d),
       dk_payments := filter (\<lambda>p. tq_ticket p \<noteq> k) (dk_payments d),
       dk_history := filter (\<lambda>h. hy_ticket h \<noteq> k) (dk_history d),
       dk_checklist := filter (\<lambda>c. ck_ticket c \<noteq> k) (dk_checklist d),
       dk_comments := filter (\<lambda>c. cm_ticket c \<noteq> k) (dk_comments d)\<rparr>"

definition no_body :: ticket_body where
  "no_body =
     \<lparr>tb_title = None, tb_description = None, tb_priority = None, tb_is_order = None, tb_position = None,
      tb_price = None, tb_currency = None, tb_is_paid = None, tb_amount_paid = None, tb_due = None,
      tb_column = None, tb_assigned_to = None, tb_department = None, tb_users = None, tb_roles = [],
      tb_groups = None, tb_tags = None\<rparr>"

definition destroy_ticket :: "desk_settings \<Rightarrow> member \<Rightarrow> pk \<Rightarrow> desk \<Rightarrow> desk_answer" where
  "destroy_ticket ds m k d =
     (case find_ticket m d k of
        None \<Rightarrow> (d, Some Desk_not_found)
      | Some t \<Rightarrow>
          if \<not> ticket_permission m d Verb_delete no_body t then (d, Some Desk_forbidden)
          else if ds_only_super_delete ds
          then (if \<not> mb_staff m then (d, Some Desk_forbidden) else (drop_ticket k d, None))
          else (if \<not> mb_staff m \<and> tk_created_by t \<noteq> mb_pk m then (d, Some Desk_forbidden)
                else (drop_ticket k d, None)))"

definition insert_comment :: "pk \<Rightarrow> pk \<Rightarrow> string \<Rightarrow> desk \<Rightarrow> desk" where
  "insert_comment k u txt d =
     d\<lparr>dk_comments := row_create
         \<lparr>cm_pk = next_pk cm_pk (dk_comments d), cm_ticket = k, cm_user = u, cm_text = txt\<rparr> (dk_comments d)\<rparr>"

text \<open>
  \<^verbatim>\<open>TicketCommentSerializer.create\<close>: the \<^verbatim>\<open>user_id\<close> of the body, when there is one, wins over the
  caller that the view passes; the lookup of an unknown account raises.
\<close>

definition comment_as :: "member \<Rightarrow> pk \<Rightarrow> pk option \<Rightarrow> string \<Rightarrow> desk \<Rightarrow> desk_answer" where
  "comment_as m k user_id txt d =
     (case user_id of
        None \<Rightarrow> (insert_comment k (mb_pk m) txt d, None)
      | Some u \<Rightarrow>
          if u \<in> set (account_keys d) then (insert_comment k u txt d, None)
          else (d, Some Desk_server_error))"

text \<open>
  \<^verbatim>\<open>add_comment\<close> is a POST on the ticket, so the object permission of the view applies; \<open>valid\<close> says
  whether the body passes the comment serializer.
\<close>

definition add_comment :: "member \<Rightarrow> pk \<Rightarrow> bool \<Rightarrow> pk option \<Rightarrow> string \<Rightarrow> desk \<Rightarrow> desk_answer" where
  "add_comment m k valid user_id txt d =
     (case find_ticket m d k of
        None \<Rightarrow> (d, Some Desk_not_found)
      | Some t \<Rightarrow>
          if \<not> ticket_permission m d Verb_post no_body t then (d, Some Desk_forbidden)
          else if \<not> valid then (d, Some Desk_bad_request)
          else comment_as m k user_id txt d)"

text \<open>The comment collection: anyone signed in may post on any ticket.\<close>

definition post_comment :: "member \<Rightarrow> pk \<Rightarrow> pk option \<Rightarrow> string \<Rightarrow> desk \<Rightarrow> desk_answer" where
  "post_comment m k user_id txt d =
     (if ticket_of d k = None then (d, Some Desk_bad_request) else comment_as m k user_id txt d)"

end
