(* ===== verification/Ticket_Parts.thy ===== *)
theory Ticket_Parts
  imports Ticket_Ops
begin

text \<open>
  Boards and their columns, the assignment collection, payments, checklists, list items and forms
  (\<^verbatim>\<open>tickets/views.py\<close>, \<^verbatim>\<open>tickets/permissions.py\<close> and the \<^verbatim>\<open>save\<close> methods of
  \<^verbatim>\<open>tickets/models.py\<close>).

  The parts that hang on a ticket: the assignment collection, payments and their summary,
  checklists; and the hierarchical list items and the forms tickets are filled in with.
\<close>

subsection \<open>Who may do what\<close>

definition user_can_manage :: "member \<Rightarrow> string \<Rightarrow> bool" where
  "user_can_manage m p = (if mb_staff m \<or> mb_super m then True else has_permission (mb_user m) p)"

text \<open>\<^verbatim>\<open>TenantPermissionForWrites.has_permission\<close> for a signed-in caller.\<close>

definition write_allowed :: "string \<Rightarrow> bool \<Rightarrow> member \<Rightarrow> bool" where
  "write_allowed p safe m = (if safe then True else user_can_manage m p)"

datatype board_action =
  Board_list | Board_retrieve | Board_kanban | Board_create | Board_update | Board_partial_update
| Board_destroy | Board_set_default | Board_telegram_write | Board_other

definition board_permission :: "member \<Rightarrow> desk \<Rightarrow> board_action \<Rightarrow> bool" where
  "board_permission m d act =
     (if mb_staff m \<or> mb_super m then True
      else if act \<in> {Board_list, Board_retrieve, Board_kanban}
      then (if has_permission (mb_user m) ''view_boards'' \<or> has_permission (mb_user m) ''access_orders'' then True
            else list_ex (\<lambda>b. mb_pk m \<in> set (kb_users b)
                           \<or> list_ex (\<lambda>g. g \<in> set (active_group_keys m)) (kb_groups b)) (dk_boards d))
      else if act = Board_create then has_permission (mb_user m) ''create_boards''
      else if act \<in> {Board_update, Board_partial_update} then has_permission (mb_user m) ''edit_boards''
      else if act = Board_destroy then has_permission (mb_user m) ''delete_boards''
      else if act = Board_set_default then mb_staff m \<or> mb_super m
      else if act = Board_telegram_write then has_permission (mb_user m) ''edit_boards''
      else has_permission (mb_user m) ''view_boards'' \<or> has_permission (mb_user m) ''access_orders'')"

definition board_accessible :: "member \<Rightarrow> board \<Rightarrow> bool" where
  "board_accessible m b \<longleftrightarrow>
     mb_super m \<or> mb_staff m
   \<or> mb_pk m \<in> set (kb_users b)
   \<or> mb_pk m \<in> set (kb_order_users b)
   \<or> list_ex (\<lambda>g. g \<in> set (active_group_keys m)) (kb_groups b)
   \<or> (kb_users b = [] \<and> kb_groups b = [])"

definition accessible_boards :: "member \<Rightarrow> desk \<Rightarrow> board list" where
  "accessible_boards m d = filter (board_accessible m) (dk_boards d)"

definition find_board :: "member \<Rightarrow> desk \<Rightarrow> pk \<Rightarrow> board option" where
  "find_board m d k = row_get kb_pk k (accessible_boards m d)"

definition visible_columns :: "member \<Rightarrow> desk \<Rightarrow> ticket_column list" where
  "visible_columns m d =
     (if mb_super m \<or> mb_staff m then dk_columns d
      else filter (\<lambda>c. kc_board c \<in> kb_pk ` set (accessible_boards m d)) (dk_columns d))"

definition find_column :: "member \<Rightarrow> desk \<Rightarrow> pk \<Rightarrow> ticket_column option" where
  "find_column m d k = row_get kc_pk k (visible_columns m d)"

subsection \<open>Columns\<close>

text \<open>
  \<^verbatim>\<open>TicketColumn.save\<close>: a default column takes the flag from the others of its board.  A name used
  twice on a board is the IntegrityError (None).
\<close>

definition take_default_column :: "pk option \<Rightarrow> ticket_column \<Rightarrow> ticket_column list \<Rightarrow> ticket_column list" where
  "take_default_column self c cs =
     (if kc_default c
      then map (\<lambda>x. if kc_default x \<and> kc_board x = kc_board c \<and> Some (kc_pk x) \<noteq> self
                    then x\<lparr>kc_default := False\<rparr> else x) cs
      else cs)"

definition name_taken :: "pk option \<Rightarrow> ticket_column \<Rightarrow> ticket_column list \<Rightarrow> bool" where
  "name_taken self c cs \<longleftrightarrow>
     list_ex (\<lambda>x. kc_name x = kc_name c \<and> kc_board x = kc_board c \<and> Some (kc_pk x) \<noteq> self) cs"

definition save_column :: "ticket_column \<Rightarrow> desk \<Rightarrow> desk" where
  "save_column c d =
     d\<lparr>dk_columns := row_save kc_pk c (take_default_column (Some (kc_pk c)) c (dk_columns d))\<rparr>"

definition insert_column :: "ticket_column \<Rightarrow> desk \<Rightarrow> desk" where
  "insert_column c d =
     d\<lparr>dk_columns := row_create (c\<lparr>kc_pk := next_pk kc_pk (dk_columns d), kc_created := dk_clock d\<rparr>)
                       (take_default_column None c (dk_columns d))\<rparr>"

record column_body =
  cy_name :: "string option"
  cy_position :: "nat option"
  cy_default :: "bool option"
  cy_closed :: "bool option"
  cy_track :: "bool option"

definition create_column :: "member \<Rightarrow> pk \<Rightarrow> column_body \<Rightarrow> desk \<Rightarrow> desk_answer" where
  "create_column m b body d =
     (if \<not> write_allowed ''manage_columns'' False m then (d, Some Desk_forbidden)
      else if board_of d b = None then (d, Some Desk_bad_request)
      else
        let c = \<lparr>kc_pk = 0, kc_name = or_given (cy_name body) [], kc_position = or_given (cy_position body) 0,
                 kc_default = or_given (cy_default body) False, kc_closed = or_given (cy_closed body) False,
                 kc_track = or_given (cy_track body) False, kc_board = b, kc_created = 0\<rparr>
        in if name_taken None c (dk_columns d) then (d, Some Desk_bad_request)
           else if find_board m d b = None then (d, Some Desk_forbidden)
           else (insert_column c d, None))"

definition update_column :: "member \<Rightarrow> pk \<Rightarrow> column_body \<Rightarrow> desk \<Rightarrow> desk_answer" where
  "update_column m k body d =
     (if \<not> write_allowed ''manage_columns'' False m then (d, Some Desk_forbidden)
      else case find_column m d k of
        None \<Rightarrow> (d, Some Desk_not_found)
      | Some c0 \<Rightarrow>
          let c = c0\<lparr>kc_name := or_given (cy_name body) (kc_name c0),
                     kc_position := or_given (cy_position body) (kc_position c0),
                     kc_default := or_given (cy_default body) (kc_default c0),
                     kc_closed := or_given (cy_closed body) (kc_closed c0),
                     kc_track := or_given (cy_track body) (kc_track c0)\<rparr>
          in if name_taken (Some k) c (dk_columns d)
             then (d\<lparr>dk_columns := take_default_column (Some k) c (dk_columns d)\<rparr>, Some Desk_server_error)
             else (save_column c d, None))"

text \<open>The rows that go with a column; its tickets lose it (\<^verbatim>\<open>on_delete=SET_NULL\<close>).\<close>

definition drop_columns :: "(pk \<Rightarrow> bool) \<Rightarrow> desk \<Rightarrow> desk" where
  "drop_columns gone d =
     d\<lparr>dk_columns := filter (\<lambda>c. \<not> gone (kc_pk c)) (dk_columns d),
       dk_logs := filter (\<lambda>l. \<not> gone (tl_column l)) (dk_logs d),
       dk_tickets := map (\<lambda>t. case tk_column t of
                            Some k \<Rightarrow> if gone k then t\<lparr>tk_column := None\<rparr> else t
                          | None \<Rightarrow> t) (dk_tickets d)\<rparr>"

definition destroy_column :: "member \<Rightarrow> pk \<Rightarrow> desk \<Rightarrow> desk_answer" where
  "destroy_column m k d =
     (if \<not> write_allowed ''manage_columns'' False m then (d, Some Desk_forbidden)
      else case find_column m d k of
        None \<Rightarrow> (d, Some Desk_not_found)
      | Some c \<Rightarrow>
          if list_ex (\<lambda>t. tk_column t = Some k) (dk_tickets d) then (d, Some Desk_bad_request)
          else (drop_columns (\<lambda>j. j = k) d, None))"

definition renumber_columns :: "pk list \<Rightarrow> desk \<Rightarrow> desk" where
  "renumber_columns ids d =
     d\<lparr>dk_columns := map (\<lambda>c. case map_of (zip ids [0..<length ids]) (kc_pk c) of
                            Some i \<Rightarrow> c\<lparr>kc_position := i\<rparr>
                          | None \<Rightarrow> c) (dk_columns d)\<rparr>"

definition place_column :: "ticket_column \<Rightarrow> nat \<Rightarrow> desk \<Rightarrow> desk" where
  "place_column c p d =
     (let ids = remove1 (kc_pk c) (map kc_pk (board_columns d (kc_board c)))
      in renumber_columns (insert_at (min p (length ids)) (kc_pk c) ids) d)"

definition reorder_column :: "member \<Rightarrow> pk \<Rightarrow> raw_value \<Rightarrow> desk \<Rightarrow> desk_answer" where
  "reorder_column m k raw d =
     (if \<not> write_allowed ''manage_columns'' False m then (d, Some Desk_forbidden)
      else case find_column m d k of
        None \<Rightarrow> (d, Some Desk_not_found)
      | Some c \<Rightarrow>
          if raw = Raw_null \<or> raw = Raw_text [] then (d, Some Desk_bad_request)
          else (case int_of_raw raw of
                  None \<Rightarrow> (d, Some Desk_bad_request)
                | Some p \<Rightarrow>
                    if p < 0 then (d, Some Desk_bad_request)
                    else (place_column c (nat p) d, None)))"

subsection \<open>Boards\<close>

text \<open>\<^verbatim>\<open>Board.save\<close>: a default board first takes the flag from every board.\<close>

definition take_default_board :: "bool \<Rightarrow> board list \<Rightarrow> board list" where
  "take_default_board is_default bs =
     (if is_default then map (\<lambda>b. if kb_default b then b\<lparr>kb_default := False\<rparr> else b) bs else bs)"

definition save_board :: "board \<Rightarrow> desk \<Rightarrow> desk" where
  "save_board b d = d\<lparr>dk_boards := row_save kb_pk b (take_default_board (kb_default b) (dk_boards d))\<rparr>"

definition insert_board :: "board \<Rightarrow> desk \<Rightarrow> desk" where
  "insert_board b d =
     d\<lparr>dk_boards := row_create (b\<lparr>kb_pk := next_pk kb_pk (dk_boards d)\<rparr>)
                      (take_default_board (kb_default b) (dk_boards d))\<rparr>"

record board_body =
  bz_name :: "string option"
  bz_default :: "bool option"
  bz_order_users :: "pk list option"
  bz_users :: "pk list option"
  bz_groups :: "pk list option"

text \<open>
  The links are set after the row is saved; an unknown key is the IntegrityError.  \<open>unique_check\<close> says
  whether the installed REST framework derives a validator from the unique default board
  constraint, which refuses a second default board before \<^verbatim>\<open>save\<close> runs.
\<close>

definition link_keys :: "pk list \<Rightarrow> pk list option \<Rightarrow> pk list \<Rightarrow> pk list option" where
  "link_keys known ids old =
     (case ids of
        None \<Rightarrow> Some old
      | Some ks \<Rightarrow> if set ks \<subseteq> set known then Some (remdups ks) else None)"

text \<open>The board with the links that could be set, and whether all of them could.\<close>

definition link_board :: "desk \<Rightarrow> board_body \<Rightarrow> board \<Rightarrow> board \<times> bool" where
  "link_board d body b =
     (case link_keys (account_keys d) (bz_order_users body) (kb_order_users b) of
        None \<Rightarrow> (b, False)
      | Some os \<Rightarrow>
          let b1 = b\<lparr>kb_order_users := os\<rparr>
          in (case link_keys (dk_group_keys d) (bz_groups body) (kb_groups b1) of
                None \<Rightarrow> (b1, False)
              | Some gs \<Rightarrow>
                  let b2 = b1\<lparr>kb_groups := gs\<rparr>
                  in (case link_keys (account_keys d) (bz_users body) (kb_users b2) of
                        None \<Rightarrow> (b2, False)
                      | Some us \<Rightarrow> (b2\<lparr>kb_users := us\<rparr>, True))))"

definition link_reply :: "bool \<Rightarrow> desk_refusal option" where
  "link_reply ok = (if ok then None else Some Desk_server_error)"

definition create_board :: "bool \<Rightarrow> member \<Rightarrow> board_body \<Rightarrow> desk \<Rightarrow> desk_answer" where
  "create_board unique_check m body d =
     (if \<not> board_permission m d Board_create then (d, Some Desk_forbidden)
      else if unique_check \<and> or_given (bz_default body) False \<and> list_ex kb_default (dk_boards d)
      then (d, Some Desk_bad_request)
      else
        let b = \<lparr>kb_pk = 0, kb_name = or_given (bz_name body) [], kb_default = or_given (bz_default body) False,
                 kb_order_users = [], kb_users = [], kb_groups = []\<rparr>
        in (case link_board d body b of (b1, ok) \<Rightarrow> (insert_board b1 d, link_reply ok)))"

definition update_board :: "bool \<Rightarrow> member \<Rightarrow> pk \<Rightarrow> board_body \<Rightarrow> desk \<Rightarrow> desk_answer" where
  "update_board unique_check m k body d =
     (if \<not> board_permission m d Board_update then (d, Some Desk_forbidden)
      else case find_board m d k of
        None \<Rightarrow> (d, Some Desk_not_found)
      | Some b0 \<Rightarrow>
          if unique_check \<and> or_given (bz_default body) False
             \<and> list_ex (\<lambda>b. kb_default b \<and> kb_pk b \<noteq> k) (dk_boards d)
          then (d, Some Desk_bad_request)
          else
            let b = b0\<lparr>kb_name := or_given (bz_name body) (kb_name b0),
                       kb_default := or_given (bz_default body) (kb_default b0)\<rparr>
            in (case link_board d body b of (b1, ok) \<Rightarrow> (save_board b1 d, link_reply ok)))"

definition destroy_board :: "member \<Rightarrow> pk \<Rightarrow> desk \<Rightarrow> desk_answer" where
  "destroy_board m k d =
     (if \<not> board_permission m d Board_destroy then (d, Some Desk_forbidden)
      else case find_board m d k of
        None \<Rightarrow> (d, Some Desk_not_found)
      | Some _ \<Rightarrow>
          ((drop_columns (\<lambda>c. list_ex (\<lambda>x. kc_pk x = c \<and> kc_board x = k) (dk_columns d)) d)
             \<lparr>dk_boards := row_delete kb_pk k (dk_boards d)\<rparr>, None))"

definition set_default_board :: "member \<Rightarrow> pk \<Rightarrow> desk \<Rightarrow> desk_answer" where
  "set_default_board m k d =
     (if \<not> board_permission m d Board_set_default then (d, Some Desk_forbidden)
      else if \<not> (mb_staff m \<or> mb_super m) then (d, Some Desk_forbidden)
      else case find_board m d k of
        None \<Rightarrow> (d, Some Desk_not_found)
      | Some b \<Rightarrow> (save_board (b\<lparr>kb_default := True\<rparr>) d, None))"

text \<open>\<^verbatim>\<open>get_payment_summary\<close> of a board.\<close>

record payment_summary =
  qs_tickets :: nat
  qs_orders :: nat
  qs_price :: decimal
  qs_paid :: decimal
  qs_paid_tickets :: nat
  qs_unpaid_tickets :: nat
  qs_overdue_tickets :: nat
  qs_balance :: decimal

definition board_tickets :: "desk \<Rightarrow> pk \<Rightarrow> ticket list" where
  "board_tickets d b =
     filter (\<lambda>t. case ticket_column_row d t of Some c \<Rightarrow> kc_board c = b | None \<Rightarrow> False) (dk_tickets d)"

definition due_before_today :: "desk \<Rightarrow> ticket \<Rightarrow> bool" where
  "due_before_today d t \<longleftrightarrow>
     \<not> tk_is_paid t \<and> (case tk_due t of Some x \<Rightarrow> x < date_of (dk_clock d) | None \<Rightarrow> False)"

definition summary_of :: "desk \<Rightarrow> ticket list \<Rightarrow> payment_summary" where
  "summary_of d ts =
     (let price = (\<Sum>t\<leftarrow>ts. or_given (tk_price t) 0); paid = (\<Sum>t\<leftarrow>ts. tk_amount_paid t)
      in \<lparr>qs_tickets = length ts,
          qs_orders = length (filter tk_is_order ts),
          qs_price = price,
          qs_paid = paid,
          qs_paid_tickets = length (filter tk_is_paid ts),
          qs_unpaid_tickets = length (filter (\<lambda>t. \<not> tk_is_paid t \<and> 0 < or_given (tk_price t) 0) ts),
          qs_overdue_tickets = length (filter (due_before_today d) ts),
          qs_balance = price - paid\<rparr>)"

definition get_payment_summary :: "desk \<Rightarrow> pk \<Rightarrow> payment_summary" where
  "get_payment_summary d b = summary_of d (board_tickets d b)"

definition due_date :: "ticket \<Rightarrow> date" where
  "due_date t = or_given (tk_due t) 0"

definition get_overdue_payments :: "desk \<Rightarrow> pk \<Rightarrow> ticket list" where
  "get_overdue_payments d b = sort_key due_date (filter (due_before_today d) (board_tickets d b))"

section \<open>The parts of a ticket\<close>

subsection \<open>The assignment collection\<close>

definition bulk_assign :: "member \<Rightarrow> pk \<Rightarrow> pk list \<Rightarrow> (pk \<times> string) list \<Rightarrow> bool \<Rightarrow> desk \<Rightarrow> desk_answer" where
  "bulk_assign m k ids roles replace d =
     (case ticket_of d k of
        None \<Rightarrow> (d, Some Desk_not_found)
      | Some t \<Rightarrow>
          if \<not> (mb_staff m \<or> tk_created_by t = mb_pk m) then (d, Some Desk_forbidden)
          else if length (filter (\<lambda>a. snd a \<and> fst a \<in> set ids) (dk_accounts d)) \<noteq> length ids
          then (d, Some Desk_bad_request)
          else
            let d1 = (if replace then clear_assignments k d else d)
            in (foldl (\<lambda>e u. case create_assignment k u (assign_role roles u) (mb_pk m) e of
                               Some e' \<Rightarrow> e' | None \<Rightarrow> e) d1 ids, None))"

definition bulk_unassign :: "member \<Rightarrow> pk \<Rightarrow> pk list \<Rightarrow> desk \<Rightarrow> desk_answer" where
  "bulk_unassign m k ids d =
     (case ticket_of d k of
        None \<Rightarrow> (d, Some Desk_not_found)
      | Some t \<Rightarrow>
          if \<not> (mb_staff m \<or> tk_created_by t = mb_pk m) then (d, Some Desk_forbidden)
          else (d\<lparr>dk_assignments :=
                     filter (\<lambda>a. \<not> (an_ticket a = k \<and> an_user a \<in> set ids)) (dk_assignments d)\<rparr>, None))"

text \<open>
  POST on the collection: the serializer declares \<^verbatim>\<open>user\<close> read-only, so the row has no user and the
  database refuses it.
\<close>

definition post_assignment :: "pk \<Rightarrow> desk \<Rightarrow> desk_answer" where
  "post_assignment k d =
     (if ticket_of d k = None then (d, Some Desk_not_found) else (d, Some Desk_server_error))"

text \<open>PUT and PATCH change the role, DELETE removes the row; no check beyond being signed in.\<close>

definition change_role :: "pk \<Rightarrow> pk \<Rightarrow> string \<Rightarrow> desk \<Rightarrow> desk_answer" where
  "change_role k a role d =
     (case row_get an_pk a (filter (\<lambda>x. an_ticket x = k) (dk_assignments d)) of
        None \<Rightarrow> (d, Some Desk_not_found)
      | Some x \<Rightarrow> (d\<lparr>dk_assignments := row_save an_pk (x\<lparr>an_role := role\<rparr>) (dk_assignments d)\<rparr>, None))"

definition drop_assignment :: "pk \<Rightarrow> pk \<Rightarrow> desk \<Rightarrow> desk_answer" where
  "drop_assignment k a d =
     (case row_get an_pk a (filter (\<lambda>x. an_ticket x = k) (dk_assignments d)) of
        None \<Rightarrow> (d, Some Desk_not_found)
      | Some x \<Rightarrow> (d\<lparr>dk_assignments := row_delete an_pk a (dk_assignments d)\<rparr>, None))"

subsection \<open>Payments\<close>

definition insert_payment :: "pk \<Rightarrow> decimal \<Rightarrow> string \<Rightarrow> string \<Rightarrow> pk option \<Rightarrow> desk \<Rightarrow> desk" where
  "insert_payment k amount currency how uid d =
     d\<lparr>dk_payments := row_create
         \<lparr>tq_pk = next_pk tq_pk (dk_payments d), tq_ticket = k, tq_amount = round_half_up 2 amount,
          tq_currency = currency, tq_method = how, tq_by = uid\<rparr> (dk_payments d)\<rparr>"

text \<open>A value \<^verbatim>\<open>numeric(10, 2)\<close> holds.\<close>

definition money_fits :: "decimal \<Rightarrow> bool" where
  "money_fits x \<longleftrightarrow> \<bar>round_half_up 2 x\<bar> < 10 ^ 8"

text \<open>The ticket with a payment added, and marked paid once the price is reached.\<close>

definition credited :: "ticket \<Rightarrow> decimal \<Rightarrow> ticket" where
  "credited t amount =
     (let t1 = t\<lparr>tk_amount_paid := tk_amount_paid t + amount\<rparr>
      in (case tk_price t1 of
            None \<Rightarrow> t1
          | Some p \<Rightarrow> if p \<noteq> 0 \<and> p \<le> tk_amount_paid t1 then t1\<lparr>tk_is_paid := True\<rparr> else t1))"

text \<open>
  \<^verbatim>\<open>Ticket.add_payment\<close>: a bad request is the ValueError, a server error a number the database
  refuses.  The ticket is saved before the payment row is created.
\<close>

definition add_payment :: "ticket \<Rightarrow> decimal \<Rightarrow> pk option \<Rightarrow> desk \<Rightarrow> desk_answer" where
  "add_payment t amount uid d =
     (if amount \<le> 0 then (d, Some Desk_bad_request)
      else if \<not> money_fits (tk_amount_paid (credited t amount)) then (d, Some Desk_server_error)
      else if \<not> money_fits amount then (save_ticket None (credited t amount) d, Some Desk_server_error)
      else (insert_payment (tk_pk t) amount (tk_currency t) ''manual'' uid (save_ticket None (credited t amount) d), None))"

text \<open>\<^verbatim>\<open>Decimal(str(amount))\<close> was computed by the caller: None is an invalid number.\<close>

definition process_payment :: "member \<Rightarrow> pk option \<Rightarrow> decimal option \<Rightarrow> desk \<Rightarrow> desk_answer" where
  "process_payment m ticket_id amount d =
     (case (truthy_ref (Some ticket_id), amount) of
        (Some k, Some x) \<Rightarrow>
          (case ticket_of d k of
             None \<Rightarrow> (d, Some Desk_bad_request)
           | Some t \<Rightarrow>
               if \<not> (mb_super m \<or> has_permission (mb_user m) ''edit_tickets'' \<or> tk_created_by t = mb_pk m)
               then (d, Some Desk_forbidden)
               else add_payment t x (Some (mb_pk m)) d)
      | _ \<Rightarrow> (d, Some Desk_bad_request))"

text \<open>The payment collection writes the rows alone.\<close>

definition sees_all_payments :: "member \<Rightarrow> bool" where
  "sees_all_payments m \<longleftrightarrow> mb_super m \<or> has_permission (mb_user m) ''view_tickets''"

definition own_ticket :: "member \<Rightarrow> desk \<Rightarrow> ticket \<Rightarrow> bool" where
  "own_ticket m d t \<longleftrightarrow>
     tk_created_by t = mb_pk m \<or> tk_assigned_to t = Some (mb_pk m)
   \<or> mb_pk m \<in> set (ticket_assignees d (tk_pk t))"

definition visible_payments :: "member \<Rightarrow> desk \<Rightarrow> ticket_payment list" where
  "visible_payments m d =
     (if sees_all_payments m then dk_payments d
      else filter (\<lambda>p. case ticket_of d (tq_ticket p) of Some t \<Rightarrow> own_ticket m d t | None \<Rightarrow> False) (dk_payments d))"

definition post_payment :: "member \<Rightarrow> pk \<Rightarrow> decimal \<Rightarrow> string \<Rightarrow> string \<Rightarrow> desk \<Rightarrow> desk_answer" where
  "post_payment m k amount currency how d =
     (if ticket_of d k = None then (d, Some Desk_bad_request)
      else (insert_payment k amount currency how (Some (mb_pk m)) d, None))"

definition patch_payment :: "member \<Rightarrow> pk \<Rightarrow> decimal \<Rightarrow> desk \<Rightarrow> desk_answer" where
  "patch_payment m p amount d =
     (case row_get tq_pk p (visible_payments m d) of
        None \<Rightarrow> (d, Some Desk_not_found)
      | Some x \<Rightarrow> (d\<lparr>dk_payments := row_save tq_pk (x\<lparr>tq_amount := round_half_up 2 amount\<rparr>) (dk_payments d)\<rparr>, None))"

definition destroy_payment :: "member \<Rightarrow> pk \<Rightarrow> desk \<Rightarrow> desk_answer" where
  "destroy_payment m p d =
     (case row_get tq_pk p (visible_payments m d) of
        None \<Rightarrow> (d, Some Desk_not_found)
      | Some x \<Rightarrow> (d\<lparr>dk_payments := row_delete tq_pk p (dk_payments d)\<rparr>, None))"

definition summary_tickets :: "member \<Rightarrow> pk option \<Rightarrow> desk \<Rightarrow> ticket list" where
  "summary_tickets m board_id d =
     (let ts = (if sees_all_payments m then dk_tickets d else filter (own_ticket m d) (dk_tickets d))
      in case board_id of
           None \<Rightarrow> ts
         | Some b \<Rightarrow> filter (\<lambda>t. case ticket_column_row d t of Some c \<Rightarrow> kc_board c = b | None \<Rightarrow> False) ts)"

definition accessible_summary :: "member \<Rightarrow> pk option \<Rightarrow> desk \<Rightarrow> payment_summary" where
  "accessible_summary m board_id d = summary_of d (summary_tickets m board_id d)"

subsection \<open>Positions of checklist items and list items\<close>

text \<open>\<^verbatim>\<open>aggregate(Max('position'))['position__max'] or 0\<close>, plus one, for a falsy position.\<close>

definition auto_position :: "nat list \<Rightarrow> nat \<Rightarrow> nat" where
  "auto_position siblings p = (if p = 0 then or_given (max_position siblings) 0 + 1 else p)"

definition checklist_positions :: "desk \<Rightarrow> pk \<Rightarrow> nat list" where
  "checklist_positions d k = map ck_position (filter (\<lambda>c. ck_ticket c = k) (dk_checklist d))"

definition save_check :: "checklist_item \<Rightarrow> desk \<Rightarrow> desk" where
  "save_check c d =
     d\<lparr>dk_checklist := row_save ck_pk
         (c\<lparr>ck_position := auto_position (checklist_positions d (ck_ticket c)) (ck_position c)\<rparr>) (dk_checklist d)\<rparr>"

definition insert_check :: "checklist_item \<Rightarrow> desk \<Rightarrow> desk" where
  "insert_check c d =
     d\<lparr>dk_checklist := row_create
         (c\<lparr>ck_pk := next_pk ck_pk (dk_checklist d),
            ck_position := auto_position (checklist_positions d (ck_ticket c)) (ck_position c)\<rparr>) (dk_checklist d)\<rparr>"

definition visible_checks :: "member \<Rightarrow> desk \<Rightarrow> checklist_item list" where
  "visible_checks m d =
     (if mb_staff m then dk_checklist d
      else filter (\<lambda>c. (case ticket_of d (ck_ticket c) of Some t \<Rightarrow> own_ticket m d t | None \<Rightarrow> False)
                     \<or> ck_by c = mb_pk m) (dk_checklist d))"

definition toggle_check :: "member \<Rightarrow> pk \<Rightarrow> desk \<Rightarrow> desk_answer" where
  "toggle_check m k d =
     (case row_get ck_pk k (visible_checks m d) of
        None \<Rightarrow> (d, Some Desk_not_found)
      | Some c \<Rightarrow> (save_check (c\<lparr>ck_checked := \<not> ck_checked c\<rparr>) d, None))"

text \<open>The shift of the rows between the old and the new position.\<close>

definition shifted_position :: "nat \<Rightarrow> nat \<Rightarrow> nat \<Rightarrow> nat" where
  "shifted_position old new p =
     (if old < new then (if old < p \<and> p \<le> new then p - 1 else p)
      else (if new \<le> p \<and> p < old then p + 1 else p))"

definition place_check :: "checklist_item \<Rightarrow> nat \<Rightarrow> desk \<Rightarrow> desk" where
  "place_check c p d =
     save_check (c\<lparr>ck_position := p\<rparr>)
       (d\<lparr>dk_checklist := map (\<lambda>x. if ck_ticket x = ck_ticket c
                                 then x\<lparr>ck_position := shifted_position (ck_position c) p (ck_position x)\<rparr>
                                 else x) (dk_checklist d)\<rparr>)"

text \<open>\<^verbatim>\<open>int(new_position)\<close> guarded against ValueError only: another type of value is a server error.\<close>

definition reorder_check :: "member \<Rightarrow> pk \<Rightarrow> raw_value \<Rightarrow> desk \<Rightarrow> desk_answer" where
  "reorder_check m k raw d =
     (case row_get ck_pk k (visible_checks m d) of
        None \<Rightarrow> (d, Some Desk_not_found)
      | Some c \<Rightarrow>
          if raw = Raw_null then (d, Some Desk_bad_request)
          else if raw = Raw_other then (d, Some Desk_server_error)
          else (case int_of_raw raw of
                  None \<Rightarrow> (d, Some Desk_bad_request)
                | Some p \<Rightarrow> if p < 0 then (d, Some Desk_bad_request) else (place_check c (nat p) d, None)))"

definition item_siblings :: "desk \<Rightarrow> list_item \<Rightarrow> list_item list" where
  "item_siblings d i = filter (\<lambda>x. ix_list x = ix_list i \<and> ix_parent x = ix_parent i) (dk_items d)"

definition save_item :: "list_item \<Rightarrow> desk \<Rightarrow> desk" where
  "save_item i d =
     d\<lparr>dk_items := row_save ix_pk
         (i\<lparr>ix_position := auto_position (map ix_position (item_siblings d i)) (ix_position i)\<rparr>) (dk_items d)\<rparr>"

definition place_item :: "list_item \<Rightarrow> nat \<Rightarrow> desk \<Rightarrow> desk" where
  "place_item i p d =
     save_item (i\<lparr>ix_position := p\<rparr>)
       (d\<lparr>dk_items := map (\<lambda>x. if ix_list x = ix_list i \<and> ix_parent x = ix_parent i
                             then x\<lparr>ix_position := shifted_position (ix_position i) p (ix_position x)\<rparr>
                             else x) (dk_items d)\<rparr>)"

definition reorder_item :: "member \<Rightarrow> pk \<Rightarrow> raw_value \<Rightarrow> desk \<Rightarrow> desk_answer" where
  "reorder_item m k raw d =
     (if \<not> write_allowed ''manage_settings'' False m then (d, Some Desk_forbidden)
      else case row_get ix_pk k (dk_items d) of
        None \<Rightarrow> (d, Some Desk_not_found)
      | Some i \<Rightarrow>
          if raw = Raw_null then (d, Some Desk_bad_request)
          else if raw = Raw_other then (d, Some Desk_server_error)
          else (case int_of_raw raw of
                  None \<Rightarrow> (d, Some Desk_bad_request)
                | Some p \<Rightarrow> if p < 0 then (d, Some Desk_bad_request) else (place_item i (nat p) d, None)))"

subsection \<open>Descendants and paths of list items\<close>

definition items_in_order :: "list_item list \<Rightarrow> list_item list" where
  "items_in_order xs = sort_key ix_position (sort_key ix_pk xs)"

definition item_children :: "list_item list \<Rightarrow> pk \<Rightarrow> list_item list" where
  "item_children items k = filter (\<lambda>x. ix_parent x = Some k) items"

text \<open>
  The work list of \<^verbatim>\<open>get_all_children\<close>.  Nothing stops it when the parents form a circle, so it is a
  partial function: None is the request that never answers.
\<close>

partial_function (option) descend :: "list_item list \<Rightarrow> list_item list \<Rightarrow> list_item list \<Rightarrow> list_item list option" where
  "descend items result queue =
     (case queue of
        [] \<Rightarrow> Some result
      | i # rest \<Rightarrow> descend items (result @ [i]) (rest @ item_children items (ix_pk i)))"

definition get_all_children :: "desk \<Rightarrow> list_item \<Rightarrow> list_item list option" where
  "get_all_children d i =
     (let items = items_in_order (filter (\<lambda>x. ix_list x = ix_list i) (dk_items d))
      in descend items [] (item_children items (ix_pk i)))"

partial_function (option) climb :: "list_item list \<Rightarrow> string list \<Rightarrow> pk option \<Rightarrow> string list option" where
  "climb items path cur =
     (case Option.bind cur (\<lambda>k. row_get ix_pk k items) of
        None \<Rightarrow> Some path
      | Some i \<Rightarrow> climb items (ix_label i # path) (ix_parent i))"

definition get_full_path :: "desk \<Rightarrow> list_item \<Rightarrow> string list option" where
  "get_full_path d i = climb (dk_items d) [ix_label i] (ix_parent i)"

subsection \<open>Forms\<close>

definition take_default_form :: "ticket_form \<Rightarrow> ticket_form list \<Rightarrow> ticket_form list" where
  "take_default_form f fs =
     (if fm_default f
      then map (\<lambda>x. if fm_default x \<and> fm_pk x \<noteq> fm_pk f then x\<lparr>fm_default := False\<rparr> else x) fs
      else fs)"

definition save_form :: "ticket_form \<Rightarrow> desk \<Rightarrow> desk" where
  "save_form f d = d\<lparr>dk_forms := row_save fm_pk f (take_default_form f (dk_forms d))\<rparr>"

definition insert_form :: "ticket_form \<Rightarrow> desk \<Rightarrow> desk" where
  "insert_form f d =
     (let f1 = f\<lparr>fm_pk := next_pk fm_pk (dk_forms d)\<rparr>
      in d\<lparr>dk_forms := row_create f1 (take_default_form f1 (dk_forms d))\<rparr>)"

definition create_form :: "member \<Rightarrow> string \<Rightarrow> bool \<Rightarrow> bool \<Rightarrow> desk \<Rightarrow> desk_answer" where
  "create_form m title is_default is_active d =
     (if \<not> write_allowed ''manage_settings'' False m then (d, Some Desk_forbidden)
      else (insert_form \<lparr>fm_pk = 0, fm_title = title, fm_default = is_default, fm_active = is_active\<rparr> d, None))"

definition update_form :: "member \<Rightarrow> pk \<Rightarrow> string option \<Rightarrow> bool option \<Rightarrow> bool option \<Rightarrow> desk \<Rightarrow> desk_answer" where
  "update_form m k title is_default is_active d =
     (if \<not> write_allowed ''manage_settings'' False m then (d, Some Desk_forbidden)
      else case row_get fm_pk k (dk_forms d) of
        None \<Rightarrow> (d, Some Desk_not_found)
      | Some f \<Rightarrow>
          (save_form (f\<lparr>fm_title := or_given title (fm_title f), fm_default := or_given is_default (fm_default f),
                        fm_active := or_given is_active (fm_active f)\<rparr>) d, None))"

definition set_default_form :: "member \<Rightarrow> pk \<Rightarrow> desk \<Rightarrow> desk_answer" where
  "set_default_form m k d =
     (if \<not> write_allowed ''manage_settings'' False m then (d, Some Desk_forbidden)
      else case row_get fm_pk k (dk_forms d) of
        None \<Rightarrow> (d, Some Desk_not_found)
      | Some f \<Rightarrow> (save_form (f\<lparr>fm_default := True\<rparr>) d, None))"

definition forms_in_order :: "ticket_form list \<Rightarrow> ticket_form list" where
  "forms_in_order fs = sort_key fm_title (rev fs)"

definition default_form :: "desk \<Rightarrow> ticket_form option" where
  "default_form d =
     (case find (\<lambda>f. fm_default f \<and> fm_active f) (forms_in_order (dk_forms d)) of
        Some f \<Rightarrow> Some f
      | None \<Rightarrow> find fm_active (forms_in_order (dk_forms d)))"

subsection \<open>Summaries of time logs\<close>

definition clamp_days :: "raw_value \<Rightarrow> int option" where
  "clamp_days raw =
     map_option (\<lambda>n. max 1 (min n 365))
       (if raw = Raw_null \<or> raw = Raw_text [] then Some 30 else int_of_raw raw)"

definition ticket_logs :: "desk \<Rightarrow> pk \<Rightarrow> time_log list" where
  "ticket_logs d k = filter (\<lambda>l. tl_ticket l = k) (dk_logs d)"

definition logged_seconds :: "time_log list \<Rightarrow> int" where
  "logged_seconds ls = (\<Sum>l\<leftarrow>ls. or_given (tl_duration l) 0)"

record column_time =
  ct_column :: pk
  ct_seconds :: int
  ct_sessions :: nat

definition time_by_column :: "time_log list \<Rightarrow> column_time list" where
  "time_by_column ls =
     (let done_logs = filter (\<lambda>l. tl_duration l \<noteq> None) ls
      in sort_key (\<lambda>r. - ct_seconds r) (map (\<lambda>c.
           \<lparr>ct_column = c, ct_seconds = logged_seconds (filter (\<lambda>l. tl_column l = c) done_logs),
            ct_sessions = length (filter (\<lambda>l. tl_column l = c) done_logs)\<rparr>)
           (sorted_list_of_set (tl_column ` set done_logs))))"

record time_summary =
  tz_total :: int
  tz_active :: "(pk \<times> pk \<times> int) option" \<comment> \<open>log, column, elapsed seconds\<close>
  tz_columns :: "column_time list"

definition ticket_summary :: "member \<Rightarrow> pk \<Rightarrow> desk \<Rightarrow> desk_refusal + time_summary" where
  "ticket_summary m k d =
     (if find_ticket m d k = None then Inl Desk_not_found
      else
        let ls = ticket_logs d k
        in Inr \<lparr>tz_total = logged_seconds (filter (\<lambda>l. tl_duration l \<noteq> None) ls),
                tz_active = map_option (\<lambda>l. (tl_pk l, tl_column l, max 0 (whole_seconds (dk_clock d - tl_entered l))))
                  (find (\<lambda>l. tl_exited l = None) (sort_key (\<lambda>l. - tl_entered l) ls)),
                tz_columns = time_by_column ls\<rparr>)"

end
