(* ===== verification/Ticket_Order.thy ===== *)
theory Ticket_Order
  imports Ticket_Parts
begin

text \<open>
  The order of tickets in their columns and of columns on their boards.  \<open>lanes_of\<close> abstracts a desk
  to the lists of cards the columns show; \<open>move_card\<close> is moving a card between such lists.  The
  theory proves that moving a ticket implements it and leaves both columns numbered from 0 without
  gaps, and that reordering a column permutes its own board only.
\<close>

subsection \<open>Numbered lists\<close>

text \<open>
  Rows sorted by a position that is the index of their key in \<open>ids\<close> are in the order of \<open>ids\<close>.
\<close>

lemma numbered_order:
  fixes pos :: "'r \<Rightarrow> nat" and key :: "'r \<Rightarrow> 'k"
  assumes "sorted (map pos rows)" and "distinct (map key rows)" and "distinct ids"
    and keys: "key ` set rows = set ids"
    and index: "\<And>r. r \<in> set rows \<Longrightarrow> pos r < length ids \<and> ids ! pos r = key r"
  shows "map key rows = ids" and "map pos rows = [0..<length ids]"
proof -
  have "length rows = card (key ` set rows)"
    using assms(2) by (metis distinct_card length_map set_map)
  then have len: "length rows = length ids" by (simp add: keys assms(3) distinct_card)
  have "inj_on pos (set rows)"
  proof (rule inj_onI)
    fix x y assume xy: "x \<in> set rows" "y \<in> set rows" "pos x = pos y"
    then have "key x = key y" using index [of x] index [of y] by metis
    with xy assms(2) show "x = y" by (auto simp: distinct_map inj_on_def)
  qed
  moreover have "distinct rows" using assms(2) by (simp add: distinct_map)
  ultimately have dist: "distinct (map pos rows)" by (simp add: distinct_map)
  have "set (map pos rows) \<subseteq> {0..<length ids}" using index by auto
  moreover have "card (set (map pos rows)) = length ids" using distinct_card [OF dist] len by simp
  ultimately have "set (map pos rows) = {0..<length ids}"
    by (metis card_atLeastLessThan card_subset_eq diff_zero finite_atLeastLessThan)
  then show pos: "map pos rows = [0..<length ids]"
    by (intro sorted_distinct_set_unique) (use assms(1) dist in simp_all)
  have "map key rows = map ((!) ids) (map pos rows)" using index by simp
  then show "map key rows = ids" by (simp add: pos map_nth)
qed

lemma index_of_Some:
  assumes "distinct ids"
  shows "map_of (zip ids [0..<length ids]) k = Some i \<longleftrightarrow> i < length ids \<and> ids ! i = k"
proof
  assume "map_of (zip ids [0..<length ids]) k = Some i"
  then have "(k, i) \<in> set (zip ids [0..<length ids])" by (rule map_of_SomeD)
  then show "i < length ids \<and> ids ! i = k" by (auto simp: in_set_zip)
next
  assume i: "i < length ids \<and> ids ! i = k"
  then show "map_of (zip ids [0..<length ids]) k = Some i"
    using map_of_zip_nth [of ids "[0..<length ids]" i] assms by simp
qed

lemma index_of_None: "map_of (zip ids [0..<length ids]) k = None \<longleftrightarrow> k \<notin> set ids"
  by (simp add: map_of_zip_is_None)

lemma set_insert_at [simp]: "set (insert_at i x xs) = insert x (set xs)"
  unfolding insert_at_def by (metis append_take_drop_id insert_is_Un list.set(2) set_append sup_left_commute)

lemma length_insert_at [simp]: "length (insert_at i x xs) = Suc (length xs)"
  by (simp add: insert_at_def)

lemma distinct_insert_at [simp]: "distinct (insert_at i x xs) \<longleftrightarrow> x \<notin> set xs \<and> distinct xs"
proof -
  have "distinct (a @ x # b) \<longleftrightarrow> x \<notin> set (a @ b) \<and> distinct (a @ b)" for a b by auto
  from this [of "take i xs" "drop i xs"] show ?thesis
    by (simp only: insert_at_def append_take_drop_id)
qed

lemma insert_at_nth: "i \<le> length xs \<Longrightarrow> insert_at i x xs ! i = x"
  by (simp add: insert_at_def nth_append)

lemma clamped_index_le [simp]: "clamped_index p n \<le> n"
  by (auto simp: clamped_index_def split: option.splits)

lemma clamped_index_in_range: "0 \<le> i \<Longrightarrow> i \<le> int n \<Longrightarrow> clamped_index (Some i) n = nat i"
  by (simp add: clamped_index_def)

subsection \<open>Lanes\<close>

type_synonym lanes = "pk \<Rightarrow> pk list"

definition lanes_of :: "desk \<Rightarrow> lanes" where
  "lanes_of d = (\<lambda>c. locked_column_order d c)"

definition remove_card :: "pk \<Rightarrow> lanes \<Rightarrow> lanes" where
  "remove_card k ls = (\<lambda>c. removeAll k (ls c))"

definition put_card :: "pk \<Rightarrow> pk \<Rightarrow> nat \<Rightarrow> lanes \<Rightarrow> lanes" where
  "put_card k c i ls = ls(c := insert_at i k (ls c))"

definition move_card :: "pk \<Rightarrow> pk \<Rightarrow> int option \<Rightarrow> lanes \<Rightarrow> lanes" where
  "move_card k c p ls =
     (let r = remove_card k ls in put_card k c (clamped_index p (length (r c))) r)"

text \<open>A column numbered from 0 without gaps.\<close>

definition dense_column :: "desk \<Rightarrow> pk \<Rightarrow> bool" where
  "dense_column d c \<longleftrightarrow> map tk_position (column_tickets d c) = [0..<length (column_tickets d c)]"

lemma set_column_tickets: "set (column_tickets d c) = {t \<in> set (dk_tickets d). tk_column t = Some c}"
  by (auto simp: column_tickets_def)

lemma distinct_column_tickets:
  assumes "distinct (map tk_pk (dk_tickets d))"
  shows "distinct (map tk_pk (column_tickets d c))"
proof -
  have "distinct (map tk_pk (filter (\<lambda>t. tk_column t = Some c) (dk_tickets d)))"
    using assms by (simp add: distinct_map_filter)
  then have "distinct (filter (\<lambda>t. tk_column t = Some c) (dk_tickets d))"
    and "inj_on tk_pk (set (column_tickets d c))"
    by (auto simp: distinct_map set_column_tickets inj_on_def)
  then show ?thesis by (simp add: distinct_map column_tickets_def)
qed

lemma sorted_column_tickets: "sorted (map tk_position (column_tickets d c))"
  by (simp add: column_tickets_def)

lemma set_locked: "k \<in> set (locked_column_order d c) \<longleftrightarrow> (\<exists>t\<in>set (dk_tickets d). tk_column t = Some c \<and> tk_pk t = k)"
  by (auto simp: locked_column_order_def set_column_tickets)

lemma distinct_locked:
  "distinct (map tk_pk (dk_tickets d)) \<Longrightarrow> distinct (locked_column_order d c)"
  by (simp add: locked_column_order_def distinct_column_tickets)

text \<open>A column whose tickets carry their index in \<open>ids\<close> shows \<open>ids\<close>.\<close>

lemma column_shows:
  assumes "distinct (map tk_pk (dk_tickets d))" and "distinct ids"
    and "tk_pk ` set (column_tickets d c) = set ids"
    and "\<And>t. t \<in> set (column_tickets d c) \<Longrightarrow> tk_position t < length ids \<and> ids ! tk_position t = tk_pk t"
  shows "locked_column_order d c = ids" and "dense_column d c"
proof -
  note n = numbered_order [OF sorted_column_tickets distinct_column_tickets [OF assms(1)] assms(2-4)]
  show "locked_column_order d c = ids" using n(1) by (simp add: locked_column_order_def)
  then have "length (column_tickets d c) = length ids" by (metis length_map locked_column_order_def)
  then show "dense_column d c" using n(2) by (simp add: dense_column_def)
qed

subsection \<open>The tickets after a move\<close>

text \<open>What a move does to each row.\<close>

definition indexed :: "pk list \<Rightarrow> ticket \<Rightarrow> ticket" where
  "indexed ids t =
     (case map_of (zip ids [0..<length ids]) (tk_pk t) of Some i \<Rightarrow> t\<lparr>tk_position := i\<rparr> | None \<Rightarrow> t)"

lemma indexed_simps [simp]:
  "tk_pk (indexed ids t) = tk_pk t" "tk_column (indexed ids t) = tk_column t"
  by (simp_all add: indexed_def split: option.splits)

lemma indexed_notin: "tk_pk t \<notin> set ids \<Longrightarrow> indexed ids t = t"
  using index_of_None [of ids "tk_pk t"] by (metis (no_types, lifting) indexed_def option.simps(4))

lemma indexed_in:
  assumes "distinct ids" and "tk_pk t \<in> set ids"
  shows "tk_position (indexed ids t) < length ids \<and> ids ! tk_position (indexed ids t) = tk_pk t"
  using assms index_of_None [of ids "tk_pk t"] index_of_Some [OF assms(1), of "tk_pk t"]
  by (auto simp: indexed_def split: option.splits)

lemma renumber_tickets:
  "dk_tickets (renumber_column ids skip d) =
     map (\<lambda>t. if skip = Some (tk_pk t) then t else indexed ids t) (dk_tickets d)"
  by (simp add: renumber_column_def indexed_def)

lemma close_log_frame [simp]:
  "dk_tickets (close_active_time_log k c d) = dk_tickets d" "dk_columns (close_active_time_log k c d) = dk_columns d"
  "dk_boards (close_active_time_log k c d) = dk_boards d" "dk_history (close_active_time_log k c d) = dk_history d"
  "dk_assignments (close_active_time_log k c d) = dk_assignments d" "dk_payments (close_active_time_log k c d) = dk_payments d"
  "dk_clock (close_active_time_log k c d) = dk_clock d" "dk_forms (close_active_time_log k c d) = dk_forms d"
  by (simp_all add: close_active_time_log_def split: option.splits)

lemma open_log_frame [simp]:
  "dk_tickets (open_time_log k c u d) = dk_tickets d" "dk_columns (open_time_log k c u d) = dk_columns d"
  "dk_boards (open_time_log k c u d) = dk_boards d" "dk_history (open_time_log k c u d) = dk_history d"
  "dk_assignments (open_time_log k c u d) = dk_assignments d" "dk_payments (open_time_log k c u d) = dk_payments d"
  "dk_clock (open_time_log k c u d) = dk_clock d" "dk_forms (open_time_log k c u d) = dk_forms d"
  by (simp_all add: open_time_log_def split: option.splits)

lemma saved_form_simps [simp]:
  "tk_pk (saved_form d t) = tk_pk t" "tk_position (saved_form d t) = tk_position t"
  "tk_column t = Some c \<Longrightarrow> tk_column (saved_form d t) = Some c"
  by (simp_all add: saved_form_def with_paid_flag_def with_column_def split: option.splits)

lemma stored_ticket_simps [simp]:
  "tk_pk (stored_ticket t) = tk_pk t" "tk_position (stored_ticket t) = tk_position t"
  "tk_column (stored_ticket t) = tk_column t" "tk_is_paid (stored_ticket t) = tk_is_paid t"
  by (simp_all add: stored_ticket_def)

lemma column_tickets_cong: "dk_tickets d = dk_tickets e \<Longrightarrow> column_tickets d c = column_tickets e c"
  by (simp add: column_tickets_def)

lemma map_row_map: "(\<And>x. key (f x) = key x) \<Longrightarrow>
  row_save key r (map f t) = map (\<lambda>x. if key x = key r then r else f x) t"
  by (simp add: row_save_def)

definition moved_row :: "ticket \<Rightarrow> pk list \<Rightarrow> pk list \<Rightarrow> ticket \<Rightarrow> ticket \<Rightarrow> ticket" where
  "moved_row t source target new x =
     (if tk_pk x = tk_pk t then new else indexed target (indexed source x))"

lemma find_ticket_row:
  assumes "distinct (map tk_pk (dk_tickets d))" and "find_ticket m d k = Some t"
  shows "ticket_of d k = Some t" "t \<in> set (dk_tickets d)" "tk_pk t = k"
proof -
  have "t \<in> set (visible_tickets m d)" "tk_pk t = k"
    using assms(2) by (auto simp: find_ticket_def dest: row_get_Some)
  then show t: "t \<in> set (dk_tickets d)" "tk_pk t = k" by (auto simp: visible_tickets_def split: if_splits)
  then show "ticket_of d k = Some t"
    using row_get_unique [OF assms(1) t(1)] by (simp add: ticket_of_def)
qed

lemma save_ticket_rows:
  fixes ts :: "ticket list"
  assumes "dk_tickets d = map f ts" and "\<And>x. tk_pk (f x) = tk_pk x" and "tk_pk t \<in> tk_pk ` set ts"
    and "tk_column t = Some c"
  shows "dk_tickets (save_ticket uid t d) =
    map (\<lambda>x. if tk_pk x = tk_pk t then stored_ticket (with_paid_flag t) else f x) ts"
proof -
  have "ticket_of d (tk_pk t) \<noteq> None"
    using assms(1-3) by (auto simp: ticket_of_def row_get_None image_iff)
  then obtain old where "ticket_of d (tk_pk t) = Some old" by blast
  moreover have "saved_form d t = with_paid_flag t" using assms(4) by (simp add: saved_form_def with_column_def)
  moreover have "tk_pk (with_paid_flag t) = tk_pk t" by (simp add: with_paid_flag_def split: option.splits)
  ultimately show ?thesis
    by (simp add: save_ticket_def Let_def assms(1) map_row_map [of tk_pk f, OF assms(2)])
qed

definition lane_source :: "ticket \<Rightarrow> pk \<Rightarrow> desk \<Rightarrow> pk list" where
  "lane_source t c d =
     (case tk_column t of
        None \<Rightarrow> []
      | Some old \<Rightarrow> if old \<noteq> c then filter (\<lambda>i. i \<noteq> tk_pk t) (locked_column_order d old) else [])"

definition lane_index :: "ticket \<Rightarrow> pk \<Rightarrow> int option \<Rightarrow> desk \<Rightarrow> nat" where
  "lane_index t c p d = clamped_index p (length (filter (\<lambda>i. i \<noteq> tk_pk t) (locked_column_order d c)))"

definition lane_target :: "ticket \<Rightarrow> pk \<Rightarrow> int option \<Rightarrow> desk \<Rightarrow> pk list" where
  "lane_target t c p d =
     insert_at (lane_index t c p d) (tk_pk t) (filter (\<lambda>i. i \<noteq> tk_pk t) (locked_column_order d c))"

definition landed :: "ticket \<Rightarrow> pk \<Rightarrow> int option \<Rightarrow> desk \<Rightarrow> ticket" where
  "landed t c p d = stored_ticket (with_paid_flag (t\<lparr>tk_column := Some c, tk_position := lane_index t c p d\<rparr>))"

lemma landed_simps [simp]:
  "tk_pk (landed t c p d) = tk_pk t" "tk_column (landed t c p d) = Some c"
  "tk_position (landed t c p d) = lane_index t c p d"
  by (simp_all add: landed_def with_paid_flag_def split: option.splits)

lemma move_ticket_rows:
  assumes "tk_pk t \<in> tk_pk ` set (dk_tickets d)"
  shows "dk_tickets (move_ticket m t c p d) =
    map (moved_row t (lane_source t c d) (lane_target t c p d) (landed t c p d)) (dk_tickets d)"
proof -
  let ?d1 = "close_active_time_log (tk_pk t) (tk_column t) d"
  let ?d2 = "case tk_column t of None \<Rightarrow> ?d1 | Some old \<Rightarrow>
    if old \<noteq> c then renumber_column (filter (\<lambda>i. i \<noteq> tk_pk t) (locked_column_order d old)) None ?d1 else ?d1"
  let ?d3 = "renumber_column (lane_target t c p d) (Some (tk_pk t)) ?d2"
  have empty: "indexed [] = id" by (auto simp: indexed_def)
  have d2: "dk_tickets ?d2 = map (indexed (lane_source t c d)) (dk_tickets d)"
    by (auto simp: lane_source_def renumber_tickets empty split: option.splits)
  have d3: "dk_tickets ?d3 = map (\<lambda>x. if tk_pk x = tk_pk t then indexed (lane_source t c d) x
      else indexed (lane_target t c p d) (indexed (lane_source t c d) x)) (dk_tickets d)"
    by (simp add: renumber_tickets d2 eq_commute [of "tk_pk t"])
  have "dk_tickets (move_ticket m t c p d) = dk_tickets (save_ticket (Some (mb_pk m))
      (t\<lparr>tk_column := Some c, tk_position := lane_index t c p d\<rparr>) ?d3)"
    by (simp add: move_ticket_def Let_def lane_target_def lane_index_def)
  also have "\<dots> = map (moved_row t (lane_source t c d) (lane_target t c p d) (landed t c p d)) (dk_tickets d)"
    using assms by (subst save_ticket_rows [OF d3]) (auto simp: moved_row_def landed_def)
  finally show ?thesis .
qed

lemma filter_map_same:
  assumes "\<And>x. x \<in> set xs \<Longrightarrow> P (f x) = P x" and "\<And>x. x \<in> set xs \<Longrightarrow> P x \<Longrightarrow> f x = x"
  shows "filter P (map f xs) = filter P xs"
  using assms by (induction xs) auto

lemma same_ticket:
  assumes "distinct (map tk_pk (dk_tickets d))" and "x \<in> set (dk_tickets d)" and "y \<in> set (dk_tickets d)"
    and "tk_pk x = tk_pk y"
  shows "x = y"
  using assms by (auto simp: distinct_map inj_on_def)

lemma in_locked_iff:
  assumes "distinct (map tk_pk (dk_tickets d))" and "x \<in> set (dk_tickets d)"
  shows "tk_pk x \<in> set (locked_column_order d c) \<longleftrightarrow> tk_column x = Some c"
  using assms same_ticket [OF assms(1)] by (auto simp: set_locked)

lemma in_target_iff:
  assumes "distinct (map tk_pk (dk_tickets d))" and "x \<in> set (dk_tickets d)"
  shows "tk_pk x \<in> set (lane_target t c p d) \<longleftrightarrow> tk_pk x = tk_pk t \<or> tk_column x = Some c"
  by (auto simp: lane_target_def in_locked_iff [OF assms])

lemma in_source_iff:
  assumes "distinct (map tk_pk (dk_tickets d))" and "x \<in> set (dk_tickets d)"
  shows "tk_pk x \<in> set (lane_source t c d) \<longleftrightarrow>
    tk_pk x \<noteq> tk_pk t \<and> tk_column t \<noteq> Some c \<and> tk_column t \<noteq> None \<and> tk_column x = tk_column t"
  by (cases "tk_column t") (auto simp: lane_source_def in_locked_iff [OF assms])

lemma distinct_lanes:
  assumes "distinct (map tk_pk (dk_tickets d))"
  shows "distinct (lane_target t c p d)" "distinct (lane_source t c d)"
  using distinct_locked [OF assms] by (auto simp: lane_target_def lane_source_def split: option.splits)

lemma moved_row_simps [simp]:
  "tk_pk (moved_row t S G (landed t c p d) x) = tk_pk x"
  "tk_column (moved_row t S G (landed t c p d) x) = (if tk_pk x = tk_pk t then Some c else tk_column x)"
  by (simp_all add: moved_row_def)

text \<open>The three kinds of column after a move: the target, the one left, and all others.\<close>

definition moving :: "desk \<Rightarrow> ticket \<Rightarrow> pk \<Rightarrow> int option \<Rightarrow> desk \<Rightarrow> bool" where
  "moving d t c p d' \<longleftrightarrow>
     distinct (map tk_pk (dk_tickets d)) \<and> t \<in> set (dk_tickets d)
   \<and> dk_tickets d' =
       map (moved_row t (lane_source t c d) (lane_target t c p d) (landed t c p d)) (dk_tickets d)"

lemma movingD:
  assumes "moving d t c p d'"
  shows "distinct (map tk_pk (dk_tickets d))" "t \<in> set (dk_tickets d)"
    "dk_tickets d' = map (moved_row t (lane_source t c d) (lane_target t c p d) (landed t c p d)) (dk_tickets d)"
    "distinct (map tk_pk (dk_tickets d'))"
  using assms by (simp_all add: moving_def comp_def)

lemma column_set:
  assumes "moving d t c p d'"
  shows "set (column_tickets d' e) = moved_row t (lane_source t c d) (lane_target t c p d) (landed t c p d) `
     {x \<in> set (dk_tickets d). (if tk_pk x = tk_pk t then Some c else tk_column x) = Some e}"
  by (auto simp: set_column_tickets movingD(3) [OF assms])

lemma target_column:
  assumes mv: "moving d t c p d'"
  shows "locked_column_order d' c = lane_target t c p d" "dense_column d' c"
proof -
  note keys = movingD(1) [OF mv] and row = movingD(2) [OF mv] and rows = movingD(3) [OF mv]
    and keys' = movingD(4) [OF mv] and column_set = column_set [OF mv]
  have k: "tk_pk ` set (column_tickets d' c) = set (lane_target t c p d)"
  proof -
    have "tk_pk ` set (column_tickets d' c) =
        {tk_pk x | x. x \<in> set (dk_tickets d) \<and> (tk_pk x = tk_pk t \<or> tk_column x = Some c)}"
      by (force simp: column_set image_def)
    also have "\<dots> = set (lane_target t c p d)"
      using row by (auto simp: lane_target_def set_locked)
    finally show ?thesis .
  qed
  have i: "tk_position r < length (lane_target t c p d) \<and> lane_target t c p d ! tk_position r = tk_pk r"
    if r: "r \<in> set (column_tickets d' c)" for r
  proof -
    obtain x where x: "x \<in> set (dk_tickets d)" "tk_pk x = tk_pk t \<or> tk_column x = Some c"
      and rx: "r = moved_row t (lane_source t c d) (lane_target t c p d) (landed t c p d) x"
      using r by (auto simp: column_set split: if_splits)
    show ?thesis
    proof (cases "tk_pk x = tk_pk t")
      case True
      have "lane_index t c p d \<le> length (filter (\<lambda>i. i \<noteq> tk_pk t) (locked_column_order d c))"
        by (simp add: lane_index_def)
      then show ?thesis using True by (simp add: rx moved_row_def lane_target_def insert_at_nth)
    next
      case False
      then show ?thesis
        using x in_target_iff [OF keys x(1)] distinct_lanes [OF keys]
        by (simp add: rx moved_row_def indexed_in)
    qed
  qed
  show "locked_column_order d' c = lane_target t c p d" "dense_column d' c"
    by (rule column_shows [OF keys' distinct_lanes(1) [OF keys] k], erule i)+
qed

lemma source_column:
  assumes mv: "moving d t c p d'" and old: "tk_column t = Some e" "e \<noteq> c"
  shows "locked_column_order d' e = lane_source t c d" "dense_column d' e"
proof -
  note keys = movingD(1) [OF mv] and row = movingD(2) [OF mv] and rows = movingD(3) [OF mv]
    and keys' = movingD(4) [OF mv] and column_set = column_set [OF mv]
  have k: "tk_pk ` set (column_tickets d' e) = set (lane_source t c d)"
  proof -
    have "tk_pk ` set (column_tickets d' e) =
        {tk_pk x | x. x \<in> set (dk_tickets d) \<and> tk_pk x \<noteq> tk_pk t \<and> tk_column x = Some e}"
      using old by (auto simp: column_set image_def split: if_splits)
    also have "\<dots> = set (lane_source t c d)"
      using old by (auto simp: lane_source_def set_locked)
    finally show ?thesis .
  qed
  have i: "tk_position r < length (lane_source t c d) \<and> lane_source t c d ! tk_position r = tk_pk r"
    if r: "r \<in> set (column_tickets d' e)" for r
  proof -
    obtain x where x: "x \<in> set (dk_tickets d)" "tk_pk x \<noteq> tk_pk t" "tk_column x = Some e"
      and rx: "r = moved_row t (lane_source t c d) (lane_target t c p d) (landed t c p d) x"
      using r old by (auto simp: column_set split: if_splits)
    have "tk_pk x \<notin> set (lane_target t c p d)" using in_target_iff [OF keys x(1)] x old by auto
    then have "r = indexed (lane_source t c d) x" using x by (simp add: rx moved_row_def indexed_notin)
    then show ?thesis
      using in_source_iff [OF keys x(1)] x old distinct_lanes(2) [OF keys] by (simp add: indexed_in)
  qed
  show "locked_column_order d' e = lane_source t c d" "dense_column d' e"
    by (rule column_shows [OF keys' distinct_lanes(2) [OF keys] k], erule i)+
qed

lemma other_column:
  assumes mv: "moving d t c p d'" and away: "tk_column t \<noteq> Some e" "e \<noteq> c"
  shows "column_tickets d' e = column_tickets d e"
proof -
  note keys = movingD(1) [OF mv] and row = movingD(2) [OF mv] and rows = movingD(3) [OF mv]
    and keys' = movingD(4) [OF mv] and column_set = column_set [OF mv]
  have "filter (\<lambda>x. tk_column x = Some e) (dk_tickets d') = filter (\<lambda>x. tk_column x = Some e) (dk_tickets d)"
    unfolding rows
  proof (rule filter_map_same)
    fix x assume x: "x \<in> set (dk_tickets d)"
    have t: "x = t" if "tk_pk x = tk_pk t" using same_ticket [OF keys x row that] .
    show "(tk_column (moved_row t (lane_source t c d) (lane_target t c p d) (landed t c p d) x) = Some e)
        = (tk_column x = Some e)"
      using t away by auto
    assume e: "tk_column x = Some e"
    then have "tk_pk x \<noteq> tk_pk t" using t away by auto
    moreover have "tk_pk x \<notin> set (lane_source t c d)" "tk_pk x \<notin> set (lane_target t c p d)"
      using in_source_iff [OF keys x] in_target_iff [OF keys x] e calculation away by auto
    ultimately show "moved_row t (lane_source t c d) (lane_target t c p d) (landed t c p d) x = x"
      by (simp add: moved_row_def indexed_notin)
  qed
  then show ?thesis by (simp add: column_tickets_def)
qed

lemma removed_elsewhere:
  assumes "moving d t c p d'" and "tk_column t \<noteq> Some e"
  shows "removeAll (tk_pk t) (locked_column_order d e) = locked_column_order d e"
  using in_locked_iff [OF movingD(1,2) [OF assms(1)], of e] assms(2) by (simp add: removeAll_id)

lemma filter_removeAll: "filter (\<lambda>i. i \<noteq> k) xs = removeAll k xs"
  by (induction xs) auto

lemma lanes_moved:
  assumes mv: "moving d t c p d'"
  shows "lanes_of d' = move_card (tk_pk t) c p (lanes_of d)"
proof
  fix e
  consider "e = c" | "e \<noteq> c" "tk_column t = Some e" | "e \<noteq> c" "tk_column t \<noteq> Some e" by blast
  then show "lanes_of d' e = move_card (tk_pk t) c p (lanes_of d) e"
  proof cases
    case 1
    then show ?thesis
      by (simp add: lanes_of_def move_card_def put_card_def remove_card_def target_column [OF mv] lane_target_def
          lane_index_def filter_removeAll)
  next
    case 2
    then show ?thesis
      by (simp add: lanes_of_def move_card_def put_card_def remove_card_def source_column [OF mv] lane_source_def
          filter_removeAll)
  next
    case 3
    then show ?thesis
      by (simp add: lanes_of_def move_card_def put_card_def remove_card_def locked_column_order_def other_column [OF mv]
          removed_elsewhere [OF mv, unfolded locked_column_order_def])
  qed
qed

lemma move_ticket_moving:
  assumes "distinct (map tk_pk (dk_tickets d))" and "t \<in> set (dk_tickets d)"
  shows "moving d t c p (move_ticket m t c p d)"
  using assms move_ticket_rows [of t d m c p] by (simp add: moving_def)

text \<open>Reordering inside a column is the same change of rows with the column itself as target.\<close>

lemma reorder_ticket_moving:
  assumes keys: "distinct (map tk_pk (dk_tickets d))" and row: "t \<in> set (dk_tickets d)" and c: "tk_column t = Some c"
  shows "moving d t c (Some p) (reorder_ticket m t c p d)"
proof -
  let ?ids = "lane_target t c (Some p) d"
  have d3: "dk_tickets (renumber_column ?ids (Some (tk_pk t)) d) =
      map (\<lambda>x. if tk_pk x = tk_pk t then x else indexed ?ids x) (dk_tickets d)"
    by (simp add: renumber_tickets eq_commute [of "tk_pk t"])
  have same: "t\<lparr>tk_column := Some c, tk_position := i\<rparr> = t\<lparr>tk_position := i\<rparr>" for i
    using c by (cases t) simp
  have empty: "indexed (lane_source t c d) = id" using c by (auto simp: lane_source_def indexed_def)
  have "dk_tickets (reorder_ticket m t c p d) = dk_tickets (save_ticket (Some (mb_pk m))
      (t\<lparr>tk_position := lane_index t c (Some p) d\<rparr>) (renumber_column ?ids (Some (tk_pk t)) d))"
    by (simp add: reorder_ticket_def Let_def lane_target_def lane_index_def)
  also have "\<dots> = map (moved_row t (lane_source t c d) ?ids (landed t c (Some p) d)) (dk_tickets d)"
    using row c by (subst save_ticket_rows [OF d3]) (auto simp: moved_row_def landed_def same empty)
  finally show ?thesis using keys row by (simp add: moving_def)
qed

subsection \<open>Columns of a board\<close>

lemma set_columns_in_order [simp]: "set (columns_in_order cs) = set cs"
  by (simp add: columns_in_order_def)

lemma set_board_columns: "set (board_columns d b) = {c \<in> set (dk_columns d). kc_board c = b}"
  by (auto simp: board_columns_def)

lemma distinct_board_columns:
  assumes "distinct (map kc_pk (dk_columns d))"
  shows "distinct (map kc_pk (board_columns d b))"
proof -
  have "distinct (filter (\<lambda>c. kc_board c = b) (dk_columns d))" and "inj_on kc_pk (set (board_columns d b))"
    using assms by (auto simp: distinct_map set_board_columns inj_on_def)
  then show ?thesis by (simp add: distinct_map board_columns_def columns_in_order_def)
qed

lemma sorted_board_columns: "sorted (map kc_position (board_columns d b))"
  by (simp add: board_columns_def columns_in_order_def)

definition indexed_column :: "pk list \<Rightarrow> ticket_column \<Rightarrow> ticket_column" where
  "indexed_column ids c =
     (case map_of (zip ids [0..<length ids]) (kc_pk c) of Some i \<Rightarrow> c\<lparr>kc_position := i\<rparr> | None \<Rightarrow> c)"

lemma indexed_column_simps [simp]:
  "kc_pk (indexed_column ids c) = kc_pk c" "kc_board (indexed_column ids c) = kc_board c"
  "kc_track (indexed_column ids c) = kc_track c" "kc_default (indexed_column ids c) = kc_default c"
  "kc_name (indexed_column ids c) = kc_name c" "kc_closed (indexed_column ids c) = kc_closed c"
  by (simp_all add: indexed_column_def split: option.splits)

lemma indexed_column_notin: "kc_pk c \<notin> set ids \<Longrightarrow> indexed_column ids c = c"
  using index_of_None [of ids "kc_pk c"] by (metis (no_types, lifting) indexed_column_def option.simps(4))

lemma indexed_column_in:
  assumes "distinct ids" and "kc_pk c \<in> set ids"
  shows "kc_position (indexed_column ids c) < length ids \<and> ids ! kc_position (indexed_column ids c) = kc_pk c"
  using assms index_of_None [of ids "kc_pk c"] index_of_Some [OF assms(1), of "kc_pk c"]
  by (auto simp: indexed_column_def split: option.splits)

lemma renumber_columns_rows: "dk_columns (renumber_columns ids d) = map (indexed_column ids) (dk_columns d)"
  by (simp add: renumber_columns_def indexed_column_def)

definition board_target :: "ticket_column \<Rightarrow> nat \<Rightarrow> desk \<Rightarrow> pk list" where
  "board_target c p d =
     (let ids = remove1 (kc_pk c) (map kc_pk (board_columns d (kc_board c)))
      in insert_at (min p (length ids)) (kc_pk c) ids)"

lemma place_column_rows:
  "dk_columns (place_column c p d) = map (indexed_column (board_target c p d)) (dk_columns d)"
  by (simp add: place_column_def board_target_def Let_def renumber_columns_rows)

lemma board_target_set:
  assumes keys: "distinct (map kc_pk (dk_columns d))" and row: "c \<in> set (dk_columns d)"
  shows "set (board_target c p d) = kc_pk ` set (board_columns d (kc_board c))" "distinct (board_target c p d)"
  using distinct_board_columns [OF keys, of "kc_board c"] row
  by (auto simp: board_target_def Let_def set_board_columns)

lemma place_column_own:
  assumes keys: "distinct (map kc_pk (dk_columns d))" and row: "c \<in> set (dk_columns d)"
  shows "map kc_pk (board_columns (place_column c p d) (kc_board c)) = board_target c p d"
    and "map kc_position (board_columns (place_column c p d) (kc_board c)) = [0..<length (board_target c p d)]"
proof -
  let ?ids = "board_target c p d" and ?rows = "board_columns (place_column c p d) (kc_board c)"
  note ids = board_target_set [OF keys row, of p]
  have s: "set ?rows = indexed_column ?ids ` set (board_columns d (kc_board c))"
    by (auto simp: set_board_columns place_column_rows)
  have keys': "distinct (map kc_pk (dk_columns (place_column c p d)))"
    using keys by (simp add: place_column_rows comp_def)
  have k: "kc_pk ` set ?rows = set ?ids" unfolding s by (simp add: image_image ids)
  have i: "kc_position r < length ?ids \<and> ?ids ! kc_position r = kc_pk r" if "r \<in> set ?rows" for r
  proof -
    from that have "r \<in> indexed_column ?ids ` set (board_columns d (kc_board c))" by (simp only: s)
    then obtain x where x: "r = indexed_column ?ids x" "x \<in> set (board_columns d (kc_board c))"
      by (rule imageE)
    from x(2) have "kc_pk x \<in> set ?ids" by (simp only: ids imageI)
    from indexed_column_in [OF ids(2) this] show ?thesis unfolding x(1) indexed_column_simps .
  qed
  show "map kc_pk ?rows = ?ids" "map kc_position ?rows = [0..<length ?ids]"
    by (rule numbered_order [OF sorted_board_columns distinct_board_columns [OF keys'] ids(2) k], erule i)+
qed

lemma place_column_other:
  assumes keys: "distinct (map kc_pk (dk_columns d))" and row: "c \<in> set (dk_columns d)" and b: "b \<noteq> kc_board c"
  shows "board_columns (place_column c p d) b = board_columns d b"
proof -
  have "filter (\<lambda>x. kc_board x = b) (dk_columns (place_column c p d)) = filter (\<lambda>x. kc_board x = b) (dk_columns d)"
    unfolding place_column_rows
  proof (rule filter_map_same)
    fix x assume x: "x \<in> set (dk_columns d)" "kc_board x = b"
    have "kc_pk x \<notin> kc_pk ` set (board_columns d (kc_board c))"
      using unique_key [OF keys x(1)] x b by (auto simp: set_board_columns)
    then show "indexed_column (board_target c p d) x = x"
      using board_target_set [OF keys row] by (simp add: indexed_column_notin)
  qed simp
  then show ?thesis by (simp add: board_columns_def)
qed

end
