(* ===== verification/Ticket_Effects.thy ===== *)
theory Ticket_Effects
  imports Ticket_Order
begin

text \<open>
  The writes the operations of the desk are made of (\<open>desk_effect\<close>) and what each of them keeps
  (\<open>tidy_desk\<close>): keys are unique and references hold, one default board, form, and column per board,
  one assignment per ticket and account, a paid flag only where the price is covered, closed time
  logs with their length, and a history whose latest column is the one the ticket is in.
\<close>

subsection \<open>The invariant\<close>

definition desk_keys :: "desk \<Rightarrow> bool" where
  "desk_keys d \<longleftrightarrow>
     distinct (map kb_pk (dk_boards d)) \<and> distinct (map kc_pk (dk_columns d))
   \<and> distinct (map tk_pk (dk_tickets d)) \<and> distinct (map tl_pk (dk_logs d))
   \<and> distinct (map fm_pk (dk_forms d)) \<and> distinct (map an_pk (dk_assignments d))"

definition desk_refs :: "desk \<Rightarrow> bool" where
  "desk_refs d \<longleftrightarrow>
     tl_ticket ` set (dk_logs d) \<subseteq> tk_pk ` set (dk_tickets d)
   \<and> hy_ticket ` set (dk_history d) \<subseteq> tk_pk ` set (dk_tickets d)
   \<and> an_ticket ` set (dk_assignments d) \<subseteq> tk_pk ` set (dk_tickets d)"

definition one_default :: "('r \<Rightarrow> pk) \<Rightarrow> ('r \<Rightarrow> bool) \<Rightarrow> 'r list \<Rightarrow> bool" where
  "one_default key is_default rs \<longleftrightarrow>
     (\<forall>x\<in>set rs. \<forall>y\<in>set rs. is_default x \<longrightarrow> is_default y \<longrightarrow> key x = key y)"

definition default_per_board :: "ticket_column list \<Rightarrow> bool" where
  "default_per_board cs \<longleftrightarrow> (\<forall>b. one_default kc_pk (\<lambda>c. kc_default c \<and> kc_board c = b) cs)"

definition desk_defaults :: "desk \<Rightarrow> bool" where
  "desk_defaults d \<longleftrightarrow>
     one_default kb_pk kb_default (dk_boards d) \<and> default_per_board (dk_columns d)
   \<and> one_default fm_pk fm_default (dk_forms d)"

definition desk_pairs :: "desk \<Rightarrow> bool" where
  "desk_pairs d \<longleftrightarrow> distinct (map (\<lambda>a. (an_ticket a, an_user a)) (dk_assignments d))"

definition paid_covered :: "ticket \<Rightarrow> bool" where
  "paid_covered t \<longleftrightarrow>
     (case tk_price t of Some p \<Rightarrow> p \<noteq> 0 \<longrightarrow> tk_is_paid t \<longrightarrow> p \<le> tk_amount_paid t | None \<Rightarrow> True)"

definition log_fits :: "datetime \<Rightarrow> time_log \<Rightarrow> bool" where
  "log_fits now l \<longleftrightarrow>
     tl_entered l \<le> now
   \<and> (case tl_exited l of
        None \<Rightarrow> tl_duration l = None
      | Some ex \<Rightarrow> tl_entered l \<le> ex \<and> ex \<le> now \<and> tl_duration l = Some ((ex - tl_entered l) div 1000000))"

text \<open>The column changes the history holds for a ticket, oldest first.\<close>

definition column_changes :: "history_row list \<Rightarrow> pk \<Rightarrow> history_row list" where
  "column_changes hs k = filter (\<lambda>h. hy_ticket h = k \<and> hy_field h = ''column_id'') hs"

definition history_current :: "desk \<Rightarrow> ticket \<Rightarrow> bool" where
  "history_current d t \<longleftrightarrow>
     column_changes (dk_history d) (tk_pk t) = [] \<or> tk_column t = None
   \<or> hy_new (last (column_changes (dk_history d) (tk_pk t))) = opt_text (tk_column t)"

definition tidy_desk :: "desk \<Rightarrow> bool" where
  "tidy_desk d \<longleftrightarrow>
     desk_keys d \<and> desk_refs d \<and> desk_defaults d \<and> desk_pairs d
   \<and> (\<forall>t\<in>set (dk_tickets d). paid_covered t)
   \<and> (\<forall>l\<in>set (dk_logs d). log_fits (dk_clock d) l)
   \<and> (\<forall>t\<in>set (dk_tickets d). history_current d t)"

lemma tidyI:
  assumes "desk_keys d" "desk_refs d" "desk_defaults d" "desk_pairs d"
    "\<And>t. t \<in> set (dk_tickets d) \<Longrightarrow> paid_covered t" "\<And>l. l \<in> set (dk_logs d) \<Longrightarrow> log_fits (dk_clock d) l"
    "\<And>t. t \<in> set (dk_tickets d) \<Longrightarrow> history_current d t"
  shows "tidy_desk d"
  using assms by (simp add: tidy_desk_def)

lemma tidyD:
  assumes "tidy_desk d"
  shows "desk_keys d" "desk_refs d" "desk_defaults d" "desk_pairs d"
    "\<And>t. t \<in> set (dk_tickets d) \<Longrightarrow> paid_covered t" "\<And>l. l \<in> set (dk_logs d) \<Longrightarrow> log_fits (dk_clock d) l"
    "\<And>t. t \<in> set (dk_tickets d) \<Longrightarrow> history_current d t"
  using assms by (simp_all add: tidy_desk_def)

subsection \<open>Effects\<close>

definition same_card :: "ticket \<Rightarrow> ticket \<Rightarrow> bool" where
  "same_card s t \<longleftrightarrow>
     tk_pk s = tk_pk t \<and> tk_column s = tk_column t \<and> tk_price s = tk_price t
   \<and> tk_is_paid s = tk_is_paid t \<and> tk_amount_paid s = tk_amount_paid t"

text \<open>The tables without a part in the invariant.\<close>

definition desk_beside :: "desk \<Rightarrow> desk \<Rightarrow> bool" where
  "desk_beside d e \<longleftrightarrow>
     e = d\<lparr>dk_payments := dk_payments e, dk_checklist := dk_checklist e, dk_items := dk_items e,
           dk_comments := dk_comments e\<rparr>"

inductive desk_effect :: "desk \<Rightarrow> desk \<Rightarrow> bool" where
  ef_clock: "dk_clock d \<le> now \<Longrightarrow> desk_effect d (d\<lparr>dk_clock := now\<rparr>)"
| ef_board_new: "desk_effect d (insert_board b d)"
| ef_board_save: "desk_effect d (save_board b d)"
| ef_board_drop: "desk_effect d (d\<lparr>dk_boards := row_delete kb_pk k (dk_boards d)\<rparr>)"
| ef_column_new: "desk_effect d (insert_column c d)"
| ef_column_save: "desk_effect d (save_column c d)"
| ef_column_flags: "desk_effect d (d\<lparr>dk_columns := take_default_column self c (dk_columns d)\<rparr>)"
| ef_columns_number: "desk_effect d (renumber_columns ids d)"
| ef_columns_drop: "desk_effect d (drop_columns gone d)"
| ef_ticket_new: "desk_effect d (insert_ticket t d)"
| ef_ticket_save: "desk_effect d (save_ticket uid t d)"
| ef_cards: "(\<And>t. same_card (f t) t) \<Longrightarrow> desk_effect d (d\<lparr>dk_tickets := map f (dk_tickets d)\<rparr>)"
| ef_ticket_drop: "desk_effect d (drop_ticket k d)"
| ef_log_close: "desk_effect d (close_active_time_log k c d)"
| ef_log_open: "k \<in> tk_pk ` set (dk_tickets d) \<Longrightarrow> desk_effect d (open_time_log k c u d)"
| ef_assign_new: "k \<in> tk_pk ` set (dk_tickets d) \<Longrightarrow> create_assignment k u r b d = Some e \<Longrightarrow> desk_effect d e"
| ef_assign_less: "desk_effect d (d\<lparr>dk_assignments := filter P (dk_assignments d)\<rparr>)"
| ef_assign_role: "row_get an_pk a (filter P (dk_assignments d)) = Some x \<Longrightarrow>
    desk_effect d (d\<lparr>dk_assignments := row_save an_pk (x\<lparr>an_role := r\<rparr>) (dk_assignments d)\<rparr>)"
| ef_form_new: "desk_effect d (insert_form f d)"
| ef_form_save: "desk_effect d (save_form f d)"
| ef_beside: "desk_beside d e \<Longrightarrow> desk_effect d e"

subsection \<open>Defaults\<close>

lemma one_default_sub:
  assumes "one_default key P rs" and "\<And>x. x \<in> set rs' \<Longrightarrow> P x \<Longrightarrow> \<exists>y\<in>set rs. P y \<and> key y = key x"
  shows "one_default key P rs'"
  using assms unfolding one_default_def by metis

lemma one_default_single:
  assumes "\<And>x. x \<in> set rs \<Longrightarrow> P x \<Longrightarrow> key x = k"
  shows "one_default key P rs"
  using assms unfolding one_default_def by metis

lemma one_default_filter: "one_default key P rs \<Longrightarrow> one_default key P (filter Q rs)"
  by (auto simp: one_default_def)

lemma in_row_save: "x \<in> set (row_save key r t) \<Longrightarrow> x = r \<or> (x \<in> set t \<and> key x \<noteq> key r)"
  by (auto simp: set_row_save split: if_splits)

lemma taken_boards: "x \<in> set (take_default_board True bs) \<Longrightarrow> \<not> kb_default x"
  by (auto simp: take_default_board_def)

lemma board_defaults_save:
  assumes "one_default kb_pk kb_default bs"
  shows "one_default kb_pk kb_default (row_save kb_pk b (take_default_board (kb_default b) bs))"
proof (cases "kb_default b")
  case True
  then show ?thesis by (intro one_default_single [of _ _ _ "kb_pk b"]) (auto dest!: in_row_save taken_boards)
next
  case False
  show ?thesis
    by (rule one_default_sub [OF assms]) (use False in \<open>auto simp: take_default_board_def dest!: in_row_save\<close>)
qed

lemma board_defaults_new:
  assumes "one_default kb_pk kb_default bs"
  shows "one_default kb_pk kb_default (row_create (b\<lparr>kb_pk := k\<rparr>) (take_default_board (kb_default b) bs))"
proof (cases "kb_default b")
  case True
  then show ?thesis by (intro one_default_single [of _ _ _ k]) (auto dest!: taken_boards)
next
  case False
  show ?thesis
    by (rule one_default_sub [OF assms]) (use False in \<open>auto simp: take_default_board_def\<close>)
qed

lemma taken_forms: "fm_default f \<Longrightarrow> x \<in> set (take_default_form f fs) \<Longrightarrow> fm_default x \<Longrightarrow> fm_pk x = fm_pk f"
  by (auto simp: take_default_form_def split: if_splits)

lemma form_defaults_save:
  assumes "one_default fm_pk fm_default fs"
  shows "one_default fm_pk fm_default (row_save fm_pk f (take_default_form f fs))"
proof (cases "fm_default f")
  case True
  then show ?thesis by (intro one_default_single [of _ _ _ "fm_pk f"]) (auto dest!: in_row_save dest: taken_forms [OF True])
next
  case False
  show ?thesis
    by (rule one_default_sub [OF assms]) (use False in \<open>auto simp: take_default_form_def dest!: in_row_save\<close>)
qed

lemma form_defaults_new:
  assumes "one_default fm_pk fm_default fs"
  shows "one_default fm_pk fm_default (row_create f (take_default_form f fs))"
proof (cases "fm_default f")
  case True
  then show ?thesis by (intro one_default_single [of _ _ _ "fm_pk f"]) (auto dest: taken_forms [OF True])
next
  case False
  show ?thesis
    by (rule one_default_sub [OF assms]) (use False in \<open>auto simp: take_default_form_def\<close>)
qed

lemma taken_columns:
  assumes "x \<in> set (take_default_column self c cs)" and "kc_default x"
  shows "x \<in> set cs" "kc_default c \<Longrightarrow> kc_board x = kc_board c \<Longrightarrow> Some (kc_pk x) = self"
  using assms by (auto simp: take_default_column_def split: if_splits)

lemma column_defaults_flags:
  assumes "default_per_board cs"
  shows "default_per_board (take_default_column self c cs)"
  unfolding default_per_board_def
proof
  fix b
  have "one_default kc_pk (\<lambda>c. kc_default c \<and> kc_board c = b) cs" using assms by (simp add: default_per_board_def)
  then show "one_default kc_pk (\<lambda>c. kc_default c \<and> kc_board c = b) (take_default_column self c cs)"
    by (rule one_default_sub) (blast dest: taken_columns(1))
qed

lemma column_defaults_save:
  assumes "default_per_board cs"
  shows "default_per_board (row_save kc_pk c (take_default_column (Some (kc_pk c)) c cs))"
  unfolding default_per_board_def
proof
  fix b
  let ?P = "\<lambda>c. kc_default c \<and> kc_board c = b"
  have cs: "one_default kc_pk ?P cs" using assms by (simp add: default_per_board_def)
  show "one_default kc_pk ?P (row_save kc_pk c (take_default_column (Some (kc_pk c)) c cs))"
  proof (cases "?P c")
    case True
    then show ?thesis
      by (intro one_default_single [of _ _ _ "kc_pk c"]) (auto dest!: in_row_save taken_columns(2))
  next
    case False
    show ?thesis
      by (rule one_default_sub [OF cs]) (use False in \<open>blast dest: in_row_save taken_columns(1)\<close>)
  qed
qed

lemma column_defaults_new:
  assumes "default_per_board cs"
  shows "default_per_board (row_create (c\<lparr>kc_pk := k, kc_created := n\<rparr>) (take_default_column None c cs))"
  unfolding default_per_board_def
proof
  fix b
  let ?P = "\<lambda>c. kc_default c \<and> kc_board c = b" and ?c = "c\<lparr>kc_pk := k, kc_created := n\<rparr>"
  have cs: "one_default kc_pk ?P cs" using assms by (simp add: default_per_board_def)
  show "one_default kc_pk ?P (row_create ?c (take_default_column None c cs))"
  proof (cases "?P c")
    case True
    then show ?thesis
      by (intro one_default_single [of _ _ _ k]) (auto dest!: taken_columns(2))
  next
    case False
    then have "\<not> ?P ?c" by simp
    then show ?thesis
      by (intro one_default_sub [OF cs]) (auto dest: taken_columns(1))
  qed
qed

subsection \<open>Rounding keeps order\<close>

lemma round_half_up_neg: "round_half_up n (- x) = - round_half_up n x"
  by (simp add: round_half_up_def Let_def sgn_minus)

lemma round_half_up_le: "x \<le> y \<Longrightarrow> round_half_up n x \<le> round_half_up n y"
proof -
  assume xy: "x \<le> y"
  consider "0 \<le> x" | "x < 0" "0 \<le> y" | "y < 0" by linarith
  then show ?thesis
  proof cases
    case 1
    with xy show ?thesis by (intro round_half_up_mono)
  next
    case 2
    have "0 \<le> round_half_up n (- x)" "0 \<le> round_half_up n y" using 2 by (auto intro: round_half_up_nonneg)
    then show ?thesis by (simp add: round_half_up_neg)
  next
    case 3
    have "round_half_up n (- y) \<le> round_half_up n (- x)" using 3 xy by (intro round_half_up_mono) auto
    then show ?thesis by (simp add: round_half_up_neg)
  qed
qed

lemma round_half_up_0 [simp]: "round_half_up n 0 = 0"
  by (simp add: round_half_up_def Let_def)

lemma paid_covered_stored: "paid_covered (stored_ticket (with_paid_flag t))"
  by (auto simp: paid_covered_def stored_ticket_def with_paid_flag_def round_half_up_le split: option.splits)

lemma paid_covered_card: "same_card s t \<Longrightarrow> paid_covered s = paid_covered t"
  by (simp add: paid_covered_def same_card_def split: option.splits)

lemma paid_covered_column [simp]: "paid_covered (t\<lparr>tk_column := c\<rparr>) = paid_covered t"
  by (simp add: paid_covered_def split: option.splits)

subsection \<open>Tickets\<close>

lemma save_ticket_cases:
  assumes "\<And>old. ticket_of d (tk_pk t) = Some old \<Longrightarrow>
      Q (d\<lparr>dk_tickets := row_save tk_pk (stored_ticket (saved_form d t)) (dk_tickets d),
            dk_history := dk_history d @ history_of_save uid old (saved_form d t)\<rparr>)"
    and "ticket_of d (tk_pk t) = None \<Longrightarrow> Q d"
  shows "Q (save_ticket uid t d)"
  using assms by (simp add: save_ticket_def Let_def split: option.splits)

lemma column_changes_append [simp]:
  "column_changes (hs @ hs') k = column_changes hs k @ column_changes hs' k"
  by (simp add: column_changes_def)

lemma column_changes_of_save:
  "column_changes (history_of_save uid old new) k =
     (if k = tk_pk new \<and> tk_column old \<noteq> tk_column new
      then [\<lparr>hy_ticket = k, hy_action = ''status_changed'', hy_field = ''column_id'',
             hy_old = opt_text (tk_column old), hy_new = opt_text (tk_column new), hy_user = uid\<rparr>]
      else [])"
  by (auto simp: column_changes_def history_of_save_def change_row_def)

lemma history_tickets: "hy_ticket ` set (history_of_save uid old new) \<subseteq> {tk_pk new}"
  by (auto simp: history_of_save_def change_row_def)

lemma no_changes_of_fresh:
  assumes "desk_refs d" and "k \<notin> tk_pk ` set (dk_tickets d)"
  shows "column_changes (dk_history d) k = []"
  using assms by (auto simp: desk_refs_def column_changes_def filter_empty_conv)

lemma current_card: "same_card s t \<Longrightarrow> history_current d s = history_current d t"
  by (simp add: history_current_def same_card_def)

lemma current_cong: "dk_history d = dk_history e \<Longrightarrow> history_current d t = history_current e t"
  by (simp add: history_current_def)

lemma tk_pk_row_save: "tk_pk ` set (row_save tk_pk r ts) = tk_pk ` set ts"
  by (metis list.set_map map_key_row_save)

lemma tidy_save_ticket:
  assumes "tidy_desk d"
  shows "tidy_desk (save_ticket uid t d)"
proof (rule save_ticket_cases)
  fix old assume old: "ticket_of d (tk_pk t) = Some old"
  let ?n = "saved_form d t"
  let ?e = "d\<lparr>dk_tickets := row_save tk_pk (stored_ticket ?n) (dk_tickets d),
              dk_history := dk_history d @ history_of_save uid old ?n\<rparr>"
  note d = tidyD [OF assms]
  have o: "old \<in> set (dk_tickets d)" "tk_pk old = tk_pk t"
    using old by (auto simp: ticket_of_def dest: row_get_Some)
  show "tidy_desk ?e"
  proof (rule tidyI)
    show "desk_keys ?e" "desk_defaults ?e" "desk_pairs ?e"
      using d(1,3,4) by (simp_all add: desk_keys_def desk_defaults_def desk_pairs_def)
    show "desk_refs ?e"
      using d(2) o history_tickets [of uid old ?n]
      by (auto simp: desk_refs_def tk_pk_row_save image_Un simp flip: o(2))
    show "log_fits (dk_clock ?e) l" if "l \<in> set (dk_logs ?e)" for l using d(6) that by simp
    fix x assume x: "x \<in> set (dk_tickets ?e)"
    then have x: "x = stored_ticket ?n \<or> (x \<in> set (dk_tickets d) \<and> tk_pk x \<noteq> tk_pk t)"
      by (auto dest: in_row_save)
    then show "paid_covered x" using d(5) by (auto simp: saved_form_def paid_covered_stored)
    show "history_current ?e x"
    proof (cases "x = stored_ticket ?n")
      case True
      then show ?thesis
        using d(7) [OF o(1)] o(2) by (auto simp: history_current_def column_changes_of_save)
    next
      case False
      then show ?thesis using x d(7) by (auto simp: history_current_def column_changes_of_save)
    qed
  qed
qed (use assms in simp)

lemma new_ticket_pk [simp]: "tk_pk (new_ticket d t) = next_pk tk_pk (dk_tickets d)"
proof -
  have "tk_pk (with_column e s) = tk_pk s" "tk_pk (with_position e s) = tk_pk s" "tk_pk (with_paid_flag s) = tk_pk s"
    for e s by (simp_all add: with_column_def with_position_def with_paid_flag_def split: option.splits)
  then show ?thesis by (simp add: new_ticket_def)
qed

lemma tidy_insert_ticket:
  assumes "tidy_desk d"
  shows "tidy_desk (insert_ticket t d)"
proof (rule tidyI)
  note d = tidyD [OF assms]
  let ?e = "insert_ticket t d"
  show "desk_keys ?e" "desk_defaults ?e" "desk_pairs ?e" "desk_refs ?e"
    using d(1-4) by (auto simp: desk_keys_def desk_defaults_def desk_pairs_def desk_refs_def insert_ticket_def)
  show "log_fits (dk_clock ?e) l" if "l \<in> set (dk_logs ?e)" for l using d(6) that by (simp add: insert_ticket_def)
  fix x assume x: "x \<in> set (dk_tickets ?e)"
  show "paid_covered x" using x d(5) by (auto simp: insert_ticket_def new_ticket_def paid_covered_stored)
  show "history_current ?e x"
    using x d(7) no_changes_of_fresh [OF d(2) next_pk_notin]
    by (auto simp: insert_ticket_def history_current_def)
qed

lemma tidy_cards:
  assumes "tidy_desk d" and f: "\<And>t. same_card (f t) t"
  shows "tidy_desk (d\<lparr>dk_tickets := map f (dk_tickets d)\<rparr>)"
proof (rule tidyI)
  note d = tidyD [OF assms(1)]
  let ?e = "d\<lparr>dk_tickets := map f (dk_tickets d)\<rparr>"
  have pk: "tk_pk (f t) = tk_pk t" for t using f [of t] by (simp add: same_card_def)
  show "desk_keys ?e" "desk_defaults ?e" "desk_pairs ?e" "desk_refs ?e"
    using d(1-4) by (simp_all add: desk_keys_def desk_defaults_def desk_pairs_def desk_refs_def pk comp_def image_image)
  show "log_fits (dk_clock ?e) l" if "l \<in> set (dk_logs ?e)" for l using d(6) that by simp
  fix x assume "x \<in> set (dk_tickets ?e)"
  then obtain t where t: "t \<in> set (dk_tickets d)" "x = f t" by auto
  show "paid_covered x" using d(5) [OF t(1)] paid_covered_card [OF f] by (simp add: t(2))
  show "history_current ?e x"
    using d(7) [OF t(1)] current_card [OF f] by (simp add: t(2) current_cong [of ?e d])
qed

lemma column_changes_filter:
  "k \<noteq> j \<Longrightarrow> column_changes (filter (\<lambda>h. hy_ticket h \<noteq> k) hs) j = column_changes hs j"
  by (induction hs) (auto simp: column_changes_def)

lemma tidy_drop_ticket:
  assumes "tidy_desk d"
  shows "tidy_desk (drop_ticket k d)"
proof (rule tidyI)
  note d = tidyD [OF assms]
  let ?e = "drop_ticket k d"
  show "desk_keys ?e" "desk_defaults ?e" "desk_pairs ?e"
    using d(1,3,4) by (simp_all add: desk_keys_def desk_defaults_def desk_pairs_def drop_ticket_def
        distinct_row_delete distinct_map_filter)
  show "desk_refs ?e" using d(2) by (force simp: desk_refs_def drop_ticket_def)
  show "log_fits (dk_clock ?e) l" if "l \<in> set (dk_logs ?e)" for l using d(6) that by (simp add: drop_ticket_def)
  fix x assume "x \<in> set (dk_tickets ?e)"
  then have x: "x \<in> set (dk_tickets d)" "tk_pk x \<noteq> k" by (auto simp: drop_ticket_def)
  show "paid_covered x" using d(5) x by simp
  show "history_current ?e x"
    using d(7) [OF x(1)] x(2) by (simp add: history_current_def drop_ticket_def column_changes_filter)
qed

lemma tidy_drop_columns:
  assumes "tidy_desk d"
  shows "tidy_desk (drop_columns gone d)"
proof (rule tidyI)
  note d = tidyD [OF assms]
  let ?e = "drop_columns gone d"
  let ?f = "\<lambda>t. case tk_column t of Some k \<Rightarrow> if gone k then t\<lparr>tk_column := None\<rparr> else t | None \<Rightarrow> t"
  have f: "?f t = t \<or> ?f t = t\<lparr>tk_column := None\<rparr>" for t by (simp split: option.splits)
  have pk: "tk_pk (?f t) = tk_pk t" for t by (simp split: option.splits)
  have rows: "dk_tickets ?e = map ?f (dk_tickets d)" by (simp add: drop_columns_def)
  have keys: "tk_pk ` set (dk_tickets ?e) = tk_pk ` set (dk_tickets d)" by (simp add: rows image_image pk)
  have "distinct (map tk_pk (dk_tickets ?e))" using d(1) by (simp add: rows comp_def pk desk_keys_def)
  then show "desk_keys ?e"
    using d(1) by (simp add: desk_keys_def drop_columns_def distinct_map_filter del: map_map)
  show "desk_defaults ?e"
    using d(3) by (auto simp: desk_defaults_def drop_columns_def default_per_board_def intro: one_default_filter)
  show "desk_pairs ?e" using d(4) by (simp add: desk_pairs_def drop_columns_def)
  have "tl_ticket ` set (dk_logs ?e) \<subseteq> tl_ticket ` set (dk_logs d)" by (auto simp: drop_columns_def)
  then show "desk_refs ?e"
    using d(2) unfolding desk_refs_def keys by (auto simp: drop_columns_def)
  show "log_fits (dk_clock ?e) l" if "l \<in> set (dk_logs ?e)" for l using d(6) that by (simp add: drop_columns_def)
  fix x assume "x \<in> set (dk_tickets ?e)"
  then obtain t where t: "t \<in> set (dk_tickets d)" "x = ?f t" by (auto simp: rows)
  show "paid_covered x" using d(5) [OF t(1)] f [of t] by (auto simp: t(2))
  have h: "dk_history ?e = dk_history d" by (simp add: drop_columns_def)
  show "history_current ?e x"
    using d(7) [OF t(1)] f [of t] unfolding t(2) by (auto simp: history_current_def h)
qed

subsection \<open>Time logs\<close>

lemma active_log_open:
  assumes "active_log d k c = Some l"
  shows "l \<in> set (dk_logs d)" "tl_ticket l = k" "tl_column l = c" "tl_exited l = None"
  using find_member [of _ _ l] assms by (fastforce simp: active_log_def)+

lemma whole_seconds_nonneg: "0 \<le> us \<Longrightarrow> whole_seconds us = us div 1000000"
  by (simp add: whole_seconds_def)

definition closed_log :: "datetime \<Rightarrow> time_log \<Rightarrow> time_log" where
  "closed_log now l = l\<lparr>tl_exited := Some now, tl_duration := Some (whole_seconds (now - tl_entered l))\<rparr>"

lemma close_log_cases:
  assumes "Q d"
    and "\<And>c l. col = Some c \<Longrightarrow> active_log d k c = Some l \<Longrightarrow>
      (tl_duration l = None \<Longrightarrow> Q (d\<lparr>dk_logs := row_save tl_pk (closed_log (dk_clock d) l) (dk_logs d)\<rparr>))"
    and "\<And>l. l \<in> set (dk_logs d) \<Longrightarrow> tl_exited l = None \<Longrightarrow> tl_duration l = None"
  shows "Q (close_active_time_log k col d)"
proof (cases "Option.bind col (column_of d)")
  case None
  then show ?thesis using assms(1) by (simp add: close_active_time_log_def)
next
  case (Some c)
  then obtain j where j: "col = Some j" "column_of d j = Some c" by (cases col) auto
  then have pk: "kc_pk c = j" by (auto simp: column_of_def dest: row_get_Some)
  show ?thesis
  proof (cases "active_log d k j")
    case None
    then show ?thesis using assms(1) j pk by (simp add: close_active_time_log_def)
  next
    case l: (Some l)
    have "tl_duration l = None" using active_log_open [OF l] assms(3) by blast
    moreover have "Q (d\<lparr>dk_logs := row_save tl_pk (closed_log (dk_clock d) l) (dk_logs d)\<rparr>)"
      using assms(2) [OF j(1) l] calculation by blast
    ultimately show ?thesis
      using assms(1) j pk l by (simp add: close_active_time_log_def calculate_duration_def closed_log_def)
  qed
qed

lemma tidy_close:
  assumes "tidy_desk d"
  shows "tidy_desk (close_active_time_log k col d)"
proof (rule close_log_cases)
  note d = tidyD [OF assms]
  show open_null: "tl_duration l = None" if "l \<in> set (dk_logs d)" "tl_exited l = None" for l
    using d(6) [OF that(1)] that(2) by (simp add: log_fits_def)
  fix c l assume l: "active_log d k c = Some l"
  note o = active_log_open [OF l]
  let ?e = "d\<lparr>dk_logs := row_save tl_pk (closed_log (dk_clock d) l) (dk_logs d)\<rparr>"
  show "tidy_desk ?e"
  proof (rule tidyI)
    show "desk_keys ?e" "desk_defaults ?e" "desk_pairs ?e"
      using d(1,3,4) by (simp_all add: desk_keys_def desk_defaults_def desk_pairs_def)
    show "desk_refs ?e" using d(2) o(1) by (auto simp: desk_refs_def closed_log_def dest!: in_row_save)
    fix x assume "x \<in> set (dk_logs ?e)"
    then have "x = closed_log (dk_clock d) l \<or> x \<in> set (dk_logs d)" by (auto dest: in_row_save)
    then show "log_fits (dk_clock ?e) x"
      using d(6) d(6) [OF o(1)] by (auto simp: closed_log_def log_fits_def whole_seconds_nonneg)
  next
    fix t assume t: "t \<in> set (dk_tickets ?e)"
    then show "paid_covered t" "history_current ?e t" using d(5,7) by (simp_all add: current_cong [of ?e d])
  qed
qed (use assms in simp)

lemma tidy_open:
  assumes "tidy_desk d" and k: "k \<in> tk_pk ` set (dk_tickets d)"
  shows "tidy_desk (open_time_log k col u d)"
proof (rule tidyI)
  note d = tidyD [OF assms(1)]
  let ?e = "open_time_log k col u d"
  have logs: "dk_logs ?e = dk_logs d \<or> (\<exists>c. dk_logs ?e = row_create
      \<lparr>tl_pk = next_pk tl_pk (dk_logs d), tl_ticket = k, tl_column = c, tl_user = u, tl_entered = dk_clock d,
       tl_exited = None, tl_duration = None\<rparr> (dk_logs d))"
    by (auto simp: open_time_log_def split: option.splits)
  show "desk_keys ?e" using d(1) logs by (auto simp: desk_keys_def)
  show "desk_defaults ?e" "desk_pairs ?e" using d(3,4) by (simp_all add: desk_defaults_def desk_pairs_def)
  have "tl_ticket ` set (dk_logs ?e) \<subseteq> insert k (tl_ticket ` set (dk_logs d))" using logs by auto
  moreover have "insert k (tl_ticket ` set (dk_logs d)) \<subseteq> tk_pk ` set (dk_tickets d)"
    using d(2) k by (simp add: desk_refs_def)
  ultimately show "desk_refs ?e" using d(2) unfolding desk_refs_def open_log_frame by (meson subset_trans)
  show "log_fits (dk_clock ?e) l" if "l \<in> set (dk_logs ?e)" for l
    using logs that d(6) by (auto simp: log_fits_def)
  fix t assume t: "t \<in> set (dk_tickets ?e)"
  then show "paid_covered t" "history_current ?e t" using d(5,7) by (simp_all add: current_cong [of ?e d])
qed

subsection \<open>Every effect keeps the desk tidy\<close>

text \<open>The effects that touch neither tickets, history nor logs, and keep the clock.\<close>

lemma tidy_aside:
  assumes "tidy_desk d" and "dk_tickets e = dk_tickets d" "dk_history e = dk_history d" "dk_logs e = dk_logs d"
    "dk_clock e = dk_clock d"
    and "desk_keys e" "desk_defaults e" "desk_pairs e"
    and "an_ticket ` set (dk_assignments e) \<subseteq> tk_pk ` set (dk_tickets d)"
  shows "tidy_desk e"
proof (rule tidyI)
  note d = tidyD [OF assms(1)]
  show "desk_keys e" "desk_defaults e" "desk_pairs e" by fact+
  show "desk_refs e" using d(2) assms by (simp add: desk_refs_def)
  show "log_fits (dk_clock e) l" if "l \<in> set (dk_logs e)" for l using d(6) that assms by simp
  fix t assume "t \<in> set (dk_tickets e)"
  then show "paid_covered t" "history_current e t" using d(5,7) assms by (simp_all add: current_cong [of e d])
qed

lemma take_default_keys [simp]:
  "map kc_pk (take_default_column self c cs) = map kc_pk cs"
  "map kb_pk (take_default_board b bs) = map kb_pk bs"
  "map fm_pk (take_default_form f fs) = map fm_pk fs"
  by (simp_all add: take_default_column_def take_default_board_def take_default_form_def)

lemma take_default_next [simp]:
  "next_pk kc_pk (take_default_column self c cs) = next_pk kc_pk cs"
  "next_pk kb_pk (take_default_board b bs) = next_pk kb_pk bs"
  "next_pk fm_pk (take_default_form f fs) = next_pk fm_pk fs"
  by (simp_all add: next_pk_def)

lemma take_default_images [simp]:
  "kc_pk ` set (take_default_column self c cs) = kc_pk ` set cs"
  "kb_pk ` set (take_default_board b bs) = kb_pk ` set bs"
  "fm_pk ` set (take_default_form f fs) = fm_pk ` set fs"
  by (metis list.set_map take_default_keys)+

lemma tidy_assignments: "tidy_desk d \<Longrightarrow> an_ticket ` set (dk_assignments d) \<subseteq> tk_pk ` set (dk_tickets d)"
  by (simp add: tidy_desk_def desk_refs_def)

lemma tidy_boards:
  assumes "tidy_desk d" and "distinct (map kb_pk bs)" and "one_default kb_pk kb_default bs"
  shows "tidy_desk (d\<lparr>dk_boards := bs\<rparr>)"
  using assms tidyD(1-4) [OF assms(1)]
  by (intro tidy_aside [OF assms(1)])
    (simp_all add: desk_keys_def desk_defaults_def desk_pairs_def tidy_assignments)

lemma tidy_columns:
  assumes "tidy_desk d" and "distinct (map kc_pk cs)" and "default_per_board cs"
  shows "tidy_desk (d\<lparr>dk_columns := cs\<rparr>)"
  using assms tidyD(1-4) [OF assms(1)]
  by (intro tidy_aside [OF assms(1)])
    (simp_all add: desk_keys_def desk_defaults_def desk_pairs_def tidy_assignments)

lemma tidy_forms:
  assumes "tidy_desk d" and "distinct (map fm_pk fs)" and "one_default fm_pk fm_default fs"
  shows "tidy_desk (d\<lparr>dk_forms := fs\<rparr>)"
  using assms tidyD(1-4) [OF assms(1)]
  by (intro tidy_aside [OF assms(1)])
    (simp_all add: desk_keys_def desk_defaults_def desk_pairs_def tidy_assignments)

lemma tidy_assigned:
  assumes "tidy_desk d" and "distinct (map an_pk xs)" and "distinct (map (\<lambda>a. (an_ticket a, an_user a)) xs)"
    and "an_ticket ` set xs \<subseteq> tk_pk ` set (dk_tickets d)"
  shows "tidy_desk (d\<lparr>dk_assignments := xs\<rparr>)"
  using assms tidyD(1-4) [OF assms(1)]
  by (intro tidy_aside [OF assms(1)]) (simp_all add: desk_keys_def desk_defaults_def desk_pairs_def)

lemma tidy_clock:
  assumes "tidy_desk d" and "dk_clock d \<le> now"
  shows "tidy_desk (d\<lparr>dk_clock := now\<rparr>)"
proof (rule tidyI)
  note d = tidyD [OF assms(1)]
  let ?e = "d\<lparr>dk_clock := now\<rparr>"
  show "desk_keys ?e" "desk_refs ?e" "desk_defaults ?e" "desk_pairs ?e"
    using d(1-4) by (simp_all add: desk_keys_def desk_refs_def desk_defaults_def desk_pairs_def)
  show "log_fits (dk_clock ?e) l" if "l \<in> set (dk_logs ?e)" for l
    using d(6) [of l] that assms(2) by (auto simp: log_fits_def split: option.splits)
  fix t assume "t \<in> set (dk_tickets ?e)"
  then show "paid_covered t" "history_current ?e t" using d(5,7) by (simp_all add: current_cong [of ?e d])
qed

lemma tidy_create_assignment:
  assumes "tidy_desk d" and "k \<in> tk_pk ` set (dk_tickets d)" and "create_assignment k u r b d = Some e"
  shows "tidy_desk e"
proof -
  have new: "u \<notin> set (ticket_assignees d k)"
    and e: "e = d\<lparr>dk_assignments := row_create
         \<lparr>an_pk = next_pk an_pk (dk_assignments d), an_ticket = k, an_user = u, an_role = r, an_by = Some b\<rparr>
         (dk_assignments d)\<rparr>"
    using assms(3) by (auto simp: create_assignment_def split: if_splits)
  have "(k, u) \<notin> (\<lambda>a. (an_ticket a, an_user a)) ` set (dk_assignments d)"
    using new by (auto simp: ticket_assignees_def)
  then show ?thesis
    unfolding e using tidyD(1,4) [OF assms(1)] tidy_assignments [OF assms(1)] assms(2)
    by (intro tidy_assigned [OF assms(1)]) (auto simp: desk_pairs_def desk_keys_def)
qed

lemma one_default_keep:
  assumes "one_default key P rs" and "\<And>x. key (f x) = key x" and "\<And>x. P (f x) = P x"
  shows "one_default key P (map f rs)"
  by (rule one_default_sub [OF assms(1)]) (auto simp: assms(2,3))

lemma tidy_role:
  assumes d: "tidy_desk d" and x: "x \<in> set (dk_assignments d)"
  shows "tidy_desk (d\<lparr>dk_assignments := row_save an_pk (x\<lparr>an_role := r\<rparr>) (dk_assignments d)\<rparr>)"
proof (rule tidy_assigned [OF d])
  have keys: "distinct (map an_pk (dk_assignments d))" using tidyD(1) [OF d] by (simp add: desk_keys_def)
  then show "distinct (map an_pk (row_save an_pk (x\<lparr>an_role := r\<rparr>) (dk_assignments d)))" by simp
  have "map (\<lambda>a. (an_ticket a, an_user a)) (row_save an_pk (x\<lparr>an_role := r\<rparr>) (dk_assignments d)) =
      map (\<lambda>a. (an_ticket a, an_user a)) (dk_assignments d)"
    by (rule map_row_save_same [OF keys x]) simp_all
  then show "distinct (map (\<lambda>a. (an_ticket a, an_user a)) (row_save an_pk (x\<lparr>an_role := r\<rparr>) (dk_assignments d)))"
    using tidyD(4) [OF d] by (simp add: desk_pairs_def)
  show "an_ticket ` set (row_save an_pk (x\<lparr>an_role := r\<rparr>) (dk_assignments d)) \<subseteq> tk_pk ` set (dk_tickets d)"
  proof -
    have "map an_ticket (row_save an_pk (x\<lparr>an_role := r\<rparr>) (dk_assignments d)) = map an_ticket (dk_assignments d)"
      by (rule map_row_save_same [OF keys x]) simp_all
    then have "set (map an_ticket (row_save an_pk (x\<lparr>an_role := r\<rparr>) (dk_assignments d))) =
        set (map an_ticket (dk_assignments d))" by (simp only:)
    then show ?thesis using tidy_assignments [OF d] by (simp only: set_map)
  qed
qed

lemma tidy_effect: "desk_effect d e \<Longrightarrow> tidy_desk d \<Longrightarrow> tidy_desk e"
proof (induction rule: desk_effect.induct)
  case (ef_clock d now)
  then show ?case by (blast intro: tidy_clock)
next
  case (ef_board_new b d)
  then show ?case
    using tidyD(1,3) [OF ef_board_new.prems] unfolding insert_board_def
    by (intro tidy_boards) (simp_all add: desk_keys_def desk_defaults_def board_defaults_new)
next
  case (ef_board_save b d)
  then show ?case
    using tidyD(1,3) [OF ef_board_save.prems] unfolding save_board_def
    by (intro tidy_boards) (simp_all add: desk_keys_def desk_defaults_def board_defaults_save)
next
  case (ef_board_drop k d)
  then show ?case
    using tidyD(1,3) [OF ef_board_drop.prems]
    by (intro tidy_boards) (simp_all add: desk_keys_def desk_defaults_def distinct_row_delete row_delete_def
        distinct_map_filter one_default_filter)
next
  case (ef_column_new c d)
  then show ?case
    using tidyD(1,3) [OF ef_column_new.prems] unfolding insert_column_def
    by (intro tidy_columns) (simp_all add: desk_keys_def desk_defaults_def column_defaults_new)
next
  case (ef_column_save c d)
  then show ?case
    using tidyD(1,3) [OF ef_column_save.prems] unfolding save_column_def
    by (intro tidy_columns) (simp_all add: desk_keys_def desk_defaults_def column_defaults_save)
next
  case (ef_column_flags d self c)
  then show ?case
    using tidyD(1,3) [OF ef_column_flags.prems]
    by (intro tidy_columns) (simp_all add: desk_keys_def desk_defaults_def column_defaults_flags)
next
  case (ef_columns_number d ids)
  have r: "renumber_columns ids d = d\<lparr>dk_columns := map (indexed_column ids) (dk_columns d)\<rparr>"
    by (simp add: renumber_columns_def indexed_column_def)
  show ?case
    using tidyD(1,3) [OF ef_columns_number.prems] ef_columns_number.prems unfolding r
    by (intro tidy_columns) (simp_all add: desk_keys_def desk_defaults_def default_per_board_def comp_def one_default_keep)
next
  case (ef_assign_less d P)
  then show ?case
    using tidyD(1,4) [OF ef_assign_less.prems] tidy_assignments [OF ef_assign_less.prems]
    by (intro tidy_assigned) (auto simp: desk_pairs_def desk_keys_def distinct_map_filter)
next
  case (ef_assign_role a P d x r)
  then have "x \<in> set (dk_assignments d)" by (auto dest: row_get_Some)
  then show ?case using ef_assign_role by (intro tidy_role)
next
  case (ef_form_new f d)
  then show ?case
    using tidyD(1,3) [OF ef_form_new.prems] unfolding insert_form_def Let_def
    by (intro tidy_forms) (simp_all add: desk_keys_def desk_defaults_def form_defaults_new)
next
  case (ef_form_save f d)
  then show ?case
    using tidyD(1,3) [OF ef_form_save.prems] unfolding save_form_def
    by (intro tidy_forms) (simp_all add: desk_keys_def desk_defaults_def form_defaults_save)
next
  case (ef_beside d e)
  have e: "e = d\<lparr>dk_payments := dk_payments e, dk_checklist := dk_checklist e, dk_items := dk_items e,
           dk_comments := dk_comments e\<rparr>" using ef_beside.hyps by (simp add: desk_beside_def)
  have "dk_tickets e = dk_tickets d" "dk_history e = dk_history d" "dk_logs e = dk_logs d" "dk_clock e = dk_clock d"
    "dk_boards e = dk_boards d" "dk_columns e = dk_columns d" "dk_forms e = dk_forms d"
    "dk_assignments e = dk_assignments d"
    by (subst e, simp)+
  then show ?case
    using tidyD(1-4) [OF ef_beside.prems] tidy_assignments [OF ef_beside.prems]
    by (intro tidy_aside [OF ef_beside.prems]) (simp_all add: desk_keys_def desk_defaults_def desk_pairs_def)
qed (blast intro: tidy_insert_ticket tidy_save_ticket tidy_cards tidy_drop_ticket tidy_drop_columns tidy_close
  tidy_open tidy_create_assignment)+

lemma tidy_effects: "desk_effect\<^sup>*\<^sup>* d e \<Longrightarrow> tidy_desk d \<Longrightarrow> tidy_desk e"
  by (induction rule: rtranclp_induct) (blast intro: tidy_effect)+

end
