(* ===== verification/Ticket_Runs.thy ===== *)
theory Ticket_Runs
  imports Ticket_Effects
begin

text \<open>
  The desk as a transition system (\<open>desk_step\<close>): every operation of the API on every branch, and the
  passing of time.  Each is a sequence of the effects of \<open>Ticket_Effects\<close>, so whatever is reachable
  is tidy; and as long as no column is edited to start or stop tracking time (\<open>steady\<close>), a ticket has
  at most one open time log, in the column it is in.
\<close>

subsection \<open>Operations as effects\<close>

lemma effect_in: "desk_effect d e \<Longrightarrow> desk_effect\<^sup>*\<^sup>* d e"
  by (rule r_into_rtranclp)

lemma effects_then: "desk_effect\<^sup>*\<^sup>* a b \<Longrightarrow> desk_effect b c \<Longrightarrow> desk_effect\<^sup>*\<^sup>* a c"
  by (rule rtranclp.rtrancl_into_rtrancl)

lemma effects_trans: "desk_effect\<^sup>*\<^sup>* a b \<Longrightarrow> desk_effect\<^sup>*\<^sup>* b c \<Longrightarrow> desk_effect\<^sup>*\<^sup>* a c"
  by (rule rtranclp_trans)

definition ticket_keys :: "desk \<Rightarrow> pk set" where
  "ticket_keys d = tk_pk ` set (dk_tickets d)"

lemma ticket_keys_map:
  assumes "dk_tickets e = map f (dk_tickets d)" and "\<And>t. tk_pk (f t) = tk_pk t"
  shows "ticket_keys e = ticket_keys d"
  by (simp add: ticket_keys_def assms image_image)

lemma ticket_keys_simps [simp]:
  "ticket_keys (close_active_time_log k c d) = ticket_keys d" "ticket_keys (open_time_log k c u d) = ticket_keys d"
  "ticket_keys (save_ticket uid t d) = ticket_keys d"
  by (auto simp: ticket_keys_def save_ticket_def Let_def tk_pk_row_save split: option.splits)

lemma renumber_keys [simp]: "ticket_keys (renumber_column ids s d) = ticket_keys d"
  by (rule ticket_keys_map [OF renumber_tickets]) simp

lemma ticket_of_keys: "ticket_of d k = Some t \<Longrightarrow> k \<in> ticket_keys d"
  by (auto simp: ticket_of_def ticket_keys_def dest: row_get_Some)

lemma find_ticket_keys: "find_ticket m d k = Some t \<Longrightarrow> tk_pk t = k \<and> k \<in> ticket_keys d"
  by (auto simp: find_ticket_def visible_tickets_def ticket_keys_def dest!: row_get_Some split: if_splits)

lemma renumber_effect: "desk_effect d (renumber_column ids s d)"
proof -
  have "same_card (indexed ids t) t" for t by (simp add: same_card_def indexed_def split: option.splits)
  then have "same_card (if s = Some (tk_pk t) then t else indexed ids t) t" for t by (simp add: same_card_def)
  moreover have "renumber_column ids s d =
      d\<lparr>dk_tickets := map (\<lambda>t. if s = Some (tk_pk t) then t else indexed ids t) (dk_tickets d)\<rparr>"
    by (simp add: renumber_column_def indexed_def)
  ultimately show ?thesis using ef_cards [of "\<lambda>t. if s = Some (tk_pk t) then t else indexed ids t" d] by simp
qed

lemma relink_effect:
  assumes "\<And>t. same_card (f t) t"
  shows "desk_effect d (d\<lparr>dk_tickets := map f (dk_tickets d)\<rparr>)"
    "ticket_keys (d\<lparr>dk_tickets := map f (dk_tickets d)\<rparr>) = ticket_keys d"
  using assms by (auto intro!: ef_cards ticket_keys_map [of _ f] simp: same_card_def)

lemma tags_effect:
  assumes "set_ticket_tags k ids d = Some e"
  shows "desk_effect d e \<and> ticket_keys e = ticket_keys d"
proof -
  have "same_card (if tk_pk t = k then t\<lparr>tk_tags := remdups ids\<rparr> else t) t" for t by (simp add: same_card_def)
  then show ?thesis using assms relink_effect unfolding set_ticket_tags_def by (auto split: if_split_asm)
qed

lemma groups_effect:
  assumes "set_ticket_groups k ids d = Some e"
  shows "desk_effect d e \<and> ticket_keys e = ticket_keys d"
proof -
  have "same_card (if tk_pk t = k then t\<lparr>tk_groups := remdups ids\<rparr> else t) t" for t by (simp add: same_card_def)
  then show ?thesis using assms relink_effect unfolding set_ticket_groups_def by (auto split: if_split_asm)
qed

lemma assign_effect:
  "create_assignment k u r b d = Some e \<Longrightarrow> k \<in> ticket_keys d \<Longrightarrow> desk_effect d e \<and> ticket_keys e = ticket_keys d"
  by (auto simp: ticket_keys_def intro: ef_assign_new)
    (auto simp: create_assignment_def split: if_splits)

lemma assign_each_effects:
  "k \<in> ticket_keys d \<Longrightarrow> desk_effect\<^sup>*\<^sup>* d (fst (assign_each k b roles us d))
     \<and> ticket_keys (fst (assign_each k b roles us d)) = ticket_keys d"
proof (induction us arbitrary: d)
  case Nil
  then show ?case by simp
next
  case (Cons u us)
  show ?case
  proof (cases "create_assignment k u (assign_role roles u) b d")
    case None
    then show ?thesis by simp
  next
    case (Some e)
    note a = assign_effect [OF Some Cons.prems]
    then have "k \<in> ticket_keys e" using Cons.prems by simp
    from Cons.IH [OF this] show ?thesis
      using a by (auto simp: Some intro: effects_trans [OF effect_in])
  qed
qed

lemma clear_effect: "desk_effect d (clear_assignments k d)"
  unfolding clear_assignments_def by (rule ef_assign_less)

lemma clear_keys [simp]: "ticket_keys (clear_assignments k d) = ticket_keys d"
  by (simp add: clear_assignments_def ticket_keys_def)

lemma decorate_effects:
  assumes "k \<in> ticket_keys d"
  shows "desk_effect\<^sup>*\<^sup>* d (fst (decorate_ticket m k body d))
    \<and> ticket_keys (fst (decorate_ticket m k body d)) = ticket_keys d"
proof (cases "set_ticket_tags k (or_given (tb_tags body) []) d")
  case None
  then show ?thesis by (simp add: decorate_ticket_def)
next
  case d1: (Some d1)
  note e1 = tags_effect [OF d1]
  show ?thesis
  proof (cases "set_ticket_groups k (or_given (tb_groups body) []) d1")
    case None
    then show ?thesis using e1 by (auto simp: decorate_ticket_def d1)
  next
    case d2: (Some d2)
    note e2 = groups_effect [OF d2]
    have k: "k \<in> ticket_keys d2" using assms e1 e2 by simp
    obtain d3 ok where d3: "assign_each k (mb_pk m) (tb_roles body) (or_given (tb_users body) []) d2 = (d3, ok)"
      by fastforce
    have r: "fst (decorate_ticket m k body d) = d3" by (simp add: decorate_ticket_def d1 d2 d3 split: bool.split)
    have "desk_effect\<^sup>*\<^sup>* d2 d3 \<and> ticket_keys d3 = ticket_keys d2"
      using assign_each_effects [OF k, of "mb_pk m" "tb_roles body" "or_given (tb_users body) []"] by (simp add: d3)
    then show ?thesis unfolding r
      using e1 e2 effects_trans [OF effects_then [OF effect_in]] by auto
  qed
qed

lemma insert_keys [simp]: "ticket_keys (insert_ticket t d) = insert (next_pk tk_pk (dk_tickets d)) (ticket_keys d)"
  by (simp add: ticket_keys_def insert_ticket_def)

lemma open_effect: "k \<in> ticket_keys d \<Longrightarrow> desk_effect d (open_time_log k c u d)"
  by (simp add: ticket_keys_def ef_log_open)

lemma create_ticket_effects: "desk_effect\<^sup>*\<^sup>* d (fst (create_ticket m body d))"
proof -
  let ?k = "next_pk tk_pk (dk_tickets d)"
  have "desk_effect\<^sup>*\<^sup>* d (fst (case decorate_ticket m ?k body (insert_ticket t d) of
      (d2, Some e) \<Rightarrow> (d2, Some e)
    | (d2, None) \<Rightarrow> (open_time_log ?k (Option.bind (ticket_of d2 ?k) tk_column) (mb_pk m) d2, None)))" for t
  proof -
    have k: "?k \<in> ticket_keys (insert_ticket t d)" by simp
    obtain d2 r where d2: "decorate_ticket m ?k body (insert_ticket t d) = (d2, r)" by fastforce
    then have e: "desk_effect\<^sup>*\<^sup>* d d2 \<and> ?k \<in> ticket_keys d2"
      using decorate_effects [OF k, of m body] effects_trans [OF effect_in [OF ef_ticket_new]] by auto
    then show ?thesis by (cases r) (auto simp: d2 intro: effects_then open_effect)
  qed
  then show ?thesis by (auto simp: create_ticket_def Let_def split: option.splits)
qed

lemma set_links_effects: "set_links k body d = Some e \<Longrightarrow> desk_effect\<^sup>*\<^sup>* d e \<and> ticket_keys e = ticket_keys d"
  by (auto simp: set_links_def bind_eq_Some_conv split: option.splits dest!: tags_effect groups_effect
      intro: effects_then)

lemma replace_assignees_effects:
  assumes "k \<in> ticket_keys d"
  shows "desk_effect\<^sup>*\<^sup>* d (fst (replace_assignees ds m k body d))
    \<and> ticket_keys (fst (replace_assignees ds m k body d)) = ticket_keys d"
proof (cases "tb_users body")
  case None
  then show ?thesis by (simp add: replace_assignees_def)
next
  case (Some ids)
  have k: "k \<in> ticket_keys (clear_assignments k d)" using assms by simp
  obtain e ok where e: "assign_each k (mb_pk m) (tb_roles body) ids (clear_assignments k d) = (e, ok)" by fastforce
  have "desk_effect\<^sup>*\<^sup>* d e \<and> ticket_keys e = ticket_keys d"
    using assign_each_effects [OF k, of "mb_pk m" "tb_roles body" ids] e
      effects_trans [OF effect_in [OF clear_effect]] by auto
  then show ?thesis by (auto simp: replace_assignees_def Some e split: bool.split)
qed

lemma shift_log_effects:
  assumes "k \<in> ticket_keys d"
  shows "desk_effect\<^sup>*\<^sup>* d (shift_log m k a b d)"
  using assms by (auto simp: shift_log_def intro!: effects_then [OF effect_in] ef_log_close open_effect)

lemma update_ticket_effects: "desk_effect\<^sup>*\<^sup>* d (fst (update_ticket ds m verb k body d))"
proof (cases "find_ticket m d k")
  case None
  then show ?thesis by (simp add: update_ticket_def)
next
  case (Some t)
  have go: "desk_effect\<^sup>*\<^sup>* d (fst (case set_links k body (save_ticket (Some (mb_pk m)) t' d) of
                    None \<Rightarrow> (d, Some (links_refusal ds m k body d))
                  | Some d1 \<Rightarrow>
                      (case replace_assignees ds m k body d1 of
                         (_, Some e) \<Rightarrow> (d, Some e)
                       | (d2, None) \<Rightarrow>
                           (shift_log m k (tk_column t) (Option.bind (ticket_of d2 k) tk_column) d2, None))))" for t'
  proof (cases "set_links k body (save_ticket (Some (mb_pk m)) t' d)")
    case None
    then show ?thesis by simp
  next
    case d1: (Some d1)
    note e1 = set_links_effects [OF d1]
    then have k: "k \<in> ticket_keys d1" using find_ticket_keys [OF Some] by simp
    obtain d2 r where d2: "replace_assignees ds m k body d1 = (d2, r)" by fastforce
    have e2: "desk_effect\<^sup>*\<^sup>* d1 d2" "k \<in> ticket_keys d2"
      using replace_assignees_effects [OF k, of ds m body] k by (auto simp: d2)
    have "desk_effect\<^sup>*\<^sup>* d d2"
      using effect_in [OF ef_ticket_save] e1 e2(1) by (meson effects_trans)
    then show ?thesis
      using shift_log_effects [OF e2(2)] by (cases r) (auto simp: d1 d2 intro: effects_trans)
  qed
  then show ?thesis by (auto simp: update_ticket_def Some split: option.splits)
qed

lemma move_ticket_effects:
  assumes "tk_pk t \<in> ticket_keys d"
  shows "desk_effect\<^sup>*\<^sup>* d (move_ticket m t c p d)"
proof -
  let ?d1 = "close_active_time_log (tk_pk t) (tk_column t) d"
  let ?d2 = "case tk_column t of None \<Rightarrow> ?d1 | Some old \<Rightarrow>
    if old \<noteq> c then renumber_column (filter (\<lambda>i. i \<noteq> tk_pk t) (locked_column_order d old)) None ?d1 else ?d1"
  have "desk_effect\<^sup>*\<^sup>* d ?d2 \<and> ticket_keys ?d2 = ticket_keys d"
    by (auto split: option.splits intro: effects_then effect_in renumber_effect ef_log_close)
  then have d2: "desk_effect\<^sup>*\<^sup>* d ?d2" "ticket_keys ?d2 = ticket_keys d" by blast+
  have d4: "desk_effect\<^sup>*\<^sup>* d (save_ticket u t' (renumber_column ids s ?d2))" for u t' ids s
    by (rule effects_then [OF effects_then [OF d2(1) renumber_effect] ef_ticket_save])
  show ?thesis
    unfolding move_ticket_def Let_def
    by (rule effects_then [OF d4 open_effect]) (use assms d2(2) in simp)
qed

lemma reorder_ticket_effects: "desk_effect\<^sup>*\<^sup>* d (reorder_ticket m t c p d)"
  unfolding reorder_ticket_def Let_def
  by (rule effects_then [OF effect_in [OF renumber_effect] ef_ticket_save])

lemma column_op_effects:
  "desk_effect\<^sup>*\<^sup>* d (fst (create_column m b cy d))" "desk_effect\<^sup>*\<^sup>* d (fst (update_column m k cy d))"
  "desk_effect\<^sup>*\<^sup>* d (fst (destroy_column m k d))" "desk_effect\<^sup>*\<^sup>* d (fst (reorder_column m k raw d))"
  by (auto simp: create_column_def update_column_def destroy_column_def reorder_column_def place_column_def Let_def
      split: option.splits intro: effect_in desk_effect.intros)

lemma board_op_effects:
  "desk_effect\<^sup>*\<^sup>* d (fst (create_board uc m bz d))" "desk_effect\<^sup>*\<^sup>* d (fst (update_board uc m k bz d))"
  "desk_effect\<^sup>*\<^sup>* d (fst (set_default_board m k d))"
  by (auto simp: create_board_def update_board_def set_default_board_def Let_def
      split: option.splits prod.splits intro: effect_in desk_effect.intros)

lemma destroy_board_effects: "desk_effect\<^sup>*\<^sup>* d (fst (destroy_board m k d))"
proof -
  have b: "dk_boards (drop_columns g d) = dk_boards d" for g by (simp add: drop_columns_def)
  have "desk_effect\<^sup>*\<^sup>* d ((drop_columns g d)\<lparr>dk_boards := row_delete kb_pk k (dk_boards d)\<rparr>)" for g
    using effects_then [OF effect_in [OF ef_columns_drop [of d g]] ef_board_drop [of _ k]] by (simp add: b)
  then show ?thesis by (auto simp: destroy_board_def split: option.splits)
qed

lemma form_op_effects:
  "desk_effect\<^sup>*\<^sup>* d (fst (create_form m ti df ac d))" "desk_effect\<^sup>*\<^sup>* d (fst (update_form m k ti' df' ac' d))"
  "desk_effect\<^sup>*\<^sup>* d (fst (set_default_form m k d))"
  by (auto simp: create_form_def update_form_def set_default_form_def split: option.splits
      intro: effect_in desk_effect.intros)

lemma beside_in: "desk_beside d e \<Longrightarrow> desk_effect\<^sup>*\<^sup>* d e"
  by (rule effect_in [OF ef_beside])

lemma desk_besideI:
  "desk_beside d (d\<lparr>dk_payments := ps\<rparr>)" "desk_beside d (d\<lparr>dk_checklist := cs\<rparr>)"
  "desk_beside d (d\<lparr>dk_items := xs\<rparr>)" "desk_beside d (d\<lparr>dk_comments := ms\<rparr>)"
  "desk_beside d (d\<lparr>dk_checklist := cs', dk_checklist := cs\<rparr>)" "desk_beside d d"
  by (simp_all add: desk_beside_def)

lemma part_op_effects:
  "desk_effect\<^sup>*\<^sup>* d (fst (toggle_check m k d))" "desk_effect\<^sup>*\<^sup>* d (fst (reorder_check m k raw d))"
  "desk_effect\<^sup>*\<^sup>* d (insert_check ck d)" "desk_effect\<^sup>*\<^sup>* d (fst (reorder_item m k raw d))"
  "desk_effect\<^sup>*\<^sup>* d (fst (post_comment m k u txt d))" "desk_effect\<^sup>*\<^sup>* d (fst (add_comment m k ok u txt d))"
  "desk_effect\<^sup>*\<^sup>* d (fst (post_payment m k am cur how d))" "desk_effect\<^sup>*\<^sup>* d (fst (patch_payment m k am d))"
  "desk_effect\<^sup>*\<^sup>* d (fst (destroy_payment m k d))"
  by (auto simp: toggle_check_def reorder_check_def insert_check_def reorder_item_def post_comment_def comment_as_def add_comment_def
      insert_comment_def post_payment_def insert_payment_def patch_payment_def destroy_payment_def save_check_def
      place_check_def place_item_def save_item_def desk_beside_def split: option.splits intro!: beside_in)

lemma add_payment_effects: "desk_effect\<^sup>*\<^sup>* d (fst (add_payment t x uid d))"
proof -
  have "desk_effect\<^sup>*\<^sup>* e (insert_payment k x cur how uid e)" for k cur how e
    unfolding insert_payment_def by (rule beside_in) (rule desk_besideI)
  then have "desk_effect\<^sup>*\<^sup>* d (insert_payment k x cur how uid (save_ticket u t' d))" for k cur how u t'
    by (rule effects_trans [OF effect_in [OF ef_ticket_save]])
  then show ?thesis
    by (auto simp: add_payment_def intro: effect_in ef_ticket_save)
qed

lemma process_payment_effects: "desk_effect\<^sup>*\<^sup>* d (fst (process_payment m k x d))"
  by (auto simp: process_payment_def add_payment_effects split: option.splits)

lemma ticket_op_effects:
  "desk_effect\<^sup>*\<^sup>* d (fst (assign_ticket m k u d))" "desk_effect\<^sup>*\<^sup>* d (fst (destroy_ticket ds m k d))"
  "desk_effect\<^sup>*\<^sup>* d (fst (reorder_in_column m k raw d))"
  by (auto simp: assign_ticket_def destroy_ticket_def reorder_in_column_def reorder_ticket_effects
      split: option.splits intro: effect_in desk_effect.intros)

lemma move_to_column_effects: "desk_effect\<^sup>*\<^sup>* d (fst (move_to_column m k c raw d))"
  by (auto simp: move_to_column_def split: option.splits dest!: find_ticket_keys intro!: move_ticket_effects)

lemma assignment_op_effects:
  "desk_effect\<^sup>*\<^sup>* d (fst (bulk_unassign m k ids d))" "desk_effect\<^sup>*\<^sup>* d (fst (change_role k a r d))"
  "desk_effect\<^sup>*\<^sup>* d (fst (drop_assignment k a d))" "desk_effect\<^sup>*\<^sup>* d (fst (post_assignment k d))"
  by (auto simp: bulk_unassign_def change_role_def drop_assignment_def row_delete_def post_assignment_def
      split: option.splits intro: effect_in desk_effect.intros)

definition ensure_assigned :: "pk \<Rightarrow> (pk \<times> string) list \<Rightarrow> pk \<Rightarrow> desk \<Rightarrow> pk \<Rightarrow> desk" where
  "ensure_assigned k roles b e u =
     (case create_assignment k u (assign_role roles u) b e of Some e' \<Rightarrow> e' | None \<Rightarrow> e)"

lemma foldl_assign_effects:
  "k \<in> ticket_keys d \<Longrightarrow> desk_effect\<^sup>*\<^sup>* d (foldl (ensure_assigned k roles b) d ids)"
proof (induction ids arbitrary: d)
  case Nil
  then show ?case by simp
next
  case (Cons u ids)
  have "desk_effect\<^sup>*\<^sup>* d (ensure_assigned k roles b d u) \<and> k \<in> ticket_keys (ensure_assigned k roles b d u)"
    using Cons.prems by (auto simp: ensure_assigned_def split: option.splits dest: assign_effect intro: effect_in)
  then show ?case using Cons.IH by (auto intro: effects_trans)
qed

lemma bulk_assign_effects: "desk_effect\<^sup>*\<^sup>* d (fst (bulk_assign m k ids roles rep d))"
proof -
  have "desk_effect\<^sup>*\<^sup>* d (foldl (ensure_assigned k roles (mb_pk m)) (if rep then clear_assignments k d else d) ids)"
    if "k \<in> ticket_keys d"
    using foldl_assign_effects [OF that] foldl_assign_effects [of k "clear_assignments k d"] that
      effects_trans [OF effect_in [OF clear_effect [of d k]]] by simp
  then show ?thesis
    by (auto simp: bulk_assign_def Let_def ensure_assigned_def [abs_def] split: option.splits dest!: ticket_of_keys)
qed

subsection \<open>The transition system\<close>

text \<open>
  With \<open>steady\<close>, no column is edited to start or stop tracking time.
\<close>

inductive desk_step :: "bool \<Rightarrow> desk \<Rightarrow> desk \<Rightarrow> bool" for steady :: bool where
  st_time: "dk_clock d \<le> now \<Longrightarrow> desk_step steady d (d\<lparr>dk_clock := now\<rparr>)"
| st_create: "desk_step steady d (fst (create_ticket m body d))"
| st_update: "desk_step steady d (fst (update_ticket ds m verb k body d))"
| st_move: "desk_step steady d (fst (move_to_column m k c raw d))"
| st_reorder: "desk_step steady d (fst (reorder_in_column m k raw d))"
| st_assign: "desk_step steady d (fst (assign_ticket m k u d))"
| st_destroy: "desk_step steady d (fst (destroy_ticket ds m k d))"
| st_add_comment: "desk_step steady d (fst (add_comment m k ok u txt d))"
| st_post_comment: "desk_step steady d (fst (post_comment m k uid txt d))"
| st_bulk_assign: "desk_step steady d (fst (bulk_assign m k ids roles replace d))"
| st_bulk_unassign: "desk_step steady d (fst (bulk_unassign m k ids d))"
| st_post_assignment: "desk_step steady d (fst (post_assignment k d))"
| st_change_role: "desk_step steady d (fst (change_role k a role d))"
| st_drop_assignment: "desk_step steady d (fst (drop_assignment k a d))"
| st_process_payment: "desk_step steady d (fst (process_payment m tid amount d))"
| st_post_payment: "desk_step steady d (fst (post_payment m k am cur how d))"
| st_patch_payment: "desk_step steady d (fst (patch_payment m k am d))"
| st_destroy_payment: "desk_step steady d (fst (destroy_payment m k d))"
| st_new_column: "desk_step steady d (fst (create_column m b cy d))"
| st_edit_column: "(steady \<longrightarrow> cy_track cy = None) \<Longrightarrow> desk_step steady d (fst (update_column m k cy d))"
| st_drop_column: "desk_step steady d (fst (destroy_column m k d))"
| st_reorder_column: "desk_step steady d (fst (reorder_column m k raw d))"
| st_new_board: "desk_step steady d (fst (create_board uc m bz d))"
| st_edit_board: "desk_step steady d (fst (update_board uc m k bz d))"
| st_drop_board: "desk_step steady d (fst (destroy_board m k d))"
| st_default_board: "desk_step steady d (fst (set_default_board m k d))"
| st_new_check: "desk_step steady d (insert_check ck d)"
| st_toggle_check: "desk_step steady d (fst (toggle_check m k d))"
| st_reorder_check: "desk_step steady d (fst (reorder_check m k raw d))"
| st_reorder_item: "desk_step steady d (fst (reorder_item m k raw d))"
| st_new_form: "desk_step steady d (fst (create_form m ti df ac d))"
| st_edit_form: "desk_step steady d (fst (update_form m k ti' df' ac' d))"
| st_default_form: "desk_step steady d (fst (set_default_form m k d))"

text \<open>A desk before its first row.\<close>

definition desk_start :: "desk \<Rightarrow> bool" where
  "desk_start d \<longleftrightarrow>
     dk_boards d = [] \<and> dk_columns d = [] \<and> dk_tickets d = [] \<and> dk_assignments d = [] \<and> dk_logs d = []
   \<and> dk_payments d = [] \<and> dk_history d = [] \<and> dk_checklist d = [] \<and> dk_items d = [] \<and> dk_forms d = []
   \<and> dk_comments d = []"

lemmas desk_op_effects = create_ticket_effects update_ticket_effects move_to_column_effects
  ticket_op_effects assignment_op_effects bulk_assign_effects process_payment_effects column_op_effects
  board_op_effects destroy_board_effects form_op_effects part_op_effects

lemma step_effects: "desk_step s d e \<Longrightarrow> desk_effect\<^sup>*\<^sup>* d e"
  by (induction rule: desk_step.induct) (rule desk_op_effects | (rule effect_in, erule ef_clock))+

interpretation tidy: invariant_system desk_start "desk_step s" tidy_desk for s
proof
  show "tidy_desk d" if "desk_start d" for d
    using that by (auto simp: desk_start_def tidy_desk_def desk_keys_def desk_refs_def desk_defaults_def
        desk_pairs_def one_default_def default_per_board_def)
  show "tidy_desk e" if "tidy_desk d" "desk_step s d e" for d e
    using tidy_effects [OF step_effects [OF that(2)] that(1)] .
qed

end
