(* ===== verification/Ticket_Logs.thy ===== *)
theory Ticket_Logs
  imports Ticket_Runs
begin

text \<open>
  Open time logs.  In a desk where columns keep their tracking flag, an open log belongs to the column
  its ticket is in, and no ticket has two: moving a ticket, updating it and deleting columns, boards
  or tickets close or remove what they leave behind.
\<close>

subsection \<open>Open logs\<close>

definition col_of :: "desk \<Rightarrow> pk \<Rightarrow> pk option" where
  "col_of d k = Option.bind (ticket_of d k) tk_column"

definition open_logs :: "desk \<Rightarrow> time_log list" where
  "open_logs d = filter (\<lambda>l. tl_exited l = None) (dk_logs d)"

definition tracked :: "desk \<Rightarrow> pk \<Rightarrow> bool" where
  "tracked d c \<longleftrightarrow> (\<exists>x\<in>set (dk_columns d). kc_pk x = c \<and> kc_track x)"

text \<open>The open logs agree with the columns \<open>cf\<close> gives the tickets.\<close>

definition logs_at :: "(pk \<Rightarrow> pk option) \<Rightarrow> desk \<Rightarrow> bool" where
  "logs_at cf d \<longleftrightarrow>
     distinct (map tl_ticket (open_logs d))
   \<and> (\<forall>l\<in>set (open_logs d). cf (tl_ticket l) = Some (tl_column l) \<and> tracked d (tl_column l))"

definition clocked :: "desk \<Rightarrow> bool" where
  "clocked d \<longleftrightarrow> logs_at (col_of d) d"

definition log_rows :: "desk \<Rightarrow> bool" where
  "log_rows d \<longleftrightarrow>
     distinct (map tl_pk (dk_logs d)) \<and> distinct (map kc_pk (dk_columns d))
   \<and> (\<forall>l\<in>set (dk_logs d). tl_exited l = None \<longrightarrow> tl_duration l = None)"

lemma tidy_log_rows:
  assumes "tidy_desk d"
  shows "log_rows d"
proof -
  have "tl_duration l = None" if "l \<in> set (dk_logs d)" "tl_exited l = None" for l
    using tidyD(6) [OF assms that(1)] that(2) by (simp add: log_fits_def)
  then show ?thesis using tidyD(1) [OF assms] by (simp add: log_rows_def desk_keys_def)
qed

lemma log_rows_cong: "dk_logs e = dk_logs d \<Longrightarrow> dk_columns e = dk_columns d \<Longrightarrow> log_rows e = log_rows d"
  by (simp add: log_rows_def)

lemma logs_at_cong:
  "dk_logs e = dk_logs d \<Longrightarrow> dk_columns e = dk_columns d \<Longrightarrow> logs_at cf e = logs_at cf d"
  by (simp add: logs_at_def open_logs_def tracked_def)

lemma column_of_unique:
  assumes "distinct (map kc_pk (dk_columns d))" and "x \<in> set (dk_columns d)"
  shows "column_of d (kc_pk x) = Some x"
  unfolding column_of_def by (rule row_get_unique [OF assms])

subsection \<open>Closing and opening\<close>

lemma find_sorted_exists:
  assumes "l \<in> set xs" and "P l"
  shows "\<exists>l'. find P (sort_key f xs) = Some l'"
  using assms by (cases "find P (sort_key f xs)") (auto simp: find_None_iff)

lemma row_save_open:
  assumes "distinct (map tl_pk ls)" and "l \<in> set ls"
  shows "filter (\<lambda>x. tl_exited x = None) (row_save tl_pk (closed_log now l) ls) =
    filter (\<lambda>x. tl_pk x \<noteq> tl_pk l) (filter (\<lambda>x. tl_exited x = None) ls)"
  unfolding row_save_def by (induction ls) (auto simp: closed_log_def)

lemma close_keeps_away:
  assumes rows: "log_rows d" and at: "logs_at cf d" and cf': "\<And>i. i \<noteq> k \<Longrightarrow> cf' i = cf i"
  shows "logs_at cf' (close_active_time_log k (cf k) d)
    \<and> k \<notin> tl_ticket ` set (open_logs (close_active_time_log k (cf k) d))"
proof (cases "k \<in> tl_ticket ` set (open_logs d)")
  case False
  have "active_log d k c = None" for c
  proof (cases "active_log d k c")
    case (Some l)
    then have "l \<in> set (open_logs d)" "tl_ticket l = k"
      using active_log_open [OF Some] by (auto simp: open_logs_def)
    then show ?thesis using False by auto
  qed
  then have "close_active_time_log k (cf k) d = d"
    by (simp add: close_active_time_log_def split: option.splits)
  moreover have "logs_at cf' d"
    unfolding logs_at_def
  proof (intro conjI ballI)
    show "distinct (map tl_ticket (open_logs d))" using at by (simp add: logs_at_def)
    fix l assume l: "l \<in> set (open_logs d)"
    then have "tl_ticket l \<noteq> k" using False by auto
    then show "cf' (tl_ticket l) = Some (tl_column l)" "tracked d (tl_column l)"
      using at l cf' by (auto simp: logs_at_def)
  qed
  ultimately show ?thesis using False by simp
next
  case True
  then obtain l0 where l0: "l0 \<in> set (open_logs d)" "tl_ticket l0 = k" by auto
  then have c: "cf k = Some (tl_column l0)" "tracked d (tl_column l0)" using at by (auto simp: logs_at_def)
  then obtain x where x: "x \<in> set (dk_columns d)" "kc_pk x = tl_column l0" "kc_track x"
    by (auto simp: tracked_def)
  have col: "column_of d (tl_column l0) = Some x"
    using column_of_unique [OF _ x(1)] rows x(2) by (simp add: log_rows_def)
  have "l0 \<in> set (dk_logs d)" "tl_exited l0 = None" using l0 by (auto simp: open_logs_def)
  then have "\<exists>l. active_log d k (tl_column l0) = Some l"
    unfolding active_log_def by (intro find_sorted_exists [of l0]) (use l0(2) in simp_all)
  then obtain l where l: "active_log d k (tl_column l0) = Some l" ..
  note o = active_log_open [OF l]
  have "tl_duration l = None" using rows o by (auto simp: log_rows_def)
  then have closed: "close_active_time_log k (cf k) d =
      d\<lparr>dk_logs := row_save tl_pk (closed_log (dk_clock d) l) (dk_logs d)\<rparr>"
    by (simp add: close_active_time_log_def c col x l calculate_duration_def closed_log_def)
  have logs: "open_logs (close_active_time_log k (cf k) d) = filter (\<lambda>y. tl_pk y \<noteq> tl_pk l) (open_logs d)"
    using row_save_open [OF _ o(1)] rows by (simp add: closed open_logs_def log_rows_def)
  have "l \<in> set (open_logs d)" using o by (simp add: open_logs_def)
  have away: "tl_ticket y \<noteq> k" if "y \<in> set (open_logs d)" "tl_pk y \<noteq> tl_pk l" for y
  proof
    assume "tl_ticket y = k"
    moreover have "inj_on tl_ticket (set (open_logs d))" using at by (simp add: logs_at_def distinct_map)
    ultimately have "y = l" using \<open>l \<in> set (open_logs d)\<close> o(2) that(1) by (auto simp: inj_on_def)
    with that(2) show False by simp
  qed
  have "logs_at cf' (close_active_time_log k (cf k) d)"
    unfolding logs_at_def logs
  proof (intro conjI ballI)
    show "distinct (map tl_ticket (filter (\<lambda>y. tl_pk y \<noteq> tl_pk l) (open_logs d)))"
      using at by (simp add: logs_at_def distinct_map_filter)
    fix y assume "y \<in> set (filter (\<lambda>y. tl_pk y \<noteq> tl_pk l) (open_logs d))"
    then have y: "y \<in> set (open_logs d)" "tl_ticket y \<noteq> k" using away by auto
    then show "cf' (tl_ticket y) = Some (tl_column y)"
      "tracked (close_active_time_log k (cf k) d) (tl_column y)"
      using at cf' by (auto simp: logs_at_def tracked_def)
  qed
  then show ?thesis using away by (auto simp: logs)
qed

lemma open_keeps:
  assumes rows: "log_rows d" and at: "logs_at cf d" and new: "k \<notin> tl_ticket ` set (open_logs d)"
  shows "logs_at cf (open_time_log k (cf k) u d)"
proof -
  consider "open_time_log k (cf k) u d = d"
    | c l where "cf k = Some c" "tracked d c" "tl_ticket l = k" "tl_column l = c" "tl_exited l = None"
      "open_time_log k (cf k) u d = d\<lparr>dk_logs := row_create l (dk_logs d)\<rparr>"
  proof (cases "Option.bind (cf k) (column_of d)")
    case None
    then show ?thesis using that(1) by (simp add: open_time_log_def)
  next
    case (Some x)
    then obtain c where c: "cf k = Some c" "column_of d c = Some x" by (cases "cf k") auto
    then have x: "x \<in> set (dk_columns d)" "kc_pk x = c" by (auto simp: column_of_def dest: row_get_Some)
    show ?thesis
    proof (cases "kc_track x")
      case True
      let ?l = "\<lparr>tl_pk = next_pk tl_pk (dk_logs d), tl_ticket = k, tl_column = c, tl_user = u,
                  tl_entered = dk_clock d, tl_exited = None, tl_duration = None\<rparr>"
      have "tracked d c" using x True by (auto simp: tracked_def)
      moreover have "open_time_log k (cf k) u d = d\<lparr>dk_logs := row_create ?l (dk_logs d)\<rparr>"
        using c x True by (simp add: open_time_log_def)
      ultimately show ?thesis using that(2) [of c ?l] c(1) by simp
    qed (use that(1) c in \<open>simp add: open_time_log_def\<close>)
  qed
  then show ?thesis
  proof cases
    case 1
    with at show ?thesis by simp
  next
    case (2 c l)
    have "open_logs (open_time_log k (cf k) u d) = open_logs d @ [l]"
      by (simp add: open_logs_def 2(5,6) row_create_def)
    moreover have "tracked (open_time_log k (cf k) u d) = tracked d" by (simp add: tracked_def fun_eq_iff)
    ultimately show ?thesis using at new 2(1-4) by (auto simp: logs_at_def)
  qed
qed

subsection \<open>Operations that leave logs alone\<close>

definition quiet :: "desk \<Rightarrow> desk \<Rightarrow> bool" where
  "quiet d e \<longleftrightarrow>
     dk_logs e = dk_logs d \<and> (\<forall>c. tracked d c \<longrightarrow> tracked e c)
   \<and> (\<forall>k. col_of d k \<noteq> None \<longrightarrow> col_of e k = col_of d k)"

lemma quiet_clocked: "quiet d e \<Longrightarrow> clocked d \<Longrightarrow> clocked e"
  unfolding quiet_def clocked_def logs_at_def open_logs_def by fastforce

lemma quiet_refl [simp]: "quiet d d"
  by (simp add: quiet_def)

lemma quiet_trans [trans]: "quiet a b \<Longrightarrow> quiet b c \<Longrightarrow> quiet a c"
  unfolding quiet_def by metis

lemma quiet_same:
  "dk_logs e = dk_logs d \<Longrightarrow> dk_columns e = dk_columns d \<Longrightarrow> dk_tickets e = dk_tickets d \<Longrightarrow> quiet d e"
  by (simp add: quiet_def tracked_def col_of_def ticket_of_def)

lemma col_of_map:
  assumes "dk_tickets e = map f (dk_tickets d)" and "\<And>t. tk_pk (f t) = tk_pk t"
  shows "col_of e k = Option.bind (ticket_of d k) (\<lambda>t. tk_column (f t))"
proof -
  have "find (\<lambda>r. tk_pk r = k) (map f ts) = map_option f (find (\<lambda>r. tk_pk r = k) ts)" for ts
    by (induction ts) (simp_all add: assms(2))
  then show ?thesis by (simp add: col_of_def ticket_of_def row_get_def assms(1) map_option_case split: option.split)
qed

lemma quiet_cards:
  assumes "\<And>t. same_card (f t) t"
  shows "quiet d (d\<lparr>dk_tickets := map f (dk_tickets d)\<rparr>)"
proof -
  have f: "tk_pk (f t) = tk_pk t" "tk_column (f t) = tk_column t" for t using assms [of t] by (simp_all add: same_card_def)
  have "col_of (d\<lparr>dk_tickets := map f (dk_tickets d)\<rparr>) k = col_of d k" for k
    using col_of_map [of "d\<lparr>dk_tickets := map f (dk_tickets d)\<rparr>" f d k] f by (simp add: col_of_def)
  then show ?thesis by (simp add: quiet_def tracked_def)
qed

lemma saved_form_column:
  "tk_column (saved_form d t) = (case tk_column t of Some c \<Rightarrow> Some c | None \<Rightarrow> default_column d)"
  by (simp add: saved_form_def with_paid_flag_def with_column_def split: option.splits)

lemma col_of_save:
  "col_of (save_ticket uid t d) k =
     (if k = tk_pk t \<and> ticket_of d k \<noteq> None
      then (case tk_column t of Some c \<Rightarrow> Some c | None \<Rightarrow> default_column d) else col_of d k)"
proof (cases "ticket_of d (tk_pk t)")
  case None
  then show ?thesis by (auto simp: save_ticket_def Let_def)
next
  case (Some old)
  then have "tk_pk t \<in> tk_pk ` set (dk_tickets d)" using ticket_of_keys by (simp add: ticket_keys_def)
  then show ?thesis
    using Some by (auto simp: save_ticket_def Let_def col_of_def ticket_of_def row_get_save saved_form_column)
qed

lemma save_ticket_logs [simp]:
  "dk_logs (save_ticket uid t d) = dk_logs d" "dk_columns (save_ticket uid t d) = dk_columns d"
  by (simp_all add: save_ticket_def Let_def split: option.splits)

lemma quiet_save: "tk_column t = col_of d (tk_pk t) \<Longrightarrow> quiet d (save_ticket uid t d)"
  by (auto simp: quiet_def tracked_def col_of_save split: option.splits)

lemma quiet_renumber: "quiet d (renumber_column ids s d)"
proof -
  have "same_card (indexed ids t) t" for t by (simp add: same_card_def indexed_def split: option.splits)
  then have "same_card (if s = Some (tk_pk t) then t else indexed ids t) t" for t by (simp add: same_card_def)
  moreover have "renumber_column ids s d =
      d\<lparr>dk_tickets := map (\<lambda>t. if s = Some (tk_pk t) then t else indexed ids t) (dk_tickets d)\<rparr>"
    by (simp add: renumber_column_def indexed_def)
  ultimately show ?thesis using quiet_cards [of "\<lambda>t. if s = Some (tk_pk t) then t else indexed ids t" d] by simp
qed

text \<open>Nor do they change a column or move a ticket.\<close>

definition still :: "desk \<Rightarrow> desk \<Rightarrow> bool" where
  "still d e \<longleftrightarrow> dk_logs e = dk_logs d \<and> dk_columns e = dk_columns d \<and> col_of e = col_of d"

lemma still_quiet: "still d e \<Longrightarrow> quiet d e"
  by (simp add: still_def quiet_def tracked_def)

lemma still_trans [trans]: "still a b \<Longrightarrow> still b c \<Longrightarrow> still a c"
  by (simp add: still_def)

lemma still_refl [simp]: "still d d"
  by (simp add: still_def)

lemma still_same:
  "dk_logs e = dk_logs d \<Longrightarrow> dk_columns e = dk_columns d \<Longrightarrow> dk_tickets e = dk_tickets d \<Longrightarrow> still d e"
  by (simp add: still_def col_of_def ticket_of_def fun_eq_iff)

lemma still_cards:
  assumes "\<And>t. same_card (f t) t"
  shows "still d (d\<lparr>dk_tickets := map f (dk_tickets d)\<rparr>)"
proof -
  have f: "tk_pk (f t) = tk_pk t" "tk_column (f t) = tk_column t" for t using assms [of t] by (simp_all add: same_card_def)
  have "col_of (d\<lparr>dk_tickets := map f (dk_tickets d)\<rparr>) k = col_of d k" for k
    using col_of_map [of "d\<lparr>dk_tickets := map f (dk_tickets d)\<rparr>" f d k] f by (simp add: col_of_def)
  then show ?thesis by (simp add: still_def fun_eq_iff)
qed

lemma still_tags: "set_ticket_tags k ids d = Some e \<Longrightarrow> still d e"
proof -
  assume e: "set_ticket_tags k ids d = Some e"
  have "same_card (if tk_pk t = k then t\<lparr>tk_tags := remdups ids\<rparr> else t) t" for t by (simp add: same_card_def)
  from still_cards [of "\<lambda>t. if tk_pk t = k then t\<lparr>tk_tags := remdups ids\<rparr> else t", OF this] show ?thesis
    using e unfolding set_ticket_tags_def by (auto split: if_split_asm)
qed

lemma still_groups: "set_ticket_groups k ids d = Some e \<Longrightarrow> still d e"
proof -
  assume e: "set_ticket_groups k ids d = Some e"
  have "same_card (if tk_pk t = k then t\<lparr>tk_groups := remdups ids\<rparr> else t) t" for t by (simp add: same_card_def)
  from still_cards [of "\<lambda>t. if tk_pk t = k then t\<lparr>tk_groups := remdups ids\<rparr> else t", OF this] show ?thesis
    using e unfolding set_ticket_groups_def by (auto split: if_split_asm)
qed

lemma still_assignment: "create_assignment k u r b d = Some e \<Longrightarrow> still d e"
  by (auto simp: create_assignment_def intro: still_same split: if_splits)

lemma still_assign_each: "still d (fst (assign_each k b roles us d))"
proof (induction us arbitrary: d)
  case (Cons u us)
  show ?case
  proof (cases "create_assignment k u (assign_role roles u) b d")
    case (Some e)
    then show ?thesis using still_trans [OF still_assignment [OF Some] Cons.IH [of e]] by simp
  qed simp
qed simp

lemma still_decorate: "still d (fst (decorate_ticket m k body d))"
proof (cases "set_ticket_tags k (or_given (tb_tags body) []) d")
  case None
  then show ?thesis by (simp add: decorate_ticket_def)
next
  case d1: (Some d1)
  show ?thesis
  proof (cases "set_ticket_groups k (or_given (tb_groups body) []) d1")
    case None
    then show ?thesis using still_tags [OF d1] by (simp add: decorate_ticket_def d1)
  next
    case d2: (Some d2)
    obtain d3 ok where d3: "assign_each k (mb_pk m) (tb_roles body) (or_given (tb_users body) []) d2 = (d3, ok)"
      by fastforce
    have r: "fst (decorate_ticket m k body d) = d3" by (simp add: decorate_ticket_def d1 d2 d3 split: bool.split)
    have "still d2 d3"
      using still_assign_each [of d2 k "mb_pk m" "tb_roles body" "or_given (tb_users body) []"] by (simp add: d3)
    then show ?thesis unfolding r using still_tags [OF d1] still_groups [OF d2] still_trans by blast
  qed
qed

lemma quiet_insert: "quiet d (insert_ticket t d)"
  by (auto simp: quiet_def tracked_def insert_ticket_def col_of_def ticket_of_def row_get_create split: option.splits)

lemma still_links: "set_links k body d = Some e \<Longrightarrow> still d e"
  by (auto simp: set_links_def bind_eq_Some_conv split: option.splits dest!: still_tags still_groups
      intro: still_trans)

lemma still_replace: "still d (fst (replace_assignees ds m k body d))"
proof (cases "tb_users body")
  case None
  then show ?thesis by (simp add: replace_assignees_def)
next
  case (Some ids)
  obtain e ok where e: "assign_each k (mb_pk m) (tb_roles body) ids (clear_assignments k d) = (e, ok)" by fastforce
  have "still d (clear_assignments k d)" by (auto simp: clear_assignments_def intro: still_same)
  then have "still d e"
    using still_assign_each [of "clear_assignments k d" k "mb_pk m" "tb_roles body" ids] e still_trans by fastforce
  then show ?thesis by (auto simp: replace_assignees_def Some e split: bool.split)
qed

subsection \<open>Creating, updating and moving\<close>

lemma col_of_frame: "dk_tickets e = dk_tickets d \<Longrightarrow> col_of e = col_of d"
  by (simp add: col_of_def ticket_of_def fun_eq_iff)

lemma clocked_open:
  assumes "log_rows d" and "clocked d" and "k \<notin> tl_ticket ` set (open_logs d)"
  shows "clocked (open_time_log k (col_of d k) u d)"
  using open_keeps [OF assms(1) _ assms(3), of "col_of d" u] assms(2)
    col_of_frame [of "open_time_log k (col_of d k) u d" d] by (simp add: clocked_def)

lemma clocked_create:
  assumes "tidy_desk d" and "clocked d"
  shows "clocked (fst (create_ticket m body d))"
proof -
  let ?k = "next_pk tk_pk (dk_tickets d)"
  have "clocked (fst (case decorate_ticket m ?k body (insert_ticket t d) of
      (d2, Some e) \<Rightarrow> (d2, Some e)
    | (d2, None) \<Rightarrow> (open_time_log ?k (Option.bind (ticket_of d2 ?k) tk_column) (mb_pk m) d2, None)))" for t
  proof -
    obtain d2 r where d2: "decorate_ticket m ?k body (insert_ticket t d) = (d2, r)" by fastforce
    have st: "still (insert_ticket t d) d2" using still_decorate [of "insert_ticket t d" m ?k body] by (simp add: d2)
    then have q: "quiet d d2" "dk_columns d2 = dk_columns d"
      using quiet_trans [OF quiet_insert still_quiet] by (auto simp: still_def insert_ticket_def)
    then have logs: "dk_logs d2 = dk_logs d" by (simp add: quiet_def)
    have c: "clocked d2" by (rule quiet_clocked [OF q(1) assms(2)])
    have "log_rows d2" using tidy_log_rows [OF assms(1)] log_rows_cong [OF logs q(2)] by simp
    moreover have "?k \<notin> tl_ticket ` set (open_logs d2)"
    proof -
      have "tl_ticket ` set (open_logs d2) \<subseteq> tk_pk ` set (dk_tickets d)"
        using tidyD(2) [OF assms(1)] by (auto simp: open_logs_def logs desk_refs_def)
      then show ?thesis using next_pk_notin [of tk_pk "dk_tickets d"] by blast
    qed
    ultimately have "clocked (open_time_log ?k (col_of d2 ?k) (mb_pk m) d2)" using c by (intro clocked_open)
    then show ?thesis using c by (cases r) (simp_all add: d2 col_of_def)
  qed
  then show ?thesis using assms(2) by (auto simp: create_ticket_def Let_def split: option.splits)
qed

lemma clocked_shift:
  assumes rows: "log_rows d" and at: "logs_at cf d" and old: "cf k = old" and new: "\<And>i. i \<noteq> k \<Longrightarrow> col_of d i = cf i"
  shows "clocked (shift_log m k old (col_of d k) d)"
proof (cases "old = col_of d k")
  case True
  then have "col_of d = cf" using old new by (metis ext)
  then show ?thesis using at True by (simp add: shift_log_def clocked_def)
next
  case False
  let ?e = "close_active_time_log k old d"
  have e: "logs_at (col_of d) ?e" "k \<notin> tl_ticket ` set (open_logs ?e)"
    using close_keeps_away [OF rows at new, of k] by (simp_all add: old)
  have "log_rows ?e"
    unfolding log_rows_def
  proof (intro conjI)
    show "distinct (map kc_pk (dk_columns ?e))" using rows by (simp add: log_rows_def)
    have "distinct (map tl_pk (dk_logs ?e)) \<and> (\<forall>l\<in>set (dk_logs ?e). tl_exited l = None \<longrightarrow> tl_duration l = None)"
      by (rule close_log_cases [where Q = "\<lambda>e. distinct (map tl_pk (dk_logs e))
            \<and> (\<forall>l\<in>set (dk_logs e). tl_exited l = None \<longrightarrow> tl_duration l = None)"])
        (use rows in \<open>auto simp: log_rows_def closed_log_def dest!: in_row_save\<close>)
    then show "distinct (map tl_pk (dk_logs ?e))"
      "\<forall>l\<in>set (dk_logs ?e). tl_exited l = None \<longrightarrow> tl_duration l = None" by blast+
  qed
  moreover have "col_of ?e = col_of d" by (rule col_of_frame) simp
  ultimately have "clocked (open_time_log k (col_of ?e k) (mb_pk m) ?e)"
    using e by (intro clocked_open) (simp_all add: clocked_def)
  then show ?thesis using False \<open>col_of ?e = col_of d\<close> by (simp add: shift_log_def)
qed

lemma clocked_update:
  assumes "tidy_desk d" and "clocked d"
  shows "clocked (fst (update_ticket ds m verb k body d))"
proof (cases "find_ticket m d k")
  case None
  then show ?thesis using assms by (simp add: update_ticket_def)
next
  case (Some t)
  have keys: "distinct (map tk_pk (dk_tickets d))" using tidyD(1) [OF assms(1)] by (simp add: desk_keys_def)
  note t = find_ticket_row [OF keys Some]
  have go: "clocked (fst (case set_links k body (save_ticket (Some (mb_pk m)) t' d) of
                    None \<Rightarrow> (d, Some (links_refusal ds m k body d))
                  | Some d1 \<Rightarrow>
                      (case replace_assignees ds m k body d1 of
                         (_, Some e) \<Rightarrow> (d, Some e)
                       | (d2, None) \<Rightarrow>
                           (shift_log m k (tk_column t) (Option.bind (ticket_of d2 k) tk_column) d2, None))))"
    if t': "tk_pk t' = k" for t'
  proof (cases "set_links k body (save_ticket (Some (mb_pk m)) t' d)")
    case None
    then show ?thesis using assms by simp
  next
    case d1: (Some d1)
    obtain d2 r where d2: "replace_assignees ds m k body d1 = (d2, r)" by fastforce
    have "still d1 d2" using still_replace [of d1 ds m k body] by (simp add: d2)
    with still_links [OF d1] have st: "still (save_ticket (Some (mb_pk m)) t' d) d2" by (rule still_trans)
    then have logs: "dk_logs d2 = dk_logs d" and q: "dk_columns d2 = dk_columns d" by (simp_all add: still_def)
    have other: "col_of d2 i = col_of d i" if "i \<noteq> k" for i
      using st that t' by (simp add: still_def col_of_save)
    have "clocked (shift_log m k (tk_column t) (col_of d2 k) d2)"
    proof (rule clocked_shift)
      show "log_rows d2" using tidy_log_rows [OF assms(1)] log_rows_cong [OF logs q] by simp
      show "logs_at (col_of d) d2" using assms(2) logs_at_cong [OF logs q] by (simp add: clocked_def)
      show "col_of d k = tk_column t" using t by (simp add: col_of_def)
    qed (rule other)
    then show ?thesis using assms(2) by (cases r) (simp_all add: d1 d2 col_of_def)
  qed
  then show ?thesis
    using assms(2) t by (auto simp: update_ticket_def Some patch_ticket_def split: option.splits)
qed

lemma close_log_rows:
  assumes "log_rows d"
  shows "log_rows (close_active_time_log k c d)"
proof -
  have "distinct (map tl_pk (dk_logs (close_active_time_log k c d)))
    \<and> (\<forall>l\<in>set (dk_logs (close_active_time_log k c d)). tl_exited l = None \<longrightarrow> tl_duration l = None)"
    by (rule close_log_cases [where Q = "\<lambda>e. distinct (map tl_pk (dk_logs e))
          \<and> (\<forall>l\<in>set (dk_logs e). tl_exited l = None \<longrightarrow> tl_duration l = None)"])
      (use assms in \<open>auto simp: log_rows_def closed_log_def dest!: in_row_save\<close>)
  then show ?thesis using assms by (simp add: log_rows_def)
qed

lemma still_renumber: "still d (renumber_column ids s d)"
proof -
  have "same_card (indexed ids t) t" for t by (simp add: same_card_def indexed_def split: option.splits)
  then have "same_card (if s = Some (tk_pk t) then t else indexed ids t) t" for t by (simp add: same_card_def)
  moreover have "renumber_column ids s d =
      d\<lparr>dk_tickets := map (\<lambda>t. if s = Some (tk_pk t) then t else indexed ids t) (dk_tickets d)\<rparr>"
    by (simp add: renumber_column_def indexed_def)
  ultimately show ?thesis using still_cards [of "\<lambda>t. if s = Some (tk_pk t) then t else indexed ids t" d] by simp
qed

lemma clocked_move_ticket:
  assumes "tidy_desk d" and "clocked d" and t: "ticket_of d (tk_pk t) = Some t"
  shows "clocked (move_ticket m t c p d)"
proof -
  let ?k = "tk_pk t"
  let ?d1 = "close_active_time_log ?k (tk_column t) d"
  let ?d2 = "case tk_column t of None \<Rightarrow> ?d1 | Some old \<Rightarrow>
    if old \<noteq> c then renumber_column (filter (\<lambda>i. i \<noteq> ?k) (locked_column_order d old)) None ?d1 else ?d1"
  let ?i = "clamped_index p (length (filter (\<lambda>i. i \<noteq> ?k) (locked_column_order d c)))"
  let ?d3 = "renumber_column (insert_at ?i ?k (filter (\<lambda>i. i \<noteq> ?k) (locked_column_order d c))) (Some ?k) ?d2"
  let ?d4 = "save_ticket (Some (mb_pk m)) (t\<lparr>tk_column := Some c, tk_position := ?i\<rparr>) ?d3"
  have old: "col_of d ?k = tk_column t" using t by (simp add: col_of_def)
  have "still ?d1 ?d2" by (auto intro: still_renumber split: option.splits)
  from still_trans [OF this still_renumber] have st: "still ?d1 ?d3" .
  have c1: "col_of ?d1 = col_of d" by (rule col_of_frame) simp
  have "ticket_keys ?d2 = ticket_keys d" by (auto split: option.splits)
  then have "?k \<in> ticket_keys ?d3" using ticket_of_keys [OF t] by simp
  then have k: "ticket_of ?d3 ?k \<noteq> None" by (auto simp: ticket_keys_def ticket_of_def row_get_None)
  have cols: "col_of ?d4 = (col_of d)(?k := Some c)"
    using st k c1 by (auto simp: col_of_save still_def fun_eq_iff)
  have "log_rows ?d1" by (rule close_log_rows [OF tidy_log_rows [OF assms(1)]])
  then have rows: "log_rows ?d4" using st by (simp add: log_rows_def still_def)
  have logs: "dk_logs ?d4 = dk_logs ?d1" "dk_columns ?d4 = dk_columns ?d1" using st by (simp_all add: still_def)
  have "logs_at ((col_of d)(?k := Some c)) ?d1 \<and> ?k \<notin> tl_ticket ` set (open_logs ?d1)"
    using close_keeps_away [OF tidy_log_rows [OF assms(1)], of "col_of d" ?k] assms(2)
    by (simp add: clocked_def old)
  then have "clocked ?d4" "?k \<notin> tl_ticket ` set (open_logs ?d4)"
    using logs_at_cong [OF logs] logs by (simp_all add: clocked_def cols open_logs_def)
  from clocked_open [OF rows this, of "mb_pk m"] show ?thesis by (simp add: move_ticket_def Let_def cols)
qed

lemma tidy_find:
  assumes "tidy_desk d" and "find_ticket m d k = Some t"
  shows "ticket_of d k = Some t" "tk_pk t = k"
  using find_ticket_row [OF _ assms(2)] tidyD(1) [OF assms(1)] by (simp_all add: desk_keys_def)

lemma clocked_move:
  assumes "tidy_desk d" and "clocked d"
  shows "clocked (fst (move_to_column m k c raw d))"
  using assms tidy_find [OF assms(1)]
  by (auto simp: move_to_column_def split: option.splits intro!: clocked_move_ticket)

lemma quiet_ticket_save:
  assumes "tidy_desk d" and "ticket_of d k = Some t" and "tk_pk t' = tk_pk t" and "tk_column t' = tk_column t"
  shows "quiet d (save_ticket uid t' d)"
proof -
  have "tk_pk t = k" using assms(2) by (auto simp: ticket_of_def dest: row_get_Some)
  then show ?thesis using assms by (intro quiet_save) (simp add: col_of_def)
qed

lemma quiet_reorder_ticket:
  assumes "tidy_desk d" and "ticket_of d (tk_pk t) = Some t"
  shows "quiet d (reorder_ticket m t c p d)"
proof -
  have col: "col_of (renumber_column ids s d) (tk_pk t) = tk_column t" for ids s
    using still_renumber [of d ids s] assms(2) by (simp add: still_def col_of_def)
  show ?thesis
    unfolding reorder_ticket_def Let_def
    by (rule quiet_trans [OF still_quiet [OF still_renumber] quiet_save]) (simp add: col)
qed

lemma quiet_ticket_ops:
  assumes "tidy_desk d"
  shows "quiet d (fst (reorder_in_column m k raw d))" "quiet d (fst (assign_ticket m k u d))"
  using tidy_find [OF assms]
  by (auto simp: reorder_in_column_def assign_ticket_def split: option.splits
      intro!: quiet_reorder_ticket [OF assms] quiet_ticket_save [OF assms])

lemma quiet_add_payment:
  assumes "tidy_desk d" and "ticket_of d k = Some t"
  shows "quiet d (fst (add_payment t x uid d))"
proof -
  have pay: "quiet e (insert_payment j x cur how uid e)" for j cur how e
    by (auto simp: insert_payment_def intro: quiet_same)
  have save: "quiet d (save_ticket None (credited t x) d)"
    by (rule quiet_ticket_save [OF assms]) (simp_all add: credited_def Let_def split: option.splits)
  show ?thesis
    using save quiet_trans [OF save pay] by (simp add: add_payment_def)
qed

lemma quiet_process_payment:
  assumes "tidy_desk d"
  shows "quiet d (fst (process_payment m k x d))"
  by (auto simp: process_payment_def intro: quiet_add_payment [OF assms] split: option.splits)

subsection \<open>Deleting\<close>

lemma clocked_sub:
  assumes "clocked d" and "\<And>l. l \<in> set (open_logs e) \<Longrightarrow> tracked d (tl_column l) \<Longrightarrow> tracked e (tl_column l)"
    and "\<And>l. l \<in> set (open_logs e) \<Longrightarrow> col_of d (tl_ticket l) = Some (tl_column l) \<Longrightarrow>
          col_of e (tl_ticket l) = Some (tl_column l)"
    and "open_logs e = filter P (open_logs d)"
  shows "clocked e"
proof -
  have "distinct (map tl_ticket (open_logs e))"
    using assms(1) by (simp add: clocked_def logs_at_def assms(4) distinct_map_filter)
  moreover have "col_of d (tl_ticket l) = Some (tl_column l) \<and> tracked d (tl_column l)"
    if "l \<in> set (open_logs e)" for l
    using assms(1,4) that by (auto simp: clocked_def logs_at_def)
  ultimately show ?thesis using assms(2,3) by (simp add: clocked_def logs_at_def)
qed

lemma clocked_drop_ticket:
  assumes "clocked d"
  shows "clocked (drop_ticket k d)"
proof (rule clocked_sub [OF assms])
  show "open_logs (drop_ticket k d) = filter (\<lambda>l. tl_ticket l \<noteq> k) (open_logs d)"
    by (simp add: open_logs_def drop_ticket_def conj_commute)
  show "tracked (drop_ticket k d) c" if "tracked d c" for c using that by (simp add: tracked_def drop_ticket_def)
  fix l assume "l \<in> set (open_logs (drop_ticket k d))" "col_of d (tl_ticket l) = Some (tl_column l)"
  then show "col_of (drop_ticket k d) (tl_ticket l) = Some (tl_column l)"
    by (auto simp: open_logs_def drop_ticket_def col_of_def ticket_of_def row_get_delete)
qed

lemma clocked_drop_columns:
  assumes "clocked d"
  shows "clocked (drop_columns gone d)"
proof (rule clocked_sub [OF assms])
  show "open_logs (drop_columns gone d) = filter (\<lambda>l. \<not> gone (tl_column l)) (open_logs d)"
    by (simp add: open_logs_def drop_columns_def conj_commute)
  fix l assume l: "l \<in> set (open_logs (drop_columns gone d))"
  then have stay: "\<not> gone (tl_column l)" by (simp add: open_logs_def drop_columns_def)
  then show "tracked (drop_columns gone d) (tl_column l)" if "tracked d (tl_column l)"
    using that by (auto simp: tracked_def drop_columns_def)
  assume "col_of d (tl_ticket l) = Some (tl_column l)"
  then obtain t where t: "ticket_of d (tl_ticket l) = Some t" "tk_column t = Some (tl_column l)"
    by (auto simp: col_of_def bind_eq_Some_conv)
  have "col_of (drop_columns gone d) (tl_ticket l) = Option.bind (ticket_of d (tl_ticket l)) (\<lambda>t. tk_column
      (case tk_column t of Some k \<Rightarrow> if gone k then t\<lparr>tk_column := None\<rparr> else t | None \<Rightarrow> t))"
    by (rule col_of_map) (simp_all add: drop_columns_def split: option.splits)
  then show "col_of (drop_columns gone d) (tl_ticket l) = Some (tl_column l)" using t stay by simp
qed

lemma clocked_deletes:
  assumes "clocked d"
  shows "clocked (fst (destroy_ticket ds m k d))" "clocked (fst (destroy_column m j d))"
    "clocked (fst (destroy_board m b d))"
proof -
  have "clocked ((drop_columns g d)\<lparr>dk_boards := bs\<rparr>)" for g bs
    by (rule quiet_clocked [OF quiet_same clocked_drop_columns [OF assms]]) simp_all
  then show "clocked (fst (destroy_ticket ds m k d))" "clocked (fst (destroy_column m j d))"
    "clocked (fst (destroy_board m b d))"
    using assms by (auto simp: destroy_ticket_def destroy_column_def destroy_board_def split: option.splits
        intro: clocked_drop_ticket clocked_drop_columns)
qed

subsection \<open>Columns, boards and the rest\<close>

lemma quiet_columns:
  assumes "\<And>c. tracked d c \<Longrightarrow> \<exists>x\<in>set cs. kc_pk x = c \<and> kc_track x"
  shows "quiet d (d\<lparr>dk_columns := cs\<rparr>)"
  using assms by (auto simp: quiet_def tracked_def col_of_def ticket_of_def)

lemma taken_tracked:
  assumes "x \<in> set cs"
  shows "\<exists>y\<in>set (take_default_column self c cs). kc_pk y = kc_pk x \<and> kc_track y = kc_track x"
proof (cases "kc_default c \<and> kc_default x \<and> kc_board x = kc_board c \<and> Some (kc_pk x) \<noteq> self")
  case True
  then have "x\<lparr>kc_default := False\<rparr> \<in> set (take_default_column self c cs)"
    using assms by (force simp: take_default_column_def)
  then show ?thesis by (intro bexI [of _ "x\<lparr>kc_default := False\<rparr>"]) simp_all
next
  case False
  then have "x \<in> set (take_default_column self c cs)" using assms by (force simp: take_default_column_def)
  then show ?thesis by blast
qed

lemma quiet_new_column: "quiet d (fst (create_column m b cy d))"
proof -
  have "quiet d (insert_column c d)" for c
    unfolding insert_column_def
  proof (rule quiet_columns)
    fix j assume "tracked d j"
    then obtain x where "x \<in> set (dk_columns d)" "kc_pk x = j" "kc_track x" by (auto simp: tracked_def)
    then show "\<exists>x\<in>set (row_create (c\<lparr>kc_pk := next_pk kc_pk (dk_columns d), kc_created := dk_clock d\<rparr>)
        (take_default_column None c (dk_columns d))). kc_pk x = j \<and> kc_track x"
      using taken_tracked [of x "dk_columns d" None c] by auto
  qed
  then show ?thesis by (simp add: create_column_def Let_def)
qed

lemma quiet_flags: "quiet d (d\<lparr>dk_columns := take_default_column self c (dk_columns d)\<rparr>)"
proof (rule quiet_columns)
  fix j assume "tracked d j"
  then obtain x where "x \<in> set (dk_columns d)" "kc_pk x = j" "kc_track x" by (auto simp: tracked_def)
  then show "\<exists>x\<in>set (take_default_column self c (dk_columns d)). kc_pk x = j \<and> kc_track x"
    using taken_tracked [of x "dk_columns d" self c] by auto
qed

lemma quiet_save_column:
  assumes keys: "distinct (map kc_pk (dk_columns d))" and c0: "c0 \<in> set (dk_columns d)"
    and c: "kc_pk c = kc_pk c0" "kc_track c = kc_track c0"
  shows "quiet d (save_column c d)"
  unfolding save_column_def
proof (rule quiet_columns)
  let ?cs = "take_default_column (Some (kc_pk c)) c (dk_columns d)"
  fix j assume "tracked d j"
  then obtain x where x: "x \<in> set (dk_columns d)" "kc_pk x = j" "kc_track x" by (auto simp: tracked_def)
  obtain y where y: "y \<in> set ?cs" "kc_pk y = j" "kc_track y"
    using taken_tracked [OF x(1), of "Some (kc_pk c)" c] x(2,3) by auto
  show "\<exists>z\<in>set (row_save kc_pk c ?cs). kc_pk z = j \<and> kc_track z"
  proof (cases "j = kc_pk c")
    case True
    then have "x = c0" using unique_key [OF keys x(1) c0] x(2) c(1) by simp
    moreover have "c \<in> set (row_save kc_pk c ?cs)" using c0 c(1) by (simp add: set_row_save)
    ultimately show ?thesis using True x(3) c(2) by auto
  next
    case False
    then have "y \<in> set (row_save kc_pk c ?cs)" using y by (auto simp: set_row_save)
    then show ?thesis using y by blast
  qed
qed

lemma quiet_edit_column:
  assumes "tidy_desk d" and "cy_track cy = None"
  shows "quiet d (fst (update_column m k cy d))"
proof (cases "find_column m d k")
  case None
  then show ?thesis by (simp add: update_column_def)
next
  case (Some c0)
  then have c0: "c0 \<in> set (dk_columns d)"
    by (auto simp: find_column_def visible_columns_def dest!: row_get_Some split: if_splits)
  have keys: "distinct (map kc_pk (dk_columns d))" using tidyD(1) [OF assms(1)] by (simp add: desk_keys_def)
  have "quiet d (save_column (c0\<lparr>kc_name := n, kc_position := p, kc_default := df, kc_closed := cl,
      kc_track := or_given (cy_track cy) (kc_track c0)\<rparr>) d)" for n p df cl
    by (rule quiet_save_column [OF keys c0]) (simp_all add: assms(2) or_given_def)
  then show ?thesis by (simp add: update_column_def Some Let_def quiet_flags)
qed

lemma quiet_reorder_column: "quiet d (fst (reorder_column m k raw d))"
proof -
  have r: "renumber_columns ids d = d\<lparr>dk_columns := map (indexed_column ids) (dk_columns d)\<rparr>" for ids
    by (simp add: renumber_columns_def indexed_column_def)
  have "quiet d (renumber_columns ids d)" for ids
    unfolding r by (rule quiet_columns) (auto simp: tracked_def)
  then show ?thesis by (simp add: reorder_column_def place_column_def Let_def split: option.splits)
qed

lemma quiet_aside:
  "quiet d (fst (create_board uc m bz d))" "quiet d (fst (update_board uc m k bz d))"
  "quiet d (fst (set_default_board m k d))"
  "quiet d (fst (create_form m ti df ac d))" "quiet d (fst (update_form m k ti' df' ac' d))"
  "quiet d (fst (set_default_form m k d))"
  "quiet d (fst (toggle_check m k d))" "quiet d (fst (reorder_check m k raw d))"
  "quiet d (insert_check ck d)" "quiet d (fst (reorder_item m k raw d))"
  "quiet d (fst (post_comment m k u txt d))" "quiet d (fst (add_comment m k ok u txt d))"
  "quiet d (fst (post_payment m k am cur how d))" "quiet d (fst (patch_payment m k am d))"
  "quiet d (fst (destroy_payment m k d))" "quiet d (fst (bulk_unassign m k ids d))"
  "quiet d (fst (change_role k a r d))" "quiet d (fst (drop_assignment k a d))" "quiet d (fst (post_assignment k d))"
  by (auto simp: create_board_def update_board_def set_default_board_def create_form_def update_form_def
      set_default_form_def toggle_check_def reorder_check_def insert_check_def reorder_item_def post_comment_def comment_as_def
      add_comment_def insert_comment_def post_payment_def insert_payment_def patch_payment_def destroy_payment_def
      bulk_unassign_def change_role_def drop_assignment_def post_assignment_def insert_board_def save_board_def
      insert_form_def save_form_def save_check_def place_check_def place_item_def save_item_def Let_def
      split: option.splits prod.splits intro!: quiet_same)

lemma still_foldl_assign: "still d (foldl (ensure_assigned k roles b) d ids)"
proof (induction ids arbitrary: d)
  case (Cons u ids)
  have "still d (ensure_assigned k roles b d u)"
    by (auto simp: ensure_assigned_def dest: still_assignment split: option.splits)
  then show ?case using Cons.IH by (auto intro: still_trans)
qed simp

lemma quiet_bulk_assign: "quiet d (fst (bulk_assign m k ids roles rep d))"
proof -
  have "still d (if rep then clear_assignments k d else d)"
    by (auto simp: clear_assignments_def intro: still_same)
  from still_trans [OF this still_foldl_assign]
  have "still d (foldl (ensure_assigned k roles (mb_pk m)) (if rep then clear_assignments k d else d) ids)" .
  then show ?thesis
    using still_quiet by (auto simp: bulk_assign_def Let_def ensure_assigned_def [abs_def] split: option.splits)
qed

lemma quiet_clock: "quiet d (d\<lparr>dk_clock := now\<rparr>)"
  by (rule quiet_same) simp_all

subsection \<open>The steady desk\<close>

definition steady_desk :: "desk \<Rightarrow> bool" where
  "steady_desk d \<longleftrightarrow> tidy_desk d \<and> clocked d"

lemma clocked_step: "desk_step True d e \<Longrightarrow> tidy_desk d \<Longrightarrow> clocked d \<Longrightarrow> clocked e"
proof (induction rule: desk_step.induct)
  case (st_edit_column cy d m k)
  then show ?case using quiet_clocked [OF quiet_edit_column] by blast
qed (blast intro: clocked_create clocked_update clocked_move clocked_deletes
    | rule quiet_clocked, rule quiet_clock quiet_ticket_ops quiet_process_payment quiet_new_column quiet_reorder_column
        quiet_aside quiet_bulk_assign, assumption+)+

interpretation steady: invariant_system desk_start "desk_step True" steady_desk
proof
  show "steady_desk d" if "desk_start d" for d
    using tidy.inv_init [OF that] that
    by (simp add: steady_desk_def clocked_def logs_at_def open_logs_def desk_start_def)
  show "steady_desk e" if "steady_desk d" "desk_step True d e" for d e
    using tidy.inv_step [OF _ that(2)] clocked_step [OF that(2)] that(1) by (simp add: steady_desk_def)
qed

end
