(* ===== verification/Ticket_Props.thy ===== *)
theory Ticket_Props
  imports Ticket_Logs Ticket_Parts
begin

text \<open>
  First the work list of \<^verbatim>\<open>ListItem.get_all_children\<close>: when the parents of a list form a forest it answers,
  and with exactly the descendants; when an item is its own ancestor it never answers.

  Then the properties of the ticket desk: moving a card, what every reachable desk satisfies, who may
  open a ticket, booking a payment, and the guards the code states but does not keep.
\<close>

definition child_rel :: "list_item list \<Rightarrow> (pk \<times> pk) set" where
  "child_rel items = {(a, ix_pk x) | a x. x \<in> set items \<and> ix_parent x = Some a}"

text \<open>A forest: the parents of every item come earlier in some numbering.\<close>

definition ranked :: "(pk \<Rightarrow> nat) \<Rightarrow> list_item list \<Rightarrow> bool" where
  "ranked rank items \<longleftrightarrow>
     list_all (\<lambda>x. case ix_parent x of None \<Rightarrow> True | Some a \<Rightarrow> rank a < rank (ix_pk x)) items"

definition below :: "list_item list \<Rightarrow> list_item list \<Rightarrow> list_item set" where
  "below items queue = {x \<in> set items. \<exists>i\<in>set queue. (ix_pk i, ix_pk x) \<in> (child_rel items)\<^sup>*}"

definition load :: "nat \<Rightarrow> nat \<Rightarrow> (pk \<Rightarrow> nat) \<Rightarrow> list_item list \<Rightarrow> nat" where
  "load n cap rank queue = (\<Sum>i\<leftarrow>queue. (n + 1) ^ (cap - rank (ix_pk i)))"

lemma set_item_children: "set (item_children items k) = {x \<in> set items. ix_parent x = Some k}"
  by (simp add: item_children_def)

lemma sum_list_bound: "(\<And>x. x \<in> set xs \<Longrightarrow> f x \<le> (b::nat)) \<Longrightarrow> (\<Sum>x\<leftarrow>xs. f x) \<le> length xs * b"
  by (induction xs) (auto intro: add_mono)

lemma load_children:
  assumes "ranked rank items" and cap: "\<And>x. x \<in> set items \<Longrightarrow> rank (ix_pk x) \<le> cap"
  shows "load (length items) cap rank (item_children items k) < (length items + 1) ^ (cap - rank k)"
proof -
  let ?n = "length items + 1" and ?cs = "item_children items k"
  have child: "rank k < rank (ix_pk x) \<and> rank (ix_pk x) \<le> cap" if "x \<in> set ?cs" for x
    using that assms by (auto simp: set_item_children ranked_def list_all_iff)
  show ?thesis
  proof (cases "?cs = []")
    case True
    then show ?thesis by (simp add: load_def)
  next
    case False
    then have k: "rank k < cap" using child [of "hd ?cs"] by simp
    have "?n ^ (cap - rank (ix_pk x)) \<le> ?n ^ (cap - rank k - 1)" if "x \<in> set ?cs" for x
      using child [OF that] by (intro power_increasing) auto
    then have "load (length items) cap rank ?cs \<le> length ?cs * ?n ^ (cap - rank k - 1)"
      unfolding load_def by (rule sum_list_bound)
    also have "\<dots> \<le> length items * ?n ^ (cap - rank k - 1)"
      by (simp add: item_children_def)
    also have "\<dots> < ?n * ?n ^ (cap - rank k - 1)" by simp
    also have "\<dots> = ?n ^ (cap - rank k)" using k by (simp add: Suc_diff_Suc flip: power_Suc)
    finally show ?thesis .
  qed
qed

lemma below_step:
  assumes keys: "distinct (map ix_pk items)" and i: "i \<in> set items"
  shows "below items (i # rest) = insert i (below items (rest @ item_children items (ix_pk i)))"
proof (intro equalityI subsetI)
  fix x assume "x \<in> below items (i # rest)"
  then obtain j where x: "x \<in> set items" and j: "j \<in> set (i # rest)" "(ix_pk j, ix_pk x) \<in> (child_rel items)\<^sup>*"
    by (auto simp: below_def)
  show "x \<in> insert i (below items (rest @ item_children items (ix_pk i)))"
  proof (cases "j = i")
    case False
    then show ?thesis using x j by (auto simp: below_def)
  next
    case True
    from j(2) show ?thesis
    proof (cases rule: converse_rtranclE)
      case base
      then have "ix_pk x = ix_pk i" using True by simp
      then have "x = i" by (rule unique_key [OF keys x i])
      then show ?thesis by simp
    next
      case (step c)
      then obtain y where y: "y \<in> set items" "ix_parent y = Some (ix_pk i)" "ix_pk y = c"
        using True by (auto simp: child_rel_def)
      then show ?thesis using step(2) x by (auto simp: below_def set_item_children)
    qed
  qed
next
  fix x assume "x \<in> insert i (below items (rest @ item_children items (ix_pk i)))"
  then consider "x = i" | "x \<in> below items (rest @ item_children items (ix_pk i))" by blast
  then show "x \<in> below items (i # rest)"
  proof cases
    case 1
    then show ?thesis using i by (auto simp: below_def)
  next
    case 2
    then obtain j where x: "x \<in> set items"
      and j: "j \<in> set rest \<or> j \<in> set items \<and> ix_parent j = Some (ix_pk i)"
        "(ix_pk j, ix_pk x) \<in> (child_rel items)\<^sup>*"
      by (auto simp: below_def set_item_children)
    from j(1) show ?thesis
    proof
      assume "j \<in> set items \<and> ix_parent j = Some (ix_pk i)"
      then have "(ix_pk i, ix_pk j) \<in> child_rel items" by (auto simp: child_rel_def)
      then have "(ix_pk i, ix_pk x) \<in> (child_rel items)\<^sup>*" using j(2) by (rule converse_rtrancl_into_rtrancl)
      then show ?thesis using x by (auto simp: below_def)
    qed (use x j(2) in \<open>auto simp: below_def\<close>)
  qed
qed

lemma descend_answers:
  assumes keys: "distinct (map ix_pk items)" and forest: "ranked rank items"
    and cap: "\<And>x. x \<in> set items \<Longrightarrow> rank (ix_pk x) \<le> cap"
  shows "set queue \<subseteq> set items \<Longrightarrow>
    \<exists>r. descend items result queue = Some r \<and> set r = set result \<union> below items queue"
proof (induction "load (length items) cap rank queue" arbitrary: queue result rule: less_induct)
  case less
  show ?case
  proof (cases queue)
    case Nil
    then show ?thesis by (simp add: descend.simps below_def)
  next
    case (Cons i rest)
    let ?q = "rest @ item_children items (ix_pk i)"
    have i: "i \<in> set items" using less.prems Cons by simp
    have "load (length items) cap rank ?q < load (length items) cap rank queue"
      using load_children [OF forest cap, of "ix_pk i"] by (simp add: Cons load_def)
    moreover have "set ?q \<subseteq> set items" using less.prems Cons by (auto simp: set_item_children)
    ultimately obtain r where r: "descend items (result @ [i]) ?q = Some r"
        "set r = set (result @ [i]) \<union> below items ?q"
      using less.hyps by blast
    have "descend items result queue = Some r" by (subst descend.simps) (simp add: Cons r(1))
    then show ?thesis using r(2) below_step [OF keys i, of rest] by (auto simp: Cons)
  qed
qed

text \<open>The items strictly below an item in its list.\<close>

definition descendants :: "desk \<Rightarrow> list_item \<Rightarrow> list_item set" where
  "descendants d i =
     (let items = filter (\<lambda>x. ix_list x = ix_list i) (dk_items d)
      in {x \<in> set items. (ix_pk i, ix_pk x) \<in> (child_rel items)\<^sup>+})"

lemma child_rel_set: "set xs = set ys \<Longrightarrow> child_rel xs = child_rel ys"
  by (simp add: child_rel_def)

lemma get_all_children_forest:
  assumes keys: "distinct (map ix_pk (dk_items d))"
    and forest: "ranked rank (filter (\<lambda>x. ix_list x = ix_list i) (dk_items d))"
  shows "\<exists>r. get_all_children d i = Some r \<and> set r = descendants d i"
proof -
  let ?own = "filter (\<lambda>x. ix_list x = ix_list i) (dk_items d)"
  let ?items = "items_in_order ?own"
  have s: "set ?items = set ?own" by (simp add: items_in_order_def)
  have "distinct (map ix_pk ?own)" using keys by (simp add: distinct_map_filter)
  then have "distinct ?own" "inj_on ix_pk (set ?items)" by (simp_all add: distinct_map s)
  then have dist: "distinct (map ix_pk ?items)" by (simp add: distinct_map items_in_order_def)
  have forest': "ranked rank ?items" using forest by (simp add: ranked_def list_all_iff s)
  let ?cap = "Max (insert 0 (rank ` ix_pk ` set ?items))"
  have "rank (ix_pk x) \<le> ?cap" if "x \<in> set ?items" for x using that by (intro Max_ge) auto
  from descend_answers [OF dist forest' this, of "item_children ?items (ix_pk i)" "[]"]
  obtain r where r: "descend ?items [] (item_children ?items (ix_pk i)) = Some r"
      "set r = below ?items (item_children ?items (ix_pk i))"
    by (auto simp: set_item_children)
  have "below ?items (item_children ?items (ix_pk i)) = descendants d i"
  proof (intro equalityI subsetI)
    fix x assume "x \<in> below ?items (item_children ?items (ix_pk i))"
    then obtain j where x: "x \<in> set ?own" and j: "j \<in> set ?own" "ix_parent j = Some (ix_pk i)"
        "(ix_pk j, ix_pk x) \<in> (child_rel ?items)\<^sup>*"
      by (auto simp: below_def set_item_children s)
    have "(ix_pk i, ix_pk j) \<in> child_rel ?own" using j by (auto simp: child_rel_def)
    then show "x \<in> descendants d i"
      using x j(3) by (auto simp: descendants_def child_rel_set [OF s])
  next
    fix x assume "x \<in> descendants d i"
    then have x: "x \<in> set ?own" "(ix_pk i, ix_pk x) \<in> (child_rel ?own)\<^sup>+" by (auto simp: descendants_def Let_def)
    from x(2) obtain c where c: "(ix_pk i, c) \<in> child_rel ?own" "(c, ix_pk x) \<in> (child_rel ?own)\<^sup>*"
      by (meson tranclD)
    then show "x \<in> below ?items (item_children ?items (ix_pk i))"
      using x(1) by (auto simp: child_rel_def [of ?own] below_def set_item_children child_rel_set [OF s] s
          simp del: set_filter)
  qed
  then show ?thesis using r by (simp add: get_all_children_def Let_def)
qed

text \<open>
  A closed set of keys, each with a child in it: once the work list meets it, it never runs empty.
\<close>

definition endless :: "list_item list \<Rightarrow> pk list \<Rightarrow> bool" where
  "endless items ks \<longleftrightarrow>
     list_all (\<lambda>k. list_ex (\<lambda>x. ix_parent x = Some k \<and> ix_pk x \<in> set ks) items) ks"

lemma endless_child:
  assumes "endless items ks" and "k \<in> set ks"
  shows "\<exists>x\<in>set (item_children items k). ix_pk x \<in> set ks"
  using assms by (auto simp: endless_def list_all_iff list_ex_iff set_item_children)

lemma descend_endless:
  assumes "descend items result queue = Some r"
  shows "endless items ks \<longrightarrow> (\<forall>i\<in>set queue. ix_pk i \<notin> set ks)"
proof (rule descend.raw_induct [OF _ assms, where P = "\<lambda>items result queue r.
    endless items ks \<longrightarrow> (\<forall>i\<in>set queue. ix_pk i \<notin> set ks)"], intro impI ballI)
  fix descend' :: "list_item list \<Rightarrow> list_item list \<Rightarrow> list_item list \<Rightarrow> list_item list option"
    and items result queue :: "list_item list" and r i
  assume ih: "\<And>items result queue r. descend' items result queue = Some r \<Longrightarrow>
      endless items ks \<longrightarrow> (\<forall>i\<in>set queue. ix_pk i \<notin> set ks)"
    and step: "(case queue of [] \<Rightarrow> Some result
      | i # rest \<Rightarrow> descend' items (result @ [i]) (rest @ item_children items (ix_pk i))) = Some r"
    and e: "endless items ks" and i: "i \<in> set queue"
  obtain j rest where q: "queue = j # rest" using i by (cases queue) auto
  then have run: "descend' items (result @ [j]) (rest @ item_children items (ix_pk j)) = Some r"
    using step by simp
  have away: "ix_pk x \<notin> set ks" if "x \<in> set (rest @ item_children items (ix_pk j))" for x
    using ih [OF run] e that by blast
  have "ix_pk j \<notin> set ks"
  proof
    assume "ix_pk j \<in> set ks"
    then obtain x where "x \<in> set (item_children items (ix_pk j))" "ix_pk x \<in> set ks"
      using endless_child [OF e] by blast
    then show False using away [of x] by simp
  qed
  then show "ix_pk i \<notin> set ks" using i q away [of i] by auto
qed

lemma get_all_children_endless:
  assumes "endless (filter (\<lambda>x. ix_list x = ix_list i) (dk_items d)) ks" and "ix_pk i \<in> set ks"
  shows "get_all_children d i = None"
proof (cases "get_all_children d i")
  case (Some r)
  let ?items = "items_in_order (filter (\<lambda>x. ix_list x = ix_list i) (dk_items d))"
  have s: "set ?items = set (filter (\<lambda>x. ix_list x = ix_list i) (dk_items d))" by (simp add: items_in_order_def)
  have e: "endless ?items ks" using assms(1) unfolding endless_def list_ex_iff s .
  have "descend ?items [] (item_children ?items (ix_pk i)) = Some r"
    using Some by (simp add: get_all_children_def Let_def)
  from descend_endless [OF this] e endless_child [OF e assms(2)] show ?thesis by blast
qed

section \<open>The properties of the desk\<close>

subsection \<open>Moving\<close>

text \<open>C16: Moving a ticket to a column is moving a card between lists: the target column shows its former
  tickets with the moved one inserted at the requested index (clamped, or the end), the column it
  left shows the rest, every other column is as before, and both touched columns are numbered from 0
  without gaps.
\<close>

theorem move_refines_lanes:
  assumes "distinct (map tk_pk (dk_tickets d))" and "move_to_column m k col raw d = (d', None)"
  shows "\<exists>t c p. ticket_of d k = Some t \<and> col = Some c \<and> parse_position raw = Some p
    \<and> lanes_of d' = move_card k c p (lanes_of d) \<and> dense_column d' c
    \<and> (tk_column t = None \<or> tk_column t = Some c \<or> dense_column d' (the (tk_column t)))"
proof -
  obtain t c p where t: "find_ticket m d k = Some t" and c: "truthy_ref (Some col) = Some c"
    and p: "parse_position raw = Some p" and d': "d' = move_ticket m t c p d"
    using assms(2) by (auto simp: move_to_column_def split: option.splits)
  note row = find_ticket_row [OF assms(1) t]
  have col: "col = Some c" using c by (auto simp: truthy_ref_def split: option.splits if_splits)
  have mv: "moving d t c p d'" unfolding d' by (rule move_ticket_moving [OF assms(1) row(2)])
  have "tk_column t = None \<or> tk_column t = Some c \<or> dense_column d' (the (tk_column t))"
    using source_column(2) [OF mv] by (cases "tk_column t") auto
  then show ?thesis
    using row(1,3) col p lanes_moved [OF mv] target_column(2) [OF mv] by blast
qed

text \<open>The same for reordering inside the column.\<close>

lemma reorder_refines_lanes:
  assumes "distinct (map tk_pk (dk_tickets d))" and "reorder_in_column m k raw d = (d', None)"
  shows "\<exists>t c p. ticket_of d k = Some t \<and> tk_column t = Some c \<and> parse_position raw = Some (Some p)
    \<and> lanes_of d' = move_card k c (Some p) (lanes_of d) \<and> dense_column d' c"
proof -
  obtain t c p where t: "find_ticket m d k = Some t" and c: "tk_column t = Some c"
    and p: "parse_position raw = Some (Some p)" and d': "d' = reorder_ticket m t c p d"
    using assms(2) by (auto simp: reorder_in_column_def split: option.splits)
  note row = find_ticket_row [OF assms(1) t]
  have mv: "moving d t c (Some p) d'" unfolding d' by (rule reorder_ticket_moving [OF assms(1) row(2) c])
  show ?thesis using row(1,3) c p lanes_moved [OF mv] target_column(2) [OF mv] by blast
qed

text \<open>A column keeps the order of the others on its board, and no other board changes.\<close>

lemma reorder_column_places:
  assumes "distinct (map kc_pk (dk_columns d))" and "reorder_column m k raw d = (d', None)"
  shows "\<exists>c p. column_of d k = Some c \<and> int_of_raw raw = Some p \<and> 0 \<le> p
    \<and> map kc_pk (board_columns d' (kc_board c)) =
        insert_at (min (nat p) (length (board_columns d (kc_board c)) - 1)) k
          (remove1 k (map kc_pk (board_columns d (kc_board c))))
    \<and> map kc_position (board_columns d' (kc_board c)) = [0..<length (board_columns d (kc_board c))]
    \<and> (\<forall>b. b \<noteq> kc_board c \<longrightarrow> board_columns d' b = board_columns d b)"
proof -
  obtain c p where c: "find_column m d k = Some c" and p: "int_of_raw raw = Some p" "0 \<le> p"
    and d': "d' = place_column c (nat p) d"
    using assms(2) by (auto simp: reorder_column_def split: option.splits if_splits)
  have row: "c \<in> set (dk_columns d)" "kc_pk c = k"
    using c by (auto simp: find_column_def visible_columns_def dest!: row_get_Some split: if_splits)
  have get: "column_of d k = Some c" using column_of_unique [OF assms(1) row(1)] row(2) by simp
  have mem: "k \<in> set (map kc_pk (board_columns d (kc_board c)))" using row by (force simp: set_board_columns)
  have len: "length (remove1 k (map kc_pk (board_columns d (kc_board c)))) = length (board_columns d (kc_board c)) - 1"
    using mem by (simp add: length_remove1)
  have pos: "0 < length (board_columns d (kc_board c))" using mem by (cases "board_columns d (kc_board c)") auto
  have target: "board_target c (nat p) d = insert_at (min (nat p) (length (board_columns d (kc_board c)) - 1)) k
      (remove1 k (map kc_pk (board_columns d (kc_board c))))"
    by (simp add: board_target_def Let_def row(2) len)
  then have "length (board_target c (nat p) d) = length (board_columns d (kc_board c))"
    using len pos by simp
  then show ?thesis
    using get p place_column_own [OF assms(1) row(1), of "nat p"] place_column_other [OF assms(1) row(1)]
    by (auto simp: d' target)
qed

subsection \<open>Reachable desks\<close>

text \<open>C18: In every reachable desk there is at most one default board, one default form and one default
  column per board, no account is assigned twice to a ticket, a priced ticket marked as paid is
  covered by its paid amount, and a closed time log lasted from its start to its end, within the
  past, with its whole seconds as duration.
\<close>

theorem desk_consistent:
  assumes "reachable desk_start (desk_step s) d"
  shows "one_default kb_pk kb_default (dk_boards d) \<and> one_default fm_pk fm_default (dk_forms d)
    \<and> default_per_board (dk_columns d)
    \<and> distinct (map (\<lambda>a. (an_ticket a, an_user a)) (dk_assignments d))
    \<and> list_all paid_covered (dk_tickets d) \<and> list_all (log_fits (dk_clock d)) (dk_logs d)"
  using tidyD(3-6) [OF tidy.reachable_inv [OF assms]]
  by (auto simp: desk_defaults_def desk_pairs_def list_all_iff)

text \<open>C17: As long as no column is edited to start or stop tracking time, in every reachable desk a ticket
  has at most one open time log, and it is in the column the ticket is in.
\<close>

theorem one_open_log:
  assumes "reachable desk_start (desk_step True) d"
  shows "distinct (map tl_ticket (open_logs d))
    \<and> list_all (\<lambda>l. col_of d (tl_ticket l) = Some (tl_column l)) (open_logs d)"
  using steady.reachable_inv [OF assms] by (auto simp: steady_desk_def clocked_def logs_at_def list_all_iff)

text \<open>C19: In every reachable desk the number of the latest recorded change of column of a ticket is the
  column the ticket is in, unless it is in none.
\<close>

theorem history_tells_column:
  assumes "reachable desk_start (desk_step s) d" and "ticket_of d k = Some t"
    and "tk_column t \<noteq> None" and "column_changes (dk_history d) k \<noteq> []"
  shows "map_option nat (read_int (hy_new (last (column_changes (dk_history d) k)))) = tk_column t"
proof -
  have t: "t \<in> set (dk_tickets d)" "tk_pk t = k" using assms(2) by (auto simp: ticket_of_def dest: row_get_Some)
  then have "hy_new (last (column_changes (dk_history d) k)) = opt_text (tk_column t)"
    using tidyD(7) [OF tidy.reachable_inv [OF assms(1)] t(1)] assms(3,4) by (simp add: history_current_def t(2))
  then show ?thesis using assms(3) by (auto simp: opt_text_def read_int_nat_text)
qed

subsection \<open>Items\<close>

text \<open>C22: When the parents of the items of a list form a forest, the work list of all_descendants
  empties, and the answer holds exactly the items below the one asked for.
\<close>

theorem all_descendants_answers:
  assumes "distinct (map ix_pk (dk_items d))"
    and "ranked rank (filter (\<lambda>x. ix_list x = ix_list i) (dk_items d))"
  shows "\<exists>r. get_all_children d i = Some r \<and> set r = descendants d i"
  by (rule get_all_children_forest [OF assms])

subsection \<open>Who may open a ticket\<close>

text \<open>C20: The object permission of a read and the visibility filter of the list agree: a ticket is found
  by its detail route exactly when reading it is permitted.
\<close>

theorem readable_is_visible:
  assumes "distinct (map tk_pk (dk_tickets d))" and "t \<in> set (dk_tickets d)"
  shows "find_ticket m d (tk_pk t) = Some t \<longleftrightarrow> ticket_permission m d Verb_safe body t"
proof -
  have "distinct (map tk_pk (visible_tickets m d))"
    using assms(1) by (simp add: visible_tickets_def distinct_map_filter)
  then have "find_ticket m d (tk_pk t) = Some t \<longleftrightarrow> t \<in> set (visible_tickets m d)"
    unfolding find_ticket_def using row_get_unique [of tk_pk "visible_tickets m d" t]
    by (auto dest: row_get_Some)
  also have "\<dots> \<longleftrightarrow> mb_staff m \<or> ticket_visibility m d t" using assms(2) by (auto simp: visible_tickets_def)
  also have "\<dots> \<longleftrightarrow> ticket_permission m d Verb_safe body t"
    by (auto simp: ticket_permission_def ticket_visibility_def Let_def split: option.splits)
  finally show ?thesis .
qed

subsection \<open>Payments\<close>

definition booked_for :: "desk \<Rightarrow> pk \<Rightarrow> decimal" where
  "booked_for d k = (\<Sum>p\<leftarrow>filter (\<lambda>p. tq_ticket p = k) (dk_payments d). tq_amount p)"

lemma credited_saved:
  assumes "tk_price t = Some p" and "p \<noteq> 0"
  shows "tk_is_paid (with_paid_flag (credited t x)) \<longleftrightarrow> p \<le> tk_amount_paid t + x"
  using assms by (auto simp: with_paid_flag_def credited_def Let_def)

lemma credited_simps [simp]:
  "tk_pk (credited t x) = tk_pk t" "tk_column (credited t x) = tk_column t"
  "tk_price (credited t x) = tk_price t" "tk_amount_paid (credited t x) = tk_amount_paid t + x"
  by (simp_all add: credited_def Let_def split: option.splits)

lemma saved_form_money [simp]:
  "tk_price (saved_form d t) = tk_price t" "tk_amount_paid (saved_form d t) = tk_amount_paid t"
  by (simp_all add: saved_form_def with_paid_flag_def with_column_def split: option.splits)

lemma saved_form_flag:
  assumes "tk_price t = Some p" and "p \<noteq> 0"
  shows "tk_is_paid (saved_form d t) \<longleftrightarrow> p \<le> tk_amount_paid t"
proof -
  have "tk_price (with_column d t) = Some p" "tk_amount_paid (with_column d t) = tk_amount_paid t"
    using assms by (simp_all add: with_column_def split: option.splits)
  then show ?thesis using assms by (auto simp: saved_form_def with_paid_flag_def)
qed

lemma ticket_after_save:
  assumes "ticket_of d (tk_pk t) \<noteq> None"
  shows "ticket_of (save_ticket uid t d) (tk_pk t) = Some (stored_ticket (saved_form d t))"
proof -
  have "tk_pk t \<in> tk_pk ` set (dk_tickets d)" using assms by (simp add: ticket_of_def row_get_None)
  then show ?thesis
    using assms by (auto simp: save_ticket_def Let_def ticket_of_def row_get_save split: option.splits)
qed

text \<open>C21: A processed payment of a whole number of cents, on a ticket whose price and paid amount are
  whole numbers of cents, is positive; it adds the same amount to the ticket and to its ledger, whose
  difference stays what it was, and marks a priced ticket as paid exactly when the price is reached.
  The route accepts finer amounts too, and then the last part fails (\<open>fraction_leaves_unpaid\<close>).
\<close>

theorem payment_booked:
  assumes "ticket_of d k = Some t" and "process_payment m (Some k) (Some x) d = (d', None)"
    and "on_grid 2 x" and "on_grid 2 (tk_amount_paid t)" and "tk_price t = Some p" and "on_grid 2 p" and "p \<noteq> 0"
  shows "0 < x \<and> booked_for d' k = booked_for d k + x
    \<and> (\<exists>t'. ticket_of d' k = Some t' \<and> tk_amount_paid t' = tk_amount_paid t + x \<and> tk_price t' = Some p
        \<and> (tk_is_paid t' \<longleftrightarrow> p \<le> tk_amount_paid t'))"
proof -
  have k: "tk_pk t = k" using assms(1) by (auto simp: ticket_of_def dest: row_get_Some)
  have r: "add_payment t x (Some (mb_pk m)) d = (d', None)" and "k \<noteq> 0"
    using assms(1,2) by (auto simp: process_payment_def truthy_ref_def split: if_splits)
  then have x: "0 < x" and d': "d' = insert_payment k x (tk_currency t) ''manual'' (Some (mb_pk m))
      (save_ticket None (credited t x) d)"
    by (auto simp: add_payment_def k split: if_splits)
  have pays: "dk_payments (save_ticket None (credited t x) d) = dk_payments d"
    by (simp add: save_ticket_def Let_def split: option.splits)
  have "booked_for d' k = booked_for d k + x"
    by (simp add: d' booked_for_def insert_payment_def pays round_half_up_id [OF assms(3)] row_create_def)
  moreover have "ticket_of d' k = Some (stored_ticket (saved_form d (credited t x)))"
    using ticket_after_save [of d "credited t x" None] assms(1)
    by (simp add: d' insert_payment_def ticket_of_def k)
  moreover have grid: "on_grid 2 (tk_amount_paid t + x)"
    using assms(3,4) unfolding on_grid_def by (metis distrib_right of_int_add)
  moreover have "tk_is_paid (saved_form d (credited t x)) \<longleftrightarrow> p \<le> tk_amount_paid t + x"
    using saved_form_flag [of "credited t x" p d] assms(5,7) by simp
  ultimately show ?thesis
    using x assms(5) round_half_up_id [OF grid] round_half_up_id [OF assms(6)]
    by (simp add: stored_ticket_def)
qed

end
