(* ===== verification/Ticket_Gaps.thy ===== *)
theory Ticket_Gaps
  imports Ticket_Props
begin

text \<open>
  Where the desk does not do what its comments and settings say: guards one route keeps and another
  skips, switches nothing reads, rows that drift apart.
\<close>

subsection \<open>Guards\<close>

lemma column_after_save:
  assumes "ticket_of d (tk_pk t) \<noteq> None" and "tk_column t = Some c"
  shows "Option.bind (ticket_of (save_ticket uid t d) (tk_pk t)) tk_column = Some c"
  using ticket_after_save [OF assms(1), of uid] saved_form_column [of d t] assms(2) by simp

text \<open>An account that is not staff may not put a ticket into a closed column by editing it, but every
  account that sees the ticket can by moving it, whatever board the column is on.
\<close>

theorem move_skips_closed_guard:
  assumes "tidy_desk d" and "\<not> mb_staff m" and "find_ticket m d k = Some t"
    and "column_of d c = Some col" and "kc_closed col" and "c \<noteq> 0" and "tb_column body = Some (Some c)"
  shows "update_ticket ds m Verb_patch k body d = (d, Some Desk_forbidden)
    \<and> (\<exists>d' t'. move_to_column m k (Some c) Raw_null d = (d', None) \<and> ticket_of d' k = Some t' \<and> ticket_is_closed d' t')"
proof -
  have closed: "closed_target d body" using assms(4,5,7) by (simp add: closed_target_def)
  have "\<not> ticket_permission m d Verb_patch body t"
    using closed assms(2) by (simp add: ticket_permission_def Let_def)
  then have refused: "update_ticket ds m Verb_patch k body d = (d, Some Desk_forbidden)"
    by (simp add: update_ticket_def assms(3))
  note t = tidy_find [OF assms(1,3)]
  let ?d' = "move_ticket m t c None d"
  have ok: "move_to_column m k (Some c) Raw_null d = (?d', None)"
    using assms(4,6) by (simp add: move_to_column_def assms(3) truthy_ref_def parse_position_def)
  have keys: "distinct (map tk_pk (dk_tickets d))" using tidyD(1) [OF assms(1)] by (simp add: desk_keys_def)
  have "t \<in> set (dk_tickets d)" using t(1) by (auto simp: ticket_of_def dest: row_get_Some)
  note mv = movingD(3) [OF move_ticket_moving [OF keys this, of c None m]]
  have "col_of ?d' k = Option.bind (ticket_of d k) (\<lambda>x. tk_column
      (moved_row t (lane_source t c d) (lane_target t c None d) (landed t c None d) x))"
    by (rule col_of_map [OF mv]) simp
  then have "col_of ?d' k = Some c" using t by simp
  then obtain t' where t': "ticket_of ?d' k = Some t'" "tk_column t' = Some c"
    by (auto simp: col_of_def bind_eq_Some_conv)
  have "dk_columns ?d' = dk_columns d"
    by (simp add: move_ticket_def Let_def renumber_column_def split: option.splits)
  then have "column_of ?d' c = Some col" using assms(4) by (simp add: column_of_def)
  then have "ticket_is_closed ?d' t'" using t'(2) assms(5) by (simp add: ticket_is_closed_def ticket_column_row_def)
  then show ?thesis using refused ok t'(1) by blast
qed

text \<open>
  The setting \<^verbatim>\<open>only_superadmin_can_delete_tickets\<close> has no effect: without being staff nobody deletes a
  ticket, its creator included.
\<close>

lemma deletion_is_for_staff:
  assumes "\<not> mb_staff m"
  shows "fst (destroy_ticket ds m k d) = d \<and> snd (destroy_ticket ds m k d) \<noteq> None"
  using assms by (simp add: destroy_ticket_def ticket_permission_def Let_def split: option.splits)

lemma deletion_ignores_setting: "destroy_ticket ds m k d = destroy_ticket ds' m k d"
  by (simp add: destroy_ticket_def ticket_permission_def Let_def split: option.splits)

text \<open>Commenting through the ticket is refused to everybody who is not staff.\<close>

lemma own_comment_refused:
  assumes "\<not> mb_staff m"
  shows "snd (add_comment m k valid u txt d) \<noteq> None"
  using assms by (simp add: add_comment_def ticket_permission_def Let_def split: option.splits)

text \<open>Through the collection anyone comments on any ticket in the name of anyone.\<close>

lemma comment_in_other_name:
  assumes "ticket_of d k \<noteq> None" and "u \<in> set (account_keys d)"
  shows "snd (post_comment m k (Some u) txt d) = None"
    and "cm_user (last (dk_comments (fst (post_comment m k (Some u) txt d)))) = u"
  using assms by (auto simp: post_comment_def comment_as_def insert_comment_def row_create_def)

text \<open>
  \<^verbatim>\<open>edit_tickets\<close> is no name of a permission, so only superusers and the creator of a ticket process
  payments, staff do not.
\<close>

lemma edit_tickets_unknown: "''edit_tickets'' \<notin> set individual_permissions"
  by (simp add: individual_permissions_def)

lemma staff_cannot_process_payment:
  assumes "ticket_of d k = Some t" and "k \<noteq> 0" and "\<not> mb_super m" and "tk_created_by t \<noteq> mb_pk m"
  shows "process_payment m (Some k) (Some x) d = (d, Some Desk_forbidden)"
  using assms has_permission_outside_tables [OF edit_tickets_unknown, of "mb_user m"]
  by (simp add: process_payment_def truthy_ref_def mb_super_def)

text \<open>No request on the assignment collection adds a row.\<close>

lemma assignment_post_never_works: "fst (post_assignment k d) = d \<and> snd (post_assignment k d) \<noteq> None"
  by (simp add: post_assignment_def)

text \<open>Sending \<^verbatim>\<open>null\<close> does not take a ticket from its assignee, department or column; 0 does.\<close>

lemma null_reference_ignored: "changed_ref keys (Some None) old = Some old"
  and zero_reference_clears: "changed_ref keys (Some (Some 0)) old = Some None"
  by (simp_all add: changed_ref_def)

subsection \<open>Money\<close>

text \<open>The payment collection writes payments the tickets never hear of.\<close>

lemma posted_payment_not_credited:
  "dk_tickets (fst (post_payment m k am cur how d)) = dk_tickets d"
  "dk_tickets (fst (patch_payment m k am d)) = dk_tickets d"
  "dk_tickets (fst (destroy_payment m k d)) = dk_tickets d"
  by (simp_all add: post_payment_def insert_payment_def patch_payment_def destroy_payment_def split: option.splits)

text \<open>
  The paid flag is decided on the amount before it is rounded: 9.996 of 10.00 is stored as 10.00 and
  leaves the ticket unpaid.
\<close>

definition short_ticket :: ticket where
  "short_ticket =
     \<lparr>tk_pk = 1, tk_title = ''a'', tk_description = [], tk_priority = Priority_low, tk_column = Some 1, tk_position = 0,
      tk_created = 0, tk_created_by = 1, tk_assigned_to = None, tk_groups = [], tk_department = None, tk_tags = [],
      tk_is_order = False, tk_price = Some 10, tk_currency = ''USD'', tk_is_paid = False, tk_amount_paid = 0, tk_due = None\<rparr>"

lemma rounded_payment_unpaid:
  "tk_amount_paid (stored_ticket (with_paid_flag (credited short_ticket (9996 / 1000)))) = 10"
  "tk_is_paid (stored_ticket (with_paid_flag (credited short_ticket (9996 / 1000)))) = False"
  by code_simp+

subsection \<open>Positions\<close>

text \<open>
  Moving a checklist item to position 0 sends it to the end: \<^verbatim>\<open>save\<close> takes 0 for a missing position.
\<close>

lemma checklist_top_goes_last:
  assumes "c \<in> set (dk_checklist d)" and "distinct (map ck_pk (dk_checklist d))"
  shows "\<forall>x\<in>set (dk_checklist (place_check c 0 d)). ck_ticket x = ck_ticket c \<longrightarrow> ck_pk x \<noteq> ck_pk c \<longrightarrow>
    (\<exists>y\<in>set (dk_checklist (place_check c 0 d)). ck_pk y = ck_pk c \<and> ck_position x < ck_position y)"
proof (intro ballI impI)
  let ?f = "\<lambda>x. if ck_ticket x = ck_ticket c
      then x\<lparr>ck_position := shifted_position (ck_position c) 0 (ck_position x)\<rparr> else x"
  let ?e = "d\<lparr>dk_checklist := map ?f (dk_checklist d)\<rparr>"
  let ?ps = "checklist_positions ?e (ck_ticket c)"
  let ?c = "c\<lparr>ck_position := or_given (max_position ?ps) 0 + 1\<rparr>"
  fix x assume x: "x \<in> set (dk_checklist (place_check c 0 d))" "ck_ticket x = ck_ticket c" "ck_pk x \<noteq> ck_pk c"
  have p: "place_check c 0 d = ?e\<lparr>dk_checklist := row_save ck_pk ?c (dk_checklist ?e)\<rparr>"
    by (simp add: place_check_def save_check_def auto_position_def)
  have old: "x \<in> set (dk_checklist ?e)" using x by (auto simp: p dest!: in_row_save)
  have mem: "ck_position x \<in> set ?ps" using old x(2) by (auto simp: checklist_positions_def)
  then have "ck_position x \<le> foldr max ?ps 0" by (rule foldr_max_ge)
  moreover have "?ps \<noteq> []" using mem by force
  ultimately have lt: "ck_position x < ck_position ?c" by (simp add: max_position_def or_given_def)
  have "?f c \<in> set (dk_checklist ?e)" using assms(1) by auto
  then have "ck_pk ?c \<in> ck_pk ` set (dk_checklist ?e)" by (metis (no_types, lifting) checklist_item.simps(1) checklist_item.surjective checklist_item.update_convs(5) image_eqI)
  then have "?c \<in> set (dk_checklist (place_check c 0 d))" by (simp add: p set_row_save)
  then show "\<exists>y\<in>set (dk_checklist (place_check c 0 d)). ck_pk y = ck_pk c \<and> ck_position x < ck_position y"
    using lt by (intro bexI [of _ ?c]) simp_all
qed

text \<open>An edited position is stored as it is: two tickets can share one.\<close>

lemma edited_position_kept:
  assumes "tb_position body = Some p"
  shows "tk_position (patch_ticket body col u g t) = p"
  using assms by (simp add: patch_ticket_def or_given_def)

text \<open>
  Deleting a board takes its tickets out of their columns without a line in their history.
\<close>

lemma board_deletion_unrecorded:
  "dk_history (fst (destroy_board m k d)) = dk_history d"
  by (simp add: destroy_board_def drop_columns_def split: option.splits)

subsection \<open>Items\<close>

text \<open>An item that is its own ancestor: the request for its descendants never ends.\<close>

definition circle :: "list_item list" where
  "circle = [\<lparr>ix_pk = 1, ix_list = 1, ix_label = ''a'', ix_parent = Some 2, ix_position = 1, ix_active = True\<rparr>,
             \<lparr>ix_pk = 2, ix_list = 1, ix_label = ''b'', ix_parent = Some 1, ix_position = 1, ix_active = True\<rparr>]"

lemma circle_never_answers: "dk_items d = circle \<Longrightarrow> get_all_children d (circle ! 0) = None"
proof -
  assume d: "dk_items d = circle"
  have "endless (filter (\<lambda>x. ix_list x = ix_list (circle ! 0)) (dk_items d)) [1, 2]"
    by (simp add: d circle_def endless_def)
  then show ?thesis by (rule get_all_children_endless) (simp add: circle_def)
qed

end
