(* ===== verification/Ticket_Sample.thy ===== *)
theory Ticket_Sample
  imports Ticket_Gaps
begin

text \<open>
  A small desk built by requests: a board with the columns todo, doing (both track time) and done
  (closed), two tickets of an agent, one of them moved to doing after ninety seconds.  The properties
  of \<open>Ticket_Props\<close> and \<open>Ticket_Gaps\<close> are applied to it.
\<close>

definition desk_admin :: member where
  "desk_admin =
     \<lparr>mb_user = \<lparr>u_pk = 1, u_role = Role_admin, u_status = Status_active, u_is_active = True, u_is_staff = True,
        u_is_superuser = True, u_department = None, u_manager = None, u_employment_start = None,
        u_employment_end = None, u_date_joined = None, u_can = [], u_groups = []\<rparr>, mb_groups = []\<rparr>"

definition desk_agent :: member where
  "desk_agent =
     \<lparr>mb_user = \<lparr>u_pk = 2, u_role = Role_agent, u_status = Status_active, u_is_active = True, u_is_staff = False,
        u_is_superuser = False, u_department = None, u_manager = None, u_employment_start = None,
        u_employment_end = None, u_date_joined = None, u_can = [], u_groups = []\<rparr>, mb_groups = []\<rparr>"

definition empty_desk :: desk where
  "empty_desk =
     \<lparr>dk_clock = 1000000000, dk_accounts = [(1, True), (2, True)], dk_group_keys = [], dk_department_keys = [],
      dk_tag_keys = [], dk_boards = [], dk_columns = [], dk_tickets = [], dk_assignments = [], dk_logs = [],
      dk_payments = [], dk_history = [], dk_checklist = [], dk_items = [], dk_forms = [], dk_comments = []\<rparr>"

definition board_form :: board_body where
  "board_form = \<lparr>bz_name = Some ''B'', bz_default = Some True, bz_order_users = None, bz_users = None, bz_groups = None\<rparr>"

definition column_form :: "string \<Rightarrow> bool \<Rightarrow> bool \<Rightarrow> column_body" where
  "column_form name track shut =
     \<lparr>cy_name = Some name, cy_position = None, cy_default = Some track, cy_closed = Some shut, cy_track = Some track\<rparr>"

definition ticket_request :: ticket_body where
  "ticket_request = no_body\<lparr>tb_title := Some ''t'', tb_price := Some (Some 10), tb_column := Some (Some 1)\<rparr>"

definition desk_columns :: desk where
  "desk_columns = fst (create_column desk_admin 1 (column_form ''done'' False True)
     (fst (create_column desk_admin 1 (column_form ''doing'' True False)
     (fst (create_column desk_admin 1 (column_form ''todo'' True False)
     (fst (create_board False desk_admin board_form empty_desk)))))))"

definition desk_open :: desk where
  "desk_open = fst (create_ticket desk_agent ticket_request (fst (create_ticket desk_agent ticket_request desk_columns)))"

definition desk_later :: desk where
  "desk_later = desk_open\<lparr>dk_clock := 1090000000\<rparr>"

definition desk_moved :: desk where
  "desk_moved = fst (move_to_column desk_agent 1 (Some 2) Raw_null desk_later)"

lemma later_reachable: "reachable desk_start (desk_step s) desk_later"
proof -
  note go = reachable.next_step
  have 0: "reachable desk_start (desk_step s) empty_desk"
    by (rule reachable.start) (simp add: desk_start_def empty_desk_def)
  have 1: "reachable desk_start (desk_step s) desk_columns"
    unfolding desk_columns_def
    by (rule go [OF go [OF go [OF go [OF 0 st_new_board] st_new_column] st_new_column] st_new_column])
  have 2: "reachable desk_start (desk_step s) desk_open"
    unfolding desk_open_def by (rule go [OF go [OF 1 st_create] st_create])
  have clock: "dk_clock desk_open = 1000000000" by code_simp
  show ?thesis unfolding desk_later_def by (rule go [OF 2 st_time]) (simp add: clock)
qed

lemma moved_reachable: "reachable desk_start (desk_step s) desk_moved"
  unfolding desk_moved_def by (rule reachable.next_step [OF later_reachable st_move])

lemma move_answer: "move_to_column desk_agent 1 (Some 2) Raw_null desk_later = (desk_moved, None)"
proof -
  have "snd (move_to_column desk_agent 1 (Some 2) Raw_null desk_later) = None" by code_simp
  then show ?thesis by (simp add: desk_moved_def prod_eq_iff)
qed

lemma later_keys: "distinct (map tk_pk (dk_tickets desk_later))"
  by code_simp

lemma move_refines_lanes_witness: "lanes_of desk_moved 2 = [1] \<and> lanes_of desk_moved 1 = [2] \<and> dense_column desk_moved 2
    \<and> (\<exists>t c p. ticket_of desk_later 1 = Some t \<and> Some 2 = Some c \<and> parse_position Raw_null = Some p
      \<and> lanes_of desk_moved = move_card 1 c p (lanes_of desk_later) \<and> dense_column desk_moved c
      \<and> (tk_column t = None \<or> tk_column t = Some c \<or> dense_column desk_moved (the (tk_column t))))"
proof -
  have "lanes_of desk_moved 2 = [1]" "lanes_of desk_moved 1 = [2]" "dense_column desk_moved 2" by code_simp+
  then show ?thesis using move_refines_lanes [OF later_keys move_answer] by blast
qed

lemma desk_consistent_witness: "length (filter kb_default (dk_boards desk_moved)) = 1
    \<and> default_per_board (dk_columns desk_moved) \<and> list_all (log_fits (dk_clock desk_moved)) (dk_logs desk_moved)"
proof -
  have "length (filter kb_default (dk_boards desk_moved)) = 1" by code_simp
  then show ?thesis using desk_consistent [OF moved_reachable [of False]] by simp
qed

lemma one_open_log_witness: "map tl_ticket (open_logs desk_moved) = [2, 1]
    \<and> list_all (\<lambda>l. col_of desk_moved (tl_ticket l) = Some (tl_column l)) (open_logs desk_moved)"
proof -
  have "map tl_ticket (open_logs desk_moved) = [2, 1]" by code_simp
  then show ?thesis using one_open_log [OF moved_reachable [of True]] by simp
qed

lemma history_tells_column_witness: "\<exists>t. ticket_of desk_moved 1 = Some t \<and> tk_column t = Some 2
    \<and> map_option nat (read_int (hy_new (last (column_changes (dk_history desk_moved) 1)))) = tk_column t"
proof -
  have "map_option tk_column (ticket_of desk_moved 1) = Some (Some 2)" "column_changes (dk_history desk_moved) 1 \<noteq> []"
    by code_simp+
  then obtain t where "ticket_of desk_moved 1 = Some t" "tk_column t = Some 2" by auto
  then show ?thesis
    using history_tells_column [OF moved_reachable [of False], of 1 t] \<open>column_changes (dk_history desk_moved) 1 \<noteq> []\<close>
    by simp
qed

definition tree_items :: "list_item list" where
  "tree_items =
     [\<lparr>ix_pk = 1, ix_list = 1, ix_label = ''a'', ix_parent = None, ix_position = 1, ix_active = True\<rparr>,
      \<lparr>ix_pk = 2, ix_list = 1, ix_label = ''b'', ix_parent = Some 1, ix_position = 1, ix_active = True\<rparr>,
      \<lparr>ix_pk = 3, ix_list = 1, ix_label = ''c'', ix_parent = Some 2, ix_position = 1, ix_active = True\<rparr>]"

lemma all_descendants_answers_witness:
  "\<exists>r. get_all_children (empty_desk\<lparr>dk_items := tree_items\<rparr>) (tree_items ! 0) = Some r
     \<and> set r = descendants (empty_desk\<lparr>dk_items := tree_items\<rparr>) (tree_items ! 0)"
  by (rule all_descendants_answers [where rank = id]) (simp_all add: tree_items_def ranked_def)

lemma later_row: "dk_tickets desk_later ! 0 \<in> set (dk_tickets desk_later)"
  by (rule nth_mem) code_simp

lemma readable_is_visible_witness:
  "find_ticket desk_agent desk_later 1 = Some (dk_tickets desk_later ! 0)
   \<and> ticket_permission desk_agent desk_later Verb_safe no_body (dk_tickets desk_later ! 0)"
proof -
  have k: "tk_pk (dk_tickets desk_later ! 0) = 1" by code_simp
  have "ticket_permission desk_agent desk_later Verb_safe no_body (dk_tickets desk_later ! 0)" by code_simp
  then show ?thesis using readable_is_visible [OF later_keys later_row, of desk_agent no_body] by (simp add: k)
qed

definition desk_paid :: desk where
  "desk_paid = fst (process_payment desk_agent (Some 1) (Some 10) desk_later)"

lemma payment_booked_witness: "booked_for desk_paid 1 = 10
    \<and> (\<exists>t'. ticket_of desk_paid 1 = Some t' \<and> tk_amount_paid t' = 10 \<and> tk_is_paid t')"
proof -
  have p: "process_payment desk_agent (Some 1) (Some 10) desk_later = (desk_paid, None)"
  proof -
    have "snd (process_payment desk_agent (Some 1) (Some 10) desk_later) = None" by code_simp
    then show ?thesis by (simp add: desk_paid_def prod_eq_iff)
  qed
  have "map_option (\<lambda>t. (tk_price t, tk_amount_paid t)) (ticket_of desk_later 1) = Some (Some 10, 0)" by code_simp
  then obtain t where t: "ticket_of desk_later 1 = Some t" "tk_price t = Some 10" "tk_amount_paid t = 0" by auto
  have g: "on_grid 2 10" "on_grid 2 0"
    by (auto simp: on_grid_def intro: exI [of _ "1000::int"] exI [of _ "0::int"])
  have "booked_for desk_later 1 = 0" by code_simp
  then show ?thesis
    using payment_booked [OF t(1) p g(1) _ t(2) g(1)] t(3) g(2) by auto
qed

text \<open>A payment of 9.996 on a price of 10.00 is stored as 10.00, and the ticket stays unpaid.\<close>

theorem fraction_leaves_unpaid:
  "snd (process_payment desk_agent (Some 1) (Some (9996 / 1000)) desk_later) = None
   \<and> map_option (\<lambda>t. (tk_price t, tk_amount_paid t, tk_is_paid t))
       (ticket_of (fst (process_payment desk_agent (Some 1) (Some (9996 / 1000)) desk_later)) 1)
     = Some (Some 10, 10, False)"
  by (intro conjI; code_simp)

lemma move_skips_closed_guard_witness:
  "update_ticket \<lparr>ds_only_super_delete = False, ds_min_users = 0\<rparr> desk_agent Verb_patch 1
     (no_body\<lparr>tb_column := Some (Some 3)\<rparr>) desk_later = (desk_later, Some Desk_forbidden)
   \<and> (\<exists>d' t'. move_to_column desk_agent 1 (Some 3) Raw_null desk_later = (d', None) \<and> ticket_of d' 1 = Some t'
       \<and> ticket_is_closed d' t')"
proof -
  have "find_ticket desk_agent desk_later 1 \<noteq> None" by code_simp
  then obtain t where t: "find_ticket desk_agent desk_later 1 = Some t" by blast
  have "map_option kc_closed (column_of desk_later 3) = Some True" by code_simp
  then obtain c where c: "column_of desk_later 3 = Some c" "kc_closed c" by auto
  have m: "\<not> mb_staff desk_agent" by code_simp
  show ?thesis
    by (rule move_skips_closed_guard [OF tidy.reachable_inv [OF later_reachable [of False]] m t c]) simp_all
qed

text \<open>
  When a column stops and starts tracking while a ticket passes through, the ticket ends up with two
  open logs in it.
\<close>

definition track_form :: "bool \<Rightarrow> column_body" where
  "track_form b = \<lparr>cy_name = None, cy_position = None, cy_default = None, cy_closed = None, cy_track = Some b\<rparr>"

lemma retracked_column_two_logs:
  "map (\<lambda>l. (tl_ticket l, tl_column l)) (filter (\<lambda>l. tl_ticket l = 1) (open_logs
     (fst (move_to_column desk_agent 1 (Some 1) Raw_null
     (fst (update_column desk_admin 1 (track_form True)
     (fst (move_to_column desk_agent 1 (Some 3) Raw_null
     (fst (update_column desk_admin 1 (track_form False) desk_later)))))))))) = [(1, 1), (1, 1)]"
  by code_simp

end
