(* ===== verification/Call_Model.thy ===== *)
theory Call_Model
  imports Users Text
begin

text \<open>
  Telephone calls (\<^verbatim>\<open>crm/models.py\<close>): the log of a call leg with its events, recording and rating,
  the phones, queues and routes of the exchange, and what the program derives from them: which calls
  count as answered or missed (\<^verbatim>\<open>crm/call_status.py\<close>), and whether an unanswered leg was answered
  by a colleague in the same queue attempt (\<^verbatim>\<open>crm/call_notifications.py\<close>).

  Times are microseconds; \<open>sw_now\<close> is what \<^verbatim>\<open>timezone.now()\<close> returns.  The link from a call to a
  client, notes, recording URLs and the metadata of events carry no behaviour here and are left out.
\<close>

subsection \<open>Rows\<close>

datatype call_status =
  Call_initiated | Call_ringing | Call_answered | Call_missed | Call_busy | Call_no_answer | Call_failed
| Call_cancelled | Call_transferred | Call_ended | Call_recording | Call_on_hold

datatype call_direction = Inbound | Outbound

datatype call_kind = Voice_call | Video_call | Conference_call

datatype transfer_kind = No_transfer | Blind_transfer | Attended_transfer

record call_log =
  cx_pk :: pk
  cx_caller :: string
  cx_recipient :: string
  cx_direction :: call_direction
  cx_kind :: call_kind
  cx_started :: datetime
  cx_answered :: "datetime option"
  cx_ended :: "datetime option"
  cx_duration :: "int option"
  cx_status :: call_status
  cx_sip_id :: string
  cx_config :: "pk option"
  cx_handler :: "pk option"
  cx_transferred_to :: string
  cx_transferred_user :: "pk option"
  cx_transferred_at :: "datetime option"
  cx_parent :: "pk option"
  cx_transfer :: transfer_kind

record call_event =
  ex_call :: pk
  ex_type :: string
  ex_user :: "pk option"

record call_recording =
  gx_call :: pk
  gx_status :: string
  gx_started :: "datetime option"
  gx_completed :: "datetime option"
  gx_duration :: "int option"

record call_rating =
  hx_call :: "pk option"
  hx_caller :: string
  hx_user :: "pk option"
  hx_config :: pk
  hx_rating :: int
  hx_at :: datetime

record sip_config =
  nx_pk :: pk
  nx_number :: string
  nx_user :: string
  nx_password :: string
  nx_owner :: pk
  nx_default :: bool
  nx_active :: bool

record phone =
  px_pk :: pk
  px_user :: pk
  px_config :: pk
  px_extension :: string
  px_password :: string
  px_number :: string
  px_primary :: bool
  px_active :: bool

record queue =
  qx_pk :: pk
  qx_slug :: string
  qx_group :: pk
  qx_timeout :: int
  qx_max_wait :: int
  qx_active :: bool
  qx_default :: bool

record queue_member =
  mx_pk :: pk
  mx_queue :: pk
  mx_phone :: pk
  mx_penalty :: int
  mx_active :: bool

record trunk =
  wx_pk :: pk
  wx_numbers :: "string list"
  wx_active :: bool

datatype route_target = To_queue | To_extension | To_voicemail | To_ivr | To_hangup

record inbound_route =
  rx_pk :: pk
  rx_did :: string
  rx_trunk :: "pk option"
  rx_target :: route_target
  rx_queue :: "pk option"
  rx_extension :: "pk option"
  rx_priority :: int
  rx_active :: bool

text \<open>A delayed task \<^verbatim>\<open>notify_missed_call\<close> that waits in the broker.\<close>

record missed_task =
  jx_call :: pk
  jx_due :: datetime
  jx_attempt :: nat

text \<open>A row \<^verbatim>\<open>Notification\<close> of the type \<^verbatim>\<open>call_missed\<close>.\<close>

record call_notice =
  no_user :: pk
  no_call :: pk
  no_created :: datetime

text \<open>
  \<open>sw_muted\<close> are the users whose \<^verbatim>\<open>NotificationPreference\<close> for missed calls has \<^verbatim>\<open>in_app\<close> off.
  \<open>sw_silenced\<close> is a ghost: the calls that nobody was told about because every recipient was muted.
\<close>

record switchboard =
  sw_now :: datetime
  sw_users :: "user list"
  sw_configs :: "sip_config list"
  sw_phones :: "phone list"
  sw_queues :: "queue list"
  sw_members :: "queue_member list"
  sw_trunks :: "trunk list"
  sw_routes :: "inbound_route list"
  sw_calls :: "call_log list"
  sw_events :: "call_event list"
  sw_recordings :: "call_recording list"
  sw_ratings :: "call_rating list"
  sw_tasks :: "missed_task list"
  sw_muted :: "pk list"
  sw_notices :: "call_notice list"
  sw_silenced :: "pk list"

definition call_of :: "switchboard \<Rightarrow> pk \<Rightarrow> call_log option" where
  "call_of db k = row_get cx_pk k (sw_calls db)"

definition seconds :: "int \<Rightarrow> int" where
  "seconds n = n * 1000000"

subsection \<open>Answered and missed\<close>

definition missed_statuses :: "call_status list" where
  "missed_statuses = [Call_missed, Call_no_answer]"

definition answered_elsewhere_status :: call_status where
  "answered_elsewhere_status = Call_cancelled"

definition final_statuses :: "call_status list" where
  "final_statuses =
     [Call_ended, Call_missed, Call_failed, Call_cancelled, Call_no_answer, Call_busy, Call_transferred]"

definition picked_up :: "call_log \<Rightarrow> bool" where
  "picked_up c \<longleftrightarrow> cx_answered c \<noteq> None \<or> (case cx_duration c of Some x \<Rightarrow> 0 < x | None \<Rightarrow> False)"

definition counts_answered :: "call_log \<Rightarrow> bool" where
  "counts_answered c \<longleftrightarrow>
     cx_status c = Call_answered \<or> (cx_status c \<in> {Call_ended, Call_transferred} \<and> picked_up c)"

definition counts_missed :: "call_log \<Rightarrow> bool" where
  "counts_missed c \<longleftrightarrow>
     cx_direction c = Inbound
   \<and> (cx_status c \<in> set missed_statuses
      \<or> (cx_status c = Call_ended \<and> cx_answered c = None \<and> (cx_duration c = None \<or> cx_duration c = Some 0)))"

text \<open>\<^verbatim>\<open>last_digits\<close> with its default length.\<close>

definition last_digits :: "string \<Rightarrow> string" where
  "last_digits s = (let d = filter is_digit s in if 7 \<le> length d then drop (length d - 7) d else d)"

definition ends_with :: "string \<Rightarrow> string \<Rightarrow> bool" where
  "ends_with e s \<longleftrightarrow> length e \<le> length s \<and> drop (length s - length e) s = e"

subsection \<open>Queue attempts\<close>

definition notify_delay :: int where
  "notify_delay = 15"

definition max_defers :: nat where
  "max_defers = 5"

definition sibling_window :: int where
  "sibling_window = seconds 120"

definition sibling_slack :: int where
  "sibling_slack = seconds 5"

definition ring_start_tolerance :: int where
  "ring_start_tolerance = seconds 2"

definition default_attempt_gap :: int where
  "default_attempt_gap = seconds 60"

definition default_max_wait :: int where
  "default_max_wait = seconds 300"

definition max_candidates :: nat where
  "max_candidates = 200"

text \<open>\<^verbatim>\<open>_agent_queue_map\<close> for one agent: the active queues the agent is an active member of.\<close>

definition agent_queues :: "switchboard \<Rightarrow> pk option \<Rightarrow> pk list" where
  "agent_queues db uid =
     (case uid of
        None \<Rightarrow> []
      | Some u \<Rightarrow>
          map mx_queue (filter (\<lambda>m. mx_active m
              \<and> (case row_get px_pk (mx_phone m) (sw_phones db) of Some p \<Rightarrow> px_user p = u | None \<Rightarrow> False)
              \<and> (case row_get qx_pk (mx_queue m) (sw_queues db) of Some q \<Rightarrow> qx_active q | None \<Rightarrow> False))
            (sw_members db)))"

text \<open>\<^verbatim>\<open>_attempt_timing\<close>: the gap between two legs of an attempt and the longest attempt.\<close>

definition attempt_timing :: "switchboard \<Rightarrow> pk list \<Rightarrow> int \<times> int" where
  "attempt_timing db ids =
     (let rows = filter (\<lambda>q. qx_pk q \<in> set ids) (sw_queues db)
      in if rows = [] then (default_attempt_gap, default_max_wait + default_attempt_gap)
         else
           let timeout = foldr max (map qx_timeout rows) 0;
               max_wait = foldr max (map qx_max_wait rows) 0;
               gap = seconds (timeout + 5 + 25);
               longest = (if max_wait \<noteq> 0 then seconds max_wait else default_max_wait)
           in (gap, longest + gap))"

definition attempt_gap_for :: "switchboard \<Rightarrow> call_log \<Rightarrow> int" where
  "attempt_gap_for db c = fst (attempt_timing db (agent_queues db (cx_handler c)))"

definition same_caller :: "call_log \<Rightarrow> call_log \<Rightarrow> bool" where
  "same_caller c x \<longleftrightarrow>
     (if 7 \<le> length (last_digits (cx_caller c)) then ends_with (last_digits (cx_caller c)) (cx_caller x)
      else cx_caller x = cx_caller c)"

datatype attempt_state = Answered_elsewhere call_log | Attempt_pending | Attempt_missed

text \<open>The end of a leg as far as it is known.\<close>

definition end_of :: "datetime \<Rightarrow> call_log \<Rightarrow> datetime" where
  "end_of now c = (case cx_ended c of Some e \<Rightarrow> e | None \<Rightarrow> now)"

definition queues_meet :: "pk list \<Rightarrow> pk list \<Rightarrow> bool" where
  "queues_meet own others \<longleftrightarrow> own = [] \<or> others = [] \<or> set own \<inter> set others \<noteq> {}"

definition taken_before :: "datetime \<Rightarrow> call_log \<Rightarrow> bool" where
  "taken_before start x \<longleftrightarrow> (case cx_answered x of Some a \<Rightarrow> a < start - ring_start_tolerance | None \<Rightarrow> False)"

text \<open>The loop over the candidates, with the end of the chain and whether a leg still rings.\<close>

fun scan_legs :: "switchboard \<Rightarrow> datetime \<Rightarrow> datetime \<Rightarrow> pk list \<Rightarrow> int \<Rightarrow> call_log list \<Rightarrow> datetime \<Rightarrow> bool
    \<Rightarrow> attempt_state" where
  "scan_legs db now start own gap [] chain_end ringing =
     (if ringing \<or> now < chain_end + gap then Attempt_pending else Attempt_missed)"
| "scan_legs db now start own gap (x # xs) chain_end ringing =
     (if taken_before start x then scan_legs db now start own gap xs chain_end ringing
      else if cx_started x < start \<and> end_of now x < start - sibling_slack
      then scan_legs db now start own gap xs chain_end ringing
      else if \<not> cx_started x < start \<and> chain_end + gap < cx_started x
      then (if ringing \<or> now < chain_end + gap then Attempt_pending else Attempt_missed)
      else if \<not> queues_meet own (agent_queues db (cx_handler x))
      then scan_legs db now start own gap xs chain_end ringing
      else if cx_answered x \<noteq> None then Answered_elsewhere x
      else scan_legs db now start own gap xs (max chain_end (end_of now x))
             (ringing \<or> (cx_ended x = None \<and> cx_status x \<notin> set final_statuses)))"

definition attempt_candidates :: "switchboard \<Rightarrow> call_log \<Rightarrow> datetime \<Rightarrow> int \<Rightarrow> call_log list" where
  "attempt_candidates db c own_end longest =
     take max_candidates (sort_key cx_started (sort_key cx_pk (filter (\<lambda>x.
       cx_direction x = Inbound \<and> cx_started c - sibling_window \<le> cx_started x \<and> cx_started x \<le> own_end + longest
       \<and> same_caller c x \<and> cx_pk x \<noteq> cx_pk c) (sw_calls db))))"

definition missed_call_state :: "switchboard \<Rightarrow> call_log \<Rightarrow> attempt_state" where
  "missed_call_state db c =
     (if last_digits (cx_caller c) = [] \<or> cx_answered c \<noteq> None then Attempt_missed
      else
        let own_end = end_of (sw_now db) c;
            own = agent_queues db (cx_handler c)
        in (case attempt_timing db own of
              (gap, longest) \<Rightarrow>
                scan_legs db (sw_now db) (cx_started c) own gap (attempt_candidates db c own_end longest) own_end False))"

definition find_answered_sibling :: "switchboard \<Rightarrow> call_log \<Rightarrow> call_log option" where
  "find_answered_sibling db c = (case missed_call_state db c of Answered_elsewhere x \<Rightarrow> Some x | _ \<Rightarrow> None)"

subsection \<open>Relabelling, tasks and the signal of a saved call\<close>

definition add_event :: "pk \<Rightarrow> string \<Rightarrow> pk option \<Rightarrow> switchboard \<Rightarrow> switchboard" where
  "add_event k e u db = db\<lparr>sw_events := row_create \<lparr>ex_call = k, ex_type = e, ex_user = u\<rparr> (sw_events db)\<rparr>"

definition mark_answered_elsewhere :: "pk \<Rightarrow> switchboard \<Rightarrow> switchboard" where
  "mark_answered_elsewhere k db =
     (case find (\<lambda>x. cx_pk x = k \<and> cx_answered x = None \<and> cx_status x \<noteq> answered_elsewhere_status) (sw_calls db) of
        None \<Rightarrow> db
      | Some x \<Rightarrow>
          add_event k ''ended'' None
            (db\<lparr>sw_calls := row_save cx_pk (x\<lparr>cx_status := answered_elsewhere_status\<rparr>) (sw_calls db)\<rparr>))"

definition relabel_leg :: "call_log \<Rightarrow> switchboard \<Rightarrow> switchboard" where
  "relabel_leg x db =
     (if find_answered_sibling db x = None then db else mark_answered_elsewhere (cx_pk x) db)"

text \<open>The unanswered legs \<^verbatim>\<open>relabel_legs_answered_elsewhere\<close> looks at, given when the leg was answered.\<close>

definition relabel_candidates :: "switchboard \<Rightarrow> call_log \<Rightarrow> datetime \<Rightarrow> call_log list" where
  "relabel_candidates db c answered =
     (let longest = snd (attempt_timing db (agent_queues db (cx_handler c)))
      in take max_candidates (sort_key cx_started (filter (\<lambda>x.
           cx_direction x = Inbound \<and> cx_answered x = None \<and> cx_status x \<in> set missed_statuses
           \<and> cx_started c - longest \<le> cx_started x \<and> cx_started x \<le> answered + ring_start_tolerance
           \<and> same_caller c x \<and> cx_pk x \<noteq> cx_pk c) (sw_calls db))))"

definition relabel_legs_answered_elsewhere :: "call_log \<Rightarrow> switchboard \<Rightarrow> switchboard" where
  "relabel_legs_answered_elsewhere c db =
     (case cx_answered c of
        None \<Rightarrow> db
      | Some a \<Rightarrow>
          if cx_direction c \<noteq> Inbound \<or> last_digits (cx_caller c) = [] then db
          else fold relabel_leg (relabel_candidates db c a) db)"

definition schedule_missed_call_notification :: "call_log \<Rightarrow> switchboard \<Rightarrow> switchboard" where
  "schedule_missed_call_notification c db =
     db\<lparr>sw_tasks := sw_tasks db @
          [\<lparr>jx_call = cx_pk c, jx_due = sw_now db + max (seconds notify_delay) (attempt_gap_for db c), jx_attempt = 0\<rparr>]\<rparr>"

text \<open>\<^verbatim>\<open>notify_call_events\<close>; \<open>old\<close> is the status before the save, None for a new row.\<close>

definition notify_call_events :: "call_status option \<Rightarrow> call_log \<Rightarrow> switchboard \<Rightarrow> switchboard" where
  "notify_call_events old c db =
     (if cx_direction c = Inbound \<and> cx_status c = Call_answered \<and> old \<noteq> Some Call_answered \<and> cx_answered c \<noteq> None
      then relabel_legs_answered_elsewhere c db
      else if cx_direction c \<noteq> Inbound \<or> cx_status c \<notin> set missed_statuses then db
      else if (case old of Some s \<Rightarrow> s \<in> set missed_statuses | None \<Rightarrow> False) then db
      else schedule_missed_call_notification c db)"

definition save_call :: "call_log \<Rightarrow> switchboard \<Rightarrow> switchboard" where
  "save_call c db =
     notify_call_events (map_option cx_status (call_of db (cx_pk c))) c
       (db\<lparr>sw_calls := row_save cx_pk c (sw_calls db)\<rparr>)"

definition create_call_row :: "call_log \<Rightarrow> switchboard \<Rightarrow> pk \<times> switchboard" where
  "create_call_row c db =
     (let k = next_pk cx_pk (sw_calls db); c' = c\<lparr>cx_pk := k, cx_started := sw_now db\<rparr>
      in (k, notify_call_events None c' (db\<lparr>sw_calls := row_create c' (sw_calls db)\<rparr>)))"

subsection \<open>The delayed task\<close>

definition is_pbx_admin :: "user \<Rightarrow> bool" where
  "is_pbx_admin u = (if u_is_staff u \<or> u_is_superuser u then True else has_permission u ''manage_settings'')"

text \<open>\<^verbatim>\<open>_pbx_admin_fallback_recipients\<close>: at most ten, in key order.\<close>

definition fallback_recipients :: "switchboard \<Rightarrow> user list" where
  "fallback_recipients db =
     take 10 (filter is_pbx_admin (sort_key u_pk (filter (\<lambda>u. u_is_active u
       \<and> (u_is_staff u \<or> u_is_superuser u \<or> ''manage_settings'' \<in> set (u_can u) \<or> u_role u = Role_admin))
       (sw_users db))))"

definition routes_by_priority :: "inbound_route list \<Rightarrow> inbound_route list" where
  "routes_by_priority rs = sort_key rx_priority rs"

definition last_nine :: "string \<Rightarrow> string" where
  "last_nine s = drop (length s - 9) s"

definition notice_route :: "switchboard \<Rightarrow> string \<Rightarrow> inbound_route option" where
  "notice_route db did =
     (if did = [] then None
      else
        let clean = filter is_digit did;
            rs = routes_by_priority (filter rx_active (sw_routes db))
        in (case find (\<lambda>r. rx_did r = did) rs of
              Some r \<Rightarrow> Some r
            | None \<Rightarrow> if 7 \<le> length clean then find (\<lambda>r. ends_with (last_nine clean) (rx_did r)) rs else None))"

definition phone_of :: "switchboard \<Rightarrow> pk \<Rightarrow> phone option" where
  "phone_of db k = row_get px_pk k (sw_phones db)"

definition active_user :: "switchboard \<Rightarrow> pk \<Rightarrow> user option" where
  "active_user db k = find (\<lambda>u. u_pk u = k \<and> u_is_active u) (sw_users db)"

definition phone_owner :: "switchboard \<Rightarrow> pk \<Rightarrow> user option" where
  "phone_owner db k =
     (case phone_of db k of
        Some p \<Rightarrow> if px_active p then active_user db (px_user p) else None
      | None \<Rightarrow> None)"

text \<open>\<^verbatim>\<open>QueueMember\<close> is ordered by penalty, then as its phone is: primary first, by extension.\<close>

definition member_phone :: "switchboard \<Rightarrow> queue_member \<Rightarrow> bool \<times> string" where
  "member_phone db m =
     (case phone_of db (mx_phone m) of Some p \<Rightarrow> (px_primary p, px_extension p) | None \<Rightarrow> (False, []))"

definition members_in_order :: "switchboard \<Rightarrow> queue_member list \<Rightarrow> queue_member list" where
  "members_in_order db ms =
     sort_key mx_penalty (sort_key (\<lambda>m. \<not> fst (member_phone db m)) (sort_key (\<lambda>m. snd (member_phone db m)) ms))"

definition queue_agents :: "switchboard \<Rightarrow> pk \<Rightarrow> user list" where
  "queue_agents db q =
     List.map_filter (\<lambda>m. if mx_queue m = q \<and> mx_active m then phone_owner db (mx_phone m) else None)
       (members_in_order db (sw_members db))"

text \<open>Each user once, at the first occurrence.\<close>

fun first_of_each :: "pk list \<Rightarrow> user list \<Rightarrow> user list" where
  "first_of_each seen [] = []"
| "first_of_each seen (u # us) =
     (if u_pk u \<in> set seen then first_of_each seen us else u # first_of_each (u_pk u # seen) us)"

definition routed_recipients :: "switchboard \<Rightarrow> call_log \<Rightarrow> user list" where
  "routed_recipients db c =
     (case notice_route db (cx_recipient c) of
        None \<Rightarrow> []
      | Some r \<Rightarrow>
          (case (rx_target r, rx_queue r, rx_extension r) of
             (To_queue, Some q, _) \<Rightarrow> first_of_each [] (queue_agents db q)
           | (To_extension, _, Some p) \<Rightarrow> (case phone_owner db p of Some u \<Rightarrow> [u] | None \<Rightarrow> [])
           | _ \<Rightarrow> []))"

definition resolve_missed_call_recipients :: "switchboard \<Rightarrow> call_log \<Rightarrow> user list" where
  "resolve_missed_call_recipients db c =
     (case Option.bind (cx_handler c) (active_user db) of
        Some u \<Rightarrow> [u]
      | None \<Rightarrow> (let us = routed_recipients db c in if us \<noteq> [] then us else fallback_recipients db))"

definition missed_call_retry :: "switchboard \<Rightarrow> pk \<Rightarrow> int option" where
  "missed_call_retry db k =
     (case call_of db k of
        None \<Rightarrow> None
      | Some c \<Rightarrow>
          if cx_direction c \<noteq> Inbound \<or> cx_status c \<notin> set missed_statuses then None
          else if missed_call_state db c \<noteq> Attempt_pending then None
          else Some (max (seconds notify_delay) (attempt_gap_for db c)))"

text \<open>
  \<^verbatim>\<open>create_notification\<close> for a missed call: nothing when the user turned it off; a notification of the
  last thirty seconds about the same call is updated instead (its texts are not modelled).
\<close>

definition create_notification :: "pk \<Rightarrow> pk \<Rightarrow> switchboard \<Rightarrow> switchboard" where
  "create_notification u k db =
     (if u \<in> set (sw_muted db) then db
      else if \<exists>n \<in> set (sw_notices db). no_user n = u \<and> no_call n = k \<and> sw_now db - seconds 30 \<le> no_created n then db
      else db\<lparr>sw_notices := sw_notices db @ [\<lparr>no_user = u, no_call = k, no_created = sw_now db\<rparr>]\<rparr>)"

definition tell_users :: "pk \<Rightarrow> user list \<Rightarrow> switchboard \<Rightarrow> switchboard" where
  "tell_users k us db =
     (fold (\<lambda>u. create_notification (u_pk u) k) us db)
       \<lparr>sw_silenced := (if list_all (\<lambda>u. u_pk u \<in> set (sw_muted db)) us then k # sw_silenced db else sw_silenced db)\<rparr>"

definition send_missed_call_notifications :: "pk \<Rightarrow> switchboard \<Rightarrow> switchboard" where
  "send_missed_call_notifications k db =
     (case call_of db k of
        None \<Rightarrow> db
      | Some c \<Rightarrow>
          if cx_direction c \<noteq> Inbound \<or> cx_status c \<notin> set missed_statuses then db
          else if find_answered_sibling db c \<noteq> None then mark_answered_elsewhere k db
          else tell_users k (resolve_missed_call_recipients db c) db)"

definition notify_missed_call :: "pk \<Rightarrow> nat \<Rightarrow> switchboard \<Rightarrow> switchboard" where
  "notify_missed_call k attempt db =
     (if attempt < max_defers
      then (case missed_call_retry db k of
              Some retry_in \<Rightarrow>
                db\<lparr>sw_tasks := sw_tasks db @ [\<lparr>jx_call = k, jx_due = sw_now db + retry_in, jx_attempt = attempt + 1\<rparr>]\<rparr>
            | None \<Rightarrow> send_missed_call_notifications k db)
      else send_missed_call_notifications k db)"

text \<open>The broker hands out the task at position \<open>i\<close> once it is due.\<close>

definition run_task :: "nat \<Rightarrow> switchboard \<Rightarrow> switchboard" where
  "run_task i db =
     (if i < length (sw_tasks db) \<and> jx_due (sw_tasks db ! i) \<le> sw_now db
      then notify_missed_call (jx_call (sw_tasks db ! i)) (jx_attempt (sw_tasks db ! i))
             (db\<lparr>sw_tasks := take i (sw_tasks db) @ drop (Suc i) (sw_tasks db)\<rparr>)
      else db)"

end
