(* ===== verification/Call_Ops.thy ===== *)
theory Call_Ops
  imports Call_Model
begin

text \<open>
  The endpoints that write call logs (\<^verbatim>\<open>CallLogViewSet\<close> and the webhooks of \<^verbatim>\<open>crm/views.py\<close>) and the
  counts of \<^verbatim>\<open>crm/views_stats.py\<close>.  A handler returns the switchboard it leaves and the refusal it
  answers with, None for success.  The gate of the subscription feature comes before every handler
  and is left out; texts fit their columns except where a serializer admits longer ones.
\<close>

datatype call_refusal = Call_forbidden | Call_unknown | Call_bad_request | Call_bad_gateway
| Call_unavailable | Call_server_error

type_synonym call_answer = "switchboard \<times> call_refusal option"

definition status_name :: "call_status \<Rightarrow> string" where
  "status_name s =
     (case s of Call_initiated \<Rightarrow> ''initiated'' | Call_ringing \<Rightarrow> ''ringing'' | Call_answered \<Rightarrow> ''answered''
      | Call_missed \<Rightarrow> ''missed'' | Call_busy \<Rightarrow> ''busy'' | Call_no_answer \<Rightarrow> ''no_answer'' | Call_failed \<Rightarrow> ''failed''
      | Call_cancelled \<Rightarrow> ''cancelled'' | Call_transferred \<Rightarrow> ''transferred'' | Call_ended \<Rightarrow> ''ended''
      | Call_recording \<Rightarrow> ''recording'' | Call_on_hold \<Rightarrow> ''on_hold'')"

definition may_change_call :: "user \<Rightarrow> call_log \<Rightarrow> bool" where
  "may_change_call u c \<longleftrightarrow> cx_handler c = Some (u_pk u) \<or> is_pbx_admin u"

subsection \<open>Starting a call\<close>

definition default_config :: "switchboard \<Rightarrow> sip_config option" where
  "default_config db = find (\<lambda>n. nx_default n \<and> nx_active n) (sw_configs db)"

text \<open>The order of \<^verbatim>\<open>UserPhoneAssignment\<close>: primary first, then by extension.\<close>

definition phones_in_order :: "phone list \<Rightarrow> phone list" where
  "phones_in_order ps = sort_key (\<lambda>p. \<not> px_primary p) (sort_key px_extension ps)"

definition primary_phone :: "switchboard \<Rightarrow> pk \<Rightarrow> phone option" where
  "primary_phone db uid =
     find (\<lambda>p. px_user p = uid \<and> px_active p \<and> px_primary p) (phones_in_order (sw_phones db))"

definition new_call :: "call_log" where
  "new_call =
     \<lparr>cx_pk = 0, cx_caller = [], cx_recipient = [], cx_direction = Inbound, cx_kind = Voice_call, cx_started = 0,
      cx_answered = None, cx_ended = None, cx_duration = None, cx_status = Call_ringing, cx_sip_id = [],
      cx_config = None, cx_handler = None, cx_transferred_to = [], cx_transferred_user = None,
      cx_transferred_at = None, cx_parent = None, cx_transfer = No_transfer\<rparr>"

text \<open>The digits check of \<^verbatim>\<open>CallInitiateSerializer\<close>.\<close>

definition dialable :: "string \<Rightarrow> bool" where
  "dialable s =
     (let clean = filter (\<lambda>c. c \<notin> set ''+- ()'') s in list_all is_digit clean \<and> 7 \<le> length clean \<and> length s \<le> 20)"

definition choose_config :: "switchboard \<Rightarrow> pk option \<Rightarrow> sip_config option" where
  "choose_config db sip =
     (case sip of
        None \<Rightarrow> default_config db
      | Some k \<Rightarrow> if k = 0 then default_config db else find (\<lambda>n. nx_pk n = k \<and> nx_active n) (sw_configs db))"

definition initiate_call :: "user \<Rightarrow> string \<Rightarrow> call_kind \<Rightarrow> pk option \<Rightarrow> switchboard \<Rightarrow> call_answer" where
  "initiate_call u recipient kind sip db =
     (if \<not> dialable recipient then (db, Some Call_bad_request)
      else case choose_config db sip of
        None \<Rightarrow> (db, Some Call_bad_request)
      | Some n \<Rightarrow>
          let caller = (case primary_phone db (u_pk u) of Some p \<Rightarrow> px_number p | None \<Rightarrow> nx_number n)
          in (case create_call_row (new_call\<lparr>cx_caller := caller, cx_recipient := recipient, cx_direction := Outbound,
                     cx_kind := kind, cx_status := Call_initiated, cx_handler := Some (u_pk u),
                     cx_config := Some (nx_pk n)\<rparr>) db of
                (k, db1) \<Rightarrow> (add_event k ''initiated'' (Some (u_pk u)) db1, None)))"

definition log_incoming_call :: "user \<Rightarrow> string \<Rightarrow> string \<Rightarrow> string \<Rightarrow> switchboard \<Rightarrow> call_answer" where
  "log_incoming_call u caller recipient sip_id db =
     (case default_config db of
        None \<Rightarrow> (db, Some Call_bad_request)
      | Some n \<Rightarrow>
          (case create_call_row (new_call\<lparr>cx_caller := caller, cx_recipient := recipient, cx_sip_id := sip_id,
                   cx_handler := Some (u_pk u), cx_config := Some (nx_pk n)\<rparr>) db of
             (k, db1) \<Rightarrow> (add_event k ''ringing'' (Some (u_pk u)) db1, None)))"

text \<open>POST on the collection; the caller is always the handler, the serializer has no such field.\<close>

definition create_call :: "user \<Rightarrow> string \<Rightarrow> string \<Rightarrow> call_direction \<Rightarrow> call_kind \<Rightarrow> string \<Rightarrow> pk option
    \<Rightarrow> switchboard \<Rightarrow> call_answer" where
  "create_call u caller recipient dir kind sip_id cfg db =
     (snd (create_call_row (new_call\<lparr>cx_caller := caller, cx_recipient := recipient, cx_direction := dir,
        cx_kind := kind, cx_sip_id := sip_id, cx_config := cfg, cx_handler := Some (u_pk u)\<rparr>) db), None)"

subsection \<open>Status changes\<close>

definition talk_time :: "datetime \<Rightarrow> call_log \<Rightarrow> int" where
  "talk_time ended c = (case cx_answered c of Some a \<Rightarrow> ended - a | None \<Rightarrow> 0)"

definition answer_stamped :: "datetime \<Rightarrow> call_log \<Rightarrow> call_log" where
  "answer_stamped now c = (if cx_answered c = None then c\<lparr>cx_answered := Some now\<rparr> else c)"

definition end_stamped :: "datetime \<Rightarrow> call_log \<Rightarrow> call_log" where
  "end_stamped now c =
     (if cx_ended c = None then c\<lparr>cx_ended := Some now, cx_duration := Some (talk_time now c)\<rparr> else c)"

definition status_changed :: "datetime \<Rightarrow> call_status \<Rightarrow> call_log \<Rightarrow> call_log" where
  "status_changed now s c =
     (let c1 = c\<lparr>cx_status := s\<rparr>;
          c2 = (if s = Call_answered then answer_stamped now c1 else c1)
      in if s \<in> {Call_ended, Call_missed, Call_failed, Call_cancelled} then end_stamped now c2 else c2)"

definition update_status :: "user \<Rightarrow> pk \<Rightarrow> call_status \<Rightarrow> switchboard \<Rightarrow> call_answer" where
  "update_status u k s db =
     (case call_of db k of
        None \<Rightarrow> (db, Some Call_unknown)
      | Some c \<Rightarrow>
          if \<not> may_change_call u c then (db, Some Call_forbidden)
          else (add_event k (status_name s) (Some (u_pk u)) (save_call (status_changed (sw_now db) s c) db), None))"

definition call_outcome :: "switchboard \<Rightarrow> call_log \<Rightarrow> call_status" where
  "call_outcome db c =
     (if cx_answered c \<noteq> None \<or> cx_direction c \<noteq> Inbound then Call_ended
      else if find_answered_sibling db c \<noteq> None then answered_elsewhere_status
      else Call_missed)"

definition end_call :: "user \<Rightarrow> pk \<Rightarrow> switchboard \<Rightarrow> call_answer" where
  "end_call u k db =
     (case call_of db k of
        None \<Rightarrow> (db, Some Call_unknown)
      | Some c \<Rightarrow>
          if \<not> may_change_call u c then (db, Some Call_forbidden)
          else if cx_status c \<in> set final_statuses then (db, Some Call_bad_request)
          else
            let c1 = c\<lparr>cx_ended := Some (sw_now db), cx_duration := Some (talk_time (sw_now db) c)\<rparr>
            in (add_event k ''ended'' (Some (u_pk u)) (save_call (c1\<lparr>cx_status := call_outcome db c1\<rparr>) db), None))"

definition event_types :: "string list" where
  "event_types =
     [''initiated'', ''ringing'', ''answered'', ''hold'', ''unhold'', ''transfer_initiated'', ''transfer_completed'',
      ''recording_started'', ''recording_stopped'', ''muted'', ''unmuted'', ''dtmf'', ''quality_change'', ''ended'',
      ''failed'', ''error'', ''conference_started'']"

definition add_call_event :: "user \<Rightarrow> pk \<Rightarrow> string \<Rightarrow> switchboard \<Rightarrow> call_answer" where
  "add_call_event u k e db =
     (case call_of db k of
        None \<Rightarrow> (db, Some Call_unknown)
      | Some c \<Rightarrow>
          if e \<in> set event_types then (add_event k e (Some (u_pk u)) db, None) else (db, Some Call_bad_request))"

definition toggle_hold :: "user \<Rightarrow> pk \<Rightarrow> switchboard \<Rightarrow> call_answer" where
  "toggle_hold u k db =
     (case call_of db k of
        None \<Rightarrow> (db, Some Call_unknown)
      | Some c \<Rightarrow>
          if cx_status c = Call_answered
          then (add_event k ''hold'' (Some (u_pk u)) (save_call (c\<lparr>cx_status := Call_on_hold\<rparr>) db), None)
          else if cx_status c = Call_on_hold
          then (add_event k ''unhold'' (Some (u_pk u)) (save_call (c\<lparr>cx_status := Call_answered\<rparr>) db), None)
          else (db, Some Call_bad_request))"

text \<open>DELETE: events and the recording go with the call, other rows lose the reference.\<close>

definition drop_call :: "pk \<Rightarrow> switchboard \<Rightarrow> switchboard" where
  "drop_call k db =
     db\<lparr>sw_calls := map (\<lambda>x. if cx_parent x = Some k then x\<lparr>cx_parent := None\<rparr> else x)
                      (row_delete cx_pk k (sw_calls db)),
        sw_events := filter (\<lambda>e. ex_call e \<noteq> k) (sw_events db),
        sw_recordings := filter (\<lambda>g. gx_call g \<noteq> k) (sw_recordings db),
        sw_ratings := map (\<lambda>h. if hx_call h = Some k then h\<lparr>hx_call := None\<rparr> else h) (sw_ratings db)\<rparr>"

definition destroy_call :: "user \<Rightarrow> pk \<Rightarrow> switchboard \<Rightarrow> call_answer" where
  "destroy_call u k db =
     (if \<not> is_pbx_admin u then (db, Some Call_forbidden)
      else if call_of db k = None then (db, Some Call_unknown)
      else (drop_call k db, None))"

text \<open>
  PUT and PATCH.  \<open>given\<close> are the keys of the body, \<open>call_edit\<close> the validated values of the fields that
  \<^verbatim>\<open>CallLogSerializer\<close> leaves writable; None is a field that is not given.  Agents may give the
  notes only, which are not modelled.
\<close>

record call_edit =
  ed_caller :: "string option"
  ed_recipient :: "string option"
  ed_direction :: "call_direction option"
  ed_kind :: "call_kind option"
  ed_answered :: "datetime option option"
  ed_ended :: "datetime option option"
  ed_duration :: "int option option"
  ed_status :: "call_status option"
  ed_sip_id :: "string option"
  ed_config :: "pk option option"
  ed_handler :: "pk option option"
  ed_transferred_to :: "string option"
  ed_transferred_user :: "pk option option"
  ed_transferred_at :: "datetime option option"
  ed_transfer :: "transfer_kind option"

definition given_or :: "'a option \<Rightarrow> 'a \<Rightarrow> 'a" where
  "given_or x d = (case x of Some y \<Rightarrow> y | None \<Rightarrow> d)"

definition apply_call_edit :: "call_edit \<Rightarrow> call_log \<Rightarrow> call_log" where
  "apply_call_edit p c =
     c\<lparr>cx_caller := given_or (ed_caller p) (cx_caller c), cx_recipient := given_or (ed_recipient p) (cx_recipient c),
       cx_direction := given_or (ed_direction p) (cx_direction c), cx_kind := given_or (ed_kind p) (cx_kind c),
       cx_answered := given_or (ed_answered p) (cx_answered c), cx_ended := given_or (ed_ended p) (cx_ended c),
       cx_duration := given_or (ed_duration p) (cx_duration c), cx_status := given_or (ed_status p) (cx_status c),
       cx_sip_id := given_or (ed_sip_id p) (cx_sip_id c), cx_config := given_or (ed_config p) (cx_config c),
       cx_handler := given_or (ed_handler p) (cx_handler c),
       cx_transferred_to := given_or (ed_transferred_to p) (cx_transferred_to c),
       cx_transferred_user := given_or (ed_transferred_user p) (cx_transferred_user c),
       cx_transferred_at := given_or (ed_transferred_at p) (cx_transferred_at c),
       cx_transfer := given_or (ed_transfer p) (cx_transfer c)\<rparr>"

definition patch_call :: "user \<Rightarrow> string list \<Rightarrow> call_edit \<Rightarrow> pk \<Rightarrow> switchboard \<Rightarrow> call_answer" where
  "patch_call u given p k db =
     (if \<not> is_pbx_admin u \<and> \<not> set given \<subseteq> {''notes''} then (db, Some Call_forbidden)
      else case call_of db k of
        None \<Rightarrow> (db, Some Call_unknown)
      | Some c \<Rightarrow> (save_call (if set given \<subseteq> {''notes''} then c else apply_call_edit p c) db, None))"

subsection \<open>Recording\<close>

definition recording_of :: "switchboard \<Rightarrow> pk \<Rightarrow> call_recording option" where
  "recording_of db k = find (\<lambda>g. gx_call g = k) (sw_recordings db)"

definition save_recording :: "call_recording \<Rightarrow> switchboard \<Rightarrow> switchboard" where
  "save_recording g db = db\<lparr>sw_recordings := row_save gx_call g (sw_recordings db)\<rparr>"

definition start_recording :: "user \<Rightarrow> pk \<Rightarrow> switchboard \<Rightarrow> call_answer" where
  "start_recording u k db =
     (case call_of db k of
        None \<Rightarrow> (db, Some Call_unknown)
      | Some c \<Rightarrow>
          if cx_status c \<notin> {Call_answered, Call_on_hold} then (db, Some Call_bad_request)
          else if recording_of db k \<noteq> None then (db, Some Call_bad_request)
          else
            (save_call (c\<lparr>cx_status := Call_recording\<rparr>)
               (add_event k ''recording_started'' (Some (u_pk u))
                 (db\<lparr>sw_recordings := row_create
                        \<lparr>gx_call = k, gx_status = ''recording'', gx_started = Some (sw_now db), gx_completed = None,
                         gx_duration = None\<rparr> (sw_recordings db)\<rparr>)), None))"

definition stop_recording :: "user \<Rightarrow> pk \<Rightarrow> switchboard \<Rightarrow> call_answer" where
  "stop_recording u k db =
     (case call_of db k of
        None \<Rightarrow> (db, Some Call_unknown)
      | Some c \<Rightarrow>
          (case recording_of db k of
             None \<Rightarrow> (db, Some Call_bad_request)
           | Some g \<Rightarrow>
               if gx_status g \<noteq> ''recording'' then (db, Some Call_bad_request)
               else
                 (save_call (c\<lparr>cx_status := Call_answered\<rparr>)
                    (add_event k ''recording_stopped'' (Some (u_pk u))
                      (save_recording (g\<lparr>gx_status := ''processing'', gx_completed := Some (sw_now db),
                         gx_duration := (case gx_started g of Some s \<Rightarrow> Some (sw_now db - s) | None \<Rightarrow> gx_duration g)\<rparr>) db)),
                  None)))"

subsection \<open>Transfers\<close>

definition transfer_call :: "user \<Rightarrow> pk \<Rightarrow> string \<Rightarrow> switchboard \<Rightarrow> call_answer" where
  "transfer_call u k transfer_to db =
     (case call_of db k of
        None \<Rightarrow> (db, Some Call_unknown)
      | Some c \<Rightarrow>
          if transfer_to = [] then (db, Some Call_bad_request)
          else if cx_status c \<notin> {Call_answered, Call_on_hold} then (db, Some Call_bad_request)
          else
            (add_event k ''transfer_completed'' (Some (u_pk u))
              (save_call (c\<lparr>cx_status := Call_transferred, cx_ended := Some (sw_now db),
                            cx_duration := (if cx_answered c \<noteq> None then Some (talk_time (sw_now db) c)
                                            else cx_duration c)\<rparr>)
                (add_event k ''transfer_initiated'' (Some (u_pk u)) db)), None))"

definition consultation_leg :: "user \<Rightarrow> call_log \<Rightarrow> string \<Rightarrow> call_log" where
  "consultation_leg u c target =
     new_call\<lparr>cx_caller := (if cx_direction c = Inbound then cx_recipient c else cx_caller c), cx_recipient := target,
       cx_direction := Outbound, cx_status := Call_initiated, cx_handler := Some (u_pk u),
       cx_config := cx_config c, cx_parent := Some (cx_pk c)\<rparr>"

definition put_on_hold :: "call_log \<Rightarrow> call_log" where
  "put_on_hold c = c\<lparr>cx_status := Call_on_hold, cx_transfer := Attended_transfer\<rparr>"

text \<open>The serializer admits targets of 30 characters, the column of the new leg 20.\<close>

definition initiate_consultation :: "user \<Rightarrow> pk \<Rightarrow> string \<Rightarrow> pk option \<Rightarrow> switchboard \<Rightarrow> call_answer" where
  "initiate_consultation u k target target_user db =
     (case call_of db k of
        None \<Rightarrow> (db, Some Call_unknown)
      | Some c \<Rightarrow>
          if target = [] \<or> 30 < length target then (db, Some Call_bad_request)
          else if cx_status c \<notin> {Call_answered, Call_on_hold} then (db, Some Call_bad_request)
          else if 20 < length target then (db, Some Call_server_error)
          else
            let chosen = (case target_user of
                            Some t \<Rightarrow> if t \<in> u_pk ` set (sw_users db) then Some t else None
                          | None \<Rightarrow> None)
            in (save_call (put_on_hold c) (add_event k ''transfer_initiated'' (Some (u_pk u))
                  (snd (create_call_row ((consultation_leg u c target)\<lparr>cx_transferred_user := chosen\<rparr>) db))), None))"

definition consultation_of :: "switchboard \<Rightarrow> pk \<Rightarrow> pk \<Rightarrow> call_log option" where
  "consultation_of db k log_id = find (\<lambda>x. cx_pk x = log_id \<and> cx_parent x = Some k) (sw_calls db)"

definition last_seven :: "string \<Rightarrow> string" where
  "last_seven s = drop (length s - 7) s"

definition transferee :: "switchboard \<Rightarrow> call_log \<Rightarrow> string \<Rightarrow> pk option \<Rightarrow> pk option" where
  "transferee db x target old =
     (case cx_transferred_user x of
        Some t \<Rightarrow> Some t
      | None \<Rightarrow>
          (case find (\<lambda>p. px_active p \<and> ends_with (last_seven target) (px_number p)) (phones_in_order (sw_phones db)) of
             Some p \<Rightarrow> Some (px_user p)
           | None \<Rightarrow> old))"

definition transferred_call :: "switchboard \<Rightarrow> call_log \<Rightarrow> string \<Rightarrow> call_log \<Rightarrow> call_log" where
  "transferred_call db x target c =
     c\<lparr>cx_status := Call_transferred, cx_transfer := Attended_transfer, cx_transferred_to := target,
       cx_transferred_at := Some (sw_now db), cx_ended := Some (sw_now db),
       cx_duration := (if cx_answered c \<noteq> None then Some (talk_time (sw_now db) c) else cx_duration c),
       cx_transferred_user := transferee db x target (cx_transferred_user c)\<rparr>"

definition complete_attended_transfer :: "user \<Rightarrow> pk \<Rightarrow> pk \<Rightarrow> string \<Rightarrow> switchboard \<Rightarrow> call_answer" where
  "complete_attended_transfer u k log_id target db =
     (case call_of db k of
        None \<Rightarrow> (db, Some Call_unknown)
      | Some c \<Rightarrow>
          if log_id = 0 \<or> target = [] then (db, Some Call_bad_request)
          else (case consultation_of db k log_id of
                  None \<Rightarrow> (db, Some Call_unknown)
                | Some x \<Rightarrow>
                    if 30 < length target then (db, Some Call_server_error)
                    else (add_event k ''transfer_completed'' (Some (u_pk u))
                            (save_call (transferred_call db x target c) db), None)))"

definition closed_consultation :: "datetime \<Rightarrow> call_log \<Rightarrow> call_log" where
  "closed_consultation now x =
     x\<lparr>cx_status := Call_ended, cx_ended := Some now,
       cx_duration := (if cx_answered x \<noteq> None then Some (talk_time now x) else cx_duration x)\<rparr>"

definition cancel_consultation :: "user \<Rightarrow> pk \<Rightarrow> pk \<Rightarrow> switchboard \<Rightarrow> call_answer" where
  "cancel_consultation u k log_id db =
     (case call_of db k of
        None \<Rightarrow> (db, Some Call_unknown)
      | Some c \<Rightarrow>
          if log_id = 0 then (db, Some Call_bad_request)
          else (case consultation_of db k log_id of
                  None \<Rightarrow> (db, Some Call_unknown)
                | Some x \<Rightarrow>
                    (add_event k ''transfer_initiated'' (Some (u_pk u))
                       (save_call (c\<lparr>cx_status := Call_answered, cx_transfer := No_transfer\<rparr>)
                          (save_call (closed_consultation (sw_now db) x) db)), None)))"

subsection \<open>Conferences\<close>

text \<open>
  The exchange as the code meets it: whether the tenant has one with credentials, the channels it
  lists (None when the call fails), and which redirects succeed.
\<close>

record channel =
  ch_name :: string
  ch_caller :: string
  ch_connected :: string

record manager =
  am_configured :: bool
  am_channels :: "channel list option"
  am_redirect :: "string \<Rightarrow> bool"

definition clean_last_seven :: "string \<Rightarrow> string" where
  "clean_last_seven s =
     (let clean = filter (\<lambda>c. c \<notin> set ''+ -'') s in if 7 \<le> length clean then drop (length clean - 7) clean else clean)"

fun is_infix :: "string \<Rightarrow> string \<Rightarrow> bool" where
  "is_infix p [] = (p = [])"
| "is_infix p (c # s) = (take (length p) (c # s) = p \<or> is_infix p s)"

definition conference_numbers :: "call_log \<Rightarrow> call_log \<Rightarrow> string list" where
  "conference_numbers c x =
     map clean_last_seven (filter (\<lambda>s. s \<noteq> []) [cx_caller c, cx_recipient c, cx_caller x, cx_recipient x])"

definition channel_matches :: "string option \<Rightarrow> string list \<Rightarrow> channel \<Rightarrow> bool" where
  "channel_matches ext numbers ch \<longleftrightarrow>
     (case ext of Some e \<Rightarrow> e \<noteq> [] \<and> is_infix (''/'' @ e @ ''-'') (ch_name ch) | None \<Rightarrow> False)
   \<or> list_ex (\<lambda>n. n \<noteq> [] \<and> clean_last_seven n \<in> set numbers) [ch_caller ch, ch_connected ch]"

definition conference_channels :: "switchboard \<Rightarrow> user \<Rightarrow> call_log \<Rightarrow> call_log \<Rightarrow> channel list \<Rightarrow> string list" where
  "conference_channels db u c x chs =
     rev (remdups (rev (map ch_name (filter
       (channel_matches (map_option px_extension (primary_phone db (u_pk u))) (conference_numbers c x)) chs))))"

definition merge_conference :: "manager \<Rightarrow> user \<Rightarrow> pk \<Rightarrow> pk \<Rightarrow> switchboard \<Rightarrow> call_answer" where
  "merge_conference ami u k log_id db =
     (case call_of db k of
        None \<Rightarrow> (db, Some Call_unknown)
      | Some c \<Rightarrow>
          if cx_status c \<noteq> Call_on_hold \<or> cx_transfer c \<noteq> Attended_transfer then (db, Some Call_bad_request)
          else (case consultation_of db k log_id of
                  None \<Rightarrow> (db, Some Call_unknown)
                | Some x \<Rightarrow>
                    if \<not> am_configured ami then (db, Some Call_unavailable)
                    else (case am_channels ami of
                            None \<Rightarrow> (db, Some Call_bad_gateway)
                          | Some chs \<Rightarrow>
                              let found = conference_channels db u c x chs
                              in if found = [] then (db, Some Call_bad_request)
                                 else if \<not> list_ex (am_redirect ami) found then (db, Some Call_bad_gateway)
                                 else
                                   (add_event log_id ''conference_started'' (Some (u_pk u))
                                     (add_event k ''conference_started'' (Some (u_pk u))
                                       (save_call (x\<lparr>cx_status := Call_answered, cx_kind := Conference_call\<rparr>)
                                         (save_call (c\<lparr>cx_status := Call_answered, cx_kind := Conference_call\<rparr>) db))),
                                    None))))"

subsection \<open>Webhooks of the exchange\<close>

definition event_status :: "string \<Rightarrow> call_status" where
  "event_status e =
     (case map_of [(''call_initiated'', Call_initiated), (''call_ringing'', Call_ringing),
                   (''call_answered'', Call_answered), (''call_ended'', Call_ended), (''call_failed'', Call_failed),
                   (''call_busy'', Call_busy), (''call_no_answer'', Call_no_answer)] e of
        Some s \<Rightarrow> s
      | None \<Rightarrow> Call_ringing)"

text \<open>\<^verbatim>\<open>str.replace('call_', '')\<close>.\<close>

function without_prefix :: "string \<Rightarrow> string" where
  "without_prefix s =
     (case s of
        [] \<Rightarrow> []
      | c # r \<Rightarrow> if take 5 s = ''call_'' then without_prefix (drop 5 s) else c # without_prefix r)"
  by pat_completeness auto
termination by (relation "measure length") auto

definition webhook_changed :: "datetime \<Rightarrow> call_status \<Rightarrow> call_log \<Rightarrow> call_log" where
  "webhook_changed now s c =
     (let c1 = c\<lparr>cx_status := s\<rparr>
      in if s = Call_answered \<and> cx_answered c = None then c1\<lparr>cx_answered := Some now\<rparr>
         else if s \<in> {Call_ended, Call_failed, Call_busy, Call_no_answer} then end_stamped now c1
         else c1)"

definition webhook_event :: "pk \<Rightarrow> string \<Rightarrow> switchboard \<Rightarrow> call_answer" where
  "webhook_event k e db =
     (if 20 < length (without_prefix e) then (db, Some Call_server_error)
      else (add_event k (without_prefix e) None db, None))"

definition sip_webhook :: "string \<Rightarrow> string \<Rightarrow> string \<Rightarrow> string \<Rightarrow> switchboard \<Rightarrow> call_answer" where
  "sip_webhook e sip_id caller recipient db =
     (if e = [] \<or> sip_id = [] then (db, Some Call_bad_request)
      else
        (case filter (\<lambda>c. cx_sip_id c = sip_id) (sw_calls db) of
           [c] \<Rightarrow> webhook_event (cx_pk c) e (save_call (webhook_changed (sw_now db) (event_status e) c) db)
         | [] \<Rightarrow>
             if e = ''call_initiated'' \<or> e = ''call_ringing''
             then (case create_call_row (new_call\<lparr>cx_caller := caller, cx_recipient := recipient,
                          cx_direction := (if caller \<noteq> recipient then Inbound else Outbound),
                          cx_status := event_status e, cx_sip_id := sip_id,
                          cx_config := map_option nx_pk (default_config db)\<rparr>) db of
                     (k, db1) \<Rightarrow> webhook_event k e db1)
             else (db, Some Call_unknown)
         | _ \<Rightarrow> (db, Some Call_server_error)))"

definition webhook_recording :: "datetime \<Rightarrow> string \<Rightarrow> int option \<Rightarrow> call_recording \<Rightarrow> call_recording" where
  "webhook_recording now s len g =
     (let g1 = g\<lparr>gx_status := s, gx_duration := (case len of
                  Some n \<Rightarrow> if n \<noteq> 0 then Some (seconds n) else gx_duration g
                | None \<Rightarrow> gx_duration g)\<rparr>
      in if s = ''started'' then g1\<lparr>gx_started := Some now\<rparr>
         else if s = ''completed'' then g1\<lparr>gx_completed := Some now\<rparr>
         else g1)"

text \<open>\<open>k\<close> is the call with the UUID of the body, 0 for a missing UUID.\<close>

definition recording_webhook :: "pk \<Rightarrow> string \<Rightarrow> int option \<Rightarrow> switchboard \<Rightarrow> call_answer" where
  "recording_webhook k s len db =
     (if k = 0 \<or> s = [] then (db, Some Call_bad_request)
      else if call_of db k = None then (db, Some Call_unknown)
      else
        let fresh = \<lparr>gx_call = k, gx_status = ''pending'', gx_started = None, gx_completed = None, gx_duration = None\<rparr>;
            (g, db1) = (case recording_of db k of
                          Some g \<Rightarrow> (g, db)
                        | None \<Rightarrow> (fresh, db\<lparr>sw_recordings := row_create fresh (sw_recordings db)\<rparr>))
        in if 15 < length s then (db1, Some Call_server_error)
           else
             let db2 = save_recording (webhook_recording (sw_now db) s len g) db1
             in if 20 < length (''recording_'' @ s) then (db2, Some Call_server_error)
                else (add_event k (''recording_'' @ s) None db2, None))"

definition rated_call :: "switchboard \<Rightarrow> string \<Rightarrow> call_log option" where
  "rated_call db caller =
     (let clean = filter (\<lambda>c. c \<notin> set ''+ '') caller;
          digits = (if 7 \<le> length clean then drop (length clean - 7) clean else clean)
      in find (\<lambda>x. cx_direction x = Inbound \<and> ends_with digits (cx_caller x))
           (sort_key (\<lambda>x. - cx_started x) (sw_calls db)))"

definition save_rating :: "call_rating \<Rightarrow> switchboard \<Rightarrow> switchboard" where
  "save_rating h db =
     db\<lparr>sw_ratings := (if hx_call h \<in> hx_call ` set (sw_ratings db) then row_save hx_call h (sw_ratings db)
                       else row_create h (sw_ratings db))\<rparr>"

definition call_rating_webhook :: "string \<Rightarrow> int option \<Rightarrow> switchboard \<Rightarrow> call_answer" where
  "call_rating_webhook caller rating db =
     (if strip caller = [] then (db, Some Call_bad_request)
      else case rating of
        None \<Rightarrow> (db, Some Call_bad_request)
      | Some n \<Rightarrow>
          if n < 1 \<or> 5 < n then (db, Some Call_bad_request)
          else (case rated_call db (strip caller) of
                  None \<Rightarrow> (db, Some Call_unknown)
                | Some c \<Rightarrow>
                    let db1 = add_event (cx_pk c) ''rating'' None db
                    in (case cx_config c of
                          None \<Rightarrow> (db1, None)
                        | Some cfg \<Rightarrow>
                            (save_rating \<lparr>hx_call = Some (cx_pk c), hx_caller = strip caller, hx_user = cx_handler c,
                               hx_config = cfg, hx_rating = n, hx_at = sw_now db\<rparr> db1, None))))"

subsection \<open>Counts\<close>

record call_counts =
  ct_all :: nat
  ct_answered :: nat
  ct_missed :: nat
  ct_inbound :: nat
  ct_outbound :: nat
  ct_talk :: int

definition answered_with_duration :: "call_log \<Rightarrow> bool" where
  "answered_with_duration c \<longleftrightarrow> counts_answered c \<and> cx_duration c \<noteq> None"

definition talk_total :: "call_log list \<Rightarrow> int" where
  "talk_total cs = (\<Sum>c\<leftarrow>filter answered_with_duration cs. case cx_duration c of Some x \<Rightarrow> x | None \<Rightarrow> 0)"

definition count_calls :: "call_log list \<Rightarrow> call_counts" where
  "count_calls cs =
     \<lparr>ct_all = length cs, ct_answered = length (filter counts_answered cs),
      ct_missed = length (filter counts_missed cs),
      ct_inbound = length (filter (\<lambda>c. cx_direction c = Inbound) cs),
      ct_outbound = length (filter (\<lambda>c. cx_direction c = Outbound) cs), ct_talk = talk_total cs\<rparr>"

definition calls_between :: "switchboard \<Rightarrow> datetime \<Rightarrow> datetime \<Rightarrow> call_log list" where
  "calls_between db a b = filter (\<lambda>c. a \<le> cx_started c \<and> cx_started c < b) (sw_calls db)"

definition overview_stats :: "switchboard \<Rightarrow> datetime \<Rightarrow> datetime \<Rightarrow> call_counts" where
  "overview_stats db a b = count_calls (calls_between db a b)"

text \<open>A row of \<^verbatim>\<open>users_stats\<close>: answered inbound, missed and outbound calls, and the talk time.\<close>

definition user_row :: "call_log list \<Rightarrow> pk \<Rightarrow> nat \<times> nat \<times> nat \<times> int" where
  "user_row cs u =
     (let mine = filter (\<lambda>c. cx_handler c = Some u) cs
      in (length (filter (\<lambda>c. counts_answered c \<and> cx_direction c = Inbound) mine), length (filter counts_missed mine),
          length (filter (\<lambda>c. cx_direction c = Outbound) mine), talk_total mine))"

definition queue_dids :: "switchboard \<Rightarrow> pk \<Rightarrow> string list" where
  "queue_dids db q = map rx_did (filter (\<lambda>r. rx_queue r = Some q \<and> rx_active r) (sw_routes db))"

definition queue_calls :: "switchboard \<Rightarrow> pk \<Rightarrow> datetime \<Rightarrow> datetime \<Rightarrow> call_log list" where
  "queue_calls db q a b =
     filter (\<lambda>c. cx_direction c = Inbound \<and> cx_recipient c \<in> set (queue_dids db q)) (calls_between db a b)"

definition queue_stats :: "switchboard \<Rightarrow> pk \<Rightarrow> datetime \<Rightarrow> datetime \<Rightarrow> nat \<times> nat \<times> nat" where
  "queue_stats db q a b =
     (let cs = queue_calls db q a b
      in (length cs, length (filter counts_answered cs), length (filter counts_missed cs)))"

end
