(* ===== verification/Call_Attempts.thy ===== *)
theory Call_Attempts
  imports Call_Ops
begin

text \<open>
  What a queue attempt is, without the loop: the legs that can be reached from the unanswered one by
  going from a leg to another that started at most one gap after it ended (\<open>in_attempt\<close>).  The scan
  of \<^verbatim>\<open>missed_call_state\<close> with its early exit decides the question for this set, because the
  candidates come in the order in which they started.
\<close>

subsection \<open>The attempt of a leg\<close>

definition relevant_leg :: "switchboard \<Rightarrow> call_log \<Rightarrow> call_log \<Rightarrow> bool" where
  "relevant_leg db c x \<longleftrightarrow>
     \<not> taken_before (cx_started c) x
   \<and> \<not> (cx_started x < cx_started c \<and> end_of (sw_now db) x < cx_started c - sibling_slack)
   \<and> queues_meet (agent_queues db (cx_handler c)) (agent_queues db (cx_handler x))"

definition leg_gap :: "switchboard \<Rightarrow> call_log \<Rightarrow> int" where
  "leg_gap db c = fst (attempt_timing db (agent_queues db (cx_handler c)))"

definition leg_candidates :: "switchboard \<Rightarrow> call_log \<Rightarrow> call_log list" where
  "leg_candidates db c =
     attempt_candidates db c (end_of (sw_now db) c) (snd (attempt_timing db (agent_queues db (cx_handler c))))"

inductive in_attempt :: "switchboard \<Rightarrow> call_log \<Rightarrow> call_log \<Rightarrow> bool" for db c where
  own_leg: "x \<in> set (leg_candidates db c) \<Longrightarrow> relevant_leg db c x \<Longrightarrow>
    cx_started x \<le> end_of (sw_now db) c + leg_gap db c \<Longrightarrow> in_attempt db c x"
| next_leg: "in_attempt db c y \<Longrightarrow> cx_answered y = None \<Longrightarrow> x \<in> set (leg_candidates db c) \<Longrightarrow> relevant_leg db c x \<Longrightarrow>
    cx_started y \<le> cx_started x \<Longrightarrow> cx_started x \<le> end_of (sw_now db) y + leg_gap db c \<Longrightarrow> in_attempt db c x"

definition still_rings :: "call_log \<Rightarrow> bool" where
  "still_rings x \<longleftrightarrow> cx_ended x = None \<and> cx_status x \<notin> set final_statuses"

lemma in_attempt_candidate: "in_attempt db c x \<Longrightarrow> x \<in> set (leg_candidates db c) \<and> relevant_leg db c x"
  by (induction rule: in_attempt.induct) auto

lemma longest_timeout_nonneg: "0 \<le> foldr max (map qx_timeout rows) 0"
  by (induction rows) auto

lemma gap_nonneg: "0 \<le> leg_gap db c"
  using longest_timeout_nonneg
  by (auto simp: leg_gap_def attempt_timing_def Let_def default_attempt_gap_def seconds_def intro!: add_nonneg_nonneg mult_nonneg_nonneg)

lemma candidates_sorted: "sorted (map cx_started (leg_candidates db c))"
  by (simp add: leg_candidates_def attempt_candidates_def take_map [symmetric] sorted_wrt_take)

subsection \<open>The scan decides it\<close>

text \<open>
  The state of the scan after the legs \<open>ps\<close>: none of them that is in the attempt was answered,
  \<open>chain_end\<close> is the latest end of the unanswered leg and those in the attempt, and \<open>ringing\<close> says
  whether one of these still rings.
\<close>

definition scanned :: "switchboard \<Rightarrow> call_log \<Rightarrow> call_log list \<Rightarrow> datetime \<Rightarrow> bool \<Rightarrow> bool" where
  "scanned db c ps chain_end ringing \<longleftrightarrow>
     end_of (sw_now db) c \<le> chain_end
   \<and> (\<forall>y\<in>set ps. in_attempt db c y \<longrightarrow> cx_answered y = None \<and> end_of (sw_now db) y \<le> chain_end)
   \<and> (chain_end = end_of (sw_now db) c \<or> (\<exists>y\<in>set ps. in_attempt db c y \<and> end_of (sw_now db) y = chain_end))
   \<and> (ringing \<longleftrightarrow> (\<exists>y\<in>set ps. in_attempt db c y \<and> still_rings y))"

lemma scannedD:
  assumes "scanned db c ps e r"
  shows "end_of (sw_now db) c \<le> e"
    and "y \<in> set ps \<Longrightarrow> in_attempt db c y \<Longrightarrow> cx_answered y = None"
    and "y \<in> set ps \<Longrightarrow> in_attempt db c y \<Longrightarrow> end_of (sw_now db) y \<le> e"
    and "e = end_of (sw_now db) c \<or> (\<exists>y\<in>set ps. in_attempt db c y \<and> end_of (sw_now db) y = e)"
    and "r \<longleftrightarrow> (\<exists>y\<in>set ps. in_attempt db c y \<and> still_rings y)"
  using assms by (auto simp: scanned_def)

text \<open>A leg of the attempt among the rest pulls the first of the rest within the gap.\<close>

lemma attempt_reaches_head:
  assumes "in_attempt db c y" and "y \<in> set (x # xs)"
    and all: "leg_candidates db c = ps @ x # xs" and s: "scanned db c ps e r"
  shows "cx_started x \<le> e + leg_gap db c"
  using assms(1,2)
proof (induction rule: in_attempt.induct)
  case (own_leg y)
  have "cx_started x \<le> cx_started y"
    using candidates_sorted [of db c] own_leg.prems by (auto simp: all sorted_append)
  then show ?case using own_leg.hyps(3) scannedD(1) [OF s] by linarith
next
  case (next_leg z y)
  have le: "cx_started x \<le> cx_started y"
    using candidates_sorted [of db c] next_leg.prems by (auto simp: all sorted_append)
  have "z \<in> set ps \<or> z \<in> set (x # xs)" using in_attempt_candidate [OF next_leg.hyps(1)] by (auto simp: all)
  then show ?case
  proof
    assume "z \<in> set ps"
    then show ?thesis using scannedD(3) [OF s _ next_leg.hyps(1)] next_leg.hyps(6) le by fastforce
  qed (rule next_leg.IH)
qed

lemma head_in_attempt:
  assumes all: "leg_candidates db c = ps @ x # xs" and s: "scanned db c ps e r"
  shows "in_attempt db c x \<longleftrightarrow> relevant_leg db c x \<and> cx_started x \<le> e + leg_gap db c"
proof
  assume "in_attempt db c x"
  then show "relevant_leg db c x \<and> cx_started x \<le> e + leg_gap db c"
    using attempt_reaches_head [OF _ _ all s] in_attempt_candidate by auto
next
  assume r: "relevant_leg db c x \<and> cx_started x \<le> e + leg_gap db c"
  have x: "x \<in> set (leg_candidates db c)" by (simp add: all)
  show "in_attempt db c x"
  proof (cases "e = end_of (sw_now db) c")
    case True
    then show ?thesis using in_attempt.own_leg [OF x] r by blast
  next
    case False
    then obtain y where y: "y \<in> set ps" "in_attempt db c y" "end_of (sw_now db) y = e"
      using scannedD(4) [OF s] by blast
    moreover have "cx_started y \<le> cx_started x"
      using candidates_sorted [of db c] y(1) by (auto simp: all sorted_append)
    ultimately show ?thesis using in_attempt.next_leg [OF y(2) scannedD(2) [OF s y(1,2)] x] r by blast
  qed
qed

lemma scanned_skip:
  assumes "scanned db c ps e r" and "\<not> in_attempt db c x"
  shows "scanned db c (ps @ [x]) e r"
  using assms by (auto simp: scanned_def)

lemma scanned_take:
  assumes "scanned db c ps e r" and "in_attempt db c x" and "cx_answered x = None"
  shows "scanned db c (ps @ [x]) (max e (end_of (sw_now db) x)) (r \<or> still_rings x)"
  using assms unfolding scanned_def by (auto simp: max_def)

text \<open>What the scan answers, in terms of the attempt.\<close>

definition attempt_answer :: "switchboard \<Rightarrow> call_log \<Rightarrow> attempt_state \<Rightarrow> bool" where
  "attempt_answer db c s \<longleftrightarrow>
     (case s of
        Answered_elsewhere x \<Rightarrow> in_attempt db c x \<and> cx_answered x \<noteq> None
      | Attempt_pending \<Rightarrow>
          (\<forall>x. in_attempt db c x \<longrightarrow> cx_answered x = None)
          \<and> ((\<exists>x. in_attempt db c x \<and> still_rings x)
             \<or> sw_now db < end_of (sw_now db) c + leg_gap db c
             \<or> (\<exists>x. in_attempt db c x \<and> sw_now db < end_of (sw_now db) x + leg_gap db c))
      | Attempt_missed \<Rightarrow>
          (\<forall>x. in_attempt db c x \<longrightarrow>
             cx_answered x = None \<and> \<not> still_rings x \<and> end_of (sw_now db) x + leg_gap db c \<le> sw_now db)
          \<and> end_of (sw_now db) c + leg_gap db c \<le> sw_now db)"

lemma scan_stops:
  assumes s: "scanned db c ps e r" and all: "\<And>y. in_attempt db c y \<Longrightarrow> y \<in> set ps"
  shows "attempt_answer db c (if r \<or> sw_now db < e + leg_gap db c then Attempt_pending else Attempt_missed)"
  using scannedD [OF s] all unfolding attempt_answer_def by (fastforce split: if_splits)

lemma scan_answers:
  assumes "leg_candidates db c = ps @ xs" and "scanned db c ps e r" and "cx_started c \<le> end_of (sw_now db) c"
  shows "attempt_answer db c
    (scan_legs db (sw_now db) (cx_started c) (agent_queues db (cx_handler c)) (leg_gap db c) xs e r)"
  using assms
proof (induction xs arbitrary: ps e r)
  case Nil
  then have "y \<in> set ps" if "in_attempt db c y" for y using in_attempt_candidate [OF that] by simp
  then show ?case using scan_stops [OF Nil(2)] by simp
next
  case (Cons x xs)
  have all: "leg_candidates db c = (ps @ [x]) @ xs" using Cons.prems(1) by simp
  note head = head_in_attempt [OF Cons.prems(1,2)]
  note skip = Cons.IH [OF all scanned_skip [OF Cons.prems(2)] Cons.prems(3)]
  have stop: "attempt_answer db c (if r \<or> sw_now db < e + leg_gap db c then Attempt_pending else Attempt_missed)"
    if far: "e + leg_gap db c < cx_started x"
  proof (rule scan_stops [OF Cons.prems(2)])
    fix y assume y: "in_attempt db c y"
    have "y \<notin> set (x # xs)" using attempt_reaches_head [OF y _ Cons.prems(1,2)] far by fastforce
    then show "y \<in> set ps" using in_attempt_candidate [OF y] Cons.prems(1) by auto
  qed
  have near: "cx_started x < cx_started c \<Longrightarrow> cx_started x \<le> e + leg_gap db c"
    using gap_nonneg [of db c] scannedD(1) [OF Cons.prems(2)] Cons.prems(3) by linarith
  show ?case
  proof (cases "in_attempt db c x")
    case True
    then have rel: "relevant_leg db c x" "cx_started x \<le> e + leg_gap db c" using head by auto
    show ?thesis
    proof (cases "cx_answered x = None")
      case True
      then show ?thesis
        using rel Cons.IH [OF all scanned_take [OF Cons.prems(2) \<open>in_attempt db c x\<close> True] Cons.prems(3)]
        by (auto simp: relevant_leg_def still_rings_def)
    next
      case False
      then show ?thesis using rel \<open>in_attempt db c x\<close> by (auto simp: relevant_leg_def attempt_answer_def)
    qed
  next
    case False
    then show ?thesis using skip [OF False] stop near head by (auto simp: relevant_leg_def not_le)
  qed
qed

lemma missed_call_state_answers:
  assumes "last_digits (cx_caller c) \<noteq> []" and "cx_answered c = None" and "cx_started c \<le> end_of (sw_now db) c"
  shows "attempt_answer db c (missed_call_state db c)"
proof -
  have "missed_call_state db c =
      scan_legs db (sw_now db) (cx_started c) (agent_queues db (cx_handler c)) (leg_gap db c) (leg_candidates db c)
        (end_of (sw_now db) c) False"
    using assms(1,2)
    by (simp add: missed_call_state_def Let_def leg_gap_def leg_candidates_def split: prod.split)
  then show ?thesis using scan_answers [of db c "[]" "leg_candidates db c" "end_of (sw_now db) c" False] assms(3)
    by (simp add: scanned_def)
qed

lemma sibling_iff_attempt:
  assumes "last_digits (cx_caller c) \<noteq> []" and "cx_answered c = None" and "cx_started c \<le> end_of (sw_now db) c"
  shows "find_answered_sibling db c \<noteq> None \<longleftrightarrow> (\<exists>x. in_attempt db c x \<and> cx_answered x \<noteq> None)"
  using missed_call_state_answers [OF assms]
  by (auto simp: find_answered_sibling_def attempt_answer_def split: attempt_state.splits)

end
