(* ===== verification/Call_Runs.thy ===== *)
theory Call_Runs
  imports Call_Attempts
begin

text \<open>
  The switchboard as a transition system (\<open>call_step\<close>): every endpoint and webhook on every branch, the
  delayed tasks, changes of users, phones, queues and routes, and the passing of time.
  Administrators may write any time, status and direction (\<open>patch_call\<close>); what depends on such
  edits is relative to two flags: \<open>ti\<close>, that they keep the times of calls, and \<open>fo\<close>, that they keep the
  directions and that somebody stays active who may be told about missed calls.
  Each operation is a sequence of a few effects (\<open>call_effect\<close>); what these keep, every run keeps:
  the times of a call are in order and no missed call is forgotten.
\<close>

subsection \<open>The invariant\<close>

definition good_call :: "datetime \<Rightarrow> call_log \<Rightarrow> bool" where
  "good_call now c \<longleftrightarrow>
     cx_started c \<le> now
   \<and> (\<forall>a. cx_answered c = Some a \<longrightarrow> cx_started c \<le> a \<and> a \<le> now)
   \<and> (\<forall>e. cx_ended c = Some e \<longrightarrow> cx_started c \<le> e \<and> e \<le> now)
   \<and> (\<forall>x. cx_duration c = Some x \<longrightarrow> cx_ended c \<noteq> None \<and> 0 \<le> x \<and> x \<le> now - cx_started c)"

definition unanswered_inbound :: "call_log \<Rightarrow> bool" where
  "unanswered_inbound c \<longleftrightarrow> cx_direction c = Inbound \<and> cx_status c \<in> set missed_statuses"

definition followed :: "switchboard \<Rightarrow> pk \<Rightarrow> bool" where
  "followed db k \<longleftrightarrow> k \<in> jx_call ` set (sw_tasks db) \<or> k \<in> no_call ` set (sw_notices db) \<or> k \<in> set (sw_silenced db)"

definition call_keys :: "switchboard \<Rightarrow> pk list" where
  "call_keys db = map cx_pk (sw_calls db)"

definition sound_switchboard :: "bool \<Rightarrow> bool \<Rightarrow> switchboard \<Rightarrow> bool" where
  "sound_switchboard ti fo db \<longleftrightarrow>
     distinct (call_keys db)
   \<and> (ti \<longrightarrow> (\<forall>c\<in>set (sw_calls db). good_call (sw_now db) c))
   \<and> (fo \<longrightarrow> (\<forall>c\<in>set (sw_calls db). unanswered_inbound c \<longrightarrow> followed db (cx_pk c)))
   \<and> (\<forall>j\<in>set (sw_tasks db). jx_attempt j \<le> max_defers)
   \<and> (fo \<longrightarrow> fallback_recipients db \<noteq> [])"

lemma soundD:
  assumes "sound_switchboard ti fo db"
  shows "distinct (call_keys db)" and "c \<in> set (sw_calls db) \<Longrightarrow> ti \<Longrightarrow> good_call (sw_now db) c"
    and "c \<in> set (sw_calls db) \<Longrightarrow> unanswered_inbound c \<Longrightarrow> fo \<Longrightarrow> followed db (cx_pk c)"
    and "j \<in> set (sw_tasks db) \<Longrightarrow> jx_attempt j \<le> max_defers" and "fo \<Longrightarrow> fallback_recipients db \<noteq> []"
  using assms by (auto simp: sound_switchboard_def)

lemma soundI:
  assumes "distinct (call_keys db)" and "\<And>c. c \<in> set (sw_calls db) \<Longrightarrow> ti \<Longrightarrow> good_call (sw_now db) c"
    and "\<And>c. c \<in> set (sw_calls db) \<Longrightarrow> unanswered_inbound c \<Longrightarrow> fo \<Longrightarrow> followed db (cx_pk c)"
    and "\<And>j. j \<in> set (sw_tasks db) \<Longrightarrow> jx_attempt j \<le> max_defers" and "fo \<Longrightarrow> fallback_recipients db \<noteq> []"
  shows "sound_switchboard ti fo db"
  using assms by (auto simp: sound_switchboard_def)

lemma call_of_in: "call_of db k = Some c \<Longrightarrow> c \<in> set (sw_calls db) \<and> cx_pk c = k"
  by (auto simp: call_of_def dest: row_get_Some)

lemma call_of_member: "distinct (call_keys db) \<Longrightarrow> c \<in> set (sw_calls db) \<Longrightarrow> call_of db (cx_pk c) = Some c"
  by (simp add: call_of_def call_keys_def row_get_unique)

lemma good_later: "good_call now c \<Longrightarrow> now \<le> later \<Longrightarrow> good_call later c"
  unfolding good_call_def by force

lemma good_status [simp]: "good_call now (c\<lparr>cx_status := s\<rparr>) = good_call now c"
  by (simp add: good_call_def)

text \<open>What the recipients, queues and timings depend on.\<close>

lemma fallback_cong: "sw_users db' = sw_users db \<Longrightarrow> fallback_recipients db' = fallback_recipients db"
  by (simp add: fallback_recipients_def)

subsection \<open>Relabelling\<close>

lemma add_event_simps [simp]:
  "sw_calls (add_event k e u db) = sw_calls db" "sw_now (add_event k e u db) = sw_now db"
  "sw_tasks (add_event k e u db) = sw_tasks db" "sw_notices (add_event k e u db) = sw_notices db"
  "sw_silenced (add_event k e u db) = sw_silenced db"
  "sw_users (add_event k e u db) = sw_users db" "sw_recordings (add_event k e u db) = sw_recordings db"
  "call_of (add_event k e u db) j = call_of db j"
  by (simp_all add: add_event_def call_of_def)

lemma mark_simps [simp]:
  "sw_now (mark_answered_elsewhere k db) = sw_now db" "sw_tasks (mark_answered_elsewhere k db) = sw_tasks db"
  "sw_notices (mark_answered_elsewhere k db) = sw_notices db" "sw_silenced (mark_answered_elsewhere k db) = sw_silenced db"
  "sw_users (mark_answered_elsewhere k db) = sw_users db"
  "call_keys (mark_answered_elsewhere k db) = call_keys db"
  by (auto simp: mark_answered_elsewhere_def call_keys_def split: option.splits)

text \<open>Every row is kept or gets the status of a leg that was answered elsewhere.\<close>

lemma mark_rows:
  assumes "x \<in> set (sw_calls (mark_answered_elsewhere k db))"
  obtains y where "y \<in> set (sw_calls db)"
    and "x = y \<or> x = y\<lparr>cx_status := answered_elsewhere_status\<rparr> \<and> cx_pk y = k \<and> cx_answered y = None"
proof (cases "find (\<lambda>x. cx_pk x = k \<and> cx_answered x = None \<and> cx_status x \<noteq> answered_elsewhere_status) (sw_calls db)")
  case None
  then show ?thesis using assms that by (simp add: mark_answered_elsewhere_def)
next
  case (Some y)
  then have "y \<in> set (sw_calls db)" "cx_pk y = k" "cx_answered y = None" by (auto simp: find_Some_iff)
  then show ?thesis using assms Some that by (auto simp: mark_answered_elsewhere_def set_row_save split: if_splits)
qed

lemma mark_fallback [simp]: "fallback_recipients (mark_answered_elsewhere k db) = fallback_recipients db"
  by (rule fallback_cong) simp

lemma mark_followed [simp]: "followed (mark_answered_elsewhere k db) = followed db"
  by (simp add: followed_def fun_eq_iff)

lemma sound_mark:
  assumes "sound_switchboard ti fo db"
  shows "sound_switchboard ti fo (mark_answered_elsewhere k db)"
proof (rule soundI)
  fix c assume c: "c \<in> set (sw_calls (mark_answered_elsewhere k db))"
  from c show "good_call (sw_now (mark_answered_elsewhere k db)) c" if ti
    by (rule mark_rows) (use soundD(2) [OF assms] that in auto)
  assume "unanswered_inbound c" fo
  with c show "followed (mark_answered_elsewhere k db) (cx_pk c)"
    by (elim mark_rows)
      (use soundD(3) [OF assms] in \<open>auto simp: unanswered_inbound_def answered_elsewhere_status_def missed_statuses_def\<close>)
qed (use soundD [OF assms] in auto)

lemma relabel_leg_simps [simp]:
  "sw_now (relabel_leg x db) = sw_now db" "sw_tasks (relabel_leg x db) = sw_tasks db"
  "sw_notices (relabel_leg x db) = sw_notices db" "call_keys (relabel_leg x db) = call_keys db"
  by (simp_all add: relabel_leg_def)

lemma relabel_keeps:
  "sw_now (fold relabel_leg xs db) = sw_now db" "sw_tasks (fold relabel_leg xs db) = sw_tasks db"
  "call_keys (fold relabel_leg xs db) = call_keys db"
  "sound_switchboard ti fo db \<Longrightarrow> sound_switchboard ti fo (fold relabel_leg xs db)"
  by (induction xs arbitrary: db) (auto simp: relabel_leg_def sound_mark)

lemma relabel_simps [simp]:
  "sw_now (relabel_legs_answered_elsewhere c db) = sw_now db"
  "sw_tasks (relabel_legs_answered_elsewhere c db) = sw_tasks db"
  "call_keys (relabel_legs_answered_elsewhere c db) = call_keys db"
  by (auto simp: relabel_legs_answered_elsewhere_def relabel_keeps split: option.splits)

lemma sound_relabel: "sound_switchboard ti fo db \<Longrightarrow> sound_switchboard ti fo (relabel_legs_answered_elsewhere c db)"
  by (auto simp: relabel_legs_answered_elsewhere_def relabel_keeps split: option.splits)

subsection \<open>Saving and creating calls\<close>

lemma followed_task [simp]:
  "followed (db\<lparr>sw_tasks := sw_tasks db @ [j]\<rparr>) k \<longleftrightarrow> followed db k \<or> jx_call j = k"
  by (auto simp: followed_def)

lemma notify_simps [simp]:
  "sw_now (notify_call_events old c db) = sw_now db" "call_keys (notify_call_events old c db) = call_keys db"
  by (auto simp: notify_call_events_def schedule_missed_call_notification_def call_keys_def [of "_\<lparr>sw_tasks := _\<rparr>"]
      call_keys_def [of db])

lemma save_call_simps [simp]:
  "sw_now (save_call c db) = sw_now db" "call_keys (save_call c db) = call_keys db"
  by (simp_all add: save_call_def) (simp add: call_keys_def)

lemma sound_save:
  assumes db: "sound_switchboard ti fo db" and c: "ti \<Longrightarrow> good_call (sw_now db) c"
    and dir: "\<And>y. fo \<Longrightarrow> call_of db (cx_pk c) = Some y \<Longrightarrow> cx_direction y = cx_direction c"
  shows "sound_switchboard ti fo (save_call c db)"
proof -
  let ?saved = "db\<lparr>sw_calls := row_save cx_pk c (sw_calls db)\<rparr>"
  let ?old = "map_option cx_status (call_of db (cx_pk c))"
  have rows: "x = c \<and> cx_pk c \<in> cx_pk ` set (sw_calls db) \<or> x \<in> set (sw_calls db) \<and> cx_pk x \<noteq> cx_pk c"
    if "x \<in> set (sw_calls ?saved)" for x using that by (auto simp: set_row_save split: if_splits)
  have keys: "call_keys ?saved = call_keys db" by (simp add: call_keys_def)
  have fallback: "fallback_recipients ?saved = fallback_recipients db" by (rule fallback_cong) simp
  have followed: "followed ?saved = followed db" by (simp add: followed_def fun_eq_iff)
  have good: "good_call (sw_now db) x" if "x \<in> set (sw_calls ?saved)" ti for x
    using rows [OF that(1)] that(2) c soundD(2) [OF db] by auto
  have other: "followed db (cx_pk x)" if "x \<in> set (sw_calls ?saved)" "unanswered_inbound x" "x \<noteq> c" fo for x
    using rows [OF that(1)] that soundD(3) [OF db] by auto
  have before: "followed db (cx_pk c)"
    if miss: "unanswered_inbound c" "c \<in> set (sw_calls ?saved)" and old: "?old = Some s" "s \<in> set missed_statuses"
      and fo for s
  proof -
    obtain y where y: "call_of db (cx_pk c) = Some y" "cx_status y = s" using old(1) by auto
    then have "unanswered_inbound y" using dir [OF \<open>fo\<close> y(1)] miss old(2) by (simp add: unanswered_inbound_def)
    then show ?thesis using soundD(3) [OF db _ _ \<open>fo\<close>] call_of_in [OF y(1)] by metis
  qed
  have sound: "sound_switchboard ti fo ?saved"
    if "unanswered_inbound c \<Longrightarrow> c \<in> set (sw_calls ?saved) \<Longrightarrow> fo \<Longrightarrow> followed db (cx_pk c)"
  proof (rule soundI)
    fix x assume "x \<in> set (sw_calls ?saved)" "unanswered_inbound x" fo
    then show "followed ?saved (cx_pk x)" unfolding followed using other that by (cases "x = c") auto
  qed (use soundD(1,4,5) [OF db] good keys fallback in auto)
  show ?thesis
  proof (cases "unanswered_inbound c \<and> (case ?old of Some s \<Rightarrow> s \<notin> set missed_statuses | None \<Rightarrow> True)")
    case True
    have "save_call c db = schedule_missed_call_notification c ?saved"
      using True unfolding save_call_def notify_call_events_def
      by (auto simp: unanswered_inbound_def missed_statuses_def split: option.splits)
    moreover have "sound_switchboard ti fo (schedule_missed_call_notification c ?saved)"
    proof (rule soundI)
      fix x assume x: "x \<in> set (sw_calls (schedule_missed_call_notification c ?saved))" "unanswered_inbound x" fo
      then show "followed (schedule_missed_call_notification c ?saved) (cx_pk x)"
        using other [of x] by (cases "x = c") (auto simp: schedule_missed_call_notification_def followed_def)
    next
      show "fallback_recipients (schedule_missed_call_notification c ?saved) \<noteq> []" if fo
        using soundD(5) [OF db that] by (simp add: schedule_missed_call_notification_def fallback_recipients_def)
    qed (use soundD(1,4) [OF db] good keys in \<open>auto simp: schedule_missed_call_notification_def call_keys_def\<close>)
    ultimately show ?thesis by simp
  next
    case False
    have "sound_switchboard ti fo ?saved"
      by (rule sound) (use False before in \<open>auto split: option.splits\<close>)
    moreover have "save_call c db = ?saved \<or> save_call c db = relabel_legs_answered_elsewhere c ?saved"
      using False unfolding save_call_def notify_call_events_def
      by (auto simp: unanswered_inbound_def split: option.splits)
    ultimately show ?thesis using sound_relabel [of ti fo ?saved c] by auto
  qed
qed

definition fresh_call :: "call_log \<Rightarrow> bool" where
  "fresh_call c \<longleftrightarrow> cx_answered c = None \<and> cx_ended c = None \<and> cx_duration c = None
     \<and> cx_status c \<notin> set missed_statuses \<and> cx_status c \<noteq> Call_answered"

definition created_row :: "call_log \<Rightarrow> switchboard \<Rightarrow> call_log" where
  "created_row c db = c\<lparr>cx_pk := next_pk cx_pk (sw_calls db), cx_started := sw_now db\<rparr>"

lemma create_fresh:
  "fresh_call c \<Longrightarrow> create_call_row c db =
     (next_pk cx_pk (sw_calls db), db\<lparr>sw_calls := row_create (created_row c db) (sw_calls db)\<rparr>)"
  by (auto simp: create_call_row_def Let_def fresh_call_def created_row_def notify_call_events_def)

lemma create_simps:
  assumes "fresh_call c"
  shows "sw_now (snd (create_call_row c db)) = sw_now db" "fst (create_call_row c db) = next_pk cx_pk (sw_calls db)"
    "call_of db k = Some x \<Longrightarrow> call_of (snd (create_call_row c db)) k = Some x"
  by (simp_all add: create_fresh [OF assms] call_of_def row_get_create)

lemma sound_create:
  assumes db: "sound_switchboard ti fo db" and c: "fresh_call c"
  shows "sound_switchboard ti fo (snd (create_call_row c db))"
proof -
  have new: "good_call (sw_now db) (created_row c db)" "\<not> unanswered_inbound (created_row c db)"
    using c by (auto simp: good_call_def fresh_call_def created_row_def unanswered_inbound_def)
  have key: "cx_pk (created_row c db) = next_pk cx_pk (sw_calls db)" by (simp add: created_row_def)
  show ?thesis unfolding create_fresh [OF c] snd_conv
  proof (rule soundI)
    show "distinct (call_keys (db\<lparr>sw_calls := row_create (created_row c db) (sw_calls db)\<rparr>))"
      using soundD(1) [OF db] key by (simp add: call_keys_def)
    show "fallback_recipients (db\<lparr>sw_calls := row_create (created_row c db) (sw_calls db)\<rparr>) \<noteq> []" if fo
      using soundD(5) [OF db that] by (simp add: fallback_recipients_def)
  qed (use new soundD [OF db] in \<open>auto simp: followed_def\<close>)
qed

lemma sound_cong:
  assumes "sw_calls e = sw_calls db" "sw_now e = sw_now db" "sw_tasks e = sw_tasks db" "sw_notices e = sw_notices db"
    "sw_silenced e = sw_silenced db" "sw_users e = sw_users db"
  shows "sound_switchboard ti fo e = sound_switchboard ti fo db"
  using assms by (simp add: sound_switchboard_def call_keys_def followed_def fallback_cong [OF assms(6)])

lemma sound_drop:
  assumes "sound_switchboard ti fo db"
  shows "sound_switchboard ti fo (drop_call k db)"
proof -
  let ?f = "\<lambda>x. if cx_parent x = Some k then x\<lparr>cx_parent := None\<rparr> else x"
  have rows: "sw_calls (drop_call k db) = map ?f (row_delete cx_pk k (sw_calls db))" by (simp add: drop_call_def)
  have keys: "call_keys (drop_call k db) = map cx_pk (row_delete cx_pk k (sw_calls db))"
    by (simp add: call_keys_def rows)
  show ?thesis
  proof (rule soundI)
    show "distinct (call_keys (drop_call k db))"
      using distinct_row_delete [OF soundD(1) [OF assms, unfolded call_keys_def]] by (simp add: keys)
    fix c assume "c \<in> set (sw_calls (drop_call k db))"
    then obtain x where x: "x \<in> set (sw_calls db)" "c = ?f x" by (auto simp: rows)
    have now: "sw_now (drop_call k db) = sw_now db" by (simp add: drop_call_def)
    have "good_call (sw_now db) c = good_call (sw_now db) x" "unanswered_inbound c = unanswered_inbound x"
      "cx_pk c = cx_pk x" using x(2) by (auto simp: good_call_def unanswered_inbound_def)
    then show "ti \<Longrightarrow> good_call (sw_now (drop_call k db)) c"
      and "unanswered_inbound c \<Longrightarrow> fo \<Longrightarrow> followed (drop_call k db) (cx_pk c)"
      using soundD(2,3) [OF assms x(1)] now by (auto simp: followed_def drop_call_def)
  qed (use soundD(4,5) [OF assms] in \<open>auto simp: drop_call_def fallback_recipients_def\<close>)
qed

subsection \<open>Delayed tasks\<close>

definition without_task :: "nat \<Rightarrow> switchboard \<Rightarrow> switchboard" where
  "without_task i db = db\<lparr>sw_tasks := take i (sw_tasks db) @ drop (Suc i) (sw_tasks db)\<rparr>"

lemma without_task_simps [simp]:
  "sw_now (without_task i db) = sw_now db" "sw_calls (without_task i db) = sw_calls db"
  "sw_notices (without_task i db) = sw_notices db" "sw_silenced (without_task i db) = sw_silenced db" "sw_users (without_task i db) = sw_users db"
  "call_keys (without_task i db) = call_keys db" "call_of (without_task i db) k = call_of db k"
  by (simp_all add: without_task_def call_keys_def call_of_def)

lemma tasks_split:
  "i < length (sw_tasks db) \<Longrightarrow> set (sw_tasks db) = insert (sw_tasks db ! i) (set (sw_tasks (without_task i db)))"
  unfolding without_task_def by (subst (1) id_take_nth_drop [of i "sw_tasks db"]) auto

lemma run_task_cases:
  "run_task i db =
     (if i < length (sw_tasks db) \<and> jx_due (sw_tasks db ! i) \<le> sw_now db
      then notify_missed_call (jx_call (sw_tasks db ! i)) (jx_attempt (sw_tasks db ! i)) (without_task i db)
      else db)"
  by (simp add: run_task_def without_task_def)

lemma recipients_exist: "fallback_recipients db \<noteq> [] \<Longrightarrow> resolve_missed_call_recipients db c \<noteq> []"
  by (simp add: resolve_missed_call_recipients_def Let_def split: option.splits)

lemma sibling_unanswered: "find_answered_sibling db c \<noteq> None \<Longrightarrow> cx_answered c = None"
  by (auto simp: find_answered_sibling_def missed_call_state_def split: if_splits)

text \<open>The row of a missed leg that was answered elsewhere.\<close>

lemma mark_row:
  assumes "distinct (call_keys db)" and "call_of db k = Some c" and "cx_answered c = None"
    and "cx_status c \<in> set missed_statuses"
  shows "sw_calls (mark_answered_elsewhere k db) =
    row_save cx_pk (c\<lparr>cx_status := answered_elsewhere_status\<rparr>) (sw_calls db)"
proof -
  let ?P = "\<lambda>x. cx_pk x = k \<and> cx_answered x = None \<and> cx_status x \<noteq> answered_elsewhere_status"
  have c: "c \<in> set (sw_calls db)" "?P c"
    using assms by (auto dest: call_of_in simp: missed_statuses_def answered_elsewhere_status_def)
  obtain y where y: "find ?P (sw_calls db) = Some y" using c by (cases "find ?P (sw_calls db)") (auto simp: find_None_iff)
  then have "y \<in> set (sw_calls db)" "cx_pk y = k" by (auto dest: find_member)
  then have "y = c" using call_of_member [OF assms(1)] assms(2) by force
  then show ?thesis using y by (simp add: mark_answered_elsewhere_def)
qed

text \<open>Sound but for the call \<open>k\<close>, whose task was just taken off the broker.\<close>

definition nearly_sound :: "bool \<Rightarrow> bool \<Rightarrow> pk \<Rightarrow> switchboard \<Rightarrow> bool" where
  "nearly_sound ti fo k db \<longleftrightarrow>
     distinct (call_keys db)
   \<and> (ti \<longrightarrow> (\<forall>c\<in>set (sw_calls db). good_call (sw_now db) c))
   \<and> (fo \<longrightarrow> (\<forall>c\<in>set (sw_calls db). unanswered_inbound c \<and> cx_pk c \<noteq> k \<longrightarrow> followed db (cx_pk c)))
   \<and> (\<forall>j\<in>set (sw_tasks db). jx_attempt j \<le> max_defers)
   \<and> (fo \<longrightarrow> fallback_recipients db \<noteq> [])"

lemma nearly_soundD:
  assumes "nearly_sound ti fo k db"
  shows "distinct (call_keys db)" and "c \<in> set (sw_calls db) \<Longrightarrow> ti \<Longrightarrow> good_call (sw_now db) c"
    and "c \<in> set (sw_calls db) \<Longrightarrow> unanswered_inbound c \<Longrightarrow> cx_pk c \<noteq> k \<Longrightarrow> fo \<Longrightarrow> followed db (cx_pk c)"
    and "j \<in> set (sw_tasks db) \<Longrightarrow> jx_attempt j \<le> max_defers" and "fo \<Longrightarrow> fallback_recipients db \<noteq> []"
  using assms by (auto simp: nearly_sound_def)

lemma nearly_sound_without:
  assumes "sound_switchboard ti fo db" and "i < length (sw_tasks db)"
  shows "nearly_sound ti fo (jx_call (sw_tasks db ! i)) (without_task i db)"
  using soundD [OF assms(1)] tasks_split [OF assms(2)] fallback_cong [of "without_task i db" db]
  by (auto simp: nearly_sound_def followed_def)

lemma nearly_sound_done:
  assumes "nearly_sound ti fo k db" and "sw_calls d = sw_calls db" "sw_now d = sw_now db" "sw_users d = sw_users db"
    and "\<And>j. followed db j \<Longrightarrow> followed d j" and "\<And>j. j \<in> set (sw_tasks d) \<Longrightarrow> jx_attempt j \<le> max_defers"
    and "\<And>c. c \<in> set (sw_calls db) \<Longrightarrow> unanswered_inbound c \<Longrightarrow> cx_pk c = k \<Longrightarrow> fo \<Longrightarrow> followed d k"
  shows "sound_switchboard ti fo d"
proof (rule soundI)
  fix c assume "c \<in> set (sw_calls d)" "unanswered_inbound c" fo
  then show "followed d (cx_pk c)" using assms nearly_soundD(3) [OF assms(1), of c] by (cases "cx_pk c = k") auto
qed (use assms nearly_soundD [OF assms(1)] fallback_cong [OF assms(4)] in \<open>auto simp: call_keys_def\<close>)

lemma sound_mark_missed:
  assumes db: "nearly_sound ti fo k db" and c: "call_of db k = Some c" "unanswered_inbound c" "cx_answered c = None"
  shows "sound_switchboard ti fo (mark_answered_elsewhere k db)"
proof (rule soundI)
  let ?d = "mark_answered_elsewhere k db"
  have rows: "sw_calls ?d = row_save cx_pk (c\<lparr>cx_status := answered_elsewhere_status\<rparr>) (sw_calls db)"
    using mark_row [OF nearly_soundD(1) [OF db] c(1,3)] c(2) by (simp add: unanswered_inbound_def)
  fix x assume x: "x \<in> set (sw_calls ?d)"
  from x show "good_call (sw_now ?d) x" if ti by (rule mark_rows) (use nearly_soundD(2) [OF db _ that] in auto)
  assume miss: "unanswered_inbound x" and fo
  then have "x \<in> set (sw_calls db) \<and> cx_pk x \<noteq> k"
    using x call_of_in [OF c(1)] unfolding rows
    by (auto simp: set_row_save unanswered_inbound_def missed_statuses_def answered_elsewhere_status_def split: if_splits)
  then show "followed ?d (cx_pk x)" using nearly_soundD(3) [OF db] miss \<open>fo\<close> by simp
qed (use nearly_soundD [OF db] in auto)

text \<open>Telling users: each is told, or does not want to be.\<close>

lemma create_notification_keeps:
  "sw_calls (create_notification u k db) = sw_calls db" "sw_now (create_notification u k db) = sw_now db"
  "sw_users (create_notification u k db) = sw_users db" "sw_tasks (create_notification u k db) = sw_tasks db"
  "sw_muted (create_notification u k db) = sw_muted db" "sw_silenced (create_notification u k db) = sw_silenced db"
  "set (sw_notices db) \<subseteq> set (sw_notices (create_notification u k db))"
  "u \<notin> set (sw_muted db) \<Longrightarrow> k \<in> no_call ` set (sw_notices (create_notification u k db))"
  by (auto simp: create_notification_def)

lemma create_notifications_keep:
  "sw_calls (fold (\<lambda>u. create_notification (u_pk u) k) us db) = sw_calls db"
  "sw_now (fold (\<lambda>u. create_notification (u_pk u) k) us db) = sw_now db"
  "sw_users (fold (\<lambda>u. create_notification (u_pk u) k) us db) = sw_users db"
  "sw_tasks (fold (\<lambda>u. create_notification (u_pk u) k) us db) = sw_tasks db"
  "sw_silenced (fold (\<lambda>u. create_notification (u_pk u) k) us db) = sw_silenced db"
  by (induction us arbitrary: db; simp add: create_notification_keeps)+

lemma create_notifications_add:
  "set (sw_notices db) \<subseteq> set (sw_notices (fold (\<lambda>u. create_notification (u_pk u) k) us db))"
proof (induction us arbitrary: db)
  case (Cons u us)
  show ?case
    using create_notification_keeps(7) [of db "u_pk u" k] Cons.IH [of "create_notification (u_pk u) k db"] by auto
qed simp

lemma create_notifications_tell:
  "u \<in> set us \<Longrightarrow> u_pk u \<notin> set (sw_muted db) \<Longrightarrow>
     k \<in> no_call ` set (sw_notices (fold (\<lambda>u. create_notification (u_pk u) k) us db))"
proof (induction us arbitrary: db)
  case (Cons v us)
  show ?case
  proof (cases "u = v")
    case True
    then show ?thesis
      using create_notification_keeps(8) [of "u_pk u" db k] Cons.prems(2)
        create_notifications_add [of "create_notification (u_pk v) k db" k us] by auto
  next
    case False
    then show ?thesis using Cons.IH [of "create_notification (u_pk v) k db"] Cons.prems by (simp add: create_notification_keeps)
  qed
qed simp

lemma tell_users_simps [simp]:
  "sw_calls (tell_users k us db) = sw_calls db" "sw_now (tell_users k us db) = sw_now db"
  "sw_users (tell_users k us db) = sw_users db" "sw_tasks (tell_users k us db) = sw_tasks db"
  by (simp_all add: tell_users_def create_notifications_keep)

lemma tell_users_followed:
  "followed db j \<Longrightarrow> followed (tell_users k us db) j"
  "followed (tell_users k us db) k"
proof -
  show "followed db j \<Longrightarrow> followed (tell_users k us db) j"
    using image_mono [OF create_notifications_add [of db k us], of no_call]
    by (auto simp: followed_def tell_users_def create_notifications_keep)
  show "followed (tell_users k us db) k"
    using create_notifications_tell [of _ us db k]
    by (auto simp: followed_def tell_users_def list_all_iff)
qed

lemma sound_send:
  assumes db: "nearly_sound ti fo k db"
  shows "sound_switchboard ti fo (send_missed_call_notifications k db)"
proof (cases "\<exists>c. call_of db k = Some c \<and> unanswered_inbound c")
  case False
  have "send_missed_call_notifications k db = db"
    using False by (auto simp: send_missed_call_notifications_def unanswered_inbound_def split: option.splits)
  moreover have "call_of db k = Some c" if "c \<in> set (sw_calls db)" "cx_pk c = k" for c
    using call_of_member [OF nearly_soundD(1) [OF db] that(1)] that(2) by simp
  ultimately show ?thesis using False nearly_soundD(4) [OF db] by (auto intro!: nearly_sound_done [OF db])
next
  case True
  then obtain c where c: "call_of db k = Some c" "unanswered_inbound c" by blast
  show ?thesis
  proof (cases "find_answered_sibling db c = None")
    case True
    then have "send_missed_call_notifications k db =
        tell_users k (resolve_missed_call_recipients db c) db"
      using c by (simp add: send_missed_call_notifications_def unanswered_inbound_def)
    moreover have "resolve_missed_call_recipients db c \<noteq> []" if fo
      using that by (rule recipients_exist [OF nearly_soundD(5) [OF db]])
    ultimately show ?thesis using nearly_soundD(4) [OF db] tell_users_followed
      by (auto intro!: nearly_sound_done [OF db])
  next
    case False
    then have "send_missed_call_notifications k db = mark_answered_elsewhere k db"
      using c by (simp add: send_missed_call_notifications_def unanswered_inbound_def)
    then show ?thesis using sound_mark_missed [OF db c sibling_unanswered [OF False]] by simp
  qed
qed

lemma sound_run_task:
  assumes db: "sound_switchboard ti fo db"
  shows "sound_switchboard ti fo (run_task i db)"
proof (cases "i < length (sw_tasks db) \<and> jx_due (sw_tasks db ! i) \<le> sw_now db")
  case False
  then show ?thesis using db by (auto simp: run_task_cases)
next
  case True
  define k n rest where "k = jx_call (sw_tasks db ! i)" and "n = jx_attempt (sw_tasks db ! i)"
    and "rest = without_task i db"
  have near: "nearly_sound ti fo k rest" using nearly_sound_without [OF db] True by (simp add: k_def rest_def)
  have run: "run_task i db = notify_missed_call k n rest"
    using True by (simp add: run_task_cases k_def n_def rest_def)
  show ?thesis
  proof (cases "n < max_defers \<and> missed_call_retry rest k \<noteq> None")
    case False
    then have "notify_missed_call k n rest = send_missed_call_notifications k rest" by (auto simp: notify_missed_call_def)
    then show ?thesis using sound_send [OF near] run by simp
  next
    case later: True
    then obtain r where "missed_call_retry rest k = Some r" by auto
    then show ?thesis unfolding run using later nearly_soundD(4) [OF near]
      by (auto simp: notify_missed_call_def intro!: nearly_sound_done [OF near])
  qed
qed

subsection \<open>The endpoints\<close>

lemma sound_side [simp]:
  "sound_switchboard ti fo (add_event k e u db) = sound_switchboard ti fo db"
  "sound_switchboard ti fo (db\<lparr>sw_recordings := gs\<rparr>) = sound_switchboard ti fo db"
  "sound_switchboard ti fo (db\<lparr>sw_ratings := hs\<rparr>) = sound_switchboard ti fo db"
  by (rule sound_cong; simp)+

lemma call_of_side [simp]:
  "call_of (db\<lparr>sw_recordings := gs\<rparr>) k = call_of db k" "call_of (db\<lparr>sw_ratings := hs\<rparr>) k = call_of db k"
  by (simp_all add: call_of_def)

text \<open>A call found in a sound state, changed and saved.\<close>

lemma sound_resave:
  assumes "sound_switchboard ti fo e" and "call_of e k = Some c" and "cx_pk x = k"
    and "fo \<Longrightarrow> cx_direction x = cx_direction c"
    and "ti \<Longrightarrow> good_call (sw_now e) c \<Longrightarrow> good_call (sw_now e) x"
  shows "sound_switchboard ti fo (save_call x e)"
  using assms call_of_in [OF assms(2)] soundD(2) [OF assms(1)] by (intro sound_save) auto

lemma good_changes:
  assumes "good_call now c"
  shows "good_call now (answer_stamped now c)" "good_call now (end_stamped now c)"
    "good_call now (c\<lparr>cx_ended := Some now, cx_duration := Some (talk_time now c)\<rparr>)"
    "good_call now (c\<lparr>cx_ended := Some now, cx_duration := (if cx_answered c \<noteq> None then Some (talk_time now c) else cx_duration c)\<rparr>)"
  using assms by (auto simp: good_call_def answer_stamped_def end_stamped_def talk_time_def split: option.splits)

lemma good_fields [simp]:
  "good_call now (c\<lparr>cx_transfer := t\<rparr>) = good_call now c" "good_call now (c\<lparr>cx_kind := v\<rparr>) = good_call now c"
  "good_call now (put_on_hold c) = good_call now c"
  by (simp_all add: good_call_def put_on_hold_def)

lemma good_status_changed: "good_call now c \<Longrightarrow> good_call now (status_changed now s c)"
  by (simp add: status_changed_def Let_def good_changes)

lemma good_webhook_changed: "good_call now c \<Longrightarrow> good_call now (webhook_changed now s c)"
  by (auto simp: webhook_changed_def Let_def good_changes) (auto simp: good_call_def)

lemma changes_keep [simp]:
  "cx_pk (status_changed now s c) = cx_pk c" "cx_direction (status_changed now s c) = cx_direction c"
  "cx_pk (webhook_changed now s c) = cx_pk c" "cx_direction (webhook_changed now s c) = cx_direction c"
  "cx_pk (put_on_hold c) = cx_pk c" "cx_direction (put_on_hold c) = cx_direction c"
  "cx_pk (transferred_call db x t c) = cx_pk c" "cx_direction (transferred_call db x t c) = cx_direction c"
  "cx_pk (closed_consultation now c) = cx_pk c" "cx_direction (closed_consultation now c) = cx_direction c"
  by (simp_all add: status_changed_def webhook_changed_def answer_stamped_def end_stamped_def Let_def put_on_hold_def
      transferred_call_def closed_consultation_def)

lemma good_transfers:
  assumes "good_call now c"
  shows "sw_now db = now \<Longrightarrow> good_call now (transferred_call db x t c)" "good_call now (closed_consultation now c)"
    "good_call now (c\<lparr>cx_status := s, cx_ended := Some now, cx_duration := Some (talk_time now c)\<rparr>)"
    "good_call now (c\<lparr>cx_status := s, cx_ended := Some now\<rparr>)"
  using assms by (auto simp: good_call_def transferred_call_def closed_consultation_def talk_time_def split: option.splits)

text \<open>Directions do not change.\<close>

lemma mark_direction:
  assumes "distinct (call_keys db)" and "call_of (mark_answered_elsewhere k db) j = Some y"
  shows "\<exists>x. call_of db j = Some x \<and> cx_direction x = cx_direction y"
proof -
  have "y \<in> set (sw_calls (mark_answered_elsewhere k db))" "cx_pk y = j" using call_of_in [OF assms(2)] by auto
  then obtain x where "x \<in> set (sw_calls db)" "cx_direction x = cx_direction y" "cx_pk x = j"
    by (auto elim!: mark_rows)
  then show ?thesis using call_of_member [OF assms(1)] by blast
qed

lemma relabel_direction:
  assumes "distinct (call_keys db)" and "call_of (fold relabel_leg xs db) j = Some y"
  shows "\<exists>x. call_of db j = Some x \<and> cx_direction x = cx_direction y"
  using assms
proof (induction xs arbitrary: db)
  case (Cons l xs)
  have "call_of (fold relabel_leg xs (relabel_leg l db)) j = Some y" using Cons.prems(2) by simp
  then obtain z where "call_of (relabel_leg l db) j = Some z" "cx_direction z = cx_direction y"
    using Cons.IH [of "relabel_leg l db"] Cons.prems(1) by auto
  then show ?case using mark_direction [OF Cons.prems(1), of "cx_pk l" j z]
    by (cases "find_answered_sibling db l = None") (auto simp: relabel_leg_def)
qed simp

lemma notify_direction:
  assumes "distinct (call_keys db)" and "call_of (notify_call_events old c db) j = Some y"
  shows "\<exists>x. call_of db j = Some x \<and> cx_direction x = cx_direction y"
  using assms relabel_direction [OF assms(1)]
  by (auto simp: notify_call_events_def relabel_legs_answered_elsewhere_def schedule_missed_call_notification_def
      call_of_def split: if_splits option.splits)

lemma save_direction:
  assumes "distinct (call_keys db)" and "call_of (save_call c db) j = Some y"
    and "\<And>x. call_of db (cx_pk c) = Some x \<Longrightarrow> cx_direction x = cx_direction c"
  shows "\<exists>x. call_of db j = Some x \<and> cx_direction x = cx_direction y"
proof -
  let ?saved = "db\<lparr>sw_calls := row_save cx_pk c (sw_calls db)\<rparr>"
  have "distinct (call_keys ?saved)" using assms(1) by (simp add: call_keys_def)
  then obtain z where z: "call_of ?saved j = Some z" "cx_direction z = cx_direction y"
    using notify_direction assms(2) unfolding save_call_def by blast
  show ?thesis
  proof (cases "j = cx_pk c")
    case True
    then have "z = c" "j \<in> cx_pk ` set (sw_calls db)" using z(1) by (auto simp: call_of_def row_get_save split: if_splits)
    then obtain x where "call_of db j = Some x" using row_get_None [of cx_pk j] by (auto simp: call_of_def)
    then show ?thesis using assms(3) z(2) True \<open>z = c\<close> by auto
  qed (use z in \<open>auto simp: call_of_def row_get_save\<close>)
qed

lemma consultation_in: "consultation_of db k j = Some x \<Longrightarrow> x \<in> set (sw_calls db) \<and> cx_pk x = j"
  by (auto simp: consultation_of_def dest: find_member)

lemma consultation_of_key:
  "sound_switchboard ti fo db \<Longrightarrow> consultation_of db k j = Some x \<Longrightarrow> call_of db j = Some x"
  using consultation_in soundD(1) call_of_member by metis

text \<open>Two rows of a sound state saved one after the other.\<close>

lemma sound_resave_two:
  assumes "sound_switchboard ti fo e" and "call_of e k = Some c" "cx_pk c' = k" "cx_direction c' = cx_direction c"
    and "ti \<Longrightarrow> good_call (sw_now e) c \<Longrightarrow> good_call (sw_now e) c'"
    and "call_of e j = Some x" "cx_pk x' = j" "cx_direction x' = cx_direction x"
    and "ti \<Longrightarrow> good_call (sw_now e) x \<Longrightarrow> good_call (sw_now e) x'"
  shows "sound_switchboard ti fo (save_call x' (save_call c' e))"
proof (rule sound_save)
  show "sound_switchboard ti fo (save_call c' e)" by (rule sound_resave [OF assms(1-3) _ assms(5)]) (rule assms(4))
  show "good_call (sw_now (save_call c' e)) x'" if ti
    using assms(9) [OF that] soundD(2) [OF assms(1) _ that] call_of_in [OF assms(6)] by simp
  fix y assume "call_of (save_call c' e) (cx_pk x') = Some y"
  then show "cx_direction y = cx_direction x'"
    using save_direction [OF soundD(1) [OF assms(1)], of c' "cx_pk x'" y] assms by auto
qed

lemma sound_created: "create_call_row c db = (k, d) \<Longrightarrow> fresh_call c \<Longrightarrow> sound_switchboard ti fo db \<Longrightarrow> sound_switchboard ti fo d"
  using sound_create [of ti fo db c] by simp

lemma fresh_new_call [simp]: "fresh_call (new_call\<lparr>cx_status := s\<rparr>) \<longleftrightarrow> s \<notin> {Call_missed, Call_no_answer, Call_answered}"
  by (auto simp: fresh_call_def new_call_def missed_statuses_def)

lemma sound_calls_made:
  assumes "sound_switchboard ti fo db"
  shows "sound_switchboard ti fo (fst (initiate_call u r v s db))" "sound_switchboard ti fo (fst (log_incoming_call u a r i db))"
    "sound_switchboard ti fo (fst (create_call u a r d v i n db))"
  using assms
  by (auto simp: initiate_call_def log_incoming_call_def create_call_def Let_def new_call_def missed_statuses_def
      fresh_call_def split: option.splits prod.splits elim!: sound_created intro: sound_create)

text \<open>The edits of administrators that the two flags admit.\<close>

definition edit_keeps :: "bool \<Rightarrow> bool \<Rightarrow> call_log \<Rightarrow> call_log \<Rightarrow> bool" where
  "edit_keeps ti fo c x \<longleftrightarrow>
     (ti \<longrightarrow> cx_answered x = cx_answered c \<and> cx_ended x = cx_ended c \<and> cx_duration x = cx_duration c)
   \<and> (fo \<longrightarrow> cx_direction x = cx_direction c)"

definition edit_allowed :: "bool \<Rightarrow> bool \<Rightarrow> string list \<Rightarrow> call_edit \<Rightarrow> pk \<Rightarrow> switchboard \<Rightarrow> bool" where
  "edit_allowed ti fo given p k db \<longleftrightarrow>
     set given \<subseteq> {''notes''} \<or> (\<forall>c. call_of db k = Some c \<longrightarrow> edit_keeps ti fo c (apply_call_edit p c))"

lemma edit_keys [simp]: "cx_pk (apply_call_edit p c) = cx_pk c" "cx_started (apply_call_edit p c) = cx_started c"
  by (simp_all add: apply_call_edit_def)

lemma sound_patch:
  assumes "sound_switchboard ti fo db" and "edit_allowed ti fo given p k db"
  shows "sound_switchboard ti fo (fst (patch_call u given p k db))"
proof (cases "call_of db k")
  case None
  then show ?thesis using assms(1) by (simp add: patch_call_def)
next
  case (Some c)
  have k: "cx_pk c = k" using call_of_in [OF Some] by simp
  have "sound_switchboard ti fo (save_call c db)" by (rule sound_resave [OF assms(1) Some k]) simp_all
  moreover have "sound_switchboard ti fo (save_call (apply_call_edit p c) db)"
    if "edit_keeps ti fo c (apply_call_edit p c)"
    using that k by (intro sound_resave [OF assms(1) Some]) (auto simp: edit_keeps_def good_call_def)
  ultimately show ?thesis using assms Some by (auto simp: patch_call_def edit_allowed_def)
qed

lemma sound_statuses:
  assumes "sound_switchboard ti fo db"
  shows "sound_switchboard ti fo (fst (update_status u k s db))" "sound_switchboard ti fo (fst (end_call u k db))"
    "sound_switchboard ti fo (fst (add_call_event u k e db))" "sound_switchboard ti fo (fst (toggle_hold u k db))"
    "sound_switchboard ti fo (fst (destroy_call u k db))"
    "edit_allowed ti fo given p k db \<Longrightarrow> sound_switchboard ti fo (fst (patch_call u given p k db))"
  using assms sound_patch [OF assms]
  by (auto simp: update_status_def end_call_def add_call_event_def toggle_hold_def destroy_call_def Let_def
      good_status_changed good_changes dest: call_of_in split: option.splits
      intro!: sound_drop sound_resave [where k = k])

lemma sound_recording_steps:
  assumes "sound_switchboard ti fo db"
  shows "sound_switchboard ti fo (fst (start_recording u k db))" "sound_switchboard ti fo (fst (stop_recording u k db))"
    "sound_switchboard ti fo (fst (recording_webhook k s len db))" "sound_switchboard ti fo (fst (call_rating_webhook a r db))"
  using assms
  by (auto simp: start_recording_def stop_recording_def recording_webhook_def call_rating_webhook_def Let_def
      save_recording_def save_rating_def dest: call_of_in split: option.splits intro!: sound_resave [where k = k])

lemma sound_transfers:
  assumes "sound_switchboard ti fo db"
  shows "sound_switchboard ti fo (fst (transfer_call u k t db))"
    "sound_switchboard ti fo (fst (complete_attended_transfer u k j t db))"
  using assms
  by (auto simp: transfer_call_def complete_attended_transfer_def good_transfers
      dest: call_of_in split: option.splits intro!: sound_resave [where k = k])

lemma sound_consultations:
  assumes "sound_switchboard ti fo db"
  shows "sound_switchboard ti fo (fst (initiate_consultation u k t w db))"
    "sound_switchboard ti fo (fst (cancel_consultation u k j db))" "sound_switchboard ti fo (fst (merge_conference ami u k j db))"
proof -
  show "sound_switchboard ti fo (fst (cancel_consultation u k j db))"
    using assms
    by (auto simp: cancel_consultation_def good_transfers consultation_of_key dest: call_of_in consultation_in
        split: option.splits intro!: sound_resave_two [where k = j and j = k])
  show "sound_switchboard ti fo (fst (merge_conference ami u k j db))"
    using assms
    by (auto simp: merge_conference_def Let_def consultation_of_key dest: call_of_in consultation_in
        split: option.splits intro!: sound_resave_two [where k = k and j = j])
  have "fresh_call ((consultation_leg u c t)\<lparr>cx_transferred_user := r\<rparr>)" for c r
    by (simp add: consultation_leg_def new_call_def fresh_call_def missed_statuses_def)
  then show "sound_switchboard ti fo (fst (initiate_consultation u k t w db))"
    using assms
    by (auto simp: initiate_consultation_def Let_def create_simps dest: call_of_in split: option.splits
        intro!: sound_resave [where k = k] sound_create)
qed

lemma event_status_new:
  "e = ''call_initiated'' \<or> e = ''call_ringing'' \<Longrightarrow> event_status e \<in> {Call_initiated, Call_ringing}"
  by (auto simp: event_status_def)

lemma sound_webhook:
  assumes "sound_switchboard ti fo db"
  shows "sound_switchboard ti fo (fst (sip_webhook e i a r db))"
proof -
  have event: "sound_switchboard ti fo (fst (webhook_event k t d)) = sound_switchboard ti fo d" for k t d
    by (simp add: webhook_event_def)
  have one: "sound_switchboard ti fo (save_call (webhook_changed (sw_now db) s c) db)"
    if "filter (\<lambda>c. cx_sip_id c = i) (sw_calls db) = [c]" for s c
  proof -
    have "c \<in> set (filter (\<lambda>c. cx_sip_id c = i) (sw_calls db))" using that by simp
    then have "c \<in> set (sw_calls db)" by simp
    then have "call_of db (cx_pk c) = Some c" by (rule call_of_member [OF soundD(1) [OF assms]])
    then show ?thesis by (rule sound_resave [OF assms]) (auto simp: good_webhook_changed)
  qed
  have new: "sound_switchboard ti fo d"
    if "create_call_row (new_call\<lparr>cx_caller := a, cx_recipient := r, cx_direction := v, cx_status := event_status e,
          cx_sip_id := i, cx_config := n\<rparr>) db = (k, d)" "e = ''call_initiated'' \<or> e = ''call_ringing''" for d n v k
    using event_status_new [OF that(2)]
    by (intro sound_created [OF that(1) _ assms]) (auto simp: fresh_call_def new_call_def missed_statuses_def)
  show ?thesis
  proof (cases "filter (\<lambda>c. cx_sip_id c = i) (sw_calls db)")
    case Nil
    then show ?thesis using assms new unfolding sip_webhook_def by (simp add: event split: prod.splits)
  next
    case (Cons c cs)
    then show ?thesis using assms one [of c] unfolding sip_webhook_def by (cases cs) (simp_all add: event)
  qed
qed

subsection \<open>Runs\<close>

definition call_start :: "bool \<Rightarrow> switchboard \<Rightarrow> bool" where
  "call_start fo db \<longleftrightarrow> sw_calls db = [] \<and> sw_tasks db = [] \<and> (fo \<longrightarrow> fallback_recipients db \<noteq> [])"

text \<open>
  With \<open>fo\<close>, some user who may manage the settings stays active in \<open>cs_config\<close>, so that there is
  somebody to tell about a missed call when nobody else is responsible.  With both flags off, every
  request and every change of the configuration is a step.
\<close>

inductive call_step :: "bool \<Rightarrow> bool \<Rightarrow> switchboard \<Rightarrow> switchboard \<Rightarrow> bool" for ti fo where
  cs_tick: "0 \<le> n \<Longrightarrow> call_step ti fo db (db\<lparr>sw_now := sw_now db + n\<rparr>)"
| cs_config: "(fo \<Longrightarrow> fallback_recipients (db\<lparr>sw_users := us\<rparr>) \<noteq> []) \<Longrightarrow>
    call_step ti fo db (db\<lparr>sw_users := us, sw_configs := cs, sw_phones := ps, sw_queues := qs, sw_members := ms,
      sw_trunks := ts, sw_routes := rs, sw_muted := mu\<rparr>)"
| cs_initiate: "call_step ti fo db (fst (initiate_call u r v s db))"
| cs_incoming: "call_step ti fo db (fst (log_incoming_call u a r i db))"
| cs_create: "call_step ti fo db (fst (create_call u a r d v i n db))"
| cs_status: "call_step ti fo db (fst (update_status u k s db))"
| cs_end: "call_step ti fo db (fst (end_call u k db))"
| cs_event: "call_step ti fo db (fst (add_call_event u k e db))"
| cs_hold: "call_step ti fo db (fst (toggle_hold u k db))"
| cs_destroy: "call_step ti fo db (fst (destroy_call u k db))"
| cs_patch: "edit_allowed ti fo given p k db \<Longrightarrow> call_step ti fo db (fst (patch_call u given p k db))"
| cs_record: "call_step ti fo db (fst (start_recording u k db))"
| cs_record_stop: "call_step ti fo db (fst (stop_recording u k db))"
| cs_transfer: "call_step ti fo db (fst (transfer_call u k t db))"
| cs_consult: "call_step ti fo db (fst (initiate_consultation u k t w db))"
| cs_complete: "call_step ti fo db (fst (complete_attended_transfer u k j t db))"
| cs_cancel: "call_step ti fo db (fst (cancel_consultation u k j db))"
| cs_conference: "call_step ti fo db (fst (merge_conference ami u k j db))"
| cs_sip_hook: "call_step ti fo db (fst (sip_webhook e i a r db))"
| cs_recording_hook: "call_step ti fo db (fst (recording_webhook k st len db))"
| cs_rating_hook: "call_step ti fo db (fst (call_rating_webhook a rt db))"
| cs_task: "call_step ti fo db (run_task i db)"

lemma sound_tick:
  assumes "sound_switchboard ti fo db" and "0 \<le> n"
  shows "sound_switchboard ti fo (db\<lparr>sw_now := sw_now db + n\<rparr>)"
  by (rule soundI)
    (use soundD [OF assms(1)] assms(2) good_later [of "sw_now db"] in \<open>auto simp: call_keys_def followed_def fallback_recipients_def\<close>)

lemma sound_config:
  assumes "sound_switchboard ti fo db" and "fo \<Longrightarrow> fallback_recipients (db\<lparr>sw_users := us\<rparr>) \<noteq> []"
  shows "sound_switchboard ti fo (db\<lparr>sw_users := us, sw_configs := cs, sw_phones := ps, sw_queues := qs, sw_members := ms,
      sw_trunks := ts, sw_routes := rs, sw_muted := mu\<rparr>)"
  by (rule soundI)
    (use soundD(1-4) [OF assms(1)] assms(2) in \<open>auto simp: call_keys_def followed_def fallback_recipients_def\<close>)

lemma sound_start: "call_start fo db \<Longrightarrow> sound_switchboard ti fo db"
  by (auto simp: call_start_def sound_switchboard_def call_keys_def)

lemma sound_step: "call_step ti fo d e \<Longrightarrow> sound_switchboard ti fo d \<Longrightarrow> sound_switchboard ti fo e"
  by (induction rule: call_step.induct)
    (blast intro: sound_tick sound_config sound_calls_made sound_statuses sound_recording_steps sound_transfers
       sound_consultations sound_webhook sound_run_task)+

interpretation calls: invariant_system "call_start fo" "call_step ti fo" "sound_switchboard ti fo" for ti fo
  by unfold_locales (rule sound_start, assumption, erule (1) sound_step)

subsection \<open>How long a task lives\<close>

text \<open>How often the tasks in the broker can still be handed out.\<close>

definition task_work :: "switchboard \<Rightarrow> nat" where
  "task_work db = (\<Sum>j\<leftarrow>sw_tasks db. Suc max_defers - jx_attempt j)"

definition due_task :: "nat \<Rightarrow> switchboard \<Rightarrow> bool" where
  "due_task i db \<longleftrightarrow> i < length (sw_tasks db) \<and> jx_due (sw_tasks db ! i) \<le> sw_now db"

lemma task_work_split:
  "i < length (sw_tasks db) \<Longrightarrow>
     task_work db = Suc max_defers - jx_attempt (sw_tasks db ! i) + task_work (without_task i db)"
  unfolding task_work_def without_task_def by (subst id_take_nth_drop [of i "sw_tasks db"]) auto

lemma send_tasks [simp]: "sw_tasks (send_missed_call_notifications k db) = sw_tasks db"
  by (simp add: send_missed_call_notifications_def split: option.splits)

lemma run_task_work:
  assumes "due_task i db" and "\<And>j. j \<in> set (sw_tasks db) \<Longrightarrow> jx_attempt j \<le> max_defers"
  shows "task_work (run_task i db) < task_work db"
proof -
  let ?j = "sw_tasks db ! i" and ?rest = "without_task i db"
  have i: "i < length (sw_tasks db)" using assms(1) by (simp add: due_task_def)
  have n: "jx_attempt ?j \<le> max_defers" using assms(2) [OF nth_mem [OF i]] .
  have "task_work (notify_missed_call (jx_call ?j) (jx_attempt ?j) ?rest) \<le> task_work ?rest + (max_defers - jx_attempt ?j)"
    by (auto simp: notify_missed_call_def task_work_def split: option.splits)
  then show ?thesis
    using task_work_split [OF i] assms(1) n by (simp add: run_task_cases due_task_def)
qed

text \<open>A sequence of deliveries, each of a due task, with any time in between.\<close>

inductive deliveries :: "nat \<Rightarrow> switchboard \<Rightarrow> switchboard \<Rightarrow> bool" where
  del_none: "deliveries 0 db db"
| del_wait: "deliveries n db e \<Longrightarrow> 0 \<le> m \<Longrightarrow> deliveries n db (e\<lparr>sw_now := sw_now e + m\<rparr>)"
| del_task: "deliveries n db e \<Longrightarrow> due_task i e \<Longrightarrow> deliveries (Suc n) db (run_task i e)"

lemma deliveries_bound:
  assumes "deliveries n db e" and "sound_switchboard ti fo db"
  shows "sound_switchboard ti fo e \<and> n + task_work e \<le> task_work db"
  using assms
proof (induction rule: deliveries.induct)
  case (del_wait n db e m)
  then show ?case using sound_tick [of ti fo e m] by (simp add: task_work_def)
next
  case (del_task n db e i)
  then show ?case using run_task_work [OF del_task.hyps(2)] soundD(4) sound_run_task by fastforce
qed simp

end
