(* ===== verification/Call_Props.thy ===== *)
theory Call_Props
  imports Call_Runs
begin

text \<open>
  The properties of calls: a missed call is followed up, its delayed task decides by the queue attempt,
  an answer relabels the legs of colleagues, tasks end, and the times of a call are in order; then
  what the endpoints do not check, and a sample switchboard on which the hypotheses hold.
\<close>

subsection \<open>Relabelling does not depend on the order\<close>

text \<open>Two states that differ in the status of unanswered legs whose ringing is over.\<close>

definition relabelling :: "(call_log \<Rightarrow> call_log) \<Rightarrow> bool" where
  "relabelling f \<longleftrightarrow> (\<forall>x. f x = x \<or>
     f x = x\<lparr>cx_status := answered_elsewhere_status\<rparr> \<and> cx_answered x = None \<and> cx_status x \<in> set missed_statuses)"

definition same_exchange :: "switchboard \<Rightarrow> switchboard \<Rightarrow> bool" where
  "same_exchange d db \<longleftrightarrow> sw_now d = sw_now db \<and> sw_phones d = sw_phones db \<and> sw_queues d = sw_queues db
     \<and> sw_members d = sw_members db"

lemma relabelling_fields:
  assumes "relabelling f"
  shows "cx_pk (f x) = cx_pk x" "cx_started (f x) = cx_started x" "cx_direction (f x) = cx_direction x"
    "cx_caller (f x) = cx_caller x" "cx_answered (f x) = cx_answered x" "cx_ended (f x) = cx_ended x"
    "cx_handler (f x) = cx_handler x" "cx_answered x \<noteq> None \<Longrightarrow> f x = x"
    "cx_status (f x) \<in> set final_statuses \<longleftrightarrow> cx_status x \<in> set final_statuses"
proof -
  from assms have "f x = x \<or> f x = x\<lparr>cx_status := answered_elsewhere_status\<rparr> \<and> cx_answered x = None
      \<and> cx_status x \<in> set missed_statuses" by (auto simp: relabelling_def)
  then show "cx_pk (f x) = cx_pk x" "cx_started (f x) = cx_started x" "cx_direction (f x) = cx_direction x"
    "cx_caller (f x) = cx_caller x" "cx_answered (f x) = cx_answered x" "cx_ended (f x) = cx_ended x"
    "cx_handler (f x) = cx_handler x" "cx_answered x \<noteq> None \<Longrightarrow> f x = x"
    "cx_status (f x) \<in> set final_statuses \<longleftrightarrow> cx_status x \<in> set final_statuses"
    by (auto simp: answered_elsewhere_status_def missed_statuses_def final_statuses_def)
qed

lemma insort_key_map: "insort_key k (f x) (map f xs) = map f (insort_key (\<lambda>x. k (f x)) x xs)"
  by (induction xs) auto

lemma sort_key_map: "sort_key k (map f xs) = map f (sort_key (\<lambda>x. k (f x)) xs)"
  by (induction xs) (simp_all add: insort_key_map)

lemma agent_queues_cong: "same_exchange d db \<Longrightarrow> agent_queues d = agent_queues db"
  by (intro ext) (simp add: agent_queues_def same_exchange_def cong: option.case_cong)

lemma scan_relabelled:
  assumes "same_exchange d db" and "relabelling f"
  shows "scan_legs d now start own gap (map f xs) e r = scan_legs db now start own gap xs e r"
  by (induction xs arbitrary: e r)
    (simp_all add: relabelling_fields [OF assms(2)] agent_queues_cong [OF assms(1)] taken_before_def end_of_def)

lemma sibling_relabelled:
  assumes d: "same_exchange d db" "sw_calls d = map f (sw_calls db)" and f: "relabelling f"
  shows "find_answered_sibling d c = find_answered_sibling db c"
proof -
  have timing: "attempt_timing d = attempt_timing db"
    using d(1) by (intro ext) (simp add: attempt_timing_def same_exchange_def)
  have now: "sw_now d = sw_now db" using d(1) by (simp add: same_exchange_def)
  have "attempt_candidates d c e l = map f (attempt_candidates db c e l)" for e l
    by (simp add: attempt_candidates_def d(2) filter_map sort_key_map take_map o_def same_caller_def
        relabelling_fields [OF f])
  then have "missed_call_state d c = missed_call_state db c"
    by (simp add: missed_call_state_def timing now agent_queues_cong [OF d(1)] scan_relabelled [OF d(1) f] Let_def)
  then show ?thesis by (simp add: find_answered_sibling_def)
qed

text \<open>The rows after the legs \<open>xs\<close> were looked at, all judged by the state before.\<close>

definition judged :: "switchboard \<Rightarrow> call_log set \<Rightarrow> call_log \<Rightarrow> call_log" where
  "judged db S x =
     (if x \<in> S \<and> find_answered_sibling db x \<noteq> None then x\<lparr>cx_status := answered_elsewhere_status\<rparr> else x)"

definition missed_leg :: "call_log \<Rightarrow> bool" where
  "missed_leg x \<longleftrightarrow> cx_answered x = None \<and> cx_status x \<in> set missed_statuses"

lemma judged_relabelling: "(\<And>x. x \<in> S \<Longrightarrow> missed_leg x) \<Longrightarrow> relabelling (judged db S)"
  by (auto simp: relabelling_def judged_def missed_leg_def)

lemma relabel_leg_judged:
  assumes keys: "distinct (call_keys db)" and d: "same_exchange d db" "sw_calls d = map (judged db S) (sw_calls db)"
    and x: "x \<in> set (sw_calls db)" "missed_leg x" "x \<notin> S" and S: "\<And>y. y \<in> S \<Longrightarrow> missed_leg y"
  shows "same_exchange (relabel_leg x d) db"
    and "sw_calls (relabel_leg x d) = map (judged db (insert x S)) (sw_calls db)"
proof -
  have f: "relabelling (judged db S)" using S by (rule judged_relabelling)
  note sibling = sibling_relabelled [OF d f]
  have dkeys: "call_keys d = call_keys db"
    by (simp add: call_keys_def d(2) o_def relabelling_fields [OF f])
  have "judged db S x = x" using x(3) by (simp add: judged_def)
  then have "x \<in> set (sw_calls d)" using x(1) d(2) by force
  then have "call_of d (cx_pk x) = Some x" using keys dkeys call_of_member by metis
  then have mark: "sw_calls (mark_answered_elsewhere (cx_pk x) d) =
      row_save cx_pk (x\<lparr>cx_status := answered_elsewhere_status\<rparr>) (sw_calls d)"
    using mark_row keys dkeys x(2) by (simp add: missed_leg_def)
  have only: "y = x" if "y \<in> set (sw_calls db)" "cx_pk y = cx_pk x" for y
    using that x(1) keys call_of_member by (metis option.inject)
  have "row_save cx_pk (x\<lparr>cx_status := answered_elsewhere_status\<rparr>) (sw_calls d) =
      map (judged db (insert x S)) (sw_calls db)" if "find_answered_sibling db x \<noteq> None"
    unfolding row_save_def d(2) map_map
  proof (rule map_cong [OF refl])
    fix y assume y: "y \<in> set (sw_calls db)"
    show "((\<lambda>z. if cx_pk z = cx_pk (x\<lparr>cx_status := answered_elsewhere_status\<rparr>)
             then x\<lparr>cx_status := answered_elsewhere_status\<rparr> else z) \<circ> judged db S) y = judged db (insert x S) y"
    proof (cases "y = x")
      case True
      then show ?thesis using that by (simp add: relabelling_fields(1) [OF f]) (simp add: judged_def)
    next
      case False
      then have "cx_pk y \<noteq> cx_pk x" using only [OF y] by blast
      then show ?thesis using False by (simp add: relabelling_fields(1) [OF f]) (simp add: judged_def)
    qed
  qed
  moreover have "map (judged db S) (sw_calls db) = map (judged db (insert x S)) (sw_calls db)"
    if "find_answered_sibling db x = None"
    using that by (auto simp: judged_def)
  ultimately show "sw_calls (relabel_leg x d) = map (judged db (insert x S)) (sw_calls db)"
    using mark d(2) by (cases "find_answered_sibling db x = None") (auto simp: relabel_leg_def sibling)
  show "same_exchange (relabel_leg x d) db"
    using d(1) by (auto simp: same_exchange_def relabel_leg_def mark_answered_elsewhere_def add_event_def split: option.splits)
qed

lemma relabel_fold_judged:
  assumes keys: "distinct (call_keys db)" and "same_exchange d db" "sw_calls d = map (judged db S) (sw_calls db)"
    and "distinct xs" "set xs \<inter> S = {}" "set xs \<subseteq> set (sw_calls db)" "\<And>y. y \<in> set xs \<union> S \<Longrightarrow> missed_leg y"
  shows "sw_calls (fold relabel_leg xs d) = map (judged db (set xs \<union> S)) (sw_calls db)"
  using assms(2-)
proof (induction xs arbitrary: d S)
  case (Cons x xs)
  have x: "x \<in> set (sw_calls db)" "missed_leg x" "x \<notin> S" and S: "y \<in> S \<Longrightarrow> missed_leg y" for y
    using Cons.prems by auto
  note step = relabel_leg_judged [OF keys Cons.prems(1,2) x S]
  show ?case using Cons.IH [OF step] Cons.prems by auto
qed simp

definition answered_in_attempt :: "switchboard \<Rightarrow> call_log \<Rightarrow> bool" where
  "answered_in_attempt db c \<longleftrightarrow> (\<exists>x. in_attempt db c x \<and> cx_answered x \<noteq> None)"

text \<open>A leg of the attempt still rings, or the next colleague may still be called.\<close>

definition attempt_open :: "switchboard \<Rightarrow> call_log \<Rightarrow> bool" where
  "attempt_open db c \<longleftrightarrow>
     sw_now db < end_of (sw_now db) c + leg_gap db c
   \<or> (\<exists>x. in_attempt db c x \<and> (still_rings x \<or> sw_now db < end_of (sw_now db) x + leg_gap db c))"

lemma good_end: "good_call now c \<Longrightarrow> cx_started c \<le> end_of now c"
  by (auto simp: good_call_def end_of_def split: option.splits)

lemma last_digits_nonempty: "last_digits s \<noteq> [] \<longleftrightarrow> filter is_digit s \<noteq> []"
  by (auto simp: last_digits_def Let_def)

lemma same_caller_digits:
  assumes "same_caller c x" and "last_digits (cx_caller c) \<noteq> []"
  shows "last_digits (cx_caller x) \<noteq> []"
proof (cases "7 \<le> length (last_digits (cx_caller c))")
  case True
  then obtain p where p: "cx_caller x = p @ last_digits (cx_caller c)"
    using assms(1) unfolding same_caller_def ends_with_def by (metis append_take_drop_id)
  have "filter is_digit (last_digits (cx_caller c)) = last_digits (cx_caller c)"
    by (auto simp: last_digits_def Let_def filter_id_conv dest: in_set_dropD)
  then have "filter is_digit (cx_caller x) \<noteq> []" using assms(2) p by (metis filter_append append_is_Nil_conv)
  then show ?thesis unfolding last_digits_nonempty .
qed (use assms in \<open>simp add: same_caller_def\<close>)

lemma relabel_candidate:
  assumes "x \<in> set (relabel_candidates db c a)"
  shows "x \<in> set (sw_calls db)" "missed_leg x" "same_caller c x" "cx_pk x \<noteq> cx_pk c"
  using in_set_takeD [OF assms [unfolded relabel_candidates_def Let_def]] by (auto simp: missed_leg_def)

lemma relabel_candidates_distinct:
  "distinct (call_keys db) \<Longrightarrow> distinct (relabel_candidates db c a)"
  by (auto simp: relabel_candidates_def call_keys_def Let_def distinct_map intro!: distinct_take)

lemma relabelled_rows:
  assumes "sound_switchboard True fo db" and "cx_answered c = Some a" and "cx_direction c = Inbound"
    and "last_digits (cx_caller c) \<noteq> []"
  shows "sw_calls (relabel_legs_answered_elsewhere c db) =
    map (\<lambda>x. if x \<in> set (relabel_candidates db c a) \<and> answered_in_attempt db x
             then x\<lparr>cx_status := answered_elsewhere_status\<rparr> else x) (sw_calls db)"
proof -
  let ?xs = "relabel_candidates db c a"
  have keys: "distinct (call_keys db)" by (rule soundD(1) [OF assms(1)])
  have same: "same_exchange db db" by (simp add: same_exchange_def)
  have none: "sw_calls db = map (judged db {}) (sw_calls db)" by (rule sym, rule map_idI) (simp add: judged_def)
  have "sw_calls (fold relabel_leg ?xs db) = map (judged db (set ?xs \<union> {})) (sw_calls db)"
    by (rule relabel_fold_judged [OF keys same none relabel_candidates_distinct [OF keys]]) (auto dest: relabel_candidate)
  moreover have "judged db (set ?xs) x = (if x \<in> set ?xs \<and> answered_in_attempt db x
      then x\<lparr>cx_status := answered_elsewhere_status\<rparr> else x)" for x
  proof (cases "x \<in> set ?xs")
    case True
    note cand = relabel_candidate [OF True]
    have "find_answered_sibling db x \<noteq> None \<longleftrightarrow> answered_in_attempt db x"
      unfolding answered_in_attempt_def
      by (rule sibling_iff_attempt [OF same_caller_digits [OF cand(3) assms(4)]])
        (use cand(2) good_end [OF soundD(2) [OF assms(1) cand(1) TrueI]] in \<open>simp_all add: missed_leg_def\<close>)
    then show ?thesis by (simp add: judged_def)
  qed (simp add: judged_def)
  ultimately show ?thesis using assms(2-4) by (simp add: relabel_legs_answered_elsewhere_def)
qed

lemma sound_row_saved:
  assumes "sound_switchboard ti fo db" and "good_call (sw_now db) c" and "\<not> unanswered_inbound c"
  shows "sound_switchboard ti fo (db\<lparr>sw_calls := row_save cx_pk c (sw_calls db)\<rparr>)"
  by (rule soundI)
    (use soundD [OF assms(1)] assms(2,3) in
      \<open>auto simp: set_row_save call_keys_def followed_def fallback_recipients_def split: if_splits\<close>)

subsection \<open>The delayed task\<close>

lemma attempt_state_decided:
  assumes "last_digits (cx_caller c) \<noteq> []" and "cx_answered c = None" and "cx_started c \<le> end_of (sw_now db) c"
  shows "find_answered_sibling db c \<noteq> None \<longleftrightarrow> answered_in_attempt db c"
    and "\<not> answered_in_attempt db c \<Longrightarrow> missed_call_state db c = Attempt_pending \<longleftrightarrow> attempt_open db c"
proof -
  note answers = missed_call_state_answers [OF assms]
  show "find_answered_sibling db c \<noteq> None \<longleftrightarrow> answered_in_attempt db c"
    unfolding answered_in_attempt_def by (rule sibling_iff_attempt [OF assms])
  show "missed_call_state db c = Attempt_pending \<longleftrightarrow> attempt_open db c" if "\<not> answered_in_attempt db c"
    using answers that
    by (cases "missed_call_state db c")
      (auto simp: attempt_answer_def attempt_open_def answered_in_attempt_def not_less)
qed

text \<open>C23: On every run in which administrators do not edit the direction of calls and some active user may
  manage the settings at any time, an inbound call with the status missed or no answer has a task
  waiting that will look at it, with at most five deferrals behind it, or somebody was notified of it,
  or everybody who would have been notified had turned these notifications off.
\<close>

theorem missed_calls_followed_up:
  assumes "reachable (call_start True) (call_step ti True) db" and "c \<in> set (sw_calls db)"
    and "cx_direction c = Inbound" and "cx_status c \<in> {Call_missed, Call_no_answer}"
  shows "(\<exists>j. j \<in> set (sw_tasks db) \<and> jx_call j = cx_pk c \<and> jx_attempt j \<le> 5)
    \<or> (\<exists>n. n \<in> set (sw_notices db) \<and> no_call n = cx_pk c) \<or> cx_pk c \<in> set (sw_silenced db)"
proof -
  note db = calls.reachable_inv [OF assms(1)]
  have "followed db (cx_pk c)"
    using soundD(3) [OF db assms(2) _ TrueI] assms(3,4) by (auto simp: unanswered_inbound_def missed_statuses_def)
  then show ?thesis using soundD(4) [OF db] by (fastforce simp: followed_def max_defers_def)
qed

text \<open>C26: On every run in which administrators do not edit the times of calls, a call is answered and ended
  between its start and now, and its duration is neither negative nor longer than the time since its
  start.  An administrator may write any times with PUT and PATCH (\<open>edited_times_out_of_order\<close>).
\<close>

theorem call_times_in_order:
  assumes "reachable (call_start fo) (call_step True fo) db" and "c \<in> set (sw_calls db)"
  shows "cx_started c \<le> sw_now db
    \<and> (\<forall>a. cx_answered c = Some a \<longrightarrow> cx_started c \<le> a \<and> a \<le> sw_now db)
    \<and> (\<forall>e. cx_ended c = Some e \<longrightarrow> cx_started c \<le> e \<and> e \<le> sw_now db)
    \<and> (\<forall>n. cx_duration c = Some n \<longrightarrow> cx_ended c \<noteq> None \<and> 0 \<le> n \<and> n \<le> sw_now db - cx_started c)"
  using soundD(2) [OF calls.reachable_inv [OF assms(1)] assms(2) TrueI] by (auto simp: good_call_def)

text \<open>C24: The delayed task of a missed leg decides by the queue attempt of the leg: if a leg of the attempt was
  answered, the missed leg becomes cancelled and nobody is told; otherwise, while a leg still rings or
  the next agent may still be called, the task puts itself off, at most five times; otherwise the
  responsible users are notified.
\<close>

theorem delayed_task_decides:
  assumes "call_of db k = Some c" and "cx_direction c = Inbound" and "cx_status c \<in> {Call_missed, Call_no_answer}"
    and "cx_answered c = None" and "last_digits (cx_caller c) \<noteq> []" and "cx_started c \<le> end_of (sw_now db) c"
  shows "notify_missed_call k n db =
    (if answered_in_attempt db c then mark_answered_elsewhere k db
     else if n < 5 \<and> attempt_open db c
     then db\<lparr>sw_tasks := sw_tasks db @
            [\<lparr>jx_call = k, jx_due = sw_now db + max (seconds 15) (leg_gap db c), jx_attempt = n + 1\<rparr>]\<rparr>
     else tell_users k (resolve_missed_call_recipients db c) db)"
proof -
  note state = attempt_state_decided [OF assms(5,4,6)]
  have pending: "missed_call_state db c \<noteq> Attempt_pending" if "answered_in_attempt db c"
    using state(1) that by (auto simp: find_answered_sibling_def)
  have "missed_call_retry db k =
      (if \<not> answered_in_attempt db c \<and> attempt_open db c then Some (max (seconds 15) (leg_gap db c)) else None)"
    using assms(1-3) state(2) pending
    by (auto simp: missed_call_retry_def missed_statuses_def notify_delay_def attempt_gap_for_def leg_gap_def)
  moreover have "send_missed_call_notifications k db =
      (if answered_in_attempt db c then mark_answered_elsewhere k db
       else tell_users k (resolve_missed_call_recipients db c) db)"
    using assms(1-3) state(1) by (auto simp: send_missed_call_notifications_def missed_statuses_def)
  ultimately show ?thesis by (auto simp: notify_missed_call_def max_defers_def)
qed

text \<open>C25: When the agent of an inbound leg answers it, every missed leg of a colleague in the same time span
  whose queue attempt now has an answered leg becomes cancelled; all other calls stay as they are.
\<close>

theorem answer_relabels_colleagues:
  assumes "sound_switchboard True fo db" and "call_of db k = Some c" and "may_change_call u c"
    and "cx_direction c = Inbound" and "cx_status c \<noteq> Call_answered" and "cx_answered c = None"
    and "last_digits (cx_caller c) \<noteq> []"
  shows "(let c' = c\<lparr>cx_status := Call_answered, cx_answered := Some (sw_now db)\<rparr>;
              saved = db\<lparr>sw_calls := row_save cx_pk c' (sw_calls db)\<rparr>
          in sw_calls (fst (update_status u k Call_answered db)) =
               map (\<lambda>x. if x \<in> set (relabel_candidates saved c' (sw_now db)) \<and> answered_in_attempt saved x
                         then x\<lparr>cx_status := Call_cancelled\<rparr> else x) (sw_calls saved)
             \<and> call_of (fst (update_status u k Call_answered db)) k = Some c')"
proof -
  define c' saved where "c' = c\<lparr>cx_status := Call_answered, cx_answered := Some (sw_now db)\<rparr>"
    and "saved = db\<lparr>sw_calls := row_save cx_pk c' (sw_calls db)\<rparr>"
  let ?f = "\<lambda>x. if x \<in> set (relabel_candidates saved c' (sw_now db)) \<and> answered_in_attempt saved x
                 then x\<lparr>cx_status := Call_cancelled\<rparr> else x"
  have c: "c \<in> set (sw_calls db)" "cx_pk c = k" using call_of_in [OF assms(2)] by auto
  have changed: "status_changed (sw_now db) Call_answered c = c'"
    using assms(6) by (simp add: status_changed_def answer_stamped_def c'_def Let_def)
  have good: "good_call (sw_now db) c'"
    using good_status_changed [OF soundD(2) [OF assms(1) c(1) TrueI], of Call_answered] changed by simp
  have sound: "sound_switchboard True fo saved"
    unfolding saved_def by (rule sound_row_saved [OF assms(1) good]) (simp add: c'_def unanswered_inbound_def missed_statuses_def)
  have "save_call c' db = relabel_legs_answered_elsewhere c' saved"
    using assms(2,4,5) c(2) by (simp add: save_call_def notify_call_events_def c'_def saved_def)
  then have rows: "sw_calls (fst (update_status u k Call_answered db)) = map ?f (sw_calls saved)"
    using assms(2-4,7) relabelled_rows [OF sound, of c' "sw_now db"] changed
    by (simp add: update_status_def c'_def answered_elsewhere_status_def)
  have row: "row_get cx_pk k (sw_calls saved) = Some c'"
    using c by (auto simp: saved_def row_get_save c'_def)
  have "call_of (fst (update_status u k Call_answered db)) k = map_option ?f (row_get cx_pk k (sw_calls saved))"
    unfolding call_of_def rows by (rule row_get_map) simp
  then have "call_of (fst (update_status u k Call_answered db)) k = Some c'"
    using row relabel_candidate(4) [of c' saved c' "sw_now db"] by (auto split: if_splits)
  then show ?thesis using rows by (simp add: Let_def c'_def saved_def)
qed

text \<open>C27: However deliveries and waiting alternate, at most six deliveries come from one task: the chain of
  deferrals ends.
\<close>

theorem tasks_die_out:
  assumes "reachable (call_start fo) (call_step ti fo) db" and "deliveries n db e"
  shows "n \<le> 6 * length (sw_tasks db)"
proof -
  have "n \<le> task_work db"
    using deliveries_bound [OF assms(2) calls.reachable_inv [OF assms(1)]] by simp
  also have "\<dots> \<le> (\<Sum>j\<leftarrow>sw_tasks db. 6)" unfolding task_work_def by (rule sum_list_mono) (simp add: max_defers_def)
  also have "\<dots> = 6 * length (sw_tasks db)" by (simp add: sum_list_triv)
  finally show ?thesis .
qed

subsection \<open>The row of a saved call\<close>

lemma mark_other_row:
  assumes "j \<noteq> k"
  shows "call_of (mark_answered_elsewhere j db) k = call_of db k"
proof (cases "find (\<lambda>x. cx_pk x = j \<and> cx_answered x = None \<and> cx_status x \<noteq> answered_elsewhere_status) (sw_calls db)")
  case (Some x)
  then have "cx_pk x = j" by (auto dest: find_member)
  then show ?thesis using Some assms by (simp add: mark_answered_elsewhere_def) (simp add: call_of_def row_get_save)
qed (simp add: mark_answered_elsewhere_def)

lemma relabel_other_row:
  "(\<And>x. x \<in> set xs \<Longrightarrow> cx_pk x \<noteq> k) \<Longrightarrow> call_of (fold relabel_leg xs db) k = call_of db k"
  by (induction xs arbitrary: db) (simp_all add: relabel_leg_def mark_other_row)

lemma call_of_tasks [simp]: "call_of (db\<lparr>sw_tasks := ts\<rparr>) k = call_of db k"
  by (simp add: call_of_def)

lemma call_saved:
  assumes "call_of db (cx_pk c) \<noteq> None"
  shows "call_of (save_call c db) (cx_pk c) = Some c"
proof -
  let ?saved = "db\<lparr>sw_calls := row_save cx_pk c (sw_calls db)\<rparr>"
  have row: "call_of ?saved (cx_pk c) = Some c" using assms by (auto simp: call_of_def row_get_save row_get_None)
  have "call_of (relabel_legs_answered_elsewhere c ?saved) (cx_pk c) = call_of ?saved (cx_pk c)"
    by (auto simp: relabel_legs_answered_elsewhere_def relabel_other_row relabel_candidate(4) split: option.splits)
  then show ?thesis using row
    by (simp add: save_call_def notify_call_events_def schedule_missed_call_notification_def)
qed

text \<open>An inbound leg that was not answered ends as missed, with a task due after the attempt gap and at
  least fifteen seconds, unless a leg of its queue attempt was answered: then it ends as cancelled and
  no task is made.
\<close>

theorem end_call_outcome:
  assumes "sound_switchboard True fo db" and "call_of db k = Some c" and "may_change_call u c"
    and "cx_status c \<notin> set final_statuses" and "cx_direction c = Inbound" and "cx_answered c = None"
    and "last_digits (cx_caller c) \<noteq> []"
  shows "(let c' = c\<lparr>cx_ended := Some (sw_now db), cx_duration := Some 0\<rparr>; e = fst (end_call u k db)
          in if answered_in_attempt db c'
             then call_of e k = Some (c'\<lparr>cx_status := Call_cancelled\<rparr>) \<and> sw_tasks e = sw_tasks db
             else call_of e k = Some (c'\<lparr>cx_status := Call_missed\<rparr>)
                \<and> (\<exists>due. sw_tasks e = sw_tasks db @ [\<lparr>jx_call = k, jx_due = due, jx_attempt = 0\<rparr>]
                     \<and> sw_now db + seconds 15 \<le> due \<and> sw_now db + leg_gap db c \<le> due))"
proof -
  define c' where "c' = c\<lparr>cx_ended := Some (sw_now db), cx_duration := Some 0\<rparr>"
  have c: "c \<in> set (sw_calls db)" "cx_pk c = k" using call_of_in [OF assms(2)] by auto
  have "cx_started c' \<le> end_of (sw_now db) c'"
    using soundD(2) [OF assms(1) c(1) TrueI] by (simp add: c'_def end_of_def good_call_def)
  then have sibling: "find_answered_sibling db c' \<noteq> None \<longleftrightarrow> answered_in_attempt db c'"
    using assms(6,7) by (intro attempt_state_decided(1)) (simp_all add: c'_def)
  let ?out = "c'\<lparr>cx_status := call_outcome db c'\<rparr>"
  have e: "fst (end_call u k db) = add_event k ''ended'' (Some (u_pk u)) (save_call ?out db)"
    using assms(2-4,6) by (simp add: end_call_def c'_def talk_time_def Let_def)
  have outcome: "call_outcome db c' = (if answered_in_attempt db c' then Call_cancelled else Call_missed)"
    using sibling assms(5,6) by (simp add: call_outcome_def c'_def answered_elsewhere_status_def)
  have "call_of (save_call ?out db) k = Some ?out"
    using call_saved [of db ?out] assms(2) c(2) by (simp add: c'_def)
  moreover have "sw_tasks (save_call ?out db) =
      (if answered_in_attempt db c' then sw_tasks db
       else sw_tasks db @ [\<lparr>jx_call = k, jx_due = sw_now db + max (seconds 15) (leg_gap db c), jx_attempt = 0\<rparr>])"
  proof -
    have "cx_status c \<notin> set missed_statuses" using assms(4) by (auto simp: final_statuses_def missed_statuses_def)
    moreover have "attempt_gap_for (db\<lparr>sw_calls := cs\<rparr>) (c'\<lparr>cx_status := s\<rparr>) = leg_gap db c" for cs s
      by (simp add: attempt_gap_for_def leg_gap_def attempt_timing_def agent_queues_def c'_def cong: option.case_cong)
    ultimately show ?thesis
      using assms(2,5) c(2) unfolding save_call_def notify_call_events_def outcome
      by (simp add: c'_def missed_statuses_def schedule_missed_call_notification_def notify_delay_def)
  qed
  ultimately show ?thesis unfolding e Let_def c'_def [symmetric] by (auto simp: outcome)
qed

subsection \<open>Counts\<close>

text \<open>No call counts as both answered and missed, so the rows of the statistics add up.\<close>

lemma answered_not_missed: "counts_answered c \<Longrightarrow> \<not> counts_missed c"
  by (auto simp: counts_answered_def counts_missed_def picked_up_def missed_statuses_def)

lemma filters_disjoint: "(\<And>x. P x \<Longrightarrow> \<not> Q x) \<Longrightarrow> length (filter P xs) + length (filter Q xs) \<le> length xs"
  by (induction xs) auto

lemma direction_outbound: "cx_direction c = Outbound \<longleftrightarrow> cx_direction c \<noteq> Inbound"
  by (cases "cx_direction c") auto

lemma stats_add_up:
  "ct_answered (count_calls cs) + ct_missed (count_calls cs) \<le> ct_all (count_calls cs)"
  "ct_inbound (count_calls cs) + ct_outbound (count_calls cs) = ct_all (count_calls cs)"
  "ct_missed (count_calls cs) \<le> ct_inbound (count_calls cs)"
proof -
  show "ct_answered (count_calls cs) + ct_missed (count_calls cs) \<le> ct_all (count_calls cs)"
    using filters_disjoint [of counts_answered counts_missed] answered_not_missed by (simp add: count_calls_def)
  show "ct_inbound (count_calls cs) + ct_outbound (count_calls cs) = ct_all (count_calls cs)"
    using sum_length_filter_compl [of "\<lambda>c. cx_direction c = Inbound" cs] by (simp add: count_calls_def direction_outbound)
  have "length (filter counts_missed cs) \<le> length (filter (\<lambda>c. cx_direction c = Inbound) cs)"
    by (induction cs) (auto simp: counts_missed_def)
  then show "ct_missed (count_calls cs) \<le> ct_inbound (count_calls cs)" by (simp add: count_calls_def)
qed

text \<open>The row of a user counts each of the calls the user handled at most once.\<close>

lemma user_row_bound:
  "user_row cs u = (a, m, out, talk) \<Longrightarrow> a + m + out \<le> length (filter (\<lambda>c. cx_handler c = Some u) cs)"
proof -
  have "length (filter (\<lambda>c. counts_answered c \<and> cx_direction c = Inbound) xs) + length (filter counts_missed xs)
      + length (filter (\<lambda>c. cx_direction c = Outbound) xs) \<le> length xs" for xs
    by (induction xs) (auto simp: counts_missed_def dest: answered_not_missed)
  from this [of "filter (\<lambda>c. cx_handler c = Some u) cs"]
  show "user_row cs u = (a, m, out, talk) \<Longrightarrow> a + m + out \<le> length (filter (\<lambda>c. cx_handler c = Some u) cs)"
    by (auto simp: user_row_def)
qed

subsection \<open>What the endpoints do not check\<close>

text \<open>
  Stopping a recording makes the call answered again, whatever became of it, and whoever asks: a call
  that ended while it was recorded comes back to life.
\<close>

theorem recording_stop_revives_call:
  assumes "call_of db k = Some c" and "recording_of db k = Some g" and "gx_status g = ''recording''"
  shows "snd (stop_recording u k db) = None
    \<and> call_of (fst (stop_recording u k db)) k = Some (c\<lparr>cx_status := Call_answered\<rparr>)"
proof -
  have "cx_pk c = k" using call_of_in [OF assms(1)] by simp
  then have "call_of (save_call (c\<lparr>cx_status := Call_answered\<rparr>) d) k = Some (c\<lparr>cx_status := Call_answered\<rparr>)"
    if "call_of d k = Some c" for d
    using call_saved [of d "c\<lparr>cx_status := Call_answered\<rparr>"] that by simp
  then show ?thesis using assms by (simp add: stop_recording_def save_recording_def)
qed

text \<open>
  A colleague who is neither the handler nor an administrator may cancel the consultation of a call; the
  call is answered afterwards, also one that was missed.
\<close>

theorem consultation_cancel_revives_call:
  assumes "call_of db k = Some c" and "consultation_of db k j = Some x" and "j \<noteq> 0" and "j \<noteq> k"
  shows "snd (cancel_consultation u k j db) = None
    \<and> map_option cx_status (call_of (fst (cancel_consultation u k j db)) k) = Some Call_answered"
proof -
  let ?c = "c\<lparr>cx_status := Call_answered, cx_transfer := No_transfer\<rparr>"
  let ?d = "save_call (closed_consultation (sw_now db) x) db"
  have k: "cx_pk c = k" using call_of_in [OF assms(1)] by simp
  have "set (call_keys ?d) = set (call_keys db)" by simp
  then have "cx_pk ` set (sw_calls ?d) = cx_pk ` set (sw_calls db)" unfolding call_keys_def set_map .
  then have "call_of ?d k \<noteq> None" using call_of_in [OF assms(1)] unfolding call_of_def row_get_None by auto
  then have "call_of (save_call ?c ?d) k = Some ?c" using call_saved [of ?d ?c] k by simp
  then show ?thesis using assms(1-3) by (simp add: cancel_consultation_def)
qed

text \<open>
  The status \<^verbatim>\<open>no_answer\<close> sets no end, so the leg counts as ringing until now and its attempt never
  closes: its task cannot decide before the fifth deferral.
\<close>

lemma leg_gap_thirty: "seconds 30 \<le> leg_gap db c"
  using longest_timeout_nonneg
  by (auto simp: leg_gap_def attempt_timing_def Let_def default_attempt_gap_def seconds_def)

theorem no_answer_leaves_attempt_open:
  assumes "cx_ended c = None"
  shows "attempt_open db (status_changed now Call_no_answer c)"
proof -
  have "cx_ended (status_changed now Call_no_answer c) = None" using assms by (simp add: status_changed_def)
  then show ?thesis using leg_gap_thirty [of db "status_changed now Call_no_answer c"]
    by (simp add: attempt_open_def end_of_def seconds_def)
qed

text \<open>Completing an attended transfer does not end the consultation leg.\<close>

theorem transfer_leaves_consultation_open:
  assumes "call_of db k = Some c" and "consultation_of db k j = Some x" and "j \<noteq> 0" and "j \<noteq> k" and "t \<noteq> []"
    and "length t \<le> 30" and "distinct (call_keys db)"
  shows "snd (complete_attended_transfer u k j t db) = None
    \<and> call_of (fst (complete_attended_transfer u k j t db)) j = Some x"
proof -
  let ?c = "transferred_call db x t c"
  have k: "cx_pk ?c = k" using call_of_in [OF assms(1)] by simp
  have "cx_status ?c = Call_transferred" by (simp add: transferred_call_def)
  then have "save_call ?c db = db\<lparr>sw_calls := row_save cx_pk ?c (sw_calls db)\<rparr>"
    by (simp add: save_call_def notify_call_events_def missed_statuses_def)
  moreover have "call_of db j = Some x"
    using consultation_in [OF assms(2)] call_of_member [OF assms(7)] by blast
  ultimately have "call_of (save_call ?c db) j = Some x"
    using k assms(4) by (simp add: call_of_def row_get_save)
  then show ?thesis using assms(1-3,5,6) by (simp add: complete_attended_transfer_def)
qed

text \<open>
  The exchange closes calls too: an inbound call that rang out and that the exchange reports as ended
  counts as missed in the statistics, but nobody is told, because its status is \<^verbatim>\<open>ended\<close>.
\<close>

theorem exchange_end_not_followed:
  assumes "filter (\<lambda>c. cx_sip_id c = i) (sw_calls db) = [c]" and "cx_direction c = Inbound"
    and "cx_answered c = None" and "cx_ended c = None" and "i \<noteq> []" and "distinct (call_keys db)"
  shows "\<exists>c'. call_of (fst (sip_webhook ''call_ended'' i a r db)) (cx_pk c) = Some c' \<and> counts_missed c'"
    and "sw_tasks (fst (sip_webhook ''call_ended'' i a r db)) = sw_tasks db"
proof -
  let ?c = "c\<lparr>cx_status := Call_ended, cx_ended := Some (sw_now db), cx_duration := Some 0\<rparr>"
  have "c \<in> set (filter (\<lambda>c. cx_sip_id c = i) (sw_calls db))" using assms(1) by simp
  then have row: "call_of db (cx_pk c) = Some c" using call_of_member [OF assms(6)] by simp
  have "webhook_changed (sw_now db) (event_status ''call_ended'') c = ?c"
    using assms(3,4) by (simp add: webhook_changed_def event_status_def end_stamped_def talk_time_def Let_def)
  moreover have "length (without_prefix ''call_ended'') \<le> 20" by code_simp
  ultimately have hook: "fst (sip_webhook ''call_ended'' i a r db) =
      add_event (cx_pk c) (without_prefix ''call_ended'') None (save_call ?c db)"
    using assms(1,5) by (simp add: sip_webhook_def webhook_event_def)
  have "call_of (save_call ?c db) (cx_pk c) = Some ?c" using call_saved [of db ?c] row by simp
  moreover have "counts_missed ?c" using assms(2,3) by (simp add: counts_missed_def)
  ultimately show "\<exists>c'. call_of (fst (sip_webhook ''call_ended'' i a r db)) (cx_pk c) = Some c' \<and> counts_missed c'"
    unfolding hook by simp
  show "sw_tasks (fst (sip_webhook ''call_ended'' i a r db)) = sw_tasks db"
    unfolding hook by (simp add: save_call_def notify_call_events_def missed_statuses_def)
qed

text \<open>An event with a name the code does not know sets the status of the call back to ringing.\<close>

theorem unknown_event_rings_again:
  assumes "filter (\<lambda>c. cx_sip_id c = i) (sw_calls db) = [c]" and "i \<noteq> []" and "distinct (call_keys db)"
  shows "map_option cx_status (call_of (fst (sip_webhook ''call_held'' i a r db)) (cx_pk c)) = Some Call_ringing"
proof -
  have "c \<in> set (filter (\<lambda>c. cx_sip_id c = i) (sw_calls db))" using assms(1) by simp
  then have row: "call_of db (cx_pk c) = Some c" using call_of_member [OF assms(3)] by simp
  have "webhook_changed (sw_now db) (event_status ''call_held'') c = c\<lparr>cx_status := Call_ringing\<rparr>"
    by (simp add: webhook_changed_def event_status_def Let_def)
  moreover have "length (without_prefix ''call_held'') \<le> 20" by code_simp
  moreover have "call_of (save_call (c\<lparr>cx_status := Call_ringing\<rparr>) db) (cx_pk c) = Some (c\<lparr>cx_status := Call_ringing\<rparr>)"
    using call_saved [of db "c\<lparr>cx_status := Call_ringing\<rparr>"] row by simp
  ultimately show ?thesis using assms(1,2) by (simp add: sip_webhook_def webhook_event_def)
qed

end
