(* ===== verification/Call_Sample.thy ===== *)
theory Call_Sample
  imports Call_Props
begin

text \<open>
  Two agents of one queue and an administrator: a call rings at both, the first agent's leg times out,
  the second agent answers ten seconds later.  The properties of \<open>Call_Props\<close> are applied to it.
\<close>

definition sample_agent :: "pk \<Rightarrow> bool \<Rightarrow> user" where
  "sample_agent k staff =
     \<lparr>u_pk = k, u_role = Role_agent, u_status = Status_active, u_is_active = True, u_is_staff = staff,
      u_is_superuser = False, u_department = None, u_manager = None, u_employment_start = None,
      u_employment_end = None, u_date_joined = None, u_can = [], u_groups = []\<rparr>"

definition sample_phone :: "pk \<Rightarrow> string \<Rightarrow> phone" where
  "sample_phone k e =
     \<lparr>px_pk = k, px_user = k, px_config = 1, px_extension = e, px_password = ''x'', px_number = ''+995322000'' @ e,
      px_primary = True, px_active = True\<rparr>"

definition sb_idle :: switchboard where
  "sb_idle =
     \<lparr>sw_now = 1000000000, sw_users = [sample_agent 1 False, sample_agent 2 False, sample_agent 3 True],
      sw_configs = [\<lparr>nx_pk = 1, nx_number = ''+995322000000'', nx_user = ''u'', nx_password = ''p'', nx_owner = 3,
        nx_default = True, nx_active = True\<rparr>],
      sw_phones = [sample_phone 1 ''101'', sample_phone 2 ''102''],
      sw_queues = [\<lparr>qx_pk = 7, qx_slug = ''sales'', qx_group = 1, qx_timeout = 30, qx_max_wait = 300, qx_active = True,
        qx_default = True\<rparr>],
      sw_members = [\<lparr>mx_pk = 1, mx_queue = 7, mx_phone = 1, mx_penalty = 0, mx_active = True\<rparr>,
        \<lparr>mx_pk = 2, mx_queue = 7, mx_phone = 2, mx_penalty = 0, mx_active = True\<rparr>],
      sw_trunks = [], sw_routes = [], sw_calls = [], sw_events = [], sw_recordings = [], sw_ratings = [],
      sw_tasks = [], sw_muted = [], sw_notices = [], sw_silenced = []\<rparr>"

definition sb_ringing :: switchboard where
  "sb_ringing =
     fst (log_incoming_call (sample_agent 2 False) ''+995599111222'' ''322000000'' ''s2''
       (fst (log_incoming_call (sample_agent 1 False) ''+995599111222'' ''322000000'' ''s1'' sb_idle)))"

definition sb_timeout :: switchboard where
  "sb_timeout = sb_ringing\<lparr>sw_now := sw_now sb_ringing + 20000000\<rparr>"

definition sb_missed :: switchboard where
  "sb_missed = fst (end_call (sample_agent 1 False) 1 sb_timeout)"

definition sb_later :: switchboard where
  "sb_later = sb_missed\<lparr>sw_now := sw_now sb_missed + 10000000\<rparr>"

definition sb_answered :: switchboard where
  "sb_answered = fst (update_status (sample_agent 2 False) 2 Call_answered sb_later)"

definition sb_due :: switchboard where
  "sb_due = sb_missed\<lparr>sw_now := sw_now sb_missed + 60000000\<rparr>"

lemma timeout_reachable: "reachable (call_start True) (call_step True True) sb_timeout"
proof -
  note go = reachable.next_step
  have idle: "reachable (call_start True) (call_step True True) sb_idle"
    by (rule reachable.start) code_simp
  have "reachable (call_start True) (call_step True True) sb_ringing"
    unfolding sb_ringing_def by (rule go [rotated], rule cs_incoming, rule go [rotated], rule cs_incoming, rule idle)
  then show ?thesis unfolding sb_timeout_def by (rule go) (rule cs_tick, simp)
qed

lemma missed_reachable: "reachable (call_start True) (call_step True True) sb_missed"
  unfolding sb_missed_def by (rule reachable.next_step [OF timeout_reachable cs_end])

lemma later_reachable_calls:
  "reachable (call_start True) (call_step True True) sb_later" "reachable (call_start True) (call_step True True) sb_due"
  unfolding sb_later_def sb_due_def by (rule reachable.next_step [OF missed_reachable], rule cs_tick, simp)+

definition leg_1 :: call_log where
  "leg_1 =
     \<lparr>cx_pk = 1, cx_caller = ''+995599111222'', cx_recipient = ''322000000'', cx_direction = Inbound,
      cx_kind = Voice_call, cx_started = 1000000000, cx_answered = None, cx_ended = Some 1020000000,
      cx_duration = Some 0, cx_status = Call_missed, cx_sip_id = ''s1'', cx_config = Some 1, cx_handler = Some 1,
      cx_transferred_to = [], cx_transferred_user = None, cx_transferred_at = None, cx_parent = None,
      cx_transfer = No_transfer\<rparr>"

lemma leg_1_missed: "call_of sb_missed 1 = Some leg_1"
  by code_simp

lemma leg_1_row:
  "call_of sb_missed 1 = Some leg_1" "call_of sb_due 1 = Some leg_1" "call_of sb_later 1 = Some leg_1"
  "cx_direction leg_1 = Inbound" "cx_status leg_1 = Call_missed" "cx_answered leg_1 = None"
  "last_digits (cx_caller leg_1) = ''9111222''" "cx_pk leg_1 = 1"
  using leg_1_missed by (simp_all add: sb_due_def sb_later_def) (simp_all add: call_of_def, code_simp+)

lemma leg_1_times: "cx_started leg_1 = 1000000000" "cx_ended leg_1 = Some 1020000000" "cx_duration leg_1 = Some 0"
  by (simp_all add: leg_1_def)

theorem missed_calls_followed_up_witness:
  "(\<exists>j. j \<in> set (sw_tasks sb_missed) \<and> jx_call j = 1 \<and> jx_attempt j \<le> 5) 
    \<or> (\<exists>n. n \<in> set (sw_notices sb_missed) \<and> no_call n = 1) \<or> 1 \<in> set (sw_silenced sb_missed)"
  using missed_calls_followed_up [OF missed_reachable, of leg_1] call_of_in [OF leg_1_row(1)] leg_1_row by simp

theorem call_times_in_order_witness: "1000000000 \<le> (1020000000::int) \<and> sw_now sb_missed = 1020000000"
proof -
  have "sw_now sb_missed = 1020000000" by code_simp
  then show ?thesis
    using call_times_in_order [OF missed_reachable, of leg_1] call_of_in [OF leg_1_row(1)] leg_1_times by simp
qed

text \<open>An administrator sets the end of the call to a time before its start; nothing checks that.\<close>

definition early_end :: call_edit where
  "early_end =
     \<lparr>ed_caller = None, ed_recipient = None, ed_direction = None, ed_kind = None, ed_answered = None,
      ed_ended = Some (Some 5), ed_duration = None, ed_status = None, ed_sip_id = None, ed_config = None,
      ed_handler = None, ed_transferred_to = None, ed_transferred_user = None, ed_transferred_at = None,
      ed_transfer = None\<rparr>"

theorem edited_times_out_of_order:
  "snd (patch_call (sample_agent 3 True) [''ended_at''] early_end 1 sb_missed) = None
   \<and> map_option (\<lambda>c. (cx_started c, cx_ended c))
       (call_of (fst (patch_call (sample_agent 3 True) [''ended_at''] early_end 1 sb_missed)) 1) = Some (1000000000, Some 5)"
  by (intro conjI; code_simp)

theorem delayed_task_decides_witness:
  "notify_missed_call 1 0 sb_due = sb_due\<lparr>sw_tasks := sw_tasks sb_due @
     [\<lparr>jx_call = 1, jx_due = sw_now sb_due + max (seconds 15) (leg_gap sb_due leg_1), jx_attempt = 1\<rparr>]\<rparr>"
proof -
  have le: "cx_started leg_1 \<le> end_of (sw_now sb_due) leg_1" by (simp add: leg_1_times end_of_def)
  have digits: "last_digits (cx_caller leg_1) \<noteq> []" by (simp add: leg_1_row)
  have state: "missed_call_state sb_due leg_1 = Attempt_pending" by code_simp
  note decided = attempt_state_decided [OF digits leg_1_row(6) le]
  have "\<not> answered_in_attempt sb_due leg_1" using decided(1) state by (simp add: find_answered_sibling_def)
  moreover have "attempt_open sb_due leg_1" using decided(2) state calculation by simp
  ultimately show ?thesis
    using delayed_task_decides [OF leg_1_row(2) leg_1_row(4) _ leg_1_row(6) digits le, of 0] leg_1_row(5) by simp
qed

theorem answer_relabels_colleagues_witness:
  "map_option cx_status (call_of sb_answered 2) = Some Call_answered
     \<and> map_option cx_status (call_of sb_answered 1) = Some Call_cancelled"
proof -
  define c where "c = the (call_of sb_later 2)"
  have c: "call_of sb_later 2 = Some c" "may_change_call (sample_agent 2 False) c" "cx_direction c = Inbound"
    "cx_status c \<noteq> Call_answered" "cx_answered c = None" "last_digits (cx_caller c) \<noteq> []"
    unfolding c_def by code_simp+
  note rows = answer_relabels_colleagues [OF calls.reachable_inv [OF later_reachable_calls(1)] c]
  have "map_option cx_status (call_of sb_answered 1) = Some Call_cancelled" by code_simp
  then show ?thesis using rows by (simp add: Let_def sb_answered_def)
qed

theorem tasks_die_out_witness: "(1::nat) \<le> 6 * length (sw_tasks sb_due) \<and> length (sw_tasks sb_due) = 1"
proof -
  have "due_task 0 sb_due" "length (sw_tasks sb_due) = 1" by code_simp+
  then show ?thesis using tasks_die_out [OF later_reachable_calls(2) del_task [OF del_none]] by auto
qed

theorem end_call_outcome_witness: "map_option cx_status (call_of sb_missed 1) = Some Call_missed"
proof -
  define c where "c = the (call_of sb_timeout 1)"
  define c' where "c' = c\<lparr>cx_ended := Some (sw_now sb_timeout), cx_duration := Some 0\<rparr>"
  have c: "call_of sb_timeout 1 = Some c" "may_change_call (sample_agent 1 False) c" "cx_status c \<notin> set final_statuses"
    "cx_direction c = Inbound" "cx_answered c = None" "last_digits (cx_caller c) \<noteq> []"
    unfolding c_def by code_simp+
  have "find_answered_sibling sb_timeout c' = None" "cx_answered c' = None" "last_digits (cx_caller c') \<noteq> []"
    "cx_started c' \<le> end_of (sw_now sb_timeout) c'"
    unfolding c'_def c_def by code_simp+
  then have "\<not> answered_in_attempt sb_timeout c'" using attempt_state_decided(1) [of c' sb_timeout] by simp
  then show ?thesis
    using end_call_outcome [OF calls.reachable_inv [OF timeout_reachable] c] unfolding sb_missed_def
    by (auto simp: Let_def c'_def)
qed

end
