(* ===== verification/Spec2Isabelle.thy ===== *)
theory Spec2Isabelle
  imports Leave_Decisions Leave_Payroll_Sample Leave_Kpi_Facts Leave_Attendance Booking_Sample Invoice_Sample Billing_Sample Shop_Sample Ticket_Sample Call_Sample
begin

text \<open>
  Verification library of the echodesk back end (a multi-tenant Django service; every path below
  is relative to src/).

  \<^bold>\<open>How the program is read.\<close>  A tenant's database is a record of tables, a table is the list of
  its rows in primary key order, a row is a record with the columns the modelled code reads or
  writes (theory \<open>Prelude\<close> lists the ORM calls and what they become).  A handler is a function
  from the request and the database to an answer and the new database; its guards are the
  conditions and early returns of the code in their order, a refusal is an \<open>Inl\<close> with the kind of
  answer and leaves the database as it was, up to rows that \<^verbatim>\<open>get_or_create\<close> adds before the
  refusal (the project does not set \<^verbatim>\<open>ATOMIC_REQUESTS\<close>).  \<^verbatim>\<open>Decimal\<close> is an exact rational, and
  every place that quantizes calls a rounding function of \<open>Prelude\<close>.  Dates are day numbers and
  datetimes microseconds (theory \<open>Calendar\<close>), texts are ASCII strings (theory \<open>Text\<close>).  The
  clock (\<open>today\<close>, \<open>now\<close>) is an argument.  Handlers that lock their rows run one after the other,
  so a system is a step relation whose steps are whole handlers and a property of the system is
  proved for every reachable state.  Where an endpoint of the program breaks a property, it is a step
  all the same, and the step relation or its state has a parameter that says whether a run uses it;
  the property names the runs it holds for, and a theorem shows what the endpoint does.

  \<^bold>\<open>Accounts\<close> (users/models.py, users/permissions): \<open>Users\<close> has the user flags, groups, feature
  keys of the subscription, and the permission test inside a tenant.

  \<^bold>\<open>Leave management\<close> (leave_management/): \<open>Leave_Model\<close> has the tables; \<open>Leave_Days\<close> working
  days, the overlap query, Orthodox Easter and the Georgian calendar (utils.py, holidays_ge.py);
  \<open>Leave_Team\<close> which records a manager sees (permissions.py, utils.py); \<open>Leave_Balance\<close> and
  \<open>Leave_Carry\<close> allocation, reservation, accrual and the yearly carry forward; \<open>Leave_Approval\<close>
  the chain of signatures; \<open>Leave_Audit\<close> the events written when a request is saved (signals.py,
  audit.py); \<open>Leave_Substitutes\<close> and \<open>Leave_Requests\<close> the endpoints (serializers.py, views.py,
  views_employee.py, views_manager.py, views_substitutes.py).  \<open>Leave_Workflow\<close> puts the endpoints
  into one step relation, with the direct edits of balances, requests and leave types by the office
  (posting or deleting a balance as long as nothing on it is used or pending, see \<open>posted_balance_off_ledger\<close>); \<open>Leave_Invariant\<close> shows what every operation keeps, \<open>Leave_Decisions\<close>
  who decided a request and that no employee is on leave twice.  \<open>Leave_Payroll\<close>,
  \<open>Leave_Report\<close> and \<open>Leave_Payroll_Runs\<close> have payroll.py and views_payroll.py: the monthly
  report, the confirmed days of substitutes and the locking of a month; \<open>Leave_Kpi\<close> and
  \<open>Leave_Kpi_Facts\<close> views_kpi.py; \<open>Leave_Attendance\<close> the attendance grid and the checks before
  an account is removed.  \<open>Leave_Team\<close> (first part) and \<open>Leave_Payroll_Sample\<close> hold a small company on which
  the properties are applied.

  \<^bold>\<open>Bookings\<close> (booking_management/): \<open>Booking_Model\<close> has the tables, \<open>Booking_Slots\<close> the calendar
  (utils.py), \<open>Bog\<close> the client of the bank (tenants/bog_payment.py; the bank itself is the
  parameter \<open>bog_api\<close>), \<open>Booking_Payment\<close> the money of a booking (payment_service.py),
  \<open>Booking_Create\<close> (with the contacts of the business) and \<open>Booking_Tasks\<close> making and
  changing bookings (serializers.py, views_client.py, views_admin.py) and the scheduled tasks (tasks.py).  \<open>Booking_Slot_Facts\<close> shows that the slot list and the validation
  of a booking agree, \<open>Booking_Ledger\<close> that the payment columns refine an abstract ledger of money
  held by the bank and money taken at the desk, \<open>Booking_Invariant\<close> and \<open>Booking_Runs\<close> that no
  staff member is booked twice at a time by bookings that were checked: bookings of the task for repeating
  bookings, and those assigned or lengthened without a look at the calendar, are steps of the system and
  recorded in the ghost \<open>sy_unchecked\<close>.  \<open>Booking_Series\<close> shows what
  the task for repeating bookings does.  \<open>Booking_Sample\<close> is a salon on which these are applied.

  \<^bold>\<open>Invoices\<close> (invoices/): \<open>Invoice_Model\<close> has the rows with the methods of models.py, \<open>Invoice_Ops\<close>
  the serializers and endpoints.  The instance an edit works on carries the line items that the view
  prefetched, as a value of type \<open>line_source\<close>, because the totals are read from it.  \<open>Invoice_Facts\<close>
  and \<open>Invoice_Runs\<close> show that the paid amount of an invoice is backed by its payments in every state
  that is reached without moving a payment away from it (the parameter \<open>M\<close> of the step relation are the
  invoices whose payments may be moved to others), that invoice numbers are unique, and that the next number is free
  as long as no prefix with a dash was set (the parameter \<open>P\<close> are the prefixes in use), \<open>Invoice_Props\<close>
  the totals of created invoices and two places where the endpoints do not do what they mean to;
  \<open>Invoice_Sample\<close> is a tenant with two invoices on which these are applied.

  \<^bold>\<open>Subscriptions and billing\<close> (tenants/): \<open>Tenant_Features\<close> has the features of a tenant and the
  permissions they make available (feature_models.py, subscription_service.py),
  \<open>Tenant_Feature_Runs\<close> and \<open>Tenant_Feature_Props\<close> what a synchronisation does to them.
  \<open>Tenant_Model\<close> has the rows of billing (models.py, signals.py), \<open>Bog\<close> also the calls that charge
  a saved card (bog_payment.py), \<open>Billing_Orders\<close> the endpoints that change cards,
  orders and subscriptions (payment_views.py, feature_views.py), \<open>Billing_Webhook\<close> scheduling and
  executing retries (subscription_utils.py) and the notifications of the bank,
  \<open>Billing_Jobs\<close> the scheduled commands (management/commands).
  \<open>Billing_Facts\<close> and \<open>Billing_Runs\<close> show what every operation keeps, \<open>Billing_System\<close> puts them into
  one step relation; \<open>Billing_Props\<close> has the billing cycle, that one run of the renewals charges
  a tenant at most once and that repeating a notification at once changes nothing (both with the limits
  that \<open>Billing_Sample\<close> shows), \<open>Billing_Suspension\<close> the default card, the expiry check and the
  places where paid periods are lost, given away or charged again.  \<open>Billing_Sample\<close> is a salon with
  a subscription on which these are applied.  The list \<open>bl_charges\<close> records the charges the bank
  accepted; it is no table of the program.  Orders and endpoints that fail because of columns that a
  migration dropped are modelled as failing.

  \<^bold>\<open>Web shop\<close> (ecommerce_crm/): \<open>Shop_Model\<close> has the rows with their methods, among them reserving and
  releasing stock and cancelling an order (models.py); \<open>Shop_Guest\<close> orders from a cart with their
  figures and the choice of the payment provider (serializers.py, views_client.py, views.py,
  payment_utils.py; the banks are the parameter \<open>shop_gateway\<close>), guest checkout and carts,
  \<open>Shop_Payments\<close> what staff, customers and the sweeper do with orders (views.py, tasks.py, permissions.py),
  the three payment webhooks, cards and promo checks.  \<open>Shop_Stock\<close> defines what lies on a
  shelf and what an order claims of it; \<open>Shop_Runs\<close> the effects every operation is made of, with
  the invariant \<open>shop_inv\<close> and the balance between shelves and open orders, the system of
  operations and its refinement of the effects; \<open>Shop_Props\<close> what the shop promises.  The operations that
  the program does not check are steps under a \<open>liberty\<close> (customers rewriting their orders, deleted orders,
  negative amounts in the cart, changes of the catalogue, and those that leave negative counts), and each
  promise says which liberties it excludes: \<open>Shop_Gaps\<close> and \<open>Shop_Sample\<close> show what they do, with other
  places where the endpoints fail their purpose.  \<open>Shop_Sample\<close> is a shop with two products on which
  these are applied.  Order numbers are drawn at random and arguments here.

  \<^bold>\<open>Tickets\<close> (tickets/): \<open>Ticket_Model\<close> has the rows of the desk with their save methods, the history
  the \<^verbatim>\<open>pre_save\<close> receiver writes and the time logs (models.py, signals.py, views.py); \<open>Ticket_Ops\<close> who
  sees and may change a ticket, creating, editing, moving, reordering, assigning, deleting and
  commenting (views.py, serializers.py); \<open>Ticket_Parts\<close> boards and columns with their permissions
  (permissions.py), assignments, payments, checklists, list items, forms and the time
  summary of a ticket.  \<open>Ticket_Order\<close> reads the columns of a desk as lanes of cards and shows that
  moving a ticket refines moving a card.  \<open>Ticket_Effects\<close> defines the effects the operations are made
  of with the invariant \<open>tidy_desk\<close>, \<open>Ticket_Runs\<close> the system of operations; \<open>Ticket_Logs\<close> shows that a
  ticket has one open time log at most, in a desk whose columns keep their time tracking (the
  parameter \<open>steady\<close> of the step relation).  \<open>Ticket_Props\<close> has the properties, among them when the
  loop over the descendants of a list item ends, which is a \<^verbatim>\<open>partial_function\<close> because a circle of
  parents makes it run forever, \<open>Ticket_Gaps\<close> the guards that a route skips and the rows that drift
  apart, \<open>Ticket_Sample\<close> a desk with two columns on which these are applied.

  \<^bold>\<open>Calls\<close> (crm/): \<open>Call_Model\<close> has the rows of the switchboard, which calls count as answered or missed
  (call_status.py), the scan of a queue attempt, relabelling, recipients and the delayed task
  (call_notifications.py, tasks.py) and the signal of a saved call (users/module_signals.py);
  \<open>Call_Ops\<close> the endpoints and webhooks that write call logs (views.py; the answers of the exchange to
  a conference are the parameter \<open>manager\<close>) and the counts (views_stats.py).  \<open>Call_Attempts\<close> defines a
  queue attempt as a chain of legs without the loop and shows that the scan decides by it;
  \<open>Call_Runs\<close> is the system of operations with its invariant (every missed call is followed up, times
  are in order) and bounds how often a task is delivered; \<open>Call_Props\<close> has the properties, among them
  that relabelling does not depend on the order of the legs, and what the endpoints do not check;
  \<open>Call_Sample\<close> is a queue with two agents on which these are applied.  Administrators may edit every
  field of a call: the parameters \<open>ti\<close> and \<open>fo\<close> of the step relation say that they leave the times, or the
  directions, alone (with \<open>fo\<close> some user who may manage the settings stays active), and the ghost
  \<open>sw_silenced\<close> records the calls whose recipients had all turned notifications off.

  \<^bold>\<open>Interfaces.\<close>  \<open>Prelude\<close> declares the locales \<open>invariant_system\<close> (start, step and invariant of
  a system) and \<open>simulation\<close> (an abstract system that every concrete step refines); each system
  above interprets them on its own definitions, and the properties rest on the interpretations.

  \<^bold>\<open>Bounds.\<close>  Month texts are those of the years 1000 to 9999, where Python prints four digits;
  the theorem on series assumes years up to 9998, where adding a month cannot leave Python's range of dates.
  Unique numbers of invoices are shown for all prefixes, the free next number for prefixes without a dash.  The loop over billing dates
  and the removal of a prefix are \<^verbatim>\<open>function\<close>s with their termination proofs; the two loops over the parents of list items, which need not
  end, are partial functions whose value None is the request that never answers; all other loops
  of the code are structural recursion, and no definition needs fuel.

  \<^bold>\<open>Not modelled.\<close>  The gate of tenant features before a handler, throttling, serialisation of
  answers beyond the values they compute, notifications (but for the rows of missed calls), mail and
  SMS; the order of names in the
  collation of the database is a parameter.  Of billing: the registration and provisioning of
  tenants (the branch of the webhook that creates a tenant comes after an insert that always fails),
  the second payment provider and platform statistics.  Of the web shop:
  the log-in of customers, courier bookings (but for the reports of the courier on orders) and pages.  Of the tickets: tags, attachments,
  form submissions, summaries of time over several tickets and the support page.  Of the calls: the configuration
  of the telephone exchange (its rows change arbitrarily in the model), recordings as files and SMS.
  The application for social inboxes is left out: it translates events and payloads of social
  platforms, which the sources do not define, into rows.  The remaining applications hold
  pages, texts and settings.
\<close>

end
